(* ===== verification/Prelude.thy ===== *)
theory Prelude
  imports Complex_Main "HOL-Library.Multiset"
begin

text \<open>
  What every component of the development shares: the types of identifiers and
  instants, errors as values, the parts of Go's \<^verbatim>\<open>strings\<close> package the modelled code
  calls, the reading of SQL statements over tables kept as lists of rows, and the
  contracts (locales) that several components satisfy.

  Instants (\<^verbatim>\<open>time.Time\<close>, \<^verbatim>\<open>TIMESTAMPTZ\<close>) are whole microseconds since the Unix epoch, the
  precision the database keeps; what a server clock reads below that is dropped, as the
  driver drops it before every comparison made by a statement.  UUIDs are
  strings; a generated one (\<^verbatim>\<open>gen_random_uuid()\<close>, \<^verbatim>\<open>uuid.NewString()\<close>) is an argument of
  the operation that uses it.  A table is the list of its rows in insertion order; the
  bookkeeping columns \<^verbatim>\<open>created_at\<close> and \<^verbatim>\<open>updated_at\<close> are left out, no modelled
  query reads them unless the row's record has them.  Strings are byte strings, and case folding and
  trimming follow ASCII.
\<close>

section \<open>Types\<close>

type_synonym time = int
type_synonym duration = int
type_synonym uuid = string

definition second :: duration where
  "second = 1000000"

definition millisecond :: duration where
  "millisecond = second div 1000"

text \<open>The zero \<^verbatim>\<open>time.Time\<close> (year 1) and the nil UUID.\<close>

definition zero_time :: time where
  "zero_time = - 62135596800 * second"

definition uuid_nil :: uuid where
  "uuid_nil = ''00000000-0000-0000-0000-000000000000''"

definition trunc_div :: "int \<Rightarrow> int \<Rightarrow> int" where
  "trunc_div a b = sgn a * sgn b * (\<bar>a\<bar> div \<bar>b\<bar>)"

definition duration_seconds :: "duration \<Rightarrow> int" where
  "duration_seconds d = trunc_div d second"

datatype repo_error =
    ErrNotFound
  | ErrConflict string
  | ErrBadRequest string
  | ErrScheduleConflict
  | UniqueViolation
  | ForeignKeyViolation
  | CheckViolation
  | TxAborted
  | OtherError string

datatype http_error = HttpError nat string | RawError repo_error

type_synonym ('e, 'a, 's) effect = "('e + 'a) \<times> 's"

definition MapError :: "repo_error \<Rightarrow> http_error" where
  "MapError err = (case err of
     ErrNotFound \<Rightarrow> HttpError 404 ''resource not found''
   | ErrConflict msg \<Rightarrow> HttpError 409 msg
   | ErrBadRequest msg \<Rightarrow> HttpError 400 msg
   | UniqueViolation \<Rightarrow> HttpError 409 ''duplicate''
   | ForeignKeyViolation \<Rightarrow> HttpError 422 ''invalid reference''
   | CheckViolation \<Rightarrow> HttpError 422 ''constraint violation''
   | _ \<Rightarrow> RawError err)"

section \<open>Strings\<close>

definition lower_char :: "char \<Rightarrow> char" where
  "lower_char c = (let n = of_char c :: nat in if 65 \<le> n \<and> n \<le> 90 then char_of (n + 32) else c)"

definition upper_char :: "char \<Rightarrow> char" where
  "upper_char c = (let n = of_char c :: nat in if 97 \<le> n \<and> n \<le> 122 then char_of (n - 32) else c)"

definition to_lower :: "string \<Rightarrow> string" where
  "to_lower = map lower_char"

definition to_upper :: "string \<Rightarrow> string" where
  "to_upper = map upper_char"

definition is_space :: "char \<Rightarrow> bool" where
  "is_space c = (let n = of_char c :: nat in (9 \<le> n \<and> n \<le> 13) \<or> n = 32)"

definition trim_space :: "string \<Rightarrow> string" where
  "trim_space s = rev (dropWhile is_space (rev (dropWhile is_space s)))"

definition has_prefix :: "string \<Rightarrow> string \<Rightarrow> bool" where
  "has_prefix s p = (take (length p) s = p)"

definition trim_prefix :: "string \<Rightarrow> string \<Rightarrow> string" where
  "trim_prefix s p = (if has_prefix s p then drop (length p) s else s)"

definition has_suffix :: "string \<Rightarrow> string \<Rightarrow> bool" where
  "has_suffix s p = (length p \<le> length s \<and> drop (length s - length p) s = p)"

definition trim_suffix :: "string \<Rightarrow> string \<Rightarrow> string" where
  "trim_suffix s p = (if has_suffix s p then take (length s - length p) s else s)"

fun index_str :: "string \<Rightarrow> string \<Rightarrow> nat option" where
  "index_str [] sub = (if sub = [] then Some 0 else None)"
| "index_str (c # cs) sub =
     (if has_prefix (c # cs) sub then Some 0 else map_option Suc (index_str cs sub))"

definition contains_str :: "string \<Rightarrow> string \<Rightarrow> bool" where
  "contains_str s sub = (index_str s sub \<noteq> None)"

function split_on :: "string \<Rightarrow> string \<Rightarrow> string list" where
  "split_on sep s =
     (if sep = [] then map (\<lambda>c. [c]) s
      else case index_str s sep of
        None \<Rightarrow> [s]
      | Some i \<Rightarrow> if i + length sep \<le> length s
                  then take i s # split_on sep (drop (i + length sep) s) else [s])"
  by pat_completeness auto
termination
  by (relation "measure (\<lambda>(sep, s). length s)")
    (auto simp: neq_Nil_conv intro!: diff_less)

fun join :: "string \<Rightarrow> string list \<Rightarrow> string" where
  "join sep [] = []"
| "join sep [x] = x"
| "join sep (x # y # ys) = x @ sep @ join sep (y # ys)"

section \<open>Tables and statements\<close>

definition first_row :: "'r list \<Rightarrow> 'r option" where
  "first_row rows = (case rows of [] \<Rightarrow> None | r # _ \<Rightarrow> Some r)"

definition update_where :: "('r \<Rightarrow> bool) \<Rightarrow> ('r \<Rightarrow> 'r) \<Rightarrow> 'r list \<Rightarrow> 'r list" where
  "update_where p f rows = map (\<lambda>r. if p r then f r else r) rows"

definition keys :: "('r \<Rightarrow> 'k) \<Rightarrow> 'r list \<Rightarrow> 'k set" where
  "keys k rows = k ` set rows"

definition unique_key :: "('r \<Rightarrow> 'k) \<Rightarrow> 'r list \<Rightarrow> bool" where
  "unique_key k rows = distinct (map k rows)"

definition insert_do_nothing :: "('r \<Rightarrow> 'k) \<Rightarrow> 'r \<Rightarrow> 'r list \<Rightarrow> 'r list \<times> bool" where
  "insert_do_nothing k r rows =
     (if List.find (\<lambda>x. k x = k r) rows \<noteq> None then (rows, False) else (rows @ [r], True))"

section \<open>Lemmas on strings, finders and tables\<close>

declare split_on.simps [simp del]

lemma first_row_simps [simp]:
  "first_row [] = None" "first_row (r # rs) = Some r"
  by (simp_all add: first_row_def)

lemma first_row_None_iff [simp]: "first_row rows = None \<longleftrightarrow> rows = []"
  by (cases rows) simp_all

lemma first_row_Some_in: "first_row rows = Some r \<Longrightarrow> r \<in> set rows"
  by (cases rows) simp_all

lemma find_Some_in: "List.find p xs = Some x \<Longrightarrow> x \<in> set xs \<and> p x"
  by (metis find_Some_iff nth_mem)

lemma find_unique:
  assumes "distinct (map k xs)" "x \<in> set xs" "k x = a"
  shows "List.find (\<lambda>r. k r = a) xs = Some x"
  using assms by (induction xs) (auto simp: image_iff)

lemma first_row_sort_min:
  assumes "first_row (sort_key f xs) = Some r"
  shows "r \<in> set xs \<and> (\<forall>x \<in> set xs. f r \<le> f x)"
proof (cases "sort_key f xs")
  case Nil
  with assms show ?thesis by simp
next
  case (Cons y ys)
  with assms have r: "r = y" by simp
  have s: "sorted (map f (sort_key f xs))" by simp
  have "set (sort_key f xs) = set xs" by simp
  with s r Cons show ?thesis by (auto simp del: set_sort)
qed

lemma update_where_length [simp]: "length (update_where p f rows) = length rows"
  by (simp add: update_where_def)

lemma map_update_where:
  "(\<And>r. k (f r) = k r) \<Longrightarrow> map k (update_where p f rows) = map k rows"
  by (simp add: update_where_def)

lemma update_where_append: "update_where p f (xs @ ys) = update_where p f xs @ update_where p f ys"
  by (simp add: update_where_def)

lemma in_update_where:
  "x \<in> set (update_where p f rows) \<longleftrightarrow> (\<exists>r \<in> set rows. x = (if p r then f r else r))"
  by (auto simp: update_where_def)

lemma find_update_where_key:
  assumes "\<And>r. k (f r) = k r"
  shows "List.find (\<lambda>r. k r = a) (update_where p f rows) =
    map_option (\<lambda>r. if p r then f r else r) (List.find (\<lambda>r. k r = a) rows)"
  using assms by (induction rows) (auto simp: update_where_def)

lemma insert_do_nothing_cases:
  "insert_do_nothing k r rows =
     (if k r \<in> keys k rows then (rows, False) else (rows @ [r], True))"
  by (auto simp: insert_do_nothing_def keys_def find_None_iff intro: rev_image_eqI)

lemma distinct_map_replace:
  assumes "distinct (map f xs)" "distinct (map g xs)" "\<forall>x \<in> set xs. f x \<noteq> i \<longrightarrow> g x \<noteq> v"
  shows "distinct (map (\<lambda>x. if f x = i then v else g x) xs)"
  using assms
proof (induction xs)
  case (Cons a xs)
  then have ih: "distinct (map (\<lambda>x. if f x = i then v else g x) xs)" by simp
  have a: "\<forall>x \<in> set xs. f x \<noteq> f a" "\<forall>x \<in> set xs. g x \<noteq> g a"
    using Cons.prems by (auto intro: rev_image_eqI)
  show ?case
  proof (cases "f a = i")
    case True
    with a Cons.prems ih show ?thesis by auto
  next
    case False
    with a Cons.prems ih show ?thesis by auto
  qed
qed simp

lemma keys_simps [simp]:
  "keys k [] = {}" "keys k (r # rows) = insert (k r) (keys k rows)"
  "keys k (xs @ ys) = keys k xs \<union> keys k ys"
  by (auto simp: keys_def)

lemma unique_key_snoc:
  "unique_key k rows \<Longrightarrow> k r \<notin> keys k rows \<Longrightarrow> unique_key k (rows @ [r])"
  by (auto simp: unique_key_def keys_def)

lemma unique_key_update: "(\<And>r. k (f r) = k r) \<Longrightarrow> unique_key k (update_where p f rows) \<longleftrightarrow> unique_key k rows"
  by (simp add: unique_key_def map_update_where)

lemma keys_update: "(\<And>r. k (f r) = k r) \<Longrightarrow> keys k (update_where p f rows) = keys k rows"
  unfolding keys_def set_map [symmetric] by (simp only: map_update_where)

lemma ball_update: "(\<forall>x \<in> set (update_where p f rows). Q x) \<longleftrightarrow> (\<forall>x \<in> set rows. Q (if p x then f x else x))"
  by (auto simp: update_where_def)

lemma not_in_keys: "a \<notin> keys k rows \<longleftrightarrow> (\<forall>x \<in> set rows. k x \<noteq> a)"
  by (auto simp: keys_def)

lemma update_where_none: "(\<And>x. x \<in> set rows \<Longrightarrow> \<not> p x) \<Longrightarrow> update_where p f rows = rows"
  by (induction rows) (auto simp: update_where_def)

lemma unique_key_eq: "unique_key k rows \<Longrightarrow> x \<in> set rows \<Longrightarrow> y \<in> set rows \<Longrightarrow> k x = k y \<Longrightarrow> x = y"
  by (auto simp: unique_key_def distinct_map dest: inj_onD)

lemma div_in_span: "(0 :: int) < c \<Longrightarrow> q * c \<le> x \<Longrightarrow> x < q * c + c \<Longrightarrow> x div c = q"
  by (rule int_div_pos_eq [of x c q "x - q * c"]) (simp_all add: algebra_simps)

lemma trunc_div_nonneg: "0 \<le> a \<Longrightarrow> 0 < b \<Longrightarrow> trunc_div a b = a div b"
  by (cases "a = 0") (simp_all add: trunc_div_def)

lemma duration_seconds_nonneg: "0 \<le> d \<Longrightarrow> duration_seconds d = d div second"
  by (simp add: duration_seconds_def trunc_div_nonneg second_def)

section \<open>Contracts shared by the components\<close>

text \<open>
  A ledger is a table written only by an insert that does nothing when the key is
  already there: the watch-once ledger, the export ledger, the instruction logs and the
  mastery evidence are of this kind.  The contract is what the statement
  \<^verbatim>\<open>INSERT ... ON CONFLICT (key) DO NOTHING\<close> promises; the lemmas are what retries rely on.
\<close>

locale ledger =
  fixes key :: "'r \<Rightarrow> 'k"
    and ins :: "'r \<Rightarrow> 'r list \<Rightarrow> 'r list \<times> bool"
  assumes ins_old: "key r \<in> keys key rows \<Longrightarrow> ins r rows = (rows, False)"
    and ins_new: "key r \<notin> keys key rows \<Longrightarrow> ins r rows = (rows @ [r], True)"
begin

lemma ins_unique: "unique_key key rows \<Longrightarrow> unique_key key (fst (ins r rows))"
  by (cases "key r \<in> keys key rows") (simp_all add: ins_old ins_new unique_key_snoc)

lemma ins_keys: "keys key (fst (ins r rows)) = insert (key r) (keys key rows)"
  by (cases "key r \<in> keys key rows") (auto simp: ins_old ins_new)

lemma ins_reports: "snd (ins r rows) \<longleftrightarrow> key r \<notin> keys key rows"
  by (cases "key r \<in> keys key rows") (simp_all add: ins_old ins_new)

lemma ins_retry: "key r' = key r \<Longrightarrow> ins r' (fst (ins r rows)) = (fst (ins r rows), False)"
  using ins_keys [of r rows] by (intro ins_old) simp

lemma ins_keeps: "x \<in> set rows \<Longrightarrow> x \<in> set (fst (ins r rows))"
  by (cases "key r \<in> keys key rows") (simp_all add: ins_old ins_new)

lemma fold_ins_unique:
  "unique_key key rows \<Longrightarrow> unique_key key (fold (\<lambda>r t. fst (ins r t)) rs rows)"
  by (induction rs arbitrary: rows) (simp_all add: ins_unique)

lemma fold_ins_keys:
  "keys key (fold (\<lambda>r t. fst (ins r t)) rs rows) = key ` set rs \<union> keys key rows"
  by (induction rs arbitrary: rows) (auto simp: ins_keys)

end

interpretation do_nothing: ledger k "insert_do_nothing k" for k :: "'r \<Rightarrow> 'k"
  by unfold_locales (simp_all add: insert_do_nothing_cases)

text \<open>
  A system whose steps keep an invariant keeps it in every reachable state.
\<close>

inductive reachable :: "('s \<Rightarrow> bool) \<Rightarrow> ('s \<Rightarrow> 's \<Rightarrow> bool) \<Rightarrow> 's \<Rightarrow> bool"
  for init :: "'s \<Rightarrow> bool" and step :: "'s \<Rightarrow> 's \<Rightarrow> bool" where
  start: "init s \<Longrightarrow> reachable init step s"
| next_state: "reachable init step s \<Longrightarrow> step s t \<Longrightarrow> reachable init step t"

locale invariant_system =
  fixes init :: "'s \<Rightarrow> bool"
    and step :: "'s \<Rightarrow> 's \<Rightarrow> bool"
    and inv :: "'s \<Rightarrow> bool"
  assumes inv_init: "init s \<Longrightarrow> inv s"
    and inv_step: "inv s \<Longrightarrow> step s t \<Longrightarrow> inv t"
begin

lemma inv_reachable: "reachable init step s \<Longrightarrow> inv s"
  by (induction rule: reachable.induct) (blast intro: inv_init inv_step)+

end

end
