(* ===== verification/Float64.thy ===== *)
theory Float64
  imports Complex_Main
begin

text \<open>
  Go's \<^verbatim>\<open>float64\<close> as the rationals it denotes.  Every IEEE-754 operation returns the
  exact result rounded to the nearest representable value, ties to even, so a
  floating-point expression of the source is written as the exact expression with
  \<open>fl\<close> around each operation and around each decimal literal.  \<open>fl\<close> rounds to a
  53-bit significand with the subnormal exponent floor of \<^verbatim>\<open>float64\<close>; overflow to
  infinity and NaN are not modelled, no expression of the modelled code leaves the
  finite range.  The lemmas say that \<open>fl\<close> is monotone, fixes the representable values
  and is idempotent, and that the one product the television service compares against
  (0.8 times a runtime) decides the exact rational comparison.
\<close>

section \<open>Rounding\<close>

function int_log2 :: "int \<Rightarrow> int" where
  "int_log2 n = (if n \<le> 1 then 0 else 1 + int_log2 (n div 2))"
  by pat_completeness auto
termination by (relation "measure nat") auto

declare int_log2.simps [simp del]

definition pow2 :: "int \<Rightarrow> rat" where
  "pow2 e = (if 0 \<le> e then 2 ^ nat e else 1 / 2 ^ nat (- e))"

definition binexp :: "rat \<Rightarrow> int" where
  "binexp x = (case quotient_of x of (p, q) \<Rightarrow>
     let e = int_log2 p - int_log2 q
     in if pow2 e \<le> x then e else e - 1)"

definition quantum :: "rat \<Rightarrow> rat" where
  "quantum x = pow2 (max (binexp \<bar>x\<bar>) (- 1022) - 52)"

definition rne :: "rat \<Rightarrow> int" where
  "rne y = (let f = \<lfloor>y\<rfloor>; d = y - of_int f in
     if d < 1 / 2 then f else if d > 1 / 2 then f + 1 else if even f then f else f + 1)"

definition fl :: "rat \<Rightarrow> rat" where
  "fl x = (if x = 0 then 0 else of_int (rne (x / quantum x)) * quantum x)"


abbreviation fadd :: "rat \<Rightarrow> rat \<Rightarrow> rat" where
  "fadd x y \<equiv> fl (x + y)"

abbreviation fmul :: "rat \<Rightarrow> rat \<Rightarrow> rat" where
  "fmul x y \<equiv> fl (x * y)"

abbreviation fdiv :: "rat \<Rightarrow> rat \<Rightarrow> rat" where
  "fdiv x y \<equiv> fl (x / y)"

section \<open>Powers of two and binary exponents\<close>

lemma pow2_pos [simp]: "0 < pow2 e"
  by (simp add: pow2_def)

lemma pow2_nonzero [simp]: "pow2 e \<noteq> 0"
  by (simp add: pow2_def)

lemma pow2_Suc: "pow2 (e + 1) = 2 * pow2 e"
proof (cases "0 \<le> e")
  case True
  then have "nat (e + 1) = Suc (nat e)" by simp
  with True show ?thesis by (simp add: pow2_def)
next
  case False
  then have "nat (- e) = Suc (nat (- (e + 1)))" by simp
  with False show ?thesis by (auto simp: pow2_def)
qed

lemma pow2_plus_nat: "pow2 (e + int n) = pow2 e * 2 ^ n"
proof (induction n)
  case (Suc n)
  have "pow2 (e + int (Suc n)) = pow2 (e + int n + 1)"
    by (simp add: algebra_simps)
  with Suc show ?case by (simp add: pow2_Suc)
qed simp

lemma pow2_le_scale: "a \<le> b \<Longrightarrow> pow2 b = pow2 a * 2 ^ nat (b - a)"
  using pow2_plus_nat [of a "nat (b - a)"] by simp

lemma pow2_div: "a \<le> b \<Longrightarrow> pow2 b / pow2 a = of_int (2 ^ nat (b - a))"
  by (simp add: pow2_le_scale)

lemma pow2_mono: "a \<le> b \<Longrightarrow> pow2 a \<le> pow2 b"
  by (simp add: pow2_le_scale)

lemma pow2_strict: "a < b \<Longrightarrow> pow2 a < pow2 b"
  using pow2_mono [of "a + 1" b] pow2_pos [of a] unfolding pow2_Suc by linarith

lemma pow2_less_iff: "pow2 a < pow2 b \<longleftrightarrow> a < b"
  by (metis linorder_not_less order_less_imp_not_less pow2_mono pow2_strict)

lemma pow2_nat: "0 \<le> e \<Longrightarrow> pow2 e = of_int (2 ^ nat e)"
  by (simp add: pow2_def)

lemma int_log2_nonneg: "0 \<le> int_log2 n"
  by (induction n rule: int_log2.induct) (subst int_log2.simps, simp)

lemma int_log2_bounds: "0 < n \<Longrightarrow> pow2 (int_log2 n) \<le> of_int n \<and> of_int n < pow2 (int_log2 n + 1)"
proof (induction n rule: int_log2.induct)
  case (1 n)
  show ?case
  proof (cases "n \<le> 1")
    case True
    with 1 have "n = 1" by simp
    then show ?thesis by (simp add: int_log2.simps pow2_def)
  next
    case False
    let ?k = "int_log2 (n div 2)"
    have IH: "pow2 ?k \<le> of_int (n div 2)" "of_int (n div 2) < pow2 (?k + 1)"
      using 1 False by auto
    have eq: "int_log2 n = ?k + 1"
      using False by (subst int_log2.simps) simp
    have "pow2 (?k + 1) = of_int (2 ^ nat (?k + 1))"
      using int_log2_nonneg by (simp add: pow2_nat)
    with IH(2) have lt: "n div 2 + 1 \<le> 2 ^ nat (?k + 1)"
      by (metis add.commute of_int_less_iff zless_imp_add1_zle)
    have "rat_of_int (n div 2 + 1) \<le> pow2 (?k + 1)"
      using lt by (metis \<open>pow2 (?k + 1) = of_int (2 ^ nat (?k + 1))\<close> of_int_le_iff)
    moreover have "rat_of_int n < 2 * of_int (n div 2 + 1)" "2 * rat_of_int (n div 2) \<le> of_int n"
    proof -
      have "n < 2 * (n div 2 + 1)" "2 * (n div 2) \<le> n" by auto
      then show "rat_of_int n < 2 * of_int (n div 2 + 1)" "2 * rat_of_int (n div 2) \<le> of_int n"
        by (metis of_int_less_iff of_int_mult of_int_numeral, metis of_int_le_iff of_int_mult of_int_numeral)
    qed
    ultimately show ?thesis
      using IH(1) unfolding eq pow2_Suc [of "?k + 1"] pow2_Suc [of ?k] by linarith
  qed
qed

lemma binexp_bounds:
  assumes "0 < x"
  shows "pow2 (binexp x) \<le> x \<and> x < pow2 (binexp x + 1)"
proof -
  obtain p q where pq: "quotient_of x = (p, q)" by fastforce
  have q: "0 < q" using pq by (rule quotient_of_denom_pos)
  have x: "x = of_int p / of_int q" using pq by (rule quotient_of_div)
  with assms q have p: "0 < p" by (simp add: zero_less_divide_iff)
  let ?a = "int_log2 p" and ?b = "int_log2 q" and ?e = "int_log2 p - int_log2 q"
  have P: "pow2 ?a \<le> of_int p" "of_int p < pow2 (?a + 1)" using int_log2_bounds [OF p] by auto
  have Q: "pow2 ?b \<le> of_int q" "of_int q < pow2 (?b + 1)" using int_log2_bounds [OF q] by auto
  have nb: "0 \<le> ?b" by (rule int_log2_nonneg)
  have s: "pow2 ?e * pow2 ?b = pow2 ?a" 
    using pow2_plus_nat [of ?e "nat ?b"] nb by (simp add: pow2_def)
  have s1: "pow2 ?e = 2 * pow2 (?e - 1)" using pow2_Suc [of "?e - 1"] by simp
  have upper: "x < pow2 (?e + 1)"
  proof -
    have "of_int p < pow2 (?e + 1) * pow2 ?b"
      using P(2) s unfolding pow2_Suc by (metis mult.assoc)
    also have "\<dots> \<le> pow2 (?e + 1) * of_int q" using Q(1) by simp
    finally show ?thesis using q x by (simp add: divide_less_eq)
  qed
  have lower: "pow2 (?e - 1) \<le> x"
  proof -
    have "pow2 (?e - 1) * of_int q \<le> pow2 (?e - 1) * pow2 (?b + 1)" using Q(2) by simp
    also have "\<dots> = pow2 ?a" using s s1 by (simp add: pow2_Suc)
    also have "\<dots> \<le> of_int p" by (rule P(1))
    finally show ?thesis using q x by (simp add: le_divide_eq)
  qed
  show ?thesis
    using upper lower by (auto simp: binexp_def pq Let_def)
qed

lemma binexp_unique:
  assumes "pow2 e \<le> x" "x < pow2 (e + 1)"
  shows "binexp x = e"
proof -
  have "0 < x" using assms(1) pow2_pos [of e] by linarith
  from binexp_bounds [OF this] assms have "pow2 (binexp x) < pow2 (e + 1)" "pow2 e < pow2 (binexp x + 1)"
    by linarith+
  then show ?thesis by (simp add: pow2_less_iff)
qed

lemma binexp_mono: "0 < x \<Longrightarrow> x \<le> y \<Longrightarrow> binexp x \<le> binexp y"
proof -
  assume "0 < x" "x \<le> y"
  then have "pow2 (binexp x) < pow2 (binexp y + 1)"
    using binexp_bounds [of x] binexp_bounds [of y] by linarith
  then show ?thesis by (simp add: pow2_less_iff)
qed

section \<open>Rounding is monotone and exact on representable values\<close>

lemma rne_of_int [simp]: "rne (of_int k) = k"
  by (simp add: rne_def)

lemma rne_near: "\<bar>of_int (rne y) - y\<bar> \<le> 1 / 2"
proof -
  have "of_int \<lfloor>y\<rfloor> \<le> y" "y < of_int \<lfloor>y\<rfloor> + 1" by linarith+
  then show ?thesis by (auto simp: rne_def Let_def abs_le_iff field_simps)
qed

lemma rne_mono: "x \<le> y \<Longrightarrow> rne x \<le> rne y"
proof -
  assume xy: "x \<le> y"
  show ?thesis
  proof (cases "\<lfloor>x\<rfloor> = \<lfloor>y\<rfloor>")
    case True
    with xy show ?thesis by (auto simp: rne_def Let_def)
  next
    case False
    with xy have "\<lfloor>x\<rfloor> + 1 \<le> \<lfloor>y\<rfloor>" using floor_mono [OF xy] by linarith
    moreover have "rne x \<le> \<lfloor>x\<rfloor> + 1" "\<lfloor>y\<rfloor> \<le> rne y" by (auto simp: rne_def Let_def)
    ultimately show ?thesis by linarith
  qed
qed

lemma rne_down: "0 \<le> d \<Longrightarrow> d < 1 / 2 \<Longrightarrow> rne (of_int k + d) = k"
proof -
  assume d: "0 \<le> d" "d < 1 / 2"
  then have "\<lfloor>of_int k + d\<rfloor> = k" by linarith
  with d show ?thesis by (simp add: rne_def)
qed

lemma quantum_pos [simp]: "0 < quantum x"
  by (simp add: quantum_def)

lemma quantum_nonzero [simp]: "quantum x \<noteq> 0"
  by (simp add: quantum_def)

lemma fl_0 [simp]: "fl 0 = 0"
  by (simp add: fl_def)

lemma fl_representable:
  assumes k: "0 \<le> k" "k \<le> 2 ^ 53" and e: "- 1074 \<le> e"
  shows "fl (of_int k * pow2 e) = of_int k * pow2 e"
proof (cases "k = 0")
  case False
  let ?x = "of_int k * pow2 e"
  have kpos: "0 < k" using k False by simp
  then have x: "0 < ?x" by simp
  let ?b = "binexp ?x" and ?m = "max (binexp ?x) (- 1022) - 52"
  have b: "pow2 ?b \<le> ?x" "?x < pow2 (?b + 1)" using binexp_bounds [OF x] by auto
  have q: "quantum ?x = pow2 ?m" using x by (simp add: quantum_def abs_of_pos)
  have "\<exists>j::int. ?x / pow2 ?m = of_int j"
  proof (cases "?m \<le> e")
    case True
    have "?x / pow2 ?m = of_int (k * 2 ^ nat (e - ?m))"
      using pow2_div [OF True] by (metis of_int_mult times_divide_eq_right)
    then show ?thesis by blast
  next
    case False
    then have ge: "e + 53 \<le> ?b" using e by linarith
    have p53: "pow2 (e + 53) = pow2 e * 2 ^ 53" using pow2_plus_nat [of e 53] by simp
    have "of_int k \<le> (2 ^ 53 :: rat)" using k(2) by (metis of_int_le_iff of_int_numeral of_int_power)
    then have "?x \<le> pow2 (e + 53)" using p53 by (simp add: mult.commute)
    moreover have "pow2 (e + 53) \<le> pow2 ?b" using ge by (rule pow2_mono)
    ultimately have eq: "?x = pow2 ?b" and "pow2 ?b = pow2 (e + 53)" using b(1) by linarith+
    have "?m \<le> ?b" "?m = ?b - 52" using ge e by auto
    then have "?x / pow2 ?m = of_int (2 ^ nat (?b - ?m))"
      using eq pow2_div [of ?m ?b] by metis
    then show ?thesis by blast
  qed
  then obtain j where j: "?x / quantum ?x = of_int j" using q by auto
  then have "fl ?x = of_int j * quantum ?x" using kpos by (simp add: fl_def)
  also have "\<dots> = ?x" using j quantum_pos [of ?x] by (simp add: field_simps)
  finally show ?thesis .
qed simp

lemma fl_of_int: "0 \<le> n \<Longrightarrow> n \<le> 2 ^ 53 \<Longrightarrow> fl (of_int n) = of_int n"
  using fl_representable [of n 0] by (simp add: pow2_def)

lemma fl_nonneg: "0 \<le> x \<Longrightarrow> 0 \<le> fl x"
  using rne_mono [of 0 "x / quantum x"] rne_of_int [of 0] quantum_pos [of x]
  by (simp add: fl_def less_imp_le)

lemma fl_nonpos: "x \<le> 0 \<Longrightarrow> fl x \<le> 0"
  using rne_mono [of "x / quantum x" 0] rne_of_int [of 0] quantum_pos [of x]
  by (simp add: fl_def less_imp_le divide_le_0_iff mult_le_0_iff)

lemma fl_mono:
  assumes "0 \<le> x" "x \<le> y"
  shows "fl x \<le> fl y"
proof (cases "x = 0")
  case True
  then show ?thesis using assms fl_nonneg [of y] by simp
next
  case False
  then have x: "0 < x" and y: "0 < y" using assms by auto
  show ?thesis
  proof (cases "quantum x = quantum y")
    case True
    have "x / quantum x \<le> y / quantum x" using assms(2) by (simp add: divide_right_mono less_imp_le)
    then have "rat_of_int (rne (x / quantum x)) \<le> of_int (rne (y / quantum x))"
      by (simp add: rne_mono)
    then show ?thesis using True x y by (simp add: fl_def)
  next
    case False
    let ?ex = "max (binexp x) (- 1022)" and ?ey = "max (binexp y) (- 1022)"
    have qx: "quantum x = pow2 (?ex - 52)" and qy: "quantum y = pow2 (?ey - 52)"
      using x y by (simp_all add: quantum_def abs_of_pos)
    have le: "?ex \<le> ?ey" using binexp_mono [OF x assms(2)] by (simp add: max_def)
    then have lt: "?ex + 1 \<le> ?ey" using False qx qy by (cases "?ex = ?ey") auto
    have "pow2 (binexp x + 1) \<le> pow2 (?ex + 1)" by (rule pow2_mono) simp
    then have bx: "x < pow2 (?ex + 1)" using binexp_bounds [OF x] by linarith
    have "binexp y = ?ey" using lt by linarith
    then have ley: "pow2 ?ey \<le> y" using binexp_bounds [OF y] by simp
    have r1: "pow2 (?ex + 1) / quantum x = of_int (2 ^ 53)"
      using pow2_div [of "?ex - 52" "?ex + 1"] qx by simp
    have r2: "pow2 ?ey / quantum y = of_int (2 ^ 52)"
      using pow2_div [of "?ey - 52" ?ey] qy by simp
    have "x / quantum x \<le> of_int (2 ^ 53)"
      using bx r1 by (metis divide_right_mono less_imp_le quantum_pos)
    then have "rne (x / quantum x) \<le> 2 ^ 53" using rne_mono rne_of_int by metis
    then have "fl x \<le> of_int (2 ^ 53) * quantum x" using x
      by (simp add: fl_def)
    also have "\<dots> = pow2 (?ex + 1)" using r1 by (simp add: field_simps)
    also have "\<dots> \<le> pow2 ?ey" using lt by (rule pow2_mono)
    also have "\<dots> = of_int (2 ^ 52) * quantum y" using r2 by (simp add: field_simps)
    also have "\<dots> \<le> fl y"
    proof -
      have "of_int (2 ^ 52) \<le> y / quantum y"
        using ley r2 by (metis divide_right_mono less_imp_le quantum_pos)
      then have "2 ^ 52 \<le> rne (y / quantum y)" using rne_mono rne_of_int by metis
      then have "rat_of_int (2 ^ 52) \<le> of_int (rne (y / quantum y))" by (simp only: of_int_le_iff)
      then show ?thesis using y by (simp add: fl_def)
    qed
    finally show ?thesis .
  qed
qed


lemma fl_idem: "0 \<le> x \<Longrightarrow> fl (fl x) = fl x"
proof (cases "x = 0")
  case False
  assume "0 \<le> x"
  with False have x: "0 < x" by simp
  let ?e = "max (binexp x) (- 1022)"
  have q: "quantum x = pow2 (?e - 52)" using x by (simp add: quantum_def abs_of_pos)
  have "pow2 (binexp x + 1) \<le> pow2 (?e + 1)" by (rule pow2_mono) simp
  then have "x < pow2 (?e + 1)" using binexp_bounds [OF x] by linarith
  moreover have "pow2 (?e + 1) / quantum x = of_int (2 ^ 53)"
    using pow2_div [of "?e - 52" "?e + 1"] q by simp
  ultimately have "x / quantum x \<le> of_int (2 ^ 53)"
    by (metis divide_right_mono less_imp_le quantum_pos)
  then have up: "rne (x / quantum x) \<le> 2 ^ 53" using rne_mono rne_of_int by metis
  have "0 \<le> x / quantum x" using x by (simp add: less_imp_le)
  then have lo: "0 \<le> rne (x / quantum x)" using rne_mono [of 0 "x / quantum x"] rne_of_int [of 0] by simp
  have "fl x = of_int (rne (x / quantum x)) * pow2 (?e - 52)" using x q by (simp add: fl_def)
  then show ?thesis using fl_representable [OF lo up, of "?e - 52"] by simp
qed simp

lemma fl_ge: "0 \<le> y \<Longrightarrow> fl y = y \<Longrightarrow> y \<le> x \<Longrightarrow> y \<le> fl x"
  using fl_mono [of y x] by simp

lemma fl_le: "0 \<le> x \<Longrightarrow> fl y = y \<Longrightarrow> x \<le> y \<Longrightarrow> fl x \<le> y"
  using fl_mono [of x y] by simp

lemma rne_minus: "rne (- y) = - rne y"
proof (cases "y = of_int \<lfloor>y\<rfloor>")
  case True
  then show ?thesis using rne_of_int by (metis of_int_minus)
next
  case False
  define f where "f = \<lfloor>y\<rfloor>"
  define d where "d = y - of_int f"
  have "of_int f \<le> y" "y < of_int f + 1" unfolding f_def by linarith+
  moreover have "of_int f \<noteq> y" using False by (metis f_def)
  ultimately have "\<lfloor>- y\<rfloor> = - f - 1" by (simp add: floor_eq_iff)
  moreover have "- y - of_int (- f - 1) = 1 - d" by (simp add: d_def)
  ultimately show ?thesis
    unfolding rne_def Let_def f_def [symmetric] d_def [symmetric]
    by (auto simp: d_def)
qed

lemma fl_minus: "fl (- x) = - fl x"
  by (simp add: fl_def quantum_def rne_minus)

section \<open>The completion threshold\<close>

lemma fl_08: "fl (8 / 10) = 3602879701896397 / 4503599627370496"
  by code_simp

lemma fl_just_above:
  assumes m: "1 \<le> m" "m < 2 ^ 52" and x: "x = of_int m * (1 + 1 / 2 ^ 54)"
  shows "fl x = of_int m"
proof -
  have mr: "1 \<le> rat_of_int m" using m by simp
  then have x1: "1 \<le> x" "of_int m \<le> x" and x0: "0 < x" using x by (simp_all add: field_simps)
  let ?e = "binexp x"
  have b: "pow2 ?e \<le> x" "x < pow2 (?e + 1)" using binexp_bounds [OF x0] by auto
  have "pow2 0 < pow2 (?e + 1)" using x1 b by (simp add: pow2_def)
  then have e0: "0 \<le> ?e" by (simp add: pow2_less_iff)
  have "rat_of_int (m + 1) \<le> rat_of_int (2 ^ 52)" using m(2) by (simp only: of_int_le_iff)
  then have "rat_of_int m + 1 \<le> 2 ^ 52" by simp
  then have "x < pow2 52" using x mr by (simp add: pow2_def)
  with b have "pow2 ?e < pow2 52" by linarith
  then have e52: "?e < 52" by (simp add: pow2_less_iff)
  have q: "quantum x = pow2 (?e - 52)" using x0 e0 by (simp add: quantum_def abs_of_pos)
  have inv: "pow2 0 / pow2 (?e - 52) = of_int (2 ^ nat (52 - ?e))"
    using pow2_div [of "?e - 52" 0] e52 by simp
  then have mq: "of_int m / quantum x = of_int (m * 2 ^ nat (52 - ?e))"
    unfolding q by (simp add: pow2_def field_simps)
  have p52: "pow2 ?e / quantum x = 2 ^ 52"
    unfolding q using pow2_div [of "?e - 52" ?e] by simp
  let ?d = "of_int m / 2 ^ 54 / quantum x"
  have "of_int m < pow2 ?e * 2" using x1 b(2) unfolding pow2_Suc by linarith
  then have "of_int m / 2 ^ 54 < pow2 ?e / 2 ^ 53" by simp
  then have "?d < pow2 ?e / 2 ^ 53 / quantum x" by (rule divide_strict_right_mono) simp
  also have "\<dots> = 1 / 2" using p52 by (simp add: field_simps)
  finally have d: "?d < 1 / 2" .
  have d0: "0 \<le> ?d" using mr by (simp add: less_imp_le)
  have "x = of_int m + of_int m / 2 ^ 54" unfolding x by (simp add: field_simps)
  then have "x / quantum x = of_int (m * 2 ^ nat (52 - ?e)) + ?d"
    using mq by (metis add_divide_distrib)
  then have "rne (x / quantum x) = m * 2 ^ nat (52 - ?e)" using rne_down [OF d0 d] by metis
  then have "fl x = of_int (m * 2 ^ nat (52 - ?e)) * quantum x" using x0 unfolding fl_def by simp
  then show ?thesis using mq by (metis nonzero_eq_divide_eq quantum_nonzero)
qed

lemma fl_mult_08:
  assumes r: "0 < r" "r < 2 ^ 31"
  shows "fl (fl (8 / 10) * of_int r) \<le> of_int m \<longleftrightarrow> 4 * r \<le> 5 * m"
proof -
  let ?x = "fl (8 / 10) * rat_of_int r"
  have rr: "0 < rat_of_int r" using r by simp
  have xe: "?x = (4 * of_int r) / 5 * (1 + 1 / 2 ^ 54)"
    unfolding fl_08 by (simp add: field_simps)
  have x0: "0 < ?x" and x4: "4 * of_int r \<le> 5 * ?x" and xr: "?x \<le> of_int r"
    using rr unfolding xe by simp_all
  show ?thesis
  proof (cases "4 * r \<le> 5 * m")
    case le: True
    have "fl ?x \<le> of_int m"
    proof (cases "4 * r = 5 * m")
      case True
      then have "rat_of_int (4 * r) = rat_of_int (5 * m)" by (rule arg_cong)
      then have "?x = of_int m * (1 + 1 / 2 ^ 54)" unfolding xe by simp
      moreover have "1 \<le> m" "m < 2 ^ 52" using True r by auto
      ultimately show ?thesis using fl_just_above by simp
    next
      case False
      show ?thesis
      proof (cases "m \<le> r")
        case True
        have "rat_of_int (4 * r + 1) \<le> rat_of_int (5 * m)" using le False by (simp only: of_int_le_iff)
        moreover have "rat_of_int r < 2 ^ 31" using r(2) by (metis of_int_less_iff of_int_numeral of_int_power)
        ultimately have "?x \<le> of_int m" unfolding xe by simp
        moreover have "fl (of_int m) = rat_of_int m" using True r le by (intro fl_of_int) auto
        ultimately show ?thesis using x0 by (intro fl_le) simp_all
      next
        case False
        have "fl ?x \<le> of_int r" using x0 xr r by (intro fl_le fl_of_int) auto
        also have "\<dots> \<le> of_int m" using False by simp
        finally show ?thesis .
      qed
    qed
    then show ?thesis using le by simp
  next
    case False
    have "rat_of_int m < fl ?x"
    proof (cases "m < 0")
      case True
      then have "rat_of_int m < 0" by simp
      with fl_nonneg [of ?x] x0 show ?thesis by linarith
    next
      case m: False
      let ?y = "rat_of_int (8 * m + 1) * pow2 (- 3)"
      have ye: "?y = of_int m + 1 / 8" by (simp add: pow2_def)
      have y: "fl ?y = ?y" using m False r by (intro fl_representable) auto
      have "rat_of_int (5 * m + 1) \<le> rat_of_int (4 * r)" using False by (simp only: of_int_le_iff)
      then have "?y \<le> ?x" using x4 unfolding ye by simp
      moreover have "0 \<le> ?y" unfolding ye using m by simp
      ultimately have "?y \<le> fl ?x" using y fl_ge by blast
      then show ?thesis unfolding ye by linarith
    qed
    then show ?thesis using False by simp
  qed
qed

end
