(* ===== verification/TV_Model.thy ===== *)
theory TV_Model
  imports Prelude Float64
begin

text \<open>
  The TV server's entities (\<^verbatim>\<open>tv/domain/domain.go\<close>), its tables with the constraints of
  \<^verbatim>\<open>tv/db/migrations/00001_initial_schema.sql\<close>, and the generic repository operations the
  handlers call on them (\<^verbatim>\<open>repo/resource.go\<close>).  A class, mode or kind is the string the code
  stores.  Every insert checks the constraints of its table: a primary or unique key
  that is taken gives a unique violation, a dangling reference a foreign key violation,
  an integer outside the column's 32 bits an encoding error; a failed statement leaves the
  database as it was.
\<close>

section \<open>Entities\<close>

definition ClassEducational :: string where "ClassEducational = ''educational''"
definition ClassEntertainment :: string where "ClassEntertainment = ''entertainment''"
definition ClassMixed :: string where "ClassMixed = ''mixed''"

definition ModeOnDemand :: string where "ModeOnDemand = ''on_demand''"
definition ModeProgrammed :: string where "ModeProgrammed = ''programmed''"

definition BlockMorning :: string where "BlockMorning = ''morning''"
definition BlockMidday :: string where "BlockMidday = ''midday''"
definition BlockAfternoon :: string where "BlockAfternoon = ''afternoon''"
definition BlockEvening :: string where "BlockEvening = ''evening''"

record Device =
  dv_id :: uuid
  dv_name :: string
  dv_kind :: string
  dv_pairing_code :: string
  dv_pairing_expires_at :: "time option"
  dv_token_hash :: string
  dv_paired_at :: "time option"
  dv_revoked_at :: "time option"
  dv_last_seen_at :: "time option"

definition Paired :: "Device \<Rightarrow> bool" where
  "Paired d \<longleftrightarrow> dv_token_hash d \<noteq> [] \<and> dv_revoked_at d = None"

record MediaItem =
  mi_id :: uuid
  mi_jellyfin_item_id :: string
  mi_title :: string
  mi_sort_title :: string
  mi_overview :: string
  mi_class :: string
  mi_runtime_seconds :: int
  mi_subject_tags :: "string list"
  mi_standard_codes :: "string list"
  mi_quality_notes :: string
  mi_container :: string
  mi_video_codec :: string
  mi_audio_codec :: string
  mi_direct_play_ok :: bool
  mi_image_tag :: string
  mi_youtube_video_id :: "string option"
  mi_manifest_slug :: string
  mi_episode_key :: string
  mi_upload_date :: "time option"
  mi_title_locked :: bool
  mi_overview_locked :: bool
  mi_classification_locked :: bool
  mi_orphaned_at :: "time option"

definition ConsumesPlay :: "MediaItem \<Rightarrow> bool" where
  "ConsumesPlay m \<longleftrightarrow> mi_class m = ClassEntertainment"

definition youtubeTitleSep :: string where
  "youtubeTitleSep = '' '' @ [CHR 0xE2, CHR 0x80, CHR 0x94] @ '' ''"

definition ConstructedYouTubeTitle :: "string \<Rightarrow> string \<Rightarrow> string \<Rightarrow> string" where
  "ConstructedYouTubeTitle show_title episode_key video_title =
     (let s = trim_space show_title;
          e = trim_space episode_key;
          v = trim_space video_title;
          left = (if e \<noteq> [] then (if s \<noteq> [] then s @ '' '' @ e else e) else s)
      in if left \<noteq> [] \<and> v \<noteq> [] then left @ youtubeTitleSep @ v
         else if v \<noteq> [] then v else left)"

definition ShowTitleFromMediaItem :: "MediaItem \<Rightarrow> string" where
  "ShowTitleFromMediaItem item =
     (if mi_episode_key item = [] then []
      else let title = trim_space (mi_title item)
           in if title = [] then []
              else let left = (case index_str title youtubeTitleSep of
                                 Some i \<Rightarrow> trim_space (take i title) | None \<Rightarrow> title);
                       suffix = '' '' @ mi_episode_key item
                   in if has_suffix left suffix then trim_space (trim_suffix left suffix)
                      else if left = mi_episode_key item then [] else left)"

record AvailabilityWindow =
  aw_id :: uuid
  aw_media_item_id :: uuid
  aw_starts_at :: time
  aw_ends_at :: time
  aw_max_plays :: "int option"
  aw_note :: string

definition ActiveAt :: "AvailabilityWindow \<Rightarrow> time \<Rightarrow> bool" where
  "ActiveAt w now \<longleftrightarrow> \<not> now < aw_starts_at w \<and> now < aw_ends_at w"

record PlayLedgerEntry =
  pl_id :: uuid
  pl_media_item_id :: uuid
  pl_device_id :: "uuid option"
  pl_availability_window_id :: uuid
  pl_consumed_at :: time

record ScheduleEntry =
  se_id :: uuid
  se_media_item_id :: uuid
  se_airs_at :: time
  se_join_in_progress :: bool
  se_block :: string

record PlayGrant =
  pg_id :: uuid
  pg_media_item_id :: uuid
  pg_device_id :: uuid
  pg_availability_window_id :: "uuid option"
  pg_schedule_entry_id :: "uuid option"
  pg_mode :: string
  pg_stream_url :: string
  pg_start_offset_seconds :: int
  pg_issued_at :: time
  pg_expires_at :: time
  pg_consumed_at :: "time option"

definition Redeemable :: "PlayGrant \<Rightarrow> time \<Rightarrow> bool" where
  "Redeemable g now \<longleftrightarrow> pg_consumed_at g = None \<and> now < pg_expires_at g"

record PlaybackSession =
  ps_id :: uuid
  ps_grant_id :: uuid
  ps_media_item_id :: uuid
  ps_device_id :: uuid
  ps_started_at :: time
  ps_ended_at :: "time option"
  ps_watched_seconds :: int
  ps_max_position_seconds :: int
  ps_completed :: bool

record PrimerReport =
  pr_id :: uuid
  pr_playback_session_id :: uuid
  pr_reported_at :: time
  pr_primer_ref :: string

section \<open>Positions and completion\<close>

definition CompletionThreshold :: rat where "CompletionThreshold = fl (8 / 10)"
definition ResumeRewindSeconds :: int where "ResumeRewindSeconds = 30"
definition SeekRewindLimitSeconds :: int where "SeekRewindLimitSeconds = 5 * 60"

definition ResumePositionSeconds :: "int \<Rightarrow> int" where
  "ResumePositionSeconds furthest =
     (if furthest \<le> 0 then 0
      else let resume = furthest - ResumeRewindSeconds in if resume < 0 then 0 else resume)"

definition SeekFloorSeconds :: "int \<Rightarrow> int" where
  "SeekFloorSeconds furthest =
     (if furthest \<le> 0 then 0
      else let floor_at = furthest - SeekRewindLimitSeconds in if floor_at < 0 then 0 else floor_at)"

definition SessionCompletesPlay :: "bool \<Rightarrow> int \<Rightarrow> int \<Rightarrow> bool" where
  "SessionCompletesPlay completed max_position runtime =
     (if completed then True
      else if runtime \<le> 0 then False
      else fmul CompletionThreshold (fl (of_int runtime)) \<le> fl (of_int max_position))"

section \<open>The database\<close>

record tv_db =
  db_devices :: "Device list"
  db_media :: "MediaItem list"
  db_windows :: "AvailabilityWindow list"
  db_ledger :: "PlayLedgerEntry list"
  db_schedule :: "ScheduleEntry list"
  db_grants :: "PlayGrant list"
  db_sessions :: "PlaybackSession list"
  db_reports :: "PrimerReport list"

definition has_id :: "('r \<Rightarrow> 'k) \<Rightarrow> 'k \<Rightarrow> 'r list \<Rightarrow> bool" where
  "has_id k x rows = list_ex (\<lambda>r. k r = x) rows"

definition has_ref :: "('r \<Rightarrow> 'k) \<Rightarrow> 'k option \<Rightarrow> 'r list \<Rightarrow> bool" where
  "has_ref k x rows = (case x of None \<Rightarrow> True | Some i \<Rightarrow> has_id k i rows)"

definition int4_ok :: "int \<Rightarrow> bool" where
  "int4_ok n \<longleftrightarrow> - (2 ^ 31) \<le> n \<and> n < 2 ^ 31"

definition encode_error :: repo_error where
  "encode_error = OtherError ''unable to encode into int4''"

definition one_row :: "'r option \<Rightarrow> repo_error + 'r" where
  "one_row r = (case r of None \<Rightarrow> Inl ErrNotFound | Some x \<Rightarrow> Inr x)"

definition MediaItems_Get :: "tv_db \<Rightarrow> uuid \<Rightarrow> repo_error + MediaItem" where
  "MediaItems_Get db i = one_row (List.find (\<lambda>m. mi_id m = i) (db_media db))"

definition ScheduleEntries_Get :: "tv_db \<Rightarrow> uuid \<Rightarrow> repo_error + ScheduleEntry" where
  "ScheduleEntries_Get db i = one_row (List.find (\<lambda>e. se_id e = i) (db_schedule db))"

definition ScheduleEntries_Delete :: "uuid \<Rightarrow> tv_db \<Rightarrow> (repo_error, unit, tv_db) effect" where
  "ScheduleEntries_Delete i db =
     (if has_id se_id i (db_schedule db)
      then (Inr (), db\<lparr>
        db_schedule := filter (\<lambda>e. se_id e \<noteq> i) (db_schedule db),
        db_grants := update_where (\<lambda>g. pg_schedule_entry_id g = Some i)
          (\<lambda>g. g\<lparr>pg_schedule_entry_id := None\<rparr>) (db_grants db)\<rparr>)
      else (Inl ErrNotFound, db))"

definition grant_refs :: "tv_db \<Rightarrow> PlayGrant \<Rightarrow> bool" where
  "grant_refs db g \<longleftrightarrow> has_id mi_id (pg_media_item_id g) (db_media db)
     \<and> has_id dv_id (pg_device_id g) (db_devices db)
     \<and> has_ref aw_id (pg_availability_window_id g) (db_windows db)
     \<and> has_ref se_id (pg_schedule_entry_id g) (db_schedule db)"

definition PlayGrants_Create :: "PlayGrant \<Rightarrow> tv_db \<Rightarrow> (repo_error, PlayGrant, tv_db) effect" where
  "PlayGrants_Create g db =
     (if \<not> int4_ok (pg_start_offset_seconds g) then (Inl encode_error, db)
      else if has_id pg_id (pg_id g) (db_grants db) then (Inl UniqueViolation, db)
      else if \<not> grant_refs db g then (Inl ForeignKeyViolation, db)
      else (Inr g, db\<lparr>db_grants := db_grants db @ [g]\<rparr>))"

definition session_refs :: "tv_db \<Rightarrow> PlaybackSession \<Rightarrow> bool" where
  "session_refs db s \<longleftrightarrow> int4_ok (ps_watched_seconds s) \<and> int4_ok (ps_max_position_seconds s)
     \<and> has_id pg_id (ps_grant_id s) (db_grants db)
     \<and> has_id mi_id (ps_media_item_id s) (db_media db)
     \<and> has_id dv_id (ps_device_id s) (db_devices db)"

section \<open>What the schema keeps true\<close>

definition devices_ok :: "Device list \<Rightarrow> bool" where
  "devices_ok ds \<longleftrightarrow> unique_key dv_id ds
     \<and> unique_key dv_token_hash (filter (\<lambda>d. dv_token_hash d \<noteq> []) ds)
     \<and> unique_key dv_pairing_code (filter (\<lambda>d. dv_pairing_code d \<noteq> []) ds)"

definition media_ok :: "MediaItem list \<Rightarrow> bool" where
  "media_ok ms \<longleftrightarrow> unique_key mi_id ms \<and> unique_key mi_jellyfin_item_id ms
     \<and> (\<forall>m \<in> set ms. int4_ok (mi_runtime_seconds m))"

definition windows_ok :: "MediaItem list \<Rightarrow> AvailabilityWindow list \<Rightarrow> bool" where
  "windows_ok ms ws \<longleftrightarrow> unique_key aw_id ws
     \<and> (\<forall>w \<in> set ws. aw_starts_at w < aw_ends_at w \<and> has_id mi_id (aw_media_item_id w) ms)"

abbreviation ledger_key :: "PlayLedgerEntry \<Rightarrow> uuid \<times> uuid" where
  "ledger_key \<equiv> (\<lambda>l. (pl_media_item_id l, pl_availability_window_id l))"

definition ledger_ok :: "tv_db \<Rightarrow> bool" where
  "ledger_ok db \<longleftrightarrow> unique_key ledger_key (db_ledger db)
     \<and> (\<forall>l \<in> set (db_ledger db).
          has_id mi_id (pl_media_item_id l) (db_media db)
          \<and> has_id aw_id (pl_availability_window_id l) (db_windows db)
          \<and> has_ref dv_id (pl_device_id l) (db_devices db))"

abbreviation slot_key :: "ScheduleEntry \<Rightarrow> uuid \<times> time" where
  "slot_key \<equiv> (\<lambda>e. (se_media_item_id e, se_airs_at e))"

definition schedule_ok :: "MediaItem list \<Rightarrow> ScheduleEntry list \<Rightarrow> bool" where
  "schedule_ok ms es \<longleftrightarrow> unique_key se_id es \<and> unique_key slot_key es
     \<and> (\<forall>e \<in> set es. has_id mi_id (se_media_item_id e) ms)"

definition grants_ok :: "tv_db \<Rightarrow> bool" where
  "grants_ok db \<longleftrightarrow> unique_key pg_id (db_grants db) \<and> (\<forall>g \<in> set (db_grants db). grant_refs db g)"

definition sessions_ok :: "tv_db \<Rightarrow> bool" where
  "sessions_ok db \<longleftrightarrow> unique_key ps_id (db_sessions db) \<and> unique_key ps_grant_id (db_sessions db)
     \<and> (\<forall>s \<in> set (db_sessions db). session_refs db s)"

definition tv_wf :: "tv_db \<Rightarrow> bool" where
  "tv_wf db \<longleftrightarrow> devices_ok (db_devices db) \<and> media_ok (db_media db)
     \<and> windows_ok (db_media db) (db_windows db) \<and> ledger_ok db
     \<and> schedule_ok (db_media db) (db_schedule db) \<and> grants_ok db \<and> sessions_ok db"

section \<open>A small household\<close>

text \<open>Concrete rows for the evaluations: a paired tablet, a lesson and a film.\<close>

definition ex_device :: Device where
  "ex_device = \<lparr>dv_id = ''d1'', dv_name = ''tablet'', dv_kind = ''tablet'', dv_pairing_code = [],
     dv_pairing_expires_at = None, dv_token_hash = ''h1'', dv_paired_at = Some 0,
     dv_revoked_at = None, dv_last_seen_at = None\<rparr>"

definition ex_item :: "string \<Rightarrow> string \<Rightarrow> int \<Rightarrow> MediaItem" where
  "ex_item i cls runtime = \<lparr>mi_id = i, mi_jellyfin_item_id = ''j'' @ i, mi_title = i, mi_sort_title = i,
     mi_overview = [], mi_class = cls, mi_runtime_seconds = runtime, mi_subject_tags = [],
     mi_standard_codes = [], mi_quality_notes = [], mi_container = ''mp4'', mi_video_codec = ''h264'',
     mi_audio_codec = ''aac'', mi_direct_play_ok = True, mi_image_tag = [], mi_youtube_video_id = None,
     mi_manifest_slug = [], mi_episode_key = [], mi_upload_date = None, mi_title_locked = False,
     mi_overview_locked = False, mi_classification_locked = False, mi_orphaned_at = None\<rparr>"

definition ex_window :: AvailabilityWindow where
  "ex_window = \<lparr>aw_id = ''w1'', aw_media_item_id = ''m2'', aw_starts_at = 0,
     aw_ends_at = 1000000 * second, aw_max_plays = None, aw_note = []\<rparr>"

definition ex_entry :: ScheduleEntry where
  "ex_entry = \<lparr>se_id = ''e1'', se_media_item_id = ''m1'', se_airs_at = 1000 * second,
     se_join_in_progress = True, se_block = BlockMorning\<rparr>"

definition ex_db :: tv_db where
  "ex_db = \<lparr>db_devices = [ex_device],
     db_media = [ex_item ''m1'' ClassEducational 3600, ex_item ''m2'' ClassEntertainment 6000],
     db_windows = [ex_window], db_ledger = [], db_schedule = [ex_entry], db_grants = [],
     db_sessions = [], db_reports = []\<rparr>"

section \<open>Lemmas\<close>

lemma has_id_iff: "has_id k x rows \<longleftrightarrow> x \<in> keys k rows"
  by (auto simp: has_id_def list_ex_iff keys_def)

lemma has_ref_simps [simp]:
  "has_ref k None rows" "has_ref k (Some i) rows = has_id k i rows"
  by (simp_all add: has_ref_def)

lemma has_id_mono: "has_id k x rows \<Longrightarrow> set rows \<subseteq> set rows' \<Longrightarrow> has_id k x rows'"
  by (auto simp: has_id_def list_ex_iff)

lemma has_id_append [simp]: "has_id k x (xs @ ys) \<longleftrightarrow> has_id k x xs \<or> has_id k x ys"
  by (simp add: has_id_def)

lemma has_id_update_where [simp]:
  "(\<And>r. p r \<Longrightarrow> k (f r) = k r) \<Longrightarrow> has_id k x (update_where p f rows) = has_id k x rows"
  by (induction rows) (auto simp: has_id_def update_where_def)

lemma has_ref_mono: "has_ref k x rows \<Longrightarrow> set rows \<subseteq> set rows' \<Longrightarrow> has_ref k x rows'"
  by (cases x) (auto intro: has_id_mono)

lemma one_row_Inr [simp]: "one_row r = Inr x \<longleftrightarrow> r = Some x"
  by (cases r) (simp_all add: one_row_def)

lemma one_row_Inl [simp]: "one_row r = Inl e \<longleftrightarrow> r = None \<and> e = ErrNotFound"
  by (cases r) (auto simp: one_row_def)

lemma has_id_find: "has_id k i rows \<Longrightarrow> \<exists>r. List.find (\<lambda>r. k r = i) rows = Some r"
  by (induction rows) (auto simp: has_id_def)

lemma not_has_id_find: "\<not> has_id k i rows \<longleftrightarrow> List.find (\<lambda>r. k r = i) rows = None"
  by (induction rows) (auto simp: has_id_def)

lemma MediaItems_Get_Inr:
  "MediaItems_Get db i = Inr m \<Longrightarrow> m \<in> set (db_media db) \<and> mi_id m = i"
  by (auto simp: MediaItems_Get_def dest: find_Some_in)

lemma MediaItems_Get_wf:
  "tv_wf db \<Longrightarrow> m \<in> set (db_media db) \<Longrightarrow> MediaItems_Get db (mi_id m) = Inr m"
  by (auto simp: tv_wf_def media_ok_def unique_key_def MediaItems_Get_def intro: find_unique)

text \<open>
  The floating-point test of \<^verbatim>\<open>SessionCompletesPlay\<close> is exact: for every position and runtime an
  INTEGER column can hold, an unfinished session completes its play exactly when
  the runtime is known and the furthest position is at least four fifths of it.
\<close>

theorem SessionCompletesPlay_exact:
  assumes "int4_ok max_position" "int4_ok runtime"
  shows "SessionCompletesPlay completed max_position runtime \<longleftrightarrow>
    completed \<or> 0 < runtime \<and> 4 * runtime \<le> 5 * max_position"
proof (cases "completed \<or> runtime \<le> 0")
  case True
  then show ?thesis by (auto simp: SessionCompletesPlay_def)
next
  case False
  let ?t = "fmul CompletionThreshold (fl (of_int runtime))"
  have t: "?t \<le> of_int m \<longleftrightarrow> 4 * runtime \<le> 5 * m" for m
    using False assms fl_mult_08 [of runtime m] fl_of_int [of runtime]
    by (simp add: CompletionThreshold_def int4_ok_def)
  have "?t \<le> fl (of_int max_position) \<longleftrightarrow> 4 * runtime \<le> 5 * max_position"
  proof (cases "0 \<le> max_position")
    case True
    with assms fl_of_int [of max_position] t show ?thesis by (simp add: int4_ok_def)
  next
    case neg: False
    then have "fl (of_int max_position) \<le> 0" by (intro fl_nonpos) simp
    with t [of 0] False neg show ?thesis by auto
  qed
  with False show ?thesis by (simp add: SessionCompletesPlay_def)
qed

theorem SessionCompletesPlay_exact_witness:
  "SessionCompletesPlay False 80 100 \<and> \<not> SessionCompletesPlay False 79 100"
  using SessionCompletesPlay_exact [of 80 100 False] SessionCompletesPlay_exact [of 79 100 False]
  by (simp add: int4_ok_def)

lemma MediaItems_Get_has:
  "has_id mi_id i (db_media db) \<Longrightarrow> \<exists>m. MediaItems_Get db i = Inr m"
  using has_id_find [of mi_id i] by (auto simp: MediaItems_Get_def)

end
