(* ===== verification/Go_Time.thy ===== *)
theory Go_Time
  imports Prelude
begin

text \<open>
  The part of Go's \<^verbatim>\<open>time\<close> package the channel uses: reading an instant in a location,
  building an instant from a local date and clock (\<^verbatim>\<open>time.Date\<close>), adding calendar days
  (\<^verbatim>\<open>AddDate\<close>), and the two layouts \<^verbatim>\<open>2006-01-02\<close> and \<^verbatim>\<open>Mon 15:04\<close>.

  The zone database is data outside the repository, so a location carries the lookup
  function of its zone table: for a Unix second, the offset east of UTC in force and the
  span of seconds during which it is.  Calendar dates are day numbers (days since
  1970-01-01); year, month and day are computed from them only to parse and to print.
\<close>

section \<open>Locations and local time\<close>

record location =
  loc_name :: string
  loc_lookup :: "int \<Rightarrow> int \<times> int \<times> int"

definition UTC :: location where
  "UTC = \<lparr>loc_name = ''UTC'', loc_lookup = (\<lambda>_. (0, - (2 ^ 63), 2 ^ 63 - 1))\<rparr>"

abbreviation day_seconds :: int where
  "day_seconds \<equiv> 86400"

definition unix :: "time \<Rightarrow> int" where
  "unix t = t div second"

definition zone_offset :: "location \<Rightarrow> int \<Rightarrow> int" where
  "zone_offset loc s = fst (loc_lookup loc s)"

definition local_seconds :: "location \<Rightarrow> time \<Rightarrow> int" where
  "local_seconds loc t = unix t + zone_offset loc (unix t)"

definition local_day :: "location \<Rightarrow> time \<Rightarrow> int" where
  "local_day loc t = local_seconds loc t div day_seconds"

definition local_clock :: "location \<Rightarrow> time \<Rightarrow> int" where
  "local_clock loc t = local_seconds loc t mod day_seconds"

definition local_hour :: "location \<Rightarrow> time \<Rightarrow> int" where
  "local_hour loc t = local_clock loc t div 3600"

definition local_weekday :: "location \<Rightarrow> time \<Rightarrow> int" where
  "local_weekday loc t = (local_day loc t + 4) mod 7"

definition go_date :: "location \<Rightarrow> int \<Rightarrow> int \<Rightarrow> int \<Rightarrow> time" where
  "go_date loc day clock fr =
     (let u = day * day_seconds + clock;
          (off, st, en) = loc_lookup loc u
      in if off = 0 then u * second + fr
         else let utc = u - off;
                  off' = (if utc < st \<or> en \<le> utc then zone_offset loc utc else off)
              in (u - off') * second + fr)"

definition add_days :: "location \<Rightarrow> time \<Rightarrow> int \<Rightarrow> time" where
  "add_days loc t n = go_date loc (local_day loc t + n) (local_clock loc t) (t mod second)"

definition local_midnight :: "location \<Rightarrow> time \<Rightarrow> time" where
  "local_midnight loc t = go_date loc (local_day loc t) 0 0"

section \<open>Calendar dates\<close>

definition is_leap :: "int \<Rightarrow> bool" where
  "is_leap y \<longleftrightarrow> y mod 4 = 0 \<and> (y mod 100 \<noteq> 0 \<or> y mod 400 = 0)"

definition days_in_month :: "int \<Rightarrow> int \<Rightarrow> int" where
  "days_in_month y m = (if m = 2 then (if is_leap y then 29 else 28)
                        else if m \<in> {4, 6, 9, 11} then 30 else 31)"

definition days_from_civil :: "int \<Rightarrow> int \<Rightarrow> int \<Rightarrow> int" where
  "days_from_civil y m d =
     (let y' = (if m \<le> 2 then y - 1 else y);
          era = y' div 400;
          yoe = y' mod 400;
          doy = (153 * (if m > 2 then m - 3 else m + 9) + 2) div 5 + d - 1;
          doe = yoe * 365 + yoe div 4 - yoe div 100 + doy
      in era * 146097 + doe - 719468)"

definition civil_from_days :: "int \<Rightarrow> int \<times> int \<times> int" where
  "civil_from_days n =
     (let z = n + 719468;
          era = z div 146097;
          doe = z mod 146097;
          yoe = (doe - doe div 1460 + doe div 36524 - doe div 146096) div 365;
          doy = doe - (365 * yoe + yoe div 4 - yoe div 100);
          mp = (5 * doy + 2) div 153;
          d = doy - (153 * mp + 2) div 5 + 1;
          m = (if mp < 10 then mp + 3 else mp - 9);
          y = yoe + era * 400 + (if m \<le> 2 then 1 else 0)
      in (y, m, d))"

definition digit_char :: "int \<Rightarrow> char" where
  "digit_char n = char_of (nat (48 + n))"

definition is_digit :: "char \<Rightarrow> bool" where
  "is_digit c = (let n = of_char c :: nat in 48 \<le> n \<and> n \<le> 57)"

definition digit_val :: "char \<Rightarrow> int" where
  "digit_val c = int (of_char c) - 48"

definition digits_val :: "string \<Rightarrow> int" where
  "digits_val s = fold (\<lambda>c acc. acc * 10 + digit_val c) s 0"

fun digits_fixed :: "nat \<Rightarrow> int \<Rightarrow> string" where
  "digits_fixed 0 n = []"
| "digits_fixed (Suc w) n = digits_fixed w (n div 10) @ [digit_char (n mod 10)]"

definition parse_day :: "string \<Rightarrow> int option" where
  "parse_day s =
     (if length s = 10 \<and> s ! 4 = CHR ''-'' \<and> s ! 7 = CHR ''-''
         \<and> list_all is_digit (take 4 s) \<and> list_all is_digit (take 2 (drop 5 s))
         \<and> list_all is_digit (drop 8 s)
      then let y = digits_val (take 4 s); m = digits_val (take 2 (drop 5 s)); d = digits_val (drop 8 s)
           in if 1 \<le> m \<and> m \<le> 12 \<and> 1 \<le> d \<and> d \<le> days_in_month y m
              then Some (days_from_civil y m d) else None
      else None)"

definition format_day :: "location \<Rightarrow> time \<Rightarrow> string" where
  "format_day loc t =
     (case civil_from_days (local_day loc t) of (y, m, d) \<Rightarrow>
        digits_fixed 4 y @ ''-'' @ digits_fixed 2 m @ ''-'' @ digits_fixed 2 d)"

definition weekday_name :: "int \<Rightarrow> string" where
  "weekday_name n = [''Sun'', ''Mon'', ''Tue'', ''Wed'', ''Thu'', ''Fri'', ''Sat''] ! nat (n mod 7)"

definition format_slot :: "location \<Rightarrow> time \<Rightarrow> string" where
  "format_slot loc t =
     weekday_name (local_weekday loc t) @ '' '' @ digits_fixed 2 (local_hour loc t) @ '':'' @
     digits_fixed 2 (local_clock loc t div 60 mod 60)"

section \<open>What a zone table guarantees, and calendar shifts under it\<close>

text \<open>
  A zone table is regular when the span it reports contains the second asked for, is
  reported for every second it contains, lasts at least four days, and the offset is
  less than a day.
\<close>

definition regular_zone :: "location \<Rightarrow> bool" where
  "regular_zone loc \<longleftrightarrow>
     (\<forall>s off st en. loc_lookup loc s = (off, st, en) \<longrightarrow>
        st \<le> s \<and> s < en \<and> \<bar>off\<bar> < day_seconds \<and> st + 4 * day_seconds \<le> en \<and>
        (\<forall>s'. st \<le> s' \<and> s' < en \<longrightarrow> loc_lookup loc s' = (off, st, en)))"

lemma unix_whole [simp]: "0 \<le> f \<Longrightarrow> f < second \<Longrightarrow> unix (u * second + f) = u"
  by (simp add: unix_def second_def)

lemma instant_split: "t = unix t * second + t mod second"
  by (simp add: unix_def)

lemma frac_bounds: "0 \<le> t mod second" "t mod second < second"
  by (simp_all add: second_def)

lemma local_split: "local_day loc t * day_seconds + local_clock loc t = local_seconds loc t"
  by (simp add: local_day_def local_clock_def)

lemma regular_zoneD:
  assumes "regular_zone loc" "loc_lookup loc s = (off, st, en)"
  shows "st \<le> s" "s < en" "\<bar>off\<bar> < day_seconds" "st + 4 * day_seconds \<le> en"
    "\<And>s'. st \<le> s' \<Longrightarrow> s' < en \<Longrightarrow> loc_lookup loc s' = (off, st, en)"
  using assms unfolding regular_zone_def by blast+

lemma spans_apart:
  assumes reg: "regular_zone loc"
    and l1: "loc_lookup loc a = (o1, s1, e1)" and l2: "loc_lookup loc b = (o2, s2, e2)"
  shows "(o1, s1, e1) = (o2, s2, e2) \<or> e1 \<le> s2 \<or> e2 \<le> s1"
proof (cases "s2 < e1 \<and> s1 < e2")
  case True
  define m where "m = max s1 s2"
  from True regular_zoneD(4) [OF reg l1] regular_zoneD(4) [OF reg l2]
  have "s1 \<le> m" "m < e1" "s2 \<le> m" "m < e2" by (simp_all add: m_def)
  then have "loc_lookup loc m = (o1, s1, e1)" "loc_lookup loc m = (o2, s2, e2)"
    using regular_zoneD(5) [OF reg l1, of m] regular_zoneD(5) [OF reg l2, of m] by blast+
  then show ?thesis by simp
qed auto

lemma go_date_hits:
  assumes reg: "regular_zone loc"
    and ex: "v + zone_offset loc v = day * day_seconds + clock"
    and f: "0 \<le> f" "f < second"
  shows "local_seconds loc (go_date loc day clock f) = day * day_seconds + clock"
proof -
  define u where "u = day * day_seconds + clock"
  obtain off st en where l: "loc_lookup loc u = (off, st, en)" by (metis prod_cases3)
  note r = regular_zoneD [OF reg l]
  show ?thesis
  proof (cases "off = 0 \<or> (st \<le> u - off \<and> u - off < en)")
    case True
    with l r f show ?thesis
      by (auto simp: go_date_def u_def [symmetric] local_seconds_def zone_offset_def Let_def)
  next
    case False
    obtain off2 st2 en2 where l2: "loc_lookup loc (u - off) = (off2, st2, en2)" by (metis prod_cases3)
    obtain off3 st3 en3 where l3: "loc_lookup loc v = (off3, st3, en3)" by (metis prod_cases3)
    note r2 = regular_zoneD [OF reg l2] and r3 = regular_zoneD [OF reg l3]
    have v: "v = u - off3" using ex l3 by (simp add: u_def zone_offset_def)
    have "(off3, st3, en3) \<noteq> (off, st, en)" using False v r3 by auto
    moreover have "(off2, st2, en2) \<noteq> (off, st, en)" using False r2 by auto
    ultimately have "en3 \<le> st \<or> en \<le> st3" "en2 \<le> st \<or> en \<le> st2"
      using spans_apart [OF reg l l2] spans_apart [OF reg l l3] by auto
    with spans_apart [OF reg l2 l3] v r(1-4) r2(1-4) r3(1-4) have "off3 = off2"
      by (elim disjE) auto
    with v l3 have "zone_offset loc (u - off2) = off2" by (simp add: zone_offset_def)
    with False l l2 f show ?thesis
      by (auto simp: go_date_def u_def [symmetric] local_seconds_def zone_offset_def Let_def)
  qed
qed

lemma UTC_simps [simp]:
  "zone_offset UTC s = 0" "local_seconds UTC t = unix t"
  "go_date UTC d c f = (d * day_seconds + c) * second + f"
  by (simp_all add: UTC_def zone_offset_def local_seconds_def go_date_def)

lemma add_days_UTC: "add_days UTC t n = t + n * day_seconds * second"
proof -
  have "add_days UTC t n = (local_seconds UTC t + n * day_seconds) * second + t mod second"
    unfolding local_split [symmetric] by (simp add: add_days_def algebra_simps)
  also have "\<dots> = unix t * second + t mod second + n * day_seconds * second"
    by (simp add: algebra_simps)
  finally show ?thesis by (simp add: instant_split [symmetric])
qed

text \<open>
  Adding calendar days keeps the wall clock and moves the date by that many days,
  provided the local time asked for exists.
\<close>

lemma add_days_local:
  assumes "regular_zone loc"
    and "v + zone_offset loc v = local_seconds loc t + n * day_seconds"
  shows "local_day loc (add_days loc t n) = local_day loc t + n"
    "local_clock loc (add_days loc t n) = local_clock loc t"
proof -
  have "local_seconds loc (add_days loc t n) = (local_day loc t + n) * day_seconds + local_clock loc t"
    unfolding add_days_def using assms frac_bounds [of t] local_split [of loc t]
    by (intro go_date_hits [where v = v]) (simp_all add: algebra_simps)
  then show "local_day loc (add_days loc t n) = local_day loc t + n"
    "local_clock loc (add_days loc t n) = local_clock loc t"
    by (simp_all add: local_day_def local_clock_def)
qed

section \<open>A zone with changes of an hour\<close>

text \<open>A zone that alternates, every two hundred days, between six and five hours west of UTC.\<close>

definition ex_zone :: location where
  "ex_zone = \<lparr>loc_name = ''ex'', loc_lookup = (\<lambda>s. let w = s div (200 * day_seconds) in
     (if even w then - 21600 else - 18000, w * (200 * day_seconds), (w + 1) * (200 * day_seconds)))\<rparr>"

lemma ex_zone_regular: "regular_zone ex_zone"
  unfolding regular_zone_def
proof (intro allI impI)
  fix s off st en
  assume "loc_lookup ex_zone s = (off, st, en)"
  then have eq: "off = (if even (s div 17280000) then - 21600 else - 18000)"
      "st = s div 17280000 * 17280000" "en = s div 17280000 * 17280000 + 17280000"
    by (auto simp: ex_zone_def Let_def)
  have "loc_lookup ex_zone s' = (off, st, en)" if "st \<le> s' \<and> s' < en" for s'
  proof -
    have "s' div 17280000 = s div 17280000" using that unfolding eq by (intro div_in_span) auto
    then show ?thesis by (simp add: ex_zone_def Let_def eq)
  qed
  then show "st \<le> s \<and> s < en \<and> \<bar>off\<bar> < day_seconds \<and> st + 4 * day_seconds \<le> en \<and>
      (\<forall>s'. st \<le> s' \<and> s' < en \<longrightarrow> loc_lookup ex_zone s' = (off, st, en))"
    by (auto simp: eq)
qed

end
