(* ===== verification/TV_Schedule.thy ===== *)
theory TV_Schedule
  imports TV_Model Go_Time
begin

text \<open>
  The programmed channel: the grid queries and guarded writes of
  \<^verbatim>\<open>tv/repo/schedule.go\<close>, the device endpoints of \<^verbatim>\<open>tv/api/schedule.go\<close> and the admin
  operations of \<^verbatim>\<open>tv/api/schedule_admin.go\<close>.

  The channel is one linear stream: the invariant \<open>no_overlap\<close> says that no two entries
  with a known runtime are on air at the same instant, and every operation that writes the
  grid keeps it.  Rows that tie in an ORDER BY come in insertion order.
\<close>

section \<open>Airings\<close>

record Airing = ScheduleEntry +
  ai_ends_at :: time
  ai_title :: string
  ai_overview :: string
  ai_class :: string
  ai_runtime_seconds :: int
  ai_subject_tags :: "string list"
  ai_direct_play_ok :: bool
  ai_jellyfin_item_id :: string

definition slot_end :: "time \<Rightarrow> int \<Rightarrow> time" where
  "slot_end airs runtime = airs + runtime * second"

definition airing_of :: "ScheduleEntry \<Rightarrow> MediaItem \<Rightarrow> Airing" where
  "airing_of e m = \<lparr>
     se_id = se_id e, se_media_item_id = se_media_item_id e, se_airs_at = se_airs_at e,
     se_join_in_progress = se_join_in_progress e, se_block = se_block e,
     ai_ends_at = slot_end (se_airs_at e) (mi_runtime_seconds m),
     ai_title = mi_title m, ai_overview = mi_overview m, ai_class = mi_class m,
     ai_runtime_seconds = mi_runtime_seconds m, ai_subject_tags = mi_subject_tags m,
     ai_direct_play_ok = mi_direct_play_ok m, ai_jellyfin_item_id = mi_jellyfin_item_id m\<rparr>"

definition airings :: "tv_db \<Rightarrow> Airing list" where
  "airings db = concat (map (\<lambda>e. map (airing_of e)
     (filter (\<lambda>m. mi_id m = se_media_item_id e) (db_media db))) (db_schedule db))"

definition OffsetSecondsAt :: "Airing \<Rightarrow> time \<Rightarrow> int" where
  "OffsetSecondsAt a now =
     (if now < se_airs_at a then 0
      else let offset = duration_seconds (now - se_airs_at a)
           in if offset > ai_runtime_seconds a then ai_runtime_seconds a else offset)"

definition StartOffsetSecondsAt :: "Airing \<Rightarrow> time \<Rightarrow> int" where
  "StartOffsetSecondsAt a now = (if \<not> se_join_in_progress a then 0 else OffsetSecondsAt a now)"

definition on_air :: "time \<Rightarrow> Airing \<Rightarrow> bool" where
  "on_air now a \<longleftrightarrow> se_airs_at a \<le> now \<and> ai_ends_at a > now"

definition AiringAt :: "tv_db \<Rightarrow> time \<Rightarrow> repo_error + Airing" where
  "AiringAt db now = one_row (first_row
     (sort_key (\<lambda>a. - se_airs_at a) (filter (on_air now) (airings db))))"

definition NextAiringAfter :: "tv_db \<Rightarrow> time \<Rightarrow> repo_error + Airing" where
  "NextAiringAfter db now = one_row (first_row
     (sort_key se_airs_at (filter (\<lambda>a. se_airs_at a > now) (airings db))))"

definition AiringsBetween :: "tv_db \<Rightarrow> time \<Rightarrow> time \<Rightarrow> Airing list" where
  "AiringsBetween db from to =
     sort_key se_airs_at (filter (\<lambda>a. se_airs_at a < to \<and> ai_ends_at a > from) (airings db))"

definition overlaps :: "time \<Rightarrow> int \<Rightarrow> Airing \<Rightarrow> bool" where
  "overlaps start runtime a \<longleftrightarrow> se_airs_at a < slot_end start runtime \<and> ai_ends_at a > start"

definition ConflictingAirings :: "tv_db \<Rightarrow> uuid \<Rightarrow> time \<Rightarrow> uuid \<Rightarrow> Airing list" where
  "ConflictingAirings db media_id airs_at exclude_id =
     sort_key se_airs_at (concat (map (\<lambda>c. filter
       (\<lambda>a. (exclude_id = [] \<or> se_id a \<noteq> exclude_id) \<and> overlaps airs_at (mi_runtime_seconds c) a)
       (airings db)) (filter (\<lambda>c. mi_id c = media_id) (db_media db))))"

section \<open>Guarded writes\<close>

definition CreateScheduleEntry ::
  "uuid \<Rightarrow> uuid \<Rightarrow> time \<Rightarrow> bool \<Rightarrow> string \<Rightarrow> tv_db \<Rightarrow> (repo_error, ScheduleEntry, tv_db) effect" where
  "CreateScheduleEntry new_id media_id airs_at join_ip block db =
     (case List.find (\<lambda>m. mi_id m = media_id) (db_media db) of
        None \<Rightarrow> (Inl ErrScheduleConflict, db)
      | Some c \<Rightarrow>
          if list_ex (overlaps airs_at (mi_runtime_seconds c)) (airings db)
          then (Inl ErrScheduleConflict, db)
          else let e = \<lparr>se_id = new_id, se_media_item_id = mi_id c, se_airs_at = airs_at,
                        se_join_in_progress = join_ip, se_block = block\<rparr>
               in if has_id se_id new_id (db_schedule db)
                     \<or> has_id slot_key (slot_key e) (db_schedule db)
                  then (Inl UniqueViolation, db)
                  else (Inr e, db\<lparr>db_schedule := db_schedule db @ [e]\<rparr>))"

definition UpdateScheduleEntry ::
  "uuid \<Rightarrow> uuid \<Rightarrow> time \<Rightarrow> bool \<Rightarrow> string \<Rightarrow> tv_db \<Rightarrow> (repo_error, ScheduleEntry, tv_db) effect" where
  "UpdateScheduleEntry i media_id airs_at join_ip block db =
     (case List.find (\<lambda>m. mi_id m = media_id) (db_media db) of
        None \<Rightarrow> (Inl ErrScheduleConflict, db)
      | Some c \<Rightarrow>
          if \<not> has_id se_id i (db_schedule db)
             \<or> list_ex (\<lambda>a. overlaps airs_at (mi_runtime_seconds c) a \<and> se_id a \<noteq> i) (airings db)
          then (Inl ErrScheduleConflict, db)
          else let e = \<lparr>se_id = i, se_media_item_id = mi_id c, se_airs_at = airs_at,
                        se_join_in_progress = join_ip, se_block = block\<rparr>
               in if list_ex (\<lambda>o'. se_id o' \<noteq> i \<and> slot_key o' = slot_key e) (db_schedule db)
                  then (Inl UniqueViolation, db)
                  else (Inr e, db\<lparr>db_schedule :=
                         update_where (\<lambda>o'. se_id o' = i) (\<lambda>_. e) (db_schedule db)\<rparr>))"

section \<open>The server's configuration and the device endpoints\<close>

record tv_server =
  sv_location :: "location option"
  sv_grant_ttl :: duration
  sv_jellyfin :: "(string \<Rightarrow> string) option"

definition server_location :: "tv_server \<Rightarrow> location" where
  "server_location s = (case sv_location s of None \<Rightarrow> UTC | Some l \<Rightarrow> l)"

definition imageProxyPath :: "uuid \<Rightarrow> string \<Rightarrow> string" where
  "imageProxyPath media_id image_type = ''/images/'' @ media_id @ ''/'' @ image_type"

definition require_device :: "Device option \<Rightarrow> http_error + Device" where
  "require_device ctx = (case ctx of
     None \<Rightarrow> Inl (HttpError 401 ''device not authenticated'') | Some d \<Rightarrow> Inr d)"

record Programme =
  pr_schedule_entry_id :: uuid
  pr_media_item_id :: uuid
  pr_title :: string
  pr_overview :: string
  pr_class :: string
  pr_subject_tags :: "string list"
  pr_runtime_seconds :: int
  pr_airs_at :: time
  pr_ends_at :: time
  pr_block :: string
  pr_join_in_progress :: bool
  pr_direct_play_ok :: bool
  pr_image_url :: string

definition toProgramme :: "Airing \<Rightarrow> Programme" where
  "toProgramme a = \<lparr>
     pr_schedule_entry_id = se_id a, pr_media_item_id = se_media_item_id a,
     pr_title = ai_title a, pr_overview = ai_overview a, pr_class = ai_class a,
     pr_subject_tags = ai_subject_tags a, pr_runtime_seconds = ai_runtime_seconds a,
     pr_airs_at = se_airs_at a, pr_ends_at = ai_ends_at a, pr_block = se_block a,
     pr_join_in_progress = se_join_in_progress a, pr_direct_play_ok = ai_direct_play_ok a,
     pr_image_url = imageProxyPath (se_media_item_id a) ''Primary''\<rparr>"

record NowResponse =
  nr_on_air :: "Programme option"
  nr_offset_seconds :: int
  nr_start_offset_seconds :: int
  nr_next :: "Programme option"
  nr_next_starts_in_seconds :: int
  nr_server_time :: time

definition getNow :: "Device option \<Rightarrow> time \<Rightarrow> tv_db \<Rightarrow> http_error + NowResponse" where
  "getNow ctx now db = (case require_device ctx of Inl e \<Rightarrow> Inl e | Inr _ \<Rightarrow>
     let body = \<lparr>nr_on_air = None, nr_offset_seconds = 0, nr_start_offset_seconds = 0,
                 nr_next = None, nr_next_starts_in_seconds = 0, nr_server_time = now\<rparr>;
         with_airing = (case AiringAt db now of
             Inr a \<Rightarrow> Inr (body\<lparr>nr_on_air := Some (toProgramme a),
                               nr_offset_seconds := OffsetSecondsAt a now,
                               nr_start_offset_seconds := StartOffsetSecondsAt a now\<rparr>)
           | Inl err \<Rightarrow> if err = ErrNotFound then Inr body else Inl (MapError err))
     in case with_airing of Inl e \<Rightarrow> Inl e | Inr b \<Rightarrow>
          (case NextAiringAfter db now of
             Inr n \<Rightarrow> Inr (b\<lparr>nr_next := Some (toProgramme n),
                            nr_next_starts_in_seconds := duration_seconds (se_airs_at n - now)\<rparr>)
           | Inl err \<Rightarrow> if err = ErrNotFound then Inr b else Inl (MapError err)))"

definition dayBounds :: "tv_server \<Rightarrow> string \<Rightarrow> time \<Rightarrow> http_error + time \<times> time" where
  "dayBounds s day now =
     (let loc = server_location s;
          start = (if day \<noteq> []
                   then map_option (\<lambda>n. go_date loc n 0 0) (parse_day day)
                   else Some now)
      in case start of
           None \<Rightarrow> Inl (HttpError 400 ''day must be a calendar date in YYYY-MM-DD form'')
         | Some l \<Rightarrow> let st = local_midnight loc l in Inr (st, add_days loc st 1))"

record ScheduleResponse =
  sr_day :: string
  sr_timezone :: string
  sr_day_starts_at :: time
  sr_day_ends_at :: time
  sr_programmes :: "Programme list"
  sr_server_time :: time

definition getSchedule ::
  "tv_server \<Rightarrow> Device option \<Rightarrow> string \<Rightarrow> time \<Rightarrow> tv_db \<Rightarrow> http_error + ScheduleResponse" where
  "getSchedule s ctx day now db =
     (case require_device ctx of Inl e \<Rightarrow> Inl e | Inr _ \<Rightarrow>
      case dayBounds s day now of Inl e \<Rightarrow> Inl e | Inr (start, end') \<Rightarrow>
        Inr \<lparr>sr_day = format_day (server_location s) start,
             sr_timezone = loc_name (server_location s),
             sr_day_starts_at = start, sr_day_ends_at = end',
             sr_programmes = map toProgramme (AiringsBetween db start end'),
             sr_server_time = now\<rparr>)"

definition programmedGrant ::
  "tv_server \<Rightarrow> (string \<Rightarrow> string) \<Rightarrow> uuid \<Rightarrow> uuid \<Rightarrow> uuid \<Rightarrow> time \<Rightarrow> tv_db
   \<Rightarrow> (http_error, PlayGrant, tv_db) effect" where
  "programmedGrant s stream_url new_id media_id device_id now db =
     (case AiringAt db now of
        Inl err \<Rightarrow> (Inl (if err = ErrNotFound
                         then HttpError 403 ''nothing is airing on the channel right now''
                         else MapError err), db)
      | Inr airing \<Rightarrow>
          if se_media_item_id airing \<noteq> media_id
          then (Inl (HttpError 403 ''that programme is not airing now; the channel does not offer catch-up''), db)
          else if \<not> ai_direct_play_ok airing
          then (Inl (HttpError 403 ''item is not direct-play compatible''), db)
          else case PlayGrants_Create \<lparr>pg_id = new_id,
                 pg_media_item_id = se_media_item_id airing, pg_device_id = device_id,
                 pg_availability_window_id = None, pg_schedule_entry_id = Some (se_id airing),
                 pg_mode = ModeProgrammed, pg_stream_url = stream_url (ai_jellyfin_item_id airing),
                 pg_start_offset_seconds = StartOffsetSecondsAt airing now,
                 pg_issued_at = now, pg_expires_at = now + sv_grant_ttl s,
                 pg_consumed_at = None\<rparr> db of
               (Inl err, db') \<Rightarrow> (Inl (MapError err), db')
             | (Inr g, db') \<Rightarrow> (Inr g, db'))"

section \<open>Administration of the grid\<close>

definition MaxGridDays :: int where "MaxGridDays = 31"
definition DaysPerWeek :: int where "DaysPerWeek = 7"

record GridResponse =
  gr_timezone :: string
  gr_starts_at :: time
  gr_ends_at :: time
  gr_days :: int
  gr_programmes :: "Programme list"
  gr_server_time :: time

definition getScheduleGrid ::
  "tv_server \<Rightarrow> string \<Rightarrow> int \<Rightarrow> time \<Rightarrow> tv_db \<Rightarrow> http_error + GridResponse" where
  "getScheduleGrid s from in_days now db =
     (case dayBounds s from now of Inl e \<Rightarrow> Inl e | Inr (start, _) \<Rightarrow>
        let d = (if in_days \<le> 0 then DaysPerWeek else in_days);
            days = (if d > MaxGridDays then MaxGridDays else d);
            end' = add_days (server_location s) start days
        in Inr \<lparr>gr_timezone = loc_name (server_location s), gr_starts_at = start,
                gr_ends_at = end', gr_days = days,
                gr_programmes = map toProgramme (AiringsBetween db start end'),
                gr_server_time = now\<rparr>)"

definition blockFor :: "location \<Rightarrow> time \<Rightarrow> string" where
  "blockFor loc t = (let hour = local_hour loc t in
     if hour < 11 then BlockMorning else if hour < 14 then BlockMidday
     else if hour < 18 then BlockAfternoon else BlockEvening)"

definition derefOr :: "'a option \<Rightarrow> 'a \<Rightarrow> 'a" where
  "derefOr p fallback = (case p of None \<Rightarrow> fallback | Some x \<Rightarrow> x)"

definition scheduleWriteError ::
  "tv_server \<Rightarrow> repo_error \<Rightarrow> uuid \<Rightarrow> time \<Rightarrow> uuid \<Rightarrow> tv_db \<Rightarrow> http_error" where
  "scheduleWriteError s err media_id airs_at exclude_id db =
     (if err \<noteq> ErrScheduleConflict then MapError err
      else let conflicts = ConflictingAirings db media_id airs_at exclude_id
           in if conflicts = [] then HttpError 409 ''that slot overlaps an airing already in the grid''
              else HttpError 409 (''that slot overlaps '' @ join '', ''
                (map (\<lambda>c. ai_title c @ '' ('' @ format_slot (server_location s) (se_airs_at c) @ '')'')
                  conflicts)))"

record ScheduleEntryCreate =
  sc_media_item_id :: uuid
  sc_airs_at :: time
  sc_join_in_progress :: "bool option"
  sc_block :: "string option"

definition createScheduleEntry ::
  "tv_server \<Rightarrow> uuid \<Rightarrow> ScheduleEntryCreate \<Rightarrow> tv_db \<Rightarrow> (http_error, ScheduleEntry, tv_db) effect" where
  "createScheduleEntry s new_id body db =
     (case MediaItems_Get db (sc_media_item_id body) of
        Inl err \<Rightarrow> (Inl (if err = ErrNotFound then HttpError 422 ''no such media item''
                         else MapError err), db)
      | Inr item \<Rightarrow>
          if mi_runtime_seconds item \<le> 0
          then (Inl (HttpError 422 ''cannot schedule an item with an unknown runtime; sync its metadata from Jellyfin first''), db)
          else case CreateScheduleEntry new_id (sc_media_item_id body) (sc_airs_at body)
                      (derefOr (sc_join_in_progress body) True)
                      (derefOr (sc_block body) (blockFor (server_location s) (sc_airs_at body))) db of
                 (Inl err, db') \<Rightarrow> (Inl (scheduleWriteError s err (sc_media_item_id body)
                                          (sc_airs_at body) [] db'), db')
               | (Inr e, db') \<Rightarrow> (Inr e, db'))"

record ScheduleEntryUpdate =
  su_media_item_id :: "uuid option"
  su_airs_at :: "time option"
  su_join_in_progress :: "bool option"
  su_block :: "string option"

definition updateScheduleEntry ::
  "tv_server \<Rightarrow> uuid \<Rightarrow> ScheduleEntryUpdate \<Rightarrow> tv_db \<Rightarrow> (http_error, ScheduleEntry, tv_db) effect" where
  "updateScheduleEntry s i body db =
     (case ScheduleEntries_Get db i of
        Inl err \<Rightarrow> (Inl (MapError err), db)
      | Inr current \<Rightarrow>
          let media_id = derefOr (su_media_item_id body) (se_media_item_id current);
              airs_at = derefOr (su_airs_at body) (se_airs_at current);
              join_ip = derefOr (su_join_in_progress body) (se_join_in_progress current);
              block = derefOr (su_block body) (se_block current)
          in case UpdateScheduleEntry i media_id airs_at join_ip block db of
               (Inl err, db') \<Rightarrow> (Inl (scheduleWriteError s err media_id airs_at i db'), db')
             | (Inr e, db') \<Rightarrow> (Inr e, db'))"

section \<open>Copying a week\<close>

definition duration_hours :: "duration \<Rightarrow> rat" where
  "duration_hours d =
     (let hour = trunc_div d (3600 * second);
          nsec = (d - hour * (3600 * second)) * 1000
      in fadd (fl (of_int hour)) (fdiv (fl (of_int nsec)) (60 * 60 * 1000000000)))"

definition go_int :: "rat \<Rightarrow> int" where
  "go_int x = (if 0 \<le> x then \<lfloor>x\<rfloor> else \<lceil>x\<rceil>)"

definition shift_days :: "duration \<Rightarrow> int" where
  "shift_days d = go_int (fadd (fdiv (duration_hours d) 24) (1 / 2))"

definition shiftDaysInZone :: "time \<Rightarrow> int \<Rightarrow> location \<Rightarrow> time" where
  "shiftDaysInZone t days loc = add_days loc t days"

record SkippedEntry =
  sk_media_item_id :: uuid
  sk_title :: string
  sk_airs_at :: time
  sk_reason :: string

record CopyWeekResponse =
  cw_copied :: nat
  cw_deleted :: nat
  cw_skipped :: "SkippedEntry list"

fun delete_entries :: "Airing list \<Rightarrow> nat \<Rightarrow> tv_db \<Rightarrow> (repo_error, nat, tv_db) effect" where
  "delete_entries [] n db = (Inr n, db)"
| "delete_entries (a # as) n db = (case ScheduleEntries_Delete (se_id a) db of
     (Inl err, db') \<Rightarrow> (Inl err, db')
   | (Inr _, db') \<Rightarrow> delete_entries as (n + 1) db')"

fun copy_entries ::
  "location \<Rightarrow> time \<Rightarrow> int \<Rightarrow> (nat \<Rightarrow> uuid) \<Rightarrow> Airing list \<Rightarrow> CopyWeekResponse \<Rightarrow> tv_db
   \<Rightarrow> (repo_error, CopyWeekResponse, tv_db) effect" where
  "copy_entries loc from shift gen [] out db = (Inr out, db)"
| "copy_entries loc from shift gen (a # as) out db =
     (if se_airs_at a < from then copy_entries loc from shift gen as out db
      else let airs_at = shiftDaysInZone (se_airs_at a) shift loc
           in case CreateScheduleEntry (gen (length as)) (se_media_item_id a) airs_at
                     (se_join_in_progress a) (se_block a) db of
                (Inr _, db') \<Rightarrow>
                  copy_entries loc from shift gen as (out\<lparr>cw_copied := cw_copied out + 1\<rparr>) db'
              | (Inl err, db') \<Rightarrow>
                  if err = ErrScheduleConflict
                  then copy_entries loc from shift gen as (out\<lparr>cw_skipped := cw_skipped out @
                    [\<lparr>sk_media_item_id = se_media_item_id a, sk_title = ai_title a, sk_airs_at = airs_at,
                      sk_reason = ''overlaps an airing already scheduled in the destination week''\<rparr>]\<rparr>) db'
                  else (Inl err, db'))"

definition copyScheduleWeek ::
  "tv_server \<Rightarrow> (nat \<Rightarrow> uuid) \<Rightarrow> string \<Rightarrow> string \<Rightarrow> bool option \<Rightarrow> time \<Rightarrow> tv_db
   \<Rightarrow> (http_error, CopyWeekResponse, tv_db) effect" where
  "copyScheduleWeek s gen from_week to_week replace now db =
     (let loc = server_location s in
      case dayBounds s from_week now of Inl e \<Rightarrow> (Inl e, db) | Inr (from, _) \<Rightarrow>
      case dayBounds s to_week now of Inl e \<Rightarrow> (Inl e, db) | Inr (to, _) \<Rightarrow>
        if from = to
        then (Inl (HttpError 400 ''the source and destination weeks are the same''), db)
        else let shift = shift_days (to - from);
                 source = AiringsBetween db from (add_days loc from DaysPerWeek);
                 deleted = (if replace = Some True
                            then delete_entries (AiringsBetween db to (add_days loc to DaysPerWeek)) 0 db
                            else (Inr 0, db))
             in case deleted of
                  (Inl err, db') \<Rightarrow> (Inl (MapError err), db')
                | (Inr n, db') \<Rightarrow>
                    (case copy_entries loc from shift gen source
                            \<lparr>cw_copied = 0, cw_deleted = n, cw_skipped = []\<rparr> db' of
                       (Inl err, db'') \<Rightarrow> (Inl (MapError err), db'')
                     | (Inr out, db'') \<Rightarrow> (Inr out, db'')))"

section \<open>Concrete requests\<close>

definition ex_server :: tv_server where
  "ex_server = \<lparr>sv_location = None, sv_grant_ttl = 60 * second, sv_jellyfin = Some (\<lambda>i. ''/stream/'' @ i)\<rparr>"

definition ex_placement :: "time \<Rightarrow> ScheduleEntryCreate" where
  "ex_placement t = \<lparr>sc_media_item_id = ''m2'', sc_airs_at = t, sc_join_in_progress = None, sc_block = None\<rparr>"

definition ex_move :: ScheduleEntryUpdate where
  "ex_move = \<lparr>su_media_item_id = Some ''m9'', su_airs_at = None, su_join_in_progress = None, su_block = None\<rparr>"

section \<open>The grid never double-books an instant\<close>

definition clashes :: "Airing \<Rightarrow> Airing \<Rightarrow> bool" where
  "clashes a b \<longleftrightarrow> se_id a \<noteq> se_id b \<and> overlaps (se_airs_at a) (ai_runtime_seconds a) b"

definition no_overlap :: "tv_db \<Rightarrow> bool" where
  "no_overlap db \<longleftrightarrow> (\<forall>a \<in> set (airings db). \<forall>b \<in> set (airings db). \<not> clashes a b)"

definition grid_inv :: "tv_db \<Rightarrow> bool" where
  "grid_inv db \<longleftrightarrow> tv_wf db \<and> no_overlap db"

lemma airing_of_simps [simp]:
  "se_id (airing_of e m) = se_id e" "se_media_item_id (airing_of e m) = se_media_item_id e"
  "se_airs_at (airing_of e m) = se_airs_at e"
  "ai_ends_at (airing_of e m) = slot_end (se_airs_at e) (mi_runtime_seconds m)"
  "ai_runtime_seconds (airing_of e m) = mi_runtime_seconds m"
  by (simp_all add: airing_of_def)

lemma in_airings:
  "a \<in> set (airings db) \<longleftrightarrow>
     (\<exists>e \<in> set (db_schedule db). \<exists>m \<in> set (db_media db). mi_id m = se_media_item_id e \<and> a = airing_of e m)"
  by (auto simp: airings_def)

lemma airing_ends: "a \<in> set (airings db) \<Longrightarrow> ai_ends_at a = slot_end (se_airs_at a) (ai_runtime_seconds a)"
  by (auto simp: in_airings)

lemma wf_media_unique:
  "tv_wf db \<Longrightarrow> m \<in> set (db_media db) \<Longrightarrow> m' \<in> set (db_media db) \<Longrightarrow> mi_id m = mi_id m' \<Longrightarrow> m = m'"
  by (auto simp: tv_wf_def media_ok_def unique_key_def distinct_map dest: inj_onD)

lemma wf_entry_unique:
  "tv_wf db \<Longrightarrow> e \<in> set (db_schedule db) \<Longrightarrow> e' \<in> set (db_schedule db) \<Longrightarrow> se_id e = se_id e' \<Longrightarrow> e = e'"
  by (auto simp: tv_wf_def schedule_ok_def unique_key_def distinct_map dest: inj_onD)

lemma airing_unique:
  assumes "tv_wf db" "a \<in> set (airings db)" "b \<in> set (airings db)" "se_id a = se_id b"
  shows "a = b"
  using assms by (auto simp: in_airings) (metis wf_entry_unique wf_media_unique)

lemma on_air_overlaps:
  "on_air t a \<Longrightarrow> on_air t b \<Longrightarrow> ai_ends_at a = slot_end (se_airs_at a) (ai_runtime_seconds a) \<Longrightarrow>
   overlaps (se_airs_at a) (ai_runtime_seconds a) b"
  by (simp add: on_air_def overlaps_def)

lemma on_air_unique:
  assumes "grid_inv db" "a \<in> set (airings db)" "b \<in> set (airings db)" "on_air t a" "on_air t b"
  shows "a = b"
proof -
  have "overlaps (se_airs_at a) (ai_runtime_seconds a) b"
    using assms on_air_overlaps airing_ends by blast
  with assms have "se_id a = se_id b" by (auto simp: grid_inv_def no_overlap_def clashes_def)
  with assms show ?thesis by (auto simp: grid_inv_def intro: airing_unique)
qed

lemma AiringAt_Inr: "AiringAt db t = Inr a \<Longrightarrow> a \<in> set (airings db) \<and> on_air t a"
  by (auto simp: AiringAt_def dest!: first_row_Some_in)

lemma AiringAt_Inl:
  "AiringAt db t = Inl e \<longleftrightarrow> e = ErrNotFound \<and> (\<forall>a \<in> set (airings db). \<not> on_air t a)"
  by (auto simp: AiringAt_def filter_empty_conv simp flip: set_empty)

text \<open>
  What the playback side relies on: a channel that resolves an instant to the one slot
  on air, whenever the grid is in order.
\<close>

locale channel =
  fixes inv :: "'db \<Rightarrow> bool"
    and slots :: "'db \<Rightarrow> 'a list"
    and airs :: "time \<Rightarrow> 'a \<Rightarrow> bool"
    and pick :: "'db \<Rightarrow> time \<Rightarrow> repo_error + 'a"
  assumes pick_sound: "pick db t = Inr a \<Longrightarrow> a \<in> set (slots db) \<and> airs t a"
    and pick_gap: "pick db t = Inl e \<Longrightarrow> e = ErrNotFound \<and> (\<forall>a \<in> set (slots db). \<not> airs t a)"
    and one_slot: "inv db \<Longrightarrow> a \<in> set (slots db) \<Longrightarrow> b \<in> set (slots db) \<Longrightarrow> airs t a \<Longrightarrow> airs t b \<Longrightarrow> a = b"
begin

lemma pick_iff: "inv db \<Longrightarrow> pick db t = Inr a \<longleftrightarrow> a \<in> set (slots db) \<and> airs t a"
  by (cases "pick db t") (use pick_sound pick_gap one_slot in blast)+

lemma pick_refuses: "pick db t = Inl e \<Longrightarrow> e = ErrNotFound"
  using pick_gap by blast

end

interpretation grid: channel grid_inv airings on_air AiringAt
  by unfold_locales (auto simp: AiringAt_Inl dest: AiringAt_Inr on_air_unique)

section \<open>Every write keeps the grid in order\<close>

lemma airings_snoc:
  "airings (db\<lparr>db_schedule := db_schedule db @ [e]\<rparr>) =
   airings db @ map (airing_of e) (filter (\<lambda>m. mi_id m = se_media_item_id e) (db_media db))"
  by (simp add: airings_def)

lemma overlaps_sym:
  "ai_ends_at a = slot_end (se_airs_at a) (ai_runtime_seconds a) \<Longrightarrow>
   ai_ends_at b = slot_end (se_airs_at b) (ai_runtime_seconds b) \<Longrightarrow>
   overlaps (se_airs_at a) (ai_runtime_seconds a) b = overlaps (se_airs_at b) (ai_runtime_seconds b) a"
  by (auto simp: overlaps_def)

lemma no_overlapI:
  assumes "\<And>a b. a \<in> set (airings db) \<Longrightarrow> b \<in> set (airings db) \<Longrightarrow> se_id a \<noteq> se_id b \<Longrightarrow>
      overlaps (se_airs_at a) (ai_runtime_seconds a) b \<Longrightarrow> False"
  shows "no_overlap db"
  using assms by (auto simp: no_overlap_def clashes_def)

lemma has_id_filter_neq: "i \<noteq> j \<Longrightarrow> has_id k j (filter (\<lambda>x. k x \<noteq> i) rows) = has_id k j rows"
  by (auto simp: has_id_def list_ex_iff)

lemma grants_ok_schedule:
  assumes "grants_ok db" "\<And>i. has_id se_id i (db_schedule db) \<Longrightarrow> has_id se_id i es"
  shows "grants_ok (db\<lparr>db_schedule := es\<rparr>)"
  using assms by (auto simp: grants_ok_def grant_refs_def has_ref_def split: option.splits)

lemma wf_schedule_update:
  assumes "tv_wf db" "schedule_ok (db_media db) es"
    "\<And>i. has_id se_id i (db_schedule db) \<Longrightarrow> has_id se_id i es"
  shows "tv_wf (db\<lparr>db_schedule := es\<rparr>)"
  using assms grants_ok_schedule [of db es]
  by (auto simp: tv_wf_def ledger_ok_def sessions_ok_def session_refs_def)

lemma CreateScheduleEntry_cases:
  assumes "CreateScheduleEntry i m airs j b db = (r, db')"
  obtains "db' = db" "r = Inl ErrScheduleConflict \<or> r = Inl UniqueViolation"
  | c e where "e = \<lparr>se_id = i, se_media_item_id = m, se_airs_at = airs, se_join_in_progress = j, se_block = b\<rparr>"
      "r = Inr e" "db' = db\<lparr>db_schedule := db_schedule db @ [e]\<rparr>"
      "c \<in> set (db_media db)" "mi_id c = m"
      "\<forall>a \<in> set (airings db). \<not> overlaps airs (mi_runtime_seconds c) a"
      "\<not> has_id se_id i (db_schedule db)" "\<not> has_id slot_key (m, airs) (db_schedule db)"
  using assms
  by (auto simp: CreateScheduleEntry_def Let_def list_ex_iff
      split: option.splits if_splits dest!: find_Some_in)

lemma CreateScheduleEntry_inv:
  assumes "grid_inv db" "CreateScheduleEntry i m airs j b db = (r, db')"
  shows "grid_inv db'"
  using assms(2)
proof (cases rule: CreateScheduleEntry_cases)
  case 1
  with assms show ?thesis by simp
next
  case (2 c e)
  have wf: "tv_wf db" and no: "no_overlap db" using assms(1) by (simp_all add: grid_inv_def)
  have "schedule_ok (db_media db) (db_schedule db @ [e])"
    using wf 2 unfolding tv_wf_def schedule_ok_def
    by (auto simp: has_id_iff keys_def intro!: unique_key_snoc)
  with wf have "tv_wf db'" unfolding 2(3) by (intro wf_schedule_update) auto
  moreover have "no_overlap db'"
  proof (rule no_overlapI)
    fix a b
    assume a: "a \<in> set (airings db')" and b: "b \<in> set (airings db')" and ne: "se_id a \<noteq> se_id b"
      and ov: "overlaps (se_airs_at a) (ai_runtime_seconds a) b"
    have set': "set (airings db') = set (airings db) \<union> {airing_of e c}"
      using wf 2 by (auto simp: airings_snoc dest: wf_media_unique)
    have sym: "overlaps (se_airs_at b) (ai_runtime_seconds b) a"
      using ov overlaps_sym [OF airing_ends [OF a] airing_ends [OF b]] by simp
    from a b set' ne ov sym 2 no show False
      by (auto simp: no_overlap_def clashes_def)
  qed
  ultimately show ?thesis by (simp add: grid_inv_def)
qed

lemma UpdateScheduleEntry_cases:
  assumes "UpdateScheduleEntry i m airs j b db = (r, db')"
  obtains "db' = db" "r = Inl ErrScheduleConflict \<or> r = Inl UniqueViolation"
  | c e where "e = \<lparr>se_id = i, se_media_item_id = m, se_airs_at = airs, se_join_in_progress = j, se_block = b\<rparr>"
      "r = Inr e" "db' = db\<lparr>db_schedule := update_where (\<lambda>x. se_id x = i) (\<lambda>_. e) (db_schedule db)\<rparr>"
      "c \<in> set (db_media db)" "mi_id c = m"
      "\<forall>a \<in> set (airings db). se_id a \<noteq> i \<longrightarrow> \<not> overlaps airs (mi_runtime_seconds c) a"
      "has_id se_id i (db_schedule db)"
      "\<forall>x \<in> set (db_schedule db). se_id x \<noteq> i \<longrightarrow> slot_key x \<noteq> (m, airs)"
  using assms
  by (auto simp: UpdateScheduleEntry_def Let_def list_ex_iff
      split: option.splits if_splits dest!: find_Some_in)

lemma unique_slot_update:
  assumes "distinct (map se_id es)" "distinct (map slot_key es)"
    "\<forall>x \<in> set es. se_id x \<noteq> i \<longrightarrow> slot_key x \<noteq> slot_key e"
  shows "distinct (map slot_key (map (\<lambda>x. if se_id x = i then e else x) es))"
  using distinct_map_replace [of se_id es slot_key i "slot_key e"] assms
  by (simp add: comp_def if_distrib cong: if_cong)

lemma schedule_ok_update:
  assumes "schedule_ok ms es" "has_id mi_id (se_media_item_id e) ms" "se_id e = i"
    "\<forall>x \<in> set es. se_id x \<noteq> i \<longrightarrow> slot_key x \<noteq> slot_key e"
  shows "schedule_ok ms (update_where (\<lambda>x. se_id x = i) (\<lambda>_. e) es)"
proof -
  have "map se_id (update_where (\<lambda>x. se_id x = i) (\<lambda>_. e) es) = map se_id es"
    using assms(3) by (simp add: update_where_def)
  moreover have "distinct (map slot_key (update_where (\<lambda>x. se_id x = i) (\<lambda>_. e) es))"
    using assms unfolding update_where_def schedule_ok_def unique_key_def
    by (intro unique_slot_update) auto
  ultimately show ?thesis
    using assms unfolding schedule_ok_def unique_key_def by (auto simp: in_update_where)
qed

lemma airings_updated:
  assumes "tv_wf db" "c \<in> set (db_media db)" "mi_id c = se_media_item_id e" "se_id e = i"
    and a: "a \<in> set (airings (db\<lparr>db_schedule := update_where (\<lambda>x. se_id x = i) (\<lambda>_. e) (db_schedule db)\<rparr>))"
  shows "a = airing_of e c \<or> a \<in> set (airings db) \<and> se_id a \<noteq> i"
proof -
  from a obtain x m where x: "x \<in> set (db_schedule db)" and m: "m \<in> set (db_media db)"
    and y: "mi_id m = se_media_item_id (if se_id x = i then e else x)"
      "a = airing_of (if se_id x = i then e else x) m"
    unfolding in_airings by (auto simp: in_update_where)
  show ?thesis
  proof (cases "se_id x = i")
    case True
    with y m assms(1-3) show ?thesis by (auto dest: wf_media_unique)
  next
    case False
    with x m y show ?thesis unfolding in_airings by auto
  qed
qed

lemma UpdateScheduleEntry_inv:
  assumes "grid_inv db" "UpdateScheduleEntry i m airs j b db = (r, db')"
  shows "grid_inv db'"
  using assms(2)
proof (cases rule: UpdateScheduleEntry_cases)
  case 1
  with assms show ?thesis by simp
next
  case (2 c e)
  have wf: "tv_wf db" and no: "no_overlap db" using assms(1) by (simp_all add: grid_inv_def)
  have "has_id mi_id m (db_media db)" using 2 by (auto simp: has_id_def list_ex_iff)
  with wf 2 have "schedule_ok (db_media db) (update_where (\<lambda>x. se_id x = i) (\<lambda>_. e) (db_schedule db))"
    by (intro schedule_ok_update) (auto simp: tv_wf_def)
  moreover have "has_id se_id x (update_where (\<lambda>x. se_id x = i) (\<lambda>_. e) (db_schedule db))"
    if "has_id se_id x (db_schedule db)" for x
    using that 2(1) by (subst has_id_update_where) auto
  ultimately have "tv_wf db'" using wf unfolding 2(3) by (intro wf_schedule_update) auto
  moreover have "no_overlap db'"
  proof (rule no_overlapI)
    fix x y
    assume x: "x \<in> set (airings db')" and y: "y \<in> set (airings db')" and ne: "se_id x \<noteq> se_id y"
      and ov: "overlaps (se_airs_at x) (ai_runtime_seconds x) y"
    have sym: "overlaps (se_airs_at y) (ai_runtime_seconds y) x"
      using ov overlaps_sym [OF airing_ends [OF x] airing_ends [OF y]] by simp
    have "x = airing_of e c \<or> x \<in> set (airings db) \<and> se_id x \<noteq> i"
      "y = airing_of e c \<or> y \<in> set (airings db) \<and> se_id y \<noteq> i"
      using airings_updated [OF wf, of c e i] 2 x y by auto
    with ne ov sym 2 no show False by (auto simp: no_overlap_def clashes_def)
  qed
  ultimately show ?thesis by (simp add: grid_inv_def)
qed

lemma grant_refs_delete_entry:
  assumes "grant_refs db g"
  shows "grant_refs (db\<lparr>db_schedule := filter (\<lambda>e. se_id e \<noteq> i) (db_schedule db), db_grants := gs\<rparr>)
    (if pg_schedule_entry_id g = Some i then g\<lparr>pg_schedule_entry_id := None\<rparr> else g)"
  using assms by (cases "pg_schedule_entry_id g") (auto simp: grant_refs_def has_id_filter_neq)

lemma grants_ok_delete_entry:
  assumes "grants_ok db"
  shows "grants_ok (db\<lparr>db_schedule := filter (\<lambda>e. se_id e \<noteq> i) (db_schedule db),
     db_grants := update_where (\<lambda>g. pg_schedule_entry_id g = Some i)
       (\<lambda>g. g\<lparr>pg_schedule_entry_id := None\<rparr>) (db_grants db)\<rparr>)"
  using assms grant_refs_delete_entry
  by (auto simp: grants_ok_def unique_key_def map_update_where in_update_where)

lemma ScheduleEntries_Delete_inv:
  assumes "grid_inv db" "ScheduleEntries_Delete i db = (r, db')"
  shows "grid_inv db'"
proof (cases "has_id se_id i (db_schedule db)")
  case False
  with assms show ?thesis by (simp add: ScheduleEntries_Delete_def)
next
  case True
  with assms(2) have db': "db' = db\<lparr>db_schedule := filter (\<lambda>e. se_id e \<noteq> i) (db_schedule db),
     db_grants := update_where (\<lambda>g. pg_schedule_entry_id g = Some i)
       (\<lambda>g. g\<lparr>pg_schedule_entry_id := None\<rparr>) (db_grants db)\<rparr>"
    by (simp add: ScheduleEntries_Delete_def)
  have "schedule_ok (db_media db) (filter (\<lambda>e. se_id e \<noteq> i) (db_schedule db))"
    using assms(1) by (auto simp: grid_inv_def tv_wf_def schedule_ok_def unique_key_def distinct_map_filter)
  moreover have "sessions_ok db'"
    using assms(1) by (auto simp: db' grid_inv_def tv_wf_def sessions_ok_def session_refs_def)
  moreover have "set (airings db') \<subseteq> set (airings db)" by (auto simp: db' airings_def)
  ultimately show ?thesis
    using assms(1) grants_ok_delete_entry [of db i]
    by (auto simp: db' grid_inv_def tv_wf_def ledger_ok_def no_overlap_def)
qed

lemma delete_entries_inv:
  "grid_inv db \<Longrightarrow> delete_entries al n db = (r, db') \<Longrightarrow> grid_inv db'"
  by (induction al n db rule: delete_entries.induct)
    (auto split: prod.splits sum.splits dest: ScheduleEntries_Delete_inv)

lemma copy_entries_inv:
  "grid_inv db \<Longrightarrow> copy_entries loc fr sh gen al out db = (r, db') \<Longrightarrow> grid_inv db'"
  by (induction loc fr sh gen al out db rule: copy_entries.induct)
    (auto simp: Let_def split: prod.splits sum.splits if_splits dest: CreateScheduleEntry_inv)

lemma copyScheduleWeek_inv:
  assumes "grid_inv db" "copyScheduleWeek s gen f t rep now db = (r, db')"
  shows "grid_inv db'"
  using assms
  by (auto simp: copyScheduleWeek_def Let_def split: prod.splits sum.splits if_splits
      dest: delete_entries_inv copy_entries_inv)

lemma createScheduleEntry_inv:
  "grid_inv db \<Longrightarrow> createScheduleEntry s i body db = (r, db') \<Longrightarrow> grid_inv db'"
  by (auto simp: createScheduleEntry_def split: prod.splits sum.splits if_splits dest: CreateScheduleEntry_inv)

lemma updateScheduleEntry_inv:
  "grid_inv db \<Longrightarrow> updateScheduleEntry s i body db = (r, db') \<Longrightarrow> grid_inv db'"
  by (auto simp: updateScheduleEntry_def Let_def split: prod.splits sum.splits if_splits
      dest: UpdateScheduleEntry_inv)

section \<open>Shifting a week\<close>

lemma fl_between:
  assumes "0 \<le> a" "fl a = a" "fl b = b" "a \<le> x" "x \<le> b"
  shows "a \<le> fl x" "fl x \<le> b"
  using assms fl_ge [of a x] fl_le [of x b] by auto

lemma fl_eighths: "0 \<le> k \<Longrightarrow> k \<le> 2 ^ 53 \<Longrightarrow> fl (of_int k / 8) = of_int k / 8"
  using fl_representable [of k "- 3"] by (simp add: pow2_def)

lemma duration_hours_bounds:
  assumes "0 \<le> d" "h * (3600 * second) \<le> d" "d < (h + 1) * (3600 * second)" "0 \<le> h" "h < 2 ^ 50"
  shows "of_int h \<le> duration_hours d" "duration_hours d \<le> of_int (h + 1)"
proof -
  have h: "trunc_div d (3600 * second) = h"
    using assms by (simp add: trunc_div_nonneg second_def)
  define r where "r = (d - h * (3600 * second)) * 1000"
  have r: "0 \<le> r" "r < 3600000000000" using assms by (simp_all add: r_def second_def algebra_simps)
  have "fl (of_int r) = of_int r" using r by (intro fl_of_int) auto
  with r have q: "0 \<le> fdiv (fl (of_int r)) 3600000000000" "fdiv (fl (of_int r)) 3600000000000 \<le> 1"
    using fl_between [of 0 1 "of_int r / 3600000000000"] fl_of_int [of 1] by simp_all
  have hh: "fl (of_int h) = of_int h" "fl (of_int (h + 1)) = of_int (h + 1)"
    using assms by (auto intro!: fl_of_int simp del: of_int_add)
  with q fl_between [of "of_int h" "of_int (h + 1)" "of_int h + fdiv (fl (of_int r)) 3600000000000"] assms
  show "of_int h \<le> duration_hours d" "duration_hours d \<le> of_int (h + 1)"
    by (simp_all add: duration_hours_def h r_def Let_def)
qed

lemma shift_days_forward:
  assumes "0 \<le> n" "n < 2 ^ 40" "\<bar>k\<bar> \<le> 7200" "0 \<le> n * day_seconds + k"
  shows "shift_days ((n * day_seconds + k) * second) = n"
proof -
  define d where "d = (n * day_seconds + k) * second"
  define h where "h = (n * day_seconds + k) div 3600"
  have h: "24 * n - 2 \<le> h" "h \<le> 24 * n + 2" "0 \<le> h" using assms by (auto simp: h_def)
  have "h * 3600 \<le> n * day_seconds + k" "n * day_seconds + k < (h + 1) * 3600"
    by (simp_all add: h_def)
  then have d: "0 \<le> d" "h * (3600 * second) \<le> d" "d < (h + 1) * (3600 * second)"
    using assms by (auto simp: d_def second_def)
  have D: "of_int h \<le> duration_hours d" "duration_hours d \<le> of_int (h + 1)"
    using duration_hours_bounds [OF d] h assms by auto
  define a where "a = (max 0 (8 * n - 1))"
  define b where "b = 8 * n + 1"
  have 1: "of_int a / 8 \<le> duration_hours d / 24" "duration_hours d / 24 \<le> of_int b / 8"
  proof -
    have "3 * a \<le> h" using h by (simp add: a_def max_def)
    then have "3 * rat_of_int a \<le> of_int h" by (metis of_int_le_iff of_int_mult of_int_numeral)
    with D show "of_int a / 8 \<le> duration_hours d / 24" by simp
    have "h + 1 \<le> 3 * b" using h by (auto simp: b_def)
    then have "rat_of_int (h + 1) \<le> 3 * of_int b" by (metis of_int_le_iff of_int_mult of_int_numeral)
    with D show "duration_hours d / 24 \<le> of_int b / 8" by simp
  qed
  have ab: "0 \<le> a" "a + 4 \<le> 2 ^ 53" "0 \<le> b" "b + 4 \<le> 2 ^ 53" using assms by (auto simp: a_def b_def)
  have 2: "of_int a / 8 \<le> fdiv (duration_hours d) 24" "fdiv (duration_hours d) 24 \<le> of_int b / 8"
    using fl_between [OF _ _ _ 1] fl_eighths [of a] fl_eighths [of b] ab by auto
  then have 3: "of_int (a + 4) / 8 \<le> fdiv (duration_hours d) 24 + 1 / 2"
      "fdiv (duration_hours d) 24 + 1 / 2 \<le> of_int (b + 4) / 8"
    by (simp_all add: add_divide_distrib)
  have 4: "of_int (a + 4) / 8 \<le> fadd (fdiv (duration_hours d) 24) (1 / 2)"
      "fadd (fdiv (duration_hours d) 24) (1 / 2) \<le> of_int (b + 4) / 8"
    using fl_between [OF _ _ _ 3] fl_eighths [of "a + 4"] fl_eighths [of "b + 4"] ab by auto
  have "8 * rat_of_int n \<le> of_int (a + 4)" "rat_of_int (b + 4) < 8 * (of_int n + 1)"
    by (simp_all add: b_def a_def of_int_max)
  with 4 have "of_int n \<le> fadd (fdiv (duration_hours d) 24) (1 / 2)"
    "fadd (fdiv (duration_hours d) 24) (1 / 2) < of_int n + 1"
    by simp_all
  moreover have "0 \<le> rat_of_int n" using assms by simp
  ultimately show ?thesis unfolding d_def [symmetric] shift_days_def go_int_def
    by (auto simp: floor_eq_iff)
qed

lemma duration_hours_whole:
  assumes "\<bar>h\<bar> \<le> 2 ^ 50"
  shows "duration_hours (h * (3600 * second)) = of_int h"
proof -
  have "fl (of_int h) = of_int h"
    using assms fl_of_int [of h] fl_of_int [of "- h"] fl_minus [of "of_int (- h)"]
    by (cases "0 \<le> h") auto
  moreover have "trunc_div (h * (3600 * second)) (3600 * second) = h"
    by (simp add: trunc_div_def second_def abs_mult sgn_mult)
      (metis abs_mult_sgn mult.commute)
  ultimately show ?thesis by (simp add: duration_hours_def)
qed

lemma shift_days_backward:
  assumes "1 \<le> n" "n < 2 ^ 40"
  shows "shift_days (- n * day_seconds * second) = - (n - 1)"
proof -
  have "- n * day_seconds * second = (- n * 24) * (3600 * second)" by simp
  then have "duration_hours (- n * day_seconds * second) = of_int (- n * 24)"
    using duration_hours_whole [of "- n * 24"] assms by (simp add: ac_simps)
  then have "duration_hours (- n * day_seconds * second) / 24 = - of_int n" by simp
  moreover have "fl (- of_int n) = - rat_of_int n" using assms fl_of_int [of n] by (simp add: fl_minus)
  moreover have "fl (- of_int n + 1 / 2) = - rat_of_int n + 1 / 2"
    using fl_eighths [of "8 * n - 4"] fl_minus [of "of_int n - 1 / 2"] assms
    by (simp add: diff_divide_distrib)
  ultimately have "shift_days (- n * day_seconds * second) = go_int (- of_int n + 1 / 2)"
    by (simp add: shift_days_def)
  also have "\<dots> = - (n - 1)"
    using assms by (auto simp: go_int_def ceiling_eq_iff)
  finally show ?thesis .
qed

section \<open>Reading the channel and joining it\<close>

lemma on_air_offset:
  assumes "on_air now a" "ai_ends_at a = slot_end (se_airs_at a) (ai_runtime_seconds a)"
  shows "OffsetSecondsAt a now = (now - se_airs_at a) div second"
    "0 \<le> OffsetSecondsAt a now" "OffsetSecondsAt a now < ai_runtime_seconds a"
proof -
  have le: "se_airs_at a \<le> now" "now - se_airs_at a < ai_runtime_seconds a * second"
    using assms by (auto simp: on_air_def slot_end_def)
  then have "(now - se_airs_at a) div second < ai_runtime_seconds a"
    by (simp add: second_def)
  moreover have "duration_seconds (now - se_airs_at a) = (now - se_airs_at a) div second"
    using le by (simp add: duration_seconds_nonneg)
  ultimately show "OffsetSecondsAt a now = (now - se_airs_at a) div second"
    "0 \<le> OffsetSecondsAt a now" "OffsetSecondsAt a now < ai_runtime_seconds a"
    using le by (auto simp: OffsetSecondsAt_def second_def)
qed

lemma airing_int4: "tv_wf db \<Longrightarrow> a \<in> set (airings db) \<Longrightarrow> int4_ok (ai_runtime_seconds a)"
  by (auto simp: in_airings tv_wf_def media_ok_def)

lemma airing_refs:
  assumes "a \<in> set (airings db)"
  shows "has_id mi_id (se_media_item_id a) (db_media db)" "has_id se_id (se_id a) (db_schedule db)"
  using assms by (auto simp: in_airings has_id_def list_ex_iff)

lemma start_offset_int4:
  assumes "tv_wf db" "a \<in> set (airings db)" "on_air now a"
  shows "int4_ok (StartOffsetSecondsAt a now)"
  using assms airing_int4 [OF assms(1,2)] on_air_offset(2,3) [OF assms(3) airing_ends [OF assms(2)]]
  by (auto simp: StartOffsetSecondsAt_def int4_ok_def)

definition programmed_grant_row ::
  "tv_server \<Rightarrow> (string \<Rightarrow> string) \<Rightarrow> uuid \<Rightarrow> uuid \<Rightarrow> time \<Rightarrow> Airing \<Rightarrow> PlayGrant" where
  "programmed_grant_row s url new_id d now a = \<lparr>pg_id = new_id,
     pg_media_item_id = se_media_item_id a, pg_device_id = d,
     pg_availability_window_id = None, pg_schedule_entry_id = Some (se_id a),
     pg_mode = ModeProgrammed, pg_stream_url = url (ai_jellyfin_item_id a),
     pg_start_offset_seconds = StartOffsetSecondsAt a now,
     pg_issued_at = now, pg_expires_at = now + sv_grant_ttl s, pg_consumed_at = None\<rparr>"

lemma programmedGrant_alt:
  "programmedGrant s url i m d now db =
     (case AiringAt db now of
        Inl err \<Rightarrow> (Inl (HttpError 403 ''nothing is airing on the channel right now''), db)
      | Inr a \<Rightarrow>
          if se_media_item_id a \<noteq> m
          then (Inl (HttpError 403 ''that programme is not airing now; the channel does not offer catch-up''), db)
          else if \<not> ai_direct_play_ok a
          then (Inl (HttpError 403 ''item is not direct-play compatible''), db)
          else (case PlayGrants_Create (programmed_grant_row s url i d now a) db of
                  (Inl err, db') \<Rightarrow> (Inl (MapError err), db') | (Inr g, db') \<Rightarrow> (Inr g, db')))"
  by (cases "AiringAt db now")
    (auto simp: programmedGrant_def programmed_grant_row_def dest: grid.pick_refuses)

lemma PlayGrants_Create_Inr:
  "PlayGrants_Create g db = (Inr g', db') \<Longrightarrow>
   g' = g \<and> db' = db\<lparr>db_grants := db_grants db @ [g]\<rparr> \<and> grant_refs db g \<and> \<not> has_id pg_id (pg_id g) (db_grants db)"
  by (auto simp: PlayGrants_Create_def split: if_splits)

lemma PlayGrants_Create_Inl: "PlayGrants_Create g db = (Inl e, db') \<Longrightarrow> db' = db"
  by (auto simp: PlayGrants_Create_def split: if_splits)

text \<open>
  With the grid in order, the query for what is on air finds an airing exactly when
  that airing is in the grid and its half-open span contains the instant: the channel is
  one linear stream, and no second programme can be reported.
\<close>

theorem AiringAt_iff:
  assumes "grid_inv db"
  shows "AiringAt db t = Inr a \<longleftrightarrow> a \<in> set (airings db) \<and> on_air t a"
  using assms by (rule grid.pick_iff)

text \<open>
  A programmed grant is issued exactly when the requested item is the one airing now and
  can direct-play.  The grant names the airing, carries no availability window, and starts
  at the number of whole seconds since the programme began, less than the runtime, or at
  the beginning when the entry forbids joining in progress.  There is no catch-up.
\<close>

theorem programmedGrant_iff_airing:
  assumes inv: "grid_inv db" and dev: "has_id dv_id d (db_devices db)"
    and fresh: "\<not> has_id pg_id i (db_grants db)"
  shows "programmedGrant s url i m d now db = (Inr g, db') \<longleftrightarrow>
    (\<exists>a \<in> set (airings db). on_air now a \<and> se_media_item_id a = m \<and> ai_direct_play_ok a
       \<and> g = programmed_grant_row s url i d now a
       \<and> pg_start_offset_seconds g =
           (if se_join_in_progress a then (now - se_airs_at a) div second else 0)
       \<and> 0 \<le> pg_start_offset_seconds g \<and> pg_start_offset_seconds g < ai_runtime_seconds a
       \<and> db' = db\<lparr>db_grants := db_grants db @ [g]\<rparr>)" (is "?L \<longleftrightarrow> ?R")
proof
  have start: "pg_start_offset_seconds (programmed_grant_row s url i d now a) =
        (if se_join_in_progress a then (now - se_airs_at a) div second else 0)"
      "0 \<le> pg_start_offset_seconds (programmed_grant_row s url i d now a)"
      "pg_start_offset_seconds (programmed_grant_row s url i d now a) < ai_runtime_seconds a"
    if "a \<in> set (airings db)" "on_air now a" for a
    using on_air_offset [OF that(2) airing_ends [OF that(1)]]
    by (auto simp: programmed_grant_row_def StartOffsetSecondsAt_def)
  assume ?L
  then obtain a where a: "AiringAt db now = Inr a" "se_media_item_id a = m" "ai_direct_play_ok a"
      "PlayGrants_Create (programmed_grant_row s url i d now a) db = (Inr g, db')"
    by (auto simp: programmedGrant_alt split: sum.splits if_splits prod.splits)
  with AiringAt_Inr [OF a(1)] PlayGrants_Create_Inr [OF a(4)] start [of a]
  show ?R by (intro bexI [of _ a]) auto
next
  assume ?R
  then obtain a where a: "a \<in> set (airings db)" "on_air now a" "se_media_item_id a = m"
      "ai_direct_play_ok a" "g = programmed_grant_row s url i d now a"
      "db' = db\<lparr>db_grants := db_grants db @ [g]\<rparr>"
    by blast
  have "AiringAt db now = Inr a" using grid.pick_iff [OF inv] a by blast
  moreover have "int4_ok (StartOffsetSecondsAt a now)"
    using start_offset_int4 inv a unfolding grid_inv_def by blast
  ultimately show ?L
    using a dev fresh airing_refs [OF a(1)]
    by (simp add: programmedGrant_alt PlayGrants_Create_def programmed_grant_row_def grant_refs_def)
qed

lemma ex_grid_inv: "grid_inv ex_db"
  by code_simp

theorem AiringAt_iff_witness:
  "AiringAt ex_db (2000 * second) = Inr (airing_of ex_entry (ex_item ''m1'' ClassEducational 3600))"
  unfolding AiringAt_iff [OF ex_grid_inv] by code_simp

theorem programmedGrant_iff_airing_witness:
  "programmedGrant \<lparr>sv_location = None, sv_grant_ttl = 60 * second, sv_jellyfin = None\<rparr> id ''g1'' ''m1'' ''d1''
     (2000 * second) ex_db =
   (Inr (programmed_grant_row \<lparr>sv_location = None, sv_grant_ttl = 60 * second, sv_jellyfin = None\<rparr> id ''g1'' ''d1''
      (2000 * second) (airing_of ex_entry (ex_item ''m1'' ClassEducational 3600))),
    ex_db\<lparr>db_grants := db_grants ex_db @ [programmed_grant_row
      \<lparr>sv_location = None, sv_grant_ttl = 60 * second, sv_jellyfin = None\<rparr> id ''g1'' ''d1''
      (2000 * second) (airing_of ex_entry (ex_item ''m1'' ClassEducational 3600))]\<rparr>)"
proof -
  have dev: "has_id dv_id ''d1'' (db_devices ex_db)" and fresh: "\<not> has_id pg_id ''g1'' (db_grants ex_db)"
    by code_simp+
  show ?thesis unfolding programmedGrant_iff_airing [OF ex_grid_inv dev fresh] by code_simp
qed

lemma NextAiringAfter_Inl:
  "NextAiringAfter db now = Inl e \<longleftrightarrow> e = ErrNotFound \<and> (\<forall>a \<in> set (airings db). se_airs_at a \<le> now)"
  by (auto simp: NextAiringAfter_def filter_empty_conv not_less simp flip: set_empty)

lemma NextAiringAfter_Inr:
  "NextAiringAfter db now = Inr a \<Longrightarrow> a \<in> set (airings db) \<and> now < se_airs_at a \<and>
     (\<forall>b \<in> set (airings db). now < se_airs_at b \<longrightarrow> se_airs_at a \<le> se_airs_at b)"
  by (auto simp: NextAiringAfter_def dest!: first_row_sort_min)

lemma getNow_eq:
  "getNow (Some dev) now db = Inr
     \<lparr>nr_on_air = (case AiringAt db now of Inr a \<Rightarrow> Some (toProgramme a) | Inl _ \<Rightarrow> None),
      nr_offset_seconds = (case AiringAt db now of Inr a \<Rightarrow> OffsetSecondsAt a now | Inl _ \<Rightarrow> 0),
      nr_start_offset_seconds = (case AiringAt db now of Inr a \<Rightarrow> StartOffsetSecondsAt a now | Inl _ \<Rightarrow> 0),
      nr_next = (case NextAiringAfter db now of Inr a \<Rightarrow> Some (toProgramme a) | Inl _ \<Rightarrow> None),
      nr_next_starts_in_seconds =
        (case NextAiringAfter db now of Inr a \<Rightarrow> duration_seconds (se_airs_at a - now) | Inl _ \<Rightarrow> 0),
      nr_server_time = now\<rparr>"
  by (cases "AiringAt db now"; cases "NextAiringAfter db now")
    (auto simp: getNow_def require_device_def dest: NextAiringAfter_Inl [THEN iffD1] grid.pick_refuses)

text \<open>
  The channel state a device reads is complete and correct: a programme is on air in the
  answer exactly when one is on air in the grid, it is that programme, and its offset is
  inside its runtime; the next programme is an earliest one to start later, absent only
  when nothing further is scheduled.
\<close>

theorem getNow_correct:
  "\<exists>r. getNow (Some dev) now db = Inr r \<and>
     (case nr_on_air r of
        None \<Rightarrow> (\<forall>a \<in> set (airings db). \<not> on_air now a)
      | Some p \<Rightarrow> (\<exists>a \<in> set (airings db). on_air now a \<and> p = toProgramme a \<and>
          nr_offset_seconds r = (now - se_airs_at a) div second \<and>
          0 \<le> nr_offset_seconds r \<and> nr_offset_seconds r < ai_runtime_seconds a)) \<and>
     (case nr_next r of
        None \<Rightarrow> (\<forall>a \<in> set (airings db). se_airs_at a \<le> now)
      | Some p \<Rightarrow> (\<exists>a \<in> set (airings db). now < se_airs_at a \<and> p = toProgramme a \<and>
          (\<forall>b \<in> set (airings db). now < se_airs_at b \<longrightarrow> se_airs_at a \<le> se_airs_at b)))"
proof -
  have "case AiringAt db now of Inl _ \<Rightarrow> (\<forall>a \<in> set (airings db). \<not> on_air now a)
      | Inr a \<Rightarrow> a \<in> set (airings db) \<and> on_air now a \<and> OffsetSecondsAt a now = (now - se_airs_at a) div second \<and>
          0 \<le> OffsetSecondsAt a now \<and> OffsetSecondsAt a now < ai_runtime_seconds a"
  proof (cases "AiringAt db now")
    case (Inr a)
    from AiringAt_Inr [OF this] have a: "a \<in> set (airings db)" "on_air now a" by simp_all
    show ?thesis using Inr a on_air_offset [OF a(2) airing_ends [OF a(1)]] by simp
  next
    case (Inl e)
    with AiringAt_Inl [of db now e] show ?thesis by simp
  qed
  moreover have "case NextAiringAfter db now of Inl _ \<Rightarrow> (\<forall>a \<in> set (airings db). se_airs_at a \<le> now)
      | Inr a \<Rightarrow> a \<in> set (airings db) \<and> now < se_airs_at a \<and>
          (\<forall>b \<in> set (airings db). now < se_airs_at b \<longrightarrow> se_airs_at a \<le> se_airs_at b)"
    using NextAiringAfter_Inl [of db now] NextAiringAfter_Inr [of db now]
    by (cases "NextAiringAfter db now") auto
  ultimately show ?thesis
    unfolding getNow_eq by (cases "AiringAt db now"; cases "NextAiringAfter db now") auto
qed

theorem getNow_correct_witness:
  "\<exists>r. getNow (Some ex_device) (2000 * second) ex_db = Inr r \<and> nr_on_air r \<noteq> None"
proof -
  have "\<exists>a \<in> set (airings ex_db). on_air (2000 * second) a" by code_simp
  with getNow_correct [of ex_device "2000 * second" ex_db] show ?thesis by (auto split: option.splits)
qed

section \<open>What the editor is told\<close>

lemma in_ConflictingAirings:
  "a \<in> set (ConflictingAirings db m airs x) \<longleftrightarrow> a \<in> set (airings db) \<and> (x = [] \<or> se_id a \<noteq> x) \<and>
     (\<exists>c \<in> set (db_media db). mi_id c = m \<and> overlaps airs (mi_runtime_seconds c) a)"
  by (auto simp: ConflictingAirings_def)

lemma slot_taken_overlaps:
  assumes "tv_wf db" "has_id slot_key (mi_id c, airs) (db_schedule db)" "c \<in> set (db_media db)"
    "0 < mi_runtime_seconds c"
  shows "\<exists>a \<in> set (airings db). overlaps airs (mi_runtime_seconds c) a"
proof -
  from assms(2) obtain e where e: "e \<in> set (db_schedule db)" "se_media_item_id e = mi_id c" "se_airs_at e = airs"
    by (auto simp: has_id_def list_ex_iff)
  with assms(3) have "airing_of e c \<in> set (airings db)" unfolding in_airings by metis
  moreover have "overlaps airs (mi_runtime_seconds c) (airing_of e c)"
    using e assms(4) by (simp add: overlaps_def slot_end_def second_def)
  ultimately show ?thesis by blast
qed

lemma not_list_ex: "\<not> list_ex p xs \<longleftrightarrow> (\<forall>x \<in> set xs. \<not> p x)"
  by (simp add: list_ex_iff)

text \<open>
  Placing an item with a known runtime succeeds exactly when its span is clear, and then
  adds that row alone; otherwise the answer is a 409 that names at least one airing in the
  way, every name is an airing the span really overlaps, and nothing changes.
\<close>

theorem createScheduleEntry_outcome:
  fixes body :: ScheduleEntryCreate
  defines "m \<equiv> sc_media_item_id body" and "airs \<equiv> sc_airs_at body"
  assumes inv: "grid_inv db" and item: "item \<in> set (db_media db)" "mi_id item = m" "0 < mi_runtime_seconds item"
    and fresh: "\<not> has_id se_id i (db_schedule db)"
  shows "if \<exists>a \<in> set (airings db). overlaps airs (mi_runtime_seconds item) a
    then \<exists>as. as \<noteq> [] \<and> set as = {a \<in> set (airings db). overlaps airs (mi_runtime_seconds item) a} \<and>
           createScheduleEntry s i body db = (Inl (HttpError 409 (''that slot overlaps '' @ join '', ''
             (map (\<lambda>c. ai_title c @ '' ('' @ format_slot (server_location s) (se_airs_at c) @ '')'') as))), db)
    else \<exists>e. se_id e = i \<and> se_media_item_id e = m \<and> se_airs_at e = airs \<and>
           createScheduleEntry s i body db = (Inr e, db\<lparr>db_schedule := db_schedule db @ [e]\<rparr>)"
proof -
  have wf: "tv_wf db" using inv by (simp add: grid_inv_def)
  have get: "MediaItems_Get db m = Inr item" using MediaItems_Get_wf [OF wf item(1)] item(2) by simp
  then have find: "List.find (\<lambda>c. mi_id c = m) (db_media db) = Some item" by (simp add: MediaItems_Get_def)
  show ?thesis
  proof (cases "\<exists>a \<in> set (airings db). overlaps airs (mi_runtime_seconds item) a")
    case True
    let ?as = "ConflictingAirings db m airs []"
    have set_as: "set ?as = {a \<in> set (airings db). overlaps airs (mi_runtime_seconds item) a}"
      using item wf by (auto simp: in_ConflictingAirings dest: wf_media_unique)
    with True have ne: "?as \<noteq> []" by auto
    with True get item find have "createScheduleEntry s i body db = (Inl (HttpError 409 (''that slot overlaps '' @ join '', ''
        (map (\<lambda>c. ai_title c @ '' ('' @ format_slot (server_location s) (se_airs_at c) @ '')'') ?as))), db)"
      unfolding m_def airs_def
      by (simp add: createScheduleEntry_def CreateScheduleEntry_def scheduleWriteError_def list_ex_iff Let_def)
    with True set_as ne show ?thesis by auto
  next
    case False
    then have "\<not> has_id slot_key (m, airs) (db_schedule db)"
      using slot_taken_overlaps [OF wf _ item(1,3)] item(2) by blast
    with False get item find fresh show ?thesis
      unfolding m_def airs_def
      by (simp add: createScheduleEntry_def CreateScheduleEntry_def list_ex_iff Let_def)
  qed
qed

theorem createScheduleEntry_outcome_witness:
  "\<exists>e. createScheduleEntry ex_server ''e2'' (ex_placement (100000 * second)) ex_db =
     (Inr e, ex_db\<lparr>db_schedule := db_schedule ex_db @ [e]\<rparr>)"
proof -
  let ?m = "ex_item ''m2'' ClassEntertainment 6000"
  have 1: "?m \<in> set (db_media ex_db)" "mi_id ?m = sc_media_item_id (ex_placement (100000 * second))"
    "0 < mi_runtime_seconds ?m" "\<not> has_id se_id ''e2'' (db_schedule ex_db)"
    "\<not> (\<exists>a \<in> set (airings ex_db). overlaps (sc_airs_at (ex_placement (100000 * second)))
        (mi_runtime_seconds ?m) a)"
    by code_simp+
  from createScheduleEntry_outcome [OF ex_grid_inv 1(1-4), of ex_server] 1(5) show ?thesis by auto
qed

text \<open>
  Moving an entry onto a media item that does not exist is refused as an overlap (409),
  with nothing in the way: the statement finds no candidate row, which the repository reads as
  a conflict.
\<close>

theorem updateScheduleEntry_unknown_item:
  assumes "has_id se_id i (db_schedule db)" "su_media_item_id body = Some m" "\<not> has_id mi_id m (db_media db)"
  shows "updateScheduleEntry s i body db =
    (Inl (HttpError 409 ''that slot overlaps an airing already in the grid''), db)"
proof -
  obtain cur where "ScheduleEntries_Get db i = Inr cur"
    using has_id_find [OF assms(1)] by (auto simp: ScheduleEntries_Get_def)
  moreover have "List.find (\<lambda>c. mi_id c = m) (db_media db) = None"
    using assms(3) by (simp add: not_has_id_find)
  moreover have "ConflictingAirings db m a i = []" for a
    using assms(3) hd_in_set [of "ConflictingAirings db m a i"]
    by (auto simp: in_ConflictingAirings has_id_def list_ex_iff)
  ultimately show ?thesis using assms(2)
    by (simp add: updateScheduleEntry_def derefOr_def UpdateScheduleEntry_def scheduleWriteError_def Let_def)
qed

theorem updateScheduleEntry_unknown_item_witness:
  "updateScheduleEntry ex_server ''e1'' ex_move ex_db =
     (Inl (HttpError 409 ''that slot overlaps an airing already in the grid''), ex_db)"
  by (rule updateScheduleEntry_unknown_item [where m = "''m9''"]) code_simp+

text \<open>
  Copying a week forward keeps each airing's wall clock and moves its date by exactly the
  number of days between the two week starts, so its weekday too when that is a number of
  weeks, across a change of offset of up to two hours, whenever the local time exists there.
\<close>

theorem copy_forward_keeps_wall_clock:
  assumes zone: "regular_zone loc"
    and mid: "local_clock loc start = 0" "local_clock loc dest = 0" "start mod second = 0" "dest mod second = 0"
    and n: "local_day loc dest = local_day loc start + n" "0 < n" "n < 2 ^ 40"
    and dst: "\<bar>zone_offset loc (unix start) - zone_offset loc (unix dest)\<bar> \<le> 7200"
    and ex: "v + zone_offset loc v = local_seconds loc t + n * day_seconds"
  shows "let t' = shiftDaysInZone t (shift_days (dest - start)) loc in
    local_day loc t' = local_day loc t + n \<and> local_clock loc t' = local_clock loc t \<and>
    (7 dvd n \<longrightarrow> local_weekday loc t' = local_weekday loc t)"
proof -
  define k where "k = zone_offset loc (unix start) - zone_offset loc (unix dest)"
  have "unix dest - unix start = n * day_seconds + k"
    using local_split [of loc start] local_split [of loc dest] mid n
    by (simp add: local_seconds_def k_def algebra_simps)
  moreover have "dest - start = (unix dest - unix start) * second"
    using instant_split [of start] instant_split [of dest] mid by (simp add: algebra_simps)
  ultimately have "dest - start = (n * day_seconds + k) * second" by simp
  then have "shift_days (dest - start) = n"
    using shift_days_forward [of n k] dst n by (simp add: k_def)
  moreover have "(local_day loc t + n + 4) mod 7 = (local_day loc t + 4) mod 7" if "7 dvd n"
    using that by presburger
  ultimately show ?thesis
    using add_days_local [OF zone ex] by (simp add: shiftDaysInZone_def local_weekday_def)
qed

theorem copy_forward_keeps_wall_clock_witness:
  "let t' = shiftDaysInZone ((16956000 + 32400) * second)
              (shift_days (17557200 * second - 16956000 * second)) ex_zone in
    local_day ex_zone t' = local_day ex_zone ((16956000 + 32400) * second) + 7 \<and>
    local_clock ex_zone t' = local_clock ex_zone ((16956000 + 32400) * second) \<and>
    local_weekday ex_zone t' = local_weekday ex_zone ((16956000 + 32400) * second)"
proof -
  have "local_clock ex_zone (16956000 * second) = 0" "local_clock ex_zone (17557200 * second) = 0"
    "16956000 * second mod second = 0" "17557200 * second mod second = 0"
    "local_day ex_zone (17557200 * second) = local_day ex_zone (16956000 * second) + 7" "0 < (7 :: int)" "(7 :: int) < 2 ^ 40"
    "\<bar>zone_offset ex_zone (unix (16956000 * second)) - zone_offset ex_zone (unix (17557200 * second))\<bar> \<le> 7200"
    "17589600 + zone_offset ex_zone 17589600 = local_seconds ex_zone ((16956000 + 32400) * second) + 7 * day_seconds"
    by code_simp+
  from copy_forward_keeps_wall_clock [OF ex_zone_regular this] show ?thesis by (simp add: Let_def)
qed

text \<open>
  Copying a week backward is off by one: for a destination that starts n days earlier the
  rounded shift is n minus 1 days back, since adding one half rounds toward zero for
  negative values.  A copy to the previous week lands six days back, on the wrong weekday.
\<close>

theorem copy_backward_off_by_one:
  assumes "1 \<le> n" "n < 2 ^ 40" "dest = start - n * day_seconds * second"
  shows "shift_days (dest - start) = - (n - 1)"
  using shift_days_backward [OF assms(1,2)] assms(3) by simp

theorem copy_backward_off_by_one_witness:
  "shift_days ((700 * day_seconds * second - 7 * day_seconds * second) - 700 * day_seconds * second) = - 6"
  using copy_backward_off_by_one [of 7 "700 * day_seconds * second - 7 * day_seconds * second" "700 * day_seconds * second"]
  by simp

end
