(* ===== verification/TV_Playback.thy ===== *)
theory TV_Playback
  imports TV_Schedule "HOL-Library.List_Lexorder" "HOL-Library.Char_ord"
begin

text \<open>
  Devices and on-demand playback: pairing and authentication (\<^verbatim>\<open>tv/api/auth.go\<close>,
  \<^verbatim>\<open>tv/auth\<close>), the catalog and the grant, session and watch-once statements of
  \<^verbatim>\<open>tv/repo/queries.go\<close>, and the device handlers of \<^verbatim>\<open>tv/api/device.go\<close>.

  Every request runs as the sequence of its statements on the database.  The
  token digest (SHA-256), the identity verifier and the media source's URL builder are
  arguments of the operations that call them; fresh identifiers are arguments too.
\<close>

section \<open>Credentials\<close>

definition pairingAlphabet :: string where
  "pairingAlphabet = ''ACDEFGHJKMNPQRTUVWXY34679''"

definition PairingCodeLength :: nat where
  "PairingCodeLength = 6"

definition NewPairingCode :: "nat list \<Rightarrow> string" where
  "NewPairingCode buf = map (\<lambda>b. pairingAlphabet ! (b mod length pairingAlphabet)) (take PairingCodeLength buf)"

definition BearerToken :: "string \<Rightarrow> string" where
  "BearerToken header =
     (let prefix = ''Bearer '' in
      if length header \<le> length prefix \<or> to_lower (take (length prefix) header) \<noteq> to_lower prefix
      then [] else trim_space (drop (length prefix) header))"

definition index_byte :: "string \<Rightarrow> char \<Rightarrow> nat option" where
  "index_byte s c = (let n = length (takeWhile (\<lambda>x. x \<noteq> c) s) in if n < length s then Some n else None)"

definition IsJWT :: "string \<Rightarrow> bool" where
  "IsJWT token = (case index_byte token (CHR ''.'') of
     None \<Rightarrow> False
   | Some first \<Rightarrow> if first < 1 then False else
       (let rest1 = drop (first + 1) token in
        case index_byte rest1 (CHR ''.'') of
          None \<Rightarrow> False
        | Some snd' \<Rightarrow> if snd' < 1 then False else
            (let rest = drop (snd' + 1) rest1 in rest \<noteq> [] \<and> index_byte rest (CHR ''.'') = None)))"

record 'p admin_config =
  ac_verifier :: "(string \<Rightarrow> 'p option) option"
  ac_admin_key :: string

definition requireAdmin ::
  "(string \<Rightarrow> string) \<Rightarrow> 'p admin_config \<Rightarrow> string \<Rightarrow> string \<Rightarrow> http_error option" where
  "requireAdmin sha256 cfg authorization admin_header =
     (if ac_verifier cfg = None \<and> ac_admin_key cfg = [] then None
      else let bearer = BearerToken authorization in
        if bearer \<noteq> [] \<and> IsJWT bearer then
          (case ac_verifier cfg of
             None \<Rightarrow> Some (HttpError 401 ''identity verification not configured'')
           | Some verify \<Rightarrow> (case verify bearer of
               None \<Rightarrow> Some (HttpError 401 ''invalid identity token'') | Some _ \<Rightarrow> None))
        else if ac_admin_key cfg = [] then Some (HttpError 401 ''admin credentials required'')
        else let presented = (if admin_header = [] then bearer else admin_header) in
          if sha256 presented \<noteq> sha256 (ac_admin_key cfg)
          then Some (HttpError 401 ''admin credentials required'') else None)"

section \<open>Devices\<close>

definition pairing_match :: "string \<Rightarrow> time \<Rightarrow> Device \<Rightarrow> bool" where
  "pairing_match code now d \<longleftrightarrow> to_upper (dv_pairing_code d) = to_upper code \<and> dv_pairing_code d \<noteq> []
     \<and> dv_revoked_at d = None
     \<and> (case dv_pairing_expires_at d of None \<Rightarrow> True | Some e \<Rightarrow> e > now)"

definition DeviceByPairingCode :: "tv_db \<Rightarrow> string \<Rightarrow> time \<Rightarrow> repo_error + Device" where
  "DeviceByPairingCode db code now = one_row (List.find (pairing_match code now) (db_devices db))"

definition DeviceByTokenHash :: "tv_db \<Rightarrow> string \<Rightarrow> repo_error + Device" where
  "DeviceByTokenHash db h = one_row (List.find
     (\<lambda>d. dv_token_hash d = h \<and> dv_token_hash d \<noteq> [] \<and> dv_revoked_at d = None) (db_devices db))"

definition claim_row :: "string \<Rightarrow> time \<Rightarrow> Device \<Rightarrow> Device" where
  "claim_row h now d = d\<lparr>dv_token_hash := h, dv_pairing_code := [], dv_pairing_expires_at := None,
     dv_paired_at := Some now, dv_last_seen_at := Some now\<rparr>"

definition ClaimPairingCode :: "string \<Rightarrow> string \<Rightarrow> time \<Rightarrow> tv_db \<Rightarrow> (repo_error, Device, tv_db) effect" where
  "ClaimPairingCode code h now db =
     (case filter (pairing_match code now) (db_devices db) of
        [] \<Rightarrow> (Inl ErrNotFound, db)
      | [d] \<Rightarrow>
          if h \<noteq> [] \<and> list_ex (\<lambda>x. dv_id x \<noteq> dv_id d \<and> dv_token_hash x = h) (db_devices db)
          then (Inl UniqueViolation, db)
          else (Inr (claim_row h now d), db\<lparr>db_devices :=
                  update_where (pairing_match code now) (claim_row h now) (db_devices db)\<rparr>)
      | _ \<Rightarrow> (Inl UniqueViolation, db))"

definition TouchDevice :: "uuid \<Rightarrow> time \<Rightarrow> tv_db \<Rightarrow> tv_db" where
  "TouchDevice i now db = db\<lparr>db_devices :=
     update_where (\<lambda>d. dv_id d = i) (\<lambda>d. d\<lparr>dv_last_seen_at := Some now\<rparr>) (db_devices db)\<rparr>"

definition requireDevice ::
  "(string \<Rightarrow> string) \<Rightarrow> string \<Rightarrow> time \<Rightarrow> tv_db \<Rightarrow> (http_error, Device, tv_db) effect" where
  "requireDevice hash authorization now db =
     (let token = BearerToken authorization in
      if token = [] then (Inl (HttpError 401 ''missing device token''), db)
      else case DeviceByTokenHash db (hash token) of
        Inl err \<Rightarrow> (Inl (if err = ErrNotFound then HttpError 401 ''unknown device token''
                         else HttpError 500 ''authenticate device''), db)
      | Inr d \<Rightarrow> (Inr d, TouchDevice (dv_id d) now db))"

definition pairDevice ::
  "(string \<Rightarrow> string) \<Rightarrow> string \<Rightarrow> string \<Rightarrow> time \<Rightarrow> tv_db \<Rightarrow> (http_error, string \<times> Device, tv_db) effect" where
  "pairDevice hash token code now db =
     (case ClaimPairingCode code (hash token) now db of
        (Inl err, db') \<Rightarrow> (Inl (if err = ErrNotFound
           then HttpError 403 ''pairing code is invalid, expired, or already used'' else MapError err), db')
      | (Inr d, db') \<Rightarrow> (Inr (token, d), db'))"

section \<open>The catalog\<close>

record CatalogEntry =
  ce_media_item :: MediaItem
  ce_availability_window_id :: uuid
  ce_window_ends_at :: time

definition offerable :: "tv_db \<Rightarrow> time \<Rightarrow> MediaItem \<Rightarrow> AvailabilityWindow \<Rightarrow> bool" where
  "offerable db now m w \<longleftrightarrow> aw_media_item_id w = mi_id m \<and> mi_orphaned_at m = None
     \<and> now \<ge> aw_starts_at w \<and> now < aw_ends_at w
     \<and> \<not> list_ex (\<lambda>l. pl_media_item_id l = mi_id m \<and> pl_availability_window_id l = aw_id w) (db_ledger db)"

definition catalog_entry :: "MediaItem \<Rightarrow> AvailabilityWindow \<Rightarrow> CatalogEntry" where
  "catalog_entry m w = \<lparr>ce_media_item = m, ce_availability_window_id = aw_id w, ce_window_ends_at = aw_ends_at w\<rparr>"

definition soonest_window :: "tv_db \<Rightarrow> time \<Rightarrow> MediaItem \<Rightarrow> AvailabilityWindow option" where
  "soonest_window db now m = first_row (sort_key aw_ends_at (filter (offerable db now m) (db_windows db)))"

definition Catalog :: "tv_db \<Rightarrow> time \<Rightarrow> CatalogEntry list" where
  "Catalog db now = List.map_filter (\<lambda>m. map_option (catalog_entry m) (soonest_window db now m))
     (sort_key mi_id (filter mi_direct_play_ok (db_media db)))"

definition CatalogEntryFor :: "tv_db \<Rightarrow> uuid \<Rightarrow> time \<Rightarrow> repo_error + CatalogEntry" where
  "CatalogEntryFor db i now = one_row (Option.bind (List.find (\<lambda>m. mi_id m = i) (db_media db))
     (\<lambda>m. map_option (catalog_entry m) (soonest_window db now m)))"

section \<open>Grants and sessions\<close>

definition redeem_match :: "uuid \<Rightarrow> uuid \<Rightarrow> time \<Rightarrow> PlayGrant \<Rightarrow> bool" where
  "redeem_match i d now g \<longleftrightarrow> pg_id g = i \<and> pg_device_id g = d \<and> pg_consumed_at g = None \<and> pg_expires_at g > now"

definition RedeemGrant :: "uuid \<Rightarrow> uuid \<Rightarrow> time \<Rightarrow> tv_db \<Rightarrow> (repo_error, PlayGrant, tv_db) effect" where
  "RedeemGrant i d now db =
     (case List.find (redeem_match i d now) (db_grants db) of
        None \<Rightarrow> (Inl ErrNotFound, db)
      | Some g \<Rightarrow> (Inr (g\<lparr>pg_consumed_at := Some now\<rparr>), db\<lparr>db_grants :=
          update_where (redeem_match i d now) (\<lambda>g. g\<lparr>pg_consumed_at := Some now\<rparr>) (db_grants db)\<rparr>))"

definition GrantForDevice :: "tv_db \<Rightarrow> uuid \<Rightarrow> uuid \<Rightarrow> repo_error + PlayGrant" where
  "GrantForDevice db i d = one_row (List.find (\<lambda>g. pg_id g = i \<and> pg_device_id g = d) (db_grants db))"

definition SessionForGrant :: "tv_db \<Rightarrow> uuid \<Rightarrow> repo_error + PlaybackSession" where
  "SessionForGrant db i = one_row (List.find (\<lambda>s. ps_grant_id s = i) (db_sessions db))"

definition MaxPositionForDeviceMedia :: "tv_db \<Rightarrow> uuid \<Rightarrow> uuid \<Rightarrow> int" where
  "MaxPositionForDeviceMedia db d m =
     (case map ps_max_position_seconds
             (filter (\<lambda>s. ps_device_id s = d \<and> ps_media_item_id s = m) (db_sessions db)) of
        [] \<Rightarrow> 0 | x # xs \<Rightarrow> fold max xs x)"

definition upsert_session ::
  "PlaybackSession \<Rightarrow> (PlaybackSession \<Rightarrow> PlaybackSession) \<Rightarrow> tv_db \<Rightarrow> (repo_error, PlaybackSession, tv_db) effect" where
  "upsert_session row upd db =
     (if \<not> (int4_ok (ps_watched_seconds row) \<and> int4_ok (ps_max_position_seconds row))
      then (Inl encode_error, db)
      else case List.find (\<lambda>s. ps_grant_id s = ps_grant_id row) (db_sessions db) of
        Some s \<Rightarrow> (Inr (upd s), db\<lparr>db_sessions :=
          update_where (\<lambda>s. ps_grant_id s = ps_grant_id row) upd (db_sessions db)\<rparr>)
      | None \<Rightarrow>
          if has_id ps_id (ps_id row) (db_sessions db) then (Inl UniqueViolation, db)
          else if \<not> session_refs db row then (Inl ForeignKeyViolation, db)
          else (Inr row, db\<lparr>db_sessions := db_sessions db @ [row]\<rparr>))"

definition RecordHeartbeat ::
  "uuid \<Rightarrow> PlayGrant \<Rightarrow> int \<Rightarrow> int \<Rightarrow> time \<Rightarrow> tv_db \<Rightarrow> (repo_error, PlaybackSession, tv_db) effect" where
  "RecordHeartbeat new_id g position watched now =
     upsert_session
       \<lparr>ps_id = new_id, ps_grant_id = pg_id g, ps_media_item_id = pg_media_item_id g,
        ps_device_id = pg_device_id g, ps_started_at = now, ps_ended_at = None,
        ps_watched_seconds = watched, ps_max_position_seconds = position, ps_completed = False\<rparr>
       (\<lambda>s. s\<lparr>ps_watched_seconds := max (ps_watched_seconds s) watched,
              ps_max_position_seconds := max (ps_max_position_seconds s) position\<rparr>)"

definition CompleteSession ::
  "uuid \<Rightarrow> PlayGrant \<Rightarrow> int \<Rightarrow> int \<Rightarrow> bool \<Rightarrow> time \<Rightarrow> tv_db \<Rightarrow> (repo_error, PlaybackSession, tv_db) effect" where
  "CompleteSession new_id g position watched completed now =
     upsert_session
       \<lparr>ps_id = new_id, ps_grant_id = pg_id g, ps_media_item_id = pg_media_item_id g,
        ps_device_id = pg_device_id g, ps_started_at = now, ps_ended_at = Some now,
        ps_watched_seconds = watched, ps_max_position_seconds = position, ps_completed = completed\<rparr>
       (\<lambda>s. s\<lparr>ps_ended_at := Some now,
              ps_watched_seconds := max (ps_watched_seconds s) watched,
              ps_max_position_seconds := max (ps_max_position_seconds s) position,
              ps_completed := ps_completed s \<or> completed\<rparr>)"

definition ledger_refs :: "tv_db \<Rightarrow> PlayLedgerEntry \<Rightarrow> bool" where
  "ledger_refs db l \<longleftrightarrow> has_id mi_id (pl_media_item_id l) (db_media db)
     \<and> has_id aw_id (pl_availability_window_id l) (db_windows db)
     \<and> has_ref dv_id (pl_device_id l) (db_devices db)"

definition ConsumePlay ::
  "uuid \<Rightarrow> uuid \<Rightarrow> uuid \<Rightarrow> uuid option \<Rightarrow> time \<Rightarrow> tv_db \<Rightarrow> (repo_error, bool, tv_db) effect" where
  "ConsumePlay new_id m w d now db =
     (let row = \<lparr>pl_id = new_id, pl_media_item_id = m, pl_device_id = d,
                 pl_availability_window_id = w, pl_consumed_at = now\<rparr>;
          (rows, created) = insert_do_nothing ledger_key row (db_ledger db)
      in if created \<and> \<not> ledger_refs db row then (Inl ForeignKeyViolation, db)
         else (Inr created, db\<lparr>db_ledger := rows\<rparr>))"

section \<open>The device handlers\<close>

record GrantResponse =
  gp_grant_id :: uuid
  gp_stream_url :: string
  gp_start_offset_seconds :: int
  gp_furthest_position_seconds :: int
  gp_mode :: string
  gp_expires_at :: time
  gp_server_time :: time

record SessionResponse =
  sp_session :: PlaybackSession
  sp_play_consumed :: bool
  sp_server_time :: time

record CatalogItem =
  ci_media_item :: MediaItem
  ci_availability_window_id :: uuid
  ci_window_ends_at :: time
  ci_image_url :: string

definition getCatalog :: "Device option \<Rightarrow> time \<Rightarrow> tv_db \<Rightarrow> http_error + CatalogItem list \<times> time" where
  "getCatalog ctx now db = (case require_device ctx of Inl e \<Rightarrow> Inl e | Inr _ \<Rightarrow>
     Inr (map (\<lambda>e. \<lparr>ci_media_item = ce_media_item e,
            ci_availability_window_id = ce_availability_window_id e,
            ci_window_ends_at = ce_window_ends_at e,
            ci_image_url = imageProxyPath (mi_id (ce_media_item e)) ''Primary''\<rparr>) (Catalog db now), now))"

definition grantResponse :: "PlayGrant \<Rightarrow> int \<Rightarrow> time \<Rightarrow> GrantResponse" where
  "grantResponse g furthest now = \<lparr>gp_grant_id = pg_id g, gp_stream_url = pg_stream_url g,
     gp_start_offset_seconds = pg_start_offset_seconds g, gp_furthest_position_seconds = furthest,
     gp_mode = pg_mode g, gp_expires_at = pg_expires_at g, gp_server_time = now\<rparr>"

definition on_demand_grant_row ::
  "tv_server \<Rightarrow> (string \<Rightarrow> string) \<Rightarrow> uuid \<Rightarrow> uuid \<Rightarrow> time \<Rightarrow> CatalogEntry \<Rightarrow> int \<Rightarrow> PlayGrant" where
  "on_demand_grant_row s url new_id d now e furthest = \<lparr>pg_id = new_id,
     pg_media_item_id = mi_id (ce_media_item e), pg_device_id = d,
     pg_availability_window_id = Some (ce_availability_window_id e), pg_schedule_entry_id = None,
     pg_mode = ModeOnDemand, pg_stream_url = url (mi_jellyfin_item_id (ce_media_item e)),
     pg_start_offset_seconds = ResumePositionSeconds furthest,
     pg_issued_at = now, pg_expires_at = now + sv_grant_ttl s, pg_consumed_at = None\<rparr>"

definition createGrant ::
  "tv_server \<Rightarrow> Device option \<Rightarrow> uuid \<Rightarrow> uuid \<Rightarrow> string \<Rightarrow> time \<Rightarrow> tv_db \<Rightarrow> (http_error, GrantResponse, tv_db) effect" where
  "createGrant s ctx new_id media_id mode now db =
     (case require_device ctx of Inl e \<Rightarrow> (Inl e, db) | Inr dev \<Rightarrow>
      case sv_jellyfin s of None \<Rightarrow> (Inl (HttpError 503 ''media source is not configured''), db) | Some url \<Rightarrow>
        if mode = ModeProgrammed then
          (case programmedGrant s url new_id media_id (dv_id dev) now db of
             (Inl e, db') \<Rightarrow> (Inl e, db')
           | (Inr g, db') \<Rightarrow> (Inr (grantResponse g 0 now), db'))
        else
          (case CatalogEntryFor db media_id now of
             Inl err \<Rightarrow> (Inl (if err = ErrNotFound
               then HttpError 403 ''item is unavailable or its play was already consumed'' else MapError err), db)
           | Inr entry \<Rightarrow>
               if \<not> mi_direct_play_ok (ce_media_item entry)
               then (Inl (HttpError 403 ''item is not direct-play compatible''), db)
               else let furthest = MaxPositionForDeviceMedia db (dv_id dev) (mi_id (ce_media_item entry))
                    in case PlayGrants_Create (on_demand_grant_row s url new_id (dv_id dev) now entry furthest) db of
                         (Inl err, db') \<Rightarrow> (Inl (MapError err), db')
                       | (Inr g, db') \<Rightarrow> (Inr (grantResponse g furthest now), db')))"

definition activeGrant :: "uuid \<Rightarrow> uuid \<Rightarrow> time \<Rightarrow> tv_db \<Rightarrow> (http_error, PlayGrant, tv_db) effect" where
  "activeGrant i d now db =
     (case RedeemGrant i d now db of
        (Inr g, db') \<Rightarrow> (Inr g, db')
      | (Inl err, db') \<Rightarrow>
          if err \<noteq> ErrNotFound then (Inl (MapError err), db')
          else case GrantForDevice db' i d of
            Inl err' \<Rightarrow> (Inl (if err' = ErrNotFound then HttpError 404 ''grant not found'' else MapError err'), db')
          | Inr g \<Rightarrow> if pg_consumed_at g = None
                     then (Inl (HttpError 403 ''grant expired before playback started''), db')
                     else (Inr g, db'))"

definition consumeIfEarned ::
  "uuid \<Rightarrow> PlayGrant \<Rightarrow> PlaybackSession \<Rightarrow> time \<Rightarrow> tv_db \<Rightarrow> (http_error, bool, tv_db) effect" where
  "consumeIfEarned new_id g session now db =
     (case pg_availability_window_id g of None \<Rightarrow> (Inr False, db) | Some w \<Rightarrow>
      case MediaItems_Get db (pg_media_item_id g) of Inl err \<Rightarrow> (Inl (MapError err), db) | Inr item \<Rightarrow>
        if \<not> ConsumesPlay item then (Inr False, db)
        else if \<not> SessionCompletesPlay (ps_completed session) (ps_max_position_seconds session) (mi_runtime_seconds item)
        then (Inr False, db)
        else case ConsumePlay new_id (mi_id item) w (Some (pg_device_id g)) now db of
               (Inl err, db') \<Rightarrow> (Inl (MapError err), db')
             | (Inr consumed, db') \<Rightarrow> (Inr consumed, db'))"

definition default_watched :: "int \<Rightarrow> int \<Rightarrow> int" where
  "default_watched watched position = (if watched = 0 then position else watched)"

definition heartbeatGrant ::
  "Device option \<Rightarrow> uuid \<Rightarrow> uuid \<Rightarrow> uuid \<Rightarrow> int \<Rightarrow> int \<Rightarrow> time \<Rightarrow> tv_db \<Rightarrow> (http_error, SessionResponse, tv_db) effect" where
  "heartbeatGrant ctx session_id ledger_id grant_id position watched now db =
     (case require_device ctx of Inl e \<Rightarrow> (Inl e, db) | Inr dev \<Rightarrow>
      case activeGrant grant_id (dv_id dev) now db of (Inl e, db1) \<Rightarrow> (Inl e, db1) | (Inr g, db1) \<Rightarrow>
      case RecordHeartbeat session_id g position (default_watched watched position) now db1 of
        (Inl err, db2) \<Rightarrow> (Inl (MapError err), db2)
      | (Inr session, db2) \<Rightarrow>
          case consumeIfEarned ledger_id g session now db2 of
            (Inl e, db3) \<Rightarrow> (Inl e, db3)
          | (Inr consumed, db3) \<Rightarrow>
              (Inr \<lparr>sp_session = session, sp_play_consumed = consumed, sp_server_time = now\<rparr>, db3))"

definition completeGrant ::
  "Device option \<Rightarrow> uuid \<Rightarrow> uuid \<Rightarrow> uuid \<Rightarrow> int \<Rightarrow> int \<Rightarrow> bool option \<Rightarrow> time \<Rightarrow> tv_db
   \<Rightarrow> (http_error, SessionResponse, tv_db) effect" where
  "completeGrant ctx session_id ledger_id grant_id position watched completed now db =
     (case require_device ctx of Inl e \<Rightarrow> (Inl e, db) | Inr dev \<Rightarrow>
      case activeGrant grant_id (dv_id dev) now db of (Inl e, db1) \<Rightarrow> (Inl e, db1) | (Inr g, db1) \<Rightarrow>
      case CompleteSession session_id g position (default_watched watched position)
             (derefOr completed True) now db1 of
        (Inl err, db2) \<Rightarrow> (Inl (MapError err), db2)
      | (Inr session, db2) \<Rightarrow>
          case consumeIfEarned ledger_id g session now db2 of
            (Inl e, db3) \<Rightarrow> (Inl e, db3)
          | (Inr consumed, db3) \<Rightarrow>
              (Inr \<lparr>sp_session = session, sp_play_consumed = consumed, sp_server_time = now\<rparr>, db3))"

definition MediaItemByJellyfinID :: "tv_db \<Rightarrow> string \<Rightarrow> repo_error + MediaItem" where
  "MediaItemByJellyfinID db j = one_row (List.find (\<lambda>m. mi_jellyfin_item_id m = j) (db_media db))"

definition AllJellyfinIDs :: "tv_db \<Rightarrow> string list" where
  "AllJellyfinIDs db = sort (map mi_jellyfin_item_id (db_media db))"

section \<open>Concrete requests\<close>

definition ex_grant :: "uuid \<Rightarrow> PlayGrant" where
  "ex_grant i = \<lparr>pg_id = i, pg_media_item_id = ''m2'', pg_device_id = ''d1'',
     pg_availability_window_id = Some ''w1'', pg_schedule_entry_id = None, pg_mode = ModeOnDemand,
     pg_stream_url = [], pg_start_offset_seconds = 0, pg_issued_at = 0, pg_expires_at = 5000 * second,
     pg_consumed_at = None\<rparr>"

definition ex_session :: PlaybackSession where
  "ex_session = \<lparr>ps_id = ''s1'', ps_grant_id = ''g1'', ps_media_item_id = ''m2'', ps_device_id = ''d1'',
     ps_started_at = 0, ps_ended_at = None, ps_watched_seconds = 40, ps_max_position_seconds = 50,
     ps_completed = False\<rparr>"

definition ex_play_db :: tv_db where
  "ex_play_db = ex_db\<lparr>db_grants := [ex_grant ''g1'', ex_grant ''g2''], db_sessions := [ex_session]\<rparr>"

definition ex_spent_db :: tv_db where
  "ex_spent_db = ex_play_db\<lparr>db_ledger := [\<lparr>pl_id = ''l1'', pl_media_item_id = ''m2'',
     pl_device_id = Some ''d1'', pl_availability_window_id = ''w1'', pl_consumed_at = 0\<rparr>]\<rparr>"

definition ex_unpaired_db :: tv_db where
  "ex_unpaired_db = ex_db\<lparr>db_devices := [ex_device, ex_device\<lparr>dv_id := ''d2'', dv_token_hash := [],
     dv_pairing_code := ''ACDE34'', dv_pairing_expires_at := Some (900 * second), dv_paired_at := None\<rparr>]\<rparr>"

section \<open>Every device operation keeps the database in order\<close>

lemma airings_frame: "db_media db' = db_media db \<Longrightarrow> db_schedule db' = db_schedule db \<Longrightarrow> airings db' = airings db"
  by (simp add: airings_def)

lemma grid_inv_frame:
  assumes "grid_inv db" "db_media db' = db_media db" "db_schedule db' = db_schedule db"
    "db_windows db' = db_windows db" "devices_ok (db_devices db')" "ledger_ok db'" "grants_ok db'" "sessions_ok db'"
  shows "grid_inv db'"
  using assms airings_frame [of db' db]
  by (simp add: grid_inv_def tv_wf_def no_overlap_def)

lemma map_filter_key: "map k (filter (\<lambda>x. k x \<noteq> c) xs) = filter (\<lambda>v. v \<noteq> c) (map k xs)"
  by (induction xs) auto

lemma grid_inv_devices:
  assumes "grid_inv db" "devices_ok ds" "\<And>i. has_id dv_id i (db_devices db) \<Longrightarrow> has_id dv_id i ds"
  shows "grid_inv (db\<lparr>db_devices := ds\<rparr>)"
proof (rule grid_inv_frame [OF assms(1)])
  have "has_ref dv_id x ds" if "has_ref dv_id x (db_devices db)" for x
    using that assms(3) by (cases x) auto
  then show "ledger_ok (db\<lparr>db_devices := ds\<rparr>)" using assms(1)
    by (auto simp: ledger_ok_def grid_inv_def tv_wf_def)
  show "grants_ok (db\<lparr>db_devices := ds\<rparr>)" "sessions_ok (db\<lparr>db_devices := ds\<rparr>)"
    using assms by (auto simp: grid_inv_def tv_wf_def grants_ok_def grant_refs_def sessions_ok_def session_refs_def)
qed (simp_all add: assms(2))

lemma TouchDevice_inv: "grid_inv db \<Longrightarrow> grid_inv (TouchDevice i now db)"
  unfolding TouchDevice_def
  by (rule grid_inv_devices)
    (auto simp: grid_inv_def tv_wf_def devices_ok_def unique_key_def map_update_where map_filter_key)

lemma requireDevice_inv: "grid_inv db \<Longrightarrow> requireDevice hash a now db = (r, db') \<Longrightarrow> grid_inv db'"
  by (auto simp: requireDevice_def Let_def TouchDevice_inv split: if_splits sum.splits)

lemma filter_singleton:
  assumes "filter p xs = [x]"
  obtains us vs where "xs = us @ x # vs" "p x" "\<forall>u \<in> set us. \<not> p u" "\<forall>v \<in> set vs. \<not> p v"
proof -
  from assms obtain us vs where "xs = us @ x # vs" "\<forall>u \<in> set us. \<not> p u" "p x" "filter p vs = []"
    by (auto simp: filter_eq_Cons_iff)
  with that show thesis by (simp add: filter_empty_conv)
qed

lemma update_where_id: "\<forall>x \<in> set xs. \<not> p x \<Longrightarrow> update_where p f xs = xs"
  by (simp add: update_where_def map_idI)

lemma update_where_simps [simp]:
  "update_where p f (xs @ ys) = update_where p f xs @ update_where p f ys"
  "update_where p f (x # xs) = (if p x then f x else x) # update_where p f xs"
  by (simp_all add: update_where_def)

lemma ClaimPairingCode_Inr:
  assumes "ClaimPairingCode code h now db = (Inr d', db')"
  obtains d us vs where "db_devices db = us @ d # vs" "pairing_match code now d" "d' = claim_row h now d"
    "\<forall>u \<in> set us. \<not> pairing_match code now u" "\<forall>v \<in> set vs. \<not> pairing_match code now v"
    "\<not> (h \<noteq> [] \<and> list_ex (\<lambda>x. dv_id x \<noteq> dv_id d \<and> dv_token_hash x = h) (db_devices db))"
    "db' = db\<lparr>db_devices := us @ d' # vs\<rparr>"
proof -
  from assms obtain d where d: "filter (pairing_match code now) (db_devices db) = [d]"
    "d' = claim_row h now d"
    "\<not> (h \<noteq> [] \<and> list_ex (\<lambda>x. dv_id x \<noteq> dv_id d \<and> dv_token_hash x = h) (db_devices db))"
    "db' = db\<lparr>db_devices := update_where (pairing_match code now) (claim_row h now) (db_devices db)\<rparr>"
    by (auto simp: ClaimPairingCode_def split: list.splits if_splits)
  from d(1) obtain us vs where "db_devices db = us @ d # vs" "pairing_match code now d"
    "\<forall>u \<in> set us. \<not> pairing_match code now u" "\<forall>v \<in> set vs. \<not> pairing_match code now v"
    by (rule filter_singleton)
  with d show ?thesis by (intro that) (auto simp: update_where_id)
qed

lemma devices_ok_claim:
  assumes "devices_ok (us @ d # vs)"
    "\<not> (h \<noteq> [] \<and> list_ex (\<lambda>x. dv_id x \<noteq> dv_id d \<and> dv_token_hash x = h) (us @ d # vs))"
  shows "devices_ok (us @ claim_row h now d # vs)"
proof -
  have ids: "distinct (map dv_id (us @ d # vs))"
    and toks: "distinct (filter (\<lambda>v. v \<noteq> []) (map dv_token_hash (us @ d # vs)))"
    and codes: "distinct (filter (\<lambda>v. v \<noteq> []) (map dv_pairing_code (us @ d # vs)))"
    using assms(1) unfolding devices_ok_def unique_key_def map_filter_key by simp_all
  from ids have "dv_id x \<noteq> dv_id d" if "x \<in> set us \<union> set vs" for x
    using that by (auto simp: image_iff)
  with assms(2) have h: "h \<noteq> [] \<Longrightarrow> dv_token_hash x \<noteq> h" if "x \<in> set us \<union> set vs" for x
    using that by (auto simp: list_ex_iff)
  have "distinct (map dv_id (us @ claim_row h now d # vs))"
    using ids by (simp add: claim_row_def)
  moreover have "distinct (filter (\<lambda>v. v \<noteq> []) (map dv_token_hash (us @ claim_row h now d # vs)))"
    using toks h by (auto simp: claim_row_def split: if_splits)
  moreover have "distinct (filter (\<lambda>v. v \<noteq> []) (map dv_pairing_code (us @ claim_row h now d # vs)))"
    using codes by (auto simp: claim_row_def split: if_splits)
  ultimately show ?thesis unfolding devices_ok_def unique_key_def map_filter_key by simp
qed

lemma ClaimPairingCode_inv:
  assumes "grid_inv db" "ClaimPairingCode code h now db = (r, db')"
  shows "grid_inv db'"
proof (cases r)
  case (Inl e)
  with assms show ?thesis by (auto simp: ClaimPairingCode_def split: list.splits if_splits)
next
  case (Inr d')
  with assms(2) have "ClaimPairingCode code h now db = (Inr d', db')" by simp
  then show ?thesis
  proof (rule ClaimPairingCode_Inr)
    fix d us vs
    assume ds: "db_devices db = us @ d # vs" and d': "d' = claim_row h now d"
      and u: "\<not> (h \<noteq> [] \<and> list_ex (\<lambda>x. dv_id x \<noteq> dv_id d \<and> dv_token_hash x = h) (db_devices db))"
      and db': "db' = db\<lparr>db_devices := us @ d' # vs\<rparr>"
    have "devices_ok (us @ d # vs)" using assms(1) ds by (simp add: grid_inv_def tv_wf_def)
    from this u have "devices_ok (us @ d' # vs)" unfolding d' ds by (rule devices_ok_claim)
    with assms(1) show ?thesis unfolding db'
      by (rule grid_inv_devices) (auto simp: ds d' has_id_def claim_row_def)
  qed
qed

lemma pairDevice_inv: "grid_inv db \<Longrightarrow> pairDevice hash token code now db = (r, db') \<Longrightarrow> grid_inv db'"
  by (auto simp: pairDevice_def split: prod.splits sum.splits dest: ClaimPairingCode_inv)

lemma grid_inv_grants:
  assumes "grid_inv db" "unique_key pg_id gs" "\<forall>g \<in> set gs. grant_refs db g"
    "\<And>i. has_id pg_id i (db_grants db) \<Longrightarrow> has_id pg_id i gs"
  shows "grid_inv (db\<lparr>db_grants := gs\<rparr>)"
  by (rule grid_inv_frame [OF assms(1)])
    (use assms in \<open>auto simp: grid_inv_def tv_wf_def ledger_ok_def grants_ok_def grant_refs_def
      sessions_ok_def session_refs_def\<close>)

lemma PlayGrants_Create_inv:
  assumes "grid_inv db" "PlayGrants_Create g db = (r, db')"
  shows "grid_inv db'"
proof (cases r)
  case (Inl e)
  with assms show ?thesis by (auto dest: PlayGrants_Create_Inl)
next
  case (Inr g')
  with assms(2) PlayGrants_Create_Inr [of g db g' db']
  have *: "db' = db\<lparr>db_grants := db_grants db @ [g]\<rparr>" "grant_refs db g" "\<not> has_id pg_id (pg_id g) (db_grants db)"
    by auto
  with assms(1) show ?thesis unfolding *(1)
    by (intro grid_inv_grants)
      (auto simp: grid_inv_def tv_wf_def grants_ok_def has_id_iff intro: unique_key_snoc)
qed

lemma programmedGrant_inv: "grid_inv db \<Longrightarrow> programmedGrant s url i m d now db = (r, db') \<Longrightarrow> grid_inv db'"
  by (auto simp: programmedGrant_alt split: sum.splits if_splits prod.splits dest: PlayGrants_Create_inv)

lemma createGrant_inv: "grid_inv db \<Longrightarrow> createGrant s ctx i m mode now db = (r, db') \<Longrightarrow> grid_inv db'"
  by (auto simp: createGrant_def Let_def split: sum.splits option.splits if_splits prod.splits
      dest: PlayGrants_Create_inv programmedGrant_inv)

lemma RedeemGrant_inv:
  assumes "grid_inv db" "RedeemGrant i d now db = (r, db')"
  shows "grid_inv db'"
proof -
  have "grid_inv (db\<lparr>db_grants := update_where (redeem_match i d now)
     (\<lambda>g. g\<lparr>pg_consumed_at := Some now\<rparr>) (db_grants db)\<rparr>)"
    using assms(1)
    by (intro grid_inv_grants)
      (auto simp: grid_inv_def tv_wf_def grants_ok_def grant_refs_def unique_key_def map_update_where in_update_where)
  with assms show ?thesis by (auto simp: RedeemGrant_def split: option.splits)
qed

lemma activeGrant_inv: "grid_inv db \<Longrightarrow> activeGrant i d now db = (r, db') \<Longrightarrow> grid_inv db'"
  by (auto simp: activeGrant_def split: prod.splits sum.splits if_splits dest: RedeemGrant_inv)

lemma grid_inv_sessions:
  assumes "grid_inv db" "unique_key ps_id ss" "unique_key ps_grant_id ss" "\<forall>s \<in> set ss. session_refs db s"
  shows "grid_inv (db\<lparr>db_sessions := ss\<rparr>)"
  by (rule grid_inv_frame [OF assms(1)])
    (use assms in \<open>auto simp: grid_inv_def tv_wf_def ledger_ok_def grants_ok_def grant_refs_def
      sessions_ok_def session_refs_def\<close>)

lemma upsert_session_inv:
  assumes "grid_inv db" "upsert_session row upd db = (r, db')"
    and keep: "\<And>s. ps_id (upd s) = ps_id s \<and> ps_grant_id (upd s) = ps_grant_id s"
    and refs: "\<And>s. session_refs db s \<Longrightarrow> int4_ok (ps_watched_seconds row) \<Longrightarrow>
      int4_ok (ps_max_position_seconds row) \<Longrightarrow> session_refs db (upd s)"
  shows "grid_inv db'"
proof -
  have old: "unique_key ps_id (db_sessions db)" "unique_key ps_grant_id (db_sessions db)"
    "\<forall>s \<in> set (db_sessions db). session_refs db s"
    using assms(1) by (simp_all add: grid_inv_def tv_wf_def sessions_ok_def)
  have upd: "grid_inv (db\<lparr>db_sessions := update_where (\<lambda>s. ps_grant_id s = ps_grant_id row) upd (db_sessions db)\<rparr>)"
    if "int4_ok (ps_watched_seconds row)" "int4_ok (ps_max_position_seconds row)"
    using old that keep refs
    by (intro grid_inv_sessions [OF assms(1)]) (auto simp: unique_key_def map_update_where in_update_where)
  have ins: "grid_inv (db\<lparr>db_sessions := db_sessions db @ [row]\<rparr>)"
    if "List.find (\<lambda>s. ps_grant_id s = ps_grant_id row) (db_sessions db) = None"
      "\<not> has_id ps_id (ps_id row) (db_sessions db)" "session_refs db row"
    using old that
    by (intro grid_inv_sessions [OF assms(1)])
      (auto simp: has_id_iff not_has_id_find [symmetric] intro: unique_key_snoc)
  show ?thesis using assms(1,2) upd ins
    by (auto simp: upsert_session_def split: if_splits option.splits)
qed

lemma int4_max: "int4_ok a \<Longrightarrow> int4_ok b \<Longrightarrow> int4_ok (max a b)"
  by (simp add: max_def)

lemma RecordHeartbeat_inv: "grid_inv db \<Longrightarrow> RecordHeartbeat i g p w now db = (r, db') \<Longrightarrow> grid_inv db'"
  unfolding RecordHeartbeat_def by (erule (1) upsert_session_inv) (auto simp: session_refs_def int4_max)

lemma CompleteSession_inv: "grid_inv db \<Longrightarrow> CompleteSession i g p w c now db = (r, db') \<Longrightarrow> grid_inv db'"
  unfolding CompleteSession_def by (erule (1) upsert_session_inv) (auto simp: session_refs_def int4_max)

text \<open>The watch-once ledger is an instance of the contract of a ledger.\<close>

interpretation play_ledger: ledger ledger_key "insert_do_nothing ledger_key"
  by (rule do_nothing.ledger_axioms)

lemma ConsumePlay_cases:
  assumes "ConsumePlay i m w d now db = (r, db')"
  obtains "r = Inr False" "db' = db" "(m, w) \<in> keys ledger_key (db_ledger db)"
  | "r = Inl ForeignKeyViolation" "db' = db"
  | l where "r = Inr True" "(m, w) \<notin> keys ledger_key (db_ledger db)" "ledger_key l = (m, w)"
      "pl_device_id l = d" "ledger_refs db l" "db' = db\<lparr>db_ledger := db_ledger db @ [l]\<rparr>"
proof (cases "(m, w) \<in> keys ledger_key (db_ledger db)")
  case True
  with assms show ?thesis
    by (intro that(1)) (auto simp: ConsumePlay_def Let_def insert_do_nothing_cases split: prod.splits if_splits)
next
  case False
  let ?l = "\<lparr>pl_id = i, pl_media_item_id = m, pl_device_id = d, pl_availability_window_id = w, pl_consumed_at = now\<rparr>"
  have "ConsumePlay i m w d now db = (if ledger_refs db ?l
      then (Inr True, db\<lparr>db_ledger := db_ledger db @ [?l]\<rparr>) else (Inl ForeignKeyViolation, db))"
    using False by (simp add: ConsumePlay_def Let_def insert_do_nothing_cases)
  with assms False that(2) that(3) [of ?l] show ?thesis by (auto split: if_splits)
qed

lemma ConsumePlay_inv:
  assumes "grid_inv db" "ConsumePlay i m w d now db = (r, db')"
  shows "grid_inv db'"
  using assms(2)
proof (cases rule: ConsumePlay_cases)
  case (3 l)
  have "unique_key ledger_key (db_ledger db @ [l])"
    using 3 assms(1) by (intro unique_key_snoc) (auto simp: grid_inv_def tv_wf_def ledger_ok_def)
  with assms(1) 3 show ?thesis
    by (intro grid_inv_frame [OF assms(1)])
      (auto simp: grid_inv_def tv_wf_def ledger_ok_def ledger_refs_def grants_ok_def grant_refs_def
        sessions_ok_def session_refs_def)
qed (use assms(1) in simp_all)

lemma consumeIfEarned_inv: "grid_inv db \<Longrightarrow> consumeIfEarned i g ses now db = (r, db') \<Longrightarrow> grid_inv db'"
  by (auto simp: consumeIfEarned_def split: option.splits sum.splits if_splits prod.splits dest: ConsumePlay_inv)

lemma heartbeatGrant_inv:
  "grid_inv db \<Longrightarrow> heartbeatGrant ctx si li gi p w now db = (r, db') \<Longrightarrow> grid_inv db'"
  by (auto simp: heartbeatGrant_def split: sum.splits prod.splits)
    (metis activeGrant_inv RecordHeartbeat_inv consumeIfEarned_inv)+

lemma completeGrant_inv:
  "grid_inv db \<Longrightarrow> completeGrant ctx si li gi p w c now db = (r, db') \<Longrightarrow> grid_inv db'"
  by (auto simp: completeGrant_def split: sum.splits prod.splits)
    (metis activeGrant_inv CompleteSession_inv consumeIfEarned_inv)+

section \<open>What a successful report did\<close>

lemma require_device_Inr [simp]: "require_device ctx = Inr d \<longleftrightarrow> ctx = Some d"
  by (cases ctx) (auto simp: require_device_def)

lemma heartbeatGrant_Inr:
  assumes "heartbeatGrant ctx si li gi p w now db = (Inr r, db')"
  obtains dev g db1 db2 where "ctx = Some dev" "activeGrant gi (dv_id dev) now db = (Inr g, db1)"
    "RecordHeartbeat si g p (default_watched w p) now db1 = (Inr (sp_session r), db2)"
    "consumeIfEarned li g (sp_session r) now db2 = (Inr (sp_play_consumed r), db')"
  using assms by (auto simp: heartbeatGrant_def split: sum.splits prod.splits)

lemma completeGrant_Inr:
  assumes "completeGrant ctx si li gi p w c now db = (Inr r, db')"
  obtains dev g db1 db2 where "ctx = Some dev" "activeGrant gi (dv_id dev) now db = (Inr g, db1)"
    "CompleteSession si g p (default_watched w p) (derefOr c True) now db1 = (Inr (sp_session r), db2)"
    "consumeIfEarned li g (sp_session r) now db2 = (Inr (sp_play_consumed r), db')"
  using assms by (auto simp: completeGrant_def split: sum.splits prod.splits)

lemma wf_grant_unique:
  "grid_inv db \<Longrightarrow> g \<in> set (db_grants db) \<Longrightarrow> g' \<in> set (db_grants db) \<Longrightarrow> pg_id g = pg_id g' \<Longrightarrow> g = g'"
  by (auto simp: grid_inv_def tv_wf_def grants_ok_def unique_key_def distinct_map dest: inj_onD)

lemma RedeemGrant_Inr:
  assumes "RedeemGrant i d now db = (Inr g', db')"
  obtains g where "g \<in> set (db_grants db)" "pg_id g = i" "pg_device_id g = d" "Redeemable g now"
    "g' = g\<lparr>pg_consumed_at := Some now\<rparr>"
    "db' = db\<lparr>db_grants := update_where (redeem_match i d now) (\<lambda>g. g\<lparr>pg_consumed_at := Some now\<rparr>) (db_grants db)\<rparr>"
  using assms
  by (auto simp: RedeemGrant_def redeem_match_def Redeemable_def split: option.splits dest!: find_Some_in)

lemma RedeemGrant_Inl:
  assumes "RedeemGrant i d now db = (Inl e, db')"
  shows "e = ErrNotFound" "db' = db" "\<not> (\<exists>g \<in> set (db_grants db). redeem_match i d now g)"
  using assms by (auto simp: RedeemGrant_def find_None_iff split: option.splits)

lemma RedeemGrant_success_iff:
  "(\<exists>g db'. RedeemGrant i d now db = (Inr g, db')) \<longleftrightarrow>
     (\<exists>g \<in> set (db_grants db). pg_id g = i \<and> pg_device_id g = d \<and> Redeemable g now)"
  by (auto simp: RedeemGrant_def find_None_iff redeem_match_def Redeemable_def split: option.splits
      dest!: find_Some_in)

lemma RedeemGrant_again:
  assumes inv: "grid_inv db" and r: "RedeemGrant i d now db = (Inr g, db')"
  shows "RedeemGrant i d2 now2 db' = (Inl ErrNotFound, db')"
proof -
  from r obtain g0 where g0: "g0 \<in> set (db_grants db)" "pg_id g0 = i" "pg_device_id g0 = d" "Redeemable g0 now"
    "db' = db\<lparr>db_grants := update_where (redeem_match i d now) (\<lambda>g. g\<lparr>pg_consumed_at := Some now\<rparr>) (db_grants db)\<rparr>"
    by (rule RedeemGrant_Inr)
  have "\<not> redeem_match i d2 now2 x" if "x \<in> set (db_grants db')" for x
  proof
    assume m: "redeem_match i d2 now2 x"
    from that obtain y where y: "y \<in> set (db_grants db)"
      "x = (if redeem_match i d now y then y\<lparr>pg_consumed_at := Some now\<rparr> else y)"
      by (auto simp: g0(5) in_update_where)
    with m have "pg_id y = i" by (auto simp: redeem_match_def split: if_splits)
    with wf_grant_unique [OF inv y(1) g0(1)] g0 have "redeem_match i d now y"
      by (simp add: redeem_match_def Redeemable_def)
    with y m show False by (simp add: redeem_match_def)
  qed
  then have "List.find (redeem_match i d2 now2) (db_grants db') = None" by (simp add: find_None_iff)
  then show ?thesis by (simp add: RedeemGrant_def)
qed

text \<open>
  A grant is redeemed at most once, only by the device it was issued to and only before it
  expires: redemption succeeds exactly for an unconsumed, unexpired grant of that device,
  and afterwards no redemption of that grant succeeds again, by any device at any time.
\<close>

theorem RedeemGrant_single_use:
  assumes "grid_inv db"
  shows "((\<exists>g db'. RedeemGrant i d now db = (Inr g, db')) \<longleftrightarrow>
      (\<exists>g \<in> set (db_grants db). pg_id g = i \<and> pg_device_id g = d \<and> Redeemable g now)) \<and>
    (\<forall>g db' d2 now2. RedeemGrant i d now db = (Inr g, db') \<longrightarrow>
      RedeemGrant i d2 now2 db' = (Inl ErrNotFound, db'))"
  using RedeemGrant_success_iff RedeemGrant_again [OF assms] by blast

lemma ex_play_inv: "grid_inv ex_play_db"
  by code_simp

theorem RedeemGrant_single_use_witness:
  "\<exists>g db'. RedeemGrant ''g1'' ''d1'' 0 ex_play_db = (Inr g, db') \<and>
     RedeemGrant ''g1'' ''d1'' 1 db' = (Inl ErrNotFound, db')"
proof -
  have "\<exists>g \<in> set (db_grants ex_play_db). pg_id g = ''g1'' \<and> pg_device_id g = ''d1'' \<and> Redeemable g 0"
    by code_simp
  with RedeemGrant_single_use [OF ex_play_inv, of "''g1''" "''d1''" 0] show ?thesis by blast
qed

lemma activeGrant_Inr:
  assumes "activeGrant i d now db = (Inr g', db')"
  obtains g where "g \<in> set (db_grants db)" "pg_id g = i" "pg_device_id g = d"
    "pg_consumed_at g \<noteq> None \<or> now < pg_expires_at g"
    "g' = (if pg_consumed_at g = None then g\<lparr>pg_consumed_at := Some now\<rparr> else g)"
    "db_sessions db' = db_sessions db" "db_ledger db' = db_ledger db" "db_media db' = db_media db"
    "db_windows db' = db_windows db" "db_devices db' = db_devices db" "map pg_id (db_grants db') = map pg_id (db_grants db)"
proof (cases "RedeemGrant i d now db")
  case (Pair r db1)
  show ?thesis
  proof (cases r)
    case (Inr g1)
    with Pair assms have "RedeemGrant i d now db = (Inr g', db')" by (simp add: activeGrant_def)
    then show ?thesis by (rule RedeemGrant_Inr) (auto intro!: that simp: Redeemable_def map_update_where)
  next
    case (Inl e)
    with Pair RedeemGrant_Inl [of i d now db e db1] have "db1 = db" "e = ErrNotFound" by simp_all
    with Inl Pair assms have "GrantForDevice db i d = Inr g'" "pg_consumed_at g' \<noteq> None" "db' = db"
      by (auto simp: activeGrant_def split: sum.splits if_splits)
    then show ?thesis by (intro that [of g']) (auto simp: GrantForDevice_def dest!: find_Some_in)
  qed
qed

lemma activeGrant_Inl: "activeGrant i d now db = (Inl e, db') \<Longrightarrow> db' = db"
  by (auto simp: activeGrant_def dest: RedeemGrant_Inl(2) split: prod.splits sum.splits if_splits)

lemma activeGrant_accepts:
  assumes inv: "grid_inv db" and g: "g \<in> set (db_grants db)" "pg_id g = i" "pg_device_id g = d"
    and ok: "pg_consumed_at g \<noteq> None \<or> now < pg_expires_at g"
  shows "\<exists>g' db'. activeGrant i d now db = (Inr g', db')"
proof (cases "RedeemGrant i d now db")
  case (Pair r db1)
  show ?thesis
  proof (cases r)
    case (Inl e)
    with Pair have e: "e = ErrNotFound" "db1 = db" "\<not> redeem_match i d now g"
      using RedeemGrant_Inl [of i d now db e db1] g by auto
    with ok g have c: "pg_consumed_at g \<noteq> None" by (auto simp: redeem_match_def)
    have "List.find (\<lambda>x. pg_id x = i \<and> pg_device_id x = d) (db_grants db) \<noteq> None"
      using g by (auto simp: find_None_iff)
    then obtain x where x: "List.find (\<lambda>x. pg_id x = i \<and> pg_device_id x = d) (db_grants db) = Some x" by auto
    from find_Some_in [OF x] have "x \<in> set (db_grants db)" "pg_id x = pg_id g" using g by simp_all
    then have "x = g" by (rule wf_grant_unique [OF inv _ g(1)])
    with x c e Inl Pair show ?thesis by (auto simp: activeGrant_def GrantForDevice_def one_row_def)
  qed (use Pair in \<open>auto simp: activeGrant_def\<close>)
qed

text \<open>
  A progress report is accepted for a grant exactly when the grant belongs to the device and
  either playback already started or the grant has not expired: expiry gates only the
  start of playback, and another device's grant is never accepted.
\<close>

theorem activeGrant_iff:
  assumes "grid_inv db"
  shows "(\<exists>g db'. activeGrant i d now db = (Inr g, db')) \<longleftrightarrow>
    (\<exists>g \<in> set (db_grants db). pg_id g = i \<and> pg_device_id g = d \<and>
       (pg_consumed_at g \<noteq> None \<or> now < pg_expires_at g))"
proof
  assume "\<exists>g db'. activeGrant i d now db = (Inr g, db')"
  then obtain g' db' where "activeGrant i d now db = (Inr g', db')" by blast
  then show "\<exists>g \<in> set (db_grants db). pg_id g = i \<and> pg_device_id g = d \<and>
      (pg_consumed_at g \<noteq> None \<or> now < pg_expires_at g)"
    by (rule activeGrant_Inr) blast
qed (use activeGrant_accepts [OF assms] in blast)

theorem activeGrant_iff_witness:
  "\<exists>g db'. activeGrant ''g1'' ''d1'' 0 ex_play_db = (Inr g, db')"
  unfolding activeGrant_iff [OF ex_play_inv] by code_simp

section \<open>Progress only moves forward\<close>

definition session_progress :: "PlaybackSession \<Rightarrow> PlaybackSession \<Rightarrow> bool" where
  "session_progress s s' \<longleftrightarrow> ps_id s' = ps_id s \<and> ps_grant_id s' = ps_grant_id s \<and>
     ps_started_at s' = ps_started_at s \<and> ps_watched_seconds s \<le> ps_watched_seconds s' \<and>
     ps_max_position_seconds s \<le> ps_max_position_seconds s' \<and> (ps_completed s \<longrightarrow> ps_completed s')"

lemma session_progress_refl [simp]: "session_progress s s"
  by (simp add: session_progress_def)

lemma upsert_session_progress:
  assumes "upsert_session row upd db = (r, db')" "s \<in> set (db_sessions db)" "\<And>x. session_progress x (upd x)"
  shows "\<exists>s' \<in> set (db_sessions db'). session_progress s s'"
proof -
  have "\<exists>s' \<in> set (update_where p upd (db_sessions db)). session_progress s s'" for p
    using assms(2,3) by (intro bexI [of _ "if p s then upd s else s"]) (auto simp: update_where_def)
  with assms show ?thesis
    by (auto simp: upsert_session_def split: if_splits option.splits intro: bexI [of _ s])
qed

lemma ConsumePlay_frame: "ConsumePlay i m w d now db = (r, db') \<Longrightarrow> db_sessions db' = db_sessions db"
  by (auto simp: ConsumePlay_def Let_def split: prod.splits if_splits)

lemma consumeIfEarned_frame: "consumeIfEarned i g ses now db = (r, db') \<Longrightarrow> db_sessions db' = db_sessions db"
  by (auto simp: consumeIfEarned_def split: option.splits sum.splits if_splits prod.splits dest: ConsumePlay_frame)

lemma activeGrant_frame: "activeGrant i d now db = (r, db') \<Longrightarrow> db_sessions db' = db_sessions db"
  by (cases r) (auto dest: activeGrant_Inl elim: activeGrant_Inr)

lemma RecordHeartbeat_progress:
  "RecordHeartbeat i g p w now db = (r, db') \<Longrightarrow> s \<in> set (db_sessions db) \<Longrightarrow>
   \<exists>s' \<in> set (db_sessions db'). session_progress s s'"
  unfolding RecordHeartbeat_def by (erule (1) upsert_session_progress) (simp add: session_progress_def)

lemma CompleteSession_progress:
  "CompleteSession i g p w c now db = (r, db') \<Longrightarrow> s \<in> set (db_sessions db) \<Longrightarrow>
   \<exists>s' \<in> set (db_sessions db'). session_progress s s'"
  unfolding CompleteSession_def by (erule (1) upsert_session_progress) (simp add: session_progress_def)

lemma heartbeatGrant_progress:
  assumes "heartbeatGrant ctx si li gi p w now db = (r, db')" "s \<in> set (db_sessions db)"
  shows "\<exists>s' \<in> set (db_sessions db'). session_progress s s'"
  using assms by (auto simp: heartbeatGrant_def split: sum.splits prod.splits)
    (metis session_progress_refl activeGrant_frame consumeIfEarned_frame RecordHeartbeat_progress)+

lemma completeGrant_progress:
  assumes "completeGrant ctx si li gi p w c now db = (r, db')" "s \<in> set (db_sessions db)"
  shows "\<exists>s' \<in> set (db_sessions db'). session_progress s s'"
  using assms by (auto simp: completeGrant_def split: sum.splits prod.splits)
    (metis session_progress_refl activeGrant_frame consumeIfEarned_frame CompleteSession_progress)+

text \<open>
  Progress is monotone: whatever a device reports, and whether or not the report succeeds,
  every recorded session is still there afterwards with the same start, at least the
  watched seconds and furthest position it had, and completed if it was.
\<close>

theorem progress_never_lost:
  assumes "s \<in> set (db_sessions db)"
    and "heartbeatGrant ctx si li gi p w now db = (r, db') \<or> completeGrant ctx si li gi p w c now db = (r, db')"
  shows "\<exists>s' \<in> set (db_sessions db'). session_progress s s'"
  using assms(2) heartbeatGrant_progress [OF _ assms(1)] completeGrant_progress [OF _ assms(1)] by metis

theorem progress_never_lost_witness:
  "\<exists>s' \<in> set (db_sessions (snd (heartbeatGrant (Some ex_device) ''s2'' ''l1'' ''g1'' 10 0 0 ex_play_db))).
     session_progress ex_session s'"
proof -
  let ?X = "heartbeatGrant (Some ex_device) ''s2'' ''l1'' ''g1'' 10 0 0 ex_play_db"
  have m: "ex_session \<in> set (db_sessions ex_play_db)" by code_simp
  have x: "?X = (fst ?X, snd ?X)" by simp
  show ?thesis by (rule progress_never_lost [OF m disjI1 [OF x]])
qed

section \<open>Watch once\<close>

lemma upsert_session_frame:
  "upsert_session row upd db = (r, db') \<Longrightarrow> db_ledger db' = db_ledger db \<and> db_media db' = db_media db \<and>
     db_windows db' = db_windows db \<and> db_devices db' = db_devices db \<and> db_grants db' = db_grants db"
  by (auto simp: upsert_session_def split: if_splits option.splits)

lemma upsert_session_accepts:
  "session_refs db row \<Longrightarrow> \<not> has_id ps_id (ps_id row) (db_sessions db) \<Longrightarrow>
   \<exists>s db'. upsert_session row upd db = (Inr s, db')"
  by (cases "List.find (\<lambda>s. ps_grant_id s = ps_grant_id row) (db_sessions db)")
    (simp_all add: upsert_session_def session_refs_def)

lemma report_Inr:
  assumes "heartbeatGrant ctx si li gi p w now db = (Inr r, db') \<or>
    completeGrant ctx si li gi p w c now db = (Inr r, db')"
  shows "\<exists>dev g db1 db2. ctx = Some dev \<and> activeGrant gi (dv_id dev) now db = (Inr g, db1) \<and>
    db_ledger db2 = db_ledger db1 \<and> db_media db2 = db_media db1 \<and>
    consumeIfEarned li g (sp_session r) now db2 = (Inr (sp_play_consumed r), db')"
  using assms
proof
  assume "heartbeatGrant ctx si li gi p w now db = (Inr r, db')"
  then obtain dev g db1 db2 where *: "ctx = Some dev" "activeGrant gi (dv_id dev) now db = (Inr g, db1)"
    "RecordHeartbeat si g p (default_watched w p) now db1 = (Inr (sp_session r), db2)"
    "consumeIfEarned li g (sp_session r) now db2 = (Inr (sp_play_consumed r), db')"
    by (rule heartbeatGrant_Inr)
  with upsert_session_frame [OF *(3) [unfolded RecordHeartbeat_def]] show ?thesis by blast
next
  assume "completeGrant ctx si li gi p w c now db = (Inr r, db')"
  then obtain dev g db1 db2 where *: "ctx = Some dev" "activeGrant gi (dv_id dev) now db = (Inr g, db1)"
    "CompleteSession si g p (default_watched w p) (derefOr c True) now db1 = (Inr (sp_session r), db2)"
    "consumeIfEarned li g (sp_session r) now db2 = (Inr (sp_play_consumed r), db')"
    by (rule completeGrant_Inr)
  with upsert_session_frame [OF *(3) [unfolded CompleteSession_def]] show ?thesis by blast
qed

lemma consumeIfEarned_Inr:
  assumes "consumeIfEarned i g ses now db = (Inr b, db')" "pg_availability_window_id g = Some w"
    "MediaItems_Get db (pg_media_item_id g) = Inr item" "ConsumesPlay item"
    "SessionCompletesPlay (ps_completed ses) (ps_max_position_seconds ses) (mi_runtime_seconds item)"
  shows "(pg_media_item_id g, w) \<in> keys ledger_key (db_ledger db')"
    "b \<longleftrightarrow> (pg_media_item_id g, w) \<notin> keys ledger_key (db_ledger db)"
proof -
  have i: "mi_id item = pg_media_item_id g" using MediaItems_Get_Inr [OF assms(3)] by simp
  have "ConsumePlay i (pg_media_item_id g) w (Some (pg_device_id g)) now db = (Inr b, db')"
    using assms by (auto simp: consumeIfEarned_def i split: prod.splits sum.splits)
  then show "(pg_media_item_id g, w) \<in> keys ledger_key (db_ledger db')"
    "b \<longleftrightarrow> (pg_media_item_id g, w) \<notin> keys ledger_key (db_ledger db)"
    by (cases rule: ConsumePlay_cases; simp)+
qed

lemma consumed_not_offerable:
  "(mi_id m, aw_id w) \<in> keys ledger_key (db_ledger db) \<Longrightarrow> \<not> offerable db now m w"
  by (auto simp: offerable_def keys_def list_ex_iff)

lemma soonest_window_Some:
  "soonest_window db now m = Some w \<Longrightarrow> w \<in> set (db_windows db) \<and> offerable db now m w \<and>
     (\<forall>w' \<in> set (db_windows db). offerable db now m w' \<longrightarrow> aw_ends_at w \<le> aw_ends_at w')"
  by (auto simp: soonest_window_def dest!: first_row_sort_min)

lemma soonest_window_None:
  "soonest_window db now m = None \<longleftrightarrow> (\<forall>w \<in> set (db_windows db). \<not> offerable db now m w)"
  by (auto simp: soonest_window_def filter_empty_conv simp flip: set_empty)

lemma in_Catalog:
  "e \<in> set (Catalog db now) \<longleftrightarrow> (\<exists>m \<in> set (db_media db). \<exists>w. mi_direct_play_ok m \<and>
     soonest_window db now m = Some w \<and> e = catalog_entry m w)"
  by (auto simp: Catalog_def map_filter_def image_iff)

lemma CatalogEntryFor_Inr:
  "CatalogEntryFor db i now = Inr e \<Longrightarrow> \<exists>m \<in> set (db_media db). \<exists>w. mi_id m = i \<and>
     soonest_window db now m = Some w \<and> e = catalog_entry m w"
  by (auto simp: CatalogEntryFor_def bind_eq_Some_conv dest!: find_Some_in)

lemma Catalog_skips_consumed:
  assumes "(m, w) \<in> keys ledger_key (db_ledger db)"
  shows "e \<in> set (Catalog db now) \<Longrightarrow> (mi_id (ce_media_item e), ce_availability_window_id e) \<noteq> (m, w)"
    and "CatalogEntryFor db i now = Inr e \<Longrightarrow> (mi_id (ce_media_item e), ce_availability_window_id e) \<noteq> (m, w)"
  using assms consumed_not_offerable
  by (auto simp: in_Catalog catalog_entry_def dest!: soonest_window_Some CatalogEntryFor_Inr)

text \<open>
  C25.  Watch once.  When a report on an on-demand grant of an entertainment item is accepted and
  the session has completed the play, the ledger holds the item and its window afterwards,
  the report says it consumed the play exactly when no earlier report had, and neither the
  catalog nor a grant request ever finds that window for that item again.
\<close>

theorem watch_once:
  assumes inv: "grid_inv db" and g: "g \<in> set (db_grants db)" "pg_id g = gi" "pg_availability_window_id g = Some win"
    and item: "MediaItems_Get db (pg_media_item_id g) = Inr item" "ConsumesPlay item"
    and req: "heartbeatGrant ctx si li gi p w now db = (Inr r, db') \<or>
      completeGrant ctx si li gi p w c now db = (Inr r, db')"
    and far: "SessionCompletesPlay (ps_completed (sp_session r)) (ps_max_position_seconds (sp_session r))
      (mi_runtime_seconds item)"
  shows "(pg_media_item_id g, win) \<in> keys ledger_key (db_ledger db') \<and>
    (sp_play_consumed r \<longleftrightarrow> (pg_media_item_id g, win) \<notin> keys ledger_key (db_ledger db)) \<and>
    (\<forall>t. \<forall>e \<in> set (Catalog db' t).
       (mi_id (ce_media_item e), ce_availability_window_id e) \<noteq> (pg_media_item_id g, win)) \<and>
    (\<forall>i t e. CatalogEntryFor db' i t = Inr e \<longrightarrow>
       (mi_id (ce_media_item e), ce_availability_window_id e) \<noteq> (pg_media_item_id g, win))"
proof -
  from report_Inr [OF req] obtain dev g' db1 db2 where s: "ctx = Some dev" "activeGrant gi (dv_id dev) now db = (Inr g', db1)"
      "db_ledger db2 = db_ledger db1" "db_media db2 = db_media db1"
      "consumeIfEarned li g' (sp_session r) now db2 = (Inr (sp_play_consumed r), db')"
    by blast
  from s(2) obtain g0 where g0: "g0 \<in> set (db_grants db)" "pg_id g0 = gi"
      "g' = (if pg_consumed_at g0 = None then g0\<lparr>pg_consumed_at := Some now\<rparr> else g0)"
      "db_ledger db1 = db_ledger db" "db_media db1 = db_media db"
    by (rule activeGrant_Inr)
  have "g0 = g" using wf_grant_unique [OF inv g0(1) g(1)] g0 g by simp
  with g0 g have g': "pg_media_item_id g' = pg_media_item_id g" "pg_availability_window_id g' = Some win"
    by simp_all
  have "MediaItems_Get db2 (pg_media_item_id g') = Inr item"
    using item g' s g0 by (simp add: MediaItems_Get_def)
  from consumeIfEarned_Inr [OF s(5) g'(2) this item(2) far]
  have *: "(pg_media_item_id g, win) \<in> keys ledger_key (db_ledger db')"
    "sp_play_consumed r \<longleftrightarrow> (pg_media_item_id g, win) \<notin> keys ledger_key (db_ledger db)"
    using g' s g0 by simp_all
  with Catalog_skips_consumed [OF *(1)] show ?thesis by blast
qed

theorem watch_once_witness:
  "(''m2'', ''w1'') \<in> keys ledger_key (db_ledger (snd
     (completeGrant (Some ex_device) ''s2'' ''l1'' ''g1'' 6000 0 None 0 ex_play_db)))"
proof -
  let ?X = "completeGrant (Some ex_device) ''s2'' ''l1'' ''g1'' 6000 0 None 0 ex_play_db"
  let ?m = "ex_item ''m2'' ClassEntertainment 6000"
  have "ex_grant ''g1'' \<in> set (db_grants ex_play_db)" "pg_id (ex_grant ''g1'') = ''g1''"
    "pg_availability_window_id (ex_grant ''g1'') = Some ''w1''"
    "MediaItems_Get ex_play_db (pg_media_item_id (ex_grant ''g1'')) = Inr ?m" "ConsumesPlay ?m"
    "?X = (Inr (projr (fst ?X)), snd ?X)"
    "SessionCompletesPlay (ps_completed (sp_session (projr (fst ?X))))
       (ps_max_position_seconds (sp_session (projr (fst ?X)))) (mi_runtime_seconds ?m)"
    by code_simp+
  from watch_once [OF ex_play_inv this(1-5) disjI2 [OF this(6)] this(7)]
  show ?thesis by (simp add: ex_grant_def)
qed

lemma MaxPosition_int4:
  assumes "grid_inv db"
  shows "int4_ok (MaxPositionForDeviceMedia db d m)"
proof -
  have fm: "int4_ok x \<Longrightarrow> \<forall>y \<in> set xs. int4_ok y \<Longrightarrow> int4_ok (fold max xs x)" for x xs
    by (induction xs arbitrary: x) (auto simp: max_def)
  show ?thesis
  proof (cases "map ps_max_position_seconds
      (filter (\<lambda>s. ps_device_id s = d \<and> ps_media_item_id s = m) (db_sessions db))")
    case Nil
    then show ?thesis by (simp add: MaxPositionForDeviceMedia_def int4_ok_def)
  next
    case (Cons x xs)
    have "\<forall>y \<in> set (x # xs). int4_ok y"
      using assms unfolding Cons [symmetric] by (auto simp: grid_inv_def tv_wf_def sessions_ok_def session_refs_def)
    with Cons fm show ?thesis by (simp add: MaxPositionForDeviceMedia_def)
  qed
qed

lemma ResumePosition_bounds:
  "0 \<le> ResumePositionSeconds f" "f > 0 \<Longrightarrow> ResumePositionSeconds f \<le> f" "int4_ok f \<Longrightarrow> int4_ok (ResumePositionSeconds f)"
  by (auto simp: ResumePositionSeconds_def Let_def ResumeRewindSeconds_def int4_ok_def)

lemma catalog_entry_simps [simp]:
  "ce_media_item (catalog_entry m w) = m" "ce_availability_window_id (catalog_entry m w) = aw_id w"
  "pg_start_offset_seconds (on_demand_grant_row s url i d now e f) = ResumePositionSeconds f"
  by (simp_all add: catalog_entry_def on_demand_grant_row_def)

lemma CatalogEntryFor_iff:
  assumes "tv_wf db"
  shows "CatalogEntryFor db i now = Inr e \<longleftrightarrow>
    (\<exists>m \<in> set (db_media db). \<exists>w. mi_id m = i \<and> soonest_window db now m = Some w \<and> e = catalog_entry m w)"
proof
  assume "\<exists>m \<in> set (db_media db). \<exists>w. mi_id m = i \<and> soonest_window db now m = Some w \<and> e = catalog_entry m w"
  then obtain m w where m: "m \<in> set (db_media db)" "mi_id m = i" "soonest_window db now m = Some w" "e = catalog_entry m w"
    by blast
  from MediaItems_Get_wf [OF assms m(1)] m have "List.find (\<lambda>m. mi_id m = i) (db_media db) = Some m"
    by (simp add: MediaItems_Get_def)
  with m show "CatalogEntryFor db i now = Inr e" by (simp add: CatalogEntryFor_def)
qed (rule CatalogEntryFor_Inr)

text \<open>
  An on-demand grant is issued exactly when the item is direct-playable and has an offerable
  window: open now, of an item still in the library, with its play unspent.  The
  grant is bound to the offerable window that closes soonest, and starts 30 seconds before
  the furthest position the device reached, never before the beginning.
\<close>

theorem createGrant_on_demand_iff:
  assumes inv: "grid_inv db" and cfg: "sv_jellyfin s = Some url" "mode \<noteq> ModeProgrammed"
    and dev: "has_id dv_id (dv_id d) (db_devices db)" and fresh: "\<not> has_id pg_id i (db_grants db)"
  shows "createGrant s (Some d) i m mode now db = (Inr r, db') \<longleftrightarrow>
    (\<exists>item \<in> set (db_media db). \<exists>w \<in> set (db_windows db). mi_id item = m \<and> mi_direct_play_ok item \<and>
       offerable db now item w \<and> soonest_window db now item = Some w \<and>
       (let furthest = MaxPositionForDeviceMedia db (dv_id d) m;
            g = on_demand_grant_row s url i (dv_id d) now (catalog_entry item w) furthest
        in pg_start_offset_seconds g = max 0 (furthest - 30) \<and>
           r = grantResponse g furthest now \<and> db' = db\<lparr>db_grants := db_grants db @ [g]\<rparr>))"
    (is "?L \<longleftrightarrow> ?R")
proof -
  have wf: "tv_wf db" using inv by (simp add: grid_inv_def)
  let ?f = "MaxPositionForDeviceMedia db (dv_id d) m"
  let ?row = "\<lambda>item w. on_demand_grant_row s url i (dv_id d) now (catalog_entry item w) ?f"
  have start: "ResumePositionSeconds ?f = max 0 (?f - 30)"
    by (auto simp: ResumePositionSeconds_def ResumeRewindSeconds_def Let_def)
  have create: "PlayGrants_Create (?row item w) db = (Inr (?row item w), db\<lparr>db_grants := db_grants db @ [?row item w]\<rparr>)"
    if "item \<in> set (db_media db)" "mi_id item = m" "w \<in> set (db_windows db)" for item w
    using that dev fresh ResumePosition_bounds(3) [OF MaxPosition_int4 [OF inv]]
    by (auto simp: PlayGrants_Create_def on_demand_grant_row_def catalog_entry_def grant_refs_def has_id_def list_ex_iff)
  show ?thesis
  proof (cases "CatalogEntryFor db m now")
    case (Inl e)
    then have "?L = False" using cfg by (simp add: createGrant_def require_device_def)
    moreover have no: "soonest_window db now x \<noteq> Some w" if "x \<in> set (db_media db)" "mi_id x = m" for x w
    proof
      assume "soonest_window db now x = Some w"
      with that have "CatalogEntryFor db m now = Inr (catalog_entry x w)"
        unfolding CatalogEntryFor_iff [OF wf] by blast
      with Inl show False by simp
    qed
    have "\<not> ?R" by (auto dest: no simp del: Let_def)
    ultimately show ?thesis by simp
  next
    case (Inr e)
    then obtain item w where e: "item \<in> set (db_media db)" "mi_id item = m"
        "soonest_window db now item = Some w" "e = catalog_entry item w"
      using CatalogEntryFor_Inr by blast
    have uniq: "x = item" if "x \<in> set (db_media db)" "mi_id x = m" for x
      using that e wf_media_unique [OF wf] by simp
    have w: "w \<in> set (db_windows db)" "offerable db now item w" using soonest_window_Some [OF e(3)] by simp_all
    have "?L \<longleftrightarrow> mi_direct_play_ok item \<and> r = grantResponse (?row item w) ?f now \<and>
        db' = db\<lparr>db_grants := db_grants db @ [?row item w]\<rparr>"
      using cfg Inr e create [OF e(1,2) w(1)] by (auto simp: createGrant_def require_device_def Let_def)
    also have "\<dots> \<longleftrightarrow> ?R"
    proof
      assume "mi_direct_play_ok item \<and> r = grantResponse (?row item w) ?f now \<and>
        db' = db\<lparr>db_grants := db_grants db @ [?row item w]\<rparr>"
      with e(2,3) w(2) start show ?R
        by (intro bexI [OF _ e(1)] bexI [OF _ w(1)]) (simp add: Let_def)
    next
      assume ?R
      then obtain x v where x: "x \<in> set (db_media db)" "mi_id x = m" "mi_direct_play_ok x"
          "soonest_window db now x = Some v" "r = grantResponse (?row x v) ?f now"
          "db' = db\<lparr>db_grants := db_grants db @ [?row x v]\<rparr>"
        unfolding Let_def by blast
      with uniq [OF x(1,2)] e(3) show "mi_direct_play_ok item \<and> r = grantResponse (?row item w) ?f now \<and>
        db' = db\<lparr>db_grants := db_grants db @ [?row item w]\<rparr>" by simp
    qed
    finally show ?thesis .
  qed
qed

theorem createGrant_on_demand_iff_witness:
  "\<exists>r db'. createGrant ex_server (Some ex_device) ''g3'' ''m2'' ModeOnDemand 0 ex_play_db = (Inr r, db') \<and>
     gp_start_offset_seconds r = 20"
proof -
  let ?m = "ex_item ''m2'' ClassEntertainment 6000"
  let ?f = "MaxPositionForDeviceMedia ex_play_db (dv_id ex_device) ''m2''"
  let ?g = "on_demand_grant_row ex_server (\<lambda>i. ''/stream/'' @ i) ''g3'' (dv_id ex_device) 0 (catalog_entry ?m ex_window) ?f"
  have h: "sv_jellyfin ex_server = Some (\<lambda>i. ''/stream/'' @ i)" "ModeOnDemand \<noteq> ModeProgrammed"
    "has_id dv_id (dv_id ex_device) (db_devices ex_play_db)" "\<not> has_id pg_id ''g3'' (db_grants ex_play_db)"
    by (simp_all add: ex_server_def ModeOnDemand_def ModeProgrammed_def ex_play_db_def ex_db_def ex_grant_def has_id_def)
  have c: "?m \<in> set (db_media ex_play_db)" "ex_window \<in> set (db_windows ex_play_db)" "mi_id ?m = ''m2''"
    "mi_direct_play_ok ?m" "offerable ex_play_db 0 ?m ex_window"
    "soonest_window ex_play_db 0 ?m = Some ex_window" "?f = 50"
    by code_simp+
  have "createGrant ex_server (Some ex_device) ''g3'' ''m2'' ModeOnDemand 0 ex_play_db =
      (Inr (grantResponse ?g ?f 0), ex_play_db\<lparr>db_grants := db_grants ex_play_db @ [?g]\<rparr>)"
    unfolding createGrant_on_demand_iff [OF ex_play_inv h]
    using c by (intro bexI [OF _ c(1)] bexI [OF _ c(2)]) (auto simp: Let_def ResumePositionSeconds_def ResumeRewindSeconds_def)
  moreover have "gp_start_offset_seconds (grantResponse ?g ?f 0) = 20"
    using c(7) by (simp add: grantResponse_def ResumePositionSeconds_def ResumeRewindSeconds_def)
  ultimately show ?thesis by blast
qed

section \<open>Pairing\<close>

lemma pairing_match_later:
  "to_upper code' = to_upper code \<Longrightarrow> now \<le> now' \<Longrightarrow> \<not> pairing_match code now d \<Longrightarrow> \<not> pairing_match code' now' d"
  by (auto simp: pairing_match_def split: option.splits)

lemma claim_row_no_match: "\<not> pairing_match code now (claim_row h t d)"
  by (simp add: pairing_match_def claim_row_def)

lemma DeviceByTokenHash_claimed:
  assumes "devices_ok (us @ d # vs)" "h \<noteq> []" "dv_revoked_at d = None"
    "\<not> list_ex (\<lambda>x. dv_id x \<noteq> dv_id d \<and> dv_token_hash x = h) (us @ d # vs)"
  shows "List.find (\<lambda>x. dv_token_hash x = h \<and> dv_token_hash x \<noteq> [] \<and> dv_revoked_at x = None)
    (us @ claim_row h now d # vs) = Some (claim_row h now d)"
proof -
  have "distinct (map dv_id (us @ d # vs))" using assms(1) by (simp add: devices_ok_def unique_key_def)
  then have "\<forall>x \<in> set us. dv_id x \<noteq> dv_id d" by (auto simp: image_iff)
  with assms(4) have "\<forall>x \<in> set us. dv_token_hash x \<noteq> h" by (auto simp: list_ex_iff)
  then show ?thesis using assms(2,3)
    by (induction us) (auto simp: claim_row_def)
qed

text \<open>
  A pairing code is spent by the first device that redeems it: the issued token then
  authenticates exactly that device, and every later attempt with the code, in whatever case it is
  typed, is refused with 403 and changes nothing.
\<close>

theorem pairing_code_single_use:
  assumes inv: "grid_inv db" and ok: "pairDevice hash token code now db = (Inr (tok, d), db')"
    and h: "hash token \<noteq> []"
  shows "tok = token \<and> Paired d \<and> DeviceByTokenHash db' (hash token) = Inr d \<and>
    (\<forall>code' token' now'. to_upper code' = to_upper code \<and> now \<le> now' \<longrightarrow>
       pairDevice hash token' code' now' db' =
         (Inl (HttpError 403 ''pairing code is invalid, expired, or already used''), db'))"
proof -
  have "ClaimPairingCode code (hash token) now db = (Inr d, db')" and tok: "tok = token"
    using ok by (auto simp: pairDevice_def split: prod.splits sum.splits)
  then obtain d0 us vs where c: "db_devices db = us @ d0 # vs" "pairing_match code now d0"
      "d = claim_row (hash token) now d0"
      "\<forall>u \<in> set us. \<not> pairing_match code now u" "\<forall>v \<in> set vs. \<not> pairing_match code now v"
      "\<not> (hash token \<noteq> [] \<and> list_ex (\<lambda>x. dv_id x \<noteq> dv_id d0 \<and> dv_token_hash x = hash token) (db_devices db))"
      "db' = db\<lparr>db_devices := us @ d # vs\<rparr>"
    by (elim ClaimPairingCode_Inr)
  have live: "dv_revoked_at d0 = None" using c(2) by (simp add: pairing_match_def)
  have "devices_ok (us @ d0 # vs)" using inv c(1) by (simp add: grid_inv_def tv_wf_def)
  with c h live have "DeviceByTokenHash db' (hash token) = Inr d"
    using DeviceByTokenHash_claimed [of us d0 vs "hash token" now] by (simp add: DeviceByTokenHash_def)
  moreover have "Paired d" using c(3) h live by (simp add: Paired_def claim_row_def)
  moreover have "filter (pairing_match code' now') (db_devices db') = []"
    if "to_upper code' = to_upper code" "now \<le> now'" for code' now'
    using that c(3-5) pairing_match_later claim_row_no_match unfolding c(7) filter_empty_conv by auto
  ultimately show ?thesis using tok by (simp add: pairDevice_def ClaimPairingCode_def)
qed

theorem pairing_code_single_use_witness:
  "let (r, db') = pairDevice (\<lambda>t. ''h'' @ t) ''tok'' ''acde34'' 0 ex_unpaired_db in
     Paired (snd (projr r)) \<and> pairDevice (\<lambda>t. ''h'' @ t) ''tok2'' ''ACDE34'' 5 db' =
       (Inl (HttpError 403 ''pairing code is invalid, expired, or already used''), db')"
proof -
  let ?X = "pairDevice (\<lambda>t. ''h'' @ t) ''tok'' ''acde34'' 0 ex_unpaired_db"
  have i: "grid_inv ex_unpaired_db" and u: "to_upper ''ACDE34'' = to_upper ''acde34''"
    and x: "?X = (Inr (fst (projr (fst ?X)), snd (projr (fst ?X))), snd ?X)"
    by code_simp+
  from pairing_code_single_use [OF i x] u show ?thesis by (simp add: case_prod_unfold)
qed

section \<open>Grants already issued\<close>

text \<open>
  Consuming a play does not revoke grants already issued for it: while such a grant is
  unexpired its device may still start playback, even though the ledger says the play is spent,
  and the report is simply not charged again.
\<close>

theorem grant_outlives_play:
  assumes inv: "grid_inv db" and g: "g \<in> set (db_grants db)" "pg_device_id g = dv_id dev"
      "pg_availability_window_id g = Some win" "Redeemable g now"
    and spent: "(pg_media_item_id g, win) \<in> keys ledger_key (db_ledger db)"
    and body: "int4_ok p" "int4_ok w" and fresh: "\<not> has_id ps_id si (db_sessions db)"
  shows "\<exists>r db'. heartbeatGrant (Some dev) si li (pg_id g) p w now db = (Inr r, db') \<and> \<not> sp_play_consumed r"
proof -
  obtain g' db1 where ag: "activeGrant (pg_id g) (dv_id dev) now db = (Inr g', db1)"
    using activeGrant_accepts [OF inv g(1) refl g(2), of now] g(4) by (auto simp: Redeemable_def)
  then obtain g0 where g0: "g0 \<in> set (db_grants db)" "pg_id g0 = pg_id g"
      "g' = (if pg_consumed_at g0 = None then g0\<lparr>pg_consumed_at := Some now\<rparr> else g0)"
      "db_sessions db1 = db_sessions db" "db_ledger db1 = db_ledger db" "db_media db1 = db_media db"
      "db_devices db1 = db_devices db" "map pg_id (db_grants db1) = map pg_id (db_grants db)"
    by (rule activeGrant_Inr)
  have "g0 = g" by (rule wf_grant_unique [OF inv g0(1) g(1) g0(2)])
  with g0(3) g have g': "pg_id g' = pg_id g" "pg_media_item_id g' = pg_media_item_id g"
      "pg_device_id g' = dv_id dev" "pg_availability_window_id g' = Some win" by simp_all
  have refs: "grant_refs db g" using inv g(1) by (simp add: grid_inv_def tv_wf_def grants_ok_def)
  have "has_id pg_id (pg_id g) (db_grants db1)"
    using g(1) g0(8) unfolding has_id_iff keys_def by (metis imageI list.set_map)
  with refs g' g0(4-8) body have row: "session_refs db1
      \<lparr>ps_id = si, ps_grant_id = pg_id g', ps_media_item_id = pg_media_item_id g',
       ps_device_id = pg_device_id g', ps_started_at = now, ps_ended_at = None,
       ps_watched_seconds = default_watched w p, ps_max_position_seconds = p, ps_completed = False\<rparr>"
    unfolding session_refs_def grant_refs_def by (simp add: default_watched_def g(2))
  obtain ses db2 where hb: "RecordHeartbeat si g' p (default_watched w p) now db1 = (Inr ses, db2)"
    using upsert_session_accepts [OF row] fresh g0(4) unfolding RecordHeartbeat_def by fastforce
  note fr = upsert_session_frame [OF hb [unfolded RecordHeartbeat_def]]
  obtain item where item: "MediaItems_Get db2 (pg_media_item_id g') = Inr item"
    using MediaItems_Get_has [of "pg_media_item_id g'" db2] refs g' g0(4-8) fr by (auto simp: grant_refs_def)
  have "mi_id item = pg_media_item_id g" using MediaItems_Get_Inr [OF item] g' by simp
  moreover have "ConsumePlay li (pg_media_item_id g) win x now db2 = (Inr False, db2)" for x
    using spent g0(4-8) fr by (simp add: ConsumePlay_def insert_do_nothing_cases)
  ultimately have "\<exists>db'. consumeIfEarned li g' ses now db2 = (Inr False, db')"
    using item g' by (simp add: consumeIfEarned_def)
  with ag hb show ?thesis by (auto simp: heartbeatGrant_def require_device_def)
qed

theorem grant_outlives_play_witness:
  "\<exists>r db'. heartbeatGrant (Some ex_device) ''s2'' ''l2'' ''g2'' 10 0 1 ex_spent_db = (Inr r, db') \<and>
     \<not> sp_play_consumed r"
proof -
  have "grid_inv ex_spent_db" "ex_grant ''g2'' \<in> set (db_grants ex_spent_db)"
    "pg_device_id (ex_grant ''g2'') = dv_id ex_device" "pg_availability_window_id (ex_grant ''g2'') = Some ''w1''"
    "Redeemable (ex_grant ''g2'') 1"
    "(pg_media_item_id (ex_grant ''g2''), ''w1'') \<in> keys ledger_key (db_ledger ex_spent_db)"
    "int4_ok 10" "int4_ok 0" "\<not> has_id ps_id ''s2'' (db_sessions ex_spent_db)"
    by code_simp+
  from grant_outlives_play [OF this, of "''l2''"] show ?thesis by (simp add: ex_grant_def)
qed

end
