(* ===== verification/TV_Rotation.thy ===== *)
theory TV_Rotation
  imports TV_Playback
begin

text \<open>
  Turning the on-demand catalog over: \<^verbatim>\<open>tv/repo/rotation.go\<close> and the handlers of
  \<^verbatim>\<open>tv/api/rotation.go\<close>.  Titles are compared bytewise in the ORDER BY.
\<close>

section \<open>Operations\<close>

definition expire_row :: "time \<Rightarrow> AvailabilityWindow \<Rightarrow> AvailabilityWindow" where
  "expire_row now w = w\<lparr>aw_starts_at := min (aw_starts_at w) (now - second), aw_ends_at := now\<rparr>"

definition ExpireOpenWindows :: "time \<Rightarrow> tv_db \<Rightarrow> nat \<times> tv_db" where
  "ExpireOpenWindows now db =
     (length (filter (\<lambda>w. aw_ends_at w > now) (db_windows db)),
      db\<lparr>db_windows := update_where (\<lambda>w. aw_ends_at w > now) (expire_row now) (db_windows db)\<rparr>)"

record StaleWindowCandidate =
  cd_media_item :: MediaItem
  cd_last_window_ended_at :: time

definition has_open_window :: "tv_db \<Rightarrow> time \<Rightarrow> uuid \<Rightarrow> bool" where
  "has_open_window db now m = list_ex (\<lambda>w. aw_media_item_id w = m \<and> aw_ends_at w > now) (db_windows db)"

definition last_window_end :: "tv_db \<Rightarrow> uuid \<Rightarrow> time" where
  "last_window_end db m =
     (case map aw_ends_at (filter (\<lambda>w. aw_media_item_id w = m) (db_windows db)) of
        [] \<Rightarrow> 0 | x # xs \<Rightarrow> fold max xs x)"

definition rotation_candidate :: "tv_db \<Rightarrow> time \<Rightarrow> MediaItem \<Rightarrow> bool" where
  "rotation_candidate db now m \<longleftrightarrow> mi_orphaned_at m = None \<and> mi_direct_play_ok m \<and> mi_runtime_seconds m > 0
     \<and> \<not> has_open_window db now (mi_id m)
     \<and> \<not> list_ex (\<lambda>l. pl_media_item_id l = mi_id m) (db_ledger db)"

definition SuggestRotation :: "tv_db \<Rightarrow> time \<Rightarrow> int \<Rightarrow> StaleWindowCandidate list" where
  "SuggestRotation db now limit =
     (let n = (if limit \<le> 0 then 20 else nat limit) in
      take n (sort_key cd_last_window_ended_at (map (\<lambda>m. \<lparr>cd_media_item = m,
          cd_last_window_ended_at = last_window_end db (mi_id m)\<rparr>)
        (sort_key mi_title (filter (rotation_candidate db now) (db_media db))))))"

definition openable :: "uuid list \<Rightarrow> time \<Rightarrow> tv_db \<Rightarrow> MediaItem list" where
  "openable ids starts db = filter (\<lambda>m. mi_id m \<in> set ids \<and> mi_orphaned_at m = None
     \<and> \<not> has_open_window db starts (mi_id m)) (db_media db)"

definition window_rows :: "(nat \<Rightarrow> uuid) \<Rightarrow> time \<Rightarrow> time \<Rightarrow> MediaItem list \<Rightarrow> AvailabilityWindow list" where
  "window_rows gen starts ends ms =
     map (\<lambda>(k, m). \<lparr>aw_id = gen k, aw_media_item_id = mi_id m, aw_starts_at = starts,
            aw_ends_at = ends, aw_max_plays = None, aw_note = []\<rparr>) (zip [0..<length ms] ms)"

definition OpenWindowsFor ::
  "(nat \<Rightarrow> uuid) \<Rightarrow> uuid list \<Rightarrow> time \<Rightarrow> time \<Rightarrow> tv_db \<Rightarrow> (repo_error, AvailabilityWindow list, tv_db) effect" where
  "OpenWindowsFor gen ids starts ends db =
     (if ids = [] then (Inr [], db)
      else let rows = window_rows gen starts ends (openable ids starts db)
           in if rows \<noteq> [] \<and> ends \<le> starts then (Inl CheckViolation, db)
              else if \<not> distinct (map aw_id (db_windows db @ rows)) then (Inl UniqueViolation, db)
              else (Inr rows, db\<lparr>db_windows := db_windows db @ rows\<rparr>))"

definition DefaultRotationDays :: int where "DefaultRotationDays = 7"

record RotateRequest =
  rq_media_item_ids :: "uuid list"
  rq_days :: int
  rq_expire_open :: bool
  rq_limit :: int

record RotateResponse =
  rr_expired :: nat
  rr_opened :: "AvailabilityWindow list"

definition rotationSuggestions :: "int \<Rightarrow> time \<Rightarrow> tv_db \<Rightarrow> (MediaItem \<times> time) list" where
  "rotationSuggestions limit now db =
     map (\<lambda>c. (cd_media_item c, cd_last_window_ended_at c)) (SuggestRotation db now limit)"

definition rotate_ids :: "RotateRequest \<Rightarrow> time \<Rightarrow> tv_db \<Rightarrow> uuid list" where
  "rotate_ids body now db =
     (if rq_media_item_ids body = []
      then map (\<lambda>c. mi_id (cd_media_item c))
             (SuggestRotation db now (if rq_limit body \<le> 0 then 8 else rq_limit body))
      else rq_media_item_ids body)"

definition rotate_days :: "RotateRequest \<Rightarrow> int" where
  "rotate_days body = (if rq_days body \<le> 0 then DefaultRotationDays else rq_days body)"

definition rotate_availability ::
  "(nat \<Rightarrow> uuid) \<Rightarrow> RotateRequest \<Rightarrow> time \<Rightarrow> tv_db \<Rightarrow> (http_error, RotateResponse, tv_db) effect" where
  "rotate_availability gen body now db =
     (let days = rotate_days body;
          ids = rotate_ids body now db;
          (expired, db1) = (if rq_expire_open body then ExpireOpenWindows now db else (0, db))
      in case OpenWindowsFor gen ids now (add_days UTC now days) db1 of
           (Inl err, db2) \<Rightarrow> (Inl (MapError err), db2)
         | (Inr opened, db2) \<Rightarrow> (Inr \<lparr>rr_expired = expired, rr_opened = opened\<rparr>, db2))"

section \<open>Concrete requests\<close>

definition ex_rotation :: "uuid list \<Rightarrow> RotateRequest" where
  "ex_rotation ids = \<lparr>rq_media_item_ids = ids, rq_days = 0, rq_expire_open = True, rq_limit = 0\<rparr>"

definition ex_gen :: "nat \<Rightarrow> uuid" where
  "ex_gen n = replicate (Suc n) (CHR ''n'')"

section \<open>Rotation keeps the database in order\<close>

lemma grid_inv_windows:
  assumes "grid_inv db" "windows_ok (db_media db) ws"
    "\<And>i. has_id aw_id i (db_windows db) \<Longrightarrow> has_id aw_id i ws"
  shows "grid_inv (db\<lparr>db_windows := ws\<rparr>)"
proof -
  have ref: "has_ref aw_id x ws" if "has_ref aw_id x (db_windows db)" for x
    using that assms(3) by (cases x) auto
  have "ledger_ok (db\<lparr>db_windows := ws\<rparr>)" "grants_ok (db\<lparr>db_windows := ws\<rparr>)" "sessions_ok (db\<lparr>db_windows := ws\<rparr>)"
    using assms ref
    by (auto simp: grid_inv_def tv_wf_def ledger_ok_def grants_ok_def grant_refs_def sessions_ok_def session_refs_def)
  with assms airings_frame [of "db\<lparr>db_windows := ws\<rparr>" db] show ?thesis
    by (simp add: grid_inv_def tv_wf_def no_overlap_def)
qed

lemma expire_row_simps [simp]:
  "aw_id (expire_row now w) = aw_id w" "aw_media_item_id (expire_row now w) = aw_media_item_id w"
  "aw_ends_at (expire_row now w) = now" "aw_starts_at (expire_row now w) < now"
  by (simp_all add: expire_row_def second_def)

lemma ExpireOpenWindows_inv: "grid_inv db \<Longrightarrow> grid_inv (snd (ExpireOpenWindows now db))"
  unfolding ExpireOpenWindows_def snd_conv
  by (rule grid_inv_windows)
    (auto simp: grid_inv_def tv_wf_def windows_ok_def unique_key_def map_update_where in_update_where)

lemma window_rows_items: "map aw_media_item_id (window_rows gen starts ends ms) = map mi_id ms"
  by (rule nth_equalityI) (simp_all add: window_rows_def)

lemma window_rows_Nil [simp]: "window_rows gen starts ends ms = [] \<longleftrightarrow> ms = []"
  by (cases ms) (simp_all add: window_rows_def)

lemma window_rows_span:
  "w \<in> set (window_rows gen starts ends ms) \<Longrightarrow> aw_starts_at w = starts \<and> aw_ends_at w = ends"
  by (auto simp: window_rows_def)

lemma OpenWindowsFor_Inr:
  assumes "OpenWindowsFor gen ids starts ends db = (Inr rows, db')"
  shows "db' = db\<lparr>db_windows := db_windows db @ rows\<rparr>"
    "map aw_media_item_id rows = (if ids = [] then [] else map mi_id (openable ids starts db))"
    "\<forall>w \<in> set rows. aw_starts_at w = starts \<and> aw_ends_at w = ends \<and> starts < ends"
    "ids \<noteq> [] \<Longrightarrow> distinct (map aw_id (db_windows db @ rows))"
  using assms window_rows_span
  by (auto simp: OpenWindowsFor_def Let_def window_rows_items not_le window_rows_def [of _ _ _ "[]"]
      split: if_splits)

lemma OpenWindowsFor_Inl: "OpenWindowsFor gen ids starts ends db = (Inl e, db') \<Longrightarrow> db' = db"
  by (auto simp: OpenWindowsFor_def Let_def split: if_splits)

lemma OpenWindowsFor_inv:
  assumes inv: "grid_inv db" and open_rows: "OpenWindowsFor gen ids starts ends db = (r, db')"
  shows "grid_inv db'"
proof (cases r)
  case (Inl e)
  with assms show ?thesis by (auto dest: OpenWindowsFor_Inl)
next
  case (Inr rows)
  note o = OpenWindowsFor_Inr [OF open_rows [unfolded Inr]]
  show ?thesis
  proof (cases "ids = []")
    case True
    with o have "rows = []" by simp
    with o inv show ?thesis by simp
  next
    case False
    have "has_id mi_id (aw_media_item_id w) (db_media db)" if "w \<in> set rows" for w
    proof -
      have "aw_media_item_id w \<in> set (map aw_media_item_id rows)" using that by simp
      then show ?thesis unfolding o(2) by (auto simp: False openable_def has_id_def list_ex_iff)
    qed
    with o False inv have "windows_ok (db_media db) (db_windows db @ rows)"
      by (auto simp: windows_ok_def unique_key_def grid_inv_def tv_wf_def)
    with inv show ?thesis unfolding o(1) by (rule grid_inv_windows) simp
  qed
qed

lemma rotate_availability_inv:
  assumes "grid_inv db" "rotate_availability gen body now db = (r, db')"
  shows "grid_inv db'"
  using assms ExpireOpenWindows_inv [OF assms(1), of now]
  by (auto simp: rotate_availability_def Let_def split: prod.splits sum.splits if_splits dest: OpenWindowsFor_inv)

section \<open>What a rotation offers\<close>

lemma SuggestRotation_sound:
  assumes "c \<in> set (SuggestRotation db now limit)"
  shows "cd_media_item c \<in> set (db_media db) \<and> rotation_candidate db now (cd_media_item c)"
  using assms by (auto simp: SuggestRotation_def Let_def dest!: in_set_takeD)

lemma expired_all_closed:
  "w \<in> set (db_windows (snd (ExpireOpenWindows now db))) \<Longrightarrow> aw_ends_at w \<le> now"
  by (auto simp: ExpireOpenWindows_def in_update_where)

lemma ExpireOpenWindows_frame:
  "db_media (snd (ExpireOpenWindows now db)) = db_media db" "db_ledger (snd (ExpireOpenWindows now db)) = db_ledger db"
  by (simp_all add: ExpireOpenWindows_def)

lemma rotate_availability_Inr:
  assumes "rotate_availability gen body now db = (Inr r, db')"
  shows "OpenWindowsFor gen (rotate_ids body now db) now (now + rotate_days body * day_seconds * second)
      (if rq_expire_open body then snd (ExpireOpenWindows now db) else db) = (Inr (rr_opened r), db')"
  using assms by (auto simp: rotate_availability_def Let_def add_days_UTC split: prod.splits sum.splits if_splits)

text \<open>
  A rotation that expires what is open leaves on offer exactly the windows it opens: every
  window ending after the cut-off is one of them, each starts now and lasts the requested
  number of days, and no item gets two.
\<close>

theorem rotate_turns_catalog_over:
  assumes inv: "grid_inv db" and rot: "rotate_availability gen body now db = (Inr r, db')" and ex: "rq_expire_open body"
  shows "{w \<in> set (db_windows db'). now < aw_ends_at w} = set (rr_opened r) \<and>
    (\<forall>w \<in> set (rr_opened r). aw_starts_at w = now \<and> aw_ends_at w = now + rotate_days body * day_seconds * second) \<and>
    distinct (map aw_media_item_id (rr_opened r))"
proof -
  let ?db1 = "snd (ExpireOpenWindows now db)"
  have "(if rq_expire_open body then ?db1 else db) = ?db1" using ex by simp
  note o = OpenWindowsFor_Inr [OF rotate_availability_Inr [OF rot, unfolded this]]
  have "distinct (map mi_id (db_media db))" using inv by (simp add: grid_inv_def tv_wf_def media_ok_def unique_key_def)
  then have "distinct (map mi_id (openable (rotate_ids body now db) now ?db1))"
    by (simp add: openable_def ExpireOpenWindows_frame distinct_map_filter)
  then have "distinct (map aw_media_item_id (rr_opened r))" unfolding o(2) by simp
  moreover have "{w \<in> set (db_windows db'). now < aw_ends_at w} = set (rr_opened r)"
    using o(1,3) expired_all_closed [of _ now db] by fastforce
  ultimately show ?thesis using o(3) by blast
qed

text \<open>
  When the caller names no items, a rotation never re-offers what was on offer at the cut-off
  nor anything already watched: every window it opens is for a direct-playable item of known
  runtime, still in the library, that had no open window and no play in the ledger.
\<close>

theorem rotate_suggestions_fresh:
  assumes inv: "grid_inv db" and rot: "rotate_availability gen body now db = (Inr r, db')"
    and none: "rq_media_item_ids body = []" and w: "w \<in> set (rr_opened r)"
  shows "\<exists>m \<in> set (db_media db). mi_id m = aw_media_item_id w \<and> mi_direct_play_ok m \<and> 0 < mi_runtime_seconds m \<and>
    mi_orphaned_at m = None \<and> \<not> has_open_window db now (mi_id m) \<and>
    (\<forall>l \<in> set (db_ledger db). pl_media_item_id l \<noteq> mi_id m)"
proof -
  note o = OpenWindowsFor_Inr [OF rotate_availability_Inr [OF rot]]
  have "aw_media_item_id w \<in> set (map aw_media_item_id (rr_opened r))" using w by simp
  then have "aw_media_item_id w \<in> set (rotate_ids body now db)"
    unfolding o(2) by (auto simp: openable_def split: if_splits)
  then obtain c where c: "c \<in> set (SuggestRotation db now (if rq_limit body \<le> 0 then 8 else rq_limit body))"
      "aw_media_item_id w = mi_id (cd_media_item c)"
    using none by (auto simp: rotate_ids_def)
  with SuggestRotation_sound [OF c(1)] show ?thesis
    by (intro bexI [of _ "cd_media_item c"]) (auto simp: rotation_candidate_def list_ex_iff)
qed

theorem rotate_turns_catalog_over_witness:
  "let (r, db') = rotate_availability ex_gen (ex_rotation [''m2'']) 100 ex_db in
     {w \<in> set (db_windows db'). 100 < aw_ends_at w} = set (rr_opened (projr r)) \<and> rr_opened (projr r) \<noteq> []"
proof -
  let ?X = "rotate_availability ex_gen (ex_rotation [''m2'']) 100 ex_db"
  have x: "?X = (Inr (projr (fst ?X)), snd ?X)" and e: "rq_expire_open (ex_rotation [''m2''])"
    and n: "rr_opened (projr (fst ?X)) \<noteq> []"
    by code_simp+
  from rotate_turns_catalog_over [OF ex_grid_inv x e] n show ?thesis by (simp add: case_prod_unfold)
qed

theorem rotate_suggestions_fresh_witness:
  "\<exists>w \<in> set (rr_opened (projr (fst (rotate_availability ex_gen (ex_rotation []) 100 ex_db)))).
     \<not> has_open_window ex_db 100 (aw_media_item_id w)"
proof -
  let ?X = "rotate_availability ex_gen (ex_rotation []) 100 ex_db"
  have x: "?X = (Inr (projr (fst ?X)), snd ?X)" and e: "rq_media_item_ids (ex_rotation []) = []"
    and n: "rr_opened (projr (fst ?X)) \<noteq> []"
    by code_simp+
  let ?w = "hd (rr_opened (projr (fst ?X)))"
  have "?w \<in> set (rr_opened (projr (fst ?X)))" using n by simp
  with rotate_suggestions_fresh [OF ex_grid_inv x e this] show ?thesis by (metis)
qed

end
