(* ===== verification/Instruction.thy ===== *)
theory Instruction
  imports Prelude Go_Time
begin

text \<open>
  The LMS side of the instructional-hours exchange: the instruction log table with its
  partial unique index and checks, \<^verbatim>\<open>repo/instruction_logs.go\<close>, the ingest handler of
  \<^verbatim>\<open>api/instruction_logs.go\<close> with the request validation its body declares, and the shared
  secret guard of \<^verbatim>\<open>api/secret.go\<close>.
\<close>

section \<open>Logs and the ingest\<close>

record InstructionLog =
  il_id :: uuid
  il_source :: string
  il_source_ref :: string
  il_student_id :: "uuid option"
  il_media_title :: string
  il_class :: string
  il_subject_tags :: "string list"
  il_standard_codes :: "string list"
  il_watched_seconds :: int
  il_occurred_on :: int
  il_notes :: string

record lms_logs =
  lm_students :: "uuid list"
  lm_logs :: "InstructionLog list"

abbreviation source_key :: "InstructionLog \<Rightarrow> string \<times> string" where
  "source_key \<equiv> (\<lambda>l. (il_source l, il_source_ref l))"

definition InstructionLogBySourceRef :: "lms_logs \<Rightarrow> string \<Rightarrow> string \<Rightarrow> repo_error + InstructionLog" where
  "InstructionLogBySourceRef db source ref =
     (case filter (\<lambda>l. source_key l = (source, ref)) (lm_logs db) of
        [] \<Rightarrow> Inl ErrNotFound | [l] \<Rightarrow> Inr l | _ \<Rightarrow> Inl (OtherError ''scan instruction log: too many rows''))"

definition insert_log :: "InstructionLog \<Rightarrow> InstructionLog list \<Rightarrow> InstructionLog list \<times> bool" where
  "insert_log row rows =
     (if il_source_ref row = [] then (rows @ [row], True) else insert_do_nothing source_key row rows)"

definition IngestInstructionLog ::
  "InstructionLog \<Rightarrow> lms_logs \<Rightarrow> (repo_error, InstructionLog \<times> bool, lms_logs) effect" where
  "IngestInstructionLog row db =
     (if list_ex (\<lambda>l. il_id l = il_id row) (lm_logs db) then (Inl UniqueViolation, db)
      else if il_class row \<notin> {''educational'', ''mixed''} \<or> il_watched_seconds row < 0 then (Inl CheckViolation, db)
      else if (case il_student_id row of None \<Rightarrow> False | Some s \<Rightarrow> s \<notin> set (lm_students db)) \<and> snd (insert_log row (lm_logs db))
      then (Inl ForeignKeyViolation, db)
      else let (rows, created) = insert_log row (lm_logs db)
           in if created then (Inr (row, True), db\<lparr>lm_logs := rows\<rparr>)
              else case InstructionLogBySourceRef db (il_source row) (il_source_ref row) of
                     Inl err \<Rightarrow> (Inl err, db) | Inr l \<Rightarrow> (Inr (l, False), db))"

record InstructionLogIngest =
  ii_source :: string
  ii_source_ref :: string
  ii_student_id :: "uuid option"
  ii_media_title :: string
  ii_class :: string
  ii_subject_tags :: "string list"
  ii_standard_codes :: "string list"
  ii_watched_seconds :: int
  ii_occurred_on :: string
  ii_notes :: string

definition InstructionSourceTV :: string where "InstructionSourceTV = ''tv''"

definition ingest_valid :: "InstructionLogIngest \<Rightarrow> bool" where
  "ingest_valid b \<longleftrightarrow> ii_source b \<in> {[], ''tv'', ''manual''} \<and> ii_source_ref b \<noteq> [] \<and> ii_media_title b \<noteq> []
     \<and> ii_class b \<in> {''educational'', ''mixed''} \<and> ii_watched_seconds b \<ge> 1"

definition ingest_row :: "uuid \<Rightarrow> InstructionLogIngest \<Rightarrow> int \<Rightarrow> InstructionLog" where
  "ingest_row new_id b day = \<lparr>il_id = new_id,
     il_source = (if ii_source b = [] then InstructionSourceTV else ii_source b),
     il_source_ref = ii_source_ref b, il_student_id = ii_student_id b, il_media_title = ii_media_title b,
     il_class = ii_class b, il_subject_tags = ii_subject_tags b, il_standard_codes = ii_standard_codes b,
     il_watched_seconds = ii_watched_seconds b, il_occurred_on = day, il_notes = ii_notes b\<rparr>"

definition ingestInstructionLog ::
  "uuid \<Rightarrow> InstructionLogIngest \<Rightarrow> lms_logs \<Rightarrow> (http_error, nat \<times> InstructionLog \<times> bool, lms_logs) effect" where
  "ingestInstructionLog new_id b db =
     (if \<not> ingest_valid b then (Inl (HttpError 422 ''validation failed''), db)
      else case parse_day (ii_occurred_on b) of
        None \<Rightarrow> (Inl (HttpError 422 ''occurredOn must be a calendar day in YYYY-MM-DD form''), db)
      | Some day \<Rightarrow>
          (case IngestInstructionLog (ingest_row new_id b day) db of
             (Inl err, db') \<Rightarrow> (Inl (MapError err), db')
           | (Inr (l, created), db') \<Rightarrow> (Inr (if created then 201 else 200, l, created), db')))"

definition shared_secret_guard ::
  "(string \<Rightarrow> string) \<Rightarrow> (string \<Rightarrow> string) \<Rightarrow> string \<Rightarrow> string \<Rightarrow> bool \<Rightarrow> string \<Rightarrow> string \<Rightarrow> http_error option" where
  "shared_secret_guard sha256 bearer secret message fail_closed header authorization =
     (if secret = [] then (if fail_closed then Some (HttpError 401 message) else None)
      else let presented = (if header = [] then bearer authorization else header)
           in if sha256 presented \<noteq> sha256 secret then Some (HttpError 401 message) else None)"

section \<open>Credit\<close>

definition logs_ok :: "lms_logs \<Rightarrow> bool" where
  "logs_ok db \<longleftrightarrow> unique_key source_key (filter (\<lambda>l. il_source_ref l \<noteq> []) (lm_logs db))
     \<and> (\<forall>l \<in> set (lm_logs db). il_class l \<in> {''educational'', ''mixed''} \<and> 0 \<le> il_watched_seconds l)"

definition held :: "lms_logs \<Rightarrow> (string \<times> string) set" where
  "held db = source_key ` {l \<in> set (lm_logs db). il_source_ref l \<noteq> []}"

definition credited_seconds :: "lms_logs \<Rightarrow> string \<Rightarrow> string \<Rightarrow> int" where
  "credited_seconds db source ref =
     sum_list (map il_watched_seconds (filter (\<lambda>l. source_key l = (source, ref)) (lm_logs db)))"

definition body_key :: "InstructionLogIngest \<Rightarrow> string \<times> string" where
  "body_key b = (if ii_source b = [] then InstructionSourceTV else ii_source b, ii_source_ref b)"

definition ex_body :: InstructionLogIngest where
  "ex_body = \<lparr>ii_source = [], ii_source_ref = ''s1'', ii_student_id = None, ii_media_title = ''Waves'',
     ii_class = ''educational'', ii_subject_tags = [], ii_standard_codes = [], ii_watched_seconds = 1200,
     ii_occurred_on = ''2031-04-15'', ii_notes = []\<rparr>"

interpretation log_ledger: ledger source_key "insert_do_nothing source_key"
  by (rule do_nothing.ledger_axioms)

lemma filter_source_unique:
  assumes "logs_ok db" "ref \<noteq> []" "(source, ref) \<in> held db"
  shows "\<exists>l. filter (\<lambda>l. source_key l = (source, ref)) (lm_logs db) = [l]"
proof -
  have "filter (\<lambda>l. source_key l = (source, ref)) (lm_logs db) =
      filter (\<lambda>l. source_key l = (source, ref)) (filter (\<lambda>l. il_source_ref l \<noteq> []) (lm_logs db))"
    using assms(2) by (auto intro: filter_cong)
  moreover have "length (filter (\<lambda>x. k x = v) xs) = 1" if "distinct (map k xs)" "v \<in> k ` set xs" for k v and xs :: "InstructionLog list"
    using that by (induction xs) (auto simp: filter_empty_conv image_iff)
  from this [of source_key "filter (\<lambda>l. il_source_ref l \<noteq> []) (lm_logs db)" "(source, ref)"]
  have "length (filter (\<lambda>l. source_key l = (source, ref)) (filter (\<lambda>l. il_source_ref l \<noteq> []) (lm_logs db))) = 1"
    using assms by (auto simp: logs_ok_def unique_key_def held_def)
  ultimately show ?thesis by (simp add: length_Suc_conv)
qed

lemma keys_held: "ref \<noteq> [] \<Longrightarrow> (source, ref) \<in> keys source_key (lm_logs db) \<longleftrightarrow> (source, ref) \<in> held db"
  by (auto simp: keys_def held_def)

lemma IngestInstructionLog_cases:
  assumes "IngestInstructionLog row db = (r, db')" "logs_ok db" "il_source_ref row \<noteq> []"
  obtains e where "r = Inl e" "db' = db"
  | l where "r = Inr (l, False)" "db' = db" "source_key row \<in> held db" "source_key l = source_key row"
      "l \<in> set (lm_logs db)"
  | "r = Inr (row, True)" "db' = db\<lparr>lm_logs := lm_logs db @ [row]\<rparr>" "source_key row \<notin> held db"
      "il_class row \<in> {''educational'', ''mixed''}" "0 \<le> il_watched_seconds row"
proof (cases "source_key row \<in> held db")
  case True
  then have k: "source_key row \<in> keys source_key (lm_logs db)" by (auto simp: held_def keys_def)
  obtain l where l: "filter (\<lambda>l. source_key l = source_key row) (lm_logs db) = [l]"
    using filter_source_unique [OF assms(2,3), of "il_source row"] True by auto
  have "l \<in> set (filter (\<lambda>l. source_key l = source_key row) (lm_logs db))" unfolding l by simp
  then have "l \<in> set (lm_logs db)" "source_key l = source_key row" by auto
  with k l True assms that(1,2) show ?thesis
    by (auto simp: IngestInstructionLog_def insert_log_def insert_do_nothing_cases InstructionLogBySourceRef_def
        split: if_splits)
next
  case False
  then have "source_key row \<notin> keys source_key (lm_logs db)"
    using keys_held [OF assms(3)] by simp
  with False assms that(1,3) show ?thesis
    by (auto simp: IngestInstructionLog_def insert_log_def insert_do_nothing_cases split: if_splits)
qed

lemma logs_ok_snoc:
  assumes "logs_ok db" "source_key row \<notin> held db" "il_class row \<in> {''educational'', ''mixed''}" "0 \<le> il_watched_seconds row"
  shows "logs_ok (db\<lparr>lm_logs := lm_logs db @ [row]\<rparr>)"
  using assms by (auto simp: logs_ok_def unique_key_def held_def image_iff)

lemma held_snoc: "il_source_ref row \<noteq> [] \<Longrightarrow> held (db\<lparr>lm_logs := lm_logs db @ [row]\<rparr>) = insert (source_key row) (held db)"
  by (auto simp: held_def)

lemma credited_snoc:
  "credited_seconds (db\<lparr>lm_logs := lm_logs db @ [row]\<rparr>) source ref =
     credited_seconds db source ref + (if source_key row = (source, ref) then il_watched_seconds row else 0)"
  by (simp add: credited_seconds_def)

lemma credited_not_held: "ref \<noteq> [] \<Longrightarrow> (source, ref) \<notin> held db \<Longrightarrow> credited_seconds db source ref = 0"
proof -
  assume "ref \<noteq> []" "(source, ref) \<notin> held db"
  then have "filter (\<lambda>l. source_key l = (source, ref)) (lm_logs db) = []"
    by (auto simp: filter_empty_conv held_def)
  then show ?thesis unfolding credited_seconds_def by simp
qed

lemma credited_held:
  assumes "logs_ok db" "l \<in> set (lm_logs db)" "source_key l = (source, ref)" "ref \<noteq> []"
  shows "credited_seconds db source ref = il_watched_seconds l"
    "filter (\<lambda>l. source_key l = (source, ref)) (lm_logs db) = [l]"
proof -
  have "(source, ref) \<in> held db" using assms by (auto simp: held_def)
  then obtain x where x: "filter (\<lambda>l. source_key l = (source, ref)) (lm_logs db) = [x]"
    using filter_source_unique [OF assms(1,4)] by blast
  have "l \<in> set (filter (\<lambda>l. source_key l = (source, ref)) (lm_logs db))" using assms by simp
  then have "x = l" unfolding x by simp
  with x show "filter (\<lambda>l. source_key l = (source, ref)) (lm_logs db) = [l]" by simp
  then show "credited_seconds db source ref = il_watched_seconds l" unfolding credited_seconds_def by simp
qed

lemma ingest_row_key [simp]:
  "il_source (ingest_row i b d) = fst (body_key b)" "il_source_ref (ingest_row i b d) = snd (body_key b)"
  by (simp_all add: ingest_row_def body_key_def)

lemma ingest_outcome:
  assumes ok: "logs_ok db" and r: "ingestInstructionLog i b db = (r, db')"
  obtains e where "r = Inl e" "db' = db"
  | l where "r = Inr (200, l, False)" "db' = db" "body_key b \<in> held db" "l \<in> set (lm_logs db)" "source_key l = body_key b"
      "snd (body_key b) \<noteq> []"
  | l where "r = Inr (201, l, True)" "db' = db\<lparr>lm_logs := lm_logs db @ [l]\<rparr>" "body_key b \<notin> held db"
      "source_key l = body_key b" "il_watched_seconds l = ii_watched_seconds b"
      "il_class l = ii_class b" "il_class l \<in> {''educational'', ''mixed''}" "0 \<le> il_watched_seconds l" "snd (body_key b) \<noteq> []"
proof (cases "ingest_valid b \<and> parse_day (ii_occurred_on b) \<noteq> None")
  case False
  with r that(1) show ?thesis by (auto simp: ingestInstructionLog_def split: if_splits)
next
  case True
  then obtain day where d: "ingest_valid b" "parse_day (ii_occurred_on b) = Some day" by auto
  let ?row = "ingest_row i b day"
  have ref: "snd (body_key b) \<noteq> []" using d by (simp add: ingest_valid_def body_key_def)
  obtain r0 db0 where i: "IngestInstructionLog ?row db = (r0, db0)" by fastforce
  from i ok ref have "il_source_ref ?row \<noteq> []" by simp
  from i ok this show ?thesis
  proof (cases rule: IngestInstructionLog_cases)
    case (1 e)
    with i r d that(1) show ?thesis by (auto simp: ingestInstructionLog_def)
  next
    case (2 l)
    with i r d ref that(2) show ?thesis by (auto simp: ingestInstructionLog_def)
  next
    case 3
    have "il_watched_seconds ?row = ii_watched_seconds b" "il_class ?row = ii_class b"
      by (simp_all add: ingest_row_def)
    with 3 i r d ref that(3) show ?thesis by (auto simp: ingestInstructionLog_def)
  qed
qed

lemma ingest_logs_ok:
  assumes "logs_ok db" "ingestInstructionLog i b db = (r, db')"
  shows "logs_ok db'"
  using assms
proof (cases rule: ingest_outcome)
  case (3 l)
  with assms(1) show ?thesis by (auto intro!: logs_ok_snoc)
qed (use assms(1) in auto)

text \<open>
  The ingest is idempotent on (source, reference).  After an accepted post the reference is
  credited with exactly the seconds of the log in the answer, no other reference gained
  anything, the answer says created exactly when the reference was new, and any later accepted
  post of the same reference, whatever its body says, answers 200 with that same log and
  changes nothing.
\<close>

theorem ingest_idempotent:
  assumes ok: "logs_ok db" and post: "ingestInstructionLog i b db = (Inr (st, l, created), db')"
  shows "(created \<longleftrightarrow> body_key b \<notin> held db) \<and> st = (if created then 201 else 200) \<and>
    credited_seconds db' (fst (body_key b)) (snd (body_key b)) = il_watched_seconds l \<and>
    (\<forall>k. k \<noteq> body_key b \<longrightarrow> credited_seconds db' (fst k) (snd k) = credited_seconds db (fst k) (snd k)) \<and>
    (\<forall>i' b' r' db''. body_key b' = body_key b \<and> ingestInstructionLog i' b' db' = (Inr r', db'') \<longrightarrow>
       r' = (200, l, False) \<and> db'' = db')"
proof -
  have ok': "logs_ok db'" using ingest_logs_ok [OF ok post] .
  have l: "l \<in> set (lm_logs db')" "source_key l = body_key b" "snd (body_key b) \<noteq> []"
      "created \<longleftrightarrow> body_key b \<notin> held db" "st = (if created then 201 else 200)"
      "\<forall>k. k \<noteq> body_key b \<longrightarrow> credited_seconds db' (fst k) (snd k) = credited_seconds db (fst k) (snd k)"
    using ok post by (cases rule: ingest_outcome; auto simp: credited_snoc)+
  have one: "x = l" if "x \<in> set (lm_logs db')" "source_key x = body_key b" for x
    using credited_held(2) [OF ok', of x "fst (body_key b)" "snd (body_key b)"]
      credited_held(2) [OF ok', of l "fst (body_key b)" "snd (body_key b)"] that l by simp
  have "r' = (200, l, False) \<and> db'' = db'"
    if "body_key b' = body_key b" "ingestInstructionLog i' b' db' = (Inr r', db'')" for i' b' r' db''
  proof -
    have "il_source_ref l \<noteq> []" using l(2,3) by (metis snd_conv)
    with l(1,2) have "body_key b \<in> held db'" unfolding held_def by (intro image_eqI [of _ _ l]) auto
    with ok' that(2) that(1) one show ?thesis by (cases rule: ingest_outcome) auto
  qed
  moreover have "credited_seconds db' (fst (body_key b)) (snd (body_key b)) = il_watched_seconds l"
    using l by (intro credited_held(1) [OF ok' l(1)]) simp_all
  ultimately show ?thesis using l(4-6) by blast
qed

theorem ingest_idempotent_witness:
  "let (r, db') = ingestInstructionLog ''i1'' ex_body \<lparr>lm_students = [], lm_logs = []\<rparr> in
     credited_seconds db' InstructionSourceTV ''s1'' = 1200 \<and>
     fst (projr (fst (ingestInstructionLog ''i2'' ex_body db'))) = 200"
proof -
  let ?X = "ingestInstructionLog ''i1'' ex_body \<lparr>lm_students = [], lm_logs = []\<rparr>"
  let ?r = "projr (fst ?X)"
  let ?Y = "ingestInstructionLog ''i2'' ex_body (snd ?X)"
  have ok: "logs_ok \<lparr>lm_students = [], lm_logs = []\<rparr>" and x: "?X = (Inr (fst ?r, fst (snd ?r), snd (snd ?r)), snd ?X)"
    and y: "?Y = (Inr (projr (fst ?Y)), snd ?Y)" and s: "il_watched_seconds (fst (snd ?r)) = 1200"
    and k: "body_key ex_body = (InstructionSourceTV, ''s1'')"
    by code_simp+
  note i = ingest_idempotent [OF ok x]
  then have "projr (fst ?Y) = (200, fst (snd ?r), False)" using y by blast
  moreover have "credited_seconds (snd ?X) InstructionSourceTV ''s1'' = 1200" using i s k by simp
  ultimately show ?thesis by (simp add: case_prod_unfold)
qed

end
