(* ===== verification/TV_Reporter.thy ===== *)
theory TV_Reporter
  imports TV_Rotation Instruction
begin

text \<open>
  Exporting instructional hours: the export backlog and ledger of \<^verbatim>\<open>tv/repo/primer.go\<close>, the
  reporting pass of \<^verbatim>\<open>tv/primer/reporter.go\<close>, and the LMS client behind its \<^verbatim>\<open>Ingester\<close>
  interface (\<^verbatim>\<open>tv/primer/primer.go\<close>).

  What the environment does to one viewing of a pass is its fate: the request may be
  lost, the LMS may act on it and the answer be lost, or the answer may arrive, and the
  ledger write may fail.  A pass receives one fate per viewing it gets to; when they run
  out the context was cancelled.  The contract the reporter relies on is the locale
  \<open>ingester\<close>, discharged for the LMS's own handler.
\<close>

section \<open>The backlog and the export ledger\<close>

record ReportableSession =
  rs_session_id :: uuid
  rs_media_item_id :: uuid
  rs_title :: string
  rs_class :: string
  rs_subject_tags :: "string list"
  rs_standard_codes :: "string list"
  rs_watched_seconds :: int
  rs_started_at :: time
  rs_ended_at :: time

definition reportable :: "tv_db \<Rightarrow> PlaybackSession \<Rightarrow> MediaItem \<Rightarrow> bool" where
  "reportable db s m \<longleftrightarrow> mi_id m = ps_media_item_id s \<and> ps_ended_at s \<noteq> None \<and> ps_watched_seconds s > 0
     \<and> mi_class m \<in> {ClassEducational, ClassMixed}
     \<and> \<not> list_ex (\<lambda>r. pr_playback_session_id r = ps_id s) (db_reports db)"

definition reportable_row :: "PlaybackSession \<Rightarrow> MediaItem \<Rightarrow> ReportableSession" where
  "reportable_row s m = \<lparr>rs_session_id = ps_id s, rs_media_item_id = ps_media_item_id s, rs_title = mi_title m,
     rs_class = mi_class m, rs_subject_tags = mi_subject_tags m, rs_standard_codes = mi_standard_codes m,
     rs_watched_seconds = ps_watched_seconds s, rs_started_at = ps_started_at s,
     rs_ended_at = the (ps_ended_at s)\<rparr>"

definition UnreportedSessions :: "tv_db \<Rightarrow> nat \<Rightarrow> ReportableSession list" where
  "UnreportedSessions db limit = take limit (sort_key rs_ended_at (concat (map (\<lambda>s.
     map (reportable_row s) (filter (reportable db s) (db_media db))) (db_sessions db))))"

definition RecordPrimerReport ::
  "uuid \<Rightarrow> uuid \<Rightarrow> string \<Rightarrow> time \<Rightarrow> tv_db \<Rightarrow> (repo_error, bool, tv_db) effect" where
  "RecordPrimerReport new_id session_id primer_ref now db =
     (let row = \<lparr>pr_id = new_id, pr_playback_session_id = session_id, pr_reported_at = now, pr_primer_ref = primer_ref\<rparr>;
          (rows, created) = insert_do_nothing pr_playback_session_id row (db_reports db)
      in if created \<and> \<not> has_id ps_id session_id (db_sessions db) then (Inl ForeignKeyViolation, db)
         else (Inr created, db\<lparr>db_reports := rows\<rparr>))"

section \<open>The LMS client\<close>

datatype delivery = RequestLost | ResponseLost | Delivered

record fate =
  ft_delivery :: delivery
  ft_ledger_write :: bool
  ft_log_id :: uuid
  ft_report_id :: uuid

record IngestResult =
  ir_log_id :: string
  ir_created :: bool

definition SourceTV :: string where "SourceTV = ''tv''"

definition Ingest :: "fate \<Rightarrow> InstructionLogIngest \<Rightarrow> lms_logs \<Rightarrow> (string + IngestResult) \<times> lms_logs" where
  "Ingest f lg lms =
     (case ft_delivery f of
        RequestLost \<Rightarrow> (Inl ''post instruction log'', lms)
      | _ \<Rightarrow> (case ingestInstructionLog (ft_log_id f) lg lms of
           (Inl _, lms') \<Rightarrow> (Inl ''primer ingest refused'', lms')
         | (Inr (_, l, created), lms') \<Rightarrow>
             (if ft_delivery f = ResponseLost then Inl ''post instruction log''
              else Inr \<lparr>ir_log_id = il_id l, ir_created = created\<rparr>, lms')))"

section \<open>The reporting pass\<close>

record Summary =
  sm_scanned :: nat
  sm_reported :: nat
  sm_duplicate :: nat
  sm_failed :: nat

definition DefaultBatchSize :: nat where "DefaultBatchSize = 100"

record 'lms Reporter =
  re_ingest :: "fate \<Rightarrow> InstructionLogIngest \<Rightarrow> 'lms \<Rightarrow> (string + IngestResult) \<times> 'lms"
  re_location :: "location option"
  re_batch_size :: int

definition reporter_location :: "'lms Reporter \<Rightarrow> location" where
  "reporter_location r = (case re_location r of None \<Rightarrow> UTC | Some l \<Rightarrow> l)"

definition batchSize :: "'lms Reporter \<Rightarrow> nat" where
  "batchSize r = (if re_batch_size r \<le> 0 then DefaultBatchSize else nat (re_batch_size r))"

definition logFor :: "'lms Reporter \<Rightarrow> ReportableSession \<Rightarrow> InstructionLogIngest" where
  "logFor r s = \<lparr>ii_source = SourceTV, ii_source_ref = rs_session_id s, ii_student_id = None,
     ii_media_title = rs_title s, ii_class = rs_class s, ii_subject_tags = rs_subject_tags s,
     ii_standard_codes = rs_standard_codes s, ii_watched_seconds = rs_watched_seconds s,
     ii_occurred_on = format_day (reporter_location r) (rs_started_at s), ii_notes = []\<rparr>"

fun report_each ::
  "'lms Reporter \<Rightarrow> time \<Rightarrow> ReportableSession list \<Rightarrow> fate list \<Rightarrow> Summary \<Rightarrow> 'lms \<Rightarrow> tv_db \<Rightarrow> Summary \<times> 'lms \<times> tv_db" where
  "report_each r now [] fs sm lms db = (sm, lms, db)"
| "report_each r now (s # ss) [] sm lms db = (sm, lms, db)"
| "report_each r now (s # ss) (f # fs) sm lms db =
     (case re_ingest r f (logFor r s) lms of
        (Inl _, lms') \<Rightarrow> report_each r now ss fs (sm\<lparr>sm_failed := sm_failed sm + 1\<rparr>) lms' db
      | (Inr result, lms') \<Rightarrow>
          (case (if ft_ledger_write f
                 then RecordPrimerReport (ft_report_id f) (rs_session_id s) (ir_log_id result) now db
                 else (Inl (OtherError ''record primer report''), db)) of
             (Inl _, db') \<Rightarrow> report_each r now ss fs (sm\<lparr>sm_failed := sm_failed sm + 1\<rparr>) lms' db'
           | (Inr _, db') \<Rightarrow>
               report_each r now ss fs
                 (if ir_created result then sm\<lparr>sm_reported := sm_reported sm + 1\<rparr>
                  else sm\<lparr>sm_duplicate := sm_duplicate sm + 1\<rparr>) lms' db'))"

definition RunOnce :: "'lms Reporter \<Rightarrow> time \<Rightarrow> fate list \<Rightarrow> 'lms \<Rightarrow> tv_db \<Rightarrow> Summary \<times> 'lms \<times> tv_db" where
  "RunOnce r now fs lms db =
     (let sessions = UnreportedSessions db (batchSize r)
      in report_each r now sessions fs
           \<lparr>sm_scanned = length sessions, sm_reported = 0, sm_duplicate = 0, sm_failed = 0\<rparr> lms db)"

definition runPrimerReport ::
  "'lms Reporter option \<Rightarrow> time \<Rightarrow> fate list \<Rightarrow> 'lms \<Rightarrow> tv_db \<Rightarrow> (http_error + Summary) \<times> 'lms \<times> tv_db" where
  "runPrimerReport r now fs lms db = (case r of
     None \<Rightarrow> (Inl (HttpError 503 ''primer reporting is not configured''), lms, db)
   | Some rep \<Rightarrow> (case RunOnce rep now fs lms db of (sm, lms', db') \<Rightarrow> (Inr sm, lms', db')))"

section \<open>A viewing to export\<close>

definition ex_export_db :: tv_db where
  "ex_export_db = ex_play_db\<lparr>db_grants := [ex_grant ''g1'', (ex_grant ''g9'')\<lparr>pg_media_item_id := ''m1''\<rparr>],
     db_sessions := [ex_session, \<lparr>ps_id = ''s9'', ps_grant_id = ''g9'', ps_media_item_id = ''m1'', ps_device_id = ''d1'',
       ps_started_at = 0, ps_ended_at = Some (1200 * second), ps_watched_seconds = 1200,
       ps_max_position_seconds = 1200, ps_completed = False\<rparr>]\<rparr>"

definition ex_reporter :: "lms_logs Reporter" where
  "ex_reporter = \<lparr>re_ingest = Ingest, re_location = None, re_batch_size = 0\<rparr>"

definition ex_fate :: fate where
  "ex_fate = \<lparr>ft_delivery = Delivered, ft_ledger_write = True, ft_log_id = ''i1'', ft_report_id = ''p1''\<rparr>"

section \<open>The contract of the ingest\<close>

definition report_inv :: "tv_db \<Rightarrow> bool" where
  "report_inv db \<longleftrightarrow> unique_key pr_playback_session_id (db_reports db)
     \<and> (\<forall>r \<in> set (db_reports db). has_id ps_id (pr_playback_session_id r) (db_sessions db))"

definition ledger_backed :: "(string \<times> string) set \<Rightarrow> tv_db \<Rightarrow> bool" where
  "ledger_backed R db \<longleftrightarrow> report_inv db \<and> (\<forall>x \<in> set (db_reports db). (SourceTV, pr_playback_session_id x) \<in> R)"

interpretation export_ledger: ledger pr_playback_session_id "insert_do_nothing pr_playback_session_id"
  by (rule do_nothing.ledger_axioms)

lemma RecordPrimerReport_cases:
  assumes "RecordPrimerReport i sid ref now db = (r, db')"
  obtains "r = Inl ForeignKeyViolation" "db' = db"
  | "r = Inr False" "db' = db" "sid \<in> keys pr_playback_session_id (db_reports db)"
  | x where "r = Inr True" "sid \<notin> keys pr_playback_session_id (db_reports db)" "pr_playback_session_id x = sid"
      "has_id ps_id sid (db_sessions db)" "db' = db\<lparr>db_reports := db_reports db @ [x]\<rparr>"
proof (cases "sid \<in> keys pr_playback_session_id (db_reports db)")
  case True
  with assms that(2) show ?thesis by (auto simp: RecordPrimerReport_def insert_do_nothing_cases Let_def)
next
  case False
  let ?x = "\<lparr>pr_id = i, pr_playback_session_id = sid, pr_reported_at = now, pr_primer_ref = ref\<rparr>"
  from False assms that(1) that(3) [of ?x] show ?thesis
    by (auto simp: RecordPrimerReport_def insert_do_nothing_cases Let_def split: if_splits)
qed

lemma RecordPrimerReport_backed:
  assumes "RecordPrimerReport i sid ref now db = (r, db')" "ledger_backed R db" "(SourceTV, sid) \<in> R"
  shows "ledger_backed R db' \<and> db_sessions db' = db_sessions db"
  using assms(1)
proof (cases rule: RecordPrimerReport_cases)
  case (3 x)
  with assms(2,3) show ?thesis
    by (auto simp: ledger_backed_def report_inv_def intro: unique_key_snoc)
qed (use assms(2) in simp_all)

lemma body_key_logFor [simp]: "body_key (logFor r s) = (SourceTV, rs_session_id s)"
  by (simp add: body_key_def logFor_def SourceTV_def)

text \<open>
  What the reporter needs of the LMS: an invariant it keeps, a set of references it holds,
  and that an answered post holds its reference and says truly whether it was new, while
  an unanswered one adds that reference or nothing.
\<close>

locale ingester =
  fixes ingest :: "fate \<Rightarrow> InstructionLogIngest \<Rightarrow> 'lms \<Rightarrow> (string + IngestResult) \<times> 'lms"
    and lms_inv :: "'lms \<Rightarrow> bool"
    and refs :: "'lms \<Rightarrow> (string \<times> string) set"
  assumes keeps: "lms_inv s \<Longrightarrow> ingest f l s = (r, s') \<Longrightarrow> lms_inv s'"
    and answered: "lms_inv s \<Longrightarrow> ingest f l s = (Inr a, s') \<Longrightarrow>
      refs s' = insert (body_key l) (refs s) \<and> (ir_created a \<longleftrightarrow> body_key l \<notin> refs s)"
    and unanswered: "lms_inv s \<Longrightarrow> ingest f l s = (Inl e, s') \<Longrightarrow>
      refs s' = refs s \<or> refs s' = insert (body_key l) (refs s)"
begin

lemma refs_grow: "lms_inv s \<Longrightarrow> ingest f l s = (r, s') \<Longrightarrow> refs s \<subseteq> refs s' \<and> refs s' \<subseteq> insert (body_key l) (refs s)"
  using answered unanswered by (cases r) blast+

lemma backed_mono: "ledger_backed R db \<Longrightarrow> R \<subseteq> R' \<Longrightarrow> ledger_backed R' db"
  by (auto simp: ledger_backed_def)

lemma report_one:
  assumes "lms_inv lms" "ledger_backed (refs lms) db" "ingest f (logFor r s) lms = (a, lms')"
  shows "lms_inv lms'" "ledger_backed (refs lms') db" "refs lms \<subseteq> refs lms'"
    "refs lms' \<subseteq> insert (SourceTV, rs_session_id s) (refs lms)"
    "a = Inr x \<Longrightarrow> (SourceTV, rs_session_id s) \<in> refs lms'"
  using assms keeps refs_grow [OF assms(1,3)] answered [OF assms(1)] backed_mono by auto

lemma report_each_keeps:
  assumes "lms_inv lms" "ledger_backed (refs lms) db" "re_ingest r = ingest"
    "report_each r now ss fs sm lms db = (sm', lms', db')"
  shows "lms_inv lms' \<and> ledger_backed (refs lms') db' \<and> db_sessions db' = db_sessions db \<and> refs lms \<subseteq> refs lms' \<and>
    refs lms' \<subseteq> refs lms \<union> (\<lambda>s. (SourceTV, rs_session_id s)) ` set ss"
  using assms
proof (induction ss arbitrary: fs sm lms db)
  case (Cons s ss)
  show ?case
  proof (cases fs)
    case Nil
    with Cons.prems show ?thesis by auto
  next
    case (Cons f fs')
    obtain a lms1 where i: "ingest f (logFor r s) lms = (a, lms1)" by fastforce
    note one = report_one [OF Cons.prems(1,2) i]
    have step: "\<exists>sm1 db1. report_each r now ss fs' sm1 lms1 db1 = (sm', lms', db') \<and>
        ledger_backed (refs lms1) db1 \<and> db_sessions db1 = db_sessions db"
    proof (cases a)
      case (Inl e)
      with i one(2) Cons Cons.prems(3,4) show ?thesis by auto
    next
      case (Inr res)
      obtain b db1 where w: "(if ft_ledger_write f
          then RecordPrimerReport (ft_report_id f) (rs_session_id s) (ir_log_id res) now db
          else (Inl (OtherError ''record primer report''), db)) = (b, db1)" by fastforce
      have "ledger_backed (refs lms1) db1 \<and> db_sessions db1 = db_sessions db"
        using w RecordPrimerReport_backed [of _ "rs_session_id s" _ now db b db1] one(2) one(5) [OF Inr]
        by (auto split: if_splits)
      with i w Inr Cons Cons.prems(3,4) show ?thesis by (cases b) auto
    qed
    then obtain sm1 db1 where st: "report_each r now ss fs' sm1 lms1 db1 = (sm', lms', db')"
      "ledger_backed (refs lms1) db1" "db_sessions db1 = db_sessions db" by blast
    with Cons.IH [OF one(1) st(2) Cons.prems(3) st(1)] one(3,4) show ?thesis by auto
  qed
qed auto

lemma RunOnce_keeps:
  assumes "lms_inv lms" "ledger_backed (refs lms) db" "re_ingest r = ingest" "RunOnce r now fs lms db = (sm, lms', db')"
  shows "lms_inv lms' \<and> ledger_backed (refs lms') db' \<and> db_sessions db' = db_sessions db \<and> refs lms \<subseteq> refs lms'"
  using report_each_keeps [OF assms(1-3)] assms(4) by (auto simp: RunOnce_def Let_def)

end

lemma Ingest_cases:
  assumes "Ingest f l s = (r, s')"
  obtains "\<exists>e. r = Inl e" "s' = s"
  | x where "ingestInstructionLog (ft_log_id f) l s = (x, s')" "\<exists>e. r = Inl e"
  | st lg c where "ingestInstructionLog (ft_log_id f) l s = (Inr (st, lg, c), s')"
      "r = Inr \<lparr>ir_log_id = il_id lg, ir_created = c\<rparr>"
  using assms by (auto simp: Ingest_def split: delivery.splits prod.splits sum.splits if_splits)

lemma ingest_held:
  assumes "logs_ok s" "ingestInstructionLog i l s = (x, s')"
  shows "(held s' = held s \<or> held s' = insert (body_key l) (held s)) \<and>
    (\<forall>st lg c. x = Inr (st, lg, c) \<longrightarrow> held s' = insert (body_key l) (held s) \<and> (c \<longleftrightarrow> body_key l \<notin> held s))"
  using assms
proof (cases rule: ingest_outcome)
  case (3 lg)
  then have "il_source_ref lg \<noteq> []" by (metis snd_conv)
  with 3 held_snoc [of lg s] show ?thesis by auto
qed auto

interpretation lms: ingester Ingest logs_ok held
proof
  fix s f l r s'
  assume ok: "logs_ok s" and i: "Ingest f l s = (r, s')"
  show "logs_ok s'" using i by (cases rule: Ingest_cases) (use ok ingest_logs_ok in blast)+
next
  fix s f l a s'
  assume ok: "logs_ok s" and i: "Ingest f l s = (Inr a, s')"
  from i show "held s' = insert (body_key l) (held s) \<and> (ir_created a \<longleftrightarrow> body_key l \<notin> held s)"
    by (cases rule: Ingest_cases) (use ingest_held [OF ok] in auto)
next
  fix s f l e s'
  assume ok: "logs_ok s" and i: "Ingest f l s = (Inl e, s')"
  from i show "held s' = held s \<or> held s' = insert (body_key l) (held s)"
    by (cases rule: Ingest_cases) (use ingest_held [OF ok] in auto)
qed

section \<open>Only finished instruction is exported, and nothing is lost\<close>

lemma in_UnreportedSessions:
  "x \<in> set (UnreportedSessions db n) \<Longrightarrow> \<exists>s \<in> set (db_sessions db). \<exists>m \<in> set (db_media db).
     reportable db s m \<and> x = reportable_row s m"
  by (auto simp: UnreportedSessions_def dest!: in_set_takeD) blast

text \<open>
  A reporting pass, whatever the network and the ledger do to it, only ever adds references
  of finished viewings with watch time of educational or mixed items: entertainment is never
  credited as instruction.
\<close>

theorem RunOnce_exports_instruction_only:
  assumes ok: "logs_ok lms" "ledger_backed (held lms) db" "re_ingest r = Ingest"
    and run: "RunOnce r now fs lms db = (sm, lms', db')" and new: "k \<in> held lms' - held lms"
  shows "\<exists>s \<in> set (db_sessions db). \<exists>m \<in> set (db_media db). k = (SourceTV, ps_id s) \<and>
    mi_id m = ps_media_item_id s \<and> mi_class m \<in> {ClassEducational, ClassMixed} \<and>
    ps_ended_at s \<noteq> None \<and> 0 < ps_watched_seconds s"
proof -
  have "held lms' \<subseteq> held lms \<union> (\<lambda>s. (SourceTV, rs_session_id s)) ` set (UnreportedSessions db (batchSize r))"
    using lms.report_each_keeps [OF ok] run by (auto simp: RunOnce_def Let_def)
  with new obtain x where x: "x \<in> set (UnreportedSessions db (batchSize r))" "k = (SourceTV, rs_session_id x)" by auto
  from in_UnreportedSessions [OF x(1)] obtain s m where "s \<in> set (db_sessions db)" "m \<in> set (db_media db)"
      "reportable db s m" "x = reportable_row s m" by blast
  with x(2) show ?thesis by (intro bexI [of _ s] bexI [of _ m]) (auto simp: reportable_def reportable_row_def)
qed

theorem RunOnce_exports_instruction_only_witness:
  "case RunOnce ex_reporter 0 [ex_fate\<lparr>ft_delivery := ResponseLost\<rparr>] \<lparr>lm_students = [], lm_logs = []\<rparr> ex_export_db of
     (sm, l', db') \<Rightarrow> sm_failed sm = 1 \<and> (\<exists>s \<in> set (db_sessions ex_export_db). \<exists>m \<in> set (db_media ex_export_db).
       (SourceTV, ''s9'') = (SourceTV, ps_id s) \<and> mi_id m = ps_media_item_id s \<and>
       mi_class m \<in> {ClassEducational, ClassMixed} \<and> ps_ended_at s \<noteq> None \<and> 0 < ps_watched_seconds s)"
proof -
  let ?l = "\<lparr>lm_students = [], lm_logs = []\<rparr>"
  let ?X = "RunOnce ex_reporter 0 [ex_fate\<lparr>ft_delivery := ResponseLost\<rparr>] ?l ex_export_db"
  have ok: "logs_ok ?l" "ledger_backed (held ?l) ex_export_db" "re_ingest ex_reporter = Ingest"
    by (simp_all add: logs_ok_def ledger_backed_def report_inv_def unique_key_def ex_export_db_def ex_play_db_def
        ex_db_def ex_reporter_def)
  have x: "?X = (fst ?X, fst (snd ?X), snd (snd ?X))" by simp
  have h: "(SourceTV, ''s9'') \<in> set (map source_key (filter (\<lambda>x. il_source_ref x \<noteq> []) (lm_logs (fst (snd ?X)))))"
    "sm_failed (fst ?X) = 1"
    by code_simp+
  then have "(SourceTV, ''s9'') \<in> held (fst (snd ?X)) - held ?l" by (auto simp: held_def)
  from RunOnce_exports_instruction_only [OF ok x this] h show ?thesis by (simp add: case_prod_unfold)
qed

lemma backlog_unexported:
  "y \<in> set (UnreportedSessions db n) \<Longrightarrow> rs_session_id y \<notin> keys pr_playback_session_id (db_reports db)"
  by (drule in_UnreportedSessions) (auto simp: reportable_def reportable_row_def list_ex_iff keys_def)

lemma Ingest_accepts:
  assumes "logs_ok s" "ft_delivery f = Delivered" "ingest_valid l" "parse_day (ii_occurred_on l) \<noteq> None"
    "ii_student_id l = None" "ft_log_id f \<notin> il_id ` set (lm_logs s)"
  shows "\<exists>a s'. Ingest f l s = (Inr a, s') \<and> il_id ` set (lm_logs s') \<subseteq> insert (ft_log_id f) (il_id ` set (lm_logs s))"
proof -
  from assms(4) obtain day where d: "parse_day (ii_occurred_on l) = Some day" by blast
  let ?row = "ingest_row (ft_log_id f) l day"
  have row: "il_id ?row = ft_log_id f" "il_class ?row = ii_class l" "il_watched_seconds ?row = ii_watched_seconds l"
      "il_student_id ?row = ii_student_id l" "il_source_ref ?row \<noteq> []"
    using assms(3) by (simp_all add: ingest_row_def ingest_valid_def)
  obtain r s' where i: "IngestInstructionLog ?row s = (r, s')" by fastforce
  have no: "\<not> list_ex (\<lambda>x. il_id x = il_id ?row) (lm_logs s)" using assms(6) row(1) by (auto simp: list_ex_iff image_iff)
  have "\<exists>lg c. r = Inr (lg, c) \<and> il_id ` set (lm_logs s') \<subseteq> insert (ft_log_id f) (il_id ` set (lm_logs s))"
    using i assms(1) row(5)
  proof (cases rule: IngestInstructionLog_cases)
    case (1 e)
    have False
    proof (cases "source_key ?row \<in> held s")
      case True
      with filter_source_unique [OF assms(1) row(5), of "il_source ?row"] obtain lg where
        "filter (\<lambda>x. source_key x = source_key ?row) (lm_logs s) = [lg]" by blast
      moreover have "source_key ?row \<in> keys source_key (lm_logs s)" using True by (auto simp: held_def keys_def)
      ultimately show False using i 1 no assms(3,5) row
        by (auto simp: IngestInstructionLog_def insert_log_def insert_do_nothing_cases InstructionLogBySourceRef_def ingest_valid_def)
    next
      case False
      then have "source_key ?row \<notin> keys source_key (lm_logs s)"
        using keys_held [OF row(5), of "il_source ?row" s] by blast
      with i 1 no assms(3,5) row show False
        by (auto simp: IngestInstructionLog_def insert_log_def insert_do_nothing_cases ingest_valid_def)
    qed
    then show ?thesis ..
  qed (use row in auto)
  then obtain lg c where "r = Inr (lg, c)" "il_id ` set (lm_logs s') \<subseteq> insert (ft_log_id f) (il_id ` set (lm_logs s))"
    by blast
  with i d assms(2,3) show ?thesis by (simp add: Ingest_def ingestInstructionLog_def)
qed

definition clean_fates :: "fate list \<Rightarrow> lms_logs \<Rightarrow> bool" where
  "clean_fates fs lms \<longleftrightarrow> (\<forall>f \<in> set fs. ft_delivery f = Delivered \<and> ft_ledger_write f) \<and>
     distinct (map ft_log_id fs) \<and> set (map ft_log_id fs) \<inter> il_id ` set (lm_logs lms) = {}"

definition sendable :: "'lms Reporter \<Rightarrow> ReportableSession \<Rightarrow> bool" where
  "sendable r s \<longleftrightarrow> ingest_valid (logFor r s) \<and> parse_day (format_day (reporter_location r) (rs_started_at s)) \<noteq> None"

lemma report_each_drains:
  assumes "logs_ok lms" "re_ingest r = Ingest" "clean_fates fs lms" "length ss \<le> length fs"
    "\<forall>s \<in> set ss. sendable r s \<and> has_id ps_id (rs_session_id s) (db_sessions db)"
    "report_each r now ss fs sm lms db = (sm', lms', db')"
  shows "sm_failed sm' = sm_failed sm \<and> keys pr_playback_session_id (db_reports db) \<subseteq> keys pr_playback_session_id (db_reports db') \<and>
    rs_session_id ` set ss \<subseteq> keys pr_playback_session_id (db_reports db')"
  using assms
proof (induction ss arbitrary: fs sm lms db)
  case (Cons s ss)
  then obtain f fs' where fs: "fs = f # fs'" by (cases fs) auto
  have s: "ingest_valid (logFor r s)" "parse_day (ii_occurred_on (logFor r s)) \<noteq> None" "ii_student_id (logFor r s) = None"
    using Cons.prems(5) by (auto simp: sendable_def logFor_def)
  have f: "ft_delivery f = Delivered" "ft_ledger_write f" "ft_log_id f \<notin> il_id ` set (lm_logs lms)"
    using Cons.prems(3) by (auto simp: fs clean_fates_def)
  from Ingest_accepts [OF Cons.prems(1) f(1) s f(3)] obtain a lms1 where
    i: "Ingest f (logFor r s) lms = (Inr a, lms1)" "il_id ` set (lm_logs lms1) \<subseteq> insert (ft_log_id f) (il_id ` set (lm_logs lms))"
    by blast
  have ok1: "logs_ok lms1" using lms.keeps [OF Cons.prems(1) i(1)] .
  have "ft_log_id f \<notin> set (map ft_log_id fs')" "set (map ft_log_id fs') \<inter> il_id ` set (lm_logs lms) = {}"
    using Cons.prems(3) by (auto simp: fs clean_fates_def)
  then have "set (map ft_log_id fs') \<inter> insert (ft_log_id f) (il_id ` set (lm_logs lms)) = {}" by simp
  with Int_mono [OF order_refl [of "set (map ft_log_id fs')"] i(2)]
  have "set (map ft_log_id fs') \<inter> il_id ` set (lm_logs lms1) = {}" by (simp only: subset_empty)
  then have c1: "clean_fates fs' lms1" using Cons.prems(3) by (simp add: fs clean_fates_def)
  obtain b db1 where w: "RecordPrimerReport (ft_report_id f) (rs_session_id s) (ir_log_id a) now db = (b, db1)" by fastforce
  have w1: "\<exists>c. b = Inr c" "db_sessions db1 = db_sessions db"
      "keys pr_playback_session_id (db_reports db1) = insert (rs_session_id s) (keys pr_playback_session_id (db_reports db))"
    using w Cons.prems(5) by (auto simp: RecordPrimerReport_def insert_do_nothing_cases split: if_splits)
  then obtain c where b: "b = Inr c" by blast
  obtain sm1 where st: "report_each r now ss fs' sm1 lms1 db1 = (sm', lms', db')" "sm_failed sm1 = sm_failed sm"
    using Cons.prems(2,6) fs i(1) w b f(2) by (cases "ir_created a") auto
  have "length ss \<le> length fs'" "\<forall>s \<in> set ss. sendable r s \<and> has_id ps_id (rs_session_id s) (db_sessions db1)"
    using Cons.prems(4,5) fs w1(2) by auto
  from Cons.IH [OF ok1 Cons.prems(2) c1 this st(1)] st(2) w1(3) show ?case by auto
qed auto

text \<open>
  Nothing stays unreported once the LMS can be reached: a pass in which every request is
  answered and every ledger write succeeds reports every viewing it scanned, counts no
  failure, and leaves none of them in the backlog of any later pass.
\<close>

theorem RunOnce_drains_batch:
  fixes db :: tv_db and r :: "lms_logs Reporter"
  defines "batch \<equiv> UnreportedSessions db (batchSize r)"
  assumes "logs_ok lms" "re_ingest r = Ingest" "clean_fates fs lms" "length batch \<le> length fs"
    "\<forall>s \<in> set batch. sendable r s" and run: "RunOnce r now fs lms db = (sm, lms', db')"
  shows "sm_failed sm = 0 \<and> sm_scanned sm = length batch \<and>
    (\<forall>n. \<forall>x \<in> set batch. \<forall>y \<in> set (UnreportedSessions db' n). rs_session_id y \<noteq> rs_session_id x)"
proof -
  have "has_id ps_id (rs_session_id s) (db_sessions db)" if "s \<in> set batch" for s
    using in_UnreportedSessions [OF that [unfolded batch_def]] by (auto simp: has_id_def list_ex_iff reportable_row_def)
  then have all: "\<forall>s \<in> set batch. sendable r s \<and> has_id ps_id (rs_session_id s) (db_sessions db)"
    using assms(6) by blast
  have each: "report_each r now batch fs \<lparr>sm_scanned = length batch, sm_reported = 0, sm_duplicate = 0, sm_failed = 0\<rparr>
      lms db = (sm, lms', db')"
    using run by (simp add: RunOnce_def batch_def Let_def)
  have d: "sm_failed sm = 0" "rs_session_id ` set batch \<subseteq> keys pr_playback_session_id (db_reports db')"
    using report_each_drains [OF assms(2-5) all each] by auto
  have scanned: "sm_scanned sm' = sm_scanned sm0" if "report_each r now ss fs sm0 lms db = (sm', lms', db')"
    for ss fs sm0 sm' lms lms' and db db' :: tv_db
    using that by (induction r now ss fs sm0 lms db rule: report_each.induct)
      (auto split: prod.splits sum.splits if_splits)
  have "rs_session_id y \<noteq> rs_session_id x" if "x \<in> set batch" "y \<in> set (UnreportedSessions db' n)" for x y n
    using backlog_unexported [OF that(2)] that(1) d(2) by auto
  with d scanned run show ?thesis by (auto simp: RunOnce_def Let_def batch_def)
qed

theorem RunOnce_drains_batch_witness:
  "case RunOnce ex_reporter 0 [ex_fate] \<lparr>lm_students = [], lm_logs = []\<rparr> ex_export_db of
     (sm, l', db') \<Rightarrow> sm_failed sm = 0 \<and> sm_scanned sm = 1"
proof -
  let ?l = "\<lparr>lm_students = [], lm_logs = []\<rparr>"
  let ?X = "RunOnce ex_reporter 0 [ex_fate] ?l ex_export_db"
  let ?b = "UnreportedSessions ex_export_db (batchSize ex_reporter)"
  have ok: "logs_ok ?l" "re_ingest ex_reporter = Ingest" "clean_fates [ex_fate] ?l"
    by (simp_all add: logs_ok_def unique_key_def ex_reporter_def clean_fates_def ex_fate_def)
  have b: "length ?b = 1" "\<forall>s \<in> set ?b. sendable ex_reporter s" by code_simp+
  have x: "?X = (fst ?X, fst (snd ?X), snd (snd ?X))" by simp
  from RunOnce_drains_batch [OF ok _ b(2) x] b(1) show ?thesis by (simp add: case_prod_unfold)
qed

end
