(* ===== verification/TV_System.thy ===== *)
theory TV_System
  imports TV_Reporter
begin

text \<open>
  The TV server and the LMS's instruction log as one system: a step is one request of a
  device or of the administrator, one write of the library's metadata, or one reporting pass
  with whatever the environment does to it.  The invariants of the components hold in every
  reachable state, and what has been consumed or credited stays so.  The grid is checked when
  an entry is written, not when the runtime of an item on it changes; what is shown of the
  grid is shown as long as no such runtime changes.
\<close>

section \<open>The library\<close>

text \<open>
  The administrator's edits, the ingest and the synchronisation with Jellyfin all write media
  items by \<^verbatim>\<open>MediaItems.Create\<close> and \<^verbatim>\<open>MediaItems.Update\<close>.  The identifier and the
  Jellyfin identifier of an item are not writable.
\<close>

definition MediaItems_Create :: "MediaItem \<Rightarrow> tv_db \<Rightarrow> (repo_error, MediaItem, tv_db) effect" where
  "MediaItems_Create m db =
     (if \<not> int4_ok (mi_runtime_seconds m) then (Inl encode_error, db)
      else if has_id mi_id (mi_id m) (db_media db) \<or> has_id mi_jellyfin_item_id (mi_jellyfin_item_id m) (db_media db)
      then (Inl UniqueViolation, db)
      else (Inr m, db\<lparr>db_media := db_media db @ [m]\<rparr>))"

definition writable :: "(MediaItem \<Rightarrow> MediaItem) \<Rightarrow> bool" where
  "writable values \<longleftrightarrow> (\<forall>m. mi_id (values m) = mi_id m \<and> mi_jellyfin_item_id (values m) = mi_jellyfin_item_id m)"

definition MediaItems_Update :: "uuid \<Rightarrow> (MediaItem \<Rightarrow> MediaItem) \<Rightarrow> tv_db \<Rightarrow> (repo_error, MediaItem, tv_db) effect" where
  "MediaItems_Update i values db =
     (case List.find (\<lambda>m. mi_id m = i) (db_media db) of
        None \<Rightarrow> (Inl ErrNotFound, db)
      | Some m \<Rightarrow>
          if \<not> int4_ok (mi_runtime_seconds (values m)) then (Inl encode_error, db)
          else (Inr (values m), db\<lparr>db_media := update_where (\<lambda>m. mi_id m = i) values (db_media db)\<rparr>))"

section \<open>Steps\<close>

type_synonym tv_state = "tv_db \<times> lms_logs"

inductive tv_step :: "tv_state \<Rightarrow> tv_state \<Rightarrow> bool" where
  pair: "pairDevice hash token code now db = (r, db') \<Longrightarrow> tv_step (db, l) (db', l)"
| authenticate: "requireDevice hash header now db = (r, db') \<Longrightarrow> tv_step (db, l) (db', l)"
| grant: "createGrant s ctx i m mode now db = (r, db') \<Longrightarrow> tv_step (db, l) (db', l)"
| heartbeat: "heartbeatGrant ctx si li gi p w now db = (r, db') \<Longrightarrow> tv_step (db, l) (db', l)"
| complete: "completeGrant ctx si li gi p w c now db = (r, db') \<Longrightarrow> tv_step (db, l) (db', l)"
| place: "createScheduleEntry s i body db = (r, db') \<Longrightarrow> tv_step (db, l) (db', l)"
| move: "updateScheduleEntry s i body' db = (r, db') \<Longrightarrow> tv_step (db, l) (db', l)"
| remove: "ScheduleEntries_Delete i db = (r, db') \<Longrightarrow> tv_step (db, l) (db', l)"
| copy: "copyScheduleWeek s gen f t rep now db = (r, db') \<Longrightarrow> tv_step (db, l) (db', l)"
| rotation: "rotate_availability gen req now db = (r, db') \<Longrightarrow> tv_step (db, l) (db', l)"
| add_item: "MediaItems_Create m db = (r, db') \<Longrightarrow> tv_step (db, l) (db', l)"
| edit_item: "writable values \<Longrightarrow> MediaItems_Update i values db = (r, db') \<Longrightarrow> tv_step (db, l) (db', l)"
| report: "re_ingest rep = Ingest \<Longrightarrow> RunOnce rep now fs l db = (sm, l', db') \<Longrightarrow> tv_step (db, l) (db', l')"

definition tv_init :: "tv_state \<Rightarrow> bool" where
  "tv_init st = (case st of (db, l) \<Rightarrow> grid_inv db \<and> db_reports db = [] \<and> lm_logs l = [])"

definition tv_inv :: "tv_state \<Rightarrow> bool" where
  "tv_inv st = (case st of (db, l) \<Rightarrow> logs_ok l \<and> ledger_backed (held l) db)"



definition no_logs :: lms_logs where
  "no_logs = \<lparr>lm_students = [], lm_logs = []\<rparr>"

section \<open>What no operation takes away\<close>

definition tv_frame :: "tv_db \<Rightarrow> tv_db \<Rightarrow> bool" where
  "tv_frame db db' \<longleftrightarrow> db_reports db' = db_reports db \<and> set (db_ledger db) \<subseteq> set (db_ledger db') \<and>
     (\<forall>i. has_id ps_id i (db_sessions db) \<longrightarrow> has_id ps_id i (db_sessions db'))"

lemma tv_frame_refl [simp]: "tv_frame db db"
  by (simp add: tv_frame_def)

lemma tv_frame_trans: "tv_frame a b \<Longrightarrow> tv_frame b c \<Longrightarrow> tv_frame a c"
  by (auto simp: tv_frame_def)

lemma tv_frame_same:
  "db_reports db' = db_reports db \<Longrightarrow> db_ledger db' = db_ledger db \<Longrightarrow> db_sessions db' = db_sessions db \<Longrightarrow> tv_frame db db'"
  by (simp add: tv_frame_def)

lemma frame_devices:
  "pairDevice hash token code now db = (r, db') \<Longrightarrow> tv_frame db db'"
  "requireDevice hash header now db = (r2, db') \<Longrightarrow> tv_frame db db'"
  by (auto simp: pairDevice_def ClaimPairingCode_def requireDevice_def TouchDevice_def Let_def
      split: prod.splits sum.splits list.splits if_splits intro!: tv_frame_same)

lemma frame_PlayGrants_Create: "PlayGrants_Create g db = (r, db') \<Longrightarrow> tv_frame db db'"
  by (auto simp: PlayGrants_Create_def split: if_splits intro!: tv_frame_same)

lemma frame_createGrant: "createGrant s ctx i m mode now db = (r, db') \<Longrightarrow> tv_frame db db'"
  by (auto simp: createGrant_def programmedGrant_alt Let_def
      split: prod.splits sum.splits option.splits if_splits dest: frame_PlayGrants_Create)

lemma frame_activeGrant: "activeGrant i d now db = (r, db') \<Longrightarrow> tv_frame db db'"
  by (auto simp: activeGrant_def RedeemGrant_def split: prod.splits sum.splits option.splits if_splits
      intro!: tv_frame_same)

lemma frame_upsert_session:
  assumes "upsert_session row upd db = (r, db')" "\<And>s. ps_id (upd s) = ps_id s"
  shows "tv_frame db db'"
  using assms by (auto simp: upsert_session_def tv_frame_def split: if_splits option.splits)

lemma frame_reports:
  "RecordHeartbeat i g p w now db = (r, db') \<Longrightarrow> tv_frame db db'"
  "CompleteSession i g p w c now db = (r, db') \<Longrightarrow> tv_frame db db'"
  unfolding RecordHeartbeat_def CompleteSession_def by (erule frame_upsert_session; simp)+

lemma frame_consume: "consumeIfEarned i g ses now db = (r, db') \<Longrightarrow> tv_frame db db'"
proof -
  have "tv_frame db db1" if "ConsumePlay i m w d now db = (x, db1)" for m w d x db1
    using that by (cases rule: ConsumePlay_cases) (auto simp: tv_frame_def)
  then show "consumeIfEarned i g ses now db = (r, db') \<Longrightarrow> tv_frame db db'"
    by (auto simp: consumeIfEarned_def split: option.splits sum.splits if_splits prod.splits)
qed

lemma frame_playback:
  "heartbeatGrant ctx si li gi p w now db = (r, db') \<Longrightarrow> tv_frame db db'"
  "completeGrant ctx si li gi p w c now db = (r, db') \<Longrightarrow> tv_frame db db'"
  by (auto simp: heartbeatGrant_def completeGrant_def split: sum.splits prod.splits)
    (metis frame_activeGrant frame_reports frame_consume tv_frame_trans)+

lemma frame_schedule:
  "CreateScheduleEntry i m a j b db = (r, db') \<Longrightarrow> tv_frame db db'"
  "UpdateScheduleEntry i m a j b db = (r, db') \<Longrightarrow> tv_frame db db'"
  "ScheduleEntries_Delete i db = (x, db') \<Longrightarrow> tv_frame db db'"
  by (auto simp: CreateScheduleEntry_def UpdateScheduleEntry_def ScheduleEntries_Delete_def Let_def
      split: option.splits if_splits intro!: tv_frame_same)

lemma frame_schedule_admin:
  "createScheduleEntry s i body db = (r, db') \<Longrightarrow> tv_frame db db'"
  "updateScheduleEntry s i body' db = (r, db') \<Longrightarrow> tv_frame db db'"
  by (auto simp: createScheduleEntry_def updateScheduleEntry_def Let_def
      split: sum.splits if_splits prod.splits dest: frame_schedule)

lemma frame_delete_entries: "delete_entries al n db = (x, db') \<Longrightarrow> tv_frame db db'"
  by (induction al n db rule: delete_entries.induct)
    (auto split: prod.splits sum.splits dest: frame_schedule(3) intro: tv_frame_trans)

lemma frame_copy_entries: "copy_entries loc fr sh gen al out db = (y, db') \<Longrightarrow> tv_frame db db'"
  by (induction loc fr sh gen al out db rule: copy_entries.induct)
    (auto simp: Let_def split: prod.splits sum.splits if_splits dest: frame_schedule(1) intro: tv_frame_trans)

lemma frame_copyScheduleWeek: "copyScheduleWeek s gen f t rep now db = (r, db') \<Longrightarrow> tv_frame db db'"
  by (auto simp: copyScheduleWeek_def Let_def split: prod.splits sum.splits if_splits
      dest: frame_delete_entries frame_copy_entries intro: tv_frame_trans)

lemma frame_rotation: "rotate_availability gen req now db = (r, db') \<Longrightarrow> tv_frame db db'"
  by (auto simp: rotate_availability_def ExpireOpenWindows_def OpenWindowsFor_def Let_def
      split: prod.splits sum.splits if_splits intro!: tv_frame_same)

lemma frame_media:
  "MediaItems_Create m db = (r, db') \<Longrightarrow> tv_frame db db'" "MediaItems_Update i values db = (r, db') \<Longrightarrow> tv_frame db db'"
  by (auto simp: MediaItems_Create_def MediaItems_Update_def split: if_splits option.splits intro!: tv_frame_same)

lemma grid_inv_reports: "grid_inv (db\<lparr>db_reports := rs\<rparr>) = grid_inv db"
  by (simp add: grid_inv_def tv_wf_def ledger_ok_def grants_ok_def grant_refs_def sessions_ok_def session_refs_def
      no_overlap_def airings_def)

lemma frame_report_each:
  "report_each rep now ss fs sm l db = (sm', l', db') \<Longrightarrow>
   db_ledger db' = db_ledger db \<and> (grid_inv db \<longrightarrow> grid_inv db')"
proof (induction ss arbitrary: fs sm l db)
  case (Cons s ss)
  have rec: "db_ledger db1 = db_ledger db \<and> (grid_inv db \<longrightarrow> grid_inv db1)"
    if "RecordPrimerReport i sid ref now db = (x, db1)" for i sid ref x db1
    using that
  proof (cases rule: RecordPrimerReport_cases)
    case (3 y)
    then show ?thesis
      by (simp add: grid_inv_reports)
  qed auto
  show ?case
  proof (cases fs)
    case (Cons f fs')
    with Cons.prems Cons.IH rec show ?thesis
      by (fastforce split: prod.splits sum.splits if_splits)
  qed (use Cons.prems in auto)
qed auto

lemma ledger_backed_frame: "tv_frame db db' \<Longrightarrow> ledger_backed R db \<Longrightarrow> ledger_backed R db'"
  by (auto simp: tv_frame_def ledger_backed_def report_inv_def)

section \<open>Invariants of every reachable state\<close>

lemma tv_step_ledger: "tv_step (db, l) (db', l') \<Longrightarrow> set (db_ledger db) \<subseteq> set (db_ledger db')"
proof (induction "(db, l)" "(db', l')" rule: tv_step.induct)
  case (report rep now fs sm)
  then show ?case by (auto simp: RunOnce_def Let_def dest!: frame_report_each)
qed (auto dest!: frame_devices frame_createGrant frame_playback frame_schedule_admin frame_schedule(3)
      frame_copyScheduleWeek frame_rotation frame_media simp: tv_frame_def)

lemma tv_inv_op: "tv_inv (db, l) \<Longrightarrow> tv_frame db db' \<Longrightarrow> tv_inv (db', l)"
  by (auto simp: tv_inv_def intro: ledger_backed_frame)

lemma tv_step_inv: "tv_step st st' \<Longrightarrow> tv_inv st \<Longrightarrow> tv_inv st'"
proof (induction rule: tv_step.induct)
  case (report rep now fs l db sm l' db')
  then have inv: "logs_ok l" "ledger_backed (held l) db" by (simp_all add: tv_inv_def)
  then show ?case using lms.RunOnce_keeps [OF inv report(1,2)] by (simp add: tv_inv_def)
qed (blast intro: tv_inv_op frame_devices frame_createGrant frame_playback frame_schedule_admin frame_schedule(3)
      frame_copyScheduleWeek frame_rotation frame_media)+

interpretation tv: invariant_system tv_init tv_step tv_inv
proof
  fix st
  assume "tv_init st"
  then show "tv_inv st"
    by (auto simp: tv_init_def tv_inv_def logs_ok_def ledger_backed_def report_inv_def unique_key_def)
qed (rule tv_step_inv)

section \<open>The grid\<close>










text \<open>
  C1.  Instructional hours are credited once.  In every reachable state, whatever requests and
  answers were lost and whichever ledger writes failed, the LMS holds at most one log for a
  viewing, every viewing in the export ledger has exactly one, and no log is for
  entertainment.
\<close>

theorem hours_credited_once:
  assumes "reachable tv_init tv_step (db, l)"
  shows "(\<forall>ref. ref \<noteq> [] \<longrightarrow> length (filter (\<lambda>x. source_key x = (SourceTV, ref)) (lm_logs l)) \<le> 1) \<and>
    (\<forall>x \<in> set (db_reports db). pr_playback_session_id x \<noteq> [] \<longrightarrow>
       length (filter (\<lambda>y. source_key y = (SourceTV, pr_playback_session_id x)) (lm_logs l)) = 1) \<and>
    (\<forall>x \<in> set (lm_logs l). il_class x \<in> {ClassEducational, ClassMixed})"
proof -
  have inv: "logs_ok l" "ledger_backed (held l) db" using tv.inv_reachable [OF assms] by (simp_all add: tv_inv_def)
  have one: "length (filter (\<lambda>x. source_key x = (SourceTV, ref)) (lm_logs l)) = 1"
    if "ref \<noteq> []" "(SourceTV, ref) \<in> held l" for ref
    using filter_source_unique [OF inv(1) that] by auto
  have none: "filter (\<lambda>x. source_key x = (SourceTV, ref)) (lm_logs l) = []"
    if "ref \<noteq> []" "(SourceTV, ref) \<notin> held l" for ref
    using that by (auto simp: filter_empty_conv held_def image_iff) metis
  have "length (filter (\<lambda>x. source_key x = (SourceTV, ref)) (lm_logs l)) \<le> 1" if "ref \<noteq> []" for ref
    using one [OF that] none [OF that] by (cases "(SourceTV, ref) \<in> held l") simp_all
  moreover have "\<forall>x \<in> set (lm_logs l). il_class x \<in> {ClassEducational, ClassMixed}"
    using inv(1) by (auto simp: logs_ok_def ClassEducational_def ClassMixed_def)
  ultimately show ?thesis using one inv(2) by (auto simp: ledger_backed_def)
qed

theorem hours_credited_once_witness:
  "case RunOnce ex_reporter 0 [ex_fate] no_logs ex_export_db of (sm, l', db') \<Rightarrow>
     sm_reported sm = 1 \<and> length (filter (\<lambda>x. source_key x = (SourceTV, ''s9'')) (lm_logs l')) \<le> 1"
proof -
  let ?X = "RunOnce ex_reporter 0 [ex_fate] no_logs ex_export_db"
  have i: "grid_inv ex_export_db" "db_reports ex_export_db = []" "sm_reported (fst ?X) = 1" by code_simp+
  then have "tv_init (ex_export_db, no_logs)" by (simp add: tv_init_def no_logs_def)
  then have "reachable tv_init tv_step (ex_export_db, no_logs)" by (rule reachable.start)
  moreover have "tv_step (ex_export_db, no_logs) (snd (snd ?X), fst (snd ?X))"
    by (rule tv_step.report [of ex_reporter 0 "[ex_fate]" _ _ "fst ?X"]) (simp_all add: ex_reporter_def)
  ultimately have "reachable tv_init tv_step (snd (snd ?X), fst (snd ?X))" by (rule reachable.next_state)
  from hours_credited_once [OF this] i show ?thesis by (simp add: case_prod_unfold)
qed

lemma tv_steps_ledger: "tv_step\<^sup>*\<^sup>* st st' \<Longrightarrow> set (db_ledger (fst st)) \<subseteq> set (db_ledger (fst st'))"
  by (induction rule: rtranclp_induct) (use tv_step_ledger in \<open>force simp: split_paired_all\<close>)+

text \<open>
  C3.  A spent play is never offered again: once the watch-once ledger holds an item and a
  window, no sequence of requests, rotations and reporting passes leads to a state whose
  catalog lists that item on that window.
\<close>

theorem spent_play_never_offered:
  assumes "(m, w) \<in> keys ledger_key (db_ledger db)" "tv_step\<^sup>*\<^sup>* (db, l) (db', l')"
  shows "\<forall>t. \<forall>e \<in> set (Catalog db' t). (mi_id (ce_media_item e), ce_availability_window_id e) \<noteq> (m, w)"
proof -
  have "(m, w) \<in> keys ledger_key (db_ledger db')"
    using assms(1) tv_steps_ledger [OF assms(2)] by (auto simp: keys_def)
  then show ?thesis using Catalog_skips_consumed(1) by blast
qed

theorem spent_play_never_offered_witness:
  "list_all (\<lambda>e. (mi_id (ce_media_item e), ce_availability_window_id e) \<noteq> (''m2'', ''w1''))
     (Catalog (snd (rotate_availability ex_gen (ex_rotation [''m2'']) 100 ex_spent_db)) 200)"
proof -
  let ?X = "rotate_availability ex_gen (ex_rotation [''m2'']) 100 ex_spent_db"
  have k: "(''m2'', ''w1'') \<in> keys ledger_key (db_ledger ex_spent_db)" by code_simp
  have "tv_step (ex_spent_db, no_logs) (snd ?X, no_logs)"
    by (rule tv_step.rotation [of _ _ _ _ "fst ?X"]) simp
  then have "tv_step\<^sup>*\<^sup>* (ex_spent_db, no_logs) (snd ?X, no_logs)" by blast
  from spent_play_never_offered [OF k this] show ?thesis unfolding list_all_iff by blast
qed

end
