(* ===== verification/Contracts.thy ===== *)
theory Contracts
  imports Prelude
begin

text \<open>
  The documents the student workstation and the server exchange
  (\<^verbatim>\<open>studentclient/contracts\<close>: \<^verbatim>\<open>activity.go\<close>, \<^verbatim>\<open>kinds.go\<close>, \<^verbatim>\<open>stages.go\<close>, \<^verbatim>\<open>events.go\<close>,
  \<^verbatim>\<open>path.go\<close>): activity revisions with their checks, tasks and completion trees, the stages at
  which a check is expected to hold, the decision whether a runner without structured command
  evidence may open a revision, observations and completions, and the confinement of
  curriculum paths to the workspace.

  A value of type \<^verbatim>\<open>any\<close> is a value decoded from YAML or JSON; a \<^verbatim>\<open>map[string]any\<close> is an
  association list, whose order stands for the order in which Go happens to range over it (a
  nil map reads as an empty one everywhere).  An error of a validation is the fixed text of its
  message; the position and the offending value that \<^verbatim>\<open>fmt\<close> prints into it are left out.
\<close>

section \<open>Vocabulary\<close>

definition SchemaVersion :: string where "SchemaVersion = ''1''"

definition StageFixture :: string where "StageFixture = ''fixture''"
definition StageTask :: string where "StageTask = ''task''"
definition StageFinal :: string where "StageFinal = ''final''"

definition InvariantAtFixture :: string where "InvariantAtFixture = ''fixture''"
definition InvariantAtAfterTask :: string where "InvariantAtAfterTask = ''after_task''"
definition InvariantAtFinal :: string where "InvariantAtFinal = ''final''"

definition KindTerminal :: string where "KindTerminal = ''terminal''"
definition KindTyping :: string where "KindTyping = ''typing''"

definition StandardRolePrimary :: string where "StandardRolePrimary = ''primary''"
definition StandardRoleReinforcement :: string where "StandardRoleReinforcement = ''reinforcement''"

definition FixtureFile :: string where "FixtureFile = ''file''"
definition FixtureDirectory :: string where "FixtureDirectory = ''directory''"

definition CheckFileExists :: string where "CheckFileExists = ''file_exists''"
definition CheckFileNotExists :: string where "CheckFileNotExists = ''file_not_exists''"
definition CheckContentEquals :: string where "CheckContentEquals = ''content_equals''"
definition CheckContentContains :: string where "CheckContentContains = ''content_contains''"
definition CheckContentMatch :: string where "CheckContentMatch = ''content_match''"
definition CheckPathType :: string where "CheckPathType = ''path_type''"
definition CheckPathMode :: string where "CheckPathMode = ''path_mode''"
definition CheckCwd :: string where "CheckCwd = ''cwd''"
definition CheckCommandProperties :: string where "CheckCommandProperties = ''command_properties''"
definition CheckPipelineOutput :: string where "CheckPipelineOutput = ''pipeline_output''"
definition CheckTypingMetrics :: string where "CheckTypingMetrics = ''typing_metrics''"
definition CheckResponseSubmitted :: string where "CheckResponseSubmitted = ''response_submitted''"

definition PathTypeFile :: string where "PathTypeFile = ''file''"
definition PathTypeDirectory :: string where "PathTypeDirectory = ''directory''"
definition PathTypeSymlink :: string where "PathTypeSymlink = ''symlink''"

definition RuntimeCoreutilsBasic :: string where "RuntimeCoreutilsBasic = ''coreutils-basic''"
definition RuntimeTextProcessing :: string where "RuntimeTextProcessing = ''text-processing''"

definition DefaultResponseMaxChars :: int where "DefaultResponseMaxChars = 2000"
definition MaxResponseMaxChars :: int where "MaxResponseMaxChars = 8000"
definition MaxInstructionBlockText :: nat where "MaxInstructionBlockText = 8000"
definition MaxResourceBytes :: int where "MaxResourceBytes = 256 * 1024"

definition ObservationSchemaVersion :: string where "ObservationSchemaVersion = ''1''"
definition EventSchemaVersion :: string where "EventSchemaVersion = ''1''"
definition CompletionSchemaVersion :: string where "CompletionSchemaVersion = ''1''"

definition EvidenceProceduralContinuous :: string where
  "EvidenceProceduralContinuous = ''procedural_continuous''"
definition EvidenceConceptualResponse :: string where
  "EvidenceConceptualResponse = ''conceptual_response''"
definition EvidenceParentAttestation :: string where
  "EvidenceParentAttestation = ''parent_attestation''"
definition EvidenceFormalAssessment :: string where
  "EvidenceFormalAssessment = ''formal_assessment''"

definition CapStructuredCommandEvidence :: string where
  "CapStructuredCommandEvidence = ''structured_command_evidence''"

definition BlockProse :: string where "BlockProse = ''prose''"
definition BlockVocabulary :: string where "BlockVocabulary = ''vocabulary''"
definition BlockExample :: string where "BlockExample = ''example''"
definition BlockWarning :: string where "BlockWarning = ''warning''"
definition BlockQuestion :: string where "BlockQuestion = ''question''"
definition BlockPractice :: string where "BlockPractice = ''practice''"
definition BlockParentNote :: string where "BlockParentNote = ''parent_note''"
definition BlockResource :: string where "BlockResource = ''resource''"

definition TaskKindAction :: string where "TaskKindAction = ''action''"
definition TaskKindShortResponse :: string where "TaskKindShortResponse = ''short_response''"

section \<open>Activity documents\<close>

datatype any =
    AnyNil
  | AnyBool bool
  | AnyInt int
  | AnyFloat rat
  | AnyString string
  | AnyList "any list"
  | AnyMap "(string \<times> any) list"

type_synonym params = "(string \<times> any) list"

record EvidencePolicy =
  ep_version :: int
  ep_status_requirements :: "(string \<times> string list) list"

record StandardRef =
  sr_code :: string
  sr_role :: string
  sr_weight :: rat
  sr_evidence_policy :: "EvidencePolicy option"

definition DefaultTerminalEvidencePolicy :: EvidencePolicy where
  "DefaultTerminalEvidencePolicy = \<lparr>ep_version = 1, ep_status_requirements =
     [(''in_progress'', [''procedural_continuous'']),
      (''approaching'', [''procedural_continuous'', ''conceptual_response'']),
      (''mastered'', [''procedural_continuous'', ''conceptual_response'', ''formal_assessment''])]\<rparr>"

definition DefaultTypingEvidencePolicy :: EvidencePolicy where
  "DefaultTypingEvidencePolicy = \<lparr>ep_version = 1, ep_status_requirements =
     [(''in_progress'', [''procedural_continuous'']),
      (''approaching'', [''procedural_continuous'']),
      (''mastered'', [''procedural_continuous''])]\<rparr>"

record VocabularyTerm =
  vt_term :: string
  vt_definition :: string

record ResourceRef =
  rr_sha256 :: string
  rr_media_type :: string
  rr_label :: string
  rr_byte_size :: int

record InstructionBlock =
  ib_id :: string
  ib_kind :: string
  ib_title :: string
  ib_text :: string
  ib_terms :: "VocabularyTerm list"
  ib_input :: string
  ib_output :: string
  ib_explanation :: string
  ib_resource :: "ResourceRef option"

record FixtureEntry =
  fx_path :: string
  fx_type :: string
  fx_content :: string
  fx_mode :: string

record TerminalContent =
  tc_runtime_profile :: string
  tc_fixtures :: "FixtureEntry list"
  tc_initial_cwd :: string
  tc_shell :: string

record TypingPrompt =
  tp_id :: string
  tp_text :: string
  tp_category :: string

record TypingContent =
  ty_prompt_set_id :: string
  ty_prompts :: "TypingPrompt list"
  ty_ordering :: string
  ty_time_limit_sec :: int
  ty_success_wpm :: rat
  ty_success_accuracy :: rat

record RubricCriterion =
  rc_id :: string
  rc_description :: string
  rc_required :: bool

record ResponseTaskSpec =
  rs_prompt :: string
  rs_max_chars :: int
  rs_rubric :: "RubricCriterion list"
  rs_parent_review_required :: bool

datatype CheckTree = CheckTree
  (ct_all: "CheckTree list") (ct_any: "CheckTree list") (ct_check_id: string) (ct_optional: bool)

record Task =
  tk_id :: string
  tk_title :: string
  tk_instructions :: string
  tk_kind :: string
  tk_prerequisites :: "string list"
  tk_completion :: CheckTree
  tk_hint_ids :: "string list"
  tk_optional :: bool
  tk_response :: "ResponseTaskSpec option"

record Check =
  ck_id :: string
  ck_kind :: string
  ck_optional :: bool
  ck_params :: params
  ck_stages :: "string list"
  ck_evidence_bearing :: "bool option"
  ck_invariant_at :: "string list"

record Hint =
  hi_id :: string
  hi_level :: int
  hi_text :: string

record TutorContext =
  tx_misconceptions :: "string list"
  tx_constraints :: "string list"
  tx_goal_summary :: string

record ProgressionPolicy =
  pp_allow_reset :: bool
  pp_max_attempts :: int
  pp_resume_from_task :: bool
  pp_require_in_order :: bool

record ArtifactPolicy =
  ap_enabled :: bool
  ap_max_files :: int
  ap_max_bytes_each :: int
  ap_max_bytes_total :: int
  ap_allowed_types :: "string list"
  ap_retain_days :: int

record ActivityContent =
  ac_objective :: string
  ac_instructions :: string
  ac_blocks :: "InstructionBlock list"
  ac_terminal :: "TerminalContent option"
  ac_typing :: "TypingContent option"
  ac_tasks :: "Task list"
  ac_checks :: "Check list"
  ac_hints :: "Hint list"
  ac_tutor :: "TutorContext option"
  ac_progression :: "ProgressionPolicy option"
  ac_artifacts :: "ArtifactPolicy option"

record ReferenceStep =
  rf_work_dir :: string
  rf_argv :: "string list"
  rf_stdin :: string

record ReferenceSolution =
  rl_description :: string
  rl_deterministic :: bool
  rl_steps :: "ReferenceStep list"

record ActivityDocument =
  ad_schema_version :: string
  ad_slug :: string
  ad_title :: string
  ad_summary :: string
  ad_kind :: string
  ad_subject_code :: string
  ad_standards :: "StandardRef list"
  ad_content :: ActivityContent
  ad_min_runner :: string
  ad_metadata :: "(string \<times> string) list"
  ad_reference_solution :: "ReferenceSolution option"

section \<open>Observations and completions\<close>

record Observation =
  ob_schema_version :: string
  ob_check_id :: string
  ob_kind :: string
  ob_passed :: bool
  ob_optional :: bool
  ob_message :: string
  ob_observed_at :: time
  ob_details :: params

record SessionEvent =
  sv_schema_version :: string
  sv_event_id :: string
  sv_type :: string
  sv_sequence :: int
  sv_client_time :: time
  sv_payload :: params

record CompletionRequest =
  cq_schema_version :: string
  cq_completion_id :: string
  cq_request_digest :: string
  cq_observations :: "Observation list"
  cq_artifact_ids :: "string list"
  cq_artifact_digests :: "(string \<times> string) list"
  cq_client_time :: time
  cq_summary :: string

record AssignmentCompletion =
  an_assignment_id :: uuid
  an_session_id :: uuid
  an_state :: string
  an_summary :: string

record MasteryTransition =
  mt_standard_code :: string
  mt_from_status :: string
  mt_to_status :: string
  mt_confidence :: rat
  mt_reason :: string
  mt_evidence_class :: string
  mt_accepted_evidence :: "string list"
  mt_missing_evidence :: "string list"
  mt_policy_satisfied :: bool
  mt_status_changed :: bool

record CompletionResult =
  cr_schema_version :: string
  cr_completion_id :: string
  cr_accepted :: bool
  cr_request_digest :: string
  cr_observations :: "Observation list"
  cr_evidence_ids :: "uuid list"
  cr_mastery_snapshot :: "MasteryTransition list"
  cr_assignment_completion :: "AssignmentCompletion option"
  cr_mastery_transitions :: "MasteryTransition list"
  cr_message :: string

section \<open>Stages\<close>

definition EffectiveStages :: "Check \<Rightarrow> string list" where
  "EffectiveStages ch = (if ck_stages ch \<noteq> [] then ck_stages ch else [StageFinal])"

definition HasStage :: "Check \<Rightarrow> string \<Rightarrow> bool" where
  "HasStage ch stage = list_ex (\<lambda>s. s = stage) (EffectiveStages ch)"

definition IsEvidenceBearing :: "Check \<Rightarrow> bool" where
  "IsEvidenceBearing ch = (case ck_evidence_bearing ch of None \<Rightarrow> True | Some b \<Rightarrow> b)"

definition IsInvariant :: "Check \<Rightarrow> bool" where
  "IsInvariant ch = (ck_invariant_at ch \<noteq> [])"

definition HasInvariantAt :: "Check \<Rightarrow> string \<Rightarrow> bool" where
  "HasInvariantAt ch boundary = list_ex (\<lambda>b. b = boundary) (ck_invariant_at ch)"

definition ChecksForStage :: "Check list \<Rightarrow> string \<Rightarrow> Check list" where
  "ChecksForStage checks stage = filter (\<lambda>ch. HasStage ch stage) checks"

definition InvariantsAt :: "Check list \<Rightarrow> string \<Rightarrow> Check list" where
  "InvariantsAt checks boundary = filter (\<lambda>ch. HasInvariantAt ch boundary) checks"

definition bump :: "string \<Rightarrow> (string \<Rightarrow> int option) \<Rightarrow> string \<Rightarrow> int option" where
  "bump k m = m(k := Some (case m k of None \<Rightarrow> 1 | Some n \<Rightarrow> n + 1))"

definition StageCounts :: "Check list \<Rightarrow> string \<Rightarrow> int option" where
  "StageCounts checks = fold
     (\<lambda>ch m. fold (\<lambda>b. bump (''invariant:'' @ b)) (ck_invariant_at ch) (fold bump (EffectiveStages ch) m))
     checks
     (map_of [(StageFixture, 0), (StageTask, 0), (StageFinal, 0),
              (''invariant:'' @ InvariantAtFixture, 0), (''invariant:'' @ InvariantAtAfterTask, 0),
              (''invariant:'' @ InvariantAtFinal, 0)])"

definition isFilesystemCheckKind :: "string \<Rightarrow> bool" where
  "isFilesystemCheckKind kind \<longleftrightarrow> kind \<in> set [CheckFileExists, CheckFileNotExists, CheckContentEquals,
     CheckContentContains, CheckContentMatch, CheckPathType, CheckPathMode]"

definition add_materialize :: "Check \<Rightarrow> Check list \<Rightarrow> Check list" where
  "add_materialize ch out =
     (if list_ex (\<lambda>c. ck_id c = ck_id ch) out then out
      else if \<not> isFilesystemCheckKind (ck_kind ch) then out
      else out @ [ch])"

definition MaterializeChecks :: "Check list \<Rightarrow> Check list" where
  "MaterializeChecks checks =
     fold add_materialize (InvariantsAt checks InvariantAtFixture)
       (fold add_materialize (ChecksForStage checks StageFixture) [])"

section \<open>Structured command evidence\<close>

definition RequiresStructuredCommandEvidence :: "string \<Rightarrow> bool" where
  "RequiresStructuredCommandEvidence kind \<longleftrightarrow> kind = CheckCommandProperties \<or> kind = CheckPipelineOutput"

definition check_by_id :: "Check list \<Rightarrow> string \<Rightarrow> Check option" where
  "check_by_id checks i = List.find (\<lambda>c. ck_id c = i) (rev checks)"

fun treeRequiresStructuredCommand :: "CheckTree \<Rightarrow> (string \<Rightarrow> Check option) \<Rightarrow> bool" where
  "treeRequiresStructuredCommand (CheckTree all any cid opt) byID =
     (if opt then False
      else if cid \<noteq> [] then
        (case byID cid of
           None \<Rightarrow> True
         | Some c \<Rightarrow> if ck_optional c then False else RequiresStructuredCommandEvidence (ck_kind c))
      else if all \<noteq> [] then list_ex (\<lambda>c. treeRequiresStructuredCommand c byID) all
      else if any \<noteq> [] then list_all (\<lambda>c. treeRequiresStructuredCommand c byID) any
      else False)"

definition RevisionRequiresStructuredCommand :: "ActivityContent \<Rightarrow> bool" where
  "RevisionRequiresStructuredCommand content =
     (let byID = check_by_id (ac_checks content) in
      if ac_tasks content = [] then
        (let required = filter (\<lambda>c. \<not> ck_optional c) (ac_checks content)
         in if list_ex (\<lambda>c. \<not> RequiresStructuredCommandEvidence (ck_kind c)) required then False
            else required \<noteq> [])
      else list_ex (\<lambda>t. \<not> tk_optional t \<and> treeRequiresStructuredCommand (tk_completion t) byID)
             (ac_tasks content))"

definition RejectIncompatibleRevision :: "ActivityContent \<Rightarrow> string list \<Rightarrow> string option" where
  "RejectIncompatibleRevision content capabilities =
     (if CapStructuredCommandEvidence \<in> set capabilities then None
      else if \<not> RevisionRequiresStructuredCommand content then None
      else Some ''runner lacks structured_command_evidence required by this activity revision'')"

end
