(* ===== verification/Contracts_Path.thy ===== *)
theory Contracts_Path
  imports Prelude
begin

text \<open>
  Curriculum paths (\<^verbatim>\<open>studentclient/contracts/path.go\<close>) and the functions of Go's \<^verbatim>\<open>path\<close>
  package they use.  The lemmas reduce \<^verbatim>\<open>path.Clean\<close> on a path without \<^verbatim>\<open>..\<close> to dropping its
  empty and \<^verbatim>\<open>.\<close> segments, from which the exact set of accepted paths and their confinement
  to the workspace root follow.
\<close>

section \<open>Splitting and cleaning\<close>

fun split_char :: "char \<Rightarrow> string \<Rightarrow> string list" where
  "split_char c [] = [[]]"
| "split_char c (x # xs) =
     (if x = c then [] # split_char c xs
      else case split_char c xs of [] \<Rightarrow> [[x]] | s # ss \<Rightarrow> (x # s) # ss)"

definition slash :: char where "slash = CHR ''/''"

definition clean_push :: "bool \<Rightarrow> string \<Rightarrow> string list \<Rightarrow> string list" where
  "clean_push rooted seg st =
     (if seg = [] \<or> seg = ''.'' then st
      else if seg = ''..'' then
        (case st of
           [] \<Rightarrow> if rooted then st else [seg]
         | t # rest \<Rightarrow> if t \<noteq> ''..'' then rest else seg # st)
      else seg # st)"

definition path_Clean :: "string \<Rightarrow> string" where
  "path_Clean p =
     (if p = [] then ''.''
      else let rooted = has_prefix p ''/'';
               out = join ''/'' (rev (fold (clean_push rooted) (split_char slash p) []))
           in if rooted then ''/'' @ out else if out = [] then ''.'' else out)"

definition path_Join :: "string \<Rightarrow> string \<Rightarrow> string" where
  "path_Join a b =
     (let parts = filter (\<lambda>s. s \<noteq> []) [a, b]
      in if parts = [] then [] else path_Clean (join ''/'' parts))"

section \<open>Workspace-relative paths\<close>

datatype path_error = ErrUnsafePath string string | OtherPathError string

definition contains_any :: "string \<Rightarrow> string \<Rightarrow> bool" where
  "contains_any s chars = list_ex (\<lambda>c. c \<in> set chars) s"

definition SafeRelPath :: "string \<Rightarrow> path_error + string" where
  "SafeRelPath p =
     (if p = [] then Inl (ErrUnsafePath p ''path is empty'')
      else if contains_any p [CHR 0x00] then Inl (ErrUnsafePath p ''path contains NUL'')
      else if contains_any p [CHR '':'', CHR 0x5C] then Inl (ErrUnsafePath p ''path contains illegal characters'')
      else if has_prefix p ''~'' then Inl (ErrUnsafePath p ''path must not start with tilde'')
      else if has_prefix p ''/'' then Inl (ErrUnsafePath p ''path must be relative (no leading slash)'')
      else if list_ex (\<lambda>seg. seg = ''..'') (split_char slash p)
        then Inl (ErrUnsafePath p ''path escapes workspace'')
      else let cleaned = path_Clean p in
        if cleaned = ''.'' \<or> cleaned = ''..'' \<or> has_prefix cleaned ''../''
          then Inl (ErrUnsafePath p ''path resolves outside workspace'')
        else if has_prefix cleaned ''/'' then Inl (ErrUnsafePath p ''path must be relative'')
        else if cleaned = [] then Inl (ErrUnsafePath p ''path is empty after clean'')
        else if list_ex (\<lambda>seg. seg = ''..'' \<or> seg = []) (split_char slash cleaned)
          then Inl (ErrUnsafePath p ''path escapes workspace'')
        else Inr cleaned)"

definition JoinUnder :: "string \<Rightarrow> string \<Rightarrow> path_error + string" where
  "JoinUnder base rel =
     (case SafeRelPath rel of
        Inl e \<Rightarrow> Inl e
      | Inr safe \<Rightarrow>
          if base = [] \<or> \<not> has_prefix base ''/''
          then Inl (OtherPathError ''workspace root must be an absolute path'')
          else let rootClean = path_Clean base;
                   full = path_Join rootClean safe
               in if full \<noteq> rootClean \<and> \<not> has_prefix full (rootClean @ ''/'')
                  then Inl (ErrUnsafePath rel ''resolved path escapes workspace root'')
                  else Inr full)"

section \<open>Segments\<close>

definition plain_segment :: "string \<Rightarrow> bool" where
  "plain_segment s \<longleftrightarrow> s \<noteq> [] \<and> s \<noteq> ''.'' \<and> s \<noteq> ''..'' \<and> slash \<notin> set s"

lemma split_char_nonempty [simp]: "split_char c s \<noteq> []"
  by (induction s) (auto split: list.split)

lemma split_char_clean: "seg \<in> set (split_char c s) \<Longrightarrow> c \<notin> set seg"
  by (induction s arbitrary: seg) (auto split: list.splits if_splits)

lemma split_char_none: "c \<notin> set s \<Longrightarrow> split_char c s = [s]"
  by (induction s) auto

lemma split_char_append:
  "c \<notin> set s \<Longrightarrow> split_char c (s @ c # t) = s # split_char c t"
  by (induction s) auto

lemma split_char_append_sep: "split_char c (s @ c # t) = split_char c s @ split_char c t"
  by (induction s) (auto split: list.split)

lemma join_Cons: "xs \<noteq> [] \<Longrightarrow> join sep (x # xs) = x @ sep @ join sep xs"
  by (cases xs) simp_all

lemma join_append:
  "xs \<noteq> [] \<Longrightarrow> ys \<noteq> [] \<Longrightarrow> join sep (xs @ ys) = join sep xs @ sep @ join sep ys"
proof (induction xs)
  case (Cons x xs)
  then show ?case by (cases "xs = []") (simp_all add: join_Cons)
qed simp

lemma split_join:
  "xs \<noteq> [] \<Longrightarrow> \<forall>x \<in> set xs. c \<notin> set x \<Longrightarrow> split_char c (join [c] xs) = xs"
proof (induction xs)
  case (Cons x xs)
  show ?case
  proof (cases "xs = []")
    case True
    with Cons show ?thesis by (simp add: split_char_none)
  next
    case False
    with Cons show ?thesis by (simp add: join_Cons split_char_append)
  qed
qed simp

lemma has_prefix_slash: "has_prefix p ''/'' \<longleftrightarrow> (\<exists>q. p = slash # q)"
  by (cases p) (auto simp: has_prefix_def slash_def)

lemma slash_string: "''/'' = [slash]"
  by (simp add: slash_def)

section \<open>Cleaning\<close>

abbreviation kept :: "string list \<Rightarrow> string list" where
  "kept segs \<equiv> filter (\<lambda>s. s \<noteq> [] \<and> s \<noteq> ''.'') segs"

lemma clean_push_no_dots:
  "''..'' \<notin> set segs \<Longrightarrow> fold (clean_push rooted) segs st = rev (kept segs) @ st"
  by (induction segs arbitrary: st) (auto simp: clean_push_def)

lemma clean_push_rooted_plain:
  assumes "\<forall>s \<in> set segs. slash \<notin> set s" "\<forall>s \<in> set st. plain_segment s"
  shows "\<forall>s \<in> set (fold (clean_push True) segs st). plain_segment s"
  using assms
proof (induction segs arbitrary: st)
  case (Cons seg segs)
  have "\<forall>s \<in> set (clean_push True seg st). plain_segment s"
    using Cons.prems by (auto simp: clean_push_def plain_segment_def split: list.splits if_splits)
  with Cons show ?case by simp
qed simp

lemma path_Clean_relative:
  assumes "p \<noteq> []" "\<not> has_prefix p ''/''" "''..'' \<notin> set (split_char slash p)"
  shows "path_Clean p = (let out = join ''/'' (kept (split_char slash p)) in if out = [] then ''.'' else out)"
  using assms by (simp add: path_Clean_def clean_push_no_dots)

lemma path_Clean_rooted:
  assumes "has_prefix p ''/''"
  shows "\<exists>segs. (\<forall>s \<in> set segs. plain_segment s) \<and> path_Clean p = ''/'' @ join ''/'' segs"
proof -
  let ?segs = "rev (fold (clean_push True) (split_char slash p) [])"
  have "\<forall>s \<in> set ?segs. plain_segment s"
    using clean_push_rooted_plain [of "split_char slash p" "[]"] by (auto dest: split_char_clean)
  moreover have "path_Clean p = ''/'' @ join ''/'' ?segs"
    using assms by (auto simp: path_Clean_def has_prefix_def)
  ultimately show ?thesis by blast
qed

lemma path_Clean_plain_rooted:
  assumes "\<forall>s \<in> set segs. plain_segment s" "segs \<noteq> []"
  shows "path_Clean (''/'' @ join ''/'' segs) = ''/'' @ join ''/'' segs"
proof -
  have s: "split_char slash (join [slash] segs) = segs"
    using assms by (intro split_join) (auto simp: plain_segment_def)
  have k: "kept segs = segs" "''..'' \<notin> set segs"
    using assms by (auto simp: plain_segment_def filter_id_conv)
  show ?thesis
    using k by (simp add: path_Clean_def has_prefix_def slash_string s clean_push_no_dots clean_push_def)
qed

section \<open>Accepted paths\<close>

definition accepted_path :: "string \<Rightarrow> bool" where
  "accepted_path p \<longleftrightarrow> \<not> contains_any p [CHR 0x00, CHR '':'', CHR 0x5C] \<and>
     \<not> has_prefix p ''~'' \<and> \<not> has_prefix p ''/'' \<and>
     ''..'' \<notin> set (split_char slash p) \<and> kept (split_char slash p) \<noteq> []"

lemma kept_plain:
  "''..'' \<notin> set (split_char slash p) \<Longrightarrow> \<forall>s \<in> set (kept (split_char slash p)). plain_segment s"
  by (auto simp: plain_segment_def dest: split_char_clean)

lemma plain_join:
  assumes "segs \<noteq> []" "\<forall>s \<in> set segs. plain_segment s"
  shows "split_char slash (join ''/'' segs) = segs" "join ''/'' segs \<noteq> []"
    "join ''/'' segs \<noteq> ''.''" "join ''/'' segs \<noteq> ''..''"
    "\<not> has_prefix (join ''/'' segs) ''../''" "\<not> has_prefix (join ''/'' segs) ''/''"
proof -
  show s: "split_char slash (join ''/'' segs) = segs"
    unfolding slash_string using assms by (intro split_join) (auto simp: plain_segment_def)
  have d: "split_char slash ''.'' = [''.'']" "split_char slash ''..'' = [''..'']" "split_char slash [] = [[]]"
    by (simp_all add: slash_def)
  obtain x xs where x: "segs = x # xs" "plain_segment x" using assms by (cases segs) auto
  show "join ''/'' segs \<noteq> []" "join ''/'' segs \<noteq> ''.''" "join ''/'' segs \<noteq> ''..''"
    using s d x by (auto simp: plain_segment_def)
  have p1: "\<exists>ys. split_char slash p = ''..'' # ys" if "has_prefix p ''../''" for p
  proof -
    have "p = ''..'' @ slash # drop 3 p"
      using that append_take_drop_id [of 3 p] by (simp add: has_prefix_def slash_def numeral_3_eq_3)
    then show ?thesis by (metis split_char_append d(2) split_char_clean list.set_intros(1))
  qed
  show "\<not> has_prefix (join ''/'' segs) ''../''"
  proof
    assume "has_prefix (join ''/'' segs) ''../''"
    from p1 [OF this] s x show False by (auto simp: plain_segment_def)
  qed
  show "\<not> has_prefix (join ''/'' segs) ''/''"
  proof
    assume "has_prefix (join ''/'' segs) ''/''"
    then obtain q where "join ''/'' segs = slash # q" by (auto simp: has_prefix_slash)
    with s x show False by (auto simp: plain_segment_def)
  qed
qed

lemma accepted_nonempty: "accepted_path p \<Longrightarrow> p \<noteq> []"
  by (auto simp: accepted_path_def)

lemma SafeRelPath_accepts:
  assumes "accepted_path p"
  shows "SafeRelPath p = Inr (join ''/'' (kept (split_char slash p)))"
proof -
  let ?segs = "kept (split_char slash p)"
  have segs: "?segs \<noteq> []" "\<forall>s \<in> set ?segs. plain_segment s"
    using assms kept_plain by (auto simp: accepted_path_def)
  have c: "path_Clean p = join ''/'' ?segs"
    using assms accepted_nonempty [OF assms] plain_join(2) [OF segs]
    by (simp add: path_Clean_relative accepted_path_def)
  have "\<not> list_ex (\<lambda>seg. seg = ''..'' \<or> seg = []) ?segs"
    using segs(2) by (auto simp: list_ex_iff plain_segment_def)
  then show ?thesis
    using assms accepted_nonempty [OF assms]
    by (auto simp: SafeRelPath_def Let_def c plain_join [OF segs] accepted_path_def contains_any_def
        list_ex_iff)
qed

lemma SafeRelPath_rejects:
  assumes "\<not> accepted_path p"
  shows "\<exists>e. SafeRelPath p = Inl e"
proof (cases "p \<noteq> [] \<and> \<not> has_prefix p ''/'' \<and> ''..'' \<notin> set (split_char slash p) \<and> kept (split_char slash p) = []")
  case True
  then have "path_Clean p = ''.''" by (simp add: path_Clean_relative)
  then show ?thesis by (auto simp: SafeRelPath_def)
next
  case False
  with assms show ?thesis
    by (auto simp: SafeRelPath_def accepted_path_def contains_any_def list_ex_iff)
qed

text \<open>
  \<open>SafeRelPath\<close> accepts exactly the relative paths that contain no NUL, colon or backslash, do not
  begin with a tilde, have no \<^verbatim>\<open>..\<close> segment and name something; the result is the path with
  its empty and \<^verbatim>\<open>.\<close> segments dropped, every remaining segment a plain name.
\<close>
theorem SafeRelPath_exact:
  "SafeRelPath p = Inr c \<longleftrightarrow> accepted_path p \<and> c = join ''/'' (kept (split_char slash p)) \<and>
     list_all plain_segment (split_char slash c)"
proof (cases "accepted_path p")
  case True
  let ?segs = "kept (split_char slash p)"
  have segs: "?segs \<noteq> []" "\<forall>s \<in> set ?segs. plain_segment s"
    using True kept_plain by (auto simp: accepted_path_def)
  show ?thesis
    using SafeRelPath_accepts [OF True] True segs(2) plain_join(1) [OF segs] by (auto simp: list_all_iff)
next
  case False
  with SafeRelPath_rejects [OF False] show ?thesis by auto
qed

lemma SafeRelPath_segments:
  assumes "SafeRelPath p = Inr c"
  obtains segs where "segs \<noteq> []" "\<forall>s \<in> set segs. plain_segment s" "c = join ''/'' segs"
proof -
  have a: "accepted_path p" using assms SafeRelPath_rejects [of p] by auto
  then show ?thesis
    using that [of "kept (split_char slash p)"] SafeRelPath_accepts [OF a] assms kept_plain [of p]
    by (auto simp: accepted_path_def)
qed

lemma path_Join_under:
  assumes "has_prefix base ''/''" "segs \<noteq> []" "\<forall>s \<in> set segs. plain_segment s"
  shows "path_Join (path_Clean base) (join ''/'' segs) =
    (if path_Clean base = ''/'' then ''/'' @ join ''/'' segs else path_Clean base @ ''/'' @ join ''/'' segs)"
proof -
  obtain rs where rs: "\<forall>s \<in> set rs. plain_segment s" "path_Clean base = ''/'' @ join ''/'' rs"
    using path_Clean_rooted [OF assms(1)] by blast
  have j: "path_Join (path_Clean base) (join ''/'' segs) =
      path_Clean (path_Clean base @ ''/'' @ join ''/'' segs)"
    using plain_join(2) [OF assms(2,3)] rs(2) by (simp add: path_Join_def)
  show ?thesis
  proof (cases "rs = []")
    case True
    have "path_Clean (''/'' @ ''/'' @ join ''/'' segs) = ''/'' @ join ''/'' segs"
    proof -
      have s: "split_char slash (''/'' @ ''/'' @ join ''/'' segs) = [] # [] # segs"
        using plain_join(1) [OF assms(2,3)] by (simp add: slash_def)
      have k: "kept segs = segs" "''..'' \<notin> set segs"
        using assms(3) by (auto simp: plain_segment_def filter_id_conv)
      show ?thesis
        unfolding path_Clean_def s using k by (simp add: has_prefix_def clean_push_no_dots clean_push_def)
    qed
    then show ?thesis using j rs(2) True by simp
  next
    case False
    have e: "path_Clean base @ ''/'' @ join ''/'' segs = ''/'' @ join ''/'' (rs @ segs)"
      using False assms(2) rs(2) by (simp add: join_append)
    have "path_Clean (''/'' @ join ''/'' (rs @ segs)) = ''/'' @ join ''/'' (rs @ segs)"
      using rs(1) assms by (intro path_Clean_plain_rooted) auto
    moreover have "path_Clean base \<noteq> ''/''"
      using rs False plain_join(2) [OF False rs(1)] by simp
    ultimately show ?thesis using j e by simp
  qed
qed

lemma has_prefix_append [simp]: "has_prefix (p @ q) p"
  by (simp add: has_prefix_def)

text \<open>
  \<open>JoinUnder\<close> succeeds exactly on an absolute root other than the root directory and a path
  that \<open>SafeRelPath\<close> accepts, and the result is the cleaned root followed by a slash and the safe
  path: no curriculum path resolves outside the workspace.
\<close>
theorem JoinUnder_confined:
  "JoinUnder base rel = Inr full \<longleftrightarrow>
     (\<exists>safe. SafeRelPath rel = Inr safe \<and> has_prefix base ''/'' \<and> path_Clean base \<noteq> ''/'' \<and>
       full = path_Clean base @ ''/'' @ safe)"
proof (cases "SafeRelPath rel")
  case (Inl e)
  then show ?thesis by (simp add: JoinUnder_def)
next
  case (Inr safe)
  from SafeRelPath_segments [OF Inr] obtain segs where
    segs: "segs \<noteq> []" "\<forall>s \<in> set segs. plain_segment s" "safe = join ''/'' segs" .
  show ?thesis
  proof (cases "has_prefix base ''/''")
    case False
    then show ?thesis by (simp add: JoinUnder_def Inr)
  next
    case True
    then have ne: "base \<noteq> []" by (auto simp: has_prefix_def)
    note J = path_Join_under [OF True segs(1,2), folded segs(3)]
    show ?thesis
    proof (cases "path_Clean base = ''/''")
      case c: True
      have "\<not> has_prefix (''/'' @ safe) ''//''" "safe \<noteq> []"
        using plain_join(2,6) [OF segs(1,2)] segs(3) by (auto simp: has_prefix_def)
      then show ?thesis using c True ne J by (simp add: JoinUnder_def Inr Let_def)
    next
      case False
      have "has_prefix (path_Clean base @ ''/'' @ safe) (path_Clean base @ ''/'')"
        using has_prefix_append [of "path_Clean base @ ''/''" safe] by simp
      then show ?thesis using False True ne by (auto simp: JoinUnder_def Inr J)
    qed
  qed
qed

text \<open>
  A leading tilde is looked for before the path is cleaned only: behind a \<^verbatim>\<open>.\<close> segment it
  survives.
\<close>
lemma SafeRelPath_tilde: "SafeRelPath ''./~/notes'' = Inr ''~/notes''"
  by code_simp

end
