(* ===== verification/Contracts_Validate.thy ===== *)
theory Contracts_Validate
  imports Contracts Contracts_Path Float64
begin

text \<open>
  The validation of activity documents (\<^verbatim>\<open>studentclient/contracts/validate.go\<close>): the schema
  checks that stand between an authored document and a published revision.  A validation returns
  \<open>None\<close> (nil) or the fixed text of its error.  The regular expressions of the source that
  are constants are written out; \<open>rx\<close> stands for \<^verbatim>\<open>regexp.Compile\<close> succeeding on an authored pattern
  and \<open>pf\<close> for \<^verbatim>\<open>strconv.ParseFloat\<close>, which is called on parameters given as strings.

  The search for prerequisite cycles is a depth-first search over a shared colour array; its
  recursion is given fuel one above the number of tasks, which the lemmas show is never used
  up, and the search is shown to fail exactly when the prerequisites have a cycle.
\<close>

section \<open>Error combinators\<close>

fun first_error :: "string option list \<Rightarrow> string option" where
  "first_error [] = None"
| "first_error (Some e # es) = Some e"
| "first_error (None # es) = first_error es"

definition fail_if :: "bool \<Rightarrow> string \<Rightarrow> string option" where
  "fail_if b msg = (if b then Some msg else None)"

definition each :: "('a \<Rightarrow> string option) \<Rightarrow> 'a list \<Rightarrow> string option" where
  "each f xs = first_error (map f xs)"

fun each_seen :: "('a \<Rightarrow> string list \<Rightarrow> string option) \<Rightarrow> ('a \<Rightarrow> string) \<Rightarrow> string list \<Rightarrow> 'a list \<Rightarrow> string option" where
  "each_seen f key seen [] = None"
| "each_seen f key seen (x # xs) =
     (case f x seen of Some e \<Rightarrow> Some e | None \<Rightarrow> each_seen f key (key x # seen) xs)"

lemma first_error_None [simp]: "first_error es = None \<longleftrightarrow> list_all (\<lambda>e. e = None) es"
  by (induction es rule: first_error.induct) simp_all

lemma fail_if_None [simp]: "fail_if b msg = None \<longleftrightarrow> \<not> b"
  by (simp add: fail_if_def)

lemma each_None [simp]: "each f xs = None \<longleftrightarrow> list_all (\<lambda>x. f x = None) xs"
  by (simp add: each_def list.pred_map comp_def)

text \<open>
  The loops that validate a list while collecting the identifiers already met: each element is
  rejected when its identifier was seen.  What such a loop accepts has distinct identifiers.
\<close>

locale id_loop =
  fixes f :: "'a \<Rightarrow> string list \<Rightarrow> string option"
    and key :: "'a \<Rightarrow> string"
    and ok :: "'a \<Rightarrow> bool"
  assumes fresh: "f x seen = None \<Longrightarrow> key x \<notin> set seen"
    and checked: "f x seen = None \<Longrightarrow> ok x"
begin

lemma accepts:
  "each_seen f key seen xs = None \<Longrightarrow>
     distinct (map key xs) \<and> set (map key xs) \<inter> set seen = {} \<and> list_all ok xs"
proof (induction xs arbitrary: seen)
  case (Cons x xs)
  then have x: "f x seen = None" and xs: "each_seen f key (key x # seen) xs = None"
    by (simp_all split: option.splits)
  from Cons.IH [OF xs] fresh [OF x] checked [OF x] show ?case by auto
qed simp

lemmas accepts_distinct = accepts [THEN conjunct1]
lemmas accepts_ok = accepts [THEN conjunct2, THEN conjunct2]

end

section \<open>Fixed patterns\<close>

definition char_in :: "char \<Rightarrow> char \<Rightarrow> char \<Rightarrow> bool" where
  "char_in lo hi c \<longleftrightarrow> (of_char lo :: nat) \<le> of_char c \<and> (of_char c :: nat) \<le> of_char hi"

definition re_digit :: "char \<Rightarrow> bool" where "re_digit c = char_in (CHR ''0'') (CHR ''9'') c"
definition re_lower :: "char \<Rightarrow> bool" where "re_lower c = char_in (CHR ''a'') (CHR ''z'') c"
definition re_upper :: "char \<Rightarrow> bool" where "re_upper c = char_in (CHR ''A'') (CHR ''Z'') c"

definition nonempty_of :: "(char \<Rightarrow> bool) \<Rightarrow> string \<Rightarrow> bool" where
  "nonempty_of p s \<longleftrightarrow> s \<noteq> [] \<and> list_all p s"

definition slugRE :: "string \<Rightarrow> bool" where
  "slugRE s = list_all (nonempty_of (\<lambda>c. re_lower c \<or> re_digit c)) (split_char (CHR ''-'') s)"

definition idRE :: "string \<Rightarrow> bool" where
  "idRE s = (case s of
     [] \<Rightarrow> False
   | c # cs \<Rightarrow> (re_lower c \<or> re_upper c) \<and>
       list_all (\<lambda>c. re_lower c \<or> re_upper c \<or> re_digit c \<or> c = CHR ''_'' \<or> c = CHR ''.'' \<or> c = CHR ''-'') cs)"

definition modeRE :: "string \<Rightarrow> bool" where
  "modeRE s \<longleftrightarrow> (length s = 3 \<or> length s = 4) \<and> list_all (char_in (CHR ''0'') (CHR ''7'')) s"

definition standardRE :: "string \<Rightarrow> bool" where
  "standardRE s = (let segs = split_char (CHR ''.'') s in
     2 \<le> length segs \<and> list_all (nonempty_of (\<lambda>c. re_upper c \<or> re_digit c)) segs)"

definition sha256HexRE :: "string \<Rightarrow> bool" where
  "sha256HexRE s \<longleftrightarrow> length s = 64 \<and>
     list_all (\<lambda>c. re_digit c \<or> char_in (CHR ''a'') (CHR ''f'') c \<or> char_in (CHR ''A'') (CHR ''F'') c) s"

definition unsafeLinkRE :: "string \<Rightarrow> bool" where
  "unsafeLinkRE s = list_ex (contains_str (to_lower s)) [''http://'', ''https://'', ''javascript:'', ''data:'']"

definition re_word :: "char \<Rightarrow> bool" where
  "re_word c \<longleftrightarrow> re_digit c \<or> re_lower c \<or> re_upper c \<or> c = CHR ''_''"

definition re_space :: "char \<Rightarrow> bool" where
  "re_space c \<longleftrightarrow> (of_char c :: nat) \<in> set [9, 10, 12, 13, 32]"

definition tag_here :: "string \<Rightarrow> bool" where
  "tag_here s = (let r = dropWhile re_space s in
     list_ex (\<lambda>t. has_prefix (to_lower r) t \<and>
         (case drop (length t) r of [] \<Rightarrow> True | c # _ \<Rightarrow> \<not> re_word c))
       [''script'', ''iframe'', ''object'', ''embed'', ''link'', ''meta'', ''style''])"

fun unsafeTagRE :: "string \<Rightarrow> bool" where
  "unsafeTagRE [] = False"
| "unsafeTagRE (c # cs) = ((c = CHR ''<'' \<and> tag_here cs) \<or> unsafeTagRE cs)"

definition looksLikeUnsafeMarkup :: "string \<Rightarrow> bool" where
  "looksLikeUnsafeMarkup s =
     (if s = [] then False else if unsafeLinkRE s then True else if unsafeTagRE s then True else False)"

section \<open>Parameters of checks\<close>

definition param :: "params \<Rightarrow> string \<Rightarrow> any" where
  "param ps k = (case map_of ps k of None \<Rightarrow> AnyNil | Some v \<Rightarrow> v)"

definition stringParam :: "params \<Rightarrow> string \<Rightarrow> string option" where
  "stringParam ps k = (case map_of ps k of Some (AnyString s) \<Rightarrow> Some s | _ \<Rightarrow> None)"

fun digits_value :: "int \<Rightarrow> string \<Rightarrow> int" where
  "digits_value acc [] = acc"
| "digits_value acc (c # cs) = digits_value (acc * 10 + (of_char c - 48)) cs"

definition Atoi :: "string \<Rightarrow> int option" where
  "Atoi s =
     (let neg = has_prefix s ''-'';
          ds = (if neg \<or> has_prefix s ''+'' then drop 1 s else s);
          v = (if neg then - digits_value 0 ds else digits_value 0 ds)
      in if nonempty_of re_digit ds \<and> - (2 ^ 63) \<le> v \<and> v < 2 ^ 63 then Some v else None)"

definition intParam_ok :: "any \<Rightarrow> bool" where
  "intParam_ok v = (case v of
     AnyInt _ \<Rightarrow> True | AnyFloat _ \<Rightarrow> True | AnyString s \<Rightarrow> Atoi s \<noteq> None | _ \<Rightarrow> False)"

definition floatParam :: "(string \<Rightarrow> rat option) \<Rightarrow> any \<Rightarrow> rat option" where
  "floatParam pf v = (case v of
     AnyFloat x \<Rightarrow> Some x | AnyInt n \<Rightarrow> Some (fl (of_int n)) | AnyString s \<Rightarrow> pf s | _ \<Rightarrow> None)"

definition TypingMinWPM :: "(string \<Rightarrow> rat option) \<Rightarrow> params \<Rightarrow> rat option" where
  "TypingMinWPM pf ps = (case floatParam pf (param ps ''min_wpm'') of
     Some v \<Rightarrow> Some v | None \<Rightarrow> floatParam pf (param ps ''minWpm''))"

definition TypingMinAccuracy :: "(string \<Rightarrow> rat option) \<Rightarrow> params \<Rightarrow> rat option" where
  "TypingMinAccuracy pf ps = (case floatParam pf (param ps ''min_accuracy'') of
     Some v \<Rightarrow> Some v | None \<Rightarrow> floatParam pf (param ps ''minAccuracy''))"

definition stringSlice_ok :: "any \<Rightarrow> bool" where
  "stringSlice_ok v = (case v of
     AnyList xs \<Rightarrow> list_all (\<lambda>x. case x of AnyString _ \<Rightarrow> True | _ \<Rightarrow> False) xs | _ \<Rightarrow> False)"

definition requireParamsSubset :: "params \<Rightarrow> string list \<Rightarrow> string option" where
  "requireParamsSubset ps allowed = fail_if (\<not> list_all (\<lambda>(k, v). k \<in> set allowed) ps) ''unknown params''"

definition requireSafePathParam :: "params \<Rightarrow> string \<Rightarrow> string option" where
  "requireSafePathParam ps k =
     (case stringParam ps k of
        None \<Rightarrow> Some ''params are required''
      | Some p \<Rightarrow> if p = [] then Some ''params are required''
                 else case SafeRelPath p of Inl _ \<Rightarrow> Some ''unsafe path'' | Inr _ \<Rightarrow> None)"

definition bad_pattern :: "(string \<Rightarrow> bool) \<Rightarrow> params \<Rightarrow> string \<Rightarrow> bool" where
  "bad_pattern rx ps k = (case stringParam ps k of None \<Rightarrow> False | Some pat \<Rightarrow> pat \<noteq> [] \<and> \<not> rx pat)"

definition validateCheckStages :: "Check \<Rightarrow> string option" where
  "validateCheckStages ch = first_error
     [each_seen (\<lambda>s seen. first_error
          [fail_if (s \<notin> set [StageFixture, StageTask, StageFinal]) ''unknown stage'',
           fail_if (s \<in> set seen) ''duplicate stage'']) (\<lambda>s. s) [] (ck_stages ch),
      each_seen (\<lambda>b seen. first_error
          [fail_if (b \<notin> set [InvariantAtFixture, InvariantAtAfterTask, InvariantAtFinal]) ''unknown invariantAt'',
           fail_if (b \<in> set seen) ''duplicate invariantAt'']) (\<lambda>b. b) [] (ck_invariant_at ch)]"

definition validate_check_kind :: "(string \<Rightarrow> rat option) \<Rightarrow> (string \<Rightarrow> bool) \<Rightarrow> Check \<Rightarrow> string option" where
  "validate_check_kind pf rx ch =
     (let ps = ck_params ch; k = ck_kind ch in
      if k = CheckFileExists \<or> k = CheckFileNotExists then
        first_error [requireParamsSubset ps [''path''], requireSafePathParam ps ''path'']
      else if k = CheckContentEquals \<or> k = CheckContentContains then
        first_error [requireParamsSubset ps [''path'', ''value''], requireSafePathParam ps ''path'',
          fail_if (stringParam ps ''value'' = None) ''params.value is required'']
      else if k = CheckContentMatch then
        first_error [requireParamsSubset ps [''path'', ''pattern''], requireSafePathParam ps ''path'',
          fail_if (stringParam ps ''pattern'' = None \<or> stringParam ps ''pattern'' = Some []) ''params.pattern is required'',
          fail_if (bad_pattern rx ps ''pattern'') ''invalid pattern'']
      else if k = CheckPathType then
        first_error [requireParamsSubset ps [''path'', ''type''], requireSafePathParam ps ''path'',
          fail_if (stringParam ps ''type'' = None) ''params.type is required'',
          fail_if (stringParam ps ''type'' \<notin> set [Some PathTypeFile, Some PathTypeDirectory, Some PathTypeSymlink])
            ''unknown path type'']
      else if k = CheckPathMode then
        first_error [requireParamsSubset ps [''path'', ''mode''], requireSafePathParam ps ''path'',
          fail_if (case stringParam ps ''mode'' of None \<Rightarrow> True | Some m \<Rightarrow> \<not> modeRE m) ''params.mode must be octal'']
      else if k = CheckCwd then
        first_error [requireParamsSubset ps [''path''], requireSafePathParam ps ''path'']
      else if k = CheckCommandProperties then
        first_error [requireParamsSubset ps [''executable'', ''args'', ''exitCode'', ''stdoutContains'', ''stdoutEquals'',
            ''stdoutPattern'', ''stderrContains'', ''stderrEquals'', ''stderrPattern''],
          fail_if (stringParam ps ''executable'' = None) ''params.executable is required'',
          fail_if (case map_of ps ''args'' of None \<Rightarrow> False | Some v \<Rightarrow> \<not> stringSlice_ok v) ''params.args must be a string list'',
          fail_if (case map_of ps ''exitCode'' of None \<Rightarrow> False | Some v \<Rightarrow> \<not> intParam_ok v) ''params.exitCode must be an int'',
          fail_if (bad_pattern rx ps ''stdoutPattern'') ''invalid stdoutPattern'',
          fail_if (bad_pattern rx ps ''stderrPattern'') ''invalid stderrPattern'']
      else if k = CheckPipelineOutput then
        first_error [requireParamsSubset ps [''value'', ''contains'', ''pattern''],
          fail_if (stringParam ps ''value'' = None \<and> stringParam ps ''contains'' = None \<and> stringParam ps ''pattern'' = None)
            ''one of value, contains, or pattern is required'',
          fail_if (bad_pattern rx ps ''pattern'') ''invalid pattern'']
      else if k = CheckTypingMetrics then
        first_error [requireParamsSubset ps [''min_wpm'', ''minWpm'', ''min_accuracy'', ''minAccuracy''],
          fail_if (floatParam pf (param ps ''min_wpm'') = None \<and> floatParam pf (param ps ''minWpm'') = None)
            ''params.min_wpm is required and must be a number'',
          fail_if (floatParam pf (param ps ''min_accuracy'') = None \<and> floatParam pf (param ps ''minAccuracy'') = None)
            ''params.min_accuracy is required and must be a number'',
          (case TypingMinAccuracy pf ps of None \<Rightarrow> Some ''params.min_accuracy is required''
           | Some acc \<Rightarrow> fail_if (acc < 0 \<or> 1 < acc) ''params.min_accuracy must be between 0 and 1''),
          (case TypingMinWPM pf ps of None \<Rightarrow> Some ''params.min_wpm is required''
           | Some wpm \<Rightarrow> fail_if (wpm < 0) ''params.min_wpm must be non-negative'')]
      else if k = CheckResponseSubmitted then
        first_error [requireParamsSubset ps [''taskId'', ''task_id''],
          fail_if (case stringParam ps ''taskId'' of
              Some tid \<Rightarrow> \<not> idRE tid
            | None \<Rightarrow> (case stringParam ps ''task_id'' of None \<Rightarrow> True | Some tid \<Rightarrow> \<not> idRE tid))
            ''params.taskId is required'']
      else Some ''unknown kind'')"

definition validateCheck :: "(string \<Rightarrow> rat option) \<Rightarrow> (string \<Rightarrow> bool) \<Rightarrow> Check \<Rightarrow> string list \<Rightarrow> string option" where
  "validateCheck pf rx ch seen = first_error
     [fail_if (\<not> idRE (ck_id ch)) ''checks: invalid id'',
      fail_if (ck_id ch \<in> set seen) ''checks: duplicate id'',
      validateCheckStages ch,
      validate_check_kind pf rx ch]"

section \<open>Instruction blocks, resources and responses\<close>

definition validateResourceRef :: "ResourceRef option \<Rightarrow> string option" where
  "validateResourceRef r = (case r of
     None \<Rightarrow> Some ''resource is required''
   | Some r \<Rightarrow> first_error
       [fail_if (\<not> sha256HexRE (rr_sha256 r)) ''sha256 must be 64 hex chars'',
        fail_if (trim_space (rr_label r) = []) ''label is required'',
        fail_if (trim_space (rr_media_type r) = []) ''mediaType is required'',
        fail_if (contains_str (rr_label r) ''://'' \<or> has_prefix (to_lower (rr_media_type r)) ''text/html'')
          ''remote or HTML resources are not allowed'',
        fail_if (rr_byte_size r < 0 \<or> MaxResourceBytes < rr_byte_size r) ''byteSize out of range''])"

definition validate_block_kind :: "InstructionBlock \<Rightarrow> string option" where
  "validate_block_kind b =
     (let k = ib_kind b in
      if k \<in> set [BlockProse, BlockWarning, BlockQuestion, BlockPractice, BlockParentNote] then
        first_error
          [fail_if (trim_space (ib_text b) = []) ''text is required'',
           fail_if (MaxInstructionBlockText < length (ib_text b)) ''text exceeds the limit'',
           fail_if (looksLikeUnsafeMarkup (ib_text b)) ''unsafe markup or links are not allowed'',
           fail_if (ib_terms b \<noteq> [] \<or> ib_resource b \<noteq> None \<or> ib_input b \<noteq> [] \<or> ib_output b \<noteq> [])
             ''unexpected fields'']
      else if k = BlockVocabulary then
        first_error
          [fail_if (ib_terms b = []) ''terms are required'',
           each (\<lambda>t. first_error
               [fail_if (trim_space (vt_term t) = [] \<or> trim_space (vt_definition t) = [])
                  ''term and definition are required'',
                fail_if (looksLikeUnsafeMarkup (vt_term t) \<or> looksLikeUnsafeMarkup (vt_definition t))
                  ''unsafe markup is not allowed'']) (ib_terms b),
           fail_if (ib_text b \<noteq> [] \<or> ib_resource b \<noteq> None) ''unexpected fields for vocabulary'']
      else if k = BlockExample then
        first_error
          [fail_if (trim_space (ib_input b) = [] \<and> trim_space (ib_output b) = [] \<and> trim_space (ib_explanation b) = [])
             ''example needs input, output, or explanation'',
           each (\<lambda>s. fail_if (looksLikeUnsafeMarkup s) ''unsafe markup is not allowed'')
             [ib_input b, ib_output b, ib_explanation b, ib_text b],
           fail_if (ib_terms b \<noteq> [] \<or> ib_resource b \<noteq> None) ''unexpected fields for example'']
      else if k = BlockResource then
        first_error
          [fail_if (ib_resource b = None) ''resource is required'',
           validateResourceRef (ib_resource b),
           fail_if (ib_text b \<noteq> [] \<or> ib_terms b \<noteq> []) ''unexpected fields for resource'']
      else Some ''unknown kind'')"

definition validate_block :: "InstructionBlock \<Rightarrow> string list \<Rightarrow> string option" where
  "validate_block b seen = first_error
     [fail_if (\<not> idRE (ib_id b)) ''blocks: invalid id'',
      fail_if (ib_id b \<in> set seen) ''blocks: duplicate id'',
      validate_block_kind b]"

definition validateInstructionBlocks :: "InstructionBlock list \<Rightarrow> string option" where
  "validateInstructionBlocks blocks = each_seen validate_block ib_id [] blocks"

definition validate_criterion :: "RubricCriterion \<Rightarrow> string list \<Rightarrow> string option" where
  "validate_criterion c seen = first_error
     [fail_if (\<not> idRE (rc_id c)) ''rubric: invalid id'',
      fail_if (rc_id c \<in> set seen) ''rubric: duplicate id'',
      fail_if (trim_space (rc_description c) = []) ''rubric: description is required'']"

definition validateResponseSpec :: "ResponseTaskSpec option \<Rightarrow> string option" where
  "validateResponseSpec spec = (case spec of
     None \<Rightarrow> Some ''response is required for short_response tasks''
   | Some spec \<Rightarrow>
       (let mx = (if rs_max_chars spec = 0 then DefaultResponseMaxChars else rs_max_chars spec) in
        first_error
         [fail_if (trim_space (rs_prompt spec) = []) ''prompt is required'',
          fail_if (looksLikeUnsafeMarkup (rs_prompt spec)) ''prompt: unsafe markup is not allowed'',
          fail_if (mx < 1 \<or> MaxResponseMaxChars < mx) ''maxChars out of range'',
          fail_if (rs_rubric spec = []) ''rubric must not be empty'',
          each_seen validate_criterion rc_id [] (rs_rubric spec)]))"

definition StudentBlocks :: "InstructionBlock list \<Rightarrow> InstructionBlock list" where
  "StudentBlocks blocks = filter (\<lambda>b. ib_kind b \<noteq> BlockParentNote) blocks"

definition TaskKindOrDefault :: "Task \<Rightarrow> string" where
  "TaskKindOrDefault t = (if tk_kind t = [] then TaskKindAction else tk_kind t)"

section \<open>Completion trees\<close>

fun validateCheckTree :: "CheckTree \<Rightarrow> string list \<Rightarrow> string option" where
  "validateCheckTree (CheckTree all any cid opt) checkIDs =
     (let n = (if cid \<noteq> [] then 1 else 0) + (if all \<noteq> [] then 1 else 0) + (if any \<noteq> [] then 1 else (0 :: nat)) in
      if n \<noteq> 1 then Some ''exactly one of check_id, all, or any is required''
      else if cid \<noteq> [] then fail_if (cid \<notin> set checkIDs) ''unknown check_id''
      else if any \<noteq> [] then first_error (map (\<lambda>c. validateCheckTree c checkIDs) any)
      else first_error (map (\<lambda>c. validateCheckTree c checkIDs) all))"

section \<open>Prerequisite cycles\<close>

datatype color = White | Gray | Black

datatype dfs_error = CycleAt nat | OutOfFuel

definition task_index :: "Task list \<Rightarrow> string \<Rightarrow> nat option" where
  "task_index tasks = map_of (rev (zip (map tk_id tasks) [0..<length tasks]))"

definition prereq_indices :: "Task list \<Rightarrow> nat \<Rightarrow> nat list" where
  "prereq_indices tasks i = List.map_filter (task_index tasks) (tk_prerequisites (tasks ! i))"

fun dfs_visit :: "(nat \<Rightarrow> nat list) \<Rightarrow> nat \<Rightarrow> nat \<Rightarrow> color list \<Rightarrow> dfs_error + color list"
  and dfs_visit_all :: "(nat \<Rightarrow> nat list) \<Rightarrow> nat \<Rightarrow> nat list \<Rightarrow> color list \<Rightarrow> dfs_error + color list" where
  "dfs_visit succ 0 i color = Inl OutOfFuel"
| "dfs_visit succ (Suc fuel) i color =
     (case color ! i of
        Gray \<Rightarrow> Inl (CycleAt i)
      | Black \<Rightarrow> Inr color
      | White \<Rightarrow>
          (case dfs_visit_all succ fuel (succ i) (color[i := Gray]) of
             Inl e \<Rightarrow> Inl e
           | Inr color' \<Rightarrow> Inr (color'[i := Black])))"
| "dfs_visit_all succ fuel [] color = Inr color"
| "dfs_visit_all succ fuel (j # js) color =
     (case dfs_visit succ fuel j color of
        Inl e \<Rightarrow> Inl e
      | Inr color' \<Rightarrow> dfs_visit_all succ fuel js color')"

definition detectTaskCycles :: "Task list \<Rightarrow> dfs_error option" where
  "detectTaskCycles tasks =
     (case dfs_visit_all (prereq_indices tasks) (Suc (length tasks)) [0..<length tasks]
             (replicate (length tasks) White) of
        Inl e \<Rightarrow> Some e
      | Inr _ \<Rightarrow> None)"

section \<open>Content and documents\<close>

definition validate_fixture :: "FixtureEntry \<Rightarrow> string list \<Rightarrow> string option" where
  "validate_fixture f seen =
     (case SafeRelPath (fx_path f) of
        Inl _ \<Rightarrow> Some ''terminal.fixtures: unsafe path''
      | Inr rel \<Rightarrow> first_error
          [fail_if (rel \<in> set seen) ''terminal.fixtures: duplicate path'',
           fail_if (fx_type f \<noteq> FixtureFile \<and> fx_type f \<noteq> FixtureDirectory) ''terminal.fixtures: unknown type'',
           fail_if (fx_type f = FixtureDirectory \<and> fx_content f \<noteq> []) ''terminal.fixtures: directory must not have content'',
           fail_if (fx_mode f \<noteq> [] \<and> \<not> modeRE (fx_mode f)) ''terminal.fixtures: invalid mode''])"

definition fixture_key :: "FixtureEntry \<Rightarrow> string" where
  "fixture_key f = (case SafeRelPath (fx_path f) of Inl _ \<Rightarrow> [] | Inr rel \<Rightarrow> rel)"

definition validateTerminal :: "TerminalContent \<Rightarrow> string option" where
  "validateTerminal t = first_error
     [fail_if (tc_runtime_profile t = []) ''terminal.runtime_profile is required'',
      fail_if (tc_runtime_profile t \<noteq> RuntimeCoreutilsBasic \<and> tc_runtime_profile t \<noteq> RuntimeTextProcessing)
        ''terminal.runtime_profile is unknown'',
      fail_if (tc_initial_cwd t \<noteq> [] \<and> (case SafeRelPath (tc_initial_cwd t) of Inl _ \<Rightarrow> True | Inr _ \<Rightarrow> False))
        ''terminal.initial_cwd: unsafe path'',
      each_seen validate_fixture fixture_key [] (tc_fixtures t)]"

definition validate_prompt :: "TypingPrompt \<Rightarrow> string list \<Rightarrow> string option" where
  "validate_prompt p seen = first_error
     [fail_if (\<not> idRE (tp_id p)) ''typing.prompts: invalid id'',
      fail_if (tp_id p \<in> set seen) ''typing.prompts: duplicate id'',
      fail_if (trim_space (tp_text p) = []) ''typing.prompts: text is required'']"

definition validateTyping :: "TypingContent \<Rightarrow> string option" where
  "validateTyping t = first_error
     [fail_if (trim_space (ty_prompt_set_id t) = []) ''typing.prompt_set_id is required'',
      fail_if (ty_prompts t = []) ''typing.prompts must not be empty'',
      each_seen validate_prompt tp_id [] (ty_prompts t),
      fail_if (ty_time_limit_sec t < 0) ''typing.time_limit_sec must be non-negative'']"

definition validate_hint :: "Hint \<Rightarrow> string list \<Rightarrow> string option" where
  "validate_hint h seen = first_error
     [fail_if (\<not> idRE (hi_id h)) ''hints: invalid id'',
      fail_if (hi_id h \<in> set seen) ''hints: duplicate id'',
      fail_if (trim_space (hi_text h) = []) ''hints: text is required'']"

definition validate_task :: "string list \<Rightarrow> string list \<Rightarrow> Task \<Rightarrow> string list \<Rightarrow> string option" where
  "validate_task checkIDs hintIDs t seen = first_error
     [fail_if (\<not> idRE (tk_id t)) ''tasks: invalid id'',
      fail_if (tk_id t \<in> set seen) ''tasks: duplicate id'',
      fail_if (trim_space (tk_title t) = []) ''tasks: title is required'',
      fail_if (trim_space (tk_instructions t) = []) ''tasks: instructions are required'',
      (let kind = TaskKindOrDefault t in
       if kind = TaskKindAction then fail_if (tk_response t \<noteq> None) ''tasks: response is only valid for short_response tasks''
       else if kind = TaskKindShortResponse then validateResponseSpec (tk_response t)
       else Some ''tasks: unknown kind''),
      each (\<lambda>pre. fail_if (\<not> idRE pre) ''tasks: invalid prerequisite id'') (tk_prerequisites t),
      each (\<lambda>hid. fail_if (hid \<notin> set hintIDs) ''tasks: unknown hint id'') (tk_hint_ids t),
      validateCheckTree (tk_completion t) checkIDs]"

definition validate_prerequisites :: "string list \<Rightarrow> Task \<Rightarrow> string option" where
  "validate_prerequisites taskIDs t =
     each (\<lambda>pre. first_error
       [fail_if (pre \<notin> set taskIDs) ''tasks: unknown prerequisite'',
        fail_if (pre = tk_id t) ''tasks: task cannot prerequisite itself'']) (tk_prerequisites t)"

definition validate_kind_content :: "string \<Rightarrow> ActivityContent \<Rightarrow> string option" where
  "validate_kind_content kind c =
     (if kind = KindTerminal then
        (case ac_terminal c of
           None \<Rightarrow> Some ''content.terminal is required''
         | Some t \<Rightarrow> first_error [fail_if (ac_typing c \<noteq> None) ''content.typing must be empty'', validateTerminal t])
      else if kind = KindTyping then
        (case ac_typing c of
           None \<Rightarrow> Some ''content.typing is required''
         | Some t \<Rightarrow> first_error [fail_if (ac_terminal c \<noteq> None) ''content.terminal must be empty'', validateTyping t])
      else Some ''unknown kind'')"

definition validate_content_body :: "(string \<Rightarrow> rat option) \<Rightarrow> (string \<Rightarrow> bool) \<Rightarrow> string \<Rightarrow> ActivityContent \<Rightarrow> string option" where
  "validate_content_body pf rx kind c =
     (let checkIDs = map ck_id (ac_checks c);
          hintIDs = map hi_id (ac_hints c);
          taskIDs = map tk_id (ac_tasks c)
      in first_error
       [fail_if (trim_space (ac_objective c) = []) ''content.objective is required'',
        fail_if (trim_space (ac_instructions c) = []) ''content.instructions is required'',
        validate_kind_content kind c,
        each_seen (validateCheck pf rx) ck_id [] (ac_checks c),
        fail_if (ac_checks c = []) ''content.checks must not be empty'',
        each_seen validate_hint hi_id [] (ac_hints c),
        validateInstructionBlocks (ac_blocks c),
        fail_if (ac_tasks c = []) ''content.tasks must not be empty'',
        each_seen (validate_task checkIDs hintIDs) tk_id [] (ac_tasks c),
        each (validate_prerequisites taskIDs) (ac_tasks c),
        fail_if (detectTaskCycles (ac_tasks c) \<noteq> None) ''tasks: prerequisite cycle'',
        (case ac_artifacts c of
           None \<Rightarrow> None
         | Some a \<Rightarrow> fail_if (ap_enabled a \<and> (ap_max_files a < 0 \<or> ap_max_bytes_each a < 0 \<or> ap_max_bytes_total a < 0))
             ''artifacts: limits must be non-negative'')])"

definition ValidateContent :: "(string \<Rightarrow> rat option) \<Rightarrow> (string \<Rightarrow> bool) \<Rightarrow> string \<Rightarrow> ActivityContent option \<Rightarrow> string option" where
  "ValidateContent pf rx kind c = (case c of
     None \<Rightarrow> Some ''content is nil''
   | Some c \<Rightarrow> validate_content_body pf rx kind c)"

definition validate_step :: "ReferenceStep \<Rightarrow> string option" where
  "validate_step st = first_error
     [fail_if (rf_argv st = []) ''referenceSolution.steps.argv must not be empty'',
      each (\<lambda>a. fail_if (trim_space a = []) ''referenceSolution.steps.argv must not be empty'') (rf_argv st),
      fail_if (rf_work_dir st \<noteq> [] \<and> (case SafeRelPath (rf_work_dir st) of Inl _ \<Rightarrow> True | Inr _ \<Rightarrow> False))
        ''referenceSolution.steps.workDir: unsafe path'']"

definition validateReferenceSolution :: "ReferenceSolution option \<Rightarrow> string option" where
  "validateReferenceSolution ref = (case ref of
     None \<Rightarrow> None
   | Some ref \<Rightarrow> first_error
       [fail_if (rl_steps ref = []) ''referenceSolution.steps must not be empty'',
        each validate_step (rl_steps ref)])"

definition standard_key :: "StandardRef \<Rightarrow> string" where
  "standard_key s = sr_code s @ ''|'' @ sr_role s"

definition validate_standard :: "StandardRef \<Rightarrow> string list \<Rightarrow> string option" where
  "validate_standard s seen = first_error
     [fail_if (\<not> standardRE (sr_code s)) ''standards: invalid code'',
      fail_if (standard_key s \<in> set seen) ''standards: duplicate standard'',
      fail_if (sr_role s \<noteq> StandardRolePrimary \<and> sr_role s \<noteq> StandardRoleReinforcement) ''standards: unknown role'']"

definition ValidateDocument :: "(string \<Rightarrow> rat option) \<Rightarrow> (string \<Rightarrow> bool) \<Rightarrow> ActivityDocument option \<Rightarrow> string option" where
  "ValidateDocument pf rx doc = (case doc of
     None \<Rightarrow> Some ''activity document is nil''
   | Some doc \<Rightarrow> first_error
       [fail_if (ad_schema_version doc \<noteq> SchemaVersion) ''unsupported schema_version'',
        fail_if (\<not> slugRE (ad_slug doc)) ''slug is invalid'',
        fail_if (trim_space (ad_title doc) = []) ''title is required'',
        fail_if (ad_kind doc \<noteq> KindTerminal \<and> ad_kind doc \<noteq> KindTyping) ''unknown kind'',
        fail_if (trim_space (ad_subject_code doc) = []) ''subject_code is required'',
        fail_if (ad_standards doc = []) ''at least one standard is required'',
        each_seen validate_standard standard_key [] (ad_standards doc),
        ValidateContent pf rx (ad_kind doc) (Some (ad_content doc)),
        validateReferenceSolution (ad_reference_solution doc)])"

definition ParseMode :: "string \<Rightarrow> nat option" where
  "ParseMode s = (if \<not> modeRE s then None
     else Some (fold (\<lambda>c acc. acc * 8 + (of_char c - 48)) s 0))"

section \<open>The depth-first search\<close>

definition edges :: "(nat \<Rightarrow> nat list) \<Rightarrow> nat \<Rightarrow> (nat \<times> nat) set" where
  "edges succ n = {(i, j). i < n \<and> j \<in> set (succ i)}"

definition colored :: "color \<Rightarrow> color list \<Rightarrow> nat set" where
  "colored c color = {i. i < length color \<and> color ! i = c}"

definition dfs_inv :: "(nat \<Rightarrow> nat list) \<Rightarrow> color list \<Rightarrow> bool" where
  "dfs_inv succ color \<longleftrightarrow>
     (\<forall>b \<in> colored Black color. set (succ b) \<subseteq> colored Black color \<and> (b, b) \<notin> (edges succ (length color))\<^sup>+)"

definition dfs_ok :: "(nat \<Rightarrow> nat list) \<Rightarrow> nat set \<Rightarrow> color list \<Rightarrow> dfs_error + color list \<Rightarrow> bool" where
  "dfs_ok succ done_nodes color res \<longleftrightarrow>
     (case res of
        Inl e \<Rightarrow> (\<exists>k. e = CycleAt k \<and> (k, k) \<in> (edges succ (length color))\<^sup>+)
      | Inr color' \<Rightarrow> length color' = length color \<and> dfs_inv succ color' \<and>
          done_nodes \<subseteq> colored Black color' \<and> colored Black color \<subseteq> colored Black color' \<and>
          colored Gray color' = colored Gray color \<and> colored White color' \<subseteq> colored White color)"

lemma colored_finite [simp]: "finite (colored c color)"
  by (simp add: colored_def)

lemma colored_update:
  "i < length color \<Longrightarrow> colored c (color[i := d]) =
     (if c = d then insert i (colored c color) else colored c color - {i})"
  by (auto simp: colored_def nth_list_update)

lemma colored_same: "i \<in> colored c color \<Longrightarrow> i \<in> colored d color \<Longrightarrow> c = d"
  by (simp add: colored_def)

lemma black_closed:
  assumes "dfs_inv succ color" "(j, k) \<in> (edges succ (length color))\<^sup>*" "j \<in> colored Black color"
  shows "k \<in> colored Black color"
  using assms(2,3)
proof (induction rule: rtrancl_induct)
  case (step y z)
  then show ?case using assms(1) by (auto simp: dfs_inv_def edges_def)
qed simp

lemma dfs_inv_gray:
  assumes "dfs_inv succ color" "i \<in> colored White color"
  shows "dfs_inv succ (color[i := Gray])"
proof -
  have "i < length color" using assms(2) by (simp add: colored_def)
  moreover have "i \<notin> colored Black color" using assms(2) colored_same by blast
  ultimately show ?thesis using assms(1) by (auto simp: dfs_inv_def colored_update)
qed

lemma dfs_inv_black:
  assumes "dfs_inv succ color" "i \<in> colored Gray color" "set (succ i) \<subseteq> colored Black color"
  shows "dfs_inv succ (color[i := Black])"
proof -
  have i: "i < length color" "i \<notin> colored Black color"
    using assms(2) by (simp_all add: colored_def)
  have "(i, i) \<notin> (edges succ (length color))\<^sup>+"
  proof
    assume "(i, i) \<in> (edges succ (length color))\<^sup>+"
    then obtain j where "(i, j) \<in> edges succ (length color)" "(j, i) \<in> (edges succ (length color))\<^sup>*"
      by (meson tranclD)
    then have "i \<in> colored Black color"
      using black_closed [OF assms(1)] assms(3) by (auto simp: edges_def)
    with i show False by blast
  qed
  then show ?thesis
    using assms(1,3) i by (auto simp: dfs_inv_def colored_update)
qed

lemma dfs_ok_cons:
  assumes "dfs_ok succ {j} color (Inr color')" "dfs_ok succ (set js) color' res"
  shows "dfs_ok succ (insert j (set js)) color res"
  using assms by (cases res) (auto simp: dfs_ok_def)

lemma dfs_ok_finish:
  assumes "i \<in> colored White color" "dfs_ok succ (set (succ i)) (color[i := Gray]) (Inr color')"
  shows "dfs_ok succ {i} color (Inr (color'[i := Black]))"
proof -
  have i: "i < length color" using assms(1) by (simp add: colored_def)
  have l: "length color' = length color" and g: "colored Gray color' = insert i (colored Gray color)"
    and w: "colored White color' \<subseteq> colored White color - {i}" and b: "colored Black color \<subseteq> colored Black color'"
    and s: "set (succ i) \<subseteq> colored Black color'" and inv: "dfs_inv succ color'"
    using assms(2) i colored_same [OF assms(1), of Black] by (auto simp: dfs_ok_def colored_update)
  have "i \<in> colored Gray color'" using g by simp
  moreover have "i \<notin> colored Gray color" using colored_same [OF assms(1), of Gray] by blast
  ultimately show ?thesis
    using dfs_inv_black [OF inv _ s] i l g w b by (auto simp: dfs_ok_def colored_update)
qed

lemma dfs_correct:
  shows "i < length color \<Longrightarrow> \<forall>i < length color. set (succ i) \<subseteq> {..< length color} \<Longrightarrow> dfs_inv succ color \<Longrightarrow>
     card (colored White color) < fuel \<Longrightarrow>
     \<forall>g \<in> colored Gray color. (g, i) \<in> (edges succ (length color))\<^sup>+ \<Longrightarrow>
     dfs_ok succ {i} color (dfs_visit succ fuel i color)"
    and "set js \<subseteq> {..< length color} \<Longrightarrow> \<forall>i < length color. set (succ i) \<subseteq> {..< length color} \<Longrightarrow> dfs_inv succ color \<Longrightarrow>
     card (colored White color) < fuel \<Longrightarrow>
     \<forall>g \<in> colored Gray color. \<forall>j \<in> set js. (g, j) \<in> (edges succ (length color))\<^sup>+ \<Longrightarrow>
     dfs_ok succ (set js) color (dfs_visit_all succ fuel js color)"
proof (induction succ fuel i color and succ fuel js color rule: dfs_visit_dfs_visit_all.induct)
  case (1 succ i color)
  then show ?case by simp
next
  case (2 succ fuel i color)
  show ?case
  proof (cases "color ! i")
    case Gray
    then show ?thesis using 2(2,6) by (auto simp: dfs_ok_def colored_def)
  next
    case Black
    then show ?thesis using 2(2,4) by (auto simp: dfs_ok_def colored_def)
  next
    case White
    let ?c = "color[i := Gray]"
    let ?E = "edges succ (length color)"
    have w: "i \<in> colored White color" using White 2(2) by (simp add: colored_def)
    have cw: "colored White ?c = colored White color - {i}" "colored Gray ?c = insert i (colored Gray color)"
      using 2(2) by (simp_all add: colored_update)
    have "card (colored White ?c) < card (colored White color)"
      unfolding cw using w by (intro card_Diff1_less) simp_all
    then have fuel: "card (colored White ?c) < fuel" using 2(5) by linarith
    have "(g, j) \<in> ?E\<^sup>+" if "g \<in> colored Gray ?c" "j \<in> set (succ i)" for g j
    proof -
      have ij: "(i, j) \<in> ?E" using that 2(2) by (simp add: edges_def)
      show ?thesis
      proof (cases "g = i")
        case True
        with ij show ?thesis by blast
      next
        case False
        with that cw 2(6) have "(g, i) \<in> ?E\<^sup>+" by blast
        then show ?thesis using ij by (rule trancl_into_trancl)
      qed
    qed
    then have ok: "dfs_ok succ (set (succ i)) ?c (dfs_visit_all succ fuel (succ i) ?c)"
      using 2(1) [OF White] 2(2,3) fuel dfs_inv_gray [OF 2(4) w] by simp
    show ?thesis
    proof (cases "dfs_visit_all succ fuel (succ i) ?c")
      case (Inl e)
      with ok White show ?thesis by (simp add: dfs_ok_def)
    next
      case (Inr c')
      with ok White show ?thesis using dfs_ok_finish [OF w, of succ c'] by simp
    qed
  qed
next
  case (3 succ fuel color)
  then show ?case by (simp add: dfs_ok_def)
next
  case (4 succ fuel j js color)
  have ok: "dfs_ok succ {j} color (dfs_visit succ fuel j color)"
    using 4(1) 4(3-) by simp
  show ?case
  proof (cases "dfs_visit succ fuel j color")
    case (Inl e)
    with ok show ?thesis by (simp add: dfs_ok_def)
  next
    case (Inr c')
    with ok have l: "length c' = length color" "dfs_inv succ c'" "colored Gray c' = colored Gray color"
      "colored White c' \<subseteq> colored White color"
      by (auto simp: dfs_ok_def)
    have "card (colored White c') \<le> card (colored White color)"
      using l(4) by (intro card_mono) simp_all
    then have "dfs_ok succ (set js) c' (dfs_visit_all succ fuel js c')"
      using 4(2) [OF Inr] 4(3-) l by simp
    with ok Inr show ?thesis using dfs_ok_cons by simp
  qed
qed

lemma prereq_indices_bound: "set (prereq_indices tasks i) \<subseteq> {..< length tasks}"
proof
  fix j assume "j \<in> set (prereq_indices tasks i)"
  then obtain p where "task_index tasks p = Some j"
    by (auto simp: prereq_indices_def List.map_filter_def)
  then have "(p, j) \<in> set (rev (zip (map tk_id tasks) [0..<length tasks]))"
    unfolding task_index_def by (rule map_of_SomeD)
  then show "j \<in> {..< length tasks}" by (auto dest: set_zip_rightD)
qed

definition prereq_rel :: "Task list \<Rightarrow> (nat \<times> nat) set" where
  "prereq_rel tasks = edges (prereq_indices tasks) (length tasks)"

lemma dfs_from_white:
  "dfs_ok (prereq_indices tasks) {..< length tasks} (replicate (length tasks) White)
     (dfs_visit_all (prereq_indices tasks) (Suc (length tasks)) [0..<length tasks] (replicate (length tasks) White))"
proof -
  let ?c = "replicate (length tasks) White"
  have c: "colored Black ?c = {}" "colored Gray ?c = {}" "colored White ?c = {..< length tasks}"
    by (auto simp: colored_def)
  have "dfs_ok (prereq_indices tasks) (set [0..<length tasks]) ?c
     (dfs_visit_all (prereq_indices tasks) (Suc (length tasks)) [0..<length tasks] ?c)"
    using prereq_indices_bound [of tasks] by (intro dfs_correct(2)) (simp_all add: c dfs_inv_def, force)
  then show ?thesis by (simp add: atLeast0LessThan)
qed

lemma detectTaskCycles_reports:
  assumes "detectTaskCycles tasks = Some e"
  shows "\<exists>k. e = CycleAt k \<and> (k, k) \<in> (prereq_rel tasks)\<^sup>+"
  using assms dfs_from_white [of tasks]
  by (auto simp: detectTaskCycles_def dfs_ok_def prereq_rel_def split: sum.splits)

lemma detectTaskCycles_acyclic:
  assumes "detectTaskCycles tasks = None"
  shows "acyclic (prereq_rel tasks)"
proof (rule acyclicI, rule allI, rule notI)
  fix i assume c: "(i, i) \<in> (prereq_rel tasks)\<^sup>+"
  then obtain j where "(i, j) \<in> prereq_rel tasks" by (meson tranclD)
  then have "i < length tasks" by (simp add: prereq_rel_def edges_def)
  moreover obtain color where "dfs_inv (prereq_indices tasks) color" "length color = length tasks"
    "{..< length tasks} \<subseteq> colored Black color"
    using assms dfs_from_white [of tasks] by (auto simp: detectTaskCycles_def dfs_ok_def split: sum.splits)
  ultimately show False using c by (auto simp: dfs_inv_def prereq_rel_def)
qed

text \<open>
  C29. The cycle detector accepts a task list exactly when the prerequisite relation between its
  tasks is acyclic, and what it reports is the index of a task on a cycle: it never gives up.
\<close>
theorem detectTaskCycles_correct:
  "(detectTaskCycles tasks = None \<longleftrightarrow> acyclic (prereq_rel tasks)) \<and>
   (detectTaskCycles tasks \<noteq> None \<longleftrightarrow>
      (\<exists>k. detectTaskCycles tasks = Some (CycleAt k) \<and> (k, k) \<in> (prereq_rel tasks)\<^sup>+))"
proof (cases "detectTaskCycles tasks")
  case None
  with detectTaskCycles_acyclic show ?thesis by simp
next
  case (Some e)
  with detectTaskCycles_reports [OF Some] show ?thesis by (auto simp: acyclic_def)
qed

section \<open>What validation guarantees\<close>

fun tree_ok :: "CheckTree \<Rightarrow> string list \<Rightarrow> bool" where
  "tree_ok (CheckTree all any cid opt) ids \<longleftrightarrow>
     (if cid \<noteq> [] then all = [] \<and> any = [] \<and> cid \<in> set ids
      else if all \<noteq> [] then any = [] \<and> list_all (\<lambda>c. tree_ok c ids) all
      else any \<noteq> [] \<and> list_all (\<lambda>c. tree_ok c ids) any)"

lemma validateCheckTree_ok: "validateCheckTree t ids = None \<longleftrightarrow> tree_ok t ids"
  by (induction t ids rule: validateCheckTree.induct) (auto simp: Let_def list.pred_map list_all_iff)

interpretation check_loop: id_loop "validateCheck pf rx" ck_id "\<lambda>ch. validate_check_kind pf rx ch = None" for pf rx
  by unfold_locales (simp_all add: validateCheck_def)

interpretation hint_loop: id_loop validate_hint hi_id "\<lambda>h. idRE (hi_id h)"
  by unfold_locales (simp_all add: validate_hint_def)

interpretation block_loop: id_loop validate_block ib_id "\<lambda>b. validate_block_kind b = None"
  by unfold_locales (simp_all add: validate_block_def)

interpretation task_loop: id_loop "validate_task checkIDs hintIDs" tk_id
  "\<lambda>t. tree_ok (tk_completion t) checkIDs \<and> list_all (\<lambda>h. h \<in> set hintIDs) (tk_hint_ids t)" for checkIDs hintIDs
  by unfold_locales (simp_all add: validate_task_def validateCheckTree_ok)

interpretation prompt_loop: id_loop validate_prompt tp_id "\<lambda>p. trim_space (tp_text p) \<noteq> []"
  by unfold_locales (simp_all add: validate_prompt_def)

interpretation fixture_loop: id_loop validate_fixture fixture_key "\<lambda>f. accepted_path (fx_path f)"
proof
  fix f seen assume a: "validate_fixture f seen = None"
  then obtain rel where rel: "SafeRelPath (fx_path f) = Inr rel"
    by (cases "SafeRelPath (fx_path f)") (simp_all add: validate_fixture_def)
  with a show "fixture_key f \<notin> set seen" by (simp add: validate_fixture_def fixture_key_def)
  show "accepted_path (fx_path f)" using rel SafeRelPath_rejects [of "fx_path f"] by auto
qed

interpretation standard_loop: id_loop validate_standard standard_key
  "\<lambda>s. sr_role s = StandardRolePrimary \<or> sr_role s = StandardRoleReinforcement"
  by unfold_locales (auto simp: validate_standard_def)

interpretation rubric_loop: id_loop validate_criterion rc_id "\<lambda>c. idRE (rc_id c)"
  by unfold_locales (simp_all add: validate_criterion_def)

definition kind_matches :: "string \<Rightarrow> ActivityContent \<Rightarrow> bool" where
  "kind_matches kind c \<longleftrightarrow>
     (kind = KindTerminal \<and> ac_typing c = None \<and>
        (\<exists>t. ac_terminal c = Some t \<and> distinct (map fixture_key (tc_fixtures t)) \<and>
             list_all (\<lambda>f. accepted_path (fx_path f)) (tc_fixtures t))) \<or>
     (kind = KindTyping \<and> ac_terminal c = None \<and>
        (\<exists>t. ac_typing c = Some t \<and> ty_prompts t \<noteq> [] \<and> distinct (map tp_id (ty_prompts t)) \<and>
             list_all (\<lambda>p. trim_space (tp_text p) \<noteq> []) (ty_prompts t)))"

definition task_wf :: "ActivityContent \<Rightarrow> Task \<Rightarrow> bool" where
  "task_wf c t \<longleftrightarrow> tree_ok (tk_completion t) (map ck_id (ac_checks c)) \<and>
     set (tk_hint_ids t) \<subseteq> set (map hi_id (ac_hints c)) \<and>
     set (tk_prerequisites t) \<subseteq> set (map tk_id (ac_tasks c)) - {tk_id t}"

definition content_wf :: "string \<Rightarrow> ActivityContent \<Rightarrow> bool" where
  "content_wf kind c \<longleftrightarrow> kind_matches kind c \<and>
     ac_checks c \<noteq> [] \<and> distinct (map ck_id (ac_checks c)) \<and>
     distinct (map hi_id (ac_hints c)) \<and> distinct (map ib_id (ac_blocks c)) \<and>
     ac_tasks c \<noteq> [] \<and> distinct (map tk_id (ac_tasks c)) \<and>
     list_all (task_wf c) (ac_tasks c) \<and> acyclic (prereq_rel (ac_tasks c))"

lemma validate_kind_matches:
  assumes "validate_kind_content kind c = None"
  shows "kind_matches kind c"
proof (cases "kind = KindTerminal")
  case True
  with assms obtain t where t: "ac_terminal c = Some t" "ac_typing c = None"
    "each_seen validate_fixture fixture_key [] (tc_fixtures t) = None"
    by (auto simp: validate_kind_content_def validateTerminal_def split: option.splits)
  with True fixture_loop.accepts_distinct [OF t(3)] fixture_loop.accepts_ok [OF t(3)]
  show ?thesis by (simp add: kind_matches_def)
next
  case False
  with assms have k: "kind = KindTyping" by (auto simp: validate_kind_content_def split: if_splits)
  with False assms obtain t where t: "ac_typing c = Some t" "ac_terminal c = None" "ty_prompts t \<noteq> []"
    "each_seen validate_prompt tp_id [] (ty_prompts t) = None"
    by (auto simp: validate_kind_content_def validateTyping_def split: option.splits)
  with k prompt_loop.accepts_distinct [OF t(4)] prompt_loop.accepts_ok [OF t(4)]
  show ?thesis by (simp add: kind_matches_def)
qed

text \<open>
  C30. Content that passes validation is well formed: it carries the payload of its kind and no
  other, its fixture paths stay in the workspace, all identifiers are unique, every completion
  tree is a proper tree over checks of the content, hints and prerequisites exist, and the
  tasks can be worked through without running into a prerequisite cycle.
\<close>
theorem ValidateContent_sound:
  assumes "ValidateContent pf rx kind (Some c) = None"
  shows "content_wf kind c"
proof -
  have v: "validate_kind_content kind c = None" "ac_checks c \<noteq> []" "ac_tasks c \<noteq> []"
    "detectTaskCycles (ac_tasks c) = None"
    and checks: "each_seen (validateCheck pf rx) ck_id [] (ac_checks c) = None"
    and hints: "each_seen validate_hint hi_id [] (ac_hints c) = None"
    and blocks: "each_seen validate_block ib_id [] (ac_blocks c) = None"
    and tasks: "each_seen (validate_task (map ck_id (ac_checks c)) (map hi_id (ac_hints c))) tk_id [] (ac_tasks c) = None"
    and pres: "list_all (\<lambda>t. validate_prerequisites (map tk_id (ac_tasks c)) t = None) (ac_tasks c)"
    using assms by (simp_all add: ValidateContent_def validate_content_body_def validateInstructionBlocks_def)
  have "list_all (task_wf c) (ac_tasks c)"
    using task_loop.accepts_ok [OF tasks] pres
    by (auto simp: list_all_iff task_wf_def validate_prerequisites_def)
  moreover have "acyclic (prereq_rel (ac_tasks c))"
    using v(4) by (rule detectTaskCycles_acyclic)
  ultimately show ?thesis
    using v validate_kind_matches [OF v(1)] check_loop.accepts_distinct [OF checks]
      hint_loop.accepts_distinct [OF hints] block_loop.accepts_distinct [OF blocks]
      task_loop.accepts_distinct [OF tasks]
    by (simp add: content_wf_def)
qed

text \<open>An activity with a filesystem check, a command check and two ordered tasks.\<close>

definition leaf :: "string \<Rightarrow> CheckTree" where
  "leaf i = CheckTree [] [] i False"

definition ex_check :: "string \<Rightarrow> string \<Rightarrow> params \<Rightarrow> Check" where
  "ex_check i kind ps = \<lparr>ck_id = i, ck_kind = kind, ck_optional = False, ck_params = ps, ck_stages = [],
     ck_evidence_bearing = None, ck_invariant_at = []\<rparr>"

definition ex_task :: "string \<Rightarrow> string list \<Rightarrow> CheckTree \<Rightarrow> Task" where
  "ex_task i pres tree = \<lparr>tk_id = i, tk_title = ''List'', tk_instructions = ''List the files'', tk_kind = [],
     tk_prerequisites = pres, tk_completion = tree, tk_hint_ids = [], tk_optional = False, tk_response = None\<rparr>"

definition ex_content :: ActivityContent where
  "ex_content = \<lparr>ac_objective = ''Find a file'', ac_instructions = ''Use ls'', ac_blocks = [],
     ac_terminal = Some \<lparr>tc_runtime_profile = RuntimeCoreutilsBasic,
       tc_fixtures = [\<lparr>fx_path = ''notes/a.txt'', fx_type = FixtureFile, fx_content = ''hi'', fx_mode = ''0644''\<rparr>],
       tc_initial_cwd = ''notes'', tc_shell = []\<rparr>,
     ac_typing = None,
     ac_tasks = [ex_task ''t1'' [] (leaf ''made''), ex_task ''t2'' [''t1''] (CheckTree [leaf ''made'', leaf ''ran''] [] [] False)],
     ac_checks = [ex_check ''made'' CheckFileExists [(''path'', AnyString ''notes/a.txt'')],
       ex_check ''ran'' CheckCommandProperties [(''executable'', AnyString ''ls'')]],
     ac_hints = [], ac_tutor = None, ac_progression = None, ac_artifacts = None\<rparr>"

lemma ex_content_valid: "ValidateContent (\<lambda>_. None) (\<lambda>_. True) KindTerminal (Some ex_content) = None"
  by code_simp

theorem ValidateContent_sound_witness:
  "ValidateContent (\<lambda>_. None) (\<lambda>_. True) KindTerminal (Some ex_content) = None \<and> content_wf KindTerminal ex_content"
  using ex_content_valid ValidateContent_sound [OF ex_content_valid] by simp

end
