(* ===== verification/Utf8.thy ===== *)
theory Utf8
  imports Prelude
begin

text \<open>
  Go's conversions between strings and runes.  A string is its bytes, a rune is the
  integer of its code point; \<open>runes_of\<close> is \<^verbatim>\<open>[]rune(s)\<close> (an invalid byte decodes to U+FFFD
  and is one byte wide) and \<open>string_of_runes\<close> is \<^verbatim>\<open>string(rs)\<close>.  The one law the
  development needs is that converting scalar values to a string and back is the
  identity, and that \<open>runes_of\<close> yields scalar values only.
\<close>

section \<open>Decoding and encoding\<close>

type_synonym rune = int

definition rune_error :: rune where
  "rune_error = 0xFFFD"

definition scalar :: "rune \<Rightarrow> bool" where
  "scalar r \<longleftrightarrow> (0 \<le> r \<and> r < 0xD800) \<or> (0xE000 \<le> r \<and> r \<le> 0x10FFFF)"

definition cont_byte :: "int \<Rightarrow> bool" where
  "cont_byte b \<longleftrightarrow> 0x80 \<le> b \<and> b \<le> 0xBF"

fun decode_rune :: "int list \<Rightarrow> rune \<times> nat" where
  "decode_rune [] = (rune_error, 0)"
| "decode_rune (b0 # bs) =
     (if b0 < 0x80 then (b0, 1)
      else if 0xC2 \<le> b0 \<and> b0 \<le> 0xDF then
        (case bs of
           b1 # _ \<Rightarrow> if cont_byte b1 then ((b0 - 0xC0) * 64 + (b1 - 0x80), 2) else (rune_error, 1)
         | _ \<Rightarrow> (rune_error, 1))
      else if 0xE0 \<le> b0 \<and> b0 \<le> 0xEF then
        (case bs of
           b1 # b2 # _ \<Rightarrow>
             if (if b0 = 0xE0 then 0xA0 else 0x80) \<le> b1 \<and> b1 \<le> (if b0 = 0xED then 0x9F else 0xBF)
                \<and> cont_byte b2
             then ((b0 - 0xE0) * 4096 + (b1 - 0x80) * 64 + (b2 - 0x80), 3) else (rune_error, 1)
         | _ \<Rightarrow> (rune_error, 1))
      else if 0xF0 \<le> b0 \<and> b0 \<le> 0xF4 then
        (case bs of
           b1 # b2 # b3 # _ \<Rightarrow>
             if (if b0 = 0xF0 then 0x90 else 0x80) \<le> b1 \<and> b1 \<le> (if b0 = 0xF4 then 0x8F else 0xBF)
                \<and> cont_byte b2 \<and> cont_byte b3
             then ((b0 - 0xF0) * 262144 + (b1 - 0x80) * 4096 + (b2 - 0x80) * 64 + (b3 - 0x80), 4)
             else (rune_error, 1)
         | _ \<Rightarrow> (rune_error, 1))
      else (rune_error, 1))"

declare decode_rune.simps [simp del]

function decode_runes :: "int list \<Rightarrow> rune list" where
  "decode_runes [] = []"
| "decode_runes (b # bs) =
     (let d = decode_rune (b # bs) in fst d # decode_runes (drop (max 1 (snd d)) (b # bs)))"
  by pat_completeness auto
termination by (relation "measure length") (auto simp: max_def)

definition encode_rune :: "rune \<Rightarrow> int list" where
  "encode_rune r0 =
     (let r = (if scalar r0 then r0 else rune_error) in
      if r < 0x80 then [r]
      else if r < 0x800 then [0xC0 + r div 64, 0x80 + r mod 64]
      else if r < 0x10000 then [0xE0 + r div 4096, 0x80 + r div 64 mod 64, 0x80 + r mod 64]
      else [0xF0 + r div 262144, 0x80 + r div 4096 mod 64, 0x80 + r div 64 mod 64, 0x80 + r mod 64])"

definition runes_of :: "string \<Rightarrow> rune list" where
  "runes_of s = decode_runes (map of_char s)"

definition string_of_runes :: "rune list \<Rightarrow> string" where
  "string_of_runes rs = map char_of (concat (map encode_rune rs))"

section \<open>The round trip\<close>

lemma base64_split:
  fixes r :: int
  shows "r div 64 * 64 + r mod 64 = r"
    and "r div 4096 * 4096 + (r div 64 mod 64) * 64 + r mod 64 = r"
    and "r div 262144 * 262144 + (r div 4096 mod 64) * 4096 + (r div 64 mod 64) * 64 + r mod 64 = r"
proof -
  have d: "r div 4096 = r div 64 div 64" "r div 262144 = r div 64 div 64 div 64"
    by (simp_all add: div_mult2_eq [symmetric])
  have 1: "r div 64 * 64 + r mod 64 = r" by (rule div_mult_mod_eq)
  have 2: "r div 64 div 64 * 64 + r div 64 mod 64 = r div 64" by (rule div_mult_mod_eq)
  have 3: "r div 64 div 64 div 64 * 64 + r div 64 div 64 mod 64 = r div 64 div 64"
    by (rule div_mult_mod_eq)
  show "r div 64 * 64 + r mod 64 = r" by (rule 1)
  show "r div 4096 * 4096 + (r div 64 mod 64) * 64 + r mod 64 = r"
    unfolding d using 1 2 by linarith
  show "r div 262144 * 262144 + (r div 4096 mod 64) * 4096 + (r div 64 mod 64) * 64 + r mod 64 = r"
    unfolding d using 1 2 3 by linarith
qed

lemma decode_two:
  assumes "2 \<le> x" "x \<le> 31" "0 \<le> y" "y < 64"
  shows "decode_rune ((0xC0 + x) # (0x80 + y) # bs) = (x * 64 + y, 2)"
proof -
  have "\<not> 0xC0 + x < 0x80" "0xC2 \<le> 0xC0 + x \<and> 0xC0 + x \<le> 0xDF" "cont_byte (0x80 + y)"
    using assms by (simp_all add: cont_byte_def)
  then show ?thesis by (simp only: decode_rune.simps if_False if_True list.case) simp
qed

lemma decode_three:
  assumes "0 \<le> x" "x \<le> 15" "0 \<le> y" "y < 64" "0 \<le> z" "z < 64"
    "x = 0 \<Longrightarrow> 32 \<le> y" "x = 13 \<Longrightarrow> y \<le> 31"
  shows "decode_rune ((0xE0 + x) # (0x80 + y) # (0x80 + z) # bs) = (x * 4096 + y * 64 + z, 3)"
proof -
  have g: "\<not> 0xE0 + x < 0x80" "\<not> (0xC2 \<le> 0xE0 + x \<and> 0xE0 + x \<le> 0xDF)"
    "0xE0 \<le> 0xE0 + x \<and> 0xE0 + x \<le> 0xEF"
    "(if 0xE0 + x = 0xE0 then 0xA0 else 0x80) \<le> 0x80 + y
      \<and> 0x80 + y \<le> (if 0xE0 + x = 0xED then 0x9F else 0xBF) \<and> cont_byte (0x80 + z)"
    using assms by (auto simp: cont_byte_def)
  show ?thesis by (simp only: decode_rune.simps g if_False if_True list.case simp_thms) simp
qed

lemma decode_four:
  assumes "0 \<le> x" "x \<le> 4" "0 \<le> y" "y < 64" "0 \<le> z" "z < 64" "0 \<le> w" "w < 64"
    "x = 0 \<Longrightarrow> 16 \<le> y" "x = 4 \<Longrightarrow> y \<le> 15"
  shows "decode_rune ((0xF0 + x) # (0x80 + y) # (0x80 + z) # (0x80 + w) # bs) =
    (x * 262144 + y * 4096 + z * 64 + w, 4)"
proof -
  have g: "\<not> 0xF0 + x < 0x80" "\<not> (0xC2 \<le> 0xF0 + x \<and> 0xF0 + x \<le> 0xDF)"
    "\<not> (0xE0 \<le> 0xF0 + x \<and> 0xF0 + x \<le> 0xEF)" "0xF0 \<le> 0xF0 + x \<and> 0xF0 + x \<le> 0xF4"
    "(if 0xF0 + x = 0xF0 then 0x90 else 0x80) \<le> 0x80 + y
      \<and> 0x80 + y \<le> (if 0xF0 + x = 0xF4 then 0x8F else 0xBF) \<and> cont_byte (0x80 + z) \<and> cont_byte (0x80 + w)"
    using assms by (auto simp: cont_byte_def)
  show ?thesis by (simp only: decode_rune.simps g if_False if_True list.case simp_thms) simp
qed

lemma div_bounds:
  fixes r c :: int
  shows "0 < c \<Longrightarrow> a * c \<le> r \<Longrightarrow> a \<le> r div c" and "0 < c \<Longrightarrow> r < b * c \<Longrightarrow> r div c < b"
proof -
  assume c: "0 < c"
  { assume "a * c \<le> r"
    then have "a * c div c \<le> r div c" using c by (rule zdiv_mono1)
    with c show "a \<le> r div c" by simp }
  { assume r: "r < b * c"
    have "r div c * c \<le> r" using c by (simp add: minus_mod_eq_div_mult [symmetric])
    with r have "r div c * c < b * c" by linarith
    with c show "r div c < b" by simp }
qed

lemma second_digit:
  fixes a b c d r :: int
  assumes "a * 262144 + b * 4096 + c * 64 + d = r" "0 \<le> c \<and> c < 64" "0 \<le> d \<and> d < 64"
  shows "a = 0 \<Longrightarrow> 0x10000 \<le> r \<Longrightarrow> 16 \<le> b" and "a = 4 \<Longrightarrow> r \<le> 0x10FFFF \<Longrightarrow> b \<le> 15"
  using assms by linarith+

lemma decode_encode_rune:
  assumes "scalar r"
  shows "decode_rune (encode_rune r @ bs) = (r, length (encode_rune r))"
proof -
  note s = assms [unfolded scalar_def]
  have m: "0 \<le> x mod 64 \<and> x mod 64 < 64" for x :: int by simp
  consider (one) "r < 0x80" | (two) "0x80 \<le> r" "r < 0x800" | (three) "0x800 \<le> r" "r < 0x10000"
    | (four) "0x10000 \<le> r" by linarith
  then show ?thesis
  proof cases
    case one
    with assms show ?thesis by (simp add: encode_rune_def decode_rune.simps)
  next
    case two
    then have e: "encode_rune r = [0xC0 + r div 64, 0x80 + r mod 64]"
      using assms by (simp add: encode_rune_def Let_def)
    have "2 \<le> r div 64" "r div 64 < 32"
      using div_bounds(1) [of 64 2 r] div_bounds(2) [of 64 r 32] two by simp_all
    then have "decode_rune ((0xC0 + r div 64) # (0x80 + r mod 64) # bs) = (r div 64 * 64 + r mod 64, 2)"
      by (intro decode_two) simp_all
    then show ?thesis unfolding e base64_split(1) by simp
  next
    case three
    then have e: "encode_rune r = [0xE0 + r div 4096, 0x80 + r div 64 mod 64, 0x80 + r mod 64]"
      using assms by (simp add: encode_rune_def Let_def)
    have a: "0 \<le> r div 4096" "r div 4096 < 16"
      using div_bounds(1) [of 4096 0 r] div_bounds(2) [of 4096 r 16] three by simp_all
    have lo: "32 \<le> r div 64 mod 64" if "r div 4096 = 0"
      using base64_split(2) [of r] that three m [of r] by linarith
    have hi: "r div 64 mod 64 \<le> 31" if "r div 4096 = 13"
      using base64_split(2) [of r] that three s m [of r] by linarith
    have "decode_rune ((0xE0 + r div 4096) # (0x80 + r div 64 mod 64) # (0x80 + r mod 64) # bs) =
        (r div 4096 * 4096 + (r div 64 mod 64) * 64 + r mod 64, 3)"
      using a lo hi by (intro decode_three) simp_all
    then show ?thesis unfolding e base64_split(2) by simp
  next
    case four
    then have e: "encode_rune r =
        [0xF0 + r div 262144, 0x80 + r div 4096 mod 64, 0x80 + r div 64 mod 64, 0x80 + r mod 64]"
      using assms by (simp add: encode_rune_def Let_def)
    have a: "0 \<le> r div 262144" "r div 262144 < 5"
      using div_bounds(1) [of 262144 0 r] div_bounds(2) [of 262144 r 5] four s by simp_all
    have lo: "16 \<le> r div 4096 mod 64" if "r div 262144 = 0"
      by (rule second_digit(1) [OF base64_split(3) m m that four])
    have hi: "r div 4096 mod 64 \<le> 15" if "r div 262144 = 4"
      by (rule second_digit(2) [OF base64_split(3) m m that]) (use s four in linarith)
    have "decode_rune ((0xF0 + r div 262144) # (0x80 + r div 4096 mod 64) # (0x80 + r div 64 mod 64)
          # (0x80 + r mod 64) # bs) =
        (r div 262144 * 262144 + (r div 4096 mod 64) * 4096 + (r div 64 mod 64) * 64 + r mod 64, 4)"
      using a lo hi by (intro decode_four) simp_all
    then show ?thesis unfolding e base64_split(3) by simp
  qed
qed

lemma encode_rune_nonempty: "encode_rune r \<noteq> []"
  by (simp add: encode_rune_def Let_def)

lemma decode_runes_encode:
  "list_all scalar rs \<Longrightarrow> decode_runes (concat (map encode_rune rs)) = rs"
proof (induction rs)
  case (Cons r rs)
  obtain b bs where e: "encode_rune r = b # bs" by (meson encode_rune_nonempty neq_Nil_conv)
  have d: "decode_rune (b # (bs @ concat (map encode_rune rs))) = (r, Suc (length bs))"
    using decode_encode_rune [of r "concat (map encode_rune rs)"] Cons.prems by (simp add: e)
  with Cons show ?case by (simp add: e)
qed simp

lemma encode_rune_bytes: "x \<in> set (encode_rune r) \<Longrightarrow> 0 \<le> x \<and> x < 256"
proof -
  define q where "q = (if scalar r then r else rune_error)"
  have q: "0 \<le> q" "q \<le> 0x10FFFF" by (auto simp: q_def scalar_def rune_error_def)
  have d: "q < 0x800 \<Longrightarrow> q div 64 < 32" "q < 0x10000 \<Longrightarrow> q div 4096 < 16" "q div 262144 < 5"
    using div_bounds(2) [of 64 q 32] div_bounds(2) [of 4096 q 16] div_bounds(2) [of 262144 q 5] q by simp_all
  have n: "0 \<le> q div 64" "0 \<le> q div 4096" "0 \<le> q div 262144"
    using q by (simp_all add: pos_imp_zdiv_nonneg_iff)
  have m: "0 \<le> q mod 64" "q mod 64 < 64" "0 \<le> q div 64 mod 64" "q div 64 mod 64 < 64"
    "0 \<le> q div 4096 mod 64" "q div 4096 mod 64 < 64" by simp_all
  have e: "encode_rune r =
      (if q < 0x80 then [q]
       else if q < 0x800 then [0xC0 + q div 64, 0x80 + q mod 64]
       else if q < 0x10000 then [0xE0 + q div 4096, 0x80 + q div 64 mod 64, 0x80 + q mod 64]
       else [0xF0 + q div 262144, 0x80 + q div 4096 mod 64, 0x80 + q div 64 mod 64, 0x80 + q mod 64])"
    by (simp add: encode_rune_def Let_def q_def)
  define a1 a2 a3 b1 b2 b3 where
    "a1 = q div 64" and "a2 = q div 4096" and "a3 = q div 262144"
    and "b1 = q mod 64" and "b2 = q div 64 mod 64" and "b3 = q div 4096 mod 64"
  note fold = this [symmetric]
  assume "x \<in> set (encode_rune r)"
  then show ?thesis
    using q d n m unfolding e fold by (auto split: if_splits)
qed

lemma of_char_char_of: "0 \<le> x \<Longrightarrow> x < 256 \<Longrightarrow> of_char (char_of (x :: int)) = x"
  by simp

lemma runes_of_string_of_runes:
  assumes "list_all scalar rs"
  shows "runes_of (string_of_runes rs) = rs"
proof -
  have "map of_char (map char_of (concat (map encode_rune rs))) = concat (map encode_rune rs)"
  proof (subst map_map, rule map_idI)
    fix x assume "x \<in> set (concat (map encode_rune rs))"
    then obtain r where "x \<in> set (encode_rune r)" by auto
    then show "(of_char \<circ> char_of) x = x" using encode_rune_bytes [of x r] by (simp add: of_char_char_of)
  qed
  then show ?thesis
    using decode_runes_encode [OF assms] by (simp add: runes_of_def string_of_runes_def)
qed

lemma decode_rune_scalar:
  assumes "0 \<le> b"
  shows "scalar (fst (decode_rune (b # bs)))"
proof -
  have e: "scalar rune_error" by (simp add: scalar_def rune_error_def)
  consider (one) "b < 0x80" | (two) "0xC2 \<le> b" "b \<le> 0xDF" | (three) "0xE0 \<le> b" "b \<le> 0xEF"
    | (four) "0xF0 \<le> b" "b \<le> 0xF4" | (bad) "0x80 \<le> b" "b < 0xC2 \<or> 0xF4 < b" by linarith
  then show ?thesis
  proof cases
    case one
    with assms show ?thesis by (simp add: decode_rune.simps scalar_def)
  next
    case two
    then show ?thesis
      using e by (simp add: decode_rune.simps split: list.split) (simp add: scalar_def cont_byte_def)
  next
    case three
    then show ?thesis
      using e by (simp add: decode_rune.simps split: list.split)
        (simp add: scalar_def cont_byte_def; linarith)
  next
    case four
    then show ?thesis
      using e by (simp add: decode_rune.simps split: list.split)
        (simp add: scalar_def cont_byte_def; linarith)
  next
    case bad
    with e show ?thesis by (auto simp: decode_rune.simps)
  qed
qed

lemma decode_runes_scalar: "\<forall>x \<in> set bs. 0 \<le> x \<Longrightarrow> list_all scalar (decode_runes bs)"
proof (induction bs rule: decode_runes.induct)
  case (2 b bs)
  have "\<forall>x \<in> set (drop (max 1 (snd (decode_rune (b # bs)))) (b # bs)). 0 \<le> x"
    using 2(2) by (meson in_set_dropD)
  with 2 show ?case by (simp add: decode_rune_scalar Let_def del: drop_Cons')
qed simp

lemma runes_of_scalar: "list_all scalar (runes_of s)"
  proof -
  have "0 \<le> (of_char c :: int)" for c :: char
    using of_nat_0_le_iff [of "of_char c", where 'a = int] by (simp only: of_nat_of_char)
  then show ?thesis unfolding runes_of_def by (intro decode_runes_scalar) auto
qed

lemma string_of_runes_inj:
  "list_all scalar a \<Longrightarrow> list_all scalar b \<Longrightarrow> string_of_runes a = string_of_runes b \<longleftrightarrow> a = b"
  by (metis runes_of_string_of_runes)

end
