(* ===== verification/Typing.thy ===== *)
theory Typing
  imports Contracts_Validate Utf8
begin

text \<open>
  The typing runner (\<^verbatim>\<open>studentclient/typing/session.go\<close>): a session over a list of prompts, advanced one
  keystroke at a time, its metrics and the observations it synthesizes for the checks of an activity,
  and the durable state that survives a restart.

  The clock (\<^verbatim>\<open>s.now\<close>) is the argument \<open>now\<close> of the operations that read it, in nanoseconds here;
  the zero time of an unset \<^verbatim>\<open>startedAt\<close> is \<open>None\<close>.  The JSON encoding of the durable state is the
  record itself.  A \<open>%q\<close> in a message is the value between quotes.
\<close>

section \<open>Numbers in messages\<close>

function nat_digits :: "nat \<Rightarrow> string" where
  "nat_digits n = (if n < 10 then [char_of (48 + n)] else nat_digits (n div 10) @ [char_of (48 + n mod 10)])"
  by pat_completeness auto
termination by (relation "measure (\<lambda>n. n)") auto

declare nat_digits.simps [simp del]

definition itoa :: "int \<Rightarrow> string" where
  "itoa n = (if n < 0 then ''-'' @ nat_digits (nat (- n)) else nat_digits (nat n))"

definition format_fixed :: "nat \<Rightarrow> rat \<Rightarrow> string" where
  "format_fixed places x =
     (let scaled = rne (\<bar>x\<bar> * 10 ^ places);
          whole = itoa (scaled div 10 ^ places);
          ds = itoa (scaled mod 10 ^ places);
          sign = (if x < 0 then ''-'' else [])
      in sign @ whole @ (if places = 0 then [] else ''.'' @ replicate (places - length ds) (CHR ''0'') @ ds))"

section \<open>State\<close>

record Metrics =
  me_correct_chars :: int
  me_incorrect_chars :: int
  me_total_keystrokes :: int
  me_completed_prompts :: nat
  me_total_prompts :: nat
  me_elapsed :: duration
  me_wpm :: rat
  me_accuracy :: rat
  me_done :: bool
  me_thresholds_met :: bool

record Session =
  se_content :: TypingContent
  se_checks :: "Check list"
  se_prompt_idx :: nat
  se_input :: "rune list"
  se_correct :: int
  se_incorrect :: int
  se_keys :: int
  se_started_at :: "time option"

definition prompts :: "Session \<Rightarrow> TypingPrompt list" where
  "prompts s = ty_prompts (se_content s)"

definition NewSession :: "TypingContent option \<Rightarrow> Check list \<Rightarrow> string + Session" where
  "NewSession content checks = (case content of
     None \<Rightarrow> Inl ''typing content is required''
   | Some c \<Rightarrow>
       if ty_prompts c = [] then Inl ''typing prompts must not be empty''
       else if list_ex (\<lambda>p. trim_space (tp_text p) = []) (ty_prompts c) then Inl ''typing prompts: empty text''
       else Inr \<lparr>se_content = c, se_checks = checks, se_prompt_idx = 0, se_input = [], se_correct = 0,
              se_incorrect = 0, se_keys = 0, se_started_at = None\<rparr>)"

section \<open>Keystrokes\<close>

definition Done :: "Session \<Rightarrow> bool" where
  "Done s \<longleftrightarrow> length (prompts s) \<le> se_prompt_idx s"

definition markStarted :: "time \<Rightarrow> Session \<Rightarrow> Session" where
  "markStarted now s = (if se_started_at s = None then s\<lparr>se_started_at := Some now\<rparr> else s)"

definition advancePrompt :: "Session \<Rightarrow> Session" where
  "advancePrompt s = s\<lparr>se_prompt_idx := se_prompt_idx s + 1, se_input := []\<rparr>"

definition TypeKey :: "time \<Rightarrow> rune \<Rightarrow> Session \<Rightarrow> Session" where
  "TypeKey now r s =
     (if Done s then s
      else if r < 32 \<and> r \<noteq> 9 then s
      else
        let s1 = (markStarted now s)\<lparr>se_keys := se_keys s + 1\<rparr>;
            prompt = runes_of (tp_text (prompts s ! se_prompt_idx s));
            pos = length (se_input s)
        in if length prompt \<le> pos then s1\<lparr>se_incorrect := se_incorrect s + 1\<rparr>
           else if r = prompt ! pos then
             (let s2 = s1\<lparr>se_input := se_input s @ [r], se_correct := se_correct s + 1\<rparr>
              in if length (se_input s2) = length prompt then advancePrompt s2 else s2)
           else s1\<lparr>se_incorrect := se_incorrect s + 1\<rparr>)"

definition Backspace :: "time \<Rightarrow> Session \<Rightarrow> Session" where
  "Backspace now s =
     (if Done s \<or> se_input s = [] then s
      else let s1 = (markStarted now s)\<lparr>se_keys := se_keys s + 1\<rparr>;
               c = se_correct s - 1
           in s1\<lparr>se_correct := (if c < 0 then 0 else c), se_input := butlast (se_input s)\<rparr>)"

definition SubmitLine :: "Session \<Rightarrow> bool \<times> Session" where
  "SubmitLine s =
     (if Done s then (False, s)
      else let prompt = tp_text (prompts s ! se_prompt_idx s) in
        if string_of_runes (se_input s) \<noteq> prompt then (False, s)
        else if length (se_input s) = length (runes_of prompt) then
          (if se_prompt_idx s < length (prompts s) then (True, advancePrompt s) else (False, s))
        else (False, s))"

definition CurrentPrompt :: "Session \<Rightarrow> string \<times> string" where
  "CurrentPrompt s = (if Done s then ([], [])
     else let p = prompts s ! se_prompt_idx s in (tp_id p, tp_text p))"

definition CurrentInput :: "Session \<Rightarrow> string" where
  "CurrentInput s = string_of_runes (se_input s)"

definition RemainingPrompts :: "Session \<Rightarrow> int" where
  "RemainingPrompts s = (let n = int (length (prompts s)) - int (se_prompt_idx s) in if n < 0 then 0 else n)"

definition TypeString :: "time \<Rightarrow> string \<Rightarrow> Session \<Rightarrow> Session" where
  "TypeString now text s = fold (TypeKey now) (runes_of text) s"

section \<open>Metrics\<close>

definition accuracy :: "int \<Rightarrow> int \<Rightarrow> rat" where
  "accuracy correct incorrect =
     (let total = correct + incorrect
      in if total = 0 then 1 else fdiv (fl (of_int correct)) (fl (of_int total)))"

definition minute_ns :: int where
  "minute_ns = 60000000000"

definition duration_minutes :: "duration \<Rightarrow> rat" where
  "duration_minutes d = fadd (fl (of_int (trunc_div d minute_ns)))
     (fdiv (fl (of_int (d - trunc_div d minute_ns * minute_ns))) (of_int minute_ns))"

definition wpm :: "int \<Rightarrow> duration \<Rightarrow> rat" where
  "wpm correctChars elapsed =
     (if correctChars \<le> 0 then 0
      else let m = duration_minutes elapsed;
               minutes = (if m \<le> 0 then fl (1 / 60) else m)
           in fdiv (fdiv (fl (of_int correctChars)) 5) minutes)"

definition epsilon :: rat where
  "epsilon = fl (1 / 10 ^ 9)"

definition thresholdsMet :: "Metrics \<Rightarrow> TypingContent \<Rightarrow> bool" where
  "thresholdsMet m content =
     (if \<not> me_done m then False
      else let needWPM = (if ty_success_wpm content < 0 then 0 else ty_success_wpm content);
               needAcc = (if ty_success_accuracy content \<le> 0 then 1 else ty_success_accuracy content)
           in if fadd (me_wpm m) epsilon < needWPM then False
              else if fadd (me_accuracy m) epsilon < needAcc then False
              else True)"

definition elapsed_at :: "time \<Rightarrow> Session \<Rightarrow> duration" where
  "elapsed_at now s = (case se_started_at s of None \<Rightarrow> 0 | Some t \<Rightarrow> if now - t < 0 then 0 else now - t)"

definition session_metrics :: "time \<Rightarrow> Session \<Rightarrow> Metrics" where
  "session_metrics now s =
     (let m = \<lparr>me_correct_chars = se_correct s, me_incorrect_chars = se_incorrect s,
                me_total_keystrokes = se_keys s, me_completed_prompts = se_prompt_idx s,
                me_total_prompts = length (prompts s), me_elapsed = elapsed_at now s,
                me_wpm = wpm (se_correct s) (elapsed_at now s),
                me_accuracy = accuracy (se_correct s) (se_incorrect s),
                me_done = Done s, me_thresholds_met = False\<rparr>
      in m\<lparr>me_thresholds_met := me_done m \<and> thresholdsMet m (se_content s)\<rparr>)"

definition MeetsThresholds :: "time \<Rightarrow> Session \<Rightarrow> bool" where
  "MeetsThresholds now s = me_thresholds_met (session_metrics now s)"

section \<open>Observations\<close>

definition metricsMessage :: "Metrics \<Rightarrow> string" where
  "metricsMessage m =
     (if \<not> me_done m then ''prompts '' @ itoa (int (me_completed_prompts m)) @ ''/''
        @ itoa (int (me_total_prompts m)) @ '' incomplete''
      else (if me_thresholds_met m then ''met thresholds: '' else ''thresholds not met: '')
        @ format_fixed 1 (me_wpm m) @ '' wpm, '' @ format_fixed 0 (fmul (me_accuracy m) 100) @ ''% accuracy'')"

definition metricsDetails :: "Metrics \<Rightarrow> params" where
  "metricsDetails m =
     [(''wpm'', AnyFloat (me_wpm m)), (''accuracy'', AnyFloat (me_accuracy m)),
      (''correctChars'', AnyInt (me_correct_chars m)), (''incorrectChars'', AnyInt (me_incorrect_chars m)),
      (''totalKeystrokes'', AnyInt (me_total_keystrokes m)),
      (''completedPrompts'', AnyInt (int (me_completed_prompts m))),
      (''totalPrompts'', AnyInt (int (me_total_prompts m))),
      (''elapsedMs'', AnyInt (trunc_div (me_elapsed m) 1000000)),
      (''done'', AnyBool (me_done m)), (''thresholdsMet'', AnyBool (me_thresholds_met m))]"

definition min_wpm_of :: "(string \<Rightarrow> rat option) \<Rightarrow> Session \<Rightarrow> Check \<Rightarrow> rat" where
  "min_wpm_of pf s ch = (case TypingMinWPM pf (ck_params ch) of
     None \<Rightarrow> ty_success_wpm (se_content s)
   | Some v \<Rightarrow> if v \<le> 0 then ty_success_wpm (se_content s) else v)"

definition min_accuracy_of :: "(string \<Rightarrow> rat option) \<Rightarrow> Session \<Rightarrow> Check \<Rightarrow> rat" where
  "min_accuracy_of pf s ch = (case TypingMinAccuracy pf (ck_params ch) of
     None \<Rightarrow> ty_success_accuracy (se_content s)
   | Some v \<Rightarrow> if v \<le> 0 then ty_success_accuracy (se_content s) else v)"

definition typing_observation :: "(string \<Rightarrow> rat option) \<Rightarrow> time \<Rightarrow> Session \<Rightarrow> Check \<Rightarrow> Observation" where
  "typing_observation pf now s ch =
     (let m = session_metrics now s;
          obs = \<lparr>ob_schema_version = ObservationSchemaVersion, ob_check_id = ck_id ch, ob_kind = ck_kind ch,
                  ob_passed = False, ob_optional = ck_optional ch, ob_message = [], ob_observed_at = now,
                  ob_details = []\<rparr>
      in if ck_kind ch = CheckTypingMetrics then
           (let minWPM = min_wpm_of pf s ch; minAcc = min_accuracy_of pf s ch in
            obs\<lparr>ob_passed := me_done m \<and> minWPM \<le> me_wpm m \<and> minAcc \<le> fadd (me_accuracy m) epsilon,
                ob_message := metricsMessage m,
                ob_details := metricsDetails m @ [(''minWpm'', AnyFloat minWPM), (''minAccuracy'', AnyFloat minAcc)]\<rparr>)
         else obs\<lparr>ob_passed := False,
                 ob_message := ''check kind \"'' @ ck_kind ch @ ''\" is not evaluated by typing runner''\<rparr>)"

definition Observations :: "(string \<Rightarrow> rat option) \<Rightarrow> time \<Rightarrow> Session \<Rightarrow> Observation list" where
  "Observations pf now s =
     (let m = session_metrics now s in
      if se_checks s = [] then
        [\<lparr>ob_schema_version = ObservationSchemaVersion, ob_check_id = ''typing-metrics'',
          ob_kind = CheckTypingMetrics, ob_passed = me_thresholds_met m, ob_optional = False,
          ob_message = metricsMessage m, ob_observed_at = now, ob_details = metricsDetails m\<rparr>]
      else map (typing_observation pf now s) (se_checks s))"

section \<open>Durable state\<close>

record DurableState =
  du_version :: int
  du_prompt_idx :: int
  du_input :: string
  du_correct :: int
  du_incorrect :: int
  du_keys :: int
  du_elapsed_ms :: int
  du_has_started :: bool

definition EncodeState :: "time \<Rightarrow> Session \<Rightarrow> DurableState" where
  "EncodeState now s =
     \<lparr>du_version = 1, du_prompt_idx = int (se_prompt_idx s), du_input = string_of_runes (se_input s),
      du_correct = se_correct s, du_incorrect = se_incorrect s, du_keys = se_keys s,
      du_elapsed_ms = (if se_started_at s \<noteq> None then trunc_div (elapsed_at now s) 1000000 else 0),
      du_has_started = (se_started_at s \<noteq> None)\<rparr>"

definition RestoreState :: "time \<Rightarrow> DurableState option \<Rightarrow> Session \<Rightarrow> string option \<times> Session" where
  "RestoreState now raw s = (case raw of
     None \<Rightarrow> (None, s)
   | Some st \<Rightarrow>
       if du_version st \<noteq> 0 \<and> du_version st \<noteq> 1
       then (Some ''typing restore: unsupported state version'', s)
       else
         let n = int (length (prompts s));
             i0 = (if du_prompt_idx st < 0 then 0 else du_prompt_idx st);
             i = (if n < i0 then n else i0);
             s1 = s\<lparr>se_prompt_idx := nat i, se_input := runes_of (du_input st), se_correct := du_correct st,
                     se_incorrect := du_incorrect st, se_keys := du_keys st\<rparr>
         in (None, if du_has_started st \<or> 0 < du_elapsed_ms st
                   then s1\<lparr>se_started_at := Some (now - du_elapsed_ms st * 1000000)\<rparr> else s1))"

section \<open>Sessions as sequences of actions\<close>

datatype action = Key time rune | Back time | Enter | Restart time time

definition restart :: "time \<Rightarrow> time \<Rightarrow> Session \<Rightarrow> Session" where
  "restart saved_at now s =
     (case NewSession (Some (se_content s)) (se_checks s) of
        Inl _ \<Rightarrow> s
      | Inr s0 \<Rightarrow> snd (RestoreState now (Some (EncodeState saved_at s)) s0))"

fun act :: "action \<Rightarrow> Session \<Rightarrow> Session" where
  "act (Key now r) s = TypeKey now r s"
| "act (Back now) s = Backspace now s"
| "act Enter s = snd (SubmitLine s)"
| "act (Restart saved_at now) s = restart saved_at now s"

definition prompt_runes :: "Session \<Rightarrow> nat \<Rightarrow> rune list" where
  "prompt_runes s i = runes_of (tp_text (prompts s ! i))"

definition completed_chars :: "Session \<Rightarrow> nat \<Rightarrow> nat" where
  "completed_chars s i = sum_list (map (\<lambda>p. length (runes_of (tp_text p))) (take i (prompts s)))"

definition typing_inv :: "Session \<Rightarrow> bool" where
  "typing_inv s \<longleftrightarrow>
     prompts s \<noteq> [] \<and> list_all (\<lambda>p. trim_space (tp_text p) \<noteq> []) (prompts s) \<and>
     se_prompt_idx s \<le> length (prompts s) \<and>
     (if Done s then se_input s = []
      else \<exists>rest. rest \<noteq> [] \<and> prompt_runes s (se_prompt_idx s) = se_input s @ rest) \<and>
     se_correct s = int (completed_chars s (se_prompt_idx s) + length (se_input s)) \<and>
     0 \<le> se_incorrect s \<and> se_correct s + se_incorrect s \<le> se_keys s"

lemma runes_of_nonempty: "s \<noteq> [] \<Longrightarrow> runes_of s \<noteq> []"
  by (cases s) (simp_all add: runes_of_def Let_def)

lemma prompts_update [simp]:
  "prompts (s\<lparr>se_prompt_idx := i\<rparr>) = prompts s" "prompts (s\<lparr>se_input := inp\<rparr>) = prompts s"
  "prompts (s\<lparr>se_correct := c\<rparr>) = prompts s" "prompts (s\<lparr>se_incorrect := c\<rparr>) = prompts s"
  "prompts (s\<lparr>se_keys := c\<rparr>) = prompts s" "prompts (s\<lparr>se_started_at := t\<rparr>) = prompts s"
  by (simp_all add: prompts_def)

lemma markStarted_fields [simp]:
  "prompts (markStarted now s) = prompts s" "se_prompt_idx (markStarted now s) = se_prompt_idx s"
  "se_input (markStarted now s) = se_input s" "se_correct (markStarted now s) = se_correct s"
  "se_incorrect (markStarted now s) = se_incorrect s" "se_keys (markStarted now s) = se_keys s"
  "se_content (markStarted now s) = se_content s" "se_checks (markStarted now s) = se_checks s"
  by (simp_all add: markStarted_def prompts_def)

lemma completed_chars_Suc:
  "i < length (prompts s) \<Longrightarrow> completed_chars s (Suc i) = completed_chars s i + length (prompt_runes s i)"
  by (simp add: completed_chars_def prompt_runes_def take_Suc_conv_app_nth)

lemma prompt_runes_nonempty:
  "typing_inv s \<Longrightarrow> i < length (prompts s) \<Longrightarrow> prompt_runes s i \<noteq> []"
  by (auto simp: typing_inv_def prompt_runes_def list_all_length trim_space_def intro!: runes_of_nonempty)

lemma typing_current:
  assumes "typing_inv s" "\<not> Done s"
  obtains r rest where "prompt_runes s (se_prompt_idx s) = se_input s @ r # rest"
    "se_prompt_idx s < length (prompts s)"
proof -
  obtain rest where "rest \<noteq> []" "prompt_runes s (se_prompt_idx s) = se_input s @ rest"
    using assms by (auto simp: typing_inv_def)
  then show ?thesis
    using that [of "hd rest" "tl rest"] assms(2) by (simp add: Done_def)
qed

lemma NewSession_inv: "NewSession content checks = Inr s \<Longrightarrow> typing_inv s"
proof -
  assume a: "NewSession content checks = Inr s"
  then obtain c where c: "ty_prompts c \<noteq> []" "list_all (\<lambda>p. trim_space (tp_text p) \<noteq> []) (ty_prompts c)"
    and s: "s = \<lparr>se_content = c, se_checks = checks, se_prompt_idx = 0, se_input = [], se_correct = 0,
              se_incorrect = 0, se_keys = 0, se_started_at = None\<rparr>"
    by (auto simp: NewSession_def list_ex_iff list_all_iff split: option.splits if_splits)
  have "runes_of (tp_text (ty_prompts c ! 0)) \<noteq> []"
    using c by (intro runes_of_nonempty) (auto simp: list_all_length trim_space_def)
  with c show ?thesis
    by (simp add: s typing_inv_def prompts_def Done_def prompt_runes_def completed_chars_def)
qed

lemma TypeKey_match:
  assumes "\<not> Done s" "32 \<le> r \<or> r = 9" "prompt_runes s (se_prompt_idx s) = se_input s @ r # rest"
  shows "TypeKey now r s =
    (if rest = [] then (markStarted now s)\<lparr>se_keys := se_keys s + 1, se_correct := se_correct s + 1,
                          se_prompt_idx := se_prompt_idx s + 1, se_input := []\<rparr>
     else (markStarted now s)\<lparr>se_keys := se_keys s + 1, se_correct := se_correct s + 1,
            se_input := se_input s @ [r]\<rparr>)"
  using assms by (auto simp: TypeKey_def prompt_runes_def advancePrompt_def Let_def nth_append)

lemma TypeKey_miss:
  assumes "\<not> Done s" "32 \<le> r \<or> r = 9" "prompt_runes s (se_prompt_idx s) = se_input s @ x # rest" "r \<noteq> x"
  shows "TypeKey now r s = (markStarted now s)\<lparr>se_keys := se_keys s + 1, se_incorrect := se_incorrect s + 1\<rparr>"
  using assms by (auto simp: TypeKey_def prompt_runes_def Let_def nth_append)

lemma TypeKey_ignored: "Done s \<or> r < 32 \<and> r \<noteq> 9 \<Longrightarrow> TypeKey now r s = s"
  by (auto simp: TypeKey_def)

lemma typing_inv_advance:
  assumes inv: "typing_inv s" and nd: "\<not> Done s" and full: "prompt_runes s (se_prompt_idx s) = se_input s @ [r]"
    and t: "prompts t = prompts s" "se_prompt_idx t = se_prompt_idx s + 1" "se_input t = []"
      "se_correct t = se_correct s + 1" "se_incorrect t = se_incorrect s" "se_keys t = se_keys s + 1"
  shows "typing_inv t"
proof -
  have i: "se_prompt_idx s < length (prompts s)" using nd by (simp add: Done_def)
  have p: "prompt_runes t = prompt_runes s" "completed_chars t = completed_chars s"
    using t(1) by (auto simp: prompt_runes_def completed_chars_def fun_eq_iff)
  have "\<exists>rest. rest \<noteq> [] \<and> prompt_runes t (se_prompt_idx t) = se_input t @ rest" if "\<not> Done t"
    using prompt_runes_nonempty [OF inv, of "se_prompt_idx t"] that t p by (simp add: Done_def)
  then show ?thesis
    using inv i t full by (simp add: typing_inv_def p completed_chars_Suc)
qed

lemma TypeKey_inv:
  assumes inv: "typing_inv s"
  shows "typing_inv (TypeKey now r s)"
proof (cases "Done s \<or> r < 32 \<and> r \<noteq> 9")
  case True
  with inv show ?thesis by (simp add: TypeKey_ignored)
next
  case False
  then have nd: "\<not> Done s" and ok: "32 \<le> r \<or> r = 9" by auto
  from typing_current [OF inv nd] obtain x rest where
    cur: "prompt_runes s (se_prompt_idx s) = se_input s @ x # rest" and i: "se_prompt_idx s < length (prompts s)" .
  show ?thesis
  proof (cases "r = x")
    case hit: True
    note eq = TypeKey_match [OF nd ok cur [folded hit], of now]
    show ?thesis
    proof (cases "rest = []")
      case True
      show ?thesis
        by (rule typing_inv_advance [OF inv nd, of x]) (use cur True eq in simp_all)
    next
      case False
      then show ?thesis
        using inv nd cur unfolding eq
        by (auto simp: typing_inv_def Done_def prompt_runes_def completed_chars_def hit)
    qed
  next
    case False
    show ?thesis
      using inv nd cur unfolding TypeKey_miss [OF nd ok cur False]
      by (auto simp: typing_inv_def Done_def prompt_runes_def completed_chars_def)
  qed
qed

lemma Backspace_inv:
  assumes inv: "typing_inv s"
  shows "typing_inv (Backspace now s)"
proof (cases "Done s \<or> se_input s = []")
  case True
  with inv show ?thesis by (auto simp: Backspace_def)
next
  case False
  then have nd: "\<not> Done s" and ne: "se_input s \<noteq> []" by auto
  from typing_current [OF inv nd] obtain x rest where
    cur: "prompt_runes s (se_prompt_idx s) = se_input s @ x # rest" .
  have b: "se_input s = butlast (se_input s) @ [last (se_input s)]" using ne by simp
  have c: "1 \<le> se_correct s" using inv ne by (cases "se_input s") (auto simp: typing_inv_def)
  have l: "int (length (butlast (se_input s))) = int (length (se_input s)) - 1"
    using ne by (cases "se_input s") auto
  have "\<exists>q. q \<noteq> [] \<and> prompt_runes s (se_prompt_idx s) = butlast (se_input s) @ q"
    using cur b by (metis append.assoc append_Cons append_Nil list.distinct(1))
  then show ?thesis
    using inv nd ne c l
    by (auto simp: Backspace_def typing_inv_def Done_def prompt_runes_def completed_chars_def Let_def)
qed

lemma SubmitLine_noop:
  assumes inv: "typing_inv s"
  shows "SubmitLine s = (False, s)"
proof (cases "Done s")
  case True
  then show ?thesis by (simp add: SubmitLine_def)
next
  case False
  from typing_current [OF inv False] obtain x rest where
    cur: "prompt_runes s (se_prompt_idx s) = se_input s @ x # rest" .
  have "list_all scalar (se_input s)"
    using runes_of_scalar [of "tp_text (prompts s ! se_prompt_idx s)"] cur by (simp add: prompt_runes_def)
  then have "string_of_runes (se_input s) \<noteq> tp_text (prompts s ! se_prompt_idx s)"
    using cur runes_of_string_of_runes [of "se_input s"] by (auto simp: prompt_runes_def)
  with False show ?thesis by (simp add: SubmitLine_def Let_def)
qed

lemma elapsed_at_nonneg: "0 \<le> elapsed_at now s"
  by (simp add: elapsed_at_def split: option.split)

lemma typing_input_scalar: "typing_inv s \<Longrightarrow> list_all scalar (se_input s)"
proof (cases "Done s")
  case True
  moreover assume "typing_inv s"
  ultimately show ?thesis by (simp add: typing_inv_def)
next
  case False
  assume inv: "typing_inv s"
  from typing_current [OF inv False] obtain x rest where
    "prompt_runes s (se_prompt_idx s) = se_input s @ x # rest" .
  then show ?thesis
    using runes_of_scalar [of "tp_text (prompts s ! se_prompt_idx s)"] by (simp add: prompt_runes_def)
qed

lemma NewSession_again:
  assumes "typing_inv s"
  shows "NewSession (Some (se_content s)) (se_checks s) =
    Inr \<lparr>se_content = se_content s, se_checks = se_checks s, se_prompt_idx = 0, se_input = [], se_correct = 0,
         se_incorrect = 0, se_keys = 0, se_started_at = None\<rparr>"
  using assms by (auto simp: NewSession_def typing_inv_def prompts_def list_ex_iff list_all_iff)

lemma restart_session:
  assumes inv: "typing_inv s"
  shows "restart saved_at now s = s\<lparr>se_started_at :=
    (if se_started_at s = None then None
     else Some (now - elapsed_at saved_at s div 1000000 * 1000000))\<rparr>"
proof -
  have i: "se_prompt_idx s \<le> length (ty_prompts (se_content s))"
    using inv by (simp add: typing_inv_def prompts_def)
  have inp: "runes_of (string_of_runes (se_input s)) = se_input s"
    by (rule runes_of_string_of_runes [OF typing_input_scalar [OF inv]])
  have t: "trunc_div (elapsed_at saved_at s) 1000000 = elapsed_at saved_at s div 1000000"
    by (simp add: trunc_div_nonneg elapsed_at_nonneg)
  show ?thesis
    by (rule Session.equality)
      (use i in \<open>auto simp: restart_def NewSession_again [OF inv] RestoreState_def EncodeState_def prompts_def inp t\<close>)
qed

lemma act_inv: "typing_inv s \<Longrightarrow> typing_inv (act a s)"
proof (cases a)
  case (Restart t u)
  moreover assume "typing_inv s"
  ultimately show ?thesis
    by (simp add: restart_session) (auto simp: typing_inv_def Done_def prompt_runes_def completed_chars_def prompts_def)
qed (simp_all add: TypeKey_inv Backspace_inv SubmitLine_noop)

definition typing_started :: "Session \<Rightarrow> bool" where
  "typing_started s \<longleftrightarrow> (\<exists>content checks. NewSession content checks = Inr s)"

definition typing_step :: "Session \<Rightarrow> Session \<Rightarrow> bool" where
  "typing_step s t \<longleftrightarrow> (\<exists>a. t = act a s)"

interpretation typing: invariant_system typing_started typing_step typing_inv
  by unfold_locales (auto simp: typing_started_def typing_step_def NewSession_inv act_inv)

text \<open>
  In every session reached by keystrokes, backspaces, line submissions and restarts the input is
  a proper prefix of the current prompt (empty once every prompt is done), the correct count is exactly the number
  of characters of the completed prompts plus the input, and every counted character cost a keystroke.
\<close>
theorem typing_counts_exact:
  assumes "reachable typing_started typing_step s"
  shows "typing_inv s"
  using assms by (rule typing.inv_reachable)

section \<open>Typing everything finishes\<close>

definition typeable :: "rune \<Rightarrow> bool" where
  "typeable r \<longleftrightarrow> 32 \<le> r \<or> r = 9"

lemma type_rest:
  assumes "typing_inv s" "\<not> Done s" "prompt_runes s (se_prompt_idx s) = se_input s @ rest" "rest \<noteq> []"
    "list_all typeable rest"
  shows "let t = fold (TypeKey now) rest s in
    se_prompt_idx t = se_prompt_idx s + 1 \<and> prompts t = prompts s \<and> se_incorrect t = se_incorrect s \<and>
    se_input t = [] \<and> typing_inv t"
  using assms
proof (induction rest arbitrary: s)
  case (Cons r rest)
  have ok: "32 \<le> r \<or> r = 9" using Cons.prems(5) by (simp add: typeable_def)
  note step = TypeKey_match [OF Cons.prems(2) ok Cons.prems(3), of now]
  let ?s = "TypeKey now r s"
  have inv: "typing_inv ?s" by (rule TypeKey_inv [OF Cons.prems(1)])
  show ?case
  proof (cases "rest = []")
    case True
    with step inv show ?thesis by simp
  next
    case False
    with step Cons.prems have "\<not> Done ?s" "prompt_runes ?s (se_prompt_idx ?s) = se_input ?s @ rest"
      "prompts ?s = prompts s" "se_prompt_idx ?s = se_prompt_idx s" "se_incorrect ?s = se_incorrect s"
      by (simp_all add: Done_def prompt_runes_def)
    with Cons.IH [OF inv] False Cons.prems(5) show ?thesis by (simp add: Let_def)
  qed
qed simp

lemma type_prompts:
  assumes "typing_inv s" "se_input s = []" "drop (se_prompt_idx s) (prompts s) = ps"
    "list_all (\<lambda>p. list_all typeable (runes_of (tp_text p))) ps"
  shows "let t = fold (\<lambda>p. TypeString now (tp_text p)) ps s in
    se_prompt_idx t = length (prompts s) \<and> prompts t = prompts s \<and> se_incorrect t = se_incorrect s \<and> typing_inv t"
  using assms
proof (induction ps arbitrary: s)
  case Nil
  then show ?case by (auto simp: typing_inv_def)
next
  case (Cons p ps)
  have i: "se_prompt_idx s < length (prompts s)"
    using Cons.prems(3) by (metis drop_all list.distinct(1) not_le)
  have p: "prompts s ! se_prompt_idx s = p" "drop (Suc (se_prompt_idx s)) (prompts s) = ps"
    using Cons.prems(3) i by (metis Cons_nth_drop_Suc list.inject)+
  have nd: "\<not> Done s" using i by (simp add: Done_def)
  let ?t = "TypeString now (tp_text p) s"
  have t: "se_prompt_idx ?t = se_prompt_idx s + 1" "prompts ?t = prompts s" "se_incorrect ?t = se_incorrect s"
    "se_input ?t = []" "typing_inv ?t"
    using type_rest [OF Cons.prems(1) nd, of "prompt_runes s (se_prompt_idx s)" now]
      prompt_runes_nonempty [OF Cons.prems(1) i] Cons.prems(2,4)
    by (simp_all add: TypeString_def prompt_runes_def p Let_def)
  then show ?case using Cons.IH [of ?t] Cons.prems(4) p(2) by (simp add: Let_def)
qed

section \<open>Accuracy\<close>

lemma fl_one [simp]: "fl 1 = 1"
  using fl_of_int [of 1] by simp

lemma accuracy_no_errors: "0 \<le> c \<Longrightarrow> accuracy c 0 = 1"
proof (cases "c = 0")
  case False
  moreover assume "0 \<le> c"
  ultimately have "1 \<le> fl (of_int c)" by (intro fl_ge) simp_all
  then have "fl (of_int c) \<noteq> 0" by simp
  with False show ?thesis by (simp add: accuracy_def)
qed (simp add: accuracy_def)

lemma accuracy_bounds:
  assumes "0 \<le> c" "0 \<le> i" "c + i \<le> 2 ^ 53"
  shows "0 \<le> accuracy c i \<and> accuracy c i \<le> 1 \<and> (accuracy c i = 1 \<longleftrightarrow> i = 0)"
proof (cases "i = 0")
  case True
  with accuracy_no_errors [OF assms(1)] show ?thesis by simp
next
  case False
  with assms have t: "0 < c + i" "c < c + i" by linarith+
  have e: "accuracy c i = fl (of_int c / of_int (c + i))"
    using t assms by (simp add: accuracy_def fl_of_int del: of_int_add)
  have q0: "0 \<le> (of_int c / of_int (c + i) :: rat)" using assms t by (simp del: of_int_add)
  have r: "fl (of_int (2 ^ 53 - 1) * pow2 (- 53)) = of_int (2 ^ 53 - 1) * pow2 (- 53)"
    by (rule fl_representable) simp_all
  have "of_int c * (2 ^ 53 :: rat) \<le> of_int (2 ^ 53 - 1) * of_int (c + i)"
  proof -
    have "c * 2 ^ 53 \<le> (2 ^ 53 - 1) * (c + i)" using assms False by (simp add: algebra_simps)
    then have "of_int (c * 2 ^ 53) \<le> (of_int ((2 ^ 53 - 1) * (c + i)) :: rat)" by (simp only: of_int_le_iff)
    then show ?thesis by simp
  qed
  then have "(of_int c / of_int (c + i) :: rat) \<le> of_int (2 ^ 53 - 1) * pow2 (- 53)"
    using t by (simp add: pow2_def pos_divide_le_eq mult.commute field_simps del: of_int_add)
  then have "accuracy c i \<le> of_int (2 ^ 53 - 1) * pow2 (- 53)"
    unfolding e by (rule fl_le [OF q0 r])
  moreover have "of_int (2 ^ 53 - 1) * pow2 (- 53) < 1" by (simp add: pow2_def)
  ultimately show ?thesis using False fl_nonneg [OF q0] by (simp add: e)
qed

definition total_chars :: "Session \<Rightarrow> nat" where
  "total_chars s = completed_chars s (length (prompts s))"

lemma typing_done_total: "typing_inv s \<Longrightarrow> Done s \<Longrightarrow> se_correct s = int (total_chars s)"
  by (auto simp: typing_inv_def Done_def total_chars_def)

text \<open>
  A student who types every prompt exactly finishes the session: no prompt remains, every character
  counts as correct, none as incorrect, and the accuracy is 1.  Prompts may contain anything but control
  characters other than the tab, which the runner ignores.
\<close>
theorem typing_finishes:
  assumes "NewSession content checks = Inr s"
    "list_all (\<lambda>p. list_all typeable (runes_of (tp_text p))) (prompts s)"
  shows "let t = fold (\<lambda>p. TypeString now (tp_text p)) (prompts s) s in
    Done t \<and> RemainingPrompts t = 0 \<and> se_correct t = int (total_chars s) \<and> se_incorrect t = 0 \<and>
    me_accuracy (session_metrics later t) = 1"
proof -
  let ?t = "fold (\<lambda>p. TypeString now (tp_text p)) (prompts s) s"
  have inv: "typing_inv s" by (rule NewSession_inv [OF assms(1)])
  have s: "se_prompt_idx s = 0" "se_input s = []" "se_incorrect s = 0"
    using assms(1) by (auto simp: NewSession_def split: option.splits if_splits)
  have t: "se_prompt_idx ?t = length (prompts s)" "prompts ?t = prompts s" "se_incorrect ?t = 0" "typing_inv ?t"
    using type_prompts [OF inv s(2), of "prompts s" now] s assms(2) by (simp_all add: Let_def)
  have d: "Done ?t" using t by (simp add: Done_def)
  have c: "se_correct ?t = int (total_chars s)"
    using typing_done_total [OF t(4) d] t(2) by (simp add: total_chars_def completed_chars_def)
  then show ?thesis
    using d t(1-3) accuracy_no_errors [of "se_correct ?t"]
    by (simp add: Let_def RemainingPrompts_def session_metrics_def)
qed

text \<open>
  C32. The accuracy shown for a session lies between 0 and 1 and is 1 exactly when no wrong character was
  typed; floating-point rounding never hides an error as long as the keystrokes can be counted exactly.
\<close>
theorem accuracy_exact:
  assumes "reachable typing_started typing_step s" "se_keys s \<le> 2 ^ 53"
  shows "0 \<le> me_accuracy (session_metrics now s) \<and> me_accuracy (session_metrics now s) \<le> 1 \<and>
    (me_accuracy (session_metrics now s) = 1 \<longleftrightarrow> se_incorrect s = 0)"
proof -
  have "typing_inv s" using assms(1) by (rule typing.inv_reachable)
  then have "0 \<le> se_correct s" "0 \<le> se_incorrect s" "se_correct s + se_incorrect s \<le> 2 ^ 53"
    using assms(2) by (auto simp: typing_inv_def)
  then show ?thesis using accuracy_bounds by (simp add: session_metrics_def)
qed

text \<open>
  C31. Saving a session and restoring it into a fresh one loses nothing but the time in between: prompt,
  input and counters are as they were, and the elapsed time resumes at what it was when saved, rounded
  down to a millisecond.
\<close>
theorem restart_resumes:
  assumes "reachable typing_started typing_step s"
  shows "\<exists>t. restart saved_at now s = s\<lparr>se_started_at := t\<rparr> \<and>
    elapsed_at now (restart saved_at now s) = elapsed_at saved_at s div 1000000 * 1000000"
proof -
  have inv: "typing_inv s" using assms by (rule typing.inv_reachable)
  have "0 \<le> elapsed_at saved_at s div 1000000" by (simp add: elapsed_at_nonneg pos_imp_zdiv_nonneg_iff)
  then have "elapsed_at now (restart saved_at now s) = elapsed_at saved_at s div 1000000 * 1000000"
    unfolding restart_session [OF inv] by (auto simp: elapsed_at_def split: option.split)
  with restart_session [OF inv] show ?thesis by blast
qed

text \<open>
  An observation that passes comes from a typing check of a session in which every prompt was
  typed to its last character: other kinds of checks and unfinished sessions fail closed.
\<close>
theorem passing_observation_complete:
  assumes "reachable typing_started typing_step s" "ob \<in> set (Observations pf now s)" "ob_passed ob"
  shows "ob_kind ob = CheckTypingMetrics \<and> RemainingPrompts s = 0 \<and> se_correct s = int (total_chars s)"
proof -
  have "ob_kind ob = CheckTypingMetrics \<and> Done s"
    using assms(2,3)
    by (auto simp: Observations_def typing_observation_def session_metrics_def Let_def split: if_splits)
  moreover have "typing_inv s" using assms(1) by (rule typing.inv_reachable)
  ultimately show ?thesis
    using typing_done_total by (simp add: Done_def RemainingPrompts_def Let_def)
qed

section \<open>Examples\<close>

definition ex_typing :: TypingContent where
  "ex_typing = \<lparr>ty_prompt_set_id = ''home-row'', ty_prompts = [\<lparr>tp_id = ''p1'', tp_text = ''hi'', tp_category = []\<rparr>],
     ty_ordering = [], ty_time_limit_sec = 0, ty_success_wpm = 10, ty_success_accuracy = 0\<rparr>"

definition ex_metrics_check :: Check where
  "ex_metrics_check = ex_check ''speed'' CheckTypingMetrics [(''minWpm'', AnyInt 1), (''minAccuracy'', AnyInt 0)]"

definition ex_session :: Session where
  "ex_session = \<lparr>se_content = ex_typing, se_checks = [ex_metrics_check], se_prompt_idx = 0, se_input = [],
     se_correct = 0, se_incorrect = 0, se_keys = 0, se_started_at = None\<rparr>"

definition ex_finished :: Session where
  "ex_finished = act (Key 3000000000 105) (act (Key 2000000000 120) (act (Key 1000000000 104) ex_session))"

lemma ex_session_new: "NewSession (Some ex_typing) [ex_metrics_check] = Inr ex_session"
  by code_simp

lemma ex_started: "reachable typing_started typing_step ex_session"
  using ex_session_new by (intro reachable.start) (auto simp: typing_started_def)

lemma reachable_act: "reachable typing_started typing_step s \<Longrightarrow> reachable typing_started typing_step (act a s)"
  by (erule reachable.next_state) (auto simp: typing_step_def)

lemma ex_finished_reachable: "reachable typing_started typing_step ex_finished"
  unfolding ex_finished_def by (intro reachable_act ex_started)

theorem typing_counts_exact_witness:
  "reachable typing_started typing_step ex_finished \<and> typing_inv ex_finished"
  using ex_finished_reachable typing_counts_exact [OF ex_finished_reachable] by simp

lemma ex_typeable: "list_all (\<lambda>p. list_all typeable (runes_of (tp_text p))) (prompts ex_session)"
  by code_simp

theorem typing_finishes_witness:
  "NewSession (Some ex_typing) [ex_metrics_check] = Inr ex_session \<and>
   Done (fold (\<lambda>p. TypeString 0 (tp_text p)) (prompts ex_session) ex_session)"
  using ex_session_new typing_finishes [OF ex_session_new ex_typeable, of 0 0] by (simp add: Let_def)

lemma ex_finished_keys: "se_keys ex_finished \<le> 2 ^ 53 \<and> se_incorrect ex_finished = 1"
  by code_simp

theorem accuracy_exact_witness:
  "se_incorrect ex_finished = 1 \<and> me_accuracy (session_metrics 4000000000 ex_finished) < 1"
  using ex_finished_keys accuracy_exact [OF ex_finished_reachable, of 4000000000]
  by (simp add: order.strict_iff_order)

lemma ex_elapsed: "elapsed_at 4000000123 ex_finished = 3000000123"
  by code_simp

theorem restart_resumes_witness:
  "elapsed_at 9000000000 (restart 4000000123 9000000000 ex_finished) = 3000000000"
  using restart_resumes [OF ex_finished_reachable, of 4000000123 9000000000] by (simp add: ex_elapsed)

lemma ob_passed_iff:
  "ob_passed (typing_observation pf now s ch) \<longleftrightarrow> ck_kind ch = CheckTypingMetrics \<and> Done s \<and>
     min_wpm_of pf s ch \<le> wpm (se_correct s) (elapsed_at now s) \<and>
     min_accuracy_of pf s ch \<le> fadd (accuracy (se_correct s) (se_incorrect s)) epsilon"
  by (simp add: typing_observation_def session_metrics_def Let_def)

lemma ex_finished_check: "se_checks ex_finished = [ex_metrics_check] \<and> Done ex_finished \<and>
    ck_kind ex_metrics_check = CheckTypingMetrics"
  by code_simp

lemma fl_small_dyadics: "fl (1 / 8) = 1 / 8" "fl (3 / 4) = 3 / 4" "fl (7 / 8) = 7 / 8"
  using fl_representable [of 1 "- 3"] fl_representable [of 3 "- 2"] fl_representable [of 7 "- 3"]
  by (simp_all add: pow2_def)

lemma epsilon_bounds: "0 \<le> epsilon" "epsilon \<le> 1 / 8"
  unfolding epsilon_def by (rule fl_nonneg, simp) (rule fl_le, simp_all add: fl_small_dyadics)

lemma accuracy_2_1: "0 \<le> accuracy 2 1" "accuracy 2 1 \<le> 3 / 4"
proof -
  have e: "accuracy 2 1 = fl (2 / 3)"
    using fl_of_int [of 2] fl_of_int [of 3] by (simp add: accuracy_def)
  show "0 \<le> accuracy 2 1" unfolding e by (rule fl_nonneg) simp
  show "accuracy 2 1 \<le> 3 / 4" unfolding e by (rule fl_le) (simp_all add: fl_small_dyadics)
qed

lemma ex_finished_counts: "se_correct ex_finished = 2" "se_incorrect ex_finished = 1"
  "min_accuracy_of (\<lambda>_. None) ex_finished ex_metrics_check = 0"
  by code_simp+

lemma ex_finished_numbers:
  "min_wpm_of (\<lambda>_. None) ex_finished ex_metrics_check \<le> wpm (se_correct ex_finished) (elapsed_at 4000000000 ex_finished)"
  "min_accuracy_of (\<lambda>_. None) ex_finished ex_metrics_check \<le>
     fadd (accuracy (se_correct ex_finished) (se_incorrect ex_finished)) epsilon"
  subgoal by code_simp
  subgoal using epsilon_bounds(1) accuracy_2_1(1) by (simp add: ex_finished_counts fl_nonneg)
  done

lemma ex_finished_observation:
  "list_all ob_passed (Observations (\<lambda>_. None) 4000000000 ex_finished)"
  "Observations (\<lambda>_. None) 4000000000 ex_finished \<noteq> []"
  using ex_finished_check ex_finished_numbers by (simp_all add: Observations_def ob_passed_iff)

theorem passing_observation_complete_witness:
  "\<exists>ob. ob \<in> set (Observations (\<lambda>_. None) 4000000000 ex_finished) \<and> ob_passed ob \<and>
     ob_kind ob = CheckTypingMetrics \<and> RemainingPrompts ex_finished = 0"
proof -
  obtain ob obs where ob: "Observations (\<lambda>_. None) 4000000000 ex_finished = ob # obs"
    using ex_finished_observation(2) by (cases "Observations (\<lambda>_. None) 4000000000 ex_finished") auto
  then have "ob_passed ob" "ob \<in> set (Observations (\<lambda>_. None) 4000000000 ex_finished)"
    using ex_finished_observation(1) by simp_all
  with passing_observation_complete [OF ex_finished_reachable this(2,1)] show ?thesis by blast
qed

text \<open>
  The two readings of the thresholds differ: with no accuracy configured, the session itself demands
  a perfect one while the observation of the check demands none.
\<close>
lemma thresholds_disagree:
  "\<not> MeetsThresholds 4000000000 ex_finished \<and>
   list_all ob_passed (Observations (\<lambda>_. None) 4000000000 ex_finished)"
proof -
  have "fadd (accuracy 2 1) epsilon \<le> 7 / 8"
    using accuracy_2_1 epsilon_bounds by (intro fl_le) (simp_all add: fl_small_dyadics)
  moreover have "ty_success_accuracy (se_content ex_finished) \<le> 0" by code_simp
  ultimately have "\<not> MeetsThresholds 4000000000 ex_finished"
    by (simp add: MeetsThresholds_def session_metrics_def thresholdsMet_def ex_finished_counts Let_def)
  with ex_finished_observation show ?thesis by simp
qed

text \<open>A prompt with a control character passes validation but cannot be typed.\<close>

definition blocked_by :: "nat \<Rightarrow> Session \<Rightarrow> bool" where
  "blocked_by i s \<longleftrightarrow> i < length (prompts s) \<and> \<not> list_all typeable (prompt_runes s i) \<and>
     (se_prompt_idx s < i \<or> (se_prompt_idx s = i \<and> list_all typeable (se_input s)))"

lemma act_prompts: "typing_inv s \<Longrightarrow> prompts (act a s) = prompts s"
  by (cases a) (auto simp: TypeKey_def Backspace_def SubmitLine_def Let_def advancePrompt_def restart_session)

lemma list_all_butlast: "list_all p xs \<Longrightarrow> list_all p (butlast xs)"
  by (auto simp: list_all_iff dest: in_set_butlastD)

lemma typeable_full:
  assumes "typing_inv s" "\<not> Done s" "prompt_runes s (se_prompt_idx s) = se_input s @ r # rest"
    "blocked_by i s" "32 \<le> r \<or> r = 9"
  shows "blocked_by i (TypeKey now r s)"
proof (cases "rest = []")
  case True
  with assms show ?thesis
    unfolding TypeKey_match [OF assms(2,5,3)]
    by (auto simp: blocked_by_def prompt_runes_def typeable_def intro: le_neq_implies_less)
next
  case False
  with assms show ?thesis
    unfolding TypeKey_match [OF assms(2,5,3)] by (auto simp: blocked_by_def prompt_runes_def typeable_def)
qed

lemma TypeKey_blocked:
  assumes inv: "typing_inv s" and b: "blocked_by i s"
  shows "blocked_by i (TypeKey now r s)"
proof (cases "Done s \<or> r < 32 \<and> r \<noteq> 9")
  case True
  with b show ?thesis by (simp add: TypeKey_ignored)
next
  case False
  then have nd: "\<not> Done s" and ok: "32 \<le> r \<or> r = 9" by auto
  from typing_current [OF inv nd] obtain x rest where
    cur: "prompt_runes s (se_prompt_idx s) = se_input s @ x # rest" .
  show ?thesis
  proof (cases "r = x")
    case True
    with typeable_full [OF inv nd _ b ok] cur show ?thesis by simp
  next
    case False
    with b show ?thesis
      unfolding TypeKey_miss [OF nd ok cur False] by (simp add: blocked_by_def prompt_runes_def)
  qed
qed

lemma act_blocked:
  assumes "typing_inv s" "blocked_by i s"
  shows "blocked_by i (act a s)"
proof (cases a)
  case (Back t)
  with assms show ?thesis
    by (auto simp: Backspace_def blocked_by_def prompt_runes_def Let_def list_all_butlast)
next
  case (Key t r)
  with assms show ?thesis by (simp add: TypeKey_blocked)
next
  case Enter
  with assms show ?thesis by (simp add: SubmitLine_noop)
next
  case (Restart t u)
  with assms show ?thesis by (simp add: restart_session blocked_by_def prompt_runes_def)
qed

lemma control_prompt_never_done:
  assumes "NewSession content checks = Inr s" "i < length (prompts s)" "\<not> list_all typeable (prompt_runes s i)"
  shows "\<not> Done (fold act acts s)"
proof -
  have "typing_inv s \<and> blocked_by i s"
    using assms NewSession_inv [OF assms(1)]
    by (auto simp: blocked_by_def NewSession_def split: option.splits if_splits)
  then have "typing_inv (fold act acts s) \<and> blocked_by i (fold act acts s)"
    by (induction acts arbitrary: s) (simp_all add: act_inv act_blocked)
  then show ?thesis by (auto simp: blocked_by_def Done_def)
qed

end
