(* ===== verification/LMS_Model.thy ===== *)
theory LMS_Model
  imports Contracts Float64
begin

text \<open>
  The part of the learning server's database that student work goes through
  (\<^verbatim>\<open>domain/domain.go\<close> with the constraints of the migrations): activities, revisions
  and their standards links, assignments, devices, sessions, events, completions, mastery
  records and their evidence.  The generic repository operations follow \<^verbatim>\<open>repo/resource.go\<close>: a
  read of an absent row is \<open>ErrNotFound\<close>, a write that breaks a constraint is its violation.

  A revision's content and a link's evidence policy are JSONB columns that the code decodes on
  every use; the row holds the decoded value, \<open>None\<close> when it does not decode.
\<close>

section \<open>Entities\<close>

definition AssignmentAvailable :: string where "AssignmentAvailable = ''available''"
definition AssignmentInProgress :: string where "AssignmentInProgress = ''in_progress''"
definition AssignmentCompleted :: string where "AssignmentCompleted = ''completed''"
definition AssignmentCancelled :: string where "AssignmentCancelled = ''cancelled''"

definition SessionStarted :: string where "SessionStarted = ''started''"
definition SessionPaused :: string where "SessionPaused = ''paused''"
definition SessionCompleted :: string where "SessionCompleted = ''completed''"
definition SessionAbandoned :: string where "SessionAbandoned = ''abandoned''"

record Standard =
  sd_id :: uuid
  sd_code :: string
  sd_description :: string

record LearningActivity =
  la_id :: uuid
  la_slug :: string
  la_title :: string
  la_summary :: string
  la_kind :: string
  la_subject_id :: "uuid option"
  la_status :: string

record LearningActivityRevision =
  rv_id :: uuid
  rv_activity_id :: uuid
  rv_revision :: int
  rv_schema_version :: string
  rv_content :: "ActivityContent option"
  rv_content_sha256 :: string
  rv_published_at :: "time option"

record LearningActivityRevisionStandard =
  lk_id :: uuid
  lk_activity_revision_id :: uuid
  lk_standard_id :: uuid
  lk_role :: string
  lk_weight :: rat
  lk_mastery_criterion :: string
  lk_evidence_policy :: "EvidencePolicy option"
  lk_created_at :: time

record StudentAssignment =
  sa_id :: uuid
  sa_student_id :: uuid
  sa_activity_revision_id :: uuid
  sa_state :: string
  sa_priority :: int
  sa_available_at :: time
  sa_due_at :: "time option"
  sa_reason :: string

record StudentDevice =
  sc_id :: uuid
  sc_student_id :: uuid
  sc_name :: string
  sc_token_hash :: string
  sc_last_seen_at :: "time option"
  sc_revoked_at :: "time option"

record LearningSession =
  ln_id :: uuid
  ln_assignment_id :: uuid
  ln_student_id :: uuid
  ln_device_id :: uuid
  ln_client_session_id :: string
  ln_activity_revision_id :: uuid
  ln_state :: string
  ln_started_at :: time
  ln_last_event_at :: "time option"
  ln_completed_at :: "time option"
  ln_duration_seconds :: int
  ln_summary :: string

record LearningSessionEvent =
  le_id :: uuid
  le_session_id :: uuid
  le_event_id :: string
  le_sequence :: int
  le_event_type :: string
  le_client_time :: time
  le_received_at :: time
  le_schema_version :: string
  le_payload :: params

record LearningSessionCompletion =
  lc_id :: uuid
  lc_session_id :: uuid
  lc_completion_id :: string
  lc_request_digest :: string
  lc_response :: CompletionResult

record MasteryRecord =
  mr_id :: uuid
  mr_student_id :: uuid
  mr_standard_id :: uuid
  mr_status :: string
  mr_confidence :: rat
  mr_decay_rate :: rat
  mr_last_assessed_at :: "time option"
  mr_last_reinforced_at :: "time option"

record MasteryEvidence =
  mv_id :: uuid
  mv_mastery_record_id :: uuid
  mv_kind :: string
  mv_evidence_class :: string
  mv_provenance :: params
  mv_policy_version :: int
  mv_occurred_on :: time
  mv_context :: string
  mv_source_ref :: string

record StudentResponse =
  sp_id :: uuid
  sp_submission_id :: string
  sp_student_id :: uuid
  sp_session_id :: uuid
  sp_assignment_id :: uuid
  sp_activity_revision_id :: uuid
  sp_task_id :: string
  sp_body_sha256 :: string
  sp_attempt :: int

record lms_db =
  db_standards :: "Standard list"
  db_activities :: "LearningActivity list"
  db_revisions :: "LearningActivityRevision list"
  db_links :: "LearningActivityRevisionStandard list"
  db_assignments :: "StudentAssignment list"
  db_sessions :: "LearningSession list"
  db_events :: "LearningSessionEvent list"
  db_completions :: "LearningSessionCompletion list"
  db_records :: "MasteryRecord list"
  db_evidence :: "MasteryEvidence list"

section \<open>Repository operations\<close>

definition get_row :: "('r \<Rightarrow> uuid) \<Rightarrow> uuid \<Rightarrow> 'r list \<Rightarrow> repo_error + 'r" where
  "get_row key i rows = (case List.find (\<lambda>r. key r = i) rows of None \<Rightarrow> Inl ErrNotFound | Some r \<Rightarrow> Inr r)"

definition create_row :: "('r \<Rightarrow> uuid) \<Rightarrow> ('r \<Rightarrow> 'r \<Rightarrow> bool) \<Rightarrow> 'r \<Rightarrow> 'r list \<Rightarrow> repo_error + 'r list" where
  "create_row key conflict r rows =
     (if list_ex (\<lambda>x. key x = key r \<or> conflict x r) rows then Inl UniqueViolation else Inr (rows @ [r]))"

definition update_row :: "('r \<Rightarrow> uuid) \<Rightarrow> uuid \<Rightarrow> ('r \<Rightarrow> 'r) \<Rightarrow> 'r list \<Rightarrow> repo_error + 'r list" where
  "update_row key i f rows =
     (if list_ex (\<lambda>x. key x = i) rows then Inr (update_where (\<lambda>x. key x = i) f rows) else Inl ErrNotFound)"

definition WithTx :: "('s \<Rightarrow> ('e + 'a) \<times> 's) \<Rightarrow> 's \<Rightarrow> ('e + 'a) \<times> 's" where
  "WithTx fn s = (case fn s of (Inl e, _) \<Rightarrow> (Inl e, s) | (Inr a, s') \<Rightarrow> (Inr a, s'))"

definition GetRevision :: "lms_db \<Rightarrow> uuid \<Rightarrow> repo_error + LearningActivityRevision" where
  "GetRevision db i = get_row rv_id i (db_revisions db)"

definition GetSession :: "lms_db \<Rightarrow> uuid \<Rightarrow> repo_error + LearningSession" where
  "GetSession db i = get_row ln_id i (db_sessions db)"

definition ListRevisionStandards :: "lms_db \<Rightarrow> uuid \<Rightarrow> LearningActivityRevisionStandard list" where
  "ListRevisionStandards db revisionID =
     (let links = sort_key lk_created_at (filter (\<lambda>l. lk_activity_revision_id l = revisionID) (db_links db))
      in filter (\<lambda>l. lk_role l = StandardRolePrimary) links @ filter (\<lambda>l. lk_role l \<noteq> StandardRolePrimary) links)"

section \<open>Evidence policies\<close>

definition ParseEvidencePolicy :: "EvidencePolicy option \<Rightarrow> EvidencePolicy option" where
  "ParseEvidencePolicy m = (case m of
     None \<Rightarrow> None
   | Some p \<Rightarrow> if ep_version p = 0 \<or> ep_status_requirements p = [] then None else Some p)"

definition EvidencePolicyMap :: "EvidencePolicy \<Rightarrow> EvidencePolicy option" where
  "EvidencePolicyMap p = Some (if ep_version p = 0 then p\<lparr>ep_version := 1\<rparr> else p)"

definition defaultPolicyForKind :: "string \<Rightarrow> EvidencePolicy" where
  "defaultPolicyForKind kind =
     (if kind = KindTyping then DefaultTypingEvidencePolicy else DefaultTerminalEvidencePolicy)"

definition resolveLinkPolicy :: "StandardRef \<Rightarrow> string \<Rightarrow> EvidencePolicy" where
  "resolveLinkPolicy ref activityKind =
     (case sr_evidence_policy ref of
        Some p \<Rightarrow> if 0 < ep_version p \<and> ep_status_requirements p \<noteq> [] then p else defaultPolicyForKind activityKind
      | None \<Rightarrow> defaultPolicyForKind activityKind)"

definition policyFromLink :: "LearningActivityRevisionStandard \<Rightarrow> string \<Rightarrow> EvidencePolicy" where
  "policyFromLink link kind =
     (case ParseEvidencePolicy (lk_evidence_policy link) of
        Some p \<Rightarrow> p
      | None \<Rightarrow> if kind = KindTyping then DefaultTypingEvidencePolicy else DefaultTerminalEvidencePolicy)"

section \<open>Lemmas on rows\<close>

lemma get_row_Inr: "get_row key i rows = Inr r \<Longrightarrow> r \<in> set rows \<and> key r = i"
  by (auto simp: get_row_def dest: find_Some_in split: option.splits)

lemma get_row_error: "get_row key i rows = Inl e \<Longrightarrow> e = ErrNotFound \<and> i \<notin> key ` set rows"
  by (auto simp: get_row_def find_None_iff split: option.splits)

lemma create_row_Inr: "create_row key c r rows = Inr rows' \<Longrightarrow> rows' = rows @ [r] \<and> key r \<notin> key ` set rows"
  by (auto simp: create_row_def list_ex_iff split: if_splits)

lemma update_row_Inr: "update_row key i f rows = Inr rows' \<Longrightarrow> rows' = update_where (\<lambda>x. key x = i) f rows"
  by (simp add: update_row_def split: if_splits)

lemma WithTx_error: "WithTx fn s = (Inl e, s') \<Longrightarrow> s' = s"
  by (auto simp: WithTx_def split: prod.splits sum.splits)

lemma WithTx_ok: "WithTx fn s = (Inr a, s') \<longleftrightarrow> fn s = (Inr a, s')"
  by (auto simp: WithTx_def split: prod.splits sum.splits)

lemma policy_stored_resolves:
  "ep_status_requirements (resolveLinkPolicy ref kind) \<noteq> [] \<and>
   ParseEvidencePolicy (EvidencePolicyMap (resolveLinkPolicy ref kind)) = Some (resolveLinkPolicy ref kind)"
  by (auto simp: resolveLinkPolicy_def EvidencePolicyMap_def ParseEvidencePolicy_def defaultPolicyForKind_def
      DefaultTypingEvidencePolicy_def DefaultTerminalEvidencePolicy_def split: option.split)

end
