(* ===== verification/Learning_Session.thy ===== *)
theory Learning_Session
  imports LMS_Model Contracts_Validate
begin

text \<open>
  Learning sessions (\<^verbatim>\<open>repo/learning_session.go\<close>, \<^verbatim>\<open>repo/tx.go\<close>): starting or resuming a session for an
  assignment, the append-only event stream with its contiguous acknowledgement, the immutable completion
  row, and the transition to completed.  Operations run in a transaction on the pool; once a statement of it has
  failed, every later one fails too (\<open>TxAborted\<close>), and the transaction is rolled back.
\<close>

section \<open>Starting and resuming\<close>

definition sessionByClientID :: "lms_db \<Rightarrow> uuid \<Rightarrow> string \<Rightarrow> repo_error + LearningSession" where
  "sessionByClientID db deviceID clientSessionID =
     (case List.find (\<lambda>s. ln_device_id s = deviceID \<and> ln_client_session_id s = clientSessionID) (db_sessions db) of
        None \<Rightarrow> Inl ErrNotFound | Some s \<Rightarrow> Inr s)"

definition open_session :: "LearningSession \<Rightarrow> bool" where
  "open_session s \<longleftrightarrow> ln_state s = SessionStarted \<or> ln_state s = SessionPaused"

definition openSessionForAssignment :: "lms_db \<Rightarrow> uuid \<Rightarrow> repo_error + LearningSession" where
  "openSessionForAssignment db assignmentID =
     (case List.find (\<lambda>s. ln_assignment_id s = assignmentID \<and> open_session s) (db_sessions db) of
        None \<Rightarrow> Inl ErrNotFound | Some s \<Rightarrow> Inr s)"

definition reject_incompatible :: "ActivityContent option \<Rightarrow> string list \<Rightarrow> repo_error option" where
  "reject_incompatible content caps = (case content of
     None \<Rightarrow> Some (OtherError ''decode content'')
   | Some c \<Rightarrow> (case RejectIncompatibleRevision c caps of
       None \<Rightarrow> None | Some msg \<Rightarrow> Some (ErrBadRequest msg)))"

definition session_conflict :: "LearningSession \<Rightarrow> LearningSession \<Rightarrow> bool" where
  "session_conflict x s \<longleftrightarrow>
     (ln_device_id x = ln_device_id s \<and> ln_client_session_id x = ln_client_session_id s) \<or>
     (ln_assignment_id x = ln_assignment_id s \<and> open_session x \<and> open_session s)"

definition new_session :: "uuid \<Rightarrow> StudentDevice \<Rightarrow> string \<Rightarrow> StudentAssignment \<Rightarrow> uuid \<Rightarrow> time \<Rightarrow> LearningSession" where
  "new_session new_id device clientSessionID asg assignmentID now =
     \<lparr>ln_id = new_id, ln_assignment_id = assignmentID, ln_student_id = sc_student_id device,
      ln_device_id = sc_id device, ln_client_session_id = clientSessionID,
      ln_activity_revision_id = sa_activity_revision_id asg, ln_state = SessionStarted, ln_started_at = now,
      ln_last_event_at = None, ln_completed_at = None, ln_duration_seconds = 0, ln_summary = []\<rparr>"

definition start_or_resume ::
  "StudentDevice \<Rightarrow> string \<Rightarrow> uuid \<Rightarrow> time \<Rightarrow> string list \<Rightarrow> uuid \<Rightarrow> lms_db \<Rightarrow> (repo_error + LearningSession) \<times> lms_db" where
  "start_or_resume device clientSessionID assignmentID now capabilities new_id db =
     (let caps = filter (\<lambda>c. c \<noteq> []) capabilities in
      case sessionByClientID db (sc_id device) clientSessionID of
        Inr existing \<Rightarrow> (Inr existing, db)
      | Inl _ \<Rightarrow>
     case get_row sa_id assignmentID (db_assignments db) of
        Inl e \<Rightarrow> (Inl e, db)
      | Inr asg \<Rightarrow>
     if sa_student_id asg \<noteq> sc_student_id device then (Inl ErrNotFound, db)
     else if sa_state asg = AssignmentCancelled then (Inl (ErrBadRequest ''assignment is cancelled''), db)
     else if sa_state asg = AssignmentCompleted then (Inl (ErrBadRequest ''assignment is already completed''), db)
     else
     case GetRevision db (sa_activity_revision_id asg) of
        Inl e \<Rightarrow> (Inl e, db)
      | Inr rvn \<Rightarrow>
     case reject_incompatible (rv_content rvn) caps of
        Some e \<Rightarrow> (Inl e, db)
      | None \<Rightarrow>
     case openSessionForAssignment db assignmentID of
        Inr opened \<Rightarrow> (Inr opened, db)
      | Inl _ \<Rightarrow>
     let sess = new_session new_id device clientSessionID asg assignmentID now in
     case create_row ln_id session_conflict sess (db_sessions db) of
        Inl e \<Rightarrow> (Inl e, db)
      | Inr sessions \<Rightarrow>
     let db1 = db\<lparr>db_sessions := sessions\<rparr> in
     if sa_state asg = AssignmentAvailable then
       (case update_row sa_id (sa_id asg) (\<lambda>a. a\<lparr>sa_state := AssignmentInProgress\<rparr>) (db_assignments db) of
          Inl e \<Rightarrow> (Inl e, db1)
        | Inr asgs \<Rightarrow> (Inr sess, db1\<lparr>db_assignments := asgs\<rparr>))
     else (Inr sess, db1))"

definition StartOrResumeSession ::
  "StudentDevice \<Rightarrow> string \<Rightarrow> uuid \<Rightarrow> time \<Rightarrow> string list \<Rightarrow> uuid \<Rightarrow> lms_db \<Rightarrow> (repo_error + LearningSession) \<times> lms_db" where
  "StartOrResumeSession device clientSessionID assignmentID now capabilities new_id =
     WithTx (start_or_resume device clientSessionID assignmentID now capabilities new_id)"

section \<open>Events\<close>

definition event_row :: "uuid \<Rightarrow> uuid \<Rightarrow> SessionEvent \<Rightarrow> time \<Rightarrow> LearningSessionEvent" where
  "event_row new_id sessionID ev now =
     \<lparr>le_id = new_id, le_session_id = sessionID, le_event_id = sv_event_id ev, le_sequence = sv_sequence ev,
      le_event_type = sv_type ev, le_client_time = sv_client_time ev, le_received_at = now,
      le_schema_version = (if sv_schema_version ev = [] then EventSchemaVersion else sv_schema_version ev),
      le_payload = sv_payload ev\<rparr>"

definition insert_event :: "lms_db \<Rightarrow> LearningSessionEvent \<Rightarrow> repo_error + LearningSessionEvent list" where
  "insert_event db row =
     (if list_ex (\<lambda>e. le_event_id e = le_event_id row) (db_events db) then Inr (db_events db)
      else if le_sequence row < 0 then Inl CheckViolation
      else if list_ex (\<lambda>e. le_id e = le_id row \<or>
                (le_session_id e = le_session_id row \<and> le_sequence e = le_sequence row)) (db_events db)
        then Inl UniqueViolation
      else if \<not> list_ex (\<lambda>s. ln_id s = le_session_id row) (db_sessions db) then Inl ForeignKeyViolation
      else Inr (db_events db @ [row]))"

definition after_abort :: "SessionEvent list \<Rightarrow> repo_error" where
  "after_abort rest = (case rest of
     [] \<Rightarrow> TxAborted
   | ev # _ \<Rightarrow> if sv_event_id ev = [] then ErrBadRequest ''eventId is required'' else TxAborted)"

fun insert_events :: "(SessionEvent \<Rightarrow> uuid) \<Rightarrow> uuid \<Rightarrow> time \<Rightarrow> SessionEvent list \<Rightarrow> lms_db \<Rightarrow> repo_error + lms_db" where
  "insert_events gen sessionID now [] db = Inr db"
| "insert_events gen sessionID now (ev # evs) db =
     (if sv_event_id ev = [] then Inl (ErrBadRequest ''eventId is required'')
      else case insert_event db (event_row (gen ev) sessionID ev now) of
        Inl UniqueViolation \<Rightarrow> Inl (after_abort evs)
      | Inl e \<Rightarrow> Inl e
      | Inr rows \<Rightarrow> insert_events gen sessionID now evs (db\<lparr>db_events := rows\<rparr>))"

fun ack_loop :: "int \<Rightarrow> int \<Rightarrow> int \<Rightarrow> int list \<Rightarrow> int" where
  "ack_loop maxSeq expect acked [] = acked"
| "ack_loop maxSeq expect acked (seq # seqs) =
     (if seq \<noteq> expect then acked
      else if maxSeq \<le> seq then seq
      else ack_loop maxSeq (expect + 1) seq seqs)"

definition session_sequences :: "lms_db \<Rightarrow> uuid \<Rightarrow> int list" where
  "session_sequences db sessionID = map le_sequence (filter (\<lambda>e. le_session_id e = sessionID) (db_events db))"

definition contiguousAck :: "lms_db \<Rightarrow> uuid \<Rightarrow> int \<Rightarrow> int" where
  "contiguousAck db sessionID maxSeq =
     ack_loop maxSeq 0 (- 1) (sort (filter (\<lambda>n. 0 \<le> n) (session_sequences db sessionID)))"

definition acknowledged :: "lms_db \<Rightarrow> uuid \<Rightarrow> int" where
  "acknowledged db sessionID =
     (case session_sequences db sessionID of
        [] \<Rightarrow> - 1
      | seqs \<Rightarrow> contiguousAck db sessionID (Max (set seqs)))"

definition touch_session :: "uuid \<Rightarrow> time \<Rightarrow> lms_db \<Rightarrow> lms_db" where
  "touch_session sessionID now db =
     db\<lparr>db_sessions := update_where (\<lambda>s. ln_id s = sessionID) (\<lambda>s. s\<lparr>ln_last_event_at := Some now\<rparr>) (db_sessions db)\<rparr>"

definition IngestSessionEvents ::
  "(SessionEvent \<Rightarrow> uuid) \<Rightarrow> uuid \<Rightarrow> SessionEvent list \<Rightarrow> time \<Rightarrow> lms_db \<Rightarrow> (repo_error + int) \<times> lms_db" where
  "IngestSessionEvents gen sessionID events now =
     WithTx (\<lambda>db. case insert_events gen sessionID now events db of
        Inl e \<Rightarrow> (Inl e, db)
      | Inr db1 \<Rightarrow>
          let db2 = touch_session sessionID now db1
          in (Inr (acknowledged db2 sessionID), db2))"

definition CountSessionEvents :: "lms_db \<Rightarrow> uuid \<Rightarrow> nat" where
  "CountSessionEvents db sessionID = length (filter (\<lambda>e. le_session_id e = sessionID) (db_events db))"

definition ServerEventSequenceBase :: int where
  "ServerEventSequenceBase = 1000000000"

definition next_server_sequence :: "lms_db \<Rightarrow> uuid \<Rightarrow> int" where
  "next_server_sequence db sessionID =
     (case filter (\<lambda>n. ServerEventSequenceBase \<le> n) (session_sequences db sessionID) of
        [] \<Rightarrow> ServerEventSequenceBase
      | seqs \<Rightarrow> Max (set seqs) + 1)"

definition InsertServerSessionEvent ::
  "uuid \<Rightarrow> string \<Rightarrow> uuid \<Rightarrow> string \<Rightarrow> params \<Rightarrow> time \<Rightarrow> lms_db \<Rightarrow> (repo_error + unit) \<times> lms_db" where
  "InsertServerSessionEvent new_id event_id sessionID eventType payload now =
     WithTx (\<lambda>db.
       let row = \<lparr>le_id = new_id, le_session_id = sessionID, le_event_id = event_id,
                   le_sequence = next_server_sequence db sessionID, le_event_type = eventType,
                   le_client_time = now, le_received_at = now, le_schema_version = EventSchemaVersion,
                   le_payload = payload\<rparr>
       in if list_ex (\<lambda>e. le_event_id e = event_id) (db_events db) then (Inl UniqueViolation, db)
          else case insert_event db row of
            Inl e \<Rightarrow> (Inl e, db)
          | Inr rows \<Rightarrow> (Inr (), touch_session sessionID now (db\<lparr>db_events := rows\<rparr>)))"

definition EventTutorMessage :: string where "EventTutorMessage = ''tutor_message''"

definition reply_of :: "params \<Rightarrow> string list" where
  "reply_of payload = (case map_of payload ''reply'' of
     Some (AnyString r) \<Rightarrow> if r = [] then [] else [r] | _ \<Rightarrow> [])"

definition ListTutorReplyHints :: "lms_db \<Rightarrow> uuid \<Rightarrow> int \<Rightarrow> string list" where
  "ListTutorReplyHints db sessionID limit =
     (let n = (if limit \<le> 0 then 20 else limit) in
      concat (map (\<lambda>e. reply_of (le_payload e))
        (take (nat n) (sort_key le_sequence
          (filter (\<lambda>e. le_session_id e = sessionID \<and> le_event_type e = EventTutorMessage) (db_events db))))))"

definition CountTutorEvents :: "lms_db \<Rightarrow> uuid \<Rightarrow> nat" where
  "CountTutorEvents db sessionID =
     length (filter (\<lambda>e. le_session_id e = sessionID \<and> le_event_type e = EventTutorMessage) (db_events db))"

definition CountTutorEventsForStudent :: "lms_db \<Rightarrow> uuid \<Rightarrow> nat" where
  "CountTutorEventsForStudent db studentID =
     length (filter (\<lambda>e. le_event_type e = EventTutorMessage \<and>
         list_ex (\<lambda>s. ln_id s = le_session_id e \<and> ln_student_id s = studentID) (db_sessions db)) (db_events db))"

section \<open>Completions\<close>

definition GetCompletionBySession :: "lms_db \<Rightarrow> uuid \<Rightarrow> repo_error + LearningSessionCompletion" where
  "GetCompletionBySession db sessionID = get_row lc_session_id sessionID (db_completions db)"

definition GetCompletionByID :: "lms_db \<Rightarrow> string \<Rightarrow> repo_error + LearningSessionCompletion" where
  "GetCompletionByID db completionID = get_row lc_completion_id completionID (db_completions db)"

definition InsertCompletion ::
  "uuid \<Rightarrow> uuid \<Rightarrow> string \<Rightarrow> string \<Rightarrow> CompletionResult \<Rightarrow> lms_db \<Rightarrow> repo_error + lms_db" where
  "InsertCompletion new_id sessionID completionID digest response db =
     (case create_row lc_id (\<lambda>x c. lc_completion_id x = lc_completion_id c \<or> lc_session_id x = lc_session_id c)
             \<lparr>lc_id = new_id, lc_session_id = sessionID, lc_completion_id = completionID,
              lc_request_digest = digest, lc_response = response\<rparr> (db_completions db) of
        Inl e \<Rightarrow> Inl e
      | Inr rows \<Rightarrow> Inr (db\<lparr>db_completions := rows\<rparr>))"

definition CompletionResultFromRow :: "LearningSessionCompletion \<Rightarrow> CompletionResult" where
  "CompletionResultFromRow c = lc_response c"

definition MarkSessionCompleted :: "LearningSession \<Rightarrow> string \<Rightarrow> time \<Rightarrow> lms_db \<Rightarrow> repo_error + lms_db" where
  "MarkSessionCompleted session summary now db =
     (let dur0 = duration_seconds (now - ln_started_at session);
          dur = (if dur0 < 0 then 0 else dur0)
      in case update_row ln_id (ln_id session)
                (\<lambda>s. s\<lparr>ln_state := SessionCompleted, ln_completed_at := Some now, ln_duration_seconds := dur,
                       ln_summary := summary\<rparr>) (db_sessions db) of
           Inl e \<Rightarrow> Inl e
         | Inr sessions \<Rightarrow>
             (case update_row sa_id (ln_assignment_id session) (\<lambda>a. a\<lparr>sa_state := AssignmentCompleted\<rparr>)
                     (db_assignments db) of
                Inl e \<Rightarrow> Inl e
              | Inr asgs \<Rightarrow> Inr (db\<lparr>db_sessions := sessions, db_assignments := asgs\<rparr>)))"

section \<open>The constraints of the session tables\<close>

definition session_wf :: "lms_db \<Rightarrow> bool" where
  "session_wf db \<longleftrightarrow>
     unique_key ln_id (db_sessions db) \<and>
     unique_key (\<lambda>s. (ln_device_id s, ln_client_session_id s)) (db_sessions db) \<and>
     unique_key ln_assignment_id (filter open_session (db_sessions db)) \<and>
     unique_key le_event_id (db_events db) \<and>
     unique_key (\<lambda>e. (le_session_id e, le_sequence e)) (db_events db) \<and>
     list_all (\<lambda>e. 0 \<le> le_sequence e) (db_events db)"

lemma session_sequences_distinct:
  assumes "session_wf db"
  shows "distinct (session_sequences db sid)"
proof -
  have "distinct (map (\<lambda>e. (le_session_id e, le_sequence e)) (filter (\<lambda>e. le_session_id e = sid) (db_events db)))"
    using assms by (auto simp: session_wf_def unique_key_def intro: distinct_map_filter)
  then show ?thesis by (auto simp: session_sequences_def distinct_map inj_on_def)
qed

lemma session_sequences_nonneg: "session_wf db \<Longrightarrow> n \<in> set (session_sequences db sid) \<Longrightarrow> 0 \<le> n"
  by (auto simp: session_wf_def session_sequences_def list_all_iff)

lemma ack_loop_contiguous:
  assumes "sorted_wrt (<) seqs" "\<forall>n \<in> set seqs. expect \<le> n \<and> n \<le> mx"
  shows "let n = ack_loop mx expect (expect - 1) seqs in
    expect - 1 \<le> n \<and> {expect..n} \<subseteq> set seqs \<and> n + 1 \<notin> set seqs"
  using assms
proof (induction seqs arbitrary: expect)
  case (Cons x xs)
  have later: "\<forall>n \<in> set xs. x < n" using Cons.prems(1) by simp
  consider (gap) "x \<noteq> expect" | (last) "x = expect" "mx \<le> x" | (more) "x = expect" "x < mx" by linarith
  then show ?case
  proof cases
    case gap
    with Cons.prems later show ?thesis by auto
  next
    case last
    have "n \<notin> set xs" if "x < n" for n using Cons.prems(2) last(2) that by auto
    with last later show ?thesis by auto
  next
    case more
    have "\<forall>n \<in> set xs. expect + 1 \<le> n \<and> n \<le> mx" using later more Cons.prems(2) by auto
    with Cons.IH [of "expect + 1"] Cons.prems(1)
    have ih: "expect \<le> ack_loop mx (expect + 1) expect xs"
      "{expect + 1..ack_loop mx (expect + 1) expect xs} \<subseteq> set xs"
      "ack_loop mx (expect + 1) expect xs + 1 \<notin> set xs"
      by (simp_all add: Let_def)
    moreover have "{expect..k} \<subseteq> insert expect (set xs)" if "{expect + 1..k} \<subseteq> set xs" for k
    proof
      fix x assume "x \<in> {expect..k}"
      then have "x = expect \<or> x \<in> {expect + 1..k}" by auto
      with that show "x \<in> insert expect (set xs)" by blast
    qed
    ultimately have "{expect..ack_loop mx (expect + 1) expect xs} \<subseteq> insert expect (set xs)" by blast
    with ih more show ?thesis by (simp add: Let_def)
  qed
qed simp

lemma acknowledged_contiguous:
  assumes "session_wf db"
  shows "- 1 \<le> acknowledged db sid \<and> {0..acknowledged db sid} \<subseteq> set (session_sequences db sid) \<and>
    acknowledged db sid + 1 \<notin> set (session_sequences db sid)"
proof (cases "session_sequences db sid")
  case Nil
  then show ?thesis by (simp add: acknowledged_def)
next
  case (Cons a as)
  let ?seqs = "session_sequences db sid"
  have nn: "filter (\<lambda>n. 0 \<le> n) ?seqs = ?seqs"
    using session_sequences_nonneg [OF assms] by (simp add: filter_id_conv)
  have "sorted_wrt (<) (sort ?seqs)"
    using session_sequences_distinct [OF assms, of sid] by (simp add: strict_sorted_iff)
  moreover have "\<forall>n \<in> set (sort ?seqs). 0 \<le> n \<and> n \<le> Max (set ?seqs)"
    using session_sequences_nonneg [OF assms] by simp
  ultimately show ?thesis
    using ack_loop_contiguous [of "sort ?seqs" 0 "Max (set ?seqs)"] Cons
    by (simp add: acknowledged_def contiguousAck_def nn [unfolded Cons] Let_def del: sort_key_simps)
qed

section \<open>Event ingest\<close>

lemma insert_event_cases:
  assumes "insert_event db row = Inr rows"
  obtains (old) "rows = db_events db" "le_event_id row \<in> keys le_event_id (db_events db)"
    | (new) "rows = db_events db @ [row]" "le_event_id row \<notin> keys le_event_id (db_events db)" "0 \<le> le_sequence row"
        "(le_session_id row, le_sequence row) \<notin> keys (\<lambda>e. (le_session_id e, le_sequence e)) (db_events db)"
proof (cases "le_event_id row \<in> keys le_event_id (db_events db)")
  case True
  with assms have "rows = db_events db" by (auto simp: insert_event_def list_ex_iff keys_def split: if_splits)
  with True old show ?thesis by blast
next
  case False
  with assms have "rows = db_events db @ [row]" "0 \<le> le_sequence row"
    "(le_session_id row, le_sequence row) \<notin> keys (\<lambda>e. (le_session_id e, le_sequence e)) (db_events db)"
    by (auto simp: insert_event_def list_ex_iff keys_def image_iff split: if_splits)
  with False new show ?thesis by blast
qed

lemma insert_event_wf:
  assumes "session_wf db" "insert_event db row = Inr rows"
  shows "session_wf (db\<lparr>db_events := rows\<rparr>)"
  using assms(2)
  by (cases rule: insert_event_cases) (use assms(1) in \<open>auto simp: session_wf_def intro!: unique_key_snoc\<close>)

lemma insert_events_ok:
  assumes "insert_events gen sid now evs db = Inr db'" "session_wf db"
  shows "session_wf db' \<and> (\<exists>new. db' = db\<lparr>db_events := db_events db @ new\<rparr>) \<and>
    sv_event_id ` set evs \<subseteq> keys le_event_id (db_events db')"
  using assms
proof (induction evs arbitrary: db)
  case (Cons ev evs)
  then obtain rows where rows: "insert_event db (event_row (gen ev) sid ev now) = Inr rows"
    and rest: "insert_events gen sid now evs (db\<lparr>db_events := rows\<rparr>) = Inr db'"
    by (auto split: if_splits sum.splits repo_error.splits)
  note wf = insert_event_wf [OF Cons.prems(2) rows]
  from Cons.IH [OF rest wf] obtain new where
    ih: "session_wf db'" "db' = db\<lparr>db_events := rows @ new\<rparr>" "sv_event_id ` set evs \<subseteq> keys le_event_id (db_events db')"
    by auto
  from rows have "\<exists>more. rows = db_events db @ more" "sv_event_id ev \<in> keys le_event_id rows"
    by (cases rule: insert_event_cases, auto simp: event_row_def)+
  with ih show ?case by auto
qed (auto intro: exI [of _ "[]"])

lemma insert_event_stored:
  "sv_event_id ev \<in> keys le_event_id (db_events db) \<Longrightarrow>
     insert_event db (event_row i sid ev now) = Inr (db_events db)"
  by (auto simp: insert_event_def event_row_def keys_def list_ex_iff)

lemma insert_events_again:
  "sv_event_id ` set evs \<subseteq> keys le_event_id (db_events db) \<Longrightarrow> list_all (\<lambda>ev. sv_event_id ev \<noteq> []) evs \<Longrightarrow>
     insert_events gen sid now evs db = Inr db"
  by (induction evs) (simp_all add: insert_event_stored)

lemma insert_events_ids: "insert_events gen sid now evs db = Inr db' \<Longrightarrow> list_all (\<lambda>ev. sv_event_id ev \<noteq> []) evs"
  by (induction evs arbitrary: db) (auto split: if_splits sum.splits repo_error.splits)

lemma touch_session_fields [simp]:
  "db_events (touch_session sid now db) = db_events db" "db_assignments (touch_session sid now db) = db_assignments db"
  "db_completions (touch_session sid now db) = db_completions db" "db_records (touch_session sid now db) = db_records db"
  "db_evidence (touch_session sid now db) = db_evidence db" "db_links (touch_session sid now db) = db_links db"
  by (simp_all add: touch_session_def)

lemma map_filter_update_where:
  assumes "\<And>r. k (f r) = k r" "\<And>r. q (f r) = q r"
  shows "map k (filter q (update_where p f rows)) = map k (filter q rows)"
  using assms by (induction rows) (auto simp: update_where_def)

lemma touch_session_wf: "session_wf db \<Longrightarrow> session_wf (touch_session sid now db)"
  by (simp add: session_wf_def unique_key_def touch_session_def map_update_where map_filter_update_where open_session_def)

lemma acknowledged_events: "db_events a = db_events b \<Longrightarrow> acknowledged a sid = acknowledged b sid"
proof -
  assume "db_events a = db_events b"
  then have "session_sequences a sid = session_sequences b sid" by (simp add: session_sequences_def)
  then show ?thesis by (simp add: acknowledged_def contiguousAck_def split: list.split)
qed

text \<open>
  A batch of events that is accepted is stored in full behind what was there, keeps every constraint
  of the tables, and is answered with the highest sequence up to which the session's events are
  complete from 0: everything below it is stored, the next one is missing.  Sending the batch again is
  answered with the same acknowledgement and stores nothing.
\<close>
theorem ingest_acknowledges:
  assumes "session_wf db" "IngestSessionEvents gen sid evs now db = (Inr n, db')"
  shows "session_wf db' \<and> (\<exists>new. db_events db' = db_events db @ new) \<and>
    sv_event_id ` set evs \<subseteq> keys le_event_id (db_events db') \<and>
    {0..n} \<subseteq> set (session_sequences db' sid) \<and> n + 1 \<notin> set (session_sequences db' sid) \<and>
    (\<exists>db''. IngestSessionEvents gen' sid evs later db' = (Inr n, db'') \<and> db_events db'' = db_events db')"
proof -
  obtain db1 where i: "insert_events gen sid now evs db = Inr db1"
    using assms(2) by (cases "insert_events gen sid now evs db") (auto simp: IngestSessionEvents_def WithTx_ok)
  with assms(2) have n: "n = acknowledged db' sid" and db': "db' = touch_session sid now db1"
    by (auto simp: IngestSessionEvents_def WithTx_ok Let_def)
  from insert_events_ok [OF i assms(1)] obtain new where
    ok: "session_wf db1" "db1 = db\<lparr>db_events := db_events db @ new\<rparr>"
      "sv_event_id ` set evs \<subseteq> keys le_event_id (db_events db1)" by auto
  have wf: "session_wf db'" unfolding db' by (rule touch_session_wf [OF ok(1)])
  have e: "db_events db' = db_events db1" by (simp add: db')
  have "insert_events gen' sid later evs db' = Inr db'"
    using ok(3) insert_events_ids [OF i] by (intro insert_events_again) (simp_all add: e)
  then have "IngestSessionEvents gen' sid evs later db' = (Inr n, touch_session sid later db')"
    by (simp add: IngestSessionEvents_def WithTx_ok Let_def n) (rule acknowledged_events, simp)
  then show ?thesis
    using wf ok acknowledged_contiguous [OF wf, of sid] e n by auto
qed

section \<open>One open session per assignment\<close>

lemma sessionByClientID_Inr:
  "sessionByClientID db d c = Inr s \<Longrightarrow> s \<in> set (db_sessions db) \<and> ln_device_id s = d \<and> ln_client_session_id s = c"
  by (auto simp: sessionByClientID_def dest: find_Some_in split: option.splits)

lemma openSession_Inr:
  "openSessionForAssignment db a = Inr s \<Longrightarrow> s \<in> set (db_sessions db) \<and> ln_assignment_id s = a \<and> open_session s"
  by (auto simp: openSessionForAssignment_def dest: find_Some_in split: option.splits)

lemma create_session_wf:
  assumes "session_wf db" "create_row ln_id session_conflict s (db_sessions db) = Inr rows" "open_session s"
  shows "session_wf (db\<lparr>db_sessions := rows\<rparr>)"
proof -
  have r: "rows = db_sessions db @ [s]" "\<forall>x \<in> set (db_sessions db). ln_id x \<noteq> ln_id s \<and> \<not> session_conflict x s"
    using assms(2) by (auto simp: create_row_def list_ex_iff split: if_splits)
  then show ?thesis
    using assms(1,3) by (auto simp: session_wf_def unique_key_def session_conflict_def)
qed

lemma assignments_wf [simp]: "session_wf (db\<lparr>db_assignments := a\<rparr>) \<longleftrightarrow> session_wf db"
  by (simp add: session_wf_def)

lemma start_or_resume_cases:
  assumes "start_or_resume device cid aid now caps i db = (Inr s, db')"
  obtains (resumed) "db' = db" "s \<in> set (db_sessions db)"
      "(ln_device_id s = sc_id device \<and> ln_client_session_id s = cid) \<or> (ln_assignment_id s = aid \<and> open_session s)"
    | (created) asg rows asgs where "asg \<in> set (db_assignments db)" "sa_id asg = aid"
      "sa_student_id asg = sc_student_id device"
      "sa_state asg \<noteq> AssignmentCancelled" "sa_state asg \<noteq> AssignmentCompleted"
      "s = new_session i device cid asg aid now"
      "create_row ln_id session_conflict s (db_sessions db) = Inr rows"
      "db' = db\<lparr>db_sessions := rows, db_assignments := asgs\<rparr>"
proof (cases "sessionByClientID db (sc_id device) cid")
  case (Inr t)
  with assms have "s = t" "db' = db" by (auto simp: start_or_resume_def Let_def)
  with sessionByClientID_Inr [OF Inr] resumed show ?thesis by blast
next
  case (Inl e)
  obtain asg where asg: "get_row sa_id aid (db_assignments db) = Inr asg"
    using assms Inl by (cases "get_row sa_id aid (db_assignments db)") (auto simp: start_or_resume_def Let_def)
  obtain rvn where rvn: "GetRevision db (sa_activity_revision_id asg) = Inr rvn"
    using assms Inl asg by (auto simp: start_or_resume_def Let_def split: if_splits sum.splits)
  have g: "sa_student_id asg = sc_student_id device" "sa_state asg \<noteq> AssignmentCancelled"
    "sa_state asg \<noteq> AssignmentCompleted" "reject_incompatible (rv_content rvn) (filter (\<lambda>c. c \<noteq> []) caps) = None"
    using assms Inl asg rvn by (auto simp: start_or_resume_def Let_def split: if_splits sum.splits option.splits)
  show ?thesis
  proof (cases "openSessionForAssignment db aid")
    case (Inr t)
    with assms Inl asg rvn g have "s = t" "db' = db" by (auto simp: start_or_resume_def Let_def)
    with openSession_Inr [OF Inr] resumed show ?thesis by blast
  next
    case none: (Inl e')
    let ?s = "new_session i device cid asg aid now"
    obtain rows asgs where "create_row ln_id session_conflict ?s (db_sessions db) = Inr rows" "s = ?s"
      "db' = db\<lparr>db_sessions := rows, db_assignments := asgs\<rparr>"
    proof -
      obtain rows where rows: "create_row ln_id session_conflict ?s (db_sessions db) = Inr rows"
        using assms Inl asg rvn g none by (auto simp: start_or_resume_def Let_def split: sum.splits)
      show ?thesis
      proof (cases "sa_state asg = AssignmentAvailable")
        case True
        then show ?thesis
          using that [OF rows] assms Inl asg rvn g none rows
          by (auto simp: start_or_resume_def Let_def split: sum.splits)
      next
        case False
        then show ?thesis
          using that [OF rows, of "db_assignments db"] assms Inl asg rvn g none rows
          by (auto simp: start_or_resume_def Let_def)
      qed
    qed
    with created get_row_Inr [OF asg] g show ?thesis by blast
  qed
qed

lemma new_session_open [simp]: "open_session (new_session i device cid asg aid now)"
  by (simp add: new_session_def open_session_def)

text \<open>
  Starting work on an assignment keeps the constraints of the tables, at most one open session per assignment
  among them; the session returned is one the device named itself or the open session of the assignment,
  and it is new only for an uncompleted, uncancelled assignment of the device's own student.
\<close>
theorem StartOrResumeSession_single_open:
  assumes "session_wf db" "StartOrResumeSession device cid aid now caps i db = (Inr s, db')"
  shows "session_wf db' \<and> s \<in> set (db_sessions db') \<and>
    ((ln_device_id s = sc_id device \<and> ln_client_session_id s = cid) \<or> (ln_assignment_id s = aid \<and> open_session s)) \<and>
    (s \<in> set (db_sessions db) \<or> (\<exists>asg \<in> set (db_assignments db). sa_id asg = aid \<and>
       sa_student_id asg = sc_student_id device \<and> sa_state asg \<noteq> AssignmentCancelled \<and>
       sa_state asg \<noteq> AssignmentCompleted))"
proof -
  have "start_or_resume device cid aid now caps i db = (Inr s, db')"
    using assms(2) by (simp add: StartOrResumeSession_def WithTx_ok)
  then show ?thesis
  proof (cases rule: start_or_resume_cases)
    case resumed
    with assms(1) show ?thesis by blast
  next
    case (created asg rows asgs)
    have "rows = db_sessions db @ [s]" using created(7) by (simp add: create_row_def split: if_splits)
    moreover have "session_wf (db\<lparr>db_sessions := rows\<rparr>)"
      using create_session_wf [OF assms(1) created(7)] created(6) by simp
    ultimately show ?thesis using created by (auto simp: new_session_def)
  qed
qed

text \<open>
  The conflict error prepared for a sequence number held by another event is never returned: the failed
  insert has aborted the transaction, so the query that would look for the holder fails too.
\<close>
lemma ingest_never_reports_conflict:
  assumes "IngestSessionEvents gen sid evs now db = (Inl e, db')"
  shows "e \<noteq> ErrConflict msg"
proof -
  have "insert_events gen sid now evs db \<noteq> Inl (ErrConflict msg)" for db
    by (induction evs arbitrary: db)
      (auto simp: after_abort_def insert_event_def split: if_splits sum.splits repo_error.splits list.splits)
  with assms show ?thesis
    by (auto simp: IngestSessionEvents_def WithTx_def Let_def split: sum.splits prod.splits)
qed

section \<open>An example database\<close>

definition ex_standard :: Standard where
  "ex_standard = \<lparr>sd_id = ''std-cli'', sd_code = ''TN.CLI.1'', sd_description = ''List files''\<rparr>"

definition ex_link :: LearningActivityRevisionStandard where
  "ex_link = \<lparr>lk_id = ''link-1'', lk_activity_revision_id = ''rev-1'', lk_standard_id = ''std-cli'',
     lk_role = StandardRolePrimary, lk_weight = 1, lk_mastery_criterion = [],
     lk_evidence_policy = Some DefaultTerminalEvidencePolicy, lk_created_at = 0\<rparr>"

definition ex_assignment :: StudentAssignment where
  "ex_assignment = \<lparr>sa_id = ''asg-1'', sa_student_id = ''stu-1'', sa_activity_revision_id = ''rev-1'',
     sa_state = AssignmentAvailable, sa_priority = 0, sa_available_at = 0, sa_due_at = None, sa_reason = []\<rparr>"

definition ex_lms :: lms_db where
  "ex_lms = \<lparr>db_standards = [ex_standard],
     db_activities = [\<lparr>la_id = ''act-1'', la_slug = ''find-a-file'', la_title = ''Find a file'', la_summary = [],
       la_kind = KindTerminal, la_subject_id = None, la_status = ''published''\<rparr>],
     db_revisions = [\<lparr>rv_id = ''rev-1'', rv_activity_id = ''act-1'', rv_revision = 1, rv_schema_version = SchemaVersion,
       rv_content = Some ex_content, rv_content_sha256 = [], rv_published_at = Some 0\<rparr>],
     db_links = [ex_link], db_assignments = [ex_assignment], db_sessions = [], db_events = [],
     db_completions = [], db_records = [], db_evidence = []\<rparr>"

definition ex_device :: StudentDevice where
  "ex_device = \<lparr>sc_id = ''dev-1'', sc_student_id = ''stu-1'', sc_name = ''desk'', sc_token_hash = ''h'',
     sc_last_seen_at = None, sc_revoked_at = None\<rparr>"

definition ex_lms_session :: LearningSession where
  "ex_lms_session = new_session ''ses-1'' ex_device ''local-1'' ex_assignment ''asg-1'' 100"

definition ex_lms_started :: lms_db where
  "ex_lms_started = ex_lms\<lparr>db_sessions := [ex_lms_session],
     db_assignments := [ex_assignment\<lparr>sa_state := AssignmentInProgress\<rparr>]\<rparr>"

lemma ex_lms_wf: "session_wf ex_lms"
  by (simp add: session_wf_def unique_key_def ex_lms_def)

lemma ex_lms_starts:
  "StartOrResumeSession ex_device ''local-1'' ''asg-1'' 100 [CapStructuredCommandEvidence] ''ses-1'' ex_lms =
     (Inr ex_lms_session, ex_lms_started)"
  by code_simp

theorem StartOrResumeSession_single_open_witness:
  "session_wf ex_lms_started \<and> ex_lms_session \<in> set (db_sessions ex_lms_started)"
  using StartOrResumeSession_single_open [OF ex_lms_wf ex_lms_starts] by blast

lemma ex_lms_started_wf: "session_wf ex_lms_started"
  by (simp add: session_wf_def unique_key_def ex_lms_def ex_lms_started_def)

definition ex_event :: "string \<Rightarrow> int \<Rightarrow> SessionEvent" where
  "ex_event i n = \<lparr>sv_schema_version = [], sv_event_id = i, sv_type = ''task_viewed'', sv_sequence = n,
     sv_client_time = 0, sv_payload = []\<rparr>"

lemma ex_ingest:
  "fst (IngestSessionEvents sv_event_id ''ses-1'' [ex_event ''a'' 0, ex_event ''b'' 1, ex_event ''d'' 3] 200 ex_lms_started) = Inr 1"
  by code_simp

theorem ingest_acknowledges_witness:
  "\<exists>db'. fst (IngestSessionEvents sv_event_id ''ses-1'' [ex_event ''a'' 0, ex_event ''b'' 1, ex_event ''d'' 3] 200 ex_lms_started) = Inr 1 \<and>
     {0..1} \<subseteq> set (session_sequences db' ''ses-1'') \<and> 2 \<notin> set (session_sequences db' ''ses-1'')"
proof -
  obtain db' where i: "IngestSessionEvents sv_event_id ''ses-1'' [ex_event ''a'' 0, ex_event ''b'' 1, ex_event ''d'' 3]
      200 ex_lms_started = (Inr 1, db')"
    using ex_ingest by (metis prod.collapse)
  from ingest_acknowledges [OF ex_lms_started_wf i, of sv_event_id 300] ex_ingest show ?thesis
    by (intro exI [of _ db']) simp
qed

end
