(* ===== verification/Mastery.thy ===== *)
theory Mastery
  imports Learning_Session
begin

text \<open>
  Mastery updates (\<^verbatim>\<open>mastery/apply.go\<close>): what a completed session, a submitted response and a parent's
  attestation do to the mastery records of a student.  Every update adds one piece of classified evidence per
  linked standard and then moves the record along the ladder not introduced, in progress, approaching,
  mastered, as far as the confidence proposes and the evidence policy of the link permits.

  What the database generates is an argument (\<open>gen\<close>): the identifiers of new rows, and the round trip of
  a confidence through its \<^verbatim>\<open>NUMERIC(4,3)\<close> column (\<open>gn_store\<close>), of which the theorems assume what the
  column type documents (\<open>numeric_column\<close>).  \<^verbatim>\<open>SELECT DISTINCT ... ORDER BY evidence_class\<close> ranges over the five
  classes the table's constraint admits.  The day a piece of evidence occurred on is kept as the instant.
\<close>

section \<open>Generated values\<close>

record gen =
  gn_record :: "uuid \<Rightarrow> uuid"
  gn_evidence :: "uuid \<Rightarrow> uuid"
  gn_completion :: uuid
  gn_store :: "rat \<Rightarrow> rat"

section \<open>The confidence ladder\<close>

definition ConfidenceBump :: rat where "ConfidenceBump = fl (35 / 100)"
definition MasteredThreshold :: rat where "MasteredThreshold = fl (8 / 10)"
definition approaching_threshold :: rat where "approaching_threshold = fl (45 / 100)"

definition clamp01 :: "rat \<Rightarrow> rat" where
  "clamp01 v = (if v < 0 then 0 else if 1 < v then 1 else v)"

definition maxFloat :: "rat \<Rightarrow> rat \<Rightarrow> rat" where
  "maxFloat a b = (if b < a then a else b)"

definition statusRank :: "string \<Rightarrow> nat" where
  "statusRank s =
     (if s = ''not_introduced'' \<or> s = [] then 0
      else if s = ''in_progress'' then 1
      else if s = ''approaching'' then 2
      else if s = ''mastered'' then 3
      else 0)"

definition addClass :: "string list \<Rightarrow> string \<Rightarrow> string list" where
  "addClass classes c = (if list_ex (\<lambda>x. x = c) classes then classes else classes @ [c])"

definition weighted_bump :: "rat \<Rightarrow> rat" where
  "weighted_bump weight = (let b = fmul ConfidenceBump weight in if b \<le> 0 then ConfidenceBump else b)"

definition statusFor :: "string \<Rightarrow> rat \<Rightarrow> string \<Rightarrow> string" where
  "statusFor start conf role =
     (if MasteredThreshold \<le> conf then ''mastered''
      else if approaching_threshold \<le> conf then ''approaching''
      else if start = ''not_introduced'' \<or> start = [] then ''in_progress''
      else if role = StandardRoleReinforcement \<and> start = ''mastered'' then ''mastered''
      else if start = ''mastered'' \<and> conf < MasteredThreshold then ''approaching''
      else ''in_progress'')"

definition proposedStatus :: "string \<Rightarrow> rat \<Rightarrow> string \<Rightarrow> rat \<Rightarrow> string \<times> rat" where
  "proposedStatus start fromConf role weight =
     (let newConf = clamp01 (fadd fromConf (weighted_bump weight))
      in (statusFor start newConf role, newConf))"

definition confForStatus :: "string \<Rightarrow> rat \<Rightarrow> rat \<Rightarrow> rat" where
  "confForStatus status fromConf weight =
     (let b = weighted_bump weight in
      if status = ''in_progress'' then
        (if 0 < fromConf then clamp01 (fadd fromConf (fmul b (1 / 4))) else clamp01 (fl (2 / 10)))
      else if status = ''approaching'' then clamp01 (maxFloat fromConf approaching_threshold)
      else if status = ''mastered'' then clamp01 (maxFloat fromConf MasteredThreshold)
      else fromConf)"

section \<open>Evidence policies\<close>

definition missingForStatus :: "string \<Rightarrow> string list \<Rightarrow> EvidencePolicy \<Rightarrow> string list" where
  "missingForStatus status accepted policy =
     (if status = [] \<or> status = ''not_introduced'' then []
      else case map_of (ep_status_requirements policy) status of
        None \<Rightarrow> []
      | Some req \<Rightarrow> filter (\<lambda>need. need \<notin> set accepted) req)"

definition ladder_order :: "string list" where
  "ladder_order = [''in_progress'', ''approaching'', ''mastered'']"

fun allow_loop :: "nat \<Rightarrow> nat \<Rightarrow> string list \<Rightarrow> EvidencePolicy \<Rightarrow> string list \<Rightarrow> string \<Rightarrow> string \<times> string list \<times> bool" where
  "allow_loop fromRank candRank accepted policy [] allowed = (allowed, [], True)"
| "allow_loop fromRank candRank accepted policy (st # sts) allowed =
     (if statusRank st \<le> fromRank then allow_loop fromRank candRank accepted policy sts allowed
      else if candRank < statusRank st then (allowed, [], True)
      else let miss = missingForStatus st accepted policy in
        if miss \<noteq> [] then (allowed, miss, False)
        else allow_loop fromRank candRank accepted policy sts st)"

definition highestAllowedStatus :: "string \<Rightarrow> string \<Rightarrow> string list \<Rightarrow> EvidencePolicy \<Rightarrow> string \<times> string list \<times> bool" where
  "highestAllowedStatus start candidate accepted policy =
     (let candRank = statusRank candidate in
      case allow_loop (statusRank start) candRank accepted policy ladder_order
             (if start = [] then ''not_introduced'' else start) of
        (allowed, missing, full) \<Rightarrow>
          let short = statusRank allowed < candRank;
              full2 = (if short then False else full);
              missing2 = (if short \<and> missing = [] then missingForStatus candidate accepted policy else missing)
          in (allowed, missing2, full2 \<and> allowed = candidate))"

definition nextUnsatisfiedStatus :: "string \<Rightarrow> string list \<Rightarrow> EvidencePolicy \<Rightarrow> string" where
  "nextUnsatisfiedStatus current accepted policy =
     (case List.find (\<lambda>st. statusRank current < statusRank st \<and> missingForStatus st accepted policy \<noteq> []) ladder_order of
        None \<Rightarrow> [] | Some st \<Rightarrow> st)"

definition advance_record :: "string \<Rightarrow> rat \<Rightarrow> string \<Rightarrow> rat \<Rightarrow> string \<Rightarrow> rat \<Rightarrow> string \<times> rat" where
  "advance_record fromStatus fromConf candidateStatus candidateConf allowedStatus weight =
     (if statusRank fromStatus < statusRank allowedStatus then
        (if statusRank candidateStatus \<le> statusRank allowedStatus then (candidateStatus, candidateConf)
         else (allowedStatus, confForStatus allowedStatus fromConf weight))
      else if statusRank candidateStatus \<le> statusRank allowedStatus \<and> fromConf < candidateConf
        then (candidateStatus, candidateConf)
      else (fromStatus, fromConf))"

section \<open>Records and evidence\<close>

definition upsertMasteryRecord :: "gen \<Rightarrow> uuid \<Rightarrow> uuid \<Rightarrow> uuid \<Rightarrow> lms_db \<Rightarrow> repo_error + (MasteryRecord \<times> lms_db)" where
  "upsertMasteryRecord g link_id studentID standardID db =
     (case List.find (\<lambda>r. mr_student_id r = studentID \<and> mr_standard_id r = standardID) (db_records db) of
        Some r \<Rightarrow> Inr (r, db)
      | None \<Rightarrow>
          let r = \<lparr>mr_id = gn_record g link_id, mr_student_id = studentID, mr_standard_id = standardID,
                    mr_status = ''not_introduced'', mr_confidence = 0, mr_decay_rate = fl (2 / 100),
                    mr_last_assessed_at = None, mr_last_reinforced_at = None\<rparr>
          in case create_row mr_id (\<lambda>x y. mr_student_id x = mr_student_id y \<and> mr_standard_id x = mr_standard_id y) r
                    (db_records db) of
               Inl e \<Rightarrow> Inl e
             | Inr rows \<Rightarrow> Inr (r, db\<lparr>db_records := rows\<rparr>))"

definition evidence_key :: "MasteryEvidence \<Rightarrow> uuid \<times> string" where
  "evidence_key e = (mv_mastery_record_id e, mv_source_ref e)"

definition insertEvidence ::
  "gen \<Rightarrow> uuid \<Rightarrow> uuid \<Rightarrow> string \<Rightarrow> string \<Rightarrow> params \<Rightarrow> int \<Rightarrow> time \<Rightarrow> string \<Rightarrow> string \<Rightarrow> lms_db \<Rightarrow>
     repo_error + (uuid \<times> bool \<times> lms_db)" where
  "insertEvidence g link_id masteryRecordID sourceRef evidenceClass provenance policyVersion now sessionID checkID db =
     (case List.find (\<lambda>e. mv_source_ref e \<noteq> [] \<and> evidence_key e = (masteryRecordID, sourceRef)) (db_evidence db) of
        Some e \<Rightarrow> Inr (mv_id e, False, db)
      | None \<Rightarrow>
          let row = \<lparr>mv_id = gn_evidence g link_id, mv_mastery_record_id = masteryRecordID, mv_kind = ''continuous'',
                      mv_evidence_class = evidenceClass, mv_provenance = provenance, mv_policy_version = policyVersion,
                      mv_occurred_on = now,
                      mv_context = ''session='' @ sessionID @ '' check='' @ checkID @ '' class='' @ evidenceClass,
                      mv_source_ref = sourceRef\<rparr>
          in case create_row mv_id (\<lambda>_ _. False) row (db_evidence db) of
               Inl e \<Rightarrow> Inl e
             | Inr rows \<Rightarrow> Inr (mv_id row, True, db\<lparr>db_evidence := rows\<rparr>))"

definition evidence_classes :: "string list" where
  "evidence_classes = [''conceptual_response'', ''formal_assessment'', ''parent_attestation'', ''portfolio'',
     ''procedural_continuous'']"

definition superseded :: "MasteryEvidence \<Rightarrow> bool" where
  "superseded e = contains_str (to_lower (mv_context e)) ''superseded by parent''"

definition listAcceptedEvidenceClasses :: "lms_db \<Rightarrow> uuid \<Rightarrow> string list" where
  "listAcceptedEvidenceClasses db masteryRecordID =
     filter (\<lambda>c. list_ex (\<lambda>e. mv_mastery_record_id e = masteryRecordID \<and> mv_evidence_class e = c \<and> \<not> superseded e)
                   (db_evidence db)) evidence_classes"

definition updateMasteryAggregate :: "gen \<Rightarrow> uuid \<Rightarrow> string \<Rightarrow> rat \<Rightarrow> time \<Rightarrow> lms_db \<Rightarrow> lms_db" where
  "updateMasteryAggregate g i status confidence now db =
     db\<lparr>db_records := update_where (\<lambda>r. mr_id r = i)
          (\<lambda>r. r\<lparr>mr_status := status, mr_confidence := gn_store g confidence,
                  mr_last_assessed_at := Some now, mr_last_reinforced_at := Some now\<rparr>) (db_records db)\<rparr>"

definition standardEligibleForActivity :: "string \<Rightarrow> string \<Rightarrow> bool" where
  "standardEligibleForActivity kind code =
     (let isTyping = contains_str code ''.TYPE.'' in
      if kind = KindTyping then isTyping
      else if kind = KindTerminal then \<not> isTyping
      else True)"

section \<open>Checks of a completion\<close>

definition observation_by_id :: "Observation list \<Rightarrow> string \<Rightarrow> Observation option" where
  "observation_by_id obs i = List.find (\<lambda>ob. ob_check_id ob = i) (rev obs)"

fun evalTree :: "CheckTree \<Rightarrow> (string \<Rightarrow> Observation option) \<Rightarrow> bool" where
  "evalTree (CheckTree all any cid opt) byID =
     (if opt then True
      else if cid \<noteq> [] then (case byID cid of None \<Rightarrow> False | Some ob \<Rightarrow> ob_passed ob)
      else if all \<noteq> [] then list_all (\<lambda>c. evalTree c byID) all
      else if any \<noteq> [] then list_ex (\<lambda>c. evalTree c byID) any
      else True)"

definition validateRequiredChecks :: "ActivityContent \<Rightarrow> Observation list \<Rightarrow> repo_error option" where
  "validateRequiredChecks content obs =
     (let byID = observation_by_id obs in
      case List.find (\<lambda>ch. \<not> ck_optional ch \<and>
             (case byID (ck_id ch) of None \<Rightarrow> True | Some ob \<Rightarrow> \<not> ob_passed ob)) (ac_checks content) of
        Some ch \<Rightarrow> Some (ErrBadRequest (''required check not passed: '' @ ck_id ch))
      | None \<Rightarrow>
          (case List.find (\<lambda>t. \<not> tk_optional t \<and> \<not> evalTree (tk_completion t) byID) (ac_tasks content) of
             Some t \<Rightarrow> Some (ErrBadRequest (''task completion requirements not met: '' @ tk_id t))
           | None \<Rightarrow> None))"

definition untrusted_sources :: "string list" where
  "untrusted_sources = [''pty-shell'', ''synthetic-pty'', ''screen'']"

definition trusted_sources :: "string list" where
  "trusted_sources = [''structured'', ''structured_command'', ''command_instrumentation'', ''observe-bash'', ''process-wait'']"

definition detail_string :: "params \<Rightarrow> string \<Rightarrow> string option" where
  "detail_string ps k = (case map_of ps k of Some (AnyString s) \<Rightarrow> Some s | _ \<Rightarrow> None)"

definition observationHasStructuredCommandEvidence :: "Observation \<Rightarrow> bool" where
  "observationHasStructuredCommandEvidence ob =
     (let ds = ob_details ob;
          src = map_option (\<lambda>s. to_lower (trim_space s)) (detail_string ds ''source'')
      in if ds = [] then False
         else if (case src of Some s \<Rightarrow> s \<in> set untrusted_sources | None \<Rightarrow> False) then False
         else if map_of ds ''structuredCommandEvidence'' = Some (AnyBool True) then
           (case src of Some s \<Rightarrow> s \<in> set trusted_sources | None \<Rightarrow> False)
         else if detail_string ds ''capability'' = Some CapStructuredCommandEvidence then True
         else (case src of Some s \<Rightarrow> s \<in> set trusted_sources | None \<Rightarrow> False))"

definition validateObservationCapabilities :: "ActivityContent \<Rightarrow> Observation list \<Rightarrow> repo_error option" where
  "validateObservationCapabilities content obs =
     (case List.find (\<lambda>ob. ob_passed ob \<and> \<not> ob_optional ob \<and>
             (case check_by_id (ac_checks content) (ob_check_id ob) of
                None \<Rightarrow> False
              | Some ch \<Rightarrow> RequiresStructuredCommandEvidence (ck_kind ch) \<and>
                          \<not> observationHasStructuredCommandEvidence ob)) obs of
        None \<Rightarrow> None
      | Some ob \<Rightarrow> Some (ErrBadRequest (''required check needs structured command evidence: '' @ ob_check_id ob)))"

definition primaryCheckID :: "ActivityContent \<Rightarrow> Observation list \<Rightarrow> string" where
  "primaryCheckID content obs =
     (case List.find (\<lambda>c. \<not> ck_optional c) (ac_checks content) of
        Some c \<Rightarrow> ck_id c
      | None \<Rightarrow> (case obs of ob # _ \<Rightarrow> ob_check_id ob | [] \<Rightarrow> ''unknown''))"

section \<open>Completions\<close>

record completion_ctx =
  cx_session :: LearningSession
  cx_device_id :: uuid
  cx_revision_id :: uuid
  cx_kind :: string
  cx_primary_check :: string
  cx_now :: time

definition completion_provenance :: "completion_ctx \<Rightarrow> Standard \<Rightarrow> LearningActivityRevisionStandard \<Rightarrow> params" where
  "completion_provenance cx std link =
     [(''sessionId'', AnyString (ln_id (cx_session cx))), (''assignmentId'', AnyString (ln_assignment_id (cx_session cx))),
      (''revisionId'', AnyString (cx_revision_id cx)), (''checkId'', AnyString (cx_primary_check cx)),
      (''deviceId'', AnyString (cx_device_id cx)), (''activityKind'', AnyString (cx_kind cx)),
      (''evidenceClass'', AnyString EvidenceProceduralContinuous), (''standardCode'', AnyString (sd_code std)),
      (''role'', AnyString (lk_role link))]"

definition completion_source_ref :: "completion_ctx \<Rightarrow> Standard \<Rightarrow> string" where
  "completion_source_ref cx std =
     ''student-client:'' @ ln_id (cx_session cx) @ '':'' @ cx_primary_check cx @ '':'' @ sd_id std"

definition complete_link ::
  "gen \<Rightarrow> completion_ctx \<Rightarrow> LearningActivityRevisionStandard \<Rightarrow> Standard \<Rightarrow> lms_db \<Rightarrow>
     repo_error + (lms_db \<times> uuid \<times> MasteryTransition)" where
  "complete_link g cx link std db =
     (let policy = policyFromLink link (cx_kind cx); evidenceClass = EvidenceProceduralContinuous in
      case upsertMasteryRecord g (lk_id link) (ln_student_id (cx_session cx)) (lk_standard_id link) db of
        Inl e \<Rightarrow> Inl e
      | Inr (r, db1) \<Rightarrow>
      let fromStatus = mr_status r; fromConf = mr_confidence r in
      case insertEvidence g (lk_id link) (mr_id r) (completion_source_ref cx std) evidenceClass
             (completion_provenance cx std link) (ep_version policy) (cx_now cx) (ln_id (cx_session cx))
             (cx_primary_check cx) db1 of
        Inl e \<Rightarrow> Inl e
      | Inr (evID, inserted, db2) \<Rightarrow>
      let listed = listAcceptedEvidenceClasses db2 (mr_id r);
          accepted = (if inserted then addClass listed evidenceClass else listed);
          (candidateStatus, candidateConf) = proposedStatus fromStatus fromConf (lk_role link) (lk_weight link);
          (allowedStatus, missing, satisfied) = highestAllowedStatus fromStatus candidateStatus accepted policy;
          tr = \<lparr>mt_standard_code = sd_code std, mt_from_status = fromStatus, mt_to_status = fromStatus,
                 mt_confidence = fromConf, mt_reason = [], mt_evidence_class = evidenceClass,
                 mt_accepted_evidence = accepted, mt_missing_evidence = missing,
                 mt_policy_satisfied = (satisfied \<and> allowedStatus = candidateStatus), mt_status_changed = False\<rparr>
      in if \<not> inserted then Inr (db2, evID, tr\<lparr>mt_reason := ''already recorded''\<rparr>)
         else
           let (newStatus, newConf) =
                 advance_record fromStatus fromConf candidateStatus candidateConf allowedStatus (lk_weight link)
           in if newStatus \<noteq> fromStatus \<or> newConf \<noteq> fromConf then
                Inr (updateMasteryAggregate g (mr_id r) newStatus newConf (cx_now cx) db2, evID,
                  tr\<lparr>mt_to_status := newStatus, mt_confidence := newConf, mt_status_changed := True,
                     mt_reason := ''student-client completion'',
                     mt_policy_satisfied := (missingForStatus candidateStatus accepted policy = []),
                     mt_missing_evidence :=
                       missingForStatus (nextUnsatisfiedStatus newStatus accepted policy) accepted policy\<rparr>)
              else
                Inr (db2, evID,
                  tr\<lparr>mt_reason := ''evidence recorded; policy limits mastery transition'',
                     mt_missing_evidence :=
                       (if missing = [] then missingForStatus candidateStatus accepted policy else missing),
                     mt_policy_satisfied := (missingForStatus candidateStatus accepted policy = [])\<rparr>))"

fun complete_links ::
  "gen \<Rightarrow> completion_ctx \<Rightarrow> LearningActivityRevisionStandard list \<Rightarrow> lms_db \<Rightarrow>
     repo_error + (lms_db \<times> uuid list \<times> MasteryTransition list)" where
  "complete_links g cx [] db = Inr (db, [], [])"
| "complete_links g cx (link # links) db =
     (case get_row sd_id (lk_standard_id link) (db_standards db) of
        Inl e \<Rightarrow> Inl e
      | Inr std \<Rightarrow>
          if \<not> standardEligibleForActivity (cx_kind cx) (sd_code std) then complete_links g cx links db
          else case complete_link g cx link std db of
            Inl e \<Rightarrow> Inl e
          | Inr (db1, evID, tr) \<Rightarrow>
              (case complete_links g cx links db1 of
                 Inl e \<Rightarrow> Inl e
               | Inr (db2, evs, trs) \<Rightarrow> Inr (db2, evID # evs, tr # trs)))"

definition cancelled_result :: "LearningSession \<Rightarrow> CompletionRequest \<Rightarrow> CompletionResult" where
  "cancelled_result session req =
     \<lparr>cr_schema_version = CompletionSchemaVersion, cr_completion_id = cq_completion_id req, cr_accepted = False,
      cr_request_digest = cq_request_digest req, cr_observations = cq_observations req, cr_evidence_ids = [],
      cr_mastery_snapshot = [],
      cr_assignment_completion = Some \<lparr>an_assignment_id = ln_assignment_id session, an_session_id = ln_id session,
        an_state = AssignmentCancelled, an_summary = ''cancelled-after-work''\<rparr>,
      cr_mastery_transitions = [],
      cr_message = ''assignment cancelled; evidence retained for parent review (cancelled-after-work)''\<rparr>"

definition accepted_result ::
  "LearningSession \<Rightarrow> CompletionRequest \<Rightarrow> string \<Rightarrow> uuid list \<Rightarrow> MasteryTransition list \<Rightarrow> CompletionResult" where
  "accepted_result session req summary evidenceIDs transitions =
     \<lparr>cr_schema_version = CompletionSchemaVersion, cr_completion_id = cq_completion_id req, cr_accepted = True,
      cr_request_digest = cq_request_digest req, cr_observations = cq_observations req, cr_evidence_ids = evidenceIDs,
      cr_mastery_snapshot = transitions,
      cr_assignment_completion = Some \<lparr>an_assignment_id = ln_assignment_id session, an_session_id = ln_id session,
        an_state = AssignmentCompleted, an_summary = summary\<rparr>,
      cr_mastery_transitions = transitions, cr_message = ''accepted''\<rparr>"

definition complete_session ::
  "gen \<Rightarrow> StudentDevice \<Rightarrow> LearningSession \<Rightarrow> CompletionRequest \<Rightarrow> time \<Rightarrow> lms_db \<Rightarrow> repo_error + (CompletionResult \<times> lms_db)" where
  "complete_session g device session req now db =
     (case GetRevision db (ln_activity_revision_id session) of
        Inl e \<Rightarrow> Inl e
      | Inr rvn \<Rightarrow>
      case get_row la_id (rv_activity_id rvn) (db_activities db) of
        Inl e \<Rightarrow> Inl e
      | Inr activity \<Rightarrow>
      case rv_content rvn of
        None \<Rightarrow> Inl (OtherError ''decode content'')
      | Some content \<Rightarrow>
      case validateRequiredChecks content (cq_observations req) of
        Some e \<Rightarrow> Inl e
      | None \<Rightarrow>
      case validateObservationCapabilities content (cq_observations req) of
        Some e \<Rightarrow> Inl e
      | None \<Rightarrow>
      let cx = \<lparr>cx_session = session, cx_device_id = sc_id device, cx_revision_id = rv_id rvn,
                 cx_kind = la_kind activity, cx_primary_check = primaryCheckID content (cq_observations req),
                 cx_now = now\<rparr> in
      case complete_links g cx (ListRevisionStandards db (rv_id rvn)) db of
        Inl e \<Rightarrow> Inl e
      | Inr (db1, evidenceIDs, transitions) \<Rightarrow>
      let summary = (if cq_summary req = [] then ''completed'' else cq_summary req);
          result = accepted_result session req summary evidenceIDs transitions in
      case InsertCompletion (gn_completion g) (ln_id session) (cq_completion_id req) (cq_request_digest req) result db1 of
        Inl e \<Rightarrow> Inl e
      | Inr db2 \<Rightarrow>
      case MarkSessionCompleted session summary now db2 of
        Inl e \<Rightarrow> Inl e
      | Inr db3 \<Rightarrow> Inr (result, db3))"

definition apply_completion ::
  "gen \<Rightarrow> StudentDevice \<Rightarrow> uuid \<Rightarrow> CompletionRequest \<Rightarrow> time \<Rightarrow> lms_db \<Rightarrow> repo_error + (CompletionResult \<times> lms_db)" where
  "apply_completion g device sessionID req now db =
     (case GetSession db sessionID of
        Inl e \<Rightarrow> Inl e
      | Inr session \<Rightarrow>
      if ln_student_id session \<noteq> sc_student_id device then Inl ErrNotFound
      else case GetCompletionByID db (cq_completion_id req) of
        Inr existing \<Rightarrow>
          if lc_request_digest existing \<noteq> cq_request_digest req
          then Inl (ErrConflict ''completion id reused with different digest'')
          else Inr (CompletionResultFromRow existing, db)
      | Inl _ \<Rightarrow>
      case GetCompletionBySession db sessionID of
        Inr existing \<Rightarrow>
          if lc_completion_id existing = cq_completion_id req \<and> lc_request_digest existing = cq_request_digest req
          then Inr (CompletionResultFromRow existing, db)
          else Inl (ErrConflict ''session already completed'')
      | Inl _ \<Rightarrow>
      if ln_state session = SessionCompleted \<or> ln_state session = SessionAbandoned
      then Inl (ErrBadRequest ''session is not active'')
      else case get_row sa_id (ln_assignment_id session) (db_assignments db) of
        Inl e \<Rightarrow> Inl e
      | Inr asg \<Rightarrow>
      if sa_student_id asg \<noteq> sc_student_id device then Inl ErrNotFound
      else if sa_state asg = AssignmentCancelled then
        (case InsertCompletion (gn_completion g) (ln_id session) (cq_completion_id req) (cq_request_digest req)
                (cancelled_result session req) db of
           Inl e \<Rightarrow> Inl e
         | Inr db1 \<Rightarrow> Inr (cancelled_result session req, db1))
      else complete_session g device session req now db)"

definition in_tx :: "(lms_db \<Rightarrow> repo_error + ('a \<times> lms_db)) \<Rightarrow> lms_db \<Rightarrow> (repo_error + 'a) \<times> lms_db" where
  "in_tx fn = WithTx (\<lambda>db. case fn db of Inl e \<Rightarrow> (Inl e, db) | Inr (a, db') \<Rightarrow> (Inr a, db'))"

definition ApplyCompletion ::
  "gen \<Rightarrow> StudentDevice \<Rightarrow> uuid \<Rightarrow> CompletionRequest \<Rightarrow> time \<Rightarrow> lms_db \<Rightarrow> (repo_error + CompletionResult) \<times> lms_db" where
  "ApplyCompletion g device sessionID req now = in_tx (apply_completion g device sessionID req now)"

section \<open>Responses and attestations\<close>

definition response_link ::
  "gen \<Rightarrow> StudentResponse \<Rightarrow> string \<Rightarrow> string \<Rightarrow> params \<Rightarrow> string \<Rightarrow> time \<Rightarrow> LearningActivityRevisionStandard \<Rightarrow> Standard \<Rightarrow>
     lms_db \<Rightarrow> repo_error + (lms_db \<times> uuid)" where
  "response_link g resp prefix evidenceClass prov kind now link std db =
     (let policy = policyFromLink link kind in
      case upsertMasteryRecord g (lk_id link) (sp_student_id resp) (lk_standard_id link) db of
        Inl e \<Rightarrow> Inl e
      | Inr (r, db1) \<Rightarrow>
      case insertEvidence g (lk_id link) (mr_id r) (prefix @ sp_id resp @ '':'' @ sd_id std) evidenceClass
             (prov @ [(''standardCode'', AnyString (sd_code std)), (''role'', AnyString (lk_role link))])
             (ep_version policy) now (sp_session_id resp) (sp_task_id resp) db1 of
        Inl e \<Rightarrow> Inl e
      | Inr (evID, inserted, db2) \<Rightarrow>
      if \<not> inserted then Inr (db2, evID)
      else
        let accepted = addClass (listAcceptedEvidenceClasses db2 (mr_id r)) evidenceClass;
            (candidateStatus, candidateConf) = proposedStatus (mr_status r) (mr_confidence r) (lk_role link) (lk_weight link);
            (allowedStatus, _, _) = highestAllowedStatus (mr_status r) candidateStatus accepted policy;
            (newStatus, newConf) =
              advance_record (mr_status r) (mr_confidence r) candidateStatus candidateConf allowedStatus (lk_weight link)
        in if newStatus \<noteq> mr_status r \<or> newConf \<noteq> mr_confidence r
           then Inr (updateMasteryAggregate g (mr_id r) newStatus newConf now db2, evID)
           else Inr (db2, evID))"

fun response_links ::
  "gen \<Rightarrow> StudentResponse \<Rightarrow> string \<Rightarrow> string \<Rightarrow> params \<Rightarrow> string \<Rightarrow> time \<Rightarrow> LearningActivityRevisionStandard list \<Rightarrow>
     lms_db \<Rightarrow> repo_error + (uuid list \<times> lms_db)" where
  "response_links g resp prefix evidenceClass prov kind now [] db = Inr ([], db)"
| "response_links g resp prefix evidenceClass prov kind now (link # links) db =
     (case get_row sd_id (lk_standard_id link) (db_standards db) of
        Inl e \<Rightarrow> Inl e
      | Inr std \<Rightarrow>
          if \<not> standardEligibleForActivity kind (sd_code std)
          then response_links g resp prefix evidenceClass prov kind now links db
          else case response_link g resp prefix evidenceClass prov kind now link std db of
            Inl e \<Rightarrow> Inl e
          | Inr (db1, evID) \<Rightarrow>
              (case response_links g resp prefix evidenceClass prov kind now links db1 of
                 Inl e \<Rightarrow> Inl e
               | Inr (evs, db2) \<Rightarrow> Inr (evID # evs, db2)))"

definition apply_response ::
  "gen \<Rightarrow> StudentResponse \<Rightarrow> string \<Rightarrow> string \<Rightarrow> params \<Rightarrow> time \<Rightarrow> lms_db \<Rightarrow> repo_error + (uuid list \<times> lms_db)" where
  "apply_response g resp prefix evidenceClass prov now db =
     (case GetRevision db (sp_activity_revision_id resp) of
        Inl e \<Rightarrow> Inl e
      | Inr rvn \<Rightarrow>
      case get_row la_id (rv_activity_id rvn) (db_activities db) of
        Inl e \<Rightarrow> Inl e
      | Inr activity \<Rightarrow>
      response_links g resp prefix evidenceClass prov (la_kind activity) now (ListRevisionStandards db (rv_id rvn)) db)"

definition response_provenance :: "StudentResponse \<Rightarrow> params" where
  "response_provenance resp =
     [(''responseId'', AnyString (sp_id resp)), (''submissionId'', AnyString (sp_submission_id resp)),
      (''sessionId'', AnyString (sp_session_id resp)), (''taskId'', AnyString (sp_task_id resp))]"

definition ApplyConceptualResponse ::
  "gen \<Rightarrow> StudentResponse option \<Rightarrow> time \<Rightarrow> lms_db \<Rightarrow> (repo_error + uuid list) \<times> lms_db" where
  "ApplyConceptualResponse g resp now db = (case resp of
     None \<Rightarrow> (Inl (OtherError ''response is nil''), db)
   | Some resp \<Rightarrow> in_tx (apply_response g resp ''conceptual-response:'' EvidenceConceptualResponse
       (response_provenance resp @ [(''attempt'', AnyInt (sp_attempt resp)), (''bodySha256'', AnyString (sp_body_sha256 resp)),
          (''source'', AnyString ''student_response'')]) now) db)"

definition ApplyParentAttestation ::
  "gen \<Rightarrow> StudentResponse option \<Rightarrow> uuid \<Rightarrow> time \<Rightarrow> lms_db \<Rightarrow> (repo_error + uuid list) \<times> lms_db" where
  "ApplyParentAttestation g resp educatorID now db = (case resp of
     None \<Rightarrow> (Inl (OtherError ''response is nil''), db)
   | Some resp \<Rightarrow> in_tx (apply_response g resp ''parent-attestation:'' EvidenceParentAttestation
       (response_provenance resp @ [(''educatorId'', AnyString educatorID), (''source'', AnyString ''parent_review'')]) now) db)"

section \<open>One evidence step\<close>

text \<open>
  Completions, responses and attestations treat a linked standard alike: find or create the record, insert the
  evidence unless its source was recorded before, and settle the record.  \<open>record_evidence\<close> is that step on its own,
  \<open>record_links\<close> the walk over the links of a revision; the operations are shown to be instances of
  it, so that what an evidence step keeps, every operation keeps.
\<close>

definition settle_record ::
  "gen \<Rightarrow> LearningActivityRevisionStandard \<Rightarrow> string \<Rightarrow> EvidencePolicy \<Rightarrow> time \<Rightarrow> MasteryRecord \<Rightarrow> lms_db \<Rightarrow> lms_db" where
  "settle_record g link evidenceClass policy now r db =
     (let accepted = addClass (listAcceptedEvidenceClasses db (mr_id r)) evidenceClass;
          (candidateStatus, candidateConf) = proposedStatus (mr_status r) (mr_confidence r) (lk_role link) (lk_weight link);
          allowedStatus = fst (highestAllowedStatus (mr_status r) candidateStatus accepted policy);
          (newStatus, newConf) =
            advance_record (mr_status r) (mr_confidence r) candidateStatus candidateConf allowedStatus (lk_weight link)
      in if newStatus \<noteq> mr_status r \<or> newConf \<noteq> mr_confidence r
         then updateMasteryAggregate g (mr_id r) newStatus newConf now db else db)"

record evidence_step =
  es_student :: uuid
  es_kind :: string
  es_class :: string
  es_ref :: "Standard \<Rightarrow> string"
  es_provenance :: "Standard \<Rightarrow> LearningActivityRevisionStandard \<Rightarrow> params"
  es_session :: string
  es_check :: string
  es_now :: time

definition record_evidence ::
  "gen \<Rightarrow> evidence_step \<Rightarrow> LearningActivityRevisionStandard \<Rightarrow> Standard \<Rightarrow> lms_db \<Rightarrow> repo_error + (uuid \<times> lms_db)" where
  "record_evidence g es link std db =
     (let policy = policyFromLink link (es_kind es) in
      case upsertMasteryRecord g (lk_id link) (es_student es) (lk_standard_id link) db of
        Inl e \<Rightarrow> Inl e
      | Inr (r, db1) \<Rightarrow>
      case insertEvidence g (lk_id link) (mr_id r) (es_ref es std) (es_class es) (es_provenance es std link)
             (ep_version policy) (es_now es) (es_session es) (es_check es) db1 of
        Inl e \<Rightarrow> Inl e
      | Inr (evID, inserted, db2) \<Rightarrow>
          Inr (evID, if inserted then settle_record g link (es_class es) policy (es_now es) r db2 else db2))"

fun record_links ::
  "gen \<Rightarrow> evidence_step \<Rightarrow> LearningActivityRevisionStandard list \<Rightarrow> lms_db \<Rightarrow> repo_error + (uuid list \<times> lms_db)" where
  "record_links g es [] db = Inr ([], db)"
| "record_links g es (link # links) db =
     (case get_row sd_id (lk_standard_id link) (db_standards db) of
        Inl e \<Rightarrow> Inl e
      | Inr std \<Rightarrow>
          if \<not> standardEligibleForActivity (es_kind es) (sd_code std) then record_links g es links db
          else case record_evidence g es link std db of
            Inl e \<Rightarrow> Inl e
          | Inr (evID, db1) \<Rightarrow>
              (case record_links g es links db1 of
                 Inl e \<Rightarrow> Inl e
               | Inr (evs, db2) \<Rightarrow> Inr (evID # evs, db2)))"

definition completion_step :: "completion_ctx \<Rightarrow> evidence_step" where
  "completion_step cx = \<lparr>es_student = ln_student_id (cx_session cx), es_kind = cx_kind cx,
     es_class = EvidenceProceduralContinuous, es_ref = completion_source_ref cx,
     es_provenance = completion_provenance cx, es_session = ln_id (cx_session cx),
     es_check = cx_primary_check cx, es_now = cx_now cx\<rparr>"

definition response_step :: "StudentResponse \<Rightarrow> string \<Rightarrow> string \<Rightarrow> params \<Rightarrow> string \<Rightarrow> time \<Rightarrow> evidence_step" where
  "response_step resp prefix evidenceClass prov kind now = \<lparr>es_student = sp_student_id resp, es_kind = kind,
     es_class = evidenceClass, es_ref = (\<lambda>std. prefix @ sp_id resp @ '':'' @ sd_id std),
     es_provenance = (\<lambda>std link. prov @ [(''standardCode'', AnyString (sd_code std)), (''role'', AnyString (lk_role link))]),
     es_session = sp_session_id resp, es_check = sp_task_id resp, es_now = now\<rparr>"

lemma complete_link_step:
  assumes "complete_link g cx link std db = Inr (db', evID, tr)"
  shows "record_evidence g (completion_step cx) link std db = Inr (evID, db')"
  using assms
  by (auto simp: complete_link_def record_evidence_def completion_step_def settle_record_def Let_def
      split: sum.splits prod.splits if_splits)

lemma response_link_step:
  "response_link g resp prefix c prov kind now link std db =
     (case record_evidence g (response_step resp prefix c prov kind now) link std db of
        Inl e \<Rightarrow> Inl e | Inr (evID, db') \<Rightarrow> Inr (db', evID))"
  by (auto simp: response_link_def record_evidence_def response_step_def settle_record_def Let_def
      split: sum.splits prod.splits)

lemma complete_links_step:
  "complete_links g cx links db = Inr (db', evs, trs) \<Longrightarrow> record_links g (completion_step cx) links db = Inr (evs, db')"
proof (induction links arbitrary: db evs trs)
  case (Cons link links)
  have k: "es_kind (completion_step cx) = cx_kind cx" by (simp add: completion_step_def)
  obtain std where std: "get_row sd_id (lk_standard_id link) (db_standards db) = Inr std"
    using Cons.prems by (auto split: sum.splits)
  show ?case
  proof (cases "standardEligibleForActivity (cx_kind cx) (sd_code std)")
    case False
    with Cons std k show ?thesis by simp
  next
    case True
    with Cons.prems std obtain db1 evID tr db2 evs' trs' where
      "complete_link g cx link std db = Inr (db1, evID, tr)" "complete_links g cx links db1 = Inr (db2, evs', trs')"
      "db' = db2" "evs = evID # evs'"
      by (auto split: sum.splits prod.splits)
    with Cons.IH complete_link_step std k True show ?thesis by fastforce
  qed
qed simp

lemma response_links_step:
  "response_links g resp prefix c prov kind now links db =
     record_links g (response_step resp prefix c prov kind now) links db"
proof (induction links arbitrary: db)
  case (Cons link links)
  have k: "es_kind (response_step resp prefix c prov kind now) = kind" by (simp add: response_step_def)
  show ?case
    by (simp add: Cons.IH k response_link_step split: sum.splits prod.splits)
qed simp

lemma record_links_induct:
  assumes "record_links g es links db = Inr (evs, db')" "P db"
    and "\<And>link std d evID d'. link \<in> set links \<Longrightarrow> get_row sd_id (lk_standard_id link) (db_standards d) = Inr std \<Longrightarrow>
      standardEligibleForActivity (es_kind es) (sd_code std) \<Longrightarrow> P d \<Longrightarrow>
      record_evidence g es link std d = Inr (evID, d') \<Longrightarrow> P d'"
  shows "P db'"
  using assms
proof (induction links arbitrary: db evs)
  case (Cons link links)
  have ih: "P db'" if "record_links g es links d = Inr (e, db')" "P d" for d e
    using that
  proof (rule Cons.IH)
    fix l st d evID d'
    assume "l \<in> set links" "get_row sd_id (lk_standard_id l) (db_standards d) = Inr st"
      "standardEligibleForActivity (es_kind es) (sd_code st)" "P d" "record_evidence g es l st d = Inr (evID, d')"
    then show "P d'" using Cons.prems(3) [of l d st evID d'] by simp
  qed
  obtain std where std: "get_row sd_id (lk_standard_id link) (db_standards db) = Inr std"
    using Cons.prems(1) by (auto split: sum.splits)
  show ?case
  proof (cases "standardEligibleForActivity (es_kind es) (sd_code std)")
    case False
    with Cons.prems(1) std have "record_links g es links db = Inr (evs, db')" by simp
    then show ?thesis using Cons.prems(2) by (rule ih)
  next
    case True
    with Cons.prems(1) std obtain evID db1 evs' where
      step: "record_evidence g es link std db = Inr (evID, db1)" and rest: "record_links g es links db1 = Inr (evs', db')"
      by (auto split: sum.splits prod.splits)
    have "P db1" using Cons.prems(3) [OF _ std True Cons.prems(2) step] by simp
    with rest show ?thesis by (rule ih)
  qed
qed simp

end
