(* ===== verification/Mastery_Laws.thy ===== *)
theory Mastery_Laws
  imports Mastery
begin

text \<open>
  What holds of mastery updates: the ladder is climbed only on evidence, an evidence step and with it every operation
  keeps the tables consistent, statuses and confidences do not fall, typing evidence stays with typing
  standards, and a session is completed once.
\<close>

section \<open>The ladder\<close>

lemma statusRank_simps [simp]:
  "statusRank [] = 0" "statusRank ''not_introduced'' = 0" "statusRank ''in_progress'' = 1"
  "statusRank ''approaching'' = 2" "statusRank ''mastered'' = 3"
  by (simp_all add: statusRank_def)

lemma statusRank_le_3: "statusRank s \<le> 3"
  by (simp add: statusRank_def)

lemma allow_loop_supported:
  assumes "allow_loop fr cr acc pol sts allowed = (a, m, f)" "sorted_wrt (\<lambda>x y. statusRank x < statusRank y) sts"
    "\<forall>s \<in> set sts. statusRank allowed < statusRank s \<or> statusRank s \<le> fr"
  shows "\<forall>s \<in> set sts. fr < statusRank s \<and> statusRank s \<le> statusRank a \<longrightarrow> missingForStatus s acc pol = []"
  using assms
proof (induction sts arbitrary: allowed)
  case (Cons st sts)
  have later: "\<forall>s \<in> set sts. statusRank st < statusRank s" using Cons.prems(2) by simp
  consider (skip) "statusRank st \<le> fr" | (beyond) "fr < statusRank st" "cr < statusRank st"
    | (short) "fr < statusRank st" "statusRank st \<le> cr" "missingForStatus st acc pol \<noteq> []"
    | (climb) "fr < statusRank st" "statusRank st \<le> cr" "missingForStatus st acc pol = []" by linarith
  then show ?case
  proof cases
    case skip
    with Cons show ?thesis by auto
  next
    case beyond
    with Cons.prems later show ?thesis by (auto dest!: bspec)
  next
    case short
    with Cons.prems later show ?thesis by (auto simp: Let_def dest!: bspec)
  next
    case climb
    with Cons.prems have "allow_loop fr cr acc pol sts st = (a, m, f)" by (simp add: Let_def)
    from Cons.IH [OF this] Cons.prems(2) later climb(3) show ?thesis by auto
  qed
qed simp

lemma highestAllowed_supported:
  assumes "s \<in> set ladder_order" "statusRank start < statusRank s"
    "statusRank s \<le> statusRank (fst (highestAllowedStatus start cand acc pol))"
  shows "missingForStatus s acc pol = []"
proof -
  let ?a0 = "if start = [] then ''not_introduced'' else start"
  obtain a m f where l: "allow_loop (statusRank start) (statusRank cand) acc pol ladder_order ?a0 = (a, m, f)"
    by (metis prod.collapse)
  have a: "fst (highestAllowedStatus start cand acc pol) = a" by (simp add: highestAllowedStatus_def l Let_def)
  have "statusRank ?a0 = statusRank start" by simp
  moreover have "sorted_wrt (\<lambda>x y. statusRank x < statusRank y) ladder_order" by (simp add: ladder_order_def)
  ultimately show ?thesis
    using allow_loop_supported [OF l] assms a by (metis linorder_not_le)
qed

lemma advance_rank:
  "statusRank (fst (advance_record st c cs cc al w)) \<le> max (statusRank st) (statusRank al)"
  by (auto simp: advance_record_def)

lemma advance_supported:
  assumes "s \<in> set ladder_order" "statusRank st < statusRank s"
    "statusRank s \<le> statusRank (fst (advance_record st c cs cc (fst (highestAllowedStatus st cs acc pol)) w))"
  shows "missingForStatus s acc pol = []"
  using assms advance_rank [of st c cs cc "fst (highestAllowedStatus st cs acc pol)" w]
  by (intro highestAllowed_supported [of s st cs acc pol]) linarith+

section \<open>The effect of an evidence step\<close>

lemma upsert_cases:
  assumes "upsertMasteryRecord g i stu std db = Inr (r, db1)"
  obtains (found) "db1 = db" "r \<in> set (db_records db)" "mr_student_id r = stu" "mr_standard_id r = std"
    | (created) "db1 = db\<lparr>db_records := db_records db @ [r]\<rparr>" "mr_id r \<notin> keys mr_id (db_records db)"
        "(stu, std) \<notin> keys (\<lambda>r. (mr_student_id r, mr_standard_id r)) (db_records db)"
        "mr_student_id r = stu" "mr_standard_id r = std" "mr_status r = ''not_introduced''" "mr_confidence r = 0"
proof (cases "List.find (\<lambda>r. mr_student_id r = stu \<and> mr_standard_id r = std) (db_records db)")
  case (Some x)
  with assms have "db1 = db" "r = x" by (simp_all add: upsertMasteryRecord_def)
  with find_Some_in [OF Some] found show ?thesis by simp
next
  case None
  then have "(stu, std) \<notin> keys (\<lambda>r. (mr_student_id r, mr_standard_id r)) (db_records db)"
    by (auto simp: find_None_iff keys_def)
  with None assms created show ?thesis
    by (auto simp: upsertMasteryRecord_def Let_def keys_def dest!: create_row_Inr split: sum.splits)
qed

lemma insertEvidence_cases:
  assumes "insertEvidence g i rid ref cls prov v now sid cid db = Inr (ev, inserted, db2)"
  obtains (old) "\<not> inserted" "db2 = db" "(rid, ref) \<in> keys evidence_key (db_evidence db)"
    | (new) row where "inserted" "db2 = db\<lparr>db_evidence := db_evidence db @ [row]\<rparr>" "mv_id row = ev"
        "evidence_key row = (rid, ref)" "mv_mastery_record_id row = rid" "mv_evidence_class row = cls"
        "ref \<noteq> [] \<Longrightarrow> (rid, ref) \<notin> keys evidence_key (db_evidence db)"
proof (cases "List.find (\<lambda>e. mv_source_ref e \<noteq> [] \<and> evidence_key e = (rid, ref)) (db_evidence db)")
  case (Some x)
  with assms have "\<not> inserted" "db2 = db" by (simp_all add: insertEvidence_def)
  moreover have "(rid, ref) \<in> keys evidence_key (db_evidence db)"
    using find_Some_in [OF Some] by (metis keys_def image_eqI)
  ultimately show ?thesis by (rule old)
next
  case None
  then have "ref \<noteq> [] \<Longrightarrow> (rid, ref) \<notin> keys evidence_key (db_evidence db)"
    by (auto simp: find_None_iff keys_def evidence_key_def)
  with None assms new show ?thesis
    by (auto simp: insertEvidence_def Let_def evidence_key_def dest!: create_row_Inr split: sum.splits)
qed

definition touched :: "gen \<Rightarrow> string \<Rightarrow> rat \<Rightarrow> time \<Rightarrow> MasteryRecord \<Rightarrow> MasteryRecord" where
  "touched g st c now r = r\<lparr>mr_status := st, mr_confidence := gn_store g c,
     mr_last_assessed_at := Some now, mr_last_reinforced_at := Some now\<rparr>"

lemma touched_simps [simp]:
  "mr_id (touched g st c now r) = mr_id r" "mr_student_id (touched g st c now r) = mr_student_id r"
  "mr_standard_id (touched g st c now r) = mr_standard_id r" "mr_status (touched g st c now r) = st"
  "mr_confidence (touched g st c now r) = gn_store g c"
  by (simp_all add: touched_def)

definition settled :: "LearningActivityRevisionStandard \<Rightarrow> string \<Rightarrow> EvidencePolicy \<Rightarrow> MasteryRecord \<Rightarrow> lms_db \<Rightarrow> string \<times> rat" where
  "settled link cls pol r db =
     (let cand = proposedStatus (mr_status r) (mr_confidence r) (lk_role link) (lk_weight link);
          accepted = addClass (listAcceptedEvidenceClasses db (mr_id r)) cls
      in advance_record (mr_status r) (mr_confidence r) (fst cand) (snd cand)
           (fst (highestAllowedStatus (mr_status r) (fst cand) accepted pol)) (lk_weight link))"

lemma settle_record_cases:
  "settle_record g link cls pol now r db =
     (if settled link cls pol r db = (mr_status r, mr_confidence r) then db
      else db\<lparr>db_records := update_where (\<lambda>x. mr_id x = mr_id r)
        (touched g (fst (settled link cls pol r db)) (snd (settled link cls pol r db)) now) (db_records db)\<rparr>)"
proof -
  obtain cs cc where p: "proposedStatus (mr_status r) (mr_confidence r) (lk_role link) (lk_weight link) = (cs, cc)"
    by (metis prod.collapse)
  obtain ns nc where a: "settled link cls pol r db = (ns, nc)" by (metis prod.collapse)
  then show ?thesis
    by (auto simp: settle_record_def settled_def updateMasteryAggregate_def touched_def [abs_def] Let_def p)
qed

definition mastery_wf :: "lms_db \<Rightarrow> bool" where
  "mastery_wf db \<longleftrightarrow> unique_key mr_id (db_records db) \<and>
     unique_key (\<lambda>r. (mr_student_id r, mr_standard_id r)) (db_records db) \<and>
     (\<forall>e \<in> set (db_evidence db). mv_mastery_record_id e \<in> keys mr_id (db_records db))"

text \<open>
  An evidence step leaves the tables as they are when the source was recorded before; otherwise it appends one
  evidence row and leaves one record of the student and standard in the state it settles in.
\<close>

lemma record_evidence_cases:
  assumes "record_evidence g es link std db = Inr (ev, db')" "mastery_wf db"
  obtains (again) "db_records db' = db_records db \<or>
        (\<exists>r. db_records db' = db_records db @ [r] \<and> mr_status r = ''not_introduced'' \<and> mr_confidence r = 0 \<and>
             mr_id r \<notin> keys mr_id (db_records db) \<and> mr_standard_id r = lk_standard_id link \<and>
             (es_student es, lk_standard_id link) \<notin> keys (\<lambda>r. (mr_student_id r, mr_standard_id r)) (db_records db) \<and>
             mr_student_id r = es_student es)"
        "db_evidence db' = db_evidence db" "db' = db\<lparr>db_records := db_records db'\<rparr>"
    | (settled) r row db2 where "mr_student_id r = es_student es" "mr_standard_id r = lk_standard_id link"
        "(db_records db2 = db_records db \<and> r \<in> set (db_records db)) \<or>
           (db_records db2 = db_records db @ [r] \<and> mr_id r \<notin> keys mr_id (db_records db) \<and>
            (es_student es, lk_standard_id link) \<notin> keys (\<lambda>r. (mr_student_id r, mr_standard_id r)) (db_records db) \<and>
            mr_status r = ''not_introduced'' \<and> mr_confidence r = 0)"
        "db_evidence db2 = db_evidence db @ [row]" "mv_mastery_record_id row = mr_id r" "mv_evidence_class row = es_class es"
        "db2 = db\<lparr>db_records := db_records db2, db_evidence := db_evidence db2\<rparr>"
        "db' = settle_record g link (es_class es) (policyFromLink link (es_kind es)) (es_now es) r db2"
proof -
  obtain r db1 where u: "upsertMasteryRecord g (lk_id link) (es_student es) (lk_standard_id link) db = Inr (r, db1)"
    using assms(1) by (auto simp: record_evidence_def Let_def split: sum.splits)
  then obtain inserted db2 where
    i: "insertEvidence g (lk_id link) (mr_id r) (es_ref es std) (es_class es) (es_provenance es std link)
      (ep_version (policyFromLink link (es_kind es))) (es_now es) (es_session es) (es_check es) db1 = Inr (ev, inserted, db2)"
    and db': "db' = (if inserted then settle_record g link (es_class es) (policyFromLink link (es_kind es)) (es_now es) r db2 else db2)"
    using assms(1) by (auto simp: record_evidence_def Let_def split: sum.splits prod.splits)
  from i show ?thesis
  proof (cases rule: insertEvidence_cases)
    case old
    then have d: "db' = db1" using db' by simp
    from u show ?thesis
    proof (cases rule: upsert_cases)
      case found
      with d show ?thesis by (intro again) simp_all
    next
      case created
      with d show ?thesis by (intro again) auto
    qed
  next
    case (new row)
    from u show ?thesis
    proof (cases rule: upsert_cases)
      case found
      with new db' show ?thesis by (intro settled [of r db2 row]) simp_all
    next
      case created
      with new db' show ?thesis by (intro settled [of r db2 row]) simp_all
    qed
  qed
qed

text \<open>
  So a record after the step is one the step did not change, a new one nothing is known of, or the one of the student and
  standard, settled.
\<close>

definition blank :: "MasteryRecord \<Rightarrow> bool" where
  "blank r \<longleftrightarrow> mr_status r = ''not_introduced'' \<and> mr_confidence r = 0"

lemma record_evidence_records:
  assumes "record_evidence g es link std db = Inr (ev, db')" "mastery_wf db" "x \<in> set (db_records db')"
  obtains (kept) "x \<in> set (db_records db)"
    | (fresh) "blank x" "mr_id x \<notin> keys mr_id (db_records db)" "mr_standard_id x = lk_standard_id link"
        "mr_student_id x = es_student es"
    | (moved) r row db2 where "mr_standard_id r = lk_standard_id link" "mr_student_id r = es_student es"
        "r \<in> set (db_records db) \<or> blank r \<and> mr_id r \<notin> keys mr_id (db_records db)"
        "x = touched g (fst (settled link (es_class es) (policyFromLink link (es_kind es)) r db2))
          (snd (settled link (es_class es) (policyFromLink link (es_kind es)) r db2)) (es_now es) r"
        "db_evidence db2 = db_evidence db @ [row]" "db_evidence db' = db_evidence db @ [row]"
        "mv_mastery_record_id row = mr_id r" "mv_evidence_class row = es_class es"
  using assms(1,2)
proof (cases rule: record_evidence_cases)
  case again
  with assms(3) kept fresh show ?thesis by (auto simp: blank_def)
next
  case (settled r row db2)
  have base: "y \<in> set (db_records db) \<or> y = r" if "y \<in> set (db_records db2)" for y
    using settled(3) that by auto
  have same: "y = r" if "y \<in> set (db_records db2)" "mr_id y = mr_id r" for y
    using settled(3)
  proof
    assume "db_records db2 = db_records db \<and> r \<in> set (db_records db)"
    with that assms(2) show ?thesis by (auto simp: mastery_wf_def unique_key_def distinct_map dest: inj_onD)
  qed (use that in \<open>auto simp: keys_def dest: image_eqI [OF sym]\<close>)
  have r: "r \<in> set (db_records db) \<or> blank r \<and> mr_id r \<notin> keys mr_id (db_records db)"
    using settled(3) by (auto simp: blank_def)
  show ?thesis
  proof (cases "x \<in> set (db_records db2)")
    case True
    with base [of x] r kept fresh settled(1,2) show ?thesis by auto
  next
    case False
    with assms(3) obtain y where "y \<in> set (db_records db2)" "mr_id y = mr_id r"
      "x = touched g (fst (Mastery_Laws.settled link (es_class es) (policyFromLink link (es_kind es)) r db2))
          (snd (Mastery_Laws.settled link (es_class es) (policyFromLink link (es_kind es)) r db2)) (es_now es) y"
      unfolding settled(8) settle_record_cases by (auto simp: in_update_where split: if_splits)
    with same have "x = touched g (fst (Mastery_Laws.settled link (es_class es) (policyFromLink link (es_kind es)) r db2))
          (snd (Mastery_Laws.settled link (es_class es) (policyFromLink link (es_kind es)) r db2)) (es_now es) r"
      by blast
    with r settled show ?thesis by (intro moved [of r db2 row]) (simp_all add: settle_record_cases)
  qed
qed

lemma record_evidence_evidence:
  assumes "record_evidence g es link std db = Inr (ev, db')" "mastery_wf db"
  shows "db_evidence db' = db_evidence db \<or>
    (\<exists>row. db_evidence db' = db_evidence db @ [row] \<and> mv_evidence_class row = es_class es)"
  using assms by (cases rule: record_evidence_cases) (auto simp: settle_record_cases)

definition same_catalog :: "lms_db \<Rightarrow> lms_db \<Rightarrow> bool" where
  "same_catalog a b \<longleftrightarrow> db_standards a = db_standards b \<and> db_activities a = db_activities b \<and>
     db_revisions a = db_revisions b \<and> db_links a = db_links b"

definition same_work :: "lms_db \<Rightarrow> lms_db \<Rightarrow> bool" where
  "same_work a b \<longleftrightarrow> db_sessions a = db_sessions b \<and> db_assignments a = db_assignments b \<and>
     db_events a = db_events b \<and> db_completions a = db_completions b"

lemma record_evidence_frame:
  assumes "record_evidence g es link std db = Inr (ev, db')"
  shows "same_catalog db' db \<and> same_work db' db"
proof -
  obtain r db1 where u: "upsertMasteryRecord g (lk_id link) (es_student es) (lk_standard_id link) db = Inr (r, db1)"
    using assms by (auto simp: record_evidence_def Let_def split: sum.splits)
  then obtain inserted db2 where
    i: "insertEvidence g (lk_id link) (mr_id r) (es_ref es std) (es_class es) (es_provenance es std link)
      (ep_version (policyFromLink link (es_kind es))) (es_now es) (es_session es) (es_check es) db1 = Inr (ev, inserted, db2)"
    and db': "db' = (if inserted then settle_record g link (es_class es) (policyFromLink link (es_kind es)) (es_now es) r db2 else db2)"
    using assms by (auto simp: record_evidence_def Let_def split: sum.splits prod.splits)
  have "same_catalog db1 db \<and> same_work db1 db"
    using u by (cases rule: upsert_cases) (simp_all add: same_catalog_def same_work_def)
  moreover have "same_catalog db2 db1 \<and> same_work db2 db1"
    using i by (cases rule: insertEvidence_cases) (simp_all add: same_catalog_def same_work_def)
  moreover have "same_catalog db' db2 \<and> same_work db' db2"
    by (simp add: db' settle_record_cases same_catalog_def same_work_def)
  ultimately show ?thesis by (simp add: same_catalog_def same_work_def)
qed

lemma settle_record_keys:
  "map mr_id (db_records (settle_record g link cls pol now r db)) = map mr_id (db_records db)"
  "map (\<lambda>r. (mr_student_id r, mr_standard_id r)) (db_records (settle_record g link cls pol now r db)) =
     map (\<lambda>r. (mr_student_id r, mr_standard_id r)) (db_records db)"
  "db_evidence (settle_record g link cls pol now r db) = db_evidence db"
  by (simp_all add: settle_record_cases map_update_where)

lemma keys_map: "keys k rows = set (map k rows)"
  by (simp add: keys_def)

lemma record_evidence_wf:
  assumes wf: "mastery_wf db" and step: "record_evidence g es link std db = Inr (ev, db')"
  shows "mastery_wf db'"
  using step wf
proof (cases rule: record_evidence_cases)
  case again
  with wf show ?thesis by (auto simp: mastery_wf_def intro!: unique_key_snoc)
next
  case (settled r row db2)
  have "mastery_wf db2"
    using settled(3)
  proof
    assume "db_records db2 = db_records db \<and> r \<in> set (db_records db)"
    with settled wf show ?thesis by (auto simp: mastery_wf_def keys_def)
  next
    assume "db_records db2 = db_records db @ [r] \<and> mr_id r \<notin> keys mr_id (db_records db) \<and>
      (es_student es, lk_standard_id link) \<notin> keys (\<lambda>r. (mr_student_id r, mr_standard_id r)) (db_records db) \<and>
      mr_status r = ''not_introduced'' \<and> mr_confidence r = 0"
    with settled wf show ?thesis by (auto simp: mastery_wf_def intro!: unique_key_snoc)
  qed
  then show ?thesis
    unfolding settled(8) mastery_wf_def unique_key_def keys_map settle_record_keys .
qed

section \<open>What every operation keeps\<close>

definition link_kind :: "lms_db \<Rightarrow> LearningActivityRevisionStandard \<Rightarrow> string \<Rightarrow> bool" where
  "link_kind db link kind \<longleftrightarrow>
     (\<exists>rvn \<in> set (db_revisions db). \<exists>act \<in> set (db_activities db).
        rv_id rvn = lk_activity_revision_id link \<and> la_id act = rv_activity_id rvn \<and> la_kind act = kind)"

definition work_classes :: "string list" where
  "work_classes = [EvidenceProceduralContinuous, EvidenceConceptualResponse, EvidenceParentAttestation]"

lemma ListRevisionStandards_links:
  "link \<in> set (ListRevisionStandards db i) \<Longrightarrow> link \<in> set (db_links db) \<and> lk_activity_revision_id link = i"
  by (auto simp: ListRevisionStandards_def Let_def)

lemma GetRevision_Inr: "GetRevision db i = Inr rvn \<Longrightarrow> rvn \<in> set (db_revisions db)"
  by (simp add: GetRevision_def get_row_Inr)

lemma InsertCompletion_Inr:
  assumes "InsertCompletion i sid cid dg res db = Inr db'"
  obtains row where "db' = db\<lparr>db_completions := db_completions db @ [row]\<rparr>" "lc_session_id row = sid"
    "lc_completion_id row = cid" "lc_request_digest row = dg" "lc_response row = res"
    "cid \<notin> keys lc_completion_id (db_completions db)" "sid \<notin> keys lc_session_id (db_completions db)"
proof -
  let ?row = "\<lparr>lc_id = i, lc_session_id = sid, lc_completion_id = cid, lc_request_digest = dg, lc_response = res\<rparr>"
  have "db' = db\<lparr>db_completions := db_completions db @ [?row]\<rparr>"
    "cid \<notin> keys lc_completion_id (db_completions db)" "sid \<notin> keys lc_session_id (db_completions db)"
    using assms by (auto simp: InsertCompletion_def create_row_def list_ex_iff keys_def split: if_splits)
  then show ?thesis by (intro that [of ?row]) simp_all
qed

definition finish_session :: "LearningSession \<Rightarrow> string \<Rightarrow> time \<Rightarrow> LearningSession \<Rightarrow> LearningSession" where
  "finish_session session summary now s =
     s\<lparr>ln_state := SessionCompleted, ln_completed_at := Some now,
        ln_duration_seconds := max 0 (duration_seconds (now - ln_started_at session)), ln_summary := summary\<rparr>"

lemma MarkSessionCompleted_Inr:
  assumes "MarkSessionCompleted session summary now db = Inr db'"
  shows "db' = db\<lparr>db_sessions := update_where (\<lambda>s. ln_id s = ln_id session) (finish_session session summary now) (db_sessions db),
     db_assignments := update_where (\<lambda>a. sa_id a = ln_assignment_id session) (\<lambda>a. a\<lparr>sa_state := AssignmentCompleted\<rparr>) (db_assignments db)\<rparr>"
  using assms
  by (auto simp: MarkSessionCompleted_def Let_def finish_session_def [abs_def] max_def not_less
      dest!: update_row_Inr split: sum.splits)

record completed =
  cm_revision :: LearningActivityRevision
  cm_activity :: LearningActivity
  cm_content :: ActivityContent
  cm_evidence :: "uuid list"
  cm_transitions :: "MasteryTransition list"
  cm_middle :: lms_db

definition completed_ok :: "gen \<Rightarrow> StudentDevice \<Rightarrow> LearningSession \<Rightarrow> CompletionRequest \<Rightarrow> time \<Rightarrow> lms_db \<Rightarrow> completed \<Rightarrow> bool" where
  "completed_ok g device session req now db c \<longleftrightarrow>
     GetRevision db (ln_activity_revision_id session) = Inr (cm_revision c) \<and>
     get_row la_id (rv_activity_id (cm_revision c)) (db_activities db) = Inr (cm_activity c) \<and>
     rv_content (cm_revision c) = Some (cm_content c) \<and>
     validateRequiredChecks (cm_content c) (cq_observations req) = None \<and>
     validateObservationCapabilities (cm_content c) (cq_observations req) = None \<and>
     complete_links g \<lparr>cx_session = session, cx_device_id = sc_id device, cx_revision_id = rv_id (cm_revision c),
         cx_kind = la_kind (cm_activity c), cx_primary_check = primaryCheckID (cm_content c) (cq_observations req),
         cx_now = now\<rparr> (ListRevisionStandards db (rv_id (cm_revision c))) db =
       Inr (cm_middle c, cm_evidence c, cm_transitions c)"

lemma complete_session_Inr:
  assumes "complete_session g device session req now db = Inr (res, db')"
  obtains c db2 summary where "completed_ok g device session req now db c"
    "res = accepted_result session req summary (cm_evidence c) (cm_transitions c)"
    "InsertCompletion (gn_completion g) (ln_id session) (cq_completion_id req) (cq_request_digest req) res (cm_middle c) = Inr db2"
    "MarkSessionCompleted session summary now db2 = Inr db'"
proof -
  obtain rvn where 1: "GetRevision db (ln_activity_revision_id session) = Inr rvn"
    using assms by (auto simp: complete_session_def split: sum.splits)
  obtain act where 2: "get_row la_id (rv_activity_id rvn) (db_activities db) = Inr act"
    using assms 1 by (auto simp: complete_session_def split: sum.splits)
  obtain content where 3: "rv_content rvn = Some content"
    using assms 1 2 by (auto simp: complete_session_def split: option.splits)
  have 4: "validateRequiredChecks content (cq_observations req) = None"
    using assms 1 2 3 by (auto simp: complete_session_def split: option.splits)
  have 5: "validateObservationCapabilities content (cq_observations req) = None"
    using assms 1 2 3 4 by (auto simp: complete_session_def split: option.splits)
  let ?cx = "\<lparr>cx_session = session, cx_device_id = sc_id device, cx_revision_id = rv_id rvn,
         cx_kind = la_kind act, cx_primary_check = primaryCheckID content (cq_observations req), cx_now = now\<rparr>"
  obtain db1 evs trs where 6: "complete_links g ?cx (ListRevisionStandards db (rv_id rvn)) db = Inr (db1, evs, trs)"
    using assms 1 2 3 4 5 by (auto simp: complete_session_def Let_def split: sum.splits)
  let ?sum = "if cq_summary req = [] then ''completed'' else cq_summary req"
  let ?res = "accepted_result session req ?sum evs trs"
  obtain db2 where 7: "InsertCompletion (gn_completion g) (ln_id session) (cq_completion_id req) (cq_request_digest req) ?res db1 = Inr db2"
    using assms 1 2 3 4 5 6 by (cases "InsertCompletion (gn_completion g) (ln_id session) (cq_completion_id req)
      (cq_request_digest req) ?res db1") (auto simp: complete_session_def Let_def)
  have 8: "MarkSessionCompleted session ?sum now db2 = Inr db' \<and> res = ?res"
    using assms 1 2 3 4 5 6 7
    by (cases "MarkSessionCompleted session ?sum now db2") (auto simp: complete_session_def Let_def)
  show ?thesis
    by (rule that [of "\<lparr>cm_revision = rvn, cm_activity = act, cm_content = content, cm_evidence = evs,
          cm_transitions = trs, cm_middle = db1\<rparr>" ?sum db2])
      (use 1 2 3 4 5 6 7 8 in \<open>simp_all add: completed_ok_def\<close>)
qed

lemma apply_completion_cases:
  assumes "apply_completion g device sid req now db = Inr (res, db')"
  obtains (replay) session existing where "GetSession db sid = Inr session" "ln_student_id session = sc_student_id device"
      "existing \<in> set (db_completions db)" "lc_completion_id existing = cq_completion_id req"
      "lc_request_digest existing = cq_request_digest req" "res = lc_response existing" "db' = db"
    | (cancelled) session asg where "GetSession db sid = Inr session" "ln_student_id session = sc_student_id device"
      "cq_completion_id req \<notin> keys lc_completion_id (db_completions db)"
      "sid \<notin> keys lc_session_id (db_completions db)"
      "get_row sa_id (ln_assignment_id session) (db_assignments db) = Inr asg"
      "sa_state asg = AssignmentCancelled" "res = cancelled_result session req"
      "InsertCompletion (gn_completion g) (ln_id session) (cq_completion_id req) (cq_request_digest req) res db = Inr db'"
    | (fresh) session asg where "GetSession db sid = Inr session" "ln_student_id session = sc_student_id device"
      "cq_completion_id req \<notin> keys lc_completion_id (db_completions db)"
      "sid \<notin> keys lc_session_id (db_completions db)"
      "ln_state session \<noteq> SessionCompleted" "ln_state session \<noteq> SessionAbandoned"
      "get_row sa_id (ln_assignment_id session) (db_assignments db) = Inr asg"
      "sa_student_id asg = sc_student_id device" "sa_state asg \<noteq> AssignmentCancelled"
      "complete_session g device session req now db = Inr (res, db')"
proof -
  obtain session where s: "GetSession db sid = Inr session" and st: "ln_student_id session = sc_student_id device"
    using assms by (auto simp: apply_completion_def split: sum.splits if_splits)
  show ?thesis
  proof (cases "GetCompletionByID db (cq_completion_id req)")
    case (Inr e)
    with assms s st have "lc_request_digest e = cq_request_digest req" "res = lc_response e" "db' = db"
      by (auto simp: apply_completion_def CompletionResultFromRow_def split: if_splits)
    with replay s st Inr show ?thesis by (auto simp: GetCompletionByID_def dest: get_row_Inr)
  next
    case (Inl e)
    then have id: "cq_completion_id req \<notin> keys lc_completion_id (db_completions db)"
      by (auto simp: GetCompletionByID_def keys_def dest: get_row_error)
    show ?thesis
    proof (cases "GetCompletionBySession db sid")
      case r: (Inr e')
      with assms s st Inl have "lc_completion_id e' = cq_completion_id req"
        by (auto simp: apply_completion_def split: if_splits)
      moreover have "e' \<in> set (db_completions db)" using r by (simp add: GetCompletionBySession_def get_row_Inr)
      ultimately show ?thesis using id by (metis keys_def image_eqI)
    next
      case l: (Inl e')
      then have se: "sid \<notin> keys lc_session_id (db_completions db)"
        by (auto simp: GetCompletionBySession_def keys_def dest: get_row_error)
      have open_s: "ln_state session \<noteq> SessionCompleted" "ln_state session \<noteq> SessionAbandoned"
        using assms s st Inl l by (auto simp: apply_completion_def split: if_splits)
      obtain asg where asg: "get_row sa_id (ln_assignment_id session) (db_assignments db) = Inr asg"
        "sa_student_id asg = sc_student_id device"
        using assms s st Inl l open_s by (auto simp: apply_completion_def split: sum.splits if_splits)
      show ?thesis
      proof (cases "sa_state asg = AssignmentCancelled")
        case True
        with assms s st Inl l open_s asg cancelled [OF s st id se asg(1)] show ?thesis
          by (auto simp: apply_completion_def split: sum.splits)
      next
        case False
        with assms s st Inl l open_s asg fresh [OF s st id se open_s asg] show ?thesis
          by (auto simp: apply_completion_def)
      qed
    qed
  qed
qed

lemma in_tx_Inr: "in_tx fn db = (Inr a, db') \<longleftrightarrow> fn db = Inr (a, db')"
  by (auto simp: in_tx_def WithTx_def split: sum.splits prod.splits)

lemma in_tx_Inl: "in_tx fn db = (Inl e, db') \<Longrightarrow> db' = db"
  by (auto simp: in_tx_def WithTx_def split: sum.splits prod.splits)

lemma in_tx_keeps: "(\<And>a db'. fn db = Inr (a, db') \<Longrightarrow> P db') \<Longrightarrow> P db \<Longrightarrow> P (snd (in_tx fn db))"
  by (auto simp: in_tx_def WithTx_def split: sum.splits prod.splits)

text \<open>
  An invariant of the mastery tables that an evidence step keeps, and that does not depend on the sessions, is
  kept by completions, responses and attestations.
\<close>

locale evidence_invariant =
  fixes inv :: "lms_db \<Rightarrow> bool"
    and good :: "gen \<Rightarrow> bool"
  assumes step: "inv db \<Longrightarrow> good g \<Longrightarrow> link \<in> set (db_links db) \<Longrightarrow> link_kind db link (es_kind es) \<Longrightarrow>
      get_row sd_id (lk_standard_id link) (db_standards db) = Inr std \<Longrightarrow>
      standardEligibleForActivity (es_kind es) (sd_code std) \<Longrightarrow> es_class es \<in> set work_classes \<Longrightarrow>
      record_evidence g es link std db = Inr (ev, db') \<Longrightarrow> inv db'"
    and frame: "inv db \<Longrightarrow>
      inv (db\<lparr>db_sessions := a, db_assignments := b, db_events := c, db_completions := d\<rparr>)"
begin

lemma links_keep:
  assumes "record_links g es links db = Inr (evs, db')" "inv db" "good g" "es_class es \<in> set work_classes"
    "set links \<subseteq> set (db_links db)" "\<forall>link \<in> set links. link_kind db link (es_kind es)"
  shows "inv db' \<and> same_catalog db' db"
  using assms(1)
proof (rule record_links_induct [where P = "\<lambda>d. inv d \<and> same_catalog d db"])
  show "inv db \<and> same_catalog db db" using assms(2) by (simp add: same_catalog_def)
next
  fix link std d ev d'
  assume a: "link \<in> set links" "get_row sd_id (lk_standard_id link) (db_standards d) = Inr std"
    "standardEligibleForActivity (es_kind es) (sd_code std)" "inv d \<and> same_catalog d db"
    "record_evidence g es link std d = Inr (ev, d')"
  have l: "link \<in> set (db_links d)" "link_kind d link (es_kind es)"
    using a(1,4) assms(5,6) by (auto simp: same_catalog_def link_kind_def)
  have "inv d'" using step [OF _ assms(3) l a(2,3) assms(4) a(5)] a(4) by simp
  moreover have "same_catalog d' d" using record_evidence_frame [OF a(5)] by simp
  ultimately show "inv d' \<and> same_catalog d' db" using a(4) by (simp add: same_catalog_def)
qed

lemma revision_links_keep:
  assumes "record_links g es (ListRevisionStandards db (rv_id rvn)) db = Inr (evs, db')" "inv db" "good g"
    "es_class es \<in> set work_classes" "rvn \<in> set (db_revisions db)"
    "get_row la_id (rv_activity_id rvn) (db_activities db) = Inr act" "es_kind es = la_kind act"
  shows "inv db'"
proof -
  have "link_kind db link (es_kind es)" if "link \<in> set (ListRevisionStandards db (rv_id rvn))" for link
    using ListRevisionStandards_links [OF that] assms(5,7) get_row_Inr [OF assms(6)]
    unfolding link_kind_def by (intro bexI [of _ rvn] bexI [of _ act]) simp_all
  with links_keep [OF assms(1-4)] ListRevisionStandards_links show ?thesis by blast
qed

lemma completion_keeps:
  assumes "inv db" "good g"
  shows "inv (snd (ApplyCompletion g device sid req now db))"
  unfolding ApplyCompletion_def
proof (rule in_tx_keeps [where P = inv])
  show "inv db" by (rule assms(1))
next
  fix res db' assume "apply_completion g device sid req now db = Inr (res, db')"
  then show "inv db'"
  proof (cases rule: apply_completion_cases)
    case replay
    with assms show ?thesis by simp
  next
    case (cancelled session asg)
    from cancelled(8) obtain row where "db' = db\<lparr>db_completions := db_completions db @ [row]\<rparr>"
      by (rule InsertCompletion_Inr)
    with frame [OF assms(1), where a = "db_sessions db" and b = "db_assignments db" and c = "db_events db"]
    show ?thesis by simp
  next
    case (fresh session asg)
    from fresh(10) obtain c db2 summary where c: "completed_ok g device session req now db c"
      "InsertCompletion (gn_completion g) (ln_id session) (cq_completion_id req) (cq_request_digest req) res (cm_middle c) = Inr db2"
      "MarkSessionCompleted session summary now db2 = Inr db'" by (rule complete_session_Inr)
    let ?cx = "\<lparr>cx_session = session, cx_device_id = sc_id device, cx_revision_id = rv_id (cm_revision c),
      cx_kind = la_kind (cm_activity c), cx_primary_check = primaryCheckID (cm_content c) (cq_observations req), cx_now = now\<rparr>"
    have links: "record_links g (completion_step ?cx) (ListRevisionStandards db (rv_id (cm_revision c))) db =
        Inr (cm_evidence c, cm_middle c)"
      using c(1) unfolding completed_ok_def by (blast intro: complete_links_step)
    have act: "get_row la_id (rv_activity_id (cm_revision c)) (db_activities db) = Inr (cm_activity c)"
      using c(1) unfolding completed_ok_def by blast
    have "cm_revision c \<in> set (db_revisions db)"
      using c(1) GetRevision_Inr unfolding completed_ok_def by blast
    then have "inv (cm_middle c)"
      using revision_links_keep [OF links assms _ _ act] by (simp add: completion_step_def work_classes_def)
    from c(2) obtain row where "db2 = (cm_middle c)\<lparr>db_completions := db_completions (cm_middle c) @ [row]\<rparr>"
      by (rule InsertCompletion_Inr)
    then have "db' = (cm_middle c)\<lparr>db_sessions := db_sessions db', db_assignments := db_assignments db',
        db_events := db_events db', db_completions := db_completions db'\<rparr>"
      using MarkSessionCompleted_Inr [OF c(3)] by simp
    then show ?thesis using frame [OF \<open>inv (cm_middle c)\<close>] by metis
  qed
qed

lemma response_keeps:
  assumes "inv db" "good g" "cls \<in> set work_classes"
  shows "inv (snd (in_tx (apply_response g resp prefix cls prov now) db))"
proof (rule in_tx_keeps [where P = inv])
  show "inv db" by (rule assms(1))
next
  fix evs db' assume r: "apply_response g resp prefix cls prov now db = Inr (evs, db')"
  then obtain rvn where rvn: "GetRevision db (sp_activity_revision_id resp) = Inr rvn"
    by (auto simp: apply_response_def split: sum.splits)
  with r obtain act where act: "get_row la_id (rv_activity_id rvn) (db_activities db) = Inr act"
    by (auto simp: apply_response_def split: sum.splits)
  have links: "record_links g (response_step resp prefix cls prov (la_kind act) now)
      (ListRevisionStandards db (rv_id rvn)) db = Inr (evs, db')"
    using r by (simp add: apply_response_def rvn act response_links_step)
  have "rvn \<in> set (db_revisions db)" by (rule GetRevision_Inr [OF rvn])
  then show "inv db'"
    using revision_links_keep [OF links assms(1,2) _ _ act] assms(3) by (simp add: response_step_def)
qed

lemma conceptual_keeps: "inv db \<Longrightarrow> good g \<Longrightarrow> inv (snd (ApplyConceptualResponse g resp now db))"
  by (cases resp) (simp_all add: ApplyConceptualResponse_def response_keeps work_classes_def)

lemma attestation_keeps: "inv db \<Longrightarrow> good g \<Longrightarrow> inv (snd (ApplyParentAttestation g resp educator now db))"
  by (cases resp) (simp_all add: ApplyParentAttestation_def response_keeps work_classes_def)

end

section \<open>Student work as a transition system\<close>

text \<open>
  A step of student work: a completion, a response, an attestation, or anything else that happens to
  sessions, assignments, events and completions.
\<close>

inductive work_step :: "(gen \<Rightarrow> bool) \<Rightarrow> lms_db \<Rightarrow> lms_db \<Rightarrow> bool" for good :: "gen \<Rightarrow> bool" where
  completes: "good g \<Longrightarrow> work_step good db (snd (ApplyCompletion g device sid req now db))"
| responds: "good g \<Longrightarrow> work_step good db (snd (ApplyConceptualResponse g resp now db))"
| attests: "good g \<Longrightarrow> work_step good db (snd (ApplyParentAttestation g resp educator now db))"
| elsewhere: "work_step good db (db\<lparr>db_sessions := a, db_assignments := b, db_events := c, db_completions := d\<rparr>)"

context evidence_invariant
begin

lemma work_keeps: "inv db \<Longrightarrow> work_step good db db' \<Longrightarrow> inv db'"
  by (erule work_step.cases) (simp_all add: completion_keeps conceptual_keeps attestation_keeps frame)

lemma work_reachable: "reachable (\<lambda>d. d = db0) (work_step good) db \<Longrightarrow> inv db0 \<Longrightarrow> inv db"
  by (induction rule: reachable.induct) (auto intro: work_keeps)

end

end
