(* ===== verification/Mastery_Props.thy ===== *)
theory Mastery_Props
  imports Mastery_Laws
begin

text \<open>
  The properties of mastery updates: every rung of the ladder rests on evidence, student work alone does not master a
  standard whose policy wants a formal assessment, records do not fall, and a session is completed once.
  The invariants are interpretations of the contract \<open>evidence_invariant\<close>.
\<close>

section \<open>Every rung rests on evidence\<close>

definition has_class :: "lms_db \<Rightarrow> MasteryRecord \<Rightarrow> string \<Rightarrow> bool" where
  "has_class db r c \<longleftrightarrow> (\<exists>e \<in> set (db_evidence db). mv_mastery_record_id e = mr_id r \<and> mv_evidence_class e = c)"

definition required_classes :: "EvidencePolicy \<Rightarrow> string \<Rightarrow> string list" where
  "required_classes policy status = (case map_of (ep_status_requirements policy) status of None \<Rightarrow> [] | Some req \<Rightarrow> req)"

definition backed :: "lms_db \<Rightarrow> uuid \<Rightarrow> EvidencePolicy \<Rightarrow> bool" where
  "backed db std policy \<longleftrightarrow> (\<forall>r \<in> set (db_records db). mr_standard_id r = std \<longrightarrow>
     (\<forall>st \<in> set ladder_order. statusRank st \<le> statusRank (mr_status r) \<longrightarrow>
        (\<forall>c \<in> set (required_classes policy st). has_class db r c)))"

definition uniform_policy :: "lms_db \<Rightarrow> uuid \<Rightarrow> EvidencePolicy \<Rightarrow> bool" where
  "uniform_policy db std policy \<longleftrightarrow> (\<forall>link \<in> set (db_links db). \<forall>act \<in> set (db_activities db).
     lk_standard_id link = std \<and> link_kind db link (la_kind act) \<longrightarrow> policyFromLink link (la_kind act) = policy)"

definition backed_inv :: "uuid \<Rightarrow> EvidencePolicy \<Rightarrow> lms_db \<Rightarrow> bool" where
  "backed_inv std policy db \<longleftrightarrow> mastery_wf db \<and> uniform_policy db std policy \<and> backed db std policy"

lemma missing_required:
  assumes "missingForStatus st acc pol = []" "st \<in> set ladder_order" "c \<in> set (required_classes pol st)"
  shows "c \<in> set acc"
  using assms by (auto simp: missingForStatus_def required_classes_def ladder_order_def filter_empty_conv split: option.splits)

lemma accepted_classes:
  assumes "c \<in> set (addClass (listAcceptedEvidenceClasses db i) cls)"
  shows "c = cls \<or> (\<exists>e \<in> set (db_evidence db). mv_mastery_record_id e = i \<and> mv_evidence_class e = c)"
  using assms by (auto simp: addClass_def listAcceptedEvidenceClasses_def list_ex_iff split: if_splits)

lemma settled_backed:
  assumes "statusRank (mr_status r) < statusRank st" "st \<in> set ladder_order"
    "statusRank st \<le> statusRank (fst (settled link cls pol r db))" "c \<in> set (required_classes pol st)"
  shows "c = cls \<or> has_class db r c"
proof -
  have "missingForStatus st (addClass (listAcceptedEvidenceClasses db (mr_id r)) cls) pol = []"
    using assms(1-3) unfolding settled_def Let_def by (intro advance_supported)
  from accepted_classes [OF missing_required [OF this assms(2,4)]] show ?thesis by (simp add: has_class_def)
qed

lemma step_backed:
  assumes inv: "backed_inv sid pol db" and "link \<in> set (db_links db)" "link_kind db link (es_kind es)"
    and step: "record_evidence g es link std db = Inr (ev, db')"
  shows "backed_inv sid pol db'"
proof -
  have wf: "mastery_wf db" and old: "backed db sid pol" and uni: "uniform_policy db sid pol"
    using inv by (simp_all add: backed_inv_def)
  have ev: "set (db_evidence db) \<subseteq> set (db_evidence db')"
    using record_evidence_evidence [OF step wf] by auto
  have rungs: "has_class db' x c" if x: "x \<in> set (db_records db')" "mr_standard_id x = sid" and
    st: "st \<in> set ladder_order" "statusRank st \<le> statusRank (mr_status x)" and c: "c \<in> set (required_classes pol st)" for x st c
    using step wf x(1)
  proof (cases rule: record_evidence_records)
    case kept
    with old x(2) st c have "has_class db x c" by (auto simp: backed_def)
    with ev show ?thesis by (auto simp: has_class_def)
  next
    case fresh
    with st show ?thesis by (auto simp: blank_def ladder_order_def)
  next
    case (moved r row db2)
    have pol: "policyFromLink link (es_kind es) = pol"
    proof -
      obtain act where "act \<in> set (db_activities db)" "la_kind act = es_kind es"
        using assms(3) by (auto simp: link_kind_def)
      moreover have "lk_standard_id link = sid" using moved(1,4) x(2) by simp
      ultimately show ?thesis using uni assms(2,3) unfolding uniform_policy_def by metis
    qed
    show ?thesis
    proof (cases "statusRank st \<le> statusRank (mr_status r)")
      case True
      moreover from this st(1) have "\<not> blank r" by (auto simp: blank_def ladder_order_def)
      ultimately have "has_class db r c" using old moved(3,4) x(2) st(1) c by (auto simp: backed_def)
      with ev moved(4) show ?thesis by (auto simp: has_class_def)
    next
      case False
      then have "c = es_class es \<or> has_class db2 r c"
        using st c moved(4) pol by (intro settled_backed [of r st link _ pol]) simp_all
      with moved(4-8) show ?thesis by (auto simp: has_class_def)
    qed
  qed
  have "uniform_policy db' sid pol"
    using uni record_evidence_frame [OF step] by (simp add: uniform_policy_def same_catalog_def link_kind_def)
  with rungs record_evidence_wf [OF wf step] show ?thesis by (auto simp: backed_inv_def backed_def)
qed

interpretation rungs: evidence_invariant "backed_inv sid pol" "\<lambda>_. True" for sid pol
proof
  fix db g link es std ev db'
  assume "backed_inv sid pol db" "link \<in> set (db_links db)" "link_kind db link (es_kind es)"
    "record_evidence g es link std db = Inr (ev, db')"
  then show "backed_inv sid pol db'" by (rule step_backed)
next
  fix db a b c d assume "backed_inv sid pol db"
  then show "backed_inv sid pol (db\<lparr>db_sessions := a, db_assignments := b, db_events := c, db_completions := d\<rparr>)"
    by (simp add: backed_inv_def mastery_wf_def uniform_policy_def backed_def has_class_def link_kind_def)
qed

section \<open>A worked completion\<close>

definition ex_store :: "rat \<Rightarrow> rat" where
  "ex_store x = fl (of_int \<lfloor>x * 1000 + 1 / 2\<rfloor> / 1000)"

definition ex_gen :: gen where
  "ex_gen = \<lparr>gn_record = (\<lambda>i. ''rec:'' @ i), gn_evidence = (\<lambda>i. ''ev:'' @ i), gn_completion = ''com-1'',
     gn_store = ex_store\<rparr>"

definition ex_observation :: "string \<Rightarrow> string \<Rightarrow> Observation" where
  "ex_observation i kind = \<lparr>ob_schema_version = [], ob_check_id = i, ob_kind = kind, ob_passed = True, ob_optional = False,
     ob_message = [], ob_observed_at = 150, ob_details = [(''source'', AnyString ''observe-bash'')]\<rparr>"

definition ex_request :: CompletionRequest where
  "ex_request = \<lparr>cq_schema_version = CompletionSchemaVersion, cq_completion_id = ''done-1'', cq_request_digest = ''d1'',
     cq_observations = [ex_observation ''made'' CheckFileExists, ex_observation ''ran'' CheckCommandProperties],
     cq_artifact_ids = [], cq_artifact_digests = [], cq_client_time = 150, cq_summary = []\<rparr>"

definition ex_completed :: "(repo_error + CompletionResult) \<times> lms_db" where
  "ex_completed = ApplyCompletion ex_gen ex_device ''ses-1'' ex_request 200 ex_lms_started"

lemma ex_completed_record:
  "map (\<lambda>r. (mr_id r, mr_standard_id r, mr_status r, mr_confidence r)) (db_records (snd ex_completed)) =
     [(''rec:link-1'', ''std-cli'', ''in_progress'', fl (35 / 100))]"
  by code_simp

lemma ex_completed_evidence:
  "map (\<lambda>e. (mv_mastery_record_id e, mv_evidence_class e)) (db_evidence (snd ex_completed)) =
     [(''rec:link-1'', EvidenceProceduralContinuous)]"
  by code_simp

lemma ex_lms_reaches:
  "good ex_gen \<Longrightarrow> reachable (\<lambda>d. d = ex_lms_started) (work_step good) (snd ex_completed)"
  unfolding ex_completed_def by (blast intro: reachable.intros work_step.completes)

lemma ex_lms_mastery_wf: "mastery_wf ex_lms_started"
  by (simp add: mastery_wf_def unique_key_def ex_lms_started_def ex_lms_def)

lemma ex_lms_uniform: "uniform_policy ex_lms_started ''std-cli'' DefaultTerminalEvidencePolicy"
  by (simp add: uniform_policy_def ex_lms_started_def ex_lms_def ex_link_def policyFromLink_def ParseEvidencePolicy_def
      DefaultTerminalEvidencePolicy_def)

text \<open>
  C2. Every rung rests on evidence.  When the links of a standard agree on their evidence policy, then whatever completions,
  responses and attestations happen, in whatever order, a mastery record of that standard is at a status
  only if, for it and for every status below it, the evidence of each class the policy requires there is stored.
\<close>

theorem mastery_backed_by_evidence:
  assumes "mastery_wf db0" "uniform_policy db0 std policy" "backed db0 std policy"
    "reachable (\<lambda>d. d = db0) (work_step (\<lambda>_. True)) db"
    "r \<in> set (db_records db)" "mr_standard_id r = std"
    "st \<in> set ladder_order" "statusRank st \<le> statusRank (mr_status r)" "c \<in> set (required_classes policy st)"
  shows "has_class db r c"
proof -
  have "backed_inv std policy db"
    using rungs.work_reachable [OF assms(4)] assms(1-3) by (simp add: backed_inv_def)
  with assms(5-9) show ?thesis by (auto simp: backed_inv_def backed_def)
qed

theorem mastery_backed_by_evidence_witness:
  "\<exists>r \<in> set (db_records (snd ex_completed)). mr_status r = ''in_progress'' \<and>
     has_class (snd ex_completed) r EvidenceProceduralContinuous"
proof -
  obtain r where r: "db_records (snd ex_completed) = [r]" "mr_standard_id r = ''std-cli''" "mr_status r = ''in_progress''"
    using ex_completed_record by auto
  have "backed ex_lms_started ''std-cli'' DefaultTerminalEvidencePolicy"
    by (simp add: backed_def ex_lms_started_def ex_lms_def)
  from mastery_backed_by_evidence [OF ex_lms_mastery_wf ex_lms_uniform this ex_lms_reaches [of "\<lambda>_. True"], of r "''in_progress''" EvidenceProceduralContinuous] r show ?thesis
    by (simp add: ladder_order_def required_classes_def DefaultTerminalEvidencePolicy_def EvidenceProceduralContinuous_def)
qed

section \<open>Student work alone\<close>

definition unassessed :: "uuid \<Rightarrow> lms_db \<Rightarrow> bool" where
  "unassessed std db \<longleftrightarrow> mastery_wf db \<and>
     (\<forall>r \<in> set (db_records db). mr_standard_id r = std \<longrightarrow> \<not> has_class db r ''formal_assessment'')"

lemma step_unassessed:
  assumes inv: "unassessed sid db" and cls: "es_class es \<in> set work_classes"
    and step: "record_evidence g es link std db = Inr (ev, db')"
  shows "unassessed sid db'"
proof -
  have wf: "mastery_wf db" using inv by (simp add: unassessed_def)
  have "es_class es \<noteq> ''formal_assessment''"
    using cls by (auto simp: work_classes_def EvidenceProceduralContinuous_def EvidenceConceptualResponse_def
        EvidenceParentAttestation_def)
  then have earlier: "has_class db x ''formal_assessment''" if "has_class db' x ''formal_assessment''" for x
    using record_evidence_evidence [OF step wf] that by (auto simp: has_class_def)
  have unseen: "\<not> has_class db x c" if "mr_id x \<notin> keys mr_id (db_records db)" for x c
    using wf that by (auto simp: mastery_wf_def has_class_def)
  have "\<not> has_class db x ''formal_assessment''" if "x \<in> set (db_records db')" "mr_standard_id x = sid" for x
    using step wf that(1)
  proof (cases rule: record_evidence_records)
    case kept
    with inv that(2) show ?thesis by (simp add: unassessed_def)
  next
    case fresh
    with unseen show ?thesis by blast
  next
    case (moved r row db2)
    have "\<not> has_class db r ''formal_assessment''"
      using moved(3,4) inv that(2) unseen by (auto simp: unassessed_def)
    with moved(4) show ?thesis by (simp add: has_class_def)
  qed
  with earlier record_evidence_wf [OF wf step] show ?thesis by (auto simp: unassessed_def)
qed

interpretation work_only: evidence_invariant "unassessed sid" "\<lambda>_. True" for sid
proof
  fix db g link es std ev db'
  assume "unassessed sid db" "es_class es \<in> set work_classes" "record_evidence g es link std db = Inr (ev, db')"
  then show "unassessed sid db'" by (rule step_unassessed)
next
  fix db a b c d assume "unassessed sid db"
  then show "unassessed sid (db\<lparr>db_sessions := a, db_assignments := b, db_events := c, db_completions := d\<rparr>)"
    by (simp add: unassessed_def mastery_wf_def has_class_def)
qed

text \<open>
  Student work alone does not master a terminal standard: under the default terminal policy, no sequence of
  completions, conceptual responses and parent attestations brings a record of a standard nobody had a record
  of to ''mastered'' --- whatever confidence it accumulates.
\<close>

theorem work_alone_never_masters:
  assumes "mastery_wf db0" "uniform_policy db0 std DefaultTerminalEvidencePolicy"
    "std \<notin> keys mr_standard_id (db_records db0)"
    "reachable (\<lambda>d. d = db0) (work_step (\<lambda>_. True)) db"
    "r \<in> set (db_records db)" "mr_standard_id r = std"
  shows "mr_status r \<noteq> ''mastered''"
proof
  assume m: "mr_status r = ''mastered''"
  have none: "mr_standard_id x \<noteq> std" if "x \<in> set (db_records db0)" for x
    using assms(3) that by (auto simp: keys_def)
  have "backed_inv std DefaultTerminalEvidencePolicy db"
    by (rule rungs.work_reachable [OF assms(4)]) (use assms(1,2) none in \<open>simp add: backed_inv_def backed_def\<close>)
  then have "has_class db r ''formal_assessment''"
    using assms(5,6) m by (auto simp: backed_inv_def backed_def ladder_order_def required_classes_def DefaultTerminalEvidencePolicy_def)
  moreover have "unassessed std db"
    by (rule work_only.work_reachable [OF assms(4)]) (use assms(1) none in \<open>simp add: unassessed_def\<close>)
  ultimately show False using assms(5,6) by (simp add: unassessed_def)
qed

theorem work_alone_never_masters_witness:
  "\<exists>r \<in> set (db_records (snd ex_completed)). mr_standard_id r = ''std-cli'' \<and> mr_status r \<noteq> ''mastered''"
proof -
  obtain r where r: "db_records (snd ex_completed) = [r]" "mr_standard_id r = ''std-cli''"
    using ex_completed_record by auto
  have "''std-cli'' \<notin> keys mr_standard_id (db_records ex_lms_started)"
    by (simp add: keys_def ex_lms_started_def ex_lms_def)
  from work_alone_never_masters [OF ex_lms_mastery_wf ex_lms_uniform this ex_lms_reaches [of "\<lambda>_. True"], of r] r
  show ?thesis by simp
qed

section \<open>A session is completed once\<close>

definition completion_wf :: "lms_db \<Rightarrow> bool" where
  "completion_wf db \<longleftrightarrow> unique_key lc_completion_id (db_completions db) \<and> unique_key lc_session_id (db_completions db)"

lemma get_row_unique:
  assumes "unique_key key rows" "r \<in> set rows" "key r = i"
  shows "get_row key i rows = Inr r"
  using assms find_unique [of key rows r i] by (simp add: get_row_def unique_key_def)

lemma get_row_absent: "i \<notin> keys key rows \<Longrightarrow> get_row key i rows = Inl ErrNotFound"
  by (auto simp: get_row_def keys_def find_None_iff split: option.split)

lemma record_links_frame:
  assumes "record_links g es links db = Inr (evs, db')"
  shows "same_catalog db' db \<and> same_work db' db"
  using assms
proof (rule record_links_induct [where P = "\<lambda>d. same_catalog d db \<and> same_work d db"])
  fix link std d ev d'
  assume "same_catalog d db \<and> same_work d db" "record_evidence g es link std d = Inr (ev, d')"
  with record_evidence_frame [OF this(2)] show "same_catalog d' db \<and> same_work d' db"
    by (simp add: same_catalog_def same_work_def)
qed (simp add: same_catalog_def same_work_def)

lemma completed_frame:
  assumes "completed_ok g device session req now db c"
  shows "same_catalog (cm_middle c) db \<and> same_work (cm_middle c) db"
  using assms unfolding completed_ok_def by (blast dest: complete_links_step record_links_frame)

lemma GetSession_finished:
  assumes "GetSession db sid = Inr session" "db_sessions db' = update_where p (finish_session s0 summary now) (db_sessions db)"
  shows "GetSession db' sid = Inr (if p session then finish_session s0 summary now session else session)"
proof -
  have "List.find (\<lambda>s. ln_id s = sid) (db_sessions db) = Some session"
    using assms(1) by (simp add: GetSession_def get_row_def split: option.splits)
  then show ?thesis
    using find_update_where_key [of ln_id "finish_session s0 summary now" sid p "db_sessions db"]
    by (simp add: GetSession_def get_row_def assms(2) finish_session_def)
qed

lemma InsertCompletion_wf:
  assumes "InsertCompletion i sid cid dg res db = Inr db'" "completion_wf db"
  shows "completion_wf db'"
  using assms by (auto simp: completion_wf_def elim!: InsertCompletion_Inr intro!: unique_key_snoc)

lemma completion_stored:
  assumes "apply_completion g device sid req now db = Inr (res, db')" "completion_wf db"
  shows "completion_wf db' \<and> (\<exists>s. GetSession db' sid = Inr s \<and> ln_student_id s = sc_student_id device) \<and>
    (\<exists>row \<in> set (db_completions db'). lc_completion_id row = cq_completion_id req \<and>
       lc_request_digest row = cq_request_digest req \<and> lc_response row = res \<and>
       (cq_completion_id req \<notin> keys lc_completion_id (db_completions db) \<longrightarrow> lc_session_id row = sid))"
  using assms(1)
proof (cases rule: apply_completion_cases)
  case (replay session existing)
  then have "cq_completion_id req \<in> keys lc_completion_id (db_completions db)" unfolding keys_def by (metis imageI)
  with replay assms(2) show ?thesis by auto
next
  case (cancelled session asg)
  have sid: "ln_id session = sid" using get_row_Inr cancelled(1) unfolding GetSession_def by metis
  from cancelled(8) show ?thesis
    using InsertCompletion_wf [OF cancelled(8) assms(2)] cancelled(1,2) sid
    by (auto elim!: InsertCompletion_Inr simp: GetSession_def)
next
  case (fresh session asg)
  from fresh(10) obtain c db2 summary where c: "completed_ok g device session req now db c"
    "InsertCompletion (gn_completion g) (ln_id session) (cq_completion_id req) (cq_request_digest req) res (cm_middle c) = Inr db2"
    "MarkSessionCompleted session summary now db2 = Inr db'" by (rule complete_session_Inr)
  note frame = completed_frame [OF c(1)]
  have "completion_wf (cm_middle c)" using frame assms(2) by (simp add: completion_wf_def same_work_def)
  with c(2) have wf2: "completion_wf db2" by (rule InsertCompletion_wf)
  have sid: "ln_id session = sid" using get_row_Inr fresh(1) unfolding GetSession_def by metis
  from c(2) obtain row where row: "db2 = (cm_middle c)\<lparr>db_completions := db_completions (cm_middle c) @ [row]\<rparr>"
    "lc_session_id row = sid" "lc_completion_id row = cq_completion_id req" "lc_request_digest row = cq_request_digest req"
    "lc_response row = res" using sid by (auto elim!: InsertCompletion_Inr)
  note marked = MarkSessionCompleted_Inr [OF c(3)]
  have "db_sessions db' = update_where (\<lambda>s. ln_id s = ln_id session) (finish_session session summary now) (db_sessions db)"
    using marked row(1) frame by (simp add: same_work_def)
  from GetSession_finished [OF fresh(1) this] fresh(2)
  have "\<exists>s. GetSession db' sid = Inr s \<and> ln_student_id s = sc_student_id device" by (simp add: finish_session_def)
  moreover have "completion_wf db'" using wf2 marked by (simp add: completion_wf_def)
  moreover have "row \<in> set (db_completions db')" using marked row(1) by simp
  ultimately show ?thesis using row by blast
qed

text \<open>
  C27. A session is completed once.  After a completion succeeds, sending the same request again --- at any time, from the
  same student --- returns the same result and changes nothing; reusing its completion id for another request, or completing the
  session under another id, is a conflict and changes nothing.
\<close>

theorem completion_exactly_once:
  assumes "completion_wf db" "ApplyCompletion g device sid req now db = (Inr res, db')"
  shows "completion_wf db' \<and>
    ApplyCompletion g' device sid req now' db' = (Inr res, db') \<and>
    (cq_completion_id req' = cq_completion_id req \<and> cq_request_digest req' \<noteq> cq_request_digest req \<longrightarrow>
       ApplyCompletion g' device sid req' now' db' =
         (Inl (ErrConflict ''completion id reused with different digest''), db')) \<and>
    (cq_completion_id req \<notin> keys lc_completion_id (db_completions db) \<and>
     cq_completion_id req' \<notin> keys lc_completion_id (db_completions db') \<longrightarrow>
       ApplyCompletion g' device sid req' now' db' = (Inl (ErrConflict ''session already completed''), db'))"
proof -
  have "apply_completion g device sid req now db = Inr (res, db')"
    using assms(2) by (simp add: ApplyCompletion_def in_tx_Inr)
  from completion_stored [OF this assms(1)] obtain s row where
    wf: "completion_wf db'" and s: "GetSession db' sid = Inr s" "ln_student_id s = sc_student_id device" and
    row: "row \<in> set (db_completions db')" "lc_completion_id row = cq_completion_id req"
      "lc_request_digest row = cq_request_digest req" "lc_response row = res" and
    own: "cq_completion_id req \<notin> keys lc_completion_id (db_completions db) \<Longrightarrow> lc_session_id row = sid" by blast
  have id: "GetCompletionByID db' (cq_completion_id req) = Inr row"
    using wf row unfolding GetCompletionByID_def completion_wf_def by (blast intro: get_row_unique)
  have by_session: "GetCompletionBySession db' sid = Inr row"
    if "cq_completion_id req \<notin> keys lc_completion_id (db_completions db)"
    using wf row(1) own [OF that] unfolding GetCompletionBySession_def completion_wf_def by (blast intro: get_row_unique)
  have none: "GetCompletionByID db' (cq_completion_id req') = Inl ErrNotFound" "cq_completion_id req' \<noteq> lc_completion_id row"
    if "cq_completion_id req' \<notin> keys lc_completion_id (db_completions db')"
    using get_row_absent [OF that] that row(1) by (auto simp: GetCompletionByID_def keys_def)
  show ?thesis
    using wf s id row by_session none
    by (auto simp: ApplyCompletion_def in_tx_def WithTx_def apply_completion_def CompletionResultFromRow_def)
qed

lemma ex_completed_result:
  "map_sum (\<lambda>_. ()) (\<lambda>r. (cr_accepted r, map mt_to_status (cr_mastery_transitions r))) (fst ex_completed) =
     Inr (True, [''in_progress''])"
  by code_simp

lemma ex_completed_once:
  obtains res db' where "ApplyCompletion ex_gen ex_device ''ses-1'' ex_request 200 ex_lms_started = (Inr res, db')"
    "cr_accepted res" "ex_completed = (Inr res, db')"
proof (cases ex_completed)
  case (Pair r db')
  moreover obtain res where "r = Inr res" "cr_accepted res"
    using ex_completed_result [unfolded Pair] by (cases r) auto
  ultimately show ?thesis using that unfolding ex_completed_def by blast
qed

theorem completion_exactly_once_witness:
  "\<exists>res db'. ex_completed = (Inr res, db') \<and> ApplyCompletion ex_gen ex_device ''ses-1'' ex_request 900 db' = (Inr res, db') \<and>
     ApplyCompletion ex_gen ex_device ''ses-1'' (ex_request\<lparr>cq_request_digest := ''other''\<rparr>) 900 db' =
       (Inl (ErrConflict ''completion id reused with different digest''), db')"
proof -
  obtain res db' where c: "ApplyCompletion ex_gen ex_device ''ses-1'' ex_request 200 ex_lms_started = (Inr res, db')"
    "ex_completed = (Inr res, db')" by (rule ex_completed_once)
  have "completion_wf ex_lms_started" by (simp add: completion_wf_def unique_key_def ex_lms_started_def ex_lms_def)
  from completion_exactly_once [OF this c(1), of ex_gen 900 "ex_request\<lparr>cq_request_digest := ''other''\<rparr>"] c(2)
  show ?thesis by (intro exI [of _ res] exI [of _ db']) (simp add: ex_request_def)
qed

section \<open>What an accepted completion means\<close>

lemma required_checks_passed:
  assumes "validateRequiredChecks content obs = None"
  shows "(\<forall>ch \<in> set (ac_checks content). \<not> ck_optional ch \<longrightarrow>
      (\<exists>ob \<in> set obs. ob_check_id ob = ck_id ch \<and> ob_passed ob)) \<and>
    (\<forall>t \<in> set (ac_tasks content). \<not> tk_optional t \<longrightarrow> evalTree (tk_completion t) (observation_by_id obs))"
proof -
  let ?unmet = "List.find (\<lambda>ch. \<not> ck_optional ch \<and>
      (case observation_by_id obs (ck_id ch) of None \<Rightarrow> True | Some ob \<Rightarrow> \<not> ob_passed ob)) (ac_checks content)"
  have none: "?unmet = None"
    using assms by (cases ?unmet) (simp_all add: validateRequiredChecks_def Let_def)
  then have tasks: "List.find (\<lambda>t. \<not> tk_optional t \<and> \<not> evalTree (tk_completion t) (observation_by_id obs)) (ac_tasks content) = None"
    using assms by (simp add: validateRequiredChecks_def Let_def split: option.splits)
  have "\<exists>ob \<in> set obs. ob_check_id ob = ck_id ch \<and> ob_passed ob" if ch: "ch \<in> set (ac_checks content)" "\<not> ck_optional ch" for ch
  proof -
    obtain ob where ob: "observation_by_id obs (ck_id ch) = Some ob" "ob_passed ob"
      using none ch by (cases "observation_by_id obs (ck_id ch)") (auto simp: find_None_iff)
    from find_Some_in [OF ob(1) [unfolded observation_by_id_def]] ob(2) show ?thesis by auto
  qed
  with tasks show ?thesis by (auto simp: find_None_iff)
qed

text \<open>
  What a completion decides.  The first completion of a session of a cancelled assignment is refused and leaves
  sessions, assignments, records and evidence as they were.  Any other that succeeds is accepted, every required check has a
  passing observation, every required task's completion tree is met, and the session and its assignment are completed.
\<close>

theorem completion_outcome:
  assumes "ApplyCompletion g device sid req now db = (Inr res, db')"
    "cq_completion_id req \<notin> keys lc_completion_id (db_completions db)"
  obtains (refused) asg where "asg \<in> set (db_assignments db)" "sa_state asg = AssignmentCancelled" "\<not> cr_accepted res"
      "db' = db\<lparr>db_completions := db_completions db'\<rparr>"
    | (accepted) session rvn content where "cr_accepted res" "GetSession db sid = Inr session"
      "GetRevision db (ln_activity_revision_id session) = Inr rvn" "rv_content rvn = Some content"
      "\<forall>ch \<in> set (ac_checks content). \<not> ck_optional ch \<longrightarrow>
         (\<exists>ob \<in> set (cq_observations req). ob_check_id ob = ck_id ch \<and> ob_passed ob)"
      "\<forall>t \<in> set (ac_tasks content). \<not> tk_optional t \<longrightarrow> evalTree (tk_completion t) (observation_by_id (cq_observations req))"
      "\<exists>s. GetSession db' sid = Inr s \<and> ln_state s = SessionCompleted"
      "\<forall>a \<in> set (db_assignments db'). sa_id a = ln_assignment_id session \<longrightarrow> sa_state a = AssignmentCompleted"
proof -
  have "apply_completion g device sid req now db = Inr (res, db')"
    using assms(1) by (simp add: ApplyCompletion_def in_tx_Inr)
  then show ?thesis
  proof (cases rule: apply_completion_cases)
    case replay
    then show ?thesis using assms(2) unfolding keys_def by (metis imageI)
  next
    case (cancelled session asg)
    from cancelled(8) obtain row where "db' = db\<lparr>db_completions := db_completions db @ [row]\<rparr>" by (rule InsertCompletion_Inr)
    with cancelled show ?thesis by (intro refused [of asg]) (auto simp: cancelled_result_def dest: get_row_Inr)
  next
    case (fresh session asg)
    from fresh(10) obtain c db2 summary where c: "completed_ok g device session req now db c"
      "res = accepted_result session req summary (cm_evidence c) (cm_transitions c)"
      "InsertCompletion (gn_completion g) (ln_id session) (cq_completion_id req) (cq_request_digest req) res (cm_middle c) = Inr db2"
      "MarkSessionCompleted session summary now db2 = Inr db'" by (rule complete_session_Inr)
    note ok = c(1) [unfolded completed_ok_def]
    note marked = MarkSessionCompleted_Inr [OF c(4)]
    from c(3) obtain row where "db2 = (cm_middle c)\<lparr>db_completions := db_completions (cm_middle c) @ [row]\<rparr>"
      by (rule InsertCompletion_Inr)
    with marked completed_frame [OF c(1)] have "db_sessions db' =
        update_where (\<lambda>s. ln_id s = ln_id session) (finish_session session summary now) (db_sessions db)"
      by (simp add: same_work_def)
    from GetSession_finished [OF fresh(1) this] have "\<exists>s. GetSession db' sid = Inr s \<and> ln_state s = SessionCompleted"
      by (simp add: finish_session_def)
    moreover have "\<forall>a \<in> set (db_assignments db'). sa_id a = ln_assignment_id session \<longrightarrow> sa_state a = AssignmentCompleted"
      unfolding marked by (auto simp: in_update_where)
    ultimately show ?thesis
      using accepted [of session "cm_revision c" "cm_content c"] ok fresh(1) required_checks_passed [of "cm_content c"] c(2)
      by (simp add: accepted_result_def)
  qed
qed

theorem completion_outcome_witness:
  "\<exists>res db'. ex_completed = (Inr res, db') \<and> cr_accepted res \<and> (\<exists>s. GetSession db' ''ses-1'' = Inr s \<and> ln_state s = SessionCompleted)"
proof -
  obtain res db' where c: "ApplyCompletion ex_gen ex_device ''ses-1'' ex_request 200 ex_lms_started = (Inr res, db')"
    "cr_accepted res" "ex_completed = (Inr res, db')" by (rule ex_completed_once)
  have "cq_completion_id ex_request \<notin> keys lc_completion_id (db_completions ex_lms_started)"
    by (simp add: keys_def ex_lms_started_def ex_lms_def)
  with c(1) show ?thesis by (cases rule: completion_outcome) (use c(2,3) in auto)
qed

section \<open>The optional flag of an observation\<close>

lemma find_map_update:
  assumes "\<And>x. p (f x) = p x"
  shows "List.find p (map f xs) = map_option f (List.find p xs)"
  using assms by (induction xs) auto

lemma evalTree_passed:
  assumes "\<And>i. map_option ob_passed (b i) = map_option ob_passed (b' i)"
  shows "evalTree t b = evalTree t b'"
proof (induction t)
  case (CheckTree all any cid opt)
  have "(case b cid of None \<Rightarrow> False | Some ob \<Rightarrow> ob_passed ob) = (case b' cid of None \<Rightarrow> False | Some ob \<Rightarrow> ob_passed ob)"
    using assms [of cid] by (auto split: option.splits)
  with CheckTree show ?case by (auto simp: list_all_iff list_ex_iff)
qed

text \<open>
  C33. The capability check trusts the client.  Whether a check is optional is part of the revision, but the check for structured
  command evidence reads the flag of the submitted observation: with every observation marked optional it accepts
  whatever the observations are, while the required checks are judged as before.
\<close>

theorem optional_flag_bypasses_capability_check:
  "validateObservationCapabilities content (map (\<lambda>ob. ob\<lparr>ob_optional := True\<rparr>) obs) = None \<and>
   validateRequiredChecks content (map (\<lambda>ob. ob\<lparr>ob_optional := True\<rparr>) obs) = validateRequiredChecks content obs"
proof
  show "validateObservationCapabilities content (map (\<lambda>ob. ob\<lparr>ob_optional := True\<rparr>) obs) = None"
    by (simp add: validateObservationCapabilities_def find_None_iff split: option.splits)
next
  let ?obs = "map (\<lambda>ob. ob\<lparr>ob_optional := True\<rparr>) obs"
  have lookup: "observation_by_id ?obs i = map_option (\<lambda>ob. ob\<lparr>ob_optional := True\<rparr>) (observation_by_id obs i)" for i
    unfolding observation_by_id_def rev_map by (rule find_map_update) simp
  then have trees: "evalTree t (observation_by_id ?obs) = evalTree t (observation_by_id obs)" for t
    by (intro evalTree_passed) (simp add: option.map_comp comp_def)
  have checks: "(case observation_by_id ?obs i of None \<Rightarrow> True | Some ob \<Rightarrow> \<not> ob_passed ob) =
      (case observation_by_id obs i of None \<Rightarrow> True | Some ob \<Rightarrow> \<not> ob_passed ob)" for i
    unfolding lookup by (cases "observation_by_id obs i") simp_all
  show "validateRequiredChecks content ?obs = validateRequiredChecks content obs"
    unfolding validateRequiredChecks_def Let_def trees checks ..
qed

end
