(* ===== verification/Mastery_Growth.thy ===== *)
theory Mastery_Growth
  imports Mastery_Props
begin

text \<open>
  Mastery records do not fall: for records whose confidence agrees with their status, no completion, response or
  attestation lowers the status or the confidence.  The confidence goes through float64 arithmetic and through the
  \<^verbatim>\<open>NUMERIC(4,3)\<close> column, so the argument is about rounding as much as about the ladder.
\<close>

section \<open>The column and consistent records\<close>

text \<open>
  What \<^verbatim>\<open>NUMERIC(4,3)\<close> and the scan back into a float64 guarantee on the unit interval: storing is monotone and
  idempotent, stays in the interval and yields a float64, and the three-digit constants of the code are not lowered.
\<close>

definition numeric_column :: "(rat \<Rightarrow> rat) \<Rightarrow> bool" where
  "numeric_column store \<longleftrightarrow>
     (\<forall>x y. 0 \<le> x \<and> x \<le> y \<and> y \<le> 1 \<longrightarrow> store x \<le> store y) \<and>
     (\<forall>x. 0 \<le> x \<and> x \<le> 1 \<longrightarrow> 0 \<le> store x \<and> store x \<le> 1 \<and> store (store x) = store x \<and> fl (store x) = store x) \<and>
     store 0 = 0 \<and> approaching_threshold \<le> store approaching_threshold \<and> MasteredThreshold \<le> store MasteredThreshold"

definition supports :: "string \<Rightarrow> rat \<Rightarrow> bool" where
  "supports status conf \<longleftrightarrow> status \<in> set (''not_introduced'' # ladder_order) \<and> 0 \<le> conf \<and> conf \<le> 1 \<and>
     (2 \<le> statusRank status \<longrightarrow> approaching_threshold \<le> conf) \<and> (3 \<le> statusRank status \<longrightarrow> MasteredThreshold \<le> conf)"

definition consistent_record :: "(rat \<Rightarrow> rat) \<Rightarrow> MasteryRecord \<Rightarrow> bool" where
  "consistent_record store r \<longleftrightarrow> supports (mr_status r) (mr_confidence r) \<and>
     store (mr_confidence r) = mr_confidence r \<and> fl (mr_confidence r) = mr_confidence r"

lemma thresholds [simp]:
  "0 < ConfidenceBump" "0 < approaching_threshold" "approaching_threshold < MasteredThreshold" "MasteredThreshold < 1"
  "fl approaching_threshold = approaching_threshold" "fl MasteredThreshold = MasteredThreshold"
  by code_simp+

lemma weighted_bump_pos: "0 < weighted_bump w"
  by (simp add: weighted_bump_def Let_def)

lemma clamp01_bounds: "0 \<le> clamp01 x \<and> clamp01 x \<le> 1"
  by (simp add: clamp01_def)

lemma clamp01_ge: "c \<le> x \<Longrightarrow> c \<le> 1 \<Longrightarrow> c \<le> clamp01 x"
  by (auto simp: clamp01_def)

lemma fadd_ge: "0 \<le> c \<Longrightarrow> fl c = c \<Longrightarrow> 0 \<le> b \<Longrightarrow> c \<le> fadd c b"
  by (simp add: fl_ge)

lemma proposed_conf:
  assumes "0 \<le> c" "c \<le> 1" "fl c = c"
  shows "c \<le> snd (proposedStatus st c role w) \<and> snd (proposedStatus st c role w) \<le> 1"
  using fadd_ge [OF assms(1,3), of "weighted_bump w"] weighted_bump_pos [of w] assms clamp01_bounds
  by (simp add: proposedStatus_def Let_def clamp01_ge)

lemma proposed_supported:
  assumes "supports st c" "fl c = c"
  shows "supports (fst (proposedStatus st c role w)) (snd (proposedStatus st c role w)) \<and>
    statusRank st \<le> statusRank (fst (proposedStatus st c role w))"
proof -
  define n where "n = snd (proposedStatus st c role w)"
  have n: "c \<le> n" "n \<le> 1" "0 \<le> n"
    using proposed_conf [of c st role w] assms by (auto simp: n_def supports_def)
  have s: "fst (proposedStatus st c role w) = statusFor st n role" by (simp add: n_def proposedStatus_def Let_def)
  have "supports (statusFor st n role) n \<and> statusRank st \<le> statusRank (statusFor st n role)"
  proof (cases "approaching_threshold \<le> n")
    case True
    then have "statusFor st n role = (if MasteredThreshold \<le> n then ''mastered'' else ''approaching'')"
      by (simp add: statusFor_def)
    moreover have "MasteredThreshold \<le> n \<or> statusRank st \<le> 2"
      using assms(1) n(1) statusRank_le_3 [of st] by (auto simp: supports_def)
    ultimately show ?thesis using n True statusRank_le_3 [of st] by (auto simp: supports_def ladder_order_def)
  next
    case False
    with assms(1) n have low: "\<not> 2 \<le> statusRank st" by (auto simp: supports_def)
    have "st = ''not_introduced'' \<or> st = ''in_progress'' \<or> st = ''approaching'' \<or> st = ''mastered''"
      using assms(1) by (simp add: supports_def ladder_order_def)
    then have "st = ''not_introduced'' \<or> st = ''in_progress''" using low by (elim disjE) simp_all
    moreover have "\<not> MasteredThreshold \<le> n" using False thresholds(3) by linarith
    ultimately have "statusFor st n role = ''in_progress'' \<and> statusRank st \<le> 1"
      using False by (elim disjE) (simp_all add: statusFor_def)
    with n show ?thesis by (simp add: supports_def ladder_order_def)
  qed
  then show ?thesis unfolding s n_def .
qed

lemma conf_for_supported:
  assumes "supports st c" "fl c = c" "s \<in> set ladder_order"
  shows "supports s (confForStatus s c w) \<and> c \<le> confForStatus s c w"
proof -
  have c: "0 \<le> c" "c \<le> 1" using assms(1) by (simp_all add: supports_def)
  have f: "c \<le> clamp01 (fadd c (fmul (weighted_bump w) (1 / 4)))"
    using weighted_bump_pos [of w] c assms(2) by (intro clamp01_ge fadd_ge) (simp_all add: fl_nonneg)
  have top: "c \<le> clamp01 (maxFloat c t) \<and> t \<le> clamp01 (maxFloat c t)" if "t \<le> 1" for t
    using c that by (auto simp: maxFloat_def intro: clamp01_ge)
  consider "s = ''in_progress''" | "s = ''approaching''" | "s = ''mastered''"
    using assms(3) by (auto simp: ladder_order_def)
  then show ?thesis
  proof cases
    case 1
    with f c clamp01_bounds show ?thesis by (auto simp: supports_def confForStatus_def ladder_order_def Let_def)
  next
    case 2
    have "approaching_threshold \<le> 1" using thresholds(3,4) by linarith
    from 2 top [OF this] clamp01_bounds show ?thesis by (simp add: supports_def confForStatus_def ladder_order_def Let_def)
  next
    case 3
    have "MasteredThreshold \<le> 1" using thresholds(4) by linarith
    note m = top [OF this]
    then have "approaching_threshold \<le> clamp01 (maxFloat c MasteredThreshold)" using thresholds(3) by linarith
    with 3 m clamp01_bounds show ?thesis by (simp add: supports_def confForStatus_def ladder_order_def Let_def)
  qed
qed

lemma allow_loop_ge:
  assumes "allow_loop fr cr acc pol sts al = (a, m, f)" "fr \<le> statusRank al"
  shows "(a = al \<or> a \<in> set sts) \<and> fr \<le> statusRank a"
  using assms by (induction sts arbitrary: al) (auto simp: Let_def split: if_splits)

lemma highestAllowed_ge:
  assumes "start \<noteq> []"
  shows "(fst (highestAllowedStatus start cand acc pol) = start \<or> fst (highestAllowedStatus start cand acc pol) \<in> set ladder_order) \<and>
    statusRank start \<le> statusRank (fst (highestAllowedStatus start cand acc pol))"
proof -
  obtain a m f where l: "allow_loop (statusRank start) (statusRank cand) acc pol ladder_order start = (a, m, f)"
    by (metis prod.collapse)
  from allow_loop_ge [OF l] assms show ?thesis by (simp add: highestAllowedStatus_def l Let_def)
qed

lemma advance_grows:
  assumes "supports st c" "supports cs cc" "statusRank st \<le> statusRank cs" "c \<le> cc"
    "statusRank st < statusRank al \<Longrightarrow> supports al (confForStatus al c w) \<and> c \<le> confForStatus al c w"
  shows "supports (fst (advance_record st c cs cc al w)) (snd (advance_record st c cs cc al w)) \<and>
    statusRank st \<le> statusRank (fst (advance_record st c cs cc al w)) \<and> c \<le> snd (advance_record st c cs cc al w)"
  using assms by (simp add: advance_record_def)

lemma settled_grows:
  assumes "consistent_record store r"
  shows "supports (fst (settled link cls pol r db)) (snd (settled link cls pol r db)) \<and>
    statusRank (mr_status r) \<le> statusRank (fst (settled link cls pol r db)) \<and>
    mr_confidence r \<le> snd (settled link cls pol r db)"
proof -
  let ?cand = "proposedStatus (mr_status r) (mr_confidence r) (lk_role link) (lk_weight link)"
  let ?al = "fst (highestAllowedStatus (mr_status r) (fst ?cand) (addClass (listAcceptedEvidenceClasses db (mr_id r)) cls) pol)"
  have s: "supports (mr_status r) (mr_confidence r)" and f: "fl (mr_confidence r) = mr_confidence r"
    using assms by (simp_all add: consistent_record_def)
  have ne: "mr_status r \<noteq> []" using s by (auto simp: supports_def ladder_order_def)
  have al: "?al = mr_status r \<or> ?al \<in> set ladder_order" using highestAllowed_ge [OF ne] by blast
  have cand: "supports (fst ?cand) (snd ?cand)" "statusRank (mr_status r) \<le> statusRank (fst ?cand)"
    "mr_confidence r \<le> snd ?cand"
    using proposed_supported [OF s f] proposed_conf [OF _ _ f] s by (simp_all add: supports_def)
  have raised: "supports ?al (confForStatus ?al (mr_confidence r) w) \<and> mr_confidence r \<le> confForStatus ?al (mr_confidence r) w"
    if "statusRank (mr_status r) < statusRank ?al" for w
    using conf_for_supported [OF s f, of ?al w] al that by auto
  show ?thesis
    unfolding settled_def Let_def by (rule advance_grows [OF s cand raised])
qed

section \<open>Growth\<close>

definition grown :: "MasteryRecord \<Rightarrow> MasteryRecord \<Rightarrow> bool" where
  "grown r x \<longleftrightarrow> mr_id x = mr_id r \<and> mr_student_id x = mr_student_id r \<and> mr_standard_id x = mr_standard_id r \<and>
     statusRank (mr_status r) \<le> statusRank (mr_status x) \<and> mr_confidence r \<le> mr_confidence x"

definition growing :: "(rat \<Rightarrow> rat) \<Rightarrow> lms_db \<Rightarrow> lms_db \<Rightarrow> bool" where
  "growing store db0 db \<longleftrightarrow> numeric_column store \<and> mastery_wf db \<and> (\<forall>r \<in> set (db_records db). consistent_record store r) \<and>
     (\<forall>r \<in> set (db_records db0). \<exists>x \<in> set (db_records db). grown r x)"

lemma grown_trans: "grown r y \<Longrightarrow> grown y x \<Longrightarrow> grown r x"
  by (auto simp: grown_def)

lemma grown_refl [simp]: "grown r r"
  by (simp add: grown_def)

lemma touched_grown:
  assumes "numeric_column store" "gn_store g = store" "consistent_record store r"
  shows "grown r (touched g (fst (settled link cls pol r db)) (snd (settled link cls pol r db)) now r) \<and>
    consistent_record store (touched g (fst (settled link cls pol r db)) (snd (settled link cls pol r db)) now r)"
proof -
  define st c where "st = fst (settled link cls pol r db)" and "c = snd (settled link cls pol r db)"
  have new: "supports st c" "statusRank (mr_status r) \<le> statusRank st" "mr_confidence r \<le> c"
    using settled_grows [OF assms(3)] by (simp_all add: st_def c_def)
  have mono: "x \<le> y \<Longrightarrow> 0 \<le> x \<Longrightarrow> y \<le> 1 \<Longrightarrow> store x \<le> store y" for x y
    using assms(1) by (simp add: numeric_column_def)
  have c: "0 \<le> c" "c \<le> 1" using new(1) by (simp_all add: supports_def)
  have unit: "0 \<le> store c \<and> store c \<le> 1 \<and> store (store c) = store c \<and> fl (store c) = store c"
    using assms(1) c by (simp add: numeric_column_def)
  have keep: "approaching_threshold \<le> store c" if "approaching_threshold \<le> c"
    using mono [OF that] assms(1) c thresholds(2) by (simp add: numeric_column_def)
  have keep': "MasteredThreshold \<le> store c" if "MasteredThreshold \<le> c"
    using mono [OF that] assms(1) c thresholds(2,3) by (simp add: numeric_column_def)
  have "mr_confidence r \<le> store c"
    using mono [OF new(3)] assms(3) c by (simp add: consistent_record_def supports_def)
  then show ?thesis
    using new unit keep keep' assms(2)
    unfolding st_def [symmetric] c_def [symmetric]
    by (simp add: grown_def consistent_record_def supports_def)
qed

lemma step_successor:
  assumes step: "record_evidence g es link std db = Inr (ev, db')" and inv: "growing store db0 db" and g: "gn_store g = store"
    and y: "y \<in> set (db_records db)"
  shows "\<exists>x \<in> set (db_records db'). grown y x"
proof -
  have wf: "mastery_wf db" and con: "consistent_record store y" and col: "numeric_column store"
    using inv y by (simp_all add: growing_def)
  from step wf show ?thesis
  proof (cases rule: record_evidence_cases)
    case again
    with y show ?thesis by (auto intro!: bexI [of _ y])
  next
    case (settled r row db2)
    let ?s = "Mastery_Laws.settled link (es_class es) (policyFromLink link (es_kind es)) r db2"
    have y2: "y \<in> set (db_records db2)" using settled(3) y by auto
    show ?thesis
    proof (cases "mr_id y = mr_id r")
      case True
      with settled(3) y wf have "y = r"
        by (auto simp: mastery_wf_def unique_key_def distinct_map keys_def dest: inj_onD image_eqI [OF sym])
      let ?x = "touched g (fst ?s) (snd ?s) (es_now es) r"
      have "r \<in> set (db_records db') \<or> ?x \<in> set (db_records db')"
        using y2 \<open>y = r\<close> unfolding settled(8) settle_record_cases by (auto simp: in_update_where)
      with touched_grown [OF col g con] grown_refl \<open>y = r\<close> show ?thesis by blast
    next
      case False
      with y2 show ?thesis
        unfolding settled(8) settle_record_cases by (auto simp: in_update_where intro!: bexI [of _ y])
    qed
  qed
qed

lemma step_growing:
  assumes inv: "growing store db0 db" and g: "gn_store g = store"
    and step: "record_evidence g es link std db = Inr (ev, db')"
  shows "growing store db0 db'"
proof -
  have wf: "mastery_wf db" and col: "numeric_column store" using inv by (simp_all add: growing_def)
  have blank: "consistent_record store x" if "blank x" for x
    using that col by (simp add: blank_def consistent_record_def supports_def numeric_column_def)
  have "consistent_record store x" if "x \<in> set (db_records db')" for x
    using step wf that
  proof (cases rule: record_evidence_records)
    case kept
    with inv show ?thesis by (simp add: growing_def)
  next
    case fresh
    with blank show ?thesis by simp
  next
    case (moved r row db2)
    then have "consistent_record store r" using inv blank by (auto simp: growing_def)
    with touched_grown [OF col g] moved(4) show ?thesis by simp
  qed
  moreover have "\<exists>x \<in> set (db_records db'). grown r x" if "r \<in> set (db_records db0)" for r
    using inv that step_successor [OF step inv g] grown_trans unfolding growing_def by meson
  ultimately show ?thesis using record_evidence_wf [OF wf step] col by (simp add: growing_def)
qed

interpretation growth: evidence_invariant "growing store db0" "\<lambda>g. gn_store g = store" for store db0
proof
  fix db g link es std ev db'
  assume "growing store db0 db" "gn_store g = store" "record_evidence g es link std db = Inr (ev, db')"
  then show "growing store db0 db'" by (rule step_growing)
next
  fix db a b c d assume "growing store db0 db"
  then show "growing store db0 (db\<lparr>db_sessions := a, db_assignments := b, db_events := c, db_completions := d\<rparr>)"
    by (simp add: growing_def mastery_wf_def)
qed

text \<open>
  C28. Mastery does not fall.  For a database whose records are consistent (an approaching or mastered record has the
  confidence of its status), whatever completions, responses and attestations happen, every record is still there, of
  the same student and standard, with a status and a confidence at least as high, and the records remain consistent.
\<close>

theorem mastery_never_drops:
  assumes "numeric_column store" "mastery_wf db0" "\<forall>r \<in> set (db_records db0). consistent_record store r"
    "reachable (\<lambda>d. d = db0) (work_step (\<lambda>g. gn_store g = store)) db"
  shows "(\<forall>r \<in> set (db_records db0). \<exists>x \<in> set (db_records db). grown r x) \<and>
    (\<forall>x \<in> set (db_records db). consistent_record store x)"
proof -
  have "growing store db0 db"
    by (rule growth.work_reachable [OF assms(4)]) (use assms(1-3) in \<open>auto simp: growing_def intro: grown_refl\<close>)
  then show ?thesis by (simp add: growing_def)
qed

section \<open>Three decimal digits\<close>

lemma fl_near:
  assumes "0 \<le> x" "x \<le> 1"
  shows "\<bar>fl x - x\<bar> \<le> 1 / 2 ^ 53"
proof (cases "x = 0")
  case False
  with assms have x: "0 < x" by simp
  have "pow2 (binexp x) < pow2 1" using binexp_bounds [OF x] assms(2) by (simp add: pow2_def)
  then have "binexp x \<le> 0" by (simp add: pow2_less_iff)
  then have "quantum x \<le> pow2 (- 52)" using x unfolding quantum_def by (intro pow2_mono) (simp add: abs_of_pos)
  then have q: "quantum x \<le> 1 / 2 ^ 52" by (simp add: pow2_def)
  have "fl x - x = (of_int (rne (x / quantum x)) - x / quantum x) * quantum x" using x by (simp add: fl_def field_simps)
  then have "\<bar>fl x - x\<bar> = \<bar>of_int (rne (x / quantum x)) - x / quantum x\<bar> * quantum x"
    by (simp add: abs_mult abs_of_pos)
  also have "\<dots> \<le> 1 / 2 * quantum x" using rne_near quantum_pos by (intro mult_right_mono) (auto simp: less_imp_le)
  finally show ?thesis using q by simp
qed simp

lemma ex_store_digits:
  assumes "0 \<le> k" "k \<le> 1000"
  shows "ex_store (fl (of_int k / 1000)) = fl (of_int k / 1000)"
proof -
  have "0 \<le> rat_of_int k / 1000" "rat_of_int k / 1000 \<le> 1" using assms by simp_all
  from fl_near [OF this] have "\<bar>fl (of_int k / 1000) - of_int k / 1000\<bar> \<le> 1 / 2 ^ 53" .
  moreover have "(1::rat) / 2 ^ 53 < 1 / 2000" by simp
  ultimately have "\<lfloor>fl (of_int k / 1000) * 1000 + 1 / 2\<rfloor> = k" by (intro floor_unique; linarith)
  then show ?thesis by (simp add: ex_store_def)
qed

lemma ex_store_column: "numeric_column ex_store"
proof -
  have digits: "0 \<le> \<lfloor>x * 1000 + 1 / 2\<rfloor> \<and> \<lfloor>x * 1000 + 1 / 2\<rfloor> \<le> 1000" if "0 \<le> x" "x \<le> 1" for x :: rat
    using that by (simp add: floor_le_iff)
  have unit: "0 \<le> rat_of_int \<lfloor>x * 1000 + 1 / 2\<rfloor> / 1000 \<and> rat_of_int \<lfloor>x * 1000 + 1 / 2\<rfloor> / 1000 \<le> 1" if "0 \<le> x" "x \<le> 1" for x :: rat
    using digits [OF that] by simp
  have "ex_store x \<le> ex_store y" if "0 \<le> x" "x \<le> y" "y \<le> 1" for x y
    using unit [of x] that unfolding ex_store_def by (intro fl_mono) (auto intro!: floor_mono divide_right_mono)
  moreover have "0 \<le> ex_store x \<and> ex_store x \<le> 1 \<and> ex_store (ex_store x) = ex_store x \<and> fl (ex_store x) = ex_store x"
    if "0 \<le> x" "x \<le> 1" for x
    using unit [OF that] ex_store_digits digits [OF that] fl_nonneg fl_idem fl_le [of _ 1] fl_of_int [of 1]
    by (simp add: ex_store_def)
  moreover have "ex_store 0 = 0" "approaching_threshold \<le> ex_store approaching_threshold"
    "MasteredThreshold \<le> ex_store MasteredThreshold" by code_simp+
  ultimately show ?thesis by (simp add: numeric_column_def)
qed

definition ex_record :: MasteryRecord where
  "ex_record = \<lparr>mr_id = ''rec-7'', mr_student_id = ''stu-1'', mr_standard_id = ''std-cli'', mr_status = ''in_progress'',
     mr_confidence = fl (35 / 100), mr_decay_rate = fl (2 / 100), mr_last_assessed_at = None, mr_last_reinforced_at = None\<rparr>"

theorem mastery_never_drops_witness:
  "\<exists>x \<in> set (db_records (snd (ApplyCompletion ex_gen ex_device ''ses-1'' ex_request 200 (ex_lms_started\<lparr>db_records := [ex_record]\<rparr>)))).
     grown ex_record x \<and> consistent_record ex_store x"
proof -
  let ?db = "ex_lms_started\<lparr>db_records := [ex_record]\<rparr>"
  have wf: "mastery_wf ?db" by (simp add: mastery_wf_def unique_key_def ex_lms_started_def ex_lms_def)
  have "consistent_record ex_store ex_record" by code_simp
  then have consistent: "\<forall>r \<in> set (db_records ?db). consistent_record ex_store r" by simp
  have "reachable (\<lambda>d. d = ?db) (work_step (\<lambda>g. gn_store g = ex_store))
      (snd (ApplyCompletion ex_gen ex_device ''ses-1'' ex_request 200 ?db))"
    by (rule reachable.next_state [OF reachable.start], rule refl, rule work_step.completes) (simp add: ex_gen_def)
  note grow = mastery_never_drops [OF ex_store_column wf consistent this]
  have "ex_record \<in> set (db_records ?db)" by simp
  with grow show ?thesis by blast
qed

end
