(* ===== verification/Identity_Model.thy ===== *)
theory Identity_Model
  imports Prelude Utf8 "HOL-Library.List_Lexorder" "HOL-Library.Char_ord"
begin

text \<open>
  The data of the identity service (\<^verbatim>\<open>primer-identity/internal/domain\<close>): OAuth clients, grants, provider sessions,
  authorization codes, refresh-token families and tokens, assertion replays and issuance audits, with the
  validators that guard the store.

  Hashes and sealed values are byte strings.  The zero \<^verbatim>\<open>time.Time\<close> is \<open>zero_time\<close> and \<^verbatim>\<open>uuid.Nil\<close> is \<open>uuid_nil\<close>; a pointer is
  an option.  A validation error carries its field and message.  Two functions are arguments: the S256 transform of a PKCE verifier
  (\<open>s256\<close>: base64url of SHA-256) and \<open>uuid_parses\<close>, whether \<^verbatim>\<open>uuid.Parse\<close> accepts a string.  Instants are UTC by construction, so
  the check of a location in \<^verbatim>\<open>validateClaimNow\<close> has no counterpart.  \<^verbatim>\<open>ValidateProviderSessionAssociation\<close> ranges over a map, so which of
  three identifiers it reports first is not fixed; the model takes them in the order written.
\<close>

section \<open>Errors\<close>

text \<open>
  The sentinels of \<^verbatim>\<open>domain/errors.go\<close>, and what the driver reports for a violated constraint: \<^verbatim>\<open>mapPGError\<close> turns a unique violation
  into a conflict, a check violation into an invalid value and a foreign-key violation into not found.  A
  violated constraint also aborts the transaction.  \<open>IdSerialization\<close> stands for the sentinel \<^verbatim>\<open>ErrRetryableSerialization\<close> and for the
  driver's SQLSTATE 40001, \<open>IdStaleCAS\<close> for \<^verbatim>\<open>ErrStaleCAS\<close>; \<open>IdDeadlock\<close>, \<open>IdCapacity\<close> and \<open>IdQueryCanceled\<close> for 40P01, 53300 and 57014; \<open>IdCanceled\<close> and
  \<open>IdDeadline\<close> for the errors of a context.
\<close>

datatype id_error =
    IdNotFound
  | IdConflict string
  | IdInvalid string string
  | IdScopeWidening
  | IdStaleCAS
  | IdUnique string
  | IdCheck string
  | IdForeignKey string
  | IdSerialization
  | IdDeadlock
  | IdCapacity
  | IdQueryCanceled
  | IdCanceled
  | IdDeadline
  | IdOther string

definition is_not_found :: "id_error \<Rightarrow> bool" where
  "is_not_found e = (case e of IdNotFound \<Rightarrow> True | IdForeignKey _ \<Rightarrow> True | _ \<Rightarrow> False)"

definition is_conflict :: "id_error \<Rightarrow> bool" where
  "is_conflict e = (case e of IdConflict _ \<Rightarrow> True | IdScopeWidening \<Rightarrow> True | IdUnique _ \<Rightarrow> True | _ \<Rightarrow> False)"

definition is_invalid :: "id_error \<Rightarrow> bool" where
  "is_invalid e = (case e of IdInvalid _ _ \<Rightarrow> True | IdCheck _ \<Rightarrow> True | _ \<Rightarrow> False)"

definition invalidf :: "string \<Rightarrow> string \<Rightarrow> id_error option" where
  "invalidf field msg = Some (IdInvalid field msg)"

section \<open>Constants\<close>


definition minute :: duration where "minute = 60 * second"
definition hour :: duration where "hour = 60 * minute"

definition BrokerStatusPending :: string where "BrokerStatusPending = ''pending''"
definition BrokerStatusProviderStarted :: string where "BrokerStatusProviderStarted = ''provider_started''"
definition BrokerStatusProviderValidating :: string where "BrokerStatusProviderValidating = ''provider_validating''"
definition BrokerStatusAuthorized :: string where "BrokerStatusAuthorized = ''authorized''"
definition BrokerStatusDenied :: string where "BrokerStatusDenied = ''denied''"
definition BrokerStatusFailed :: string where "BrokerStatusFailed = ''failed''"
definition BrokerStatusExpired :: string where "BrokerStatusExpired = ''expired''"

definition AssertionEndpointToken :: string where "AssertionEndpointToken = ''token''"
definition AssertionEndpointRevocation :: string where "AssertionEndpointRevocation = ''revocation''"
definition RefreshFamilyStatusActive :: string where "RefreshFamilyStatusActive = ''active''"
definition RefreshFamilyStatusRevoked :: string where "RefreshFamilyStatusRevoked = ''revoked''"
definition RefreshFamilyStatusExpired :: string where "RefreshFamilyStatusExpired = ''expired''"
definition RefreshFamilyStatusReuseDetected :: string where "RefreshFamilyStatusReuseDetected = ''reuse_detected''"
definition IssuanceOutcomeCommitted :: string where "IssuanceOutcomeCommitted = ''committed''"
definition MaxRefreshIdle :: duration where "MaxRefreshIdle = 14 * 24 * hour"
definition MaxRefreshAbsolute :: duration where "MaxRefreshAbsolute = 90 * 24 * hour"
definition MaxAccessTTL :: duration where "MaxAccessTTL = 15 * minute"
definition MaxAssertionTTL :: duration where "MaxAssertionTTL = 5 * minute"
definition AssertionClockSkew :: duration where "AssertionClockSkew = 60 * second"
definition MaxAssertionReplayRetention :: duration where
  "MaxAssertionReplayRetention = MaxAssertionTTL + AssertionClockSkew"
definition MaxClientIDLen :: nat where "MaxClientIDLen = 128"
definition MaxProviderMemberSessionIDRunes :: nat where "MaxProviderMemberSessionIDRunes = 255"
definition MaxProviderMemberSessionIDBytes :: nat where "MaxProviderMemberSessionIDBytes = 1024"

section \<open>Rows\<close>

record OAuthClient =
  oc_id :: uuid
  oc_client_id :: string
  oc_name :: string
  oc_client_type :: string
  oc_token_endpoint_auth_method :: string
  oc_client_secret_hash :: string
  oc_client_secret_pepper_version :: "int option"
  oc_allowed_grants :: "string list"
  oc_enabled :: bool
  oc_disabled_at :: "time option"

record OAuthClientRedirect =
  or_id :: uuid
  or_oauth_client_id :: uuid
  or_redirect_uri :: string
  or_resource_uri :: string
  or_audience :: string
  or_allowed_scopes :: "string list"
  or_enabled :: bool

record OAuthClientKey =
  ok_id :: uuid
  ok_oauth_client_id :: uuid
  ok_kid :: string
  ok_jwk_json :: string
  ok_alg :: string
  ok_use :: string
  ok_enabled :: bool
  ok_not_before :: "time option"
  ok_not_after :: "time option"
  ok_disabled_at :: "time option"

record BrokerTransaction =
  bt_id :: uuid
  bt_oauth_client_id :: uuid
  bt_redirect_id :: uuid
  bt_state_hash :: string
  bt_state_pepper_version :: int
  bt_state_sealed :: "string option"
  bt_state_key_version :: int
  bt_state_length :: int
  bt_provider_code_sealed :: "string option"
  bt_provider_code_key_version :: "int option"
  bt_pkce_challenge :: string
  bt_pkce_method :: string
  bt_requested_scopes :: "string list"
  bt_resource_uri :: string
  bt_audience :: string
  bt_broker_cookie_hash :: string
  bt_broker_cookie_pepper_version :: int
  bt_status :: string
  bt_account_id :: "uuid option"
  bt_provider_session_association_id :: "uuid option"
  bt_created_at :: time
  bt_expires_at :: time
  bt_provider_started_at :: "time option"
  bt_provider_validating_at :: "time option"
  bt_completed_at :: "time option"
  bt_version :: int

record ProviderSessionAssociation =
  pa_id :: uuid
  pa_account_id :: uuid
  pa_stytch_mapping_id :: uuid
  pa_provider :: string
  pa_provider_project_id :: string
  pa_provider_organization_id :: string
  pa_provider_member_id :: string
  pa_provider_member_session_id :: string
  pa_provider_expires_at :: time
  pa_status :: string
  pa_last_validated_at :: time
  pa_revoked_at :: "time option"
  pa_revoke_reason_code :: "string option"

record OAuthGrant =
  gr_id :: uuid
  gr_account_id :: "uuid option"
  gr_service_principal_id :: "uuid option"
  gr_oauth_client_id :: uuid
  gr_provider_session_association_id :: "uuid option"
  gr_resource_uri :: string
  gr_audience :: string
  gr_scopes :: "string list"
  gr_subject_class :: string
  gr_status :: string
  gr_granted_at :: time
  gr_not_after :: time
  gr_revoked_at :: "time option"
  gr_revoke_reason_code :: "string option"
  gr_version :: int

record OAuthAuthorizationCode =
  ao_id :: uuid
  ao_code_hash :: string
  ao_pepper_version :: int
  ao_grant_id :: uuid
  ao_broker_transaction_id :: uuid
  ao_oauth_client_id :: uuid
  ao_redirect_uri :: string
  ao_resource_uri :: string
  ao_audience :: string
  ao_scopes :: "string list"
  ao_pkce_challenge :: string
  ao_pkce_method :: string
  ao_issued_at :: time
  ao_expires_at :: time
  ao_consumed_at :: "time option"

record OAuthRefreshFamily =
  rf_id :: uuid
  rf_grant_id :: uuid
  rf_oauth_client_id :: uuid
  rf_resource_uri :: string
  rf_status :: string
  rf_absolute_expires_at :: time
  rf_idle_expires_at :: time
  rf_last_rotated_at :: time
  rf_revoked_at :: "time option"
  rf_expired_at :: "time option"
  rf_reuse_detected_at :: "time option"
  rf_revoke_reason_code :: "string option"
  rf_version :: int

record OAuthRefreshToken =
  rt_id :: uuid
  rt_family_id :: uuid
  rt_token_hash :: string
  rt_pepper_version :: int
  rt_sequence :: int
  rt_issued_at :: time
  rt_expires_at :: time
  rt_consumed_at :: "time option"
  rt_revoked_at :: "time option"
  rt_replaced_by_id :: "uuid option"
  rt_reuse_detected_at :: "time option"

record ClientAssertionReplay =
  cp_id :: uuid
  cp_oauth_client_id :: uuid
  cp_endpoint_kind :: string
  cp_jti_hash :: string
  cp_audience :: string
  cp_issued_at :: time
  cp_expires_at :: time
  cp_consumed_at :: time

record TokenIssuanceAudit =
  ta_id :: uuid
  ta_grant_id :: uuid
  ta_authorization_code_id :: "uuid option"
  ta_authorization_code_hash :: "string option"
  ta_subject_ref :: string
  ta_client_id :: string
  ta_resource_uri :: string
  ta_audience :: string
  ta_scopes :: "string list"
  ta_jti_hash :: string
  ta_kid :: string
  ta_issued_at :: time
  ta_expires_at :: time
  ta_outcome :: string
  ta_request_correlation_hash :: "string option"

record InitialRefreshIssuance =
  ir_family :: OAuthRefreshFamily
  ir_token :: OAuthRefreshToken
  ir_client_id :: string
  ir_grant_not_after :: time
  ir_provider_expires_at :: time

record CreateBrokerTransactionInput =
  cx_oauth_client_id :: uuid
  cx_redirect_id :: uuid
  cx_state_hash :: string
  cx_state_pepper_version :: int
  cx_state_sealed :: string
  cx_state_key_version :: int
  cx_state_length :: int
  cx_provider_code_sealed :: "string option"
  cx_provider_code_key_version :: "int option"
  cx_pkce_challenge :: string
  cx_pkce_method :: string
  cx_requested_scopes :: "string list"
  cx_resource_uri :: string
  cx_audience :: string
  cx_broker_cookie_hash :: string
  cx_broker_cookie_pepper_version :: int
  cx_created_at :: time
  cx_expires_at :: time

record ClaimAuthorizationCodeInput =
  ci_code_hash :: string
  ci_oauth_client_id :: uuid
  ci_redirect_uri :: string
  ci_resource_uri :: string
  ci_audience :: string
  ci_code_verifier :: string
  ci_now :: time

record ConsumeBindings =
  cb_code :: OAuthAuthorizationCode
  cb_grant :: OAuthGrant
  cb_association :: ProviderSessionAssociation
  cb_now :: time

section \<open>Validators\<close>

text \<open>
  Validators run their checks in order and return the first failure: \<open>first_failure\<close> is that sequence.
\<close>

fun first_failure :: "id_error option list \<Rightarrow> id_error option" where
  "first_failure [] = None"
| "first_failure (c # cs) = (case c of Some e \<Rightarrow> Some e | None \<Rightarrow> first_failure cs)"

definition require :: "bool \<Rightarrow> string \<Rightarrow> string \<Rightarrow> id_error option" where
  "require ok field msg = (if ok then None else Some (IdInvalid field msg))"

definition valid_utf8 :: "string \<Rightarrow> bool" where
  "valid_utf8 s = (string_of_runes (runes_of s) = s)"

definition control_rune :: "rune \<Rightarrow> bool" where
  "control_rune r = (r < 0x20 \<or> r = 0x7f)"

definition validateBoundedText :: "string \<Rightarrow> string \<Rightarrow> nat \<Rightarrow> id_error option" where
  "validateBoundedText field s limit =
     (if s = [] \<or> \<not> valid_utf8 s \<or> limit < length s then invalidf field ''must be strict UTF-8, non-empty and bounded''
      else if list_ex control_rune (runes_of s) then invalidf field ''must not contain control characters''
      else None)"

definition base64url_rune :: "rune \<Rightarrow> bool" where
  "base64url_rune r = (65 \<le> r \<and> r \<le> 90 \<or> 97 \<le> r \<and> r \<le> 122 \<or> 48 \<le> r \<and> r \<le> 57 \<or> r = 95 \<or> r = 45)"

definition unreserved_rune :: "rune \<Rightarrow> bool" where
  "unreserved_rune r = (65 \<le> r \<and> r \<le> 90 \<or> 97 \<le> r \<and> r \<le> 122 \<or> 48 \<le> r \<and> r \<le> 57 \<or> r = 45 \<or> r = 46 \<or> r = 95 \<or> r = 126)"

definition validatePKCE :: "string \<Rightarrow> string \<Rightarrow> id_error option" where
  "validatePKCE challenge pkce_method =
     (if pkce_method \<noteq> ''S256'' \<or> length challenge \<noteq> 43 then invalidf ''pkce'' ''must be S256 base64url length 43''
      else if \<not> list_all base64url_rune (runes_of challenge) then invalidf ''pkce'' ''must be base64url''
      else None)"

fun canonical_loop :: "string \<Rightarrow> bool \<Rightarrow> string \<Rightarrow> string list \<Rightarrow> id_error option" where
  "canonical_loop field first prev [] = None"
| "canonical_loop field first prev (v # vs) =
     (case validateBoundedText field v 128 of
        Some e \<Rightarrow> Some e
      | None \<Rightarrow> if \<not> first \<and> v \<le> prev then invalidf field ''must be sorted and unique''
                else canonical_loop field False v vs)"

definition validateCanonicalArray :: "string \<Rightarrow> string list \<Rightarrow> id_error option" where
  "validateCanonicalArray field vals =
     (if length vals < 1 \<or> 32 < length vals then invalidf field ''must contain 1..32 values''
      else canonical_loop field True [] vals)"

definition ValidateCreateBrokerTransactionInput :: "CreateBrokerTransactionInput \<Rightarrow> id_error option" where
  "ValidateCreateBrokerTransactionInput c = first_failure
     [require (cx_oauth_client_id c \<noteq> uuid_nil \<and> cx_redirect_id c \<noteq> uuid_nil) ''registration'' ''must be present'',
      require (length (cx_state_hash c) = 32 \<and> length (cx_broker_cookie_hash c) = 32) ''hash'' ''must be 32 bytes'',
      require (0 < cx_state_pepper_version c \<and> 0 < cx_state_key_version c \<and> 0 < cx_broker_cookie_pepper_version c)
        ''version'' ''must be positive'',
      require (1 \<le> cx_state_length c \<and> cx_state_length c \<le> 1024 \<and> 30 \<le> length (cx_state_sealed c) \<and> length (cx_state_sealed c) \<le> 1053)
        ''state'' ''invalid sealed state bounds'',
      require ((cx_provider_code_sealed c = None) = (cx_provider_code_key_version c = None))
        ''provider_code'' ''ciphertext and key version must agree'',
      validatePKCE (cx_pkce_challenge c) (cx_pkce_method c),
      validateCanonicalArray ''requested_scopes'' (cx_requested_scopes c),
      validateBoundedText ''resource_uri'' (cx_resource_uri c) 2048,
      validateBoundedText ''audience'' (cx_audience c) 128,
      require (cx_created_at c \<noteq> zero_time \<and> cx_created_at c < cx_expires_at c \<and> cx_expires_at c \<le> cx_created_at c + 10 * minute)
        ''expires_at'' ''must be within ten minutes'']"

definition ValidateCanonicalScopes :: "string list \<Rightarrow> id_error option" where
  "ValidateCanonicalScopes scopes = validateCanonicalArray ''scopes'' scopes"

definition CanonicalScopes :: "string list \<Rightarrow> string list" where
  "CanonicalScopes scopes = sort scopes"

definition FormatScopes :: "string list \<Rightarrow> string" where
  "FormatScopes scopes = join '' '' (CanonicalScopes scopes)"

definition ValidateProviderMemberSessionID :: "string \<Rightarrow> id_error option" where
  "ValidateProviderMemberSessionID i =
     (if i = [] \<or> \<not> valid_utf8 i \<or> MaxProviderMemberSessionIDRunes < length (runes_of i) \<or> MaxProviderMemberSessionIDBytes < length i
      then invalidf ''provider_member_session_id'' ''must be non-empty UTF-8, <=255 runes and <=1024 bytes''
      else if list_ex control_rune (runes_of i)
      then invalidf ''provider_member_session_id'' ''must not contain control characters''
      else None)"

definition ValidateProviderSessionAssociation :: "ProviderSessionAssociation \<Rightarrow> id_error option" where
  "ValidateProviderSessionAssociation a = first_failure
     [require (pa_account_id a \<noteq> uuid_nil \<and> pa_stytch_mapping_id a \<noteq> uuid_nil) ''association'' ''IDs must be present'',
      require (pa_provider a = ''stytch_b2b'') ''provider'' ''must be stytch_b2b'',
      validateBoundedText ''provider_project_id'' (pa_provider_project_id a) 255,
      validateBoundedText ''provider_organization_id'' (pa_provider_organization_id a) 255,
      validateBoundedText ''provider_member_id'' (pa_provider_member_id a) 255,
      ValidateProviderMemberSessionID (pa_provider_member_session_id a)]"

definition ValidateAuthorizationCode :: "OAuthAuthorizationCode \<Rightarrow> id_error option" where
  "ValidateAuthorizationCode c = first_failure
     [require (length (ao_code_hash c) = 32 \<and> 0 < ao_pepper_version c) ''code_hash'' ''must be 32 bytes with positive pepper'',
      require (ao_issued_at c < ao_expires_at c \<and> ao_expires_at c \<le> ao_issued_at c + minute) ''expires_at'' ''must be <=60 seconds'',
      require (ao_consumed_at c = None) ''consumed_at'' ''IB1 must not persist or accept code consumption'',
      validatePKCE (ao_pkce_challenge c) (ao_pkce_method c),
      ValidateCanonicalScopes (ao_scopes c)]"

definition ValidateOAuthGrant :: "OAuthGrant \<Rightarrow> id_error option" where
  "ValidateOAuthGrant g = first_failure
     [require (gr_subject_class g = ''human'' \<and> gr_account_id g \<noteq> None \<and> gr_provider_session_association_id g \<noteq> None \<and>
         gr_service_principal_id g = None) ''grant'' ''only complete human grants are allowed in IB1'',
      require (gr_granted_at g < gr_not_after g) ''not_after'' ''must follow grant'',
      ValidateCanonicalScopes (gr_scopes g)]"

definition ValidatePublicClientID :: "(string \<Rightarrow> bool) \<Rightarrow> string \<Rightarrow> id_error option" where
  "ValidatePublicClientID uuid_parses clientID = first_failure
     [validateBoundedText ''client_id'' clientID MaxClientIDLen,
      require (\<not> uuid_parses clientID) ''client_id'' ''must not be an internal UUID'']"

definition ValidateClientAssertionReplay :: "ClientAssertionReplay \<Rightarrow> id_error option" where
  "ValidateClientAssertionReplay r = first_failure
     [require (cp_oauth_client_id r \<noteq> uuid_nil) ''oauth_client_id'' ''must be present'',
      require (cp_endpoint_kind r = AssertionEndpointToken \<or> cp_endpoint_kind r = AssertionEndpointRevocation)
        ''endpoint_kind'' ''must be token or revocation'',
      require (length (cp_jti_hash r) = 32) ''jti_hash'' ''must be 32 bytes'',
      validateBoundedText ''audience'' (cp_audience r) 2048,
      require (cp_issued_at r \<noteq> zero_time \<and> cp_issued_at r < cp_expires_at r \<and>
         cp_expires_at r \<le> cp_issued_at r + MaxAssertionReplayRetention) ''expires_at'' ''must be within assertion retention of iat'',
      (if cp_consumed_at r = zero_time then None else first_failure
         [require (cp_issued_at r - AssertionClockSkew \<le> cp_consumed_at r) ''consumed_at'' ''must be within assertion clock skew of iat'',
          require (cp_consumed_at r \<le> cp_expires_at r) ''expires_at'' ''must not precede consumed_at''])]"

definition ValidateInitialRefreshIssuance :: "(string \<Rightarrow> bool) \<Rightarrow> InitialRefreshIssuance \<Rightarrow> id_error option" where
  "ValidateInitialRefreshIssuance uuid_parses ir =
     (let f = ir_family ir; t = ir_token ir;
          rotated = (if rf_last_rotated_at f = zero_time then rt_issued_at t else rf_last_rotated_at f)
      in first_failure
     [ValidatePublicClientID uuid_parses (ir_client_id ir),
      require (rf_oauth_client_id f = uuid_nil \<or> ir_client_id ir \<noteq> rf_oauth_client_id f)
        ''client_id'' ''must not be the internal oauth_clients.id UUID'',
      require (rf_grant_id f \<noteq> uuid_nil \<and> rf_oauth_client_id f \<noteq> uuid_nil) ''family'' ''grant and client must be present'',
      validateBoundedText ''resource_uri'' (rf_resource_uri f) 2048,
      require (rf_status f = RefreshFamilyStatusActive) ''status'' ''initial family must be active'',
      require (rf_revoked_at f = None \<and> rf_expired_at f = None \<and> rf_reuse_detected_at f = None \<and> rf_revoke_reason_code f = None)
        ''status'' ''initial family must have no terminal timestamps'',
      require (rotated < rf_absolute_expires_at f \<and> rotated < rf_idle_expires_at f \<and> rf_idle_expires_at f \<le> rf_absolute_expires_at f)
        ''idle_expires_at'' ''must sit between last_rotated_at and absolute_expires_at'',
      require (rf_idle_expires_at f \<le> rotated + MaxRefreshIdle) ''idle_expires_at'' ''must be within the 14-day idle cap'',
      require (rf_absolute_expires_at f \<le> rotated + MaxRefreshAbsolute) ''absolute_expires_at'' ''must be within the 90-day absolute cap'',
      require (ir_grant_not_after ir = zero_time \<or> rf_absolute_expires_at f \<le> ir_grant_not_after ir)
        ''absolute_expires_at'' ''must not exceed grant not_after'',
      require (ir_provider_expires_at ir = zero_time \<or> rf_absolute_expires_at f \<le> ir_provider_expires_at ir)
        ''absolute_expires_at'' ''must not exceed provider expiry'',
      require (length (rt_token_hash t) = 32 \<and> 0 < rt_pepper_version t) ''token_hash'' ''must be 32 bytes with positive pepper'',
      require (rt_sequence t = 0) ''sequence'' ''initial token sequence must be 0'',
      require (rt_consumed_at t = None \<and> rt_revoked_at t = None \<and> rt_replaced_by_id t = None \<and> rt_reuse_detected_at t = None)
        ''token'' ''initial token must be the current unconsumed token'',
      require (rt_issued_at t < rt_expires_at t) ''expires_at'' ''must follow issued_at'',
      require (rt_expires_at t = rf_idle_expires_at f \<or> rt_expires_at t \<le> rf_idle_expires_at f)
        ''expires_at'' ''must not exceed idle expiry''])"

definition ValidateTokenIssuanceAudit :: "(string \<Rightarrow> bool) \<Rightarrow> TokenIssuanceAudit \<Rightarrow> id_error option" where
  "ValidateTokenIssuanceAudit uuid_parses a = first_failure
     [require (ta_grant_id a \<noteq> uuid_nil) ''grant_id'' ''must be present'',
      require (length (ta_jti_hash a) = 32) ''jti_hash'' ''must be 32 bytes'',
      require (ta_authorization_code_id a = None \<or> (case ta_authorization_code_hash a of Some h \<Rightarrow> length h = 32 | None \<Rightarrow> False))
        ''authorization_code_hash'' ''must be copied when authorization_code_id is set'',
      require (case ta_authorization_code_hash a of None \<Rightarrow> True | Some h \<Rightarrow> length h = 32) ''authorization_code_hash'' ''must be 32 bytes'',
      ValidatePublicClientID uuid_parses (ta_client_id a),
      require (has_prefix (ta_subject_ref a) ''identity:'') ''subject_ref'' ''must be identity:<account-id>'',
      validateBoundedText ''subject_ref'' (ta_subject_ref a) 160,
      validateBoundedText ''resource_uri'' (ta_resource_uri a) 2048,
      validateBoundedText ''audience'' (ta_audience a) 128,
      ValidateCanonicalScopes (ta_scopes a),
      validateBoundedText ''kid'' (ta_kid a) 128,
      require (ta_outcome a = IssuanceOutcomeCommitted) ''outcome'' ''must be committed'',
      require (ta_issued_at a < ta_expires_at a \<and> ta_expires_at a \<le> ta_issued_at a + MaxAccessTTL) ''expires_at'' ''must be within 15 minutes'',
      require (case ta_request_correlation_hash a of None \<Rightarrow> True | Some h \<Rightarrow> length h = 32)
        ''request_correlation_hash'' ''must be 32 bytes'']"

definition validateClaimNow :: "time \<Rightarrow> id_error option" where
  "validateClaimNow now = require (now \<noteq> zero_time) ''now'' ''must be present''"

definition validateCodeVerifier :: "string \<Rightarrow> id_error option" where
  "validateCodeVerifier verifier =
     (if length verifier < 43 \<or> 128 < length verifier \<or> \<not> valid_utf8 verifier
      then invalidf ''code_verifier'' ''must be 43..128 RFC 7636 unreserved characters''
      else if \<not> list_all unreserved_rune (runes_of verifier) then invalidf ''code_verifier'' ''must be RFC 7636 unreserved''
      else None)"

definition ValidateClaimAuthorizationCode :: "ClaimAuthorizationCodeInput \<Rightarrow> id_error option" where
  "ValidateClaimAuthorizationCode c = first_failure
     [require (length (ci_code_hash c) = 32 \<and> ci_oauth_client_id c \<noteq> uuid_nil) ''code_hash'' ''must be 32 bytes bound to a client'',
      validateClaimNow (ci_now c),
      validateBoundedText ''redirect_uri'' (ci_redirect_uri c) 2048,
      validateBoundedText ''resource_uri'' (ci_resource_uri c) 2048,
      (if ci_audience c = [] then None else validateBoundedText ''audience'' (ci_audience c) 128),
      validateCodeVerifier (ci_code_verifier c)]"

definition VerifyS256PKCE :: "(string \<Rightarrow> string) \<Rightarrow> string \<Rightarrow> string \<Rightarrow> id_error option" where
  "VerifyS256PKCE s256 verifier challenge = first_failure
     [validateCodeVerifier verifier, validatePKCE challenge ''S256'',
      require (s256 verifier = challenge) ''code_verifier'' ''does not match stored S256 challenge'']"

definition ValidateConsumedAuthorizationCode :: "OAuthAuthorizationCode \<Rightarrow> id_error option" where
  "ValidateConsumedAuthorizationCode c = first_failure
     [require (length (ao_code_hash c) = 32 \<and> 0 < ao_pepper_version c) ''code_hash'' ''must be 32 bytes with positive pepper'',
      require (ao_issued_at c < ao_expires_at c \<and> ao_expires_at c \<le> ao_issued_at c + minute) ''expires_at'' ''must be <=60 seconds'',
      validatePKCE (ao_pkce_challenge c) (ao_pkce_method c),
      ValidateCanonicalScopes (ao_scopes c)]"

definition BindingMatches :: "(string \<Rightarrow> string) \<Rightarrow> OAuthAuthorizationCode \<Rightarrow> ClaimAuthorizationCodeInput \<Rightarrow> id_error option" where
  "BindingMatches s256 code c = first_failure
     [require (ao_oauth_client_id code = ci_oauth_client_id c) ''oauth_client_id'' ''does not match stored code'',
      require (ao_redirect_uri code = ci_redirect_uri c) ''redirect_uri'' ''does not match stored code binding'',
      require (ao_resource_uri code = ci_resource_uri c) ''resource_uri'' ''does not match stored code binding'',
      require (ao_audience code = ci_audience c) ''audience'' ''does not match stored code binding'',
      VerifyS256PKCE s256 (ci_code_verifier c) (ao_pkce_challenge code)]"

definition ValidateConsumeBindings ::
  "(string \<Rightarrow> string) \<Rightarrow> ConsumeBindings \<Rightarrow> ClaimAuthorizationCodeInput \<Rightarrow> id_error option" where
  "ValidateConsumeBindings s256 b claim =
     (let code = cb_code b; g = cb_grant b; a = cb_association b in first_failure
     [BindingMatches s256 code claim,
      ValidateOAuthGrant g,
      require (gr_id g = ao_grant_id code) ''grant_id'' ''does not match stored code'',
      require (gr_oauth_client_id g = ci_oauth_client_id claim \<and> gr_oauth_client_id g = ao_oauth_client_id code)
        ''oauth_client_id'' ''does not match stored grant'',
      require (gr_resource_uri g = ci_resource_uri claim \<and> gr_audience g = ci_audience claim)
        ''resource_uri'' ''does not match stored grant binding'',
      require (gr_status g = ''active'') ''grant'' ''must be active'',
      validateClaimNow (cb_now b),
      require (cb_now b < gr_not_after g) ''grant'' ''must not be expired'',
      require (gr_provider_session_association_id g = Some (pa_id a)) ''provider'' ''grant must reference the active provider session'',
      ValidateProviderSessionAssociation a,
      require (pa_status a = ''active'') ''provider'' ''must be an active provider session'',
      require (gr_account_id g = Some (pa_account_id a)) ''provider'' ''association account must match the grant''])"

definition HumanSubjectRef :: "uuid \<Rightarrow> string" where
  "HumanSubjectRef accountID = ''identity:'' @ accountID"

lemma first_failure_None [simp]: "first_failure cs = None \<longleftrightarrow> (\<forall>c \<in> set cs. c = None)"
  by (induction cs) (auto split: option.split)

lemma require_None [simp]: "require ok f m = None \<longleftrightarrow> ok"
  by (simp add: require_def)

end
