(* ===== verification/Identity_Refresh.thy ===== *)
theory Identity_Refresh
  imports Identity_Model
begin

text \<open>
  Refresh-token families (\<^verbatim>\<open>repo/refresh.go\<close> and the families of \<^verbatim>\<open>repo/oauth_token.go\<close>): creation with an authorization
  code, rotation on every redemption, detection of a reused token, expiry and revocation.

  A statement that would violate a \<^verbatim>\<open>CHECK\<close>, a unique index or a foreign key of the tables fails and aborts its transaction, so
  operations return an error together with the tables as the transaction left them; the caller commits or rolls back.
  The constraints are those of migrations 00005 and 00007.  Of accounts and provider mappings, which other parts of the service keep, the
  tables hold the identifiers that foreign keys refer to.  That \<^verbatim>\<open>replaced_by_id\<close> is unique and refers to a row needs no check: the rotation writes the
  identifier of the row it has just inserted.
\<close>

section \<open>Tables and constraints\<close>

record id_db =
  id_clients :: "OAuthClient list"
  id_redirects :: "OAuthClientRedirect list"
  id_associations :: "ProviderSessionAssociation list"
  id_grants :: "OAuthGrant list"
  id_codes :: "OAuthAuthorizationCode list"
  id_families :: "OAuthRefreshFamily list"
  id_tokens :: "OAuthRefreshToken list"
  id_replays :: "ClientAssertionReplay list"
  id_audits :: "TokenIssuanceAudit list"
  id_signing_kids :: "string list"
  id_keys :: "OAuthClientKey list"
  id_brokers :: "BrokerTransaction list"
  id_accounts :: "uuid list"
  id_mappings :: "uuid list"

definition family_lifetime_ck :: "OAuthRefreshFamily \<Rightarrow> bool" where
  "family_lifetime_ck f \<longleftrightarrow>
     rf_status f \<in> {''active'', ''revoked'', ''expired'', ''reuse_detected''} \<and>
     rf_last_rotated_at f < rf_absolute_expires_at f \<and> rf_last_rotated_at f < rf_idle_expires_at f \<and>
     rf_idle_expires_at f \<le> rf_absolute_expires_at f \<and>
     rf_idle_expires_at f \<le> rf_last_rotated_at f + MaxRefreshIdle \<and>
     rf_absolute_expires_at f \<le> rf_last_rotated_at f + MaxRefreshAbsolute"

definition family_state_ck :: "OAuthRefreshFamily \<Rightarrow> bool" where
  "family_state_ck f \<longleftrightarrow>
     (rf_status f = ''active'' \<and> rf_revoked_at f = None \<and> rf_expired_at f = None \<and> rf_reuse_detected_at f = None \<and> rf_revoke_reason_code f = None) \<or>
     (rf_status f = ''revoked'' \<and> rf_revoked_at f \<noteq> None \<and> rf_expired_at f = None \<and> rf_reuse_detected_at f = None \<and> rf_revoke_reason_code f \<noteq> None) \<or>
     (rf_status f = ''expired'' \<and> rf_revoked_at f = None \<and> rf_expired_at f \<noteq> None \<and> rf_reuse_detected_at f = None \<and> rf_revoke_reason_code f \<noteq> None) \<or>
     (rf_status f = ''reuse_detected'' \<and> rf_revoked_at f \<noteq> None \<and> rf_expired_at f = None \<and> rf_reuse_detected_at f \<noteq> None \<and> rf_revoke_reason_code f \<noteq> None)"

definition family_ok :: "OAuthRefreshFamily \<Rightarrow> bool" where
  "family_ok f \<longleftrightarrow> family_lifetime_ck f \<and> family_state_ck f"

definition live :: "OAuthRefreshToken \<Rightarrow> bool" where
  "live t \<longleftrightarrow> rt_consumed_at t = None \<and> rt_revoked_at t = None"

definition after :: "time option \<Rightarrow> time \<Rightarrow> bool" where
  "after at_opt start = (case at_opt of None \<Rightarrow> True | Some x \<Rightarrow> start \<le> x)"

definition token_ok :: "OAuthRefreshToken \<Rightarrow> bool" where
  "token_ok t \<longleftrightarrow>
     length (rt_token_hash t) = 32 \<and> 0 < rt_pepper_version t \<and> 0 \<le> rt_sequence t \<and> rt_issued_at t < rt_expires_at t \<and>
     rt_replaced_by_id t \<noteq> Some (rt_id t) \<and>
     ((rt_consumed_at t = None \<and> rt_revoked_at t = None \<and> rt_replaced_by_id t = None \<and> rt_reuse_detected_at t = None) \<or>
      (rt_consumed_at t \<noteq> None \<and> rt_revoked_at t = None \<and> rt_replaced_by_id t \<noteq> None) \<or>
      (rt_consumed_at t = None \<and> rt_revoked_at t \<noteq> None \<and> rt_replaced_by_id t = None \<and> rt_reuse_detected_at t = None)) \<and>
     after (rt_consumed_at t) (rt_issued_at t) \<and> after (rt_revoked_at t) (rt_issued_at t) \<and>
     (case rt_reuse_detected_at t of None \<Rightarrow> True
      | Some x \<Rightarrow> rt_replaced_by_id t \<noteq> None \<and> (case rt_consumed_at t of None \<Rightarrow> False | Some c \<Rightarrow> c \<le> x))"

definition grant_ok :: "OAuthGrant \<Rightarrow> bool" where
  "grant_ok g \<longleftrightarrow> gr_subject_class g \<in> {''human'', ''service''} \<and> gr_status g \<in> {''active'', ''revoked'', ''expired''} \<and>
     ((gr_subject_class g = ''human'' \<and> gr_account_id g \<noteq> None \<and> gr_service_principal_id g = None \<and> gr_provider_session_association_id g \<noteq> None) \<or>
      (gr_subject_class g = ''service'' \<and> gr_account_id g = None \<and> gr_service_principal_id g \<noteq> None \<and> gr_provider_session_association_id g = None)) \<and>
     gr_granted_at g < gr_not_after g \<and>
     ((gr_status g = ''active'' \<and> gr_revoked_at g = None \<and> gr_revoke_reason_code g = None) \<or>
      (gr_status g \<noteq> ''active'' \<and> gr_revoked_at g \<noteq> None \<and> gr_revoke_reason_code g \<noteq> None))"

definition one_live :: "OAuthRefreshToken list \<Rightarrow> bool" where
  "one_live toks = distinct (map rt_family_id (filter live toks))"

definition token_clash :: "OAuthRefreshToken \<Rightarrow> OAuthRefreshToken \<Rightarrow> bool" where
  "token_clash t x \<longleftrightarrow> rt_id x = rt_id t \<or> rt_token_hash x = rt_token_hash t \<or>
     (rt_family_id x = rt_family_id t \<and> rt_sequence x = rt_sequence t) \<or>
     (live t \<and> live x \<and> rt_family_id x = rt_family_id t)"

definition checked_update :: "string \<Rightarrow> ('r \<Rightarrow> bool) \<Rightarrow> ('r \<Rightarrow> bool) \<Rightarrow> ('r \<Rightarrow> 'r) \<Rightarrow> 'r list \<Rightarrow> id_error + 'r list" where
  "checked_update name ok p f rows =
     (if list_all (\<lambda>r. p r \<longrightarrow> ok (f r)) rows then Inr (update_where p f rows) else Inl (IdCheck name))"

definition update_families :: "(OAuthRefreshFamily \<Rightarrow> bool) \<Rightarrow> (OAuthRefreshFamily \<Rightarrow> OAuthRefreshFamily) \<Rightarrow> id_db \<Rightarrow> id_error + id_db" where
  "update_families p f db =
     map_sum (\<lambda>e. e) (\<lambda>rows. db\<lparr>id_families := rows\<rparr>) (checked_update ''oauth_refresh_families'' family_ok p f (id_families db))"

definition update_grants :: "(OAuthGrant \<Rightarrow> bool) \<Rightarrow> (OAuthGrant \<Rightarrow> OAuthGrant) \<Rightarrow> id_db \<Rightarrow> id_error + id_db" where
  "update_grants p f db =
     map_sum (\<lambda>e. e) (\<lambda>rows. db\<lparr>id_grants := rows\<rparr>) (checked_update ''oauth_grants'' grant_ok p f (id_grants db))"

definition update_tokens :: "(OAuthRefreshToken \<Rightarrow> bool) \<Rightarrow> (OAuthRefreshToken \<Rightarrow> OAuthRefreshToken) \<Rightarrow> id_db \<Rightarrow> id_error + id_db" where
  "update_tokens p f db =
     (case checked_update ''oauth_refresh_tokens'' token_ok p f (id_tokens db) of
        Inl e \<Rightarrow> Inl e
      | Inr rows \<Rightarrow> if one_live rows then Inr (db\<lparr>id_tokens := rows\<rparr>) else Inl (IdUnique ''oauth_refresh_tokens_one_live_uq''))"

definition insert_token :: "OAuthRefreshToken \<Rightarrow> id_db \<Rightarrow> id_error + id_db" where
  "insert_token t db =
     (if \<not> token_ok t then Inl (IdCheck ''oauth_refresh_tokens'')
      else if list_ex (token_clash t) (id_tokens db) then Inl (IdUnique ''oauth_refresh_tokens'')
      else if rt_family_id t \<notin> keys rf_id (id_families db) then Inl (IdForeignKey ''oauth_refresh_tokens_family_fk'')
      else Inr (db\<lparr>id_tokens := id_tokens db @ [t]\<rparr>))"

definition insert_family :: "OAuthRefreshFamily \<Rightarrow> id_db \<Rightarrow> id_error + id_db" where
  "insert_family f db =
     (if \<not> family_ok f then Inl (IdCheck ''oauth_refresh_families'')
      else if rf_id f \<in> keys rf_id (id_families db) then Inl (IdUnique ''oauth_refresh_families'')
      else if rf_grant_id f \<notin> keys gr_id (id_grants db) \<or> rf_oauth_client_id f \<notin> keys oc_id (id_clients db)
      then Inl (IdForeignKey ''oauth_refresh_families'')
      else Inr (db\<lparr>id_families := id_families db @ [f]\<rparr>))"

text \<open>
  The deferred trigger \<^verbatim>\<open>identity_refresh_family_lifecycle\<close>: when a transaction commits, an active family has exactly one live
  token and a closed one none.
\<close>

definition lifecycle_ok :: "id_db \<Rightarrow> bool" where
  "lifecycle_ok db \<longleftrightarrow> list_all (\<lambda>f. length (filter (\<lambda>t. live t \<and> rt_family_id t = rf_id f) (id_tokens db)) =
      (if rf_status f = ''active'' then 1 else 0)) (id_families db)"

section \<open>Grants and provider sessions\<close>

definition GetOAuthGrant :: "id_db \<Rightarrow> uuid \<Rightarrow> id_error + OAuthGrant" where
  "GetOAuthGrant db i =
     (if i = uuid_nil then Inl (IdInvalid [] ''nil id'')
      else case List.find (\<lambda>g. gr_id g = i) (id_grants db) of None \<Rightarrow> Inl IdNotFound | Some g \<Rightarrow> Inr g)"

definition GetProviderSessionAssociation :: "id_db \<Rightarrow> uuid \<Rightarrow> id_error + ProviderSessionAssociation" where
  "GetProviderSessionAssociation db i =
     (if i = uuid_nil then Inl (IdInvalid [] ''nil id'')
      else case List.find (\<lambda>a. pa_id a = i) (id_associations db) of None \<Rightarrow> Inl IdNotFound | Some a \<Rightarrow> Inr a)"

definition LoadConsumeBindings :: "id_db \<Rightarrow> uuid \<Rightarrow> id_error + (OAuthGrant \<times> ProviderSessionAssociation)" where
  "LoadConsumeBindings db grantID =
     (case GetOAuthGrant db grantID of
        Inl e \<Rightarrow> Inl e
      | Inr g \<Rightarrow>
          (case gr_provider_session_association_id g of
             None \<Rightarrow> Inl (IdInvalid [] ''grant missing provider session'')
           | Some i \<Rightarrow> (case GetProviderSessionAssociation db i of Inl e \<Rightarrow> Inl e | Inr a \<Rightarrow> Inr (g, a))))"

section \<open>Opening a family\<close>

definition createInitialRefreshFamilyTx ::
  "uuid \<Rightarrow> uuid \<Rightarrow> InitialRefreshIssuance \<Rightarrow> id_db \<Rightarrow> id_error + ((OAuthRefreshFamily \<times> OAuthRefreshToken) \<times> id_db)" where
  "createInitialRefreshFamilyTx family_id token_id ir db =
     (let family = (ir_family ir)\<lparr>rf_id := family_id, rf_revoked_at := None, rf_expired_at := None,
            rf_reuse_detected_at := None, rf_revoke_reason_code := None, rf_version := 0\<rparr>;
          token = (ir_token ir)\<lparr>rt_id := token_id, rt_family_id := family_id, rt_consumed_at := None, rt_revoked_at := None,
            rt_replaced_by_id := None, rt_reuse_detected_at := None\<rparr>
      in case insert_family family db of
           Inl e \<Rightarrow> Inl e
         | Inr db1 \<Rightarrow>
             (case insert_token token db1 of
                Inl e \<Rightarrow> Inl e
              | Inr db2 \<Rightarrow> Inr ((family, token), db2)))"

definition CreateInitialRefreshFamily ::
  "(string \<Rightarrow> bool) \<Rightarrow> uuid \<Rightarrow> uuid \<Rightarrow> InitialRefreshIssuance \<Rightarrow> id_db \<Rightarrow> id_error + ((OAuthRefreshFamily \<times> OAuthRefreshToken) \<times> id_db)" where
  "CreateInitialRefreshFamily uuid_parses family_id token_id ir db =
     (case ValidateInitialRefreshIssuance uuid_parses ir of
        Some e \<Rightarrow> Inl e
      | None \<Rightarrow> createInitialRefreshFamilyTx family_id token_id ir db)"

section \<open>Closing a family\<close>

definition revoke_live :: "uuid \<Rightarrow> time \<Rightarrow> id_db \<Rightarrow> id_error + id_db" where
  "revoke_live familyID now = update_tokens (\<lambda>t. rt_family_id t = familyID \<and> rt_consumed_at t = None \<and> rt_revoked_at t = None)
     (\<lambda>t. t\<lparr>rt_revoked_at := Some now\<rparr>)"

definition close_grant :: "string \<Rightarrow> uuid \<Rightarrow> string \<Rightarrow> time \<Rightarrow> id_db \<Rightarrow> id_error + id_db" where
  "close_grant status familyID reason now db =
     update_grants (\<lambda>g. gr_status g = ''active'' \<and> list_ex (\<lambda>f. rf_id f = familyID \<and> rf_grant_id f = gr_id g) (id_families db))
       (\<lambda>g. g\<lparr>gr_status := status, gr_revoked_at := Some now, gr_revoke_reason_code := Some reason, gr_version := gr_version g + 1\<rparr>) db"

definition then_do :: "'e + 's \<Rightarrow> ('s \<Rightarrow> 'e + 's) \<Rightarrow> 'e + 's" where
  "then_do r k = (case r of Inl e \<Rightarrow> Inl e | Inr s \<Rightarrow> k s)"

definition markRefreshExpired :: "uuid \<Rightarrow> time \<Rightarrow> id_db \<Rightarrow> id_error + id_db" where
  "markRefreshExpired familyID now db =
     then_do (then_do (revoke_live familyID now db)
       (update_families (\<lambda>f. rf_id f = familyID \<and> rf_status f = ''active'')
          (\<lambda>f. f\<lparr>rf_status := ''expired'', rf_expired_at := Some now, rf_revoke_reason_code := Some ''expired'', rf_version := rf_version f + 1\<rparr>)))
       (close_grant ''expired'' familyID ''expired'' now)"

definition markRefreshReuse :: "uuid \<Rightarrow> time \<Rightarrow> id_db \<Rightarrow> id_error + id_db" where
  "markRefreshReuse familyID now db =
     then_do (then_do (revoke_live familyID now db)
       (update_families (\<lambda>f. rf_id f = familyID)
          (\<lambda>f. f\<lparr>rf_status := ''reuse_detected'', rf_revoked_at := Some now, rf_reuse_detected_at := Some now,
                  rf_revoke_reason_code := Some ''refresh_reuse'', rf_version := rf_version f + 1\<rparr>)))
       (close_grant ''revoked'' familyID ''refresh_reuse'' now)"

definition revokeInitialRefreshFamilyTx :: "uuid \<Rightarrow> string \<Rightarrow> time \<Rightarrow> id_db \<Rightarrow> id_error + id_db" where
  "revokeInitialRefreshFamilyTx familyID reason now db =
     then_do (then_do (revoke_live familyID now db)
       (update_families (\<lambda>f. rf_id f = familyID \<and> rf_status f = ''active'')
          (\<lambda>f. f\<lparr>rf_status := ''revoked'', rf_revoked_at := Some now, rf_revoke_reason_code := Some reason, rf_version := rf_version f + 1\<rparr>)))
       (close_grant ''revoked'' familyID reason now)"

definition or_clock :: "time \<Rightarrow> time \<Rightarrow> time" where
  "or_clock clock now = (if now = zero_time then clock else now)"

definition RevokeInitialRefreshFamily :: "time \<Rightarrow> uuid \<Rightarrow> string \<Rightarrow> time \<Rightarrow> id_db \<Rightarrow> id_error + id_db" where
  "RevokeInitialRefreshFamily clock familyID reason now db =
     (if familyID = uuid_nil then Inl (IdInvalid [] ''nil family'')
      else revokeInitialRefreshFamilyTx familyID reason (or_clock clock now) db)"

definition family_of :: "id_db \<Rightarrow> OAuthRefreshToken \<Rightarrow> OAuthRefreshFamily option" where
  "family_of db t = List.find (\<lambda>f. rf_id f = rt_family_id t) (id_families db)"

definition RevokeOwnedInitialRefresh :: "time \<Rightarrow> string list \<Rightarrow> uuid \<Rightarrow> string \<Rightarrow> time \<Rightarrow> id_db \<Rightarrow> id_error + id_db" where
  "RevokeOwnedInitialRefresh clock hashes clientID reason now db =
     (if clientID = uuid_nil then Inl (IdInvalid [] ''nil client'')
      else if hashes = [] then Inr db
      else case List.find (\<lambda>t. rt_token_hash t \<in> set hashes \<and> family_of db t \<noteq> None) (id_tokens db) of
        None \<Rightarrow> Inr db
      | Some t \<Rightarrow>
          (case family_of db t of
             None \<Rightarrow> Inr db
           | Some f \<Rightarrow> if rf_oauth_client_id f \<noteq> clientID then Inr db
                       else revokeInitialRefreshFamilyTx (rf_id f) reason (or_clock clock now) db))"

section \<open>Redeeming a token\<close>

record RefreshRedemption =
  rr_family :: OAuthRefreshFamily
  rr_previous :: OAuthRefreshToken
  rr_next :: OAuthRefreshToken
  rr_grant :: OAuthGrant
  rr_association :: ProviderSessionAssociation

definition presented :: "id_db \<Rightarrow> uuid \<Rightarrow> string \<Rightarrow> string \<Rightarrow> (OAuthRefreshToken \<times> OAuthRefreshFamily) option" where
  "presented db clientID resource h =
     (case List.find (\<lambda>t. rt_token_hash t = h \<and>
              (case family_of db t of None \<Rightarrow> False | Some f \<Rightarrow> rf_oauth_client_id f = clientID \<and> rf_resource_uri f = resource))
            (id_tokens db) of
        None \<Rightarrow> None
      | Some t \<Rightarrow> map_option (\<lambda>f. (t, f)) (family_of db t))"

fun first_presented :: "id_db \<Rightarrow> uuid \<Rightarrow> string \<Rightarrow> string list \<Rightarrow> (OAuthRefreshToken \<times> OAuthRefreshFamily) option" where
  "first_presented db clientID resource [] = None"
| "first_presented db clientID resource (h # hs) =
     (case presented db clientID resource h of Some tf \<Rightarrow> Some tf | None \<Rightarrow> first_presented db clientID resource hs)"

definition validateRefreshScope :: "string list \<Rightarrow> string list \<Rightarrow> id_error option" where
  "validateRefreshScope granted requested =
     (if requested = [] then None
      else if list_all (\<lambda>s. s \<in> set granted) requested then None
      else Some IdScopeWidening)"

definition expired_at :: "time \<Rightarrow> OAuthRefreshToken \<Rightarrow> OAuthRefreshFamily \<Rightarrow> bool" where
  "expired_at now t f \<longleftrightarrow> \<not> now < rt_expires_at t \<or> \<not> now < rf_idle_expires_at f \<or> \<not> now < rf_absolute_expires_at f"

definition successor :: "uuid \<Rightarrow> OAuthRefreshFamily \<Rightarrow> string \<Rightarrow> int \<Rightarrow> OAuthRefreshToken \<Rightarrow> time \<Rightarrow> OAuthRefreshToken" where
  "successor new_id family nextHash pepper prev now =
     \<lparr>rt_id = new_id, rt_family_id = rf_id family, rt_token_hash = nextHash, rt_pepper_version = pepper,
      rt_sequence = rt_sequence prev + 1, rt_issued_at = now, rt_expires_at = rf_idle_expires_at family,
      rt_consumed_at = None, rt_revoked_at = Some now, rt_replaced_by_id = None, rt_reuse_detected_at = None\<rparr>"

definition rotate_token :: "OAuthRefreshToken \<Rightarrow> OAuthRefreshToken \<Rightarrow> uuid \<Rightarrow> time \<Rightarrow> id_db \<Rightarrow> id_error + id_db" where
  "rotate_token prev next_tok family_id now db =
     then_do (then_do (then_do (insert_token next_tok db)
       (update_tokens (\<lambda>t. rt_id t = rt_id prev \<and> rt_consumed_at t = None \<and> rt_revoked_at t = None)
          (\<lambda>t. t\<lparr>rt_consumed_at := Some now, rt_replaced_by_id := Some (rt_id next_tok)\<rparr>)))
       (update_tokens (\<lambda>t. rt_id t = rt_id next_tok) (\<lambda>t. t\<lparr>rt_revoked_at := None\<rparr>)))
       (update_families (\<lambda>f. rf_id f = family_id)
          (\<lambda>f. f\<lparr>rf_last_rotated_at := now, rf_idle_expires_at := min (now + MaxRefreshIdle) (rf_absolute_expires_at f),
                  rf_version := rf_version f + 1\<rparr>))"

definition redeem_arguments_ok :: "uuid \<Rightarrow> string list \<Rightarrow> string \<Rightarrow> string \<Rightarrow> int \<Rightarrow> time \<Rightarrow> bool" where
  "redeem_arguments_ok clientID hashes resource nextHash pepper now \<longleftrightarrow>
     clientID \<noteq> uuid_nil \<and> hashes \<noteq> [] \<and> resource \<noteq> [] \<and> length nextHash = 32 \<and> 0 < pepper \<and> now \<noteq> zero_time"

definition refuse_redemption :: "OAuthRefreshToken \<Rightarrow> OAuthRefreshFamily \<Rightarrow> time \<Rightarrow> id_db \<Rightarrow> (id_error + RefreshRedemption) \<times> id_db" where
  "refuse_redemption prev family now db =
     (let closed = (if rt_consumed_at prev \<noteq> None \<or> rt_revoked_at prev \<noteq> None then markRefreshReuse (rf_id family) now db
                    else if expired_at now prev family then markRefreshExpired (rf_id family) now db
                    else Inr db)
      in case closed of Inl e \<Rightarrow> (Inl e, db) | Inr db' \<Rightarrow> (Inl (IdConflict ''refresh token''), db'))"

definition RedeemRefreshToken ::
  "uuid \<Rightarrow> string list \<Rightarrow> uuid \<Rightarrow> string \<Rightarrow> string list \<Rightarrow> string \<Rightarrow> int \<Rightarrow> time \<Rightarrow> id_db \<Rightarrow> (id_error + RefreshRedemption) \<times> id_db" where
  "RedeemRefreshToken new_id hashes clientID resource requested nextHash pepper now db =
     (if \<not> redeem_arguments_ok clientID hashes resource nextHash pepper now then (Inl (IdInvalid [] []), db)
      else case first_presented db clientID resource hashes of
        None \<Rightarrow> (Inl IdNotFound, db)
      | Some (prev, family) \<Rightarrow>
      case GetOAuthGrant db (rf_grant_id family) of
        Inl e \<Rightarrow> (Inl e, db)
      | Inr grant \<Rightarrow>
      if gr_status grant \<noteq> ''active'' \<or> rf_status family \<noteq> RefreshFamilyStatusActive \<or> rt_consumed_at prev \<noteq> None \<or>
         rt_revoked_at prev \<noteq> None \<or> expired_at now prev family
      then refuse_redemption prev family now db
      else case validateRefreshScope (gr_scopes grant) requested of
        Some e \<Rightarrow> (Inl e, db)
      | None \<Rightarrow>
      case LoadConsumeBindings db (gr_id grant) of
        Inl e \<Rightarrow> (Inl e, db)
      | Inr (_, assoc) \<Rightarrow>
      let next_tok = successor new_id family nextHash pepper prev now in
      case rotate_token prev next_tok (rf_id family) now db of
        Inl e \<Rightarrow> (Inl e, db)
      | Inr db' \<Rightarrow> (Inr \<lparr>rr_family = family, rr_previous = prev, rr_next = next_tok, rr_grant = grant, rr_association = assoc\<rparr>, db'))"

end
