(* ===== verification/Identity_Refresh_Laws.thy ===== *)
theory Identity_Refresh_Laws
  imports Identity_Refresh
begin

text \<open>
  What holds of refresh-token families.  The tables keep their constraints, among them exactly one live token per
  active family, so the deferred trigger never fires; every operation refines an abstract machine in which a family is a current
  token and a set of spent ones; from the machine it follows that a token is redeemed at most once, and that
  presenting a spent token closes the family for good.
\<close>

section \<open>The effect of a statement\<close>

lemma then_do_Inr: "then_do r k = Inr s \<longleftrightarrow> (\<exists>m. r = Inr m \<and> k m = Inr s)"
  by (cases r) (simp_all add: then_do_def)

lemma checked_update_Inr:
  "checked_update n ok p f rows = Inr rows' \<longleftrightarrow> rows' = update_where p f rows \<and> (\<forall>r \<in> set rows. p r \<longrightarrow> ok (f r))"
  by (auto simp: checked_update_def list_all_iff)

lemma update_families_Inr:
  "update_families p f db = Inr db' \<longleftrightarrow>
     db' = db\<lparr>id_families := update_where p f (id_families db)\<rparr> \<and> (\<forall>r \<in> set (id_families db). p r \<longrightarrow> family_ok (f r))"
  by (cases "checked_update ''oauth_refresh_families'' family_ok p f (id_families db)")
    (auto simp: update_families_def checked_update_def list_all_iff split: if_splits)

lemma update_grants_Inr:
  "update_grants p f db = Inr db' \<longleftrightarrow>
     db' = db\<lparr>id_grants := update_where p f (id_grants db)\<rparr> \<and> (\<forall>r \<in> set (id_grants db). p r \<longrightarrow> grant_ok (f r))"
  by (cases "checked_update ''oauth_grants'' grant_ok p f (id_grants db)")
    (auto simp: update_grants_def checked_update_def list_all_iff split: if_splits)

lemma update_tokens_Inr:
  "update_tokens p f db = Inr db' \<longleftrightarrow>
     db' = db\<lparr>id_tokens := update_where p f (id_tokens db)\<rparr> \<and> (\<forall>r \<in> set (id_tokens db). p r \<longrightarrow> token_ok (f r)) \<and>
     one_live (update_where p f (id_tokens db))"
  by (auto simp: update_tokens_def checked_update_def list_all_iff split: sum.splits if_splits)

lemma insert_token_Inr:
  "insert_token t db = Inr db' \<longleftrightarrow> db' = db\<lparr>id_tokens := id_tokens db @ [t]\<rparr> \<and> token_ok t \<and>
     (\<forall>x \<in> set (id_tokens db). \<not> token_clash t x) \<and> rt_family_id t \<in> keys rf_id (id_families db)"
  by (auto simp: insert_token_def list_ex_iff split: if_splits)

lemma insert_family_Inr:
  "insert_family f db = Inr db' \<longleftrightarrow> db' = db\<lparr>id_families := id_families db @ [f]\<rparr> \<and> family_ok f \<and>
     rf_id f \<notin> keys rf_id (id_families db) \<and> rf_grant_id f \<in> keys gr_id (id_grants db) \<and>
     rf_oauth_client_id f \<in> keys oc_id (id_clients db)"
  by (auto simp: insert_family_def split: if_splits)

section \<open>Well-formed tables\<close>

definition tokens_wf :: "OAuthRefreshToken list \<Rightarrow> bool" where
  "tokens_wf toks \<longleftrightarrow> unique_key rt_id toks \<and> unique_key rt_token_hash toks \<and>
     unique_key (\<lambda>t. (rt_family_id t, rt_sequence t)) toks \<and> (\<forall>t \<in> set toks. token_ok t)"

definition families_wf :: "OAuthRefreshFamily list \<Rightarrow> bool" where
  "families_wf fams \<longleftrightarrow> unique_key rf_id fams \<and> (\<forall>f \<in> set fams. family_ok f)"

definition grants_wf :: "OAuthGrant list \<Rightarrow> bool" where
  "grants_wf grants \<longleftrightarrow> unique_key gr_id grants \<and> (\<forall>g \<in> set grants. grant_ok g \<and> gr_id g \<noteq> uuid_nil)"

definition refresh_wf :: "id_db \<Rightarrow> bool" where
  "refresh_wf db \<longleftrightarrow> tokens_wf (id_tokens db) \<and> families_wf (id_families db) \<and> grants_wf (id_grants db) \<and>
     (\<forall>t \<in> set (id_tokens db). rt_family_id t \<in> keys rf_id (id_families db)) \<and>
     (\<forall>f \<in> set (id_families db). rf_grant_id f \<in> keys gr_id (id_grants db)) \<and> lifecycle_ok db"

lemma tokens_wf_update:
  assumes "tokens_wf toks" "\<And>t. rt_id (f t) = rt_id t" "\<And>t. rt_token_hash (f t) = rt_token_hash t"
    "\<And>t. rt_family_id (f t) = rt_family_id t" "\<And>t. rt_sequence (f t) = rt_sequence t"
    "\<forall>t \<in> set toks. p t \<longrightarrow> token_ok (f t)"
  shows "tokens_wf (update_where p f toks)"
  using assms by (auto simp: tokens_wf_def unique_key_update ball_update)

lemma tokens_wf_snoc:
  assumes "tokens_wf toks" "token_ok t" "\<forall>x \<in> set toks. rt_id x \<noteq> rt_id t \<and> rt_token_hash x \<noteq> rt_token_hash t \<and>
      (rt_family_id x, rt_sequence x) \<noteq> (rt_family_id t, rt_sequence t)"
  shows "tokens_wf (toks @ [t])"
  using assms unfolding tokens_wf_def by (intro conjI unique_key_snoc) (auto simp: not_in_keys)

lemma families_wf_update:
  assumes "families_wf fams" "\<And>r. rf_id (f r) = rf_id r" "\<forall>r \<in> set fams. p r \<longrightarrow> family_ok (f r)"
  shows "families_wf (update_where p f fams)"
  using assms by (auto simp: families_wf_def unique_key_update ball_update)

lemma grants_wf_update:
  assumes "grants_wf grants" "\<And>r. gr_id (f r) = gr_id r" "\<forall>r \<in> set grants. p r \<longrightarrow> grant_ok (f r)"
  shows "grants_wf (update_where p f grants)"
  using assms by (auto simp: grants_wf_def unique_key_update ball_update)

section \<open>Closing a family\<close>

text \<open>
  Expiry, revocation and reuse close a family alike: its live token is revoked, its row leaves the active status and
  its grant is no longer active.
\<close>

definition revoke_in :: "uuid \<Rightarrow> time \<Rightarrow> OAuthRefreshToken list \<Rightarrow> OAuthRefreshToken list" where
  "revoke_in fid now = update_where (\<lambda>t. rt_family_id t = fid \<and> live t) (\<lambda>t. t\<lparr>rt_revoked_at := Some now\<rparr>)"

definition closes :: "uuid \<Rightarrow> time \<Rightarrow> id_db \<Rightarrow> id_db \<Rightarrow> bool" where
  "closes fid now db db' \<longleftrightarrow>
     id_tokens db' = revoke_in fid now (id_tokens db) \<and>
     (\<exists>p g. id_families db' = update_where p g (id_families db) \<and>
        (\<forall>f. rf_id (g f) = rf_id f \<and> rf_grant_id (g f) = rf_grant_id f \<and> rf_oauth_client_id (g f) = rf_oauth_client_id f \<and>
             rf_resource_uri (g f) = rf_resource_uri f \<and> rf_idle_expires_at (g f) = rf_idle_expires_at f \<and>
             rf_absolute_expires_at (g f) = rf_absolute_expires_at f \<and> rf_status (g f) \<noteq> ''active'') \<and>
        (\<forall>f. p f \<longrightarrow> rf_id f = fid) \<and> (\<forall>f. rf_id f = fid \<and> rf_status f = ''active'' \<longrightarrow> p f)) \<and>
     (\<forall>f \<in> set (id_families db'). rf_id f = fid \<longrightarrow>
        (\<forall>g \<in> set (id_grants db'). gr_id g = rf_grant_id f \<longrightarrow> gr_status g \<noteq> ''active'')) \<and>
     map gr_id (id_grants db') = map gr_id (id_grants db) \<and>
     db' = db\<lparr>id_tokens := id_tokens db', id_families := id_families db', id_grants := id_grants db'\<rparr>"

definition live_count :: "OAuthRefreshToken list \<Rightarrow> uuid \<Rightarrow> nat" where
  "live_count toks fid = length (filter (\<lambda>t. live t \<and> rt_family_id t = fid) toks)"

lemma live_count_simps [simp]:
  "live_count [] fid = 0" "live_count (t # ts) fid = (if live t \<and> rt_family_id t = fid then 1 else 0) + live_count ts fid"
  "live_count (ts @ us) fid = live_count ts fid + live_count us fid"
  by (simp_all add: live_count_def)

lemma lifecycle_alt:
  "lifecycle_ok db \<longleftrightarrow> (\<forall>f \<in> set (id_families db). live_count (id_tokens db) (rf_id f) = (if rf_status f = ''active'' then 1 else 0))"
  by (simp add: lifecycle_ok_def live_count_def list_all_iff)

lemma live_count_revoke: "live_count (revoke_in fid now toks) x = (if x = fid then 0 else live_count toks x)"
  by (induction toks) (auto simp: revoke_in_def update_where_def live_def)

lemma live_alt: "(\<lambda>t. rt_family_id t = fid \<and> rt_consumed_at t = None \<and> rt_revoked_at t = None) = (\<lambda>t. rt_family_id t = fid \<and> live t)"
  by (auto simp: live_def)

lemma closed_wf:
  assumes wf: "refresh_wf db"
    and toks: "id_tokens db' = revoke_in fid now (id_tokens db)"
    and tok: "\<forall>t \<in> set (id_tokens db). rt_family_id t = fid \<and> live t \<longrightarrow> token_ok (t\<lparr>rt_revoked_at := Some now\<rparr>)"
    and fams: "id_families db' = update_where p g (id_families db)"
    and fam: "\<forall>f \<in> set (id_families db). p f \<longrightarrow> family_ok (g f)"
    and grants: "id_grants db' = update_where gp gf (id_grants db)"
    and gra: "\<forall>x \<in> set (id_grants db). gp x \<longrightarrow> grant_ok (gf x)" "\<And>x. gr_id (gf x) = gr_id x"
    and keep: "\<And>f. rf_id (g f) = rf_id f" "\<And>f. rf_grant_id (g f) = rf_grant_id f" "\<And>f. rf_status (g f) \<noteq> ''active''"
    and p: "\<And>f. p f \<Longrightarrow> rf_id f = fid" "\<And>f. rf_id f = fid \<Longrightarrow> rf_status f = ''active'' \<Longrightarrow> p f"
  shows "refresh_wf db'"
proof -
  have "tokens_wf (id_tokens db')"
    using wf tok unfolding refresh_wf_def toks revoke_in_def by (simp add: tokens_wf_update)
  moreover have "families_wf (id_families db')"
    using wf fam keep unfolding refresh_wf_def fams by (simp add: families_wf_update)
  moreover have "grants_wf (id_grants db')"
    using wf gra unfolding refresh_wf_def grants by (simp add: grants_wf_update)
  moreover have "\<forall>t \<in> set (id_tokens db'). rt_family_id t \<in> keys rf_id (id_families db')"
    using wf unfolding toks fams revoke_in_def ball_update keys_update [of rf_id g, OF keep(1)] by (auto simp: refresh_wf_def)
  moreover have "\<forall>f \<in> set (id_families db'). rf_grant_id f \<in> keys gr_id (id_grants db')"
    using wf unfolding fams grants ball_update keys_update [of gr_id gf, OF gra(2)] by (simp add: refresh_wf_def keep(2))
  moreover have "lifecycle_ok db'"
  proof -
    have "live_count (revoke_in fid now (id_tokens db)) (rf_id f') = (if rf_status f' = ''active'' then 1 else 0)"
      if "f \<in> set (id_families db)" "f' = (if p f then g f else f)" for f f'
    proof (cases "p f")
      case True
      with that(2) keep p(1) [OF True] show ?thesis by (simp add: live_count_revoke)
    next
      case False
      then have "rf_id f = fid \<longrightarrow> rf_status f \<noteq> ''active''" using p(2) by blast
      with that False wf show ?thesis by (auto simp: live_count_revoke refresh_wf_def lifecycle_alt)
    qed
    then show ?thesis unfolding lifecycle_alt fams toks ball_update by blast
  qed
  ultimately show ?thesis by (simp add: refresh_wf_def)
qed

lemma close_steps:
  assumes "then_do (then_do (revoke_live fid now db) (update_families p g)) (close_grant st fid reason now) = Inr db'"
    and keep: "\<And>f. rf_id (g f) = rf_id f \<and> rf_grant_id (g f) = rf_grant_id f \<and> rf_oauth_client_id (g f) = rf_oauth_client_id f \<and>
        rf_resource_uri (g f) = rf_resource_uri f \<and> rf_idle_expires_at (g f) = rf_idle_expires_at f \<and>
        rf_absolute_expires_at (g f) = rf_absolute_expires_at f \<and> rf_status (g f) \<noteq> ''active''"
    and p: "\<And>f. p f \<Longrightarrow> rf_id f = fid" "\<And>f. rf_id f = fid \<Longrightarrow> rf_status f = ''active'' \<Longrightarrow> p f"
    and st: "st \<noteq> ''active''" and wf: "refresh_wf db"
  shows "closes fid now db db' \<and> refresh_wf db'"
proof -
  obtain db1 db2 where 1: "revoke_live fid now db = Inr db1" and 2: "update_families p g db1 = Inr db2"
    and 3: "close_grant st fid reason now db2 = Inr db'"
    using assms(1) by (auto simp: then_do_Inr)
  let ?gp = "\<lambda>g. gr_status g = ''active'' \<and> list_ex (\<lambda>f. rf_id f = fid \<and> rf_grant_id f = gr_id g) (id_families db2)"
  let ?gf = "\<lambda>g. g\<lparr>gr_status := st, gr_revoked_at := Some now, gr_revoke_reason_code := Some reason, gr_version := gr_version g + 1\<rparr>"
  have db1: "db1 = db\<lparr>id_tokens := revoke_in fid now (id_tokens db)\<rparr>" and
    tok: "\<forall>t \<in> set (id_tokens db). rt_family_id t = fid \<and> live t \<longrightarrow> token_ok (t\<lparr>rt_revoked_at := Some now\<rparr>)"
    using 1 by (simp_all add: revoke_live_def update_tokens_Inr live_alt revoke_in_def)
  have db2: "db2 = db1\<lparr>id_families := update_where p g (id_families db)\<rparr>" and
    fam: "\<forall>f \<in> set (id_families db). p f \<longrightarrow> family_ok (g f)"
    using 2 by (auto simp: update_families_Inr db1)
  have db': "db' = db2\<lparr>id_grants := update_where ?gp ?gf (id_grants db)\<rparr>" and
    gra: "\<forall>x \<in> set (id_grants db). ?gp x \<longrightarrow> grant_ok (?gf x)"
    using 3 by (auto simp: close_grant_def update_grants_Inr db2 db1)
  have closed: "closes fid now db db'"
    unfolding closes_def
  proof (intro conjI exI [of _ p] exI [of _ g])
    show "\<forall>f \<in> set (id_families db'). rf_id f = fid \<longrightarrow> (\<forall>g \<in> set (id_grants db'). gr_id g = rf_grant_id f \<longrightarrow> gr_status g \<noteq> ''active'')"
    proof (intro ballI impI)
      fix f x assume f: "f \<in> set (id_families db')" "rf_id f = fid" and x: "x \<in> set (id_grants db')" "gr_id x = rf_grant_id f"
      from x(1) obtain r where r: "x = (if ?gp r then ?gf r else r)" by (auto simp: db' in_update_where)
      show "gr_status x \<noteq> ''active''"
      proof (cases "gr_status r = ''active''")
        case True
        moreover have "gr_id r = rf_grant_id f" using x(2) r by (auto split: if_splits)
        ultimately have "?gp r" using f by (auto simp: db' list_ex_iff)
        with r st show ?thesis by simp
      qed (use r in simp)
    qed
  qed (use keep p in \<open>auto simp: db' db2 db1 map_update_where\<close>)
  have toks: "id_tokens db' = revoke_in fid now (id_tokens db)" and fams: "id_families db' = update_where p g (id_families db)"
    and grants: "id_grants db' = update_where ?gp ?gf (id_grants db)"
    by (simp_all add: db' db2 db1)
  have "refresh_wf db'"
    by (rule closed_wf [OF wf toks tok fams fam grants gra]) (use keep p in simp_all)
  with closed show ?thesis ..
qed

lemmas closers = markRefreshExpired_def markRefreshReuse_def revokeInitialRefreshFamilyTx_def

lemma markRefreshExpired_closes:
  "markRefreshExpired fid now db = Inr db' \<Longrightarrow> refresh_wf db \<Longrightarrow> closes fid now db db' \<and> refresh_wf db'"
  unfolding markRefreshExpired_def by (erule close_steps) simp_all

lemma markRefreshReuse_closes:
  "markRefreshReuse fid now db = Inr db' \<Longrightarrow> refresh_wf db \<Longrightarrow> closes fid now db db' \<and> refresh_wf db'"
  unfolding markRefreshReuse_def by (erule close_steps) simp_all

lemma revokeInitialRefreshFamilyTx_closes:
  "revokeInitialRefreshFamilyTx fid reason now db = Inr db' \<Longrightarrow> refresh_wf db \<Longrightarrow> closes fid now db db' \<and> refresh_wf db'"
  unfolding revokeInitialRefreshFamilyTx_def by (erule close_steps) simp_all

section \<open>Rotating a token\<close>

definition consumed :: "OAuthRefreshToken \<Rightarrow> uuid \<Rightarrow> time \<Rightarrow> OAuthRefreshToken list \<Rightarrow> OAuthRefreshToken list" where
  "consumed prev new_id now = update_where (\<lambda>t. rt_id t = rt_id prev) (\<lambda>t. t\<lparr>rt_consumed_at := Some now, rt_replaced_by_id := Some new_id\<rparr>)"

definition rotated :: "time \<Rightarrow> OAuthRefreshFamily \<Rightarrow> OAuthRefreshFamily" where
  "rotated now f = f\<lparr>rf_last_rotated_at := now, rf_idle_expires_at := min (now + MaxRefreshIdle) (rf_absolute_expires_at f),
     rf_version := rf_version f + 1\<rparr>"

lemma rotate_token_rows:
  assumes "rotate_token prev nt fid now db = Inr db'" "refresh_wf db" "prev \<in> set (id_tokens db)" "live prev"
    "rt_consumed_at nt = None" "rt_revoked_at nt = Some now" "rt_replaced_by_id nt = None" "rt_reuse_detected_at nt = None"
  shows "db' = db\<lparr>id_tokens := consumed prev (rt_id nt) now (id_tokens db) @ [nt\<lparr>rt_revoked_at := None\<rparr>],
      id_families := update_where (\<lambda>f. rf_id f = fid) (rotated now) (id_families db)\<rparr>"
    and "\<forall>x \<in> set (id_tokens db). rt_id x \<noteq> rt_id nt \<and> rt_token_hash x \<noteq> rt_token_hash nt \<and>
      (rt_family_id x, rt_sequence x) \<noteq> (rt_family_id nt, rt_sequence nt)"
    and "token_ok (nt\<lparr>rt_revoked_at := None\<rparr>)"
    and "\<forall>t \<in> set (id_tokens db). rt_id t = rt_id prev \<longrightarrow> token_ok (t\<lparr>rt_consumed_at := Some now, rt_replaced_by_id := Some (rt_id nt)\<rparr>)"
    and "\<forall>f \<in> set (id_families db). rf_id f = fid \<longrightarrow> family_ok (rotated now f)"
proof -
  let ?c = "\<lambda>t. t\<lparr>rt_consumed_at := Some now, rt_replaced_by_id := Some (rt_id nt)\<rparr>"
  let ?p = "\<lambda>t. rt_id t = rt_id prev \<and> rt_consumed_at t = None \<and> rt_revoked_at t = None"
  obtain d1 d2 d3 where 1: "insert_token nt db = Inr d1" and
    2: "update_tokens ?p ?c d1 = Inr d2" and
    3: "update_tokens (\<lambda>t. rt_id t = rt_id nt) (\<lambda>t. t\<lparr>rt_revoked_at := None\<rparr>) d2 = Inr d3" and
    4: "update_families (\<lambda>f. rf_id f = fid) (rotated now) d3 = Inr db'"
    using assms(1) unfolding rotate_token_def rotated_def [abs_def] by (auto simp: then_do_Inr)
  have d1: "d1 = db\<lparr>id_tokens := id_tokens db @ [nt]\<rparr>" and
    new: "\<forall>x \<in> set (id_tokens db). \<not> token_clash nt x"
    using 1 by (auto simp: insert_token_Inr)
  have one: "?p t \<longleftrightarrow> rt_id t = rt_id prev" if "t \<in> set (id_tokens db)" for t
    using that assms(2-4) unique_key_eq [of rt_id "id_tokens db" t prev]
    by (auto simp: refresh_wf_def tokens_wf_def live_def)
  have "\<not> ?p nt" using assms(6) by simp
  then have d2: "d2 = db\<lparr>id_tokens := consumed prev (rt_id nt) now (id_tokens db) @ [nt]\<rparr>"
    using 2 one by (auto simp: update_tokens_Inr d1 consumed_def update_where_def)
  have ids: "rt_id x \<noteq> rt_id nt" if "x \<in> set (consumed prev (rt_id nt) now (id_tokens db))" for x
    using that new by (auto simp: consumed_def in_update_where token_clash_def split: if_splits)
  have d3: "d3 = db\<lparr>id_tokens := consumed prev (rt_id nt) now (id_tokens db) @ [nt\<lparr>rt_revoked_at := None\<rparr>]\<rparr>"
    and ok: "token_ok (nt\<lparr>rt_revoked_at := None\<rparr>)"
    using 3 ids by (auto simp: update_tokens_Inr d2 update_where_append update_where_none) (auto simp: update_where_def)
  show "db' = db\<lparr>id_tokens := consumed prev (rt_id nt) now (id_tokens db) @ [nt\<lparr>rt_revoked_at := None\<rparr>],
      id_families := update_where (\<lambda>f. rf_id f = fid) (rotated now) (id_families db)\<rparr>"
    "\<forall>f \<in> set (id_families db). rf_id f = fid \<longrightarrow> family_ok (rotated now f)"
    using 4 by (auto simp: update_families_Inr d3)
  show "\<forall>x \<in> set (id_tokens db). rt_id x \<noteq> rt_id nt \<and> rt_token_hash x \<noteq> rt_token_hash nt \<and>
      (rt_family_id x, rt_sequence x) \<noteq> (rt_family_id nt, rt_sequence nt)"
    using new by (auto simp: token_clash_def)
  show "token_ok (nt\<lparr>rt_revoked_at := None\<rparr>)" by (rule ok)
  show "\<forall>t \<in> set (id_tokens db). rt_id t = rt_id prev \<longrightarrow> token_ok (?c t)"
    using 2 one by (auto simp: update_tokens_Inr d1)
qed

lemma live_count_consumed:
  assumes "unique_key rt_id toks" "prev \<in> set toks" "live prev"
  shows "live_count (consumed prev i now toks) x + (if rt_family_id prev = x then 1 else 0) = live_count toks x"
  using assms
proof (induction toks)
  case (Cons t ts)
  show ?case
  proof (cases "t = prev")
    case True
    then have "consumed prev i now ts = ts"
      using Cons.prems(1) unfolding consumed_def by (intro update_where_none) (auto simp: unique_key_def image_iff)
    with True Cons.prems(3) show ?thesis by (simp add: consumed_def update_where_def live_def)
  next
    case False
    with Cons.prems have "rt_id t \<noteq> rt_id prev" by (auto simp: unique_key_def)
    with Cons False show ?thesis by (auto simp: consumed_def update_where_def unique_key_def)
  qed
qed simp

lemma rotate_token_wf:
  assumes rot: "rotate_token prev nt fid now db = Inr db'" and wf: "refresh_wf db" and prev: "prev \<in> set (id_tokens db)" "live prev"
    and nt: "rt_consumed_at nt = None" "rt_revoked_at nt = Some now" "rt_replaced_by_id nt = None" "rt_reuse_detected_at nt = None"
    and fam: "rt_family_id nt = fid" "rt_family_id prev = fid"
  shows "refresh_wf db'"
proof -
  note rows = rotate_token_rows [OF rot wf prev nt]
  let ?toks = "consumed prev (rt_id nt) now (id_tokens db)" and ?nt = "nt\<lparr>rt_revoked_at := None\<rparr>"
  have t: "tokens_wf ?toks"
    using wf rows(4) unfolding consumed_def by (intro tokens_wf_update) (simp_all add: refresh_wf_def)
  have fresh: "\<forall>x \<in> set ?toks. rt_id x \<noteq> rt_id nt \<and> rt_token_hash x \<noteq> rt_token_hash nt \<and>
      (rt_family_id x, rt_sequence x) \<noteq> (rt_family_id nt, rt_sequence nt)"
    using rows(2) unfolding consumed_def ball_update by auto
  have "tokens_wf (?toks @ [?nt])"
    using t fresh rows(3) by (intro tokens_wf_snoc) simp_all
  moreover have "families_wf (id_families db')"
    using wf rows(5) unfolding rows(1) by (auto simp: refresh_wf_def rotated_def intro!: families_wf_update)
  moreover have ref: "rt_family_id t \<in> keys rf_id (id_families db')" if "t \<in> set (id_tokens db)" for t
    using wf that unfolding rows(1) by (simp add: refresh_wf_def keys_update rotated_def)
  moreover have "\<forall>x \<in> set (?toks @ [?nt]). rt_family_id x \<in> keys rf_id (id_families db')"
    using ref ref [OF prev(1)] fam by (auto simp: consumed_def in_update_where)
  moreover have "\<forall>f \<in> set (id_families db'). rf_grant_id f \<in> keys gr_id (id_grants db')"
    using wf unfolding rows(1) by (simp add: refresh_wf_def ball_update rotated_def)
  moreover have "lifecycle_ok db'"
  proof -
    have u: "unique_key rt_id (id_tokens db)" using wf by (simp add: refresh_wf_def tokens_wf_def)
    have "live_count (?toks @ [?nt]) x = live_count (id_tokens db) x" for x
      using live_count_consumed [OF u prev, of "rt_id nt" now x] nt(1) fam by (simp add: live_def)
    moreover have "\<forall>f \<in> set (id_families db). live_count (id_tokens db) (rf_id f) = (if rf_status f = ''active'' then 1 else 0)"
      using wf by (simp add: refresh_wf_def lifecycle_alt)
    ultimately show ?thesis
      unfolding lifecycle_alt rows(1) by (auto simp: ball_update rotated_def simp del: live_count_simps)
  qed
  ultimately show ?thesis using wf unfolding refresh_wf_def rows(1) by simp
qed

section \<open>The abstract machine\<close>

record family_view =
  fv_current :: "(string \<times> time) option"
  fv_spent :: "string set"
  fv_idle :: time
  fv_absolute :: time

definition live_of :: "OAuthRefreshToken list \<Rightarrow> uuid \<Rightarrow> OAuthRefreshToken option" where
  "live_of toks fid = List.find (\<lambda>t. live t \<and> rt_family_id t = fid) toks"

definition spent_of :: "OAuthRefreshToken list \<Rightarrow> uuid \<Rightarrow> string set" where
  "spent_of toks fid = rt_token_hash ` {t \<in> set toks. \<not> live t \<and> rt_family_id t = fid}"

definition view :: "id_db \<Rightarrow> uuid \<Rightarrow> family_view" where
  "view db fid =
     (let f = List.find (\<lambda>f. rf_id f = fid) (id_families db) in
      \<lparr>fv_current = map_option (\<lambda>t. (rt_token_hash t, rt_expires_at t)) (live_of (id_tokens db) fid),
       fv_spent = spent_of (id_tokens db) fid,
       fv_idle = (case f of None \<Rightarrow> 0 | Some f \<Rightarrow> rf_idle_expires_at f),
       fv_absolute = (case f of None \<Rightarrow> 0 | Some f \<Rightarrow> rf_absolute_expires_at f)\<rparr>)"

definition close_view :: "family_view \<Rightarrow> family_view" where
  "close_view v = v\<lparr>fv_current := None, fv_spent := fv_spent v \<union> fst ` set_option (fv_current v)\<rparr>"

definition fresh_in :: "family_view \<Rightarrow> time \<Rightarrow> time \<Rightarrow> bool" where
  "fresh_in v expires now \<longleftrightarrow> now < expires \<and> now < fv_idle v \<and> now < fv_absolute v"

text \<open>
  Presenting a token to a family: the current one is replaced by its successor, which expires when the family would have gone
  idle, or closes the family when it came too late; a spent one closes the family.
\<close>

definition present :: "bool \<Rightarrow> string \<Rightarrow> string \<Rightarrow> time \<Rightarrow> family_view \<Rightarrow> family_view" where
  "present granted h next_hash now v =
     (case fv_current v of
        Some (c, expires) \<Rightarrow>
          if c = h then
            if \<not> fresh_in v expires now then close_view v
            else if granted then v\<lparr>fv_current := Some (next_hash, fv_idle v), fv_spent := insert h (fv_spent v),
                   fv_idle := min (now + MaxRefreshIdle) (fv_absolute v)\<rparr>
            else v
          else if h \<in> fv_spent v then close_view v else v
      | None \<Rightarrow> if h \<in> fv_spent v then close_view v else v)"

definition accepts :: "bool \<Rightarrow> string \<Rightarrow> time \<Rightarrow> family_view \<Rightarrow> bool" where
  "accepts granted h now v \<longleftrightarrow> granted \<and> (case fv_current v of Some (c, expires) \<Rightarrow> c = h \<and> fresh_in v expires now | None \<Rightarrow> False)"

lemma live_of_none: "live_count toks fid = 0 \<Longrightarrow> live_of toks fid = None"
  by (induction toks) (auto simp: live_of_def split: if_splits)

lemma live_of_unique:
  "live_count toks fid \<le> 1 \<Longrightarrow> t \<in> set toks \<Longrightarrow> live t \<Longrightarrow> rt_family_id t = fid \<Longrightarrow> live_of toks fid = Some t"
proof (induction toks)
  case (Cons x ts)
  have zero: "t \<notin> set ts" if "live_count ts fid = 0"
    using that Cons.prems(3,4) by (auto simp: live_count_def filter_empty_conv)
  show ?case using Cons zero by (auto simp: live_of_def split: if_splits)
qed simp

lemma live_of_Some: "live_of toks fid = Some t \<Longrightarrow> t \<in> set toks \<and> live t \<and> rt_family_id t = fid"
  unfolding live_of_def by (drule find_Some_in) simp

lemma live_of_revoke: "live_of (revoke_in fid now toks) x = (if x = fid then None else live_of toks x)"
  by (induction toks) (auto simp: live_of_def revoke_in_def update_where_def live_def)

lemma spent_of_simps [simp]:
  "spent_of [] x = {}"
  "spent_of (t # ts) x = (if \<not> live t \<and> rt_family_id t = x then insert (rt_token_hash t) (spent_of ts x) else spent_of ts x)"
  "spent_of (ts @ us) x = spent_of ts x \<union> spent_of us x"
  by (auto simp: spent_of_def)

definition hashes_of :: "OAuthRefreshToken list \<Rightarrow> uuid \<Rightarrow> string set" where
  "hashes_of toks fid = rt_token_hash ` {t \<in> set toks. rt_family_id t = fid}"

lemma hashes_of_simps [simp]:
  "hashes_of [] x = {}"
  "hashes_of (t # ts) x = (if rt_family_id t = x then insert (rt_token_hash t) (hashes_of ts x) else hashes_of ts x)"
  by (auto simp: hashes_of_def)

lemma revoked_not_live [simp]: "\<not> live (t\<lparr>rt_revoked_at := Some now\<rparr>)"
  by (simp add: live_def)

lemma revoke_in_Cons [simp]:
  "revoke_in fid now [] = []"
  "revoke_in fid now (t # ts) =
     (if rt_family_id t = fid \<and> live t then t\<lparr>rt_revoked_at := Some now\<rparr> else t) # revoke_in fid now ts"
  by (simp_all add: revoke_in_def update_where_def)

lemma spent_of_revoke: "spent_of (revoke_in fid now toks) x = (if x = fid then hashes_of toks x else spent_of toks x)"
proof (induction toks)
  case (Cons t ts)
  then show ?case by (cases "x = fid"; cases "rt_family_id t = fid"; cases "live t") simp_all
qed simp

lemma family_hashes:
  assumes "live_count toks fid \<le> 1"
  shows "hashes_of toks fid = spent_of toks fid \<union> rt_token_hash ` set_option (live_of toks fid)"
proof -
  have "{t \<in> set toks. live t \<and> rt_family_id t = fid} = set_option (live_of toks fid)"
    using live_of_unique [OF assms] live_of_Some by auto
  moreover have "{t \<in> set toks. rt_family_id t = fid} =
      {t \<in> set toks. \<not> live t \<and> rt_family_id t = fid} \<union> {t \<in> set toks. live t \<and> rt_family_id t = fid}" by auto
  ultimately show ?thesis by (simp add: hashes_of_def spent_of_def image_Un)
qed

lemma find_family_update:
  assumes "\<And>f. rf_id (g f) = rf_id f"
  shows "List.find (\<lambda>f. rf_id f = x) (update_where p g fams) = map_option (\<lambda>f. if p f then g f else f) (List.find (\<lambda>f. rf_id f = x) fams)"
  using find_update_where_key [of rf_id g x p fams] assms by simp

lemma live_count_le: "refresh_wf db \<Longrightarrow> f \<in> set (id_families db) \<Longrightarrow> live_count (id_tokens db) (rf_id f) \<le> 1"
  by (simp add: refresh_wf_def lifecycle_alt)

lemma closes_view:
  assumes "closes fid now db db'" "refresh_wf db" "f \<in> set (id_families db)" "rf_id f = fid"
  shows "view db' x = (if x = fid then close_view (view db x) else view db x)"
proof -
  obtain p g where fams: "id_families db' = update_where p g (id_families db)" and
    keep: "\<And>f. rf_id (g f) = rf_id f" "\<And>f. rf_idle_expires_at (g f) = rf_idle_expires_at f"
      "\<And>f. rf_absolute_expires_at (g f) = rf_absolute_expires_at f"
    using assms(1) unfolding closes_def by blast
  have toks: "id_tokens db' = revoke_in fid now (id_tokens db)" using assms(1) by (simp add: closes_def)
  have times: "(case List.find (\<lambda>f. rf_id f = x) (id_families db') of None \<Rightarrow> 0 | Some f \<Rightarrow> sel f) =
      (case List.find (\<lambda>f. rf_id f = x) (id_families db) of None \<Rightarrow> 0 | Some f \<Rightarrow> sel f)"
    if "\<And>f. sel (g f) = sel f" for sel :: "OAuthRefreshFamily \<Rightarrow> time"
    unfolding fams find_family_update [OF keep(1)] using that by (simp split: option.split)
  have "live_count (id_tokens db) fid \<le> 1" using live_count_le [OF assms(2,3)] assms(4) by simp
  note hashes = family_hashes [OF this]
  have "fv_idle (view db' x) = fv_idle (view db x)" "fv_absolute (view db' x) = fv_absolute (view db x)"
    unfolding view_def Let_def family_view.simps
    by (rule times [of rf_idle_expires_at, OF keep(2)], rule times [of rf_absolute_expires_at, OF keep(3)])
  moreover have "fv_current (view db' x) = (if x = fid then None else fv_current (view db x))"
    by (simp add: view_def Let_def toks live_of_revoke)
  moreover have "fv_spent (view db' x) =
      (if x = fid then fv_spent (view db x) \<union> fst ` set_option (fv_current (view db x)) else fv_spent (view db x))"
    by (simp add: view_def Let_def toks spent_of_revoke hashes option.set_map image_image)
  ultimately show ?thesis by (intro family_view.equality) (simp_all add: close_view_def)
qed

lemma live_of_append: "live_of (ts @ us) x = (case live_of ts x of None \<Rightarrow> live_of us x | Some t \<Rightarrow> Some t)"
  by (induction ts) (auto simp: live_of_def)

lemma live_of_single: "live_of [t] x = (if live t \<and> rt_family_id t = x then Some t else None)"
  by (simp add: live_of_def)

lemma consumed_Cons [simp]:
  "consumed prev i now [] = []"
  "consumed prev i now (t # ts) =
     (if rt_id t = rt_id prev then t\<lparr>rt_consumed_at := Some now, rt_replaced_by_id := Some i\<rparr> else t) # consumed prev i now ts"
  by (simp_all add: consumed_def update_where_def)

lemma consumed_not_live [simp]: "\<not> live (t\<lparr>rt_consumed_at := Some now, rt_replaced_by_id := i\<rparr>)"
  by (simp add: live_def)

lemma live_of_consumed_other:
  assumes "rt_family_id prev \<noteq> x" "\<forall>t \<in> set toks. rt_id t = rt_id prev \<longrightarrow> t = prev"
  shows "live_of (consumed prev i now toks) x = live_of toks x"
  using assms by (induction toks) (auto simp: live_of_def)

lemma spent_of_consumed:
  assumes "prev \<in> set toks" "\<forall>t \<in> set toks. rt_id t = rt_id prev \<longrightarrow> t = prev"
  shows "spent_of (consumed prev i now toks) x = (if rt_family_id prev = x then insert (rt_token_hash prev) (spent_of toks x) else spent_of toks x)"
proof -
  have other: "spent_of (consumed prev i now ts) x = spent_of ts x" if "prev \<notin> set ts" "\<forall>t \<in> set ts. rt_id t = rt_id prev \<longrightarrow> t = prev" for ts
    using that by (induction ts) auto
  show ?thesis
    using assms
  proof (induction toks)
    case (Cons t ts)
    show ?case
    proof (cases "prev \<in> set ts")
      case True
      with Cons show ?thesis by (cases "rt_id t = rt_id prev") auto
    next
      case False
      with Cons other [of ts] show ?thesis by auto
    qed
  qed simp
qed

lemma rotate_token_view:
  assumes rot: "rotate_token prev nt fid now db = Inr db'" and wf: "refresh_wf db" and prev: "prev \<in> set (id_tokens db)" "live prev"
    and nt: "rt_consumed_at nt = None" "rt_revoked_at nt = Some now" "rt_replaced_by_id nt = None" "rt_reuse_detected_at nt = None"
    and fam: "rt_family_id nt = fid" "rt_family_id prev = fid" "f \<in> set (id_families db)" "rf_id f = fid"
  shows "view db' x = (if x = fid then (view db fid)\<lparr>fv_current := Some (rt_token_hash nt, rt_expires_at nt),
      fv_spent := insert (rt_token_hash prev) (fv_spent (view db fid)),
      fv_idle := min (now + MaxRefreshIdle) (fv_absolute (view db fid))\<rparr> else view db x)"
proof -
  note rows = rotate_token_rows(1) [OF rot wf prev nt]
  let ?toks = "consumed prev (rt_id nt) now (id_tokens db)" and ?nt = "nt\<lparr>rt_revoked_at := None\<rparr>"
  have u: "unique_key rt_id (id_tokens db)" using wf by (simp add: refresh_wf_def tokens_wf_def)
  then have same: "\<forall>t \<in> set (id_tokens db). rt_id t = rt_id prev \<longrightarrow> t = prev" using unique_key_eq prev(1) by metis
  have new: "live ?nt" using nt by (simp add: live_def)
  have "live_count (id_tokens db) fid \<le> 1" using live_count_le [OF wf fam(3)] fam(4) by simp
  then have "live_count ?toks fid = 0" using live_count_consumed [OF u prev, of "rt_id nt" now fid] fam by simp
  then have cur: "live_of (?toks @ [?nt]) x = (if x = fid then Some ?nt else live_of (id_tokens db) x)"
    using live_of_none [of ?toks fid] live_of_consumed_other [OF _ same, of x "rt_id nt" now] new fam
    by (auto simp: live_of_append live_of_single split: option.split)
  have spent: "spent_of (?toks @ [?nt]) x =
      (if x = fid then insert (rt_token_hash prev) (spent_of (id_tokens db) x) else spent_of (id_tokens db) x)"
    using spent_of_consumed [OF prev(1) same, of "rt_id nt" now x] new fam by auto
  have find: "List.find (\<lambda>f. rf_id f = x) (id_families db') =
      map_option (\<lambda>f. if rf_id f = fid then rotated now f else f) (List.find (\<lambda>f. rf_id f = x) (id_families db))"
    unfolding rows by (simp add: find_family_update rotated_def)
  have here: "List.find (\<lambda>f. rf_id f = fid) (id_families db) = Some f"
    using wf fam(3,4) by (intro find_unique) (simp_all add: refresh_wf_def families_wf_def unique_key_def)
  have "view db' x = \<lparr>fv_current = map_option (\<lambda>t. (rt_token_hash t, rt_expires_at t)) (live_of (?toks @ [?nt]) x),
      fv_spent = spent_of (?toks @ [?nt]) x,
      fv_idle = (case List.find (\<lambda>f. rf_id f = x) (id_families db') of None \<Rightarrow> 0 | Some f \<Rightarrow> rf_idle_expires_at f),
      fv_absolute = (case List.find (\<lambda>f. rf_id f = x) (id_families db') of None \<Rightarrow> 0 | Some f \<Rightarrow> rf_absolute_expires_at f)\<rparr>"
    unfolding view_def Let_def rows by simp
  also have "\<dots> = (if x = fid then (view db fid)\<lparr>fv_current := Some (rt_token_hash nt, rt_expires_at nt),
      fv_spent := insert (rt_token_hash prev) (fv_spent (view db fid)),
      fv_idle := min (now + MaxRefreshIdle) (fv_absolute (view db fid))\<rparr> else view db x)"
  proof (cases "x = fid")
    case True
    with fam(4) show ?thesis unfolding cur spent find by (simp add: view_def here rotated_def)
  next
    case False
    have "(case map_option (\<lambda>f. if rf_id f = fid then rotated now f else f) (List.find (\<lambda>f. rf_id f = x) (id_families db)) of
        None \<Rightarrow> 0 | Some f \<Rightarrow> sel f) = (case List.find (\<lambda>f. rf_id f = x) (id_families db) of None \<Rightarrow> 0 | Some f \<Rightarrow> sel f)"
      for sel :: "OAuthRefreshFamily \<Rightarrow> time"
      using False by (auto dest: find_Some_in split: option.split)
    with False show ?thesis unfolding cur spent find by (simp add: view_def Let_def)
  qed
  finally show ?thesis .
qed

end
