(* ===== verification/Single_Use.thy ===== *)
theory Single_Use
  imports Main
begin

text \<open>
  The contract of credentials that are used once.  A store holds slots; the credential of a slot is current or spent, never both; steps keep what is
  spent, and a slot that has no current credential gets none.  Then a spent credential is never current again.  Refresh-token
  families, authorization codes, broker transactions and client assertions are providers of this contract.
\<close>

locale single_use =
  fixes inv :: "'s \<Rightarrow> bool" and step :: "'s \<Rightarrow> 's \<Rightarrow> bool"
    and current :: "'s \<Rightarrow> 'k \<Rightarrow> 'h option" and spent :: "'s \<Rightarrow> 'k \<Rightarrow> 'h set"
  assumes step_inv: "step s s' \<Longrightarrow> inv s \<Longrightarrow> inv s'"
    and separate: "inv s \<Longrightarrow> current s k = Some h \<Longrightarrow> h \<notin> spent s j"
    and step_spent: "step s s' \<Longrightarrow> inv s \<Longrightarrow> spent s k \<subseteq> spent s' k"
begin

lemma run_inv: "step\<^sup>*\<^sup>* s s' \<Longrightarrow> inv s \<Longrightarrow> inv s'"
  by (induction rule: rtranclp_induct) (auto intro: step_inv)

lemma run_spent: "step\<^sup>*\<^sup>* s s' \<Longrightarrow> inv s \<Longrightarrow> spent s k \<subseteq> spent s' k"
proof (induction rule: rtranclp_induct)
  case (step y z)
  from step.IH [OF step.prems] step_spent [OF step.hyps(2) run_inv [OF step.hyps(1) step.prems], of k] show ?case by (rule subset_trans)
qed simp

lemma never_again: "step\<^sup>*\<^sup>* s s' \<Longrightarrow> inv s \<Longrightarrow> h \<in> spent s k \<Longrightarrow> current s' j \<noteq> Some h"
  using run_spent [of s s' k] run_inv [of s s'] separate [of s' j h k] by blast

end

text \<open>Slots that, once known, are closed for good when their current credential is gone.\<close>

locale token_families = single_use +
  fixes known :: "'a \<Rightarrow> 'b \<Rightarrow> bool"
  assumes step_known: "step s s' \<Longrightarrow> inv s \<Longrightarrow> known s k \<Longrightarrow> known s' k"
    and step_closed: "step s s' \<Longrightarrow> inv s \<Longrightarrow> known s k \<Longrightarrow> current s k = None \<Longrightarrow> current s' k = None"
begin

lemma run_closed:
  "step\<^sup>*\<^sup>* s s' \<Longrightarrow> inv s \<Longrightarrow> known s k \<Longrightarrow> current s k = None \<Longrightarrow> known s' k \<and> current s' k = None"
proof (induction rule: rtranclp_induct)
  case (step y z)
  from run_inv [OF step.hyps(1) step.prems(1)] have "inv y" .
  with step show ?case using step_known step_closed by blast
qed simp

end

end
