(* ===== verification/Identity_Refresh_Machine.thy ===== *)
theory Identity_Refresh_Machine
  imports Identity_Refresh_Laws Single_Use
begin

text \<open>
  How the redemption of a refresh token follows the abstract family machine, the laws of runs, and when the statements
  of the redemption meet their constraints.
\<close>

section \<open>Redemption refines the machine\<close>

lemma family_of_Some: "family_of db t = Some f \<Longrightarrow> f \<in> set (id_families db) \<and> rf_id f = rt_family_id t"
  unfolding family_of_def by (drule find_Some_in) simp

lemma first_presented_Some:
  assumes "first_presented db c r hs = Some (t, f)"
  shows "t \<in> set (id_tokens db) \<and> rt_token_hash t \<in> set hs \<and> f \<in> set (id_families db) \<and> rf_id f = rt_family_id t \<and>
    rf_oauth_client_id f = c \<and> rf_resource_uri f = r"
  using assms
proof (induction hs)
  case (Cons h hs)
  show ?case
  proof (cases "presented db c r h")
    case None
    with Cons show ?thesis by simp
  next
    case (Some tf)
    with Cons.prems have "presented db c r h = Some (t, f)" by simp
    then obtain t' where t': "List.find (\<lambda>t. rt_token_hash t = h \<and> (case family_of db t of None \<Rightarrow> False
        | Some f \<Rightarrow> rf_oauth_client_id f = c \<and> rf_resource_uri f = r)) (id_tokens db) = Some t'" "t' = t" "family_of db t = Some f"
      unfolding presented_def by (auto split: option.splits)
    from find_Some_in [OF t'(1)] t'(2,3) family_of_Some [OF t'(3)] show ?thesis by simp
  qed
qed simp

definition redeemable :: "id_db \<Rightarrow> OAuthRefreshFamily \<Rightarrow> string list \<Rightarrow> bool" where
  "redeemable db f requested \<longleftrightarrow> (\<exists>g. GetOAuthGrant db (rf_grant_id f) = Inr g \<and> gr_status g = ''active'' \<and>
     validateRefreshScope (gr_scopes g) requested = None \<and> (\<exists>b. LoadConsumeBindings db (gr_id g) = Inr b))"

lemma grant_found:
  assumes "refresh_wf db" "f \<in> set (id_families db)"
  obtains g where "GetOAuthGrant db (rf_grant_id f) = Inr g" "g \<in> set (id_grants db)" "gr_id g = rf_grant_id f"
proof -
  obtain g where g: "g \<in> set (id_grants db)" "gr_id g = rf_grant_id f"
    using assms by (auto simp: refresh_wf_def keys_def)
  then have "List.find (\<lambda>g. gr_id g = rf_grant_id f) (id_grants db) = Some g" "rf_grant_id f \<noteq> uuid_nil"
    using assms(1) by (auto simp: refresh_wf_def grants_wf_def unique_key_def intro: find_unique)
  with that g show ?thesis by (simp add: GetOAuthGrant_def)
qed

lemma family_view_at:
  assumes "refresh_wf db" "f \<in> set (id_families db)"
  shows "fv_idle (view db (rf_id f)) = rf_idle_expires_at f" "fv_absolute (view db (rf_id f)) = rf_absolute_expires_at f"
proof -
  have "List.find (\<lambda>x. rf_id x = rf_id f) (id_families db) = Some f"
    using assms by (intro find_unique) (simp_all add: refresh_wf_def families_wf_def unique_key_def)
  then show "fv_idle (view db (rf_id f)) = rf_idle_expires_at f" "fv_absolute (view db (rf_id f)) = rf_absolute_expires_at f"
    by (simp_all add: view_def)
qed

lemma live_view:
  assumes "refresh_wf db" "f \<in> set (id_families db)" "t \<in> set (id_tokens db)" "rt_family_id t = rf_id f" "live t"
  shows "fv_current (view db (rf_id f)) = Some (rt_token_hash t, rt_expires_at t)" "rf_status f = ''active''"
proof -
  have le: "live_count (id_tokens db) (rf_id f) \<le> 1" by (rule live_count_le [OF assms(1,2)])
  from live_of_unique [OF le assms(3,5,4)] show "fv_current (view db (rf_id f)) = Some (rt_token_hash t, rt_expires_at t)"
    by (simp add: view_def Let_def)
  have "live_count (id_tokens db) (rf_id f) \<noteq> 0"
    using live_of_none [of "id_tokens db" "rf_id f"] live_of_unique [OF le assms(3,5,4)] by auto
  then show "rf_status f = ''active''" using assms(1,2) by (auto simp: refresh_wf_def lifecycle_alt split: if_splits)
qed

lemma spent_view:
  assumes "refresh_wf db" "t \<in> set (id_tokens db)" "rt_family_id t = fid" "\<not> live t"
  shows "rt_token_hash t \<in> fv_spent (view db fid)" "fv_current (view db fid) \<noteq> Some (rt_token_hash t, e)"
proof -
  show "rt_token_hash t \<in> fv_spent (view db fid)" using assms by (auto simp: view_def Let_def spent_of_def)
  show "fv_current (view db fid) \<noteq> Some (rt_token_hash t, e)"
  proof
    assume "fv_current (view db fid) = Some (rt_token_hash t, e)"
    then obtain x where x: "live_of (id_tokens db) fid = Some x" "rt_token_hash x = rt_token_hash t"
      by (auto simp: view_def Let_def)
    have "unique_key rt_token_hash (id_tokens db)" using assms(1) by (simp add: refresh_wf_def tokens_wf_def)
    with x live_of_Some [OF x(1)] assms(2,4) unique_key_eq show False by metis
  qed
qed

lemma present_spent:
  assumes "h \<in> fv_spent v" "\<forall>e. fv_current v \<noteq> Some (h, e)"
  shows "present granted h nh now v = close_view v \<and> \<not> accepts granted h now v"
proof (cases "fv_current v")
  case None
  with assms show ?thesis by (simp add: present_def accepts_def)
next
  case (Some ce)
  moreover from Some assms(2) have "fst ce \<noteq> h" by (cases ce) simp
  ultimately show ?thesis using assms(1) by (cases ce) (simp add: present_def accepts_def)
qed

text \<open>A statement that violates a constraint aborts the transaction; nothing of it remains.\<close>

fun storage_failure :: "id_error \<Rightarrow> bool" where
  "storage_failure (IdCheck _) = True"
| "storage_failure (IdUnique _) = True"
| "storage_failure (IdForeignKey _) = True"
| "storage_failure _ = False"

definition fails_in_storage :: "id_error + 'a \<Rightarrow> bool" where
  "fails_in_storage r = (case r of Inl e \<Rightarrow> storage_failure e | Inr _ \<Rightarrow> False)"

lemma storage_steps:
  "update_families p ff db = Inl e \<Longrightarrow> storage_failure e"
  "update_grants q gf db = Inl e \<Longrightarrow> storage_failure e"
  "update_tokens r tf db = Inl e \<Longrightarrow> storage_failure e"
  "insert_token t db = Inl e \<Longrightarrow> storage_failure e"
  by (auto simp: update_families_def update_grants_def update_tokens_def insert_token_def checked_update_def split: if_splits)

lemma then_do_Inl: "then_do r k = Inl e \<longleftrightarrow> r = Inl e \<or> (\<exists>s. r = Inr s \<and> k s = Inl e)"
  by (cases r) (auto simp: then_do_def)

lemma closers_fail:
  "markRefreshReuse fid now db = Inl e \<Longrightarrow> storage_failure e"
  "markRefreshExpired fid now db = Inl e \<Longrightarrow> storage_failure e"
  "rotate_token prev nt fid now db = Inl e \<Longrightarrow> storage_failure e"
  unfolding closers rotate_token_def revoke_live_def close_grant_def then_do_Inl
  by (elim disjE exE conjE; erule storage_steps)+

definition family_step :: "uuid \<Rightarrow> (family_view \<Rightarrow> family_view) \<Rightarrow> id_db \<Rightarrow> id_db \<Rightarrow> bool" where
  "family_step fid step db db' \<longleftrightarrow> refresh_wf db' \<and> keys rf_id (id_families db') = keys rf_id (id_families db) \<and>
     (\<forall>x. view db' x = (if x = fid then step (view db x) else view db x))"

lemma family_step_same: "refresh_wf db \<Longrightarrow> step (view db fid) = view db fid \<Longrightarrow> family_step fid step db db"
  by (simp add: family_step_def)

lemma closes_keys: "closes fid now db db' \<Longrightarrow> keys rf_id (id_families db') = keys rf_id (id_families db)"
  unfolding closes_def by (elim conjE exE) (simp add: keys_update)

lemma family_step_closes:
  assumes "closes fid now db db' \<and> refresh_wf db'" "refresh_wf db" "f \<in> set (id_families db)" "rf_id f = fid"
    "step (view db fid) = close_view (view db fid)"
  shows "family_step fid step db db'"
  using closes_view [OF conjunct1 [OF assms(1)] assms(2-4)] closes_keys [OF conjunct1 [OF assms(1)]] assms(1,5)
  by (simp add: family_step_def)

lemma fresh_alt:
  assumes "refresh_wf db" "f \<in> set (id_families db)"
  shows "fresh_in (view db (rf_id f)) (rt_expires_at t) now \<longleftrightarrow> \<not> expired_at now t f"
  using family_view_at [OF assms] by (auto simp: fresh_in_def expired_at_def)

text \<open>What a redemption that found the token \<^verbatim>\<open>t\<close> of the family \<^verbatim>\<open>f\<close> owes to the machine.\<close>

definition redeem_ok :: "id_db \<Rightarrow> OAuthRefreshToken \<Rightarrow> OAuthRefreshFamily \<Rightarrow> string list \<Rightarrow> string \<Rightarrow> time \<Rightarrow>
    (id_error + RefreshRedemption) \<times> id_db \<Rightarrow> bool" where
  "redeem_ok db t f requested nextHash now out \<longleftrightarrow>
     (if fails_in_storage (fst out) then snd out = db
      else family_step (rf_id f) (present (redeemable db f requested) (rt_token_hash t) nextHash now) db (snd out) \<and>
           ((\<exists>r. fst out = Inr r) \<longleftrightarrow> accepts (redeemable db f requested) (rt_token_hash t) now (view db (rf_id f))))"

lemma redeem_ok_refused:
  assumes "refresh_wf db" "present (redeemable db f requested) (rt_token_hash t) nextHash now (view db (rf_id f)) = view db (rf_id f)"
    "\<not> accepts (redeemable db f requested) (rt_token_hash t) now (view db (rf_id f))"
  shows "redeem_ok db t f requested nextHash now (Inl e, db)"
  using assms family_step_same by (simp add: redeem_ok_def)

lemma redeem_ok_closed:
  assumes "refresh_wf db" "f \<in> set (id_families db)"
    "present (redeemable db f requested) (rt_token_hash t) nextHash now (view db (rf_id f)) = close_view (view db (rf_id f))"
    "\<not> accepts (redeemable db f requested) (rt_token_hash t) now (view db (rf_id f))"
    "\<And>e. r = Inl e \<Longrightarrow> storage_failure e"
    "\<And>db'. r = Inr db' \<Longrightarrow> closes (rf_id f) now db db' \<and> refresh_wf db'"
  shows "redeem_ok db t f requested nextHash now (case r of Inl e \<Rightarrow> (Inl e, db) | Inr db' \<Rightarrow> (Inl (IdConflict m), db'))"
proof (cases r)
  case (Inl e)
  then show ?thesis using assms(5) by (simp add: redeem_ok_def fails_in_storage_def)
next
  case (Inr d)
  from family_step_closes [where step = "present (redeemable db f requested) (rt_token_hash t) nextHash now",
      OF assms(6) [OF Inr] assms(1,2) refl assms(3)] Inr assms(4) show ?thesis
    by (simp add: redeem_ok_def fails_in_storage_def)
qed

lemma refuse_spent:
  assumes "refresh_wf db" "t \<in> set (id_tokens db)" "f \<in> set (id_families db)" "rf_id f = rt_family_id t" "\<not> live t"
  shows "redeem_ok db t f requested nextHash now (refuse_redemption t f now db)"
proof -
  note spent = spent_view [OF assms(1,2) assms(4) [symmetric] assms(5)]
  have "present g (rt_token_hash t) nh now (view db (rf_id f)) = close_view (view db (rf_id f)) \<and>
      \<not> accepts g (rt_token_hash t) now (view db (rf_id f))" for g nh
    using present_spent [of "rt_token_hash t" "view db (rf_id f)"] spent by blast
  moreover have "refuse_redemption t f now db =
      (case markRefreshReuse (rf_id f) now db of Inl e \<Rightarrow> (Inl e, db) | Inr db' \<Rightarrow> (Inl (IdConflict ''refresh token''), db'))"
    using assms(5) by (auto simp: refuse_redemption_def live_def)
  ultimately show ?thesis
    using redeem_ok_closed [OF assms(1,3)] closers_fail(1) markRefreshReuse_closes [OF _ assms(1)] by simp
qed

lemma live_step:
  assumes "refresh_wf db" "t \<in> set (id_tokens db)" "f \<in> set (id_families db)" "rf_id f = rt_family_id t" "live t"
  shows "present g (rt_token_hash t) nh now (view db (rf_id f)) =
      (if expired_at now t f then close_view (view db (rf_id f))
       else if g then (view db (rf_id f))\<lparr>fv_current := Some (nh, rf_idle_expires_at f),
              fv_spent := insert (rt_token_hash t) (fv_spent (view db (rf_id f))),
              fv_idle := min (now + MaxRefreshIdle) (rf_absolute_expires_at f)\<rparr>
       else view db (rf_id f))"
    and "accepts g (rt_token_hash t) now (view db (rf_id f)) \<longleftrightarrow> g \<and> \<not> expired_at now t f"
  using live_view(1) [OF assms(1,3,2) assms(4) [symmetric] assms(5)] fresh_alt [OF assms(1,3), of t now] family_view_at [OF assms(1,3)]
  by (simp_all add: present_def accepts_def)

lemma refuse_live:
  assumes "refresh_wf db" "t \<in> set (id_tokens db)" "f \<in> set (id_families db)" "rf_id f = rt_family_id t" "live t"
    "expired_at now t f \<or> \<not> redeemable db f requested"
  shows "redeem_ok db t f requested nextHash now (refuse_redemption t f now db)"
proof -
  note step = live_step [OF assms(1-5)]
  have notspent: "rt_consumed_at t = None" "rt_revoked_at t = None" using assms(5) by (simp_all add: live_def)
  show ?thesis
  proof (cases "expired_at now t f")
    case True
    then have "refuse_redemption t f now db =
        (case markRefreshExpired (rf_id f) now db of Inl e \<Rightarrow> (Inl e, db) | Inr db' \<Rightarrow> (Inl (IdConflict ''refresh token''), db'))"
      using notspent by (simp add: refuse_redemption_def)
    with True show ?thesis
      using redeem_ok_closed [OF assms(1,3)] closers_fail(2) markRefreshExpired_closes [OF _ assms(1)] step by simp
  next
    case False
    then have "refuse_redemption t f now db = (Inl (IdConflict ''refresh token''), db)"
      using notspent by (simp add: refuse_redemption_def)
    with False assms(1,6) show ?thesis using redeem_ok_refused step by simp
  qed
qed

lemma redeem_rotates:
  assumes "refresh_wf db" "t \<in> set (id_tokens db)" "f \<in> set (id_families db)" "rf_id f = rt_family_id t" "live t"
    "\<not> expired_at now t f" "redeemable db f requested"
  shows "redeem_ok db t f requested nextHash now
     (case rotate_token t (successor i f nextHash pepper t now) (rf_id f) now db of Inl e \<Rightarrow> (Inl e, db) | Inr db' \<Rightarrow> (Inr r, db'))"
proof (cases "rotate_token t (successor i f nextHash pepper t now) (rf_id f) now db")
  case (Inl e)
  then show ?thesis using closers_fail(3) [OF Inl] by (simp add: redeem_ok_def fails_in_storage_def)
next
  case (Inr d)
  let ?n = "successor i f nextHash pepper t now"
  have nt: "rt_consumed_at ?n = None" "rt_revoked_at ?n = Some now" "rt_replaced_by_id ?n = None" "rt_reuse_detected_at ?n = None"
    "rt_family_id ?n = rf_id f" "rt_token_hash ?n = nextHash" "rt_expires_at ?n = rf_idle_expires_at f"
    by (simp_all add: successor_def)
  have "refresh_wf d"
    by (rule rotate_token_wf [OF Inr assms(1,2,5) nt(1-5) assms(4) [symmetric]])
  moreover have "keys rf_id (id_families d) = keys rf_id (id_families db)"
    unfolding rotate_token_rows(1) [OF Inr assms(1,2,5) nt(1-4)] by (simp add: keys_update rotated_def)
  moreover note rotate_token_view [OF Inr assms(1,2,5) nt(1-5) assms(4) [symmetric] assms(3) refl]
  ultimately show ?thesis
    using Inr assms(6,7) live_step [OF assms(1-5)] family_view_at [OF assms(1,3)]
    by (simp add: redeem_ok_def fails_in_storage_def family_step_def nt)
qed

lemma RedeemRefreshToken_ok:
  assumes wf: "refresh_wf db" and "redeem_arguments_ok clientID hashes resource nextHash pepper now"
    and found: "first_presented db clientID resource hashes = Some (t, f)"
  shows "redeem_ok db t f requested nextHash now
    (RedeemRefreshToken new_id hashes clientID resource requested nextHash pepper now db)"
proof -
  from first_presented_Some [OF found] have t: "t \<in> set (id_tokens db)" "f \<in> set (id_families db)" "rf_id f = rt_family_id t" by simp_all
  from grant_found [OF wf t(2)] obtain g where g: "GetOAuthGrant db (rf_grant_id f) = Inr g" "gr_id g = rf_grant_id f" by blast
  let ?out = "RedeemRefreshToken new_id hashes clientID resource requested nextHash pepper now db"
  show ?thesis
  proof (cases "live t \<and> gr_status g = ''active'' \<and> \<not> expired_at now t f")
    case False
    then have "?out = refuse_redemption t f now db"
      using assms(2) found g(1) by (auto simp: RedeemRefreshToken_def live_def)
    moreover have "expired_at now t f \<or> \<not> redeemable db f requested" if "live t"
      using that False g by (auto simp: redeemable_def)
    ultimately show ?thesis using refuse_spent [OF wf t] refuse_live [OF wf t] by (cases "live t") simp_all
  next
    case True
    then have "rf_status f = ''active''" using live_view(2) [OF wf t(2,1)] t(3) by simp
    then have go: "?out = (case validateRefreshScope (gr_scopes g) requested of Some e \<Rightarrow> (Inl e, db)
        | None \<Rightarrow> case LoadConsumeBindings db (gr_id g) of Inl e \<Rightarrow> (Inl e, db)
        | Inr (_, assoc) \<Rightarrow> case rotate_token t (successor new_id f nextHash pepper t now) (rf_id f) now db of
            Inl e \<Rightarrow> (Inl e, db)
          | Inr db' \<Rightarrow> (Inr \<lparr>rr_family = f, rr_previous = t, rr_next = successor new_id f nextHash pepper t now,
                rr_grant = g, rr_association = assoc\<rparr>, db'))"
      using True assms(2) found g(1)
      unfolding RedeemRefreshToken_def Let_def by (simp add: live_def RefreshFamilyStatusActive_def)
    have red: "redeemable db f requested \<longleftrightarrow> validateRefreshScope (gr_scopes g) requested = None \<and> (\<exists>b. LoadConsumeBindings db (gr_id g) = Inr b)"
      using True g by (auto simp: redeemable_def)
    show ?thesis
    proof (cases "redeemable db f requested")
      case True
      with red obtain b where "validateRefreshScope (gr_scopes g) requested = None" "LoadConsumeBindings db (gr_id g) = Inr b" by blast
      then show ?thesis
        unfolding go using redeem_rotates [OF wf t] True \<open>live t \<and> _\<close> by (cases b) simp
    next
      case False
      then obtain e where "?out = (Inl e, db)"
        unfolding go red by (cases "validateRefreshScope (gr_scopes g) requested"; cases "LoadConsumeBindings db (gr_id g)") auto
      with False \<open>live t \<and> _\<close> show ?thesis using redeem_ok_refused [OF wf] live_step [OF wf t] by simp
    qed
  qed
qed

section \<open>Runs\<close>

text \<open>
  What happens to the tables in one step: a redemption, whatever it returns; a revocation; the opening of a family; or any
  transaction that leaves families and tokens alone and keeps the constraints.
\<close>

inductive refresh_step :: "id_db \<Rightarrow> id_db \<Rightarrow> bool" where
  redeem: "RedeemRefreshToken i hashes clientID resource requested nextHash pepper now db = (res, db') \<Longrightarrow> refresh_step db db'"
| revoke: "RevokeInitialRefreshFamily clock fid reason now db = Inr db' \<Longrightarrow> refresh_step db db'"
| revoke_owned: "RevokeOwnedInitialRefresh clock hashes clientID reason now db = Inr db' \<Longrightarrow> refresh_step db db'"
| create: "CreateInitialRefreshFamily up fid tid ir db = Inr (out, db') \<Longrightarrow> refresh_step db db'"
| other: "id_tokens db' = id_tokens db \<Longrightarrow> id_families db' = id_families db \<Longrightarrow> refresh_wf db' \<Longrightarrow> refresh_step db db'"

text \<open>What every step does to one family of the machine.\<close>

definition family_moves :: "id_db \<Rightarrow> id_db \<Rightarrow> bool" where
  "family_moves db db' \<longleftrightarrow> refresh_wf db' \<and> keys rf_id (id_families db) \<subseteq> keys rf_id (id_families db') \<and>
     (\<forall>x. fv_spent (view db x) \<subseteq> fv_spent (view db' x)) \<and>
     (\<forall>x \<in> keys rf_id (id_families db). fv_current (view db x) = None \<longrightarrow> fv_current (view db' x) = None)"

lemma family_moves_refl: "refresh_wf db \<Longrightarrow> family_moves db db"
  by (simp add: family_moves_def)

lemma family_step_moves:
  assumes "family_step fid step db db'" "\<And>v. fv_spent v \<subseteq> fv_spent (step v)" "\<And>v. fv_current v = None \<Longrightarrow> fv_current (step v) = None"
  shows "family_moves db db'"
  using assms by (auto simp: family_step_def family_moves_def)

lemma close_view_moves: "fv_spent v \<subseteq> fv_spent (close_view v)" "fv_current (close_view v) = None"
  by (auto simp: close_view_def)

lemma present_moves:
  "fv_spent v \<subseteq> fv_spent (present g h nh now v)" "fv_current v = None \<Longrightarrow> fv_current (present g h nh now v) = None"
  using close_view_moves by (auto simp: present_def split: option.splits prod.splits)

lemma Redeem_moves:
  assumes "RedeemRefreshToken i hashes clientID resource requested nextHash pepper now db = (res, db')" "refresh_wf db"
  shows "family_moves db db'"
proof (cases "redeem_arguments_ok clientID hashes resource nextHash pepper now \<and> first_presented db clientID resource hashes \<noteq> None")
  case True
  then obtain t f where tf: "first_presented db clientID resource hashes = Some (t, f)" by auto
  from RedeemRefreshToken_ok [OF assms(2) conjunct1 [OF True] tf, of requested i] assms(1)
  have "db' = db \<or> family_step (rf_id f) (present (redeemable db f requested) (rt_token_hash t) nextHash now) db db'"
    by (simp add: redeem_ok_def split: if_splits)
  then show ?thesis
  proof
    assume "family_step (rf_id f) (present (redeemable db f requested) (rt_token_hash t) nextHash now) db db'"
    then show ?thesis by (rule family_step_moves) (rule present_moves, erule present_moves)
  qed (simp add: family_moves_refl assms(2))
next
  case False
  then consider "\<not> redeem_arguments_ok clientID hashes resource nextHash pepper now"
    | "first_presented db clientID resource hashes = None" by blast
  then have "db' = db" using assms(1) by cases (auto simp: RedeemRefreshToken_def split: if_splits)
  with assms(2) show ?thesis by (simp add: family_moves_refl)
qed

lemma revoke_moves:
  assumes "revokeInitialRefreshFamilyTx fid reason now db = Inr db'" "refresh_wf db"
  shows "family_moves db db'"
proof (cases "fid \<in> keys rf_id (id_families db)")
  case True
  then obtain f where "f \<in> set (id_families db)" "rf_id f = fid" by (auto simp: keys_def)
  then have "family_step fid close_view db db'"
    using family_step_closes [where step = close_view] revokeInitialRefreshFamilyTx_closes [OF assms] assms(2) by blast
  then show ?thesis using family_step_moves close_view_moves by blast
next
  case False
  have c: "closes fid now db db' \<and> refresh_wf db'" by (rule revokeInitialRefreshFamilyTx_closes [OF assms])
  have "id_tokens db' = id_tokens db"
    using c False assms(2) by (auto simp: closes_def revoke_in_def refresh_wf_def intro: update_where_none)
  then show ?thesis using c closes_keys by (auto simp: family_moves_def view_def Let_def)
qed

lemma CreateInitialRefreshFamily_Inr:
  assumes "CreateInitialRefreshFamily up fid tid ir db = Inr (out, db')"
  obtains f t where "insert_family f db = Inr (db\<lparr>id_families := id_families db @ [f]\<rparr>)" "rf_id f = fid" "rf_status f = ''active''"
    "insert_token t (db\<lparr>id_families := id_families db @ [f]\<rparr>) = Inr db'" "rt_family_id t = fid" "live t"
proof -
  let ?f = "(ir_family ir)\<lparr>rf_id := fid, rf_revoked_at := None, rf_expired_at := None, rf_reuse_detected_at := None,
      rf_revoke_reason_code := None, rf_version := 0\<rparr>"
  let ?t = "(ir_token ir)\<lparr>rt_id := tid, rt_family_id := fid, rt_consumed_at := None, rt_revoked_at := None,
      rt_replaced_by_id := None, rt_reuse_detected_at := None\<rparr>"
  have valid: "ValidateInitialRefreshIssuance up ir = None" and tx: "createInitialRefreshFamilyTx fid tid ir db = Inr (out, db')"
    using assms by (auto simp: CreateInitialRefreshFamily_def split: option.splits)
  from tx obtain d where d: "insert_family ?f db = Inr d" "insert_token ?t d = Inr db'"
    by (auto simp: createInitialRefreshFamilyTx_def Let_def split: sum.splits)
  have "rf_status (ir_family ir) = ''active''"
    using valid by (auto simp: ValidateInitialRefreshIssuance_def Let_def RefreshFamilyStatusActive_def require_def
        split: option.splits if_splits)
  with d that [of ?f ?t] show ?thesis by (auto simp: insert_family_Inr live_def)
qed

lemma create_wf:
  assumes wf: "refresh_wf db" and f: "insert_family f db = Inr (db\<lparr>id_families := id_families db @ [f]\<rparr>)" "rf_status f = ''active''"
    and t: "insert_token t (db\<lparr>id_families := id_families db @ [f]\<rparr>) = Inr db'" "rt_family_id t = rf_id f" "live t"
  shows "db' = db\<lparr>id_families := id_families db @ [f], id_tokens := id_tokens db @ [t]\<rparr>" "refresh_wf db'"
    "rf_id f \<notin> keys rf_id (id_families db)" "\<forall>x \<in> set (id_tokens db). rt_family_id x \<noteq> rf_id f"
proof -
  show db': "db' = db\<lparr>id_families := id_families db @ [f], id_tokens := id_tokens db @ [t]\<rparr>"
    using t(1) by (simp add: insert_token_Inr)
  show new: "rf_id f \<notin> keys rf_id (id_families db)" using f(1) by (simp add: insert_family_Inr)
  then show free: "\<forall>x \<in> set (id_tokens db). rt_family_id x \<noteq> rf_id f" using wf by (auto simp: refresh_wf_def)
  have "tokens_wf (id_tokens db @ [t])"
    using t(1) wf by (intro tokens_wf_snoc) (auto simp: insert_token_Inr token_clash_def refresh_wf_def)
  moreover have "families_wf (id_families db @ [f])"
    using wf f(1) new by (auto simp: refresh_wf_def families_wf_def insert_family_Inr intro: unique_key_snoc)
  moreover have "lifecycle_ok db'"
  proof -
    have "live_count (id_tokens db) (rf_id f) = 0" using free by (auto simp: live_count_def filter_empty_conv)
    moreover have "\<forall>x \<in> set (id_families db). rf_id x \<noteq> rf_id f" using new by (auto simp: keys_def image_iff)
    ultimately show ?thesis using wf t(2,3) f(2) by (auto simp: lifecycle_alt db' refresh_wf_def)
  qed
  ultimately show "refresh_wf db'"
    using wf t(1,2) f(1) by (auto simp: refresh_wf_def db' keys_def insert_family_Inr insert_token_Inr)
qed

lemma Create_moves:
  assumes "CreateInitialRefreshFamily up fid tid ir db = Inr (out, db')" "refresh_wf db"
  shows "family_moves db db'"
proof -
  from CreateInitialRefreshFamily_Inr [OF assms(1)] obtain f t where
    "insert_family f db = Inr (db\<lparr>id_families := id_families db @ [f]\<rparr>)" "rf_id f = fid" "rf_status f = ''active''"
    "insert_token t (db\<lparr>id_families := id_families db @ [f]\<rparr>) = Inr db'" "rt_family_id t = fid" "live t" .
  note w = create_wf [OF assms(2) this(1,3,4) this(5) [folded this(2)] this(6)] and k = this(2,5,6)
  have "fv_spent (view db' x) = fv_spent (view db x)" for x using k(3) by (simp add: view_def Let_def w(1))
  moreover have "fv_current (view db' x) = fv_current (view db x)" if "x \<in> keys rf_id (id_families db)" for x
  proof -
    from that w(3) k have "x \<noteq> rt_family_id t" by auto
    then show ?thesis by (auto simp: view_def Let_def w(1) live_of_append live_of_single split: option.split)
  qed
  ultimately show ?thesis using w(2) by (auto simp: family_moves_def w(1) keys_def)
qed

lemma refresh_step_moves: "refresh_step db db' \<Longrightarrow> refresh_wf db \<Longrightarrow> family_moves db db'"
proof (induction rule: refresh_step.induct)
  case (revoke clock fid reason now db db')
  then show ?case by (auto simp: RevokeInitialRefreshFamily_def intro: revoke_moves split: if_splits)
next
  case (revoke_owned clock hashes clientID reason now db db')
  then show ?case
    by (auto simp: RevokeOwnedInitialRefresh_def intro: revoke_moves family_moves_refl split: if_splits option.splits)
next
  case (other db' db)
  then show ?case by (simp add: family_moves_def view_def Let_def)
qed (rule Redeem_moves Create_moves, assumption+)+

definition current_hash :: "id_db \<Rightarrow> uuid \<Rightarrow> string option" where
  "current_hash db fid = map_option fst (fv_current (view db fid))"

lemma current_hash_live: "current_hash db k = Some h \<Longrightarrow> \<exists>t \<in> set (id_tokens db). live t \<and> rt_token_hash t = h"
  by (auto simp: current_hash_def view_def Let_def dest: live_of_Some)

interpretation rf: token_families refresh_wf refresh_step current_hash "\<lambda>db k. fv_spent (view db k)"
  "\<lambda>db k. k \<in> keys rf_id (id_families db)"
proof
  fix db db' k j h
  assume wf: "refresh_wf db"
  { assume "refresh_step db db'"
    note m = refresh_step_moves [OF this wf]
    then show "refresh_wf db'" "fv_spent (view db k) \<subseteq> fv_spent (view db' k)" by (auto simp: family_moves_def)
    assume "k \<in> keys rf_id (id_families db)"
    with m show "k \<in> keys rf_id (id_families db')" by (auto simp: family_moves_def)
    assume "current_hash db k = None"
    with m \<open>k \<in> keys rf_id (id_families db)\<close> show "current_hash db' k = None" by (auto simp: family_moves_def current_hash_def) }
  assume "current_hash db k = Some h"
  with wf current_hash_live [OF this] show "h \<notin> fv_spent (view db j)"
    by (auto simp: view_def Let_def spent_of_def refresh_wf_def tokens_wf_def dest: unique_key_eq)
qed

lemma redeem_success:
  assumes "RedeemRefreshToken i hashes clientID resource requested nextHash pepper now db = (Inr r, db')" "refresh_wf db"
  shows "redeem_arguments_ok clientID hashes resource nextHash pepper now"
    "first_presented db clientID resource hashes = Some (rr_previous r, rr_family r)"
    "current_hash db (rf_id (rr_family r)) = Some (rt_token_hash (rr_previous r))"
    "rt_token_hash (rr_previous r) \<in> fv_spent (view db' (rf_id (rr_family r)))"
proof -
  show args: "redeem_arguments_ok clientID hashes resource nextHash pepper now"
    using assms(1) by (auto simp: RedeemRefreshToken_def split: if_splits)
  obtain t f where tf: "first_presented db clientID resource hashes = Some (t, f)"
    using assms(1) args by (cases "first_presented db clientID resource hashes") (auto simp: RedeemRefreshToken_def)
  have eq: "rr_previous r = t \<and> rr_family r = f"
    using assms(1) args tf
    by (auto simp: RedeemRefreshToken_def refuse_redemption_def Let_def split: sum.splits if_splits option.splits)
  with tf show "first_presented db clientID resource hashes = Some (rr_previous r, rr_family r)" by simp
  from RedeemRefreshToken_ok [OF assms(2) args tf, of requested i] assms(1)
  have ok: "family_step (rf_id f) (present (redeemable db f requested) (rt_token_hash t) nextHash now) db db'"
    "accepts (redeemable db f requested) (rt_token_hash t) now (view db (rf_id f))"
    by (simp_all add: redeem_ok_def fails_in_storage_def)
  from ok(2) obtain e where cur: "fv_current (view db (rf_id f)) = Some (rt_token_hash t, e)" "redeemable db f requested"
      "fresh_in (view db (rf_id f)) e now"
    by (auto simp: accepts_def split: option.splits)
  then show "current_hash db (rf_id (rr_family r)) = Some (rt_token_hash (rr_previous r))" by (simp add: current_hash_def eq)
  from cur ok(1) show "rt_token_hash (rr_previous r) \<in> fv_spent (view db' (rf_id (rr_family r)))"
    by (simp add: eq family_step_def present_def)
qed

section \<open>When the statements succeed\<close>

lemma one_live_of_wf: "refresh_wf db \<Longrightarrow> one_live (id_tokens db)"
proof -
  assume wf: "refresh_wf db"
  have le: "live_count (id_tokens db) x \<le> 1" for x
  proof (cases "x \<in> keys rf_id (id_families db)")
    case True
    then obtain f where "f \<in> set (id_families db)" "x = rf_id f" by (auto simp: keys_def)
    with live_count_le [OF wf] show ?thesis by simp
  next
    case False
    then have "filter (\<lambda>t. live t \<and> rt_family_id t = x) (id_tokens db) = []" using wf by (auto simp: filter_empty_conv refresh_wf_def)
    then show ?thesis by (simp add: live_count_def)
  qed
  have "distinct (map rt_family_id (filter live toks))" if "\<And>x. live_count toks x \<le> 1" for toks
    using that
  proof (induction toks)
    case (Cons t ts)
    have "live_count ts x \<le> 1" for x using Cons.prems [of x] by simp
    moreover have "rt_family_id t \<notin> rt_family_id ` (set ts \<inter> {x. live x})" if "live t"
    proof -
      have "live_count ts (rt_family_id t) = 0" using Cons.prems [of "rt_family_id t"] that by simp
      then show ?thesis by (auto simp: live_count_def filter_empty_conv)
    qed
    ultimately show ?case using Cons.IH by auto
  qed simp
  with le show ?thesis by (simp add: one_live_def)
qed

lemma one_live_revoke: "one_live toks \<Longrightarrow> one_live (revoke_in fid now toks)"
proof (induction toks)
  case (Cons t ts)
  have "rt_family_id ` (set (revoke_in fid now ts) \<inter> {x. live x}) \<subseteq> rt_family_id ` (set ts \<inter> {x. live x})"
    by (auto simp: revoke_in_def in_update_where split: if_splits)
  with Cons show ?case by (auto simp: one_live_def)
qed (simp add: one_live_def)

lemma revoke_live_succeeds:
  assumes wf: "refresh_wf db" and now: "\<forall>x \<in> set (id_tokens db). rt_family_id x = fid \<longrightarrow> rt_issued_at x \<le> now"
  shows "revoke_live fid now db = Inr (db\<lparr>id_tokens := revoke_in fid now (id_tokens db)\<rparr>)"
proof -
  have "token_ok (t\<lparr>rt_revoked_at := Some now\<rparr>)" if "t \<in> set (id_tokens db)" "rt_family_id t = fid" "live t" for t
  proof -
    have "token_ok t" using wf that(1) by (simp add: refresh_wf_def tokens_wf_def)
    with that now show ?thesis by (auto simp: token_ok_def live_def after_def)
  qed
  with one_live_revoke [OF one_live_of_wf [OF wf], of fid now] show ?thesis
    by (simp add: revoke_live_def update_tokens_Inr live_alt revoke_in_def)
qed

lemma close_grant_succeeds:
  assumes "\<forall>g \<in> set (id_grants db). grant_ok g" "st \<in> {''revoked'', ''expired''}"
  shows "\<exists>db'. close_grant st fid reason now db = Inr db'"
  using assms by (auto simp: close_grant_def update_grants_Inr grant_ok_def)

lemma markRefreshReuse_outcome:
  assumes wf: "refresh_wf db" and f: "f \<in> set (id_families db)"
    and now: "\<forall>x \<in> set (id_tokens db). rt_family_id x = rf_id f \<longrightarrow> rt_issued_at x \<le> now"
  shows "case markRefreshReuse (rf_id f) now db of Inl e \<Rightarrow> rf_status f = ''expired'' \<and> e = IdCheck ''oauth_refresh_families''
     | Inr db' \<Rightarrow> rf_status f \<noteq> ''expired''"
proof -
  let ?g = "\<lambda>f. f\<lparr>rf_status := ''reuse_detected'', rf_revoked_at := Some now, rf_reuse_detected_at := Some now,
      rf_revoke_reason_code := Some ''refresh_reuse'', rf_version := rf_version f + 1\<rparr>"
  let ?d = "db\<lparr>id_tokens := revoke_in (rf_id f) now (id_tokens db)\<rparr>"
  have only: "x = f" if "x \<in> set (id_families db)" "rf_id x = rf_id f" for x
    using wf f that unique_key_eq [of rf_id] by (auto simp: refresh_wf_def families_wf_def)
  have "family_ok f" using wf f by (simp add: refresh_wf_def families_wf_def)
  then have ok: "family_ok (?g f) \<longleftrightarrow> rf_status f \<noteq> ''expired''"
    by (auto simp: family_ok_def family_lifetime_ck_def family_state_ck_def)
  have run: "markRefreshReuse (rf_id f) now db =
      then_do (update_families (\<lambda>x. rf_id x = rf_id f) ?g ?d) (close_grant ''revoked'' (rf_id f) ''refresh_reuse'' now)"
    unfolding markRefreshReuse_def revoke_live_succeeds [OF wf now] by (simp add: then_do_def)
  show ?thesis
  proof (cases "rf_status f = ''expired''")
    case True
    then have "update_families (\<lambda>x. rf_id x = rf_id f) ?g ?d = Inl (IdCheck ''oauth_refresh_families'')"
      using f ok by (auto simp: update_families_def checked_update_def list_all_iff)
    with True show ?thesis by (simp add: run then_do_def)
  next
    case False
    let ?d2 = "?d\<lparr>id_families := update_where (\<lambda>x. rf_id x = rf_id f) ?g (id_families db)\<rparr>"
    have "update_families (\<lambda>x. rf_id x = rf_id f) ?g ?d = Inr ?d2"
      using False only ok by (auto simp: update_families_Inr)
    moreover have "\<forall>g \<in> set (id_grants ?d2). grant_ok g" using wf by (simp add: refresh_wf_def grants_wf_def)
    then obtain d' where "close_grant ''revoked'' (rf_id f) ''refresh_reuse'' now ?d2 = Inr d'"
      using close_grant_succeeds [of ?d2 "''revoked''"] by blast
    ultimately show ?thesis using False by (simp add: run then_do_def)
  qed
qed

lemma one_live_append: "one_live (xs @ ys) \<longleftrightarrow> one_live xs \<and> one_live ys \<and>
    rt_family_id ` (set xs \<inter> {t. live t}) \<inter> rt_family_id ` (set ys \<inter> {t. live t}) = {}"
  by (auto simp: one_live_def)

lemma one_live_consumed:
  assumes wf: "refresh_wf db" and prev: "prev \<in> set (id_tokens db)" "live prev"
  shows "one_live (consumed prev i now (id_tokens db))"
    "\<forall>x \<in> set (consumed prev i now (id_tokens db)). live x \<longrightarrow> rt_family_id x \<noteq> rt_family_id prev"
proof -
  let ?c = "consumed prev i now (id_tokens db)"
  have "one_live (consumed prev i now toks)" if "one_live toks" for toks
    using that
  proof (induction toks)
    case (Cons t ts)
    have "rt_family_id ` (set (consumed prev i now ts) \<inter> {x. live x}) \<subseteq> rt_family_id ` (set ts \<inter> {x. live x})"
      by (auto simp: consumed_def in_update_where split: if_splits)
    with Cons show ?case by (cases "live t") (auto simp: one_live_def)
  qed (simp add: one_live_def)
  then show "one_live ?c" using one_live_of_wf [OF wf] by blast
  obtain f where f: "f \<in> set (id_families db)" "rf_id f = rt_family_id prev" using wf prev(1) by (auto simp: refresh_wf_def keys_def)
  have u: "unique_key rt_id (id_tokens db)" using wf by (simp add: refresh_wf_def tokens_wf_def)
  have "live_count ?c (rt_family_id prev) = 0"
    using live_count_consumed [OF u prev, of i now "rt_family_id prev"] live_count_le [OF wf f(1)] f(2) by simp
  then show "\<forall>x \<in> set ?c. live x \<longrightarrow> rt_family_id x \<noteq> rt_family_id prev"
    by (auto simp: live_count_def filter_empty_conv)
qed

lemma rotated_ok:
  assumes "family_ok f" "rf_status f = ''active''" "rf_last_rotated_at f \<le> now" "now < rf_absolute_expires_at f"
  shows "family_ok (rotated now f)"
  using assms by (auto simp: family_ok_def family_lifetime_ck_def family_state_ck_def rotated_def MaxRefreshIdle_def hour_def)

lemma rotate_succeeds:
  assumes wf: "refresh_wf db" and prev: "prev \<in> set (id_tokens db)" "live prev" "rt_issued_at prev \<le> now"
    and f: "f \<in> set (id_families db)" "rf_id f = rt_family_id prev" "rf_last_rotated_at f \<le> now" "\<not> expired_at now prev f"
    and new: "\<forall>x \<in> set (id_tokens db). rt_id x \<noteq> i \<and> rt_token_hash x \<noteq> nextHash \<and>
      (rt_family_id x = rf_id f \<longrightarrow> rt_sequence x \<le> rt_sequence prev)"
    and args: "length nextHash = 32" "0 < pepper"
  shows "\<exists>db'. rotate_token prev (successor i f nextHash pepper prev now) (rf_id f) now db = Inr db'"
proof -
  let ?n = "successor i f nextHash pepper prev now" and ?toks = "consumed prev i now (id_tokens db)"
  let ?c = "\<lambda>t. t\<lparr>rt_consumed_at := Some now, rt_replaced_by_id := Some i\<rparr>"
  let ?p = "\<lambda>t. rt_id t = rt_id prev \<and> rt_consumed_at t = None \<and> rt_revoked_at t = None"
  have n: "rt_id ?n = i" by (simp add: successor_def)
  have okp: "token_ok prev" using wf prev(1) by (simp add: refresh_wf_def tokens_wf_def)
  have ins: "insert_token ?n db = Inr (db\<lparr>id_tokens := id_tokens db @ [?n]\<rparr>)"
    using new args f(1,4) okp by (auto simp: insert_token_Inr token_ok_def token_clash_def successor_def after_def expired_at_def keys_def live_def)
  have one: "?p t \<longleftrightarrow> rt_id t = rt_id prev" if "t \<in> set (id_tokens db)" for t
    using that wf prev(1,2) unique_key_eq [of rt_id "id_tokens db" t prev] by (auto simp: refresh_wf_def tokens_wf_def live_def)
  have same: "t = prev" if "t \<in> set (id_tokens db)" "rt_id t = rt_id prev" for t
    using that wf prev(1) unique_key_eq [of rt_id "id_tokens db" t prev] by (auto simp: refresh_wf_def tokens_wf_def)
  have upd: "update_where ?p ?c (id_tokens db @ [?n]) = ?toks @ [?n]"
    using one by (auto simp: consumed_def update_where_def successor_def)
  have dead: "\<not> live ?n" "live (?n\<lparr>rt_revoked_at := None\<rparr>)" "rt_family_id ?n = rt_family_id prev"
    using f(2) by (simp_all add: live_def successor_def)
  have "token_ok (?c prev)" using okp prev(2,3) new prev(1) by (auto simp: token_ok_def live_def after_def)
  then have con: "update_tokens ?p ?c (db\<lparr>id_tokens := id_tokens db @ [?n]\<rparr>) = Inr (db\<lparr>id_tokens := ?toks @ [?n]\<rparr>)"
    using same one_live_consumed(1) [OF wf prev(1,2), of i now] dead(1) upd
    by (auto simp: update_tokens_Inr one_live_append) (auto simp: one_live_def successor_def)
  have ids: "\<forall>x \<in> set ?toks. rt_id x \<noteq> i" using new unfolding consumed_def ball_update by auto
  then have upd2: "update_where (\<lambda>t. rt_id t = i) (\<lambda>t. t\<lparr>rt_revoked_at := None\<rparr>) (?toks @ [?n]) = ?toks @ [?n\<lparr>rt_revoked_at := None\<rparr>]"
    by (simp add: update_where_append update_where_none) (simp add: update_where_def n)
  have "token_ok (?n\<lparr>rt_revoked_at := None\<rparr>)"
    using ins by (auto simp: insert_token_Inr token_ok_def successor_def after_def)
  then have unrev: "update_tokens (\<lambda>t. rt_id t = i) (\<lambda>t. t\<lparr>rt_revoked_at := None\<rparr>) (db\<lparr>id_tokens := ?toks @ [?n]\<rparr>) =
      Inr (db\<lparr>id_tokens := ?toks @ [?n\<lparr>rt_revoked_at := None\<rparr>]\<rparr>)"
    using ids one_live_consumed [OF wf prev(1,2), of i now] dead upd2
    by (auto simp: update_tokens_Inr one_live_append) (auto simp: one_live_def)
  have "family_ok (rotated now x)" if "x \<in> set (id_families db)" "rf_id x = rf_id f" for x
  proof -
    have "x = f" using that f(1) wf unique_key_eq [of rf_id] by (auto simp: refresh_wf_def families_wf_def)
    moreover have "rf_status f = ''active''" using live_view(2) [OF wf f(1) prev(1)] f(2) prev(2) by simp
    ultimately show ?thesis using rotated_ok f(1,3,4) wf by (auto simp: expired_at_def refresh_wf_def families_wf_def)
  qed
  then show ?thesis
    unfolding rotate_token_def then_do_def ins n sum.case con unrev rotated_def [symmetric] by (auto simp: update_families_Inr)
qed

end
