(* ===== verification/Identity_Refresh_Props.thy ===== *)
theory Identity_Refresh_Props
  imports Identity_Refresh_Machine
begin

text \<open>
  The properties of refresh-token families, with a family in use on which each is applied.
\<close>

section \<open>Properties\<close>

text \<open>
  C7.  Refinement.  A redemption that finds the presented token in a family of the client and resource does to that
  family what the abstract machine does when the token is presented, and nothing to any other family: the current token
  in time is replaced by its successor, a late one or a spent one closes the family; the redemption succeeds
  exactly when the machine accepts.  When a statement violates a constraint the tables stay as they were.
\<close>

theorem redeem_refines_family_machine:
  assumes "refresh_wf db" "redeem_arguments_ok clientID hashes resource nextHash pepper now"
    "first_presented db clientID resource hashes = Some (t, f)"
    "RedeemRefreshToken new_id hashes clientID resource requested nextHash pepper now db = (res, db')"
  shows "if fails_in_storage res then db' = db
    else refresh_wf db' \<and>
      (\<forall>x. view db' x = (if x = rf_id f then present (redeemable db f requested) (rt_token_hash t) nextHash now (view db x)
                          else view db x)) \<and>
      ((\<exists>r. res = Inr r) \<longleftrightarrow> accepts (redeemable db f requested) (rt_token_hash t) now (view db (rf_id f)))"
  using RedeemRefreshToken_ok [OF assms(1-3), of requested new_id] assms(4)
  by (simp add: redeem_ok_def family_step_def split: if_splits)

text \<open>
  C8.  A refresh token is redeemed at most once.  After a redemption succeeded, whatever the service does next --
  redeeming, revoking and opening families, in any order -- no later redemption succeeds with the same token.
\<close>

theorem refresh_token_redeemed_at_most_once:
  assumes "refresh_wf db"
    and "RedeemRefreshToken i hashes clientID resource requested nextHash pepper now db = (Inr r, db1)"
    and "refresh_step\<^sup>*\<^sup>* db1 db2"
    and "RedeemRefreshToken i' hashes' clientID' resource' requested' nextHash' pepper' now' db2 = (Inr r', db3)"
  shows "rt_token_hash (rr_previous r') \<noteq> rt_token_hash (rr_previous r)"
proof -
  have wf1: "refresh_wf db1" by (rule rf.step_inv [OF redeem [OF assms(2)] assms(1)])
  from redeem_success(3) [OF assms(4) rf.run_inv [OF assms(3) wf1]]
    rf.never_again [OF assms(3) wf1 redeem_success(4) [OF assms(2,1)]] show ?thesis by metis
qed

text \<open>
  C9.  Presenting a spent token closes its family for good: once such a redemption has been answered, no redemption of
  any token of that family ever succeeds, whatever happens in between.
\<close>

theorem reuse_closes_family_forever:
  assumes "refresh_wf db" "redeem_arguments_ok clientID hashes resource nextHash pepper now"
    and "first_presented db clientID resource hashes = Some (t, f)" "\<not> live t"
    and "RedeemRefreshToken i hashes clientID resource requested nextHash pepper now db = (res, db1)" "\<not> fails_in_storage res"
    and "refresh_step\<^sup>*\<^sup>* db1 db2"
    and "RedeemRefreshToken i' hashes' clientID' resource' requested' nextHash' pepper' now' db2 = (Inr r', db3)"
  shows "rf_id (rr_family r') \<noteq> rf_id f"
proof -
  have wf1: "refresh_wf db1" by (rule rf.step_inv [OF redeem [OF assms(5)] assms(1)])
  from first_presented_Some [OF assms(3)] have t: "t \<in> set (id_tokens db)" "f \<in> set (id_families db)" "rt_family_id t = rf_id f" by simp_all
  note spent = spent_view [OF assms(1) t(1,3) assms(4)]
  have "family_step (rf_id f) (present (redeemable db f requested) (rt_token_hash t) nextHash now) db db1"
    using RedeemRefreshToken_ok [OF assms(1-3), of requested i] assms(5,6) by (simp add: redeem_ok_def)
  then have "view db1 (rf_id f) = close_view (view db (rf_id f))" "rf_id f \<in> keys rf_id (id_families db1)"
    using present_spent [of "rt_token_hash t" "view db (rf_id f)"] spent t(2) by (auto simp: family_step_def keys_def)
  then have "current_hash db2 (rf_id f) = None"
    using rf.run_closed [OF assms(7) wf1] by (simp add: current_hash_def close_view_def)
  with redeem_success(3) [OF assms(8) rf.run_inv [OF assms(7) wf1]] show ?thesis by auto
qed

text \<open>
   What presenting a spent token answers.  Reuse is recorded and answered as a conflict, except for a family
  that has expired: its row keeps \<^verbatim>\<open>expired_at\<close>, which the \<^verbatim>\<open>CHECK\<close> on the status forbids beside
  \<^verbatim>\<open>reuse_detected\<close>, so the statement fails and the tables stay as they were.
\<close>

theorem spent_token_outcome:
  assumes "refresh_wf db" "redeem_arguments_ok clientID hashes resource nextHash pepper now"
    "first_presented db clientID resource hashes = Some (t, f)" "\<not> live t"
    "\<forall>x \<in> set (id_tokens db). rt_family_id x = rf_id f \<longrightarrow> rt_issued_at x \<le> now"
  shows "fst (RedeemRefreshToken i hashes clientID resource requested nextHash pepper now db) =
    Inl (if rf_status f = ''expired'' then IdCheck ''oauth_refresh_families'' else IdConflict ''refresh token'')"
proof -
  from first_presented_Some [OF assms(3)] have f: "f \<in> set (id_families db)" by simp
  from grant_found [OF assms(1) f] obtain g where g: "GetOAuthGrant db (rf_grant_id f) = Inr g" by blast
  have "RedeemRefreshToken i hashes clientID resource requested nextHash pepper now db = refuse_redemption t f now db"
    using assms(2-4) g by (auto simp: RedeemRefreshToken_def live_def)
  also have "\<dots> = (case markRefreshReuse (rf_id f) now db of Inl e \<Rightarrow> (Inl e, db) | Inr db' \<Rightarrow> (Inl (IdConflict ''refresh token''), db'))"
    using assms(4) by (auto simp: refuse_redemption_def live_def)
  finally show ?thesis using markRefreshReuse_outcome [OF assms(1) f assms(5)] by (simp split: sum.splits)
qed

text \<open>
   The client that follows the protocol gets through.  The current token of a family, presented in time by its client with
  scopes the grant has, is exchanged: the redemption succeeds with it, and the current token of the family is then the
  one just issued.  The new identifier and hash are fresh and the clock has not gone backwards.
\<close>

theorem refresh_in_time_succeeds:
  assumes wf: "refresh_wf db" and args: "redeem_arguments_ok clientID hashes resource nextHash pepper now"
    and found: "first_presented db clientID resource hashes = Some (t, f)"
    and t: "live t" "\<not> expired_at now t f" "redeemable db f requested"
    and clock: "rt_issued_at t \<le> now" "rf_last_rotated_at f \<le> now"
    and new: "\<forall>x \<in> set (id_tokens db). rt_id x \<noteq> i \<and> rt_token_hash x \<noteq> nextHash \<and>
      (rt_family_id x = rf_id f \<longrightarrow> rt_sequence x \<le> rt_sequence t)"
  shows "\<exists>r db'. RedeemRefreshToken i hashes clientID resource requested nextHash pepper now db = (Inr r, db') \<and>
    rr_previous r = t \<and> current_hash db' (rf_id f) = Some nextHash"
proof -
  from first_presented_Some [OF found] have tf: "t \<in> set (id_tokens db)" "f \<in> set (id_families db)" "rf_id f = rt_family_id t" by simp_all
  obtain g b where g: "GetOAuthGrant db (rf_grant_id f) = Inr g" "gr_status g = ''active''"
    "validateRefreshScope (gr_scopes g) requested = None" "LoadConsumeBindings db (gr_id g) = Inr b"
    using t(3) by (auto simp: redeemable_def)
  have "rf_status f = ''active''" using live_view(2) [OF wf tf(2,1)] tf(3) t(1) by simp
  moreover obtain d where "rotate_token t (successor i f nextHash pepper t now) (rf_id f) now db = Inr d"
    using rotate_succeeds [OF wf tf(1) t(1) clock(1) tf(2,3) clock(2) t(2) new] args by (auto simp: redeem_arguments_ok_def)
  ultimately obtain r where r: "RedeemRefreshToken i hashes clientID resource requested nextHash pepper now db = (Inr r, d)" "rr_previous r = t"
    using args found g t(1,2) by (cases b) (simp add: RedeemRefreshToken_def live_def RefreshFamilyStatusActive_def)
  have "family_step (rf_id f) (present (redeemable db f requested) (rt_token_hash t) nextHash now) db d"
    using RedeemRefreshToken_ok [OF wf args found, of requested i] by (simp add: redeem_ok_def fails_in_storage_def r(1))
  then have "current_hash d (rf_id f) = Some nextHash"
    using live_step(1) [OF wf tf t(1)] t(2,3) by (simp add: family_step_def current_hash_def)
  with r show ?thesis by blast
qed

section \<open>A family in use\<close>

text \<open>
  A client holds a family whose first token has been rotated once: the hashes are \<open>aa..\<close> (spent) and \<open>bb..\<close> (current).
\<close>

definition ex_hash :: "char \<Rightarrow> string" where "ex_hash c = replicate 32 c"

definition ex_grant :: OAuthGrant where
  "ex_grant = \<lparr>gr_id = ''g1'', gr_account_id = Some ''acct'', gr_service_principal_id = None, gr_oauth_client_id = ''c1'',
     gr_provider_session_association_id = Some ''a1'', gr_resource_uri = ''https://api'', gr_audience = ''api'',
     gr_scopes = [''read'', ''write''], gr_subject_class = ''human'', gr_status = ''active'', gr_granted_at = 0,
     gr_not_after = 90 * 24 * hour, gr_revoked_at = None, gr_revoke_reason_code = None, gr_version = 0\<rparr>"

definition ex_association :: ProviderSessionAssociation where
  "ex_association = \<lparr>pa_id = ''a1'', pa_account_id = ''acct'', pa_stytch_mapping_id = ''m1'', pa_provider = ''stytch_b2b'',
     pa_provider_project_id = ''p'', pa_provider_organization_id = ''o'', pa_provider_member_id = ''m'',
     pa_provider_member_session_id = ''s'', pa_provider_expires_at = 90 * 24 * hour, pa_status = ''active'',
     pa_last_validated_at = 0, pa_revoked_at = None, pa_revoke_reason_code = None\<rparr>"

definition ex_family :: OAuthRefreshFamily where
  "ex_family = \<lparr>rf_id = ''f1'', rf_grant_id = ''g1'', rf_oauth_client_id = ''c1'', rf_resource_uri = ''https://api'',
     rf_status = ''active'', rf_absolute_expires_at = 60 * 24 * hour, rf_idle_expires_at = 15 * 24 * hour,
     rf_last_rotated_at = 24 * hour, rf_revoked_at = None, rf_expired_at = None, rf_reuse_detected_at = None,
     rf_revoke_reason_code = None, rf_version = 1\<rparr>"

definition ex_spent :: OAuthRefreshToken where
  "ex_spent = \<lparr>rt_id = ''t1'', rt_family_id = ''f1'', rt_token_hash = ex_hash CHR ''a'', rt_pepper_version = 1, rt_sequence = 0,
     rt_issued_at = 0, rt_expires_at = 14 * 24 * hour, rt_consumed_at = Some (24 * hour), rt_revoked_at = None,
     rt_replaced_by_id = Some ''t2'', rt_reuse_detected_at = None\<rparr>"

definition ex_current :: OAuthRefreshToken where
  "ex_current = \<lparr>rt_id = ''t2'', rt_family_id = ''f1'', rt_token_hash = ex_hash CHR ''b'', rt_pepper_version = 1, rt_sequence = 1,
     rt_issued_at = 24 * hour, rt_expires_at = 14 * 24 * hour, rt_consumed_at = None, rt_revoked_at = None,
     rt_replaced_by_id = None, rt_reuse_detected_at = None\<rparr>"

text \<open>A second grant, with a family of one token (\<open>dd..\<close>).\<close>

definition ex_grant2 :: OAuthGrant where "ex_grant2 = ex_grant\<lparr>gr_id := ''g2''\<rparr>"

definition ex_family2 :: OAuthRefreshFamily where "ex_family2 = ex_family\<lparr>rf_id := ''f2'', rf_grant_id := ''g2''\<rparr>"

definition ex_current2 :: OAuthRefreshToken where
  "ex_current2 = ex_current\<lparr>rt_id := ''t9'', rt_family_id := ''f2'', rt_token_hash := ex_hash CHR ''d'', rt_sequence := 0\<rparr>"

definition ex_db :: id_db where
  "ex_db = \<lparr>id_clients = [], id_redirects = [], id_associations = [ex_association], id_grants = [ex_grant, ex_grant2], id_codes = [],
     id_families = [ex_family, ex_family2], id_tokens = [ex_spent, ex_current, ex_current2], id_replays = [], id_audits = [], id_signing_kids = [],
     id_keys = [], id_brokers = [], id_accounts = [], id_mappings = []\<rparr>"

text \<open>The client presents the hash made of one character; the next token has the hash made of the other.\<close>

definition ex_redeem :: "uuid \<Rightarrow> char \<Rightarrow> char \<Rightarrow> time \<Rightarrow> id_db \<Rightarrow> (id_error + RefreshRedemption) \<times> id_db" where
  "ex_redeem i h nh now = RedeemRefreshToken i [ex_hash h] ''c1'' ''https://api'' [''read''] (ex_hash nh) 1 now"

lemma ex_wf: "refresh_wf ex_db"
  by code_simp

lemma ex_arguments: "redeem_arguments_ok ''c1'' [ex_hash CHR ''a''] ''https://api'' (ex_hash CHR ''c'') 1 (48 * hour)"
  "redeem_arguments_ok ''c1'' [ex_hash CHR ''b''] ''https://api'' (ex_hash CHR ''c'') 1 (48 * hour)"
  by code_simp+

lemma ex_presented: "first_presented ex_db ''c1'' ''https://api'' [ex_hash CHR ''a''] = Some (ex_spent, ex_family)"
  "first_presented ex_db ''c1'' ''https://api'' [ex_hash CHR ''b''] = Some (ex_current, ex_family)"
  by code_simp+

lemma ex_redeemable: "redeemable ex_db ex_family [''read'']"
proof -
  have "GetOAuthGrant ex_db (rf_grant_id ex_family) = Inr ex_grant" "gr_status ex_grant = ''active''"
    "validateRefreshScope (gr_scopes ex_grant) [''read''] = None" "LoadConsumeBindings ex_db (gr_id ex_grant) = Inr (ex_grant, ex_association)"
    by code_simp+
  then show ?thesis unfolding redeemable_def by blast
qed

definition ex_first :: "(id_error + RefreshRedemption) \<times> id_db" where
  "ex_first = ex_redeem ''t3'' CHR ''b'' CHR ''c'' (48 * hour) ex_db"

definition ex_second :: "(id_error + RefreshRedemption) \<times> id_db" where
  "ex_second = ex_redeem ''t4'' CHR ''c'' CHR ''e'' (72 * hour) (snd ex_first)"

definition ex_reuse :: "(id_error + RefreshRedemption) \<times> id_db" where
  "ex_reuse = ex_redeem ''t3'' CHR ''a'' CHR ''c'' (48 * hour) ex_db"

definition ex_other :: "(id_error + RefreshRedemption) \<times> id_db" where
  "ex_other = ex_redeem ''t4'' CHR ''d'' CHR ''e'' (72 * hour) (snd ex_reuse)"

theorem redeem_refines_family_machine_witness:
  "\<not> fails_in_storage (fst ex_first) \<and> refresh_wf (snd ex_first) \<and>
   view (snd ex_first) ''f1'' = present (redeemable ex_db ex_family [''read'']) (ex_hash CHR ''b'') (ex_hash CHR ''c'') (48 * hour) (view ex_db ''f1'') \<and>
   view (snd ex_first) ''f2'' = view ex_db ''f2''"
proof -
  have "\<not> fails_in_storage (fst ex_first)" "rf_id ex_family = ''f1''" "rt_token_hash ex_current = ex_hash CHR ''b''" by code_simp+
  moreover have "ex_first = (fst ex_first, snd ex_first)" by simp
  ultimately show ?thesis
    using redeem_refines_family_machine [OF ex_wf ex_arguments(2) ex_presented(2), of "''t3''" "[''read'']" "fst ex_first" "snd ex_first"]
    by (simp add: ex_first_def ex_redeem_def)
qed

lemma succeeded: "\<not> isl (fst p) \<Longrightarrow> p = (Inr (projr (fst p)), snd p)"
  by (cases p) (metis fst_conv snd_conv sum.collapse(2))

theorem refresh_token_redeemed_at_most_once_witness:
  "\<not> isl (fst ex_first) \<and> \<not> isl (fst ex_second) \<and>
   rt_token_hash (rr_previous (projr (fst ex_second))) \<noteq> rt_token_hash (rr_previous (projr (fst ex_first)))"
proof -
  have ok: "\<not> isl (fst ex_first)" "\<not> isl (fst ex_second)" by code_simp+
  from refresh_token_redeemed_at_most_once [OF ex_wf succeeded [OF ok(1), unfolded ex_first_def ex_redeem_def] rtranclp.rtrancl_refl
      succeeded [OF ok(2), unfolded ex_second_def ex_first_def ex_redeem_def]] ok
  show ?thesis unfolding ex_second_def ex_first_def ex_redeem_def by blast
qed

theorem reuse_closes_family_forever_witness:
  "\<not> live ex_spent \<and> \<not> isl (fst ex_other) \<and> rf_id (rr_family (projr (fst ex_other))) \<noteq> rf_id ex_family"
proof -
  have ok: "\<not> live ex_spent" "\<not> fails_in_storage (fst ex_reuse)" "\<not> isl (fst ex_other)" by code_simp+
  have step: "RedeemRefreshToken ''t3'' [ex_hash CHR ''a''] ''c1'' ''https://api'' [''read''] (ex_hash CHR ''c'') 1 (48 * hour) ex_db =
      (fst ex_reuse, snd ex_reuse)" by (simp add: ex_reuse_def ex_redeem_def)
  from reuse_closes_family_forever [OF ex_wf ex_arguments(1) ex_presented(1) ok(1) step ok(2) rtranclp.rtrancl_refl
      succeeded [OF ok(3), unfolded ex_other_def ex_redeem_def]] ok
  show ?thesis unfolding ex_other_def ex_redeem_def by blast
qed

text \<open>The family of the example after its current token came too late.\<close>

definition ex_expired :: id_db where
  "ex_expired = snd (ex_redeem ''t3'' CHR ''b'' CHR ''c'' (20 * 24 * hour) ex_db)"

theorem spent_token_outcome_witness:
  "fst ex_reuse = Inl (IdConflict ''refresh token'') \<and>
   fst (ex_redeem ''t3'' CHR ''b'' CHR ''c'' (21 * 24 * hour) ex_expired) = Inl (IdCheck ''oauth_refresh_families'')"
proof -
  let ?t = "ex_current\<lparr>rt_revoked_at := Some (20 * 24 * hour)\<rparr>"
  let ?f = "ex_family\<lparr>rf_status := ''expired'', rf_expired_at := Some (20 * 24 * hour), rf_revoke_reason_code := Some ''expired'', rf_version := 2\<rparr>"
  have a: "\<not> live ex_spent" "\<forall>x \<in> set (id_tokens ex_db). rt_family_id x = rf_id ex_family \<longrightarrow> rt_issued_at x \<le> 48 * hour"
    "rf_status ex_family \<noteq> ''expired''"
    by code_simp+
  have b: "refresh_wf ex_expired" "redeem_arguments_ok ''c1'' [ex_hash CHR ''b''] ''https://api'' (ex_hash CHR ''c'') 1 (21 * 24 * hour)"
    "first_presented ex_expired ''c1'' ''https://api'' [ex_hash CHR ''b''] = Some (?t, ?f)" "\<not> live ?t"
    "\<forall>x \<in> set (id_tokens ex_expired). rt_family_id x = rf_id ?f \<longrightarrow> rt_issued_at x \<le> 21 * 24 * hour"
    by code_simp+
  show ?thesis
    using spent_token_outcome [OF ex_wf ex_arguments(1) ex_presented(1) a(1,2), of "''t3''" "[''read'']"] a(3)
      spent_token_outcome [OF b, of "''t3''" "[''read'']"]
    by (simp add: ex_reuse_def ex_redeem_def)
qed

theorem refresh_in_time_succeeds_witness:
  "\<exists>r db'. ex_first = (Inr r, db') \<and> rr_previous r = ex_current \<and> current_hash db' ''f1'' = Some (ex_hash CHR ''c'')"
proof -
  have c: "live ex_current" "\<not> expired_at (48 * hour) ex_current ex_family" "rt_issued_at ex_current \<le> 48 * hour"
    "rf_last_rotated_at ex_family \<le> 48 * hour" "rf_id ex_family = ''f1''"
    "\<forall>x \<in> set (id_tokens ex_db). rt_id x \<noteq> ''t3'' \<and> rt_token_hash x \<noteq> ex_hash CHR ''c'' \<and>
      (rt_family_id x = rf_id ex_family \<longrightarrow> rt_sequence x \<le> rt_sequence ex_current)"
    by code_simp+
  from refresh_in_time_succeeds [OF ex_wf ex_arguments(2) ex_presented(2) c(1,2) ex_redeemable c(3,4,6)] c(5)
  show ?thesis by (simp add: ex_first_def ex_redeem_def)
qed

end
