(* ===== verification/Identity_Retry.thy ===== *)
theory Identity_Retry
  imports Identity_Model "HOL-Library.Sublist"
begin

text \<open>
  Serializable transactions with retries (\<^verbatim>\<open>WithSerializableRetry\<close>, \<^verbatim>\<open>sleepSerializableBackoff\<close> and the failure classes of
  \<^verbatim>\<open>repo/oauth_broker.go\<close>).

  What the loop cannot control is given per attempt as an \<open>attempt_env\<close>: whether the context is done, what other transactions
  committed meanwhile, how \<^verbatim>\<open>BeginTx\<close> and \<^verbatim>\<open>Commit\<close> answer, whether the reply to a commit was lost after it took effect, the random jitter
  and whether the context ends during the sleep.  The body is a function of the variables it captures and of the database it sees; a
  rolled-back attempt undoes its writes to the database and not those to the captured variables.
\<close>

section \<open>Failure classes\<close>

datatype FailureClass = FailureUnknown | FailureSerialization | FailureDeadlock | FailureNotFound | FailureConflict
  | FailureInvalid | FailureCanceled | FailureDeadline | FailureCapacity | FailureQueryCanceled | FailureUnavailable
  | FailureDenied | FailureIncomplete

fun FailureClass_String :: "FailureClass \<Rightarrow> string" where
  "FailureClass_String FailureSerialization = ''serialization_conflict''"
| "FailureClass_String FailureDeadlock = ''deadlock''"
| "FailureClass_String FailureNotFound = ''not_found''"
| "FailureClass_String FailureConflict = ''conflict''"
| "FailureClass_String FailureInvalid = ''invalid''"
| "FailureClass_String FailureCanceled = ''canceled''"
| "FailureClass_String FailureDeadline = ''deadline''"
| "FailureClass_String FailureCapacity = ''capacity''"
| "FailureClass_String FailureQueryCanceled = ''query_canceled''"
| "FailureClass_String FailureUnavailable = ''unavailable''"
| "FailureClass_String FailureDenied = ''denied''"
| "FailureClass_String FailureIncomplete = ''incomplete''"
| "FailureClass_String FailureUnknown = ''unknown''"

fun ClassifyFailure :: "id_error \<Rightarrow> FailureClass" where
  "ClassifyFailure IdSerialization = FailureSerialization"
| "ClassifyFailure IdDeadlock = FailureDeadlock"
| "ClassifyFailure (IdUnique _) = FailureConflict"
| "ClassifyFailure (IdForeignKey _) = FailureNotFound"
| "ClassifyFailure (IdCheck _) = FailureInvalid"
| "ClassifyFailure IdCapacity = FailureCapacity"
| "ClassifyFailure IdQueryCanceled = FailureQueryCanceled"
| "ClassifyFailure IdCanceled = FailureCanceled"
| "ClassifyFailure IdDeadline = FailureDeadline"
| "ClassifyFailure IdNotFound = FailureNotFound"
| "ClassifyFailure (IdConflict _) = FailureConflict"
| "ClassifyFailure IdScopeWidening = FailureConflict"
| "ClassifyFailure IdStaleCAS = FailureConflict"
| "ClassifyFailure (IdInvalid _ _) = FailureInvalid"
| "ClassifyFailure (IdOther _) = FailureUnknown"

definition isRetryableSerialization :: "id_error \<Rightarrow> bool" where
  "isRetryableSerialization e =
     (case e of IdSerialization \<Rightarrow> True | IdDeadlock \<Rightarrow> True
      | IdOther msg \<Rightarrow> sublist ''SQLSTATE 40001'' msg \<or> sublist ''SQLSTATE 40P01'' msg
      | _ \<Rightarrow> False)"

record RetryFailureInfo =
  ri_class :: FailureClass
  ri_attempts :: nat
  ri_limit :: nat
  ri_exhausted :: bool

record retryFailure =
  fl_cause :: id_error
  fl_info :: RetryFailureInfo

definition withRetryFailure :: "id_error option \<Rightarrow> nat \<Rightarrow> nat \<Rightarrow> bool \<Rightarrow> retryFailure option" where
  "withRetryFailure err attempts limit exhausted =
     map_option (\<lambda>e. \<lparr>fl_cause = e, fl_info = \<lparr>ri_class = ClassifyFailure e, ri_attempts = attempts, ri_limit = limit, ri_exhausted = exhausted\<rparr>\<rparr>) err"

section \<open>The loop\<close>

definition maxAttempts :: nat where "maxAttempts = 8"
definition baseBackoff :: duration where "baseBackoff = 5 * millisecond"
definition maxBackoff :: duration where "maxBackoff = 80 * millisecond"
definition jitterCeiling :: int where "jitterCeiling = 16"

definition backoff_delay :: "nat \<Rightarrow> duration \<Rightarrow> duration \<Rightarrow> int \<Rightarrow> duration" where
  "backoff_delay attempt base capDelay jitter = min (base * 2 ^ (min (attempt - 1) 4)) capDelay + jitter * millisecond"

record 'db attempt_env =
  ae_ctx :: "id_error option"
  ae_others :: "'db \<Rightarrow> 'db"
  ae_begin :: "id_error option"
  ae_commit :: "id_error option"
  ae_reply_lost :: bool
  ae_jitter :: int
  ae_sleep :: "id_error option"

record 'db retry_world =
  rw_db :: 'db
  rw_waited :: duration

definition sleepSerializableBackoff :: "'db attempt_env \<Rightarrow> nat \<Rightarrow> 'db retry_world \<Rightarrow> id_error option \<times> 'db retry_world" where
  "sleepSerializableBackoff env attempt w =
     (case ae_sleep env of
        Some e \<Rightarrow> (Some e, w)
      | None \<Rightarrow> (None, w\<lparr>rw_waited := rw_waited w + backoff_delay attempt baseBackoff maxBackoff (ae_jitter env)\<rparr>))"

text \<open>Running the body in a transaction that was begun: its error and that of the commit, and what is left in the database.\<close>

definition run_tx :: "'db attempt_env \<Rightarrow> ('v \<Rightarrow> 'db \<Rightarrow> id_error option \<times> 'v \<times> 'db) \<Rightarrow> 'v \<Rightarrow> 'db \<Rightarrow> id_error option \<times> 'v \<times> 'db" where
  "run_tx env fn v db =
     (case fn v db of
        (Some e, v', _) \<Rightarrow> (Some e, v', db)
      | (None, v', db') \<Rightarrow>
          (case ae_commit env of
             None \<Rightarrow> (None, v', db')
           | Some e \<Rightarrow> (Some e, v', if ae_reply_lost env then db' else db)))"

definition attempt_tx :: "'db attempt_env \<Rightarrow> ('v \<Rightarrow> 'db \<Rightarrow> id_error option \<times> 'v \<times> 'db) \<Rightarrow> 'v \<Rightarrow> 'db \<Rightarrow> id_error option \<times> 'v \<times> 'db" where
  "attempt_tx env fn v db = (case ae_begin env of Some e \<Rightarrow> (Some e, v, db) | None \<Rightarrow> run_tx env fn v db)"

function retry_from :: "(nat \<Rightarrow> 'db attempt_env) \<Rightarrow> ('v \<Rightarrow> 'db \<Rightarrow> id_error option \<times> 'v \<times> 'db) \<Rightarrow> nat \<Rightarrow> id_error option \<Rightarrow>
    'v \<Rightarrow> 'db retry_world \<Rightarrow> retryFailure option \<times> 'v \<times> 'db retry_world" where
  "retry_from env fn attempt lst v w =
     (if \<not> attempt \<le> maxAttempts then (withRetryFailure lst maxAttempts maxAttempts True, v, w)
      else case ae_ctx (env attempt) of
        Some e \<Rightarrow> (withRetryFailure (Some e) (attempt - 1) maxAttempts False, v, w)
      | None \<Rightarrow>
          let (err, v', db') = attempt_tx (env attempt) fn v (ae_others (env attempt) (rw_db w));
              w' = w\<lparr>rw_db := db'\<rparr>
          in case err of
               None \<Rightarrow> (None, v', w')
             | Some e \<Rightarrow>
                 if isRetryableSerialization e \<and> attempt < maxAttempts
                 then (case sleepSerializableBackoff (env attempt) attempt w' of
                         (Some s, w'') \<Rightarrow> (withRetryFailure (Some s) attempt maxAttempts False, v', w'')
                       | (None, w'') \<Rightarrow> retry_from env fn (attempt + 1) (Some e) v' w'')
                 else (withRetryFailure (Some e) attempt maxAttempts (isRetryableSerialization e \<and> attempt = maxAttempts), v', w'))"
  by pat_completeness auto

termination
  by (relation "measure (\<lambda>(_, _, attempt, _). Suc maxAttempts - attempt)") auto

definition WithSerializableRetry :: "(nat \<Rightarrow> 'db attempt_env) \<Rightarrow> ('v \<Rightarrow> 'db \<Rightarrow> id_error option \<times> 'v \<times> 'db) \<Rightarrow> 'v \<Rightarrow> 'db retry_world \<Rightarrow>
    retryFailure option \<times> 'v \<times> 'db retry_world" where
  "WithSerializableRetry env fn v w = retry_from env fn 1 None v w"

section \<open>Laws of the loop\<close>

declare retry_from.simps [simp del]

definition slept :: "nat \<Rightarrow> 'db attempt_env \<Rightarrow> 'db \<Rightarrow> 'db retry_world \<Rightarrow> 'db retry_world" where
  "slept a env db w = w\<lparr>rw_db := db, rw_waited := rw_waited w + backoff_delay a baseBackoff maxBackoff (ae_jitter env)\<rparr>"

lemma retry_from_cases:
  assumes "retry_from env fn a lst v w = out"
  obtains
    (over) "a > maxAttempts" "out = (withRetryFailure lst maxAttempts maxAttempts True, v, w)"
  | (stopped) e where "a \<le> maxAttempts" "ae_ctx (env a) = Some e" "out = (withRetryFailure (Some e) (a - 1) maxAttempts False, v, w)"
  | (committed) v' db' where "a \<le> maxAttempts" "ae_ctx (env a) = None"
      "attempt_tx (env a) fn v (ae_others (env a) (rw_db w)) = (None, v', db')" "out = (None, v', w\<lparr>rw_db := db'\<rparr>)"
  | (gave_up) e v' db' where "a \<le> maxAttempts" "ae_ctx (env a) = None"
      "attempt_tx (env a) fn v (ae_others (env a) (rw_db w)) = (Some e, v', db')" "isRetryableSerialization e \<Longrightarrow> a = maxAttempts"
      "out = (withRetryFailure (Some e) a maxAttempts (isRetryableSerialization e \<and> a = maxAttempts), v', w\<lparr>rw_db := db'\<rparr>)"
  | (interrupted) e v' db' s where "a < maxAttempts" "ae_ctx (env a) = None"
      "attempt_tx (env a) fn v (ae_others (env a) (rw_db w)) = (Some e, v', db')" "isRetryableSerialization e"
      "ae_sleep (env a) = Some s" "out = (withRetryFailure (Some s) a maxAttempts False, v', w\<lparr>rw_db := db'\<rparr>)"
  | (again) e v' db' where "a < maxAttempts" "ae_ctx (env a) = None"
      "attempt_tx (env a) fn v (ae_others (env a) (rw_db w)) = (Some e, v', db')" "isRetryableSerialization e"
      "ae_sleep (env a) = None" "retry_from env fn (a + 1) (Some e) v' (slept a (env a) db' w) = out"
proof (cases "a \<le> maxAttempts \<and> ae_ctx (env a) = None")
  case False
  then show ?thesis
    using assms over stopped by (cases "a \<le> maxAttempts"; cases "ae_ctx (env a)") (auto simp: retry_from.simps [of env fn a])
next
  case True
  obtain err v' db' where at: "attempt_tx (env a) fn v (ae_others (env a) (rw_db w)) = (err, v', db')" by (metis prod_cases3)
  note out = assms [unfolded retry_from.simps [of env fn a]]
  show ?thesis
  proof (cases err)
    case None
    with True at out committed show ?thesis by simp
  next
    case (Some e)
    show ?thesis
    proof (cases "isRetryableSerialization e \<and> a < maxAttempts")
      case False
      with True at out Some gave_up [of e] show ?thesis by auto
    next
      case retry: True
      with True at out Some interrupted [of e] again [of e] show ?thesis
        by (cases "ae_sleep (env a)") (auto simp: sleepSerializableBackoff_def slept_def)
    qed
  qed
qed

lemma attempt_tx_kept:
  assumes "attempt_tx env fn v db = (err, v', db')"
  shows "db' = db \<and> err \<noteq> None \<or> fn v db = (None, v', db') \<and> (err = None \<or> err = ae_commit env \<and> ae_reply_lost env)"
  using assms by (auto simp: attempt_tx_def run_tx_def split: option.splits prod.splits if_splits)

definition others_upto :: "(nat \<Rightarrow> 'db attempt_env) \<Rightarrow> nat \<Rightarrow> nat \<Rightarrow> 'db \<Rightarrow> 'db" where
  "others_upto env a k db = fold (\<lambda>n. ae_others (env n)) [a ..< k] db"

lemma others_upto_simps [simp]:
  "others_upto env a a db = db" "a < k \<Longrightarrow> others_upto env (Suc a) k (ae_others (env a) db) = others_upto env a k db"
  by (simp_all add: others_upto_def upt_conv_Cons)

text \<open>A reply to a commit is lost only when the connection fails: the server reports a serialization failure after rolling back.\<close>

definition lost_replies_final :: "(nat \<Rightarrow> 'db attempt_env) \<Rightarrow> bool" where
  "lost_replies_final env \<longleftrightarrow> (\<forall>n e. ae_reply_lost (env n) \<and> ae_commit (env n) = Some e \<longrightarrow> \<not> isRetryableSerialization e)"

definition retry_outcome :: "(nat \<Rightarrow> 'db attempt_env) \<Rightarrow> ('v \<Rightarrow> 'db \<Rightarrow> id_error option \<times> 'v \<times> 'db) \<Rightarrow> nat \<Rightarrow> 'db \<Rightarrow> retryFailure option \<Rightarrow> 'v \<Rightarrow> 'db \<Rightarrow> bool" where
  "retry_outcome env fn a db res v' db' \<longleftrightarrow> (\<exists>k \<le> Suc maxAttempts.
     res \<noteq> None \<and> db' = others_upto env a k db \<or>
     (a < k \<and> (\<exists>u. fn u (others_upto env a k db) = (None, v', db')) \<and> (res = None \<or> ae_reply_lost (env (k - 1)))))"

lemma retry_outcome_Suc:
  assumes "retry_outcome env fn (Suc a) (ae_others (env a) db) res v' db'" "a < maxAttempts"
  shows "retry_outcome env fn a db res v' db'"
proof -
  from assms(1) obtain k where k: "k \<le> Suc maxAttempts"
    "res \<noteq> None \<and> db' = others_upto env (Suc a) k (ae_others (env a) db) \<or>
     Suc a < k \<and> (\<exists>u. fn u (others_upto env (Suc a) k (ae_others (env a) db)) = (None, v', db')) \<and> (res = None \<or> ae_reply_lost (env (k - 1)))"
    unfolding retry_outcome_def by blast
  show ?thesis
  proof (cases "a < k")
    case True
    with k show ?thesis unfolding retry_outcome_def by (intro exI [of _ k]) auto
  next
    case False
    then have "others_upto env (Suc a) k (ae_others (env a) db) = others_upto env a (Suc a) db" by (simp add: others_upto_def)
    with k False assms(2) show ?thesis unfolding retry_outcome_def by (intro exI [of _ "Suc a"]) auto
  qed
qed

lemma retry_from_outcome:
  assumes "retry_from env fn a lst v w = (res, v', w')" "lost_replies_final env" "a \<le> maxAttempts \<or> lst \<noteq> None"
  shows "retry_outcome env fn a (rw_db w) res v' (rw_db w')"
  using assms
proof (induction "Suc maxAttempts - a" arbitrary: a lst v w rule: less_induct)
  case less
  have begun: "retry_outcome env fn a (rw_db w) res v' db'"
    if "attempt_tx (env a) fn u (ae_others (env a) (rw_db w)) = (err, v', db')" "(err = None) = (res = None)" "a \<le> maxAttempts" for u err db'
    using attempt_tx_kept [OF that(1)] that(2,3) others_upto_simps(2) [of a "Suc a" env "rw_db w"]
    unfolding retry_outcome_def by (intro exI [of _ "Suc a"]) auto
  from less.prems(1) show ?case
  proof (cases rule: retry_from_cases)
    case over
    with less.prems(3) show ?thesis
      unfolding retry_outcome_def by (intro exI [of _ 0]) (auto simp: withRetryFailure_def others_upto_def)
  next
    case (stopped e)
    then show ?thesis unfolding retry_outcome_def by (intro exI [of _ 0]) (auto simp: withRetryFailure_def others_upto_def)
  next
    case (committed v'' db')
    with begun show ?thesis by auto
  next
    case (gave_up e v'' db')
    with begun show ?thesis by (auto simp: withRetryFailure_def)
  next
    case (interrupted e v'' db' s)
    with begun show ?thesis by (auto simp: withRetryFailure_def)
  next
    case (again e v'' db')
    have "db' = ae_others (env a) (rw_db w)"
      using attempt_tx_kept [OF again(3)] again(4) less.prems(2) by (auto simp: lost_replies_final_def)
    with less.hyps [OF _ again(6) less.prems(2)] again(1) have "retry_outcome env fn (Suc a) (ae_others (env a) (rw_db w)) res v' (rw_db w')"
      by (simp add: slept_def)
    with again(1) show ?thesis by (simp add: retry_outcome_Suc)
  qed
qed

definition wait_bound :: "nat \<Rightarrow> duration" where
  "wait_bound a = (\<Sum>n \<leftarrow> [a ..< maxAttempts]. backoff_delay n baseBackoff maxBackoff (jitterCeiling - 1))"

lemma wait_bound_Suc: "a < maxAttempts \<Longrightarrow> wait_bound a = backoff_delay a baseBackoff maxBackoff (jitterCeiling - 1) + wait_bound (Suc a)"
  by (simp add: wait_bound_def upt_conv_Cons)

lemma wait_bound_nonneg: "0 \<le> wait_bound a"
  by (auto simp: wait_bound_def backoff_delay_def jitterCeiling_def millisecond_def baseBackoff_def maxBackoff_def second_def
      intro!: sum_list_nonneg)

definition jitter_ok :: "(nat \<Rightarrow> 'db attempt_env) \<Rightarrow> bool" where
  "jitter_ok env \<longleftrightarrow> (\<forall>n. 0 \<le> ae_jitter (env n) \<and> ae_jitter (env n) < jitterCeiling)"

lemma backoff_delay_mono: "j \<le> k \<Longrightarrow> backoff_delay a base c j \<le> backoff_delay a base c k"
  by (simp add: backoff_delay_def millisecond_def second_def)

lemma retry_from_bounds:
  assumes "retry_from env fn a lst v w = (res, v', w')" "jitter_ok env" "0 < a"
    and step: "\<And>u d. cnt (fst (snd (fn u d))) \<le> cnt u + (1 :: nat)"
  shows "rw_waited w' \<le> rw_waited w + wait_bound a \<and> cnt v' \<le> cnt v + (Suc maxAttempts - a) \<and>
    (\<forall>f. res = Some f \<longrightarrow> ri_attempts (fl_info f) \<le> maxAttempts)"
  using assms(1,3)
proof (induction "Suc maxAttempts - a" arbitrary: a lst v w rule: less_induct)
  case less
  have run: "cnt v'' \<le> cnt u + 1" if "attempt_tx (env a) fn u db = (err, v'', db')" for u db err v'' db'
  proof -
    have "v'' = u \<or> v'' = fst (snd (fn u db))"
      using that by (auto simp: attempt_tx_def run_tx_def split: option.splits prod.splits)
    then show ?thesis using step [of u db] by auto
  qed
  from less.prems(1) show ?case
  proof (cases rule: retry_from_cases)
    case (again e v'' db')
    have "rw_waited w' \<le> rw_waited (slept a (env a) db' w) + wait_bound (Suc a)" "cnt v' \<le> cnt v'' + (Suc maxAttempts - Suc a)"
      "\<forall>f. res = Some f \<longrightarrow> ri_attempts (fl_info f) \<le> maxAttempts"
      using less.hyps [OF _ again(6)] again(1) by simp_all
    moreover have "backoff_delay a baseBackoff maxBackoff (ae_jitter (env a)) \<le> backoff_delay a baseBackoff maxBackoff (jitterCeiling - 1)"
      using assms(2) by (intro backoff_delay_mono) (simp add: jitter_ok_def zle_diff1_eq)
    ultimately show ?thesis using run [OF again(3)] again(1) wait_bound_Suc [OF again(1)] by (auto simp: slept_def)
  qed (use run wait_bound_nonneg [of a] less.prems(2) in \<open>auto simp: withRetryFailure_def intro: le_add1 dest!: run\<close>)
qed

lemma wait_bound_total: "wait_bound 1 = 420 * millisecond"
  by code_simp

text \<open>
  The retry loop ends: whatever the context, the database and the other transactions do, the body runs at most eight
  times -- every function that counts its runs in the captured variables grows by at most eight --, the sleeps between attempts take at
  most 420 ms together, and a failure reports at most eight attempts.
\<close>

theorem retry_terminates:
  assumes "WithSerializableRetry env fn v w = (res, v', w')" "jitter_ok env"
    and "\<And>u d. runs (fst (snd (fn u d))) \<le> runs u + (1 :: nat)"
  shows "runs v' \<le> runs v + 8 \<and> rw_waited w' \<le> rw_waited w + 420 * millisecond \<and>
    (\<forall>f. res = Some f \<longrightarrow> ri_attempts (fl_info f) \<le> 8)"
  using retry_from_bounds [where cnt = runs and a = 1, OF assms(1) [unfolded WithSerializableRetry_def] assms(2) _ assms(3)] wait_bound_total
  by (simp add: maxAttempts_def)

text \<open>
  C24.  All or nothing, and at most once.  When the loop reports success, exactly one run of the body took effect, on top of what
  the other transactions had committed by then.  When it reports a failure, nothing of the body remains, unless the reply to its last commit
  was lost; then one run took effect.  So no sequence of retries applies the body twice.
\<close>

theorem retry_commits_at_most_once:
  assumes "WithSerializableRetry env fn v w = (res, v', w')" "lost_replies_final env"
  shows "\<exists>k \<le> 9. res \<noteq> None \<and> rw_db w' = others_upto env 1 k (rw_db w) \<or>
    (1 < k \<and> (\<exists>u. fn u (others_upto env 1 k (rw_db w)) = (None, v', rw_db w')) \<and> (res = None \<or> ae_reply_lost (env (k - 1))))"
  using retry_from_outcome [OF assms(1) [unfolded WithSerializableRetry_def] assms(2)]
  by (simp add: retry_outcome_def maxAttempts_def numeral_eq_Suc)

section \<open>A run with two serialization failures\<close>

text \<open>The body adds ten to a counter and counts its runs; another transaction adds one before every attempt.\<close>

definition ex_env :: "nat \<Rightarrow> int attempt_env" where
  "ex_env n = \<lparr>ae_ctx = None, ae_others = (\<lambda>d. d + 1), ae_begin = None, ae_commit = (if n < 3 then Some IdSerialization else None),
     ae_reply_lost = False, ae_jitter = 7, ae_sleep = None\<rparr>"

definition ex_body :: "nat \<Rightarrow> int \<Rightarrow> id_error option \<times> nat \<times> int" where
  "ex_body u d = (None, u + 1, d + 10)"

definition ex_start :: "int retry_world" where "ex_start = \<lparr>rw_db = 0, rw_waited = 0\<rparr>"

definition ex_end :: "int retry_world" where "ex_end = \<lparr>rw_db = 13, rw_waited = 29 * millisecond\<rparr>"

lemma ex_run: "WithSerializableRetry ex_env ex_body 0 ex_start = (None, 3, ex_end)"
  by code_simp

lemma ex_env_ok: "jitter_ok ex_env" "lost_replies_final ex_env"
  by (simp_all add: jitter_ok_def lost_replies_final_def ex_env_def jitterCeiling_def)

theorem retry_terminates_witness:
  "WithSerializableRetry ex_env ex_body 0 ex_start = (None, 3, ex_end) \<and> rw_waited ex_end \<le> 420 * millisecond"
  using retry_terminates [where runs = "\<lambda>u. u", OF ex_run ex_env_ok(1)] ex_run by (simp add: ex_body_def ex_start_def)

theorem retry_commits_at_most_once_witness:
  "\<exists>k \<le> 9. 1 < k \<and> (\<exists>u. ex_body u (others_upto ex_env 1 k 0) = (None, 3, 13))"
  using retry_commits_at_most_once [OF ex_run ex_env_ok(2)] by (auto simp: ex_start_def ex_end_def)

end
