(* ===== verification/Identity_Codes.thy ===== *)
theory Identity_Codes
  imports Identity_Refresh Identity_Retry
begin

text \<open>
  Broker transactions, grants, authorization codes, assertion replays and issuance audits (\<^verbatim>\<open>repo/oauth_broker.go\<close> and the rest of
  \<^verbatim>\<open>repo/oauth_token.go\<close>).

  An operation returns an error or its result with the tables as they then are; the transaction around it commits or rolls back.  The
  identifiers the database generates are arguments.  \<^verbatim>\<open>now()\<close> of the database is an argument too.
  The trigger that compares a provider session with its mapping when a transaction commits belongs to the account tables and
  is one of the ways a commit can fail.
\<close>

section \<open>Tables\<close>

definition code_ok :: "OAuthAuthorizationCode \<Rightarrow> bool" where
  "code_ok c \<longleftrightarrow> length (ao_code_hash c) = 32 \<and> 0 < ao_pepper_version c \<and> ao_issued_at c < ao_expires_at c \<and>
     ao_expires_at c \<le> ao_issued_at c + minute \<and> validatePKCE (ao_pkce_challenge c) (ao_pkce_method c) = None"

definition insert_code :: "OAuthAuthorizationCode \<Rightarrow> id_db \<Rightarrow> id_error + id_db" where
  "insert_code c db =
     (if \<not> code_ok c then Inl (IdCheck ''oauth_authorization_codes'')
      else if list_ex (\<lambda>x. ao_id x = ao_id c \<or> ao_code_hash x = ao_code_hash c \<or> ao_broker_transaction_id x = ao_broker_transaction_id c) (id_codes db)
      then Inl (IdUnique ''oauth_authorization_codes'')
      else if ao_grant_id c \<notin> keys gr_id (id_grants db) \<or> ao_broker_transaction_id c \<notin> keys bt_id (id_brokers db) \<or>
              ao_oauth_client_id c \<notin> keys oc_id (id_clients db)
      then Inl (IdForeignKey ''oauth_authorization_codes'')
      else Inr (db\<lparr>id_codes := id_codes db @ [c]\<rparr>))"

definition same_active_human :: "OAuthGrant \<Rightarrow> OAuthGrant \<Rightarrow> bool" where
  "same_active_human g x \<longleftrightarrow> gr_subject_class g = ''human'' \<and> gr_status g = ''active'' \<and> gr_subject_class x = ''human'' \<and> gr_status x = ''active'' \<and>
     gr_account_id x = gr_account_id g \<and> gr_oauth_client_id x = gr_oauth_client_id g \<and>
     gr_provider_session_association_id x = gr_provider_session_association_id g \<and>
     gr_resource_uri x = gr_resource_uri g \<and> gr_audience x = gr_audience g"

definition insert_grant :: "OAuthGrant \<Rightarrow> id_db \<Rightarrow> id_error + id_db" where
  "insert_grant g db =
     (if \<not> grant_ok g then Inl (IdCheck ''oauth_grants'')
      else if list_ex (\<lambda>x. gr_id x = gr_id g \<or> same_active_human g x) (id_grants db) then Inl (IdUnique ''oauth_grants'')
      else if gr_oauth_client_id g \<notin> keys oc_id (id_clients db) \<or> \<not> set_option (gr_account_id g) \<subseteq> set (id_accounts db) \<or>
              \<not> set_option (gr_provider_session_association_id g) \<subseteq> keys pa_id (id_associations db)
      then Inl (IdForeignKey ''oauth_grants'')
      else Inr (db\<lparr>id_grants := id_grants db @ [g]\<rparr>))"

definition association_ok :: "ProviderSessionAssociation \<Rightarrow> bool" where
  "association_ok a \<longleftrightarrow> pa_provider a = ''stytch_b2b'' \<and> pa_status a \<in> {''active'', ''revoked'', ''expired'', ''suspended''} \<and>
     ((pa_status a = ''active'' \<and> pa_revoked_at a = None \<and> pa_revoke_reason_code a = None) \<or>
      (pa_status a \<noteq> ''active'' \<and> pa_revoked_at a \<noteq> None \<and> pa_revoke_reason_code a \<noteq> None))"

definition same_session :: "ProviderSessionAssociation \<Rightarrow> ProviderSessionAssociation \<Rightarrow> bool" where
  "same_session a x \<longleftrightarrow> pa_provider x = pa_provider a \<and> pa_provider_project_id x = pa_provider_project_id a \<and>
     pa_provider_member_session_id x = pa_provider_member_session_id a"

definition insert_association :: "ProviderSessionAssociation \<Rightarrow> id_db \<Rightarrow> id_error + id_db" where
  "insert_association a db =
     (if \<not> association_ok a then Inl (IdCheck ''provider_session_associations'')
      else if list_ex (\<lambda>x. pa_id x = pa_id a \<or> same_session a x) (id_associations db) then Inl (IdUnique ''provider_session_associations'')
      else if pa_account_id a \<notin> set (id_accounts db) \<or> pa_stytch_mapping_id a \<notin> set (id_mappings db)
      then Inl (IdForeignKey ''provider_session_associations'')
      else Inr (db\<lparr>id_associations := id_associations db @ [a]\<rparr>))"

definition open_broker :: "BrokerTransaction \<Rightarrow> bool" where
  "open_broker b \<longleftrightarrow> bt_status b \<in> {''pending'', ''provider_started'', ''provider_validating''}"

definition broker_ok :: "BrokerTransaction \<Rightarrow> bool" where
  "broker_ok b \<longleftrightarrow> length (bt_state_hash b) = 32 \<and> length (bt_broker_cookie_hash b) = 32 \<and>
     1 \<le> bt_state_length b \<and> bt_state_length b \<le> 1024 \<and>
     (case bt_state_sealed b of None \<Rightarrow> True | Some x \<Rightarrow> 30 \<le> length x \<and> length x \<le> 1053) \<and>
     0 < bt_state_pepper_version b \<and> 0 < bt_state_key_version b \<and>
     (bt_provider_code_sealed b = None) = (bt_provider_code_key_version b = None) \<and>
     validatePKCE (bt_pkce_challenge b) (bt_pkce_method b) = None \<and>
     bt_created_at b < bt_expires_at b \<and> bt_expires_at b \<le> bt_created_at b + 10 * minute \<and>
     ((open_broker b \<and> bt_state_sealed b \<noteq> None) \<or>
      (bt_status b \<in> {''authorized'', ''denied'', ''failed'', ''expired''} \<and> bt_state_sealed b = None \<and> bt_provider_code_sealed b = None)) \<and>
     (bt_account_id b = None) = (bt_provider_session_association_id b = None)"

definition insert_broker :: "BrokerTransaction \<Rightarrow> id_db \<Rightarrow> id_error + id_db" where
  "insert_broker b db =
     (if \<not> broker_ok b then Inl (IdCheck ''broker_transactions'')
      else if list_ex (\<lambda>x. bt_id x = bt_id b \<or> (open_broker b \<and> open_broker x \<and>
          (bt_state_hash x = bt_state_hash b \<or> bt_broker_cookie_hash x = bt_broker_cookie_hash b))) (id_brokers db)
      then Inl (IdUnique ''broker_transactions'')
      else if bt_oauth_client_id b \<notin> keys oc_id (id_clients db) \<or> bt_redirect_id b \<notin> keys or_id (id_redirects db)
      then Inl (IdForeignKey ''broker_transactions'')
      else Inr (db\<lparr>id_brokers := id_brokers db @ [b]\<rparr>))"

definition update_brokers :: "(BrokerTransaction \<Rightarrow> bool) \<Rightarrow> (BrokerTransaction \<Rightarrow> BrokerTransaction) \<Rightarrow> id_db \<Rightarrow> id_error + id_db" where
  "update_brokers p f db =
     map_sum (\<lambda>e. e) (\<lambda>rows. db\<lparr>id_brokers := rows\<rparr>) (checked_update ''broker_transactions'' broker_ok p f (id_brokers db))"

section \<open>Clients and registrations\<close>

definition GetEnabledOAuthClientByClientID :: "(string \<Rightarrow> bool) \<Rightarrow> id_db \<Rightarrow> string \<Rightarrow> id_error + OAuthClient" where
  "GetEnabledOAuthClientByClientID uuid_parses db clientID =
     (case ValidatePublicClientID uuid_parses clientID of
        Some e \<Rightarrow> Inl e
      | None \<Rightarrow> (case List.find (\<lambda>c. oc_client_id c = clientID \<and> oc_enabled c \<and> oc_disabled_at c = None) (id_clients db) of
          None \<Rightarrow> Inl IdNotFound | Some c \<Rightarrow> Inr c))"

definition GetEnabledOAuthClientRedirect :: "id_db \<Rightarrow> uuid \<Rightarrow> string \<Rightarrow> string \<Rightarrow> id_error + OAuthClientRedirect" where
  "GetEnabledOAuthClientRedirect db clientID redirectURI resourceURI =
     (if clientID = uuid_nil then Inl (IdInvalid [] ''nil client'')
      else case List.find (\<lambda>r. or_oauth_client_id r = clientID \<and> or_enabled r \<and> or_redirect_uri r = redirectURI \<and> or_resource_uri r = resourceURI)
          (id_redirects db) of
        None \<Rightarrow> Inl IdNotFound | Some r \<Rightarrow> Inr r)"

definition ListEnabledOAuthClientKeys :: "time \<Rightarrow> id_db \<Rightarrow> uuid \<Rightarrow> time \<Rightarrow> id_error + OAuthClientKey list" where
  "ListEnabledOAuthClientKeys clock db clientID now =
     (if clientID = uuid_nil then Inl (IdInvalid [] ''nil client'')
      else Inr (filter (\<lambda>k. ok_oauth_client_id k = clientID \<and> ok_enabled k \<and> ok_disabled_at k = None \<and>
          (case ok_not_before k of None \<Rightarrow> True | Some x \<Rightarrow> x \<le> or_clock clock now) \<and>
          (case ok_not_after k of None \<Rightarrow> True | Some x \<Rightarrow> or_clock clock now < x)) (id_keys db)))"

definition ResolveRegistration :: "id_db \<Rightarrow> string \<Rightarrow> string \<Rightarrow> string \<Rightarrow> string \<Rightarrow> id_error + OAuthClientRedirect" where
  "ResolveRegistration db clientID redirectURI resourceURI audience =
     (case List.find (\<lambda>r. list_ex (\<lambda>c. oc_id c = or_oauth_client_id r \<and> oc_client_id c = clientID \<and> oc_enabled c) (id_clients db) \<and>
          or_enabled r \<and> or_redirect_uri r = redirectURI \<and> or_resource_uri r = resourceURI \<and> or_audience r = audience) (id_redirects db) of
        None \<Rightarrow> Inl IdNotFound | Some r \<Rightarrow> Inr r)"

section \<open>Broker transactions\<close>

definition isTerminal :: "string \<Rightarrow> bool" where
  "isTerminal s \<longleftrightarrow> s = BrokerStatusDenied \<or> s = BrokerStatusFailed \<or> s = BrokerStatusExpired \<or> s = BrokerStatusAuthorized"

definition validTransition :: "string \<Rightarrow> string \<Rightarrow> bool" where
  "validTransition src dst =
     (if src = BrokerStatusPending then dst = BrokerStatusProviderStarted \<or> isTerminal dst
      else if src = BrokerStatusProviderStarted then dst = BrokerStatusProviderValidating \<or> isTerminal dst
      else if src = BrokerStatusProviderValidating then dst = BrokerStatusAuthorized \<or> isTerminal dst
      else False)"

definition CreateBrokerTransaction :: "uuid \<Rightarrow> CreateBrokerTransactionInput \<Rightarrow> id_db \<Rightarrow> id_error + (BrokerTransaction \<times> id_db)" where
  "CreateBrokerTransaction new_id c db =
     (case ValidateCreateBrokerTransactionInput c of
        Some e \<Rightarrow> Inl e
      | None \<Rightarrow>
          let b = \<lparr>bt_id = new_id, bt_oauth_client_id = cx_oauth_client_id c, bt_redirect_id = cx_redirect_id c,
                bt_state_hash = cx_state_hash c, bt_state_pepper_version = cx_state_pepper_version c,
                bt_state_sealed = Some (cx_state_sealed c), bt_state_key_version = cx_state_key_version c,
                bt_state_length = cx_state_length c, bt_provider_code_sealed = cx_provider_code_sealed c,
                bt_provider_code_key_version = cx_provider_code_key_version c, bt_pkce_challenge = cx_pkce_challenge c,
                bt_pkce_method = cx_pkce_method c, bt_requested_scopes = cx_requested_scopes c, bt_resource_uri = cx_resource_uri c,
                bt_audience = cx_audience c, bt_broker_cookie_hash = cx_broker_cookie_hash c,
                bt_broker_cookie_pepper_version = cx_broker_cookie_pepper_version c, bt_status = ''pending'',
                bt_account_id = None, bt_provider_session_association_id = None, bt_created_at = cx_created_at c,
                bt_expires_at = cx_expires_at c, bt_provider_started_at = None, bt_provider_validating_at = None,
                bt_completed_at = None, bt_version = 0\<rparr>
          in case insert_broker b db of Inl e \<Rightarrow> Inl e | Inr db' \<Rightarrow> Inr (b, db'))"

definition transition_row :: "time \<Rightarrow> string \<Rightarrow> BrokerTransaction \<Rightarrow> BrokerTransaction" where
  "transition_row dbnow dst b =
     (let done = dst \<in> {''authorized'', ''denied'', ''failed'', ''expired''} in
      b\<lparr>bt_status := dst, bt_version := bt_version b + 1,
        bt_provider_started_at := (if dst = ''provider_started'' then Some dbnow else bt_provider_started_at b),
        bt_provider_validating_at := (if dst = ''provider_validating'' then Some dbnow else bt_provider_validating_at b),
        bt_completed_at := (if done then Some dbnow else bt_completed_at b),
        bt_state_sealed := (if done then None else bt_state_sealed b),
        bt_provider_code_sealed := (if done then None else bt_provider_code_sealed b),
        bt_provider_code_key_version := (if done then None else bt_provider_code_key_version b)\<rparr>)"

text \<open>The transition answers with identifier, status, version and the sealed values of the row.\<close>

definition TransitionBrokerTransaction ::
  "time \<Rightarrow> uuid \<Rightarrow> int \<Rightarrow> string \<Rightarrow> string \<Rightarrow> id_db \<Rightarrow> id_error + ((uuid \<times> string \<times> int \<times> string option \<times> string option) \<times> id_db)" where
  "TransitionBrokerTransaction dbnow i version src dst db =
     (if \<not> validTransition src dst then Inl (IdInvalid [] [])
      else let p = (\<lambda>b. bt_id b = i \<and> bt_version b = version \<and> bt_status b = src) in
        case update_brokers p (transition_row dbnow dst) db of
          Inl e \<Rightarrow> Inl e
        | Inr db' \<Rightarrow>
            (case List.find p (id_brokers db) of
               None \<Rightarrow> Inl IdStaleCAS
             | Some b \<Rightarrow> let b' = transition_row dbnow dst b in
                 Inr ((bt_id b', bt_status b', bt_version b', bt_state_sealed b', bt_provider_code_sealed b'), db')))"

definition PurgeBrokerTransactions :: "time \<Rightarrow> id_db \<Rightarrow> id_error + (nat \<times> id_db)" where
  "PurgeBrokerTransactions now db =
     (let (old_codes, codes) = partition (\<lambda>c. ao_issued_at c \<le> now - 24 * hour) (id_codes db);
          (old_brokers, brokers) = partition (\<lambda>b. bt_created_at b \<le> now - 24 * hour) (id_brokers db)
      in if list_ex (\<lambda>c. ao_broker_transaction_id c \<in> keys bt_id old_brokers) codes
         then Inl (IdForeignKey ''oauth_authorization_codes_broker_fk'')
         else Inr (length old_brokers,
           db\<lparr>id_codes := codes, id_brokers := brokers,
              id_audits := update_where (\<lambda>a. \<exists>c \<in> set old_codes. ta_authorization_code_id a = Some (ao_id c))
                (\<lambda>a. a\<lparr>ta_authorization_code_id := None\<rparr>) (id_audits db)\<rparr>))"

section \<open>Provider sessions, grants and codes\<close>

definition association_defaults :: "ProviderSessionAssociation \<Rightarrow> ProviderSessionAssociation" where
  "association_defaults a = a\<lparr>pa_provider := (if pa_provider a = [] then ''stytch_b2b'' else pa_provider a),
     pa_status := (if pa_status a = [] then ''active'' else pa_status a), pa_revoked_at := None, pa_revoke_reason_code := None\<rparr>"

definition CreateProviderSessionAssociation :: "uuid \<Rightarrow> ProviderSessionAssociation \<Rightarrow> id_db \<Rightarrow> id_error + (ProviderSessionAssociation \<times> id_db)" where
  "CreateProviderSessionAssociation new_id a0 db =
     (let a = (association_defaults a0)\<lparr>pa_id := new_id\<rparr> in
      case ValidateProviderSessionAssociation a of
        Some e \<Rightarrow> Inl e
      | None \<Rightarrow> (case insert_association a db of Inl e \<Rightarrow> Inl e | Inr db' \<Rightarrow> Inr (a, db')))"

definition refreshed_association :: "ProviderSessionAssociation \<Rightarrow> ProviderSessionAssociation \<Rightarrow> ProviderSessionAssociation" where
  "refreshed_association a x = x\<lparr>pa_last_validated_at := max (pa_last_validated_at x) (pa_last_validated_at a),
     pa_provider_expires_at := max (pa_provider_expires_at x) (pa_provider_expires_at a)\<rparr>"

definition same_holder :: "ProviderSessionAssociation \<Rightarrow> ProviderSessionAssociation \<Rightarrow> bool" where
  "same_holder a x \<longleftrightarrow> pa_account_id x = pa_account_id a \<and> pa_stytch_mapping_id x = pa_stytch_mapping_id a \<and>
     pa_provider_organization_id x = pa_provider_organization_id a \<and> pa_provider_member_id x = pa_provider_member_id a \<and>
     pa_status x = ''active''"

definition upsertProviderSessionAssociation :: "uuid \<Rightarrow> ProviderSessionAssociation \<Rightarrow> id_db \<Rightarrow> id_error + (ProviderSessionAssociation \<times> id_db)" where
  "upsertProviderSessionAssociation new_id a0 db =
     (let a = (association_defaults a0)\<lparr>pa_id := new_id\<rparr> in
      case ValidateProviderSessionAssociation a of
        Some e \<Rightarrow> Inl e
      | None \<Rightarrow>
          (case List.find (same_session a) (id_associations db) of
             None \<Rightarrow> (case insert_association a db of Inl e \<Rightarrow> Inl e | Inr db' \<Rightarrow> Inr (a, db'))
           | Some x \<Rightarrow>
               if same_holder a x
               then Inr (refreshed_association a x,
                      db\<lparr>id_associations := update_where (same_session a) (refreshed_association a) (id_associations db)\<rparr>)
               else Inl (IdConflict ''association account, tuple, or status mismatch'')))"

definition CreateOAuthGrant :: "time \<Rightarrow> uuid \<Rightarrow> OAuthGrant \<Rightarrow> id_db \<Rightarrow> id_error + (OAuthGrant \<times> id_db)" where
  "CreateOAuthGrant clock new_id g0 db =
     (let g = g0\<lparr>gr_id := new_id, gr_status := (if gr_status g0 = [] then ''active'' else gr_status g0),
            gr_granted_at := or_clock clock (gr_granted_at g0), gr_revoked_at := None, gr_revoke_reason_code := None, gr_version := 0\<rparr>
      in case ValidateOAuthGrant g of
           Some e \<Rightarrow> Inl e
         | None \<Rightarrow> (case insert_grant g db of Inl e \<Rightarrow> Inl e | Inr db' \<Rightarrow> Inr (g, db')))"

definition grant_tuple :: "uuid \<Rightarrow> uuid \<Rightarrow> uuid \<Rightarrow> string \<Rightarrow> string \<Rightarrow> OAuthGrant \<Rightarrow> bool" where
  "grant_tuple accountID clientID associationID resourceURI audience g \<longleftrightarrow>
     gr_account_id g = Some accountID \<and> gr_oauth_client_id g = clientID \<and> gr_provider_session_association_id g = Some associationID \<and>
     gr_resource_uri g = resourceURI \<and> gr_audience g = audience \<and> gr_subject_class g = ''human'' \<and> gr_status g = ''active''"

definition expireActiveHumanGrants :: "uuid \<Rightarrow> uuid \<Rightarrow> uuid \<Rightarrow> string \<Rightarrow> string \<Rightarrow> time \<Rightarrow> id_db \<Rightarrow> id_error + id_db" where
  "expireActiveHumanGrants accountID clientID associationID resourceURI audience issuedAt =
     update_grants (\<lambda>g. grant_tuple accountID clientID associationID resourceURI audience g \<and> gr_not_after g \<le> issuedAt)
       (\<lambda>g. g\<lparr>gr_status := ''expired'', gr_version := gr_version g + 1, gr_revoked_at := Some issuedAt, gr_revoke_reason_code := Some ''expired''\<rparr>)"

definition getReusableActiveHumanGrant :: "uuid \<Rightarrow> uuid \<Rightarrow> uuid \<Rightarrow> string \<Rightarrow> string \<Rightarrow> time \<Rightarrow> id_db \<Rightarrow> id_error + OAuthGrant" where
  "getReusableActiveHumanGrant accountID clientID associationID resourceURI audience issuedAt db =
     (case List.find (\<lambda>g. grant_tuple accountID clientID associationID resourceURI audience g \<and> issuedAt < gr_not_after g) (id_grants db) of
        None \<Rightarrow> Inl IdNotFound | Some g \<Rightarrow> Inr g)"

definition scopesSatisfiedBy :: "string list \<Rightarrow> string list \<Rightarrow> bool" where
  "scopesSatisfiedBy existing requested \<longleftrightarrow> list_all (\<lambda>s. s \<in> set existing) requested \<and> requested \<noteq> []"

definition reuseActiveHumanGrant :: "OAuthGrant \<Rightarrow> string list \<Rightarrow> id_error + OAuthGrant" where
  "reuseActiveHumanGrant existing requested =
     (if \<not> scopesSatisfiedBy (gr_scopes existing) requested then Inl (IdConflict ''grant scope widening is forbidden'') else Inr existing)"

text \<open>
  When the new grant meets a unique index, the transaction is aborted and the query that looks for the grant again fails too, so
  the error of the insert is returned, as it is for every other failure.
\<close>

definition reuseOrCreateActiveHumanGrant :: "time \<Rightarrow> uuid \<Rightarrow> OAuthGrant \<Rightarrow> id_db \<Rightarrow> id_error + (OAuthGrant \<times> id_db)" where
  "reuseOrCreateActiveHumanGrant clock new_id g db =
     (case (gr_account_id g, gr_provider_session_association_id g) of
        (Some acct, Some assoc) \<Rightarrow>
          (case expireActiveHumanGrants acct (gr_oauth_client_id g) assoc (gr_resource_uri g) (gr_audience g) (gr_granted_at g) db of
             Inl e \<Rightarrow> Inl e
           | Inr db1 \<Rightarrow>
               (case getReusableActiveHumanGrant acct (gr_oauth_client_id g) assoc (gr_resource_uri g) (gr_audience g) (gr_granted_at g) db1 of
                  Inr existing \<Rightarrow> (case reuseActiveHumanGrant existing (gr_scopes g) of Inl e \<Rightarrow> Inl e | Inr x \<Rightarrow> Inr (x, db1))
                | Inl e \<Rightarrow> if \<not> is_not_found e then Inl e else CreateOAuthGrant clock new_id g db1))
      | _ \<Rightarrow> Inl (IdInvalid [] []))"

definition CreateAuthorizationCode :: "time \<Rightarrow> uuid \<Rightarrow> OAuthAuthorizationCode \<Rightarrow> id_db \<Rightarrow> id_error + (OAuthAuthorizationCode \<times> id_db)" where
  "CreateAuthorizationCode clock new_id c0 db =
     (let c = c0\<lparr>ao_id := new_id, ao_issued_at := or_clock clock (ao_issued_at c0)\<rparr> in
      case ValidateAuthorizationCode c of
        Some e \<Rightarrow> Inl e
      | None \<Rightarrow> (case insert_code c db of Inl e \<Rightarrow> Inl e | Inr db' \<Rightarrow> Inr (c, db')))"

text \<open>\<^verbatim>\<open>GetAuthorizationCode\<close> does not read \<^verbatim>\<open>consumed_at\<close>.\<close>

definition GetAuthorizationCode :: "id_db \<Rightarrow> uuid \<Rightarrow> id_error + OAuthAuthorizationCode" where
  "GetAuthorizationCode db i =
     (if i = uuid_nil then Inl (IdInvalid [] ''nil id'')
      else case List.find (\<lambda>c. ao_id c = i) (id_codes db) of None \<Rightarrow> Inl IdNotFound | Some c \<Rightarrow> Inr (c\<lparr>ao_consumed_at := None\<rparr>))"

section \<open>The callback\<close>

record IssueCallbackArtifactsInput =
  ic_broker_id :: uuid
  ic_expected_version :: int
  ic_account_id :: uuid
  ic_mapping_id :: uuid
  ic_provider_project_id :: string
  ic_provider_organization_id :: string
  ic_provider_member_id :: string
  ic_provider_member_session_id :: string
  ic_provider_expires_at :: time
  ic_last_validated_at :: time
  ic_oauth_client_id :: uuid
  ic_redirect_uri :: string
  ic_resource_uri :: string
  ic_audience :: string
  ic_scopes :: "string list"
  ic_pkce_challenge :: string
  ic_pkce_method :: string
  ic_code_hash :: string
  ic_pepper_version :: int
  ic_issued_at :: time
  ic_expires_at :: time
  ic_grant_not_after :: time

record IssuedCallbackArtifacts =
  ia_association :: ProviderSessionAssociation
  ia_grant :: OAuthGrant
  ia_code :: OAuthAuthorizationCode
  ia_broker_id :: uuid
  ia_broker_version :: int

text \<open>The identifiers that the three inserts of a callback generate, and the database's clock.\<close>

record callback_env =
  ce_association :: uuid
  ce_grant :: uuid
  ce_code :: uuid
  ce_clock :: time
  ce_dbnow :: time

definition claimBrokerTransaction :: "uuid \<Rightarrow> int \<Rightarrow> id_db \<Rightarrow> id_error + BrokerTransaction" where
  "claimBrokerTransaction i version db =
     (case List.find (\<lambda>b. bt_id b = i \<and> bt_version b = version \<and> bt_status b = ''provider_validating'') (id_brokers db) of
        None \<Rightarrow> Inl IdStaleCAS | Some b \<Rightarrow> Inr b)"

definition callback_association :: "IssueCallbackArtifactsInput \<Rightarrow> ProviderSessionAssociation" where
  "callback_association c = \<lparr>pa_id = uuid_nil, pa_account_id = ic_account_id c, pa_stytch_mapping_id = ic_mapping_id c, pa_provider = ''stytch_b2b'',
     pa_provider_project_id = ic_provider_project_id c, pa_provider_organization_id = ic_provider_organization_id c,
     pa_provider_member_id = ic_provider_member_id c, pa_provider_member_session_id = ic_provider_member_session_id c,
     pa_provider_expires_at = ic_provider_expires_at c, pa_status = ''active'', pa_last_validated_at = ic_last_validated_at c,
     pa_revoked_at = None, pa_revoke_reason_code = None\<rparr>"

definition callback_grant :: "IssueCallbackArtifactsInput \<Rightarrow> uuid \<Rightarrow> OAuthGrant" where
  "callback_grant c assoc = \<lparr>gr_id = uuid_nil, gr_account_id = Some (ic_account_id c), gr_service_principal_id = None,
     gr_oauth_client_id = ic_oauth_client_id c, gr_provider_session_association_id = Some assoc, gr_resource_uri = ic_resource_uri c,
     gr_audience = ic_audience c, gr_scopes = ic_scopes c, gr_subject_class = ''human'', gr_status = ''active'', gr_granted_at = ic_issued_at c,
     gr_not_after = ic_grant_not_after c, gr_revoked_at = None, gr_revoke_reason_code = None, gr_version = 0\<rparr>"

definition callback_code :: "IssueCallbackArtifactsInput \<Rightarrow> uuid \<Rightarrow> OAuthAuthorizationCode" where
  "callback_code c grant = \<lparr>ao_id = uuid_nil, ao_code_hash = ic_code_hash c, ao_pepper_version = ic_pepper_version c, ao_grant_id = grant,
     ao_broker_transaction_id = ic_broker_id c, ao_oauth_client_id = ic_oauth_client_id c, ao_redirect_uri = ic_redirect_uri c,
     ao_resource_uri = ic_resource_uri c, ao_audience = ic_audience c, ao_scopes = ic_scopes c, ao_pkce_challenge = ic_pkce_challenge c,
     ao_pkce_method = ic_pkce_method c, ao_issued_at = ic_issued_at c, ao_expires_at = ic_expires_at c, ao_consumed_at = None\<rparr>"

definition authorized_row :: "time \<Rightarrow> uuid \<Rightarrow> uuid \<Rightarrow> BrokerTransaction \<Rightarrow> BrokerTransaction" where
  "authorized_row dbnow account assoc b = b\<lparr>bt_account_id := Some account, bt_provider_session_association_id := Some assoc,
     bt_status := ''authorized'', bt_version := bt_version b + 1, bt_completed_at := Some dbnow, bt_state_sealed := None,
     bt_provider_code_sealed := None, bt_provider_code_key_version := None\<rparr>"

definition authorize_broker :: "time \<Rightarrow> uuid \<Rightarrow> uuid \<Rightarrow> BrokerTransaction \<Rightarrow> id_db \<Rightarrow> id_error + id_db" where
  "authorize_broker dbnow account assoc claimed db =
     (let p = (\<lambda>b. bt_id b = bt_id claimed \<and> bt_version b = bt_version claimed \<and> bt_status b = ''provider_validating'') in
      case update_brokers p (authorized_row dbnow account assoc) db of
        Inl e \<Rightarrow> Inl e
      | Inr db' \<Rightarrow> if length (filter p (id_brokers db)) \<noteq> 1 then Inl IdStaleCAS else Inr db')"

definition issueCallbackArtifactsTx :: "callback_env \<Rightarrow> IssueCallbackArtifactsInput \<Rightarrow> id_db \<Rightarrow> id_error + (IssuedCallbackArtifacts \<times> id_db)" where
  "issueCallbackArtifactsTx env c db =
     (case claimBrokerTransaction (ic_broker_id c) (ic_expected_version c) db of
        Inl e \<Rightarrow> Inl e
      | Inr claimed \<Rightarrow>
      case upsertProviderSessionAssociation (ce_association env) (callback_association c) db of
        Inl e \<Rightarrow> Inl e
      | Inr (assoc, db1) \<Rightarrow>
      case reuseOrCreateActiveHumanGrant (ce_clock env) (ce_grant env) (callback_grant c (pa_id assoc)) db1 of
        Inl e \<Rightarrow> Inl e
      | Inr (grant, db2) \<Rightarrow>
      case CreateAuthorizationCode (ce_clock env) (ce_code env) (callback_code c (gr_id grant)) db2 of
        Inl e \<Rightarrow> Inl e
      | Inr (code, db3) \<Rightarrow>
      case authorize_broker (ce_dbnow env) (ic_account_id c) (pa_id assoc) claimed db3 of
        Inl e \<Rightarrow> Inl e
      | Inr db4 \<Rightarrow> Inr (\<lparr>ia_association = assoc, ia_grant = grant, ia_code = code, ia_broker_id = bt_id claimed,
             ia_broker_version = bt_version claimed + 1\<rparr>, db4))"

text \<open>
  The body that the retry loop runs.  It captures the variable \<^verbatim>\<open>out\<close>; every run draws new identifiers, those of run \<open>n\<close> being
  \<open>env n\<close>.
\<close>

definition callback_body :: "(nat \<Rightarrow> callback_env) \<Rightarrow> IssueCallbackArtifactsInput \<Rightarrow> IssuedCallbackArtifacts option \<times> nat \<Rightarrow> id_db \<Rightarrow>
    id_error option \<times> (IssuedCallbackArtifacts option \<times> nat) \<times> id_db" where
  "callback_body env c v db =
     (case v of (out, n) \<Rightarrow>
       (case issueCallbackArtifactsTx (env n) c db of
          Inl e \<Rightarrow> (Some e, (out, n + 1), db)
        | Inr (issued, db') \<Rightarrow> (None, (Some issued, n + 1), db')))"

datatype callback_failure = CallbackRefused id_error | CallbackFailed retryFailure

definition IssueCallbackArtifacts :: "(nat \<Rightarrow> callback_env) \<Rightarrow> (nat \<Rightarrow> id_db attempt_env) \<Rightarrow> IssueCallbackArtifactsInput \<Rightarrow> id_db retry_world \<Rightarrow>
    (callback_failure + IssuedCallbackArtifacts option) \<times> id_db retry_world" where
  "IssueCallbackArtifacts env tries c w =
     (case first_failure [ValidateProviderMemberSessionID (ic_provider_member_session_id c), ValidateAuthorizationCode (callback_code c uuid_nil)] of
        Some e \<Rightarrow> (Inl (CallbackRefused e), w)
      | None \<Rightarrow>
          (case WithSerializableRetry tries (callback_body env c) (None, 0) w of
             (Some f, _, w') \<Rightarrow> (Inl (CallbackFailed f), w')
           | (None, (out, _), w') \<Rightarrow> (Inr out, w')))"

section \<open>Claiming a code\<close>

definition claimAuthorizationCodeTx :: "(string \<Rightarrow> string) \<Rightarrow> ClaimAuthorizationCodeInput \<Rightarrow> id_db \<Rightarrow> id_error + (OAuthAuthorizationCode \<times> id_db)" where
  "claimAuthorizationCodeTx s256 c0 db =
     (case List.find (\<lambda>x. ao_code_hash x = ci_code_hash c0) (id_codes db) of
        None \<Rightarrow> Inl IdNotFound
      | Some code \<Rightarrow>
      let c = c0\<lparr>ci_audience := (if ci_audience c0 = [] then ao_audience code else ci_audience c0)\<rparr> in
      if ao_consumed_at code \<noteq> None then Inl (IdConflict ''already consumed'')
      else if ao_expires_at code < ci_now c then Inl (IdInvalid [] ''expired'')
      else case LoadConsumeBindings db (ao_grant_id code) of
        Inl e \<Rightarrow> Inl e
      | Inr (grant, assoc) \<Rightarrow>
      case ValidateConsumeBindings s256 \<lparr>cb_code = code, cb_grant = grant, cb_association = assoc, cb_now = ci_now c\<rparr> c of
        Some e \<Rightarrow> Inl e
      | None \<Rightarrow>
      if \<not> list_ex (\<lambda>x. ao_id x = ao_id code \<and> ao_consumed_at x = None) (id_codes db) then Inl (IdConflict ''already consumed'')
      else Inr (code\<lparr>ao_consumed_at := Some (ci_now c)\<rparr>,
             db\<lparr>id_codes := update_where (\<lambda>x. ao_id x = ao_id code \<and> ao_consumed_at x = None)
                  (\<lambda>x. x\<lparr>ao_consumed_at := Some (ci_now c)\<rparr>) (id_codes db)\<rparr>))"

definition ClaimAuthorizationCode :: "(string \<Rightarrow> string) \<Rightarrow> ClaimAuthorizationCodeInput \<Rightarrow> id_db \<Rightarrow> id_error + (OAuthAuthorizationCode \<times> id_db)" where
  "ClaimAuthorizationCode s256 c db =
     (case ValidateClaimAuthorizationCode c of Some e \<Rightarrow> Inl e | None \<Rightarrow> claimAuthorizationCodeTx s256 c db)"

section \<open>Replays and audits\<close>

definition replay_ok :: "ClientAssertionReplay \<Rightarrow> bool" where
  "replay_ok r \<longleftrightarrow> cp_endpoint_kind r \<in> {''token'', ''revocation''} \<and> length (cp_jti_hash r) = 32 \<and> cp_consumed_at r \<le> cp_expires_at r \<and>
     cp_issued_at r < cp_expires_at r \<and> cp_expires_at r \<le> cp_issued_at r + 5 * minute + 60 * second \<and>
     1 \<le> length (cp_audience r) \<and> length (cp_audience r) \<le> 2048"

definition same_assertion :: "ClientAssertionReplay \<Rightarrow> ClientAssertionReplay \<Rightarrow> bool" where
  "same_assertion r x \<longleftrightarrow> cp_oauth_client_id x = cp_oauth_client_id r \<and> cp_endpoint_kind x = cp_endpoint_kind r \<and> cp_jti_hash x = cp_jti_hash r"

definition RecordClientAssertionReplay :: "time \<Rightarrow> uuid \<Rightarrow> ClientAssertionReplay \<Rightarrow> id_db \<Rightarrow> id_error + (ClientAssertionReplay \<times> id_db)" where
  "RecordClientAssertionReplay clock new_id r0 db =
     (case ValidateClientAssertionReplay r0 of
        Some e \<Rightarrow> Inl e
      | None \<Rightarrow>
          let r = r0\<lparr>cp_id := new_id, cp_consumed_at := or_clock clock (cp_consumed_at r0)\<rparr> in
          if \<not> replay_ok r then Inl (IdCheck ''oauth_client_assertion_replays'')
          else if list_ex (\<lambda>x. cp_id x = cp_id r \<or> same_assertion r x) (id_replays db) then Inl (IdUnique ''oauth_client_assertion_replays'')
          else if cp_oauth_client_id r \<notin> keys oc_id (id_clients db) then Inl (IdForeignKey ''oauth_client_assertion_replays'')
          else Inr (r, db\<lparr>id_replays := id_replays db @ [r]\<rparr>))"

definition PurgeExpiredClientAssertionReplays :: "time \<Rightarrow> id_db \<Rightarrow> nat \<times> id_db" where
  "PurgeExpiredClientAssertionReplays now db =
     (length (filter (\<lambda>r. cp_expires_at r \<le> now) (id_replays db)), db\<lparr>id_replays := filter (\<lambda>r. \<not> cp_expires_at r \<le> now) (id_replays db)\<rparr>)"

definition PurgeExpiredClientAssertionReplaysBounded :: "time \<Rightarrow> int \<Rightarrow> id_db \<Rightarrow> nat \<times> id_db" where
  "PurgeExpiredClientAssertionReplaysBounded now limit0 db =
     (let limit = (if limit0 \<le> 0 then 256 else limit0);
          picked = take (nat limit) (sort_key cp_expires_at (filter (\<lambda>r. cp_expires_at r \<le> now) (id_replays db)))
      in (length (filter (\<lambda>r. cp_id r \<in> cp_id ` set picked) (id_replays db)),
          db\<lparr>id_replays := filter (\<lambda>r. cp_id r \<notin> cp_id ` set picked) (id_replays db)\<rparr>))"

definition lower_hex_or_dash :: "char \<Rightarrow> bool" where
  "lower_hex_or_dash c \<longleftrightarrow> c \<in> set ''0123456789abcdef-''"

definition audit_ok :: "TokenIssuanceAudit \<Rightarrow> bool" where
  "audit_ok a \<longleftrightarrow> length (ta_jti_hash a) = 32 \<and> ta_outcome a = ''committed'' \<and> ta_issued_at a < ta_expires_at a \<and>
     ta_expires_at a \<le> ta_issued_at a + 15 * minute \<and>
     (case ta_authorization_code_hash a of None \<Rightarrow> ta_authorization_code_id a = None | Some h \<Rightarrow> length h = 32) \<and>
     (case ta_request_correlation_hash a of None \<Rightarrow> True | Some h \<Rightarrow> length h = 32) \<and>
     has_prefix (ta_subject_ref a) ''identity:'' \<and> length (ta_subject_ref a) = 45 \<and> list_all lower_hex_or_dash (drop 9 (ta_subject_ref a)) \<and>
     1 \<le> length (ta_client_id a) \<and> length (ta_client_id a) \<le> 128"

definition CreateTokenIssuanceAudit :: "(string \<Rightarrow> bool) \<Rightarrow> uuid \<Rightarrow> TokenIssuanceAudit \<Rightarrow> id_db \<Rightarrow> id_error + (TokenIssuanceAudit \<times> id_db)" where
  "CreateTokenIssuanceAudit uuid_parses new_id a0 db =
     (case ValidateTokenIssuanceAudit uuid_parses a0 of
        Some e \<Rightarrow> Inl e
      | None \<Rightarrow>
          if ta_kid a0 \<notin> set (id_signing_kids db) then Inl IdNotFound
          else let a = a0\<lparr>ta_id := new_id\<rparr> in
          if \<not> audit_ok a then Inl (IdCheck ''token_issuance_audit'')
          else if ta_id a \<in> keys ta_id (id_audits db) then Inl (IdUnique ''token_issuance_audit'')
          else if ta_grant_id a \<notin> keys gr_id (id_grants db) \<or> \<not> set_option (ta_authorization_code_id a) \<subseteq> keys ao_id (id_codes db)
          then Inl (IdForeignKey ''token_issuance_audit'')
          else Inr (a, db\<lparr>id_audits := id_audits db @ [a]\<rparr>))"

section \<open>Tokens for a code in one transaction\<close>

record IssueAuthorizationCodeTokensInput =
  it_claim :: ClaimAuthorizationCodeInput
  it_refresh :: InitialRefreshIssuance
  it_audit :: TokenIssuanceAudit

record IssuedAuthorizationCodeTokens =
  ik_code :: OAuthAuthorizationCode
  ik_family :: OAuthRefreshFamily
  ik_token :: OAuthRefreshToken
  ik_audit :: TokenIssuanceAudit

definition issueAuthorizationCodeTokensTx :: "(string \<Rightarrow> string) \<Rightarrow> (string \<Rightarrow> bool) \<Rightarrow> uuid \<Rightarrow> uuid \<Rightarrow> uuid \<Rightarrow> IssueAuthorizationCodeTokensInput \<Rightarrow> id_db \<Rightarrow>
    id_error + (IssuedAuthorizationCodeTokens \<times> id_db)" where
  "issueAuthorizationCodeTokensTx s256 uuid_parses family_id token_id audit_id inp db =
     (case ClaimAuthorizationCode s256 (it_claim inp) db of
        Inl e \<Rightarrow> Inl e
      | Inr (code, db1) \<Rightarrow>
      let refresh = (it_refresh inp)\<lparr>ir_family := (ir_family (it_refresh inp))\<lparr>rf_grant_id := ao_grant_id code,
            rf_oauth_client_id := ao_oauth_client_id code, rf_resource_uri := ao_resource_uri code\<rparr>\<rparr> in
      case CreateInitialRefreshFamily uuid_parses family_id token_id refresh db1 of
        Inl e \<Rightarrow> Inl e
      | Inr ((family, tok), db2) \<Rightarrow>
      let audit = (it_audit inp)\<lparr>ta_grant_id := ao_grant_id code, ta_authorization_code_id := Some (ao_id code),
            ta_authorization_code_hash := Some (ao_code_hash code), ta_resource_uri := ao_resource_uri code,
            ta_audience := ao_audience code, ta_scopes := ao_scopes code\<rparr> in
      case CreateTokenIssuanceAudit uuid_parses audit_id audit db2 of
        Inl e \<Rightarrow> Inl e
      | Inr (a, db3) \<Rightarrow> Inr (\<lparr>ik_code = code, ik_family = family, ik_token = tok, ik_audit = a\<rparr>, db3))"

text \<open>
  The callback that runs before the commit is an argument; it may fail, and it may use the transaction.  The error of the
  commit is an argument as well.
\<close>

definition IssueAuthorizationCodeTokens :: "(string \<Rightarrow> string) \<Rightarrow> (string \<Rightarrow> bool) \<Rightarrow> uuid \<Rightarrow> uuid \<Rightarrow> uuid \<Rightarrow>
    (IssuedAuthorizationCodeTokens \<Rightarrow> id_db \<Rightarrow> id_error + id_db) \<Rightarrow> id_error option \<Rightarrow> IssueAuthorizationCodeTokensInput \<Rightarrow> id_db \<Rightarrow>
    (id_error + IssuedAuthorizationCodeTokens) \<times> id_db" where
  "IssueAuthorizationCodeTokens s256 uuid_parses family_id token_id audit_id beforeCommit commit inp db =
     (case issueAuthorizationCodeTokensTx s256 uuid_parses family_id token_id audit_id inp db of
        Inl e \<Rightarrow> (Inl e, db)
      | Inr (issued, db1) \<Rightarrow>
          (case beforeCommit issued db1 of
             Inl e \<Rightarrow> (Inl e, db)
           | Inr db2 \<Rightarrow> (case commit of Some e \<Rightarrow> (Inl e, db) | None \<Rightarrow> (Inr issued, db2))))"

end
