(* ===== verification/Identity_Codes_Props.thy ===== *)
theory Identity_Codes_Props
  imports Identity_Codes Single_Use
begin

text \<open>
  Authorization codes and the broker transactions they come from: a code is claimed once, only by the client and with the verifier it is bound
  to; a broker transaction is decided once; a callback issues its artifacts in full or not at all, whatever the retries.
\<close>

section \<open>Claims\<close>

definition codes_wf :: "id_db \<Rightarrow> bool" where
  "codes_wf db \<longleftrightarrow> unique_key ao_id (id_codes db) \<and> unique_key ao_code_hash (id_codes db) \<and> unique_key ao_broker_transaction_id (id_codes db)"

definition consume_row :: "uuid \<Rightarrow> time \<Rightarrow> OAuthAuthorizationCode list \<Rightarrow> OAuthAuthorizationCode list" where
  "consume_row i now = update_where (\<lambda>x. ao_id x = i \<and> ao_consumed_at x = None) (\<lambda>x. x\<lparr>ao_consumed_at := Some now\<rparr>)"

text \<open>What a claim requires of the code, its grant and its provider session.\<close>

definition claimable :: "(string \<Rightarrow> string) \<Rightarrow> id_db \<Rightarrow> ClaimAuthorizationCodeInput \<Rightarrow> OAuthAuthorizationCode \<Rightarrow> bool" where
  "claimable s256 db c code \<longleftrightarrow> code \<in> set (id_codes db) \<and> ao_code_hash code = ci_code_hash c \<and> ao_consumed_at code = None \<and>
     ci_now c \<le> ao_expires_at code \<and> ao_oauth_client_id code = ci_oauth_client_id c \<and> ao_redirect_uri code = ci_redirect_uri c \<and>
     ao_resource_uri code = ci_resource_uri c \<and> ci_audience c \<in> {[], ao_audience code} \<and> s256 (ci_code_verifier c) = ao_pkce_challenge code \<and>
     (\<exists>g \<in> set (id_grants db). \<exists>a \<in> set (id_associations db). gr_id g = ao_grant_id code \<and> gr_status g = ''active'' \<and> ci_now c < gr_not_after g \<and>
        gr_provider_session_association_id g = Some (pa_id a) \<and> pa_status a = ''active'' \<and> gr_account_id g = Some (pa_account_id a))"

lemma LoadConsumeBindings_Inr:
  "LoadConsumeBindings db i = Inr (g, a) \<Longrightarrow> g \<in> set (id_grants db) \<and> a \<in> set (id_associations db) \<and> gr_id g = i"
  by (auto simp: LoadConsumeBindings_def GetOAuthGrant_def GetProviderSessionAssociation_def
      dest!: find_Some_in split: sum.splits option.splits if_splits)

lemma ValidateConsumeBindings_None:
  assumes "ValidateConsumeBindings s256 \<lparr>cb_code = code, cb_grant = g, cb_association = a, cb_now = now\<rparr> c = None"
  shows "ao_oauth_client_id code = ci_oauth_client_id c \<and> ao_redirect_uri code = ci_redirect_uri c \<and> ao_resource_uri code = ci_resource_uri c \<and>
    ao_audience code = ci_audience c \<and> s256 (ci_code_verifier c) = ao_pkce_challenge code \<and> gr_status g = ''active'' \<and> now < gr_not_after g \<and>
    gr_provider_session_association_id g = Some (pa_id a) \<and> pa_status a = ''active'' \<and> gr_account_id g = Some (pa_account_id a)"
  using assms by (simp add: ValidateConsumeBindings_def BindingMatches_def VerifyS256PKCE_def del: first_failure.simps)

lemma ClaimAuthorizationCode_Inr:
  assumes "ClaimAuthorizationCode s256 c db = Inr (code', db')"
  shows "\<exists>code. claimable s256 db c code \<and> code' = code\<lparr>ao_consumed_at := Some (ci_now c)\<rparr> \<and>
    db' = db\<lparr>id_codes := consume_row (ao_id code) (ci_now c) (id_codes db)\<rparr>"
proof -
  have "claimAuthorizationCodeTx s256 c db = Inr (code', db')"
    using assms by (auto simp: ClaimAuthorizationCode_def split: option.splits)
  then obtain code g a where code: "List.find (\<lambda>x. ao_code_hash x = ci_code_hash c) (id_codes db) = Some code" "ao_consumed_at code = None"
      "ci_now c \<le> ao_expires_at code"
    and bind: "LoadConsumeBindings db (ao_grant_id code) = Inr (g, a)"
      "ValidateConsumeBindings s256 \<lparr>cb_code = code, cb_grant = g, cb_association = a, cb_now = ci_now c\<rparr>
         (c\<lparr>ci_audience := (if ci_audience c = [] then ao_audience code else ci_audience c)\<rparr>) = None"
    and out: "code' = code\<lparr>ao_consumed_at := Some (ci_now c)\<rparr>" "db' = db\<lparr>id_codes := consume_row (ao_id code) (ci_now c) (id_codes db)\<rparr>"
    unfolding claimAuthorizationCodeTx_def consume_row_def
    by (auto simp: Let_def split: option.splits if_splits sum.splits prod.splits)
  have "claimable s256 db c code"
    using find_Some_in [OF code(1)] code(2,3) LoadConsumeBindings_Inr [OF bind(1)] ValidateConsumeBindings_None [OF bind(2)]
    unfolding claimable_def by (auto split: if_splits)
  with out show ?thesis by blast
qed

text \<open>Codes as credentials: the current credential of a hash is an unconsumed code with it.\<close>

definition current_code :: "id_db \<Rightarrow> string \<Rightarrow> string option" where
  "current_code db h = (if \<exists>c \<in> set (id_codes db). ao_code_hash c = h \<and> ao_consumed_at c = None then Some h else None)"

definition spent_code :: "id_db \<Rightarrow> string \<Rightarrow> string set" where
  "spent_code db h = (if \<exists>c \<in> set (id_codes db). ao_code_hash c = h \<and> ao_consumed_at c \<noteq> None then {h} else {})"

inductive code_step :: "id_db \<Rightarrow> id_db \<Rightarrow> bool" where
  claim: "ClaimAuthorizationCode s256 c db = Inr (code, db') \<Longrightarrow> code_step db db'"
| create: "CreateAuthorizationCode clock i c db = Inr (code, db') \<Longrightarrow> code_step db db'"
| other: "id_codes db' = id_codes db \<Longrightarrow> code_step db db'"

lemma insert_code_Inr:
  "insert_code c db = Inr db' \<Longrightarrow> db' = db\<lparr>id_codes := id_codes db @ [c]\<rparr> \<and>
     (\<forall>x \<in> set (id_codes db). ao_id x \<noteq> ao_id c \<and> ao_code_hash x \<noteq> ao_code_hash c \<and> ao_broker_transaction_id x \<noteq> ao_broker_transaction_id c)"
  by (auto simp: insert_code_def list_ex_iff split: if_splits)

lemma CreateAuthorizationCode_Inr:
  assumes "CreateAuthorizationCode clock i c0 db = Inr (c, db')"
  shows "insert_code c db = Inr db' \<and> c = c0\<lparr>ao_id := i, ao_issued_at := or_clock clock (ao_issued_at c0)\<rparr>"
  using assms by (auto simp: CreateAuthorizationCode_def Let_def split: option.splits sum.splits)

lemma codes_wf_insert:
  assumes "insert_code c db = Inr db'" "codes_wf db"
  shows "codes_wf db'"
proof -
  from insert_code_Inr [OF assms(1)] have db': "db' = db\<lparr>id_codes := id_codes db @ [c]\<rparr>"
    and new: "\<forall>x \<in> set (id_codes db). ao_id x \<noteq> ao_id c \<and> ao_code_hash x \<noteq> ao_code_hash c \<and> ao_broker_transaction_id x \<noteq> ao_broker_transaction_id c"
    by simp_all
  show ?thesis
    using assms(2) new unfolding codes_wf_def db' by (simp add: unique_key_snoc not_in_keys)
qed

lemma consume_row_keys:
  "map ao_id (consume_row i now cs) = map ao_id cs" "map ao_code_hash (consume_row i now cs) = map ao_code_hash cs"
  "map ao_broker_transaction_id (consume_row i now cs) = map ao_broker_transaction_id cs"
  unfolding consume_row_def by (simp_all add: map_update_where)

lemma code_step_wf: "code_step db db' \<Longrightarrow> codes_wf db \<Longrightarrow> codes_wf db'"
proof (induction rule: code_step.induct)
  case (claim s256 c db code db')
  then show ?case by (auto dest!: ClaimAuthorizationCode_Inr simp: codes_wf_def unique_key_def consume_row_keys)
next
  case (create clock i c db code db')
  then show ?case using CreateAuthorizationCode_Inr codes_wf_insert by blast
qed (simp add: codes_wf_def)

lemma consumed_stays: "x \<in> set cs \<Longrightarrow> ao_consumed_at x \<noteq> None \<Longrightarrow> x \<in> set (consume_row i now cs)"
  by (auto simp: consume_row_def update_where_def image_iff intro!: bexI [of _ x])

lemma spent_code_mono:
  assumes "\<And>x. x \<in> set (id_codes db) \<Longrightarrow> ao_consumed_at x \<noteq> None \<Longrightarrow> x \<in> set (id_codes db')"
  shows "spent_code db h \<subseteq> spent_code db' h"
  using assms by (auto simp: spent_code_def)

lemma code_step_spent: "code_step db db' \<Longrightarrow> spent_code db h \<subseteq> spent_code db' h"
proof (induction rule: code_step.induct)
  case (claim s256 c db code db')
  from ClaimAuthorizationCode_Inr [OF claim] obtain k :: OAuthAuthorizationCode
    where "db' = db\<lparr>id_codes := consume_row (ao_id k) (ci_now c) (id_codes db)\<rparr>" by blast
  then show ?case by (intro spent_code_mono) (simp add: consumed_stays)
next
  case (create clock i c db code db')
  then have "db' = db\<lparr>id_codes := id_codes db @ [code]\<rparr>" using CreateAuthorizationCode_Inr insert_code_Inr by blast
  then show ?case by (intro spent_code_mono) simp
qed (simp add: spent_code_def)

lemma hash_unique: "codes_wf db \<Longrightarrow> x \<in> set (id_codes db) \<Longrightarrow> y \<in> set (id_codes db) \<Longrightarrow> ao_code_hash x = ao_code_hash y \<Longrightarrow> x = y"
  by (auto simp: codes_wf_def unique_key_def distinct_map dest: inj_onD)

interpretation ac: single_use codes_wf code_step current_code spent_code
proof
  show "codes_wf db'" if "code_step db db'" "codes_wf db" for db db' using code_step_wf that .
  show "h \<notin> spent_code db j" if "codes_wf db" "current_code db k = Some h" for db k h j
  proof -
    from that(2) obtain x where x: "x \<in> set (id_codes db)" "ao_code_hash x = h" "ao_consumed_at x = None"
      by (auto simp: current_code_def split: if_splits)
    have "ao_consumed_at y = None" if "y \<in> set (id_codes db)" "ao_code_hash y = h" for y
      using hash_unique [OF \<open>codes_wf db\<close> x(1) that(1)] x that by simp
    then show ?thesis by (auto simp: spent_code_def)
  qed
  show "spent_code db h \<subseteq> spent_code db' h" if "code_step db db'" "codes_wf db" for db db' h using code_step_spent [OF that(1)] .
qed

lemma claim_spends:
  assumes "ClaimAuthorizationCode s256 c db = Inr (code, db')"
  shows "current_code db (ci_code_hash c) = Some (ci_code_hash c)" "ci_code_hash c \<in> spent_code db' (ci_code_hash c)"
proof -
  from ClaimAuthorizationCode_Inr [OF assms] obtain k where k: "claimable s256 db c k"
    "db' = db\<lparr>id_codes := consume_row (ao_id k) (ci_now c) (id_codes db)\<rparr>" by blast
  then show "current_code db (ci_code_hash c) = Some (ci_code_hash c)" by (auto simp: current_code_def claimable_def)
  have "k\<lparr>ao_consumed_at := Some (ci_now c)\<rparr> \<in> set (consume_row (ao_id k) (ci_now c) (id_codes db))"
    using k(1) by (auto simp: consume_row_def in_update_where claimable_def intro!: bexI [of _ k])
  then have "\<exists>x \<in> set (id_codes db'). ao_code_hash x = ci_code_hash c \<and> ao_consumed_at x \<noteq> None"
    using k by (intro bexI [of _ "k\<lparr>ao_consumed_at := Some (ci_now c)\<rparr>"]) (auto simp: claimable_def)
  then show "ci_code_hash c \<in> spent_code db' (ci_code_hash c)" by (simp add: spent_code_def)
qed

text \<open>
  A code is claimed only as it was issued: unconsumed and unexpired, by the client, redirect, resource and audience it is bound to,
  with a verifier whose S256 transform is the stored challenge, under an active grant that has not ended and belongs
  to the account of an active provider session.  The claim writes the instant of consumption to that code and changes nothing else.
\<close>

theorem claim_respects_bindings:
  assumes "ClaimAuthorizationCode s256 c db = Inr (code', db')"
  shows "\<exists>code. claimable s256 db c code \<and> code' = code\<lparr>ao_consumed_at := Some (ci_now c)\<rparr> \<and>
    db' = db\<lparr>id_codes := consume_row (ao_id code) (ci_now c) (id_codes db)\<rparr>"
  using assms by (rule ClaimAuthorizationCode_Inr)

text \<open>
  C10.  An authorization code is claimed at most once: after a claim, whatever codes are created and claimed and whatever happens to other
  tables, a claim with the same hash fails.
\<close>

theorem code_claimed_at_most_once:
  assumes "codes_wf db" "ClaimAuthorizationCode s256 c db = Inr (code, db1)" "code_step\<^sup>*\<^sup>* db1 db2"
    "ClaimAuthorizationCode s256' c' db2 = Inr (code', db3)"
  shows "ci_code_hash c' \<noteq> ci_code_hash c"
proof -
  have "codes_wf db1" by (rule ac.step_inv [OF claim [OF assms(2)] assms(1)])
  from ac.never_again [OF assms(3) this claim_spends(2) [OF assms(2)]] claim_spends(1) [OF assms(4)] show ?thesis by metis
qed

section \<open>Broker transactions\<close>

lemma update_brokers_Inr:
  "update_brokers p f db = Inr db' \<Longrightarrow>
     db' = db\<lparr>id_brokers := update_where p f (id_brokers db)\<rparr> \<and> (\<forall>b \<in> set (id_brokers db). p b \<longrightarrow> broker_ok (f b))"
  by (auto simp: update_brokers_def checked_update_def list_all_iff split: if_splits)

lemma validTransition_open: "validTransition src dst \<Longrightarrow> src \<in> {''pending'', ''provider_started'', ''provider_validating''}"
  by (auto simp: validTransition_def BrokerStatusPending_def BrokerStatusProviderStarted_def BrokerStatusProviderValidating_def split: if_splits)

lemma TransitionBrokerTransaction_Inr:
  assumes "TransitionBrokerTransaction dbnow i v src dst db = Inr (out, db')"
  shows "validTransition src dst"
    "db' = db\<lparr>id_brokers := update_where (\<lambda>b. bt_id b = i \<and> bt_version b = v \<and> bt_status b = src) (transition_row dbnow dst) (id_brokers db)\<rparr>"
    "\<exists>b \<in> set (id_brokers db). bt_id b = i \<and> open_broker b"
proof -
  show valid: "validTransition src dst" using assms by (auto simp: TransitionBrokerTransaction_def split: if_splits)
  with assms obtain d b where d: "update_brokers (\<lambda>b. bt_id b = i \<and> bt_version b = v \<and> bt_status b = src) (transition_row dbnow dst) db = Inr d"
    and b: "List.find (\<lambda>b. bt_id b = i \<and> bt_version b = v \<and> bt_status b = src) (id_brokers db) = Some b" and "db' = d"
    by (auto simp: TransitionBrokerTransaction_def Let_def split: sum.splits option.splits)
  with update_brokers_Inr [OF d]
  show "db' = db\<lparr>id_brokers := update_where (\<lambda>b. bt_id b = i \<and> bt_version b = v \<and> bt_status b = src) (transition_row dbnow dst) (id_brokers db)\<rparr>"
    by simp
  from find_Some_in [OF b] validTransition_open [OF valid] show "\<exists>b \<in> set (id_brokers db). bt_id b = i \<and> open_broker b"
    by (intro bexI [of _ b]) (auto simp: open_broker_def)
qed

lemma upsert_keeps:
  "upsertProviderSessionAssociation i a db = Inr (x, db') \<Longrightarrow> id_brokers db' = id_brokers db \<and> id_codes db' = id_codes db"
  by (auto simp: upsertProviderSessionAssociation_def insert_association_def Let_def split: option.splits sum.splits if_splits)

lemma update_grants_keeps: "update_grants p f db = Inr db' \<Longrightarrow> id_brokers db' = id_brokers db \<and> id_codes db' = id_codes db"
  by (auto simp: update_grants_def checked_update_def split: if_splits)

lemma CreateOAuthGrant_keeps: "CreateOAuthGrant clock i g db = Inr (x, db') \<Longrightarrow> id_brokers db' = id_brokers db \<and> id_codes db' = id_codes db"
  by (auto simp: CreateOAuthGrant_def insert_grant_def Let_def split: option.splits sum.splits if_splits)

lemma reuseOrCreate_keeps:
  "reuseOrCreateActiveHumanGrant clock i g db = Inr (x, db') \<Longrightarrow> id_brokers db' = id_brokers db \<and> id_codes db' = id_codes db"
  by (auto simp: reuseOrCreateActiveHumanGrant_def expireActiveHumanGrants_def
      dest!: update_grants_keeps CreateOAuthGrant_keeps split: option.splits sum.splits if_splits)

lemma authorize_broker_Inr:
  assumes "authorize_broker dbnow account assoc claimed db = Inr db'"
  shows "db' = db\<lparr>id_brokers := update_where (\<lambda>b. bt_id b = bt_id claimed \<and> bt_version b = bt_version claimed \<and> bt_status b = ''provider_validating'')
      (authorized_row dbnow account assoc) (id_brokers db)\<rparr>"
  using assms update_brokers_Inr by (fastforce simp: authorize_broker_def Let_def split: sum.splits if_splits)

lemma issueCallbackArtifactsTx_Inr:
  assumes "issueCallbackArtifactsTx env c db = Inr (out, db')"
  obtains claimed assoc where "claimed \<in> set (id_brokers db)" "bt_id claimed = ic_broker_id c" "bt_status claimed = ''provider_validating''"
    "id_brokers db' = update_where (\<lambda>b. bt_id b = bt_id claimed \<and> bt_version b = bt_version claimed \<and> bt_status b = ''provider_validating'')
      (authorized_row (ce_dbnow env) (ic_account_id c) assoc) (id_brokers db)"
    "id_codes db' = id_codes db @ [ia_code out]" "ao_broker_transaction_id (ia_code out) = ic_broker_id c"
    "ao_code_hash (ia_code out) = ic_code_hash c" "ao_consumed_at (ia_code out) = None"
proof -
  obtain claimed a d1 g d2 code d3 where 1: "claimBrokerTransaction (ic_broker_id c) (ic_expected_version c) db = Inr claimed"
    and 2: "upsertProviderSessionAssociation (ce_association env) (callback_association c) db = Inr (a, d1)"
    and 3: "reuseOrCreateActiveHumanGrant (ce_clock env) (ce_grant env) (callback_grant c (pa_id a)) d1 = Inr (g, d2)"
    and 4: "CreateAuthorizationCode (ce_clock env) (ce_code env) (callback_code c (gr_id g)) d2 = Inr (code, d3)"
    and 5: "authorize_broker (ce_dbnow env) (ic_account_id c) (pa_id a) claimed d3 = Inr db'" and out: "ia_code out = code"
    using assms unfolding issueCallbackArtifactsTx_def by (auto split: sum.splits)
  have cl: "claimed \<in> set (id_brokers db)" "bt_id claimed = ic_broker_id c" "bt_status claimed = ''provider_validating''"
    using 1 by (auto simp: claimBrokerTransaction_def dest!: find_Some_in split: option.splits)
  note code = CreateAuthorizationCode_Inr [OF 4]
  from insert_code_Inr [OF conjunct1 [OF code]] have d3: "d3 = d2\<lparr>id_codes := id_codes d2 @ [code]\<rparr>" by simp
  show ?thesis
    by (rule that [OF cl])
      (use authorize_broker_Inr [OF 5] upsert_keeps [OF 2] reuseOrCreate_keeps [OF 3] code d3 out in \<open>simp_all add: callback_code_def\<close>)
qed

definition brokers_wf :: "id_db \<Rightarrow> bool" where
  "brokers_wf db \<longleftrightarrow> unique_key bt_id (id_brokers db)"

definition open_id :: "id_db \<Rightarrow> uuid \<Rightarrow> uuid option" where
  "open_id db i = (if \<exists>b \<in> set (id_brokers db). bt_id b = i \<and> open_broker b then Some i else None)"

definition decided_id :: "id_db \<Rightarrow> uuid \<Rightarrow> uuid set" where
  "decided_id db i = (if \<exists>b \<in> set (id_brokers db). bt_id b = i \<and> \<not> open_broker b then {i} else {})"

inductive broker_step :: "id_db \<Rightarrow> id_db \<Rightarrow> bool" where
  transition: "TransitionBrokerTransaction dbnow i v src dst db = Inr (out, db') \<Longrightarrow> broker_step db db'"
| callback: "issueCallbackArtifactsTx env c db = Inr (issued, db') \<Longrightarrow> broker_step db db'"
| start: "CreateBrokerTransaction i inp db = Inr (b, db') \<Longrightarrow> broker_step db db'"
| other: "id_brokers db' = id_brokers db \<Longrightarrow> broker_step db db'"

lemma CreateBrokerTransaction_Inr:
  "CreateBrokerTransaction i inp db = Inr (b, db') \<Longrightarrow> id_brokers db' = id_brokers db @ [b] \<and> bt_id b \<notin> keys bt_id (id_brokers db)"
  by (auto simp: CreateBrokerTransaction_def insert_broker_def Let_def list_ex_iff not_in_keys split: option.splits sum.splits if_splits)

text \<open>Every step updates open rows only, and keeps the identifiers.\<close>

lemma broker_step_rows:
  assumes "broker_step db db'"
  obtains p f new where "id_brokers db' = update_where p f (id_brokers db) @ new" "\<And>b. p b \<Longrightarrow> open_broker b" "\<And>b. bt_id (f b) = bt_id b"
    "distinct (map bt_id new)" "\<forall>b \<in> set new. bt_id b \<notin> keys bt_id (id_brokers db)"
  using assms
proof (cases rule: broker_step.cases)
  case (transition dbnow i v src dst out)
  then show ?thesis
    using TransitionBrokerTransaction_Inr [OF transition] validTransition_open
    by (intro that [of "\<lambda>b. bt_id b = i \<and> bt_version b = v \<and> bt_status b = src" "transition_row dbnow dst" "[]"])
      (auto simp: open_broker_def transition_row_def Let_def)
next
  case (callback env c issued)
  then show ?thesis
  proof (rule issueCallbackArtifactsTx_Inr)
    fix claimed assoc assume "id_brokers db' = update_where (\<lambda>b. bt_id b = bt_id claimed \<and> bt_version b = bt_version claimed \<and>
        bt_status b = ''provider_validating'') (authorized_row (ce_dbnow env) (ic_account_id c) assoc) (id_brokers db)"
    then show ?thesis
      by (intro that [of "\<lambda>b. bt_id b = bt_id claimed \<and> bt_version b = bt_version claimed \<and> bt_status b = ''provider_validating''"
            "authorized_row (ce_dbnow env) (ic_account_id c) assoc" "[]"]) (auto simp: open_broker_def authorized_row_def)
  qed
next
  case (start i inp b)
  then show ?thesis
    using CreateBrokerTransaction_Inr [OF start]
    by (intro that [of "\<lambda>b. False" "\<lambda>b. b" "[b]"]) (auto simp: update_where_def)
next
  case other
  then show ?thesis by (intro that [of "\<lambda>b. False" "\<lambda>b. b" "[]"]) (auto simp: update_where_def)
qed

lemma broker_step_wf:
  assumes "broker_step db db'" "brokers_wf db"
  shows "brokers_wf db'"
proof -
  from broker_step_rows [OF assms(1)] obtain p f new where rows: "id_brokers db' = update_where p f (id_brokers db) @ new"
    "\<And>b. bt_id (f b) = bt_id b" "distinct (map bt_id new)" "\<forall>b \<in> set new. bt_id b \<notin> keys bt_id (id_brokers db)" by metis
  have "bt_id ` set (update_where p f (id_brokers db)) = keys bt_id (id_brokers db)"
    using keys_update [of bt_id f p "id_brokers db", OF rows(2)] by (simp add: keys_def)
  then show ?thesis
    using assms(2) rows(1,3,4) map_update_where [of bt_id f p "id_brokers db"] rows(2) by (auto simp: brokers_wf_def unique_key_def not_in_keys)
qed

lemma broker_step_decided:
  assumes "broker_step db db'"
  shows "decided_id db i \<subseteq> decided_id db' i"
proof -
  from broker_step_rows [OF assms] obtain p f new where rows: "id_brokers db' = update_where p f (id_brokers db) @ new"
    "\<And>b. p b \<Longrightarrow> open_broker b" by metis
  have "b \<in> set (id_brokers db')" if "b \<in> set (id_brokers db)" "\<not> open_broker b" for b
    using that rows(1) rows(2) [of b] by (auto simp: update_where_def image_iff intro!: bexI [of _ b])
  then show ?thesis by (auto simp: decided_id_def)
qed

interpretation br: single_use brokers_wf broker_step open_id decided_id
proof
  show "brokers_wf db'" if "broker_step db db'" "brokers_wf db" for db db' using broker_step_wf that .
  show "h \<notin> decided_id db j" if "brokers_wf db" "open_id db k = Some h" for db k h j
  proof -
    from that(2) obtain x where x: "x \<in> set (id_brokers db)" "bt_id x = h" "open_broker x" by (auto simp: open_id_def split: if_splits)
    have "open_broker y" if "y \<in> set (id_brokers db)" "bt_id y = h" for y
      using unique_key_eq [of bt_id "id_brokers db" x y] \<open>brokers_wf db\<close> x that by (auto simp: brokers_wf_def)
    then show ?thesis by (auto simp: decided_id_def)
  qed
  show "decided_id db i \<subseteq> decided_id db' i" if "broker_step db db'" "brokers_wf db" for db db' i using broker_step_decided [OF that(1)] .
qed

lemma callback_decides:
  assumes "issueCallbackArtifactsTx env c db = Inr (issued, db')"
  shows "open_id db (ic_broker_id c) = Some (ic_broker_id c)" "ic_broker_id c \<in> decided_id db' (ic_broker_id c)"
proof -
  obtain claimed assoc where cl: "claimed \<in> set (id_brokers db)"
    "bt_id claimed = ic_broker_id c" "bt_status claimed = ''provider_validating''"
    "id_brokers db' = update_where (\<lambda>b. bt_id b = bt_id claimed \<and> bt_version b = bt_version claimed \<and> bt_status b = ''provider_validating'')
      (authorized_row (ce_dbnow env) (ic_account_id c) assoc) (id_brokers db)"
    by (rule issueCallbackArtifactsTx_Inr [OF assms])
  then show "open_id db (ic_broker_id c) = Some (ic_broker_id c)" by (auto simp: open_id_def open_broker_def)
  have "authorized_row (ce_dbnow env) (ic_account_id c) assoc claimed \<in> set (id_brokers db')"
    unfolding cl(4) in_update_where using cl(1-3) by (intro bexI [of _ claimed]) simp_all
  then have "\<exists>b \<in> set (id_brokers db'). bt_id b = ic_broker_id c \<and> \<not> open_broker b"
    using cl(2) by (intro bexI) (auto simp: authorized_row_def open_broker_def)
  then show "ic_broker_id c \<in> decided_id db' (ic_broker_id c)" by (simp add: decided_id_def)
qed

text \<open>
  A broker transaction is decided once.  After a callback authorized it, whatever transactions are started, moved on or
  authorized, no callback and no transition of that transaction succeeds.
\<close>

theorem broker_decided_once:
  assumes "brokers_wf db" "issueCallbackArtifactsTx env c db = Inr (issued, db1)" "broker_step\<^sup>*\<^sup>* db1 db2"
  shows "(\<forall>env' c' out. issueCallbackArtifactsTx env' c' db2 = Inr out \<longrightarrow> ic_broker_id c' \<noteq> ic_broker_id c) \<and>
    (\<forall>dbnow i v src dst out. TransitionBrokerTransaction dbnow i v src dst db2 = Inr out \<longrightarrow> i \<noteq> ic_broker_id c)"
proof -
  have "brokers_wf db1" by (rule br.step_inv [OF callback [OF assms(2)] assms(1)])
  note closed = br.never_again [OF assms(3) this callback_decides(2) [OF assms(2)]]
  have "ic_broker_id c' \<noteq> ic_broker_id c" if "issueCallbackArtifactsTx env' c' db2 = Inr out" for env' c' out
    using callback_decides(1) [of env' c' db2 "fst out" "snd out"] closed that by auto
  moreover have "i \<noteq> ic_broker_id c" if "TransitionBrokerTransaction dbnow i v src dst db2 = Inr out" for dbnow i v src dst out
    using TransitionBrokerTransaction_Inr(3) [of dbnow i v src dst db2 "fst out" "snd out"] closed [of "ic_broker_id c"] that
    by (auto simp: open_id_def split: if_splits)
  ultimately show ?thesis by blast
qed

text \<open>
  What a callback leaves behind, row by row.  The provider session is active, belongs to the account, mapping, project, organization and
  member of the callback, and is valid at least as long as the callback says.
\<close>

definition session_issued :: "IssueCallbackArtifactsInput \<Rightarrow> ProviderSessionAssociation \<Rightarrow> id_db \<Rightarrow> bool" where
  "session_issued c a db \<longleftrightarrow> a \<in> set (id_associations db) \<and> pa_status a = ''active'' \<and> pa_provider a = ''stytch_b2b'' \<and>
     pa_account_id a = ic_account_id c \<and> pa_stytch_mapping_id a = ic_mapping_id c \<and> pa_provider_project_id a = ic_provider_project_id c \<and>
     pa_provider_organization_id a = ic_provider_organization_id c \<and> pa_provider_member_id a = ic_provider_member_id c \<and>
     pa_provider_member_session_id a = ic_provider_member_session_id c \<and> ic_provider_expires_at c \<le> pa_provider_expires_at a"

text \<open>The grant is active, of that session, for the client, resource and audience, and covers the scopes.\<close>

definition grant_issued :: "IssueCallbackArtifactsInput \<Rightarrow> ProviderSessionAssociation \<Rightarrow> OAuthGrant \<Rightarrow> id_db \<Rightarrow> bool" where
  "grant_issued c a g db \<longleftrightarrow> g \<in> set (id_grants db) \<and> gr_status g = ''active'' \<and> gr_subject_class g = ''human'' \<and>
     gr_account_id g = Some (ic_account_id c) \<and> gr_provider_session_association_id g = Some (pa_id a) \<and>
     gr_oauth_client_id g = ic_oauth_client_id c \<and> gr_resource_uri g = ic_resource_uri c \<and> gr_audience g = ic_audience c \<and>
     set (ic_scopes c) \<subseteq> set (gr_scopes g) \<and> (ic_issued_at c \<noteq> zero_time \<longrightarrow> ic_issued_at c < gr_not_after g)"

text \<open>The code is new and unconsumed, under that grant, and bound to what the client asked for.\<close>

definition code_issued :: "IssueCallbackArtifactsInput \<Rightarrow> OAuthGrant \<Rightarrow> OAuthAuthorizationCode \<Rightarrow> bool" where
  "code_issued c g k \<longleftrightarrow> ao_consumed_at k = None \<and> ao_code_hash k = ic_code_hash c \<and> ao_pepper_version k = ic_pepper_version c \<and>
     ao_grant_id k = gr_id g \<and> ao_broker_transaction_id k = ic_broker_id c \<and> ao_oauth_client_id k = ic_oauth_client_id c \<and>
     ao_redirect_uri k = ic_redirect_uri c \<and> ao_resource_uri k = ic_resource_uri c \<and> ao_audience k = ic_audience c \<and>
     ao_scopes k = ic_scopes c \<and> ao_pkce_challenge k = ic_pkce_challenge c \<and> ao_pkce_method k = ic_pkce_method c \<and>
     ao_expires_at k = ic_expires_at c"

text \<open>The claimed transaction is authorized for the account and session, its version is raised and its secrets are gone.\<close>

definition waiting_broker :: "IssueCallbackArtifactsInput \<Rightarrow> BrokerTransaction \<Rightarrow> bool" where
  "waiting_broker c b \<longleftrightarrow> bt_id b = ic_broker_id c \<and> bt_version b = ic_expected_version c \<and> bt_status b = ''provider_validating''"

definition broker_authorized :: "time \<Rightarrow> IssueCallbackArtifactsInput \<Rightarrow> ProviderSessionAssociation \<Rightarrow> BrokerTransaction \<Rightarrow> BrokerTransaction" where
  "broker_authorized now c a b =
     (if waiting_broker c b
      then b\<lparr>bt_status := ''authorized'', bt_version := ic_expected_version c + 1, bt_account_id := Some (ic_account_id c),
        bt_provider_session_association_id := Some (pa_id a), bt_completed_at := Some now, bt_state_sealed := None,
        bt_provider_code_sealed := None, bt_provider_code_key_version := None\<rparr>
      else b)"

definition callback_effect :: "callback_env \<Rightarrow> IssueCallbackArtifactsInput \<Rightarrow> id_db \<Rightarrow> IssuedCallbackArtifacts \<Rightarrow> id_db \<Rightarrow> bool" where
  "callback_effect env c db issued db' \<longleftrightarrow>
     session_issued c (ia_association issued) db' \<and> grant_issued c (ia_association issued) (ia_grant issued) db' \<and>
     code_issued c (ia_grant issued) (ia_code issued) \<and> length (filter (waiting_broker c) (id_brokers db)) = 1 \<and>
     (\<exists>sessions grants. db' = db\<lparr>id_associations := sessions, id_grants := grants, id_codes := id_codes db @ [ia_code issued],
        id_brokers := map (broker_authorized (ce_dbnow env) c (ia_association issued)) (id_brokers db)\<rparr>)"

lemma upsert_session:
  assumes "upsertProviderSessionAssociation i (callback_association c) db = Inr (a, db')"
  shows "session_issued c a db' \<and> (\<exists>sessions. db' = db\<lparr>id_associations := sessions\<rparr>)"
proof -
  let ?a = "(association_defaults (callback_association c))\<lparr>pa_id := i\<rparr>"
  have ok: "ValidateProviderSessionAssociation ?a = None"
    using assms by (simp add: upsertProviderSessionAssociation_def Let_def split: option.splits)
  show ?thesis
  proof (cases "List.find (same_session ?a) (id_associations db)")
    case None
    with assms ok have "insert_association ?a db = Inr db'" "a = ?a"
      by (simp_all add: upsertProviderSessionAssociation_def Let_def split: sum.splits)
    then have "db' = db\<lparr>id_associations := id_associations db @ [?a]\<rparr>" by (simp add: insert_association_def split: if_splits)
    with \<open>a = ?a\<close> show ?thesis by (auto simp: session_issued_def association_defaults_def callback_association_def)
  next
    case (Some x)
    note x = find_Some_in [OF Some]
    from assms ok Some have "same_holder ?a x" "a = refreshed_association ?a x"
      and db': "db' = db\<lparr>id_associations := update_where (same_session ?a) (refreshed_association ?a) (id_associations db)\<rparr>"
      by (simp_all add: upsertProviderSessionAssociation_def Let_def split: if_splits)
    moreover have "a \<in> set (id_associations db')"
      using x \<open>a = _\<close> unfolding db' by (auto simp: in_update_where)
    ultimately have "session_issued c a db'"
      using x by (simp add: session_issued_def refreshed_association_def same_session_def same_holder_def association_defaults_def callback_association_def)
    with db' show ?thesis by blast
  qed
qed

lemma update_grants_rows: "update_grants p f db = Inr db' \<Longrightarrow> \<exists>rows. db' = db\<lparr>id_grants := rows\<rparr>"
  by (auto simp: update_grants_def checked_update_def split: if_splits)

lemma created_grant:
  assumes "CreateOAuthGrant clock i (callback_grant c (pa_id a)) db = Inr (g, db')"
  shows "grant_issued c a g db' \<and> (\<exists>rows. db' = db\<lparr>id_grants := rows\<rparr>)"
proof -
  have new: "g = (callback_grant c (pa_id a))\<lparr>gr_id := i, gr_granted_at := or_clock clock (ic_issued_at c)\<rparr>" "ValidateOAuthGrant g = None"
    "insert_grant g db = Inr db'"
    using assms by (auto simp: CreateOAuthGrant_def callback_grant_def Let_def split: option.splits sum.splits)
  then have db': "db' = db\<lparr>id_grants := id_grants db @ [g]\<rparr>" by (simp add: insert_grant_def split: if_splits)
  have "gr_granted_at g < gr_not_after g" using new(2) by (simp add: ValidateOAuthGrant_def del: first_failure.simps)
  with new(1) db' show ?thesis by (auto simp: grant_issued_def callback_grant_def or_clock_def)
qed

lemma reuseOrCreate_grant:
  assumes "reuseOrCreateActiveHumanGrant clock i (callback_grant c (pa_id a)) db = Inr (g, db')"
  shows "grant_issued c a g db' \<and> (\<exists>rows. db' = db\<lparr>id_grants := rows\<rparr>)"
proof -
  let ?t = "grant_tuple (ic_account_id c) (ic_oauth_client_id c) (pa_id a) (ic_resource_uri c) (ic_audience c)"
  obtain d where d: "expireActiveHumanGrants (ic_account_id c) (ic_oauth_client_id c) (pa_id a) (ic_resource_uri c) (ic_audience c) (ic_issued_at c) db = Inr d"
    using assms by (auto simp: reuseOrCreateActiveHumanGrant_def callback_grant_def split: sum.splits)
  then obtain rows where rows: "d = db\<lparr>id_grants := rows\<rparr>" using update_grants_rows unfolding expireActiveHumanGrants_def by blast
  show ?thesis
  proof (cases "List.find (\<lambda>g. ?t g \<and> ic_issued_at c < gr_not_after g) (id_grants d)")
    case None
    with assms d have "CreateOAuthGrant clock i (callback_grant c (pa_id a)) d = Inr (g, db')"
      by (simp add: reuseOrCreateActiveHumanGrant_def getReusableActiveHumanGrant_def callback_grant_def split: if_splits)
    from created_grant [OF this] rows show ?thesis by auto
  next
    case (Some x)
    with assms d have "g = x" "db' = d" "scopesSatisfiedBy (gr_scopes x) (ic_scopes c)"
      by (auto simp: reuseOrCreateActiveHumanGrant_def getReusableActiveHumanGrant_def reuseActiveHumanGrant_def callback_grant_def
        split: if_splits sum.splits)
    with find_Some_in [OF Some] rows show ?thesis
      by (auto simp: grant_issued_def grant_tuple_def scopesSatisfiedBy_def list_all_iff)
  qed
qed

lemma issueCallbackArtifactsTx_effect:
  assumes "issueCallbackArtifactsTx env c db = Inr (issued, db')"
  shows "callback_effect env c db issued db'"
proof -
  obtain claimed a d1 g d2 k d3 where 1: "claimBrokerTransaction (ic_broker_id c) (ic_expected_version c) db = Inr claimed"
    and 2: "upsertProviderSessionAssociation (ce_association env) (callback_association c) db = Inr (a, d1)"
    and 3: "reuseOrCreateActiveHumanGrant (ce_clock env) (ce_grant env) (callback_grant c (pa_id a)) d1 = Inr (g, d2)"
    and 4: "CreateAuthorizationCode (ce_clock env) (ce_code env) (callback_code c (gr_id g)) d2 = Inr (k, d3)"
    and 5: "authorize_broker (ce_dbnow env) (ic_account_id c) (pa_id a) claimed d3 = Inr db'"
    and out: "ia_association issued = a" "ia_grant issued = g" "ia_code issued = k"
    using assms unfolding issueCallbackArtifactsTx_def by (auto split: sum.splits)
  have cl: "bt_id claimed = ic_broker_id c" "bt_version claimed = ic_expected_version c"
    using 1 by (auto simp: claimBrokerTransaction_def dest!: find_Some_in split: option.splits)
  obtain sessions grants where d1: "session_issued c a d1" "d1 = db\<lparr>id_associations := sessions\<rparr>"
    and d2: "grant_issued c a g d2" "d2 = d1\<lparr>id_grants := grants\<rparr>"
    using upsert_session [OF 2] reuseOrCreate_grant [OF 3] by blast
  note code = CreateAuthorizationCode_Inr [OF 4]
  from insert_code_Inr [OF conjunct1 [OF code]] have d3: "d3 = d2\<lparr>id_codes := id_codes d2 @ [k]\<rparr>" by simp
  have p: "(\<lambda>b. bt_id b = bt_id claimed \<and> bt_version b = bt_version claimed \<and> bt_status b = ''provider_validating'') = waiting_broker c"
    by (simp add: fun_eq_iff waiting_broker_def cl)
  have db': "db' = d3\<lparr>id_brokers := update_where (waiting_broker c) (authorized_row (ce_dbnow env) (ic_account_id c) (pa_id a)) (id_brokers d3)\<rparr>"
    using authorize_broker_Inr [OF 5] by (simp add: p)
  have one: "length (filter (waiting_broker c) (id_brokers d3)) = 1"
    using 5 by (auto simp: authorize_broker_def p Let_def split: sum.splits if_splits)
  have "update_where (waiting_broker c) (authorized_row (ce_dbnow env) (ic_account_id c) (pa_id a)) (id_brokers db) =
      map (broker_authorized (ce_dbnow env) c a) (id_brokers db)"
    by (auto simp: update_where_def broker_authorized_def authorized_row_def waiting_broker_def)
  moreover have "code_issued c g k" using code by (simp add: code_issued_def callback_code_def)
  moreover have "session_issued c a db'" "grant_issued c a g db'"
    using d1 d2 unfolding db' d3 by (simp_all add: session_issued_def grant_issued_def)
  ultimately show ?thesis using one unfolding callback_effect_def out db' d3 d2(2) d1(2) by auto
qed

text \<open>
  C11.  A callback issues its artifacts in full or not at all, through all its retries.  When it reports success, then on top of what others
  had committed there is an active provider session of the account, an active grant of it that covers the scopes, one new unconsumed code
  under that grant with the bindings of the request, and the one waiting transaction is authorized, its secrets erased; these are
  the rows it returns, and no other table is touched.  When it reports a failure nothing of it remains, unless the reply to the last commit
  was lost; then all of this is there.
\<close>

theorem callback_all_or_nothing:
  assumes "IssueCallbackArtifacts env tries c w = (res, w')" "lost_replies_final tries"
  shows "\<exists>k \<le> 9. \<exists>n. case res of
      Inr out \<Rightarrow> (\<exists>issued. out = Some issued \<and> callback_effect (env n) c (others_upto tries 1 k (rw_db w)) issued (rw_db w'))
    | Inl e \<Rightarrow> rw_db w' = others_upto tries 1 k (rw_db w) \<or>
        (ae_reply_lost (tries (k - 1)) \<and> (\<exists>issued. callback_effect (env n) c (others_upto tries 1 k (rw_db w)) issued (rw_db w')))"
proof (cases "first_failure [ValidateProviderMemberSessionID (ic_provider_member_session_id c), ValidateAuthorizationCode (callback_code c uuid_nil)]")
  case (Some e)
  with assms(1) have "res = Inl (CallbackRefused e)" "w' = w" by (auto simp: IssueCallbackArtifacts_def simp del: first_failure.simps)
  then show ?thesis by (intro exI [of _ 1]) simp
next
  case None
  obtain f v' w1 where loop: "WithSerializableRetry tries (callback_body env c) (None, 0) w = (f, v', w1)" by (metis prod_cases3)
  from assms(1) [unfolded IssueCallbackArtifacts_def None option.case loop]
  have "w1 = w'" and res: "res = (case f of Some g \<Rightarrow> Inl (CallbackFailed g) | None \<Rightarrow> Inr (fst v'))"
    by (cases f; cases v'; auto)+
  with loop have run: "WithSerializableRetry tries (callback_body env c) (None, 0) w = (f, v', w')" by simp
  have body: "\<exists>n issued. fst v' = Some issued \<and> callback_effect (env n) c db issued db'"
    if "callback_body env c u db = (None, v', db')" for u db db'
    using that issueCallbackArtifactsTx_effect [of "env (snd u)" c db _ db'] by (auto simp: callback_body_def split: prod.splits sum.splits)
  from retry_from_outcome [OF run [unfolded WithSerializableRetry_def] assms(2)]
  obtain k where k: "k \<le> 9" "f \<noteq> None \<and> rw_db w' = others_upto tries 1 k (rw_db w) \<or>
      ((\<exists>u. callback_body env c u (others_upto tries 1 k (rw_db w)) = (None, v', rw_db w')) \<and> (f = None \<or> ae_reply_lost (tries (k - 1))))"
    by (auto simp: retry_outcome_def maxAttempts_def)
  show ?thesis
  proof (cases "f \<noteq> None \<and> rw_db w' = others_upto tries 1 k (rw_db w)")
    case True
    with k(1) res show ?thesis by (intro exI [of _ k]) auto
  next
    case False
    with k(2) body obtain n issued where "fst v' = Some issued"
      "callback_effect (env n) c (others_upto tries 1 k (rw_db w)) issued (rw_db w')"
      "f = None \<or> ae_reply_lost (tries (k - 1))" by blast
    with k(1) res show ?thesis by (intro exI [of _ k] conjI exI [of _ n]) (auto split: option.split)
  qed
qed

section \<open>Assertion replays\<close>

text \<open>
  Before an instant \<open>horizon\<close>: assertions are recorded, purges run at instants before it, and other tables change.
\<close>

inductive replay_step :: "time \<Rightarrow> id_db \<Rightarrow> id_db \<Rightarrow> bool" for horizon :: time where
  recorded: "RecordClientAssertionReplay clock i r db = Inr (out, db') \<Longrightarrow> replay_step horizon db db'"
| purge: "now < horizon \<Longrightarrow> PurgeExpiredClientAssertionReplays now db = (n, db') \<Longrightarrow> replay_step horizon db db'"
| purge_bounded: "now < horizon \<Longrightarrow> PurgeExpiredClientAssertionReplaysBounded now limit db = (n, db') \<Longrightarrow> replay_step horizon db db'"
| other: "id_replays db' = id_replays db \<Longrightarrow> replay_step horizon db db'"

definition assertion_key :: "ClientAssertionReplay \<Rightarrow> uuid \<times> string \<times> string" where
  "assertion_key r = (cp_oauth_client_id r, cp_endpoint_kind r, cp_jti_hash r)"

lemma same_assertion_key: "same_assertion r x \<longleftrightarrow> assertion_key x = assertion_key r"
  by (simp add: same_assertion_def assertion_key_def)

definition retained :: "time \<Rightarrow> id_db \<Rightarrow> (uuid \<times> string \<times> string) set" where
  "retained horizon db = assertion_key ` {r \<in> set (id_replays db). horizon \<le> cp_expires_at r}"

lemma RecordClientAssertionReplay_Inr:
  assumes "RecordClientAssertionReplay clock i r db = Inr (out, db')"
  shows "db' = db\<lparr>id_replays := id_replays db @ [out]\<rparr>" "assertion_key out = assertion_key r" "cp_expires_at out = cp_expires_at r"
    "cp_id out = i" "\<forall>x \<in> set (id_replays db). cp_id x \<noteq> i \<and> assertion_key x \<noteq> assertion_key r"
  using assms by (auto simp: RecordClientAssertionReplay_def Let_def list_ex_iff same_assertion_key assertion_key_def split: option.splits if_splits)

definition replays_wf :: "id_db \<Rightarrow> bool" where
  "replays_wf db \<longleftrightarrow> unique_key cp_id (id_replays db)"

lemma unique_key_filter: "unique_key k rows \<Longrightarrow> unique_key k (filter p rows)"
  by (simp add: unique_key_def distinct_map_filter)

lemma replay_step_wf: "replay_step horizon db db' \<Longrightarrow> replays_wf db \<Longrightarrow> replays_wf db'"
proof (induction rule: replay_step.induct)
  case (recorded clock i r db out db')
  note rec = RecordClientAssertionReplay_Inr [OF recorded(1)]
  have "unique_key cp_id (id_replays db @ [out])"
    using recorded(2) rec(4,5) by (simp add: replays_wf_def unique_key_snoc not_in_keys)
  then show ?case by (simp add: replays_wf_def rec(1))
qed (auto simp: replays_wf_def PurgeExpiredClientAssertionReplays_def PurgeExpiredClientAssertionReplaysBounded_def Let_def unique_key_filter)

lemma purge_bounded_keeps:
  assumes "PurgeExpiredClientAssertionReplaysBounded now limit db = (n, db')" "replays_wf db" "x \<in> set (id_replays db)" "now < cp_expires_at x"
  shows "x \<in> set (id_replays db')"
proof -
  define picked where "picked = take (nat (if limit \<le> 0 then 256 else limit)) (sort_key cp_expires_at (filter (\<lambda>r. cp_expires_at r \<le> now) (id_replays db)))"
  have sub: "set picked \<subseteq> {r \<in> set (id_replays db). cp_expires_at r \<le> now}"
    unfolding picked_def by (rule subset_trans [OF set_take_subset]) auto
  have "cp_id x \<notin> cp_id ` set picked"
  proof
    assume "cp_id x \<in> cp_id ` set picked"
    then obtain y where y: "y \<in> set picked" "cp_id y = cp_id x" by auto
    with sub have "y \<in> set (id_replays db)" "cp_expires_at y \<le> now" by auto
    moreover with y(2) assms(2,3) have "y = x" using unique_key_eq [of cp_id "id_replays db" y x] by (simp add: replays_wf_def)
    ultimately show False using assms(4) by simp
  qed
  with assms(1,3) show ?thesis by (auto simp: PurgeExpiredClientAssertionReplaysBounded_def Let_def picked_def [symmetric])
qed

lemma replay_step_keeps:
  assumes "replay_step horizon db db'" "replays_wf db" "x \<in> set (id_replays db)" "horizon \<le> cp_expires_at x"
  shows "x \<in> set (id_replays db')"
  using assms
proof (induction rule: replay_step.induct)
  case (recorded clock i r db out db')
  then show ?case using RecordClientAssertionReplay_Inr(1) [OF recorded(1)] by simp
next
  case (purge now db n db')
  then show ?case by (auto simp: PurgeExpiredClientAssertionReplays_def)
next
  case (purge_bounded now limit db n db')
  then show ?case using purge_bounded_keeps [OF purge_bounded(2,3,4)] by simp
qed simp

text \<open>An assertion is free when no stored row has its key.\<close>

definition free_assertion :: "id_db \<Rightarrow> uuid \<times> string \<times> string \<Rightarrow> (uuid \<times> string \<times> string) option" where
  "free_assertion db k = (if k \<in> assertion_key ` set (id_replays db) then None else Some k)"

interpretation ar: single_use replays_wf "replay_step horizon" free_assertion "\<lambda>db k. retained horizon db" for horizon
proof
  fix db db' k h j
  assume wf: "replays_wf db"
  { assume step: "replay_step horizon db db'"
    show "replays_wf db'" by (rule replay_step_wf [OF step wf])
    show "retained horizon db \<subseteq> retained horizon db'" using replay_step_keeps [OF step wf] by (auto simp: retained_def) }
  assume "free_assertion db k = Some h"
  then show "h \<notin> retained horizon db" by (auto simp: free_assertion_def retained_def split: if_splits)
qed

text \<open>
  C12.  A client assertion is accepted at most once while it could still be accepted: after it was recorded, no record of the same client,
  endpoint and identifier succeeds before its retention ends, whatever assertions are recorded and whatever purges run meanwhile.
\<close>

theorem assertion_recorded_once:
  assumes "replays_wf db" "RecordClientAssertionReplay clock i r db = Inr (out, db1)" "horizon \<le> cp_expires_at r"
    "(replay_step horizon)\<^sup>*\<^sup>* db1 db2" "RecordClientAssertionReplay clock' i' r' db2 = Inr (out', db3)"
  shows "(cp_oauth_client_id r', cp_endpoint_kind r', cp_jti_hash r') \<noteq> (cp_oauth_client_id r, cp_endpoint_kind r, cp_jti_hash r)"
proof -
  note rec = RecordClientAssertionReplay_Inr [OF assms(2)]
  have wf: "replays_wf db1" by (rule ar.step_inv [OF replay_step.recorded [OF assms(2)] assms(1)])
  have "assertion_key r \<in> retained horizon db1" using rec(1-3) assms(3) by (auto simp: retained_def intro: rev_image_eqI)
  from ar.never_again [OF assms(4) wf this] have "free_assertion db2 (assertion_key r) \<noteq> Some (assertion_key r)" .
  moreover have "free_assertion db2 (assertion_key r') = Some (assertion_key r')"
    using RecordClientAssertionReplay_Inr(5) [OF assms(5)] by (auto simp: free_assertion_def)
  ultimately have "assertion_key r' \<noteq> assertion_key r" by metis
  then show ?thesis by (simp add: assertion_key_def)
qed

section \<open>Two sign-ins\<close>

text \<open>
  Two broker transactions of one client wait for their callbacks; both belong to one provider session.  The transform of the verifier is
  instantiated by the prefix of 43 characters.
\<close>

definition ex_key :: "char \<Rightarrow> string" where "ex_key c = replicate 32 c"

definition ex_challenge :: string where "ex_challenge = replicate 43 CHR ''v''"

definition ex_client :: OAuthClient where
  "ex_client = \<lparr>oc_id = ''c1'', oc_client_id = ''web'', oc_name = ''Web'', oc_client_type = ''confidential'',
     oc_token_endpoint_auth_method = ''private_key_jwt'', oc_client_secret_hash = [], oc_client_secret_pepper_version = None,
     oc_allowed_grants = [''authorization_code''], oc_enabled = True, oc_disabled_at = None\<rparr>"

definition ex_broker :: "uuid \<Rightarrow> char \<Rightarrow> BrokerTransaction" where
  "ex_broker i h = \<lparr>bt_id = i, bt_oauth_client_id = ''c1'', bt_redirect_id = ''r1'', bt_state_hash = ex_key h, bt_state_pepper_version = 1,
     bt_state_sealed = Some (replicate 40 h), bt_state_key_version = 1, bt_state_length = 10, bt_provider_code_sealed = None,
     bt_provider_code_key_version = None, bt_pkce_challenge = ex_challenge, bt_pkce_method = ''S256'', bt_requested_scopes = [''read''],
     bt_resource_uri = ''https://api'', bt_audience = ''api'', bt_broker_cookie_hash = ex_key h, bt_broker_cookie_pepper_version = 1,
     bt_status = ''provider_validating'', bt_account_id = None, bt_provider_session_association_id = None, bt_created_at = 0,
     bt_expires_at = 10 * minute, bt_provider_started_at = Some 1, bt_provider_validating_at = Some 2, bt_completed_at = None, bt_version = 2\<rparr>"

definition ex_waiting :: id_db where
  "ex_waiting = \<lparr>id_clients = [ex_client], id_redirects = [], id_associations = [], id_grants = [], id_codes = [], id_families = [],
     id_tokens = [], id_replays = [], id_audits = [], id_signing_kids = [], id_keys = [], id_brokers = [ex_broker ''b1'' CHR ''a'', ex_broker ''b2'' CHR ''b''],
     id_accounts = [''acct''], id_mappings = [''m1'']\<rparr>"

definition ex_callback :: "uuid \<Rightarrow> char \<Rightarrow> IssueCallbackArtifactsInput" where
  "ex_callback i h = \<lparr>ic_broker_id = i, ic_expected_version = 2, ic_account_id = ''acct'', ic_mapping_id = ''m1'', ic_provider_project_id = ''p'',
     ic_provider_organization_id = ''o'', ic_provider_member_id = ''m'', ic_provider_member_session_id = ''s'',
     ic_provider_expires_at = 24 * hour, ic_last_validated_at = minute, ic_oauth_client_id = ''c1'', ic_redirect_uri = ''https://web/cb'',
     ic_resource_uri = ''https://api'', ic_audience = ''api'', ic_scopes = [''read''], ic_pkce_challenge = ex_challenge, ic_pkce_method = ''S256'',
     ic_code_hash = ex_key h, ic_pepper_version = 1, ic_issued_at = minute, ic_expires_at = 2 * minute, ic_grant_not_after = 24 * hour\<rparr>"

definition ex_ids :: "nat \<Rightarrow> callback_env" where
  "ex_ids n = \<lparr>ce_association = ''a'' @ replicate n CHR ''x'', ce_grant = ''g'' @ replicate n CHR ''x'', ce_code = ''k'' @ replicate n CHR ''x'',
     ce_clock = minute, ce_dbnow = minute\<rparr>"

definition ex_signed1 :: "id_error + IssuedCallbackArtifacts \<times> id_db" where
  "ex_signed1 = issueCallbackArtifactsTx (ex_ids 0) (ex_callback ''b1'' CHR ''c'') ex_waiting"

definition ex_signed2 :: "id_error + IssuedCallbackArtifacts \<times> id_db" where
  "ex_signed2 = issueCallbackArtifactsTx (ex_ids 1) (ex_callback ''b2'' CHR ''d'') (snd (projr ex_signed1))"

definition ex_codes :: id_db where "ex_codes = snd (projr ex_signed2)"

definition ex_claim :: "char \<Rightarrow> ClaimAuthorizationCodeInput" where
  "ex_claim h = \<lparr>ci_code_hash = ex_key h, ci_oauth_client_id = ''c1'', ci_redirect_uri = ''https://web/cb'', ci_resource_uri = ''https://api'',
     ci_audience = [], ci_code_verifier = ex_challenge, ci_now = 90 * second\<rparr>"

definition ex_claimed1 :: "id_error + OAuthAuthorizationCode \<times> id_db" where
  "ex_claimed1 = ClaimAuthorizationCode (take 43) (ex_claim CHR ''c'') ex_codes"

definition ex_claimed2 :: "id_error + OAuthAuthorizationCode \<times> id_db" where
  "ex_claimed2 = ClaimAuthorizationCode (take 43) (ex_claim CHR ''d'') (snd (projr ex_claimed1))"

lemma ex_outcomes: "\<not> isl ex_signed1" "\<not> isl ex_signed2" "\<not> isl ex_claimed1" "\<not> isl ex_claimed2"
  by code_simp+

lemma right_pair: "\<not> isl p \<Longrightarrow> p = Inr (fst (projr p), snd (projr p))"
  by (cases p) auto

theorem claim_respects_bindings_witness:
  "\<not> isl ex_claimed1 \<and> (\<exists>code. claimable (take 43) ex_codes (ex_claim CHR ''c'') code \<and>
     snd (projr ex_claimed1) = ex_codes\<lparr>id_codes := consume_row (ao_id code) (90 * second) (id_codes ex_codes)\<rparr>)"
  using claim_respects_bindings [OF right_pair [OF ex_outcomes(3), unfolded ex_claimed1_def]] ex_outcomes(3)
  by (auto simp: ex_claimed1_def ex_claim_def)

theorem code_claimed_at_most_once_witness:
  "\<not> isl ex_claimed1 \<and> \<not> isl ex_claimed2 \<and> ci_code_hash (ex_claim CHR ''d'') \<noteq> ci_code_hash (ex_claim CHR ''c'')"
proof -
  have "codes_wf ex_codes" by code_simp
  from code_claimed_at_most_once [OF this right_pair [OF ex_outcomes(3), unfolded ex_claimed1_def] rtranclp.rtrancl_refl
      right_pair [OF ex_outcomes(4), unfolded ex_claimed2_def ex_claimed1_def]] ex_outcomes(3,4)
  show ?thesis by blast
qed

theorem broker_decided_once_witness:
  "\<not> isl ex_signed1 \<and> \<not> isl ex_signed2 \<and> ic_broker_id (ex_callback ''b2'' CHR ''d'') \<noteq> ic_broker_id (ex_callback ''b1'' CHR ''c'')"
proof -
  have "brokers_wf ex_waiting" by code_simp
  from broker_decided_once [OF this right_pair [OF ex_outcomes(1), unfolded ex_signed1_def] rtranclp.rtrancl_refl]
    right_pair [OF ex_outcomes(2), unfolded ex_signed2_def ex_signed1_def] ex_outcomes(1,2)
  show ?thesis by blast
qed

text \<open>The first commit of the callback fails with a serialization error; the second succeeds.\<close>

definition ex_tries :: "nat \<Rightarrow> id_db attempt_env" where
  "ex_tries n = \<lparr>ae_ctx = None, ae_others = (\<lambda>d. d), ae_begin = None, ae_commit = (if n < 2 then Some IdSerialization else None),
     ae_reply_lost = False, ae_jitter = 7, ae_sleep = None\<rparr>"

definition ex_run :: "(callback_failure + IssuedCallbackArtifacts option) \<times> id_db retry_world" where
  "ex_run = IssueCallbackArtifacts ex_ids ex_tries (ex_callback ''b1'' CHR ''c'') \<lparr>rw_db = ex_waiting, rw_waited = 0\<rparr>"

theorem callback_all_or_nothing_witness:
  "\<not> isl (fst ex_run) \<and> (\<exists>k \<le> 9. \<exists>n issued. projr (fst ex_run) = Some issued \<and>
     callback_effect (ex_ids n) (ex_callback ''b1'' CHR ''c'') (others_upto ex_tries 1 k ex_waiting) issued (rw_db (snd ex_run)))"
proof -
  have ok: "\<not> isl (fst ex_run)" by code_simp
  have tries: "lost_replies_final ex_tries" by (simp add: lost_replies_final_def ex_tries_def)
  have run: "IssueCallbackArtifacts ex_ids ex_tries (ex_callback ''b1'' CHR ''c'') \<lparr>rw_db = ex_waiting, rw_waited = 0\<rparr> = (fst ex_run, snd ex_run)"
    by (simp add: ex_run_def)
  from ok obtain out where out: "fst ex_run = Inr out" by (cases "fst ex_run") auto
  from callback_all_or_nothing [OF run tries, unfolded out sum.case] show ?thesis unfolding out by simp
qed

text \<open>An assertion is recorded, a purge runs at an instant before its retention ends, and another assertion is recorded.\<close>

definition ex_assertion :: "char \<Rightarrow> ClientAssertionReplay" where
  "ex_assertion h = \<lparr>cp_id = [], cp_oauth_client_id = ''c1'', cp_endpoint_kind = ''token'', cp_jti_hash = ex_key h, cp_audience = ''https://id/token'',
     cp_issued_at = minute, cp_expires_at = 6 * minute, cp_consumed_at = 2 * minute\<rparr>"

definition ex_recorded1 :: "id_error + ClientAssertionReplay \<times> id_db" where
  "ex_recorded1 = RecordClientAssertionReplay minute ''p1'' (ex_assertion CHR ''a'') ex_waiting"

definition ex_purged :: "nat \<times> id_db" where
  "ex_purged = PurgeExpiredClientAssertionReplaysBounded (5 * minute) 1 (snd (projr ex_recorded1))"

definition ex_recorded2 :: "id_error + ClientAssertionReplay \<times> id_db" where
  "ex_recorded2 = RecordClientAssertionReplay minute ''p2'' (ex_assertion CHR ''b'') (snd ex_purged)"

theorem assertion_recorded_once_witness:
  "\<not> isl ex_recorded1 \<and> \<not> isl ex_recorded2 \<and> cp_jti_hash (ex_assertion CHR ''b'') \<noteq> cp_jti_hash (ex_assertion CHR ''a'')"
proof -
  have ok: "\<not> isl ex_recorded1" "\<not> isl ex_recorded2" "replays_wf ex_waiting" "6 * minute \<le> cp_expires_at (ex_assertion CHR ''a'')"
    "5 * minute < 6 * minute"
    by code_simp+
  have "replay_step (6 * minute) (snd (projr ex_recorded1)) (snd ex_purged)"
    by (rule replay_step.purge_bounded [OF ok(5), of 1 _ "fst ex_purged"]) (simp add: ex_purged_def)
  then have "(replay_step (6 * minute))\<^sup>*\<^sup>* (snd (projr ex_recorded1)) (snd ex_purged)" by blast
  from assertion_recorded_once [OF ok(3) right_pair [OF ok(1), unfolded ex_recorded1_def] ok(4) this [unfolded ex_recorded1_def]
      right_pair [OF ok(2), unfolded ex_recorded2_def]] ok(1,2)
  show ?thesis by (simp add: ex_assertion_def)
qed

end
