(* ===== verification/Tables.thy ===== *)
theory Tables
  imports Prelude "HOL-Library.List_Lexorder" "HOL-Library.Char_ord"
begin

text \<open>
  Transactions whose commit may fail or lose its reply, the oldest row of a queue, and the lemmas on tables that the queues of Curriculum Studio and of the
  tasks service share.
\<close>

section \<open>Transactions\<close>

text \<open>
  How a commit ends: it takes effect, it does not, or it takes effect and its reply is lost.
\<close>

datatype commit_outcome = Committed | NotCommitted string | ReplyLost string

text \<open>The body runs on the tables; its error rolls back, and so does a commit that does not take effect.\<close>

definition commit_tx :: "(string \<Rightarrow> 'e) \<Rightarrow> commit_outcome \<Rightarrow> ('s \<Rightarrow> 'e + ('a \<times> 's)) \<Rightarrow> 's \<Rightarrow> ('e + 'a) \<times> 's" where
  "commit_tx err commit fn db =
     (case fn db of
        Inl e \<Rightarrow> (Inl e, db)
      | Inr (x, db') \<Rightarrow>
          (case commit of
             Committed \<Rightarrow> (Inr x, db')
           | NotCommitted m \<Rightarrow> (Inl (err m), db)
           | ReplyLost m \<Rightarrow> (Inl (err m), db')))"

section \<open>Queues\<close>

text \<open>\<^verbatim>\<open>ORDER BY created_at, id LIMIT 1\<close>.\<close>

definition oldest :: "('r \<Rightarrow> time) \<Rightarrow> ('r \<Rightarrow> uuid) \<Rightarrow> 'r list \<Rightarrow> 'r option" where
  "oldest created i rows = first_row (sort_key created (sort_key i rows))"

section \<open>Lemmas\<close>

lemma commit_tx_cases:
  assumes "commit_tx err commit fn db = (res, db')"
  obtains (unchanged) "db' = db" "\<And>x. res \<noteq> Inr x"
  | (ran) x where "fn db = Inr (x, db')" "res = Inr x \<or> (\<exists>m. res = Inl (err m))"
  using assms by (auto simp: commit_tx_def split: sum.splits prod.splits commit_outcome.splits)

lemma oldest_Some: "oldest c i (filter p rows) = Some r \<Longrightarrow> r \<in> set rows \<and> p r"
  by (auto simp: oldest_def dest!: first_row_Some_in)

lemma oldest_None: "oldest c i (filter p rows) = None \<longleftrightarrow> (\<forall>r \<in> set rows. \<not> p r)"
proof -
  have "length (sort_key c (sort_key i (filter p rows))) = length (filter p rows)" by simp
  then have "sort_key c (sort_key i (filter p rows)) = [] \<longleftrightarrow> filter p rows = []" by (metis length_0_conv)
  then show ?thesis by (simp add: oldest_def filter_empty_conv)
qed

lemma unique_key_filter_rows: "unique_key k rows \<Longrightarrow> unique_key k (filter p rows)"
  by (simp add: unique_key_def distinct_map_filter)

lemma update_where_member: "r \<in> set rows \<Longrightarrow> (if p r then f r else r) \<in> set (update_where p f rows)"
  by (simp add: update_where_def)

lemma unique_key_append:
  "unique_key k xs \<Longrightarrow> unique_key k ys \<Longrightarrow> \<forall>y \<in> set ys. k y \<notin> keys k xs \<Longrightarrow> unique_key k (xs @ ys)"
  by (auto simp: unique_key_def not_in_keys)

lemma kept_by_update: "d \<in> set rows \<Longrightarrow> \<not> p d \<Longrightarrow> d \<in> set (update_where p f rows)"
  using update_where_member [of d rows p f] by simp

lemma find_key_iff: "unique_key k rows \<Longrightarrow> List.find (\<lambda>r. k r = a) rows = Some r \<longleftrightarrow> r \<in> set rows \<and> k r = a"
  using find_unique [of k rows r a] find_Some_in [of "\<lambda>r. k r = a" rows r] by (auto simp: unique_key_def)

lemma sum_update_le:
  fixes g :: "'r \<Rightarrow> nat"
  assumes "\<forall>x \<in> set rows. p x \<longrightarrow> g (f x) \<le> g x"
  shows "sum_list (map g (update_where p f rows)) \<le> sum_list (map g rows)"
  using assms by (induction rows) (auto simp: update_where_def)

lemma sum_update_less:
  fixes g :: "'r \<Rightarrow> nat"
  assumes "\<forall>x \<in> set rows. p x \<longrightarrow> g (f x) \<le> g x" "x \<in> set rows" "p x" "g (f x) < g x"
  shows "sum_list (map g (update_where p f rows)) < sum_list (map g rows)"
  using assms
proof (induction rows)
  case (Cons y rows)
  have le: "sum_list (map g (update_where p f rows)) \<le> sum_list (map g rows)"
    by (rule sum_update_le) (use Cons.prems(1) in simp)
  show ?case
  proof (cases "x = y")
    case True
    with le Cons.prems(3,4) show ?thesis by (simp add: update_where_def)
  next
    case False
    with Cons show ?thesis by (auto simp: update_where_def add_le_less_mono)
  qed
qed simp

end
