(* ===== verification/Studio_Outbox.thy ===== *)
theory Studio_Outbox
  imports Tables
begin

text \<open>
  The outbox of Curriculum Studio (\<^verbatim>\<open>curriculum-studio/internal/repo/events.go\<close>, \<^verbatim>\<open>internal/outbox\<close>): domain events are stored with the change they
  report, fanned out to the webhook endpoints of their workspace as deliveries, and posted by workers that hold a delivery by a lease.

  The database's \<^verbatim>\<open>now()\<close>, generated identifiers and the rows that other transactions hold locked (\<^verbatim>\<open>SKIP LOCKED\<close>) are arguments, and so is what
  other processes do between the statements of a delivery.  A JSON payload is the value the \<^verbatim>\<open>JSONB\<close> column keeps; the bytes that \<^verbatim>\<open>json.Marshal\<close> writes and the MAC
  are arguments, as they only travel to the receiver.
\<close>

section \<open>Data\<close>

datatype studio_error =
    StInvalid string
  | StNotFound
  | StConflict string
  | StForeignKey string
  | StCheck string
  | StLeaseLost
  | StOther string

datatype json = JNull | JBool bool | JNumber string | JString string | JArray "json list" | JObject "(string \<times> json) list"

text \<open>A \<^verbatim>\<open>json.RawMessage\<close>: nothing, bytes that are not JSON, or a value.\<close>

datatype raw_json = RawEmpty | RawInvalid | RawValue json

record OutboxEvent =
  oe_id :: uuid
  oe_workspace_id :: "uuid option"
  oe_event_type :: string
  oe_aggregate_kind :: string
  oe_aggregate_id :: uuid
  oe_payload :: json
  oe_created_at :: time
  oe_published_at :: "time option"

record WebhookEndpoint =
  we_id :: uuid
  we_workspace_id :: uuid
  we_url :: string
  we_secret_ref :: string
  we_event_types :: "string list"
  we_status :: string
  we_created_at :: time

record WebhookDelivery =
  wd_id :: uuid
  wd_endpoint_id :: uuid
  wd_event_id :: uuid
  wd_idempotency_key :: string
  wd_status :: string
  wd_attempt_count :: int
  wd_last_error :: string
  wd_delivered_at :: "time option"
  wd_lease_owner :: string
  wd_lease_expires_at :: "time option"
  wd_attempt_started_at :: "time option"
  wd_created_at :: time

record IdempotencyRow =
  ik_id :: uuid
  ik_workspace_id :: uuid
  ik_scope :: string
  ik_key :: string
  ik_request_hash :: string
  ik_response_ref :: string
  ik_created_at :: time

record studio_db =
  so_workspaces :: "uuid list"
  so_events :: "OutboxEvent list"
  so_endpoints :: "WebhookEndpoint list"
  so_deliveries :: "WebhookDelivery list"
  so_keys :: "IdempotencyRow list"

section \<open>Transactions\<close>

definition WithTx :: "commit_outcome \<Rightarrow> ('s \<Rightarrow> studio_error + ('a \<times> 's)) \<Rightarrow> 's \<Rightarrow> (studio_error + 'a) \<times> 's" where
  "WithTx = commit_tx (\<lambda>m. StOther (''commit tx: '' @ m))"

section \<open>Events\<close>

definition materializationObject :: "raw_json \<Rightarrow> string \<Rightarrow> studio_error + json" where
  "materializationObject raw name =
     (case raw of
        RawEmpty \<Rightarrow> Inr (JObject [])
      | RawInvalid \<Rightarrow> Inl (StInvalid (name @ '' must be JSON''))
      | RawValue (JObject members) \<Rightarrow> Inr (JObject members)
      | RawValue _ \<Rightarrow> Inl (StInvalid (name @ '' must be a JSON object'')))"

text \<open>The event to enqueue carries its payload as raw JSON beside the fields of the row.\<close>

definition Enqueue :: "time \<Rightarrow> uuid \<Rightarrow> OutboxEvent \<Rightarrow> raw_json \<Rightarrow> studio_db \<Rightarrow> studio_error + (OutboxEvent \<times> studio_db)" where
  "Enqueue now new_id event raw db =
     (if trim_space (oe_event_type event) = [] \<or> trim_space (oe_aggregate_kind event) = [] \<or> oe_aggregate_id event = uuid_nil
      then Inl (StInvalid ''event type, aggregate kind, and aggregate id are required'')
      else case materializationObject raw ''event payload'' of
        Inl e \<Rightarrow> Inl e
      | Inr payload \<Rightarrow>
          let row = event\<lparr>oe_id := new_id, oe_payload := payload, oe_created_at := now, oe_published_at := None\<rparr> in
          if new_id \<in> keys oe_id (so_events db) then Inl (StConflict ''outbox_events_pkey'')
          else if \<not> set_option (oe_workspace_id event) \<subseteq> set (so_workspaces db) then Inl (StForeignKey ''outbox_events_workspace_id_fkey'')
          else Inr (row, db\<lparr>so_events := so_events db @ [row]\<rparr>))"

definition GetEvent :: "studio_db \<Rightarrow> uuid \<Rightarrow> studio_error + OutboxEvent" where
  "GetEvent db i = (case List.find (\<lambda>e. oe_id e = i) (so_events db) of None \<Rightarrow> Inl StNotFound | Some e \<Rightarrow> Inr e)"

definition MarkPublished :: "time \<Rightarrow> uuid \<Rightarrow> studio_db \<Rightarrow> studio_error + (OutboxEvent \<times> studio_db)" where
  "MarkPublished now i db =
     (let p = (\<lambda>e. oe_id e = i \<and> oe_published_at e = None) in
      case List.find p (so_events db) of
        None \<Rightarrow> Inl StNotFound
      | Some e \<Rightarrow> Inr (e\<lparr>oe_published_at := Some now\<rparr>,
          db\<lparr>so_events := update_where p (\<lambda>e. e\<lparr>oe_published_at := Some now\<rparr>) (so_events db)\<rparr>))"

definition ListByWorkspace :: "studio_db \<Rightarrow> uuid \<Rightarrow> OutboxEvent list" where
  "ListByWorkspace db w = sort_key oe_created_at (sort_key oe_id (filter (\<lambda>e. oe_workspace_id e = Some w) (so_events db)))"

definition FanoutUnpublished :: "commit_outcome \<Rightarrow> (uuid \<Rightarrow> bool) \<Rightarrow> (OutboxEvent \<Rightarrow> studio_db \<Rightarrow> studio_error + (unit \<times> studio_db)) \<Rightarrow> studio_db \<Rightarrow>
    (studio_error + unit) \<times> studio_db" where
  "FanoutUnpublished commit locked fn =
     WithTx commit (\<lambda>db. case oldest oe_created_at oe_id (filter (\<lambda>e. oe_published_at e = None \<and> \<not> locked (oe_id e)) (so_events db)) of
        None \<Rightarrow> Inl StNotFound
      | Some event \<Rightarrow> fn event db)"

section \<open>Endpoints\<close>

definition endpoint_status_ok :: "string \<Rightarrow> bool" where
  "endpoint_status_ok s \<longleftrightarrow> s \<in> {''active'', ''paused'', ''retired''}"

definition CreateEndpoint :: "time \<Rightarrow> uuid \<Rightarrow> WebhookEndpoint \<Rightarrow> studio_db \<Rightarrow> studio_error + (WebhookEndpoint \<times> studio_db)" where
  "CreateEndpoint now new_id inp db =
     (if we_workspace_id inp = uuid_nil \<or> trim_space (we_url inp) = [] then Inl (StInvalid ''workspace and URL are required'')
      else let row = inp\<lparr>we_id := new_id, we_status := (if we_status inp = [] then ''active'' else we_status inp), we_created_at := now\<rparr> in
        if \<not> endpoint_status_ok (we_status row) then Inl (StCheck ''webhook_endpoints_status_check'')
        else if new_id \<in> keys we_id (so_endpoints db) then Inl (StConflict ''webhook_endpoints_pkey'')
        else if we_workspace_id row \<notin> set (so_workspaces db) then Inl (StForeignKey ''webhook_endpoints_workspace_id_fkey'')
        else Inr (row, db\<lparr>so_endpoints := so_endpoints db @ [row]\<rparr>))"

definition ListEndpoints :: "studio_db \<Rightarrow> uuid \<Rightarrow> WebhookEndpoint list" where
  "ListEndpoints db w = sort_key we_created_at (sort_key we_id (filter (\<lambda>p. we_workspace_id p = w) (so_endpoints db)))"

definition GetEndpoint :: "studio_db \<Rightarrow> uuid \<Rightarrow> studio_error + WebhookEndpoint" where
  "GetEndpoint db i = (case List.find (\<lambda>p. we_id p = i) (so_endpoints db) of None \<Rightarrow> Inl StNotFound | Some p \<Rightarrow> Inr p)"

definition changed_endpoint :: "WebhookEndpoint \<Rightarrow> WebhookEndpoint \<Rightarrow> WebhookEndpoint" where
  "changed_endpoint inp p = p\<lparr>we_url := we_url inp, we_secret_ref := we_secret_ref inp, we_event_types := we_event_types inp,
     we_status := (if we_status inp = [] then ''active'' else we_status inp)\<rparr>"

definition UpdateEndpoint :: "WebhookEndpoint \<Rightarrow> studio_db \<Rightarrow> studio_error + (WebhookEndpoint \<times> studio_db)" where
  "UpdateEndpoint inp db =
     (if we_id inp = uuid_nil \<or> trim_space (we_url inp) = [] then Inl (StInvalid ''endpoint id and URL are required'')
      else case List.find (\<lambda>p. we_id p = we_id inp) (so_endpoints db) of
        None \<Rightarrow> Inl StNotFound
      | Some p \<Rightarrow>
          if \<not> endpoint_status_ok (we_status (changed_endpoint inp p)) then Inl (StCheck ''webhook_endpoints_status_check'')
          else Inr (changed_endpoint inp p,
            db\<lparr>so_endpoints := update_where (\<lambda>p. we_id p = we_id inp) (changed_endpoint inp) (so_endpoints db)\<rparr>))"

text \<open>Deleting an endpoint deletes its deliveries with it.\<close>

definition DeleteEndpoint :: "uuid \<Rightarrow> studio_db \<Rightarrow> studio_error + studio_db" where
  "DeleteEndpoint i db =
     (if i \<notin> keys we_id (so_endpoints db) then Inl StNotFound
      else Inr (db\<lparr>so_endpoints := filter (\<lambda>p. we_id p \<noteq> i) (so_endpoints db),
                   so_deliveries := filter (\<lambda>d. wd_endpoint_id d \<noteq> i) (so_deliveries db)\<rparr>))"

definition ListActiveForEvent :: "studio_db \<Rightarrow> uuid \<Rightarrow> string \<Rightarrow> WebhookEndpoint list" where
  "ListActiveForEvent db w eventType =
     (if w = uuid_nil then []
      else sort_key we_created_at (sort_key we_id (filter (\<lambda>p. we_workspace_id p = w \<and> we_status p = ''active'' \<and>
        (we_event_types p = [] \<or> eventType \<in> set (we_event_types p))) (so_endpoints db))))"

section \<open>Deliveries\<close>

definition new_delivery :: "time \<Rightarrow> uuid \<Rightarrow> uuid \<Rightarrow> uuid \<Rightarrow> string \<Rightarrow> WebhookDelivery" where
  "new_delivery now new_id endpointID eventID key = \<lparr>wd_id = new_id, wd_endpoint_id = endpointID, wd_event_id = eventID,
     wd_idempotency_key = key, wd_status = ''pending'', wd_attempt_count = 0, wd_last_error = [], wd_delivered_at = None, wd_lease_owner = [],
     wd_lease_expires_at = None, wd_attempt_started_at = None, wd_created_at = now\<rparr>"

definition Schedule :: "time \<Rightarrow> uuid \<Rightarrow> uuid \<Rightarrow> uuid \<Rightarrow> string \<Rightarrow> studio_db \<Rightarrow> studio_error + (WebhookDelivery \<times> studio_db)" where
  "Schedule now new_id endpointID eventID key db =
     (if endpointID = uuid_nil \<or> eventID = uuid_nil \<or> trim_space key = [] then Inl (StInvalid ''endpoint, event, and idempotency key are required'')
      else case List.find (\<lambda>d. wd_endpoint_id d = endpointID \<and> wd_event_id d = eventID) (so_deliveries db) of
        Some d \<Rightarrow> Inr (d, db)
      | None \<Rightarrow>
          let row = new_delivery now new_id endpointID eventID key in
          if new_id \<in> keys wd_id (so_deliveries db) then Inl (StConflict ''webhook_deliveries_pkey'')
          else if key \<in> keys wd_idempotency_key (so_deliveries db) then Inl (StConflict ''webhook_deliveries_idempotency_key_key'')
          else if endpointID \<notin> keys we_id (so_endpoints db) \<or> eventID \<notin> keys oe_id (so_events db) then Inl (StForeignKey ''webhook_deliveries'')
          else Inr (row, db\<lparr>so_deliveries := so_deliveries db @ [row]\<rparr>))"

definition claimable_delivery :: "time \<Rightarrow> int \<Rightarrow> WebhookDelivery \<Rightarrow> bool" where
  "claimable_delivery now limit d \<longleftrightarrow> wd_status d \<in> {''pending'', ''failed''} \<and>
     (case wd_lease_expires_at d of None \<Rightarrow> True | Some u \<Rightarrow> u \<le> now) \<and> (0 < limit \<longrightarrow> wd_attempt_count d < limit)"

definition claimed_delivery :: "time \<Rightarrow> string \<Rightarrow> duration \<Rightarrow> WebhookDelivery \<Rightarrow> WebhookDelivery" where
  "claimed_delivery now owner leaseTTL d = d\<lparr>wd_lease_owner := owner, wd_lease_expires_at := Some (now + leaseTTL),
     wd_attempt_started_at := Some now, wd_attempt_count := wd_attempt_count d + 1\<rparr>"

definition ClaimRetryable :: "commit_outcome \<Rightarrow> (uuid \<Rightarrow> bool) \<Rightarrow> time \<Rightarrow> string \<Rightarrow> duration \<Rightarrow> int \<Rightarrow> studio_db \<Rightarrow>
    (studio_error + WebhookDelivery) \<times> studio_db" where
  "ClaimRetryable commit locked now owner leaseTTL limit db =
     (if trim_space owner = [] \<or> leaseTTL \<le> 0 then (Inl (StInvalid ''owner and positive lease are required''), db)
      else WithTx commit (\<lambda>db.
        case oldest wd_created_at wd_id (filter (\<lambda>d. claimable_delivery now limit d \<and> \<not> locked (wd_id d)) (so_deliveries db)) of
          None \<Rightarrow> Inl StNotFound
        | Some d \<Rightarrow> Inr (claimed_delivery now owner leaseTTL d,
            db\<lparr>so_deliveries := update_where (\<lambda>x. wd_id x = wd_id d) (claimed_delivery now owner leaseTTL) (so_deliveries db)\<rparr>)) db)"

definition ClaimDelivery :: "commit_outcome \<Rightarrow> (uuid \<Rightarrow> bool) \<Rightarrow> time \<Rightarrow> string \<Rightarrow> duration \<Rightarrow> studio_db \<Rightarrow> (studio_error + WebhookDelivery) \<times> studio_db" where
  "ClaimDelivery commit locked now owner leaseTTL = ClaimRetryable commit locked now owner leaseTTL 0"

definition holds_lease :: "time \<Rightarrow> uuid \<Rightarrow> string \<Rightarrow> WebhookDelivery \<Rightarrow> bool" where
  "holds_lease now i owner d \<longleftrightarrow> wd_id d = i \<and> wd_lease_owner d = owner \<and> (case wd_lease_expires_at d of None \<Rightarrow> False | Some u \<Rightarrow> now < u)"

definition fenced_update :: "(WebhookDelivery \<Rightarrow> bool) \<Rightarrow> (WebhookDelivery \<Rightarrow> WebhookDelivery) \<Rightarrow> studio_db \<Rightarrow> studio_error + (WebhookDelivery \<times> studio_db)" where
  "fenced_update p f db =
     (case List.find p (so_deliveries db) of
        None \<Rightarrow> Inl StLeaseLost
      | Some d \<Rightarrow> Inr (f d, db\<lparr>so_deliveries := update_where p f (so_deliveries db)\<rparr>))"

definition ReleaseForRetry :: "time \<Rightarrow> uuid \<Rightarrow> string \<Rightarrow> string \<Rightarrow> duration \<Rightarrow> studio_db \<Rightarrow> studio_error + (WebhookDelivery \<times> studio_db)" where
  "ReleaseForRetry now i owner message backoff =
     fenced_update (holds_lease now i owner)
       (\<lambda>d. d\<lparr>wd_status := ''failed'', wd_last_error := message, wd_lease_owner := [], wd_lease_expires_at := Some (now + max backoff 0),
          wd_attempt_started_at := None\<rparr>)"

definition finishDelivery :: "time \<Rightarrow> uuid \<Rightarrow> string \<Rightarrow> string \<Rightarrow> string \<Rightarrow> studio_db \<Rightarrow> studio_error + (WebhookDelivery \<times> studio_db)" where
  "finishDelivery now i owner status message =
     fenced_update (holds_lease now i owner)
       (\<lambda>d. d\<lparr>wd_status := status, wd_last_error := message, wd_delivered_at := (if status = ''delivered'' then Some now else wd_delivered_at d),
          wd_lease_owner := [], wd_lease_expires_at := None, wd_attempt_started_at := None\<rparr>)"

definition MarkDelivered :: "time \<Rightarrow> uuid \<Rightarrow> string \<Rightarrow> studio_db \<Rightarrow> studio_error + (WebhookDelivery \<times> studio_db)" where
  "MarkDelivered now i owner = finishDelivery now i owner ''delivered'' []"

definition MarkFailed :: "time \<Rightarrow> uuid \<Rightarrow> string \<Rightarrow> string \<Rightarrow> studio_db \<Rightarrow> studio_error + (WebhookDelivery \<times> studio_db)" where
  "MarkFailed now i owner message = finishDelivery now i owner ''failed'' message"

definition GetDelivery :: "studio_db \<Rightarrow> uuid \<Rightarrow> studio_error + WebhookDelivery" where
  "GetDelivery db i = (case List.find (\<lambda>d. wd_id d = i) (so_deliveries db) of None \<Rightarrow> Inl StNotFound | Some d \<Rightarrow> Inr d)"

definition ListByEndpoint :: "studio_db \<Rightarrow> uuid \<Rightarrow> int \<Rightarrow> int \<Rightarrow> WebhookDelivery list \<times> nat" where
  "ListByEndpoint db endpointID limit offset =
     (let lim = (if limit \<le> 0 then 25 else if 200 < limit then 200 else limit);
          rows = filter (\<lambda>d. wd_endpoint_id d = endpointID) (so_deliveries db)
      in (take (nat lim) (drop (nat offset) (rev (sort_key wd_created_at (sort_key wd_id rows)))), length rows))"

section \<open>Inbound idempotency keys\<close>

definition idempotency_index :: "IdempotencyRow \<Rightarrow> uuid \<times> string \<times> string" where
  "idempotency_index r = (ik_workspace_id r, ik_scope r, ik_key r)"

text \<open>The error path of the insert (a missing workspace) and the read that follows a conflict.\<close>

definition BeginIdempotent :: "time \<Rightarrow> uuid \<Rightarrow> uuid \<Rightarrow> string \<Rightarrow> string \<Rightarrow> string \<Rightarrow> studio_db \<Rightarrow> studio_error + (IdempotencyRow \<times> studio_db)" where
  "BeginIdempotent now new_id workspaceID scope key requestHash db =
     (if workspaceID = uuid_nil \<or> trim_space scope = [] \<or> trim_space key = [] then Inl (StInvalid ''workspace, scope, and key are required'')
      else let row = \<lparr>ik_id = new_id, ik_workspace_id = workspaceID, ik_scope = scope, ik_key = key, ik_request_hash = requestHash,
                 ik_response_ref = [], ik_created_at = now\<rparr> in
        case List.find (\<lambda>r. idempotency_index r = idempotency_index row) (so_keys db) of
          None \<Rightarrow>
            if workspaceID \<notin> set (so_workspaces db) then Inl (StForeignKey ''idempotency_keys_workspace_id_fkey'')
            else if new_id \<in> keys ik_id (so_keys db) then Inl (StConflict ''idempotency_keys_pkey'')
            else Inr (row, db\<lparr>so_keys := so_keys db @ [row]\<rparr>)
        | Some r \<Rightarrow>
            if ik_request_hash r \<noteq> requestHash then Inl (StConflict ''idempotency request hash mismatch'') else Inr (r, db))"

definition SetResponse :: "uuid \<Rightarrow> string \<Rightarrow> string \<Rightarrow> string \<Rightarrow> studio_db \<Rightarrow> studio_error + (IdempotencyRow \<times> studio_db)" where
  "SetResponse workspaceID scope key responseRef db =
     (let p = (\<lambda>r. idempotency_index r = (workspaceID, scope, key)) in
      case List.find p (so_keys db) of
        None \<Rightarrow> Inl StNotFound
      | Some r \<Rightarrow> Inr (r\<lparr>ik_response_ref := responseRef\<rparr>,
          db\<lparr>so_keys := update_where p (\<lambda>r. r\<lparr>ik_response_ref := responseRef\<rparr>) (so_keys db)\<rparr>))"

end
