(* ===== verification/Studio_Worker.thy ===== *)
theory Studio_Worker
  imports Studio_Outbox
begin

text \<open>
  The worker that drains the outbox of Curriculum Studio (\<^verbatim>\<open>internal/outbox/worker.go\<close>, \<^verbatim>\<open>envelope.go\<close>, \<^verbatim>\<open>signature.go\<close>): one tick fans out at most one event and
  delivers at most one webhook.  Between the claim of a delivery, the request and the statement that records its outcome other processes run; what they do to the tables is
  part of the tick's environment.
\<close>

section \<open>Signatures\<close>

definition hex_digit :: "nat \<Rightarrow> char" where
  "hex_digit n = (if n < 10 then char_of (48 + n) else char_of (87 + n))"

definition hex_value :: "char \<Rightarrow> nat option" where
  "hex_value c = (let n = of_char c :: nat in
     if 48 \<le> n \<and> n \<le> 57 then Some (n - 48) else if 97 \<le> n \<and> n \<le> 102 then Some (n - 87) else if 65 \<le> n \<and> n \<le> 70 then Some (n - 55) else None)"

definition hex_encode :: "string \<Rightarrow> string" where
  "hex_encode bs = concat (map (\<lambda>b. [hex_digit (of_char b div 16), hex_digit (of_char b mod 16)]) bs)"

fun hex_decode :: "string \<Rightarrow> string option" where
  "hex_decode [] = Some []"
| "hex_decode [c] = None"
| "hex_decode (c # d # cs) =
     (case (hex_value c, hex_value d, hex_decode cs) of
        (Some h, Some l, Some rest) \<Rightarrow> Some (char_of (16 * h + l) # rest)
      | _ \<Rightarrow> None)"

fun decimal_nat :: "nat \<Rightarrow> string" where
  "decimal_nat n = (if n < 10 then [char_of (48 + n)] else decimal_nat (n div 10) @ [char_of (48 + n mod 10)])"

definition format_int :: "int \<Rightarrow> string" where
  "format_int n = (if n < 0 then ''-'' @ decimal_nat (nat (- n)) else decimal_nat (nat n))"

text \<open>\<open>hmac secret message\<close> is HMAC-SHA256.\<close>

definition macV1 :: "(string \<Rightarrow> string \<Rightarrow> string) \<Rightarrow> string \<Rightarrow> string \<Rightarrow> string \<Rightarrow> string" where
  "macV1 hmac secret timestamp body = hmac secret (timestamp @ ''.'' @ body)"

definition SignV1 :: "(string \<Rightarrow> string \<Rightarrow> string) \<Rightarrow> string \<Rightarrow> time \<Rightarrow> string \<Rightarrow> string \<times> string" where
  "SignV1 hmac secret ts body =
     (let unix = format_int (ts div second) in (''v1='' @ hex_encode (macV1 hmac secret unix body), unix))"

definition parseV1 :: "string \<Rightarrow> string option" where
  "parseV1 signature =
     (let raw = trim_space signature in
      if \<not> has_prefix raw ''v1='' then None
      else case hex_decode (trim_prefix raw ''v1='') of
        None \<Rightarrow> None
      | Some bytes \<Rightarrow> if length bytes \<noteq> 32 then None else Some bytes)"

definition VerifyV1 :: "(string \<Rightarrow> string \<Rightarrow> string) \<Rightarrow> string \<Rightarrow> string \<Rightarrow> string \<Rightarrow> string \<Rightarrow> bool" where
  "VerifyV1 hmac secret signature timestamp body =
     (case parseV1 signature of None \<Rightarrow> False | Some got \<Rightarrow> got = macV1 hmac secret timestamp body)"

section \<open>Envelopes\<close>

record DomainEvent =
  de_id :: string
  de_type :: string
  de_workspace_id :: string
  de_curriculum_id :: string
  de_revision_id :: string
  de_materialization_id :: string
  de_item_id :: string
  de_occurred_at :: time
  de_data :: json

fun stringField :: "(string \<times> json) list \<Rightarrow> string list \<Rightarrow> string" where
  "stringField payload [] = []"
| "stringField payload (key # others) =
     (case map_of payload key of
        Some (JString s) \<Rightarrow> if trim_space s \<noteq> [] then s else stringField payload others
      | _ \<Rightarrow> stringField payload others)"

definition or_field :: "string \<Rightarrow> json \<Rightarrow> string list \<Rightarrow> string" where
  "or_field s payload names = (if s \<noteq> [] then s else case payload of JObject members \<Rightarrow> stringField members names | _ \<Rightarrow> [])"

definition envelopeFor :: "OutboxEvent \<Rightarrow> DomainEvent" where
  "envelopeFor event =
     (let aggregate = (\<lambda>kind. if oe_aggregate_kind event = kind then oe_aggregate_id event else []) in
      \<lparr>de_id = oe_id event, de_type = oe_event_type event,
       de_workspace_id = (case oe_workspace_id event of Some w \<Rightarrow> if w \<noteq> uuid_nil then w else [] | None \<Rightarrow> []),
       de_curriculum_id = or_field (aggregate ''curriculum'') (oe_payload event) [''curriculum_id'', ''curriculumId''],
       de_revision_id = or_field (aggregate ''plan_revision'') (oe_payload event) [''revision_id'', ''revisionId''],
       de_materialization_id = or_field (aggregate ''materialization_run'') (oe_payload event) [''materialization_id'', ''materializationId'', ''run_id''],
       de_item_id = or_field (aggregate ''materialized_item'') (oe_payload event) [''item_id'', ''itemId''],
       de_occurred_at = oe_created_at event, de_data = oe_payload event\<rparr>)"

definition IdempotencyKey :: "uuid \<Rightarrow> uuid \<Rightarrow> string" where
  "IdempotencyKey endpointID eventID = ''wh:'' @ endpointID @ '':'' @ eventID"

section \<open>The worker\<close>

definition defaultPollInterval :: duration where "defaultPollInterval = 200 * millisecond"
definition defaultDeliveryTO :: duration where "defaultDeliveryTO = 5 * second"
definition defaultLeaseTTL :: duration where "defaultLeaseTTL = 30 * second"
definition defaultMaxAttempts :: int where "defaultMaxAttempts = 5"
definition maxErrorLen :: nat where "maxErrorLen = 512"

text \<open>The settings that decide what the worker does to the tables.\<close>

record Worker =
  wk_owner :: string
  wk_poll :: duration
  wk_timeout :: duration
  wk_lease :: duration
  wk_max_attempts :: int

definition NewWorker :: "uuid \<Rightarrow> Worker \<Rightarrow> Worker" where
  "NewWorker new_id cfg =
     \<lparr>wk_owner = (if trim_space (wk_owner cfg) = [] then ''studio-outbox-'' @ new_id else trim_space (wk_owner cfg)),
      wk_poll = (if wk_poll cfg \<le> 0 then defaultPollInterval else wk_poll cfg),
      wk_timeout = (if wk_timeout cfg \<le> 0 then defaultDeliveryTO else wk_timeout cfg),
      wk_lease = (if wk_lease cfg \<le> 0 then defaultLeaseTTL else wk_lease cfg),
      wk_max_attempts = (if wk_max_attempts cfg \<le> 0 then defaultMaxAttempts else wk_max_attempts cfg)\<rparr>"

definition backoffFor :: "int \<Rightarrow> duration" where
  "backoffFor attempt =
     (let d = 2 ^ nat (min (max attempt 1 - 1) 6) * 50 * millisecond in if 5 * second < d then 5 * second else d)"

fun error_text :: "studio_error \<Rightarrow> string" where
  "error_text (StInvalid m) = m"
| "error_text StNotFound = ''studio repo: not found''"
| "error_text (StConflict m) = ''studio repo: conflict: '' @ m"
| "error_text (StForeignKey m) = ''studio repo: foreign key violation: '' @ m"
| "error_text (StCheck m) = ''studio repo: check violation: '' @ m"
| "error_text StLeaseLost = ''studio repo: workflow lease lost''"
| "error_text (StOther m) = m"

definition clipErr :: "studio_error \<Rightarrow> string" where
  "clipErr e = take maxErrorLen (error_text e)"

definition deliveryNoLongerOwned :: "studio_error \<Rightarrow> bool" where
  "deliveryNoLongerOwned e \<longleftrightarrow> e = StLeaseLost \<or> e = StNotFound"

record http_request =
  rq_url :: string
  rq_body :: string
  rq_event_id :: string
  rq_event_type :: string
  rq_timestamp :: string
  rq_signature :: string
  rq_idempotency_key :: string

text \<open>
  The environment of one tick: the rows other transactions hold locked, the instants of its statements, the ends of its two
  transactions, the identifiers of new deliveries (one per endpoint), what the secret store, the request and the receiver answer, and
  what other processes do to the tables before and after the request.
\<close>

record tick_env =
  te_locked :: "uuid \<Rightarrow> bool"
  te_fanout_at :: time
  te_fanout_commit :: commit_outcome
  te_delivery_id :: "uuid \<Rightarrow> uuid"
  te_claim_at :: time
  te_claim_commit :: commit_outcome
  te_meanwhile :: "studio_db \<Rightarrow> studio_db"
  te_resolve :: "string \<Rightarrow> studio_error + string"
  te_marshal :: "DomainEvent \<Rightarrow> string"
  te_hmac :: "string \<Rightarrow> string \<Rightarrow> string"
  te_signed_at :: time
  te_receiver :: "http_request \<Rightarrow> studio_error + int"
  te_afterwards :: "studio_db \<Rightarrow> studio_db"
  te_mark_at :: time

definition signed_request :: "tick_env \<Rightarrow> OutboxEvent \<Rightarrow> WebhookEndpoint \<Rightarrow> string \<Rightarrow> WebhookDelivery \<Rightarrow> http_request" where
  "signed_request env event endpoint secret claimed =
     (let body = te_marshal env (envelopeFor event); (sig, ts) = SignV1 (te_hmac env) secret (te_signed_at env) body in
      \<lparr>rq_url = we_url endpoint, rq_body = body, rq_event_id = oe_id event, rq_event_type = oe_event_type event, rq_timestamp = ts,
       rq_signature = sig, rq_idempotency_key = wd_idempotency_key claimed\<rparr>)"

definition postClaimed :: "tick_env \<Rightarrow> WebhookDelivery \<Rightarrow> studio_db \<Rightarrow> studio_error option" where
  "postClaimed env claimed db =
     (case GetEvent db (wd_event_id claimed) of
        Inl e \<Rightarrow> Some e
      | Inr event \<Rightarrow>
      case GetEndpoint db (wd_endpoint_id claimed) of
        Inl e \<Rightarrow> Some e
      | Inr endpoint \<Rightarrow>
      if we_status endpoint \<noteq> ''active'' then Some (StOther ''endpoint is not active'')
      else if oe_workspace_id event \<noteq> Some (we_workspace_id endpoint) then Some (StOther ''cross-workspace delivery refused'')
      else case te_resolve env (we_secret_ref endpoint) of
        Inl e \<Rightarrow> Some e
      | Inr secret \<Rightarrow>
      case te_receiver env (signed_request env event endpoint secret claimed) of
        Inl e \<Rightarrow> Some e
      | Inr status \<Rightarrow> if status < 200 \<or> 299 < status then Some (StOther (''receiver status '' @ format_int status)) else None)"

fun schedule_all :: "tick_env \<Rightarrow> OutboxEvent \<Rightarrow> WebhookEndpoint list \<Rightarrow> studio_db \<Rightarrow> studio_error + studio_db" where
  "schedule_all env event [] db = Inr db"
| "schedule_all env event (p # ps) db =
     (case Schedule (te_fanout_at env) (te_delivery_id env (we_id p)) (we_id p) (oe_id event) (IdempotencyKey (we_id p) (oe_id event)) db of
        Inl e \<Rightarrow> Inl e
      | Inr (_, db') \<Rightarrow> schedule_all env event ps db')"

definition fanout_event :: "tick_env \<Rightarrow> OutboxEvent \<Rightarrow> studio_db \<Rightarrow> studio_error + (unit \<times> studio_db)" where
  "fanout_event env event db =
     (let endpoints = (case oe_workspace_id event of
          Some w \<Rightarrow> if w \<noteq> uuid_nil then ListActiveForEvent db w (oe_event_type event) else []
        | None \<Rightarrow> [])
      in case schedule_all env event endpoints db of
           Inl e \<Rightarrow> Inl e
         | Inr db1 \<Rightarrow> (case MarkPublished (te_fanout_at env) (oe_id event) db1 of Inl e \<Rightarrow> Inl e | Inr (_, db2) \<Rightarrow> Inr ((), db2)))"

definition fanoutOne :: "tick_env \<Rightarrow> studio_db \<Rightarrow> (studio_error + bool) \<times> studio_db" where
  "fanoutOne env db =
     (case FanoutUnpublished (te_fanout_commit env) (te_locked env) (fanout_event env) db of
        (Inl e, db') \<Rightarrow> (if e = StNotFound then Inr False else Inl e, db')
      | (Inr _, db') \<Rightarrow> (Inr True, db'))"

text \<open>A lost lease ends the attempt without an error; every other failure of the statement is one.\<close>

definition record_outcome :: "studio_error + (WebhookDelivery \<times> studio_db) \<Rightarrow> studio_db \<Rightarrow> (studio_error + bool) \<times> studio_db" where
  "record_outcome res db =
     (case res of
        Inl e \<Rightarrow> (if deliveryNoLongerOwned e then Inr True else Inl e, db)
      | Inr (_, db') \<Rightarrow> (Inr True, db'))"

definition deliverOne :: "Worker \<Rightarrow> tick_env \<Rightarrow> studio_db \<Rightarrow> (studio_error + bool) \<times> studio_db" where
  "deliverOne w env db =
     (case ClaimRetryable (te_claim_commit env) (te_locked env) (te_claim_at env) (wk_owner w) (wk_lease w) (wk_max_attempts w) db of
        (Inl e, db1) \<Rightarrow> (if e = StNotFound then Inr False else Inl e, db1)
      | (Inr claimed, db1) \<Rightarrow>
          let db2 = te_meanwhile env db1;
              res = postClaimed env claimed db2;
              db3 = te_afterwards env db2
          in case res of
               Some err \<Rightarrow>
                 if wk_max_attempts w \<le> wd_attempt_count claimed
                 then record_outcome (MarkFailed (te_mark_at env) (wd_id claimed) (wk_owner w) (clipErr err) db3) db3
                 else record_outcome (ReleaseForRetry (te_mark_at env) (wd_id claimed) (wk_owner w) (clipErr err) (backoffFor (wd_attempt_count claimed)) db3) db3
             | None \<Rightarrow> record_outcome (MarkDelivered (te_mark_at env) (wd_id claimed) (wk_owner w) db3) db3)"

definition Tick :: "Worker \<Rightarrow> tick_env \<Rightarrow> studio_db \<Rightarrow> (studio_error + bool) \<times> studio_db" where
  "Tick w env db =
     (case fanoutOne env db of
        (Inl e, db1) \<Rightarrow> (Inl e, db1)
      | (Inr fanned, db1) \<Rightarrow>
          (case deliverOne w env db1 of
             (Inl e, db2) \<Rightarrow> (Inl e, db2)
           | (Inr delivered, db2) \<Rightarrow> (Inr (fanned \<or> delivered), db2)))"

text \<open>
  Draining: \<open>ctx n\<close> is the error of the context before tick \<open>n\<close> and \<open>envs n\<close> the environment of that tick.  The result is \<open>None\<close> when the fuel runs out before the
  loop ends, and otherwise the error, if any, with the tables and the number of ticks.
\<close>

fun drain_from :: "nat \<Rightarrow> Worker \<Rightarrow> (nat \<Rightarrow> studio_error option) \<Rightarrow> (nat \<Rightarrow> tick_env) \<Rightarrow> nat \<Rightarrow> studio_db \<Rightarrow> (studio_error option \<times> nat \<times> studio_db) option" where
  "drain_from 0 w ctx envs n db = None"
| "drain_from (Suc fuel) w ctx envs n db =
     (case ctx n of
        Some e \<Rightarrow> Some (Some e, n, db)
      | None \<Rightarrow>
          (case Tick w (envs n) db of
             (Inl e, db') \<Rightarrow> Some (Some e, Suc n, db')
           | (Inr worked, db') \<Rightarrow> if \<not> worked then Some (None, Suc n, db') else drain_from fuel w ctx envs (Suc n) db'))"

definition DrainUntilIdle :: "nat \<Rightarrow> Worker \<Rightarrow> (nat \<Rightarrow> studio_error option) \<Rightarrow> (nat \<Rightarrow> tick_env) \<Rightarrow> studio_db \<Rightarrow> (studio_error option \<times> nat \<times> studio_db) option" where
  "DrainUntilIdle fuel w ctx envs db = drain_from fuel w ctx envs 0 db"

end
