(* ===== verification/Lease.thy ===== *)
theory Lease
  imports Main
begin

text \<open>
  The contract of work that is held by a lease.  An actor that claims a piece of work holds it until an instant; until then no step of another actor
  touches it.  Webhook deliveries of Curriculum Studio and agent jobs of the tasks service are providers of this contract.
\<close>

text \<open>Runs in which only actors other than \<open>h\<close> act, all before the instant \<open>u\<close>.\<close>

inductive others_run :: "('o \<Rightarrow> int \<Rightarrow> 's \<Rightarrow> 's \<Rightarrow> bool) \<Rightarrow> 'o \<Rightarrow> int \<Rightarrow> 's \<Rightarrow> 's \<Rightarrow> bool"
  for step :: "'o \<Rightarrow> int \<Rightarrow> 's \<Rightarrow> 's \<Rightarrow> bool" and h :: 'o and u :: int where
  idle: "others_run step h u s s"
| act: "others_run step h u s s' \<Longrightarrow> step a t s' s'' \<Longrightarrow> a \<noteq> h \<Longrightarrow> t < u \<Longrightarrow> others_run step h u s s''"

lemma one_other: "step a t s s' \<Longrightarrow> a \<noteq> h \<Longrightarrow> t < u \<Longrightarrow> others_run step h u s s'"
  by (rule act [OF idle])

text \<open>Runs of all actors at any instants.\<close>

definition any_step :: "('o \<Rightarrow> int \<Rightarrow> 's \<Rightarrow> 's \<Rightarrow> bool) \<Rightarrow> 's \<Rightarrow> 's \<Rightarrow> bool" where
  "any_step step s s' \<longleftrightarrow> (\<exists>a t. step a t s s')"

locale leases =
  fixes inv :: "'s \<Rightarrow> bool" and step :: "'o \<Rightarrow> int \<Rightarrow> 's \<Rightarrow> 's \<Rightarrow> bool" and lease :: "'s \<Rightarrow> 'k \<Rightarrow> ('o \<times> int \<times> 'r) option"
  assumes step_inv: "step a t s s' \<Longrightarrow> inv s \<Longrightarrow> inv s'"
    and foreign_step: "step a t s s' \<Longrightarrow> inv s \<Longrightarrow> lease s k = Some (h, u, r) \<Longrightarrow> a \<noteq> h \<Longrightarrow> t < u \<Longrightarrow> lease s' k = Some (h, u, r)"
begin

lemma others_inv: "others_run step h u s s' \<Longrightarrow> inv s \<Longrightarrow> inv s'"
  by (induction rule: others_run.induct) (auto intro: step_inv)

lemma exclusive: "others_run step h u s s' \<Longrightarrow> inv s \<Longrightarrow> lease s k = Some (h, u, r) \<Longrightarrow> lease s' k = Some (h, u, r)"
proof (induction rule: others_run.induct)
  case (act s s' a t s'')
  from others_inv [OF act.hyps(1) act.prems(1)] act show ?case by (auto intro: foreign_step)
qed

lemma any_inv: "(any_step step)\<^sup>*\<^sup>* s s' \<Longrightarrow> inv s \<Longrightarrow> inv s'"
  by (induction rule: rtranclp_induct) (auto simp: any_step_def intro: step_inv)

end


end
