(* ===== verification/Studio_Laws.thy ===== *)
theory Studio_Laws
  imports Studio_Worker Lease
begin

text \<open>
  What holds of the outbox of Curriculum Studio: the tables keep their constraints, every delivery belongs to a published event and an endpoint of
  the same workspace, a fan-out adds exactly the deliveries of its event, leases exclude other workers, and each tick that does work uses up
  some of the work that is left.
\<close>

section \<open>Well-formed tables\<close>

definition pair_key :: "WebhookDelivery \<Rightarrow> uuid \<times> uuid" where
  "pair_key d = (wd_endpoint_id d, wd_event_id d)"

definition delivery_ok :: "studio_db \<Rightarrow> WebhookDelivery \<Rightarrow> bool" where
  "delivery_ok db d \<longleftrightarrow> 0 \<le> wd_attempt_count d \<and> wd_status d \<in> {''pending'', ''failed'', ''delivered''} \<and>
     (\<exists>e \<in> set (so_events db). oe_id e = wd_event_id d \<and> oe_published_at e \<noteq> None \<and>
       (\<exists>p \<in> set (so_endpoints db). we_id p = wd_endpoint_id d \<and> oe_workspace_id e = Some (we_workspace_id p)))"

definition studio_wf :: "studio_db \<Rightarrow> bool" where
  "studio_wf db \<longleftrightarrow> unique_key oe_id (so_events db) \<and> unique_key we_id (so_endpoints db) \<and> unique_key wd_id (so_deliveries db) \<and>
     unique_key pair_key (so_deliveries db) \<and> unique_key idempotency_index (so_keys db) \<and> (\<forall>d \<in> set (so_deliveries db). delivery_ok db d)"

section \<open>Fan-out\<close>

definition fanout_rows :: "tick_env \<Rightarrow> OutboxEvent \<Rightarrow> WebhookEndpoint list \<Rightarrow> WebhookDelivery list" where
  "fanout_rows env e ps = map (\<lambda>p. new_delivery (te_fanout_at env) (te_delivery_id env (we_id p)) (we_id p) (oe_id e) (IdempotencyKey (we_id p) (oe_id e))) ps"

lemma schedule_all_Inr:
  assumes "schedule_all env e ps db = Inr db'" "distinct (map we_id ps)"
    "\<forall>d \<in> set (so_deliveries db). \<forall>p \<in> set ps. pair_key d \<noteq> (we_id p, oe_id e)"
  shows "db' = db\<lparr>so_deliveries := so_deliveries db @ fanout_rows env e ps\<rparr> \<and>
    (unique_key wd_id (so_deliveries db) \<longrightarrow> unique_key wd_id (so_deliveries db'))"
  using assms
proof (induction ps arbitrary: db)
  case (Cons p ps)
  let ?row = "new_delivery (te_fanout_at env) (te_delivery_id env (we_id p)) (we_id p) (oe_id e) (IdempotencyKey (we_id p) (oe_id e))"
  let ?db1 = "db\<lparr>so_deliveries := so_deliveries db @ [?row]\<rparr>"
  have none: "List.find (\<lambda>d. wd_endpoint_id d = we_id p \<and> wd_event_id d = oe_id e) (so_deliveries db) = None"
    using Cons.prems(3) by (auto simp: find_None_iff pair_key_def)
  from Cons.prems(1) none have step: "schedule_all env e ps ?db1 = Inr db'" and new: "wd_id ?row \<notin> keys wd_id (so_deliveries db)"
    by (auto simp: Schedule_def Let_def new_delivery_def split: if_splits)
  have "\<forall>d \<in> set (so_deliveries ?db1). \<forall>q \<in> set ps. pair_key d \<noteq> (we_id q, oe_id e)"
    using Cons.prems(2,3) by (auto simp: pair_key_def new_delivery_def)
  from Cons.IH [OF step _ this] Cons.prems(2) new show ?case
    by (auto simp: fanout_rows_def unique_key_snoc)
qed (simp add: fanout_rows_def)

text \<open>The endpoints an event goes to: the active ones of its workspace that want its type.\<close>

definition subscribes :: "OutboxEvent \<Rightarrow> WebhookEndpoint \<Rightarrow> bool" where
  "subscribes e p \<longleftrightarrow> oe_workspace_id e = Some (we_workspace_id p) \<and> we_workspace_id p \<noteq> uuid_nil \<and> we_status p = ''active'' \<and>
     (we_event_types p = [] \<or> oe_event_type e \<in> set (we_event_types p))"

definition targets :: "OutboxEvent \<Rightarrow> studio_db \<Rightarrow> WebhookEndpoint list" where
  "targets e db = (case oe_workspace_id e of
     Some w \<Rightarrow> if w \<noteq> uuid_nil then ListActiveForEvent db w (oe_event_type e) else [] | None \<Rightarrow> [])"

lemma set_targets: "set (targets e db) = {p \<in> set (so_endpoints db). subscribes e p}"
proof (cases "oe_workspace_id e")
  case (Some w)
  show ?thesis
    by (rule set_eqI, simp add: Some targets_def ListActiveForEvent_def subscribes_def) blast
qed (simp add: targets_def subscribes_def)

lemma distinct_sort_key: "distinct (map f (sort_key k xs)) \<longleftrightarrow> distinct (map f xs)"
proof -
  have "mset (map f (sort_key k xs)) = mset (map f xs)" by simp
  then show ?thesis by (rule mset_eq_imp_distinct_iff)
qed

lemma distinct_targets: "unique_key we_id (so_endpoints db) \<Longrightarrow> distinct (map we_id (targets e db))"
  by (auto simp: targets_def ListActiveForEvent_def distinct_sort_key unique_key_def distinct_map_filter split: option.splits)

lemma length_targets: "length (targets e db) \<le> length (so_endpoints db)"
  by (auto simp: targets_def ListActiveForEvent_def intro: length_filter_le split: option.splits)

definition publish :: "time \<Rightarrow> uuid \<Rightarrow> OutboxEvent list \<Rightarrow> OutboxEvent list" where
  "publish now i = update_where (\<lambda>e. oe_id e = i \<and> oe_published_at e = None) (\<lambda>e. e\<lparr>oe_published_at := Some now\<rparr>)"

lemma no_delivery_unpublished:
  assumes "studio_wf db" "e \<in> set (so_events db)" "oe_published_at e = None" "d \<in> set (so_deliveries db)"
  shows "wd_event_id d \<noteq> oe_id e"
proof
  assume eq: "wd_event_id d = oe_id e"
  from assms(1,4) obtain e' where e': "e' \<in> set (so_events db)" "oe_id e' = wd_event_id d" "oe_published_at e' \<noteq> None"
    by (auto simp: studio_wf_def delivery_ok_def)
  with eq assms(1,2) have "e' = e" by (auto simp: studio_wf_def intro: unique_key_eq [of oe_id "so_events db"])
  with e'(3) assms(3) show False by simp
qed

text \<open>A fan-out that takes effect publishes its event and adds one pending delivery for each endpoint that subscribes to it.\<close>

definition fanned :: "tick_env \<Rightarrow> OutboxEvent \<Rightarrow> studio_db \<Rightarrow> studio_db" where
  "fanned env e db = db\<lparr>so_events := publish (te_fanout_at env) (oe_id e) (so_events db),
     so_deliveries := so_deliveries db @ fanout_rows env e (targets e db)\<rparr>"

lemma fanout_event_Inr:
  assumes "studio_wf db" "e \<in> set (so_events db)" "oe_published_at e = None" "fanout_event env e db = Inr (x, db')"
  shows "db' = fanned env e db \<and> unique_key wd_id (so_deliveries db')"
proof -
  from assms(4) obtain db1 where 1: "schedule_all env e (targets e db) db = Inr db1"
    and 2: "db' = db1\<lparr>so_events := publish (te_fanout_at env) (oe_id e) (so_events db1)\<rparr>"
    unfolding fanout_event_def targets_def [symmetric] Let_def
    by (auto simp: MarkPublished_def Let_def publish_def split: sum.splits option.splits)
  have "\<forall>d \<in> set (so_deliveries db). \<forall>p \<in> set (targets e db). pair_key d \<noteq> (we_id p, oe_id e)"
    using no_delivery_unpublished [OF assms(1-3)] by (auto simp: pair_key_def)
  from schedule_all_Inr [OF 1 _ this] distinct_targets assms(1) 2 show ?thesis
    by (auto simp: fanned_def studio_wf_def)
qed

lemma fanoutOne_cases:
  assumes "fanoutOne env db = (res, db')" "studio_wf db"
  obtains (nothing) "db' = db" "res \<noteq> Inr True"
  | (published) e where "e \<in> set (so_events db)" "oe_published_at e = None" "\<not> te_locked env (oe_id e)"
      "\<forall>x \<in> set (so_events db). oe_published_at x = None \<and> \<not> te_locked env (oe_id x) \<longrightarrow> oe_created_at e \<le> oe_created_at x"
      "db' = fanned env e db" "unique_key wd_id (so_deliveries db')" "res \<noteq> Inr False"
proof -
  let ?p = "\<lambda>e. oe_published_at e = None \<and> \<not> te_locked env (oe_id e)"
  show ?thesis
  proof (cases "oldest oe_created_at oe_id (filter ?p (so_events db))")
    case None
    with assms(1) show ?thesis by (intro that(1)) (auto simp: fanoutOne_def FanoutUnpublished_def WithTx_def commit_tx_def)
  next
    case (Some e)
    note old = oldest_Some [OF Some]
    have first: "\<forall>x \<in> set (so_events db). ?p x \<longrightarrow> oe_created_at e \<le> oe_created_at x"
      using first_row_sort_min [OF Some [unfolded oldest_def]] by simp
    show ?thesis
    proof (cases "fanout_event env e db")
      case (Inl err)
      with assms(1) Some show ?thesis by (intro that(1)) (auto simp: fanoutOne_def FanoutUnpublished_def WithTx_def commit_tx_def split: if_splits)
    next
      case (Inr y)
      then obtain x d where y: "fanout_event env e db = Inr (x, d)" by (cases y) auto
      from fanout_event_Inr [OF assms(2) _ _ y] old have d: "d = fanned env e db" "unique_key wd_id (so_deliveries d)" by auto
      show ?thesis
      proof (cases "db' = db \<and> res \<noteq> Inr True")
        case False
        with assms(1) Some y have "db' = d" "res \<noteq> Inr False"
          by (auto simp: fanoutOne_def FanoutUnpublished_def WithTx_def commit_tx_def split: commit_outcome.splits if_splits)
        with d old first show ?thesis by (intro that(2) [of e]) auto
      qed (use that(1) in auto)
    qed
  qed
qed

section \<open>Steps\<close>

text \<open>
  What actors do to the tables: the API stores events, endpoints and idempotency keys, workers fan out, claim and record outcomes.  The endpoints in \<open>kept\<close> are not deleted, and
  workers make at most \<open>m\<close> attempts (any number when \<open>m\<close> is not positive).
\<close>

inductive outbox_step :: "uuid set \<Rightarrow> int \<Rightarrow> string \<Rightarrow> time \<Rightarrow> studio_db \<Rightarrow> studio_db \<Rightarrow> bool" for kept :: "uuid set" and m :: int where
  enqueue: "Enqueue t i e raw db = Inr (x, db') \<Longrightarrow> outbox_step kept m a t db db'"
| endpoint_created: "CreateEndpoint t i p db = Inr (y, db') \<Longrightarrow> outbox_step kept m a t db db'"
| endpoint_changed: "UpdateEndpoint p db = Inr (y, db') \<Longrightarrow> outbox_step kept m a t db db'"
| endpoint_deleted: "i \<notin> kept \<Longrightarrow> DeleteEndpoint i db = Inr db' \<Longrightarrow> outbox_step kept m a t db db'"
| fanout: "fanoutOne env db = (res, db') \<Longrightarrow> te_fanout_at env = t \<Longrightarrow> outbox_step kept m a t db db'"
| claim: "ClaimRetryable commit locked t a ttl m db = (out, db') \<Longrightarrow> outbox_step kept m a t db db'"
| release: "ReleaseForRetry t i a msg backoff db = Inr (d, db') \<Longrightarrow> outbox_step kept m a t db db'"
| finish: "st \<in> {''delivered'', ''failed''} \<Longrightarrow> finishDelivery t i a st msg db = Inr (d, db') \<Longrightarrow> outbox_step kept m a t db db'"
| begin_key: "BeginIdempotent t i w scope key h db = Inr (r, db') \<Longrightarrow> outbox_step kept m a t db db'"
| response: "SetResponse w scope key ref db = Inr (r, db') \<Longrightarrow> outbox_step kept m a t db db'"

lemma ClaimRetryable_cases:
  assumes "ClaimRetryable commit locked now owner ttl limit db = (res, db')"
  obtains (none) "db' = db" "res = Inl StNotFound \<Longrightarrow> \<forall>d \<in> set (so_deliveries db). claimable_delivery now limit d \<longrightarrow> locked (wd_id d)" "\<And>d. res \<noteq> Inr d"
  | (some) d where "d \<in> set (so_deliveries db)" "claimable_delivery now limit d" "\<not> locked (wd_id d)" "0 < ttl" "trim_space owner \<noteq> []"
      "db' = db\<lparr>so_deliveries := update_where (\<lambda>x. wd_id x = wd_id d) (claimed_delivery now owner ttl) (so_deliveries db)\<rparr>"
      "res = Inr (claimed_delivery now owner ttl d) \<or> (\<exists>m. res = Inl (StOther m))"
proof (cases "trim_space owner = [] \<or> ttl \<le> 0")
  case True
  with assms show ?thesis by (intro that(1)) (auto simp: ClaimRetryable_def)
next
  case False
  show ?thesis
  proof (cases "oldest wd_created_at wd_id (filter (\<lambda>d. claimable_delivery now limit d \<and> \<not> locked (wd_id d)) (so_deliveries db))")
    case None
    with assms False show ?thesis by (intro that(1)) (auto simp: ClaimRetryable_def WithTx_def commit_tx_def oldest_None)
  next
    case (Some d)
    note d = oldest_Some [OF Some]
    show ?thesis
    proof (cases commit)
      case (NotCommitted msg)
      with assms False Some show ?thesis by (intro that(1)) (auto simp: ClaimRetryable_def WithTx_def commit_tx_def)
    qed (use assms False Some d in \<open>auto simp: ClaimRetryable_def WithTx_def commit_tx_def intro!: that(2) [of d]\<close>)
  qed
qed

lemma fenced_update_Inr:
  assumes "fenced_update p f db = Inr (d', db')"
  obtains d where "d \<in> set (so_deliveries db)" "p d" "d' = f d" "db' = db\<lparr>so_deliveries := update_where p f (so_deliveries db)\<rparr>"
    "d' \<in> set (so_deliveries db')"
proof -
  from assms obtain d where d: "d \<in> set (so_deliveries db)" "p d" "d' = f d" "db' = db\<lparr>so_deliveries := update_where p f (so_deliveries db)\<rparr>"
    by (auto simp: fenced_update_def dest!: find_Some_in split: option.splits)
  with update_where_member [of d "so_deliveries db" p f] show ?thesis by (intro that [of d]) auto
qed

lemma delivery_ok_deliveries [simp]: "delivery_ok (db\<lparr>so_deliveries := ds\<rparr>) d = delivery_ok db d" "delivery_ok (db\<lparr>so_keys := ks\<rparr>) d = delivery_ok db d"
  by (simp_all add: delivery_ok_def)

lemma studio_wf_update:
  assumes "studio_wf db" "\<And>d. wd_id (f d) = wd_id d \<and> pair_key (f d) = pair_key d" "\<And>d. delivery_ok db d \<Longrightarrow> delivery_ok db (f d)"
  shows "studio_wf (db\<lparr>so_deliveries := update_where p f (so_deliveries db)\<rparr>)"
  using assms by (simp add: studio_wf_def unique_key_update ball_update)

lemma delivery_ok_mono:
  assumes "delivery_ok db d"
    and "\<And>e. e \<in> set (so_events db) \<Longrightarrow> oe_published_at e \<noteq> None \<Longrightarrow>
      \<exists>e' \<in> set (so_events db'). oe_id e' = oe_id e \<and> oe_published_at e' \<noteq> None \<and> oe_workspace_id e' = oe_workspace_id e"
    and "\<And>p. p \<in> set (so_endpoints db) \<Longrightarrow> we_id p = wd_endpoint_id d \<Longrightarrow> \<exists>p' \<in> set (so_endpoints db'). we_id p' = we_id p \<and> we_workspace_id p' = we_workspace_id p"
  shows "delivery_ok db' d"
proof -
  from assms(1) obtain e p where ep: "e \<in> set (so_events db)" "oe_id e = wd_event_id d" "oe_published_at e \<noteq> None"
    "p \<in> set (so_endpoints db)" "we_id p = wd_endpoint_id d" "oe_workspace_id e = Some (we_workspace_id p)"
    by (auto simp: delivery_ok_def)
  from assms(2) [OF ep(1,3)] assms(3) [OF ep(4,5)] ep(2,5,6) obtain e' p' where "e' \<in> set (so_events db')" "oe_id e' = wd_event_id d" "oe_published_at e' \<noteq> None"
    "p' \<in> set (so_endpoints db')" "we_id p' = wd_endpoint_id d" "oe_workspace_id e' = Some (we_workspace_id p')" by metis
  with assms(1) show ?thesis by (auto simp: delivery_ok_def)
qed

lemma studio_wf_delivery: "studio_wf db \<Longrightarrow> d \<in> set (so_deliveries db) \<Longrightarrow> delivery_ok db d"
  by (simp add: studio_wf_def)

lemma delivery_ok_subset:
  assumes "delivery_ok db d" "set (so_events db) \<subseteq> set (so_events db')" "set (so_endpoints db) \<subseteq> set (so_endpoints db')"
  shows "delivery_ok db' d"
  by (rule delivery_ok_mono [OF assms(1)]) (use assms(2,3) in blast)+

lemma studio_wf_fanned:
  assumes "studio_wf db" "e \<in> set (so_events db)" "oe_published_at e = None" "unique_key wd_id (so_deliveries (fanned env e db))"
  shows "studio_wf (fanned env e db)"
proof -
  have pub: "\<exists>e' \<in> set (so_events (fanned env e db)). oe_id e' = oe_id x \<and> oe_published_at e' \<noteq> None \<and> oe_workspace_id e' = oe_workspace_id x"
    if "x \<in> set (so_events db)" "oe_published_at x \<noteq> None \<or> x = e" for x
  proof (cases "oe_id x = oe_id e \<and> oe_published_at x = None")
    case True
    with that(1) show ?thesis
      by (intro bexI [of _ "x\<lparr>oe_published_at := Some (te_fanout_at env)\<rparr>"]) (auto simp: fanned_def publish_def in_update_where intro!: bexI [of _ x])
  next
    case False
    with that assms(3) show ?thesis by (intro bexI [of _ x]) (auto simp: fanned_def publish_def in_update_where intro!: bexI [of _ x])
  qed
  have old: "delivery_ok (fanned env e db) d" if "d \<in> set (so_deliveries db)" for d
    by (rule delivery_ok_mono [OF studio_wf_delivery [OF assms(1) that]]) (use pub in \<open>auto simp: fanned_def\<close>)
  have new: "delivery_ok (fanned env e db) d" if "d \<in> set (fanout_rows env e (targets e db))" for d
  proof -
    from that obtain p where p: "p \<in> set (so_endpoints db)" "oe_workspace_id e = Some (we_workspace_id p)"
      "d = new_delivery (te_fanout_at env) (te_delivery_id env (we_id p)) (we_id p) (oe_id e) (IdempotencyKey (we_id p) (oe_id e))"
      by (auto simp: fanout_rows_def set_targets subscribes_def)
    from pub [OF assms(2)] obtain e' where "e' \<in> set (so_events (fanned env e db))" "oe_id e' = oe_id e" "oe_published_at e' \<noteq> None"
      "oe_workspace_id e' = oe_workspace_id e" by blast
    with p show ?thesis unfolding delivery_ok_def by (intro conjI bexI [of _ e'] bexI [of _ p]) (simp_all add: new_delivery_def fanned_def)
  qed
  have "unique_key pair_key (so_deliveries db @ fanout_rows env e (targets e db))"
  proof (rule unique_key_append)
    show "unique_key pair_key (fanout_rows env e (targets e db))"
      using distinct_targets [of db e] assms(1)
      by (simp add: unique_key_def fanout_rows_def new_delivery_def pair_key_def studio_wf_def distinct_map inj_on_def comp_def)
    show "\<forall>y \<in> set (fanout_rows env e (targets e db)). pair_key y \<notin> keys pair_key (so_deliveries db)"
      using no_delivery_unpublished [OF assms(1-3)] by (auto simp: fanout_rows_def new_delivery_def pair_key_def not_in_keys)
  qed (use assms(1) in \<open>simp add: studio_wf_def\<close>)
  moreover have "unique_key oe_id (so_events (fanned env e db))"
    using assms(1) by (simp add: fanned_def publish_def studio_wf_def unique_key_update)
  ultimately show ?thesis
    using assms(1,4) old new by (auto simp: studio_wf_def fanned_def)
qed

lemma UpdateEndpoint_wf:
  assumes "UpdateEndpoint p db = Inr (y, db')" "studio_wf db"
  shows "studio_wf db'"
proof -
  from assms(1) have db': "db' = db\<lparr>so_endpoints := update_where (\<lambda>q. we_id q = we_id p) (changed_endpoint p) (so_endpoints db)\<rparr>"
    by (auto simp: UpdateEndpoint_def split: if_splits option.splits)
  have "delivery_ok db' d" if "d \<in> set (so_deliveries db)" for d
  proof (rule delivery_ok_mono [OF studio_wf_delivery [OF assms(2) that]])
    fix q assume "q \<in> set (so_endpoints db)" "we_id q = wd_endpoint_id d"
    then have "(if we_id q = we_id p then changed_endpoint p q else q) \<in> set (so_endpoints db')" unfolding db' using update_where_member [of q "so_endpoints db" "\<lambda>q. we_id q = we_id p" "changed_endpoint p"] by simp
    moreover have "we_id (if we_id q = we_id p then changed_endpoint p q else q) = we_id q"
      "we_workspace_id (if we_id q = we_id p then changed_endpoint p q else q) = we_workspace_id q" by (simp_all add: changed_endpoint_def)
    ultimately show "\<exists>p' \<in> set (so_endpoints db'). we_id p' = we_id q \<and> we_workspace_id p' = we_workspace_id q" by blast
  qed (auto simp: db')
  with assms(2) show ?thesis by (auto simp: studio_wf_def db' unique_key_update changed_endpoint_def)
qed

lemma DeleteEndpoint_wf:
  assumes "DeleteEndpoint i db = Inr db'" "studio_wf db"
  shows "studio_wf db'"
proof -
  from assms(1) have db': "db' = db\<lparr>so_endpoints := filter (\<lambda>p. we_id p \<noteq> i) (so_endpoints db), so_deliveries := filter (\<lambda>d. wd_endpoint_id d \<noteq> i) (so_deliveries db)\<rparr>"
    by (auto simp: DeleteEndpoint_def split: if_splits)
  have "delivery_ok db' d" if "d \<in> set (so_deliveries db)" "wd_endpoint_id d \<noteq> i" for d
    by (rule delivery_ok_mono [OF studio_wf_delivery [OF assms(2) that(1)]]) (use that(2) in \<open>auto simp: db'\<close>)
  with assms(2) show ?thesis by (auto simp: studio_wf_def db' unique_key_filter_rows)
qed

lemma outbox_step_wf: "outbox_step kept m a t db db' \<Longrightarrow> studio_wf db \<Longrightarrow> studio_wf db'"
proof (induction rule: outbox_step.induct)
  case (enqueue t i e raw db x db' a)
  then have db': "db' = db\<lparr>so_events := so_events db @ [x]\<rparr>" "oe_id x \<notin> keys oe_id (so_events db)"
    by (auto simp: Enqueue_def Let_def split: if_splits sum.splits)
  have "delivery_ok db' d" if "d \<in> set (so_deliveries db)" for d
    by (rule delivery_ok_subset [OF studio_wf_delivery [OF enqueue.prems that]]) (auto simp: db'(1))
  with enqueue.prems db' show ?case by (auto simp: studio_wf_def unique_key_snoc)
next
  case (endpoint_created t i p db y db' a)
  then have db': "db' = db\<lparr>so_endpoints := so_endpoints db @ [y]\<rparr>" "we_id y \<notin> keys we_id (so_endpoints db)"
    by (auto simp: CreateEndpoint_def Let_def split: if_splits)
  have "delivery_ok db' d" if "d \<in> set (so_deliveries db)" for d
    by (rule delivery_ok_subset [OF studio_wf_delivery [OF endpoint_created.prems that]]) (auto simp: db'(1))
  with endpoint_created.prems db' show ?case by (auto simp: studio_wf_def unique_key_snoc)
next
  case (endpoint_changed p db y db' a t)
  then show ?case by (rule UpdateEndpoint_wf)
next
  case (endpoint_deleted i db db' a t)
  then show ?case using DeleteEndpoint_wf by blast
next
  case (fanout env db res db' t a)
  from fanout.hyps(1) fanout.prems show ?case
    by (cases rule: fanoutOne_cases) (use fanout.prems studio_wf_fanned in auto)
next
  case (claim commit locked t a ttl db out db')
  from claim.hyps show ?case
  proof (cases rule: ClaimRetryable_cases)
    case (some d)
    then show ?thesis using claim.prems
      by (auto simp: claimed_delivery_def pair_key_def delivery_ok_def intro!: studio_wf_update)
  qed (use claim.prems in simp)
next
  case (release t i a msg backoff db d db')
  from release.hyps [unfolded ReleaseForRetry_def] show ?case
    by (rule fenced_update_Inr) (use release.prems in \<open>auto simp: pair_key_def delivery_ok_def intro!: studio_wf_update\<close>)
next
  case (finish st t i a msg db d db')
  from finish.hyps(2) [unfolded finishDelivery_def] show ?case
    by (rule fenced_update_Inr) (use finish.prems finish.hyps(1) in \<open>auto simp: pair_key_def delivery_ok_def intro!: studio_wf_update\<close>)
next
  case (begin_key t i w scope key h db r db' a)
  then have "db' = db \<or> (db' = db\<lparr>so_keys := so_keys db @ [r]\<rparr> \<and> idempotency_index r \<notin> keys idempotency_index (so_keys db))"
    by (auto simp: BeginIdempotent_def Let_def find_None_iff not_in_keys split: if_splits option.splits)
  with begin_key.prems show ?case by (auto simp: studio_wf_def unique_key_snoc)
next
  case (response w scope key ref db r db' a t)
  then have "db' = db\<lparr>so_keys := update_where (\<lambda>r. idempotency_index r = (w, scope, key)) (\<lambda>r. r\<lparr>ik_response_ref := ref\<rparr>) (so_keys db)\<rparr>"
    by (auto simp: SetResponse_def Let_def split: option.splits)
  with response.prems show ?case by (auto simp: studio_wf_def unique_key_update idempotency_index_def)
qed

section \<open>Leases\<close>

text \<open>
  A step leaves a delivery of a kept endpoint alone unless it is a claim of a claimable delivery or a statement of the actor that holds its lease.
\<close>

lemma outbox_step_keeps:
  assumes "outbox_step kept m a t db db'" "studio_wf db" "d \<in> set (so_deliveries db)" "wd_endpoint_id d \<in> kept"
    "\<not> claimable_delivery t m d" "\<not> holds_lease t (wd_id d) a d"
  shows "d \<in> set (so_deliveries db')"
  using assms
proof (induction rule: outbox_step.induct)
  case (fanout env db res db' t a)
  from fanout.hyps(1) fanout.prems(1) show ?case by (cases rule: fanoutOne_cases) (use fanout.prems in \<open>auto simp: fanned_def\<close>)
next
  case (claim commit locked t a ttl db out db')
  from claim.hyps show ?case
  proof (cases rule: ClaimRetryable_cases)
    case (some x)
    with claim.prems have "wd_id d \<noteq> wd_id x" using unique_key_eq [of wd_id "so_deliveries db" d x] by (auto simp: studio_wf_def)
    with some claim.prems show ?thesis by (auto intro: kept_by_update)
  qed (use claim.prems in simp)
next
  case (release t i a msg backoff db x db')
  have "\<not> holds_lease t i a d" using release.prems(5) by (auto simp: holds_lease_def)
  with release.hyps [unfolded ReleaseForRetry_def] release.prems(2) show ?case by (auto elim!: fenced_update_Inr intro: kept_by_update)
next
  case (finish st t i a msg db x db')
  have "\<not> holds_lease t i a d" using finish.prems(5) by (auto simp: holds_lease_def)
  with finish.hyps(2) [unfolded finishDelivery_def] finish.prems(2) show ?case by (auto elim!: fenced_update_Inr intro: kept_by_update)
next
  case (endpoint_deleted i db db' a t)
  then show ?case by (auto simp: DeleteEndpoint_def split: if_splits)
qed (auto simp: Enqueue_def CreateEndpoint_def UpdateEndpoint_def BeginIdempotent_def SetResponse_def Let_def split: if_splits sum.splits option.splits)

definition delivery_lease :: "uuid set \<Rightarrow> studio_db \<Rightarrow> uuid \<Rightarrow> (string \<times> time \<times> WebhookDelivery) option" where
  "delivery_lease kept db i =
     (case List.find (\<lambda>d. wd_id d = i) (so_deliveries db) of
        None \<Rightarrow> None
      | Some d \<Rightarrow>
          (case wd_lease_expires_at d of
             None \<Rightarrow> None
           | Some u \<Rightarrow> if wd_lease_owner d \<noteq> [] \<and> wd_endpoint_id d \<in> kept then Some (wd_lease_owner d, u, d) else None))"

lemma delivery_lease_iff:
  assumes "studio_wf db"
  shows "delivery_lease kept db i = Some (h, u, d) \<longleftrightarrow> d \<in> set (so_deliveries db) \<and> wd_id d = i \<and> wd_lease_owner d = h \<and> h \<noteq> [] \<and>
    wd_lease_expires_at d = Some u \<and> wd_endpoint_id d \<in> kept"
proof -
  have "delivery_lease kept db i = Some (h, u, d) \<longleftrightarrow> List.find (\<lambda>d. wd_id d = i) (so_deliveries db) = Some d \<and>
      wd_lease_owner d = h \<and> h \<noteq> [] \<and> wd_lease_expires_at d = Some u \<and> wd_endpoint_id d \<in> kept"
    by (auto simp: delivery_lease_def split: option.splits if_splits)
  then show ?thesis using find_key_iff [of wd_id "so_deliveries db" i d] assms by (auto simp: studio_wf_def)
qed

interpretation dl: leases studio_wf "outbox_step kept m" "delivery_lease kept" for kept m
proof
  fix a t db db' i h u d
  assume step: "outbox_step kept m a t db db'" and wf: "studio_wf db"
  show "studio_wf db'" by (rule outbox_step_wf [OF step wf])
  assume "delivery_lease kept db i = Some (h, u, d)" "a \<noteq> h" "t < u"
  then have d: "d \<in> set (so_deliveries db)" "wd_endpoint_id d \<in> kept" "\<not> claimable_delivery t m d" "\<not> holds_lease t (wd_id d) a d"
    using delivery_lease_iff [OF wf] by (auto simp: claimable_delivery_def holds_lease_def)
  from outbox_step_keeps [OF step wf d] \<open>delivery_lease kept db i = Some (h, u, d)\<close>
  show "delivery_lease kept db' i = Some (h, u, d)"
    unfolding delivery_lease_iff [OF wf] delivery_lease_iff [OF outbox_step_wf [OF step wf]] by simp
qed

lemma claimed_lease:
  assumes "ClaimRetryable commit locked t a ttl m db = (Inr d, db')" "studio_wf db"
  shows "delivery_lease {wd_endpoint_id d} db' (wd_id d) = Some (a, t + ttl, d)" "0 < ttl" "studio_wf db'"
proof -
  show wf: "studio_wf db'" by (rule outbox_step_wf [OF claim [OF assms(1)] assms(2)])
  from assms(1) obtain x where x: "x \<in> set (so_deliveries db)" "d = claimed_delivery t a ttl x" "trim_space a \<noteq> []" "0 < ttl"
    "db' = db\<lparr>so_deliveries := update_where (\<lambda>y. wd_id y = wd_id x) (claimed_delivery t a ttl) (so_deliveries db)\<rparr>"
    by (cases rule: ClaimRetryable_cases) auto
  then have "d \<in> set (so_deliveries db')" "a \<noteq> []"
    using update_where_member [of x "so_deliveries db" "\<lambda>y. wd_id y = wd_id x" "claimed_delivery t a ttl"] by (auto simp: trim_space_def)
  with x(2) show "delivery_lease {wd_endpoint_id d} db' (wd_id d) = Some (a, t + ttl, d)"
    unfolding delivery_lease_iff [OF wf] by (simp add: claimed_delivery_def)
  show "0 < ttl" by (rule x(4))
qed

section \<open>Work that is left\<close>

definition unpublished :: "studio_db \<Rightarrow> nat" where
  "unpublished db = sum_list (map (\<lambda>e. if oe_published_at e = None then 1 else 0) (so_events db))"

definition attempts_left :: "int \<Rightarrow> studio_db \<Rightarrow> nat" where
  "attempts_left m db = sum_list (map (\<lambda>d. nat (m - wd_attempt_count d)) (so_deliveries db))"

text \<open>Each unpublished event counts for itself and for the attempts its deliveries may take.\<close>

definition work :: "int \<Rightarrow> studio_db \<Rightarrow> nat" where
  "work m db = unpublished db * (length (so_endpoints db) * nat m + 1) + attempts_left m db"

lemma work_fanned:
  assumes "studio_wf db" "e \<in> set (so_events db)" "oe_published_at e = None"
  shows "work m (fanned env e db) < work m db"
proof -
  have u: "unpublished (fanned env e db) < unpublished db"
    unfolding unpublished_def fanned_def publish_def using assms(2,3) by (auto intro!: sum_update_less [of _ _ _ _ e])
  have "attempts_left m (fanned env e db) = attempts_left m db + length (targets e db) * nat m"
    by (simp add: attempts_left_def fanned_def fanout_rows_def new_delivery_def comp_def sum_list_triv)
  also have "\<dots> \<le> attempts_left m db + length (so_endpoints db) * nat m" using length_targets [of e db] by simp
  finally have a: "attempts_left m (fanned env e db) \<le> attempts_left m db + length (so_endpoints db) * nat m" .
  let ?c = "length (so_endpoints db) * nat m + 1"
  have "(unpublished (fanned env e db) + 1) * ?c \<le> unpublished db * ?c" using u by (intro mult_le_mono1) simp
  with a show ?thesis by (simp add: work_def fanned_def algebra_simps)
qed

lemma work_claimed:
  assumes "d \<in> set (so_deliveries db)" "claimable_delivery now m d" "0 < m"
  shows "work m (db\<lparr>so_deliveries := update_where (\<lambda>x. wd_id x = wd_id d) (claimed_delivery now owner ttl) (so_deliveries db)\<rparr>) < work m db"
proof -
  have "wd_attempt_count d < m" using assms(2,3) by (simp add: claimable_delivery_def)
  then have "attempts_left m (db\<lparr>so_deliveries := update_where (\<lambda>x. wd_id x = wd_id d) (claimed_delivery now owner ttl) (so_deliveries db)\<rparr>) < attempts_left m db"
    unfolding attempts_left_def using assms(1) by (auto simp: claimed_delivery_def intro!: sum_update_less [of _ _ _ _ d])
  then show ?thesis by (simp add: work_def unpublished_def)
qed

lemma work_fenced:
  assumes "fenced_update p f db = Inr (d, db')" "\<And>d. wd_attempt_count (f d) = wd_attempt_count d"
  shows "work m db' = work m db"
  using assms(1)
proof (rule fenced_update_Inr)
  assume "db' = db\<lparr>so_deliveries := update_where p f (so_deliveries db)\<rparr>"
  then show ?thesis using assms(2) by (simp add: work_def unpublished_def attempts_left_def update_where_def comp_def if_distrib cong: if_cong)
qed

end
