(* ===== verification/Studio_Props.thy ===== *)
theory Studio_Props
  imports Studio_Laws
begin

text \<open>
  The properties of the outbox of Curriculum Studio, with a workspace in use on which each is applied.
\<close>

section \<open>Draining\<close>

text \<open>Other processes may do work in the meantime; they keep the constraints and add none.\<close>

definition quiet :: "int \<Rightarrow> tick_env \<Rightarrow> bool" where
  "quiet m env \<longleftrightarrow> (\<forall>db. studio_wf db \<longrightarrow> studio_wf (te_meanwhile env db) \<and> work m (te_meanwhile env db) \<le> work m db \<and>
     studio_wf (te_afterwards env db) \<and> work m (te_afterwards env db) \<le> work m db)"

lemma record_outcome_keeps:
  assumes "record_outcome (fenced_update p f db) db = (res, db')" "\<And>d. wd_attempt_count (f d) = wd_attempt_count d"
  shows "work m db' = work m db"
  using assms work_fenced [OF _ assms(2)] by (auto simp: record_outcome_def split: sum.splits prod.splits)

lemma record_outcome_True: "record_outcome r db = (res, db') \<Longrightarrow> res \<noteq> Inr False"
  by (auto simp: record_outcome_def split: sum.splits prod.splits if_splits)

lemma record_outcome_wf:
  assumes "record_outcome r db = (res, db')" "studio_wf db" "\<And>d db1. r = Inr (d, db1) \<Longrightarrow> studio_wf db1"
  shows "studio_wf db'"
  using assms by (auto simp: record_outcome_def split: sum.splits prod.splits if_splits)

text \<open>What the statements of a delivery do after the request: the delivery is closed or released, or the lease was lost.\<close>

definition settle :: "Worker \<Rightarrow> tick_env \<Rightarrow> WebhookDelivery \<Rightarrow> studio_error option \<Rightarrow> studio_db \<Rightarrow> studio_error + (WebhookDelivery \<times> studio_db)" where
  "settle w env claimed res db =
     (case res of
        None \<Rightarrow> MarkDelivered (te_mark_at env) (wd_id claimed) (wk_owner w) db
      | Some err \<Rightarrow>
          if wk_max_attempts w \<le> wd_attempt_count claimed then MarkFailed (te_mark_at env) (wd_id claimed) (wk_owner w) (clipErr err) db
          else ReleaseForRetry (te_mark_at env) (wd_id claimed) (wk_owner w) (clipErr err) (backoffFor (wd_attempt_count claimed)) db)"

lemma deliverOne_settle:
  assumes "ClaimRetryable (te_claim_commit env) (te_locked env) (te_claim_at env) (wk_owner w) (wk_lease w) (wk_max_attempts w) db = (Inr claimed, db1)"
  shows "deliverOne w env db = record_outcome (settle w env claimed (postClaimed env claimed (te_meanwhile env db1)) (te_afterwards env (te_meanwhile env db1)))
    (te_afterwards env (te_meanwhile env db1))"
  using assms by (simp add: deliverOne_def settle_def Let_def split: option.split)

lemma settle_step:
  assumes "settle w env claimed res db = Inr (d, db')"
  shows "outbox_step kept m (wk_owner w) (te_mark_at env) db db'"
  using assms finish [of "''delivered''"] finish [of "''failed''"] release
  by (auto simp: settle_def MarkDelivered_def MarkFailed_def split: option.splits if_splits)

lemma settle_work:
  assumes "settle w env claimed res db = Inr (d, db')"
  shows "work m db' = work m db"
  using assms unfolding settle_def MarkDelivered_def MarkFailed_def finishDelivery_def ReleaseForRetry_def
  by (auto split: option.splits if_splits elim!: work_fenced)

lemma deliverOne_progress:
  assumes "deliverOne w env db = (res, db')" "studio_wf db" "quiet (wk_max_attempts w) env" "0 < wk_max_attempts w"
  shows "studio_wf db' \<and> work (wk_max_attempts w) db' \<le> work (wk_max_attempts w) db \<and> (res = Inr True \<longrightarrow> work (wk_max_attempts w) db' < work (wk_max_attempts w) db)"
proof -
  let ?m = "wk_max_attempts w"
  obtain out db1 where claim: "ClaimRetryable (te_claim_commit env) (te_locked env) (te_claim_at env) (wk_owner w) (wk_lease w) ?m db = (out, db1)"
    by (meson prod.exhaust)
  have wf1: "studio_wf db1" by (rule outbox_step_wf [OF outbox_step.claim [OF claim] assms(2)])
  show ?thesis
  proof (cases out)
    case (Inl e)
    with assms(1) claim have db': "db' = db1" "res \<noteq> Inr True" by (auto simp: deliverOne_def split: if_splits)
    from claim have "work ?m db1 \<le> work ?m db"
      by (cases rule: ClaimRetryable_cases) (auto dest: work_claimed [OF _ _ assms(4)] intro: less_imp_le)
    with db' wf1 show ?thesis by simp
  next
    case (Inr claimed)
    from claim Inr have less: "work ?m db1 < work ?m db"
      by (cases rule: ClaimRetryable_cases) (auto dest: work_claimed [OF _ _ assms(4)])
    let ?db3 = "te_afterwards env (te_meanwhile env db1)"
    from assms(3) wf1 have quiet: "studio_wf ?db3" "work ?m ?db3 \<le> work ?m db1" unfolding quiet_def by (blast, meson le_trans)
    let ?r = "settle w env claimed (postClaimed env claimed (te_meanwhile env db1)) ?db3"
    have rec: "record_outcome ?r ?db3 = (res, db')" using deliverOne_settle [OF claim [unfolded Inr]] assms(1) by simp
    have "studio_wf db'" by (rule record_outcome_wf [OF rec quiet(1)]) (rule outbox_step_wf [OF settle_step [where kept = "{}" and m = 0] quiet(1)])
    moreover have "work ?m db' = work ?m ?db3" using rec settle_work by (auto simp: record_outcome_def split: sum.splits prod.splits if_splits)
    ultimately show ?thesis using quiet(2) less by simp
  qed
qed

lemma fanoutOne_progress:
  assumes "fanoutOne env db = (res, db')" "studio_wf db"
  shows "studio_wf db' \<and> work m db' \<le> work m db \<and> (res = Inr True \<longrightarrow> work m db' < work m db)"
  using assms(1,2)
proof (cases rule: fanoutOne_cases)
  case nothing
  with assms(2) show ?thesis by simp
next
  case (published e)
  with assms(2) work_fanned [OF assms(2) published(1,2), of m env] studio_wf_fanned [OF assms(2) published(1,2), of env] show ?thesis by auto
qed

lemma Tick_progress:
  assumes "Tick w env db = (res, db')" "studio_wf db" "quiet (wk_max_attempts w) env" "0 < wk_max_attempts w"
  shows "studio_wf db' \<and> work (wk_max_attempts w) db' \<le> work (wk_max_attempts w) db \<and> (res = Inr True \<longrightarrow> work (wk_max_attempts w) db' < work (wk_max_attempts w) db)"
proof -
  obtain r1 db1 where 1: "fanoutOne env db = (r1, db1)" by (meson prod.exhaust)
  obtain r2 db2 where 2: "deliverOne w env db1 = (r2, db2)" by (meson prod.exhaust)
  note p1 = fanoutOne_progress [OF 1 assms(2), of "wk_max_attempts w"]
  note p2 = deliverOne_progress [OF 2 _ assms(3,4)]
  show ?thesis
  proof (cases r1)
    case (Inl e)
    with assms(1) 1 p1 show ?thesis by (auto simp: Tick_def)
  next
    case (Inr b)
    with assms(1) 1 2 p1 p2 show ?thesis by (auto simp: Tick_def split: sum.splits)
  qed
qed

lemma fanout_event_found:
  assumes "e \<in> set (so_events db)" "oe_published_at e = None"
  shows "fanout_event env e db \<noteq> Inl StNotFound"
proof -
  have keep: "schedule_all env e ps db = Inr db' \<Longrightarrow> so_events db' = so_events db" for ps db db'
    by (induction ps arbitrary: db) (auto simp: Schedule_def Let_def split: sum.splits if_splits option.splits)
  have no: "schedule_all env e ps db \<noteq> Inl StNotFound" for ps db
    by (induction ps arbitrary: db) (auto simp: Schedule_def Let_def split: sum.splits if_splits option.splits)
  have mark: "MarkPublished t (oe_id e) d \<noteq> Inl StNotFound" if "so_events d = so_events db" for t d
    using assms that by (auto simp: MarkPublished_def Let_def find_None_iff split: option.splits)
  show ?thesis unfolding fanout_event_def Let_def
    using no by (auto split: sum.splits dest!: keep simp: mark)
qed

text \<open>A tick without work: nothing changed, and everything that could be done is locked by others.\<close>

definition idle_at :: "Worker \<Rightarrow> tick_env \<Rightarrow> studio_db \<Rightarrow> bool" where
  "idle_at w env db \<longleftrightarrow> (\<forall>e \<in> set (so_events db). oe_published_at e = None \<longrightarrow> te_locked env (oe_id e)) \<and>
     (\<forall>d \<in> set (so_deliveries db). wd_status d \<in> {''pending'', ''failed''} \<and> wd_attempt_count d < wk_max_attempts w \<and>
        (\<forall>u. wd_lease_expires_at d = Some u \<longrightarrow> u \<le> te_claim_at env) \<longrightarrow> te_locked env (wd_id d))"

lemma fanoutOne_False:
  assumes "fanoutOne env db = (Inr False, db')"
  shows "db' = db \<and> (\<forall>e \<in> set (so_events db). oe_published_at e = None \<longrightarrow> te_locked env (oe_id e))"
proof (cases "oldest oe_created_at oe_id (filter (\<lambda>e. oe_published_at e = None \<and> \<not> te_locked env (oe_id e)) (so_events db))")
  case None
  with assms show ?thesis by (auto simp: fanoutOne_def FanoutUnpublished_def WithTx_def commit_tx_def oldest_None)
next
  case (Some e)
  with oldest_Some [OF Some] fanout_event_found [of e db env] assms show ?thesis
    by (auto simp: fanoutOne_def FanoutUnpublished_def WithTx_def commit_tx_def split: sum.splits if_splits commit_outcome.splits)
qed

lemma deliverOne_False:
  assumes "deliverOne w env db = (Inr False, db')"
  shows "db' = db \<and> (\<forall>d \<in> set (so_deliveries db). claimable_delivery (te_claim_at env) (wk_max_attempts w) d \<longrightarrow> te_locked env (wd_id d))"
proof -
  obtain out db1 where claim: "ClaimRetryable (te_claim_commit env) (te_locked env) (te_claim_at env) (wk_owner w) (wk_lease w) (wk_max_attempts w) db = (out, db1)"
    by (meson prod.exhaust)
  show ?thesis
  proof (cases out)
    case (Inl e)
    with assms claim have "e = StNotFound" "db' = db1" by (auto simp: deliverOne_def split: if_splits)
    with claim Inl show ?thesis by (cases rule: ClaimRetryable_cases) auto
  next
    case (Inr claimed)
    then show ?thesis using deliverOne_settle [OF claim [unfolded Inr]] assms record_outcome_True by metis
  qed
qed

lemma due_claimable:
  "wd_status d \<in> {''pending'', ''failed''} \<and> wd_attempt_count d < m \<and> (\<forall>u. wd_lease_expires_at d = Some u \<longrightarrow> u \<le> now) \<Longrightarrow> claimable_delivery now m d"
  by (cases "wd_lease_expires_at d") (auto simp: claimable_delivery_def)

lemma Tick_idle: "Tick w env db = (Inr False, db') \<Longrightarrow> db' = db \<and> idle_at w env db"
  using due_claimable [of _ "wk_max_attempts w" "te_claim_at env"] by (auto simp: Tick_def idle_at_def split: sum.splits prod.splits dest!: fanoutOne_False deliverOne_False)

lemma drain_from_ends:
  assumes "studio_wf db" "\<forall>n. quiet (wk_max_attempts w) (envs n)" "0 < wk_max_attempts w" "work (wk_max_attempts w) db < fuel"
  shows "\<exists>e k db'. drain_from fuel w ctx envs n db = Some (e, k, db') \<and> k \<le> n + work (wk_max_attempts w) db + 1 \<and>
    (e = None \<longrightarrow> n < k \<and> idle_at w (envs (k - 1)) db')"
  using assms(1,4)
proof (induction fuel arbitrary: n db)
  case (Suc fuel)
  let ?m = "wk_max_attempts w"
  obtain res db1 where tick: "Tick w (envs n) db = (res, db1)" by (meson prod.exhaust)
  note progress = Tick_progress [OF tick Suc.prems(1) assms(2) [rule_format] assms(3)]
  show ?case
  proof (cases "ctx n")
    case None
    show ?thesis
    proof (cases "res = Inr True")
      case True
      with progress Suc.prems(2) have "studio_wf db1" "work ?m db1 < fuel" "work ?m db1 < work ?m db" by auto
      with Suc.IH [of db1 "Suc n"] obtain e k db' where "drain_from fuel w ctx envs (Suc n) db1 = Some (e, k, db')"
        "k \<le> Suc n + work ?m db1 + 1" "e = None \<longrightarrow> Suc n < k \<and> idle_at w (envs (k - 1)) db'" by blast
      with None tick True \<open>work ?m db1 < work ?m db\<close> show ?thesis by auto
    next
      case False
      with None tick Tick_idle [of w "envs n" db db1] show ?thesis by (cases res) auto
    qed
  qed auto
qed simp

text \<open>
  C13.  Draining the outbox ends.  As long as other processes add no work (\<open>quiet\<close>), the loop stops after at most as many ticks as there is work --
  unpublished events, each with the attempts its deliveries may take, and attempts left to existing deliveries -- and one more.  When it stops without an
  error, every event that is still unpublished, and every delivery that is pending or failed, has attempts left and is due, is locked by another worker.
  What else is left is not due: a delivery released with a backoff or held under a lease stays until its time comes.
\<close>

theorem drain_terminates:
  assumes "studio_wf db" "\<forall>n. quiet (wk_max_attempts w) (envs n)" "0 < wk_max_attempts w" "work (wk_max_attempts w) db < fuel"
  shows "\<exists>e k db'. DrainUntilIdle fuel w ctx envs db = Some (e, k, db') \<and> k \<le> work (wk_max_attempts w) db + 1 \<and>
    (e = None \<longrightarrow> 0 < k \<and> idle_at w (envs (k - 1)) db')"
  using drain_from_ends [OF assms, of ctx 0] by (simp add: DrainUntilIdle_def)

section \<open>Leases and outcomes\<close>

lemma finishDelivery_held:
  assumes "studio_wf db" "d \<in> set (so_deliveries db)" "wd_lease_owner d = a" "wd_lease_expires_at d = Some u" "now < u"
  shows "\<exists>db'. finishDelivery now (wd_id d) a st msg db = Inr (d\<lparr>wd_status := st, wd_last_error := msg,
      wd_delivered_at := (if st = ''delivered'' then Some now else wd_delivered_at d), wd_lease_owner := [], wd_lease_expires_at := None,
      wd_attempt_started_at := None\<rparr>, db')"
proof -
  have "List.find (holds_lease now (wd_id d) a) (so_deliveries db) = Some d"
  proof -
    from assms(2-5) have "\<exists>x \<in> set (so_deliveries db). holds_lease now (wd_id d) a x" by (auto simp: holds_lease_def intro!: bexI [of _ d])
    then obtain x where x: "List.find (holds_lease now (wd_id d) a) (so_deliveries db) = Some x"
      by (cases "List.find (holds_lease now (wd_id d) a) (so_deliveries db)") (auto simp: find_None_iff)
    from find_Some_in [OF x] assms(1,2) have "x = d" by (auto simp: holds_lease_def studio_wf_def intro: unique_key_eq [of wd_id "so_deliveries db"])
    with x show ?thesis by simp
  qed
  then show ?thesis by (simp add: finishDelivery_def fenced_update_def)
qed

lemma unclaimable_not_claimed:
  assumes "studio_wf db" "d \<in> set (so_deliveries db)" "\<not> claimable_delivery t m d" "ClaimRetryable commit locked t b ttl m db = (Inr d', db')"
  shows "wd_id d' \<noteq> wd_id d"
  using assms(4)
proof (cases rule: ClaimRetryable_cases)
  case (some y)
  with assms(1-3) have "wd_id y \<noteq> wd_id d" using unique_key_eq [of wd_id "so_deliveries db" y d] by (auto simp: studio_wf_def)
  with some(7) show ?thesis by (auto simp: claimed_delivery_def)
qed blast

lemma finishDelivery_fenced:
  assumes "studio_wf db" "d \<in> set (so_deliveries db)" "wd_lease_owner d \<noteq> b"
  shows "finishDelivery now (wd_id d) b st msg db = Inl StLeaseLost"
proof -
  have "\<not> holds_lease now (wd_id d) b x" if "x \<in> set (so_deliveries db)" for x
    using assms that unique_key_eq [of wd_id "so_deliveries db" x d] by (auto simp: holds_lease_def studio_wf_def)
  then have "List.find (holds_lease now (wd_id d) b) (so_deliveries db) = None" by (simp add: find_None_iff)
  then show ?thesis by (simp add: finishDelivery_def fenced_update_def)
qed

lemma claimed_status:
  assumes "ClaimRetryable commit locked t a ttl m db = (Inr d, db')"
  shows "\<exists>x \<in> set (so_deliveries db). wd_id x = wd_id d \<and> wd_status x = wd_status d \<and> wd_status d \<in> {''pending'', ''failed''}"
  using assms by (cases rule: ClaimRetryable_cases) (auto simp: claimed_delivery_def claimable_delivery_def)

text \<open>
  C14.  A worker that claimed a delivery has it to itself until its lease ends.  Whatever the API and other workers do before that -- short of deleting the
  endpoint --, the row stays as claimed, no other claim returns it, and the worker's own outcome is recorded.
\<close>

theorem delivery_lease_exclusive:
  assumes "studio_wf db" "ClaimRetryable commit locked t a ttl m db = (Inr d, db1)"
    "others_run (outbox_step {wd_endpoint_id d} m) a (t + ttl) db1 db2" "t' < t + ttl"
  shows "d \<in> set (so_deliveries db2) \<and>
    (\<forall>commit' locked' b ttl' d' db3. ClaimRetryable commit' locked' t' b ttl' m db2 = (Inr d', db3) \<longrightarrow> wd_id d' \<noteq> wd_id d) \<and>
    (\<exists>d' db3. MarkDelivered t' (wd_id d) a db2 = Inr (d', db3) \<and> wd_status d' = ''delivered'' \<and> wd_delivered_at d' = Some t')"
proof -
  note claimed = claimed_lease [OF assms(2,1)]
  have wf2: "studio_wf db2" by (rule dl.others_inv [OF assms(3) claimed(3)])
  have "delivery_lease {wd_endpoint_id d} db2 (wd_id d) = Some (a, t + ttl, d)" by (rule dl.exclusive [OF assms(3) claimed(3,1)])
  then have d: "d \<in> set (so_deliveries db2)" "wd_lease_owner d = a" "wd_lease_expires_at d = Some (t + ttl)" by (simp_all add: delivery_lease_iff [OF wf2])
  have "\<not> claimable_delivery t' m d" using d(3) assms(4) by (simp add: claimable_delivery_def)
  then have "wd_id d' \<noteq> wd_id d" if "ClaimRetryable commit' locked' t' b ttl' m db2 = (Inr d', db3)" for commit' locked' b ttl' d' db3
    using unclaimable_not_claimed [OF wf2 d(1) _ that] by blast
  moreover from finishDelivery_held [OF wf2 d assms(4), of "''delivered''" "[]"]
  have "\<exists>d' db3. MarkDelivered t' (wd_id d) a db2 = Inr (d', db3) \<and> wd_status d' = ''delivered'' \<and> wd_delivered_at d' = Some t'"
    unfolding MarkDelivered_def by fastforce
  ultimately show ?thesis using d(1) by blast
qed

text \<open>Runs of all actors leave a delivery alone that no actor may claim or close.\<close>

lemma run_keeps:
  assumes "(any_step (outbox_step kept m))\<^sup>*\<^sup>* db db'" "studio_wf db" "d \<in> set (so_deliveries db)" "wd_endpoint_id d \<in> kept"
    "\<And>t. \<not> claimable_delivery t m d" "\<And>t a. \<not> holds_lease t (wd_id d) a d"
  shows "d \<in> set (so_deliveries db')"
  using assms(1)
proof (induction rule: rtranclp_induct)
  case (step y z)
  from step.hyps(2) obtain a t where "outbox_step kept m a t y z" by (auto simp: any_step_def)
  then show ?case using outbox_step_keeps [OF _ dl.any_inv [OF step.hyps(1) assms(2)] step.IH assms(4-6)] by blast
qed (rule assms(3))

text \<open>
  C16.  An outcome is final.  A delivery recorded as delivered, or as failed in its last attempt, is never claimed or changed again, whatever the API and the
  workers do, as long as its endpoint exists.
\<close>

theorem delivery_outcome_final:
  assumes "studio_wf db" "finishDelivery t i a st msg db = Inr (d, db1)" "st = ''delivered'' \<or> st = ''failed'' \<and> 0 < m \<and> m \<le> wd_attempt_count d"
    "(any_step (outbox_step {wd_endpoint_id d} m))\<^sup>*\<^sup>* db1 db2"
  shows "d \<in> set (so_deliveries db2) \<and> (\<forall>commit locked t' b ttl d' db3. ClaimRetryable commit locked t' b ttl m db2 = (Inr d', db3) \<longrightarrow> wd_id d' \<noteq> wd_id d)"
proof -
  from assms(2) [unfolded finishDelivery_def] obtain x where x: "x \<in> set (so_deliveries db)" "holds_lease t i a x"
    "d = x\<lparr>wd_status := st, wd_last_error := msg, wd_delivered_at := (if st = ''delivered'' then Some t else wd_delivered_at x), wd_lease_owner := [],
       wd_lease_expires_at := None, wd_attempt_started_at := None\<rparr>"
    "d \<in> set (so_deliveries db1)"
    by (rule fenced_update_Inr) blast
  have wf1: "studio_wf db1" using outbox_step_wf [OF finish [OF _ assms(2), of "{}" 0] assms(1)] assms(3) by auto
  have wf2: "studio_wf db2" by (rule dl.any_inv [OF assms(4) wf1])
  have free: "\<not> claimable_delivery t m d" "\<not> holds_lease t (wd_id d) b d" for t b
    using assms(3) x(3) by (auto simp: claimable_delivery_def holds_lease_def)
  have d2: "d \<in> set (so_deliveries db2)" by (rule run_keeps [OF assms(4) wf1 x(4) _ free]) simp
  have "wd_id d' \<noteq> wd_id d" if "ClaimRetryable commit locked t' b ttl m db2 = (Inr d', db3)" for commit locked t' b ttl d' db3
    using unclaimable_not_claimed [OF wf2 d2 free(1) that] .
  with d2 show ?thesis by blast
qed

text \<open>
  C34.  A worker that dies in the last attempt of a delivery leaves it unsettled for good.  Whatever others do, the row keeps the status it had before the attempt --
  pending, or failed when an earlier attempt recorded a failure -- and its lost lease: no worker claims it again and none can record an outcome, so a pending row is
  never dead-lettered.
\<close>

theorem lost_last_attempt_never_settled:
  assumes "studio_wf db" "ClaimRetryable commit locked t a ttl m db = (Inr d, db1)" "0 < m" "wd_attempt_count d = m"
    "others_run (outbox_step {wd_endpoint_id d} m) a u db1 db2"
  shows "d \<in> set (so_deliveries db2) \<and>
    (\<exists>x \<in> set (so_deliveries db). wd_id x = wd_id d \<and> wd_status x = wd_status d \<and> wd_status d \<in> {''pending'', ''failed''}) \<and>
    (\<forall>commit' locked' t' b ttl' d' db3. ClaimRetryable commit' locked' t' b ttl' m db2 = (Inr d', db3) \<longrightarrow> wd_id d' \<noteq> wd_id d) \<and>
    (\<forall>t' b st msg. b \<noteq> a \<longrightarrow> finishDelivery t' (wd_id d) b st msg db2 = Inl StLeaseLost)"
proof -
  note claimed = claimed_lease [OF assms(2,1)]
  from claimed(1) have d: "d \<in> set (so_deliveries db1)" "wd_lease_owner d = a" by (simp_all add: delivery_lease_iff [OF claimed(3)])
  have spent: "\<not> claimable_delivery t' m d" for t' using assms(3,4) by (simp add: claimable_delivery_def)
  have wf2: "studio_wf db2" by (rule dl.others_inv [OF assms(5) claimed(3)])
  have d2: "d \<in> set (so_deliveries db2)" using assms(5) d(1) claimed(3)
  proof (induction rule: others_run.induct)
    case (act s s' b t' s'')
    have "\<not> holds_lease t' (wd_id d) b d" using act.hyps(3) d(2) by (simp add: holds_lease_def)
    with act show ?case using outbox_step_keeps [OF act.hyps(2) dl.others_inv [OF act.hyps(1) act.prems(2)] _ _ spent] by simp
  qed
  have "wd_id d' \<noteq> wd_id d" if "ClaimRetryable commit' locked' t' b ttl' m db2 = (Inr d', db3)" for commit' locked' t' b ttl' d' db3
    using unclaimable_not_claimed [OF wf2 d2 spent that] .
  moreover have "finishDelivery t' (wd_id d) b st msg db2 = Inl StLeaseLost" if "b \<noteq> a" for t' b st msg
    using finishDelivery_fenced [OF wf2 d2] d(2) that by simp
  moreover have "\<exists>x \<in> set (so_deliveries db). wd_id x = wd_id d \<and> wd_status x = wd_status d \<and> wd_status d \<in> {''pending'', ''failed''}"
    by (rule claimed_status [OF assms(2)])
  ultimately show ?thesis using d2 by blast
qed

section \<open>Fan-out\<close>

text \<open>
  C15.  A fan-out takes the oldest unpublished event that is not locked, marks it published, and adds exactly one pending delivery, not yet attempted, for each active
  endpoint of the event's workspace that wants its type -- and none for any other endpoint; nothing else changes.
\<close>

theorem fanout_exact:
  assumes "studio_wf db" "fanoutOne env db = (Inr True, db')"
  shows "\<exists>e new. e \<in> set (so_events db) \<and> oe_published_at e = None \<and> \<not> te_locked env (oe_id e) \<and>
    (\<forall>x \<in> set (so_events db). oe_published_at x = None \<and> \<not> te_locked env (oe_id x) \<longrightarrow> oe_created_at e \<le> oe_created_at x) \<and>
    db' = db\<lparr>so_events := publish (te_fanout_at env) (oe_id e) (so_events db), so_deliveries := so_deliveries db @ new\<rparr> \<and>
    distinct (map wd_endpoint_id new) \<and> wd_endpoint_id ` set new = we_id ` {p \<in> set (so_endpoints db). subscribes e p} \<and>
    (\<forall>d \<in> set new. wd_event_id d = oe_id e \<and> wd_status d = ''pending'' \<and> wd_attempt_count d = 0 \<and> wd_lease_expires_at d = None)"
  using assms(2,1)
proof (cases rule: fanoutOne_cases)
  case (published e)
  let ?new = "fanout_rows env e (targets e db)"
  have "wd_endpoint_id ` set ?new = we_id ` set (targets e db)" by (simp add: fanout_rows_def new_delivery_def image_image)
  moreover have "distinct (map wd_endpoint_id ?new)"
    using distinct_targets [of db e] assms(1) by (simp add: fanout_rows_def new_delivery_def comp_def studio_wf_def)
  moreover have "\<forall>d \<in> set ?new. wd_event_id d = oe_id e \<and> wd_status d = ''pending'' \<and> wd_attempt_count d = 0 \<and> wd_lease_expires_at d = None"
    by (simp add: fanout_rows_def new_delivery_def)
  ultimately show ?thesis
    using published(1-5) unfolding set_targets fanned_def by (intro exI [of _ e] exI [of _ ?new]) simp
qed simp

definition empty_studio :: "uuid list \<Rightarrow> studio_db" where
  "empty_studio ws = \<lparr>so_workspaces = ws, so_events = [], so_endpoints = [], so_deliveries = [], so_keys = []\<rparr>"

lemma empty_studio_wf: "studio_wf (empty_studio ws)"
  by (simp add: empty_studio_def studio_wf_def unique_key_def)

interpretation os: invariant_system "\<lambda>db. db = empty_studio ws" "any_step (outbox_step kept m)" studio_wf for ws kept m
  by unfold_locales (auto simp: empty_studio_wf any_step_def intro: outbox_step_wf)

text \<open>
   In every state the service reaches from empty tables there is at most one delivery for an endpoint and an event, and the event and the endpoint of a
  delivery are found, the event is published and both belong to one workspace: the worker's check never meets a delivery across workspaces.
\<close>

theorem deliveries_stay_in_workspace:
  assumes "reachable (\<lambda>db. db = empty_studio ws) (any_step (outbox_step kept m)) db"
  shows "unique_key pair_key (so_deliveries db) \<and>
    (\<forall>d \<in> set (so_deliveries db). \<exists>e p. GetEvent db (wd_event_id d) = Inr e \<and> GetEndpoint db (wd_endpoint_id d) = Inr p \<and>
       oe_published_at e \<noteq> None \<and> oe_workspace_id e = Some (we_workspace_id p))"
proof -
  have wf: "studio_wf db" by (rule os.inv_reachable [OF assms])
  have "\<exists>e p. GetEvent db (wd_event_id d) = Inr e \<and> GetEndpoint db (wd_endpoint_id d) = Inr p \<and> oe_published_at e \<noteq> None \<and> oe_workspace_id e = Some (we_workspace_id p)"
    if "d \<in> set (so_deliveries db)" for d
  proof -
    from studio_wf_delivery [OF wf that] obtain e p where ep: "e \<in> set (so_events db)" "oe_id e = wd_event_id d" "oe_published_at e \<noteq> None"
      "p \<in> set (so_endpoints db)" "we_id p = wd_endpoint_id d" "oe_workspace_id e = Some (we_workspace_id p)" by (auto simp: delivery_ok_def)
    have "List.find (\<lambda>x. oe_id x = wd_event_id d) (so_events db) = Some e" "List.find (\<lambda>x. we_id x = wd_endpoint_id d) (so_endpoints db) = Some p"
      using wf ep by (simp_all add: studio_wf_def find_key_iff)
    with ep show ?thesis by (simp add: GetEvent_def GetEndpoint_def)
  qed
  with wf show ?thesis by (simp add: studio_wf_def)
qed

section \<open>Signatures\<close>

lemma hex_value_digit: "n < 16 \<Longrightarrow> hex_value (hex_digit n) = Some n"
  by (auto simp: hex_value_def hex_digit_def Let_def of_char_of)

lemma high_nibble: "of_char b div 16 < (16 :: nat)"
proof -
  have "of_char b < (256 :: nat)" by simp
  then have "of_char b < (16 * 16 :: nat)" by simp
  then show ?thesis by (rule less_mult_imp_div_less)
qed

lemma hex_roundtrip: "hex_decode (hex_encode bs) = Some bs"
proof (induction bs)
  case (Cons b bs)
  have "char_of (16 * (of_char b div 16) + of_char b mod 16 :: nat) = b" by simp
  then show ?case using Cons by (simp add: hex_encode_def hex_value_digit high_nibble)
qed (simp add: hex_encode_def)

lemma hex_digit_not_space: "n < 16 \<Longrightarrow> \<not> is_space (hex_digit n)"
  by (auto simp: is_space_def hex_digit_def Let_def of_char_of)

lemma hex_encode_not_space: "c \<in> set (hex_encode bs) \<Longrightarrow> \<not> is_space c"
proof -
  assume "c \<in> set (hex_encode bs)"
  then obtain b where "c = hex_digit (of_char b div 16) \<or> c = hex_digit (of_char b mod 16)" by (auto simp: hex_encode_def)
  then show "\<not> is_space c" using hex_digit_not_space high_nibble by auto
qed

lemma trim_space_id:
  assumes "\<forall>c \<in> set s. \<not> is_space c"
  shows "trim_space s = s"
proof -
  have id: "dropWhile is_space xs = xs" if "\<forall>c \<in> set xs. \<not> is_space c" for xs using that by (cases xs) auto
  show ?thesis unfolding trim_space_def using id [of s] id [of "rev s"] assms by simp
qed

text \<open>
  What the worker signs, a receiver with the same secret accepts: the signature and timestamp that go with a request verify for its body, whatever the instant.
\<close>

theorem signature_roundtrip:
  assumes "\<forall>k msg. length (hmac k msg) = 32"
  shows "case SignV1 hmac secret ts body of (sig, timestamp) \<Rightarrow> VerifyV1 hmac secret sig timestamp body"
proof -
  let ?unix = "format_int (ts div second)"
  let ?mac = "macV1 hmac secret ?unix body"
  have "\<forall>c \<in> set (''v1='' @ hex_encode ?mac). \<not> is_space c"
    using hex_encode_not_space by (auto simp: is_space_def)
  then have "trim_space (''v1='' @ hex_encode ?mac) = ''v1='' @ hex_encode ?mac" by (rule trim_space_id)
  moreover have "length ?mac = 32" using assms by (simp add: macV1_def)
  ultimately have "parseV1 (''v1='' @ hex_encode ?mac) = Some ?mac"
    by (simp add: parseV1_def has_prefix_def trim_prefix_def hex_roundtrip)
  then show ?thesis by (simp add: SignV1_def VerifyV1_def Let_def)
qed

lemma postClaimed_None:
  assumes "postClaimed env d db = None"
  obtains e p secret status where "GetEvent db (wd_event_id d) = Inr e" "GetEndpoint db (wd_endpoint_id d) = Inr p" "we_status p = ''active''"
    "oe_workspace_id e = Some (we_workspace_id p)" "te_resolve env (we_secret_ref p) = Inr secret"
    "te_receiver env (signed_request env e p secret d) = Inr status" "200 \<le> status" "status \<le> 299"
  using assms by (auto simp: postClaimed_def split: sum.splits if_splits)

lemma settle_delivered:
  assumes "settle w env claimed res db = Inr (d, db')" "x \<in> set (so_deliveries db')" "x \<notin> set (so_deliveries db)" "wd_status x = ''delivered''"
  shows "res = None"
proof (cases res)
  case (Some err)
  with assms(1) have "finishDelivery (te_mark_at env) (wd_id claimed) (wk_owner w) ''failed'' (clipErr err) db = Inr (d, db') \<or>
      ReleaseForRetry (te_mark_at env) (wd_id claimed) (wk_owner w) (clipErr err) (backoffFor (wd_attempt_count claimed)) db = Inr (d, db')"
    by (auto simp: settle_def MarkFailed_def split: if_splits)
  then show ?thesis
    using assms(2-4) by (auto simp: finishDelivery_def ReleaseForRetry_def in_update_where elim!: fenced_update_Inr split: if_splits)
qed

text \<open>
   A delivery is recorded as delivered only after its receiver accepted it: the endpoint was active and of the event's workspace, and the request, signed with the
  endpoint's secret and carrying the delivery's own idempotency key, was answered with a status from 200 to 299.
\<close>

theorem delivered_only_when_accepted:
  assumes "ClaimRetryable (te_claim_commit env) (te_locked env) (te_claim_at env) (wk_owner w) (wk_lease w) (wk_max_attempts w) db = (Inr claimed, db1)"
    "deliverOne w env db = (res, db')" "x \<in> set (so_deliveries db')" "wd_status x = ''delivered''"
    "x \<notin> set (so_deliveries (te_afterwards env (te_meanwhile env db1)))"
  shows "\<exists>e p secret status. GetEvent (te_meanwhile env db1) (wd_event_id claimed) = Inr e \<and> GetEndpoint (te_meanwhile env db1) (wd_endpoint_id claimed) = Inr p \<and>
    we_status p = ''active'' \<and> oe_workspace_id e = Some (we_workspace_id p) \<and> te_resolve env (we_secret_ref p) = Inr secret \<and>
    te_receiver env (signed_request env e p secret claimed) = Inr status \<and> 200 \<le> status \<and> status \<le> 299 \<and>
    rq_idempotency_key (signed_request env e p secret claimed) = wd_idempotency_key claimed"
proof -
  let ?res = "postClaimed env claimed (te_meanwhile env db1)"
  from assms(2-5) have "\<exists>d. settle w env claimed ?res (te_afterwards env (te_meanwhile env db1)) = Inr (d, db')"
    unfolding deliverOne_settle [OF assms(1)] by (auto simp: record_outcome_def split: sum.splits prod.splits)
  with settle_delivered assms(3-5) have "?res = None" by blast
  then show ?thesis
  proof (rule postClaimed_None)
    fix e p secret status
    assume "GetEvent (te_meanwhile env db1) (wd_event_id claimed) = Inr e" "GetEndpoint (te_meanwhile env db1) (wd_endpoint_id claimed) = Inr p" "we_status p = ''active''"
      "oe_workspace_id e = Some (we_workspace_id p)" "te_resolve env (we_secret_ref p) = Inr secret"
      "te_receiver env (signed_request env e p secret claimed) = Inr status" "200 \<le> status" "status \<le> (299 :: int)"
    then show ?thesis by (intro exI [of _ e] exI [of _ p] exI [of _ secret] exI [of _ status]) (simp add: signed_request_def Let_def split: prod.split)
  qed
qed

section \<open>Inbound idempotency\<close>

definition same_request :: "IdempotencyRow \<Rightarrow> IdempotencyRow \<Rightarrow> bool" where
  "same_request r x \<longleftrightarrow> ik_id x = ik_id r \<and> idempotency_index x = idempotency_index r \<and> ik_request_hash x = ik_request_hash r"

lemma outbox_step_request:
  assumes "outbox_step kept m a t db db'" "studio_wf db" "\<exists>x \<in> set (so_keys db). same_request r x"
  shows "\<exists>x \<in> set (so_keys db'). same_request r x"
  using assms
proof (induction rule: outbox_step.induct)
  case (response w scope key ref db y db' a t)
  then have db': "so_keys db' = update_where (\<lambda>r. idempotency_index r = (w, scope, key)) (\<lambda>r. r\<lparr>ik_response_ref := ref\<rparr>) (so_keys db)"
    by (auto simp: SetResponse_def Let_def split: option.splits)
  from response.prems(2) obtain x where x: "x \<in> set (so_keys db)" "same_request r x" by blast
  let ?x = "if idempotency_index x = (w, scope, key) then x\<lparr>ik_response_ref := ref\<rparr> else x"
  have "?x \<in> set (so_keys db')" unfolding db' by (rule update_where_member [OF x(1)])
  moreover have "same_request r ?x" using x(2) by (simp add: same_request_def idempotency_index_def)
  ultimately show ?case by blast
next
  case (fanout env db res db' t a)
  from fanout.hyps(1) fanout.prems(1) show ?case by (cases rule: fanoutOne_cases) (use fanout.prems in \<open>auto simp: fanned_def\<close>)
next
  case (claim commit locked t a ttl db out db')
  from claim.hyps show ?case by (cases rule: ClaimRetryable_cases) (use claim.prems in auto)
next
  case (release t i a msg backoff db x db')
  from release.hyps [unfolded ReleaseForRetry_def] show ?case by (rule fenced_update_Inr) (use release.prems in simp)
next
  case (finish st t i a msg db x db')
  from finish.hyps(2) [unfolded finishDelivery_def] show ?case by (rule fenced_update_Inr) (use finish.prems in simp)
qed (auto simp: Enqueue_def CreateEndpoint_def UpdateEndpoint_def DeleteEndpoint_def BeginIdempotent_def Let_def split: if_splits sum.splits option.splits)

lemma BeginIdempotent_Inr:
  assumes "BeginIdempotent t i w scope key h db = Inr (r, db')"
  shows "idempotency_index r = (w, scope, key) \<and> ik_request_hash r = h \<and> r \<in> set (so_keys db') \<and> w \<noteq> uuid_nil \<and> trim_space scope \<noteq> [] \<and> trim_space key \<noteq> []"
  using assms by (auto simp: BeginIdempotent_def Let_def idempotency_index_def dest!: find_Some_in split: if_splits option.splits)

text \<open>
  A request with an idempotency key is begun once: after it was begun, whatever happens, beginning it again with the same hash answers with the same row and changes nothing, and
  with another hash it is refused as a conflict.
\<close>

theorem idempotent_begin:
  assumes "studio_wf db" "BeginIdempotent t i w scope key h db = Inr (r, db1)" "(any_step (outbox_step kept m))\<^sup>*\<^sup>* db1 db2"
  shows "(\<exists>r'. BeginIdempotent t' i' w scope key h db2 = Inr (r', db2) \<and> ik_id r' = ik_id r) \<and>
    (h' \<noteq> h \<longrightarrow> BeginIdempotent t' i' w scope key h' db2 = Inl (StConflict ''idempotency request hash mismatch''))"
proof -
  note row = BeginIdempotent_Inr [OF assms(2)]
  have wf1: "studio_wf db1" by (rule outbox_step_wf [OF begin_key [OF assms(2)] assms(1)])
  have wf2: "studio_wf db2" by (rule dl.any_inv [OF assms(3) wf1])
  from assms(3) have "\<exists>x \<in> set (so_keys db2). same_request r x"
  proof (induction rule: rtranclp_induct)
    case base
    from row show ?case by (intro bexI [of _ r]) (simp_all add: same_request_def)
  next
    case (step y z)
    then show ?case using outbox_step_request [OF _ dl.any_inv [OF step.hyps(1) wf1] step.IH] by (auto simp: any_step_def)
  qed
  then obtain x where x: "x \<in> set (so_keys db2)" "same_request r x" by blast
  have find: "List.find (\<lambda>y. idempotency_index y = (w, scope, key)) (so_keys db2) = Some x"
    using wf2 x row by (simp add: studio_wf_def find_key_iff same_request_def)
  have index: "(\<lambda>y. idempotency_index y = idempotency_index \<lparr>ik_id = i', ik_workspace_id = w, ik_scope = scope, ik_key = key, ik_request_hash = g,
      ik_response_ref = [], ik_created_at = t'\<rparr>) = (\<lambda>y. idempotency_index y = (w, scope, key))" for g
    by (simp add: idempotency_index_def)
  show ?thesis
    using x(2) row find unfolding BeginIdempotent_def Let_def index by (auto simp: same_request_def)
qed

section \<open>A workspace in use\<close>

text \<open>
  A workspace has an endpoint for all events and one for another type; two events are stored, and a worker makes at most two attempts.
\<close>

definition ex_endpoint :: "string \<Rightarrow> string list \<Rightarrow> WebhookEndpoint" where
  "ex_endpoint i types = \<lparr>we_id = i, we_workspace_id = ''w1'', we_url = ''https://r/'' @ i, we_secret_ref = ''s'', we_event_types = types, we_status = ''active'', we_created_at = 1\<rparr>"

definition ex_event :: "string \<Rightarrow> time \<Rightarrow> OutboxEvent" where
  "ex_event i t = \<lparr>oe_id = i, oe_workspace_id = Some ''w1'', oe_event_type = ''curriculum.created'', oe_aggregate_kind = ''curriculum'', oe_aggregate_id = ''c1'',
     oe_payload = JObject [], oe_created_at = t, oe_published_at = None\<rparr>"

definition ex_stored :: studio_db where
  "ex_stored = (empty_studio [''w1''])\<lparr>so_endpoints := [ex_endpoint ''p1'' [], ex_endpoint ''p2'' [''plan_change.proposed'']],
     so_events := [ex_event ''e1'' 2, ex_event ''e2'' 3]\<rparr>"

definition ex_worker :: Worker where
  "ex_worker = \<lparr>wk_owner = ''wk'', wk_poll = defaultPollInterval, wk_timeout = defaultDeliveryTO, wk_lease = defaultLeaseTTL, wk_max_attempts = 2\<rparr>"

definition ex_tick :: tick_env where
  "ex_tick = \<lparr>te_locked = (\<lambda>_. False), te_fanout_at = 100, te_fanout_commit = Committed, te_delivery_id = (\<lambda>p. ''d'' @ p), te_claim_at = 200, te_claim_commit = Committed,
     te_meanwhile = (\<lambda>db. db), te_resolve = (\<lambda>_. Inr ''secret''), te_marshal = (\<lambda>_. ''{}''), te_hmac = (\<lambda>k msg. take 1 msg),
     te_signed_at = 250, te_receiver = (\<lambda>_. Inr 204), te_afterwards = (\<lambda>db. db), te_mark_at = 300\<rparr>"

lemma ex_stored_wf: "studio_wf ex_stored"
  by code_simp

lemma ex_quiet: "quiet 2 ex_tick"
  by (simp add: quiet_def ex_tick_def)

theorem drain_terminates_witness:
  "\<exists>e k db'. DrainUntilIdle 20 ex_worker (\<lambda>_. None) (\<lambda>_. ex_tick) ex_stored = Some (e, k, db') \<and> k \<le> work 2 ex_stored + 1 \<and> (e \<noteq> None \<or> idle_at ex_worker ex_tick db')"
proof -
  have w: "wk_max_attempts ex_worker = 2" "work 2 ex_stored < 20" by code_simp+
  show ?thesis
    using drain_terminates [where w = ex_worker and fuel = 20 and ctx = "\<lambda>_. None" and envs = "\<lambda>_. ex_tick", OF ex_stored_wf, unfolded w(1)] ex_quiet w(2) by auto
qed

text \<open>The first event fanned out; a worker claims its delivery while another claims nothing.\<close>

definition ex_fanned :: studio_db where "ex_fanned = snd (fanoutOne ex_tick ex_stored)"

definition ex_claimed :: "(studio_error + WebhookDelivery) \<times> studio_db" where
  "ex_claimed = ClaimRetryable Committed (\<lambda>_. False) 200 ''wk'' defaultLeaseTTL 2 ex_fanned"

definition ex_other :: "(studio_error + WebhookDelivery) \<times> studio_db" where
  "ex_other = ClaimRetryable Committed (\<lambda>_. False) 250 ''other'' defaultLeaseTTL 2 (snd ex_claimed)"

lemma ex_fanout: "fanoutOne ex_tick ex_stored = (Inr True, ex_fanned)"
  by code_simp

lemma ex_fanned_wf: "studio_wf ex_fanned"
  by code_simp

lemma ok_pair: "\<not> isl (fst p) \<Longrightarrow> p = (Inr (projr (fst p)), snd p)"
  by (cases p) (metis fst_conv snd_conv sum.collapse(2))

lemma ex_claimed_ok: "\<not> isl (fst ex_claimed)"
  by code_simp

lemmas ex_claim = ok_pair [OF ex_claimed_ok, unfolded ex_claimed_def]

theorem fanout_exact_witness:
  "fanoutOne ex_tick ex_stored = (Inr True, ex_fanned) \<and> (\<exists>e new. so_deliveries ex_fanned = so_deliveries ex_stored @ new \<and>
     wd_endpoint_id ` set new = we_id ` {p \<in> set (so_endpoints ex_stored). subscribes e p} \<and> oe_published_at e = None)"
proof -
  from fanout_exact [OF ex_stored_wf ex_fanout] obtain e new where new: "oe_published_at e = None"
    "ex_fanned = ex_stored\<lparr>so_events := publish (te_fanout_at ex_tick) (oe_id e) (so_events ex_stored), so_deliveries := so_deliveries ex_stored @ new\<rparr>"
    "wd_endpoint_id ` set new = we_id ` {p \<in> set (so_endpoints ex_stored). subscribes e p}" by blast
  have "so_deliveries ex_fanned = so_deliveries ex_stored @ new" using arg_cong [OF new(2), of so_deliveries] by simp
  with new(1,3) ex_fanout show ?thesis by blast
qed

theorem delivery_lease_exclusive_witness:
  "\<not> isl (fst ex_claimed) \<and> projr (fst ex_claimed) \<in> set (so_deliveries (snd ex_other)) \<and>
   (\<exists>d db'. MarkDelivered 300 (wd_id (projr (fst ex_claimed))) ''wk'' (snd ex_other) = Inr (d, db') \<and> wd_status d = ''delivered'')"
proof -
  have t: "250 < 200 + defaultLeaseTTL" "300 < 200 + defaultLeaseTTL" by code_simp+
  have step: "outbox_step {wd_endpoint_id (projr (fst ex_claimed))} 2 ''other'' 250 (snd ex_claimed) (snd ex_other)"
    by (rule claim [of Committed "\<lambda>_. False" _ _ defaultLeaseTTL _ _ "fst ex_other"]) (simp add: ex_other_def)
  have "others_run (outbox_step {wd_endpoint_id (projr (fst ex_claimed))} 2) ''wk'' (200 + defaultLeaseTTL) (snd ex_claimed) (snd ex_other)"
    by (rule one_other, rule step, simp, rule t(1))
  from delivery_lease_exclusive [OF ex_fanned_wf ex_claim this [unfolded ex_claimed_def] t(2)] ex_claimed_ok
  show ?thesis unfolding ex_claimed_def by blast
qed

definition ex_done :: "studio_error + (WebhookDelivery \<times> studio_db)" where
  "ex_done = finishDelivery 300 ''dp1'' ''wk'' ''delivered'' [] (snd ex_claimed)"

theorem delivery_outcome_final_witness:
  "\<not> isl ex_done \<and> fst (projr ex_done) \<in> set (so_deliveries (snd (fanoutOne ex_tick (snd (projr ex_done)))))"
proof -
  have ok: "\<not> isl ex_done" "studio_wf (snd ex_claimed)" by code_simp+
  then have fin: "finishDelivery 300 ''dp1'' ''wk'' ''delivered'' [] (snd ex_claimed) = Inr (fst (projr ex_done), snd (projr ex_done))"
    by (metis ex_done_def prod.collapse sum.collapse(2))
  have "any_step (outbox_step {wd_endpoint_id (fst (projr ex_done))} 2) (snd (projr ex_done)) (snd (fanoutOne ex_tick (snd (projr ex_done))))"
    unfolding any_step_def by (intro exI) (rule fanout [OF prod.collapse [symmetric] refl])
  then have "(any_step (outbox_step {wd_endpoint_id (fst (projr ex_done))} 2))\<^sup>*\<^sup>* (snd (projr ex_done)) (snd (fanoutOne ex_tick (snd (projr ex_done))))" by blast
  from delivery_outcome_final [OF ok(2) fin disjI1 [OF refl] this] ok(1) show ?thesis by blast
qed

text \<open>The delivery of a worker that died in its second attempt, and another worker long after the lease.\<close>

definition ex_last :: "(studio_error + WebhookDelivery) \<times> studio_db" where
  "ex_last = ClaimRetryable Committed (\<lambda>_. False) (60 * second) ''wk'' defaultLeaseTTL 2 (snd ex_claimed)"

definition ex_late :: "(studio_error + WebhookDelivery) \<times> studio_db" where
  "ex_late = ClaimRetryable Committed (\<lambda>_. False) (3600 * second) ''other'' defaultLeaseTTL 2 (snd ex_last)"

theorem lost_last_attempt_never_settled_witness:
  "\<not> isl (fst ex_last) \<and> wd_status (projr (fst ex_last)) = ''pending'' \<and> projr (fst ex_last) \<in> set (so_deliveries (snd ex_late)) \<and>
   finishDelivery (7200 * second) (wd_id (projr (fst ex_last))) ''other'' ''failed'' [] (snd ex_late) = Inl StLeaseLost"
proof -
  have ok: "\<not> isl (fst ex_last)" "studio_wf (snd ex_claimed)" "wd_attempt_count (projr (fst ex_last)) = 2" "wd_status (projr (fst ex_last)) = ''pending''"
    "3600 * second < 7200 * second"
    by code_simp+
  have step: "outbox_step {wd_endpoint_id (projr (fst ex_last))} 2 ''other'' (3600 * second) (snd ex_last) (snd ex_late)"
    by (rule claim [of Committed "\<lambda>_. False" _ _ defaultLeaseTTL _ _ "fst ex_late"]) (simp add: ex_late_def)
  have "others_run (outbox_step {wd_endpoint_id (projr (fst ex_last))} 2) ''wk'' (7200 * second) (snd ex_last) (snd ex_late)"
    by (rule one_other, rule step, simp, rule ok(5))
  from lost_last_attempt_never_settled [OF ok(2) ok_pair [OF ok(1), unfolded ex_last_def] _ ok(3) [unfolded ex_last_def] this [unfolded ex_last_def]] ok(1,4)
  show ?thesis unfolding ex_last_def by simp
qed

text \<open>From empty tables: an endpoint is created, an event is stored and fanned out.\<close>

definition ex_created :: "studio_error + (WebhookEndpoint \<times> studio_db)" where
  "ex_created = CreateEndpoint 1 ''p1'' (ex_endpoint [] []) (empty_studio [''w1''])"

definition ex_enqueued :: "studio_error + (OutboxEvent \<times> studio_db)" where
  "ex_enqueued = Enqueue 2 ''e1'' (ex_event [] 0) RawEmpty (snd (projr ex_created))"

definition ex_reached :: studio_db where "ex_reached = snd (fanoutOne ex_tick (snd (projr ex_enqueued)))"

lemma right_pair2: "\<not> isl r \<Longrightarrow> r = Inr (fst (projr r), snd (projr r))"
  by (cases r) auto

lemma ex_reachable: "reachable (\<lambda>db. db = empty_studio [''w1'']) (any_step (outbox_step {} 2)) ex_reached"
proof -
  have ok: "\<not> isl ex_created" "\<not> isl ex_enqueued" by code_simp+
  have "any_step (outbox_step {} 2) (empty_studio [''w1'']) (snd (projr ex_created))"
    unfolding any_step_def by (intro exI) (rule endpoint_created [OF right_pair2 [OF ok(1), unfolded ex_created_def], folded ex_created_def])
  moreover have "any_step (outbox_step {} 2) (snd (projr ex_created)) (snd (projr ex_enqueued))"
    unfolding any_step_def by (intro exI) (rule enqueue [OF right_pair2 [OF ok(2), unfolded ex_enqueued_def], folded ex_enqueued_def])
  moreover have "any_step (outbox_step {} 2) (snd (projr ex_enqueued)) ex_reached"
    unfolding any_step_def ex_reached_def by (intro exI) (rule fanout [OF prod.collapse [symmetric] refl])
  ultimately show ?thesis by (intro next_state [OF next_state [OF next_state [OF reachable.start]]]) simp_all
qed

theorem deliveries_stay_in_workspace_witness:
  "map wd_id (so_deliveries ex_reached) = [''dp1''] \<and> (\<exists>e p. GetEvent ex_reached ''e1'' = Inr e \<and> GetEndpoint ex_reached ''p1'' = Inr p \<and> oe_workspace_id e = Some (we_workspace_id p))"
proof -
  have d: "map wd_id (so_deliveries ex_reached) = [''dp1'']" "hd (so_deliveries ex_reached) \<in> set (so_deliveries ex_reached)"
    "wd_event_id (hd (so_deliveries ex_reached)) = ''e1''" "wd_endpoint_id (hd (so_deliveries ex_reached)) = ''p1''"
    by code_simp+
  from deliveries_stay_in_workspace [OF ex_reachable] d show ?thesis by metis
qed

theorem delivered_only_when_accepted_witness:
  "map wd_status (so_deliveries (snd (deliverOne ex_worker ex_tick ex_fanned))) = [''delivered''] \<and> (\<exists>r. te_receiver ex_tick r = Inr 204 \<and> rq_idempotency_key r = ''wh:p1:e1'')"
proof -
  let ?x = "hd (so_deliveries (snd (deliverOne ex_worker ex_tick ex_fanned)))"
  have eqs: "te_claim_commit ex_tick = Committed" "te_locked ex_tick = (\<lambda>_. False)" "te_claim_at ex_tick = 200" "wk_owner ex_worker = ''wk''" "wk_lease ex_worker = defaultLeaseTTL"
    "wk_max_attempts ex_worker = 2" "te_afterwards ex_tick = (\<lambda>db. db)" "te_meanwhile ex_tick = (\<lambda>db. db)"
    by (simp_all add: ex_tick_def ex_worker_def)
  have x: "?x \<in> set (so_deliveries (snd (deliverOne ex_worker ex_tick ex_fanned)))" "wd_status ?x = ''delivered''" "?x \<notin> set (so_deliveries (snd ex_claimed))"
    "map wd_status (so_deliveries (snd (deliverOne ex_worker ex_tick ex_fanned))) = [''delivered'']" "wd_idempotency_key (projr (fst ex_claimed)) = ''wh:p1:e1''"
    by code_simp+
  from delivered_only_when_accepted [of ex_tick ex_worker ex_fanned, unfolded eqs, OF ex_claim prod.collapse [symmetric] x(1,2)] x(3)
  obtain e p secret where "rq_idempotency_key (signed_request ex_tick e p secret (projr (fst ex_claimed))) = wd_idempotency_key (projr (fst ex_claimed))"
    unfolding ex_claimed_def by blast
  with x(4,5) show ?thesis by (intro conjI exI [of _ "signed_request ex_tick e p secret (projr (fst ex_claimed))"]) (simp_all add: ex_tick_def)
qed

definition ex_begun :: "studio_error + (IdempotencyRow \<times> studio_db)" where
  "ex_begun = BeginIdempotent 5 ''k1'' ''w1'' ''plans'' ''abc'' ''h1'' ex_stored"

theorem idempotent_begin_witness:
  "\<not> isl ex_begun \<and> BeginIdempotent 6 ''k2'' ''w1'' ''plans'' ''abc'' ''h2'' (snd (projr ex_begun)) = Inl (StConflict ''idempotency request hash mismatch'')"
proof -
  have "\<not> isl ex_begun" by code_simp
  with idempotent_begin [OF ex_stored_wf right_pair2 [OF this, unfolded ex_begun_def] rtranclp.rtrancl_refl, of 6 "''k2''" "''h2''"]
  show ?thesis unfolding ex_begun_def by simp
qed

end
