(* ===== verification/Tasks_Recurrence.thy ===== *)
theory Tasks_Recurrence
  imports Go_Time Float64
begin

text \<open>
  Recurrence rules of the tasks service (\<^verbatim>\<open>primer-tasks/internal/schedule/rrule.go\<close>): parsing a rule, and listing the instants at which it falls due up to a horizon.

  Loading a zone by its name is an argument, as the zone database is data outside the repository.  A \<^verbatim>\<open>time.Time\<close> is its instant; where the code
  reads it in a location, the location is given.  The local date of an instant is its day number, its clock the seconds since local midnight.
\<close>

section \<open>Rules\<close>

record Spec =
  rs_frequency :: string
  rs_interval :: int
  rs_by_weekday :: "int list"
  rs_count :: int
  rs_until :: "time option"
  rs_start :: time
  rs_timezone :: string

type_synonym zone_loader = "string \<Rightarrow> location option"

text \<open>
  \<^verbatim>\<open>fmt.Sscanf(v, "%d", ...)\<close>: blanks other than a newline, a sign, digits; what follows the digits is left unread.
\<close>

definition scan_int :: "string \<Rightarrow> int option" where
  "scan_int v =
     (let s = dropWhile (\<lambda>c. is_space c \<and> c \<noteq> CHR 0x0A) v;
          signed = s \<noteq> [] \<and> hd s \<in> {CHR ''+'', CHR ''-''};
          ds = takeWhile is_digit (if signed then tl s else s)
      in if ds = [] then None
         else Some (if signed \<and> hd s = CHR ''-'' then - digits_val ds else digits_val ds))"

text \<open>
  \<^verbatim>\<open>time.Parse("20060102T150405Z", v)\<close>; Go also accepts a fraction after the seconds, of which the microseconds are kept.
\<close>

definition split_fraction :: "string \<Rightarrow> string \<times> string" where
  "split_fraction s =
     (case s of
        c # d # r \<Rightarrow> if c \<in> {CHR ''.'', CHR '',''} \<and> is_digit d then (takeWhile is_digit (d # r), dropWhile is_digit (d # r)) else ([], s)
      | _ \<Rightarrow> ([], s))"

definition parse_until :: "string \<Rightarrow> time option" where
  "parse_until v =
     (if length v < 15 \<or> \<not> list_all is_digit (take 8 v) \<or> v ! 8 \<noteq> CHR ''T'' \<or> \<not> list_all is_digit (take 6 (drop 9 v)) then None
      else let y = digits_val (take 4 v); m = digits_val (take 2 (drop 4 v)); d = digits_val (take 2 (drop 6 v));
               h = digits_val (take 2 (drop 9 v)); mi = digits_val (take 2 (drop 11 v)); se = digits_val (take 2 (drop 13 v));
               (fr, rest) = split_fraction (drop 15 v)
        in if rest = ''Z'' \<and> 1 \<le> m \<and> m \<le> 12 \<and> 1 \<le> d \<and> d \<le> days_in_month y m \<and> h < 24 \<and> mi < 60 \<and> se < 60
           then Some ((days_from_civil y m d * day_seconds + h * 3600 + mi * 60 + se) * second + digits_val (take 6 (fr @ ''000000'')))
           else None)"

definition weekday :: "string \<Rightarrow> string + int" where
  "weekday v =
     (if v = ''SU'' then Inr 0 else if v = ''MO'' then Inr 1 else if v = ''TU'' then Inr 2 else if v = ''WE'' then Inr 3
      else if v = ''TH'' then Inr 4 else if v = ''FR'' then Inr 5 else if v = ''SA'' then Inr 6 else Inl ''invalid weekday'')"

fun weekdays :: "string list \<Rightarrow> string + int list" where
  "weekdays [] = Inr []"
| "weekdays (d # ds) =
     (case weekday d of
        Inl e \<Rightarrow> Inl e
      | Inr wd \<Rightarrow> (case weekdays ds of Inl e \<Rightarrow> Inl e | Inr wds \<Rightarrow> Inr (wd # wds)))"

text \<open>One clause \<^verbatim>\<open>KEY=VALUE\<close> of a rule.\<close>

definition rrule_value :: "string \<Rightarrow> string \<Rightarrow> Spec \<Rightarrow> string + Spec" where
  "rrule_value k v s =
     (if k = ''FREQ'' then
        (if v \<noteq> ''DAILY'' \<and> v \<noteq> ''WEEKLY'' then Inl ''unsupported frequency'' else Inr (s\<lparr>rs_frequency := v\<rparr>))
      else if k = ''INTERVAL'' then
        (case scan_int v of
           None \<Rightarrow> Inl ''invalid interval''
         | Some n \<Rightarrow> if n < 1 \<or> 30 < n then Inl ''invalid interval'' else Inr (s\<lparr>rs_interval := n\<rparr>))
      else if k = ''COUNT'' then
        (case scan_int v of
           None \<Rightarrow> Inl ''invalid count''
         | Some n \<Rightarrow> if n < 1 \<or> 366 < n then Inl ''invalid count'' else Inr (s\<lparr>rs_count := n\<rparr>))
      else if k = ''UNTIL'' then
        (case parse_until v of None \<Rightarrow> Inl ''invalid until'' | Some t \<Rightarrow> Inr (s\<lparr>rs_until := Some t\<rparr>))
      else if k = ''BYDAY'' then
        (if rs_frequency s \<noteq> ''WEEKLY'' \<and> rs_frequency s \<noteq> [] then Inl ''BYDAY requires weekly''
         else case weekdays (split_on '','' v) of
           Inl e \<Rightarrow> Inl e
         | Inr wds \<Rightarrow> Inr (s\<lparr>rs_by_weekday := rs_by_weekday s @ wds\<rparr>))
      else Inl (''unsupported RRULE clause '' @ k))"

fun rrule_clauses :: "string list \<Rightarrow> string set \<Rightarrow> Spec \<Rightarrow> string + Spec" where
  "rrule_clauses [] seen s = Inr s"
| "rrule_clauses (part # parts) seen s =
     (case index_str part ''='' of
        None \<Rightarrow> Inl ''invalid RRULE clause''
      | Some i \<Rightarrow>
          let k = to_upper (take i part); v = to_upper (drop (i + 1) part) in
          if k \<in> seen then Inl ''duplicate RRULE clause''
          else case rrule_value k v s of
            Inl e \<Rightarrow> Inl e
          | Inr s' \<Rightarrow> rrule_clauses parts (insert k seen) s')"

definition Parse :: "zone_loader \<Rightarrow> string \<Rightarrow> string \<Rightarrow> time \<Rightarrow> time option \<Rightarrow> string + Spec" where
  "Parse load rule zone start end_at =
     (let s0 = \<lparr>rs_frequency = [], rs_interval = 1, rs_by_weekday = [], rs_count = 0, rs_until = None, rs_start = start, rs_timezone = zone\<rparr> in
      case load zone of
        None \<Rightarrow> Inl ''timezone''
      | Some loc \<Rightarrow>
          if rule = [] then Inr (s0\<lparr>rs_frequency := ''ONCE''\<rparr>)
          else case rrule_clauses (split_on '';'' rule) {} s0 of
            Inl e \<Rightarrow> Inl e
          | Inr s \<Rightarrow>
              if rs_frequency s = [] then Inl ''FREQ required''
              else if rs_frequency s = ''DAILY'' \<and> rs_by_weekday s \<noteq> [] then Inl ''BYDAY requires weekly''
              else let s1 = (if rs_frequency s = ''WEEKLY'' \<and> rs_by_weekday s = [] then s\<lparr>rs_by_weekday := [local_weekday loc start]\<rparr> else s)
                in Inr (if end_at \<noteq> None \<and> rs_until s1 = None then s1\<lparr>rs_until := end_at\<rparr> else s1))"

section \<open>Occurrences\<close>

definition hour :: duration where
  "hour = 3600 * second"

text \<open>\<^verbatim>\<open>Duration.Hours()\<close> and the truncation \<^verbatim>\<open>int(d.Hours() / 24)\<close>, in float64.\<close>

definition Hours :: "duration \<Rightarrow> rat" where
  "Hours d = (let h = trunc_div d hour in fl (of_int h + fl (of_int (1000 * (d - h * hour)) / 3600000000000)))"

definition truncate :: "rat \<Rightarrow> int" where
  "truncate x = (if 0 \<le> x then \<lfloor>x\<rfloor> else - \<lfloor>- x\<rfloor>)"

definition elapsed_days :: "duration \<Rightarrow> int" where
  "elapsed_days d = truncate (fl (Hours d / 24))"

definition local_minute :: "location \<Rightarrow> time \<Rightarrow> int" where
  "local_minute loc t = local_clock loc t div 60 mod 60"

definition same_wall_minute :: "location \<Rightarrow> int \<Rightarrow> time \<Rightarrow> bool" where
  "same_wall_minute loc clock t \<longleftrightarrow> local_hour loc t = clock div 3600 \<and> local_minute loc t = clock div 60 mod 60"

definition civilInstants :: "location \<Rightarrow> int \<Rightarrow> int \<Rightarrow> int \<Rightarrow> int \<Rightarrow> time list" where
  "civilInstants loc day clock nano offsetDays =
     (let noon = add_days loc (go_date loc day 43200 0) offsetDays;
          d = local_day loc noon;
          first = go_date loc d clock nano;
          later = first + hour;
          earlier = first - hour
      in if \<not> same_wall_minute loc clock first then []
         else let out = (if same_wall_minute loc clock later \<and> later \<noteq> first then [first, later] else [first])
           in if same_wall_minute loc clock earlier \<and> earlier \<noteq> first then [earlier, first] else out)"

definition includeOccurrence :: "Spec \<Rightarrow> location \<Rightarrow> int \<Rightarrow> time \<Rightarrow> bool" where
  "includeOccurrence s loc offset cur =
     (let incl = rs_frequency s = ''ONCE'' \<or> rs_frequency s = ''DAILY'' \<or> local_weekday loc cur \<in> set (rs_by_weekday s) in
      if rs_frequency s = ''DAILY'' \<and> 1 < rs_interval s \<and> offset mod rs_interval s \<noteq> 0 then False
      else if rs_frequency s = ''WEEKLY'' \<and> 1 < rs_interval s then
        (let days = elapsed_days (cur - local_midnight loc (rs_start s)) in
         if days < 0 \<or> trunc_div days 7 mod rs_interval s \<noteq> 0 then False else incl)
      else incl)"

text \<open>
  The instants of one day: those listed, how many are listed now, and whether the listing ends here.
\<close>

fun scan_instants :: "Spec \<Rightarrow> location \<Rightarrow> time \<Rightarrow> int \<Rightarrow> int \<Rightarrow> time list \<Rightarrow> time list \<times> int \<times> bool" where
  "scan_instants s loc horizon offset n [] = ([], n, False)"
| "scan_instants s loc horizon offset n (cur # rest) =
     (if horizon < cur then ([], n, True)
      else if 0 < rs_count s \<and> rs_count s \<le> n then ([], n, True)
      else if (case rs_until s of None \<Rightarrow> False | Some u \<Rightarrow> u < cur) then ([], n, True)
      else if \<not> includeOccurrence s loc offset cur then scan_instants s loc horizon offset n rest
      else if rs_frequency s = ''ONCE'' then ([cur], n + 1, True)
      else case scan_instants s loc horizon offset (n + 1) rest of (out, m, stop) \<Rightarrow> (cur # out, m, stop))"

definition max_offset :: int where
  "max_offset = 4000"

function scan_days :: "Spec \<Rightarrow> location \<Rightarrow> time \<Rightarrow> int \<Rightarrow> int \<Rightarrow> time list" where
  "scan_days s loc horizon offset n =
     (if max_offset \<le> offset then []
      else case scan_instants s loc horizon offset n
          (civilInstants loc (local_day loc (rs_start s)) (local_clock loc (rs_start s)) (rs_start s mod second) offset) of
        (out, m, stop) \<Rightarrow> out @ (if stop then [] else scan_days s loc horizon (offset + 1) m))"
  by pat_completeness auto
termination
  by (relation "measure (\<lambda>(s, loc, horizon, offset, n). nat (max_offset - offset))") auto

declare scan_days.simps [simp del]

definition Occurrences :: "zone_loader \<Rightarrow> Spec \<Rightarrow> time \<Rightarrow> time list" where
  "Occurrences load s horizon =
     (case load (rs_timezone s) of None \<Rightarrow> [] | Some loc \<Rightarrow> scan_days s loc horizon 0 0)"

end
