(* ===== verification/Tasks_Materialize.thy ===== *)
theory Tasks_Materialize
  imports Tasks_Recurrence Tables Lease
begin

text \<open>
  The materializer of the tasks service (\<^verbatim>\<open>primer-tasks/internal/schedule/worker.go\<close>): a worker lists the enabled schedules, claims the lease of their tenant and
  stores the occurrences up to its horizon.

  Every statement is one step on the tables; what other processes do before a statement is a function in the environment, as are the clocks and the generated
  identifiers.  The snapshot of the revision is the JSON object the statement builds.
\<close>

section \<open>Data\<close>

datatype schedule_error = SeNoRows | SeUnique string | SeForeignKey string | SeLost string

record TaskSchedule =
  ts_tenant :: uuid
  ts_id :: uuid
  ts_student :: uuid
  ts_revision :: uuid
  ts_kind :: string
  ts_timezone :: string
  ts_rrule :: string
  ts_start :: time
  ts_end :: "time option"
  ts_due_offset_minutes :: int
  ts_version :: int
  ts_enabled :: bool
  ts_retired_at :: "time option"

record TaskRevision =
  tr_tenant :: uuid
  tr_id :: uuid
  tr_title :: string
  tr_instructions :: string
  tr_version :: int

record RevisionSnapshot =
  sn_revision_id :: uuid
  sn_title :: "string option"
  sn_instructions :: "string option"
  sn_task_revision_version :: "int option"
  sn_timezone :: string
  sn_due_offset_minutes :: int
  sn_schedule_version :: int

record TaskOccurrence =
  to_id :: uuid
  to_tenant :: uuid
  to_schedule :: uuid
  to_student :: uuid
  to_revision :: uuid
  to_nominal_at :: time
  to_due_at :: time
  to_status :: string
  to_snapshot :: RevisionSnapshot

record MaterializerLease =
  ml_tenant :: uuid
  ml_owner :: string
  ml_until :: time

record schedule_db =
  sd_tenants :: "uuid list"
  sd_students :: "(uuid \<times> uuid) list"
  sd_schedules :: "TaskSchedule list"
  sd_revisions :: "TaskRevision list"
  sd_occurrences :: "TaskOccurrence list"
  sd_leases :: "MaterializerLease list"

text \<open>The worker, and what a pass meets: the clocks, the identifiers, what others do, and statements whose connection is lost.\<close>

record Materializer =
  mz_owner :: string
  mz_horizon :: duration

record pass_env =
  pe_claim_at :: "uuid \<Rightarrow> time"
  pe_now :: "uuid \<Rightarrow> time"
  pe_new_id :: "uuid \<Rightarrow> time \<Rightarrow> uuid"
  pe_before_claim :: "uuid \<Rightarrow> schedule_db \<Rightarrow> schedule_db"
  pe_before_read :: "uuid \<Rightarrow> schedule_db \<Rightarrow> schedule_db"
  pe_before_insert :: "uuid \<Rightarrow> time \<Rightarrow> schedule_db \<Rightarrow> schedule_db"
  pe_insert :: "uuid \<Rightarrow> time \<Rightarrow> commit_outcome"

section \<open>Operations\<close>

definition NewWorker :: "string \<Rightarrow> int option \<Rightarrow> Materializer" where
  "NewWorker owner env_days =
     (let days = (case env_days of Some n \<Rightarrow> if 0 < n \<and> n \<le> 730 then n else 45 | None \<Rightarrow> 45) in
      \<lparr>mz_owner = owner, mz_horizon = days * 24 * hour\<rparr>)"

definition claim :: "time \<Rightarrow> string \<Rightarrow> uuid \<Rightarrow> schedule_db \<Rightarrow> schedule_error + (bool \<times> schedule_db)" where
  "claim now owner tenant db =
     (let row = \<lparr>ml_tenant = tenant, ml_owner = owner, ml_until = now + 30 * second\<rparr> in
      case List.find (\<lambda>l. ml_tenant l = tenant) (sd_leases db) of
        None \<Rightarrow> if tenant \<notin> set (sd_tenants db) then Inl (SeForeignKey ''task_materializer_leases_tenant_id_fkey'')
                else Inr (True, db\<lparr>sd_leases := sd_leases db @ [row]\<rparr>)
      | Some l \<Rightarrow> if ml_until l < now \<or> ml_owner l = owner
                  then Inr (True, db\<lparr>sd_leases := update_where (\<lambda>l. ml_tenant l = tenant) (\<lambda>_. row) (sd_leases db)\<rparr>)
                  else Inl SeNoRows)"

definition occurrence_key :: "TaskOccurrence \<Rightarrow> uuid \<times> uuid \<times> time" where
  "occurrence_key r = (to_tenant r, to_schedule r, to_nominal_at r)"

definition new_occurrence :: "uuid \<Rightarrow> TaskSchedule \<Rightarrow> time \<Rightarrow> schedule_db \<Rightarrow> TaskOccurrence" where
  "new_occurrence new_id sc nominal db =
     (let rev = List.find (\<lambda>r. tr_tenant r = ts_tenant sc \<and> tr_id r = ts_revision sc) (sd_revisions db) in
      \<lparr>to_id = new_id, to_tenant = ts_tenant sc, to_schedule = ts_id sc, to_student = ts_student sc, to_revision = ts_revision sc, to_nominal_at = nominal,
       to_due_at = nominal + ts_due_offset_minutes sc * 60 * second, to_status = ''pending'',
       to_snapshot = \<lparr>sn_revision_id = ts_revision sc, sn_title = map_option tr_title rev, sn_instructions = map_option tr_instructions rev,
         sn_task_revision_version = map_option tr_version rev, sn_timezone = ts_timezone sc, sn_due_offset_minutes = ts_due_offset_minutes sc,
         sn_schedule_version = ts_version sc\<rparr>\<rparr>)"

definition insert_occurrence :: "uuid \<Rightarrow> TaskSchedule \<Rightarrow> time \<Rightarrow> schedule_db \<Rightarrow> schedule_error + (unit \<times> schedule_db)" where
  "insert_occurrence new_id sc nominal db =
     (let row = new_occurrence new_id sc nominal db in
      if occurrence_key row \<in> keys occurrence_key (sd_occurrences db) then Inr ((), db)
      else if new_id \<in> keys to_id (sd_occurrences db) then Inl (SeUnique ''task_occurrences_pkey'')
      else if (ts_tenant sc, ts_id sc) \<notin> (\<lambda>s. (ts_tenant s, ts_id s)) ` set (sd_schedules db) then Inl (SeForeignKey ''task_occurrences_schedule'')
      else if (ts_tenant sc, ts_student sc) \<notin> set (sd_students db) then Inl (SeForeignKey ''task_occurrences_student'')
      else if (ts_tenant sc, ts_revision sc) \<notin> (\<lambda>r. (tr_tenant r, tr_id r)) ` set (sd_revisions db) then Inl (SeForeignKey ''task_occurrences_revision'')
      else Inr ((), db\<lparr>sd_occurrences := sd_occurrences db @ [row]\<rparr>))"

fun insert_all :: "pass_env \<Rightarrow> TaskSchedule \<Rightarrow> time list \<Rightarrow> schedule_db \<Rightarrow> (schedule_error + unit) \<times> schedule_db" where
  "insert_all env sc [] db = (Inr (), db)"
| "insert_all env sc (nominal # rest) db =
     (case commit_tx SeLost (pe_insert env (ts_id sc) nominal) (insert_occurrence (pe_new_id env (ts_id sc) nominal) sc nominal)
         (pe_before_insert env (ts_id sc) nominal db) of
        (Inl e, db') \<Rightarrow> (Inl e, db')
      | (Inr _, db') \<Rightarrow> insert_all env sc rest db')"

definition schedule_rule :: "TaskSchedule \<Rightarrow> string" where
  "schedule_rule sc = (if ts_kind sc = ''one_off'' then [] else ts_rrule sc)"

definition materializeSchedule :: "zone_loader \<Rightarrow> Materializer \<Rightarrow> pass_env \<Rightarrow> uuid \<Rightarrow> uuid \<Rightarrow> schedule_db \<Rightarrow> (schedule_error + unit) \<times> schedule_db" where
  "materializeSchedule load w env tenant i db0 =
     (let db = pe_before_read env i db0 in
      case List.find (\<lambda>s. ts_tenant s = tenant \<and> ts_id s = i \<and> ts_enabled s) (sd_schedules db) of
        None \<Rightarrow> (Inl SeNoRows, db)
      | Some sc \<Rightarrow>
          (case Parse load (schedule_rule sc) (ts_timezone sc) (ts_start sc) (ts_end sc) of
             Inl _ \<Rightarrow> (Inr (), db)
           | Inr spec \<Rightarrow> insert_all env sc (Occurrences load spec (pe_now env i + mz_horizon w)) db))"

fun materialize_list :: "zone_loader \<Rightarrow> Materializer \<Rightarrow> pass_env \<Rightarrow> (uuid \<times> uuid) list \<Rightarrow> schedule_db \<Rightarrow> (schedule_error + unit) \<times> schedule_db" where
  "materialize_list load w env [] db = (Inr (), db)"
| "materialize_list load w env ((tenant, i) # rest) db =
     (let db0 = pe_before_claim env i db in
      case claim (pe_claim_at env i) (mz_owner w) tenant db0 of
        Inl SeNoRows \<Rightarrow> materialize_list load w env rest db0
      | Inl e \<Rightarrow> (Inl e, db0)
      | Inr (ok, db1) \<Rightarrow>
          if \<not> ok then materialize_list load w env rest db1
          else (case materializeSchedule load w env tenant i db1 of
             (Inl e, db2) \<Rightarrow> (Inl e, db2)
           | (Inr _, db2) \<Rightarrow> materialize_list load w env rest db2))"

definition Materialize :: "zone_loader \<Rightarrow> Materializer \<Rightarrow> pass_env \<Rightarrow> schedule_db \<Rightarrow> (schedule_error + unit) \<times> schedule_db" where
  "Materialize load w env db =
     materialize_list load w env (map (\<lambda>s. (ts_tenant s, ts_id s)) (filter (\<lambda>s. ts_enabled s \<and> ts_retired_at s = None) (sd_schedules db))) db"

end
