(* ===== verification/Go_Zone.thy ===== *)
theory Go_Zone
  imports Go_Time
begin

text \<open>
  Zones whose clock changes by an hour within a window of time, as daylight saving does almost everywhere: how far the local time of a constructed instant can be from what was asked
  for, which instants share a local time, and that local time goes back by at most an hour.  Nothing is asked of the zone outside the window, where a real table has changes of other
  amounts (the adoption of standard time in 1883, say), but that no offset reaches a day.
\<close>

section \<open>Changes by an hour within a window\<close>

text \<open>
  Within the window, the span that the table reports for a second contains it and is reported for each of its seconds; a span that lies inside lasts four days; a change is by an hour or none.
\<close>

definition hourly_between :: "location \<Rightarrow> int \<Rightarrow> int \<Rightarrow> bool" where
  "hourly_between loc lo hi \<longleftrightarrow> (\<forall>s. \<bar>zone_offset loc s\<bar> < day_seconds) \<and>
     (\<forall>s off st en. lo \<le> s \<longrightarrow> s < hi \<longrightarrow> loc_lookup loc s = (off, st, en) \<longrightarrow>
        st \<le> s \<and> s < en \<and> (st \<le> lo \<or> hi \<le> en \<or> st + 4 * day_seconds \<le> en) \<and>
        (\<forall>s'. lo \<le> s' \<longrightarrow> s' < hi \<longrightarrow> st \<le> s' \<longrightarrow> s' < en \<longrightarrow> loc_lookup loc s' = (off, st, en)) \<and>
        (en < hi \<longrightarrow> zone_offset loc en - off \<in> {- 3600, 0, 3600}))"

abbreviation wall :: "location \<Rightarrow> int \<Rightarrow> int" where
  "wall loc s \<equiv> s + zone_offset loc s"

lemma offset_bound: "hourly_between loc lo hi \<Longrightarrow> \<bar>zone_offset loc s\<bar> < day_seconds"
  by (simp add: hourly_between_def)

lemma hourly_span:
  assumes "hourly_between loc lo hi" "lo \<le> s" "s < hi" "loc_lookup loc s = (off, st, en)"
  shows "st \<le> s" "s < en" "st \<le> lo \<or> hi \<le> en \<or> st + 4 * day_seconds \<le> en"
    "\<And>s'. lo \<le> s' \<Longrightarrow> s' < hi \<Longrightarrow> st \<le> s' \<Longrightarrow> s' < en \<Longrightarrow> loc_lookup loc s' = (off, st, en)"
    "en < hi \<Longrightarrow> zone_offset loc en - off \<in> {- 3600, 0, 3600}"
  using assms unfolding hourly_between_def by blast+

text \<open>The span after a span starts where that one ends.\<close>

lemma next_span:
  assumes "hourly_between loc lo hi" "lo \<le> a" "loc_lookup loc a = (off, st, en)" "en < hi" "a < hi" "loc_lookup loc en = (off', st', en')"
  shows "st' = en"
proof (rule ccontr)
  note r = hourly_span [OF assms(1,2,5,3)]
  have w: "lo \<le> en" using assms(2) r(2) by simp
  note r' = hourly_span [OF assms(1) w assms(4,6)]
  assume "st' \<noteq> en"
  with r'(1) have less: "st' < en" by simp
  have "loc_lookup loc (max a st') = (off, st, en)" by (rule r(4)) (use assms(2,4,5) r(1,2) less in auto)
  moreover have "loc_lookup loc (max a st') = (off', st', en')" by (rule r'(4)) (use assms(2,4,5) r(2) r'(2) less in auto)
  ultimately show False using r'(2) by simp
qed

text \<open>Within four days the offset changes at most once.\<close>

lemma offset_after:
  assumes "hourly_between loc lo hi" "lo \<le> a" "loc_lookup loc a = (off, st, en)" "a \<le> b" "b < a + 4 * day_seconds" "b < hi"
  shows "zone_offset loc b = (if b < en then off else zone_offset loc en)"
proof (cases "b < en")
  case True
  with hourly_span(1) [OF assms(1,2) _ assms(3)] hourly_span(4) [OF assms(1,2) _ assms(3), of b] assms(2,4-6) show ?thesis by (simp add: zone_offset_def)
next
  case False
  have a: "a < hi" "a < en" using hourly_span(2) [OF assms(1,2) _ assms(3)] assms(4,6) by simp_all
  have en: "lo \<le> en" "en < hi" using a assms(2,6) False by simp_all
  obtain off' st' en' where l: "loc_lookup loc en = (off', st', en')" by (metis prod_cases3)
  have "st' = en" by (rule next_span [OF assms(1-3) en(2) a(1) l])
  with hourly_span(3) [OF assms(1) en l] a assms(2,5,6) have "b < en'" by auto
  with hourly_span(4) [OF assms(1) en l, of b] en assms(6) False \<open>st' = en\<close> l show ?thesis by (simp add: zone_offset_def)
qed

lemma near_offsets_le:
  assumes "hourly_between loc lo hi" "lo \<le> a" "a \<le> b" "b < hi" "b < a + 4 * day_seconds"
  shows "zone_offset loc b - zone_offset loc a \<in> {- 3600, 0, 3600}"
proof -
  obtain off st en where l: "loc_lookup loc a = (off, st, en)" by (metis prod_cases3)
  have "zone_offset loc a = off" using l by (simp add: zone_offset_def)
  with offset_after [OF assms(1,2) l assms(3,5,4)] hourly_span(5) [OF assms(1,2) _ l] assms(3,4) show ?thesis by (auto split: if_splits)
qed

lemma near_offsets:
  assumes "hourly_between loc lo hi" "lo \<le> a" "a < hi" "lo \<le> b" "b < hi" "\<bar>b - a\<bar> < 4 * day_seconds"
  shows "zone_offset loc b - zone_offset loc a \<in> {- 3600, 0, 3600}"
proof (cases "a \<le> b")
  case True
  with near_offsets_le [OF assms(1,2) True assms(5)] assms(6) show ?thesis by simp
next
  case False
  with near_offsets_le [OF assms(1,4) _ assms(3)] assms(6) show ?thesis by auto
qed

lemma wall_local: "wall loc (unix t) = local_seconds loc t"
  by (simp add: local_seconds_def)

section \<open>Constructed instants\<close>

text \<open>A construction takes the offset at the wall time read as an instant, and corrects it once.\<close>

lemma go_date_offset:
  assumes "hourly_between loc lo hi" "u = day * day_seconds + clock" "lo + day_seconds \<le> u" "u + day_seconds \<le> hi"
  shows "go_date loc day clock f = (u - zone_offset loc (u - zone_offset loc u)) * second + f"
proof -
  obtain off st en where l: "loc_lookup loc u = (off, st, en)" by (metis prod_cases3)
  have off: "zone_offset loc u = off" using l by (simp add: zone_offset_def)
  have w: "lo \<le> u - off" "u - off < hi" "lo \<le> u" "u < hi" using offset_bound [OF assms(1), of u] assms(3,4) by (auto simp: off)
  have "zone_offset loc (u - off) = off" if "\<not> u - off < st" "\<not> en \<le> u - off"
    using hourly_span(4) [OF assms(1) w(3,4) l, of "u - off"] w that by (simp add: zone_offset_def)
  then show ?thesis using l off by (auto simp: go_date_def assms(2) [symmetric] Let_def)
qed

lemma go_date_unix: "go_date loc day clock f = v * second + f \<Longrightarrow> 0 \<le> f \<Longrightarrow> f < second \<Longrightarrow> unix (go_date loc day clock f) = v"
  by simp

text \<open>A constructed instant reads as asked for, or an hour off.\<close>

lemma go_date_near:
  assumes "hourly_between loc lo hi" "0 \<le> f" "f < second" "lo + day_seconds \<le> day * day_seconds + clock" "day * day_seconds + clock + day_seconds \<le> hi"
  shows "local_seconds loc (go_date loc day clock f) - (day * day_seconds + clock) \<in> {- 3600, 0, 3600}"
proof -
  define u where "u = day * day_seconds + clock"
  define w where "w = u - zone_offset loc u"
  have g: "unix (go_date loc day clock f) = u - zone_offset loc w"
    using go_date_unix [OF go_date_offset [OF assms(1) u_def] assms(2,3)] assms(4,5) by (simp add: u_def [symmetric] w_def)
  have "zone_offset loc (u - zone_offset loc w) - zone_offset loc w \<in> {- 3600, 0, 3600}"
    by (rule near_offsets [OF assms(1)]) (use offset_bound [OF assms(1), of u] offset_bound [OF assms(1), of w] assms(4,5) in \<open>auto simp: w_def u_def [symmetric]\<close>)
  then show ?thesis unfolding local_seconds_def g by (simp add: u_def)
qed

text \<open>When some instant reads as asked for, so does the constructed one.\<close>

lemma go_date_found:
  assumes "hourly_between loc lo hi" "v + zone_offset loc v = day * day_seconds + clock" "0 \<le> f" "f < second"
    "lo + 2 * day_seconds \<le> day * day_seconds + clock" "day * day_seconds + clock + 2 * day_seconds \<le> hi"
  shows "local_seconds loc (go_date loc day clock f) = day * day_seconds + clock"
proof -
  define u where "u = day * day_seconds + clock"
  define a where "a = u - day_seconds"
  define p where "p = zone_offset loc a"
  obtain st en where l: "loc_lookup loc a = (p, st, en)" unfolding p_def zone_offset_def by (metis prod.collapse)
  define q where "q = zone_offset loc en"
  have zo: "zone_offset loc s = (if s < en then p else q)" if "a \<le> s" "s \<le> u + day_seconds" for s
    unfolding q_def by (rule offset_after [OF assms(1) _ l that(1)]) (use that assms(5,6) in \<open>auto simp: a_def u_def [symmetric]\<close>)
  have b: "\<bar>zone_offset loc s\<bar> < day_seconds" for s by (rule offset_bound [OF assms(1)])
  have v: "zone_offset loc v = (if v < en then p else q)" using assms(2) b [of v] by (intro zo) (auto simp: a_def u_def)
  have u: "zone_offset loc u = (if u < en then p else q)" by (intro zo) (auto simp: a_def)
  define w where "w = u - zone_offset loc u"
  have w: "zone_offset loc w = (if w < en then p else q)" using b [of u] by (intro zo) (auto simp: a_def w_def)
  have x: "zone_offset loc (u - zone_offset loc w) = (if u - zone_offset loc w < en then p else q)" using b [of w] by (intro zo) (auto simp: a_def)
  have "zone_offset loc (u - zone_offset loc w) = zone_offset loc w"
    unfolding x using v u w assms(2) unfolding u_def [symmetric] w_def by (auto split: if_splits)
  then show ?thesis
    using go_date_unix [OF go_date_offset [OF assms(1) u_def] assms(3,4)] assms(5,6) unfolding local_seconds_def
    by (simp add: u_def [symmetric] w_def)
qed

lemma same_day_shift:
  assumes "c = day * day_seconds + k + e" "e \<in> {- 3600, 0, 3600}" "3600 \<le> k" "k + 3600 < day_seconds"
  shows "c div day_seconds = day \<and> c mod day_seconds = k + e"
proof -
  from assms have "0 \<le> k + e" "k + e < day_seconds" by auto
  moreover have "c = (k + e) + day * day_seconds" using assms(1) by simp
  ultimately show ?thesis by simp
qed

text \<open>Noon of the day that is a number of days later falls on that day.\<close>

lemma noon_day:
  assumes "hourly_between loc lo hi" "lo + day_seconds \<le> day * day_seconds" "(day + n) * day_seconds + 2 * day_seconds \<le> hi" "0 \<le> n"
  shows "local_day loc (add_days loc (go_date loc day 43200 0) n) = day + n"
proof -
  let ?noon = "go_date loc day 43200 0"
  have s: "(0 :: int) < second" by (simp add: second_def)
  have d: "day * day_seconds \<le> (day + n) * day_seconds" using assms(4) by (simp add: distrib_right)
  define e where "e = local_seconds loc ?noon - (day * day_seconds + 43200)"
  have e: "local_seconds loc ?noon = day * day_seconds + 43200 + e" "e \<in> {- 3600, 0, 3600}"
    using go_date_near [OF assms(1), of 0 day 43200] s assms(2,3) d by (simp_all add: e_def)
  from same_day_shift [OF e(1,2)] have noon: "local_day loc ?noon = day" "local_clock loc ?noon = 43200 + e"
    by (simp_all add: local_day_def local_clock_def)
  let ?t = "go_date loc (day + n) (43200 + e) (?noon mod second)"
  define e' where "e' = local_seconds loc ?t - ((day + n) * day_seconds + (43200 + e))"
  have "lo + day_seconds \<le> (day + n) * day_seconds + (43200 + e)" "(day + n) * day_seconds + (43200 + e) + day_seconds \<le> hi" using assms(2,3) d e(2) by auto
  from go_date_near [OF assms(1) frac_bounds this, of ?noon]
  have e': "local_seconds loc ?t = (day + n) * day_seconds + (43200 + e) + e'" "e' \<in> {- 3600, 0, 3600}" by (simp_all add: e'_def)
  from same_day_shift [OF e'] e(2) have "local_day loc ?t = day + n" by (auto simp: local_day_def)
  then show ?thesis by (simp add: add_days_def noon)
qed

section \<open>Local times that are shared\<close>

text \<open>Local time goes back by at most an hour.\<close>

lemma wall_falls_back:
  assumes "hourly_between loc lo hi" "lo \<le> a" "b < hi" "a \<le> b"
  shows "wall loc a \<le> wall loc b + 3600"
proof (cases "b < a + 4 * day_seconds")
  case True
  with near_offsets_le [OF assms(1,2,4,3)] assms(4) show ?thesis by auto
next
  case False
  with offset_bound [OF assms(1), of a] offset_bound [OF assms(1), of b] show ?thesis by auto
qed

lemma wall_less: "hourly_between loc lo hi \<Longrightarrow> lo \<le> b \<Longrightarrow> a < hi \<Longrightarrow> wall loc a + 3600 < wall loc b \<Longrightarrow> a < b"
  using wall_falls_back [of loc lo hi b a] by linarith

text \<open>Two instants with the same local time are the same or an hour apart, and no third one shares it.\<close>

lemma wall_twice:
  assumes "hourly_between loc lo hi" "lo \<le> a" "a < hi" "lo \<le> b" "b < hi" "wall loc a = wall loc b"
  shows "b = a \<or> b = a + 3600 \<or> b = a - 3600"
proof -
  have "\<bar>b - a\<bar> < 4 * day_seconds" using assms(6) offset_bound [OF assms(1), of a] offset_bound [OF assms(1), of b] by auto
  from near_offsets [OF assms(1-5) this] assms(6) show ?thesis by auto
qed

lemma wall_not_thrice:
  assumes "hourly_between loc lo hi" "lo + 3600 \<le> a" "a + 3600 < hi" "wall loc (a - 3600) = wall loc a"
  shows "wall loc (a + 3600) \<noteq> wall loc a"
  using near_offsets [OF assms(1), of "a - 3600" "a + 3600"] assms(2-4) by auto

text \<open>The hour and minute an hour earlier or later are the same only when the local time is.\<close>

lemma wall_hour_apart:
  assumes "hourly_between loc lo hi" "lo + 3600 \<le> a" "a + 3600 < hi" "e = 3600 \<or> e = - 3600"
  shows "wall loc (a + e) - wall loc a \<in> {- 7200, - 3600, 0, 3600, 7200}"
  using near_offsets [OF assms(1), of a "a + e"] assms(2-4) by auto

section \<open>Zone tables\<close>

lemma UTC_hourly: "- (2 ^ 63) \<le> lo \<Longrightarrow> hi \<le> 2 ^ 63 - 1 \<Longrightarrow> hourly_between UTC lo hi"
  by (auto simp: hourly_between_def UTC_def zone_offset_def)

text \<open>A table as the zone database has it: the offset before the first change, and the changes with the offset after each.\<close>

fun table_lookup :: "int \<Rightarrow> int \<Rightarrow> (int \<times> int) list \<Rightarrow> int \<Rightarrow> int \<times> int \<times> int" where
  "table_lookup off st [] s = (off, st, 2 ^ 63 - 1)"
| "table_lookup off st ((t, off') # rest) s = (if s < t then (off, st, t) else table_lookup off' t rest s)"

fun hourly_table :: "int \<Rightarrow> int \<Rightarrow> (int \<times> int) list \<Rightarrow> bool" where
  "hourly_table off st [] = (\<bar>off\<bar> < day_seconds)"
| "hourly_table off st ((t, off') # rest) = (\<bar>off\<bar> < day_seconds \<and> st + 4 * day_seconds \<le> t \<and> off' - off \<in> {- 3600, 3600} \<and> hourly_table off' t rest)"

lemma table_lookup_start: "hourly_table off st tab \<Longrightarrow> st < 2 ^ 63 - 1 \<Longrightarrow> fst (table_lookup off st tab st) = off"
  by (cases tab) auto

lemma table_offset_bound: "hourly_table off st tab \<Longrightarrow> \<bar>fst (table_lookup off st tab s)\<bar> < day_seconds"
  by (induction off st tab s rule: table_lookup.induct) auto

lemma table_span:
  assumes "hourly_table off st tab" "st \<le> s" "s < 2 ^ 63 - 1" "table_lookup off st tab s = (off1, st1, en1)"
  shows "st \<le> st1 \<and> st1 \<le> s \<and> s < en1 \<and> (\<forall>r. st1 \<le> r \<longrightarrow> r < en1 \<longrightarrow> table_lookup off st tab r = (off1, st1, en1)) \<and>
    (en1 = 2 ^ 63 - 1 \<or> st1 + 4 * day_seconds \<le> en1 \<and> (en1 < 2 ^ 63 - 1 \<longrightarrow> fst (table_lookup off st tab en1) - off1 \<in> {- 3600, 3600}))"
  using assms
proof (induction off st tab s rule: table_lookup.induct)
  case (2 off st t off' rest s)
  show ?case
  proof (cases "s < t")
    case True
    with 2 table_lookup_start [of off' t rest] show ?thesis by auto
  next
    case False
    have h: "hourly_table off' t rest" "t \<le> s" "s < 2 ^ 63 - 1" "table_lookup off' t rest s = (off1, st1, en1)" "st \<le> t"
      using 2(2-5) False by auto
    note ih = 2(1) [OF False h(1-4)]
    have eq: "table_lookup off st ((t, off') # rest) r = table_lookup off' t rest r" if "t \<le> r" for r using that by simp
    show ?thesis
    proof (intro conjI allI impI)
      show "st \<le> st1" "st1 \<le> s" "s < en1" using ih h(5) by linarith+
      show "table_lookup off st ((t, off') # rest) r = (off1, st1, en1)" if "st1 \<le> r" "r < en1" for r
        using ih that eq [of r] by simp
      show "en1 = 2 ^ 63 - 1 \<or> st1 + 4 * day_seconds \<le> en1 \<and>
          (en1 < 2 ^ 63 - 1 \<longrightarrow> fst (table_lookup off st ((t, off') # rest) en1) - off1 \<in> {- 3600, 3600})"
        using ih h(2) unfolding eq [OF order_trans [OF h(2) less_imp_le [OF conjunct1 [OF conjunct2 [OF conjunct2 [OF ih]]]]]] by blast
    qed
  qed
qed auto

lemma table_hourly:
  assumes "hourly_table off st tab" "st \<le> lo" "hi \<le> 2 ^ 63 - 1" "\<And>s. loc_lookup loc s = table_lookup off st tab s"
  shows "hourly_between loc lo hi"
  unfolding hourly_between_def
proof (intro conjI allI impI)
  show "\<bar>zone_offset loc s\<bar> < day_seconds" for s using table_offset_bound [OF assms(1)] by (simp add: zone_offset_def assms(4))
  fix s off1 st1 en1
  assume s: "lo \<le> s" "s < hi" "loc_lookup loc s = (off1, st1, en1)"
  have r: "st1 \<le> s" "s < en1" "\<forall>r. st1 \<le> r \<longrightarrow> r < en1 \<longrightarrow> loc_lookup loc r = (off1, st1, en1)"
    "en1 = 2 ^ 63 - 1 \<or> st1 + 4 * day_seconds \<le> en1 \<and> (en1 < 2 ^ 63 - 1 \<longrightarrow> zone_offset loc en1 - off1 \<in> {- 3600, 3600})"
    using table_span [OF assms(1), of s off1 st1 en1] s assms(2,3) by (auto simp: assms(4) zone_offset_def)
  show "st1 \<le> s" "s < en1" "st1 \<le> lo \<or> hi \<le> en1 \<or> st1 + 4 * day_seconds \<le> en1" using r assms(3) by auto
  show "loc_lookup loc s' = (off1, st1, en1)" if "lo \<le> s'" "s' < hi" "st1 \<le> s'" "s' < en1" for s' using r(3) that by simp
  show "zone_offset loc en1 - off1 \<in> {- 3600, 0, 3600}" if "en1 < hi" using r(4) that assms(3) by auto
qed

text \<open>The changes of America/New_York from November 2025 to March 2038.\<close>

definition New_York_changes :: "(int \<times> int) list" where
  "New_York_changes = 
    [(1772953200, - 14400), (1793512800, - 18000), (1805007600, - 14400), (1825567200, - 18000), (1836457200, - 14400),
     (1857016800, - 18000), (1867906800, - 14400), (1888466400, - 18000), (1899356400, - 14400), (1919916000, - 18000),
     (1930806000, - 14400), (1951365600, - 18000), (1962860400, - 14400), (1983420000, - 18000), (1994310000, - 14400),
     (2014869600, - 18000), (2025759600, - 14400), (2046319200, - 18000), (2057209200, - 14400), (2077768800, - 18000),
     (2088658800, - 14400), (2109218400, - 18000), (2120108400, - 14400), (2140668000, - 18000), (2152162800, - 14400)]"

definition New_York :: location where
  "New_York = \<lparr>loc_name = ''America/New_York'', loc_lookup = table_lookup (- 18000) 1762063200 New_York_changes\<rparr>"

lemma New_York_hourly: "1762063200 \<le> lo \<Longrightarrow> hi \<le> 2 ^ 63 - 1 \<Longrightarrow> hourly_between New_York lo hi"
  by (rule table_hourly [of "- 18000" 1762063200 New_York_changes]) (simp_all add: New_York_def New_York_changes_def)

end
