(* ===== verification/Tasks_Recurrence_Props.thy ===== *)
theory Tasks_Recurrence_Props
  imports Tasks_Recurrence Go_Zone
begin

text \<open>
  What the recurrence rules promise: a parsed rule is well formed; the occurrences are exactly the instants at the start's wall clock on the days the rule selects, in
  order, with repeated wall times listed twice and missing ones skipped; every second week is counted right except in the hour after midnight.
\<close>

section \<open>The instants of a wall time\<close>

lemma hour_of_day: "(x :: int) mod day_seconds div 3600 = x div 3600 mod 24"
  using zmod_zmult2_eq [of 24 x 3600] by simp

lemma same_wall_minute_iff:
  assumes "local_seconds loc t = u + 3600 * j" "- 2 \<le> j" "j \<le> 2" "clock = u mod day_seconds"
  shows "same_wall_minute loc clock t \<longleftrightarrow> j = 0"
proof -
  have "(u + 3600 * j) div 3600 = u div 3600 + j" by simp
  then have "local_hour loc t = (u div 3600 + j) mod 24" using assms(1) by (simp add: local_hour_def local_clock_def hour_of_day add.commute)
  moreover have "clock div 3600 = u div 3600 mod 24" using assms(4) by (simp add: hour_of_day)
  moreover have "(u div 3600 + j) mod 24 = u div 3600 mod 24 \<longleftrightarrow> j = 0"
    using assms(2,3) zdvd_imp_le [of 24 "\<bar>j\<bar>"] by (auto simp: mod_eq_dvd_iff)
  moreover have "local_minute loc t = clock div 60 mod 60" if "j = 0" using that assms(1,4) by (simp add: local_minute_def local_clock_def)
  ultimately show ?thesis unfolding same_wall_minute_def by metis
qed

lemma go_date_fraction: "0 \<le> f \<Longrightarrow> f < second \<Longrightarrow> go_date loc d c f mod second = f"
  by (simp add: go_date_def Let_def split: prod.splits)

lemma instant_eq_iff: "t = t' \<longleftrightarrow> unix t = unix t' \<and> t mod second = t' mod second"
  using instant_split [of t] instant_split [of t'] by metis

lemma hours_later: "unix (t + hour * j) = unix t + 3600 * j" "(t + hour * j) mod second = t mod second"
proof -
  have "(t + 3600 * j * 1000000) div 1000000 = t div 1000000 + 3600 * j" using div_mult_self1 [of 1000000 t "3600 * j"] by simp
  then show "unix (t + hour * j) = unix t + 3600 * j" "(t + hour * j) mod second = t mod second"
    using mod_mult_self1 [of t "3600 * j" 1000000] by (simp_all add: unix_def hour_def second_def algebra_simps)
qed

text \<open>Another instant with the same local time, an hour from a given one, is what the code looks for.\<close>

lemma hour_from_iff:
  assumes "hourly_between loc lo hi" "local_seconds loc t = u" "clock = u mod day_seconds" "j = 1 \<or> j = - 1" "lo + 3600 \<le> unix t" "unix t + 3600 < hi"
  shows "same_wall_minute loc clock (t + hour * j) \<longleftrightarrow> wall loc (unix t + 3600 * j) = u"
proof -
  define w where "w = wall loc (unix t + 3600 * j) - u"
  have "local_seconds loc (t + hour * j) = u + w" by (simp add: local_seconds_def hours_later w_def)
  moreover have "w \<in> {- 7200, - 3600, 0, 3600, 7200}"
    using wall_hour_apart [OF assms(1,5,6), of "3600 * j"] assms(2,4) unfolding w_def wall_local [symmetric] by auto
  then obtain i where "w = 3600 * i" "- 2 \<le> i" "i \<le> 2" using that [of "w div 3600"] by auto
  ultimately show ?thesis using same_wall_minute_iff [of loc _ u i clock] assms(3) by (auto simp: w_def)
qed

lemma near_local: "hourly_between loc lo hi \<Longrightarrow> local_seconds loc t = u \<Longrightarrow> u - day_seconds < unix t \<and> unix t < u + day_seconds"
  using offset_bound [of loc lo hi "unix t"] by (auto simp: local_seconds_def)

lemma civilInstants_exact:
  assumes z: "hourly_between loc lo hi" and w: "lo + 2 * day_seconds \<le> day * day_seconds" "(day + n) * day_seconds + 3 * day_seconds \<le> hi" "0 \<le> n" and c: "0 \<le> clock" "clock < day_seconds" and f: "0 \<le> f" "f < second"
  shows "sorted_wrt (<) (civilInstants loc day clock f n) \<and>
    (\<forall>t. t \<in> set (civilInstants loc day clock f n) \<longleftrightarrow> local_seconds loc t = (day + n) * day_seconds + clock \<and> t mod second = f)"
proof -
  define u where "u = (day + n) * day_seconds + clock"
  define g where "g = go_date loc (day + n) clock f"
  have "day * day_seconds \<le> (day + n) * day_seconds" using w(3) by (simp add: distrib_right)
  then have uw: "lo + 2 * day_seconds \<le> u" "u + 2 * day_seconds \<le> hi" using w c by (auto simp: u_def)
  have near: "lo + 3600 \<le> unix t" "unix t + 3600 < hi" "lo \<le> unix t" "unix t < hi" if "local_seconds loc t = u" for t
    using near_local [OF z that] uw by auto
  have cu: "clock = u mod day_seconds" unfolding u_def using c by (subst mod_add_eq [symmetric]) simp
  have gf: "g mod second = f" using f by (simp add: g_def go_date_fraction)
  define e where "e = local_seconds loc g - u"
  have e: "local_seconds loc g = u + e" "e \<in> {- 3600, 0, 3600}" using go_date_near [OF z f, of "day + n" clock] uw by (simp_all add: e_def g_def u_def)
  then have hit: "same_wall_minute loc clock g \<longleftrightarrow> e = 0" using same_wall_minute_iff [OF _ _ _ cu, of loc g "e div 3600"] by auto
  have noon: "local_day loc (add_days loc (go_date loc day 43200 0) n) = day + n" by (rule noon_day [OF z _ _ w(3)]) (use w in simp_all)
  have L: "civilInstants loc day clock f n = (if e \<noteq> 0 then [] else if same_wall_minute loc clock (g - hour) then [g - hour, g]
      else if same_wall_minute loc clock (g + hour) then [g, g + hour] else [g])"
    using hit by (simp add: civilInstants_def Let_def noon g_def [symmetric] hour_def second_def)
  show ?thesis
  proof (cases "e = 0")
    case False
    have "local_seconds loc t \<noteq> u" for t
    proof
      assume "local_seconds loc t = u"
      then have "unix t + zone_offset loc (unix t) = (day + n) * day_seconds + clock" by (simp add: wall_local u_def)
      from go_date_found [OF z this f] uw have "local_seconds loc g = u" by (simp add: g_def u_def)
      with e False show False by simp
    qed
    with L False show ?thesis by (simp add: u_def)
  next
    case True
    have g: "local_seconds loc g = u" using e True by simp
    have one: "same_wall_minute loc clock (g + hour) \<longleftrightarrow> wall loc (unix g + 3600) = u" "same_wall_minute loc clock (g - hour) \<longleftrightarrow> wall loc (unix g - 3600) = u"
      using hour_from_iff [OF z g cu, of 1] hour_from_iff [OF z g cu, of "- 1"] near [OF g] by simp_all
    have both: "wall loc (unix g - 3600) = u \<Longrightarrow> wall loc (unix g + 3600) \<noteq> u"
      using wall_not_thrice [OF z near(1,2) [OF g]] g by (simp add: wall_local)
    have mem: "local_seconds loc t = u \<and> t mod second = f \<longleftrightarrow>
        t = g \<or> t = g + hour \<and> wall loc (unix g + 3600) = u \<or> t = g - hour \<and> wall loc (unix g - 3600) = u" for t
    proof -
      have eqs: "t = g \<longleftrightarrow> unix t = unix g \<and> t mod second = f" "t = g + hour \<longleftrightarrow> unix t = unix g + 3600 \<and> t mod second = f"
        "t = g - hour \<longleftrightarrow> unix t = unix g - 3600 \<and> t mod second = f"
        using instant_eq_iff [of t g] instant_eq_iff [of t "g + hour"] instant_eq_iff [of t "g - hour"] hours_later [of g 1] hours_later [of g "- 1"] gf by simp_all
      have "local_seconds loc t = u \<longleftrightarrow> unix t = unix g \<or> unix t = unix g + 3600 \<and> wall loc (unix g + 3600) = u \<or>
          unix t = unix g - 3600 \<and> wall loc (unix g - 3600) = u"
        using wall_twice [OF z near(3,4) [OF g], of "unix t"] near(3,4) [of t] g unfolding wall_local [symmetric] by auto
      then show ?thesis unfolding eqs by blast
    qed
    have "0 < hour" by (simp add: hour_def second_def)
    with L True one both mem show ?thesis unfolding u_def [symmetric] by auto
  qed
qed

section \<open>The listing\<close>

text \<open>
  A reference for the loop: all instants of the days from an offset on, cut where the horizon or the rule's end is passed, filtered by the rule, and cut to the count.
\<close>

definition in_time :: "Spec \<Rightarrow> time \<Rightarrow> time \<Rightarrow> bool" where
  "in_time s horizon t \<longleftrightarrow> t \<le> horizon \<and> (case rs_until s of None \<Rightarrow> True | Some u \<Rightarrow> t \<le> u)"

definition day_instants :: "Spec \<Rightarrow> location \<Rightarrow> int \<Rightarrow> (int \<times> time) list" where
  "day_instants s loc k = map (Pair k) (civilInstants loc (local_day loc (rs_start s)) (local_clock loc (rs_start s)) (rs_start s mod second) k)"

definition all_instants :: "Spec \<Rightarrow> location \<Rightarrow> int \<Rightarrow> (int \<times> time) list" where
  "all_instants s loc k = concat (map (day_instants s loc) [k..max_offset - 1])"

definition cut_count :: "Spec \<Rightarrow> int \<Rightarrow> 'a list \<Rightarrow> 'a list" where
  "cut_count s n xs = (let ys = (if 0 < rs_count s then take (nat (rs_count s - n)) xs else xs) in if rs_frequency s = ''ONCE'' then take 1 ys else ys)"

definition selected :: "Spec \<Rightarrow> location \<Rightarrow> time \<Rightarrow> (int \<times> time) list \<Rightarrow> (int \<times> time) list" where
  "selected s loc horizon xs = filter (\<lambda>(k, t). includeOccurrence s loc k t) (takeWhile (\<lambda>(k, t). in_time s horizon t) xs)"

lemma cut_count_simps:
  "cut_count s n [] = []"
  "0 < rs_count s \<Longrightarrow> rs_count s \<le> n \<Longrightarrow> cut_count s n xs = []"
  "\<not> (0 < rs_count s \<and> rs_count s \<le> n) \<Longrightarrow> rs_frequency s = ''ONCE'' \<Longrightarrow> cut_count s n (x # xs) = [x]"
  "\<not> (0 < rs_count s \<and> rs_count s \<le> n) \<Longrightarrow> rs_frequency s \<noteq> ''ONCE'' \<Longrightarrow> cut_count s n (x # xs) = x # cut_count s (n + 1) xs"
proof -
  have "nat (rs_count s - n) = Suc (nat (rs_count s - (n + 1)))" if "n < rs_count s" using that by simp
  then show "\<not> (0 < rs_count s \<and> rs_count s \<le> n) \<Longrightarrow> rs_frequency s = ''ONCE'' \<Longrightarrow> cut_count s n (x # xs) = [x]"
    "\<not> (0 < rs_count s \<and> rs_count s \<le> n) \<Longrightarrow> rs_frequency s \<noteq> ''ONCE'' \<Longrightarrow> cut_count s n (x # xs) = x # cut_count s (n + 1) xs"
    by (auto simp: cut_count_def)
qed (simp_all add: cut_count_def)

lemma selected_simps:
  "selected s loc h [] = []"
  "selected s loc h ((k, t) # xs) = (if in_time s h t then (if includeOccurrence s loc k t then (k, t) # selected s loc h xs else selected s loc h xs) else [])"
  by (simp_all add: selected_def)

lemma scan_instants_listing:
  assumes "scan_instants s loc h k n ts = (out, m, stop)"
  shows "map snd (cut_count s n (selected s loc h (map (Pair k) ts @ rest))) = out @ (if stop then [] else map snd (cut_count s m (selected s loc h rest)))"
  using assms
proof (induction ts arbitrary: n out)
  case (Cons t ts)
  show ?case
  proof (cases "in_time s h t \<and> \<not> (0 < rs_count s \<and> rs_count s \<le> n)")
    case False
    with Cons.prems show ?thesis by (auto simp: selected_simps cut_count_simps in_time_def split: if_splits option.splits)
  next
    case True
    then have go: "\<not> h < t" "\<not> (case rs_until s of None \<Rightarrow> False | Some u \<Rightarrow> u < t)" by (auto simp: in_time_def split: option.splits)
    show ?thesis
    proof (cases "includeOccurrence s loc k t \<and> rs_frequency s \<noteq> ''ONCE''")
      case inc: True
      obtain out' where "scan_instants s loc h k (n + 1) ts = (out', m, stop)" "out = t # out'"
        using Cons.prems True go inc by (auto split: prod.splits)
      with Cons.IH [of "n + 1" out'] True inc show ?thesis by (simp add: selected_simps cut_count_simps)
    next
      case False
      with Cons True go show ?thesis by (auto simp: selected_simps cut_count_simps)
    qed
  qed
qed (simp add: selected_simps)

lemma all_instants_step: "k < max_offset \<Longrightarrow> all_instants s loc k = day_instants s loc k @ all_instants s loc (k + 1)"
  unfolding all_instants_def by (subst upto_rec1) simp_all

lemma scan_days_listing: "scan_days s loc h k n = map snd (cut_count s n (selected s loc h (all_instants s loc k)))"
proof (induction s loc h k n rule: scan_days.induct)
  case (1 s loc h k n)
  show ?case
  proof (cases "max_offset \<le> k")
    case True
    then show ?thesis by (subst scan_days.simps) (simp add: all_instants_def selected_simps cut_count_simps)
  next
    case False
    let ?c = "civilInstants loc (local_day loc (rs_start s)) (local_clock loc (rs_start s)) (rs_start s mod second) k"
    obtain out m stop where scan: "scan_instants s loc h k n ?c = (out, m, stop)" by (metis prod_cases3)
    from scan_instants_listing [OF scan, of "all_instants s loc (k + 1)"] False 1 [OF False scan [symmetric] refl] scan show ?thesis
      by (subst scan_days.simps) (simp add: all_instants_step day_instants_def)
  qed
qed

text \<open>The instants of all days are in order, so that a bound cuts off exactly what is beyond it.\<close>

lemma start_clock: "0 \<le> local_clock loc t" "local_clock loc t < day_seconds"
  by (simp_all add: local_clock_def)

text \<open>The days a rule may span: from the start four thousand days on, and some days around them.\<close>

definition hourly_for :: "Spec \<Rightarrow> location \<Rightarrow> bool" where
  "hourly_for s loc \<longleftrightarrow> hourly_between loc (unix (rs_start s) - 4 * day_seconds) (unix (rs_start s) + (max_offset + 4) * day_seconds)"

lemma rule_days:
  assumes "hourly_for s loc" "k < max_offset"
  shows "unix (rs_start s) - 2 * day_seconds \<le> local_day loc (rs_start s) * day_seconds"
    "(local_day loc (rs_start s) + k) * day_seconds + 3 * day_seconds \<le> unix (rs_start s) + (max_offset + 4) * day_seconds"
  using assms offset_bound [of loc _ _ "unix (rs_start s)"] start_clock [of loc "rs_start s"] local_split [of loc "rs_start s"]
  unfolding hourly_for_def local_seconds_def by (fastforce simp: max_offset_def algebra_simps)+

lemma day_instants_exact:
  assumes "hourly_for s loc" "0 \<le> k" "k < max_offset"
  shows "sorted_wrt (\<lambda>x y. snd x < snd y) (day_instants s loc k)"
    "x \<in> set (day_instants s loc k) \<longleftrightarrow> fst x = k \<and> local_seconds loc (snd x) = local_seconds loc (rs_start s) + k * day_seconds \<and>
      snd x mod second = rs_start s mod second"
proof -
  let ?c = "civilInstants loc (local_day loc (rs_start s)) (local_clock loc (rs_start s)) (rs_start s mod second) k"
  note exact = civilInstants_exact [OF assms(1) [unfolded hourly_for_def] _ rule_days(2) [OF assms(1,3)] assms(2) start_clock [of loc "rs_start s"] frac_bounds [of "rs_start s"]]
  have u: "(local_day loc (rs_start s) + k) * day_seconds + local_clock loc (rs_start s) = local_seconds loc (rs_start s) + k * day_seconds"
    unfolding local_split [of loc "rs_start s", symmetric] by (simp add: distrib_right)
  show "sorted_wrt (\<lambda>x y. snd x < snd y) (day_instants s loc k)" using exact rule_days(1) [OF assms(1,3)] by (simp add: day_instants_def sorted_wrt_map)
  show "x \<in> set (day_instants s loc k) \<longleftrightarrow> fst x = k \<and> local_seconds loc (snd x) = local_seconds loc (rs_start s) + k * day_seconds \<and>
      snd x mod second = rs_start s mod second"
    using exact rule_days(1) [OF assms(1,3)] unfolding u by (cases x) (auto simp: day_instants_def)
qed

lemma later_day_later:
  assumes "hourly_for s loc" "local_seconds loc a = local_seconds loc (rs_start s) + k * day_seconds" "local_seconds loc b = local_seconds loc (rs_start s) + l * day_seconds"
    "0 \<le> k" "k < l" "l < max_offset"
  shows "a < b"
proof -
  note z = assms(1) [unfolded hourly_for_def]
  have "0 \<le> k * day_seconds" "0 \<le> l * day_seconds" "k * day_seconds \<le> max_offset * day_seconds" using assms(4-6) by (simp_all add: max_offset_def)
  then have w: "unix (rs_start s) - 4 * day_seconds \<le> unix b" "unix a < unix (rs_start s) + (max_offset + 4) * day_seconds"
    using near_local [OF z assms(2)] near_local [OF z assms(3)] near_local [OF z refl, of "rs_start s"] by (auto simp: algebra_simps)
  have "k * day_seconds + day_seconds \<le> l * day_seconds" using assms(5) mult_right_mono [of "k + 1" l day_seconds] by (simp add: distrib_right)
  then have "unix a < unix b" using wall_less [OF z w] assms(2,3) by (simp add: wall_local)
  then show ?thesis using zdiv_mono1 [of b a second] by (auto simp: unix_def second_def not_less [symmetric])
qed

lemma all_instants_sorted:
  assumes "hourly_for s loc"
  shows "sorted_wrt (\<lambda>x y. snd x < snd y) (all_instants s loc 0)"
proof -
  have "sorted_wrt (\<lambda>x y. snd x < snd y) (concat (map (day_instants s loc) ks))" if "sorted_wrt (<) ks" "set ks \<subseteq> {0..<max_offset}" for ks
    using that
  proof (induction ks)
    case (Cons k ks)
    have "snd x < snd y" if "x \<in> set (day_instants s loc k)" "l \<in> set ks" "y \<in> set (day_instants s loc l)" for x y l
    proof -
      have k: "0 \<le> k" "k < l" "l < max_offset" using that(2) Cons.prems by auto
      with that(1,3) have e: "local_seconds loc (snd x) = local_seconds loc (rs_start s) + k * day_seconds"
        "local_seconds loc (snd y) = local_seconds loc (rs_start s) + l * day_seconds"
        using day_instants_exact(2) [OF assms, of k x] day_instants_exact(2) [OF assms, of l y] by simp_all
      show ?thesis by (rule later_day_later [OF assms e k])
    qed
    moreover have "sorted_wrt (\<lambda>x y. snd x < snd y) (day_instants s loc k)" by (rule day_instants_exact(1) [OF assms]) (use Cons.prems in simp_all)
    moreover have "sorted_wrt (\<lambda>x y. snd x < snd y) (concat (map (day_instants s loc) ks))" by (rule Cons.IH) (use Cons.prems in simp_all)
    ultimately show ?case by (simp add: sorted_wrt_append)
  qed simp
  from this [of "[0..max_offset - 1]"] show ?thesis unfolding all_instants_def by (simp add: subset_iff)
qed

lemma takeWhile_sorted:
  assumes "sorted_wrt (\<lambda>x y. snd x < snd y) xs" "\<forall>x y. snd x < snd y \<and> P y \<longrightarrow> P x"
  shows "takeWhile P xs = filter P xs"
  using assms(1)
proof (induction xs)
  case (Cons x xs)
  show ?case
  proof (cases "P x")
    case False
    from Cons.prems have "\<forall>y \<in> set xs. snd x < snd y" by simp
    with False assms(2) have "\<forall>y \<in> set xs. \<not> P y" by blast
    with False show ?thesis by (simp add: filter_empty_conv)
  qed (use Cons in simp)
qed simp

text \<open>
  What a rule selects: the instants, within the horizon and the rule's end, that read as the start's wall clock some days after the start's date and that the rule includes.
\<close>

definition due_instants :: "Spec \<Rightarrow> location \<Rightarrow> time \<Rightarrow> time set" where
  "due_instants s loc horizon = {t. \<exists>k. 0 \<le> k \<and> k < max_offset \<and> local_seconds loc t = local_seconds loc (rs_start s) + k * day_seconds \<and>
     t mod second = rs_start s mod second \<and> in_time s horizon t \<and> includeOccurrence s loc k t}"

lemma selected_all:
  assumes "hourly_for s loc"
  shows "sorted_wrt (<) (map snd (selected s loc h (all_instants s loc 0)))" "snd ` set (selected s loc h (all_instants s loc 0)) = due_instants s loc h"
proof -
  have sel: "selected s loc h (all_instants s loc 0) =
      filter (\<lambda>x. in_time s h (snd x) \<and> includeOccurrence s loc (fst x) (snd x)) (all_instants s loc 0)"
    unfolding selected_def by (subst takeWhile_sorted [OF all_instants_sorted [OF assms]])
      (auto simp: in_time_def case_prod_beta split: option.splits intro: filter_cong)
  show "sorted_wrt (<) (map snd (selected s loc h (all_instants s loc 0)))"
    unfolding sel by (simp add: sorted_wrt_map sorted_wrt_filter all_instants_sorted [OF assms])
  have "x \<in> set (all_instants s loc 0) \<longleftrightarrow> 0 \<le> fst x \<and> fst x < max_offset \<and> local_seconds loc (snd x) = local_seconds loc (rs_start s) + fst x * day_seconds \<and>
      snd x mod second = rs_start s mod second" for x
    by (auto simp: all_instants_def day_instants_exact(2) [OF assms])
  then show "snd ` set (selected s loc h (all_instants s loc 0)) = due_instants s loc h"
    unfolding sel due_instants_def by (auto simp: image_iff)
qed

text \<open>
  C17.  The occurrences of a rule are exactly the instants it selects, in order and each once, cut to the rule's count (to the first one for a rule that happens once): on each selected day
  a wall time that the clock shows twice is listed twice and one that it skips is not listed.  Over the four thousand days that a rule may span the zone's clock changes by an hour at a time,
  changes being at least four days apart; a change by another amount is what the listing does not handle.
\<close>

theorem occurrences_exact:
  assumes "load (rs_timezone s) = Some loc" "hourly_for s loc"
  shows "finite (due_instants s loc horizon) \<and> Occurrences load s horizon = cut_count s 0 (sorted_list_of_set (due_instants s loc horizon))"
proof -
  let ?L = "map snd (selected s loc horizon (all_instants s loc 0))"
  have set: "set ?L = due_instants s loc horizon" using selected_all(2) [OF assms(2)] by simp
  have "sorted ?L" "distinct ?L" using selected_all(1) [OF assms(2), of horizon] strict_sorted_iff by blast+
  then have "sorted_list_of_set (set ?L) = ?L" by (rule sorted_list_of_set.idem_if_sorted_distinct)
  moreover have "Occurrences load s horizon = cut_count s 0 ?L" by (simp add: Occurrences_def assms(1) scan_days_listing cut_count_def take_map Let_def)
  ultimately show ?thesis unfolding set [symmetric] by simp
qed

text \<open>
  A daily rule in New York, at half past one, from the day before the clocks go back in 2026: the repeated wall time of that day is listed twice.
\<close>

definition ex_daily :: Spec where
  "ex_daily = \<lparr>rs_frequency = ''DAILY'', rs_interval = 1, rs_by_weekday = [], rs_count = 4, rs_until = None, rs_start = 1793424600 * second,
     rs_timezone = ''America/New_York''\<rparr>"

theorem occurrences_exact_witness:
  "finite (due_instants ex_daily New_York (1793900000 * second)) \<and>
   cut_count ex_daily 0 (sorted_list_of_set (due_instants ex_daily New_York (1793900000 * second))) =
     [1793424600 * second, 1793511000 * second, 1793514600 * second, 1793601000 * second]"
proof -
  have "Occurrences (\<lambda>_. Some New_York) ex_daily (1793900000 * second) = [1793424600 * second, 1793511000 * second, 1793514600 * second, 1793601000 * second]"
    by code_simp
  moreover have "hourly_for ex_daily New_York" unfolding hourly_for_def by (rule New_York_hourly) code_simp+
  ultimately show ?thesis using occurrences_exact [of "\<lambda>_. Some New_York" ex_daily New_York "1793900000 * second"] by simp
qed

section \<open>Counting weeks\<close>

lemma fl_fraction_le:
  assumes "0 \<le> x" "x \<le> of_int n - 1 / 2 ^ b" "0 < n" "n * 2 ^ b \<le> 2 ^ 53" "b \<le> 1000"
  shows "fl x \<le> of_int n - 1 / 2 ^ b"
proof -
  have eq: "of_int n - 1 / 2 ^ b = (of_int (n * 2 ^ b - 1) * pow2 (- int b) :: rat)"
    by (simp add: pow2_def field_simps)
  have "1 \<le> n * 2 ^ b" using assms(3) mult_mono [of 1 n 1 "2 ^ b"] by simp
  with assms(4,5) have "fl (of_int n - 1 / 2 ^ b) = of_int n - 1 / 2 ^ b" unfolding eq by (intro fl_representable) auto
  then show ?thesis by (intro fl_le [OF assms(1) _ assms(2)])
qed

lemma Hours_bounds:
  assumes "0 \<le> d" "d < 60000 * (24 * hour)"
  shows "of_int (d div hour) \<le> Hours d" "Hours d \<le> of_int (d div hour + 1) - 1 / 2 ^ 32"
proof -
  define h where "h = d div hour"
  define x :: rat where "x = of_int (1000 * (d - h * hour)) / 3600000000000"
  have pos: "0 < hour" by (simp add: hour_def second_def)
  have h: "0 \<le> h" "h < 1440000" using assms by (simp_all add: h_def hour_def second_def)
  have r: "d - h * hour = d mod hour" by (simp add: h_def minus_div_mult_eq_mod)
  have "0 \<le> d mod hour" "d mod hour \<le> 3600000000 - 1" using pos_mod_bound [OF pos, of d] pos_mod_sign [OF pos, of d] by (simp_all add: hour_def second_def)
  then have x: "0 \<le> x" "x \<le> of_int 1 - 1 / 2 ^ 32" unfolding x_def r by (simp_all add: field_simps)
  have fx: "0 \<le> fl x" "fl x \<le> of_int 1 - 1 / 2 ^ 32" using fl_nonneg [OF x(1)] fl_fraction_le [OF x, of] by simp_all
  have H: "Hours d = fl (of_int h + fl x)" using assms(1) pos by (simp add: Hours_def trunc_div_nonneg h_def [symmetric] x_def Let_def)
  show "of_int (d div hour) \<le> Hours d" unfolding H h_def [symmetric] using h fx by (intro fl_ge) (simp_all add: fl_of_int)
  show "Hours d \<le> of_int (d div hour + 1) - 1 / 2 ^ 32" unfolding H h_def [symmetric] using h fx by (intro fl_fraction_le) simp_all
qed

text \<open>The float64 computation of elapsed days is exact for the spans a rule covers.\<close>

lemma elapsed_days_exact:
  assumes "0 \<le> d" "d < 60000 * (24 * hour)"
  shows "elapsed_days d = d div (24 * hour)"
proof -
  define n where "n = d div (24 * hour)"
  have n: "n = d div hour div 24" unfolding n_def by (simp add: zdiv_zmult2_eq hour_def second_def mult.commute)
  have pos: "0 < hour" by (simp add: hour_def second_def)
  have bounds: "0 \<le> n" "n < 60000" using assms by (simp_all add: n_def hour_def second_def)
  have "24 * n \<le> d div hour" "d div hour + 1 \<le> 24 * (n + 1)" unfolding n
    using mult_div_mod_eq [of 24 "d div hour"] pos_mod_bound [of 24 "d div hour"] pos_mod_sign [of 24 "d div hour"] by (simp_all add: distrib_left)
  then have "of_int (24 * n) \<le> Hours d" "Hours d \<le> of_int (24 * (n + 1)) - 1 / 2 ^ 32"
    using Hours_bounds [OF assms] by (meson of_int_le_iff order_trans diff_right_mono)+
  then have z: "of_int n \<le> Hours d / 24" "Hours d / 24 \<le> of_int (n + 1) - 1 / 2 ^ 37" by simp_all
  have "of_int n \<le> fl (Hours d / 24)" using z bounds by (intro fl_ge) (simp_all add: fl_of_int)
  moreover have "fl (Hours d / 24) \<le> of_int (n + 1) - 1 / 2 ^ 37" using z bounds by (intro fl_fraction_le) (simp_all add: order_trans [OF _ z(1)])
  ultimately have "\<lfloor>fl (Hours d / 24)\<rfloor> = n" by (intro floor_unique) auto
  moreover have "0 \<le> fl (Hours d / 24)" using z bounds by (intro fl_nonneg) (simp add: order_trans [OF _ z(1)])
  ultimately show ?thesis by (simp add: elapsed_days_def truncate_def n_def)
qed

text \<open>
  How a weekly rule with an interval counts: by the elapsed time since the start's midnight, which the change of the zone's offset shifts.
\<close>

definition midnight_exists :: "location \<Rightarrow> time \<Rightarrow> bool" where
  "midnight_exists loc t \<longleftrightarrow> local_seconds loc (local_midnight loc t) = local_day loc t * day_seconds"

definition offset_gain :: "location \<Rightarrow> time \<Rightarrow> time \<Rightarrow> int" where
  "offset_gain loc start cur = zone_offset loc (unix cur) - zone_offset loc (unix (local_midnight loc start))"

lemma since_midnight:
  assumes "midnight_exists loc start" "local_seconds loc cur = local_seconds loc start + k * day_seconds"
  shows "cur - local_midnight loc start = (k * day_seconds + local_clock loc start - offset_gain loc start cur) * second + cur mod second"
proof -
  let ?m = "local_midnight loc start"
  have "?m mod second = 0" using go_date_fraction [of 0] by (simp add: local_midnight_def second_def)
  then have "cur - ?m = (unix cur - unix ?m) * second + cur mod second" using instant_split [of cur] instant_split [of ?m] by (simp add: algebra_simps)
  moreover have "unix cur - unix ?m = k * day_seconds + local_clock loc start - offset_gain loc start cur"
    using assms local_split [of loc start] by (simp add: midnight_exists_def offset_gain_def local_seconds_def)
  ultimately show ?thesis by simp
qed

lemma elapsed_since_midnight:
  assumes "midnight_exists loc start" "local_seconds loc cur = local_seconds loc start + k * day_seconds"
    "0 \<le> k * day_seconds + local_clock loc start - offset_gain loc start cur" "k < 50000" "\<bar>offset_gain loc start cur\<bar> < 2 * day_seconds"
  shows "elapsed_days (cur - local_midnight loc start) = (k * day_seconds + local_clock loc start - offset_gain loc start cur) div day_seconds"
proof -
  define e where "e = k * day_seconds + local_clock loc start - offset_gain loc start cur"
  have d: "cur - local_midnight loc start = e * second + cur mod second" using since_midnight [OF assms(1,2)] by (simp add: e_def)
  have "0 \<le> e" "e < 59999 * day_seconds" using assms(3-5) start_clock [of loc start] by (auto simp: e_def)
  with frac_bounds [of cur] have "0 \<le> e * second + cur mod second" "e * second + cur mod second < 60000 * (24 * hour)" by (simp_all add: second_def hour_def)
  moreover have "(e * second + cur mod second) div (24 * hour) = e div day_seconds"
  proof -
    have day: "24 * hour = second * day_seconds" by (simp add: hour_def)
    have "(e * second + cur mod second) div second = e" by (rule div_in_span) (use frac_bounds [of cur] in \<open>simp_all add: second_def\<close>)
    then show ?thesis using zdiv_zmult2_eq [of day_seconds "e * second + cur mod second" second] by (simp add: day del: mult_numeral_left)
  qed
  ultimately show ?thesis using elapsed_days_exact unfolding d e_def by simp
qed

lemma weekly_include:
  assumes "rs_frequency s = ''WEEKLY''" "midnight_exists loc (rs_start s)" "local_seconds loc cur = local_seconds loc (rs_start s) + k * day_seconds" "k < max_offset"
    "e = (k * day_seconds + local_clock loc (rs_start s) - offset_gain loc (rs_start s) cur) div day_seconds" "0 \<le> e" "\<bar>offset_gain loc (rs_start s) cur\<bar> < 2 * day_seconds"
  shows "includeOccurrence s loc k cur \<longleftrightarrow> local_weekday loc cur \<in> set (rs_by_weekday s) \<and> (rs_interval s \<le> 1 \<or> e div 7 mod rs_interval s = 0)"
proof -
  have "0 \<le> k * day_seconds + local_clock loc (rs_start s) - offset_gain loc (rs_start s) cur" using assms(5,6) by (simp add: pos_imp_zdiv_nonneg_iff)
  from elapsed_since_midnight [OF assms(2,3) this] assms(4-7) have "elapsed_days (cur - local_midnight loc (rs_start s)) = e" by (simp add: max_offset_def)
  with assms(1,6) show ?thesis by (auto simp: includeOccurrence_def Let_def trunc_div_nonneg)
qed

text \<open>
   A weekly rule counts weeks from the start's date: at a wall clock from one in the morning to eleven at night, a day is taken exactly when its weekday is one of the rule's and the number of whole weeks since the
  start is a multiple of the interval, in whatever season -- the float64 division notwithstanding.
\<close>

theorem weekly_interval_exact:
  assumes "rs_frequency s = ''WEEKLY''" "midnight_exists loc (rs_start s)" "local_seconds loc cur = local_seconds loc (rs_start s) + k * day_seconds"
    "0 \<le> k" "k < max_offset" "3600 \<le> local_clock loc (rs_start s)" "local_clock loc (rs_start s) < 82800" "\<bar>offset_gain loc (rs_start s) cur\<bar> \<le> 3600"
  shows "includeOccurrence s loc k cur \<longleftrightarrow>
    (local_day loc (rs_start s) + k + 4) mod 7 \<in> set (rs_by_weekday s) \<and> (rs_interval s \<le> 1 \<or> k div 7 mod rs_interval s = 0)"
proof -
  have e: "(k * day_seconds + local_clock loc (rs_start s) - offset_gain loc (rs_start s) cur) div day_seconds = k"
    by (rule div_in_span) (use assms(6-8) in auto)
  have "local_day loc cur = local_day loc (rs_start s) + k" unfolding local_day_def assms(3) by simp
  with weekly_include [OF assms(1-3,5) e [symmetric] assms(4)] assms(8) show ?thesis by (simp add: local_weekday_def add.commute)
qed

text \<open>
  C36.  In the hour after midnight the count slips: once the clocks have gone forward since the start, the day that is a number of weeks after the start counts as the week before, so a rule for every second week
  takes the odd weeks and drops the even ones.
\<close>

theorem after_midnight_weeks_slip:
  assumes "rs_frequency s = ''WEEKLY''" "midnight_exists loc (rs_start s)" "local_seconds loc cur = local_seconds loc (rs_start s) + 7 * j * day_seconds"
    "0 < j" "7 * j < max_offset" "local_clock loc (rs_start s) < 3600" "offset_gain loc (rs_start s) cur = 3600"
  shows "includeOccurrence s loc (7 * j) cur \<longleftrightarrow> local_weekday loc (rs_start s) \<in> set (rs_by_weekday s) \<and> (rs_interval s \<le> 1 \<or> (j - 1) mod rs_interval s = 0)"
proof -
  have e: "(7 * j * day_seconds + local_clock loc (rs_start s) - offset_gain loc (rs_start s) cur) div day_seconds = 7 * j - 1"
    by (rule div_in_span) (use assms(6,7) start_clock [of loc "rs_start s"] in auto)
  have "(7 * j - 1) div 7 = j - 1" by simp
  moreover have "local_day loc cur = local_day loc (rs_start s) + 7 * j" unfolding local_day_def assms(3) by simp
  then have "local_weekday loc cur = local_weekday loc (rs_start s)" 
    using mod_mult_self2 [of "local_day loc (rs_start s) + 4" 7 j] by (simp add: local_weekday_def ac_simps)
  ultimately show ?thesis using weekly_include [OF assms(1-3,5) e [symmetric]] assms(4,7) by simp
qed

definition ex_weekly :: "int \<Rightarrow> Spec" where
  "ex_weekly start = \<lparr>rs_frequency = ''WEEKLY'', rs_interval = 2, rs_by_weekday = [5], rs_count = 0, rs_until = None, rs_start = start * second, rs_timezone = ''ex''\<rparr>"

theorem weekly_interval_exact_witness:
  "includeOccurrence (ex_weekly 16470000) ex_zone 14 (17676000 * second) \<and> \<not> includeOccurrence (ex_weekly 16470000) ex_zone 21 (18280800 * second)"
proof -
  have at: "rs_frequency (ex_weekly 16470000) = ''WEEKLY''" "midnight_exists ex_zone (rs_start (ex_weekly 16470000))"
    "local_seconds ex_zone (17676000 * second) = local_seconds ex_zone (rs_start (ex_weekly 16470000)) + 14 * day_seconds"
    "local_seconds ex_zone (18280800 * second) = local_seconds ex_zone (rs_start (ex_weekly 16470000)) + 21 * day_seconds"
    "3600 \<le> local_clock ex_zone (rs_start (ex_weekly 16470000))" "local_clock ex_zone (rs_start (ex_weekly 16470000)) < 82800"
    "\<bar>offset_gain ex_zone (rs_start (ex_weekly 16470000)) (17676000 * second)\<bar> \<le> 3600"
    "\<bar>offset_gain ex_zone (rs_start (ex_weekly 16470000)) (18280800 * second)\<bar> \<le> 3600"
    "local_day ex_zone (rs_start (ex_weekly 16470000)) = 190"
    by code_simp+
  from weekly_interval_exact [OF at(1-3) _ _ at(5-7)] weekly_interval_exact [OF at(1,2,4) _ _ at(5,6,8)] show ?thesis
    by (simp add: at(9) max_offset_def) (simp add: ex_weekly_def)
qed

theorem after_midnight_weeks_slip_witness:
  "\<not> includeOccurrence (ex_weekly 16439400) ex_zone (7 * 2) (17645400 * second) \<and> includeOccurrence (ex_weekly 16439400) ex_zone (7 * 3) (18250200 * second)"
proof -
  have at: "rs_frequency (ex_weekly 16439400) = ''WEEKLY''" "midnight_exists ex_zone (rs_start (ex_weekly 16439400))"
    "local_seconds ex_zone (17645400 * second) = local_seconds ex_zone (rs_start (ex_weekly 16439400)) + 7 * 2 * day_seconds"
    "local_seconds ex_zone (18250200 * second) = local_seconds ex_zone (rs_start (ex_weekly 16439400)) + 7 * 3 * day_seconds"
    "local_clock ex_zone (rs_start (ex_weekly 16439400)) < 3600"
    "offset_gain ex_zone (rs_start (ex_weekly 16439400)) (17645400 * second) = 3600"
    "offset_gain ex_zone (rs_start (ex_weekly 16439400)) (18250200 * second) = 3600"
    "local_weekday ex_zone (rs_start (ex_weekly 16439400)) = 5"
    by code_simp+
  from after_midnight_weeks_slip [OF at(1-3) _ _ at(5,6)] after_midnight_weeks_slip [OF at(1,2,4) _ _ at(5,7)] show ?thesis
    by (simp add: at(8) max_offset_def) (simp add: ex_weekly_def)
qed

section \<open>Parsed rules\<close>

definition rule_ok :: "Spec \<Rightarrow> bool" where
  "rule_ok s \<longleftrightarrow> rs_frequency s \<in> {[], ''DAILY'', ''WEEKLY''} \<and> 1 \<le> rs_interval s \<and> rs_interval s \<le> 30 \<and> 0 \<le> rs_count s \<and> rs_count s \<le> 366 \<and>
     (\<forall>d \<in> set (rs_by_weekday s). 0 \<le> d \<and> d \<le> 6)"

lemma weekdays_range: "weekdays ds = Inr wds \<Longrightarrow> \<forall>d \<in> set wds. 0 \<le> d \<and> d \<le> 6"
  by (induction ds arbitrary: wds) (auto simp: weekday_def split: sum.splits if_splits)

lemma rrule_value_ok:
  assumes "rrule_value k v s = Inr s'" "rule_ok s"
  shows "rule_ok s' \<and> rs_start s' = rs_start s \<and> rs_timezone s' = rs_timezone s"
  using assms by (auto simp: rrule_value_def rule_ok_def dest!: weekdays_range split: if_splits option.splits sum.splits)

lemma rrule_clauses_ok:
  assumes "rrule_clauses parts seen s = Inr s'" "rule_ok s"
  shows "rule_ok s' \<and> rs_start s' = rs_start s \<and> rs_timezone s' = rs_timezone s"
  using assms
proof (induction parts seen s rule: rrule_clauses.induct)
  case (2 part parts seen s)
  from 2(2) obtain i s1 where "index_str part ''='' = Some i" "to_upper (take i part) \<notin> seen" "rrule_value (to_upper (take i part)) (to_upper (drop (i + 1) part)) s = Inr s1"
    "rrule_clauses parts (insert (to_upper (take i part)) seen) s1 = Inr s'"
    by (auto simp: Let_def split: option.splits if_splits sum.splits)
  with 2(1) [of i] rrule_value_ok [of _ _ s s1] 2(3) show ?case by auto
qed simp

text \<open>
  A parsed rule is well formed: it happens once when the text is empty, else daily without weekdays or weekly with at least one weekday; interval and count are within their limits, and the
  start and the zone are those given, a zone that can be loaded.
\<close>

theorem Parse_wellformed:
  assumes "Parse load rule zone start end_at = Inr s"
  shows "(if rule = [] then rs_frequency s = ''ONCE'' else rs_frequency s = ''DAILY'' \<and> rs_by_weekday s = [] \<or> rs_frequency s = ''WEEKLY'' \<and> rs_by_weekday s \<noteq> []) \<and>
    (\<forall>d \<in> set (rs_by_weekday s). 0 \<le> d \<and> d \<le> 6) \<and> 1 \<le> rs_interval s \<and> rs_interval s \<le> 30 \<and> 0 \<le> rs_count s \<and> rs_count s \<le> 366 \<and>
    rs_start s = start \<and> rs_timezone s = zone \<and> load zone \<noteq> None"
proof (cases "rule = []")
  case True
  with assms show ?thesis by (auto simp: Parse_def Let_def split: option.splits)
next
  case False
  let ?s0 = "\<lparr>rs_frequency = [], rs_interval = 1, rs_by_weekday = [], rs_count = 0, rs_until = None, rs_start = start, rs_timezone = zone\<rparr>"
  from assms False obtain loc s1 where loc: "load zone = Some loc" and s1: "rrule_clauses (split_on '';'' rule) {} ?s0 = Inr s1"
    by (auto simp: Parse_def Let_def split: option.splits sum.splits)
  have ok: "rule_ok s1 \<and> rs_start s1 = start \<and> rs_timezone s1 = zone" using rrule_clauses_ok [OF s1] by (simp add: rule_ok_def)
  have "0 \<le> local_weekday loc start \<and> local_weekday loc start \<le> 6" by (simp add: local_weekday_def)
  with assms False loc s1 ok show ?thesis by (auto simp: Parse_def Let_def rule_ok_def split: if_splits)
qed

theorem Parse_wellformed_witness:
  "\<exists>s. Parse (\<lambda>_. Some ex_zone) ''FREQ=WEEKLY;INTERVAL=2;COUNT=3'' ''ex'' (16439400 * second) None = Inr s \<and> rs_frequency s = ''WEEKLY'' \<and> rs_by_weekday s \<noteq> [] \<and> rs_interval s \<le> 30"
proof -
  have "Parse (\<lambda>_. Some ex_zone) ''FREQ=WEEKLY;INTERVAL=2;COUNT=3'' ''ex'' (16439400 * second) None = Inr (ex_weekly 16439400\<lparr>rs_count := 3\<rparr>)" by code_simp
  from this Parse_wellformed [OF this] show ?thesis by (auto simp: ex_weekly_def)
qed

end
