(* ===== verification/Tasks_Materialize_Props.thy ===== *)
theory Tasks_Materialize_Props
  imports Tasks_Materialize Tasks_Recurrence_Props "HOL-Library.Sublist"
begin

text \<open>
  What the materializer promises: an occurrence is stored once however many workers and passes store it, a pass that succeeds has stored every occurrence up to its horizon, and the
  lease of a tenant belongs to one worker at a time.
\<close>

section \<open>A farther horizon\<close>

lemma prefix_takeWhile: "\<forall>x. P x \<longrightarrow> Q x \<Longrightarrow> prefix (takeWhile P xs) (takeWhile Q xs)"
  by (induction xs) auto

lemma prefix_filter: "prefix xs ys \<Longrightarrow> prefix (filter P xs) (filter P ys)"
  by (auto simp: prefix_def)

lemma prefix_take: "prefix xs ys \<Longrightarrow> prefix (take n xs) (take n ys)"
  by (auto simp: prefix_def)

lemma prefix_cut: "prefix xs ys \<Longrightarrow> prefix (cut_count s n xs) (cut_count s n ys)"
  by (simp add: cut_count_def Let_def prefix_take)

lemma Occurrences_prefix:
  assumes "h \<le> h'"
  shows "prefix (Occurrences load s h) (Occurrences load s h')"
proof (cases "load (rs_timezone s)")
  case (Some loc)
  have "prefix (selected s loc h xs) (selected s loc h' xs)" for xs
    unfolding selected_def using assms by (intro prefix_filter prefix_takeWhile) (auto simp: in_time_def)
  then show ?thesis by (simp add: Occurrences_def Some scan_days_listing map_mono_prefix prefix_cut)
qed (simp add: Occurrences_def)

section \<open>Stored once\<close>

text \<open>
  What others do between the statements: they keep the unique index and do not delete occurrences.
\<close>

definition tame :: "(schedule_db \<Rightarrow> schedule_db) \<Rightarrow> bool" where
  "tame f \<longleftrightarrow> (\<forall>db. unique_key occurrence_key (sd_occurrences db) \<longrightarrow> unique_key occurrence_key (sd_occurrences (f db)) \<and>
     keys occurrence_key (sd_occurrences db) \<subseteq> keys occurrence_key (sd_occurrences (f db)))"

definition tame_env :: "pass_env \<Rightarrow> bool" where
  "tame_env env \<longleftrightarrow> (\<forall>i. tame (pe_before_claim env i) \<and> tame (pe_before_read env i)) \<and> (\<forall>i t. tame (pe_before_insert env i t))"

abbreviation stored :: "schedule_db \<Rightarrow> (uuid \<times> uuid \<times> time) set" where
  "stored db \<equiv> keys occurrence_key (sd_occurrences db)"

abbreviation single :: "schedule_db \<Rightarrow> bool" where
  "single db \<equiv> unique_key occurrence_key (sd_occurrences db)"

lemma tameD: "tame f \<Longrightarrow> single db \<Longrightarrow> single (f db) \<and> stored db \<subseteq> stored (f db)"
  by (simp add: tame_def)

lemma new_occurrence_key [simp]: "occurrence_key (new_occurrence i sc t db) = (ts_tenant sc, ts_id sc, t)"
  by (simp add: occurrence_key_def new_occurrence_def Let_def)

text \<open>The insert is that of a ledger.\<close>

lemma insert_occurrence_ledger:
  assumes "insert_occurrence i sc t db = Inr (x, db')"
  shows "db' = db\<lparr>sd_occurrences := fst (insert_do_nothing occurrence_key (new_occurrence i sc t db) (sd_occurrences db))\<rparr>"
  using assms by (auto simp: insert_occurrence_def insert_do_nothing_cases Let_def split: if_splits)

lemma insert_statement:
  assumes "commit_tx SeLost commit (insert_occurrence i sc t) db = (res, db')"
  shows "single db \<Longrightarrow> single db' \<and> stored db \<subseteq> stored db'" "res = Inr u \<Longrightarrow> (ts_tenant sc, ts_id sc, t) \<in> stored db'"
    "sd_schedules db' = sd_schedules db" "sd_leases db' = sd_leases db"
  using assms by (auto elim!: commit_tx_cases dest!: insert_occurrence_ledger simp: do_nothing.ins_keys intro: do_nothing.ins_unique)

lemma insert_all_keeps:
  assumes "insert_all env sc ts db = (res, db')" "tame_env env" "single db"
  shows "single db' \<and> stored db \<subseteq> stored db'"
  using assms(1,3)
proof (induction ts arbitrary: db)
  case (Cons t ts)
  let ?db = "pe_before_insert env (ts_id sc) t db"
  obtain r d where step: "commit_tx SeLost (pe_insert env (ts_id sc) t) (insert_occurrence (pe_new_id env (ts_id sc) t) sc t) ?db = (r, d)" by (meson prod.exhaust)
  have "single ?db \<and> stored db \<subseteq> stored ?db" using assms(2) Cons.prems(2) by (intro tameD) (simp_all add: tame_env_def)
  with insert_statement(1) [OF step] have "single d" "stored db \<subseteq> stored d" by auto
  with Cons.IH [of d] Cons.prems(1) step show ?case by (cases r) auto
qed simp

lemma insert_all_stores:
  assumes "insert_all env sc ts db = (Inr u, db')" "tame_env env" "single db" "t \<in> set ts"
  shows "(ts_tenant sc, ts_id sc, t) \<in> stored db'"
  using assms(1,3,4)
proof (induction ts arbitrary: db)
  case (Cons t' ts)
  let ?db = "pe_before_insert env (ts_id sc) t' db"
  obtain r d where step: "commit_tx SeLost (pe_insert env (ts_id sc) t') (insert_occurrence (pe_new_id env (ts_id sc) t') sc t') ?db = (r, d)" by (meson prod.exhaust)
  with Cons.prems(1) obtain v where r: "r = Inr v" and rest: "insert_all env sc ts d = (Inr u, db')" by (auto split: sum.splits)
  have "single ?db" using assms(2) Cons.prems(2) tameD by (simp add: tame_env_def)
  with insert_statement(1,2) [OF step] r have "single d" "(ts_tenant sc, ts_id sc, t') \<in> stored d" by auto
  with Cons.IH [OF rest] Cons.prems(3) insert_all_keeps [OF rest assms(2)] show ?case by auto
qed simp

lemma materializeSchedule_keeps:
  assumes "materializeSchedule load w env tenant i db = (res, db')" "tame_env env" "single db"
  shows "single db' \<and> stored db \<subseteq> stored db'"
proof -
  have read: "single (pe_before_read env i db) \<and> stored db \<subseteq> stored (pe_before_read env i db)" using assms(2,3) by (intro tameD) (simp_all add: tame_env_def)
  with assms(1) insert_all_keeps [OF _ assms(2)] show ?thesis
    unfolding materializeSchedule_def Let_def by (fastforce split: option.splits sum.splits)
qed

lemma claim_keeps: "claim now owner tenant db = Inr (ok, db') \<Longrightarrow> ok \<and> sd_occurrences db' = sd_occurrences db \<and> sd_schedules db' = sd_schedules db"
  by (auto simp: claim_def Let_def split: option.splits if_splits)

lemma materialize_list_keeps:
  assumes "materialize_list load w env items db = (res, db')" "tame_env env" "single db"
  shows "single db' \<and> stored db \<subseteq> stored db'"
  using assms(1,3)
proof (induction items arbitrary: db)
  case (Cons x items)
  obtain tenant i where x: "x = (tenant, i)" by (cases x)
  let ?db = "pe_before_claim env i db"
  have before: "single ?db \<and> stored db \<subseteq> stored ?db" using assms(2) Cons.prems(2) by (intro tameD) (simp_all add: tame_env_def)
  show ?case
  proof (cases "claim (pe_claim_at env i) (mz_owner w) tenant ?db")
    case (Inl e)
    with Cons.prems(1) Cons.IH [of ?db] before x show ?thesis by (cases e) auto
  next
    case (Inr y)
    obtain ok d1 where y: "y = (ok, d1)" by (cases y)
    note kept = claim_keeps [OF Inr [unfolded y]]
    obtain r d2 where m: "materializeSchedule load w env tenant i d1 = (r, d2)" by (meson prod.exhaust)
    from materializeSchedule_keeps [OF m assms(2)] kept before have d2: "single d2" "stored db \<subseteq> stored d2" by auto
    with Cons.prems(1) Cons.IH [of d2] x Inr y m kept show ?thesis by (cases r) auto
  qed
qed simp

text \<open>
  C18.  Every occurrence is stored once.  Whatever other processes do between its statements -- store occurrences too, change schedules, take leases -- short of deleting occurrences,
  materializing a schedule leaves one row per occurrence and, when it succeeds, a row for every instant of the schedule's rule up to the horizon; what was stored stays.
\<close>

theorem schedule_stored_once:
  assumes "materializeSchedule load w env tenant i db = (res, db')" "tame_env env" "unique_key occurrence_key (sd_occurrences db)"
  shows "unique_key occurrence_key (sd_occurrences db') \<and> keys occurrence_key (sd_occurrences db) \<subseteq> keys occurrence_key (sd_occurrences db') \<and>
    (\<forall>sc spec t. List.find (\<lambda>s. ts_tenant s = tenant \<and> ts_id s = i \<and> ts_enabled s) (sd_schedules (pe_before_read env i db)) = Some sc \<longrightarrow>
      Parse load (schedule_rule sc) (ts_timezone sc) (ts_start sc) (ts_end sc) = Inr spec \<longrightarrow> res = Inr () \<longrightarrow>
      t \<in> set (Occurrences load spec (pe_now env i + mz_horizon w)) \<longrightarrow> (tenant, i, t) \<in> keys occurrence_key (sd_occurrences db'))"
proof (intro conjI allI impI)
  fix sc spec t
  assume sc: "List.find (\<lambda>s. ts_tenant s = tenant \<and> ts_id s = i \<and> ts_enabled s) (sd_schedules (pe_before_read env i db)) = Some sc"
    and spec: "Parse load (schedule_rule sc) (ts_timezone sc) (ts_start sc) (ts_end sc) = Inr spec" and res: "res = Inr ()"
    and t: "t \<in> set (Occurrences load spec (pe_now env i + mz_horizon w))"
  have "single (pe_before_read env i db)" using assms(2,3) tameD by (simp add: tame_env_def)
  moreover have "insert_all env sc (Occurrences load spec (pe_now env i + mz_horizon w)) (pe_before_read env i db) = (Inr (), db')"
    using assms(1) sc spec res by (simp add: materializeSchedule_def Let_def)
  ultimately have "(ts_tenant sc, ts_id sc, t) \<in> stored db'" using t assms(2) by (intro insert_all_stores) auto
  with find_Some_in [OF sc] show "(tenant, i, t) \<in> stored db'" by auto
qed (use materializeSchedule_keeps [OF assms] in auto)

section \<open>A whole pass\<close>

definition schedule_key :: "TaskSchedule \<Rightarrow> uuid \<times> uuid" where
  "schedule_key sc = (ts_tenant sc, ts_id sc)"

text \<open>The lease of a schedule's tenant is the worker's, expired when the pass comes to the schedule, or not there.\<close>

definition lease_open :: "string \<Rightarrow> time \<Rightarrow> uuid \<Rightarrow> schedule_db \<Rightarrow> bool" where
  "lease_open owner now tenant db \<longleftrightarrow> tenant \<in> set (sd_tenants db) \<and> (\<forall>l \<in> set (sd_leases db). ml_tenant l = tenant \<longrightarrow> ml_owner l = owner \<or> ml_until l < now)"

text \<open>What the pass needs of the tables when it comes to a schedule.\<close>

definition ready :: "string \<Rightarrow> time \<Rightarrow> TaskSchedule \<Rightarrow> schedule_db \<Rightarrow> bool" where
  "ready owner now sc db \<longleftrightarrow> unique_key schedule_key (sd_schedules db) \<and> sc \<in> set (sd_schedules db) \<and> lease_open owner now (ts_tenant sc) db"

text \<open>
  What others do during the pass: they store occurrences, work on other tenants and change anything else, but do not edit this schedule or take the lease of its tenant.
\<close>

definition spares :: "string \<Rightarrow> time \<Rightarrow> TaskSchedule \<Rightarrow> (schedule_db \<Rightarrow> schedule_db) \<Rightarrow> bool" where
  "spares owner now sc f \<longleftrightarrow> tame f \<and> (\<forall>db. ready owner now sc db \<longrightarrow> ready owner now sc (f db))"

definition spares_env :: "string \<Rightarrow> TaskSchedule \<Rightarrow> pass_env \<Rightarrow> bool" where
  "spares_env owner sc env \<longleftrightarrow> (let now = pe_claim_at env (ts_id sc) in
     (\<forall>i. spares owner now sc (pe_before_claim env i) \<and> spares owner now sc (pe_before_read env i)) \<and>
     (\<forall>i t. spares owner now sc (pe_before_insert env i t)))"

lemma spares_tame: "spares_env owner sc env \<Longrightarrow> tame_env env"
  by (simp add: spares_env_def spares_def tame_env_def Let_def)

lemma sparesD:
  assumes "spares_env owner sc env" "ready owner (pe_claim_at env (ts_id sc)) sc db"
  shows "ready owner (pe_claim_at env (ts_id sc)) sc (pe_before_claim env i db)" "ready owner (pe_claim_at env (ts_id sc)) sc (pe_before_read env i db)"
    "ready owner (pe_claim_at env (ts_id sc)) sc (pe_before_insert env i t db)"
  using assms by (simp_all add: spares_env_def spares_def Let_def)

lemma ready_tables:
  "sd_schedules db' = sd_schedules db \<Longrightarrow> sd_leases db' = sd_leases db \<Longrightarrow> sd_tenants db' = sd_tenants db \<Longrightarrow> ready owner now sc db' = ready owner now sc db"
  by (simp add: ready_def lease_open_def)

lemma insert_statement_tables:
  assumes "commit_tx SeLost commit (insert_occurrence i sc t) db = (res, db')"
  shows "sd_schedules db' = sd_schedules db \<and> sd_leases db' = sd_leases db \<and> sd_tenants db' = sd_tenants db"
  using assms by (auto elim!: commit_tx_cases dest!: insert_occurrence_ledger)

lemma insert_all_ready:
  assumes "insert_all env sc' ts db = (res, db')" "spares_env owner sc env" "ready owner (pe_claim_at env (ts_id sc)) sc db"
  shows "ready owner (pe_claim_at env (ts_id sc)) sc db'"
  using assms(1,3)
proof (induction ts arbitrary: db)
  case (Cons t ts)
  let ?db = "pe_before_insert env (ts_id sc') t db"
  obtain r d where step: "commit_tx SeLost (pe_insert env (ts_id sc') t) (insert_occurrence (pe_new_id env (ts_id sc') t) sc' t) ?db = (r, d)" by (meson prod.exhaust)
  have "ready owner (pe_claim_at env (ts_id sc)) sc d"
    using insert_statement_tables [OF step] sparesD(3) [OF assms(2) Cons.prems(2)] ready_tables [of d ?db] by simp
  with Cons.IH [of d] Cons.prems step show ?case by (cases r) auto
qed simp

lemma materializeSchedule_ready:
  assumes "materializeSchedule load w env tenant i db = (res, db')" "spares_env owner sc env" "ready owner (pe_claim_at env (ts_id sc)) sc db"
  shows "ready owner (pe_claim_at env (ts_id sc)) sc db'"
  using assms(1) insert_all_ready [OF _ assms(2) sparesD(2) [OF assms(2,3)]] sparesD(2) [OF assms(2,3)]
  unfolding materializeSchedule_def Let_def by (auto split: option.splits sum.splits)

lemma claim_open:
  assumes "lease_open owner now tenant db"
  shows "\<exists>db'. claim now owner tenant db = Inr (True, db')"
proof (cases "List.find (\<lambda>l. ml_tenant l = tenant) (sd_leases db)")
  case (Some l)
  from find_Some_in [OF this] assms have "ml_owner l = owner \<or> ml_until l < now" by (auto simp: lease_open_def)
  with Some show ?thesis by (auto simp: claim_def Let_def)
qed (use assms in \<open>simp add: claim_def lease_open_def\<close>)

lemma claim_ready:
  assumes "claim now owner tenant db = Inr (ok, db')" "ready owner now' sc db"
  shows "ready owner now' sc db'"
  using assms by (auto simp: claim_def Let_def ready_def lease_open_def in_update_where split: option.splits if_splits)

text \<open>A successful step of a pass.\<close>

lemma materialize_list_Cons:
  assumes "materialize_list load w env ((tenant, i) # items) db = (Inr u, db')"
  obtains (skip) "claim (pe_claim_at env i) (mz_owner w) tenant (pe_before_claim env i db) = Inl SeNoRows"
      "materialize_list load w env items (pe_before_claim env i db) = (Inr u, db')"
  | (run) d1 d2 where "claim (pe_claim_at env i) (mz_owner w) tenant (pe_before_claim env i db) = Inr (True, d1)"
      "materializeSchedule load w env tenant i d1 = (Inr (), d2)" "materialize_list load w env items d2 = (Inr u, db')"
proof (cases "claim (pe_claim_at env i) (mz_owner w) tenant (pe_before_claim env i db)")
  case (Inl e)
  with assms show ?thesis by (intro that(1)) (cases e; simp)+
next
  case (Inr y)
  obtain ok d1 where y: "y = (ok, d1)" by (cases y)
  note kept = claim_keeps [OF Inr [unfolded y]]
  obtain r d2 where m: "materializeSchedule load w env tenant i d1 = (r, d2)" by (meson prod.exhaust)
  from assms Inr y kept m have "r = Inr ()" "materialize_list load w env items d2 = (Inr u, db')" by (auto split: sum.splits)
  with Inr y kept m show ?thesis by (intro that(2) [of d1 d2]) simp_all
qed

lemma ready_found:
  assumes "ready owner now sc db" "ts_enabled sc"
  shows "List.find (\<lambda>s. ts_tenant s = ts_tenant sc \<and> ts_id s = ts_id sc \<and> ts_enabled s) (sd_schedules db) = Some sc"
  using assms unique_key_eq [of schedule_key "sd_schedules db" _ sc]
  by (cases "List.find (\<lambda>s. ts_tenant s = ts_tenant sc \<and> ts_id s = ts_id sc \<and> ts_enabled s) (sd_schedules db)")
    (auto simp: ready_def find_None_iff schedule_key_def dest!: find_Some_in)

lemma materializeSchedule_stores:
  assumes "materializeSchedule load w env (ts_tenant sc) (ts_id sc) db = (Inr u, db')" "spares_env owner sc env" "single db"
    "ready owner (pe_claim_at env (ts_id sc)) sc db" "ts_enabled sc" "Parse load (schedule_rule sc) (ts_timezone sc) (ts_start sc) (ts_end sc) = Inr spec"
    "t \<in> set (Occurrences load spec (pe_now env (ts_id sc) + mz_horizon w))"
  shows "(ts_tenant sc, ts_id sc, t) \<in> stored db'"
proof -
  let ?db = "pe_before_read env (ts_id sc) db"
  have "insert_all env sc (Occurrences load spec (pe_now env (ts_id sc) + mz_horizon w)) ?db = (Inr u, db')"
    using assms(1,6) ready_found [OF sparesD(2) [OF assms(2,4)] assms(5)] by (simp add: materializeSchedule_def)
  moreover have "single ?db" using tameD spares_tame [OF assms(2)] assms(3) by (simp add: tame_env_def)
  ultimately show ?thesis using insert_all_stores spares_tame [OF assms(2)] assms(7) by blast
qed

lemma materialize_list_stores:
  assumes "materialize_list load w env items db = (Inr u, db')" "spares_env (mz_owner w) sc env" "single db"
    "ready (mz_owner w) (pe_claim_at env (ts_id sc)) sc db" "schedule_key sc \<in> set items" "ts_enabled sc"
    "Parse load (schedule_rule sc) (ts_timezone sc) (ts_start sc) (ts_end sc) = Inr spec" "t \<in> set (Occurrences load spec (pe_now env (ts_id sc) + mz_horizon w))"
  shows "(ts_tenant sc, ts_id sc, t) \<in> stored db'"
  using assms(1,3-5)
proof (induction items arbitrary: db)
  case (Cons x items)
  obtain tenant i where x: "x = (tenant, i)" by (cases x)
  let ?db = "pe_before_claim env i db"
  note tame = spares_tame [OF assms(2)] and d0 = sparesD(1) [OF assms(2) Cons.prems(3), of i]
  have s0: "single ?db" using tameD tame Cons.prems(2) by (simp add: tame_env_def)
  from Cons.prems(1) [unfolded x] show ?case
  proof (cases rule: materialize_list_Cons)
    case skip
    with claim_open d0 Cons.prems(4) x have "schedule_key sc \<in> set items" by (fastforce simp: schedule_key_def ready_def)
    with skip(2) Cons.IH s0 d0 show ?thesis by blast
  next
    case (run d1 d2)
    have d1: "single d1" "ready (mz_owner w) (pe_claim_at env (ts_id sc)) sc d1"
      using s0 claim_keeps [OF run(1)] claim_ready [OF run(1) d0] by simp_all
    have d2: "single d2" "ready (mz_owner w) (pe_claim_at env (ts_id sc)) sc d2"
      using materializeSchedule_keeps [OF run(2) tame d1(1)] materializeSchedule_ready [OF run(2) assms(2) d1(2)] by simp_all
    show ?thesis
    proof (cases "x = schedule_key sc")
      case True
      with x run(2) have "materializeSchedule load w env (ts_tenant sc) (ts_id sc) d1 = (Inr (), d2)" by (simp add: schedule_key_def)
      from materializeSchedule_stores [OF this assms(2) d1 assms(6-8)] materialize_list_keeps [OF run(3) tame d2(1)] show ?thesis by auto
    next
      case False
      with Cons.IH [OF run(3) d2] Cons.prems(4) show ?thesis by auto
    qed
  qed
qed simp

text \<open>
  C19.  A pass that succeeds has stored every occurrence of each schedule it serves: a schedule that is enabled and not retired when the pass lists it, whose rule parses, whose tenant's
  lease the worker can take, and that nobody edits while the pass runs.  Every instant of its rule up to the worker's horizon has its row, whatever else other processes do meanwhile --
  store occurrences, serve other tenants, change other schedules and revisions.
\<close>

theorem pass_stores_all:
  assumes "Materialize load w env db = (Inr u, db')" "spares_env (mz_owner w) sc env" "unique_key occurrence_key (sd_occurrences db)"
    "unique_key schedule_key (sd_schedules db)" "sc \<in> set (sd_schedules db)" "ts_enabled sc" "ts_retired_at sc = None"
    "lease_open (mz_owner w) (pe_claim_at env (ts_id sc)) (ts_tenant sc) db"
    "Parse load (schedule_rule sc) (ts_timezone sc) (ts_start sc) (ts_end sc) = Inr spec" "t \<in> set (Occurrences load spec (pe_now env (ts_id sc) + mz_horizon w))"
  shows "(ts_tenant sc, ts_id sc, t) \<in> keys occurrence_key (sd_occurrences db')"
proof (rule materialize_list_stores [OF assms(1) [unfolded Materialize_def] assms(2,3) _ _ assms(6,9,10)])
  show "ready (mz_owner w) (pe_claim_at env (ts_id sc)) sc db" using assms(4,5,8) by (simp add: ready_def)
  show "schedule_key sc \<in> set (map (\<lambda>s. (ts_tenant s, ts_id s)) (filter (\<lambda>s. ts_enabled s \<and> ts_retired_at s = None) (sd_schedules db)))"
    using assms(5-7) by (auto simp: schedule_key_def)
qed

section \<open>The lease of a tenant\<close>

inductive lease_step :: "string \<Rightarrow> time \<Rightarrow> schedule_db \<Rightarrow> schedule_db \<Rightarrow> bool" where
  claimed: "claim t a tenant db = Inr (ok, db') \<Longrightarrow> lease_step a t db db'"
| elsewhere: "sd_leases db' = sd_leases db \<Longrightarrow> lease_step a t db db'"

definition tenant_lease :: "schedule_db \<Rightarrow> uuid \<Rightarrow> (string \<times> time \<times> MaterializerLease) option" where
  "tenant_lease db tenant = map_option (\<lambda>l. (ml_owner l, ml_until l, l)) (List.find (\<lambda>l. ml_tenant l = tenant) (sd_leases db))"

lemma find_append_rows: "List.find P (xs @ ys) = (case List.find P xs of None \<Rightarrow> List.find P ys | Some x \<Rightarrow> Some x)"
  by (induction xs) auto

lemma find_replaced:
  assumes "k row = a"
  shows "List.find (\<lambda>r. k r = a) (update_where (\<lambda>r. k r = a) (\<lambda>_. row) rows) = map_option (\<lambda>_. row) (List.find (\<lambda>r. k r = a) rows)"
    "b \<noteq> a \<Longrightarrow> List.find (\<lambda>r. k r = b) (update_where (\<lambda>r. k r = a) (\<lambda>_. row) rows) = List.find (\<lambda>r. k r = b) rows"
  using assms by (induction rows) (auto simp: update_where_def)

lemma claim_foreign:
  assumes "claim t a tenant db = Inr (ok, db')" "tenant_lease db k = Some (h, u, l)" "a \<noteq> h" "t < u"
  shows "tenant_lease db' k = Some (h, u, l)"
proof (cases "k = tenant")
  case True
  with assms show ?thesis by (auto simp: claim_def tenant_lease_def Let_def split: option.splits if_splits)
next
  case False
  with assms(1,2) show ?thesis by (auto simp: claim_def tenant_lease_def Let_def find_append_rows find_replaced(2) [of ml_tenant] split: option.splits if_splits)
qed

interpretation ml: leases "\<lambda>_. True" lease_step tenant_lease
proof
  fix a t db db' k h u l
  assume "lease_step a t db db'" "tenant_lease db k = Some (h, u, l)" "a \<noteq> h" "t < u"
  then show "tenant_lease db' k = Some (h, u, l)" 
  proof (cases rule: lease_step.cases)
    case (claimed tenant ok)
    then show ?thesis using \<open>tenant_lease db k = Some (h, u, l)\<close> \<open>a \<noteq> h\<close> \<open>t < u\<close> by (rule claim_foreign)
  qed (simp add: tenant_lease_def)
qed simp

text \<open>A worker that claimed a tenant keeps it from the others until the lease ends.\<close>

lemma tenant_claimed_exclusive:
  assumes "claim t a tenant db = Inr (True, db1)" "others_run lease_step a (t + 30 * second) db1 db2" "t' \<le> t + 30 * second" "b \<noteq> a"
  shows "claim t' b tenant db2 = Inl SeNoRows"
proof -
  have "\<exists>l. tenant_lease db1 tenant = Some (a, t + 30 * second, l)"
  proof (cases "List.find (\<lambda>l. ml_tenant l = tenant) (sd_leases db)")
    case None
    with assms(1) show ?thesis by (auto simp: claim_def tenant_lease_def Let_def find_append_rows split: if_splits)
  next
    case (Some l)
    with assms(1) show ?thesis by (auto simp: claim_def tenant_lease_def Let_def find_replaced(1) [of ml_tenant] split: if_splits)
  qed
  then obtain l where "tenant_lease db1 tenant = Some (a, t + 30 * second, l)" by blast
  from ml.exclusive [OF assms(2) TrueI this] assms(3,4) show ?thesis by (auto simp: claim_def tenant_lease_def Let_def)
qed

section \<open>An example\<close>

definition ex_schedule :: TaskSchedule where
  "ex_schedule = \<lparr>ts_tenant = ''t'', ts_id = ''s'', ts_student = ''k'', ts_revision = ''r'', ts_kind = ''recurrence'', ts_timezone = ''ex'', ts_rrule = ''FREQ=DAILY;COUNT=2'',
     ts_start = 34471800 * second, ts_end = None, ts_due_offset_minutes = 60, ts_version = 1, ts_enabled = True, ts_retired_at = None\<rparr>"

definition ex_schedules :: schedule_db where
  "ex_schedules = \<lparr>sd_tenants = [''t''], sd_students = [(''t'', ''k'')], sd_schedules = [ex_schedule],
     sd_revisions = [\<lparr>tr_tenant = ''t'', tr_id = ''r'', tr_title = ''Read'', tr_instructions = ''Chapter 4'', tr_version = 1\<rparr>], sd_occurrences = [], sd_leases = []\<rparr>"

definition ex_pass :: pass_env where
  "ex_pass = \<lparr>pe_claim_at = (\<lambda>_. 34471800 * second), pe_now = (\<lambda>_. 34471800 * second),
     pe_new_id = (\<lambda>_ t. if t = 34471800 * second then ''o1'' else ''o2''), pe_before_claim = (\<lambda>_ db. db), pe_before_read = (\<lambda>_ db. db),
     pe_before_insert = (\<lambda>_ _ db. db), pe_insert = (\<lambda>_ _. Committed)\<rparr>"

definition ex_materializer :: Materializer where
  "ex_materializer = NewWorker ''w'' (Some 1)"

definition ex_spec :: Spec where
  "ex_spec = \<lparr>rs_frequency = ''DAILY'', rs_interval = 1, rs_by_weekday = [], rs_count = 2, rs_until = None, rs_start = 34471800 * second, rs_timezone = ''ex''\<rparr>"

text \<open>While the pass runs, another process edits the revision of the task and another tenant's lease is taken.\<close>

definition ex_busy :: pass_env where
  "ex_busy = ex_pass\<lparr>pe_before_read := (\<lambda>_ db. db\<lparr>sd_leases := sd_leases db @ [\<lparr>ml_tenant = ''t2'', ml_owner = ''w2'', ml_until = 10\<rparr>]\<rparr>),
     pe_before_insert := (\<lambda>_ _ db. db\<lparr>sd_revisions := map (\<lambda>r. r\<lparr>tr_version := tr_version r + 1\<rparr>) (sd_revisions db)\<rparr>)\<rparr>"

lemma ex_busy_spares: "spares_env ''w'' ex_schedule ex_busy"
  by (auto simp: spares_env_def spares_def tame_def ready_def lease_open_def ex_busy_def ex_pass_def ex_schedule_def Let_def)

lemma ex_pass_tame: "tame_env ex_pass"
  by (simp add: tame_env_def tame_def ex_pass_def)

lemma ex_spec_parsed: "Parse (\<lambda>_. Some ex_zone) (schedule_rule ex_schedule) (ts_timezone ex_schedule) (ts_start ex_schedule) (ts_end ex_schedule) = Inr ex_spec"
  by code_simp

theorem pass_stores_all_witness:
  "(''t'', ''s'', 34471800 * second) \<in> keys occurrence_key (sd_occurrences (snd (Materialize (\<lambda>_. Some ex_zone) ex_materializer ex_busy ex_schedules)))"
proof -
  have ok: "fst (Materialize (\<lambda>_. Some ex_zone) ex_materializer ex_busy ex_schedules) = Inr ()" by code_simp
  have due: "34471800 * second \<in> set (Occurrences (\<lambda>_. Some ex_zone) ex_spec (pe_now ex_busy (ts_id ex_schedule) + mz_horizon ex_materializer))" by code_simp
  have run: "Materialize (\<lambda>_. Some ex_zone) ex_materializer ex_busy ex_schedules =
      (Inr (), snd (Materialize (\<lambda>_. Some ex_zone) ex_materializer ex_busy ex_schedules))"
    unfolding ok [symmetric] by simp
  have "unique_key occurrence_key (sd_occurrences ex_schedules)" "unique_key schedule_key (sd_schedules ex_schedules)" "ex_schedule \<in> set (sd_schedules ex_schedules)"
    "ts_enabled ex_schedule" "ts_retired_at ex_schedule = None" "lease_open (mz_owner ex_materializer) (pe_claim_at ex_busy (ts_id ex_schedule)) (ts_tenant ex_schedule) ex_schedules"
    by (simp_all add: ex_schedules_def unique_key_def lease_open_def ex_schedule_def)
  moreover have "spares_env (mz_owner ex_materializer) ex_schedule ex_busy" using ex_busy_spares by (simp add: ex_materializer_def NewWorker_def)
  ultimately have "(ts_tenant ex_schedule, ts_id ex_schedule, 34471800 * second) \<in>
      keys occurrence_key (sd_occurrences (snd (Materialize (\<lambda>_. Some ex_zone) ex_materializer ex_busy ex_schedules)))"
    using pass_stores_all [OF run _ _ _ _ _ _ _ ex_spec_parsed due] by blast
  then show ?thesis by (simp add: ex_schedule_def)
qed

theorem schedule_stored_once_witness:
  "let db' = snd (materializeSchedule (\<lambda>_. Some ex_zone) ex_materializer ex_pass ''t'' ''s'' ex_schedules) in
   unique_key occurrence_key (sd_occurrences db') \<and> (''t'', ''s'', 34471800 * second) \<in> keys occurrence_key (sd_occurrences db')"
proof -
  have ok: "fst (materializeSchedule (\<lambda>_. Some ex_zone) ex_materializer ex_pass ''t'' ''s'' ex_schedules) = Inr ()" by code_simp
  have run: "materializeSchedule (\<lambda>_. Some ex_zone) ex_materializer ex_pass ''t'' ''s'' ex_schedules =
      (Inr (), snd (materializeSchedule (\<lambda>_. Some ex_zone) ex_materializer ex_pass ''t'' ''s'' ex_schedules))"
    unfolding ok [symmetric] by simp
  have due: "34471800 * second \<in> set (Occurrences (\<lambda>_. Some ex_zone) ex_spec (pe_now ex_pass ''s'' + mz_horizon ex_materializer))" by code_simp
  have found: "List.find (\<lambda>s. ts_tenant s = ''t'' \<and> ts_id s = ''s'' \<and> ts_enabled s) (sd_schedules (pe_before_read ex_pass ''s'' ex_schedules)) = Some ex_schedule"
    by code_simp
  have "unique_key occurrence_key (sd_occurrences ex_schedules)" by (simp add: ex_schedules_def unique_key_def)
  note stored = schedule_stored_once [OF run ex_pass_tame this]
  from stored found ex_spec_parsed due show ?thesis unfolding Let_def by blast
qed

end
