(* ===== verification/Tasks_Agent.thy ===== *)
theory Tasks_Agent
  imports Tables
begin

text \<open>
  The durable state of the parent agent in the tasks service (\<^verbatim>\<open>primer-tasks/internal/agent/model.go\<close> and \<^verbatim>\<open>repository.go\<close>): conversations, messages, runs and their
  transitions, events, and confirmation previews.

  The database's \<^verbatim>\<open>now()\<close>, the rows other transactions hold locked and the outcome of a commit are arguments.  A lease owner that is \<^verbatim>\<open>NULL\<close> is the empty string, as the code reads
  it.  What a \<^verbatim>\<open>jsonb\<close> column keeps of the bytes written to it (nothing when they are not JSON) and the SHA-256 digest in hexadecimal are arguments.  A Go \<^verbatim>\<open>time.Time\<close> is never \<^verbatim>\<open>NULL\<close>,
  so \<^verbatim>\<open>COALESCE(created_at, now())\<close> stores what it is given.
\<close>

section \<open>Data\<close>

datatype ConversationStatus = ConversationActive | ConversationArchived

datatype MessageRole = RoleUser | RoleAssistant | RoleSystem

datatype RunStatus = RunAwaitingConfirmation | RunQueued | RunRunning | RunCancelRequested | RunSucceeded | RunFailed | RunCanceled

definition Terminal :: "RunStatus \<Rightarrow> bool" where
  "Terminal s \<longleftrightarrow> s = RunSucceeded \<or> s = RunFailed \<or> s = RunCanceled"

record Conversation =
  cv_id :: uuid
  cv_tenant :: uuid
  cv_actor :: string
  cv_status :: ConversationStatus
  cv_policy_version :: string
  cv_created_at :: time
  cv_updated_at :: time

record Message =
  ms_id :: uuid
  ms_tenant :: uuid
  ms_conversation :: uuid
  ms_client_message_id :: string
  ms_role :: MessageRole
  ms_content :: string
  ms_sequence :: int
  ms_created_at :: time

record Usage =
  us_input :: int
  us_output :: int
  us_total :: int
  us_reasoning :: int

record Provenance =
  pv_provider :: string
  pv_model :: string
  pv_policy_version :: string
  pv_prompt_digest :: string

record Run =
  rn_id :: uuid
  rn_tenant :: uuid
  rn_conversation :: uuid
  rn_user_message :: uuid
  rn_status :: RunStatus
  rn_durable_step :: int
  rn_attempt :: int
  rn_max_steps :: int
  rn_max_tokens :: int
  rn_deadline :: time
  rn_lease_owner :: string
  rn_lease_until :: "time option"
  rn_cancel_requested :: bool
  rn_usage :: Usage
  rn_provenance :: Provenance
  rn_created_at :: time
  rn_updated_at :: time

record RunEvent =
  ev_run :: uuid
  ev_tenant :: uuid
  ev_sequence :: int
  ev_type :: string
  ev_payload :: string
  ev_created_at :: time

record ConfirmationPreview =
  cp_id :: uuid
  cp_tenant :: uuid
  cp_actor :: string
  cp_action :: string
  cp_action_digest :: string
  cp_payload :: string
  cp_expires_at :: time
  cp_used_at :: "time option"

datatype agent_error =
    AgInvalidTransition RunStatus RunStatus
  | AgAlreadyTerminal
  | AgNotFound
  | AgPreviewExpired
  | AgInvalid string
  | AgUnique string
  | AgForeignKey string
  | AgCheck string
  | AgNoRows
  | AgOther string

record agent_db =
  ag_tenants :: "uuid list"
  ag_conversations :: "Conversation list"
  ag_messages :: "Message list"
  ag_runs :: "Run list"
  ag_events :: "RunEvent list"
  ag_previews :: "ConfirmationPreview list"

section \<open>The model\<close>

definition ValidateRunLimits :: "Run \<Rightarrow> agent_error option" where
  "ValidateRunLimits r =
     (if rn_max_steps r < 1 \<or> 100 < rn_max_steps r then Some (AgInvalid ''max steps must be between 1 and 100'')
      else if rn_max_tokens r < 1 \<or> 200000 < rn_max_tokens r then Some (AgInvalid ''max tokens must be between 1 and 200000'')
      else if rn_deadline r = zero_time then Some (AgInvalid ''run deadline is required'')
      else None)"

fun CanTransition :: "RunStatus \<Rightarrow> RunStatus \<Rightarrow> bool" where
  "CanTransition RunQueued to = (to = RunRunning \<or> to = RunCancelRequested \<or> to = RunCanceled \<or> to = RunFailed)"
| "CanTransition RunRunning to = (to = RunAwaitingConfirmation \<or> to = RunCancelRequested \<or> to = RunSucceeded \<or> to = RunFailed \<or> to = RunCanceled)"
| "CanTransition RunAwaitingConfirmation to = (to = RunSucceeded \<or> to = RunCanceled \<or> to = RunCancelRequested \<or> to = RunFailed)"
| "CanTransition RunCancelRequested to = (to = RunCanceled \<or> to = RunFailed)"
| "CanTransition _ to = False"

definition ActionDigest :: "(string \<Rightarrow> string) \<Rightarrow> string \<Rightarrow> string \<Rightarrow> string" where
  "ActionDigest sha256_hex action payload = sha256_hex (trim_space action @ [CHR 0x00] @ payload)"

definition ValidatePreview :: "(string \<Rightarrow> string) \<Rightarrow> ConfirmationPreview \<Rightarrow> uuid \<Rightarrow> string \<Rightarrow> string \<Rightarrow> string \<Rightarrow> time \<Rightarrow> agent_error option" where
  "ValidatePreview sha256_hex p tenant actor action payload now =
     (if cp_tenant p \<noteq> tenant \<or> cp_actor p \<noteq> actor \<or> cp_action p \<noteq> action \<or> cp_action_digest p \<noteq> ActionDigest sha256_hex action payload then Some AgPreviewExpired
      else if cp_used_at p \<noteq> None \<or> \<not> now < cp_expires_at p then Some AgPreviewExpired
      else None)"

section \<open>Conversations and messages\<close>

definition CreateConversation :: "Conversation \<Rightarrow> agent_db \<Rightarrow> agent_error + agent_db" where
  "CreateConversation c db =
     (if cv_id c \<in> keys cv_id (ag_conversations db) then Inl (AgUnique ''agent_conversations_pkey'')
      else if cv_tenant c \<notin> set (ag_tenants db) then Inl (AgForeignKey ''agent_conversations_tenant_id_fkey'')
      else Inr (db\<lparr>ag_conversations := ag_conversations db @ [c\<lparr>cv_updated_at := cv_created_at c\<rparr>]\<rparr>))"

definition GetConversation :: "agent_db \<Rightarrow> uuid \<Rightarrow> uuid \<Rightarrow> agent_error + Conversation" where
  "GetConversation db tenant i =
     (case List.find (\<lambda>c. cv_tenant c = tenant \<and> cv_id c = i) (ag_conversations db) of None \<Rightarrow> Inl AgNotFound | Some c \<Rightarrow> Inr c)"

definition client_key :: "Message \<Rightarrow> uuid \<times> uuid \<times> string" where
  "client_key m = (ms_tenant m, ms_conversation m, ms_client_message_id m)"

definition sequence_key :: "Message \<Rightarrow> uuid \<times> uuid \<times> int" where
  "sequence_key m = (ms_tenant m, ms_conversation m, ms_sequence m)"

definition conversation_keys :: "agent_db \<Rightarrow> (uuid \<times> uuid) set" where
  "conversation_keys db = keys (\<lambda>c. (cv_tenant c, cv_id c)) (ag_conversations db)"

definition insert_message :: "Message \<Rightarrow> agent_db \<Rightarrow> agent_error + agent_db" where
  "insert_message m db =
     (if ms_id m \<in> keys ms_id (ag_messages db) then Inl (AgUnique ''agent_messages_pkey'')
      else if client_key m \<in> keys client_key (ag_messages db) then Inl (AgUnique ''agent_messages_client_message_id_key'')
      else if sequence_key m \<in> keys sequence_key (ag_messages db) then Inl (AgUnique ''agent_messages_sequence_key'')
      else if ms_tenant m \<notin> set (ag_tenants db) then Inl (AgForeignKey ''agent_messages_tenant_id_fkey'')
      else if (ms_tenant m, ms_conversation m) \<notin> conversation_keys db then Inl (AgForeignKey ''agent_messages_conversation_tenant_fk'')
      else Inr (db\<lparr>ag_messages := ag_messages db @ [m]\<rparr>))"

text \<open>The message is returned as it was given when it is new, and as it is stored when its client identifier is known.\<close>

definition AppendUserMessage :: "Message \<Rightarrow> agent_db \<Rightarrow> agent_error + ((Message \<times> bool) \<times> agent_db)" where
  "AppendUserMessage m db =
     (case List.find (\<lambda>x. client_key x = client_key m) (ag_messages db) of
        Some x \<Rightarrow> Inr ((x, False), db)
      | None \<Rightarrow> (case insert_message (m\<lparr>ms_role := RoleUser\<rparr>) db of Inl e \<Rightarrow> Inl e | Inr db' \<Rightarrow> Inr ((m, True), db')))"

definition AppendMessage :: "Message \<Rightarrow> agent_db \<Rightarrow> agent_error + agent_db" where
  "AppendMessage m db =
     (if ms_role m = RoleUser then Inl (AgInvalid ''use AppendUserMessage for user messages'') else insert_message m db)"

section \<open>Runs\<close>

definition CreateRun :: "Run \<Rightarrow> agent_db \<Rightarrow> agent_error + agent_db" where
  "CreateRun run db =
     (case ValidateRunLimits run of
        Some e \<Rightarrow> Inl e
      | None \<Rightarrow>
          let row = run\<lparr>rn_lease_owner := [], rn_lease_until := None, rn_cancel_requested := False, rn_updated_at := rn_created_at run\<rparr> in
          if rn_durable_step run < 0 \<or> rn_attempt run < 0 then Inl (AgCheck ''agent_runs'')
          else if rn_id run \<in> keys rn_id (ag_runs db) then Inl (AgUnique ''agent_runs_pkey'')
          else if (rn_tenant run, rn_user_message run) \<in> keys (\<lambda>r. (rn_tenant r, rn_user_message r)) (ag_runs db) then Inl (AgUnique ''agent_run_user_message'')
          else if rn_tenant run \<notin> set (ag_tenants db) then Inl (AgForeignKey ''agent_runs_tenant_id_fkey'')
          else if (rn_tenant run, rn_conversation run) \<notin> conversation_keys db then Inl (AgForeignKey ''agent_runs_conversation_tenant_fk'')
          else if (rn_tenant run, rn_user_message run) \<notin> keys (\<lambda>m. (ms_tenant m, ms_id m)) (ag_messages db) then Inl (AgForeignKey ''agent_runs_message_tenant_fk'')
          else Inr (db\<lparr>ag_runs := ag_runs db @ [row]\<rparr>))"

definition is_run :: "uuid \<Rightarrow> uuid \<Rightarrow> Run \<Rightarrow> bool" where
  "is_run tenant i r \<longleftrightarrow> rn_tenant r = tenant \<and> rn_id r = i"

definition GetRun :: "agent_db \<Rightarrow> uuid \<Rightarrow> uuid \<Rightarrow> agent_error + Run" where
  "GetRun db tenant i = (case List.find (is_run tenant i) (ag_runs db) of None \<Rightarrow> Inl AgNotFound | Some r \<Rightarrow> Inr r)"

definition greatest_usage :: "Usage \<Rightarrow> Usage \<Rightarrow> Usage" where
  "greatest_usage a b = \<lparr>us_input = max (us_input a) (us_input b), us_output = max (us_output a) (us_output b),
     us_total = max (us_total a) (us_total b), us_reasoning = max (us_reasoning a) (us_reasoning b)\<rparr>"

definition moved_run :: "time \<Rightarrow> RunStatus \<Rightarrow> int \<Rightarrow> Usage \<Rightarrow> Run \<Rightarrow> Run" where
  "moved_run now to step u r = r\<lparr>rn_status := to, rn_durable_step := max (rn_durable_step r) step,
     rn_usage := greatest_usage (rn_usage r) u, rn_updated_at := now\<rparr>"

definition TransitionRun :: "commit_outcome \<Rightarrow> time \<Rightarrow> uuid \<Rightarrow> uuid \<Rightarrow> RunStatus \<Rightarrow> int \<Rightarrow> Usage \<Rightarrow> agent_db \<Rightarrow> (agent_error + unit) \<times> agent_db" where
  "TransitionRun commit now tenant i to step u =
     commit_tx AgOther commit (\<lambda>db.
       case List.find (is_run tenant i) (ag_runs db) of
         None \<Rightarrow> Inl AgNotFound
       | Some r \<Rightarrow>
           if Terminal (rn_status r) then Inl AgAlreadyTerminal
           else if \<not> CanTransition (rn_status r) to then Inl (AgInvalidTransition (rn_status r) to)
           else Inr ((), db\<lparr>ag_runs := update_where (is_run tenant i) (moved_run now to step u) (ag_runs db)\<rparr>))"

definition RequestCancel :: "time \<Rightarrow> uuid \<Rightarrow> uuid \<Rightarrow> agent_db \<Rightarrow> agent_db" where
  "RequestCancel now tenant i db =
     db\<lparr>ag_runs := update_where (\<lambda>r. is_run tenant i r \<and> rn_status r \<in> {RunQueued, RunRunning, RunCancelRequested})
       (\<lambda>r. r\<lparr>rn_cancel_requested := True, rn_status := (if rn_status r = RunQueued then RunCancelRequested else rn_status r), rn_updated_at := now\<rparr>) (ag_runs db)\<rparr>"

text \<open>\<^verbatim>\<open>ORDER BY created_at\<close>; runs created at the same instant are taken in the order of their insertion.\<close>

definition leasable :: "time \<Rightarrow> uuid \<Rightarrow> Run \<Rightarrow> bool" where
  "leasable now tenant r \<longleftrightarrow> rn_tenant r = tenant \<and> rn_status r \<in> {RunQueued, RunRunning, RunCancelRequested} \<and>
     (case rn_lease_until r of None \<Rightarrow> True | Some t \<Rightarrow> t < now) \<and> now < rn_deadline r"

definition leased_run :: "time \<Rightarrow> string \<Rightarrow> duration \<Rightarrow> Run \<Rightarrow> Run" where
  "leased_run now owner d r = r\<lparr>rn_lease_owner := owner, rn_lease_until := Some (now + d), rn_attempt := rn_attempt r + 1, rn_updated_at := now\<rparr>"

definition LeaseRun :: "(uuid \<Rightarrow> bool) \<Rightarrow> time \<Rightarrow> uuid \<Rightarrow> string \<Rightarrow> duration \<Rightarrow> agent_db \<Rightarrow> Run option \<times> agent_db" where
  "LeaseRun locked now tenant owner d db =
     (case first_row (sort_key rn_created_at (filter (\<lambda>r. leasable now tenant r \<and> \<not> locked (rn_id r)) (ag_runs db))) of
        None \<Rightarrow> (None, db)
      | Some r \<Rightarrow> (Some (leased_run now owner d r), db\<lparr>ag_runs := update_where (\<lambda>x. rn_id x = rn_id r) (leased_run now owner d) (ag_runs db)\<rparr>))"

definition ReconcileExpiredLeases :: "time \<Rightarrow> agent_db \<Rightarrow> agent_db" where
  "ReconcileExpiredLeases now db =
     db\<lparr>ag_runs := update_where (\<lambda>r. (case rn_lease_until r of None \<Rightarrow> False | Some t \<Rightarrow> t < now) \<and> rn_status r \<in> {RunRunning, RunQueued, RunCancelRequested})
       (\<lambda>r. r\<lparr>rn_lease_owner := [], rn_lease_until := None, rn_status := (if rn_deadline r \<le> now then RunFailed else rn_status r), rn_updated_at := now\<rparr>) (ag_runs db)\<rparr>"

section \<open>Runs, as the API changes them\<close>

text \<open>
  The API changes runs without the repository.  Two of these writes happen in a transaction that has locked a run that is not over (\<^verbatim>\<open>lockAgentAuthority\<close>).  What other tables decide is an argument:
  \<open>parent\<close> and \<open>lease\<close> are the answers of \<^verbatim>\<open>lockAgentParent\<close> with \<^verbatim>\<open>checkDurableAgentAuthorization\<close> and of \<^verbatim>\<open>lockJobLease\<close> (nothing when they admit the request), \<open>member\<close> is whether the actor is
  an administrator of the tenant, and \<open>committed\<close> whether the rest of the transaction, which touches no run, went through.  The write of the model's name has no condition on the run's status.
\<close>

definition run_of_actor :: "agent_db \<Rightarrow> string \<Rightarrow> (Conversation \<Rightarrow> bool) \<Rightarrow> Run \<Rightarrow> bool" where
  "run_of_actor db actor ok r \<longleftrightarrow>
     list_ex (\<lambda>c. cv_tenant c = rn_tenant r \<and> cv_id c = rn_conversation r \<and> cv_actor c = actor \<and> ok c) (ag_conversations db)"

definition lockAgentAuthority :: "agent_error option \<Rightarrow> bool \<Rightarrow> agent_error option \<Rightarrow> time \<Rightarrow> uuid \<Rightarrow> string \<Rightarrow> uuid \<Rightarrow> agent_db \<Rightarrow> agent_error + Run" where
  "lockAgentAuthority parent member lease now tenant actor i db =
     (case parent of
        Some e \<Rightarrow> Inl e
      | None \<Rightarrow>
          (case List.find (\<lambda>r. is_run tenant i r \<and> run_of_actor db actor (\<lambda>c. cv_status c = ConversationActive) r \<and> now < rn_deadline r) (ag_runs db) of
             None \<Rightarrow> Inl (AgInvalid ''invalid service context'')
           | Some r \<Rightarrow>
               if rn_cancel_requested r \<or> \<not> member \<or> rn_status r \<notin> {RunRunning, RunQueued, RunAwaitingConfirmation}
               then Inl (AgInvalid ''invalid service context'')
               else (case lease of Some e \<Rightarrow> Inl e | None \<Rightarrow> Inr r)))"

definition prepare_confirmation :: "agent_error option \<Rightarrow> bool \<Rightarrow> agent_error option \<Rightarrow> bool \<Rightarrow> time \<Rightarrow> uuid \<Rightarrow> string \<Rightarrow> uuid \<Rightarrow> agent_db \<Rightarrow> agent_db" where
  "prepare_confirmation parent member lease committed now tenant actor i db =
     (case lockAgentAuthority parent member lease now tenant actor i db of
        Inl _ \<Rightarrow> db
      | Inr _ \<Rightarrow>
          if committed then db\<lparr>ag_runs := update_where (is_run tenant i) (\<lambda>r. r\<lparr>rn_status := RunAwaitingConfirmation, rn_updated_at := now\<rparr>) (ag_runs db)\<rparr>
          else db)"

definition completeToolEffect :: "time \<Rightarrow> uuid \<Rightarrow> uuid \<Rightarrow> int \<Rightarrow> agent_db \<Rightarrow> agent_db" where
  "completeToolEffect now tenant i step db =
     db\<lparr>ag_runs := update_where (is_run tenant i) (\<lambda>r. r\<lparr>rn_durable_step := max (rn_durable_step r) step, rn_updated_at := now\<rparr>) (ag_runs db)\<rparr>"

definition tool_mutate :: "agent_error option \<Rightarrow> bool \<Rightarrow> agent_error option \<Rightarrow> bool \<Rightarrow> time \<Rightarrow> uuid \<Rightarrow> string \<Rightarrow> uuid \<Rightarrow> int \<Rightarrow> agent_db \<Rightarrow> agent_db" where
  "tool_mutate parent member lease committed now tenant actor i step db =
     (if i = [] then db
      else case lockAgentAuthority parent member lease now tenant actor i db of
        Inl _ \<Rightarrow> db
      | Inr _ \<Rightarrow> if committed then completeToolEffect now tenant i step db else db)"

definition agentCancel :: "agent_error option \<Rightarrow> bool \<Rightarrow> bool \<Rightarrow> time \<Rightarrow> uuid \<Rightarrow> string \<Rightarrow> uuid \<Rightarrow> uuid \<Rightarrow> agent_db \<Rightarrow> agent_db" where
  "agentCancel parent member committed now tenant actor conversation i db =
     (if i = [] \<or> parent \<noteq> None \<or> \<not> committed then db
      else db\<lparr>ag_runs := update_where (\<lambda>r. is_run tenant i r \<and> (conversation = [] \<or> rn_conversation r = conversation) \<and>
             run_of_actor db actor (\<lambda>c. member) r \<and> rn_status r \<in> {RunQueued, RunRunning, RunAwaitingConfirmation, RunCancelRequested})
           (\<lambda>r. r\<lparr>rn_cancel_requested := True, rn_status := RunCanceled, rn_updated_at := now\<rparr>) (ag_runs db)\<rparr>)"

definition record_model :: "time \<Rightarrow> uuid \<Rightarrow> uuid \<Rightarrow> string \<Rightarrow> string \<Rightarrow> agent_db \<Rightarrow> agent_db" where
  "record_model now tenant i provider model db =
     db\<lparr>ag_runs := update_where (is_run tenant i)
       (\<lambda>r. r\<lparr>rn_provenance := (rn_provenance r)\<lparr>pv_provider := provider, pv_model := model\<rparr>, rn_updated_at := now\<rparr>) (ag_runs db)\<rparr>"

section \<open>Events\<close>

definition event_key :: "RunEvent \<Rightarrow> uuid \<times> int" where
  "event_key e = (ev_run e, ev_sequence e)"

definition AppendEvent :: "(string \<Rightarrow> string option) \<Rightarrow> RunEvent \<Rightarrow> agent_db \<Rightarrow> agent_error + agent_db" where
  "AppendEvent jsonb e db =
     (case jsonb (ev_payload e) of
        None \<Rightarrow> Inl (AgOther ''invalid input syntax for type json'')
      | Some payload \<Rightarrow>
          if ev_sequence e \<le> 0 then Inl (AgCheck ''agent_run_events_sequence_check'')
          else if event_key e \<in> keys event_key (ag_events db) then Inr db
          else if ev_tenant e \<notin> set (ag_tenants db) then Inl (AgForeignKey ''agent_run_events_tenant_id_fkey'')
          else if (ev_tenant e, ev_run e) \<notin> keys (\<lambda>r. (rn_tenant r, rn_id r)) (ag_runs db) then Inl (AgForeignKey ''agent_events_run_tenant_fk'')
          else Inr (db\<lparr>ag_events := ag_events db @ [e\<lparr>ev_payload := payload\<rparr>]\<rparr>))"

definition ReplayEvents :: "agent_db \<Rightarrow> uuid \<Rightarrow> uuid \<Rightarrow> int \<Rightarrow> int \<Rightarrow> agent_error + RunEvent list" where
  "ReplayEvents db tenant conversation after limit =
     (if limit < 0 then Inl (AgOther ''LIMIT must not be negative'')
      else Inr (take (nat limit) (sort_key ev_sequence (filter (\<lambda>e. ev_tenant e = tenant \<and> after < ev_sequence e \<and>
        (\<exists>r \<in> set (ag_runs db). rn_id r = ev_run e \<and> rn_tenant r = ev_tenant e \<and> rn_conversation r = conversation)) (ag_events db)))))"

section \<open>Confirmation previews\<close>

definition PutPreview :: "(string \<Rightarrow> string option) \<Rightarrow> time \<Rightarrow> ConfirmationPreview \<Rightarrow> agent_db \<Rightarrow> agent_error + agent_db" where
  "PutPreview jsonb now p db =
     (case jsonb (cp_payload p) of
        None \<Rightarrow> Inl (AgOther ''invalid input syntax for type json'')
      | Some payload \<Rightarrow>
          if length (cp_action_digest p) \<noteq> 64 \<or> \<not> (now < cp_expires_at p \<and> cp_expires_at p \<le> now + 15 * 60 * second) then Inl (AgCheck ''agent_confirmation_previews'')
          else if cp_id p \<in> keys cp_id (ag_previews db) then Inl (AgUnique ''agent_confirmation_previews_pkey'')
          else if cp_tenant p \<notin> set (ag_tenants db) then Inl (AgForeignKey ''agent_confirmation_previews_tenant_id_fkey'')
          else Inr (db\<lparr>ag_previews := ag_previews db @ [p\<lparr>cp_payload := payload, cp_used_at := None\<rparr>]\<rparr>))"

definition consumable :: "ConfirmationPreview \<Rightarrow> time \<Rightarrow> ConfirmationPreview \<Rightarrow> bool" where
  "consumable p now x \<longleftrightarrow> cp_id x = cp_id p \<and> cp_tenant x = cp_tenant p \<and> cp_actor x = cp_actor p \<and> cp_action x = cp_action p \<and>
     cp_action_digest x = cp_action_digest p \<and> cp_used_at x = None \<and> now < cp_expires_at x"

definition ConsumePreview :: "ConfirmationPreview \<Rightarrow> time \<Rightarrow> agent_db \<Rightarrow> agent_error + agent_db" where
  "ConsumePreview p now db =
     (if List.find (consumable p now) (ag_previews db) = None then Inl AgPreviewExpired
      else Inr (db\<lparr>ag_previews := update_where (consumable p now) (\<lambda>x. x\<lparr>cp_used_at := Some now\<rparr>) (ag_previews db)\<rparr>))"

end
