(* ===== verification/Tasks_Jobs.thy ===== *)
theory Tasks_Jobs
  imports Tasks_Agent
begin

text \<open>
  The queue of agent jobs and its worker (\<^verbatim>\<open>primer-tasks/internal/jobs/worker.go\<close>).  A job is claimed for a lease that the worker renews while the handler runs; the number of tenants with running
  jobs is limited; a failed job is queued again until its attempts are used up.

  Statements that answer an error to the worker may still have taken effect, so each has a commit outcome.  The handler is an argument of a step, together with what other processes do while it runs;
  the renewals of the lease fall between them.  All jobs have the kind \<^verbatim>\<open>agent_run\<close>, the only one that is stored.
\<close>

section \<open>Jobs\<close>

datatype JobStatus = Queued | Running | Done | Failed

record Job =
  jb_id :: uuid
  jb_tenant :: uuid
  jb_run :: uuid
  jb_status :: JobStatus
  jb_attempts :: int
  jb_max_attempts :: int
  jb_available_at :: time
  jb_lease_owner :: "string option"
  jb_lease_until :: "time option"
  jb_last_error :: "string option"

record jobs_db = agent_db +
  ag_jobs :: "Job list"

definition job_run_key :: "Job \<Rightarrow> uuid \<times> uuid" where
  "job_run_key j = (jb_tenant j, jb_run j)"

definition Enqueue :: "Job \<Rightarrow> jobs_db \<Rightarrow> agent_error + (unit \<times> jobs_db)" where
  "Enqueue j db =
     (if jb_max_attempts j < 1 \<or> 10 < jb_max_attempts j then Inl (AgInvalid ''invalid max attempts'')
      else let row = j\<lparr>jb_status := Queued, jb_attempts := 0, jb_lease_owner := None, jb_lease_until := None, jb_last_error := None\<rparr> in
        if jb_id j \<in> keys jb_id (ag_jobs db) then Inl (AgUnique ''agent_jobs_pkey'')
        else if job_run_key j \<in> keys job_run_key (ag_jobs db) then Inl (AgUnique ''agent_jobs_tenant_id_run_id_kind_key'')
        else if jb_tenant j \<notin> set (ag_tenants db) then Inl (AgForeignKey ''agent_jobs_tenant_id_fkey'')
        else if job_run_key j \<notin> keys (\<lambda>r. (rn_tenant r, rn_id r)) (ag_runs db) then Inl (AgForeignKey ''agent_jobs_run_tenant_fk'')
        else Inr ((), db\<lparr>ag_jobs := ag_jobs db @ [row]\<rparr>))"

definition running_tenants :: "Job list \<Rightarrow> uuid set" where
  "running_tenants jobs = jb_tenant ` set (filter (\<lambda>j. jb_status j = Running) jobs)"

definition claimable :: "time \<Rightarrow> int \<Rightarrow> Job list \<Rightarrow> Job \<Rightarrow> bool" where
  "claimable now maxTenants jobs j \<longleftrightarrow> jb_status j = Queued \<and> jb_available_at j \<le> now \<and>
     (case jb_lease_until j of None \<Rightarrow> True | Some t \<Rightarrow> t < now) \<and> jb_attempts j < jb_max_attempts j \<and>
     (maxTenants \<le> 0 \<or> jb_tenant j \<in> running_tenants jobs \<or> int (card (running_tenants jobs)) < maxTenants)"

definition claimed_job :: "time \<Rightarrow> string \<Rightarrow> duration \<Rightarrow> Job \<Rightarrow> Job" where
  "claimed_job now owner lease j = j\<lparr>jb_status := Running, jb_lease_owner := Some owner, jb_lease_until := Some (now + lease), jb_attempts := jb_attempts j + 1\<rparr>"

text \<open>The admission lock makes the count and the claim one step.\<close>

definition Claim :: "commit_outcome \<Rightarrow> (uuid \<Rightarrow> bool) \<Rightarrow> time \<Rightarrow> string \<Rightarrow> duration \<Rightarrow> int \<Rightarrow> jobs_db \<Rightarrow> (agent_error + Job option) \<times> jobs_db" where
  "Claim commit locked now owner lease maxTenants db =
     (case oldest jb_available_at jb_id (filter (\<lambda>j. claimable now maxTenants (ag_jobs db) j \<and> \<not> locked (jb_id j)) (ag_jobs db)) of
        None \<Rightarrow> (Inr None, db)
      | Some j \<Rightarrow> commit_tx AgOther commit
          (\<lambda>db. Inr (Some (claimed_job now owner lease j), db\<lparr>ag_jobs := update_where (\<lambda>x. jb_id x = jb_id j) (claimed_job now owner lease) (ag_jobs db)\<rparr>)) db)"

definition held :: "uuid \<Rightarrow> string \<Rightarrow> Job \<Rightarrow> bool" where
  "held i owner j \<longleftrightarrow> jb_id j = i \<and> jb_status j = Running \<and> jb_lease_owner j = Some owner"

definition unexpired :: "time \<Rightarrow> Job \<Rightarrow> bool" where
  "unexpired now j \<longleftrightarrow> (case jb_lease_until j of None \<Rightarrow> False | Some t \<Rightarrow> now < t)"

definition Renew :: "time \<Rightarrow> uuid \<Rightarrow> string \<Rightarrow> duration \<Rightarrow> jobs_db \<Rightarrow> agent_error + (unit \<times> jobs_db)" where
  "Renew now i owner lease db =
     (let p = (\<lambda>j. held i owner j \<and> unexpired now j) in
      if List.find p (ag_jobs db) = None then Inl AgNoRows
      else Inr ((), db\<lparr>ag_jobs := update_where p (\<lambda>j. j\<lparr>jb_lease_until := Some (now + lease)\<rparr>) (ag_jobs db)\<rparr>))"

definition completed_job :: "Job \<Rightarrow> Job" where
  "completed_job j = j\<lparr>jb_status := Done, jb_lease_owner := None, jb_lease_until := None\<rparr>"

definition Complete :: "uuid \<Rightarrow> string \<Rightarrow> jobs_db \<Rightarrow> jobs_db" where
  "Complete i owner db = db\<lparr>ag_jobs := update_where (held i owner) completed_job (ag_jobs db)\<rparr>"

text \<open>What is kept of a handler's error: whether the context was cancelled.\<close>

datatype cause = Canceled | OtherCause

definition given_up :: "Job \<Rightarrow> JobStatus" where
  "given_up j = (if jb_max_attempts j \<le> jb_attempts j then Failed else Queued)"

definition failed_job :: "time \<Rightarrow> string \<Rightarrow> Job \<Rightarrow> Job" where
  "failed_job now code j = j\<lparr>jb_status := given_up j, jb_available_at := now + second, jb_lease_owner := None, jb_lease_until := None, jb_last_error := Some code\<rparr>"

definition Fail :: "time \<Rightarrow> uuid \<Rightarrow> string \<Rightarrow> cause \<Rightarrow> jobs_db \<Rightarrow> jobs_db" where
  "Fail now i owner c db =
     db\<lparr>ag_jobs := update_where (held i owner) (failed_job now (if c = Canceled then ''canceled'' else ''job_failed'')) (ag_jobs db)\<rparr>"

definition lapsed :: "time \<Rightarrow> Job \<Rightarrow> bool" where
  "lapsed now j \<longleftrightarrow> jb_status j = Running \<and> (case jb_lease_until j of None \<Rightarrow> False | Some t \<Rightarrow> t < now)"

definition requeued_job :: "Job \<Rightarrow> Job" where
  "requeued_job j = j\<lparr>jb_status := given_up j, jb_lease_owner := None, jb_lease_until := None\<rparr>"

definition RequeueExpired :: "time \<Rightarrow> jobs_db \<Rightarrow> jobs_db" where
  "RequeueExpired now db = db\<lparr>ag_jobs := update_where (lapsed now) requeued_job (ag_jobs db)\<rparr>"

section \<open>The worker\<close>

text \<open>Operations on the agent's tables leave the jobs as they are.\<close>

definition on_agent :: "(agent_db \<Rightarrow> 'a \<times> agent_db) \<Rightarrow> jobs_db \<Rightarrow> 'a \<times> jobs_db" where
  "on_agent f db = (case f (agent_db.truncate db) of (x, a) \<Rightarrow> (x, agent_db.extend a (jobs_db.fields (ag_jobs db))))"

text \<open>A statement whose answer may be lost.\<close>

definition statement :: "commit_outcome \<Rightarrow> (jobs_db \<Rightarrow> agent_error + (unit \<times> jobs_db)) \<Rightarrow> jobs_db \<Rightarrow> (agent_error + unit) \<times> jobs_db" where
  "statement = commit_tx AgOther"

record Worker =
  wk_owner :: string
  wk_lease :: duration
  wk_max_tenants :: int
  wk_has_runs :: bool

definition NewWorker :: "string \<Rightarrow> Worker" where
  "NewWorker owner = \<lparr>wk_owner = owner, wk_lease = 30 * second, wk_max_tenants = 4, wk_has_runs = True\<rparr>"

text \<open>
  What one step meets: the clocks and outcomes of its statements, the ticks of the renewal loop, each after what the handler and other processes did, and the end of the handler.
\<close>

record step_env =
  se_claim_at :: time
  se_claim_commit :: commit_outcome
  se_locked :: "uuid \<Rightarrow> bool"
  se_start_at :: time
  se_start_commit :: commit_outcome
  se_ticks :: "(time \<times> commit_outcome \<times> (jobs_db \<Rightarrow> jobs_db)) list"
  se_handler :: "Job \<Rightarrow> jobs_db \<Rightarrow> cause option \<times> jobs_db"
  se_finish_at :: time
  se_finish_commit :: commit_outcome
  se_run_at :: time
  se_run_commit :: commit_outcome

definition no_usage :: Usage where
  "no_usage = \<lparr>us_input = 0, us_output = 0, us_total = 0, us_reasoning = 0\<rparr>"

definition worker_transition :: "commit_outcome \<Rightarrow> time \<Rightarrow> Job \<Rightarrow> RunStatus \<Rightarrow> jobs_db \<Rightarrow> jobs_db" where
  "worker_transition commit now j status db = snd (on_agent (TransitionRun commit now (jb_tenant j) (jb_run j) status 0 no_usage) db)"

definition RunsTransition :: "Worker \<Rightarrow> commit_outcome \<Rightarrow> time \<Rightarrow> Job \<Rightarrow> RunStatus \<Rightarrow> jobs_db \<Rightarrow> jobs_db" where
  "RunsTransition w commit now j status db =
     (if \<not> wk_has_runs w then db
      else case GetRun (agent_db.truncate db) (jb_tenant j) (jb_run j) of
        Inr run \<Rightarrow> if Terminal (rn_status run) \<or> rn_status run = RunAwaitingConfirmation then db else worker_transition commit now j status db
      | Inl _ \<Rightarrow> worker_transition commit now j status db)"

text \<open>The renewal loop: whether the lease was lost, and the tables.\<close>

fun renew_loop :: "Worker \<Rightarrow> uuid \<Rightarrow> (time \<times> commit_outcome \<times> (jobs_db \<Rightarrow> jobs_db)) list \<Rightarrow> jobs_db \<Rightarrow> bool \<times> jobs_db" where
  "renew_loop w i [] db = (False, db)"
| "renew_loop w i ((now, commit, meanwhile) # ticks) db =
     (case statement commit (Renew now i (wk_owner w) (wk_lease w)) (meanwhile db) of
        (Inl _, db') \<Rightarrow> (True, db')
      | (Inr _, db') \<Rightarrow> renew_loop w i ticks db')"

definition Reconcile :: "Worker \<Rightarrow> time \<Rightarrow> jobs_db \<Rightarrow> jobs_db" where
  "Reconcile w now db =
     (let db1 = RequeueExpired now db in
      if wk_has_runs w then snd (on_agent (\<lambda>a. ((), ReconcileExpiredLeases now a)) db1) else db1)"

definition finish_step :: "Worker \<Rightarrow> step_env \<Rightarrow> Job \<Rightarrow> cause option \<Rightarrow> jobs_db \<Rightarrow> jobs_db" where
  "finish_step w env j result db =
     (case result of
        None \<Rightarrow> RunsTransition w (se_run_commit env) (se_run_at env) j RunSucceeded
          (snd (statement (se_finish_commit env) (\<lambda>db. Inr ((), Complete (jb_id j) (wk_owner w) db)) db))
      | Some c \<Rightarrow> RunsTransition w (se_run_commit env) (se_run_at env) j RunFailed
          (snd (statement (se_finish_commit env) (\<lambda>db. Inr ((), Fail (se_finish_at env) (jb_id j) (wk_owner w) c db)) db)))"

definition step :: "Worker \<Rightarrow> bool \<Rightarrow> step_env \<Rightarrow> jobs_db \<Rightarrow> jobs_db" where
  "step w has_handler env db =
     (case Claim (se_claim_commit env) (se_locked env) (se_claim_at env) (wk_owner w) (wk_lease w) (wk_max_tenants w) db of
        (Inr (Some j), db1) \<Rightarrow>
          let db2 = (if wk_has_runs w then worker_transition (se_start_commit env) (se_start_at env) j RunRunning db1 else db1) in
          if \<not> has_handler
          then snd (statement (se_finish_commit env) (\<lambda>db. Inr ((), Fail (se_finish_at env) (jb_id j) (wk_owner w) OtherCause db)) db2)
          else (case renew_loop w (jb_id j) (se_ticks env) db2 of
            (lost, db3) \<Rightarrow> (case se_handler env j db3 of
              (result, db4) \<Rightarrow> if lost then db4 else finish_step w env j result db4))
      | (_, db1) \<Rightarrow> db1)"

end
