(* ===== verification/Tasks_Jobs_Props.thy ===== *)
theory Tasks_Jobs_Props
  imports Tasks_Jobs Lease Single_Use
begin

text \<open>
  What the queue of agent jobs promises: leases exclude other workers, the number of tenants at work stays within its limit, jobs and runs that are over stay as they are, and a confirmation is
  used once; and what it does not: a retry cannot undo that the first failure ended the run.
\<close>

section \<open>Steps\<close>

definition job_ok :: "Job \<Rightarrow> bool" where
  "job_ok j \<longleftrightarrow> 0 \<le> jb_attempts j \<and> jb_attempts j \<le> jb_max_attempts j \<and> (jb_status j = Running \<longleftrightarrow> jb_lease_owner j \<noteq> None) \<and>
     (jb_lease_owner j = None \<longleftrightarrow> jb_lease_until j = None)"

definition jobs_wf :: "jobs_db \<Rightarrow> bool" where
  "jobs_wf db \<longleftrightarrow> unique_key jb_id (ag_jobs db) \<and> (\<forall>j \<in> set (ag_jobs db). job_ok j)"

text \<open>
  What actors do to the jobs: the API enqueues, workers -- all with the same limit \<open>cap\<close> -- claim, renew, complete, fail and requeue; operations on the agent's other tables leave the jobs alone.
\<close>

inductive jobs_step :: "int \<Rightarrow> string \<Rightarrow> time \<Rightarrow> jobs_db \<Rightarrow> jobs_db \<Rightarrow> bool" for cap :: int where
  enqueued: "Enqueue j db = Inr (x, db') \<Longrightarrow> jobs_step cap a t db db'"
| claimed: "Claim commit locked t a lease cap db = (res, db') \<Longrightarrow> jobs_step cap a t db db'"
| renewed: "Renew t i a lease db = Inr (x, db') \<Longrightarrow> jobs_step cap a t db db'"
| completed: "jobs_step cap a t db (Complete i a db)"
| failed: "jobs_step cap a t db (Fail t i a c db)"
| requeued: "jobs_step cap a t db (RequeueExpired t db)"
| elsewhere: "ag_jobs db' = ag_jobs db \<Longrightarrow> jobs_step cap a t db db'"

lemma Claim_cases:
  assumes "Claim commit locked now owner lease cap db = (res, db')"
  obtains (none) "db' = db" "\<And>j. res \<noteq> Inr (Some j)"
  | (some) j where "j \<in> set (ag_jobs db)" "claimable now cap (ag_jobs db) j"
      "db' = db\<lparr>ag_jobs := update_where (\<lambda>x. jb_id x = jb_id j) (claimed_job now owner lease) (ag_jobs db)\<rparr>"
      "res = Inr (Some (claimed_job now owner lease j)) \<or> (\<exists>m. res = Inl (AgOther m))"
proof (cases "oldest jb_available_at jb_id (filter (\<lambda>j. claimable now cap (ag_jobs db) j \<and> \<not> locked (jb_id j)) (ag_jobs db))")
  case None
  with assms show ?thesis by (intro that(1)) (auto simp: Claim_def)
next
  case (Some j)
  with assms oldest_Some [OF Some] show ?thesis by (auto simp: Claim_def commit_tx_def split: commit_outcome.splits intro: that)
qed

text \<open>
  Every step appends a queued job or updates some jobs: queued ones that may be claimed, those the actor holds, and those whose lease has lapsed.
\<close>

definition touches :: "string \<Rightarrow> time \<Rightarrow> Job \<Rightarrow> bool" where
  "touches a t j \<longleftrightarrow> jb_status j = Queued \<or> held (jb_id j) a j \<or> lapsed t j"

lemma jobs_step_cases:
  assumes "jobs_step cap a t db db'" "jobs_wf db"
  obtains (same) "ag_jobs db' = ag_jobs db"
  | (new) j where "ag_jobs db' = ag_jobs db @ [j]" "jb_id j \<notin> keys jb_id (ag_jobs db)" "job_ok j" "jb_status j = Queued"
  | (claim) j lease where "j \<in> set (ag_jobs db)" "claimable t cap (ag_jobs db) j"
      "ag_jobs db' = update_where (\<lambda>x. jb_id x = jb_id j) (claimed_job t a lease) (ag_jobs db)"
  | (update) p f where "ag_jobs db' = update_where p f (ag_jobs db)" "\<forall>x. p x \<longrightarrow> held (jb_id x) a x \<or> lapsed t x"
      "\<forall>x. jb_id (f x) = jb_id x \<and> jb_tenant (f x) = jb_tenant x" "\<forall>x. p x \<and> job_ok x \<longrightarrow> job_ok (f x)"
  using assms(1)
proof (cases rule: jobs_step.cases)
  case (enqueued j x)
  let ?row = "j\<lparr>jb_status := Queued, jb_attempts := 0, jb_lease_owner := None, jb_lease_until := None, jb_last_error := None\<rparr>"
  from enqueued show ?thesis by (intro that(2) [of ?row]) (auto simp: Enqueue_def Let_def job_ok_def split: if_splits)
next
  case (claimed commit locked lease res)
  from claimed show ?thesis
  proof (cases rule: Claim_cases)
    case none
    with that(1) show ?thesis by simp
  next
    case (some j)
    with that(3) [of j lease] show ?thesis by simp
  qed
next
  case (renewed i lease x)
  then show ?thesis
    by (intro that(4) [of "\<lambda>j. held i a j \<and> unexpired t j" "\<lambda>j. j\<lparr>jb_lease_until := Some (t + lease)\<rparr>"])
      (auto simp: Renew_def Let_def held_def job_ok_def split: if_splits)
next
  case (completed i)
  then show ?thesis by (intro that(4) [of "held i a" completed_job]) (auto simp: Complete_def held_def completed_job_def job_ok_def)
next
  case (failed i c)
  then show ?thesis
    by (intro that(4) [of "held i a" "failed_job t (if c = Canceled then ''canceled'' else ''job_failed'')"])
      (auto simp: Fail_def held_def failed_job_def given_up_def job_ok_def)
next
  case requeued
  then show ?thesis by (intro that(4) [of "lapsed t" requeued_job]) (auto simp: RequeueExpired_def requeued_job_def given_up_def job_ok_def)
qed (use that(1) in simp)

lemma claimed_job_simps [simp]:
  "jb_id (claimed_job t a l j) = jb_id j" "jb_tenant (claimed_job t a l j) = jb_tenant j" "jb_status (claimed_job t a l j) = Running"
  "jb_lease_owner (claimed_job t a l j) = Some a" "jb_lease_until (claimed_job t a l j) = Some (t + l)" "jb_attempts (claimed_job t a l j) = jb_attempts j + 1"
  "jb_max_attempts (claimed_job t a l j) = jb_max_attempts j"
  by (simp_all add: claimed_job_def)

lemma jobs_same: "jobs_wf db \<Longrightarrow> x \<in> set (ag_jobs db) \<Longrightarrow> y \<in> set (ag_jobs db) \<Longrightarrow> jb_id x = jb_id y \<Longrightarrow> x = y"
  by (rule unique_key_eq [of jb_id "ag_jobs db"]) (simp_all add: jobs_wf_def)

lemma jobs_step_wf:
  assumes "jobs_step cap a t db db'" "jobs_wf db"
  shows "jobs_wf db'"
  using assms
proof (cases rule: jobs_step_cases)
  case (new j)
  with assms(2) show ?thesis by (auto simp: jobs_wf_def intro: unique_key_snoc)
next
  case (claim j lease)
  have "job_ok j" using assms(2) claim(1) by (simp add: jobs_wf_def)
  then have "job_ok (claimed_job t a lease j)" using claim(2) by (simp add: job_ok_def claimable_def)
  then have "\<forall>x \<in> set (ag_jobs db). jb_id x = jb_id j \<longrightarrow> job_ok (claimed_job t a lease x)" using jobs_same [OF assms(2) _ claim(1)] by blast
  with assms(2) claim(3) show ?thesis by (auto simp: jobs_wf_def unique_key_update ball_update)
next
  case (update p f)
  with assms(2) show ?thesis by (auto simp: jobs_wf_def unique_key_update ball_update)
qed (use assms(2) in \<open>simp add: jobs_wf_def\<close>)

lemma jobs_step_keeps:
  assumes "jobs_step cap a t db db'" "jobs_wf db" "j \<in> set (ag_jobs db)" "\<not> touches a t j"
  shows "j \<in> set (ag_jobs db')"
  using assms(1,2)
proof (cases rule: jobs_step_cases)
  case (claim y lease)
  have "y \<noteq> j" using claim(2) assms(4) by (auto simp: touches_def claimable_def)
  then have "jb_id j \<noteq> jb_id y" using jobs_same [OF assms(2,3) claim(1)] by blast
  with claim(3) assms(3) show ?thesis by (simp add: kept_by_update)
next
  case (update p f)
  then show ?thesis using assms(3,4) by (auto simp: touches_def intro: kept_by_update)
qed (use assms(3) in simp_all)

section \<open>Leases\<close>

definition job_lease :: "jobs_db \<Rightarrow> uuid \<Rightarrow> (string \<times> time \<times> Job) option" where
  "job_lease db i =
     (case List.find (\<lambda>j. jb_id j = i) (ag_jobs db) of
        Some j \<Rightarrow> (case (jb_status j, jb_lease_owner j, jb_lease_until j) of (Running, Some h, Some u) \<Rightarrow> Some (h, u, j) | _ \<Rightarrow> None)
      | None \<Rightarrow> None)"

lemma job_lease_iff:
  assumes "jobs_wf db"
  shows "job_lease db i = Some (h, u, j) \<longleftrightarrow> j \<in> set (ag_jobs db) \<and> jb_id j = i \<and> jb_status j = Running \<and> jb_lease_owner j = Some h \<and> jb_lease_until j = Some u"
proof -
  have "job_lease db i = Some (h, u, j) \<longleftrightarrow> List.find (\<lambda>j. jb_id j = i) (ag_jobs db) = Some j \<and> jb_status j = Running \<and> jb_lease_owner j = Some h \<and> jb_lease_until j = Some u"
    by (auto simp: job_lease_def split: option.splits JobStatus.splits)
  then show ?thesis using assms by (auto simp: jobs_wf_def find_key_iff)
qed

interpretation jl: leases jobs_wf "jobs_step cap" job_lease for cap :: int
proof
  fix a t db db' i h u j
  assume s: "jobs_step cap a t db db'" "jobs_wf db" and l: "job_lease db i = Some (h, u, j)" "a \<noteq> h" "t < u"
  then have "\<not> touches a t j" by (auto simp: job_lease_iff touches_def held_def lapsed_def)
  with jobs_step_keeps [OF s] l(1) show "job_lease db' i = Some (h, u, j)" by (simp add: job_lease_iff jobs_step_wf [OF s] job_lease_iff [OF s(2)])
qed (rule jobs_step_wf)

lemma Claim_lease:
  assumes "Claim commit locked t a lease cap db = (Inr (Some j), db')" "jobs_wf db"
  shows "job_lease db' (jb_id j) = Some (a, t + lease, j)" "jobs_wf db'"
proof -
  show wf: "jobs_wf db'" by (rule jobs_step_wf [OF claimed [OF assms(1)] assms(2)])
  from assms(1) obtain y where "y \<in> set (ag_jobs db)" "j = claimed_job t a lease y"
    "db' = db\<lparr>ag_jobs := update_where (\<lambda>x. jb_id x = jb_id y) (claimed_job t a lease) (ag_jobs db)\<rparr>"
    by (cases rule: Claim_cases) auto
  then have "j \<in> set (ag_jobs db')" by (auto simp: in_update_where intro!: bexI [of _ y])
  with \<open>j = _\<close> show "job_lease db' (jb_id j) = Some (a, t + lease, j)" by (simp add: job_lease_iff [OF wf])
qed

lemma unqueued_not_claimed:
  assumes "jobs_wf db" "j \<in> set (ag_jobs db)" "jb_status j \<noteq> Queued" "Claim commit locked t b lease cap db = (Inr (Some j'), db')"
  shows "jb_id j' \<noteq> jb_id j"
  using assms(4)
proof (cases rule: Claim_cases)
  case (some y)
  then have "y \<noteq> j" using assms(3) by (auto simp: claimable_def)
  then have "jb_id y \<noteq> jb_id j" using jobs_same [OF assms(1) some(1) assms(2)] by blast
  with some(4) show ?thesis by auto
qed blast

text \<open>
  C21.  A worker that claimed a job has it to itself until its lease ends.  Whatever the API and other workers do before that, the job stays as claimed, no claim returns it, and the worker's completion
  is recorded.
\<close>

theorem job_lease_exclusive:
  assumes "jobs_wf db" "Claim commit locked t a lease cap db = (Inr (Some j), db1)" "others_run (jobs_step cap) a (t + lease) db1 db2"
  shows "j \<in> set (ag_jobs db2) \<and> (\<forall>commit' locked' t' b lease' j' db3. Claim commit' locked' t' b lease' cap db2 = (Inr (Some j'), db3) \<longrightarrow> jb_id j' \<noteq> jb_id j) \<and>
    completed_job j \<in> set (ag_jobs (Complete (jb_id j) a db2))"
proof -
  note claimed = Claim_lease [OF assms(2,1)]
  have wf2: "jobs_wf db2" by (rule jl.others_inv [OF assms(3) claimed(2)])
  have "job_lease db2 (jb_id j) = Some (a, t + lease, j)" by (rule jl.exclusive [OF assms(3) claimed(2,1)])
  then have j: "j \<in> set (ag_jobs db2)" "jb_status j = Running" "jb_lease_owner j = Some a" by (simp_all add: job_lease_iff [OF wf2])
  have "completed_job j \<in> set (ag_jobs (Complete (jb_id j) a db2))"
    using update_where_member [OF j(1), of "held (jb_id j) a" completed_job] j(2,3) by (simp add: Complete_def held_def)
  with j unqueued_not_claimed [OF wf2 j(1)] show ?thesis by auto
qed

section \<open>The limit on tenants\<close>

lemma running_tenants_iff: "x \<in> running_tenants jobs \<longleftrightarrow> (\<exists>j \<in> set jobs. jb_status j = Running \<and> jb_tenant j = x)"
  by (auto simp: running_tenants_def)

lemma finite_running: "finite (running_tenants jobs)"
  by (simp add: running_tenants_def)

lemma running_update:
  assumes "\<forall>x. p x \<longrightarrow> jb_status x = Running" "\<forall>x. jb_tenant (f x) = jb_tenant x"
  shows "running_tenants (update_where p f jobs) \<subseteq> running_tenants jobs"
  using assms by (fastforce simp: running_tenants_iff in_update_where split: if_splits)

lemma running_claim:
  assumes "jobs_wf db" "j \<in> set (ag_jobs db)"
  shows "running_tenants (update_where (\<lambda>x. jb_id x = jb_id j) (claimed_job t a lease) (ag_jobs db)) \<subseteq> insert (jb_tenant j) (running_tenants (ag_jobs db))"
  using jobs_same [OF assms(1) _ assms(2)] by (fastforce simp: running_tenants_iff in_update_where split: if_splits)

definition capped :: "int \<Rightarrow> jobs_db \<Rightarrow> bool" where
  "capped cap db \<longleftrightarrow> jobs_wf db \<and> int (card (running_tenants (ag_jobs db))) \<le> cap"

lemma jobs_step_capped:
  assumes "0 < cap" "jobs_step cap a t db db'" "capped cap db"
  shows "capped cap db'"
proof -
  have wf: "jobs_wf db" "jobs_wf db'" using assms jobs_step_wf by (auto simp: capped_def)
  have less: "capped cap db'" if "running_tenants (ag_jobs db') \<subseteq> running_tenants (ag_jobs db)"
    using card_mono [OF finite_running that] assms(3) wf(2) by (simp add: capped_def)
  from assms(2) wf(1) show ?thesis
  proof (cases rule: jobs_step_cases)
    case (new j)
    then show ?thesis by (intro less) (auto simp: running_tenants_iff)
  next
    case (claim j lease)
    let ?R = "running_tenants (ag_jobs db)"
    have sub: "running_tenants (ag_jobs db') \<subseteq> insert (jb_tenant j) ?R" using running_claim [OF wf(1) claim(1)] claim(3) by simp
    show ?thesis
    proof (cases "jb_tenant j \<in> ?R")
      case True
      with sub show ?thesis by (intro less) auto
    next
      case False
      with claim(2) assms(1) have "int (card ?R) < cap" by (simp add: claimable_def)
      with card_mono [OF _ sub] finite_running [of "ag_jobs db"] False wf(2) show ?thesis by (simp add: capped_def)
    qed
  next
    case (update p f)
    have "\<forall>x. p x \<longrightarrow> jb_status x = Running" using update(2) by (auto simp: held_def lapsed_def)
    then show ?thesis using running_update [of p f "ag_jobs db"] update(1,3) by (intro less) simp
  qed (use less in simp)
qed

definition jobs_init :: "jobs_db \<Rightarrow> bool" where
  "jobs_init db \<longleftrightarrow> ag_jobs db = []"

interpretation jc: invariant_system jobs_init "any_step (jobs_step (1 + int n))" "capped (1 + int n)" for n
proof
  show "capped (1 + int n) s" if "jobs_init s" for s
    using that by (simp add: jobs_init_def capped_def jobs_wf_def unique_key_def running_tenants_def)
  show "capped (1 + int n) t" if "capped (1 + int n) s" "any_step (jobs_step (1 + int n)) s t" for s t
    using that jobs_step_capped [of "1 + int n"] by (auto simp: any_step_def)
qed

text \<open>
  C20.  At most as many tenants as the limit have running jobs, in every state that workers with the same limit reach, whatever order their statements come in and whether or not workers
  die or their commits are lost.
\<close>

theorem tenants_capped:
  assumes "reachable jobs_init (any_step (jobs_step cap)) db" "0 < cap"
  shows "int (card (running_tenants (ag_jobs db))) \<le> cap"
proof -
  from assms(2) have "cap = 1 + int (nat (cap - 1))" by simp
  with assms(1) jc.inv_reachable [of "nat (cap - 1)" db] show ?thesis by (simp add: capped_def)
qed

section \<open>What is over stays over\<close>

lemma any_step_keeps:
  assumes "(any_step (jobs_step cap))\<^sup>*\<^sup>* db db'" "jobs_wf db" "j \<in> set (ag_jobs db)" "\<And>a t. \<not> touches a t j"
  shows "jobs_wf db' \<and> j \<in> set (ag_jobs db')"
  using assms(1)
proof (induction rule: rtranclp_induct)
  case (step y z)
  then show ?case using jobs_step_wf jobs_step_keeps assms(4) unfolding any_step_def by blast
qed (use assms(2,3) in blast)

text \<open>
  A job that is done, or failed with its attempts used up, is never changed or claimed again; and after expired leases were requeued, a job whose worker died is queued again or has failed.
\<close>

lemma settled_job_final:
  assumes "jobs_wf db" "j \<in> set (ag_jobs db)" "jb_status j = Done \<or> jb_status j = Failed" "(any_step (jobs_step cap))\<^sup>*\<^sup>* db db'"
  shows "j \<in> set (ag_jobs db') \<and> (\<forall>commit locked t b lease j' db''. Claim commit locked t b lease cap db' = (Inr (Some j'), db'') \<longrightarrow> jb_id j' \<noteq> jb_id j)"
proof -
  have "\<not> touches a t j" for a t using assms(3) by (auto simp: touches_def held_def lapsed_def)
  from any_step_keeps [OF assms(4,1,2) this] have "jobs_wf db'" "j \<in> set (ag_jobs db')" by blast+
  moreover have "jb_status j \<noteq> Queued" using assms(3) by auto
  ultimately show ?thesis using unqueued_not_claimed [of db' j] by blast
qed

lemma expired_job_recovered:
  assumes "jobs_wf db" "j \<in> set (ag_jobs db)" "jb_status j = Running" "jb_lease_until j = Some u" "u < now"
  shows "requeued_job j \<in> set (ag_jobs (RequeueExpired now db)) \<and> (if jb_attempts j < jb_max_attempts j then jb_status (requeued_job j) = Queued else jb_status (requeued_job j) = Failed)"
  using update_where_member [OF assms(2), of "lapsed now" requeued_job] assms(3-5) by (simp add: RequeueExpired_def lapsed_def requeued_job_def given_up_def)

text \<open>What is done to runs: by the repository, by the workers and by the API.\<close>

inductive run_step :: "agent_db \<Rightarrow> agent_db \<Rightarrow> bool" where
  created: "CreateRun run db = Inr db' \<Longrightarrow> run_step db db'"
| moved: "TransitionRun commit now tenant i to n u db = (res, db') \<Longrightarrow> run_step db db'"
| cancel: "run_step db (RequestCancel now tenant i db)"
| leased: "LeaseRun locked now tenant owner d db = (res, db') \<Longrightarrow> run_step db db'"
| reconciled: "run_step db (ReconcileExpiredLeases now db)"
| awaiting: "run_step db (prepare_confirmation parent member lease committed now tenant actor i db)"
| effect: "run_step db (tool_mutate parent member lease committed now tenant actor i n db)"
| canceled: "run_step db (agentCancel parent member committed now tenant actor conversation i db)"
| model: "run_step db (record_model now tenant i provider m db)"
| other_table: "ag_runs db' = ag_runs db \<Longrightarrow> run_step db db'"

text \<open>What a run keeps once it is over: everything but the names of provider and model and the time of the last update.\<close>

definition outcome :: "Run \<Rightarrow> Run" where
  "outcome r = r\<lparr>rn_provenance := (rn_provenance r)\<lparr>pv_provider := [], pv_model := []\<rparr>, rn_updated_at := 0\<rparr>"

lemma outcome_id: "outcome r' = outcome r \<Longrightarrow> rn_id r' = rn_id r \<and> rn_status r' = rn_status r"
  by (drule arg_cong [of _ _ "\<lambda>r. (rn_id r, rn_status r)"]) (simp add: outcome_def)

lemma run_unique: "unique_key rn_id rs \<Longrightarrow> r \<in> set rs \<Longrightarrow> r' \<in> set rs \<Longrightarrow> is_run t i r \<Longrightarrow> is_run t i r' \<Longrightarrow> r = r'"
  using unique_key_eq [of rn_id rs r r'] by (auto simp: is_run_def)

lemma lockAgentAuthority_open:
  assumes "lockAgentAuthority parent member lease now tenant actor i db = Inr x" "unique_key rn_id (ag_runs db)"
  shows "\<forall>r \<in> set (ag_runs db). is_run tenant i r \<longrightarrow> \<not> Terminal (rn_status r)"
proof -
  from assms(1) obtain y where "List.find (\<lambda>r. is_run tenant i r \<and> run_of_actor db actor (\<lambda>c. cv_status c = ConversationActive) r \<and> now < rn_deadline r) (ag_runs db) = Some y" "\<not> Terminal (rn_status y)"
    by (auto simp: lockAgentAuthority_def Terminal_def split: option.splits if_splits)
  with find_Some_in [of _ "ag_runs db" y] run_unique [OF assms(2), of y] show ?thesis by fastforce
qed

text \<open>Runs that are over are not updated, except for the names of provider and model.\<close>

definition spares_finished :: "agent_db \<Rightarrow> agent_db \<Rightarrow> bool" where
  "spares_finished db db' \<longleftrightarrow> (\<exists>p f. ag_runs db' = update_where p f (ag_runs db) \<and> (\<forall>r. rn_id (f r) = rn_id r) \<and>
     (\<forall>r \<in> set (ag_runs db). p r \<longrightarrow> \<not> Terminal (rn_status r) \<or> outcome (f r) = outcome r))"

lemma spares_finishedI:
  "ag_runs db' = update_where p f (ag_runs db) \<Longrightarrow> (\<And>r. rn_id (f r) = rn_id r) \<Longrightarrow>
   (\<And>r. r \<in> set (ag_runs db) \<Longrightarrow> p r \<Longrightarrow> \<not> Terminal (rn_status r) \<or> outcome (f r) = outcome r) \<Longrightarrow> spares_finished db db'"
  unfolding spares_finished_def by blast

lemma spares_finished_same: "ag_runs db' = ag_runs db \<Longrightarrow> spares_finished db db'"
  by (rule spares_finishedI [of _ "\<lambda>_. False" id]) (simp_all add: update_where_none)

lemma TransitionRun_spares:
  assumes "TransitionRun commit now tenant i to n u db = (res, db')" "unique_key rn_id (ag_runs db)"
  shows "spares_finished db db'"
  using assms(1) unfolding TransitionRun_def
proof (cases rule: commit_tx_cases)
  case (ran x)
  then obtain r where "List.find (is_run tenant i) (ag_runs db) = Some r" "\<not> Terminal (rn_status r)"
    "db' = db\<lparr>ag_runs := update_where (is_run tenant i) (moved_run now to n u) (ag_runs db)\<rparr>"
    by (auto split: option.splits if_splits)
  with run_unique [OF assms(2)] find_Some_in [of "is_run tenant i" "ag_runs db" r] show ?thesis
    by (intro spares_finishedI [of _ "is_run tenant i" "moved_run now to n u"]) (auto simp: moved_run_def)
qed (simp add: spares_finished_same)

lemma LeaseRun_spares:
  assumes "LeaseRun locked now tenant owner d db = (res, db')" "unique_key rn_id (ag_runs db)"
  shows "spares_finished db db'"
proof (cases "first_row (sort_key rn_created_at (filter (\<lambda>r. leasable now tenant r \<and> \<not> locked (rn_id r)) (ag_runs db)))")
  case (Some r)
  from first_row_Some_in [OF Some] have r: "r \<in> set (ag_runs db)" "\<not> Terminal (rn_status r)" by (auto simp: leasable_def Terminal_def)
  then have "\<forall>x \<in> set (ag_runs db). rn_id x = rn_id r \<longrightarrow> \<not> Terminal (rn_status x)" using unique_key_eq [OF assms(2) _ r(1)] by blast
  with assms(1) Some show ?thesis by (intro spares_finishedI [of _ "\<lambda>x. rn_id x = rn_id r" "leased_run now owner d"]) (auto simp: LeaseRun_def leased_run_def)
qed (use assms(1) in \<open>auto simp: LeaseRun_def intro: spares_finished_same\<close>)

lemma locked_write_spares:
  assumes "unique_key rn_id (ag_runs db)" "\<And>r. rn_id (f r) = rn_id r"
  shows "spares_finished db (case lockAgentAuthority parent member lease now tenant actor i db of
    Inl _ \<Rightarrow> db | Inr _ \<Rightarrow> if committed then db\<lparr>ag_runs := update_where (is_run tenant i) f (ag_runs db)\<rparr> else db)"
proof (cases "lockAgentAuthority parent member lease now tenant actor i db")
  case (Inr x)
  from lockAgentAuthority_open [OF Inr assms(1)] assms(2) have "spares_finished db (db\<lparr>ag_runs := update_where (is_run tenant i) f (ag_runs db)\<rparr>)"
    by (intro spares_finishedI [of _ "is_run tenant i" f]) auto
  with Inr show ?thesis by (simp add: spares_finished_same)
qed (simp add: spares_finished_same)

lemma api_spares:
  assumes "unique_key rn_id (ag_runs db)"
  shows "spares_finished db (prepare_confirmation parent member lease committed now tenant actor i db)"
    "spares_finished db (tool_mutate parent member lease committed now tenant actor i n db)"
    "spares_finished db (agentCancel parent member committed now tenant actor conversation i db)"
    "spares_finished db (record_model now tenant i provider m db)"
proof -
  show "spares_finished db (prepare_confirmation parent member lease committed now tenant actor i db)"
    unfolding prepare_confirmation_def by (rule locked_write_spares [OF assms]) simp
  show "spares_finished db (tool_mutate parent member lease committed now tenant actor i n db)"
    unfolding tool_mutate_def completeToolEffect_def using locked_write_spares [OF assms] by (simp add: spares_finished_same)
  show "spares_finished db (agentCancel parent member committed now tenant actor conversation i db)"
    unfolding agentCancel_def by (simp add: spares_finished_same) (intro impI, rule spares_finishedI, simp, auto simp: Terminal_def)
  show "spares_finished db (record_model now tenant i provider m db)"
    unfolding record_model_def by (rule spares_finishedI, simp) (simp_all add: outcome_def)
qed

text \<open>A step appends a run with a new identifier or spares the runs that are over.\<close>

lemma run_step_cases:
  assumes "run_step db db'" "unique_key rn_id (ag_runs db)"
  obtains (new) r where "ag_runs db' = ag_runs db @ [r]" "rn_id r \<notin> keys rn_id (ag_runs db)"
  | (update) p f where "ag_runs db' = update_where p f (ag_runs db)" "\<forall>r. rn_id (f r) = rn_id r" "\<forall>r \<in> set (ag_runs db). p r \<longrightarrow> \<not> Terminal (rn_status r) \<or> outcome (f r) = outcome r"
proof -
  have thesis if "spares_finished db db'" using that update unfolding spares_finished_def by blast
  with assms(1) show thesis
  proof (cases rule: run_step.cases)
    case (created run)
    let ?row = "run\<lparr>rn_lease_owner := [], rn_lease_until := None, rn_cancel_requested := False, rn_updated_at := rn_created_at run\<rparr>"
    from created show ?thesis by (intro new [of ?row]) (auto simp: CreateRun_def Let_def split: option.splits if_splits)
  next
    case (cancel now tenant i)
    have "spares_finished db db'" unfolding cancel RequestCancel_def by (rule spares_finishedI, simp) (auto simp: Terminal_def)
    with \<open>spares_finished db db' \<Longrightarrow> thesis\<close> show ?thesis .
  next
    case (reconciled now)
    have "spares_finished db db'" unfolding reconciled ReconcileExpiredLeases_def by (rule spares_finishedI, simp) (auto simp: Terminal_def)
    with \<open>spares_finished db db' \<Longrightarrow> thesis\<close> show ?thesis .
  qed (use assms(2) in \<open>simp_all add: api_spares TransitionRun_spares LeaseRun_spares spares_finished_same\<close>)
qed

lemma run_step_keeps:
  assumes "run_step db db'" "unique_key rn_id (ag_runs db)" "r \<in> set (ag_runs db)" "Terminal (rn_status r)"
  shows "unique_key rn_id (ag_runs db') \<and> (\<exists>r' \<in> set (ag_runs db'). outcome r' = outcome r)"
  using assms(1,2)
proof (cases rule: run_step_cases)
  case (new x)
  with assms(2,3) show ?thesis by (auto simp: unique_key_snoc)
next
  case (update p f)
  have "unique_key rn_id (ag_runs db')" using assms(2) update by (simp add: unique_key_update)
  moreover have "(if p r then f r else r) \<in> set (ag_runs db')" using assms(3) update(1) by (auto simp: in_update_where)
  moreover have "outcome (if p r then f r else r) = outcome r" using update(3) assms(3,4) by auto
  ultimately show ?thesis by blast
qed

lemma terminal_stays:
  assumes "run_step\<^sup>*\<^sup>* db db'" "unique_key rn_id (ag_runs db)" "r \<in> set (ag_runs db)" "Terminal (rn_status r)"
  shows "unique_key rn_id (ag_runs db') \<and> (\<exists>r' \<in> set (ag_runs db'). outcome r' = outcome r)"
  using assms(1)
proof (induction rule: rtranclp_induct)
  case (step y z)
  then obtain r' where r': "r' \<in> set (ag_runs y)" "outcome r' = outcome r" "unique_key rn_id (ag_runs y)" by blast
  then have "Terminal (rn_status r')" using outcome_id [OF r'(2)] assms(4) by simp
  from run_step_keeps [OF step.hyps(2) r'(3,1) this] r'(2) show ?case by simp
qed (use assms(2,3) in blast)

text \<open>
  C22.  A run that succeeded, failed or was canceled keeps its outcome: whatever the repository, the workers and the API do -- transitions, cancellations, leases, reconciliation, confirmations, tool effects --,
  its status, step, usage, lease, attempts, deadline and the rest of the row stay as they are, except for the names of provider and model and the time of the last update, which the worker writes without
  looking at the status.
\<close>

theorem terminal_run_final:
  assumes "unique_key rn_id (ag_runs db)" "r \<in> set (ag_runs db)" "Terminal (rn_status r)" "run_step\<^sup>*\<^sup>* db db'"
  shows "\<exists>provider model t. r\<lparr>rn_provenance := (rn_provenance r)\<lparr>pv_provider := provider, pv_model := model\<rparr>, rn_updated_at := t\<rparr> \<in> set (ag_runs db')"
proof -
  obtain r' where r': "r' \<in> set (ag_runs db')" "outcome r' = outcome r" using terminal_stays [OF assms(4,1-3)] by blast
  have "r' = r\<lparr>rn_provenance := (rn_provenance r)\<lparr>pv_provider := pv_provider (rn_provenance r'), pv_model := pv_model (rn_provenance r')\<rparr>, rn_updated_at := rn_updated_at r'\<rparr>"
    using r'(2) by (cases r; cases r'; cases "rn_provenance r"; cases "rn_provenance r'") (simp add: outcome_def)
  with r'(1) show ?thesis by metis
qed

section \<open>A failed attempt\<close>

lemma on_agent_tables:
  "ag_jobs (snd (on_agent f db)) = ag_jobs db" "ag_runs (snd (on_agent f db)) = ag_runs (snd (f (agent_db.truncate db)))"
  by (simp_all add: on_agent_def agent_db.defs jobs_db.defs split: prod.splits)

lemma truncate_runs [simp]: "ag_runs (agent_db.truncate db) = ag_runs db"
  by (simp add: agent_db.defs)

lemma RunsTransition_running:
  assumes "wk_has_runs w" "List.find (is_run (jb_tenant j) (jb_run j)) (ag_runs db) = Some r" "rn_status r = RunRunning"
  shows "ag_jobs (RunsTransition w Committed now j RunFailed db) = ag_jobs db"
    "moved_run now RunFailed 0 no_usage r \<in> set (ag_runs (RunsTransition w Committed now j RunFailed db))"
    "map rn_id (ag_runs (RunsTransition w Committed now j RunFailed db)) = map rn_id (ag_runs db)"
proof -
  have t: "RunsTransition w Committed now j RunFailed db = worker_transition Committed now j RunFailed db"
    using assms by (simp add: RunsTransition_def GetRun_def Terminal_def)
  have runs: "ag_runs (worker_transition Committed now j RunFailed db) = update_where (is_run (jb_tenant j) (jb_run j)) (moved_run now RunFailed 0 no_usage) (ag_runs db)"
    using assms(2,3) by (simp add: worker_transition_def on_agent_tables TransitionRun_def commit_tx_def Terminal_def)
  show "ag_jobs (RunsTransition w Committed now j RunFailed db) = ag_jobs db" unfolding t by (simp add: worker_transition_def on_agent_tables)
  from find_Some_in [OF assms(2)] show "moved_run now RunFailed 0 no_usage r \<in> set (ag_runs (RunsTransition w Committed now j RunFailed db))"
    unfolding t runs by (auto simp: in_update_where intro!: bexI [of _ r])
  show "map rn_id (ag_runs (RunsTransition w Committed now j RunFailed db)) = map rn_id (ag_runs db)"
    unfolding t runs by (rule map_update_where) (simp add: moved_run_def)
qed

text \<open>
  C35.  A retry cannot succeed.  When the handler of a job fails while attempts are left and the lease is held, the job is queued again but its run is marked as failed, for good: whatever a later attempt does,
  the run stays failed.  (The handler leaves the run running, and the worker's last two statements are committed.)
\<close>

theorem retry_leaves_run_failed:
  assumes "Claim (se_claim_commit env) (se_locked env) (se_claim_at env) (wk_owner w) (wk_lease w) (wk_max_tenants w) db = (Inr (Some j), db1)" "wk_has_runs w"
    "renew_loop w (jb_id j) (se_ticks env) (worker_transition (se_start_commit env) (se_start_at env) j RunRunning db1) = (False, db3)" "se_handler env j db3 = (Some c, db4)"
    "x \<in> set (ag_jobs db4)" "held (jb_id j) (wk_owner w) x" "jb_attempts x < jb_max_attempts x"
    "List.find (is_run (jb_tenant j) (jb_run j)) (ag_runs db4) = Some r" "rn_status r = RunRunning" "unique_key rn_id (ag_runs db4)"
    "se_finish_commit env = Committed" "se_run_commit env = Committed"
  shows "\<exists>x' r'. x' \<in> set (ag_jobs (step w True env db)) \<and> jb_id x' = jb_id j \<and> jb_status x' = Queued \<and> jb_attempts x' < jb_max_attempts x' \<and>
    r' \<in> set (ag_runs (step w True env db)) \<and> rn_id r' = rn_id r \<and> rn_status r' = RunFailed \<and>
    (\<forall>db'. run_step\<^sup>*\<^sup>* (agent_db.truncate (step w True env db)) db' \<longrightarrow> (\<exists>r'' \<in> set (ag_runs db'). rn_id r'' = rn_id r \<and> rn_status r'' = RunFailed))"
proof -
  define db5 where "db5 = Fail (se_finish_at env) (jb_id j) (wk_owner w) c db4"
  let ?x = "failed_job (se_finish_at env) (if c = Canceled then ''canceled'' else ''job_failed'') x"
  let ?r = "moved_run (se_run_at env) RunFailed 0 no_usage r"
  have s: "step w True env db = RunsTransition w Committed (se_run_at env) j RunFailed db5"
    using assms(1-4,11,12) by (simp add: step_def finish_step_def statement_def commit_tx_def db5_def)
  have "ag_runs db5 = ag_runs db4" by (simp add: db5_def Fail_def)
  with assms(8) have f: "List.find (is_run (jb_tenant j) (jb_run j)) (ag_runs db5) = Some r" by simp
  note after = RunsTransition_running [OF assms(2) f assms(9), of "se_run_at env"]
  have "?x \<in> set (ag_jobs db5)" using update_where_member [OF assms(5), of "held (jb_id j) (wk_owner w)"] assms(6) by (simp add: db5_def Fail_def)
  then have x: "?x \<in> set (ag_jobs (step w True env db))" using after(1) by (simp add: s)
  have "unique_key rn_id (ag_runs (agent_db.truncate (step w True env db)))"
    using assms(10) after(3) \<open>ag_runs db5 = ag_runs db4\<close> by (simp add: s unique_key_def)
  moreover have "?r \<in> set (ag_runs (agent_db.truncate (step w True env db)))" using after(2) by (simp add: s)
  moreover have "Terminal (rn_status ?r)" by (simp add: moved_run_def Terminal_def)
  ultimately have *: "\<forall>db'. run_step\<^sup>*\<^sup>* (agent_db.truncate (step w True env db)) db' \<longrightarrow> (\<exists>r'' \<in> set (ag_runs db'). outcome r'' = outcome ?r)" using terminal_stays by blast
  have "\<forall>db'. run_step\<^sup>*\<^sup>* (agent_db.truncate (step w True env db)) db' \<longrightarrow> (\<exists>r'' \<in> set (ag_runs db'). rn_id r'' = rn_id r \<and> rn_status r'' = RunFailed)"
  proof (intro allI impI)
    fix db'
    assume "run_step\<^sup>*\<^sup>* (agent_db.truncate (step w True env db)) db'"
    with * obtain r'' where r: "r'' \<in> set (ag_runs db')" "outcome r'' = outcome ?r" by blast
    with outcome_id [OF r(2)] show "\<exists>r'' \<in> set (ag_runs db'). rn_id r'' = rn_id r \<and> rn_status r'' = RunFailed" by (auto simp: moved_run_def)
  qed
  moreover have "?r \<in> set (ag_runs (step w True env db))" using after(2) by (simp add: s)
  ultimately show ?thesis using x assms(6,7) by (intro exI [of _ ?x] exI [of _ ?r]) (auto simp: failed_job_def given_up_def moved_run_def held_def)
qed

section \<open>Confirmations\<close>

inductive preview_step :: "agent_db \<Rightarrow> agent_db \<Rightarrow> bool" where
  put: "PutPreview jsonb now p db = Inr db' \<Longrightarrow> preview_step db db'"
| consume: "ConsumePreview p now db = Inr db' \<Longrightarrow> preview_step db db'"
| previews_kept: "ag_previews db' = ag_previews db \<Longrightarrow> preview_step db db'"

definition open_preview :: "agent_db \<Rightarrow> uuid \<Rightarrow> uuid option" where
  "open_preview db i = (if \<exists>p \<in> set (ag_previews db). cp_id p = i \<and> cp_used_at p = None then Some i else None)"

definition used_previews :: "agent_db \<Rightarrow> uuid \<Rightarrow> uuid set" where
  "used_previews db i = {k. \<exists>p \<in> set (ag_previews db). cp_id p = k \<and> cp_used_at p \<noteq> None}"

lemma ConsumePreview_Inr:
  assumes "ConsumePreview p now db = Inr db'"
  shows "ag_previews db' = update_where (consumable p now) (\<lambda>x. x\<lparr>cp_used_at := Some now\<rparr>) (ag_previews db)"
    "\<exists>x \<in> set (ag_previews db). consumable p now x \<and> x\<lparr>cp_used_at := Some now\<rparr> \<in> set (ag_previews db')"
proof -
  from assms obtain x where "x \<in> set (ag_previews db)" "consumable p now x"
    by (auto simp: ConsumePreview_def dest!: find_Some_in split: if_splits)
  then show "\<exists>x \<in> set (ag_previews db). consumable p now x \<and> x\<lparr>cp_used_at := Some now\<rparr> \<in> set (ag_previews db')"
    using assms update_where_member [of x "ag_previews db" "consumable p now"] by (auto simp: ConsumePreview_def split: if_splits intro!: bexI [of _ x])
qed (use assms in \<open>auto simp: ConsumePreview_def split: if_splits\<close>)

interpretation cp: single_use "\<lambda>db. unique_key cp_id (ag_previews db)" preview_step open_preview used_previews
proof
  fix db db'
  assume "preview_step db db'" "unique_key cp_id (ag_previews db)"
  then show "unique_key cp_id (ag_previews db')"
    by (cases rule: preview_step.cases) (auto simp: PutPreview_def ConsumePreview_Inr(1) unique_key_update unique_key_snoc split: option.splits if_splits)
next
  fix db k h j
  assume "unique_key cp_id (ag_previews db)" "open_preview db k = Some h"
  then show "h \<notin> used_previews db j" using unique_key_eq [of cp_id "ag_previews db"] by (fastforce simp: open_preview_def used_previews_def split: if_splits)
next
  fix db db' k
  assume "preview_step db db'"
  then show "used_previews db k \<subseteq> used_previews db' k"
  proof (cases rule: preview_step.cases)
    case (consume p now)
    show ?thesis unfolding used_previews_def ConsumePreview_Inr(1) [OF consume]
      using kept_by_update [of _ "ag_previews db" "consumable p now" "\<lambda>x. x\<lparr>cp_used_at := Some now\<rparr>"] by (fastforce simp: consumable_def)
  qed (auto simp: PutPreview_def used_previews_def split: option.splits if_splits)
qed

text \<open>
  C23.  A confirmation is used at most once, and only as it was shown.  Consuming it requires a stored preview with the tenant, actor, action and digest of the request that is not used and not expired; that
  preview is marked as used and no other is touched; after that, no request for it succeeds again, whatever previews are put and consumed.
\<close>

theorem preview_consumed_once:
  assumes "unique_key cp_id (ag_previews db)" "ConsumePreview p now db = Inr db1" "preview_step\<^sup>*\<^sup>* db1 db2" "cp_id p' = cp_id p"
  shows "(\<exists>x \<in> set (ag_previews db). cp_id x = cp_id p \<and> cp_tenant x = cp_tenant p \<and> cp_actor x = cp_actor p \<and> cp_action x = cp_action p \<and>
      cp_action_digest x = cp_action_digest p \<and> cp_used_at x = None \<and> now < cp_expires_at x \<and>
      ag_previews db1 = map (\<lambda>y. if cp_id y = cp_id p then x\<lparr>cp_used_at := Some now\<rparr> else y) (ag_previews db)) \<and>
    ConsumePreview p' now' db2 = Inl AgPreviewExpired"
proof -
  note one = consume [OF assms(2)]
  have wf1: "unique_key cp_id (ag_previews db1)" by (rule cp.step_inv [OF one assms(1)])
  from ConsumePreview_Inr(2) [OF assms(2)] obtain x where x: "x \<in> set (ag_previews db)" "consumable p now x" "x\<lparr>cp_used_at := Some now\<rparr> \<in> set (ag_previews db1)" by blast
  then have "cp_id p \<in> used_previews db1 (cp_id p)"
    unfolding used_previews_def by (intro CollectI bexI [of _ "x\<lparr>cp_used_at := Some now\<rparr>"]) (simp_all add: consumable_def)
  from cp.never_again [OF assms(3) wf1 this] have "open_preview db2 (cp_id p) \<noteq> Some (cp_id p)" .
  then have "\<forall>y \<in> set (ag_previews db2). \<not> consumable p' now' y" using assms(4) by (auto simp: open_preview_def consumable_def split: if_splits)
  then have "ConsumePreview p' now' db2 = Inl AgPreviewExpired" by (simp add: ConsumePreview_def find_None_iff)
  moreover have "y = x" if "y \<in> set (ag_previews db)" "cp_id y = cp_id p" for y
    using unique_key_eq [OF assms(1) that(1) x(1)] that(2) x(2) by (simp add: consumable_def)
  then have "ag_previews db1 = map (\<lambda>y. if cp_id y = cp_id p then x\<lparr>cp_used_at := Some now\<rparr> else y) (ag_previews db)"
    unfolding ConsumePreview_Inr(1) [OF assms(2)] update_where_def using x(2) by (auto simp: consumable_def)
  ultimately show ?thesis using x(1,2) unfolding consumable_def by blast
qed

section \<open>An example\<close>

definition ex_run :: Run where
  "ex_run = \<lparr>rn_id = ''r1'', rn_tenant = ''t'', rn_conversation = ''c'', rn_user_message = ''m'', rn_status = RunQueued, rn_durable_step = 0, rn_attempt = 0, rn_max_steps = 12,
     rn_max_tokens = 4096, rn_deadline = 120 * second, rn_lease_owner = [], rn_lease_until = None, rn_cancel_requested = False, rn_usage = no_usage,
     rn_provenance = \<lparr>pv_provider = [], pv_model = [], pv_policy_version = [], pv_prompt_digest = []\<rparr>, rn_created_at = 0, rn_updated_at = 0\<rparr>"

definition ex_preview :: ConfirmationPreview where
  "ex_preview = \<lparr>cp_id = ''p'', cp_tenant = ''t'', cp_actor = ''a'', cp_action = ''retire'', cp_action_digest = replicate 64 CHR ''0'', cp_payload = [], cp_expires_at = 60 * second, cp_used_at = None\<rparr>"

definition ex_job :: Job where
  "ex_job = \<lparr>jb_id = ''j1'', jb_tenant = ''t'', jb_run = ''r1'', jb_status = Queued, jb_attempts = 0, jb_max_attempts = 2, jb_available_at = 0, jb_lease_owner = None,
     jb_lease_until = None, jb_last_error = None\<rparr>"

definition ex_agents :: "Job list \<Rightarrow> jobs_db" where
  "ex_agents jobs = \<lparr>ag_tenants = [''t''], ag_conversations = [], ag_messages = [], ag_runs = [ex_run], ag_events = [], ag_previews = [ex_preview], ag_jobs = jobs\<rparr>"

definition ex_held :: Job where
  "ex_held = claimed_job second ''w'' (30 * second) ex_job"

lemma ex_claim: "Claim Committed (\<lambda>_. False) second ''w'' (30 * second) cap (ex_agents [ex_job]) = (Inr (Some ex_held), ex_agents [ex_held])"
  by (simp add: Claim_def oldest_def claimable_def running_tenants_def ex_agents_def ex_job_def ex_held_def claimed_job_def commit_tx_def update_where_def second_def not_le [symmetric])

lemma ex_agents_wf: "jobs_wf (ex_agents [ex_job])"
  by (simp add: jobs_wf_def unique_key_def job_ok_def ex_agents_def ex_job_def)

theorem job_lease_exclusive_witness:
  "ex_held \<in> set (ag_jobs (RequeueExpired (2 * second) (ex_agents [ex_held]))) \<and>
   completed_job ex_held \<in> set (ag_jobs (Complete ''j1'' ''w'' (RequeueExpired (2 * second) (ex_agents [ex_held]))))"
proof -
  have other: "others_run (jobs_step 1) ''w'' (second + 30 * second) (ex_agents [ex_held]) (RequeueExpired (2 * second) (ex_agents [ex_held]))"
    by (rule one_other [of _ "''v''" "2 * second"]) (simp_all add: requeued second_def)
  from job_lease_exclusive [OF ex_agents_wf ex_claim other] show ?thesis by (simp add: ex_held_def ex_job_def claimed_job_def)
qed

theorem tenants_capped_witness: "int (card (running_tenants (ag_jobs (ex_agents [ex_held])))) \<le> 1 \<and> running_tenants (ag_jobs (ex_agents [ex_held])) \<noteq> {}"
proof -
  have "Enqueue ex_job (ex_agents []) = Inr ((), ex_agents [ex_job])" by (simp add: Enqueue_def ex_agents_def ex_job_def ex_run_def job_run_key_def)
  then have "any_step (jobs_step 1) (ex_agents []) (ex_agents [ex_job])" unfolding any_step_def using enqueued by blast
  moreover have "any_step (jobs_step 1) (ex_agents [ex_job]) (ex_agents [ex_held])" unfolding any_step_def using claimed [OF ex_claim] by blast
  moreover have "jobs_init (ex_agents [])" by (simp add: jobs_init_def ex_agents_def)
  ultimately have "reachable jobs_init (any_step (jobs_step 1)) (ex_agents [ex_held])" by (meson reachable.intros)
  from tenants_capped [OF this] show ?thesis by (simp add: running_tenants_def ex_agents_def ex_held_def)
qed

theorem terminal_run_final_witness:
  "let r = ex_run\<lparr>rn_status := RunFailed\<rparr>; db = agent_db.truncate (ex_agents [])\<lparr>ag_runs := [r]\<rparr> in
   \<exists>provider model t. r\<lparr>rn_provenance := (rn_provenance r)\<lparr>pv_provider := provider, pv_model := model\<rparr>, rn_updated_at := t\<rparr>
     \<in> set (ag_runs (record_model second ''t'' ''r1'' ''openai'' ''m'' (RequestCancel second ''t'' ''r1'' db)))"
proof -
  let ?r = "ex_run\<lparr>rn_status := RunFailed\<rparr>"
  let ?db = "agent_db.truncate (ex_agents [])\<lparr>ag_runs := [?r]\<rparr>"
  have "run_step\<^sup>*\<^sup>* ?db (record_model second ''t'' ''r1'' ''openai'' ''m'' (RequestCancel second ''t'' ''r1'' ?db))"
    by (rule rtranclp.rtrancl_into_rtrancl, rule r_into_rtranclp, rule cancel, rule model)
  from terminal_run_final [OF _ _ _ this, of ?r] show ?thesis by (simp add: unique_key_def Terminal_def Let_def)
qed

definition ex_step :: step_env where
  "ex_step = \<lparr>se_claim_at = second, se_claim_commit = Committed, se_locked = (\<lambda>_. False), se_start_at = second, se_start_commit = Committed, se_ticks = [],
     se_handler = (\<lambda>_ db. (Some OtherCause, db)), se_finish_at = 2 * second, se_finish_commit = Committed, se_run_at = 2 * second, se_run_commit = Committed\<rparr>"

theorem retry_leaves_run_failed_witness:
  "\<exists>x r. x \<in> set (ag_jobs (step (NewWorker ''w'') True ex_step (ex_agents [ex_job]))) \<and> jb_id x = ''j1'' \<and> jb_status x = Queued \<and> jb_attempts x < jb_max_attempts x \<and>
     r \<in> set (ag_runs (step (NewWorker ''w'') True ex_step (ex_agents [ex_job]))) \<and> rn_id r = ''r1'' \<and> rn_status r = RunFailed"
proof -
  let ?r = "moved_run second RunRunning 0 no_usage ex_run"
  let ?db = "ex_agents [ex_held]\<lparr>ag_runs := [?r]\<rparr>"
  have claim: "Claim (se_claim_commit ex_step) (se_locked ex_step) (se_claim_at ex_step) (wk_owner (NewWorker ''w'')) (wk_lease (NewWorker ''w'')) (wk_max_tenants (NewWorker ''w'')) (ex_agents [ex_job]) =
      (Inr (Some ex_held), ex_agents [ex_held])"
    using ex_claim [of 4] by (simp add: ex_step_def NewWorker_def)
  have run: "worker_transition (se_start_commit ex_step) (se_start_at ex_step) ex_held RunRunning (ex_agents [ex_held]) = ?db"
    by (simp add: worker_transition_def on_agent_def TransitionRun_def commit_tx_def ex_step_def ex_agents_def ex_held_def ex_job_def claimed_job_def ex_run_def is_run_def Terminal_def
        update_where_def agent_db.defs jobs_db.defs)
  have loop: "renew_loop (NewWorker ''w'') (jb_id ex_held) (se_ticks ex_step) (worker_transition (se_start_commit ex_step) (se_start_at ex_step) ex_held RunRunning (ex_agents [ex_held])) = (False, ?db)"
    unfolding run by (simp add: ex_step_def)
  have "\<exists>x' r'. x' \<in> set (ag_jobs (step (NewWorker ''w'') True ex_step (ex_agents [ex_job]))) \<and> jb_id x' = jb_id ex_held \<and> jb_status x' = Queued \<and> jb_attempts x' < jb_max_attempts x' \<and>
      r' \<in> set (ag_runs (step (NewWorker ''w'') True ex_step (ex_agents [ex_job]))) \<and> rn_id r' = rn_id ?r \<and> rn_status r' = RunFailed \<and>
      (\<forall>db'. run_step\<^sup>*\<^sup>* (agent_db.truncate (step (NewWorker ''w'') True ex_step (ex_agents [ex_job]))) db' \<longrightarrow>
         (\<exists>r'' \<in> set (ag_runs db'). rn_id r'' = rn_id ?r \<and> rn_status r'' = RunFailed))"
    by (rule retry_leaves_run_failed [OF claim _ loop, of OtherCause ?db ex_held ?r])
      (simp_all add: ex_step_def NewWorker_def held_def unique_key_def ex_agents_def ex_held_def ex_job_def ex_run_def moved_run_def is_run_def claimed_job_def)
  moreover have "jb_id ex_held = ''j1''" "rn_id ?r = ''r1''" by (simp_all add: ex_held_def ex_job_def moved_run_def ex_run_def)
  ultimately show ?thesis by metis
qed

theorem preview_consumed_once_witness:
  "let db = agent_db.truncate (ex_agents []) in
   \<exists>db1. ConsumePreview ex_preview second db = Inr db1 \<and> ConsumePreview ex_preview (2 * second) db1 = Inl AgPreviewExpired"
proof -
  let ?db = "agent_db.truncate (ex_agents [])"
  have "ConsumePreview ex_preview second ?db \<noteq> Inl AgPreviewExpired"
    by (simp add: ConsumePreview_def consumable_def ex_agents_def ex_preview_def agent_db.defs second_def)
  then obtain db1 where c: "ConsumePreview ex_preview second ?db = Inr db1" by (auto simp: ConsumePreview_def split: if_splits)
  have "unique_key cp_id (ag_previews ?db)" by (simp add: unique_key_def ex_agents_def agent_db.defs)
  from preview_consumed_once [OF this c rtranclp.rtrancl_refl refl] c show ?thesis by (simp add: Let_def)
qed

end
