(* ===== verification/Go_RFC3339.thy ===== *)
theory Go_RFC3339
  imports Go_Time
begin

text \<open>
  The layout \<^verbatim>\<open>time.RFC3339Nano\<close> of Go's \<^verbatim>\<open>time\<close> package: \<^verbatim>\<open>t.UTC().Format\<close> drops the trailing zeros of the
  fraction of the second, and the point with them; \<^verbatim>\<open>time.Parse\<close> reads the text back (its path for RFC 3339
  layouts), with the fraction cut to the microsecond that the databases keep.  The calendar functions of
  \<open>Go_Time\<close> are shown to be inverse, so that an instant of the years 0 to 9999 is read back unchanged.  The text
  of two instants need not be ordered as the instants are.
\<close>

section \<open>Format and parse\<close>

definition trim_zeros :: "string \<Rightarrow> string" where
  "trim_zeros s = rev (dropWhile (\<lambda>c. c = CHR ''0'') (rev s))"

definition format_fraction :: "time \<Rightarrow> string" where
  "format_fraction t = (if t mod second = 0 then [] else CHR ''.'' # trim_zeros (digits_fixed 6 (t mod second)))"

definition format_rfc3339nano :: "time \<Rightarrow> string" where
  "format_rfc3339nano t =
     format_day UTC t @ ''T'' @ digits_fixed 2 (local_hour UTC t) @ '':'' @
     digits_fixed 2 (local_clock UTC t div 60 mod 60) @ '':'' @ digits_fixed 2 (local_clock UTC t mod 60) @
     format_fraction t @ ''Z''"

text \<open>A fixed field of digits within bounds.\<close>

definition parse_uint :: "string \<Rightarrow> int \<Rightarrow> int \<Rightarrow> int option" where
  "parse_uint s lo hi =
     (if list_all is_digit s \<and> lo \<le> digits_val s \<and> digits_val s \<le> hi then Some (digits_val s) else None)"

text \<open>The clock after the letter T, in seconds of the day.\<close>

definition parse_clock :: "string \<Rightarrow> int option" where
  "parse_clock s =
     (case (parse_uint (take 2 s) 0 23, parse_uint (take 2 (drop 3 s)) 0 59, parse_uint (take 2 (drop 6 s)) 0 59) of
        (Some h, Some m, Some sec) \<Rightarrow>
          if s ! 2 = CHR '':'' \<and> s ! 5 = CHR '':'' then Some (h * 3600 + m * 60 + sec) else None
      | _ \<Rightarrow> None)"

text \<open>The fraction, in microseconds, and what follows it.\<close>

definition parse_fraction :: "string \<Rightarrow> int \<times> string" where
  "parse_fraction s = (case s of
     CHR ''.'' # c # cs \<Rightarrow>
       if is_digit c then (digits_val (take 6 (takeWhile is_digit (c # cs) @ ''000000'')), dropWhile is_digit (c # cs))
       else (0, s)
   | _ \<Rightarrow> (0, s))"

text \<open>The zone: Z, or a sign with hours and minutes, in seconds east of Greenwich.\<close>

definition parse_offset :: "string \<Rightarrow> int option" where
  "parse_offset s =
     (if s = ''Z'' then Some 0
      else if length s \<noteq> 6 then None
      else case (parse_uint (take 2 (drop 1 s)) 0 23, parse_uint (drop 4 s) 0 59) of
        (Some h, Some m) \<Rightarrow>
          if (s ! 0 = CHR ''-'' \<or> s ! 0 = CHR ''+'') \<and> s ! 3 = CHR '':''
          then Some ((if s ! 0 = CHR ''-'' then - 1 else 1) * (h * 60 + m) * 60) else None
      | _ \<Rightarrow> None)"

definition parse_rfc3339nano :: "string \<Rightarrow> time option" where
  "parse_rfc3339nano s =
     (if length s < 19 \<or> s ! 10 \<noteq> CHR ''T'' then None
      else case (parse_day (take 10 s), parse_clock (take 8 (drop 11 s)), parse_fraction (drop 19 s)) of
        (Some day, Some clock, (micros, zone)) \<Rightarrow>
          (case parse_offset zone of
             None \<Rightarrow> None
           | Some offset \<Rightarrow> Some ((day * day_seconds + clock - offset) * second + micros))
      | _ \<Rightarrow> None)"

section \<open>The calendar\<close>

text \<open>Days of a 400-year era before its year \<open>y\<close>, and the last day of that year; years start on the first of March.\<close>

definition era_days :: "int \<Rightarrow> int" where
  "era_days y = 365 * y + y div 4 - y div 100"

definition year_of_era :: "int \<Rightarrow> int" where
  "year_of_era doe = (doe - doe div 1460 + doe div 36524 - doe div 146096) div 365"

definition era_last :: "int \<Rightarrow> int" where
  "era_last y = era_days y + (if is_leap (y + 1) then 365 else 364)"

lemma era_years:
  "\<forall>y \<in> set [0..399]. year_of_era (era_days y) = y \<and> year_of_era (era_last y) = y \<and>
     (if y = 399 then era_last y = 146096 else era_days (y + 1) = era_last y + 1)"
  by code_simp

lemma div_step:
  assumes "(0 :: int) < k"
  shows "b div k = (b - 1) div k + (if k dvd b then 1 else 0)"
proof (cases "k dvd b")
  case True
  then obtain q where q: "b = k * q" by (elim dvdE)
  have "(b - 1) div k = q - 1" by (rule div_in_span [OF assms]) (use assms q in \<open>simp_all add: algebra_simps\<close>)
  with True q assms show ?thesis by simp
next
  case False
  have "b mod k \<noteq> 0" using False by (simp add: dvd_eq_mod_eq_0)
  then have m: "1 \<le> b mod k" "b mod k < k" using assms pos_mod_sign [OF assms, of b] pos_mod_bound [OF assms, of b] by linarith+
  have "b = b div k * k + b mod k" by simp
  with m have "(b - 1) div k = b div k" by (intro div_in_span [OF assms]) linarith+
  with False show ?thesis by simp
qed

lemma year_of_era_mono: "a \<le> b \<Longrightarrow> year_of_era a \<le> year_of_era b"
proof (induction "nat (b - a)" arbitrary: b)
  case (Suc n)
  have "year_of_era a \<le> year_of_era (b - 1)" by (rule Suc.hyps(1)) (use Suc.hyps(2) Suc.prems in auto)
  also have "(36524 :: int) dvd b" if "146096 dvd b" using that by (rule dvd_trans [rotated]) simp
  then have "b - 1 - (b - 1) div 1460 + (b - 1) div 36524 - (b - 1) div 146096 \<le>
      b - b div 1460 + b div 36524 - b div 146096"
    using div_step [of 1460 b] div_step [of 36524 b] div_step [of 146096 b] by (simp split: if_splits)
  then have "year_of_era (b - 1) \<le> year_of_era b"
    unfolding year_of_era_def by (rule zdiv_mono1) simp
  finally show ?case .
qed simp

lemma era_year_exists:
  assumes "0 \<le> doe" "doe \<le> 146096"
  obtains y where "y \<in> set [0..399]" "era_days y \<le> doe" "doe \<le> era_last y"
proof -
  have "\<exists>y \<in> set [0..399]. era_days y \<le> doe \<and> doe \<le> era_last y" if "0 \<le> n" "n \<le> 399" "doe \<le> era_last n" for n
    using that
  proof (induction n rule: int_ge_induct)
    case base
    then show ?case using assms(1) by (intro bexI [of _ 0]) (simp_all add: era_days_def)
  next
    case (step i)
    show ?case
    proof (cases "doe \<le> era_last i")
      case False
      then have "era_days (i + 1) \<le> doe" using era_years step.hyps step.prems by fastforce
      then show ?thesis using step.prems step.hyps by (intro bexI [of _ "i + 1"]) auto
    qed (use step in auto)
  qed
  from this [of 399] era_years assms(2) that show thesis by fastforce
qed

text \<open>The day of the year stays within the year, and determines the month.\<close>

lemma day_of_year:
  assumes "0 \<le> doe" "doe \<le> 146096"
  shows "0 \<le> year_of_era doe \<and> year_of_era doe \<le> 399 \<and> 0 \<le> doe - era_days (year_of_era doe) \<and>
    doe - era_days (year_of_era doe) \<le> (if is_leap (year_of_era doe + 1) then 365 else 364)"
proof -
  obtain y where y: "y \<in> set [0..399]" "era_days y \<le> doe" "doe \<le> era_last y" using era_year_exists [OF assms] .
  have "year_of_era (era_days y) = y" "year_of_era (era_last y) = y" using era_years y(1) by blast+
  then have "year_of_era doe = y" using year_of_era_mono [OF y(2)] year_of_era_mono [OF y(3)] by simp
  then show ?thesis using y by (auto simp: era_last_def)
qed

definition month_of :: "int \<Rightarrow> int \<times> int" where
  "month_of doy = (let mp = (5 * doy + 2) div 153 in
     (if mp < 10 then mp + 3 else mp - 9, doy - (153 * mp + 2) div 5 + 1))"

lemma months_of_year:
  "\<forall>doy \<in> set [0..365]. case month_of doy of (m, d) \<Rightarrow>
     1 \<le> m \<and> m \<le> 12 \<and> 1 \<le> d \<and> (153 * (if m > 2 then m - 3 else m + 9) + 2) div 5 + d - 1 = doy \<and>
     d \<le> (if m = 2 then (if doy = 365 then 29 else 28) else if m \<in> {4, 6, 9, 11} then 30 else 31)"
  by code_simp

lemma is_leap_era: "is_leap (y + 1 + e * 400) \<longleftrightarrow> is_leap (y + 1)"
proof -
  have "(y + 1 + e * 400) mod k = (y + 1) mod k" if "k dvd 400" for k
    using that by (simp add: mod_eq_dvd_iff)
  from this [of 4] this [of 100] this [of 400] show ?thesis by (simp add: is_leap_def)
qed

lemma civil_parts:
  assumes "civil_from_days n = (y, m, d)"
  shows "1 \<le> m" "m \<le> 12" "1 \<le> d" "d \<le> days_in_month y m" "days_from_civil y m d = n"
proof -
  define doe where "doe = (n + 719468) mod 146097"
  define era where "era = (n + 719468) div 146097"
  define yoe where "yoe = year_of_era doe"
  define doy where "doy = doe - era_days yoe"
  have "0 \<le> doe" "doe \<le> 146096"
    using pos_mod_bound [of 146097 "n + 719468"] by (simp_all add: doe_def)
  note b = day_of_year [OF this, folded yoe_def, folded doy_def]
  have "doy \<in> set [0..365]" using b by (auto split: if_splits)
  note mo = bspec [OF months_of_year this]
  have "civil_from_days n = (case month_of doy of (m, d) \<Rightarrow> (yoe + era * 400 + (if m \<le> 2 then 1 else 0), m, d))"
    by (simp only: civil_from_days_def Let_def month_of_def prod.case doy_def yoe_def era_days_def year_of_era_def
      doe_def era_def)
  then have c: "month_of doy = (m, d)" "y = yoe + era * 400 + (if m \<le> 2 then 1 else 0)"
    using assms by (simp_all split: prod.splits)
  show 1: "1 \<le> m" "m \<le> 12" "1 \<le> d" using mo c(1) by auto
  have leap: "is_leap y" if "doy = 365" "m = 2"
    using that b c(2) is_leap_era [of yoe era] by (auto split: if_splits simp: algebra_simps)
  then show "d \<le> days_in_month y m" using mo c(1) by (auto simp: days_in_month_def split: if_splits)
  have y: "(if m \<le> 2 then y - 1 else y) = yoe + era * 400" using c(2) by simp
  have e: "(yoe + era * 400) div 400 = era" "(yoe + era * 400) mod 400 = yoe" using b by simp_all
  have "(153 * (if m > 2 then m - 3 else m + 9) + 2) div 5 + d - 1 = doy" using mo c(1) by simp
  then have "days_from_civil y m d = era * 146097 + (yoe * 365 + yoe div 4 - yoe div 100 + doy) - 719468"
    unfolding days_from_civil_def Let_def y e by simp
  also have "yoe * 365 + yoe div 4 - yoe div 100 + doy = doe" by (simp add: doy_def era_days_def)
  also have "era * 146097 + doe - 719468 = n" by (simp add: era_def doe_def)
  finally show "days_from_civil y m d = n" .
qed

section \<open>Digits\<close>

lemma digits_fixed_length [simp]: "length (digits_fixed w n) = w"
  by (induction w arbitrary: n) simp_all

lemma digit_char_val [simp]: "0 \<le> n \<Longrightarrow> n < 10 \<Longrightarrow> digit_val (digit_char n) = n"
  by (simp add: digit_val_def digit_char_def)

lemma digit_char_digit [simp]: "0 \<le> n \<Longrightarrow> n < 10 \<Longrightarrow> is_digit (digit_char n)"
  by (simp add: is_digit_def digit_char_def Let_def) linarith

lemma digits_fixed_digits [simp]: "list_all is_digit (digits_fixed w n)"
  by (induction w arbitrary: n) simp_all

lemma digits_fixed_val: "digits_val (digits_fixed w n) = n mod 10 ^ w"
proof (induction w arbitrary: n)
  case (Suc w)
  have "digits_val (digits_fixed (Suc w) n) = (n div 10 mod 10 ^ w) * 10 + n mod 10"
    using Suc [of "n div 10"] by (simp add: digits_val_def)
  also have "\<dots> = n mod 10 ^ Suc w" by (simp add: zmod_zmult2_eq mult.commute)
  finally show ?case .
qed (simp add: digits_val_def)

lemma parse_uint_fixed: "lo \<le> n \<Longrightarrow> n \<le> hi \<Longrightarrow> 0 \<le> n \<Longrightarrow> n < 10 ^ w \<Longrightarrow> parse_uint (digits_fixed w n) lo hi = Some n"
  by (simp add: parse_uint_def digits_fixed_val)

lemma trim_zeros_padded:
  obtains k where "s = trim_zeros s @ replicate k CHR ''0''" "k + length (trim_zeros s) = length s"
proof -
  let ?p = "\<lambda>c. c = CHR ''0''"
  have "takeWhile ?p (rev s) = replicate (length (takeWhile ?p (rev s))) CHR ''0''"
    by (rule replicate_eqI) (auto dest: set_takeWhileD)
  moreover have s: "s = trim_zeros s @ rev (takeWhile ?p (rev s))"
    by (metis rev_append rev_rev_ident takeWhile_dropWhile_id trim_zeros_def)
  ultimately show thesis using that [of "length (takeWhile ?p (rev s))"]
    by (metis add.commute length_append length_replicate rev_replicate)
qed

lemma trim_zeros_take:
  assumes "length s = n"
  shows "take n (trim_zeros s @ replicate n CHR ''0'') = s"
proof -
  obtain k where k: "s = trim_zeros s @ replicate k CHR ''0''" "k + length (trim_zeros s) = length s"
    by (rule trim_zeros_padded)
  then have "take n (trim_zeros s @ replicate n CHR ''0'') = trim_zeros s @ replicate k CHR ''0''"
    using assms by simp (metis add_diff_cancel_right' min.absorb1 le_add1)
  with k(1) show ?thesis by simp
qed

lemma trim_zeros_digits: "list_all is_digit s \<Longrightarrow> list_all is_digit (trim_zeros s)"
  by (rule trim_zeros_padded [of s]) (metis list_all_append)

lemma digit_dot: "\<not> is_digit CHR ''Z''"
  by code_simp

lemma parse_fraction_format: "parse_fraction (format_fraction t @ ''Z'') = (t mod second, ''Z'')"
proof (cases "t mod second = 0")
  case True
  then show ?thesis by (simp add: format_fraction_def parse_fraction_def)
next
  case False
  define ds where "ds = digits_fixed 6 (t mod second)"
  have v: "digits_val ds = t mod second" by (simp add: ds_def digits_fixed_val second_def)
  have ds: "take 6 (trim_zeros ds @ ''000000'') = ds"
  proof -
    have "replicate 6 CHR ''0'' = ''000000''" by code_simp
    with trim_zeros_take [of ds 6] show ?thesis by (simp only: ds_def digits_fixed_length simp_thms)
  qed
  have d: "list_all is_digit (trim_zeros ds)" by (rule trim_zeros_digits) (simp add: ds_def)
  have "trim_zeros ds \<noteq> []"
  proof
    assume "trim_zeros ds = []"
    with ds have "ds = ''000000''" by simp
    moreover have "digits_val ''000000'' = 0" by code_simp
    ultimately show False using v False by simp
  qed
  then obtain c cs where c: "trim_zeros ds = c # cs" by (meson neq_Nil_conv)
  have "takeWhile is_digit (c # cs @ ''Z'') = c # cs" "dropWhile is_digit (c # cs @ ''Z'') = ''Z''"
    using d digit_dot unfolding c by (simp_all add: takeWhile_append dropWhile_append list_all_iff takeWhile_eq_all_conv [THEN iffD2])
  moreover have "format_fraction t @ ''Z'' = CHR ''.'' # c # cs @ ''Z''"
    using False c by (simp add: format_fraction_def ds_def)
  ultimately show ?thesis using d ds v c by (simp add: parse_fraction_def)
qed

section \<open>Reading back\<close>

definition year_of :: "time \<Rightarrow> int" where
  "year_of t = fst (civil_from_days (local_day UTC t))"

lemma days_in_month_less: "days_in_month y m \<le> 31"
  by (simp add: days_in_month_def)

lemma length_two: "length s = 2 \<Longrightarrow> \<exists>a b. s = [a, b]"
  by (auto simp: numeral_eq_Suc length_Suc_conv)

lemma length_four: "length s = 4 \<Longrightarrow> \<exists>a b c d. s = [a, b, c, d]"
  by (auto simp: numeral_eq_Suc length_Suc_conv)

lemma parse_day_format:
  assumes "0 \<le> year_of t" "year_of t \<le> 9999"
  shows "parse_day (format_day UTC t) = Some (local_day UTC t)"
proof -
  obtain y m d where c: "civil_from_days (local_day UTC t) = (y, m, d)" by (cases "civil_from_days (local_day UTC t)")
  note p = civil_parts [OF c]
  have yb: "0 \<le> y" "y \<le> 9999" using assms c by (simp_all add: year_of_def)
  obtain y1 y2 y3 y4 where y: "digits_fixed 4 y = [y1, y2, y3, y4]" using length_four [of "digits_fixed 4 y"] by auto
  obtain m1 m2 where m: "digits_fixed 2 m = [m1, m2]" using length_two [of "digits_fixed 2 m"] by auto
  obtain d1 d2 where d: "digits_fixed 2 d = [d1, d2]" using length_two [of "digits_fixed 2 d"] by auto
  have v: "digits_val [y1, y2, y3, y4] = y" "digits_val [m1, m2] = m" "digits_val [d1, d2] = d"
    using digits_fixed_val [of 4 y] digits_fixed_val [of 2 m] digits_fixed_val [of 2 d] y m d yb p(1,2,3)
      order.trans [OF p(4) days_in_month_less] by simp_all
  have g: "list_all is_digit [y1, y2, y3, y4]" "list_all is_digit [m1, m2]" "list_all is_digit [d1, d2]"
    using digits_fixed_digits [of 4 y] digits_fixed_digits [of 2 m] digits_fixed_digits [of 2 d] y m d by simp_all
  show ?thesis using v g p by (simp add: format_day_def c y m d parse_day_def Let_def)
qed

lemma parse_clock_format:
  assumes "0 \<le> s" "s < day_seconds"
  shows "parse_clock (digits_fixed 2 (s div 3600) @ '':'' @ digits_fixed 2 (s div 60 mod 60) @ '':'' @ digits_fixed 2 (s mod 60))
    = Some s"
proof -
  define h m e where "h = s div 3600" and "m = s div 60 mod 60" and "e = s mod 60"
  have b: "0 \<le> h" "h \<le> 23" "0 \<le> m" "m \<le> 59" "0 \<le> e" "e \<le> 59"
    using assms pos_mod_bound [of 60 "s div 60"] pos_mod_bound [of 60 s] by (auto simp: h_def m_def e_def)
  have s: "h * 3600 + m * 60 + e = s"
    using div_mult_mod_eq [of "s div 60" 60] div_mult_mod_eq [of s 60] 
    unfolding h_def m_def e_def zdiv_zmult2_eq [of 60 s 60, symmetric, simplified] by linarith
  obtain h1 h2 where hh: "digits_fixed 2 h = [h1, h2]" using length_two [of "digits_fixed 2 h"] by auto
  obtain m1 m2 where mm: "digits_fixed 2 m = [m1, m2]" using length_two [of "digits_fixed 2 m"] by auto
  obtain e1 e2 where ee: "digits_fixed 2 e = [e1, e2]" using length_two [of "digits_fixed 2 e"] by auto
  have "parse_uint [h1, h2] 0 23 = Some h" "parse_uint [m1, m2] 0 59 = Some m" "parse_uint [e1, e2] 0 59 = Some e"
    using parse_uint_fixed [of 0 h 23 2] parse_uint_fixed [of 0 m 59 2] parse_uint_fixed [of 0 e 59 2] b hh mm ee by simp_all
  then show ?thesis using s by (simp add: h_def [symmetric] m_def [symmetric] e_def [symmetric] hh mm ee parse_clock_def)
qed

lemma format_day_length: "length (format_day loc t) = 10"
  by (simp add: format_day_def split: prod.split)

lemma rfc3339nano_roundtrip:
  assumes "0 \<le> year_of t" "year_of t \<le> 9999"
  shows "parse_rfc3339nano (format_rfc3339nano t) = Some t"
proof -
  define clock where "clock = digits_fixed 2 (local_hour UTC t) @ '':'' @
     digits_fixed 2 (local_clock UTC t div 60 mod 60) @ '':'' @ digits_fixed 2 (local_clock UTC t mod 60)"
  have f: "format_rfc3339nano t = format_day UTC t @ CHR ''T'' # clock @ format_fraction t @ ''Z''"
    by (simp add: format_rfc3339nano_def clock_def)
  have l: "length clock = 8" by (simp add: clock_def)
  have cl: "parse_clock clock = Some (local_clock UTC t)"
    unfolding clock_def local_hour_def by (rule parse_clock_format) (simp_all add: local_clock_def)
  have t: "(local_day UTC t * day_seconds + local_clock UTC t) * second + t mod second = t"
    using local_split [of UTC t] instant_split [of t] by (simp add: local_seconds_def zone_offset_def UTC_def)
  have "drop 19 (format_rfc3339nano t) = format_fraction t @ ''Z''"
    using l by (simp add: f format_day_length)
  moreover have "take 10 (format_rfc3339nano t) = format_day UTC t" "take 8 (drop 11 (format_rfc3339nano t)) = clock"
    "format_rfc3339nano t ! 10 = CHR ''T''" "\<not> length (format_rfc3339nano t) < 19"
    using l by (simp_all add: f format_day_length nth_append)
  ultimately show ?thesis
    using parse_day_format [OF assms] cl t parse_fraction_format [of t]
    by (simp add: parse_rfc3339nano_def parse_offset_def)
qed

end
