(* ===== verification/Client_Cache.thy ===== *)
theory Client_Cache
  imports Contracts_Validate LMS_Model Tables Go_RFC3339
begin

text \<open>
  The durable store of the student workstation (\<^verbatim>\<open>studentclient/cache/cache.go\<close>), a local SQLite database: device
  metadata with the progress of the work download, cached work items, local sessions, the outbox of session
  events, and the queues of completions, artifacts and responses that wait for the server.

  A table is the list of its rows in insertion order.  A column that holds an instant as RFC 3339 text is kept as
  the instant, and a statement that orders by such a column orders by its text.  A column that holds JSON is kept
  as the decoded value; the one metadata value that is JSON (the assignments seen by a snapshot) has a field of its
  own, with \<open>None\<close> for the empty text.  Statements on the local file succeed unless a constraint refuses them;
  \<open>now\<close> is the clock reading of the operation.
\<close>

section \<open>Rows\<close>

definition WorkModeIncremental :: string where "WorkModeIncremental = ''incremental''"
definition WorkModeSnapshot :: string where "WorkModeSnapshot = ''snapshot''"

record WorkItem =
  wi_assignment :: StudentAssignment
  wi_updated_at :: time
  wi_revision :: LearningActivityRevision
  wi_activity :: LearningActivity

record work_row =
  wr_assignment_id :: uuid
  wr_payload :: WorkItem
  wr_updated_at :: time

record Session =
  cs_client_session_id :: string
  cs_server_session_id :: string
  cs_assignment_id :: uuid
  cs_activity_revision_id :: uuid
  cs_state :: string
  cs_last_acked_sequence :: int
  cs_next_sequence :: int
  cs_workspace_path :: string
  cs_created_at :: time
  cs_updated_at :: time

record outbox_row =
  ox_id :: nat
  ox_client_session_id :: string
  ox_server_session_id :: string
  ox_sequence :: int
  ox_event_id :: string
  ox_event_type :: string
  ox_client_time :: time
  ox_payload :: params
  ox_acked :: bool
  ox_created_at :: time

record OutboxEvent =
  oq_id :: nat
  oq_client_session_id :: string
  oq_server_session_id :: string
  oq_event :: SessionEvent
  oq_acked :: bool

record CompletionIntent =
  co_completion_id :: string
  co_client_session_id :: string
  co_server_session_id :: string
  co_request :: CompletionRequest
  co_response :: "CompletionResult option"
  co_acked :: bool
  co_created_at :: time
  co_updated_at :: time

record ArtifactMeta =
  am_schema_version :: string
  am_artifact_id :: string
  am_filename :: string
  am_media_type :: string
  am_byte_size :: int
  am_sha256 :: string
  am_created_at :: time

record PendingArtifact =
  af_artifact_id :: string
  af_client_session_id :: string
  af_server_session_id :: string
  af_meta :: ArtifactMeta
  af_acked :: bool
  af_created_at :: time

record RunnerState =
  ru_client_session_id :: string
  ru_kind :: string
  ru_state_json :: string
  ru_updated_at :: time

record response_draft =
  dt_client_session_id :: string
  dt_task_id :: string
  dt_body :: string
  dt_updated_at :: time

record ResponseSubmission =
  sb_schema_version :: string
  sb_submission_id :: string
  sb_task_id :: string
  sb_body :: string
  sb_client_time :: time
  sb_request_digest :: string

record ResponseSubmissionResult =
  sx_schema_version :: string
  sx_submission_id :: string
  sx_response_id :: string
  sx_status :: string
  sx_evidence_ids :: "string list"
  sx_message :: string
  sx_review_required :: bool

record ResponseIntent =
  rp_submission_id :: string
  rp_client_session_id :: string
  rp_server_session_id :: string
  rp_task_id :: string
  rp_request :: ResponseSubmission
  rp_response :: "ResponseSubmissionResult option"
  rp_acked :: bool
  rp_created_at :: time
  rp_updated_at :: time

record Store =
  st_meta :: "string \<rightharpoonup> string"
  st_page_seen :: "uuid list option"
  st_work :: "work_row list"
  st_sessions :: "Session list"
  st_outbox :: "outbox_row list"
  st_completions :: "CompletionIntent list"
  st_artifacts :: "PendingArtifact list"
  st_runner :: "RunnerState list"
  st_drafts :: "response_draft list"
  st_responses :: "ResponseIntent list"

datatype store_error = NotFound | SessionNotFound string | InsertOutbox | InvalidArgument string

definition migrate :: Store where
  "migrate = \<lparr>st_meta = Map.empty, st_page_seen = None, st_work = [], st_sessions = [], st_outbox = [],
     st_completions = [], st_artifacts = [], st_runner = [], st_drafts = [], st_responses = []\<rparr>"

text \<open>\<^verbatim>\<open>INSERT ... ON CONFLICT(key) DO UPDATE\<close>.\<close>

definition upsert :: "('r \<Rightarrow> 'k) \<Rightarrow> 'r \<Rightarrow> ('r \<Rightarrow> 'r) \<Rightarrow> 'r list \<Rightarrow> 'r list" where
  "upsert key row upd rows =
     (if list_ex (\<lambda>r. key r = key row) rows then update_where (\<lambda>r. key r = key row) upd rows else rows @ [row])"

section \<open>Device metadata\<close>

definition SetMeta :: "string \<Rightarrow> string \<Rightarrow> Store \<Rightarrow> Store" where
  "SetMeta key v st = st\<lparr>st_meta := (st_meta st)(key \<mapsto> v)\<rparr>"

definition GetMeta :: "Store \<Rightarrow> string \<Rightarrow> string" where
  "GetMeta st key = (case st_meta st key of None \<Rightarrow> [] | Some v \<Rightarrow> v)"

definition SetDeviceToken :: "string \<Rightarrow> Store \<Rightarrow> Store" where
  "SetDeviceToken token = SetMeta ''device_token'' token"

definition DeviceToken :: "Store \<Rightarrow> string" where
  "DeviceToken st = GetMeta st ''device_token''"

definition SetDeviceIdentity :: "string \<Rightarrow> string \<Rightarrow> string \<Rightarrow> Store \<Rightarrow> Store" where
  "SetDeviceIdentity deviceID studentID deviceName st =
     SetMeta ''device_name'' deviceName (SetMeta ''student_id'' studentID (SetMeta ''device_id'' deviceID st))"

section \<open>Cached work\<close>

definition MetaWorkCursor :: string where "MetaWorkCursor = ''work_sync_cursor''"
definition MetaWorkSyncMode :: string where "MetaWorkSyncMode = ''work_sync_mode''"
definition MetaWorkLastFullSync :: string where "MetaWorkLastFullSync = ''work_sync_last_full_at''"
definition MetaWorkPageCursor :: string where "MetaWorkPageCursor = ''work_sync_page_cursor''"
definition MetaWorkPageMode :: string where "MetaWorkPageMode = ''work_sync_page_mode''"
definition MetaWorkInProgress :: string where "MetaWorkInProgress = ''work_sync_in_progress''"

record WorkSyncState =
  ws_cursor :: string
  ws_mode :: string
  ws_last_full_sync_at :: string
  ws_page_cursor :: string
  ws_page_mode :: string
  ws_in_progress :: bool
  ws_snapshot_seen_ids :: "uuid list"

definition GetWorkSyncState :: "Store \<Rightarrow> WorkSyncState" where
  "GetWorkSyncState st =
     \<lparr>ws_cursor = GetMeta st MetaWorkCursor, ws_mode = GetMeta st MetaWorkSyncMode,
      ws_last_full_sync_at = GetMeta st MetaWorkLastFullSync, ws_page_cursor = GetMeta st MetaWorkPageCursor,
      ws_page_mode = GetMeta st MetaWorkPageMode, ws_in_progress = (GetMeta st MetaWorkInProgress = ''1''),
      ws_snapshot_seen_ids = (case st_page_seen st of None \<Rightarrow> [] | Some ids \<Rightarrow> ids)\<rparr>"

definition BeginWorkPage :: "string \<Rightarrow> Store \<Rightarrow> Store" where
  "BeginWorkPage mode st =
     (let st1 = SetMeta MetaWorkPageMode mode (SetMeta MetaWorkInProgress ''1'' st)
      in if mode = WorkModeSnapshot \<and> ws_page_cursor (GetWorkSyncState st1) = []
         then st1\<lparr>st_page_seen := Some []\<rparr> else st1)"

definition upsert_work :: "time \<Rightarrow> WorkItem \<Rightarrow> work_row list \<Rightarrow> work_row list" where
  "upsert_work now it rows =
     (let updated = (if wi_updated_at it \<noteq> zero_time then wi_updated_at it else now)
      in upsert wr_assignment_id \<lparr>wr_assignment_id = sa_id (wi_assignment it), wr_payload = it, wr_updated_at = updated\<rparr>
           (\<lambda>r. r\<lparr>wr_payload := it, wr_updated_at := updated\<rparr>) rows)"

definition merge_seen :: "uuid list \<Rightarrow> uuid list option \<Rightarrow> uuid list" where
  "merge_seen pageIDs prev = remdups ((case prev of None \<Rightarrow> [] | Some ids \<Rightarrow> ids) @ pageIDs)"

definition ApplyWorkPage :: "time \<Rightarrow> WorkItem list \<Rightarrow> string \<Rightarrow> string \<Rightarrow> Store \<Rightarrow> Store" where
  "ApplyWorkPage now items pageCursor mode st =
     (let pageIDs = map (\<lambda>it. sa_id (wi_assignment it)) items;
          st1 = st\<lparr>st_work := fold (upsert_work now) items (st_work st)\<rparr>;
          st2 = (if mode = WorkModeSnapshot \<and> pageIDs \<noteq> []
                 then st1\<lparr>st_page_seen := Some (merge_seen pageIDs (st_page_seen st1))\<rparr> else st1)
      in SetMeta MetaWorkInProgress ''1'' (SetMeta MetaWorkPageMode mode (SetMeta MetaWorkPageCursor pageCursor st2)))"

definition absent_cancel :: "time \<Rightarrow> work_row \<Rightarrow> work_row" where
  "absent_cancel now r =
     (let it = wr_payload r; a = wi_assignment it
      in r\<lparr>wr_payload := it\<lparr>wi_assignment := a\<lparr>sa_state := ''cancelled''\<rparr>, wi_updated_at := now\<rparr>, wr_updated_at := now\<rparr>)"

definition absent_open :: "uuid list \<Rightarrow> work_row \<Rightarrow> bool" where
  "absent_open seen r \<longleftrightarrow> wr_assignment_id r \<notin> set seen \<and>
     sa_state (wi_assignment (wr_payload r)) \<noteq> ''cancelled'' \<and> sa_state (wi_assignment (wr_payload r)) \<noteq> ''completed''"

definition CommitWorkSync :: "time \<Rightarrow> string \<Rightarrow> string \<Rightarrow> Store \<Rightarrow> Store" where
  "CommitWorkSync now finalCursor mode st =
     (let seen = (case st_page_seen st of None \<Rightarrow> [] | Some ids \<Rightarrow> ids);
          st1 = (if mode = WorkModeSnapshot
                 then SetMeta MetaWorkLastFullSync (format_rfc3339nano now)
                        (st\<lparr>st_work := update_where (absent_open seen) (absent_cancel now) (st_work st)\<rparr>)
                 else st);
          st2 = SetMeta MetaWorkPageMode [] (SetMeta MetaWorkPageCursor []
                  (SetMeta MetaWorkSyncMode mode (SetMeta MetaWorkCursor finalCursor st1)))
      in SetMeta MetaWorkInProgress ''0'' (st2\<lparr>st_page_seen := None\<rparr>))"

definition ResetWorkSyncCursor :: "Store \<Rightarrow> Store" where
  "ResetWorkSyncCursor st =
     SetMeta MetaWorkInProgress ''0''
       (SetMeta MetaWorkInProgress []
         ((SetMeta MetaWorkPageMode [] (SetMeta MetaWorkPageCursor [] (SetMeta MetaWorkCursor [] st)))\<lparr>st_page_seen := None\<rparr>))"

definition SaveWork :: "time \<Rightarrow> WorkItem list \<Rightarrow> Store \<Rightarrow> Store" where
  "SaveWork now items = ApplyWorkPage now items [] []"

definition ListWork :: "Store \<Rightarrow> WorkItem list" where
  "ListWork st = map wr_payload
     (sort_key (\<lambda>r. format_rfc3339nano (wr_updated_at r)) (sort_key wr_assignment_id (st_work st)))"

definition GetWork :: "Store \<Rightarrow> uuid \<Rightarrow> store_error + WorkItem" where
  "GetWork st assignmentID =
     (case List.find (\<lambda>r. wr_assignment_id r = assignmentID) (st_work st) of
        None \<Rightarrow> Inl NotFound | Some r \<Rightarrow> Inr (wr_payload r))"

section \<open>Sessions\<close>

definition SaveSession :: "time \<Rightarrow> Session \<Rightarrow> Store \<Rightarrow> Store" where
  "SaveSession now sess0 st =
     (let sess = sess0\<lparr>cs_created_at := (if cs_created_at sess0 = zero_time then now else cs_created_at sess0),
                       cs_updated_at := now\<rparr>
      in st\<lparr>st_sessions := upsert cs_client_session_id sess
              (\<lambda>r. sess\<lparr>cs_created_at := cs_created_at r\<rparr>) (st_sessions st)\<rparr>)"

definition Store_GetSession :: "Store \<Rightarrow> string \<Rightarrow> store_error + Session" where
  "Store_GetSession st clientSessionID =
     (case List.find (\<lambda>r. cs_client_session_id r = clientSessionID) (st_sessions st) of
        None \<Rightarrow> Inl NotFound | Some r \<Rightarrow> Inr r)"

definition BindServerSession :: "time \<Rightarrow> string \<Rightarrow> string \<Rightarrow> Store \<Rightarrow> Store" where
  "BindServerSession now clientSessionID serverSessionID st =
     st\<lparr>st_sessions := update_where (\<lambda>r. cs_client_session_id r = clientSessionID)
           (\<lambda>r. r\<lparr>cs_server_session_id := serverSessionID, cs_updated_at := now\<rparr>) (st_sessions st),
        st_outbox := update_where (\<lambda>r. ox_client_session_id r = clientSessionID \<and> ox_server_session_id r = [])
           (\<lambda>r. r\<lparr>ox_server_session_id := serverSessionID\<rparr>) (st_outbox st),
        st_completions := update_where (\<lambda>r. co_client_session_id r = clientSessionID \<and> co_server_session_id r = [])
           (\<lambda>r. r\<lparr>co_server_session_id := serverSessionID\<rparr>) (st_completions st),
        st_artifacts := update_where (\<lambda>r. af_client_session_id r = clientSessionID \<and> af_server_session_id r = [])
           (\<lambda>r. r\<lparr>af_server_session_id := serverSessionID\<rparr>) (st_artifacts st)\<rparr>"

definition open_local :: "uuid \<Rightarrow> Session \<Rightarrow> bool" where
  "open_local assignmentID r \<longleftrightarrow> cs_assignment_id r = assignmentID \<and> cs_state r \<notin> {''completed'', ''cancelled''}"

definition FindOpenSessionByAssignment :: "Store \<Rightarrow> uuid \<Rightarrow> store_error + Session" where
  "FindOpenSessionByAssignment st assignmentID =
     (case rev (sort_key (\<lambda>r. format_rfc3339nano (cs_updated_at r)) (rev (filter (open_local assignmentID) (st_sessions st)))) of
        [] \<Rightarrow> Inl NotFound | r # _ \<Rightarrow> Inr r)"

section \<open>Runner state\<close>

definition SaveRunnerState :: "time \<Rightarrow> string \<Rightarrow> string \<Rightarrow> string option \<Rightarrow> Store \<Rightarrow> store_error + Store" where
  "SaveRunnerState now clientSessionID kind stateJSON st =
     (if clientSessionID = [] then Inl (InvalidArgument ''client session id required'')
      else if kind = [] then Inl (InvalidArgument ''runner kind required'')
      else
        let row = \<lparr>ru_client_session_id = clientSessionID, ru_kind = kind,
                    ru_state_json = (case stateJSON of None \<Rightarrow> ''{}'' | Some j \<Rightarrow> j), ru_updated_at = now\<rparr>
        in Inr (st\<lparr>st_runner := upsert ru_client_session_id row (\<lambda>_. row) (st_runner st)\<rparr>))"

definition GetRunnerState :: "Store \<Rightarrow> string \<Rightarrow> store_error + RunnerState" where
  "GetRunnerState st clientSessionID =
     (case List.find (\<lambda>r. ru_client_session_id r = clientSessionID) (st_runner st) of
        None \<Rightarrow> Inl NotFound | Some r \<Rightarrow> Inr r)"

definition DeleteRunnerState :: "string \<Rightarrow> Store \<Rightarrow> Store" where
  "DeleteRunnerState clientSessionID st =
     st\<lparr>st_runner := filter (\<lambda>r. ru_client_session_id r \<noteq> clientSessionID) (st_runner st)\<rparr>"

section \<open>The event outbox\<close>

definition complete_event :: "time \<Rightarrow> int \<Rightarrow> SessionEvent \<Rightarrow> SessionEvent" where
  "complete_event now nextSeq ev =
     ev\<lparr>sv_sequence := (if sv_sequence ev < 0 then nextSeq else sv_sequence ev),
        sv_schema_version := (if sv_schema_version ev = [] then EventSchemaVersion else sv_schema_version ev),
        sv_client_time := (if sv_client_time ev = zero_time then now else sv_client_time ev)\<rparr>"

definition new_outbox_row :: "time \<Rightarrow> nat \<Rightarrow> string \<Rightarrow> string \<Rightarrow> SessionEvent \<Rightarrow> outbox_row" where
  "new_outbox_row now i clientSessionID serverID ev =
     \<lparr>ox_id = i, ox_client_session_id = clientSessionID, ox_server_session_id = serverID,
      ox_sequence = sv_sequence ev, ox_event_id = sv_event_id ev, ox_event_type = sv_type ev,
      ox_client_time = sv_client_time ev, ox_payload = sv_payload ev, ox_acked = False, ox_created_at = now\<rparr>"

definition EnqueueEvent :: "time \<Rightarrow> string \<Rightarrow> SessionEvent \<Rightarrow> Store \<Rightarrow> (store_error + SessionEvent) \<times> Store" where
  "EnqueueEvent now clientSessionID ev0 st =
     (case List.find (\<lambda>r. cs_client_session_id r = clientSessionID) (st_sessions st) of
        None \<Rightarrow> (Inl (SessionNotFound clientSessionID), st)
      | Some sess \<Rightarrow>
          let ev = complete_event now (cs_next_sequence sess) ev0;
              row = new_outbox_row now (Suc (length (st_outbox st))) clientSessionID (cs_server_session_id sess) ev;
              newNext = (if cs_next_sequence sess < sv_sequence ev + 1 then sv_sequence ev + 1 else cs_next_sequence sess)
          in if list_ex (\<lambda>r. ox_event_id r = sv_event_id ev) (st_outbox st) then (Inl InsertOutbox, st)
             else (Inr ev, st\<lparr>st_outbox := st_outbox st @ [row],
                     st_sessions := update_where (\<lambda>r. cs_client_session_id r = clientSessionID)
                       (\<lambda>r. r\<lparr>cs_next_sequence := newNext, cs_updated_at := now\<rparr>) (st_sessions st)\<rparr>))"

definition outbox_event :: "outbox_row \<Rightarrow> OutboxEvent" where
  "outbox_event r =
     \<lparr>oq_id = ox_id r, oq_client_session_id = ox_client_session_id r, oq_server_session_id = ox_server_session_id r,
      oq_event = \<lparr>sv_schema_version = EventSchemaVersion, sv_event_id = ox_event_id r, sv_type = ox_event_type r,
        sv_sequence = ox_sequence r, sv_client_time = ox_client_time r, sv_payload = ox_payload r\<rparr>,
      oq_acked = False\<rparr>"

definition ListPendingEvents :: "Store \<Rightarrow> int \<Rightarrow> OutboxEvent list" where
  "ListPendingEvents st limit0 =
     (let limit = (if limit0 \<le> 0 then 100 else limit0)
      in map outbox_event (take (nat limit)
           (sort_key ox_client_session_id (sort_key ox_sequence (filter (\<lambda>r. \<not> ox_acked r) (st_outbox st))))))"

definition AckEvents :: "time \<Rightarrow> string \<Rightarrow> int \<Rightarrow> Store \<Rightarrow> Store" where
  "AckEvents now clientSessionID throughSequence st =
     st\<lparr>st_outbox := update_where
           (\<lambda>r. ox_client_session_id r = clientSessionID \<and> ox_sequence r \<le> throughSequence \<and> \<not> ox_acked r)
           (\<lambda>r. r\<lparr>ox_acked := True\<rparr>) (st_outbox st),
        st_sessions := update_where (\<lambda>r. cs_client_session_id r = clientSessionID)
           (\<lambda>r. r\<lparr>cs_last_acked_sequence :=
                    (if cs_last_acked_sequence r < throughSequence then throughSequence else cs_last_acked_sequence r),
                  cs_updated_at := now\<rparr>) (st_sessions st)\<rparr>"

section \<open>Completions\<close>

definition SaveCompletionIntent :: "time \<Rightarrow> string \<Rightarrow> string \<Rightarrow> CompletionRequest \<Rightarrow> Store \<Rightarrow> Store" where
  "SaveCompletionIntent now clientSessionID serverSessionID req st =
     st\<lparr>st_completions := upsert co_completion_id
           \<lparr>co_completion_id = cq_completion_id req, co_client_session_id = clientSessionID,
            co_server_session_id = serverSessionID, co_request = req, co_response = None, co_acked = False,
            co_created_at = now, co_updated_at = now\<rparr>
           (\<lambda>r. r\<lparr>co_request := req,
                  co_server_session_id := (if serverSessionID \<noteq> [] then serverSessionID else co_server_session_id r),
                  co_updated_at := now\<rparr>) (st_completions st)\<rparr>"

definition MarkCompletionAcked :: "time \<Rightarrow> string \<Rightarrow> CompletionResult \<Rightarrow> Store \<Rightarrow> Store" where
  "MarkCompletionAcked now completionID result st =
     st\<lparr>st_completions := update_where (\<lambda>r. co_completion_id r = completionID)
           (\<lambda>r. r\<lparr>co_acked := True, co_response := Some result, co_updated_at := now\<rparr>) (st_completions st)\<rparr>"

definition ListPendingCompletions :: "Store \<Rightarrow> CompletionIntent list" where
  "ListPendingCompletions st =
     sort_key (\<lambda>r. format_rfc3339nano (co_created_at r)) (filter (\<lambda>r. \<not> co_acked r) (st_completions st))"

definition GetCompletion :: "Store \<Rightarrow> string \<Rightarrow> store_error + CompletionIntent" where
  "GetCompletion st completionID =
     (case List.find (\<lambda>r. co_completion_id r = completionID) (st_completions st) of
        None \<Rightarrow> Inl NotFound | Some r \<Rightarrow> Inr r)"

section \<open>Artifacts\<close>

definition SavePendingArtifact :: "time \<Rightarrow> string \<Rightarrow> string \<Rightarrow> ArtifactMeta \<Rightarrow> Store \<Rightarrow> Store" where
  "SavePendingArtifact now clientSessionID serverSessionID meta st =
     st\<lparr>st_artifacts := upsert af_artifact_id
           \<lparr>af_artifact_id = am_artifact_id meta, af_client_session_id = clientSessionID,
            af_server_session_id = serverSessionID, af_meta = meta, af_acked = False, af_created_at = now\<rparr>
           (\<lambda>r. r\<lparr>af_meta := meta,
                  af_server_session_id := (if serverSessionID \<noteq> [] then serverSessionID else af_server_session_id r)\<rparr>)
           (st_artifacts st)\<rparr>"

definition ListPendingArtifacts :: "Store \<Rightarrow> PendingArtifact list" where
  "ListPendingArtifacts st =
     sort_key (\<lambda>r. format_rfc3339nano (af_created_at r)) (filter (\<lambda>r. \<not> af_acked r) (st_artifacts st))"

definition MarkArtifactAcked :: "string \<Rightarrow> Store \<Rightarrow> Store" where
  "MarkArtifactAcked artifactID st =
     st\<lparr>st_artifacts := update_where (\<lambda>r. af_artifact_id r = artifactID) (\<lambda>r. r\<lparr>af_acked := True\<rparr>) (st_artifacts st)\<rparr>"

section \<open>Responses\<close>

definition SaveResponseDraft :: "time \<Rightarrow> string \<Rightarrow> string \<Rightarrow> string \<Rightarrow> Store \<Rightarrow> Store" where
  "SaveResponseDraft now clientSessionID taskID body st =
     st\<lparr>st_drafts := upsert (\<lambda>r. (dt_client_session_id r, dt_task_id r))
           \<lparr>dt_client_session_id = clientSessionID, dt_task_id = taskID, dt_body = body, dt_updated_at = now\<rparr>
           (\<lambda>r. r\<lparr>dt_body := body, dt_updated_at := now\<rparr>) (st_drafts st)\<rparr>"

definition GetResponseDraft :: "Store \<Rightarrow> string \<Rightarrow> string \<Rightarrow> string" where
  "GetResponseDraft st clientSessionID taskID =
     (case List.find (\<lambda>r. dt_client_session_id r = clientSessionID \<and> dt_task_id r = taskID) (st_drafts st) of
        None \<Rightarrow> [] | Some r \<Rightarrow> dt_body r)"

definition SaveResponseIntent :: "time \<Rightarrow> string \<Rightarrow> string \<Rightarrow> ResponseSubmission \<Rightarrow> Store \<Rightarrow> Store" where
  "SaveResponseIntent now clientSessionID serverSessionID req st =
     st\<lparr>st_responses := upsert rp_submission_id
           \<lparr>rp_submission_id = sb_submission_id req, rp_client_session_id = clientSessionID,
            rp_server_session_id = serverSessionID, rp_task_id = sb_task_id req, rp_request = req, rp_response = None,
            rp_acked = False, rp_created_at = now, rp_updated_at = now\<rparr>
           (\<lambda>r. r\<lparr>rp_request := req,
                  rp_server_session_id := (if serverSessionID \<noteq> [] then serverSessionID else rp_server_session_id r),
                  rp_updated_at := now\<rparr>) (st_responses st)\<rparr>"

definition MarkResponseAcked :: "time \<Rightarrow> string \<Rightarrow> ResponseSubmissionResult \<Rightarrow> Store \<Rightarrow> Store" where
  "MarkResponseAcked now submissionID result st =
     st\<lparr>st_responses := update_where (\<lambda>r. rp_submission_id r = submissionID)
           (\<lambda>r. r\<lparr>rp_acked := True, rp_response := Some result, rp_updated_at := now\<rparr>) (st_responses st)\<rparr>"

definition ListPendingResponses :: "Store \<Rightarrow> ResponseIntent list" where
  "ListPendingResponses st =
     sort_key (\<lambda>r. format_rfc3339nano (rp_created_at r)) (filter (\<lambda>r. \<not> rp_acked r) (st_responses st))"

definition ListAckedResponseTaskIDs :: "Store \<Rightarrow> string \<Rightarrow> string list" where
  "ListAckedResponseTaskIDs st clientSessionID =
     remdups (map rp_task_id (filter (\<lambda>r. rp_client_session_id r = clientSessionID \<and> rp_acked r) (st_responses st)) @
              map rp_task_id (filter (\<lambda>r. rp_client_session_id r = clientSessionID) (st_responses st)))"

section \<open>What is pending\<close>

record PendingSync =
  pn_events :: "OutboxEvent list"
  pn_completions :: "CompletionIntent list"
  pn_artifacts :: "PendingArtifact list"
  pn_event_count :: nat
  pn_complete_count :: nat
  pn_artifact_count :: nat

definition GetPendingSync :: "Store \<Rightarrow> PendingSync" where
  "GetPendingSync st =
     (let evs = ListPendingEvents st 1000; cmps = ListPendingCompletions st; arts = ListPendingArtifacts st
      in \<lparr>pn_events = evs, pn_completions = cmps, pn_artifacts = arts, pn_event_count = length evs,
          pn_complete_count = length cmps, pn_artifact_count = length arts\<rparr>)"

text \<open>The document of a revision with the notes for the parent removed.\<close>

definition Store_DecodeActivityContent :: "ActivityContent option \<Rightarrow> ActivityContent option" where
  "Store_DecodeActivityContent = map_option (\<lambda>c. c\<lparr>ac_blocks := StudentBlocks (ac_blocks c)\<rparr>)"

end
