(* ===== verification/Client_Sync.thy ===== *)
theory Client_Sync
  imports Client_Cache
begin

text \<open>
  The workstation's API client and its synchronisation pass (\<^verbatim>\<open>studentclient/api/client.go\<close>,
  \<^verbatim>\<open>studentclient/sync/sync.go\<close>): download the work queue page by page, then send the queued events, artifacts,
  completions and responses.  The network is the record \<open>transport\<close>: for each request, what comes back (an error of
  the connection, or a status with its body) and what became of the server, whose state is the type variable; a
  request may reach the server and its reply be lost.  \<open>rs_value\<close> is the decoded body, \<open>None\<close> when it does not
  decode.  The download may never end when the server keeps returning new cursors, so its loop takes the number of
  requests it may make and returns \<open>None\<close> when they do not suffice.
\<close>

section \<open>The API client\<close>

datatype api_error = ErrUnauthorized string | ErrHTTP nat string string | ErrOther string

record 'a response =
  rs_code :: nat
  rs_body :: string
  rs_value :: "'a option"

fun decimal_nat :: "nat \<Rightarrow> string" where
  "decimal_nat n = (if n < 10 then [digit_char (int n)] else decimal_nat (n div 10) @ [digit_char (int (n mod 10))])"

declare decimal_nat.simps [simp del]

text \<open>\<^verbatim>\<open>url.QueryEscape\<close> and \<^verbatim>\<open>url.PathEscape\<close>.\<close>

definition unreserved :: "char \<Rightarrow> bool" where
  "unreserved c = (let n = of_char c :: nat in
     (48 \<le> n \<and> n \<le> 57) \<or> (65 \<le> n \<and> n \<le> 90) \<or> (97 \<le> n \<and> n \<le> 122) \<or> c \<in> set ''-_.~'')"

definition percent :: "char \<Rightarrow> string" where
  "percent c = (let n = of_char c :: nat in [CHR ''%'', ''0123456789ABCDEF'' ! (n div 16), ''0123456789ABCDEF'' ! (n mod 16)])"

definition query_escape :: "string \<Rightarrow> string" where
  "query_escape s = concat (map (\<lambda>c. if unreserved c then [c] else if c = CHR '' '' then ''+'' else percent c) s)"

definition path_escape :: "string \<Rightarrow> string" where
  "path_escape s = concat (map (\<lambda>c. if unreserved c \<or> c \<in> set ''$&+=:@'' then [c] else percent c) s)"

definition ellipsis :: string where
  "ellipsis = [char_of (226 :: nat), char_of (128 :: nat), char_of (166 :: nat)]"

text \<open>The text of an error; \<^verbatim>\<open>ErrHTTP\<close> carries the status, the body and the operation.\<close>

fun api_error_text :: "api_error \<Rightarrow> string" where
  "api_error_text (ErrUnauthorized m) = (if m = [] then ''unauthorized'' else m)"
| "api_error_text (ErrHTTP status body op) =
     op @ '': HTTP '' @ decimal_nat status @ '': '' @ (if length body > 200 then take 200 body @ ellipsis else body)"
| "api_error_text (ErrOther m) = m"

definition read_response :: "string \<Rightarrow> 'a \<Rightarrow> string + 'a response \<Rightarrow> api_error + 'a" where
  "read_response op zero reply = (case reply of
     Inl e \<Rightarrow> Inl (ErrOther (op @ '': '' @ e))
   | Inr r \<Rightarrow>
       if rs_code r = 401 then Inl (ErrUnauthorized (trim_space (rs_body r)))
       else if rs_code r < 200 \<or> 300 \<le> rs_code r then Inl (ErrHTTP (rs_code r) (rs_body r) op)
       else if rs_body r = [] \<or> rs_code r = 204 then Inr zero
       else (case rs_value r of None \<Rightarrow> Inl (ErrOther ''decode response'') | Some v \<Rightarrow> Inr v))"

definition doJSON :: "string \<Rightarrow> string \<Rightarrow> 'a \<Rightarrow> ('s \<Rightarrow> (string + 'a response) \<times> 's) \<Rightarrow> 's \<Rightarrow> (api_error + 'a) \<times> 's" where
  "doJSON token op zero send srv =
     (if token = [] then (Inl (ErrUnauthorized ''missing device token''), srv)
      else case send srv of (reply, srv') \<Rightarrow> (read_response op zero reply, srv'))"

record WorkResponse =
  wp_items :: "WorkItem list"
  wp_cursor :: string
  wp_mode :: string
  wp_has_more :: bool

record 's transport =
  hx_work :: "string \<Rightarrow> int \<Rightarrow> 's \<Rightarrow> (string + WorkResponse response) \<times> 's"
  hx_capabilities :: "'s \<Rightarrow> (string + unit response) \<times> 's"
  hx_events :: "string \<Rightarrow> SessionEvent list \<Rightarrow> 's \<Rightarrow> (string + int response) \<times> 's"
  hx_artifact :: "string \<Rightarrow> ArtifactMeta \<Rightarrow> 's \<Rightarrow> (string + unit response) \<times> 's"
  hx_complete :: "string \<Rightarrow> CompletionRequest \<Rightarrow> 's \<Rightarrow> (string + CompletionResult response) \<times> 's"
  hx_response :: "string \<Rightarrow> ResponseSubmission \<Rightarrow> 's \<Rightarrow> (string + ResponseSubmissionResult response) \<times> 's"

definition zero_work :: WorkResponse where
  "zero_work = \<lparr>wp_items = [], wp_cursor = [], wp_mode = [], wp_has_more = False\<rparr>"

definition zero_completion :: CompletionResult where
  "zero_completion = \<lparr>cr_schema_version = [], cr_completion_id = [], cr_accepted = False, cr_request_digest = [],
     cr_observations = [], cr_evidence_ids = [], cr_mastery_snapshot = [], cr_assignment_completion = None,
     cr_mastery_transitions = [], cr_message = []\<rparr>"

definition zero_response :: ResponseSubmissionResult where
  "zero_response = \<lparr>sx_schema_version = [], sx_submission_id = [], sx_response_id = [], sx_status = [],
     sx_evidence_ids = [], sx_message = [], sx_review_required = False\<rparr>"

text \<open>The path of a work request; the parameters are encoded in the order of their names.\<close>

definition work_path :: "string \<Rightarrow> int \<Rightarrow> string" where
  "work_path after limit =
     (let q = (if after \<noteq> [] then [''after='' @ query_escape after] else []) @
              (if 0 < limit then [''limit='' @ decimal_nat (nat limit)] else [])
      in ''/student/work'' @ (if q = [] then [] else ''?'' @ join ''&'' q))"

definition session_path :: "string \<Rightarrow> string \<Rightarrow> string" where
  "session_path sessionID what = ''/student/sessions/'' @ path_escape sessionID @ ''/'' @ what"

definition Work :: "'s transport \<Rightarrow> string \<Rightarrow> string \<Rightarrow> int \<Rightarrow> 's \<Rightarrow> (api_error + WorkResponse) \<times> 's" where
  "Work hx token after limit srv =
     (case doJSON token (''GET '' @ work_path after limit) zero_work (hx_work hx after limit) srv of
        (Inl e, srv') \<Rightarrow> (Inl e, srv')
      | (Inr out, srv') \<Rightarrow>
          (Inr (if wp_mode out = []
                then out\<lparr>wp_mode := (if after = [] then WorkModeSnapshot else WorkModeIncremental)\<rparr> else out), srv'))"

definition ReportCapabilities :: "'s transport \<Rightarrow> string \<Rightarrow> 's \<Rightarrow> (api_error + unit) \<times> 's" where
  "ReportCapabilities hx token = doJSON token ''POST /student/device/capabilities'' () (hx_capabilities hx)"

definition PostEvents :: "'s transport \<Rightarrow> string \<Rightarrow> string \<Rightarrow> SessionEvent list \<Rightarrow> 's \<Rightarrow> (api_error + int) \<times> 's" where
  "PostEvents hx token sessionID events =
     doJSON token (''POST '' @ session_path sessionID ''events'') 0 (hx_events hx sessionID events)"

definition PostArtifact :: "'s transport \<Rightarrow> string \<Rightarrow> string \<Rightarrow> ArtifactMeta \<Rightarrow> 's \<Rightarrow> (api_error + unit) \<times> 's" where
  "PostArtifact hx token sessionID meta =
     doJSON token (''POST '' @ session_path sessionID ''artifacts'') () (hx_artifact hx sessionID meta)"

definition Complete :: "'s transport \<Rightarrow> string \<Rightarrow> string \<Rightarrow> CompletionRequest \<Rightarrow> 's \<Rightarrow> (api_error + CompletionResult) \<times> 's" where
  "Complete hx token sessionID req =
     doJSON token (''POST '' @ session_path sessionID ''complete'') zero_completion (hx_complete hx sessionID req)"

definition SubmitResponse ::
  "'s transport \<Rightarrow> string \<Rightarrow> string \<Rightarrow> ResponseSubmission \<Rightarrow> 's \<Rightarrow> (api_error + ResponseSubmissionResult) \<times> 's" where
  "SubmitResponse hx token sessionID req =
     doJSON token (''POST '' @ session_path sessionID ''responses'') zero_response (hx_response hx sessionID req)"

section \<open>Downloading the work queue\<close>

datatype sync_error = ApiError api_error | StoreError store_error | NoToken

definition DefaultWorkPageLimit :: int where
  "DefaultWorkPageLimit = 100"

definition cursor_rejected :: "api_error \<Rightarrow> bool" where
  "cursor_rejected err = (case err of
     ErrHTTP status body op \<Rightarrow>
       status = 400 \<and> (contains_str body ''cursor'' \<or> contains_str (api_error_text err) ''cursor'')
   | _ \<Rightarrow> False)"

text \<open>One request of the loop; a rejected cursor drops the progress and asks for a snapshot.\<close>

definition fetch_page ::
  "'s transport \<Rightarrow> string \<Rightarrow> string \<Rightarrow> string \<Rightarrow> Store \<Rightarrow> 's \<Rightarrow> (api_error + string \<times> string \<times> WorkResponse) \<times> Store \<times> 's" where
  "fetch_page hx token after mode st srv =
     (case Work hx token after DefaultWorkPageLimit srv of
        (Inr work, srv1) \<Rightarrow> (Inr (after, mode, work), st, srv1)
      | (Inl err, srv1) \<Rightarrow>
          if \<not> cursor_rejected err then (Inl err, st, srv1)
          else
            let st1 = BeginWorkPage WorkModeSnapshot (ResetWorkSyncCursor st)
            in case Work hx token [] DefaultWorkPageLimit srv1 of
                 (Inl err2, srv2) \<Rightarrow> (Inl err2, st1, srv2)
               | (Inr work, srv2) \<Rightarrow> (Inr ([], WorkModeSnapshot, work), st1, srv2))"

definition page_mode :: "int \<Rightarrow> string \<Rightarrow> string \<Rightarrow> WorkResponse \<Rightarrow> string" where
  "page_mode pulled after mode work =
     (if pulled \<noteq> 0 then mode
      else if wp_mode work \<noteq> [] then wp_mode work
      else if after = [] then WorkModeSnapshot else mode)"

definition page_has_more :: "string \<Rightarrow> WorkResponse \<Rightarrow> bool" where
  "page_has_more after work \<longleftrightarrow> wp_items work \<noteq> [] \<and>
     (wp_has_more work \<or>
      (DefaultWorkPageLimit \<le> int (length (wp_items work)) \<and> wp_cursor work \<noteq> [] \<and> wp_cursor work \<noteq> after))"

fun pull_pages ::
  "nat \<Rightarrow> 's transport \<Rightarrow> string \<Rightarrow> time \<Rightarrow> string \<Rightarrow> string \<Rightarrow> int \<Rightarrow> string \<Rightarrow> Store \<Rightarrow> 's \<Rightarrow>
     ((api_error + int \<times> string \<times> string) \<times> Store \<times> 's) option" where
  "pull_pages 0 hx token now after mode pulled finalCursor st srv = None"
| "pull_pages (Suc n) hx token now after mode pulled finalCursor st srv =
     (case fetch_page hx token after mode st srv of
        (Inl err, st1, srv1) \<Rightarrow> Some (Inl err, st1, srv1)
      | (Inr (after1, mode1, work), st1, srv1) \<Rightarrow>
          let mode2 = page_mode pulled after1 mode1 work;
              pageCursor = wp_cursor work;
              st2 = ApplyWorkPage now (wp_items work) pageCursor mode2 st1;
              pulled2 = pulled + int (length (wp_items work));
              final2 = (if pageCursor \<noteq> [] then pageCursor else finalCursor)
          in if \<not> page_has_more after1 work \<or> pageCursor = [] \<or> pageCursor = after1
             then Some (Inr (pulled2, final2, mode2), st2, srv1)
             else pull_pages n hx token now pageCursor mode2 pulled2 final2 st2 srv1)"

definition pull_start :: "WorkSyncState \<Rightarrow> string \<times> string" where
  "pull_start ws =
     (if ws_in_progress ws \<and> ws_page_cursor ws \<noteq> []
      then (ws_page_cursor ws, if ws_page_mode ws \<noteq> [] then ws_page_mode ws else WorkModeIncremental)
      else (ws_cursor ws, if ws_cursor ws = [] then WorkModeSnapshot else WorkModeIncremental))"

definition pullWork ::
  "nat \<Rightarrow> 's transport \<Rightarrow> string \<Rightarrow> time \<Rightarrow> Store \<Rightarrow> 's \<Rightarrow> ((api_error + int) \<times> Store \<times> 's) option" where
  "pullWork n hx token now st srv =
     (case pull_start (GetWorkSyncState st) of (after, mode) \<Rightarrow>
        (case pull_pages n hx token now after mode 0 after (BeginWorkPage mode st) srv of
           None \<Rightarrow> None
         | Some (Inl err, st1, srv1) \<Rightarrow> Some (Inl err, st1, srv1)
         | Some (Inr (pulled, finalCursor, mode'), st1, srv1) \<Rightarrow>
             Some (Inr pulled, CommitWorkSync now finalCursor mode' st1, srv1)))"

section \<open>Sending what is queued\<close>

text \<open>The server session of a queued row: its own, or that of its local session.\<close>

definition resolve_server_id :: "Store \<Rightarrow> string \<Rightarrow> string \<Rightarrow> store_error + string" where
  "resolve_server_id st clientID serverID =
     (if serverID \<noteq> [] then Inr serverID
      else map_sum id cs_server_session_id (Store_GetSession st clientID))"

record eventBatch =
  eb_client_id :: string
  eb_server_id :: string
  eb_events :: "OutboxEvent list"

definition add_to_batches :: "OutboxEvent \<Rightarrow> eventBatch list \<Rightarrow> eventBatch list" where
  "add_to_batches ev batches =
     (if batches = [] \<or> eb_client_id (last batches) \<noteq> oq_client_session_id ev
      then batches @ [\<lparr>eb_client_id = oq_client_session_id ev, eb_server_id = oq_server_session_id ev, eb_events = [ev]\<rparr>]
      else
        let b = last batches
        in butlast batches @ [b\<lparr>eb_events := eb_events b @ [ev],
             eb_server_id := (if eb_server_id b = [] then oq_server_session_id ev else eb_server_id b)\<rparr>])"

definition event_batches :: "OutboxEvent list \<Rightarrow> eventBatch list" where
  "event_batches pending = fold add_to_batches pending []"

fun flush_batches ::
  "'s transport \<Rightarrow> string \<Rightarrow> time \<Rightarrow> eventBatch list \<Rightarrow> nat \<Rightarrow> Store \<Rightarrow> 's \<Rightarrow> nat \<times> sync_error option \<times> Store \<times> 's" where
  "flush_batches hx token now [] flushed st srv = (flushed, None, st, srv)"
| "flush_batches hx token now (b # bs) flushed st srv =
     (case resolve_server_id st (eb_client_id b) (eb_server_id b) of
        Inl e \<Rightarrow> (flushed, Some (StoreError e), st, srv)
      | Inr serverID \<Rightarrow>
          if serverID = [] then flush_batches hx token now bs flushed st srv
          else (case PostEvents hx token serverID (map oq_event (eb_events b)) srv of
             (Inl e, srv1) \<Rightarrow> (flushed, Some (ApiError e), st, srv1)
           | (Inr ack, srv1) \<Rightarrow>
               flush_batches hx token now bs (flushed + length (eb_events b)) (AckEvents now (eb_client_id b) ack st) srv1))"

definition flushEvents :: "'s transport \<Rightarrow> string \<Rightarrow> time \<Rightarrow> Store \<Rightarrow> 's \<Rightarrow> nat \<times> sync_error option \<times> Store \<times> 's" where
  "flushEvents hx token now st srv =
     flush_batches hx token now (event_batches (ListPendingEvents st 500)) 0 st srv"

fun flush_artifacts ::
  "'s transport \<Rightarrow> string \<Rightarrow> PendingArtifact list \<Rightarrow> nat \<Rightarrow> Store \<Rightarrow> 's \<Rightarrow> nat \<times> sync_error option \<times> Store \<times> 's" where
  "flush_artifacts hx token [] sent st srv = (sent, None, st, srv)"
| "flush_artifacts hx token (a # as) sent st srv =
     (case resolve_server_id st (af_client_session_id a) (af_server_session_id a) of
        Inl e \<Rightarrow> (sent, Some (StoreError e), st, srv)
      | Inr serverID \<Rightarrow>
          if serverID = [] then flush_artifacts hx token as sent st srv
          else (case PostArtifact hx token serverID (af_meta a) srv of
             (Inl e, srv1) \<Rightarrow> (sent, Some (ApiError e), st, srv1)
           | (Inr _, srv1) \<Rightarrow> flush_artifacts hx token as (Suc sent) (MarkArtifactAcked (af_artifact_id a) st) srv1))"

definition flushArtifacts :: "'s transport \<Rightarrow> string \<Rightarrow> Store \<Rightarrow> 's \<Rightarrow> nat \<times> sync_error option \<times> Store \<times> 's" where
  "flushArtifacts hx token st srv = flush_artifacts hx token (ListPendingArtifacts st) 0 st srv"

fun flush_responses ::
  "'s transport \<Rightarrow> string \<Rightarrow> time \<Rightarrow> ResponseIntent list \<Rightarrow> nat \<Rightarrow> Store \<Rightarrow> 's \<Rightarrow> nat \<times> sync_error option \<times> Store \<times> 's" where
  "flush_responses hx token now [] sent st srv = (sent, None, st, srv)"
| "flush_responses hx token now (r # rs) sent st srv =
     (case resolve_server_id st (rp_client_session_id r) (rp_server_session_id r) of
        Inl e \<Rightarrow> (sent, Some (StoreError e), st, srv)
      | Inr serverID \<Rightarrow>
          if serverID = [] then flush_responses hx token now rs sent st srv
          else (case SubmitResponse hx token serverID (rp_request r) srv of
             (Inl e, srv1) \<Rightarrow> (sent, Some (ApiError e), st, srv1)
           | (Inr result, srv1) \<Rightarrow>
               flush_responses hx token now rs (Suc sent) (MarkResponseAcked now (rp_submission_id r) result st) srv1))"

definition flushResponses :: "'s transport \<Rightarrow> string \<Rightarrow> time \<Rightarrow> Store \<Rightarrow> 's \<Rightarrow> nat \<times> sync_error option \<times> Store \<times> 's" where
  "flushResponses hx token now st srv = flush_responses hx token now (ListPendingResponses st) 0 st srv"

definition completion_cancelled :: "api_error \<Rightarrow> bool" where
  "completion_cancelled err = (case err of
     ErrHTTP status body op \<Rightarrow> status = 400 \<and> contains_str (to_lower (body @ api_error_text err)) ''cancel''
   | _ \<Rightarrow> False)"

definition rejected_completion :: "CompletionRequest \<Rightarrow> CompletionResult" where
  "rejected_completion req = zero_completion\<lparr>cr_schema_version := CompletionSchemaVersion,
     cr_completion_id := cq_completion_id req, cr_accepted := False, cr_request_digest := cq_request_digest req,
     cr_observations := cq_observations req,
     cr_message := ''assignment cancelled; evidence retained for parent review''\<rparr>"

text \<open>Read the local session, set its state, write it back.\<close>

definition set_session_state :: "time \<Rightarrow> string \<Rightarrow> string \<Rightarrow> Store \<Rightarrow> Store" where
  "set_session_state now clientID state st = (case Store_GetSession st clientID of
     Inl _ \<Rightarrow> st | Inr sess \<Rightarrow> SaveSession now (sess\<lparr>cs_state := state\<rparr>) st)"

definition settle_completion :: "time \<Rightarrow> CompletionIntent \<Rightarrow> CompletionResult \<Rightarrow> Store \<Rightarrow> Store" where
  "settle_completion now c result st =
     (let st1 = MarkCompletionAcked now (co_completion_id c) result st
      in if cr_accepted result then set_session_state now (co_client_session_id c) ''completed'' st1
         else if contains_str (to_lower (cr_message result)) ''cancel''
         then set_session_state now (co_client_session_id c) ''cancelled_after_work'' st1
         else st1)"

fun flush_completions ::
  "'s transport \<Rightarrow> string \<Rightarrow> time \<Rightarrow> CompletionIntent list \<Rightarrow> nat \<Rightarrow> Store \<Rightarrow> 's \<Rightarrow> nat \<times> sync_error option \<times> Store \<times> 's" where
  "flush_completions hx token now [] sent st srv = (sent, None, st, srv)"
| "flush_completions hx token now (c # cs) sent st srv =
     (case resolve_server_id st (co_client_session_id c) (co_server_session_id c) of
        Inl e \<Rightarrow> (sent, Some (StoreError e), st, srv)
      | Inr serverID \<Rightarrow>
          if serverID = [] then flush_completions hx token now cs sent st srv
          else (case Complete hx token serverID (co_request c) srv of
             (Inl e, srv1) \<Rightarrow>
               if completion_cancelled e
               then flush_completions hx token now cs (Suc sent)
                      (set_session_state now (co_client_session_id c) ''cancelled_after_work''
                        (MarkCompletionAcked now (co_completion_id c) (rejected_completion (co_request c)) st)) srv1
               else (sent, Some (ApiError e), st, srv1)
           | (Inr result, srv1) \<Rightarrow>
               flush_completions hx token now cs (Suc sent) (settle_completion now c result st) srv1))"

definition flushCompletions :: "'s transport \<Rightarrow> string \<Rightarrow> time \<Rightarrow> Store \<Rightarrow> 's \<Rightarrow> nat \<times> sync_error option \<times> Store \<times> 's" where
  "flushCompletions hx token now st srv = flush_completions hx token now (ListPendingCompletions st) 0 st srv"

section \<open>One pass\<close>

definition StatusOnline :: string where "StatusOnline = ''online''"
definition StatusOffline :: string where "StatusOffline = ''offline''"
definition StatusSyncing :: string where "StatusSyncing = ''syncing''"
definition StatusAwaiting :: string where "StatusAwaiting = ''awaiting_sync''"
definition StatusRevoked :: string where "StatusRevoked = ''revoked''"
definition StatusIdle :: string where "StatusIdle = ''idle''"

record Result =
  rt_status :: string
  rt_work_items :: int
  rt_events_flushed :: nat
  rt_completions_sent :: nat
  rt_artifacts_sent :: nat
  rt_pending_events :: nat
  rt_pending_completes :: nat
  rt_err :: "sync_error option"

definition zero_result :: Result where
  "zero_result = \<lparr>rt_status = [], rt_work_items = 0, rt_events_flushed = 0, rt_completions_sent = 0,
     rt_artifacts_sent = 0, rt_pending_events = 0, rt_pending_completes = 0, rt_err = None\<rparr>"

text \<open>The loop's client token, its status and its last result.\<close>

record Loop =
  lo_token :: string
  lo_min_backoff :: duration
  lo_max_backoff :: duration
  lo_status :: string
  lo_last :: Result

definition New :: "string \<Rightarrow> Loop" where
  "New token = \<lparr>lo_token = token, lo_min_backoff = 500 * millisecond, lo_max_backoff = 30 * second,
     lo_status = StatusIdle, lo_last = zero_result\<rparr>"

definition set_status :: "string \<Rightarrow> Result \<Rightarrow> Loop \<Rightarrow> Result \<times> Loop" where
  "set_status status res l =
     (let res' = res\<lparr>rt_status := status\<rparr> in (res', l\<lparr>lo_status := status, lo_last := res'\<rparr>))"

definition ensureToken :: "Store \<Rightarrow> Loop \<Rightarrow> sync_error + Loop" where
  "ensureToken st l =
     (if lo_token l \<noteq> [] then Inr l
      else if DeviceToken st = [] then Inl NoToken
      else Inr (l\<lparr>lo_token := DeviceToken st\<rparr>))"

definition handleErr :: "Result \<Rightarrow> sync_error \<Rightarrow> Store \<Rightarrow> Loop \<Rightarrow> Result \<times> Loop" where
  "handleErr res0 err st l =
     (let res = res0\<lparr>rt_err := Some err\<rparr>
      in case err of
        ApiError (ErrUnauthorized m) \<Rightarrow> set_status StatusRevoked res l
      | _ \<Rightarrow>
          let pending = GetPendingSync st;
              res1 = res\<lparr>rt_pending_events := pn_event_count pending, rt_pending_completes := pn_complete_count pending\<rparr>
          in set_status (if 0 < rt_pending_events res1 \<or> 0 < rt_pending_completes res1 then StatusAwaiting else StatusOffline)
               res1 l)"

text \<open>The status of a pass without error.\<close>

definition finish_pass :: "Result \<Rightarrow> Store \<Rightarrow> Loop \<Rightarrow> Result \<times> Loop" where
  "finish_pass res0 st l =
     (let pending = GetPendingSync st;
          res = res0\<lparr>rt_pending_events := pn_event_count pending, rt_pending_completes := pn_complete_count pending\<rparr>;
          waiting = (0 < pn_event_count pending \<or> 0 < pn_complete_count pending \<or> 0 < pn_artifact_count pending \<or>
                     ListPendingResponses st \<noteq> [])
      in set_status (if waiting then StatusAwaiting else StatusOnline) res l)"

definition flush_all ::
  "'s transport \<Rightarrow> time \<Rightarrow> Result \<Rightarrow> Loop \<Rightarrow> Store \<Rightarrow> 's \<Rightarrow> (Result \<times> Loop) \<times> Store \<times> 's" where
  "flush_all hx now res0 l st0 srv0 =
     (case flushEvents hx (lo_token l) now st0 srv0 of (events, err1, st1, srv1) \<Rightarrow>
      let res1 = res0\<lparr>rt_events_flushed := events\<rparr> in
      case err1 of Some e \<Rightarrow> (handleErr res1 e st1 l, st1, srv1) | None \<Rightarrow>
     (case flushArtifacts hx (lo_token l) st1 srv1 of (arts, err2, st2, srv2) \<Rightarrow>
      let res2 = res1\<lparr>rt_artifacts_sent := arts\<rparr> in
      case err2 of Some e \<Rightarrow> (handleErr res2 e st2 l, st2, srv2) | None \<Rightarrow>
     (case flushCompletions hx (lo_token l) now st2 srv2 of (cmps, err3, st3, srv3) \<Rightarrow>
      let res3 = res2\<lparr>rt_completions_sent := cmps\<rparr> in
      case err3 of Some e \<Rightarrow> (handleErr res3 e st3 l, st3, srv3) | None \<Rightarrow>
     (case flushResponses hx (lo_token l) now st3 srv3 of (_, err4, st4, srv4) \<Rightarrow>
      case err4 of Some e \<Rightarrow> (handleErr res3 e st4 l, st4, srv4) | None \<Rightarrow>
      (finish_pass res3 st4 l, st4, srv4)))))"

definition SyncOnce ::
  "nat \<Rightarrow> 's transport \<Rightarrow> time \<Rightarrow> Loop \<Rightarrow> Store \<Rightarrow> 's \<Rightarrow> ((Result \<times> Loop) \<times> Store \<times> 's) option" where
  "SyncOnce n hx now l0 st srv0 =
     (case set_status StatusSyncing zero_result l0 of (res, l1) \<Rightarrow>
      case ensureToken st l1 of
        Inl err \<Rightarrow> Some (set_status StatusOffline (res\<lparr>rt_err := Some err\<rparr>) l1, st, srv0)
      | Inr l \<Rightarrow>
          let srv = snd (ReportCapabilities hx (lo_token l) srv0)
          in case pullWork n hx (lo_token l) now st srv of
               None \<Rightarrow> None
             | Some (Inl err, st1, srv1) \<Rightarrow> Some (handleErr res (ApiError err) st1 l, st1, srv1)
             | Some (Inr items, st1, srv1) \<Rightarrow> Some (flush_all hx now (res\<lparr>rt_work_items := items\<rparr>) l st1 srv1))"

section \<open>The backoff of the loop\<close>

definition first_backoff :: "Loop \<Rightarrow> duration" where
  "first_backoff l = (if lo_min_backoff l \<le> 0 then 500 * millisecond else lo_min_backoff l)"

definition max_backoff :: "Loop \<Rightarrow> duration" where
  "max_backoff l = (if lo_max_backoff l \<le> 0 then 30 * second else lo_max_backoff l)"

text \<open>
  What the loop does after a pass: stop when the device is revoked, otherwise wait (first component) and keep a
  backoff (second); \<open>jitter\<close> is the random draw, between 0 and half the backoff.
\<close>

definition Run_next :: "Loop \<Rightarrow> duration \<Rightarrow> duration \<Rightarrow> duration \<Rightarrow> Result \<Rightarrow> (duration \<times> duration) option" where
  "Run_next l interval jitter backoff res =
     (if rt_status res = StatusRevoked then None
      else if rt_err res \<noteq> None
      then Some (backoff + jitter, if max_backoff l < backoff * 2 then max_backoff l else backoff * 2)
      else Some (if interval \<le> 0 then 5 * second else interval, first_backoff l))"

end
