(* ===== verification/Client_Batches.thy ===== *)
theory Client_Batches
  imports Client_Sync
begin

text \<open>
  How the pending events of the outbox are cut into batches: nothing is dropped or repeated, a batch belongs to one
  local session, and a session that has a batch has its first unacknowledged event in it, whatever the limit of
  the query cuts off.
\<close>

section \<open>Grouping\<close>

lemma event_batches_snoc: "event_batches (xs @ [x]) = add_to_batches x (event_batches xs)"
  by (simp add: event_batches_def)

lemma event_batches_Nil [simp]: "event_batches [] = []"
  by (simp add: event_batches_def)

lemma add_to_batches_cases:
  obtains (fresh) "batches = [] \<or> eb_client_id (last batches) \<noteq> oq_client_session_id ev"
      "add_to_batches ev batches = batches @ [\<lparr>eb_client_id = oq_client_session_id ev, eb_server_id = oq_server_session_id ev, eb_events = [ev]\<rparr>]"
    | (extend) bs b where "batches = bs @ [b]" "eb_client_id b = oq_client_session_id ev"
      "add_to_batches ev batches = bs @ [b\<lparr>eb_events := eb_events b @ [ev],
         eb_server_id := (if eb_server_id b = [] then oq_server_session_id ev else eb_server_id b)\<rparr>]"
proof (cases "batches = [] \<or> eb_client_id (last batches) \<noteq> oq_client_session_id ev")
  case False
  then obtain bs b where "batches = bs @ [b]" by (metis append_butlast_last_id)
  with False extend [of bs b] show thesis by (simp add: add_to_batches_def Let_def)
qed (use fresh in \<open>simp add: add_to_batches_def\<close>)

lemma batches_concat: "concat (map eb_events (event_batches xs)) = xs"
proof (induction xs rule: rev_induct)
  case (snoc x xs)
  show ?case
    by (cases rule: add_to_batches_cases [of "event_batches xs" x]) (use snoc in \<open>simp_all add: event_batches_snoc\<close>)
qed simp

lemma in_batches: "e \<in> set xs \<longleftrightarrow> (\<exists>b \<in> set (event_batches xs). e \<in> set (eb_events b))"
  using arg_cong [OF batches_concat [of xs], of set] by auto

lemma batch_events:
  assumes "b \<in> set (event_batches xs)"
  shows "eb_events b \<noteq> [] \<and> (\<forall>e \<in> set (eb_events b). oq_client_session_id e = eb_client_id b)"
  using assms
proof (induction xs arbitrary: b rule: rev_induct)
  case (snoc x xs)
  show ?case
  proof (cases rule: add_to_batches_cases [of "event_batches xs" x])
    case fresh
    with snoc show ?thesis by (auto simp: event_batches_snoc)
  next
    case (extend bs c)
    have "\<forall>e \<in> set (eb_events c). oq_client_session_id e = eb_client_id c" using snoc.IH [of c] extend(1) by simp
    with extend snoc show ?thesis by (auto simp: event_batches_snoc)
  qed
qed simp

lemma batch_server:
  assumes "b \<in> set (event_batches xs)" "\<forall>e \<in> set (eb_events b). oq_server_session_id e = v"
  shows "eb_server_id b = v"
  using assms
proof (induction xs arbitrary: b rule: rev_induct)
  case (snoc x xs)
  show ?case
  proof (cases rule: add_to_batches_cases [of "event_batches xs" x])
    case fresh
    with snoc show ?thesis by (auto simp: event_batches_snoc)
  next
    case (extend bs c)
    show ?thesis
    proof (cases "b \<in> set bs")
      case False
      then have b: "b = c\<lparr>eb_events := eb_events c @ [x], eb_server_id := (if eb_server_id c = [] then oq_server_session_id x else eb_server_id c)\<rparr>"
        using snoc.prems(1) extend(3) by (simp add: event_batches_snoc)
      with snoc.prems(2) have "eb_server_id c = v" using snoc.IH [of c] extend(1) by simp
      with b snoc.prems(2) show ?thesis by simp
    qed (use snoc extend in auto)
  qed
qed simp

lemma batches_clients:
  assumes "sorted (map oq_client_session_id xs)"
  shows "sorted_wrt (<) (map eb_client_id (event_batches xs)) \<and>
    (\<forall>b \<in> set (event_batches xs). xs \<noteq> [] \<and> eb_client_id b \<le> oq_client_session_id (last xs)) \<and>
    (xs \<noteq> [] \<longrightarrow> event_batches xs \<noteq> [] \<and> eb_client_id (last (event_batches xs)) = oq_client_session_id (last xs))"
  using assms
proof (induction xs rule: rev_induct)
  case (snoc x xs)
  have s: "sorted (map oq_client_session_id xs)" and le: "\<forall>y \<in> set xs. oq_client_session_id y \<le> oq_client_session_id x"
    using snoc.prems by (auto simp: sorted_append)
  note ih = snoc.IH [OF s]
  have lx: "xs \<noteq> [] \<Longrightarrow> oq_client_session_id (last xs) \<le> oq_client_session_id x" using le by simp
  show ?case
  proof (cases rule: add_to_batches_cases [of "event_batches xs" x])
    case fresh
    have "eb_client_id b < oq_client_session_id x" if "b \<in> set (event_batches xs)" for b
    proof -
      have "event_batches xs \<noteq> []" "xs \<noteq> []" using that ih by auto
      with fresh(1) ih have "oq_client_session_id (last xs) \<noteq> oq_client_session_id x" by simp
      with ih that lx show ?thesis by (metis le_less_trans order_less_le)
    qed
    with fresh(2) ih show ?thesis by (auto simp: event_batches_snoc sorted_wrt_append intro: less_imp_le)
  next
    case (extend bs c)
    with ih lx show ?thesis by (auto simp: event_batches_snoc sorted_wrt_append)
  qed
qed simp

lemma batch_of_client:
  assumes "sorted (map oq_client_session_id xs)" "b \<in> set (event_batches xs)" "e \<in> set xs" "oq_client_session_id e = eb_client_id b"
  shows "e \<in> set (eb_events b)"
proof -
  obtain b' where b': "b' \<in> set (event_batches xs)" "e \<in> set (eb_events b')"
    using assms(3) in_batches [of e xs] by blast
  then have "eb_client_id b' = eb_client_id b" using batch_events [OF b'(1)] assms(4) by simp
  moreover have "distinct (map eb_client_id (event_batches xs))"
    using conjunct1 [OF batches_clients [OF assms(1)]] unfolding strict_sorted_iff by (rule conjunct2)
  ultimately have "b' = b" using b'(1) assms(2) inj_onD [of eb_client_id "set (event_batches xs)" b' b] by (simp add: distinct_map)
  with b'(2) show ?thesis by simp
qed

section \<open>The pending events\<close>

definition pending_rows :: "Store \<Rightarrow> outbox_row list" where
  "pending_rows st = sort_key ox_client_session_id (sort_key ox_sequence (filter (\<lambda>r. \<not> ox_acked r) (st_outbox st)))"

lemma ListPendingEvents_rows: "0 < n \<Longrightarrow> ListPendingEvents st n = map outbox_event (take (nat n) (pending_rows st))"
  by (simp add: ListPendingEvents_def pending_rows_def Let_def)

lemma pending_set: "set (pending_rows st) = {r \<in> set (st_outbox st). \<not> ox_acked r}"
  by (simp add: pending_rows_def)

lemma pending_sorted: "sorted (map ox_client_session_id (pending_rows st))"
  by (simp add: pending_rows_def)

text \<open>Sorting by session keeps the order by sequence number within a session.\<close>

lemma pending_by_sequence: "sorted (map ox_sequence (filter (\<lambda>r. ox_client_session_id r = c) (pending_rows st)))"
proof -
  have "filter (\<lambda>r. ox_client_session_id r = c) (pending_rows st) =
      filter (\<lambda>r. ox_client_session_id r = c) (sort_key ox_sequence (filter (\<lambda>r. \<not> ox_acked r) (st_outbox st)))"
    by (simp add: pending_rows_def sort_key_stable)
  then show ?thesis by (simp add: sorted_filter)
qed

lemma oq_of_row [simp]:
  "oq_client_session_id (outbox_event r) = ox_client_session_id r" "oq_server_session_id (outbox_event r) = ox_server_session_id r"
  "sv_event_id (oq_event (outbox_event r)) = ox_event_id r" "sv_sequence (oq_event (outbox_event r)) = ox_sequence r"
  by (simp_all add: outbox_event_def)

lemma batch_rows:
  assumes "b \<in> set (event_batches (ListPendingEvents st n))" "0 < n" "e \<in> set (eb_events b)"
  obtains r where "r \<in> set (st_outbox st)" "\<not> ox_acked r" "ox_client_session_id r = eb_client_id b" "e = outbox_event r"
proof -
  have "e \<in> set (ListPendingEvents st n)" using assms(1,3) in_batches by blast
  then obtain r where r: "e = outbox_event r" "r \<in> set (pending_rows st)"
    by (auto simp: ListPendingEvents_rows [OF assms(2)] dest: in_set_takeD)
  moreover have "oq_client_session_id e = eb_client_id b" using batch_events [OF assms(1)] assms(3) by simp
  ultimately show thesis using that by (auto simp: pending_set)
qed

text \<open>A pending event numbered below one of the session's batch is in the batch.\<close>

lemma batch_prefix:
  assumes "b \<in> set (event_batches (ListPendingEvents st n))" "0 < n" "e \<in> set (eb_events b)"
    "x \<in> set (st_outbox st)" "\<not> ox_acked x" "ox_client_session_id x = eb_client_id b" "ox_sequence x < sv_sequence (oq_event e)"
  shows "outbox_event x \<in> set (eb_events b)"
proof -
  let ?L = "pending_rows st" and ?c = "eb_client_id b"
  have take: "ListPendingEvents st n = map outbox_event (take (nat n) ?L)" by (rule ListPendingEvents_rows [OF assms(2)])
  have "e \<in> set (ListPendingEvents st n)" using assms(1,3) in_batches by blast
  then obtain r where r: "r \<in> set (take (nat n) ?L)" "e = outbox_event r" by (auto simp: take)
  have rc: "ox_client_session_id r = ?c" using batch_events [OF assms(1)] assms(3) r(2) by auto
  have "x \<in> set (take (nat n) ?L)"
  proof (rule ccontr)
    assume "x \<notin> set (take (nat n) ?L)"
    moreover have "x \<in> set ?L" using assms(4,5) by (simp add: pending_set)
    ultimately have dropped: "x \<in> set (drop (nat n) ?L)" by (metis UnE append_take_drop_id set_append)
    have "sorted (map ox_sequence (filter (\<lambda>r. ox_client_session_id r = ?c) (take (nat n) ?L @ drop (nat n) ?L)))"
      using pending_by_sequence [of ?c st] by simp
    then have "\<forall>y \<in> set (filter (\<lambda>r. ox_client_session_id r = ?c) (take (nat n) ?L)).
        \<forall>z \<in> set (filter (\<lambda>r. ox_client_session_id r = ?c) (drop (nat n) ?L)). ox_sequence y \<le> ox_sequence z"
      unfolding filter_append map_append sorted_append by auto
    with dropped have "ox_sequence r \<le> ox_sequence x" using r(1) rc assms(6) by simp
    with assms(7) r(2) show False by simp
  qed
  moreover have "sorted (map oq_client_session_id (ListPendingEvents st n))"
    using pending_sorted [of st] by (simp add: take o_def take_map [symmetric] sorted_wrt_take)
  ultimately show ?thesis
    by (intro batch_of_client [OF _ assms(1)]) (use assms(6) in \<open>auto simp: take\<close>)
qed

text \<open>A pending event with the least number of its session is sent with the session's batch.\<close>

lemma first_event_in_batch:
  assumes "b \<in> set (event_batches (ListPendingEvents st n))" "0 < n"
    "r \<in> set (st_outbox st)" "\<not> ox_acked r" "ox_client_session_id r = eb_client_id b"
    "\<And>x. x \<in> set (st_outbox st) \<Longrightarrow> ox_client_session_id x = eb_client_id b \<Longrightarrow> x \<noteq> r \<Longrightarrow> ox_sequence r < ox_sequence x"
  shows "outbox_event r \<in> set (eb_events b)"
proof -
  obtain e where e: "e \<in> set (eb_events b)" using batch_events [OF assms(1)] by (meson ex_in_conv set_empty)
  obtain x where x: "x \<in> set (st_outbox st)" "ox_client_session_id x = eb_client_id b" "e = outbox_event x"
    by (rule batch_rows [OF assms(1,2) e])
  show ?thesis
  proof (cases "x = r")
    case False
    with assms(6) x have "ox_sequence r < sv_sequence (oq_event e)" by simp
    then show ?thesis by (rule batch_prefix [OF assms(1,2) e assms(3-5)])
  qed (use e x in simp)
qed

end
