(* ===== verification/Outbox_Protocol.thy ===== *)
theory Outbox_Protocol
  imports Client_Batches
begin

text \<open>
  The protocol between the event outboxes of several workstations and a server that stores events by session and
  sequence number and acknowledges a complete beginning of a session: what the devices hold and what the server
  holds, as sets, the invariant that relates them, and the contract of the server as a locale.

  The counter of a local session can be set back: its row is read and later written back as a whole, and events may
  have been queued in between.  The invariant separates what holds of every session from what holds of the sessions
  whose counter was never set back.

  Two local sessions may be bound to one server session (the server returns the open session of an assignment to
  whoever asks for it).  Nothing is lost all the same: the session whose event 0 is stored first owns the server
  session, and a batch of any other local session has its own event 0 in it and is refused.
\<close>

section \<open>Views\<close>

text \<open>An event in its place: server session, sequence number, event id, and type, time and payload.\<close>

datatype content = Content string time params

type_synonym placed = "string \<times> int \<times> string \<times> content"

definition event_content :: "SessionEvent \<Rightarrow> content" where
  "event_content ev = Content (sv_type ev) (sv_client_time ev) (sv_payload ev)"

definition event_place :: "string \<Rightarrow> SessionEvent \<Rightarrow> placed" where
  "event_place sid ev = (sid, sv_sequence ev, sv_event_id ev, event_content ev)"

text \<open>
  What is tracked: for each device the rows of its outbox (local session, place) and its sessions (local session,
  server session, next number), the events of the server, the places of the acknowledged rows, the batches that
  were read for sending, the acknowledgements on their way back, the session rows that were read and may be
  written back, and the local sessions whose counter was set back.
\<close>

record protocol =
  pc_rows :: "uuid \<Rightarrow> (string \<times> placed) set"
  pc_sessions :: "uuid \<Rightarrow> (string \<times> string \<times> int) set"
  pc_events :: "placed set"
  pc_acked :: "uuid \<Rightarrow> placed set"
  pc_pool :: "(uuid \<times> eventBatch) set"
  pc_acks :: "(uuid \<times> string \<times> int) set"
  pc_reads :: "(uuid \<times> string \<times> string \<times> int) set"
  pc_reset :: "string set"

section \<open>The invariant\<close>

text \<open>A local session belongs to one device and has one server session and one counter.\<close>

definition sessions_single :: "protocol \<Rightarrow> bool" where
  "sessions_single x \<longleftrightarrow> (\<forall>d d' c v v' n n'. (c, v, n) \<in> pc_sessions x d \<longrightarrow> (c, v', n') \<in> pc_sessions x d' \<longrightarrow>
     d = d' \<and> v = v' \<and> n = n')"

text \<open>A session that has counted has an event 0, and so has one that has any event; the same of a row that was read.\<close>

definition first_queued :: "protocol \<Rightarrow> uuid \<Rightarrow> string \<Rightarrow> string \<Rightarrow> bool" where
  "first_queued x d c v \<longleftrightarrow> (\<exists>i k. (c, v, 0, i, k) \<in> pc_rows x d)"

definition counters_ok :: "int \<Rightarrow> protocol \<Rightarrow> bool" where
  "counters_ok limit x \<longleftrightarrow> (\<forall>d c v n. (c, v, n) \<in> pc_sessions x d \<longrightarrow> 0 \<le> n \<and> n < limit \<and> (0 < n \<longrightarrow> first_queued x d c v))"

definition rows_homed :: "int \<Rightarrow> protocol \<Rightarrow> bool" where
  "rows_homed limit x \<longleftrightarrow> (\<forall>d c v q i k. (c, v, q, i, k) \<in> pc_rows x d \<longrightarrow>
     0 \<le> q \<and> q < limit \<and> first_queued x d c v \<and> (\<exists>n. (c, v, n) \<in> pc_sessions x d))"

definition reads_ok :: "int \<Rightarrow> protocol \<Rightarrow> bool" where
  "reads_ok limit x \<longleftrightarrow> (\<forall>d c v n. (d, c, v, n) \<in> pc_reads x \<longrightarrow>
     0 \<le> n \<and> n < limit \<and> (0 < n \<longrightarrow> first_queued x d c v) \<and> (\<exists>m. (c, v, m) \<in> pc_sessions x d))"

text \<open>The events of a session whose counter was never set back are numbered from 0 to the counter, each number once.\<close>

definition rows_below :: "protocol \<Rightarrow> bool" where
  "rows_below x \<longleftrightarrow> (\<forall>d c v q i k. (c, v, q, i, k) \<in> pc_rows x d \<longrightarrow> c \<notin> pc_reset x \<longrightarrow> (\<exists>n. (c, v, n) \<in> pc_sessions x d \<and> q < n))"

definition rows_distinct :: "protocol \<Rightarrow> bool" where
  "rows_distinct x \<longleftrightarrow> (\<forall>d c v v' q i i' k k'. (c, v, q, i, k) \<in> pc_rows x d \<longrightarrow> (c, v', q, i', k') \<in> pc_rows x d \<longrightarrow>
     c \<notin> pc_reset x \<longrightarrow> i = i' \<and> k = k')"

definition rows_complete :: "protocol \<Rightarrow> bool" where
  "rows_complete x \<longleftrightarrow> (\<forall>d c v n q. (c, v, n) \<in> pc_sessions x d \<longrightarrow> c \<notin> pc_reset x \<longrightarrow> 0 \<le> q \<longrightarrow> q < n \<longrightarrow>
     (\<exists>i k. (c, v, q, i, k) \<in> pc_rows x d))"

text \<open>An event id names one row.\<close>

definition ids_single :: "protocol \<Rightarrow> bool" where
  "ids_single x \<longleftrightarrow> (\<forall>d d' c c' v v' q q' i k k'. (c, v, q, i, k) \<in> pc_rows x d \<longrightarrow> (c', v', q', i, k') \<in> pc_rows x d' \<longrightarrow>
     d = d' \<and> c = c' \<and> v = v' \<and> q = q' \<and> k = k')"

text \<open>Below the numbers the server gives its own events, what it stores was sent by a device, where it belongs.\<close>

definition events_sent :: "int \<Rightarrow> protocol \<Rightarrow> bool" where
  "events_sent limit x \<longleftrightarrow> (\<forall>v q i k. (v, q, i, k) \<in> pc_events x \<longrightarrow> q < limit \<longrightarrow> (\<exists>d c. (c, v, q, i, k) \<in> pc_rows x d))"

definition events_placed :: "protocol \<Rightarrow> bool" where
  "events_placed x \<longleftrightarrow> (\<forall>d c v v' q q' i k k'. (v, q, i, k) \<in> pc_events x \<longrightarrow> (c, v', q', i, k') \<in> pc_rows x d \<longrightarrow>
     v' = v \<and> q' = q \<and> k' = k)"

text \<open>A local session owns its server session once an event 0 of it is stored there; it is stored if any event of it is.\<close>

definition owns :: "protocol \<Rightarrow> string \<Rightarrow> string \<Rightarrow> bool" where
  "owns x c v \<longleftrightarrow> (\<exists>d i k. (c, v, 0, i, k) \<in> pc_rows x d \<and> (v, 0, i, k) \<in> pc_events x)"

definition events_rooted :: "protocol \<Rightarrow> bool" where
  "events_rooted x \<longleftrightarrow> (\<forall>d c v q i k. (c, v, q, i, k) \<in> pc_rows x d \<longrightarrow> (v, q, i, k) \<in> pc_events x \<longrightarrow> owns x c v)"

text \<open>An acknowledged row is of a session that owns its server session; it is stored unless the counter was set back.\<close>

definition acked_ok :: "protocol \<Rightarrow> bool" where
  "acked_ok x \<longleftrightarrow> (\<forall>d v q i k. (v, q, i, k) \<in> pc_acked x d \<longrightarrow>
     (\<exists>c. (c, v, q, i, k) \<in> pc_rows x d \<and> owns x c v \<and> (c \<notin> pc_reset x \<longrightarrow> (v, q, i, k) \<in> pc_events x)))"

text \<open>A batch holds rows of its session, an event 0 among them unless the session owns its server session.\<close>

definition batch_ok :: "protocol \<Rightarrow> uuid \<Rightarrow> eventBatch \<Rightarrow> bool" where
  "batch_ok x d b \<longleftrightarrow>
     (\<exists>n. (eb_client_id b, eb_server_id b, n) \<in> pc_sessions x d) \<and> eb_events b \<noteq> [] \<and>
     (\<forall>e \<in> set (eb_events b). (eb_client_id b, event_place (eb_server_id b) (oq_event e)) \<in> pc_rows x d) \<and>
     (owns x (eb_client_id b) (eb_server_id b) \<or> (\<exists>e \<in> set (eb_events b). sv_sequence (oq_event e) = 0))"

definition pool_ok :: "protocol \<Rightarrow> bool" where
  "pool_ok x \<longleftrightarrow> (\<forall>d b. (d, b) \<in> pc_pool x \<longrightarrow> batch_ok x d b)"

definition acks_ok :: "protocol \<Rightarrow> bool" where
  "acks_ok x \<longleftrightarrow> (\<forall>d c n. (d, c, n) \<in> pc_acks x \<longrightarrow> (\<exists>v m. (c, v, m) \<in> pc_sessions x d \<and> owns x c v \<and>
     (c \<notin> pc_reset x \<longrightarrow> n < m \<and> (\<forall>q i k. (c, v, q, i, k) \<in> pc_rows x d \<longrightarrow> q \<le> n \<longrightarrow> (v, q, i, k) \<in> pc_events x))))"

definition protocol_ok :: "int \<Rightarrow> protocol \<Rightarrow> bool" where
  "protocol_ok limit x \<longleftrightarrow> sessions_single x \<and> counters_ok limit x \<and> rows_homed limit x \<and> reads_ok limit x \<and>
     rows_below x \<and> rows_distinct x \<and> rows_complete x \<and> ids_single x \<and> events_sent limit x \<and> events_placed x \<and>
     events_rooted x \<and> acked_ok x \<and> pool_ok x \<and> acks_ok x"

lemma protocol_okD:
  assumes "protocol_ok limit x"
  shows "sessions_single x" "counters_ok limit x" "rows_homed limit x" "reads_ok limit x" "rows_below x" "rows_distinct x"
    "rows_complete x" "ids_single x" "events_sent limit x" "events_placed x" "events_rooted x" "acked_ok x" "pool_ok x" "acks_ok x"
  using assms by (simp_all add: protocol_ok_def)

lemmas protocol_defs = sessions_single_def counters_ok_def rows_homed_def reads_ok_def rows_below_def rows_distinct_def
  rows_complete_def ids_single_def events_sent_def events_placed_def events_rooted_def acked_ok_def pool_ok_def acks_ok_def

lemma row_home:
  "rows_homed limit x \<Longrightarrow> (c, v, q, i, k) \<in> pc_rows x d \<Longrightarrow> 0 \<le> q \<and> q < limit \<and> first_queued x d c v \<and> (\<exists>n. (c, v, n) \<in> pc_sessions x d)"
  unfolding rows_homed_def by blast

lemma session_same:
  "sessions_single x \<Longrightarrow> (c, v, n) \<in> pc_sessions x d \<Longrightarrow> (c, v', n') \<in> pc_sessions x d' \<Longrightarrow> d = d' \<and> v = v' \<and> n = n'"
  unfolding sessions_single_def by blast

lemma id_same:
  "ids_single x \<Longrightarrow> (c, v, q, i, k) \<in> pc_rows x d \<Longrightarrow> (c', v', q', i, k') \<in> pc_rows x d' \<Longrightarrow>
     d = d' \<and> c = c' \<and> v = v' \<and> q = q' \<and> k = k'"
  unfolding ids_single_def by blast

text \<open>Rows of one local session are on one device and have one server session.\<close>

lemma row_same:
  assumes "protocol_ok limit x" "(c, v, q, i, k) \<in> pc_rows x d" "(c, v', q', i', k') \<in> pc_rows x d'"
  shows "d = d' \<and> v = v'"
  using row_home [OF protocol_okD(3) [OF assms(1)] assms(2)] row_home [OF protocol_okD(3) [OF assms(1)] assms(3)]
    session_same [OF protocol_okD(1) [OF assms(1)]] by blast

lemma row_below:
  assumes "protocol_ok limit x" "(c, v, q, i, k) \<in> pc_rows x d" "c \<notin> pc_reset x" "(c, v', n) \<in> pc_sessions x d'"
  shows "v' = v \<and> d' = d \<and> q < n"
proof -
  obtain m where "(c, v, m) \<in> pc_sessions x d" "q < m"
    using protocol_okD(5) [OF assms(1), unfolded rows_below_def] assms(2,3) by blast
  with session_same [OF protocol_okD(1) [OF assms(1)] assms(4)] show ?thesis by blast
qed

text \<open>More rows and more stored events keep ownership and what rests on it.\<close>

lemma owns_mono:
  assumes "owns x c v" "\<And>d. pc_rows x d \<subseteq> pc_rows y d" "pc_events x \<subseteq> pc_events y"
  shows "owns y c v"
  using assms unfolding owns_def subset_iff by blast

lemma first_queued_mono: "first_queued x d c v \<Longrightarrow> pc_rows x d \<subseteq> pc_rows y d \<Longrightarrow> first_queued y d c v"
  unfolding first_queued_def by blast

lemma batch_ok_mono:
  assumes "batch_ok x d b" "\<And>d. pc_rows x d \<subseteq> pc_rows y d" "pc_events x \<subseteq> pc_events y"
    "\<And>c v n. (c, v, n) \<in> pc_sessions x d \<Longrightarrow> \<exists>m. (c, v, m) \<in> pc_sessions y d"
  shows "batch_ok y d b"
proof -
  obtain n where "(eb_client_id b, eb_server_id b, n) \<in> pc_sessions x d" using assms(1) by (auto simp: batch_ok_def)
  from assms(4) [OF this] have "\<exists>m. (eb_client_id b, eb_server_id b, m) \<in> pc_sessions y d" .
  moreover have "owns y (eb_client_id b) (eb_server_id b) \<or> (\<exists>e \<in> set (eb_events b). sv_sequence (oq_event e) = 0)"
    using assms(1) owns_mono [OF _ assms(2,3)] unfolding batch_ok_def by blast
  ultimately show ?thesis using assms(1,2) unfolding batch_ok_def by blast
qed

lemma pool_mono:
  assumes "pool_ok x" "pc_pool y = pc_pool x" "\<And>d. pc_rows x d \<subseteq> pc_rows y d" "pc_events x \<subseteq> pc_events y"
    "\<And>d c v n. (c, v, n) \<in> pc_sessions x d \<Longrightarrow> \<exists>m. (c, v, m) \<in> pc_sessions y d"
  shows "pool_ok y"
  using assms(1,2) batch_ok_mono [OF _ assms(3,4,5)] unfolding pool_ok_def by simp

lemma events_sent_mono:
  assumes "events_sent limit x" "\<And>v q i k. (v, q, i, k) \<in> pc_events y \<Longrightarrow> q < limit \<Longrightarrow> (v, q, i, k) \<in> pc_events x"
    "\<And>d. pc_rows x d \<subseteq> pc_rows y d"
  shows "events_sent limit y"
  using assms unfolding events_sent_def subset_iff by meson

section \<open>Steps of the devices\<close>

definition open_step :: "uuid \<Rightarrow> string \<Rightarrow> string \<Rightarrow> protocol \<Rightarrow> protocol" where
  "open_step d c v x = x\<lparr>pc_sessions := (pc_sessions x)(d := insert (c, v, 0) (pc_sessions x d))\<rparr>"

definition enqueue_step :: "uuid \<Rightarrow> string \<Rightarrow> string \<Rightarrow> int \<Rightarrow> string \<Rightarrow> content \<Rightarrow> protocol \<Rightarrow> protocol" where
  "enqueue_step d c v n i k x =
     x\<lparr>pc_rows := (pc_rows x)(d := insert (c, v, n, i, k) (pc_rows x d)),
       pc_sessions := (pc_sessions x)(d := insert (c, v, n + 1) (pc_sessions x d - {(c, v, n)}))\<rparr>"

definition ack_step :: "uuid \<Rightarrow> string \<Rightarrow> int \<Rightarrow> protocol \<Rightarrow> protocol" where
  "ack_step d c n x =
     x\<lparr>pc_acked := (pc_acked x)(d := pc_acked x d \<union> {(v, q, i, k) | v q i k. (c, v, q, i, k) \<in> pc_rows x d \<and> q \<le> n})\<rparr>"

definition list_step :: "uuid \<Rightarrow> eventBatch \<Rightarrow> protocol \<Rightarrow> protocol" where
  "list_step d b x = x\<lparr>pc_pool := insert (d, b) (pc_pool x)\<rparr>"

definition read_step :: "uuid \<Rightarrow> string \<Rightarrow> string \<Rightarrow> int \<Rightarrow> protocol \<Rightarrow> protocol" where
  "read_step d c v n x = x\<lparr>pc_reads := insert (d, c, v, n) (pc_reads x)\<rparr>"

text \<open>The counter \<open>m\<close> of the session is replaced by the one that was read.\<close>

definition write_step :: "uuid \<Rightarrow> string \<Rightarrow> string \<Rightarrow> int \<Rightarrow> int \<Rightarrow> protocol \<Rightarrow> protocol" where
  "write_step d c v m n x =
     x\<lparr>pc_sessions := (pc_sessions x)(d := insert (c, v, n) (pc_sessions x d - {(c, v, m)})),
       pc_reset := (if n = m then pc_reset x else insert c (pc_reset x))\<rparr>"

lemma open_fields [simp]:
  "pc_rows (open_step d c v x) = pc_rows x" "pc_events (open_step d c v x) = pc_events x"
  "pc_acked (open_step d c v x) = pc_acked x" "pc_pool (open_step d c v x) = pc_pool x" "pc_acks (open_step d c v x) = pc_acks x"
  "pc_reads (open_step d c v x) = pc_reads x" "pc_reset (open_step d c v x) = pc_reset x"
  "y \<in> pc_sessions (open_step d c v x) e \<longleftrightarrow> y \<in> pc_sessions x e \<or> e = d \<and> y = (c, v, 0)"
  by (auto simp: open_step_def)

lemma open_ok:
  assumes "protocol_ok limit x" "0 < limit" "\<And>d v n. (c, v, n) \<notin> pc_sessions x d"
  shows "protocol_ok limit (open_step d c v x)"
proof -
  note ok = protocol_okD [OF assms(1)]
  have own: "owns (open_step d c v x) = owns x" "first_queued (open_step d c v x) = first_queued x"
    by (simp_all add: owns_def first_queued_def fun_eq_iff)
  show ?thesis unfolding protocol_ok_def
  proof (intro conjI)
    show "sessions_single (open_step d c v x)" using ok(1) assms(3) by (auto simp: sessions_single_def)
    show "counters_ok limit (open_step d c v x)" using ok(2) assms(2) by (auto simp: counters_ok_def own)
    show "rows_homed limit (open_step d c v x)" using ok(3) by (simp add: rows_homed_def own) blast
    show "reads_ok limit (open_step d c v x)" using ok(4) by (simp add: reads_ok_def own) blast
    show "rows_below (open_step d c v x)" using ok(5) by (simp add: rows_below_def) blast
    show "rows_complete (open_step d c v x)" using ok(7) by (auto simp: rows_complete_def)
    show "pool_ok (open_step d c v x)" by (rule pool_mono [OF ok(13)]) auto
    show "acks_ok (open_step d c v x)" using ok(14) by (simp add: acks_ok_def own) blast
  qed (use ok in \<open>simp_all add: rows_distinct_def ids_single_def events_sent_def events_placed_def events_rooted_def acked_ok_def own\<close>)
qed

lemma enqueue_fields [simp]:
  "pc_events (enqueue_step d c v n i k x) = pc_events x" "pc_acked (enqueue_step d c v n i k x) = pc_acked x"
  "pc_pool (enqueue_step d c v n i k x) = pc_pool x" "pc_acks (enqueue_step d c v n i k x) = pc_acks x"
  "pc_reads (enqueue_step d c v n i k x) = pc_reads x" "pc_reset (enqueue_step d c v n i k x) = pc_reset x"
  "y \<in> pc_rows (enqueue_step d c v n i k x) e \<longleftrightarrow> y \<in> pc_rows x e \<or> e = d \<and> y = (c, v, n, i, k)"
  "z \<in> pc_sessions (enqueue_step d c v n i k x) e \<longleftrightarrow>
     e = d \<and> z = (c, v, n + 1) \<or> z \<in> pc_sessions x e \<and> \<not> (e = d \<and> z = (c, v, n))"
  by (auto simp: enqueue_step_def)


text \<open>Queueing an event.\<close>

lemma enqueue_sessions:
  assumes "protocol_ok limit x" "(c, v, n) \<in> pc_sessions x d" "(c', v', m) \<in> pc_sessions (enqueue_step d c v n i k x) e"
  obtains (counted) "c' = c" "v' = v" "m = n + 1" "e = d" | (kept) "c' \<noteq> c" "(c', v', m) \<in> pc_sessions x e"
proof (cases "c' = c")
  case True
  from assms(3) consider "e = d" "(c', v', m) = (c, v, n + 1)" | "(c', v', m) \<in> pc_sessions x e" "\<not> (e = d \<and> (c', v', m) = (c, v, n))"
    unfolding enqueue_fields by blast
  then show thesis
  proof cases
    case 2
    with session_same [OF protocol_okD(1) [OF assms(1)] assms(2), of v' m e] True show thesis by simp
  qed (use counted in simp)
next
  case False
  then show thesis using kept assms(3) by simp
qed

lemma enqueue_counter:
  assumes "protocol_ok limit x" "(c, v, n) \<in> pc_sessions x d" "(c', v', m) \<in> pc_sessions x e"
  shows "\<exists>m'. (c', v', m') \<in> pc_sessions (enqueue_step d c v n i k x) e \<and> m \<le> m'"
proof (cases "c' = c")
  case True
  then have "e = d" "v' = v" "m = n" using session_same [OF protocol_okD(1) [OF assms(1)] assms(2), of v' m e] assms(3) by simp_all
  with True show ?thesis by (intro exI [of _ "n + 1"]) simp
next
  case False
  then show ?thesis using assms(3) by (intro exI [of _ m]) (cases "e = d"; simp)
qed

lemma enqueue_rows: "pc_rows x e \<subseteq> pc_rows (enqueue_step d c v n i k x) e"
  by auto

lemma enqueue_first:
  assumes "protocol_ok limit x" "(c, v, n) \<in> pc_sessions x d"
  shows "first_queued (enqueue_step d c v n i k x) d c v"
proof (cases "n = 0")
  case False
  with protocol_okD(2) [OF assms(1)] assms(2) have "first_queued x d c v" unfolding counters_ok_def by (metis order_le_less)
  then show ?thesis by (rule first_queued_mono [OF _ enqueue_rows])
qed (auto simp: first_queued_def)

lemma enqueue_home:
  assumes "protocol_ok limit x" "(c, v, n) \<in> pc_sessions x d" "n + 1 < limit"
  shows "sessions_single (enqueue_step d c v n i k x)" "counters_ok limit (enqueue_step d c v n i k x)"
    "rows_homed limit (enqueue_step d c v n i k x)" "reads_ok limit (enqueue_step d c v n i k x)"
proof -
  note ok = protocol_okD [OF assms(1)]
  let ?y = "enqueue_step d c v n i k x"
  have n: "0 \<le> n" using ok(2) assms(2) unfolding counters_ok_def by blast
  have first: "first_queued ?y e c' v'" if "first_queued x e c' v'" for e c' v'
    using first_queued_mono [OF that enqueue_rows] .
  show "sessions_single ?y" unfolding sessions_single_def
  proof (intro allI impI)
    fix e e' c' v1 v2 n1 n2
    assume y: "(c', v1, n1) \<in> pc_sessions ?y e" "(c', v2, n2) \<in> pc_sessions ?y e'"
    from assms(1,2) y(1) show "e = e' \<and> v1 = v2 \<and> n1 = n2"
    proof (cases rule: enqueue_sessions)
      case counted
      from assms(1,2) y(2) show ?thesis by (cases rule: enqueue_sessions) (use counted in simp_all)
    next
      case kept
      from assms(1,2) y(2) show ?thesis
        by (cases rule: enqueue_sessions) (use kept session_same [OF ok(1) kept(2)] in blast)+
    qed
  qed
  show "counters_ok limit ?y" unfolding counters_ok_def
  proof (intro allI impI)
    fix e c' v' m
    assume "(c', v', m) \<in> pc_sessions ?y e"
    with assms(1,2) show "0 \<le> m \<and> m < limit \<and> (0 < m \<longrightarrow> first_queued ?y e c' v')"
    proof (cases rule: enqueue_sessions)
      case counted
      with n assms(3) enqueue_first [OF assms(1,2)] show ?thesis by simp
    next
      case kept
      with ok(2) first show ?thesis unfolding counters_ok_def by blast
    qed
  qed
  show "rows_homed limit ?y" unfolding rows_homed_def
  proof (intro allI impI)
    fix e c' v' q i' k'
    assume "(c', v', q, i', k') \<in> pc_rows ?y e"
    then consider "(c', v', q, i', k') \<in> pc_rows x e" | "e = d" "c' = c" "v' = v" "q = n" by auto
    then show "0 \<le> q \<and> q < limit \<and> first_queued ?y e c' v' \<and> (\<exists>m. (c', v', m) \<in> pc_sessions ?y e)"
    proof cases
      case 1
      from row_home [OF ok(3) this] obtain m where m: "(c', v', m) \<in> pc_sessions x e" "0 \<le> q" "q < limit" "first_queued x e c' v'" by blast
      with enqueue_counter [OF assms(1,2) m(1), of i k] first show ?thesis by blast
    next
      case 2
      with n assms(3) enqueue_first [OF assms(1,2)] show ?thesis by auto
    qed
  qed
  show "reads_ok limit ?y" unfolding reads_ok_def
  proof (intro allI impI)
    fix e c' v' m
    assume "(e, c', v', m) \<in> pc_reads ?y"
    then obtain m' where "(c', v', m') \<in> pc_sessions x e" "0 \<le> m" "m < limit" "0 < m \<longrightarrow> first_queued x e c' v'"
      using ok(4) unfolding reads_ok_def enqueue_fields by blast
    with enqueue_counter [OF assms(1,2), of c' v' m' e i k] first
    show "0 \<le> m \<and> m < limit \<and> (0 < m \<longrightarrow> first_queued ?y e c' v') \<and> (\<exists>m. (c', v', m) \<in> pc_sessions ?y e)" by blast
  qed
qed

lemma enqueue_numbered:
  assumes "protocol_ok limit x" "(c, v, n) \<in> pc_sessions x d"
  shows "rows_below (enqueue_step d c v n i k x)" "rows_distinct (enqueue_step d c v n i k x)" "rows_complete (enqueue_step d c v n i k x)"
proof -
  note ok = protocol_okD [OF assms(1)]
  let ?y = "enqueue_step d c v n i k x"
  have below: "q < n" if "(c, v', q, i', k') \<in> pc_rows x e" "c \<notin> pc_reset x" for v' q i' k' e
    using row_below [OF assms(1) that assms(2)] by simp
  show "rows_below ?y" unfolding rows_below_def
  proof (intro allI impI)
    fix e c' v' q i' k'
    assume y: "(c', v', q, i', k') \<in> pc_rows ?y e" "c' \<notin> pc_reset ?y"
    then consider "(c', v', q, i', k') \<in> pc_rows x e" | "e = d" "c' = c" "v' = v" "q = n" by auto
    then show "\<exists>m. (c', v', m) \<in> pc_sessions ?y e \<and> q < m"
    proof cases
      case 1
      with ok(5) y(2) obtain m where m: "(c', v', m) \<in> pc_sessions x e" "q < m" unfolding rows_below_def enqueue_fields by blast
      from enqueue_counter [OF assms m(1), of i k] m(2) show ?thesis by force
    qed (auto intro!: exI [of _ "n + 1"])
  qed
  show "rows_distinct ?y" unfolding rows_distinct_def
    using ok(6) [unfolded rows_distinct_def] by (auto dest: below)
  show "rows_complete ?y" unfolding rows_complete_def
  proof (intro allI impI)
    fix e c' v' m q
    assume y: "(c', v', m) \<in> pc_sessions ?y e" "c' \<notin> pc_reset ?y" "0 \<le> q" "q < m"
    note complete = ok(7) [unfolded rows_complete_def, rule_format]
    from assms y(1) show "\<exists>i' k'. (c', v', q, i', k') \<in> pc_rows ?y e"
    proof (cases rule: enqueue_sessions)
      case counted
      with y(2-4) complete [OF assms(2), of q] show ?thesis by (cases "q = n") auto
    next
      case kept
      with y(2-4) complete [OF kept(2), of q] show ?thesis by auto
    qed
  qed
qed

lemma enqueue_in_flight:
  assumes "protocol_ok limit x" "(c, v, n) \<in> pc_sessions x d"
  shows "pool_ok (enqueue_step d c v n i k x)" "acks_ok (enqueue_step d c v n i k x)"
proof -
  note ok = protocol_okD [OF assms(1)]
  let ?y = "enqueue_step d c v n i k x"
  show "pool_ok ?y"
    by (rule pool_mono [OF ok(13) _ enqueue_rows]) (use enqueue_counter [OF assms] in \<open>simp, simp, blast\<close>)
  show "acks_ok ?y" unfolding acks_ok_def
  proof (intro allI impI)
    fix e c' n'
    assume "(e, c', n') \<in> pc_acks ?y"
    then obtain v' m where a: "(c', v', m) \<in> pc_sessions x e" "owns x c' v'" "c' \<notin> pc_reset x \<Longrightarrow> n' < m"
      "\<And>q i k. c' \<notin> pc_reset x \<Longrightarrow> (c', v', q, i, k) \<in> pc_rows x e \<Longrightarrow> q \<le> n' \<Longrightarrow> (v', q, i, k) \<in> pc_events x"
      using ok(14) unfolding acks_ok_def enqueue_fields by metis
    obtain m' where m': "(c', v', m') \<in> pc_sessions ?y e" "m \<le> m'" using enqueue_counter [OF assms a(1)] by blast
    have "owns ?y c' v'" by (rule owns_mono [OF a(2) enqueue_rows]) simp
    moreover have "(v', q, i', k') \<in> pc_events ?y"
      if "c' \<notin> pc_reset ?y" "(c', v', q, i', k') \<in> pc_rows ?y e" "q \<le> n'" for q i' k'
    proof -
      have "\<not> (c' = c \<and> q = n)" using session_same [OF ok(1) assms(2)] a(1,3) that(1,3) by fastforce
      with that a(4) show ?thesis by auto
    qed
    ultimately show "\<exists>v m. (c', v, m) \<in> pc_sessions ?y e \<and> owns ?y c' v \<and>
        (c' \<notin> pc_reset ?y \<longrightarrow> n' < m \<and> (\<forall>q i k. (c', v, q, i, k) \<in> pc_rows ?y e \<longrightarrow> q \<le> n' \<longrightarrow> (v, q, i, k) \<in> pc_events ?y))"
      using m' a(3) by (intro exI [of _ v'] exI [of _ m']) (auto simp del: enqueue_fields(7,8))
  qed
qed

lemma enqueue_ok:
  assumes "protocol_ok limit x" "(c, v, n) \<in> pc_sessions x d" "n + 1 < limit"
    "\<And>d c v q k. (c, v, q, i, k) \<notin> pc_rows x d" "\<And>v q k. (v, q, i, k) \<notin> pc_events x"
  shows "protocol_ok limit (enqueue_step d c v n i k x)"
proof -
  note ok = protocol_okD [OF assms(1)]
  let ?y = "enqueue_step d c v n i k x"
  have own: "owns ?y c' v'" if "owns x c' v'" for c' v' by (rule owns_mono [OF that enqueue_rows]) simp
  show ?thesis unfolding protocol_ok_def
  proof (intro conjI enqueue_home [OF assms(1-3)] enqueue_numbered [OF assms(1,2)] enqueue_in_flight [OF assms(1,2)])
    show "ids_single ?y" unfolding ids_single_def
    proof (intro allI impI)
      fix e e' c1 c2 v1 v2 q1 q2 j k1 k2
      assume y: "(c1, v1, q1, j, k1) \<in> pc_rows ?y e" "(c2, v2, q2, j, k2) \<in> pc_rows ?y e'"
      show "e = e' \<and> c1 = c2 \<and> v1 = v2 \<and> q1 = q2 \<and> k1 = k2"
      proof (cases "j = i")
        case True
        with y assms(4) show ?thesis by simp
      next
        case False
        with y have "(c1, v1, q1, j, k1) \<in> pc_rows x e" "(c2, v2, q2, j, k2) \<in> pc_rows x e'" by simp_all
        from id_same [OF ok(8) this] show ?thesis .
      qed
    qed
    show "events_sent limit ?y" by (rule events_sent_mono [OF ok(9)]) auto
    show "events_placed ?y" using ok(10) assms(5) unfolding events_placed_def enqueue_fields by blast
    show "events_rooted ?y" unfolding events_rooted_def
    proof (intro allI impI)
      fix e c' v' q j k'
      assume y: "(c', v', q, j, k') \<in> pc_rows ?y e" "(v', q, j, k') \<in> pc_events ?y"
      then have "(c', v', q, j, k') \<in> pc_rows x e" using assms(5) by auto
      with ok(11) y(2) have "owns x c' v'" unfolding events_rooted_def by simp
      then show "owns ?y c' v'" by (rule own)
    qed
    show "acked_ok ?y" unfolding acked_ok_def
    proof (intro allI impI)
      fix e v' q j k'
      assume "(v', q, j, k') \<in> pc_acked ?y e"
      then obtain c' where "(c', v', q, j, k') \<in> pc_rows x e" "owns x c' v'" "c' \<notin> pc_reset x \<longrightarrow> (v', q, j, k') \<in> pc_events x"
        using ok(12) unfolding acked_ok_def enqueue_fields by blast
      with own show "\<exists>c. (c, v', q, j, k') \<in> pc_rows ?y e \<and> owns ?y c v' \<and> (c \<notin> pc_reset ?y \<longrightarrow> (v', q, j, k') \<in> pc_events ?y)"
        by (intro exI [of _ c']) auto
    qed
  qed
qed

section \<open>Acknowledging, listing, reading and writing sessions, and events of the server\<close>

lemma ack_ok:
  assumes "protocol_ok limit x" "(d, c, n) \<in> pc_acks x"
  shows "protocol_ok limit (ack_step d c n x)"
proof -
  note ok = protocol_okD [OF assms(1)]
  let ?y = "ack_step d c n x"
  have own: "owns ?y = owns x" "first_queued ?y = first_queued x" "batch_ok ?y = batch_ok x"
    by (simp_all add: owns_def first_queued_def batch_ok_def ack_step_def fun_eq_iff)
  obtain v m where a: "(c, v, m) \<in> pc_sessions x d" "owns x c v"
    "\<And>q i k. c \<notin> pc_reset x \<Longrightarrow> (c, v, q, i, k) \<in> pc_rows x d \<Longrightarrow> q \<le> n \<Longrightarrow> (v, q, i, k) \<in> pc_events x"
    using ok(14) assms(2) unfolding acks_ok_def by metis
  have "acked_ok ?y" unfolding acked_ok_def
  proof (intro allI impI)
    fix e v' q i k
    assume "(v', q, i, k) \<in> pc_acked ?y e"
    then consider "(v', q, i, k) \<in> pc_acked x e" | "e = d" "(c, v', q, i, k) \<in> pc_rows x d" "q \<le> n"
      by (auto simp: ack_step_def split: if_splits)
    then have "\<exists>c. (c, v', q, i, k) \<in> pc_rows x e \<and> owns x c v' \<and> (c \<notin> pc_reset x \<longrightarrow> (v', q, i, k) \<in> pc_events x)"
    proof cases
      case 1
      with ok(12) show ?thesis unfolding acked_ok_def by blast
    next
      case 2
      have "v' = v" using row_home [OF ok(3) 2(2)] session_same [OF ok(1) a(1)] by blast
      with 2 a(2,3) show ?thesis by blast
    qed
    then show "\<exists>c. (c, v', q, i, k) \<in> pc_rows ?y e \<and> owns ?y c v' \<and> (c \<notin> pc_reset ?y \<longrightarrow> (v', q, i, k) \<in> pc_events ?y)"
      unfolding own by (simp add: ack_step_def)
  qed
  with ok show ?thesis unfolding protocol_ok_def by (simp add: protocol_defs own) (simp add: ack_step_def)
qed

lemma list_ok:
  assumes "protocol_ok limit x" "batch_ok x d b"
  shows "protocol_ok limit (list_step d b x)"
proof -
  have own: "owns (list_step d b x) = owns x" "first_queued (list_step d b x) = first_queued x" "batch_ok (list_step d b x) = batch_ok x"
    by (simp_all add: owns_def first_queued_def batch_ok_def list_step_def fun_eq_iff)
  show ?thesis using protocol_okD [OF assms(1)] assms(2)
    unfolding protocol_ok_def by (simp add: protocol_defs own) (simp add: list_step_def)
qed

lemma read_ok:
  assumes "protocol_ok limit x" "(c, v, n) \<in> pc_sessions x d"
  shows "protocol_ok limit (read_step d c v n x)"
proof -
  let ?y = "read_step d c v n x"
  note ok = protocol_okD [OF assms(1)]
  have own: "owns ?y = owns x" "first_queued ?y = first_queued x" "batch_ok ?y = batch_ok x"
    by (simp_all add: owns_def first_queued_def batch_ok_def read_step_def fun_eq_iff)
  have "reads_ok limit ?y" unfolding reads_ok_def own
    using ok(2,4) assms(2) unfolding counters_ok_def reads_ok_def by (auto simp: read_step_def)
  with ok show ?thesis unfolding protocol_ok_def by (simp add: protocol_defs own) (simp add: read_step_def)
qed

lemma write_fields [simp]:
  "pc_rows (write_step d c v m n x) = pc_rows x" "pc_events (write_step d c v m n x) = pc_events x"
  "pc_acked (write_step d c v m n x) = pc_acked x" "pc_pool (write_step d c v m n x) = pc_pool x"
  "pc_acks (write_step d c v m n x) = pc_acks x" "pc_reads (write_step d c v m n x) = pc_reads x"
  "pc_reset (write_step d c v m n x) = (if n = m then pc_reset x else insert c (pc_reset x))"
  "z \<in> pc_sessions (write_step d c v m n x) e \<longleftrightarrow> e = d \<and> z = (c, v, n) \<or> z \<in> pc_sessions x e \<and> \<not> (e = d \<and> z = (c, v, m))"
  by (auto simp: write_step_def)

text \<open>Writing back what was read: nothing happens, or the counter of one session is set back.\<close>

lemma write_ok:
  assumes "protocol_ok limit x" "(d, c, v, n) \<in> pc_reads x" "(c, v, m) \<in> pc_sessions x d"
  shows "protocol_ok limit (write_step d c v m n x)"
proof (cases "n = m")
  case True
  then have "write_step d c v m n x = x" using assms(3) by (simp add: write_step_def insert_absorb)
  with assms(1) show ?thesis by simp
next
  case False
  let ?y = "write_step d c v m n x"
  note ok = protocol_okD [OF assms(1)]
  have own: "owns ?y = owns x" "first_queued ?y = first_queued x"
    by (simp_all add: owns_def first_queued_def fun_eq_iff)
  have old: "(c', v', l) \<in> pc_sessions x e \<and> c' \<noteq> c \<or> e = d \<and> c' = c \<and> v' = v \<and> l = n"
    if "(c', v', l) \<in> pc_sessions ?y e" for c' v' l e
  proof -
    from that consider "e = d" "(c', v', l) = (c, v, n)" | "(c', v', l) \<in> pc_sessions x e" "\<not> (e = d \<and> (c', v', l) = (c, v, m))"
      unfolding write_fields by blast
    then show ?thesis
    proof cases
      case 2
      have "c' \<noteq> c"
      proof
        assume c: "c' = c"
        from session_same [OF ok(1) assms(3) 2(1) [unfolded c]] c 2(2) show False by simp
      qed
      with 2(1) show ?thesis by blast
    qed simp
  qed
  have new: "\<exists>l'. (c', v', l') \<in> pc_sessions ?y e \<and> (c' \<noteq> c \<longrightarrow> l' = l)" if "(c', v', l) \<in> pc_sessions x e" for c' v' l e
  proof (cases "c' = c")
    case True
    from session_same [OF ok(1) assms(3) that [unfolded True]] True show ?thesis by (intro exI [of _ n]) simp
  next
    case False
    with that show ?thesis by (intro exI [of _ l]) simp
  qed
  have other: "c' \<notin> pc_reset x \<and> c' \<noteq> c" if "c' \<notin> pc_reset ?y" for c' using that False by simp
  have read: "0 \<le> n" "n < limit" "0 < n \<longrightarrow> first_queued x d c v" using ok(4) assms(2) unfolding reads_ok_def by blast+
  show ?thesis unfolding protocol_ok_def
  proof (intro conjI)
    show "sessions_single ?y" unfolding sessions_single_def
    proof (intro allI impI)
      fix e e' c' v1 v2 n1 n2
      assume y: "(c', v1, n1) \<in> pc_sessions ?y e" "(c', v2, n2) \<in> pc_sessions ?y e'"
      from old [OF y(1)] old [OF y(2)] session_same [OF ok(1)] show "e = e' \<and> v1 = v2 \<and> n1 = n2" by blast
    qed
    show "counters_ok limit ?y" unfolding counters_ok_def own
    proof (intro allI impI)
      fix e c' v' l assume "(c', v', l) \<in> pc_sessions ?y e"
      from old [OF this] read ok(2) show "0 \<le> l \<and> l < limit \<and> (0 < l \<longrightarrow> first_queued x e c' v')" unfolding counters_ok_def by blast
    qed
    show "rows_homed limit ?y" unfolding rows_homed_def own
    proof (intro allI impI)
      fix e c' v' q i k assume "(c', v', q, i, k) \<in> pc_rows ?y e"
      then obtain l where "(c', v', l) \<in> pc_sessions x e" "0 \<le> q" "q < limit" "first_queued x e c' v'" using row_home [OF ok(3)] by simp blast
      with new show "0 \<le> q \<and> q < limit \<and> first_queued x e c' v' \<and> (\<exists>l. (c', v', l) \<in> pc_sessions ?y e)" by blast
    qed
    show "reads_ok limit ?y" unfolding reads_ok_def own
    proof (intro allI impI)
      fix e c' v' l assume "(e, c', v', l) \<in> pc_reads ?y"
      then obtain l' where "(c', v', l') \<in> pc_sessions x e" "0 \<le> l" "l < limit" "0 < l \<longrightarrow> first_queued x e c' v'"
        using ok(4) unfolding reads_ok_def write_fields(6) by blast
      with new show "0 \<le> l \<and> l < limit \<and> (0 < l \<longrightarrow> first_queued x e c' v') \<and> (\<exists>l. (c', v', l) \<in> pc_sessions ?y e)" by blast
    qed
    show "rows_below ?y" unfolding rows_below_def
    proof (intro allI impI)
      fix e c' v' q i k assume y: "(c', v', q, i, k) \<in> pc_rows ?y e" "c' \<notin> pc_reset ?y"
      then obtain l where "(c', v', l) \<in> pc_sessions x e" "q < l"
        using ok(5) other [OF y(2)] unfolding rows_below_def write_fields(1) by blast
      with new [of c' v' l e] other [OF y(2)] show "\<exists>l. (c', v', l) \<in> pc_sessions ?y e \<and> q < l" by blast
    qed
    show "rows_distinct ?y" using ok(6) other unfolding rows_distinct_def write_fields(1) by blast
    show "rows_complete ?y" unfolding rows_complete_def
    proof (intro allI impI)
      fix e c' v' l q assume y: "(c', v', l) \<in> pc_sessions ?y e" "c' \<notin> pc_reset ?y" "0 \<le> q" "q < l"
      then have "(c', v', l) \<in> pc_sessions x e" using old [OF y(1)] other [OF y(2)] by blast
      with y(3,4) ok(7) other [OF y(2)] show "\<exists>i k. (c', v', q, i, k) \<in> pc_rows ?y e" unfolding rows_complete_def write_fields(1) by blast
    qed
    show "acked_ok ?y" using ok(12) other unfolding acked_ok_def own write_fields(1,2,3) by blast
    show "pool_ok ?y" by (rule pool_mono [OF ok(13)]) (use new in \<open>simp, simp, simp, blast\<close>)
    show "acks_ok ?y" unfolding acks_ok_def own
    proof (intro allI impI)
      fix e c' l
      assume "(e, c', l) \<in> pc_acks ?y"
      then obtain v' m' where a: "(c', v', m') \<in> pc_sessions x e" "owns x c' v'"
        "c' \<notin> pc_reset x \<longrightarrow> l < m' \<and> (\<forall>q i k. (c', v', q, i, k) \<in> pc_rows x e \<longrightarrow> q \<le> l \<longrightarrow> (v', q, i, k) \<in> pc_events x)"
        using ok(14) unfolding acks_ok_def write_fields(5) by blast
      from new [OF a(1)] obtain l' where "(c', v', l') \<in> pc_sessions ?y e" "c' \<noteq> c \<longrightarrow> l' = m'" by blast
      with a other show "\<exists>v m. (c', v, m) \<in> pc_sessions ?y e \<and> owns x c' v \<and>
          (c' \<notin> pc_reset ?y \<longrightarrow> l < m \<and> (\<forall>q i k. (c', v, q, i, k) \<in> pc_rows ?y e \<longrightarrow> q \<le> l \<longrightarrow> (v, q, i, k) \<in> pc_events ?y))"
        by (intro exI [of _ v'] exI [of _ l']) (simp del: write_fields(7,8))
    qed
  qed (use ok in \<open>simp_all add: ids_single_def events_sent_def events_placed_def events_rooted_def own\<close>)
qed

text \<open>More events on the server keep what speaks of stored events only positively.\<close>

lemma grow_ok:
  assumes "protocol_ok limit x" "pc_events x \<subseteq> H" "events_sent limit (x\<lparr>pc_events := H\<rparr>)" "events_placed (x\<lparr>pc_events := H\<rparr>)"
    "events_rooted (x\<lparr>pc_events := H\<rparr>)"
  shows "protocol_ok limit (x\<lparr>pc_events := H\<rparr>)"
proof -
  note ok = protocol_okD [OF assms(1)]
  let ?y = "x\<lparr>pc_events := H\<rparr>"
  have own: "owns x c v \<Longrightarrow> owns ?y c v" for c v by (rule owns_mono) (use assms(2) in simp_all)
  have first: "first_queued ?y = first_queued x" by (simp add: first_queued_def fun_eq_iff)
  have "acked_ok ?y" using ok(12) assms(2) own unfolding acked_ok_def by simp blast
  moreover have "pool_ok ?y" by (rule pool_mono [OF ok(13)]) (use assms(2) in auto)
  moreover have "acks_ok ?y" unfolding acks_ok_def
  proof (intro allI impI)
    fix d c n assume "(d, c, n) \<in> pc_acks ?y"
    then obtain v m where "(c, v, m) \<in> pc_sessions x d" "owns x c v"
      "c \<notin> pc_reset x \<longrightarrow> n < m \<and> (\<forall>q i k. (c, v, q, i, k) \<in> pc_rows x d \<longrightarrow> q \<le> n \<longrightarrow> (v, q, i, k) \<in> pc_events x)"
      using ok(14) unfolding acks_ok_def by simp blast
    then have a: "(c, v, m) \<in> pc_sessions x d" "owns ?y c v" "c \<notin> pc_reset x \<Longrightarrow> n < m"
      "\<And>q i k. c \<notin> pc_reset x \<Longrightarrow> (c, v, q, i, k) \<in> pc_rows x d \<Longrightarrow> q \<le> n \<Longrightarrow> (v, q, i, k) \<in> H" using own assms(2) by blast+
    show "\<exists>v m. (c, v, m) \<in> pc_sessions ?y d \<and> owns ?y c v \<and>
        (c \<notin> pc_reset ?y \<longrightarrow> n < m \<and> (\<forall>q i k. (c, v, q, i, k) \<in> pc_rows ?y d \<longrightarrow> q \<le> n \<longrightarrow> (v, q, i, k) \<in> pc_events ?y))"
      using a by (intro exI [of _ v] exI [of _ m]) simp
  qed
  moreover have "sessions_single ?y = sessions_single x" "counters_ok limit ?y = counters_ok limit x" "rows_homed limit ?y = rows_homed limit x"
    "reads_ok limit ?y = reads_ok limit x" "rows_below ?y = rows_below x" "rows_distinct ?y = rows_distinct x"
    "rows_complete ?y = rows_complete x" "ids_single ?y = ids_single x"
    by (simp_all add: first sessions_single_def counters_ok_def rows_homed_def reads_ok_def rows_below_def rows_distinct_def
      rows_complete_def ids_single_def)
  ultimately show ?thesis using ok(1-8) assms(3-5) unfolding protocol_ok_def by blast
qed

lemma server_event_ok:
  assumes "protocol_ok limit x" "pc_events x \<subseteq> H"
    "\<And>v q i k. (v, q, i, k) \<in> H - pc_events x \<Longrightarrow> limit \<le> q \<and> (\<forall>d c v q k. (c, v, q, i, k) \<notin> pc_rows x d)"
  shows "protocol_ok limit (x\<lparr>pc_events := H\<rparr>)"
proof -
  note ok = protocol_okD [OF assms(1)]
  have old: "(v, q, i, k) \<in> pc_events x" if "(v, q, i, k) \<in> H" "q < limit \<or> (c, v', q', i, k') \<in> pc_rows x d" for v q i k c v' q' k' d
  proof (rule ccontr)
    assume "(v, q, i, k) \<notin> pc_events x"
    with that assms(3) [of v q i k] show False by auto
  qed
  show ?thesis
  proof (rule grow_ok [OF assms(1,2)])
    show "events_sent limit (x\<lparr>pc_events := H\<rparr>)" by (rule events_sent_mono [OF ok(9)]) (use old in auto)
    show "events_placed (x\<lparr>pc_events := H\<rparr>)" using ok(10) old unfolding events_placed_def by simp blast
    show "events_rooted (x\<lparr>pc_events := H\<rparr>)" unfolding events_rooted_def
    proof (intro allI impI)
      fix e c v q i k
      assume y: "(c, v, q, i, k) \<in> pc_rows (x\<lparr>pc_events := H\<rparr>) e" "(v, q, i, k) \<in> pc_events (x\<lparr>pc_events := H\<rparr>)"
      then have "(v, q, i, k) \<in> pc_events x" using old [of v q i k c v q k e] by simp
      with y(1) ok(11) have "owns x c v" unfolding events_rooted_def by simp
      then show "owns (x\<lparr>pc_events := H\<rparr>) c v" by (rule owns_mono) (use assms(2) in simp_all)
    qed
  qed
qed

section \<open>The server\<close>

text \<open>
  What the devices rely on: an accepted batch leaves what was stored, adds nothing that is not in it, stores all of
  it, and is answered with a number up to which every number of the session is taken; a number of a session is
  taken by one event.
\<close>

locale event_server =
  fixes good :: "'s \<Rightarrow> bool"
    and events :: "'s \<Rightarrow> placed set"
    and accepts :: "string \<Rightarrow> SessionEvent list \<Rightarrow> 's \<Rightarrow> int \<Rightarrow> 's \<Rightarrow> bool"
  assumes accepts_good: "good s \<Longrightarrow> accepts sid evs s n s' \<Longrightarrow> good s'"
    and accepts_keeps: "good s \<Longrightarrow> accepts sid evs s n s' \<Longrightarrow> events s \<subseteq> events s'"
    and accepts_adds: "good s \<Longrightarrow> accepts sid evs s n s' \<Longrightarrow> p \<in> events s' \<Longrightarrow> p \<notin> events s \<Longrightarrow> \<exists>ev \<in> set evs. p = event_place sid ev"
    and accepts_all: "good s \<Longrightarrow> accepts sid evs s n s' \<Longrightarrow> ev \<in> set evs \<Longrightarrow> \<exists>v q k. (v, q, sv_event_id ev, k) \<in> events s'"
    and accepts_acks: "good s \<Longrightarrow> accepts sid evs s n s' \<Longrightarrow> 0 \<le> q \<Longrightarrow> q \<le> n \<Longrightarrow> \<exists>i k. (sid, q, i, k) \<in> events s'"
    and one_per_number: "good s \<Longrightarrow> (v, q, i, k) \<in> events s \<Longrightarrow> (v, q, i', k') \<in> events s \<Longrightarrow> i = i'"
begin

lemma accepted_placed:
  assumes "protocol_ok limit x" "pc_events x = events s" "good s" "batch_ok x d b"
    "accepts (eb_server_id b) (map oq_event (eb_events b)) s n s'"
  shows "events_placed (x\<lparr>pc_events := events s'\<rparr>)"
  unfolding events_placed_def
proof (intro allI impI)
  note ok = protocol_okD [OF assms(1)]
  fix e c v v' q q' i k k'
  assume "(v, q, i, k) \<in> pc_events (x\<lparr>pc_events := events s'\<rparr>)" and r: "(c, v', q', i, k') \<in> pc_rows (x\<lparr>pc_events := events s'\<rparr>) e"
  then have p: "(v, q, i, k) \<in> events s'" and r: "(c, v', q', i, k') \<in> pc_rows x e" by simp_all
  show "v' = v \<and> q' = q \<and> k' = k"
  proof (cases "(v, q, i, k) \<in> events s")
    case True
    with ok(10) r assms(2) show ?thesis unfolding events_placed_def by blast
  next
    case False
    from accepts_adds [OF assms(3,5) p False] assms(4) have "(eb_client_id b, v, q, i, k) \<in> pc_rows x d"
      by (auto simp: batch_ok_def event_place_def)
    from id_same [OF ok(8) this r] show ?thesis by simp
  qed
qed

text \<open>A session owns its server session once a batch of it is accepted.\<close>

lemma accepted_first:
  assumes "protocol_ok limit x" "pc_events x = events s" "good s" "batch_ok x d b"
    "accepts (eb_server_id b) (map oq_event (eb_events b)) s n s'"
  shows "owns (x\<lparr>pc_events := events s'\<rparr>) (eb_client_id b) (eb_server_id b)"
proof -
  let ?c = "eb_client_id b" and ?v = "eb_server_id b" and ?y = "x\<lparr>pc_events := events s'\<rparr>"
  consider "owns x ?c ?v" | e where "e \<in> set (eb_events b)" "sv_sequence (oq_event e) = 0"
    using assms(4) unfolding batch_ok_def by blast
  then show ?thesis
  proof cases
    case 1
    then show ?thesis by (rule owns_mono) (use assms(2) accepts_keeps [OF assms(3,5)] in simp_all)
  next
    case (2 e)
    have r: "(?c, ?v, 0, sv_event_id (oq_event e), event_content (oq_event e)) \<in> pc_rows x d"
      using assms(4) 2 unfolding batch_ok_def event_place_def by metis
    have "oq_event e \<in> set (map oq_event (eb_events b))" using 2(1) by simp
    from accepts_all [OF assms(3,5) this] obtain v q k where p: "(v, q, sv_event_id (oq_event e), k) \<in> events s'" by blast
    with r accepted_placed [OF assms] have "?v = v \<and> 0 = q \<and> event_content (oq_event e) = k" unfolding events_placed_def by simp
    with r p show ?thesis unfolding owns_def by auto
  qed
qed

text \<open>Only events of the session whose batch is accepted are in its server session.\<close>

lemma accepted_owner:
  assumes "protocol_ok limit x" "pc_events x = events s" "good s" "batch_ok x d b"
    "accepts (eb_server_id b) (map oq_event (eb_events b)) s n s'"
    "(c, eb_server_id b, q, i, k) \<in> pc_rows x e" "(eb_server_id b, q, i, k) \<in> events s'"
  shows "c = eb_client_id b"
proof -
  note ok = protocol_okD [OF assms(1)]
  let ?v = "eb_server_id b"
  obtain d0 i0 k0 where r0: "(eb_client_id b, ?v, 0, i0, k0) \<in> pc_rows x d0" "(?v, 0, i0, k0) \<in> events s'"
    using accepted_first [OF assms(1-5)] unfolding owns_def by auto
  show ?thesis
  proof (cases "(?v, q, i, k) \<in> events s")
    case True
    with ok(11) assms(2,6) have "owns x c ?v" unfolding events_rooted_def by blast
    then obtain d1 i1 k1 where r1: "(c, ?v, 0, i1, k1) \<in> pc_rows x d1" "(?v, 0, i1, k1) \<in> events s" using assms(2) unfolding owns_def by blast
    with accepts_keeps [OF assms(3,5)] have "i1 = i0" using one_per_number [OF accepts_good [OF assms(3,5)] _ r0(2)] by blast
    with id_same [OF ok(8) r1(1), of _ _ _ k0 d0] r0(1) show ?thesis by blast
  next
    case False
    from accepts_adds [OF assms(3,5,7) False] assms(4) have "(eb_client_id b, ?v, q, i, k) \<in> pc_rows x d"
      by (auto simp: batch_ok_def event_place_def)
    from id_same [OF ok(8) this assms(6)] show ?thesis by simp
  qed
qed

lemma accepted_events:
  assumes "protocol_ok limit x" "pc_events x = events s" "good s" "batch_ok x d b"
    "accepts (eb_server_id b) (map oq_event (eb_events b)) s n s'"
  shows "protocol_ok limit (x\<lparr>pc_events := events s'\<rparr>)"
proof (rule grow_ok [OF assms(1)])
  note ok = protocol_okD [OF assms(1)] and owner = accepted_owner [OF assms]
  let ?y = "x\<lparr>pc_events := events s'\<rparr>"
  have new: "v = eb_server_id b \<and> (eb_client_id b, v, q, i, k) \<in> pc_rows x d" if "(v, q, i, k) \<in> events s'" "(v, q, i, k) \<notin> events s" for v q i k
    using accepts_adds [OF assms(3,5) that] assms(4) by (auto simp: batch_ok_def event_place_def)
  show keeps: "pc_events x \<subseteq> events s'" using accepts_keeps [OF assms(3,5)] assms(2) by simp
  show "events_placed ?y" by (rule accepted_placed [OF assms])
  show "events_sent limit ?y" unfolding events_sent_def
  proof (intro allI impI)
    fix v q i k
    assume "(v, q, i, k) \<in> pc_events ?y" "q < limit"
    moreover have "\<exists>d c. (c, v, q, i, k) \<in> pc_rows x d" if "(v, q, i, k) \<in> events s" "q < limit"
      using ok(9) assms(2) that unfolding events_sent_def by blast
    ultimately show "\<exists>d c. (c, v, q, i, k) \<in> pc_rows ?y d" using new [of v q i k] by auto
  qed
  show "events_rooted ?y" unfolding events_rooted_def
  proof (intro allI impI)
    fix e c v q i k
    assume y: "(c, v, q, i, k) \<in> pc_rows ?y e" "(v, q, i, k) \<in> pc_events ?y"
    show "owns ?y c v"
    proof (cases "(v, q, i, k) \<in> events s")
      case True
      with y(1) ok(11) assms(2) have "owns x c v" unfolding events_rooted_def by simp
      then show ?thesis by (rule owns_mono) (use keeps in simp_all)
    next
      case False
      with new y have v: "v = eb_server_id b" by simp
      have "c = eb_client_id b" using owner [of c q i k e] y v by simp
      with v accepted_first [OF assms] show ?thesis by simp
    qed
  qed
qed

text \<open>
  The number in the answer is below the session's counter, and all the session's events up to it are stored, unless
  the counter was set back.
\<close>

lemma accepted_ack:
  assumes "protocol_ok limit x" "pc_events x = events s" "good s" "batch_ok x d b"
    "accepts (eb_server_id b) (map oq_event (eb_events b)) s n s'" "eb_client_id b \<notin> pc_reset x"
    "(eb_client_id b, eb_server_id b, m) \<in> pc_sessions x d"
  shows "n < m" "(eb_client_id b, eb_server_id b, q, i, k) \<in> pc_rows x d \<Longrightarrow> q \<le> n \<Longrightarrow> (eb_server_id b, q, i, k) \<in> events s'"
proof -
  note ok = protocol_okD [OF assms(1)]
  let ?c = "eb_client_id b" and ?v = "eb_server_id b"
  have mb: "0 \<le> m" "m < limit" using ok(2) assms(7) unfolding counters_ok_def by blast+
  have row: "\<exists>i k. (?c, ?v, q, i, k) \<in> pc_rows x d \<and> (?v, q, i, k) \<in> events s'" if q: "0 \<le> q" "q \<le> n" "q < limit" for q
  proof -
    obtain i k where e: "(?v, q, i, k) \<in> events s'" using accepts_acks [OF assms(3,5) q(1,2)] by blast
    with q(3) protocol_okD(9) [OF accepted_events [OF assms(1-5)]] obtain e c where r: "(c, ?v, q, i, k) \<in> pc_rows x e"
      unfolding events_sent_def by simp blast
    have c: "c = ?c" by (rule accepted_owner [OF assms(1-5) r e])
    with row_home [OF ok(3) r] session_same [OF ok(1) assms(7)] have "e = d" by blast
    with r e c show ?thesis by blast
  qed
  show n: "n < m"
  proof (rule ccontr)
    assume "\<not> n < m"
    with row [of m] mb obtain i k where "(?c, ?v, m, i, k) \<in> pc_rows x d" by auto
    from row_below [OF assms(1) this assms(6,7)] show False by simp
  qed
  assume r: "(?c, ?v, q, i, k) \<in> pc_rows x d" and "q \<le> n"
  moreover have "0 \<le> q" using row_home [OF ok(3) r] by blast
  ultimately obtain i' k' where r': "(?c, ?v, q, i', k') \<in> pc_rows x d" "(?v, q, i', k') \<in> events s'" using row [of q] n mb by auto
  moreover have "i' = i \<and> k' = k" using ok(6) r r'(1) assms(6) unfolding rows_distinct_def by blast
  ultimately show "(?v, q, i, k) \<in> events s'" by simp
qed

lemma post_ok:
  assumes "protocol_ok limit x" "pc_events x = events s" "good s" "(d, b) \<in> pc_pool x"
    "accepts (eb_server_id b) (map oq_event (eb_events b)) s n s'"
  shows "protocol_ok limit (x\<lparr>pc_events := events s', pc_acks := insert (d, eb_client_id b, n) (pc_acks x)\<rparr>)"
proof -
  have b: "batch_ok x d b" using protocol_okD(13) [OF assms(1)] assms(4) by (simp add: pool_ok_def)
  let ?y = "x\<lparr>pc_events := events s'\<rparr>"
  let ?z = "?y\<lparr>pc_acks := insert (d, eb_client_id b, n) (pc_acks x)\<rparr>"
  have y: "protocol_ok limit ?y" by (rule accepted_events [OF assms(1-3) b assms(5)])
  have own: "owns ?z = owns ?y" "first_queued ?z = first_queued ?y" "batch_ok ?z = batch_ok ?y"
    by (simp_all add: owns_def first_queued_def batch_ok_def fun_eq_iff)
  obtain m where m: "(eb_client_id b, eb_server_id b, m) \<in> pc_sessions x d" using b by (auto simp: batch_ok_def)
  have "acks_ok ?z" unfolding acks_ok_def own
  proof (intro allI impI)
    fix e c n'
    assume "(e, c, n') \<in> pc_acks ?z"
    then consider "(e, c, n') \<in> pc_acks ?y" | "e = d" "c = eb_client_id b" "n' = n" by auto
    then show "\<exists>v m. (c, v, m) \<in> pc_sessions ?z e \<and> owns ?y c v \<and>
        (c \<notin> pc_reset ?z \<longrightarrow> n' < m \<and> (\<forall>q i k. (c, v, q, i, k) \<in> pc_rows ?z e \<longrightarrow> q \<le> n' \<longrightarrow> (v, q, i, k) \<in> pc_events ?z))"
    proof cases
      case 1
      with protocol_okD(14) [OF y] show ?thesis unfolding acks_ok_def by simp
    next
      case 2
      with accepted_ack [OF assms(1-3) b assms(5) _ m] accepted_first [OF assms(1-3) b assms(5)] m
      show ?thesis by (intro exI [of _ "eb_server_id b"] exI [of _ m]) auto
    qed
  qed
  with protocol_okD [OF y] show ?thesis unfolding protocol_ok_def by (simp add: protocol_defs own)
qed

end

end
