(* ===== verification/Student_Work.thy ===== *)
theory Student_Work
  imports Client_Sync "HOL-Library.Product_Lexorder"
begin

text \<open>
  The server's side of the work download (\<^verbatim>\<open>repo/learning.go\<close>, the handler in \<^verbatim>\<open>api/student_api.go\<close>): the
  assignments of a student with their revision and activity, in the order of their last change, page by page
  behind a cursor that names the instant and the assignment of the last item sent.

  The column \<^verbatim>\<open>updated_at\<close> of an assignment is the argument \<open>updated\<close>; \<open>is_uuid\<close> says which texts PostgreSQL reads as
  a UUID, and UUIDs compare as their text.  The body of a reply is represented by the message of an error, or by a
  non-empty text beside the decoded value.
\<close>

section \<open>One page\<close>

definition splitCursor :: "string \<Rightarrow> (string \<times> string) option" where
  "splitCursor s = (case dropWhile (\<lambda>c. c \<noteq> CHR ''|'') s of
     [] \<Rightarrow> None | _ # rest \<Rightarrow> Some (takeWhile (\<lambda>c. c \<noteq> CHR ''|'') s, rest))"

definition StudentSafeRevisionContent :: "ActivityContent option \<Rightarrow> ActivityContent option" where
  "StudentSafeRevisionContent content = (case content of
     None \<Rightarrow> None
   | Some c \<Rightarrow>
       if ac_blocks c = [] then content
       else let safe = StudentBlocks (ac_blocks c)
            in if length safe = length (ac_blocks c) then content else Some (c\<lparr>ac_blocks := safe\<rparr>))"

definition work_cursor :: "WorkItem \<Rightarrow> string" where
  "work_cursor it = format_rfc3339nano (wi_updated_at it) @ ''|'' @ sa_id (wi_assignment it)"

definition work_key :: "WorkItem \<Rightarrow> time \<times> uuid" where
  "work_key it = (wi_updated_at it, sa_id (wi_assignment it))"

text \<open>The join of an assignment with its revision and activity.\<close>

definition join_work :: "(uuid \<Rightarrow> time) \<Rightarrow> lms_db \<Rightarrow> StudentAssignment \<Rightarrow> WorkItem list" where
  "join_work updated db a = (case get_row rv_id (sa_activity_revision_id a) (db_revisions db) of
     Inl _ \<Rightarrow> []
   | Inr r \<Rightarrow> (case get_row la_id (rv_activity_id r) (db_activities db) of
       Inl _ \<Rightarrow> []
     | Inr la \<Rightarrow> [\<lparr>wi_assignment = a, wi_updated_at = updated (sa_id a),
                    wi_revision = r\<lparr>rv_content := StudentSafeRevisionContent (rv_content r)\<rparr>, wi_activity = la\<rparr>]))"

definition student_work :: "(uuid \<Rightarrow> time) \<Rightarrow> lms_db \<Rightarrow> uuid \<Rightarrow> WorkItem list" where
  "student_work updated db studentID =
     sort_key work_key
       (concat (map (join_work updated db) (filter (\<lambda>a. sa_student_id a = studentID) (db_assignments db))))"

definition cursor_position :: "(string \<Rightarrow> bool) \<Rightarrow> string \<Rightarrow> repo_error + (time \<times> uuid) option" where
  "cursor_position is_uuid after =
     (if after = [] then Inr None
      else case splitCursor after of
        None \<Rightarrow> Inl (ErrBadRequest ''invalid after cursor'')
      | Some (instant, i) \<Rightarrow>
          (case parse_rfc3339nano instant of
             None \<Rightarrow> Inl (ErrBadRequest ''invalid after cursor time'')
           | Some t \<Rightarrow> if is_uuid i then Inr (Some (t, i)) else Inl (OtherError ''list student work'')))"

definition behind :: "(time \<times> uuid) option \<Rightarrow> WorkItem \<Rightarrow> bool" where
  "behind pos it = (case pos of None \<Rightarrow> True | Some k \<Rightarrow> k < work_key it)"

definition ListStudentWorkPage ::
  "(uuid \<Rightarrow> time) \<Rightarrow> (string \<Rightarrow> bool) \<Rightarrow> lms_db \<Rightarrow> uuid \<Rightarrow> string \<Rightarrow> int \<Rightarrow> repo_error + WorkResponse" where
  "ListStudentWorkPage updated is_uuid db studentID after limit0 =
     (let limit = (if limit0 \<le> 0 \<or> 200 < limit0 then 50 else limit0) in
      case cursor_position is_uuid after of
        Inl e \<Rightarrow> Inl e
      | Inr pos \<Rightarrow>
          let scanned = take (nat (limit + 1)) (filter (behind pos) (student_work updated db studentID));
              items = take (nat limit) scanned
          in Inr \<lparr>wp_items = items, wp_cursor = (if items = [] then [] else work_cursor (last items)),
                  wp_mode = (if after = [] then WorkModeSnapshot else WorkModeIncremental),
                  wp_has_more = (limit < int (length scanned))\<rparr>)"

section \<open>The handlers\<close>

definition http_reply :: "http_error + 'a \<Rightarrow> 'a response" where
  "http_reply r = (case r of
     Inr v \<Rightarrow> \<lparr>rs_code = 200, rs_body = ''{}'', rs_value = Some v\<rparr>
   | Inl (HttpError code msg) \<Rightarrow> \<lparr>rs_code = code, rs_body = msg, rs_value = None\<rparr>
   | Inl (RawError _) \<Rightarrow> \<lparr>rs_code = 500, rs_body = ''unexpected error occurred'', rs_value = None\<rparr>)"

definition get_student_work ::
  "(uuid \<Rightarrow> time) \<Rightarrow> (string \<Rightarrow> bool) \<Rightarrow> StudentDevice \<Rightarrow> string \<Rightarrow> int \<Rightarrow> lms_db \<Rightarrow> WorkResponse response" where
  "get_student_work updated is_uuid dev after limit db =
     http_reply (map_sum MapError id (ListStudentWorkPage updated is_uuid db (sc_student_id dev) after limit))"

section \<open>Pages of a sorted list\<close>

lemma work_ids:
  "map (\<lambda>it. sa_id (wi_assignment it)) (join_work updated db a) = (if join_work updated db a = [] then [] else [sa_id a])"
  by (simp add: join_work_def split: sum.splits)

lemma joined_distinct:
  "distinct (map sa_id as) \<Longrightarrow> distinct (map (\<lambda>it. sa_id (wi_assignment it)) (concat (map (join_work updated db) as)))"
proof (induction as)
  case (Cons a as)
  have "sa_id (wi_assignment it) = sa_id b" if "it \<in> set (join_work updated db b)" for it b
    using that by (auto simp: join_work_def split: sum.splits)
  with Cons show ?case by (fastforce simp: work_ids)
qed simp

lemma student_work_ids:
  assumes "unique_key sa_id (db_assignments db)"
  shows "distinct (map (\<lambda>it. sa_id (wi_assignment it)) (student_work updated db s))"
proof -
  let ?items = "concat (map (join_work updated db) (filter (\<lambda>a. sa_student_id a = s) (db_assignments db)))"
  have "distinct (map (\<lambda>it. sa_id (wi_assignment it)) ?items)"
    by (rule joined_distinct) (use assms in \<open>simp add: unique_key_def distinct_map_filter\<close>)
  then show ?thesis unfolding student_work_def distinct_map by (simp add: inj_on_def)
qed

lemma student_work_sorted:
  assumes "unique_key sa_id (db_assignments db)"
  shows "sorted_wrt (\<lambda>x y. work_key x < work_key y) (student_work updated db s)"
proof -
  have "distinct (map work_key (student_work updated db s))"
    using student_work_ids [OF assms, of updated s] by (auto simp: distinct_map inj_on_def work_key_def)
  then have "sorted_wrt (<) (map work_key (student_work updated db s))"
    by (simp add: strict_sorted_iff student_work_def)
  then show ?thesis by (simp add: sorted_wrt_map)
qed

text \<open>Behind the last item of a beginning lies the rest.\<close>

lemma behind_rest:
  assumes "sorted_wrt (\<lambda>x y. work_key x < work_key y) (xs @ ys)" "xs \<noteq> []"
  shows "filter (behind (Some (work_key (last xs)))) (xs @ ys) = ys"
proof -
  have "work_key x \<le> work_key (last xs)" if "x \<in> set xs" for x
  proof -
    have "xs = butlast xs @ [last xs]" using assms(2) by simp
    moreover from this assms(1) have "\<forall>z \<in> set (butlast xs). work_key z < work_key (last xs)"
      by (metis (no_types, lifting) append.assoc append_Cons list.set_intros(1) sorted_wrt_append)
    ultimately show ?thesis using that by (metis UnE in_set_conv_decomp_first less_imp_le order_refl set_append set_ConsD empty_iff empty_set)
  qed
  then have "filter (behind (Some (work_key (last xs)))) xs = []"
    by (auto simp: filter_empty_conv behind_def not_less)
  moreover have "filter (behind (Some (work_key (last xs)))) ys = ys"
    using assms by (intro filter_True) (auto simp: behind_def sorted_wrt_append)
  ultimately show ?thesis by simp
qed

section \<open>Cursors\<close>

lemma digits_fixed_set: "set (digits_fixed w n) \<subseteq> digit_char ` {0..9}"
proof (induction w arbitrary: n)
  case (Suc w)
  have "n mod 10 \<in> {0..9}" by simp
  with Suc show ?case by auto
qed simp

lemma no_bar_digits: "CHR ''|'' \<notin> set (digits_fixed w n)"
proof
  assume "CHR ''|'' \<in> set (digits_fixed w n)"
  then have "is_digit CHR ''|''" using digits_fixed_digits [of w n] by (simp add: list_all_iff)
  then show False by (simp add: is_digit_def)
qed

lemma no_bar_trim: "set (trim_zeros s) \<subseteq> set s"
  by (auto simp: trim_zeros_def dest: set_dropWhileD)

lemma no_bar_rfc3339: "CHR ''|'' \<notin> set (format_rfc3339nano t)"
proof -
  have "CHR ''|'' \<notin> set (format_fraction t)"
    using no_bar_trim [of "digits_fixed 6 (t mod second)"] no_bar_digits [of 6 "t mod second"]
    by (auto simp: format_fraction_def)
  then show ?thesis
    by (simp add: format_rfc3339nano_def format_day_def no_bar_digits split: prod.split)
qed

lemma split_work_cursor: "splitCursor (work_cursor it) = Some (format_rfc3339nano (wi_updated_at it), sa_id (wi_assignment it))"
proof -
  let ?p = "\<lambda>c. c \<noteq> CHR ''|''" and ?t = "format_rfc3339nano (wi_updated_at it)"
  have "\<forall>c \<in> set ?t. ?p c" using no_bar_rfc3339 by metis
  then show ?thesis by (simp add: splitCursor_def work_cursor_def)
qed

lemma work_cursor_nonempty [simp]: "work_cursor it \<noteq> []"
  by (simp add: work_cursor_def)

lemma work_cursor_position:
  assumes "0 \<le> year_of (wi_updated_at it)" "year_of (wi_updated_at it) \<le> 9999" "is_uuid (sa_id (wi_assignment it))"
  shows "cursor_position is_uuid (work_cursor it) = Inr (Some (work_key it))"
  using assms by (simp add: cursor_position_def split_work_cursor rfc3339nano_roundtrip work_key_def)

lemma work_cursor_inject:
  assumes "0 \<le> year_of (wi_updated_at x)" "year_of (wi_updated_at x) \<le> 9999"
    "0 \<le> year_of (wi_updated_at y)" "year_of (wi_updated_at y) \<le> 9999" "work_cursor x = work_cursor y"
  shows "work_key x = work_key y"
  using work_cursor_position [OF assms(1,2), of "\<lambda>_. True"] work_cursor_position [OF assms(3,4), of "\<lambda>_. True"] assms(5)
  by simp

end
