(* ===== verification/Client_Fleet.thy ===== *)
theory Client_Fleet
  imports Outbox_Protocol Student_Work Learning_Session
begin

text \<open>
  Workstations and server together: the stores of any number of devices, the server's database, batches that were
  read from an outbox and may be sent at any later time, once, again or never, and answers that arrive late, again
  or never.  A crash of a workstation is the absence of further steps for what it held in memory.  The handler of
  the server is the one of \<^verbatim>\<open>api/student_api.go\<close>; local sessions are opened and events queued the way
  \<^verbatim>\<open>studentclient/engine\<close> does it.

  The row of a local session is read at one time and written back, with another state, at any later time, as the
  flush of completions, pausing, completing and resuming do it: events may have been queued in between, and then
  the write sets the session's counter back.  Such sessions are remembered in \<open>ft_reset\<close>.

  Identifiers made by \<^verbatim>\<open>uuid.NewString()\<close> are new, and a session queues fewer than \<open>ServerEventSequenceBase\<close> events.
\<close>

section \<open>The server's handler\<close>

definition post_session_events ::
  "(SessionEvent \<Rightarrow> uuid) \<Rightarrow> StudentDevice \<Rightarrow> uuid \<Rightarrow> SessionEvent list \<Rightarrow> time \<Rightarrow> lms_db \<Rightarrow> (http_error + int) \<times> lms_db" where
  "post_session_events gen dev sid evs now db =
     (case GetSession db sid of
        Inl e \<Rightarrow> (Inl (MapError e), db)
      | Inr sess \<Rightarrow>
          if ln_student_id sess \<noteq> sc_student_id dev then (Inl (HttpError 404 ''session not found''), db)
          else (case IngestSessionEvents gen (ln_id sess) evs now db of
             (Inl (ErrConflict m), db') \<Rightarrow> (Inl (HttpError 409 m), db')
           | (Inl e, db') \<Rightarrow> (Inl (MapError e), db')
           | (Inr n, db') \<Rightarrow> (Inr n, db')))"

definition lms_place :: "LearningSessionEvent \<Rightarrow> placed" where
  "lms_place e = (le_session_id e, le_sequence e, le_event_id e, Content (le_event_type e) (le_client_time e) (le_payload e))"

definition lms_events :: "lms_db \<Rightarrow> placed set" where
  "lms_events db = lms_place ` set (db_events db)"

definition lms_accepts :: "string \<Rightarrow> SessionEvent list \<Rightarrow> lms_db \<Rightarrow> int \<Rightarrow> lms_db \<Rightarrow> bool" where
  "lms_accepts sid evs db n db' \<longleftrightarrow> (\<exists>gen dev now. post_session_events gen dev sid evs now db = (Inr n, db'))"

lemma lms_accepts_ingest:
  assumes "lms_accepts sid evs db n db'"
  obtains gen now where "IngestSessionEvents gen sid evs now db = (Inr n, db')"
proof -
  from assms obtain gen dev now where p: "post_session_events gen dev sid evs now db = (Inr n, db')"
    by (auto simp: lms_accepts_def)
  then obtain sess where s: "GetSession db sid = Inr sess" by (auto simp: post_session_events_def split: sum.splits)
  have "ln_id sess = sid" using get_row_Inr s by (fastforce simp: GetSession_def)
  with p s that show thesis
    by (auto simp: post_session_events_def split: if_splits sum.splits prod.splits repo_error.splits)
qed

lemma post_refused: "post_session_events gen dev sid evs now db = (Inl e, db') \<Longrightarrow> db' = db"
  by (auto simp: post_session_events_def IngestSessionEvents_def dest: WithTx_error split: if_splits sum.splits prod.splits repo_error.splits)

lemma event_row_place: "lms_place (event_row i sid ev now) = event_place sid ev"
  by (simp add: lms_place_def event_row_def event_place_def event_content_def)

lemma insert_events_new:
  assumes "insert_events gen sid now evs db = Inr db'" "e \<in> set (db_events db')" "e \<notin> set (db_events db)"
  shows "\<exists>ev \<in> set evs. lms_place e = event_place sid ev"
  using assms
proof (induction evs arbitrary: db)
  case (Cons ev evs)
  obtain rows where rows: "insert_event db (event_row (gen ev) sid ev now) = Inr rows"
    and rest: "insert_events gen sid now evs (db\<lparr>db_events := rows\<rparr>) = Inr db'"
    using Cons.prems(1) by (auto split: if_splits sum.splits repo_error.splits)
  have "set rows \<subseteq> insert (event_row (gen ev) sid ev now) (set (db_events db))"
    using rows by (cases rule: insert_event_cases) auto
  then consider "e \<notin> set rows" | "e = event_row (gen ev) sid ev now" using Cons.prems(3) by blast
  then show ?case
  proof cases
    case 1
    with Cons.IH [OF rest Cons.prems(2)] show ?thesis by auto
  qed (auto simp: event_row_place)
qed simp

lemma ingest_new:
  assumes "IngestSessionEvents gen sid evs now db = (Inr n, db')" "e \<in> set (db_events db')" "e \<notin> set (db_events db)"
  shows "\<exists>ev \<in> set evs. lms_place e = event_place sid ev"
proof -
  obtain db1 where "insert_events gen sid now evs db = Inr db1" "db' = touch_session sid now db1"
    using assms(1) by (cases "insert_events gen sid now evs db") (auto simp: IngestSessionEvents_def WithTx_ok Let_def)
  with assms(2,3) insert_events_new show ?thesis by auto
qed

interpretation lms: event_server session_wf lms_events lms_accepts
proof unfold_locales
  fix s sid evs n s'
  assume wf: "session_wf s" and "lms_accepts sid evs s n s'"
  then obtain gen now where i: "IngestSessionEvents gen sid evs now s = (Inr n, s')" by (elim lms_accepts_ingest)
  note a = ingest_acknowledges [OF wf i, of gen 0]
  show "session_wf s'" using a by blast
  show "lms_events s \<subseteq> lms_events s'" using a by (auto simp: lms_events_def)
  show "\<exists>ev \<in> set evs. p = event_place sid ev" if "p \<in> lms_events s'" "p \<notin> lms_events s" for p
    using that ingest_new [OF i] by (auto simp: lms_events_def)
  show "\<exists>v q k. (v, q, sv_event_id ev, k) \<in> lms_events s'" if "ev \<in> set evs" for ev
  proof -
    from that a obtain e where "e \<in> set (db_events s')" "le_event_id e = sv_event_id ev" by (auto simp: keys_def)
    then have "lms_place e \<in> lms_events s'" by (simp add: lms_events_def)
    with \<open>le_event_id e = sv_event_id ev\<close> show ?thesis by (auto simp: lms_place_def)
  qed
  show "\<exists>i k. (sid, q, i, k) \<in> lms_events s'" if "0 \<le> q" "q \<le> n" for q
  proof -
    from that a have "q \<in> set (session_sequences s' sid)" by auto
    then obtain e where e: "e \<in> set (db_events s')" "le_session_id e = sid" "le_sequence e = q" by (auto simp: session_sequences_def)
    then have "lms_place e \<in> lms_events s'" by (simp add: lms_events_def)
    moreover have "lms_place e = (sid, q, le_event_id e, Content (le_event_type e) (le_client_time e) (le_payload e))"
      using e by (simp add: lms_place_def)
    ultimately show ?thesis by metis
  qed
next
  fix s v q i i' k k'
  assume "session_wf s" "(v, q, i, k) \<in> lms_events s" "(v, q, i', k') \<in> lms_events s"
  then obtain e e' where e: "e \<in> set (db_events s)" "e' \<in> set (db_events s)" "lms_place e = (v, q, i, k)" "lms_place e' = (v, q, i', k')"
    and u: "unique_key (\<lambda>e. (le_session_id e, le_sequence e)) (db_events s)"
    by (auto simp: lms_events_def session_wf_def)
  have "e = e'" by (rule unique_key_eq [OF u e(1,2)]) (use e(3,4) in \<open>simp add: lms_place_def\<close>)
  with e(3,4) show "i = i'" by simp
qed

section \<open>The state of the fleet\<close>

record fleet =
  ft_store :: "uuid \<Rightarrow> Store"
  ft_server :: lms_db
  ft_pool :: "(uuid \<times> eventBatch) set"
  ft_acks :: "(uuid \<times> string \<times> int) set"
  ft_reads :: "(uuid \<times> Session) set"
  ft_reset :: "string set"

definition set_store :: "uuid \<Rightarrow> Store \<Rightarrow> fleet \<Rightarrow> fleet" where
  "set_store d st s = s\<lparr>ft_store := (ft_store s)(d := st)\<rparr>"

text \<open>The row of a freshly opened local session.\<close>

definition fresh_session :: "string \<Rightarrow> string \<Rightarrow> WorkItem \<Rightarrow> string \<Rightarrow> Session" where
  "fresh_session clientSessionID serverSessionID item workspace =
     \<lparr>cs_client_session_id = clientSessionID, cs_server_session_id = serverSessionID,
      cs_assignment_id = sa_id (wi_assignment item), cs_activity_revision_id = rv_id (wi_revision item),
      cs_state = ''started'', cs_last_acked_sequence = - 1, cs_next_sequence = 0, cs_workspace_path = workspace,
      cs_created_at = zero_time, cs_updated_at = zero_time\<rparr>"

text \<open>An event as the engine queues it: its number is left to the store.\<close>

definition engine_event :: "string \<Rightarrow> string \<Rightarrow> params \<Rightarrow> time \<Rightarrow> SessionEvent" where
  "engine_event eventID typ payload now =
     \<lparr>sv_schema_version = EventSchemaVersion, sv_event_id = eventID, sv_type = typ, sv_sequence = - 1,
      sv_client_time = now, sv_payload = payload\<rparr>"

text \<open>
  A session row that was read is written back with another state: the whole row, its counter included.  The
  argument \<open>cur\<close> is the row it replaces.
\<close>

definition write_back :: "uuid \<Rightarrow> time \<Rightarrow> string \<Rightarrow> Session \<Rightarrow> Session \<Rightarrow> fleet \<Rightarrow> fleet" where
  "write_back d now state row cur s =
     (set_store d (SaveSession now (row\<lparr>cs_state := state\<rparr>) (ft_store s d)) s)
       \<lparr>ft_reset := (if cs_next_sequence row = cs_next_sequence cur then ft_reset s
                     else insert (cs_client_session_id row) (ft_reset s))\<rparr>"

inductive fleet_step :: "fleet \<Rightarrow> fleet \<Rightarrow> bool" where
  open_offline: "\<forall>e. cid \<notin> cs_client_session_id ` set (st_sessions (ft_store s e)) \<Longrightarrow>
    fleet_step s (set_store d (SaveSession now (fresh_session cid [] item ws) (ft_store s d)) s)"
| open_online: "\<forall>e. cid \<notin> cs_client_session_id ` set (st_sessions (ft_store s e)) \<Longrightarrow>
    StartOrResumeSession dev cid (sa_id (wi_assignment item)) now caps i (ft_server s) = (Inr sess, db') \<Longrightarrow>
    sid = ln_id sess \<or> sid = [] \<Longrightarrow>
    fleet_step s (set_store d (SaveSession now (fresh_session cid sid item ws) (ft_store s d)) (s\<lparr>ft_server := db'\<rparr>))"
| enqueue: "EnqueueEvent now cid (engine_event eventID typ payload now) (ft_store s d) = (Inr ev, st') \<Longrightarrow>
    \<forall>e. eventID \<notin> ox_event_id ` set (st_outbox (ft_store s e)) \<Longrightarrow> eventID \<notin> le_event_id ` set (db_events (ft_server s)) \<Longrightarrow>
    sv_sequence ev + 1 < ServerEventSequenceBase \<Longrightarrow> fleet_step s (set_store d st' s)"
| list_batch: "b \<in> set (event_batches (ListPendingEvents (ft_store s d) 500)) \<Longrightarrow>
    fleet_step s (s\<lparr>ft_pool := insert (d, b) (ft_pool s)\<rparr>)"
| post: "(d, b) \<in> ft_pool s \<Longrightarrow> resolve_server_id (ft_store s d) (eb_client_id b) (eb_server_id b) = Inr sid \<Longrightarrow> sid \<noteq> [] \<Longrightarrow>
    post_session_events gen dev sid (map oq_event (eb_events b)) now (ft_server s) = (Inr n, db') \<Longrightarrow>
    fleet_step s (s\<lparr>ft_server := db', ft_acks := insert (d, eb_client_id b, n) (ft_acks s)\<rparr>)"
| refuse: "(d, b) \<in> ft_pool s \<Longrightarrow> resolve_server_id (ft_store s d) (eb_client_id b) (eb_server_id b) = Inr sid \<Longrightarrow> sid \<noteq> [] \<Longrightarrow>
    post_session_events gen dev sid (map oq_event (eb_events b)) now (ft_server s) = (Inl err, db') \<Longrightarrow>
    fleet_step s (s\<lparr>ft_server := db'\<rparr>)"
| acknowledge: "(d, cid, n) \<in> ft_acks s \<Longrightarrow> fleet_step s (set_store d (AckEvents now cid n (ft_store s d)) s)"
| read_session: "row \<in> set (st_sessions (ft_store s d)) \<Longrightarrow> fleet_step s (s\<lparr>ft_reads := insert (d, row) (ft_reads s)\<rparr>)"
| write_session: "(d, row) \<in> ft_reads s \<Longrightarrow> cur \<in> set (st_sessions (ft_store s d)) \<Longrightarrow>
    cs_client_session_id cur = cs_client_session_id row \<Longrightarrow> fleet_step s (write_back d now state row cur s)"
| server_event: "InsertServerSessionEvent i eventID sid typ payload now (ft_server s) = (res, db') \<Longrightarrow>
    \<forall>e. eventID \<notin> ox_event_id ` set (st_outbox (ft_store s e)) \<Longrightarrow> fleet_step s (s\<lparr>ft_server := db'\<rparr>)"
| server_other: "db_events db' = db_events (ft_server s) \<Longrightarrow> session_wf db' \<Longrightarrow> fleet_step s (s\<lparr>ft_server := db'\<rparr>)"

definition fleet_init :: "fleet \<Rightarrow> bool" where
  "fleet_init s \<longleftrightarrow> (\<forall>d. st_sessions (ft_store s d) = [] \<and> st_outbox (ft_store s d) = []) \<and>
     session_wf (ft_server s) \<and> db_events (ft_server s) = [] \<and> ft_pool s = {} \<and> ft_acks s = {} \<and>
     ft_reads s = {} \<and> ft_reset s = {}"

section \<open>What the protocol sees of it\<close>

definition row_place :: "outbox_row \<Rightarrow> placed" where
  "row_place r = (ox_server_session_id r, ox_sequence r, ox_event_id r, Content (ox_event_type r) (ox_client_time r) (ox_payload r))"

definition row_view :: "outbox_row \<Rightarrow> string \<times> placed" where
  "row_view r = (ox_client_session_id r, row_place r)"

definition session_view :: "Session \<Rightarrow> string \<times> string \<times> int" where
  "session_view c = (cs_client_session_id c, cs_server_session_id c, cs_next_sequence c)"

definition acked_places :: "Store \<Rightarrow> placed set" where
  "acked_places st = row_place ` {r \<in> set (st_outbox st). ox_acked r}"

definition fleet_view :: "fleet \<Rightarrow> protocol" where
  "fleet_view s = \<lparr>pc_rows = (\<lambda>d. row_view ` set (st_outbox (ft_store s d))),
     pc_sessions = (\<lambda>d. session_view ` set (st_sessions (ft_store s d))), pc_events = lms_events (ft_server s),
     pc_acked = (\<lambda>d. acked_places (ft_store s d)), pc_pool = ft_pool s, pc_acks = ft_acks s,
     pc_reads = (\<lambda>(d, row). (d, session_view row)) ` ft_reads s, pc_reset = ft_reset s\<rparr>"

definition fleet_inv :: "fleet \<Rightarrow> bool" where
  "fleet_inv s \<longleftrightarrow> protocol_ok ServerEventSequenceBase (fleet_view s) \<and> session_wf (ft_server s) \<and>
     (\<forall>d. unique_key ox_event_id (st_outbox (ft_store s d)))"

lemma view_set_store:
  "fleet_view (set_store d st s) =
     (fleet_view s)\<lparr>pc_rows := (pc_rows (fleet_view s))(d := row_view ` set (st_outbox st)),
       pc_sessions := (pc_sessions (fleet_view s))(d := session_view ` set (st_sessions st)),
       pc_acked := (pc_acked (fleet_view s))(d := acked_places st)\<rparr>"
  by (auto simp: fleet_view_def set_store_def fun_eq_iff)

lemma view_fields:
  "pc_rows (fleet_view s) d = row_view ` set (st_outbox (ft_store s d))"
  "pc_sessions (fleet_view s) d = session_view ` set (st_sessions (ft_store s d))"
  "pc_events (fleet_view s) = lms_events (ft_server s)" "pc_pool (fleet_view s) = ft_pool s" "pc_acks (fleet_view s) = ft_acks s"
  "pc_acked (fleet_view s) d = acked_places (ft_store s d)" "pc_reads (fleet_view s) = (\<lambda>(d, row). (d, session_view row)) ` ft_reads s"
  "pc_reset (fleet_view s) = ft_reset s"
  by (simp_all add: fleet_view_def)

lemma set_store_server [simp]: "ft_server (set_store d st s) = ft_server s"
  by (simp add: set_store_def)

lemma set_store_store: "ft_store (set_store d st s) e = (if e = d then st else ft_store s e)"
  by (simp add: set_store_def)

text \<open>A change of a store that the protocol does not see.\<close>

lemma view_unchanged:
  assumes "row_view ` set (st_outbox st) = row_view ` set (st_outbox (ft_store s d))"
    "session_view ` set (st_sessions st) = session_view ` set (st_sessions (ft_store s d))"
    "acked_places st = acked_places (ft_store s d)"
  shows "fleet_view (set_store d st s) = fleet_view s"
  unfolding view_set_store using assms by (simp add: view_fields [symmetric])

lemma image_update_where:
  assumes "\<And>r. r \<in> set rows \<Longrightarrow> p r \<Longrightarrow> g (f r) = g r"
  shows "g ` set (update_where p f rows) = g ` set rows"
  using assms unfolding update_where_def set_map image_image by (intro image_cong) auto

section \<open>Each step keeps the invariant\<close>

lemma fleet_invD:
  assumes "fleet_inv s"
  shows "protocol_ok ServerEventSequenceBase (fleet_view s)" "session_wf (ft_server s)" "unique_key ox_event_id (st_outbox (ft_store s d))"
  using assms by (simp_all add: fleet_inv_def)

text \<open>The database changes without a new event.\<close>

lemma server_same:
  assumes "fleet_inv s" "db_events db' = db_events (ft_server s)" "session_wf db'"
  shows "fleet_inv (s\<lparr>ft_server := db'\<rparr>)"
proof -
  have "fleet_view (s\<lparr>ft_server := db'\<rparr>) = fleet_view s" using assms(2) by (simp add: fleet_view_def lms_events_def)
  with assms(1,3) show ?thesis by (simp add: fleet_inv_def)
qed

lemma start_same:
  assumes "session_wf db" "StartOrResumeSession dev cid aid now caps i db = (Inr sess, db')"
  shows "db_events db' = db_events db \<and> session_wf db'"
proof -
  have "start_or_resume dev cid aid now caps i db = (Inr sess, db')"
    using assms(2) by (simp add: StartOrResumeSession_def WithTx_ok)
  then show ?thesis
  proof (cases rule: start_or_resume_cases)
    case (created asg rows asgs)
    have "session_wf (db\<lparr>db_sessions := rows\<rparr>)" using create_session_wf [OF assms(1) created(7)] created(6) by simp
    with created(8) show ?thesis by simp
  qed (use assms(1) in simp)
qed

lemma save_fresh:
  assumes "cs_client_session_id sess \<notin> cs_client_session_id ` set (st_sessions st)"
  shows "session_view ` set (st_sessions (SaveSession now sess st)) = insert (session_view sess) (session_view ` set (st_sessions st))"
    "st_outbox (SaveSession now sess st) = st_outbox st"
proof -
  have "\<not> list_ex (\<lambda>r. cs_client_session_id r = cs_client_session_id sess) (st_sessions st)"
    using assms by (auto simp: list_ex_iff image_iff)
  then show "session_view ` set (st_sessions (SaveSession now sess st)) = insert (session_view sess) (session_view ` set (st_sessions st))"
    by (simp add: SaveSession_def Let_def upsert_def session_view_def)
qed (simp add: SaveSession_def Let_def)

lemma fresh_view: "session_view (fresh_session cid sid item ws) = (cid, sid, 0)"
  by (simp add: session_view_def fresh_session_def)

lemma open_inv:
  assumes "fleet_inv s" "\<forall>e. cid \<notin> cs_client_session_id ` set (st_sessions (ft_store s e))"
  shows "fleet_inv (set_store d (SaveSession now (fresh_session cid sid item ws) (ft_store s d)) s)"
proof -
  let ?st = "SaveSession now (fresh_session cid sid item ws) (ft_store s d)"
  have "cs_client_session_id (fresh_session cid sid item ws) \<notin> cs_client_session_id ` set (st_sessions (ft_store s d))"
    using assms(2) by (simp add: fresh_session_def)
  note fresh = save_fresh [OF this, of now]
  have v: "fleet_view (set_store d ?st s) = open_step d cid sid (fleet_view s)"
    unfolding view_set_store open_step_def acked_places_def fresh
    by (simp add: view_fields fun_upd_idem acked_places_def fresh_view)
  have "(cid, v, n) \<notin> pc_sessions (fleet_view s) e" for v n e
    using assms(2) by (auto simp: view_fields session_view_def)
  from open_ok [OF fleet_invD(1) [OF assms(1)] _ this] have "protocol_ok ServerEventSequenceBase (fleet_view (set_store d ?st s))"
    by (simp add: v ServerEventSequenceBase_def)
  with assms(1) show ?thesis by (simp add: fleet_inv_def set_store_store fresh(2))
qed

text \<open>Sessions with one identifier look alike to the protocol.\<close>

lemma session_view_single:
  assumes "fleet_inv s" "c \<in> set (st_sessions (ft_store s d))" "c' \<in> set (st_sessions (ft_store s d))"
    "cs_client_session_id c = cs_client_session_id c'"
  shows "session_view c = session_view c'"
proof -
  have "session_view c \<in> pc_sessions (fleet_view s) d" "session_view c' \<in> pc_sessions (fleet_view s) d"
    using assms(2,3) by (simp_all add: view_fields)
  then show ?thesis
    using session_same [OF protocol_okD(1) [OF fleet_invD(1) [OF assms(1)]], of "cs_client_session_id c" _ _ d _ _ d] assms(4)
    by (simp add: session_view_def)
qed

lemma enqueue_parts:
  assumes "EnqueueEvent now cid (engine_event eventID typ payload now) st = (Inr ev, st')"
  obtains c where "c \<in> set (st_sessions st)" "cs_client_session_id c = cid" "sv_sequence ev = cs_next_sequence c"
    "row_view ` set (st_outbox st') = insert (cid, cs_server_session_id c, cs_next_sequence c, eventID, Content typ now payload) (row_view ` set (st_outbox st))"
    "acked_places st' = acked_places st"
    "st_sessions st' = update_where (\<lambda>r. cs_client_session_id r = cid) (\<lambda>r. r\<lparr>cs_next_sequence := cs_next_sequence c + 1, cs_updated_at := now\<rparr>) (st_sessions st)"
    "\<exists>row. st_outbox st' = st_outbox st @ [row] \<and> ox_event_id row = eventID" "eventID \<notin> ox_event_id ` set (st_outbox st)"
proof -
  obtain c where c: "List.find (\<lambda>r. cs_client_session_id r = cid) (st_sessions st) = Some c"
    using assms by (cases "List.find (\<lambda>r. cs_client_session_id r = cid) (st_sessions st)") (auto simp: EnqueueEvent_def)
  let ?ev = "complete_event now (cs_next_sequence c) (engine_event eventID typ payload now)"
  let ?row = "new_outbox_row now (Suc (length (st_outbox st))) cid (cs_server_session_id c) ?ev"
  have ev: "sv_sequence ?ev = cs_next_sequence c" "sv_event_id ?ev = eventID" "sv_type ?ev = typ" "sv_payload ?ev = payload" "sv_client_time ?ev = now"
    by (simp_all add: complete_event_def engine_event_def)
  have fresh: "\<not> list_ex (\<lambda>r. ox_event_id r = eventID) (st_outbox st)" and e: "ev = ?ev"
    and st': "st' = st\<lparr>st_outbox := st_outbox st @ [?row], st_sessions := update_where (\<lambda>r. cs_client_session_id r = cid)
      (\<lambda>r. r\<lparr>cs_next_sequence := cs_next_sequence c + 1, cs_updated_at := now\<rparr>) (st_sessions st)\<rparr>"
    using assms unfolding EnqueueEvent_def c by (auto simp: Let_def ev split: if_splits)
  have row: "row_view ?row = (cid, cs_server_session_id c, cs_next_sequence c, eventID, Content typ now payload)" "\<not> ox_acked ?row" "ox_event_id ?row = eventID"
    by (simp_all add: row_view_def row_place_def new_outbox_row_def ev)
  show thesis
  proof (rule that)
    show "c \<in> set (st_sessions st)" "cs_client_session_id c = cid" using find_Some_in [OF c] by simp_all
    show "eventID \<notin> ox_event_id ` set (st_outbox st)" using fresh by (auto simp: list_ex_iff)
  qed (use e ev row in \<open>auto simp: st' acked_places_def\<close>)
qed

lemma sessions_counted:
  assumes "fleet_inv s" "c \<in> set (st_sessions (ft_store s d))"
  shows "session_view ` set (update_where (\<lambda>r. cs_client_session_id r = cs_client_session_id c)
      (\<lambda>r. r\<lparr>cs_next_sequence := cs_next_sequence c + 1, cs_updated_at := now\<rparr>) (st_sessions (ft_store s d))) =
    insert (cs_client_session_id c, cs_server_session_id c, cs_next_sequence c + 1)
      (session_view ` set (st_sessions (ft_store s d)) - {session_view c})" (is "?l = ?r")
proof -
  have same: "session_view x = session_view c" if "x \<in> set (st_sessions (ft_store s d))" "cs_client_session_id x = cs_client_session_id c" for x
    using session_view_single [OF assms(1) that(1) assms(2) that(2)] .
  show ?thesis
  proof (intro set_eqI iffI)
    fix z assume "z \<in> ?l"
    then obtain x where x: "x \<in> set (st_sessions (ft_store s d))"
      "z = session_view (if cs_client_session_id x = cs_client_session_id c then x\<lparr>cs_next_sequence := cs_next_sequence c + 1, cs_updated_at := now\<rparr> else x)"
      by (auto simp: update_where_def)
    then show "z \<in> ?r" using same [OF x(1)] by (auto simp: session_view_def)
  next
    fix z assume "z \<in> ?r"
    then consider "z = (cs_client_session_id c, cs_server_session_id c, cs_next_sequence c + 1)"
      | x where "x \<in> set (st_sessions (ft_store s d))" "z = session_view x" "z \<noteq> session_view c" by auto
    then show "z \<in> ?l"
    proof cases
      case 1
      with update_where_member [OF assms(2), of "\<lambda>r. cs_client_session_id r = cs_client_session_id c"
          "\<lambda>r. r\<lparr>cs_next_sequence := cs_next_sequence c + 1, cs_updated_at := now\<rparr>"]
      show ?thesis by (intro image_eqI) (auto simp: session_view_def)
    next
      case (2 x)
      then have "cs_client_session_id x \<noteq> cs_client_session_id c" using same by auto
      with 2 show ?thesis by (auto simp: update_where_def intro!: image_eqI [of _ _ x])
    qed
  qed
qed

lemma enqueue_inv:
  assumes "fleet_inv s" "EnqueueEvent now cid (engine_event eventID typ payload now) (ft_store s d) = (Inr ev, st')"
    "\<forall>e. eventID \<notin> ox_event_id ` set (st_outbox (ft_store s e))" "eventID \<notin> le_event_id ` set (db_events (ft_server s))"
    "sv_sequence ev + 1 < ServerEventSequenceBase"
  shows "fleet_inv (set_store d st' s)"
proof -
  obtain c where c: "c \<in> set (st_sessions (ft_store s d))" "cs_client_session_id c = cid" "sv_sequence ev = cs_next_sequence c"
    "row_view ` set (st_outbox st') = insert (cid, cs_server_session_id c, cs_next_sequence c, eventID, Content typ now payload) (row_view ` set (st_outbox (ft_store s d)))"
    "acked_places st' = acked_places (ft_store s d)"
    "st_sessions st' = update_where (\<lambda>r. cs_client_session_id r = cid) (\<lambda>r. r\<lparr>cs_next_sequence := cs_next_sequence c + 1, cs_updated_at := now\<rparr>) (st_sessions (ft_store s d))"
    "\<exists>row. st_outbox st' = st_outbox (ft_store s d) @ [row] \<and> ox_event_id row = eventID" "eventID \<notin> ox_event_id ` set (st_outbox (ft_store s d))"
    by (rule enqueue_parts [OF assms(2)])
  let ?v = "cs_server_session_id c" and ?n = "cs_next_sequence c"
  have view: "fleet_view (set_store d st' s) = enqueue_step d cid ?v ?n eventID (Content typ now payload) (fleet_view s)"
    unfolding view_set_store enqueue_step_def c(4,5,6) using sessions_counted [OF assms(1) c(1), of now] c(2)
    by (simp add: view_fields fun_upd_idem session_view_def [of c])
  have "(cid, ?v, ?n) \<in> pc_sessions (fleet_view s) d" using c(1,2) by (auto simp: view_fields session_view_def)
  moreover have "(c', v', q', eventID, k') \<notin> pc_rows (fleet_view s) e" for c' v' q' k' e
    using assms(3) by (auto simp: view_fields row_view_def row_place_def)
  moreover have "(v', q', eventID, k') \<notin> pc_events (fleet_view s)" for v' q' k'
    using assms(4) by (auto simp: view_fields lms_events_def lms_place_def)
  ultimately have "protocol_ok ServerEventSequenceBase (fleet_view (set_store d st' s))"
    unfolding view using enqueue_ok [OF fleet_invD(1) [OF assms(1)]] assms(5) c(3) by simp
  moreover have "unique_key ox_event_id (st_outbox st')"
    using c(7,8) fleet_invD(3) [OF assms(1), of d] by (auto simp: unique_key_def)
  ultimately show ?thesis using assms(1) by (simp add: fleet_inv_def set_store_store)
qed

lemma row_in_view: "r \<in> set (st_outbox (ft_store s d)) \<Longrightarrow> (ox_client_session_id r, row_place r) \<in> pc_rows (fleet_view s) d"
  by (simp add: view_fields row_view_def [symmetric])

lemma listed_server:
  assumes "fleet_inv s" "b \<in> set (event_batches (ListPendingEvents (ft_store s d) 500))"
    "r \<in> set (st_outbox (ft_store s d))" "ox_client_session_id r = eb_client_id b"
  shows "ox_server_session_id r = eb_server_id b"
proof (rule sym, rule batch_server [OF assms(2)], rule ballI)
  fix e assume e: "e \<in> set (eb_events b)"
  obtain x where x: "x \<in> set (st_outbox (ft_store s d))" "ox_client_session_id x = eb_client_id b" "e = outbox_event x"
    by (rule batch_rows [OF assms(2) _ e]) simp_all
  from row_same [OF fleet_invD(1) [OF assms(1)] row_in_view [OF x(1), unfolded x(2) row_place_def]
      row_in_view [OF assms(3), unfolded assms(4) row_place_def]]
  show "oq_server_session_id e = ox_server_session_id r" by (simp add: x(3))
qed

lemma listed_first:
  assumes "fleet_inv s" "b \<in> set (event_batches (ListPendingEvents (ft_store s d) 500))"
    "(eb_client_id b, eb_server_id b, 0, i, k) \<in> pc_rows (fleet_view s) d"
  shows "owns (fleet_view s) (eb_client_id b) (eb_server_id b) \<or> (\<exists>e \<in> set (eb_events b). sv_sequence (oq_event e) = 0)"
proof -
  note ok = fleet_invD(1) [OF assms(1)]
  obtain r where r: "r \<in> set (st_outbox (ft_store s d))" "ox_client_session_id r = eb_client_id b" "row_place r = (eb_server_id b, 0, i, k)"
    using assms(3) by (auto simp: view_fields row_view_def)
  show ?thesis
  proof (cases "ox_acked r")
    case True
    with r have "(eb_server_id b, 0, i, k) \<in> pc_acked (fleet_view s) d" by (force simp: view_fields acked_places_def)
    with protocol_okD(12) [OF ok] obtain c where "(c, eb_server_id b, 0, i, k) \<in> pc_rows (fleet_view s) d" "owns (fleet_view s) c (eb_server_id b)"
      unfolding acked_ok_def by blast
    with id_same [OF protocol_okD(8) [OF ok] assms(3)] show ?thesis by blast
  next
    case False
    obtain e where e: "e \<in> set (eb_events b)" using batch_events [OF assms(2)] by (metis ex_in_conv set_empty)
    obtain x where x: "x \<in> set (st_outbox (ft_store s d))" "ox_client_session_id x = eb_client_id b" "e = outbox_event x"
      by (rule batch_rows [OF assms(2) _ e]) simp_all
    have q: "ox_sequence r = 0" using r(3) by (simp add: row_place_def)
    have "0 \<le> ox_sequence x" using row_home [OF protocol_okD(3) [OF ok] row_in_view [OF x(1), unfolded row_place_def]] by simp
    then consider "ox_sequence x = 0" | "ox_sequence r < sv_sequence (oq_event e)" using q x(3) by force
    then show ?thesis
    proof cases
      case 1
      then have "sv_sequence (oq_event e) = 0" by (simp add: x(3))
      with e show ?thesis by blast
    next
      case 2
      then have "outbox_event r \<in> set (eb_events b)" by (intro batch_prefix [OF assms(2) _ e r(1) False r(2)]) simp_all
      with q show ?thesis by (intro disjI2 bexI [of _ "outbox_event r"]) simp_all
    qed
  qed
qed

lemma listed_batch:
  assumes "fleet_inv s" "b \<in> set (event_batches (ListPendingEvents (ft_store s d) 500))"
  shows "batch_ok (fleet_view s) d b"
proof -
  have row: "(eb_client_id b, event_place (eb_server_id b) (oq_event e)) \<in> pc_rows (fleet_view s) d" if e: "e \<in> set (eb_events b)" for e
  proof -
    obtain r where r: "r \<in> set (st_outbox (ft_store s d))" "ox_client_session_id r = eb_client_id b" "e = outbox_event r"
      by (rule batch_rows [OF assms(2) _ e]) simp_all
    have "event_place (eb_server_id b) (oq_event e) = row_place r" using listed_server [OF assms r(1,2)]
      by (simp add: r(3) event_place_def row_place_def event_content_def outbox_event_def)
    with row_in_view [OF r(1)] r(2) show ?thesis by simp
  qed
  obtain e where e: "e \<in> set (eb_events b)" using batch_events [OF assms(2)] by (metis ex_in_conv set_empty)
  from row_home [OF protocol_okD(3) [OF fleet_invD(1) [OF assms(1)]] row [OF e, unfolded event_place_def]]
  obtain i k n where "(eb_client_id b, eb_server_id b, 0, i, k) \<in> pc_rows (fleet_view s) d" "(eb_client_id b, eb_server_id b, n) \<in> pc_sessions (fleet_view s) d"
    unfolding first_queued_def by blast
  with row listed_first [OF assms] batch_events [OF assms(2)] show ?thesis unfolding batch_ok_def by blast
qed

lemma list_inv:
  assumes "fleet_inv s" "b \<in> set (event_batches (ListPendingEvents (ft_store s d) 500))"
  shows "fleet_inv (s\<lparr>ft_pool := insert (d, b) (ft_pool s)\<rparr>)"
proof -
  have "fleet_view (s\<lparr>ft_pool := insert (d, b) (ft_pool s)\<rparr>) = list_step d b (fleet_view s)"
    by (simp add: fleet_view_def list_step_def)
  with list_ok [OF fleet_invD(1) [OF assms(1)] listed_batch [OF assms]] assms(1) show ?thesis by (simp add: fleet_inv_def)
qed

lemma resolve_pool:
  assumes "fleet_inv s" "(d, b) \<in> ft_pool s" "resolve_server_id (ft_store s d) (eb_client_id b) (eb_server_id b) = Inr sid" "sid \<noteq> []"
  shows "sid = eb_server_id b"
proof (cases "eb_server_id b = []")
  case True
  then obtain c where c: "Store_GetSession (ft_store s d) (eb_client_id b) = Inr c" "sid = cs_server_session_id c"
    using assms(3) by (cases "Store_GetSession (ft_store s d) (eb_client_id b)") (auto simp: resolve_server_id_def)
  then have c': "c \<in> set (st_sessions (ft_store s d))" "cs_client_session_id c = eb_client_id b"
    by (auto simp: Store_GetSession_def dest: find_Some_in split: option.splits)
  have "batch_ok (fleet_view s) d b"
    using protocol_okD(13) [OF fleet_invD(1) [OF assms(1)]] assms(2) by (simp add: pool_ok_def view_fields)
  then obtain n where "(eb_client_id b, eb_server_id b, n) \<in> session_view ` set (st_sessions (ft_store s d))"
    by (auto simp: batch_ok_def view_fields)
  then obtain c2 where c2: "c2 \<in> set (st_sessions (ft_store s d))" "session_view c2 = (eb_client_id b, eb_server_id b, n)" by force
  with session_view_single [OF assms(1) c'(1) c2(1)] c'(2) have "cs_server_session_id c = eb_server_id b" by (simp add: session_view_def)
  with c(2) show ?thesis by simp
qed (use assms(3) in \<open>simp add: resolve_server_id_def\<close>)

lemma post_inv:
  assumes "fleet_inv s" "(d, b) \<in> ft_pool s" "resolve_server_id (ft_store s d) (eb_client_id b) (eb_server_id b) = Inr sid" "sid \<noteq> []"
    "post_session_events gen dev sid (map oq_event (eb_events b)) now (ft_server s) = (Inr n, db')"
  shows "fleet_inv (s\<lparr>ft_server := db', ft_acks := insert (d, eb_client_id b, n) (ft_acks s)\<rparr>)"
proof -
  have a: "lms_accepts (eb_server_id b) (map oq_event (eb_events b)) (ft_server s) n db'"
    using assms(5) resolve_pool [OF assms(1-4)] by (auto simp: lms_accepts_def)
  have "fleet_view (s\<lparr>ft_server := db', ft_acks := insert (d, eb_client_id b, n) (ft_acks s)\<rparr>) =
      (fleet_view s)\<lparr>pc_events := lms_events db', pc_acks := insert (d, eb_client_id b, n) (pc_acks (fleet_view s))\<rparr>"
    by (simp add: fleet_view_def)
  moreover have "(d, b) \<in> pc_pool (fleet_view s)" using assms(2) by (simp add: view_fields)
  ultimately show ?thesis
    using lms.post_ok [OF fleet_invD(1) [OF assms(1)] view_fields(3) fleet_invD(2) [OF assms(1)] _ a]
      lms.accepts_good [OF fleet_invD(2) [OF assms(1)] a] assms(1)
    by (simp add: fleet_inv_def)
qed

lemma acked_after:
  "acked_places (AckEvents now cid n st) =
     row_place ` {r \<in> set (st_outbox st). ox_acked r \<or> ox_client_session_id r = cid \<and> ox_sequence r \<le> n}" (is "?l = ?r")
proof (intro set_eqI iffI)
  let ?p = "\<lambda>r. ox_client_session_id r = cid \<and> ox_sequence r \<le> n \<and> \<not> ox_acked r"
  have place: "row_place (if ?p r then r\<lparr>ox_acked := True\<rparr> else r) = row_place r" for r by (simp add: row_place_def)
  fix x
  assume "x \<in> ?l"
  then obtain r where "r \<in> set (st_outbox st)" "x = row_place (if ?p r then r\<lparr>ox_acked := True\<rparr> else r)"
    "ox_acked (if ?p r then r\<lparr>ox_acked := True\<rparr> else r)"
    by (auto simp: acked_places_def AckEvents_def update_where_def)
  then show "x \<in> ?r" by (simp add: place) (force split: if_splits)
next
  let ?p = "\<lambda>r. ox_client_session_id r = cid \<and> ox_sequence r \<le> n \<and> \<not> ox_acked r"
  fix x
  assume "x \<in> ?r"
  then obtain r where r: "r \<in> set (st_outbox st)" "x = row_place r" "ox_acked r \<or> ox_client_session_id r = cid \<and> ox_sequence r \<le> n" by auto
  then have "(if ?p r then r\<lparr>ox_acked := True\<rparr> else r) \<in> {r \<in> set (st_outbox (AckEvents now cid n st)). ox_acked r}"
    using update_where_member [OF r(1), of ?p "\<lambda>r. r\<lparr>ox_acked := True\<rparr>"] by (simp add: AckEvents_def) blast
  moreover have "x = row_place (if ?p r then r\<lparr>ox_acked := True\<rparr> else r)" using r(2) by (simp add: row_place_def)
  ultimately show "x \<in> ?l" unfolding acked_places_def by (rule rev_image_eqI)
qed

lemma ack_inv:
  assumes "fleet_inv s" "(d, cid, n) \<in> ft_acks s"
  shows "fleet_inv (set_store d (AckEvents now cid n (ft_store s d)) s)"
proof -
  let ?st = "AckEvents now cid n (ft_store s d)"
  have rows: "row_view ` set (st_outbox ?st) = row_view ` set (st_outbox (ft_store s d))"
    unfolding AckEvents_def by simp (rule image_update_where, simp add: row_view_def row_place_def)
  have sess: "session_view ` set (st_sessions ?st) = session_view ` set (st_sessions (ft_store s d))"
    unfolding AckEvents_def by simp (rule image_update_where, simp add: session_view_def)
  have acked: "acked_places ?st = acked_places (ft_store s d) \<union>
      {(v, q, i, k) | v q i k. (cid, v, q, i, k) \<in> pc_rows (fleet_view s) d \<and> q \<le> n}"
  proof -
    have "{(v, q, i, k) | v q i k. (cid, v, q, i, k) \<in> pc_rows (fleet_view s) d \<and> q \<le> n} =
        row_place ` {r \<in> set (st_outbox (ft_store s d)). ox_client_session_id r = cid \<and> ox_sequence r \<le> n}"
      by (auto simp: view_fields row_view_def row_place_def)
    then show ?thesis unfolding acked_after unfolding acked_places_def by blast
  qed
  have "fleet_view (set_store d ?st s) = ack_step d cid n (fleet_view s)"
    unfolding view_set_store ack_step_def rows sess acked by (simp add: view_fields [symmetric] fun_upd_idem)
  moreover have "unique_key ox_event_id (st_outbox ?st)"
    using fleet_invD(3) [OF assms(1), of d] by (simp add: AckEvents_def unique_key_update)
  ultimately show ?thesis
    using ack_ok [OF fleet_invD(1) [OF assms(1)], of d cid n] assms by (simp add: fleet_inv_def view_fields set_store_store)
qed

lemma read_inv:
  assumes "fleet_inv s" "row \<in> set (st_sessions (ft_store s d))"
  shows "fleet_inv (s\<lparr>ft_reads := insert (d, row) (ft_reads s)\<rparr>)"
proof -
  obtain c v n where r: "session_view row = (c, v, n)" by (rule prod_cases3)
  have "fleet_view (s\<lparr>ft_reads := insert (d, row) (ft_reads s)\<rparr>) = read_step d c v n (fleet_view s)"
    by (simp add: fleet_view_def read_step_def r)
  moreover have "(c, v, n) \<in> pc_sessions (fleet_view s) d" using assms(2) r by (force simp: view_fields)
  ultimately show ?thesis using read_ok [OF fleet_invD(1) [OF assms(1)]] assms(1) by (simp add: fleet_inv_def)
qed

text \<open>The sessions after a write: the row that was read in place of the present one.\<close>

lemma written_sessions:
  assumes "fleet_inv s" "cur \<in> set (st_sessions (ft_store s d))" "cs_client_session_id cur = cs_client_session_id row"
    "cs_server_session_id cur = cs_server_session_id row"
  shows "session_view ` set (st_sessions (SaveSession now (row\<lparr>cs_state := state\<rparr>) (ft_store s d))) =
    insert (session_view row) (session_view ` set (st_sessions (ft_store s d)) - {session_view cur})" (is "?l = ?r")
proof -
  let ?c = "cs_client_session_id row" and ?rows = "st_sessions (ft_store s d)"
  have "list_ex (\<lambda>r. cs_client_session_id r = ?c) ?rows" using assms(2,3) by (auto simp: list_ex_iff)
  then have "?l = session_view ` set (update_where (\<lambda>r. cs_client_session_id r = ?c)
      (\<lambda>r. row\<lparr>cs_state := state, cs_updated_at := now, cs_created_at := cs_created_at r\<rparr>) ?rows)"
    by (simp add: SaveSession_def Let_def upsert_def)
  also have "\<dots> = (\<lambda>r. if cs_client_session_id r = ?c then session_view row else session_view r) ` set ?rows"
    unfolding update_where_def set_map image_image by (intro image_cong) (simp_all add: session_view_def)
  finally have l: "?l = (\<lambda>r. if cs_client_session_id r = ?c then session_view row else session_view r) ` set ?rows" .
  have same: "session_view r = session_view cur" if "r \<in> set ?rows" "cs_client_session_id r = ?c" for r
    using session_view_single [OF assms(1) that(1) assms(2)] that(2) assms(3) by simp
  have "session_view r = session_view cur \<longleftrightarrow> cs_client_session_id r = ?c" if "r \<in> set ?rows" for r
    using same [OF that] assms(3) by (auto simp: session_view_def)
  then show ?thesis unfolding l using assms(2,3) by (auto simp: image_iff)
qed

lemma write_inv:
  assumes "fleet_inv s" "(d, row) \<in> ft_reads s" "cur \<in> set (st_sessions (ft_store s d))" "cs_client_session_id cur = cs_client_session_id row"
  shows "fleet_inv (write_back d now state row cur s)"
proof -
  note ok = fleet_invD(1) [OF assms(1)]
  let ?c = "cs_client_session_id row" and ?v = "cs_server_session_id row" and ?st = "SaveSession now (row\<lparr>cs_state := state\<rparr>) (ft_store s d)"
  have r: "(d, ?c, ?v, cs_next_sequence row) \<in> pc_reads (fleet_view s)"
    using assms(2) by (force simp: view_fields session_view_def)
  then obtain m where "(?c, ?v, m) \<in> pc_sessions (fleet_view s) d" using protocol_okD(4) [OF ok] unfolding reads_ok_def by blast
  moreover have "session_view cur \<in> pc_sessions (fleet_view s) d" using assms(3) by (simp add: view_fields)
  ultimately have v: "cs_server_session_id cur = ?v"
    using session_same [OF protocol_okD(1) [OF ok], of ?c ?v m d "cs_server_session_id cur" "cs_next_sequence cur" d] assms(4)
    unfolding session_view_def by simp
  have cur: "session_view cur = (?c, ?v, cs_next_sequence cur)" by (simp add: session_view_def assms(4) v)
  have outbox: "st_outbox ?st = st_outbox (ft_store s d)" by (simp add: SaveSession_def Let_def)
  have "fleet_view (write_back d now state row cur s) = write_step d ?c ?v (cs_next_sequence cur) (cs_next_sequence row) (fleet_view s)"
    using written_sessions [OF assms(1,3,4) v, of now state] cur
    by (simp add: write_back_def fleet_view_def write_step_def set_store_def outbox acked_places_def session_view_def [of row] fun_eq_iff)
  moreover have "(?c, ?v, cs_next_sequence cur) \<in> pc_sessions (fleet_view s) d" using assms(3) cur by (force simp: view_fields)
  ultimately have "protocol_ok ServerEventSequenceBase (fleet_view (write_back d now state row cur s))"
    using write_ok [OF ok r] by simp
  with assms(1) show ?thesis by (simp add: fleet_inv_def write_back_def set_store_def outbox)
qed

lemma next_server_sequence_base: "ServerEventSequenceBase \<le> next_server_sequence db sid"
proof (cases "filter (\<lambda>n. ServerEventSequenceBase \<le> n) (session_sequences db sid)")
  case (Cons n ns)
  then have "n \<in> set (filter (\<lambda>n. ServerEventSequenceBase \<le> n) (session_sequences db sid))" by simp
  then have "ServerEventSequenceBase \<le> n" by simp
  moreover have "n \<le> Max (set (n # ns))" by simp
  ultimately have "ServerEventSequenceBase \<le> Max (set (n # ns)) + 1" by linarith
  then show ?thesis unfolding next_server_sequence_def Cons by simp
qed (simp add: next_server_sequence_def)

lemma server_event_inv:
  assumes "fleet_inv s" "InsertServerSessionEvent i eventID sid typ payload now (ft_server s) = (res, db')"
    "\<forall>e. eventID \<notin> ox_event_id ` set (st_outbox (ft_store s e))"
  shows "fleet_inv (s\<lparr>ft_server := db'\<rparr>)"
proof (cases res)
  case (Inl e)
  then have "db' = ft_server s" using assms(2) unfolding InsertServerSessionEvent_def by (auto dest: WithTx_error)
  with assms(1) show ?thesis by simp
next
  case (Inr u)
  let ?db = "ft_server s"
  let ?row = "\<lparr>le_id = i, le_session_id = sid, le_event_id = eventID, le_sequence = next_server_sequence ?db sid, le_event_type = typ,
      le_client_time = now, le_received_at = now, le_schema_version = EventSchemaVersion, le_payload = payload\<rparr>"
  obtain rows where rows: "insert_event ?db ?row = Inr rows" "db' = touch_session sid now (?db\<lparr>db_events := rows\<rparr>)"
    using assms(2) Inr by (auto simp: InsertServerSessionEvent_def WithTx_ok Let_def split: if_splits sum.splits)
  have wf: "session_wf db'" unfolding rows(2) by (rule touch_session_wf [OF insert_event_wf [OF fleet_invD(2) [OF assms(1)] rows(1)]])
  have sub: "set (db_events ?db) \<subseteq> set (db_events db')" "set (db_events db') \<subseteq> insert ?row (set (db_events ?db))"
    using rows(1) by (cases rule: insert_event_cases; auto simp: rows(2))+
  have "protocol_ok ServerEventSequenceBase ((fleet_view s)\<lparr>pc_events := lms_events db'\<rparr>)"
  proof (rule server_event_ok [OF fleet_invD(1) [OF assms(1)]])
    show "pc_events (fleet_view s) \<subseteq> lms_events db'" using sub(1) by (auto simp: view_fields lms_events_def)
    fix v q j k
    assume "(v, q, j, k) \<in> lms_events db' - pc_events (fleet_view s)"
    then have "(v, q, j, k) = lms_place ?row" using sub(2) by (auto simp: view_fields lms_events_def)
    then show "ServerEventSequenceBase \<le> q \<and> (\<forall>d c v q k. (c, v, q, j, k) \<notin> pc_rows (fleet_view s) d)"
      using next_server_sequence_base [of ?db sid] assms(3)
      by (auto simp: lms_place_def view_fields row_view_def row_place_def)
  qed
  moreover have "fleet_view (s\<lparr>ft_server := db'\<rparr>) = (fleet_view s)\<lparr>pc_events := lms_events db'\<rparr>" by (simp add: fleet_view_def)
  ultimately show ?thesis using assms(1) wf by (simp add: fleet_inv_def)
qed

lemma init_inv:
  assumes "fleet_init s"
  shows "fleet_inv s"
proof -
  have "protocol_ok ServerEventSequenceBase (fleet_view s)"
    using assms by (simp add: fleet_init_def fleet_view_def lms_events_def acked_places_def protocol_ok_def protocol_defs)
  with assms show ?thesis by (simp add: fleet_inv_def fleet_init_def unique_key_def)
qed

lemma step_inv:
  assumes "fleet_step s t" "fleet_inv s"
  shows "fleet_inv t"
  using assms
proof cases
  case (open_online cid dev item now caps i sess db' sid d ws)
  note same = start_same [OF fleet_invD(2) [OF assms(2)] open_online(3)]
  have "fleet_inv (s\<lparr>ft_server := db'\<rparr>)" by (rule server_same [OF assms(2)]) (use same in simp_all)
  from open_inv [OF this, of cid d now sid item ws] open_online(1,2) show ?thesis by simp
next
  case (refuse d b sid gen dev now err db')
  with post_refused [OF refuse(5)] assms(2) show ?thesis by simp
next
  case (server_event i eventID sid ty payload now res db')
  then show ?thesis using server_event_inv [OF assms(2)] by simp
next
  case (server_other db')
  then show ?thesis using server_same [OF assms(2)] by simp
qed (use assms(2) in \<open>simp_all add: open_inv enqueue_inv list_inv post_inv ack_inv read_inv write_inv\<close>)

interpretation fl: invariant_system fleet_init fleet_step fleet_inv
  by unfold_locales (blast intro: init_inv step_inv)+

end
