(* ===== verification/Client_Pull.thy ===== *)
theory Client_Pull
  imports Student_Work Learning_Session
begin

text \<open>
  The work download against the server: the cached work as a map from assignments to items, what each operation of
  the store does to that map, and the pages of a snapshot put together.
\<close>

section \<open>The cache as a map\<close>

definition work_map :: "work_row list \<Rightarrow> uuid \<rightharpoonup> WorkItem" where
  "work_map rows i = map_option wr_payload (List.find (\<lambda>r. wr_assignment_id r = i) rows)"

abbreviation item_id :: "WorkItem \<Rightarrow> uuid" where
  "item_id it \<equiv> sa_id (wi_assignment it)"

lemma find_append: "List.find p (xs @ ys) = (case List.find p xs of None \<Rightarrow> List.find p ys | Some x \<Rightarrow> Some x)"
  by (induction xs) simp_all

lemma find_update_same:
  assumes "\<And>r. k (f r) = k r"
  shows "List.find (\<lambda>r. k r = i) (update_where p f rows) =
    map_option (\<lambda>r. if p r then f r else r) (List.find (\<lambda>r. k r = i) rows)"
  using assms by (induction rows) (simp_all add: update_where_def)

lemma find_upsert:
  assumes "\<And>r. k (f r) = k r"
  shows "List.find (\<lambda>r. k r = i) (upsert k row f rows) =
    (if i = k row then Some (case List.find (\<lambda>r. k r = i) rows of None \<Rightarrow> row | Some r \<Rightarrow> f r)
     else List.find (\<lambda>r. k r = i) rows)"
proof (cases "list_ex (\<lambda>r. k r = k row) rows")
  case True
  then obtain r where "List.find (\<lambda>r. k r = k row) rows = Some r"
    by (cases "List.find (\<lambda>r. k r = k row) rows") (auto simp: find_None_iff list_ex_iff)
  moreover have "List.find (\<lambda>r. k r = i) (update_where (\<lambda>r. k r = k row) f rows) =
      map_option (\<lambda>r. if k r = k row then f r else r) (List.find (\<lambda>r. k r = i) rows)"
    by (rule find_update_same) (rule assms)
  ultimately show ?thesis
    using True by (cases "List.find (\<lambda>r. k r = i) rows") (auto simp: upsert_def dest: find_Some_in)
next
  case False
  then have "List.find (\<lambda>r. k r = k row) rows = None" by (auto simp: find_None_iff list_ex_iff)
  with False show ?thesis by (auto simp: upsert_def find_append split: option.split)
qed

lemma work_map_upsert: "work_map (upsert_work now it rows) = (work_map rows)(item_id it \<mapsto> it)"
  by (auto simp: work_map_def upsert_work_def Let_def find_upsert fun_eq_iff split: option.splits)

lemma work_map_page: "work_map (fold (upsert_work now) items rows) = fold (\<lambda>it m. m(item_id it \<mapsto> it)) items (work_map rows)"
  by (induction items arbitrary: rows) (simp_all add: work_map_upsert)

lemma fold_upd_lookup:
  "distinct (map item_id items) \<Longrightarrow>
    fold (\<lambda>it m. m(item_id it \<mapsto> it)) items m i = (case List.find (\<lambda>it. item_id it = i) items of None \<Rightarrow> m i | Some it \<Rightarrow> Some it)"
proof (induction items arbitrary: m)
  case (Cons a items)
  have "List.find (\<lambda>it. item_id it = item_id a) items = None" using Cons.prems by (auto simp: find_None_iff) (metis image_eqI)
  with Cons show ?case by auto
qed simp

text \<open>An item missing from the snapshot: cancelled, unless it is over.\<close>

definition cancel_absent :: "time \<Rightarrow> WorkItem \<Rightarrow> WorkItem" where
  "cancel_absent now it =
     (if sa_state (wi_assignment it) = ''cancelled'' \<or> sa_state (wi_assignment it) = ''completed'' then it
      else it\<lparr>wi_assignment := (wi_assignment it)\<lparr>sa_state := ''cancelled''\<rparr>, wi_updated_at := now\<rparr>)"

lemma work_map_reconcile:
  "work_map (update_where (absent_open seen) (absent_cancel now) rows) i =
     (if i \<in> set seen then work_map rows i else map_option (cancel_absent now) (work_map rows i))"
proof -
  have "List.find (\<lambda>r. wr_assignment_id r = i) (update_where (absent_open seen) (absent_cancel now) rows) =
      map_option (\<lambda>r. if absent_open seen r then absent_cancel now r else r) (List.find (\<lambda>r. wr_assignment_id r = i) rows)"
    by (rule find_update_same) (simp add: absent_cancel_def Let_def)
  note f = this
  show ?thesis
  proof (cases "List.find (\<lambda>r. wr_assignment_id r = i) rows")
    case None
    then show ?thesis unfolding work_map_def f by simp
  next
    case (Some r)
    have "i = wr_assignment_id r" using find_Some_in [OF Some] by simp
    then show ?thesis unfolding work_map_def f Some
      by (simp add: absent_open_def absent_cancel_def cancel_absent_def Let_def)
  qed
qed

section \<open>Reading and writing the metadata\<close>

lemma meta_simps [simp]:
  "GetMeta (SetMeta k v st) j = (if j = k then v else GetMeta st j)"
  "st_work (SetMeta k v st) = st_work st" "st_page_seen (SetMeta k v st) = st_page_seen st"
  "st_sessions (SetMeta k v st) = st_sessions st" "st_outbox (SetMeta k v st) = st_outbox st"
  "st_completions (SetMeta k v st) = st_completions st" "st_artifacts (SetMeta k v st) = st_artifacts st"
  "st_responses (SetMeta k v st) = st_responses st"
  by (simp_all add: SetMeta_def GetMeta_def)

lemma meta_other [simp]:
  "GetMeta (st\<lparr>st_work := w\<rparr>) j = GetMeta st j" "GetMeta (st\<lparr>st_page_seen := s\<rparr>) j = GetMeta st j"
  by (simp_all add: GetMeta_def)

lemmas meta_keys = MetaWorkCursor_def MetaWorkSyncMode_def MetaWorkLastFullSync_def MetaWorkPageCursor_def
  MetaWorkPageMode_def MetaWorkInProgress_def

text \<open>The tables that the download leaves alone.\<close>

definition same_evidence :: "Store \<Rightarrow> Store \<Rightarrow> bool" where
  "same_evidence a b \<longleftrightarrow> st_sessions a = st_sessions b \<and> st_outbox a = st_outbox b \<and>
     st_completions a = st_completions b \<and> st_artifacts a = st_artifacts b \<and> st_responses a = st_responses b"

lemma same_evidence_trans: "same_evidence a b \<Longrightarrow> same_evidence b c \<Longrightarrow> same_evidence a c"
  by (simp add: same_evidence_def)

lemma same_evidence_ops [simp]:
  "same_evidence (ApplyWorkPage now items c mode st) st" "same_evidence (BeginWorkPage mode st) st"
  "same_evidence (CommitWorkSync now c mode st) st" "same_evidence (ResetWorkSyncCursor st) st" "same_evidence st st"
  by (simp_all add: same_evidence_def ApplyWorkPage_def BeginWorkPage_def CommitWorkSync_def ResetWorkSyncCursor_def Let_def)

lemma apply_work [simp]: "st_work (ApplyWorkPage now items c mode st) = fold (upsert_work now) items (st_work st)"
  by (simp add: ApplyWorkPage_def Let_def)

definition seen_set :: "Store \<Rightarrow> uuid set" where
  "seen_set st = (case st_page_seen st of None \<Rightarrow> {} | Some ids \<Rightarrow> set ids)"

lemma apply_seen: "seen_set (ApplyWorkPage now items c WorkModeSnapshot st) = seen_set st \<union> item_id ` set items"
  by (auto simp: seen_set_def ApplyWorkPage_def Let_def merge_seen_def split: option.splits)

section \<open>A snapshot\<close>

text \<open>A network that answers every work request from the server's database.\<close>

definition serves_work :: "(uuid \<Rightarrow> time) \<Rightarrow> (string \<Rightarrow> bool) \<Rightarrow> StudentDevice \<Rightarrow> lms_db transport \<Rightarrow> bool" where
  "serves_work updated is_uuid dev hx \<longleftrightarrow>
     (\<forall>after limit db. hx_work hx after limit db = (Inr (get_student_work updated is_uuid dev after limit db), db))"

text \<open>Instants within the years of four digits and identifiers that are UUIDs.\<close>

definition cursors_readable :: "(string \<Rightarrow> bool) \<Rightarrow> WorkItem list \<Rightarrow> bool" where
  "cursors_readable is_uuid items \<longleftrightarrow> list_all (\<lambda>it. 0 \<le> year_of (wi_updated_at it) \<and> year_of (wi_updated_at it) \<le> 9999 \<and>
     is_uuid (item_id it)) items"

definition page_cursor_of :: "WorkItem list \<Rightarrow> string" where
  "page_cursor_of done = (if done = [] then [] else work_cursor (last done))"

definition page_of :: "string \<Rightarrow> WorkItem list \<Rightarrow> WorkResponse" where
  "page_of after rest = \<lparr>wp_items = take 100 rest, wp_cursor = page_cursor_of (take 100 rest),
     wp_mode = (if after = [] then WorkModeSnapshot else WorkModeIncremental), wp_has_more = (100 < length rest)\<rparr>"

lemma list_page:
  assumes "sorted_wrt (\<lambda>x y. work_key x < work_key y) (pre @ rest)" "cursors_readable is_uuid pre"
    "student_work updated db s = pre @ rest"
  shows "ListStudentWorkPage updated is_uuid db s (page_cursor_of pre) 100 = Inr (page_of (page_cursor_of pre) rest)"
proof -
  have "filter (behind pos) (pre @ rest) = rest" if "cursor_position is_uuid (page_cursor_of pre) = Inr pos" for pos
  proof (cases "pre = []")
    case True
    with that show ?thesis by (simp add: page_cursor_of_def cursor_position_def behind_def)
  next
    case False
    have "cursor_position is_uuid (work_cursor (last pre)) = Inr (Some (work_key (last pre)))"
      using assms(2) False by (intro work_cursor_position) (simp_all add: cursors_readable_def list_all_iff)
    with that False have "pos = Some (work_key (last pre))" by (simp add: page_cursor_of_def)
    with behind_rest [OF assms(1) False] show ?thesis by simp
  qed
  moreover have "\<exists>pos. cursor_position is_uuid (page_cursor_of pre) = Inr pos"
    using assms(2) by (cases "pre = []")
      (auto simp: page_cursor_of_def cursor_position_def [of _ "[]"] cursors_readable_def list_all_iff intro!: exI work_cursor_position)
  ultimately show ?thesis
    by (auto simp: ListStudentWorkPage_def assms(3) page_of_def page_cursor_of_def Let_def)
qed

lemma http_reply_ok: "read_response op zero (Inr (http_reply (Inr v))) = Inr v"
  by (simp add: read_response_def http_reply_def)

lemma Work_serves:
  assumes "serves_work updated is_uuid dev hx" "token \<noteq> []" "ListStudentWorkPage updated is_uuid db (sc_student_id dev) after 100 = Inr page"
    "wp_mode page \<noteq> []"
  shows "Work hx token after DefaultWorkPageLimit db = (Inr page, db)"
  using assms by (simp add: Work_def doJSON_def serves_work_def get_student_work_def DefaultWorkPageLimit_def http_reply_ok)

lemma page_mode_nonempty [simp]: "wp_mode (page_of after rest) \<noteq> []"
  by (simp add: page_of_def WorkModeSnapshot_def WorkModeIncremental_def)

lemma fetch_serves:
  assumes "serves_work updated is_uuid dev hx" "token \<noteq> []" "student_work updated db (sc_student_id dev) = pre @ rest"
    "sorted_wrt (\<lambda>x y. work_key x < work_key y) (pre @ rest)" "cursors_readable is_uuid (pre @ rest)"
  shows "fetch_page hx token (page_cursor_of pre) mode st db =
    (Inr (page_cursor_of pre, mode, page_of (page_cursor_of pre) rest), st, db)"
proof -
  have "cursors_readable is_uuid pre" using assms(5) by (simp add: cursors_readable_def)
  from Work_serves [OF assms(1,2) list_page [OF assms(4) this assms(3)]] show ?thesis
    by (simp add: fetch_page_def)
qed

lemma cursor_moves:
  assumes "sorted_wrt (\<lambda>x y. work_key x < work_key y) (pre @ rest)" "cursors_readable is_uuid (pre @ rest)" "rest \<noteq> []"
  shows "page_cursor_of (take 100 rest) \<noteq> page_cursor_of pre" "page_cursor_of (take 100 rest) = page_cursor_of (pre @ take 100 rest)"
proof -
  have t: "take 100 rest \<noteq> []" using assms(3) by simp
  have l: "last (take 100 rest) \<in> set rest" using last_in_set [OF t] by (rule in_set_takeD)
  show "page_cursor_of (take 100 rest) \<noteq> page_cursor_of pre"
  proof (cases "pre = []")
    case False
    have "work_key (last pre) < work_key (last (take 100 rest))"
      using assms(1) l last_in_set [OF False] by (simp add: sorted_wrt_append)
    then show ?thesis
      using work_cursor_inject [of "last pre" "last (take 100 rest)"] assms(2) l last_in_set [OF False] t False
      by (auto simp: page_cursor_of_def cursors_readable_def list_all_iff)
  qed (use t in \<open>simp add: page_cursor_of_def\<close>)
  show "page_cursor_of (take 100 rest) = page_cursor_of (pre @ take 100 rest)"
    using t by (simp add: page_cursor_of_def)
qed

text \<open>The mode of a walk whose first page has not been stored is that of the page.\<close>

definition walk_mode :: "int \<Rightarrow> WorkItem list \<Rightarrow> string \<Rightarrow> string" where
  "walk_mode k pre mode = (if k \<noteq> 0 then mode else if pre = [] then WorkModeSnapshot else WorkModeIncremental)"

lemma page_mode_walk: "page_mode k (page_cursor_of pre) mode (page_of (page_cursor_of pre) rest) = walk_mode k pre mode"
  by (simp add: page_mode_def page_of_def page_cursor_of_def walk_mode_def WorkModeSnapshot_def WorkModeIncremental_def)

text \<open>From a page boundary on, the loop stores the rest of the items and ends.\<close>

lemma pull_rest:
  assumes "serves_work updated is_uuid dev hx" "token \<noteq> []" "sorted_wrt (\<lambda>x y. work_key x < work_key y) items"
    "cursors_readable is_uuid items" "student_work updated db (sc_student_id dev) = items"
  shows "items = pre @ rest \<Longrightarrow> length rest div 100 < n \<Longrightarrow> 0 \<le> k \<Longrightarrow> m = walk_mode k pre mode \<Longrightarrow>
    \<exists>st'. pull_pages n hx token now (page_cursor_of pre) mode k (page_cursor_of pre) st db =
        Some (Inr (k + int (length rest), page_cursor_of items, m), st', db) \<and>
      st_work st' = fold (upsert_work now) rest (st_work st) \<and>
      (m = WorkModeSnapshot \<longrightarrow> seen_set st' = seen_set st \<union> item_id ` set rest) \<and> same_evidence st' st"
proof (induction n arbitrary: pre rest k mode st)
  case (Suc n)
  let ?page = "page_of (page_cursor_of pre) rest"
  let ?st = "ApplyWorkPage now (take 100 rest) (page_cursor_of (take 100 rest)) m st"
  have f: "fetch_page hx token (page_cursor_of pre) mode st db = (Inr (page_cursor_of pre, mode, ?page), st, db)"
    using fetch_serves [OF assms(1,2)] assms(3,4,5) Suc.prems(1) by simp
  have p: "wp_items ?page = take 100 rest" "wp_cursor ?page = page_cursor_of (take 100 rest)" by (simp_all add: page_of_def)
  note walk = page_mode_walk [of k pre mode rest, folded Suc.prems(4)]
  show ?case
  proof (cases "100 \<le> length rest")
    case True
    then have ne: "rest \<noteq> []" by auto
    note mv = cursor_moves [of pre rest is_uuid, OF _ _ ne]
    have mv1: "page_cursor_of (take 100 rest) \<noteq> page_cursor_of pre" "page_cursor_of (take 100 rest) = page_cursor_of (pre @ take 100 rest)"
      using mv assms(3,4) Suc.prems(1) by auto
    have c: "page_cursor_of (take 100 rest) \<noteq> []" using ne by (simp add: page_cursor_of_def)
    have more: "page_has_more (page_cursor_of pre) ?page"
      using True ne mv1(1) c by (simp add: page_has_more_def p DefaultWorkPageLimit_def)
    have small: "length (drop 100 rest) div 100 < n" using Suc.prems(2) True by (simp add: le_div_geq)
    have "m = walk_mode (k + 100) (pre @ take 100 rest) m" "0 \<le> k + 100" using Suc.prems(3) by (simp_all add: walk_mode_def)
    from Suc.IH [OF _ small this(2,1), of ?st] Suc.prems(1) True
    obtain st' where st': "pull_pages n hx token now (page_cursor_of (take 100 rest)) m (k + int (length (take 100 rest)))
          (page_cursor_of (take 100 rest)) ?st db =
        Some (Inr (k + int (length rest), page_cursor_of items, m), st', db)"
      "st_work st' = fold (upsert_work now) (drop 100 rest) (st_work ?st)"
      "m = WorkModeSnapshot \<longrightarrow> seen_set st' = seen_set ?st \<union> item_id ` set (drop 100 rest)" "same_evidence st' ?st"
      using mv1(2) by (auto simp: of_nat_diff)
    have "fold (upsert_work now) (drop 100 rest) (st_work ?st) = fold (upsert_work now) rest (st_work st)"
      by (metis apply_work append_take_drop_id comp_apply fold_append)
    moreover have "m = WorkModeSnapshot \<longrightarrow> seen_set st' = seen_set st \<union> item_id ` set rest"
    proof
      assume m: "m = WorkModeSnapshot"
      have "item_id ` set rest = item_id ` set (take 100 rest) \<union> item_id ` set (drop 100 rest)"
        by (metis append_take_drop_id image_Un set_append)
      with st'(3) m show "seen_set st' = seen_set st \<union> item_id ` set rest" by (simp add: apply_seen Un_assoc)
    qed
    moreover have "same_evidence st' st" using st'(4) same_evidence_ops(1) by (rule same_evidence_trans)
    ultimately show ?thesis
      using st'(1,2) by (simp add: f p walk Let_def more c mv1(1) del: length_take)
  next
    case False
    then have t: "take 100 rest = rest" by simp
    have "page_cursor_of rest = [] \<or> \<not> page_has_more (page_cursor_of pre) ?page"
      using False by (simp add: page_has_more_def p t DefaultWorkPageLimit_def) (simp add: page_of_def)
    moreover have "(if page_cursor_of rest \<noteq> [] then page_cursor_of rest else page_cursor_of pre) = page_cursor_of items"
      using Suc.prems(1) by (simp add: page_cursor_of_def)
    ultimately show ?thesis
      using apply_seen [of now rest "page_cursor_of rest" st] by (auto simp: f p t walk Let_def)
  qed
qed simp

lemma begin_fields [simp]: "st_work (BeginWorkPage mode st) = st_work st"
  by (simp add: BeginWorkPage_def Let_def)

lemma begin_snapshot_seen: "GetMeta st MetaWorkPageCursor = [] \<Longrightarrow> seen_set (BeginWorkPage WorkModeSnapshot st) = {}"
  by (simp add: BeginWorkPage_def Let_def seen_set_def GetWorkSyncState_def meta_keys)

text \<open>What a download of all items makes of the cached work.\<close>

definition snapshot_of :: "time \<Rightarrow> WorkItem list \<Rightarrow> (uuid \<rightharpoonup> WorkItem) \<Rightarrow> uuid \<rightharpoonup> WorkItem" where
  "snapshot_of now items m i = (case List.find (\<lambda>it. item_id it = i) items of
     Some it \<Rightarrow> Some it | None \<Rightarrow> map_option (cancel_absent now) (m i))"

lemma commit_snapshot:
  assumes "seen_set st = item_id ` set items" "distinct (map item_id items)" "st_work st = fold (upsert_work now) items rows"
  shows "work_map (st_work (CommitWorkSync now c WorkModeSnapshot st)) = snapshot_of now items (work_map rows)"
proof
  fix i
  have s: "set (case st_page_seen st of None \<Rightarrow> [] | Some ids \<Rightarrow> ids) = item_id ` set items"
    using assms(1) by (simp add: seen_set_def split: option.splits)
  have "st_work (CommitWorkSync now c WorkModeSnapshot st) = update_where
      (absent_open (case st_page_seen st of None \<Rightarrow> [] | Some ids \<Rightarrow> ids)) (absent_cancel now) (st_work st)"
    by (simp add: CommitWorkSync_def Let_def)
  then have "work_map (st_work (CommitWorkSync now c WorkModeSnapshot st)) i =
      (if i \<in> item_id ` set items then work_map (st_work st) i else map_option (cancel_absent now) (work_map (st_work st) i))"
    by (simp only: work_map_reconcile s)
  also have "work_map (st_work st) i = (case List.find (\<lambda>it. item_id it = i) items of None \<Rightarrow> work_map rows i | Some it \<Rightarrow> Some it)"
    unfolding assms(3) work_map_page by (rule fold_upd_lookup [OF assms(2)])
  finally show "work_map (st_work (CommitWorkSync now c WorkModeSnapshot st)) i = snapshot_of now items (work_map rows) i"
    by (auto simp: snapshot_of_def find_None_iff dest: find_Some_in split: option.splits)
qed

lemma commit_meta:
  "GetMeta (CommitWorkSync now c mode st) MetaWorkCursor = c" "GetMeta (CommitWorkSync now c mode st) MetaWorkSyncMode = mode"
  "GetMeta (CommitWorkSync now c mode st) MetaWorkPageCursor = []" "GetMeta (CommitWorkSync now c mode st) MetaWorkInProgress = ''0''"
  by (simp_all add: CommitWorkSync_def Let_def meta_keys)

text \<open>
  C6. A workstation that has no cursor downloads the whole work queue of its student with at most one request per
  hundred items and one more: afterwards each item the server has is cached as the server sent it, each cached
  item the server no longer lists is cancelled unless it was already cancelled or completed, the cursor names
  the last item, and sessions, events, completions, artifacts and responses are untouched.
\<close>
theorem snapshot_sync_exact:
  assumes "serves_work updated is_uuid dev hx" "token \<noteq> []" "unique_key sa_id (db_assignments db)"
    "items = student_work updated db (sc_student_id dev)" "cursors_readable is_uuid items"
    "GetMeta st MetaWorkCursor = []" "GetMeta st MetaWorkPageCursor = []" "length items div 100 < n"
  shows "\<exists>st'. pullWork n hx token now st db = Some (Inr (int (length items)), st', db) \<and>
    work_map (st_work st') = snapshot_of now items (work_map (st_work st)) \<and>
    GetMeta st' MetaWorkCursor = page_cursor_of items \<and> GetMeta st' MetaWorkSyncMode = WorkModeSnapshot \<and>
    same_evidence st' st"
proof -
  have start: "pull_start (GetWorkSyncState st) = ([], WorkModeSnapshot)"
    using assms(6,7) by (simp add: pull_start_def GetWorkSyncState_def)
  note sorted = student_work_sorted [OF assms(3), of updated "sc_student_id dev", folded assms(4)]
  have d: "distinct (map item_id items)" using student_work_ids [OF assms(3)] assms(4) by simp
  obtain st1 where st1: "pull_pages n hx token now [] WorkModeSnapshot 0 [] (BeginWorkPage WorkModeSnapshot st) db =
      Some (Inr (int (length items), page_cursor_of items, WorkModeSnapshot), st1, db)"
    "st_work st1 = fold (upsert_work now) items (st_work st)" "seen_set st1 = item_id ` set items"
    "same_evidence st1 (BeginWorkPage WorkModeSnapshot st)"
    using pull_rest [OF assms(1,2) sorted assms(5) assms(4) [symmetric], of "[]" items n 0 WorkModeSnapshot WorkModeSnapshot now
        "BeginWorkPage WorkModeSnapshot st"] assms(8) begin_snapshot_seen [OF assms(7)]
    by (auto simp: walk_mode_def page_cursor_of_def [of "[]"])
  have "same_evidence (CommitWorkSync now (page_cursor_of items) WorkModeSnapshot st1) st"
    by (rule same_evidence_trans [OF same_evidence_ops(3) same_evidence_trans [OF st1(4) same_evidence_ops(2)]])
  with commit_snapshot [OF st1(3) d st1(2)] show ?thesis
    by (simp add: pullWork_def start st1(1) commit_meta)
qed

text \<open>
  C40. A snapshot that was interrupted after some page and is resumed from the stored page cursor is finished as an
  incremental download, because the first answer of the resumed walk carries the mode of a request with a cursor:
  the remaining items are stored, but no cached item that the server no longer lists is cancelled.
\<close>
theorem resumed_snapshot_not_reconciled:
  assumes "serves_work updated is_uuid dev hx" "token \<noteq> []" "unique_key sa_id (db_assignments db)"
    "student_work updated db (sc_student_id dev) = pre @ rest" "pre \<noteq> []" "cursors_readable is_uuid (pre @ rest)"
    "ws_in_progress (GetWorkSyncState st)" "GetMeta st MetaWorkPageCursor = page_cursor_of pre"
    "GetMeta st MetaWorkPageMode = WorkModeSnapshot" "length rest div 100 < n"
  shows "\<exists>st'. pullWork n hx token now st db = Some (Inr (int (length rest)), st', db) \<and>
    GetMeta st' MetaWorkSyncMode = WorkModeIncremental \<and> GetMeta st' MetaWorkCursor = page_cursor_of (pre @ rest) \<and>
    (\<forall>i. i \<notin> item_id ` set rest \<longrightarrow> work_map (st_work st') i = work_map (st_work st) i)"
proof -
  have c: "page_cursor_of pre \<noteq> []" using assms(5) by (simp add: page_cursor_of_def)
  then have start: "pull_start (GetWorkSyncState st) = (page_cursor_of pre, WorkModeSnapshot)"
    using assms(7,8,9) by (simp add: pull_start_def GetWorkSyncState_def WorkModeSnapshot_def)
  note sorted = student_work_sorted [OF assms(3), of updated "sc_student_id dev", unfolded assms(4)]
  have d: "distinct (map item_id rest)" using student_work_ids [OF assms(3), of updated "sc_student_id dev"] assms(4) by simp
  obtain st1 where st1: "pull_pages n hx token now (page_cursor_of pre) WorkModeSnapshot 0 (page_cursor_of pre)
        (BeginWorkPage WorkModeSnapshot st) db = Some (Inr (int (length rest), page_cursor_of (pre @ rest), WorkModeIncremental), st1, db)"
    "st_work st1 = fold (upsert_work now) rest (st_work st)"
    using pull_rest [OF assms(1,2) sorted assms(6,4), of pre rest n 0 WorkModeIncremental WorkModeSnapshot now
        "BeginWorkPage WorkModeSnapshot st"] assms(5,10)
    by (auto simp: walk_mode_def)
  have "work_map (st_work st1) i = work_map (st_work st) i" if "i \<notin> item_id ` set rest" for i
    using that unfolding st1(2) work_map_page fold_upd_lookup [OF d] by (auto dest: find_Some_in split: option.splits)
  moreover have "st_work (CommitWorkSync now f WorkModeIncremental st1) = st_work st1" for f
    by (simp add: CommitWorkSync_def Let_def WorkModeIncremental_def WorkModeSnapshot_def)
  ultimately show ?thesis by (simp add: pullWork_def start st1(1) commit_meta)
qed

section \<open>An example\<close>

definition ex_updated :: "uuid \<Rightarrow> time" where
  "ex_updated i = 1700000000 * second + 250000"

definition ex_hx :: "lms_db transport" where
  "ex_hx = \<lparr>hx_work = (\<lambda>after limit db. (Inr (get_student_work ex_updated (\<lambda>_. True) ex_device after limit db), db)),
     hx_capabilities = (\<lambda>db. (Inl ''refused'', db)), hx_events = (\<lambda>_ _ db. (Inl ''refused'', db)),
     hx_artifact = (\<lambda>_ _ db. (Inl ''refused'', db)), hx_complete = (\<lambda>_ _ db. (Inl ''refused'', db)),
     hx_response = (\<lambda>_ _ db. (Inl ''refused'', db))\<rparr>"

definition ex_work_item :: WorkItem where
  "ex_work_item = \<lparr>wi_assignment = ex_assignment, wi_updated_at = ex_updated ''asg-1'',
     wi_revision = (hd (db_revisions ex_lms)), wi_activity = hd (db_activities ex_lms)\<rparr>"

text \<open>A cached item that the server no longer lists.\<close>

definition ex_gone :: WorkItem where
  "ex_gone = ex_work_item\<lparr>wi_assignment := ex_assignment\<lparr>sa_id := ''asg-0'', sa_state := AssignmentInProgress\<rparr>\<rparr>"

definition ex_store :: Store where
  "ex_store = SaveWork 0 [ex_gone] migrate"

lemma ex_hx_serves: "serves_work ex_updated (\<lambda>_. True) ex_device ex_hx"
  by (simp add: serves_work_def ex_hx_def)

lemma ex_work: "student_work ex_updated ex_lms ''stu-1'' = [ex_work_item]"
  by code_simp

lemma ex_readable: "cursors_readable (\<lambda>_. True) [ex_work_item]"
  by code_simp

lemma ex_assignments_unique: "unique_key sa_id (db_assignments ex_lms)"
  by (simp add: unique_key_def ex_lms_def)

theorem snapshot_sync_exact_witness:
  "\<exists>st'. pullWork 1 ex_hx ''tok'' 5 ex_store ex_lms = Some (Inr 1, st', ex_lms) \<and>
     work_map (st_work st') ''asg-1'' = Some ex_work_item \<and> work_map (st_work st') ''asg-0'' = Some (cancel_absent 5 ex_gone)"
proof -
  have "GetMeta ex_store MetaWorkCursor = []" "GetMeta ex_store MetaWorkPageCursor = []" by code_simp+
  moreover have "snapshot_of 5 [ex_work_item] (work_map (st_work ex_store)) ''asg-1'' = Some ex_work_item"
    "snapshot_of 5 [ex_work_item] (work_map (st_work ex_store)) ''asg-0'' = Some (cancel_absent 5 ex_gone)" by code_simp+
  ultimately show ?thesis
    using snapshot_sync_exact [OF ex_hx_serves _ ex_assignments_unique, of "''tok''" "[ex_work_item]" ex_store 1 5]
      ex_work ex_readable by (auto simp: ex_device_def)
qed

definition ex_interrupted :: Store where
  "ex_interrupted = ApplyWorkPage 1 [ex_work_item] (work_cursor ex_work_item) WorkModeSnapshot ex_store"

theorem resumed_snapshot_not_reconciled_witness:
  "\<exists>st'. pullWork 1 ex_hx ''tok'' 5 ex_interrupted ex_lms = Some (Inr 0, st', ex_lms) \<and>
     GetMeta st' MetaWorkSyncMode = WorkModeIncremental \<and> work_map (st_work st') ''asg-0'' = Some ex_gone"
proof -
  have "ws_in_progress (GetWorkSyncState ex_interrupted)"
    "GetMeta ex_interrupted MetaWorkPageCursor = page_cursor_of [ex_work_item]"
    "GetMeta ex_interrupted MetaWorkPageMode = WorkModeSnapshot"
    "work_map (st_work ex_interrupted) ''asg-0'' = Some ex_gone" by code_simp+
  then show ?thesis
    using resumed_snapshot_not_reconciled [OF ex_hx_serves _ ex_assignments_unique, of "''tok''" "[ex_work_item]" "[]" ex_interrupted 1 5]
      ex_work ex_readable by (auto simp: ex_device_def)
qed

end
