(* ===== verification/Client_Fleet_Props.thy ===== *)
theory Client_Fleet_Props
  imports Client_Fleet Client_Pull
begin

text \<open>
  What holds in every reachable state of workstations and server, how a stale write of a session row
  loses an event, how a second local session blocks the flush, and an example run.
\<close>

section \<open>No acknowledged event is lost\<close>

text \<open>
  C4. In every reachable state, an outbox event that a workstation has marked as acknowledged is stored on the
  server, in the server session of its local session, under its own sequence number, with its identifier, type,
  time and payload: whatever batches were sent twice or late, whatever answers were lost, whatever was queued in
  the meantime, whatever happened to the counters of other sessions, and even if the server gave one session to two
  local ones.  The one condition is that the counter of the event's own session was never set back by writing back
  a row that was read before an event was queued; what happens then is shown below.
\<close>
theorem acknowledged_events_stored:
  assumes "reachable fleet_init fleet_step s" "r \<in> set (st_outbox (ft_store s d))" "ox_acked r" "ox_client_session_id r \<notin> ft_reset s"
  shows "\<exists>e \<in> set (db_events (ft_server s)). le_session_id e = ox_server_session_id r \<and> le_sequence e = ox_sequence r \<and>
    le_event_id e = ox_event_id r \<and> le_event_type e = ox_event_type r \<and> le_client_time e = ox_client_time r \<and>
    le_payload e = ox_payload r"
proof -
  note ok = fleet_invD(1) [OF fl.inv_reachable [OF assms(1)]]
  have p: "(ox_server_session_id r, ox_sequence r, ox_event_id r, Content (ox_event_type r) (ox_client_time r) (ox_payload r)) \<in> pc_acked (fleet_view s) d"
    using assms(2,3) by (auto simp: view_fields acked_places_def row_place_def)
  then obtain c where c: "(c, row_place r) \<in> pc_rows (fleet_view s) d" "c \<notin> ft_reset s \<longrightarrow> row_place r \<in> lms_events (ft_server s)"
    using protocol_okD(12) [OF ok] unfolding acked_ok_def view_fields(3,8) row_place_def by blast
  have "c = ox_client_session_id r"
    using id_same [OF protocol_okD(8) [OF ok] c(1) [unfolded row_place_def] row_in_view [OF assms(2), unfolded row_place_def]] by simp
  with c(2) assms(4) show ?thesis by (auto simp: lms_events_def row_place_def lms_place_def)
qed

text \<open>
  In every reachable state the events of a local session are numbered from 0 up to the session's counter
  without gap or repetition, unless the counter was set back by writing back a row that was read before an event was
  queued.
\<close>
theorem outbox_numbered:
  assumes "reachable fleet_init fleet_step s" "c \<in> set (st_sessions (ft_store s d))" "cs_client_session_id c \<notin> ft_reset s"
  shows "bij_betw ox_sequence {r \<in> set (st_outbox (ft_store s d)). ox_client_session_id r = cs_client_session_id c}
    {0..<cs_next_sequence c}"
proof -
  let ?R = "{r \<in> set (st_outbox (ft_store s d)). ox_client_session_id r = cs_client_session_id c}"
  note inv = fl.inv_reachable [OF assms(1)]
  note ok = protocol_okD [OF fleet_invD(1) [OF inv]]
  have sess: "(cs_client_session_id c, cs_server_session_id c, cs_next_sequence c) \<in> pc_sessions (fleet_view s) d"
    using assms(2) by (auto simp: view_fields session_view_def)
  have steady: "cs_client_session_id c \<notin> pc_reset (fleet_view s)" using assms(3) by (simp add: view_fields)
  have row: "(cs_client_session_id c, ox_server_session_id r, ox_sequence r, ox_event_id r, Content (ox_event_type r) (ox_client_time r) (ox_payload r))
      \<in> pc_rows (fleet_view s) d" if "r \<in> ?R" for r
    using row_in_view [of r s d] that by (simp add: row_place_def)
  have "inj_on ox_sequence ?R"
  proof (rule inj_onI)
    fix x y assume xy: "x \<in> ?R" "y \<in> ?R" "ox_sequence x = ox_sequence y"
    have "ox_event_id x = ox_event_id y"
      using ok(6) row [OF xy(1)] row [OF xy(2)] xy(3) steady unfolding rows_distinct_def by metis
    with unique_key_eq [OF fleet_invD(3) [OF inv]] xy(1,2) show "x = y" by blast
  qed
  moreover have "ox_sequence ` ?R = {0..<cs_next_sequence c}"
  proof (intro equalityI subsetI)
    fix q assume "q \<in> ox_sequence ` ?R"
    then obtain r where r: "r \<in> ?R" "q = ox_sequence r" by blast
    from row_below [OF fleet_invD(1) [OF inv] row [OF r(1)] steady sess] row_home [OF ok(3) row [OF r(1)]] r(2)
    show "q \<in> {0..<cs_next_sequence c}" by simp
  next
    fix q assume "q \<in> {0..<cs_next_sequence c}"
    with ok(7) sess steady obtain i k where "(cs_client_session_id c, cs_server_session_id c, q, i, k) \<in> pc_rows (fleet_view s) d"
      unfolding rows_complete_def by fastforce
    then show "q \<in> ox_sequence ` ?R" by (force simp: view_fields row_view_def row_place_def)
  qed
  ultimately show ?thesis by (simp add: bij_betw_def)
qed

section \<open>Setting a counter back\<close>

lemma find_written:
  assumes "\<And>r. key r = a \<Longrightarrow> key (f r) = a"
  shows "List.find (\<lambda>r. key r = a) (update_where (\<lambda>r. key r = a) f rows) = map_option f (List.find (\<lambda>r. key r = a) rows)"
  using assms by (induction rows) (auto simp: update_where_def)

lemma enqueued_event:
  assumes "EnqueueEvent now c (engine_event i ty pl now) st = (Inr ev, st')"
  obtains row x where "Store_GetSession st c = Inr row" "sv_sequence ev = cs_next_sequence row" "st_outbox st' = st_outbox st @ [x]"
    "ox_client_session_id x = c" "ox_sequence x = cs_next_sequence row" "ox_event_id x = i" "i \<notin> ox_event_id ` set (st_outbox st)"
    "\<exists>row'. Store_GetSession st' c = Inr row'"
proof -
  obtain row where row: "List.find (\<lambda>r. cs_client_session_id r = c) (st_sessions st) = Some row"
    using assms by (cases "List.find (\<lambda>r. cs_client_session_id r = c) (st_sessions st)") (auto simp: EnqueueEvent_def)
  let ?ev = "complete_event now (cs_next_sequence row) (engine_event i ty pl now)"
  let ?x = "new_outbox_row now (Suc (length (st_outbox st))) c (cs_server_session_id row) ?ev"
  have ev: "sv_sequence ?ev = cs_next_sequence row" "sv_event_id ?ev = i" by (simp_all add: complete_event_def engine_event_def)
  have parts: "\<not> list_ex (\<lambda>r. ox_event_id r = i) (st_outbox st)" "ev = ?ev" "st_outbox st' = st_outbox st @ [?x]"
    "st_sessions st' = update_where (\<lambda>r. cs_client_session_id r = c)
      (\<lambda>r. r\<lparr>cs_next_sequence := cs_next_sequence row + 1, cs_updated_at := now\<rparr>) (st_sessions st)"
    using assms unfolding EnqueueEvent_def row by (auto simp: Let_def ev split: if_splits)
  have "\<exists>row'. Store_GetSession st' c = Inr row'"
    unfolding Store_GetSession_def parts(4) by (subst find_written) (simp_all add: row)
  with that [of row ?x] row parts ev show thesis
    by (auto simp: Store_GetSession_def new_outbox_row_def list_ex_iff)
qed

lemma written_back:
  assumes "Store_GetSession st c = Inr cur" "cs_client_session_id row = c"
  shows "\<exists>row'. Store_GetSession (SaveSession now (row\<lparr>cs_state := state\<rparr>) st) c = Inr row' \<and> cs_next_sequence row' = cs_next_sequence row"
proof -
  obtain f: "List.find (\<lambda>r. cs_client_session_id r = c) (st_sessions st) = Some cur"
    using assms(1) by (auto simp: Store_GetSession_def split: option.splits)
  then have "list_ex (\<lambda>r. cs_client_session_id r = c) (st_sessions st)" using find_Some_in [OF f] by (auto simp: list_ex_iff)
  then have s: "st_sessions (SaveSession now (row\<lparr>cs_state := state\<rparr>) st) = update_where (\<lambda>r. cs_client_session_id r = c)
      (\<lambda>r. row\<lparr>cs_state := state, cs_updated_at := now, cs_created_at := cs_created_at r\<rparr>) (st_sessions st)"
    using assms(2) by (simp add: SaveSession_def Let_def upsert_def)
  show ?thesis unfolding Store_GetSession_def s by (subst find_written) (simp_all add: assms(2) f)
qed

text \<open>
  C38. A session row is read, an event is queued, and the row is written back with another state, as the flush of
  completions does it: the next event gets the number of the event queued in between, and an answer of the server
  that covers that number marks both as acknowledged.  The second event is then never listed for sending, although
  the answer may be to a batch that had only the first: it is lost.
\<close>
theorem stale_write_loses_event:
  assumes "Store_GetSession st c = Inr row" "EnqueueEvent t1 c (engine_event i1 ty1 pl1 t1) st = (Inr ev1, st1)"
    "EnqueueEvent t3 c (engine_event i2 ty2 pl2 t3) (SaveSession t2 (row\<lparr>cs_state := state\<rparr>) st1) = (Inr ev2, st2)"
    "sv_sequence ev1 \<le> n"
  shows "sv_sequence ev2 = sv_sequence ev1 \<and> i1 \<noteq> i2 \<and>
    (\<exists>x y. x \<in> set (st_outbox (AckEvents t4 c n st2)) \<and> ox_event_id x = i1 \<and> ox_acked x \<and>
       y \<in> set (st_outbox (AckEvents t4 c n st2)) \<and> ox_event_id y = i2 \<and> ox_acked y) \<and>
    (\<forall>limit. \<forall>e \<in> set (ListPendingEvents (AckEvents t4 c n st2) limit). sv_event_id (oq_event e) \<noteq> i2)"
proof -
  obtain r1 x where 1: "Store_GetSession st c = Inr r1" "sv_sequence ev1 = cs_next_sequence r1" "st_outbox st1 = st_outbox st @ [x]"
    "ox_client_session_id x = c" "ox_sequence x = cs_next_sequence r1" "ox_event_id x = i1" "\<exists>row'. Store_GetSession st1 c = Inr row'"
    by (rule enqueued_event [OF assms(2)]) blast
  have row: "r1 = row" "cs_client_session_id row = c" using 1(1) assms(1) find_Some_in
    by (fastforce simp: Store_GetSession_def split: option.splits)+
  obtain r2 y where 2: "Store_GetSession (SaveSession t2 (row\<lparr>cs_state := state\<rparr>) st1) c = Inr r2" "sv_sequence ev2 = cs_next_sequence r2"
    "st_outbox st2 = st_outbox (SaveSession t2 (row\<lparr>cs_state := state\<rparr>) st1) @ [y]" "ox_client_session_id y = c" "ox_sequence y = cs_next_sequence r2"
    "ox_event_id y = i2" "i2 \<notin> ox_event_id ` set (st_outbox (SaveSession t2 (row\<lparr>cs_state := state\<rparr>) st1))"
    by (rule enqueued_event [OF assms(3)]) blast
  have "cs_next_sequence r2 = cs_next_sequence row" using written_back [of st1 c _ row t2 state] 1(7) 2(1) row(2) by auto
  with 1(2) 2(2) row(1) have seq: "sv_sequence ev2 = sv_sequence ev1" by simp
  have out: "st_outbox (SaveSession t2 (row\<lparr>cs_state := state\<rparr>) st1) = st_outbox st @ [x]" using 1(3) by (simp add: SaveSession_def Let_def)
  let ?f = "\<lambda>r. if ox_client_session_id r = c \<and> ox_sequence r \<le> n \<and> \<not> ox_acked r then r\<lparr>ox_acked := True\<rparr> else r"
  have acked: "?f z \<in> set (st_outbox (AckEvents t4 c n st2))" if "z \<in> {x, y}" for z
  proof -
    have "z \<in> set (st_outbox st2)" using that 2(3) out by auto
    from update_where_member [OF this, of "\<lambda>r. ox_client_session_id r = c \<and> ox_sequence r \<le> n \<and> \<not> ox_acked r" "\<lambda>r. r\<lparr>ox_acked := True\<rparr>"]
    show ?thesis by (simp add: AckEvents_def)
  qed
  have "ox_acked (?f x)" "ox_acked (?f y)" using 1(2,4,5) 2(2,4,5) seq assms(4) by simp_all
  moreover have "ox_event_id (?f x) = i1" "ox_event_id (?f y) = i2" using 1(6) 2(6) by simp_all
  moreover have "i1 \<noteq> i2" using 2(7) out 1(6) by auto
  moreover have "sv_event_id (oq_event e) \<noteq> i2" if "e \<in> set (ListPendingEvents (AckEvents t4 c n st2) limit)" for limit e
  proof
    assume e: "sv_event_id (oq_event e) = i2"
    from that obtain z where z: "z \<in> set (st_outbox (AckEvents t4 c n st2))" "\<not> ox_acked z" "e = outbox_event z"
      unfolding ListPendingEvents_def Let_def by (auto dest!: in_set_takeD)
    then obtain z' where z': "z' \<in> set (st_outbox st2)" "z = ?f z'" by (auto simp: AckEvents_def in_update_where)
    have "ox_event_id z = i2" using e z(3) by (simp add: outbox_event_def)
    moreover have "ox_event_id z = ox_event_id z'" using z'(2) by simp
    ultimately have "ox_event_id z' = i2" by simp
    with z'(1) 2(3,7) have "z' = y" by auto
    have "ox_acked z" unfolding z'(2) \<open>z' = y\<close> by (rule \<open>ox_acked (?f y)\<close>)
    with z(2) show False by contradiction
  qed
  ultimately show ?thesis using seq acked [of x] acked [of y] by blast
qed

section \<open>Two local sessions on one server session\<close>

text \<open>A network that hands every batch to the handler and brings the answer back.\<close>

definition serves_events :: "(SessionEvent \<Rightarrow> uuid) \<Rightarrow> StudentDevice \<Rightarrow> time \<Rightarrow> lms_db transport \<Rightarrow> bool" where
  "serves_events gen dev now hx \<longleftrightarrow> (\<forall>sid evs db. hx_events hx sid evs db =
     (case post_session_events gen dev sid evs now db of (r, db') \<Rightarrow> (Inr (http_reply r), db')))"

lemma post_error_status:
  assumes "post_session_events gen dev sid evs now db = (Inl err, db')"
  shows "\<exists>e. read_response op zero (Inr (http_reply (Inl err :: http_error + 'a))) = Inl e"
proof -
  have "(\<exists>c m. err = HttpError c m \<and> 300 \<le> c) \<or> (\<exists>e. err = RawError e)"
    using assms by (auto simp: post_session_events_def MapError_def split: if_splits sum.splits prod.splits repo_error.splits)
  then show ?thesis by (auto simp: read_response_def http_reply_def)
qed

text \<open>The server accepts no batch for a session that holds an event of another local session.\<close>

lemma second_session_refused:
  assumes "fleet_inv s" "batch_ok (fleet_view s) d b"
    "r \<in> set (st_outbox (ft_store s d'))" "ox_server_session_id r = eb_server_id b" "ox_client_session_id r \<noteq> eb_client_id b"
    "e \<in> set (db_events (ft_server s))" "le_event_id e = ox_event_id r"
  obtains err where "post_session_events gen dev (eb_server_id b) (map oq_event (eb_events b)) now (ft_server s) = (Inl err, ft_server s)"
proof -
  note ok = fleet_invD(1) [OF assms(1)]
  let ?evs = "map oq_event (eb_events b)" and ?sid = "eb_server_id b"
  let ?content = "Content (ox_event_type r) (ox_client_time r) (ox_payload r)"
  have row: "(ox_client_session_id r, ?sid, ox_sequence r, ox_event_id r, ?content) \<in> pc_rows (fleet_view s) d'"
    using row_in_view [OF assms(3)] assms(4) by (simp add: row_place_def)
  have "lms_place e \<in> pc_events (fleet_view s)" using assms(6) by (simp add: lms_events_def view_fields)
  with row assms(7) have stored: "(?sid, ox_sequence r, ox_event_id r, ?content) \<in> lms_events (ft_server s)"
    using protocol_okD(10) [OF ok] unfolding events_placed_def lms_place_def view_fields(3) by metis
  obtain res db' where post: "post_session_events gen dev ?sid ?evs now (ft_server s) = (res, db')"
    by (cases "post_session_events gen dev ?sid ?evs now (ft_server s)")
  show thesis
  proof (cases res)
    case (Inl err)
    with post post_refused that show thesis by blast
  next
    case (Inr n)
    with post have a: "lms_accepts ?sid ?evs (ft_server s) n db'" by (auto simp: lms_accepts_def)
    from stored lms.accepts_keeps [OF fleet_invD(2) [OF assms(1)] a]
    have "(?sid, ox_sequence r, ox_event_id r, ?content) \<in> lms_events db'" by blast
    from lms.accepted_owner [OF ok view_fields(3) fleet_invD(2) [OF assms(1)] assms(2) a row this] assms(5) show thesis by simp
  qed
qed

text \<open>
  C39. A local session whose server session already holds an event of another local session is never served: the
  server refuses its batch, and the flush ends there with an error, every later batch unsent.
\<close>
theorem second_session_blocks_flush:
  assumes "reachable fleet_init fleet_step s" "event_batches (ListPendingEvents (ft_store s d) 500) = b # bs"
    "eb_server_id b \<noteq> []" "serves_events gen dev now hx" "token \<noteq> []"
    "r \<in> set (st_outbox (ft_store s d'))" "ox_server_session_id r = eb_server_id b" "ox_client_session_id r \<noteq> eb_client_id b"
    "e \<in> set (db_events (ft_server s))" "le_event_id e = ox_event_id r"
  shows "\<exists>err. flushEvents hx token later (ft_store s d) (ft_server s) = (0, Some (ApiError err), ft_store s d, ft_server s)"
proof -
  note inv = fl.inv_reachable [OF assms(1)]
  let ?evs = "map oq_event (eb_events b)" and ?sid = "eb_server_id b"
  have "batch_ok (fleet_view s) d b" by (rule listed_batch [OF inv]) (simp add: assms(2))
  then obtain err where refused: "post_session_events gen dev ?sid ?evs now (ft_server s) = (Inl err, ft_server s)"
    by (rule second_session_refused [OF inv _ assms(6-10)])
  have "PostEvents hx token ?sid ?evs (ft_server s) =
      (read_response (''POST '' @ session_path ?sid ''events'') 0 (Inr (http_reply (Inl err))), ft_server s)"
    using assms(4,5) refused by (simp add: PostEvents_def doJSON_def serves_events_def)
  moreover obtain e' where "read_response (''POST '' @ session_path ?sid ''events'') (0 :: int) (Inr (http_reply (Inl err))) = Inl e'"
    by (rule exE [OF post_error_status [OF refused]])
  ultimately have "PostEvents hx token ?sid ?evs (ft_server s) = (Inl e', ft_server s)" by simp
  then show ?thesis using assms(2,3) by (simp add: flushEvents_def resolve_server_id_def)
qed

section \<open>A run\<close>

text \<open>
  A workstation opens an activity, sends its first event and receives the answer; then it opens the activity again
  (the stored state could not be restored), is given the server session that is still open, and queues an event.
\<close>

definition ex_fs1 :: Store where
  "ex_fs1 = SaveSession 100 (fresh_session ''local-1'' ''ses-1'' ex_work_item ''/w'') migrate"

definition ex_fs2 :: Store where
  "ex_fs2 = snd (EnqueueEvent 110 ''local-1'' (engine_event ''a'' ''session_started'' [] 110) ex_fs1)"

definition ex_fb :: eventBatch where
  "ex_fb = hd (event_batches (ListPendingEvents ex_fs2 500))"

definition ex_fdb :: lms_db where
  "ex_fdb = snd (post_session_events sv_event_id ex_device ''ses-1'' (map oq_event (eb_events ex_fb)) 120 ex_lms_started)"

definition ex_fs3 :: Store where
  "ex_fs3 = AckEvents 130 ''local-1'' 0 ex_fs2"

definition ex_fs4 :: Store where
  "ex_fs4 = SaveSession 140 (fresh_session ''local-0'' ''ses-1'' ex_work_item ''/w'') ex_fs3"

definition ex_fs5 :: Store where
  "ex_fs5 = snd (EnqueueEvent 150 ''local-0'' (engine_event ''b'' ''session_started'' [] 150) ex_fs4)"

definition ex_fleet :: "Store \<Rightarrow> lms_db \<Rightarrow> (uuid \<times> eventBatch) set \<Rightarrow> (uuid \<times> string \<times> int) set \<Rightarrow> fleet" where
  "ex_fleet st db pool acks =
     \<lparr>ft_store = (\<lambda>d. if d = ''dev-1'' then st else migrate), ft_server = db, ft_pool = pool, ft_acks = acks,
      ft_reads = {}, ft_reset = {}\<rparr>"

lemma ex_fleet_store: "set_store ''dev-1'' st' (ex_fleet st db pool acks) = ex_fleet st' db pool acks"
  by (auto simp: set_store_def ex_fleet_def fun_eq_iff)

lemma ex_fleet_fields [simp]:
  "ft_store (ex_fleet st db pool acks) d = (if d = ''dev-1'' then st else migrate)" "ft_server (ex_fleet st db pool acks) = db"
  "ft_pool (ex_fleet st db pool acks) = pool" "ft_acks (ex_fleet st db pool acks) = acks"
  "ft_reads (ex_fleet st db pool acks) = {}" "ft_reset (ex_fleet st db pool acks) = {}"
  by (simp_all add: ex_fleet_def)

lemma ex_fleet_updates:
  "(ex_fleet st db pool acks)\<lparr>ft_server := db'\<rparr> = ex_fleet st db' pool acks"
  "(ex_fleet st db pool acks)\<lparr>ft_pool := pool'\<rparr> = ex_fleet st db pool' acks"
  "(ex_fleet st db pool acks)\<lparr>ft_acks := acks'\<rparr> = ex_fleet st db pool acks'"
  by (simp_all add: ex_fleet_def)

lemma migrate_rows [simp]: "st_sessions migrate = []" "st_outbox migrate = []"
  by (simp_all add: migrate_def)

abbreviation ex_reach :: "fleet \<Rightarrow> bool" where
  "ex_reach \<equiv> reachable fleet_init fleet_step"

lemma ex_next: "ex_reach s \<Longrightarrow> fleet_step s t \<Longrightarrow> ex_reach t"
  by (rule reachable.next_state)

lemma ex_run_opened: "ex_reach (ex_fleet ex_fs1 ex_lms_started {} {})"
proof -
  have "ex_reach (ex_fleet migrate ex_lms {} {})"
    by (rule reachable.start) (use ex_lms_wf in \<open>simp add: fleet_init_def, simp add: ex_lms_def\<close>)
  moreover have "fleet_step (ex_fleet migrate ex_lms {} {}) (ex_fleet ex_fs1 ex_lms_started {} {})"
    using fleet_step.open_online [of "''local-1''" "ex_fleet migrate ex_lms {} {}" ex_device ex_work_item 100 "[CapStructuredCommandEvidence]" "''ses-1''"
        ex_lms_session ex_lms_started "''ses-1''" "''dev-1''" "''/w''"] ex_lms_starts
    by (simp add: ex_fleet_updates ex_fleet_store ex_fs1_def ex_work_item_def ex_assignment_def ex_lms_session_def new_session_def)
  ultimately show ?thesis by (rule ex_next)
qed

definition ex_fev :: "string \<Rightarrow> time \<Rightarrow> SessionEvent" where
  "ex_fev i now = (engine_event i ''session_started'' [] now)\<lparr>sv_sequence := 0\<rparr>"

lemma ex_enqueued:
  "EnqueueEvent 110 ''local-1'' (engine_event ''a'' ''session_started'' [] 110) ex_fs1 = (Inr (ex_fev ''a'' 110), ex_fs2)"
  "EnqueueEvent 150 ''local-0'' (engine_event ''b'' ''session_started'' [] 150) ex_fs4 = (Inr (ex_fev ''b'' 150), ex_fs5)"
proof -
  have "fst (EnqueueEvent 110 ''local-1'' (engine_event ''a'' ''session_started'' [] 110) ex_fs1) = Inr (ex_fev ''a'' 110)"
    "fst (EnqueueEvent 150 ''local-0'' (engine_event ''b'' ''session_started'' [] 150) ex_fs4) = Inr (ex_fev ''b'' 150)" by code_simp+
  then show "EnqueueEvent 110 ''local-1'' (engine_event ''a'' ''session_started'' [] 110) ex_fs1 = (Inr (ex_fev ''a'' 110), ex_fs2)"
    "EnqueueEvent 150 ''local-0'' (engine_event ''b'' ''session_started'' [] 150) ex_fs4 = (Inr (ex_fev ''b'' 150), ex_fs5)"
    unfolding ex_fs2_def ex_fs5_def by (metis prod.collapse)+
qed

lemma ex_fev_sequence [simp]: "sv_sequence (ex_fev i now) = 0"
  by (simp add: ex_fev_def)

lemma ex_outboxes: "st_outbox ex_fs1 = []" "ox_event_id ` set (st_outbox ex_fs4) = {''a''}" "db_events ex_lms_started = []"
  "le_event_id ` set (db_events ex_fdb) = {''a''}" "cs_client_session_id ` set (st_sessions ex_fs3) = {''local-1''}"
proof -
  have "map ox_event_id (st_outbox ex_fs4) = [''a'']" "map le_event_id (db_events ex_fdb) = [''a'']"
    "map cs_client_session_id (st_sessions ex_fs3) = [''local-1'']" "st_outbox ex_fs1 = []" by code_simp+
  then show "st_outbox ex_fs1 = []" "ox_event_id ` set (st_outbox ex_fs4) = {''a''}" "le_event_id ` set (db_events ex_fdb) = {''a''}"
    "cs_client_session_id ` set (st_sessions ex_fs3) = {''local-1''}" by (metis list.set(1,2) list.set_map)+
  show "db_events ex_lms_started = []" by (simp add: ex_lms_started_def ex_lms_def)
qed

lemma ex_run_queued: "ex_reach (ex_fleet ex_fs2 ex_lms_started {} {})"
proof (rule ex_next [OF ex_run_opened])
  show "fleet_step (ex_fleet ex_fs1 ex_lms_started {} {}) (ex_fleet ex_fs2 ex_lms_started {} {})"
    using fleet_step.enqueue [of 110 "''local-1''" "''a''" "''session_started''" "[]" "ex_fleet ex_fs1 ex_lms_started {} {}" "''dev-1''"
        "ex_fev ''a'' 110" ex_fs2] ex_enqueued(1) ex_outboxes
    by (simp add: ex_fleet_store ServerEventSequenceBase_def)
qed

lemma ex_run_acked: "ex_reach (ex_fleet ex_fs3 ex_fdb {(''dev-1'', ex_fb)} {(''dev-1'', ''local-1'', 0)})"
proof -
  have b: "event_batches (ListPendingEvents ex_fs2 500) = [ex_fb]" "eb_client_id ex_fb = ''local-1''" "eb_server_id ex_fb = ''ses-1''" by code_simp+
  have "fst (post_session_events sv_event_id ex_device ''ses-1'' (map oq_event (eb_events ex_fb)) 120 ex_lms_started) = Inr 0" by code_simp
  then have p: "post_session_events sv_event_id ex_device ''ses-1'' (map oq_event (eb_events ex_fb)) 120 ex_lms_started = (Inr 0, ex_fdb)"
    unfolding ex_fdb_def by (metis prod.collapse)
  have "fleet_step (ex_fleet ex_fs2 ex_lms_started {} {}) (ex_fleet ex_fs2 ex_lms_started {(''dev-1'', ex_fb)} {})"
    using fleet_step.list_batch [of ex_fb "ex_fleet ex_fs2 ex_lms_started {} {}" "''dev-1''"] b(1) by (simp add: ex_fleet_updates)
  note r1 = ex_next [OF ex_run_queued this]
  have "fleet_step (ex_fleet ex_fs2 ex_lms_started {(''dev-1'', ex_fb)} {})
      (ex_fleet ex_fs2 ex_fdb {(''dev-1'', ex_fb)} {(''dev-1'', ''local-1'', 0)})"
    using fleet_step.post [of "''dev-1''" ex_fb "ex_fleet ex_fs2 ex_lms_started {(''dev-1'', ex_fb)} {}" "''ses-1''" sv_event_id ex_device 120 0 ex_fdb] p b(2,3)
    by (simp add: ex_fleet_updates resolve_server_id_def)
  note r2 = ex_next [OF r1 this]
  have "fleet_step (ex_fleet ex_fs2 ex_fdb {(''dev-1'', ex_fb)} {(''dev-1'', ''local-1'', 0)})
      (ex_fleet ex_fs3 ex_fdb {(''dev-1'', ex_fb)} {(''dev-1'', ''local-1'', 0)})"
    using fleet_step.acknowledge [of "''dev-1''" "''local-1''" 0 "ex_fleet ex_fs2 ex_fdb {(''dev-1'', ex_fb)} {(''dev-1'', ''local-1'', 0)}" 130]
    by (simp add: ex_fleet_store ex_fs3_def)
  from ex_next [OF r2 this] show ?thesis .
qed

theorem acknowledged_events_stored_witness:
  "\<exists>e \<in> set (db_events ex_fdb). le_session_id e = ''ses-1'' \<and> le_sequence e = 0 \<and> le_event_id e = ''a''"
proof -
  have "hd (st_outbox ex_fs3) \<in> set (st_outbox ex_fs3)" "ox_acked (hd (st_outbox ex_fs3))" "ox_server_session_id (hd (st_outbox ex_fs3)) = ''ses-1''"
    "ox_sequence (hd (st_outbox ex_fs3)) = 0" "ox_event_id (hd (st_outbox ex_fs3)) = ''a''" by code_simp+
  with acknowledged_events_stored [OF ex_run_acked, of "hd (st_outbox ex_fs3)" "''dev-1''"] show ?thesis by auto
qed

theorem outbox_numbered_witness:
  "bij_betw ox_sequence {r \<in> set (st_outbox ex_fs3). ox_client_session_id r = ''local-1''} {0..<1}"
proof -
  have "hd (st_sessions ex_fs3) \<in> set (st_sessions ex_fs3)" "cs_client_session_id (hd (st_sessions ex_fs3)) = ''local-1''"
    "cs_next_sequence (hd (st_sessions ex_fs3)) = 1" by code_simp+
  with outbox_numbered [OF ex_run_acked, of "hd (st_sessions ex_fs3)" "''dev-1''"] show ?thesis by simp
qed

lemma ex_run_second: "ex_reach (ex_fleet ex_fs5 ex_fdb {(''dev-1'', ex_fb)} {(''dev-1'', ''local-1'', 0)})"
proof -
  let ?s = "\<lambda>st. ex_fleet st ex_fdb {(''dev-1'', ex_fb)} {(''dev-1'', ''local-1'', 0)}"
  have "fst (StartOrResumeSession ex_device ''local-0'' ''asg-1'' 140 [CapStructuredCommandEvidence] ''ses-2'' ex_fdb) =
      Inr (hd (db_sessions ex_fdb))" "ln_id (hd (db_sessions ex_fdb)) = ''ses-1''" by code_simp+
  moreover have "snd (StartOrResumeSession ex_device ''local-0'' ''asg-1'' 140 [CapStructuredCommandEvidence] ''ses-2'' ex_fdb) = ex_fdb" by code_simp
  ultimately have start: "StartOrResumeSession ex_device ''local-0'' ''asg-1'' 140 [CapStructuredCommandEvidence] ''ses-2'' ex_fdb =
      (Inr (hd (db_sessions ex_fdb)), ex_fdb)" "ln_id (hd (db_sessions ex_fdb)) = ''ses-1''" by (metis prod.collapse)+
  have "fleet_step (?s ex_fs3) (?s ex_fs4)"
    using fleet_step.open_online [of "''local-0''" "?s ex_fs3" ex_device ex_work_item 140 "[CapStructuredCommandEvidence]" "''ses-2''"
        "hd (db_sessions ex_fdb)" ex_fdb "''ses-1''" "''dev-1''" "''/w''"] start ex_outboxes(5)
    by (simp add: ex_fleet_updates ex_fleet_store ex_fs4_def ex_work_item_def ex_assignment_def)
  note r = ex_next [OF ex_run_acked this]
  have "fleet_step (?s ex_fs4) (?s ex_fs5)"
    using fleet_step.enqueue [of 150 "''local-0''" "''b''" "''session_started''" "[]" "?s ex_fs4" "''dev-1''" "ex_fev ''b'' 150" ex_fs5]
      ex_enqueued(2) ex_outboxes by (simp add: ex_fleet_store ServerEventSequenceBase_def)
  from ex_next [OF r this] show ?thesis .
qed

definition ex_fhx :: "lms_db transport" where
  "ex_fhx = ex_hx\<lparr>hx_events := (\<lambda>sid evs db. case post_session_events sv_event_id ex_device sid evs 160 db of (r, db') \<Rightarrow> (Inr (http_reply r), db'))\<rparr>"

theorem second_session_blocks_flush_witness:
  "\<exists>err. flushEvents ex_fhx ''tok'' 170 ex_fs5 ex_fdb = (0, Some (ApiError err), ex_fs5, ex_fdb)"
proof -
  have "event_batches (ListPendingEvents ex_fs5 500) = [hd (event_batches (ListPendingEvents ex_fs5 500))]"
    "eb_server_id (hd (event_batches (ListPendingEvents ex_fs5 500))) = ''ses-1''"
    "eb_client_id (hd (event_batches (ListPendingEvents ex_fs5 500))) = ''local-0''"
    "hd (st_outbox ex_fs5) \<in> set (st_outbox ex_fs5)" "ox_server_session_id (hd (st_outbox ex_fs5)) = ''ses-1''"
    "ox_client_session_id (hd (st_outbox ex_fs5)) = ''local-1''" "hd (db_events ex_fdb) \<in> set (db_events ex_fdb)"
    "le_event_id (hd (db_events ex_fdb)) = ox_event_id (hd (st_outbox ex_fs5))" by code_simp+
  moreover have "serves_events sv_event_id ex_device 160 ex_fhx" by (simp add: serves_events_def ex_fhx_def)
  ultimately show ?thesis
    using second_session_blocks_flush [OF ex_run_second, of "''dev-1''" "hd (event_batches (ListPendingEvents ex_fs5 500))" "[]"
        sv_event_id ex_device 160 ex_fhx "''tok''" "hd (st_outbox ex_fs5)" "''dev-1''" "hd (db_events ex_fdb)" 170] by simp
qed

text \<open>The same workstation: its row is read before the first event is queued and written back afterwards.\<close>

theorem stale_write_loses_event_witness:
  "\<exists>x y. x \<in> set (st_outbox (AckEvents 160 ''local-1'' 0 (snd (EnqueueEvent 150 ''local-1'' (engine_event ''b'' ''check'' [] 150)
        (SaveSession 140 ((hd (st_sessions ex_fs1))\<lparr>cs_state := ''completed''\<rparr>) ex_fs2))))) \<and> ox_event_id x = ''a'' \<and> ox_acked x \<and>
     y \<in> set (st_outbox (AckEvents 160 ''local-1'' 0 (snd (EnqueueEvent 150 ''local-1'' (engine_event ''b'' ''check'' [] 150)
        (SaveSession 140 ((hd (st_sessions ex_fs1))\<lparr>cs_state := ''completed''\<rparr>) ex_fs2))))) \<and> ox_event_id y = ''b'' \<and> ox_acked y"
proof -
  let ?row = "hd (st_sessions ex_fs1)"
  let ?e = "EnqueueEvent 150 ''local-1'' (engine_event ''b'' ''check'' [] 150) (SaveSession 140 (?row\<lparr>cs_state := ''completed''\<rparr>) ex_fs2)"
  have read: "Store_GetSession ex_fs1 ''local-1'' = Inr ?row" by code_simp
  have "fst ?e = Inr ((engine_event ''b'' ''check'' [] 150)\<lparr>sv_sequence := 0\<rparr>)" by code_simp
  then have "?e = (Inr ((engine_event ''b'' ''check'' [] 150)\<lparr>sv_sequence := 0\<rparr>), snd ?e)" by (metis prod.collapse)
  from stale_write_loses_event [OF read ex_enqueued(1) this, of 0 160] show ?thesis by auto
qed

end
