(* ===== verification/Client_Progress.thy ===== *)
theory Client_Progress
  imports Client_Fleet_Props
begin

text \<open>
  Progress: a batch of a local session that has its server session to itself is accepted, and the answer covers
  every event of it.
\<close>

section \<open>The server accepts events without conflict\<close>

lemma insert_event_accepts:
  assumes "sid \<in> ln_id ` set (db_sessions db)" "0 \<le> sv_sequence ev"
    "sv_event_id ev \<in> le_event_id ` set (db_events db) \<or> i \<notin> le_id ` set (db_events db)"
    "\<forall>e \<in> set (db_events db). le_session_id e = sid \<longrightarrow> le_sequence e = sv_sequence ev \<longrightarrow> le_event_id e = sv_event_id ev"
  shows "\<exists>rows. insert_event db (event_row i sid ev now) = Inr rows \<and>
    set rows \<subseteq> insert (event_row i sid ev now) (set (db_events db)) \<and> set (db_events db) \<subseteq> set rows"
proof (cases "sv_event_id ev \<in> le_event_id ` set (db_events db)")
  case True
  then have "insert_event db (event_row i sid ev now) = Inr (db_events db)" by (intro insert_event_stored) (simp add: keys_def)
  then show ?thesis by auto
next
  case False
  have "\<not> list_ex (\<lambda>e. le_event_id e = sv_event_id ev) (db_events db)" using False by (force simp: list_ex_iff)
  moreover have "\<not> list_ex (\<lambda>e. le_id e = i \<or> le_session_id e = sid \<and> le_sequence e = sv_sequence ev) (db_events db)"
    using assms(3,4) False by (force simp: list_ex_iff)
  moreover have "list_ex (\<lambda>s. ln_id s = sid) (db_sessions db)" using assms(1) by (auto simp: list_ex_iff)
  ultimately have "insert_event db (event_row i sid ev now) = Inr (db_events db @ [event_row i sid ev now])"
    using assms(2) by (simp add: insert_event_def event_row_def)
  then show ?thesis by auto
qed

lemma insert_events_accepts:
  assumes "sid \<in> ln_id ` set (db_sessions db)" "\<forall>ev \<in> set evs. sv_event_id ev \<noteq> [] \<and> 0 \<le> sv_sequence ev"
    "\<forall>ev \<in> set evs. sv_event_id ev \<in> le_event_id ` set (db_events db) \<or> gen ev \<notin> le_id ` set (db_events db)" "inj_on gen (set evs)"
    "\<forall>ev \<in> set evs. \<forall>e \<in> set (db_events db). le_session_id e = sid \<longrightarrow> le_sequence e = sv_sequence ev \<longrightarrow> le_event_id e = sv_event_id ev"
    "inj_on sv_sequence (set evs)"
  shows "\<exists>db'. insert_events gen sid now evs db = Inr db'"
  using assms
proof (induction evs arbitrary: db)
  case (Cons ev evs)
  let ?row = "event_row (gen ev) sid ev now"
  obtain rows where rows: "insert_event db ?row = Inr rows" "set rows \<subseteq> insert ?row (set (db_events db))" "set (db_events db) \<subseteq> set rows"
    using insert_event_accepts [of sid db ev "gen ev" now] Cons.prems by (auto simp: image_iff)
  have stored: "sv_event_id ev \<in> le_event_id ` set rows"
    using rows(1) by (cases rule: insert_event_cases) (auto simp: event_row_def keys_def)
  have row: "le_id ?row = gen ev" "le_session_id ?row = sid" "le_sequence ?row = sv_sequence ev" "le_event_id ?row = sv_event_id ev"
    by (simp_all add: event_row_def)
  have "\<exists>db'. insert_events gen sid now evs (db\<lparr>db_events := rows\<rparr>) = Inr db'"
  proof (rule Cons.IH)
    show "\<forall>x \<in> set evs. sv_event_id x \<in> le_event_id ` set (db_events (db\<lparr>db_events := rows\<rparr>)) \<or> gen x \<notin> le_id ` set (db_events (db\<lparr>db_events := rows\<rparr>))"
    proof
      fix x assume x: "x \<in> set evs"
      show "sv_event_id x \<in> le_event_id ` set (db_events (db\<lparr>db_events := rows\<rparr>)) \<or> gen x \<notin> le_id ` set (db_events (db\<lparr>db_events := rows\<rparr>))"
      proof (cases "x = ev \<or> sv_event_id x \<in> le_event_id ` set (db_events db)")
        case False
        then have "gen x \<noteq> gen ev" using inj_onD [OF Cons.prems(4), of x ev] x by auto
        moreover have "gen x \<notin> le_id ` set (db_events db)" using Cons.prems(3) x False by auto
        ultimately show ?thesis using rows(2) row(1) by auto
      qed (use stored rows(3) in auto)
    qed
    show "\<forall>x \<in> set evs. \<forall>e \<in> set (db_events (db\<lparr>db_events := rows\<rparr>)). le_session_id e = sid \<longrightarrow> le_sequence e = sv_sequence x \<longrightarrow> le_event_id e = sv_event_id x"
    proof (intro ballI impI)
      fix x e assume xe: "x \<in> set evs" "e \<in> set (db_events (db\<lparr>db_events := rows\<rparr>))" "le_session_id e = sid" "le_sequence e = sv_sequence x"
      show "le_event_id e = sv_event_id x"
      proof (cases "e = ?row")
        case True
        then have "x = ev" using inj_onD [OF Cons.prems(6), of x ev] xe(1,4) row(3) by simp
        with True row(4) show ?thesis by simp
      qed (use xe rows(2) Cons.prems(5) in auto)
    qed
  qed (use Cons.prems in auto)
  then show ?case using rows(1) Cons.prems(2) by simp
qed simp

section \<open>A batch of its own\<close>

text \<open>Whether every stored event of a server session is an event of the local session \<open>c\<close> of the device.\<close>

definition session_to_itself :: "fleet \<Rightarrow> string \<Rightarrow> string \<Rightarrow> bool" where
  "session_to_itself s sid c \<longleftrightarrow> (\<forall>d. \<forall>r \<in> set (st_outbox (ft_store s d)). ox_server_session_id r = sid \<longrightarrow>
     ox_event_id r \<in> le_event_id ` set (db_events (ft_server s)) \<longrightarrow> ox_client_session_id r = c)"

text \<open>An event number of the session that is taken is taken by the session's own event with that number.\<close>

lemma own_number:
  assumes "fleet_inv s" "session_to_itself s sid c" "c \<notin> ft_reset s" "(c, sid, q, i, k) \<in> pc_rows (fleet_view s) d"
    "e \<in> set (db_events (ft_server s))" "le_session_id e = sid" "le_sequence e = q"
  shows "le_event_id e = i"
proof -
  note ok = protocol_okD [OF fleet_invD(1) [OF assms(1)]]
  have "q < ServerEventSequenceBase" using row_home [OF ok(3) assms(4)] by blast
  moreover have p: "(sid, q, le_event_id e, Content (le_event_type e) (le_client_time e) (le_payload e)) \<in> pc_events (fleet_view s)"
    using assms(5-7) by (force simp: view_fields lms_events_def lms_place_def)
  ultimately obtain d' c' where r: "(c', sid, q, le_event_id e, Content (le_event_type e) (le_client_time e) (le_payload e)) \<in> pc_rows (fleet_view s) d'"
    using ok(9) unfolding events_sent_def by blast
  then obtain x where x: "x \<in> set (st_outbox (ft_store s d'))" "ox_client_session_id x = c'" "ox_server_session_id x = sid" "ox_event_id x = le_event_id e"
    by (auto simp: view_fields row_view_def row_place_def)
  with assms(2,5) have "c' = c" unfolding session_to_itself_def by (metis image_eqI)
  with r row_same [OF fleet_invD(1) [OF assms(1)] assms(4)] have "(c, sid, q, le_event_id e, Content (le_event_type e) (le_client_time e) (le_payload e)) \<in> pc_rows (fleet_view s) d"
    by blast
  with ok(6) assms(3,4) show ?thesis unfolding rows_distinct_def view_fields by blast
qed

lemma placed_sequence: "(sid, q, i, k) \<in> lms_events db \<Longrightarrow> q \<in> set (session_sequences db sid)"
  by (auto simp: lms_events_def lms_place_def session_sequences_def)

text \<open>The rows behind the events of a listed batch.\<close>

lemma listed_row:
  assumes "fleet_inv s" "b \<in> set (event_batches (ListPendingEvents (ft_store s d) 500))" "e \<in> set (eb_events b)"
  shows "(eb_client_id b, event_place (eb_server_id b) (oq_event e)) \<in> pc_rows (fleet_view s) d"
  using listed_batch [OF assms(1,2)] assms(3) by (simp add: batch_ok_def)

lemma same_number:
  assumes "fleet_inv s" "c \<notin> ft_reset s" "(c, v, q, i, k) \<in> pc_rows (fleet_view s) d" "(c, v', q, i', k') \<in> pc_rows (fleet_view s) d'"
  shows "i = i' \<and> k = k'"
proof -
  note ok = protocol_okD [OF fleet_invD(1) [OF assms(1)]]
  have "d = d'" "v = v'" using row_same [OF fleet_invD(1) [OF assms(1)] assms(3,4)] by simp_all
  with assms(2,3,4) ok(6) show ?thesis unfolding rows_distinct_def view_fields by blast
qed

lemma listed_sequences:
  assumes "fleet_inv s" "b \<in> set (event_batches (ListPendingEvents (ft_store s d) 500))" "eb_client_id b \<notin> ft_reset s"
  shows "inj_on sv_sequence (set (map oq_event (eb_events b)))"
proof (rule inj_onI)
  fix x y assume xy: "x \<in> set (map oq_event (eb_events b))" "y \<in> set (map oq_event (eb_events b))" "sv_sequence x = sv_sequence y"
  have same: "sv_event_id x = sv_event_id y \<and> event_content x = event_content y"
  proof -
    have "(eb_client_id b, eb_server_id b, sv_sequence z, sv_event_id z, event_content z) \<in> pc_rows (fleet_view s) d"
      if "z \<in> set (map oq_event (eb_events b))" for z using listed_row [OF assms(1,2)] that by (auto simp: event_place_def)
    from same_number [OF assms(1,3) this [OF xy(1)], of "eb_server_id b" "sv_event_id y" "event_content y" d] this [OF xy(2)] xy(3)
    show ?thesis by simp
  qed
  have schema: "sv_schema_version z = EventSchemaVersion" if "z \<in> set (map oq_event (eb_events b))" for z
  proof -
    from that obtain e where e: "e \<in> set (eb_events b)" "z = oq_event e" by auto
    obtain r where "e = outbox_event r" by (rule batch_rows [OF assms(2) _ e(1)]) simp_all
    with e(2) show ?thesis by (simp add: outbox_event_def)
  qed
  show "x = y" using same xy(3) schema [OF xy(1)] schema [OF xy(2)]
    by (intro SessionEvent.equality) (simp_all add: event_content_def)
qed

lemma own_batch_accepted:
  assumes "fleet_inv s" "b \<in> set (event_batches (ListPendingEvents (ft_store s d) 500))" "eb_client_id b \<notin> ft_reset s"
    "session_to_itself s (eb_server_id b) (eb_client_id b)"
    "sess \<in> set (db_sessions (ft_server s))" "ln_id sess = eb_server_id b" "ln_student_id sess = sc_student_id dev"
    "\<forall>e \<in> set (eb_events b). sv_event_id (oq_event e) \<noteq> []"
    "inj_on gen (oq_event ` set (eb_events b))" "\<forall>e \<in> set (eb_events b). gen (oq_event e) \<notin> le_id ` set (db_events (ft_server s))"
  obtains n db' where "post_session_events gen dev (eb_server_id b) (map oq_event (eb_events b)) now (ft_server s) = (Inr n, db')"
    "IngestSessionEvents gen (eb_server_id b) (map oq_event (eb_events b)) now (ft_server s) = (Inr n, db')"
proof -
  let ?sid = "eb_server_id b" and ?evs = "map oq_event (eb_events b)" and ?db = "ft_server s"
  have row: "(eb_client_id b, ?sid, sv_sequence ev, sv_event_id ev, event_content ev) \<in> pc_rows (fleet_view s) d" if "ev \<in> set ?evs" for ev
    using listed_row [OF assms(1,2)] that by (auto simp: event_place_def)
  have "\<exists>db1. insert_events gen ?sid now ?evs ?db = Inr db1"
  proof (rule insert_events_accepts)
    show "?sid \<in> ln_id ` set (db_sessions ?db)" using assms(5,6) by force
    show "\<forall>ev \<in> set ?evs. sv_event_id ev \<noteq> [] \<and> 0 \<le> sv_sequence ev"
      using assms(8) row row_home [OF protocol_okD(3) [OF fleet_invD(1) [OF assms(1)]]] by fastforce
    show "\<forall>ev \<in> set ?evs. \<forall>e \<in> set (db_events ?db). le_session_id e = ?sid \<longrightarrow> le_sequence e = sv_sequence ev \<longrightarrow> le_event_id e = sv_event_id ev"
      using own_number [OF assms(1,4,3) row] by blast
  qed (use assms(9,10) listed_sequences [OF assms(1-3)] in simp_all)
  then obtain n db' where i: "IngestSessionEvents gen ?sid ?evs now ?db = (Inr n, db')"
    by (auto simp: IngestSessionEvents_def WithTx_ok Let_def)
  have "GetSession ?db ?sid = Inr sess"
    using assms(5,6) find_key_iff [of ln_id "db_sessions ?db" ?sid sess] fleet_invD(2) [OF assms(1)]
    by (simp add: GetSession_def get_row_def session_wf_def)
  with i assms(6,7) have "post_session_events gen dev ?sid ?evs now ?db = (Inr n, db')" by (simp add: post_session_events_def)
  with i that show thesis by blast
qed

lemma ack_loop_ge: "acked \<le> expect - 1 \<Longrightarrow> acked \<le> ack_loop mx expect acked seqs"
  by (induction mx expect acked seqs rule: ack_loop.induct) auto

lemma acknowledged_ge: "IngestSessionEvents gen sid evs now db = (Inr n, db') \<Longrightarrow> - 1 \<le> n"
  using ack_loop_ge [of "- 1" 0] by (auto simp: IngestSessionEvents_def WithTx_def acknowledged_def contiguousAck_def Let_def
    split: sum.splits list.splits)

text \<open>A pending event of the session up to an event of the batch is in the batch.\<close>

lemma pending_in_batch:
  assumes "fleet_inv s" "b \<in> set (event_batches (ListPendingEvents (ft_store s d) 500))" "e \<in> set (eb_events b)" "eb_client_id b \<notin> ft_reset s"
    "x \<in> set (st_outbox (ft_store s d))" "\<not> ox_acked x" "ox_client_session_id x = eb_client_id b" "ox_sequence x \<le> sv_sequence (oq_event e)"
  shows "\<exists>y \<in> set (eb_events b). sv_event_id (oq_event y) = ox_event_id x"
proof (cases "ox_sequence x = sv_sequence (oq_event e)")
  case True
  have "(eb_client_id b, row_place x) \<in> pc_rows (fleet_view s) d" using row_in_view [OF assms(5)] assms(7) by simp
  from same_number [OF assms(1,4) this [unfolded row_place_def True] listed_row [OF assms(1-3), unfolded event_place_def]] assms(3)
  show ?thesis by auto
next
  case False
  then have "outbox_event x \<in> set (eb_events b)"
    using assms(8) by (intro batch_prefix [OF assms(2) _ assms(3,5,6,7)]) simp_all
  then show ?thesis by (intro bexI [of _ "outbox_event x"]) simp_all
qed

text \<open>The answer covers the batch: every number up to its last one is taken.\<close>

lemma own_batch_covered:
  assumes "fleet_inv s" "b \<in> set (event_batches (ListPendingEvents (ft_store s d) 500))"
    "IngestSessionEvents gen (eb_server_id b) (map oq_event (eb_events b)) now (ft_server s) = (Inr n, db')" "e \<in> set (eb_events b)"
    "lms_accepts (eb_server_id b) (map oq_event (eb_events b)) (ft_server s) n db'" "eb_client_id b \<notin> ft_reset s"
  shows "sv_sequence (oq_event e) \<le> n"
proof (rule ccontr)
  note ok = protocol_okD [OF fleet_invD(1) [OF assms(1)]]
  let ?c = "eb_client_id b" and ?sid = "eb_server_id b" and ?db = "ft_server s"
  assume "\<not> sv_sequence (oq_event e) \<le> n"
  then have m: "n + 1 \<le> sv_sequence (oq_event e)" by simp
  have n: "- 1 \<le> n" "n + 1 \<notin> set (session_sequences db' ?sid)"
    using ingest_acknowledges [OF fleet_invD(2) [OF assms(1)] assms(3), of gen 0] acknowledged_ge [OF assms(3)] by simp_all
  obtain k where "(?c, ?sid, k) \<in> pc_sessions (fleet_view s) d" "sv_sequence (oq_event e) < k"
    using ok(5) listed_row [OF assms(1,2,4), unfolded event_place_def] assms(6) unfolding rows_below_def view_fields by blast
  moreover have "0 \<le> n + 1" "n + 1 < k" using m n(1) calculation(2) by simp_all
  ultimately obtain i t where "(?c, ?sid, n + 1, i, t) \<in> pc_rows (fleet_view s) d"
    using ok(7) assms(6) unfolding rows_complete_def view_fields by blast
  then obtain x where x: "x \<in> set (st_outbox (ft_store s d))" "ox_client_session_id x = ?c" "row_place x = (?sid, n + 1, i, t)"
    by (auto simp: view_fields row_view_def)
  have "(?sid, n + 1, i, t) \<in> lms_events db'"
  proof (cases "ox_acked x")
    case True
    with x have "(?sid, n + 1, i, t) \<in> pc_acked (fleet_view s) d" by (force simp: view_fields acked_places_def)
    then obtain c where c: "(c, ?sid, n + 1, i, t) \<in> pc_rows (fleet_view s) d" "c \<notin> ft_reset s \<longrightarrow> (?sid, n + 1, i, t) \<in> lms_events ?db"
      using ok(12) unfolding acked_ok_def view_fields by blast
    moreover have "c = ?c" using id_same [OF ok(8) c(1) \<open>(?c, ?sid, n + 1, i, t) \<in> pc_rows (fleet_view s) d\<close>] by blast
    ultimately show ?thesis using assms(6) lms.accepts_keeps [OF fleet_invD(2) [OF assms(1)] assms(5)] by blast
  next
    case False
    have "\<exists>y \<in> set (eb_events b). sv_event_id (oq_event y) = i"
      using pending_in_batch [OF assms(1,2,4,6) x(1) False x(2)] x(3) m by (auto simp: row_place_def)
    then obtain v q k' where "(v, q, i, k') \<in> lms_events db'"
      using lms.accepts_all [OF fleet_invD(2) [OF assms(1)] assms(5)] by fastforce
    moreover from this have "?sid = v \<and> n + 1 = q \<and> t = k'"
      using lms.accepted_placed [OF fleet_invD(1) [OF assms(1)] view_fields(3) fleet_invD(2) [OF assms(1)] listed_batch [OF assms(1,2)] assms(5)]
        \<open>(?c, ?sid, n + 1, i, t) \<in> pc_rows (fleet_view s) d\<close> unfolding events_placed_def by simp
    ultimately show ?thesis by simp
  qed
  with n(2) show False using placed_sequence by blast
qed

text \<open>
  C5. A local session that has its server session to itself, and whose counter was never set back by writing back a
  row read before an event was queued, makes progress: in every reachable state with an online connection its batch, the first of the flush, is accepted whatever part of it the server has stored already, the
  answer covers every event of the batch, all of them are marked as acknowledged and the flush goes on to the next
  batch. (The server session belongs to the student of the device and the server draws fresh row identifiers.)
\<close>
theorem own_batch_flushed:
  assumes "reachable fleet_init fleet_step s" "event_batches (ListPendingEvents (ft_store s d) 500) = b # bs"
    "session_to_itself s (eb_server_id b) (eb_client_id b)" "eb_client_id b \<notin> ft_reset s" "serves_events gen dev now hx" "token \<noteq> []" "eb_server_id b \<noteq> []"
    "sess \<in> set (db_sessions (ft_server s))" "ln_id sess = eb_server_id b" "ln_student_id sess = sc_student_id dev"
    "\<forall>e \<in> set (eb_events b). sv_event_id (oq_event e) \<noteq> []"
    "inj_on gen (oq_event ` set (eb_events b))" "\<forall>e \<in> set (eb_events b). gen (oq_event e) \<notin> le_id ` set (db_events (ft_server s))"
  shows "\<exists>n st' db'. flushEvents hx token later (ft_store s d) (ft_server s) =
      flush_batches hx token later bs (length (eb_events b)) st' db' \<and> st' = AckEvents later (eb_client_id b) n (ft_store s d) \<and>
      (\<forall>r \<in> set (st_outbox st'). ox_event_id r \<in> (\<lambda>e. sv_event_id (oq_event e)) ` set (eb_events b) \<longrightarrow> ox_acked r)"
proof -
  note inv = fl.inv_reachable [OF assms(1)]
  have b: "b \<in> set (event_batches (ListPendingEvents (ft_store s d) 500))" by (simp add: assms(2))
  obtain n db' where post: "post_session_events gen dev (eb_server_id b) (map oq_event (eb_events b)) now (ft_server s) = (Inr n, db')"
    and ingest: "IngestSessionEvents gen (eb_server_id b) (map oq_event (eb_events b)) now (ft_server s) = (Inr n, db')"
    by (rule own_batch_accepted [OF inv b assms(4,3,8-13)])
  let ?st = "AckEvents later (eb_client_id b) n (ft_store s d)"
  have "PostEvents hx token (eb_server_id b) (map oq_event (eb_events b)) (ft_server s) = (Inr n, db')"
    using assms(5,6) post by (simp add: PostEvents_def doJSON_def serves_events_def read_response_def http_reply_def)
  then have "flushEvents hx token later (ft_store s d) (ft_server s) = flush_batches hx token later bs (length (eb_events b)) ?st db'"
    using assms(2,7) by (simp add: flushEvents_def resolve_server_id_def)
  moreover have "ox_acked r" if r: "r \<in> set (st_outbox ?st)" "e \<in> set (eb_events b)" "ox_event_id r = sv_event_id (oq_event e)" for r e
  proof (rule ccontr)
    assume "\<not> ox_acked r"
    with r(1) have old: "r \<in> set (st_outbox (ft_store s d))" "\<not> (ox_client_session_id r = eb_client_id b \<and> ox_sequence r \<le> n)"
      by (auto simp: AckEvents_def update_where_def split: if_splits)
    obtain x where x: "x \<in> set (st_outbox (ft_store s d))" "ox_client_session_id x = eb_client_id b" "e = outbox_event x"
      by (rule batch_rows [OF b _ r(2)]) simp
    have "r = x" using unique_key_eq [OF fleet_invD(3) [OF inv] old(1) x(1)] r(3) x(3) by simp
    moreover have "sv_sequence (oq_event e) \<le> n"
      using own_batch_covered [OF inv b ingest r(2)] post assms(4) unfolding lms_accepts_def by blast
    ultimately show False using old(2) x(2,3) by simp
  qed
  ultimately show ?thesis by blast
qed

theorem own_batch_flushed_witness:
  "\<exists>n st' db'. flushEvents ex_fhx ''tok'' 170 ex_fs2 ex_lms_started = (1, None, st', db') \<and> st' = AckEvents 170 ''local-1'' n ex_fs2 \<and>
    \<not> list_ex (\<lambda>r. ox_event_id r = ''a'' \<and> \<not> ox_acked r) (st_outbox st')"
proof -
  have b: "event_batches (ListPendingEvents ex_fs2 500) = [ex_fb]" "eb_client_id ex_fb = ''local-1''" "eb_server_id ex_fb = ''ses-1''"
    "length (eb_events ex_fb) = 1" "map (\<lambda>e. sv_event_id (oq_event e)) (eb_events ex_fb) = [''a'']" by code_simp+
  then have ids: "(\<lambda>e. sv_event_id (oq_event e)) ` set (eb_events ex_fb) = {''a''}" by (metis list.set(1,2) list.set_map)
  obtain e where e: "eb_events ex_fb = [e]" using b(4) by (auto simp: length_Suc_conv)
  have gen: "inj_on sv_event_id (oq_event ` set (eb_events ex_fb))" unfolding e by simp
  have sess: "hd (db_sessions ex_lms_started) \<in> set (db_sessions ex_lms_started)" "ln_id (hd (db_sessions ex_lms_started)) = ''ses-1''"
    "ln_student_id (hd (db_sessions ex_lms_started)) = sc_student_id ex_device" by code_simp+
  let ?s = "ex_fleet ex_fs2 ex_lms_started {} {}"
  have own: "session_to_itself ?s (eb_server_id ex_fb) (eb_client_id ex_fb)"
    by (simp add: session_to_itself_def ex_outboxes)
  have net: "serves_events sv_event_id ex_device 160 ex_fhx" by (simp add: serves_events_def ex_fhx_def)
  have named: "\<forall>e \<in> set (eb_events ex_fb). sv_event_id (oq_event e) \<noteq> []" using b(5) unfolding e by simp
  have fresh: "\<forall>e \<in> set (eb_events ex_fb). sv_event_id (oq_event e) \<notin> le_id ` set (db_events (ft_server ?s))" by (simp add: ex_outboxes)
  have "event_batches (ListPendingEvents (ft_store ?s ''dev-1'') 500) = [ex_fb]" "eb_server_id ex_fb \<noteq> []"
    "hd (db_sessions ex_lms_started) \<in> set (db_sessions (ft_server ?s))" "ln_id (hd (db_sessions ex_lms_started)) = eb_server_id ex_fb"
    using b sess by simp_all
  from own_batch_flushed [OF ex_run_queued this(1) own _ net _ this(2-4) sess(3) named gen fresh, of "''tok''" 170]
  obtain n st' db' where f: "flushEvents ex_fhx ''tok'' 170 ex_fs2 ex_lms_started = (1, None, st', db')"
      "st' = AckEvents 170 ''local-1'' n ex_fs2" "\<forall>r \<in> set (st_outbox st'). ox_event_id r \<in> {''a''} \<longrightarrow> ox_acked r"
    unfolding ids b(2,4) flush_batches.simps ex_fleet_fields if_P [OF refl] by blast
  then show ?thesis unfolding list_ex_iff by blast
qed

end
