(* ===== verification/Client_Engine.thy ===== *)
theory Client_Engine
  imports Client_Fleet Utf8
begin

text \<open>
  What the engine of the workstation (\<^verbatim>\<open>studentclient/engine/session.go\<close>) writes to the durable store when the
  student submits a response, finishes or pauses an activity.  The runner of the activity is a parameter: whether
  its required checks have passed and what it observed are arguments.  Submitting also writes the runner's state,
  which has its own operation of the store.
\<close>

datatype engine_error =
    AlreadyCompleted
  | BodyRequired
  | UnknownTask string
  | NotShortResponse string
  | ResponseTooLong int
  | ChecksNotPassed
  | CacheError store_error

definition ResponseSchemaVersion :: string where "ResponseSchemaVersion = ''1''"
definition EventSessionCompleted :: string where "EventSessionCompleted = ''session_completed''"

text \<open>The fields of a running session that its operations read and write.\<close>

record engine_session =
  es_client_session_id :: string
  es_server_session_id :: string
  es_slug :: string
  es_tasks :: "Task list"
  es_completed :: bool
  es_completion_queued :: bool

definition max_response_chars :: "ResponseTaskSpec \<Rightarrow> int" where
  "max_response_chars spec = (if rs_max_chars spec \<le> 0 then DefaultResponseMaxChars else rs_max_chars spec)"

definition check_response :: "Task list \<Rightarrow> string \<Rightarrow> string \<Rightarrow> engine_error option" where
  "check_response tasks taskID body =
     (case List.find (\<lambda>t. tk_id t = taskID) tasks of
        None \<Rightarrow> Some (UnknownTask taskID)
      | Some t \<Rightarrow>
          (case tk_response t of
             None \<Rightarrow> Some (NotShortResponse taskID)
           | Some spec \<Rightarrow>
               if TaskKindOrDefault t \<noteq> TaskKindShortResponse then Some (NotShortResponse taskID)
               else if max_response_chars spec < int (length (runes_of body)) then Some (ResponseTooLong (max_response_chars spec))
               else None))"

definition Session_SubmitResponse ::
  "time \<Rightarrow> string \<Rightarrow> engine_session \<Rightarrow> string \<Rightarrow> string \<Rightarrow> Store \<Rightarrow> (engine_error + unit) \<times> Store" where
  "Session_SubmitResponse now submissionID s taskID body0 st =
     (let body = trim_space body0
      in if es_completed s then (Inl AlreadyCompleted, st)
         else if body = [] then (Inl BodyRequired, st)
         else case check_response (es_tasks s) taskID body of
           Some err \<Rightarrow> (Inl err, st)
         | None \<Rightarrow>
             let req = \<lparr>sb_schema_version = ResponseSchemaVersion, sb_submission_id = submissionID, sb_task_id = taskID,
                        sb_body = body, sb_client_time = now, sb_request_digest = []\<rparr>
             in (Inr (), SaveResponseDraft now (es_client_session_id s) taskID body
                   (SaveResponseIntent now (es_client_session_id s) (es_server_session_id s) req st)))"

definition completion_request :: "time \<Rightarrow> string \<Rightarrow> string \<Rightarrow> Observation list \<Rightarrow> engine_session \<Rightarrow> CompletionRequest" where
  "completion_request now completionID digest obs s =
     \<lparr>cq_schema_version = CompletionSchemaVersion, cq_completion_id = completionID, cq_request_digest = digest,
      cq_observations = obs, cq_artifact_ids = [], cq_artifact_digests = [], cq_client_time = now, cq_summary = ''student completed '' @ es_slug s\<rparr>"

text \<open>Finishing, up to the flush: \<open>ready\<close> is whether the runner's required checks passed, \<open>obs\<close> what it observed.\<close>

definition Session_Complete ::
  "time \<Rightarrow> string \<Rightarrow> string \<Rightarrow> string \<Rightarrow> bool \<Rightarrow> Observation list \<Rightarrow> engine_session \<Rightarrow> Store \<Rightarrow>
     (engine_error + unit) \<times> engine_session \<times> Store" where
  "Session_Complete now completionID eventID digest ready obs s st =
     (if es_completed s then (Inr (), s, st)
      else if \<not> ready then (Inl ChecksNotPassed, s, st)
      else
        let st1 = SaveCompletionIntent now (es_client_session_id s) (es_server_session_id s)
                    (completion_request now completionID digest obs s) st
        in case EnqueueEvent now (es_client_session_id s)
                  (engine_event eventID EventSessionCompleted [(''completionId'', AnyString completionID)] now) st1 of
             (Inl e, st2) \<Rightarrow> (Inl (CacheError e), s, st2)
           | (Inr _, st2) \<Rightarrow>
               (Inr (), s\<lparr>es_completion_queued := True, es_completed := True\<rparr>,
                DeleteRunnerState (es_client_session_id s)
                  (set_session_state now (es_client_session_id s) ''completed'' st2)))"

definition Session_Pause :: "time \<Rightarrow> engine_session \<Rightarrow> Store \<Rightarrow> (engine_error + unit) \<times> Store" where
  "Session_Pause now s st = (case Store_GetSession st (es_client_session_id s) of
     Inl e \<Rightarrow> (Inl (CacheError e), st)
   | Inr row \<Rightarrow> (Inr (), SaveSession now (row\<lparr>cs_state := ''paused''\<rparr>) st))"

text \<open>Resuming marks the session started again.\<close>

definition resumed_row :: "time \<Rightarrow> Session \<Rightarrow> Store \<Rightarrow> Store" where
  "resumed_row now row st = SaveSession now (row\<lparr>cs_state := ''started''\<rparr>) st"

end
