(* ===== verification/Client_Offline.thy ===== *)
theory Client_Offline
  imports Client_Engine Client_Pull "HOL-Library.Sublist"
begin

text \<open>
  A session that was opened without the server: what a synchronisation pass does with it, whatever the network and
  the server answer, and what becomes of its work over any number of passes.
\<close>

section \<open>Sessions without a server session\<close>

definition unbound :: "string \<Rightarrow> Store \<Rightarrow> bool" where
  "unbound c st \<longleftrightarrow>
     (\<forall>s \<in> set (st_sessions st). cs_client_session_id s = c \<longrightarrow> cs_server_session_id s = []) \<and>
     (\<forall>r \<in> set (st_outbox st). ox_client_session_id r = c \<longrightarrow> ox_server_session_id r = []) \<and>
     (\<forall>r \<in> set (st_completions st). co_client_session_id r = c \<longrightarrow> co_server_session_id r = []) \<and>
     (\<forall>r \<in> set (st_artifacts st). af_client_session_id r = c \<longrightarrow> af_server_session_id r = []) \<and>
     (\<forall>r \<in> set (st_responses st). rp_client_session_id r = c \<longrightarrow> rp_server_session_id r = [])"

text \<open>What the session has queued.\<close>

definition queued :: "string \<Rightarrow> Store \<Rightarrow> outbox_row list \<times> CompletionIntent list \<times> PendingArtifact list \<times> ResponseIntent list" where
  "queued c st =
     (filter (\<lambda>r. ox_client_session_id r = c) (st_outbox st), filter (\<lambda>r. co_client_session_id r = c) (st_completions st),
      filter (\<lambda>r. af_client_session_id r = c) (st_artifacts st), filter (\<lambda>r. rp_client_session_id r = c) (st_responses st))"

text \<open>The primary keys of the queues.\<close>

definition queue_keys :: "Store \<Rightarrow> bool" where
  "queue_keys st \<longleftrightarrow> unique_key co_completion_id (st_completions st) \<and> unique_key af_artifact_id (st_artifacts st) \<and>
     unique_key rp_submission_id (st_responses st)"

definition untouched :: "string \<Rightarrow> Store \<Rightarrow> Store \<Rightarrow> bool" where
  "untouched c st st' \<longleftrightarrow> queued c st' = queued c st \<and> (queue_keys st \<longrightarrow> queue_keys st') \<and> (unbound c st \<longrightarrow> unbound c st') \<and>
     cs_client_session_id ` set (st_sessions st) \<subseteq> cs_client_session_id ` set (st_sessions st')"

lemma untouched_refl: "untouched c st st"
  by (simp add: untouched_def)

lemma untouched_trans: "untouched c st st' \<Longrightarrow> untouched c st' st'' \<Longrightarrow> untouched c st st''"
  by (auto simp: untouched_def)

text \<open>Only the rows of other sessions and the cached work change.\<close>

lemma filter_update_other:
  "\<forall>x \<in> set rows. p x \<longrightarrow> \<not> q x \<and> \<not> q (f x) \<Longrightarrow> filter q (update_where p f rows) = filter q rows"
  by (induction rows) (auto simp: update_where_def)

lemma unbound_queued:
  "unbound c st \<longleftrightarrow> (\<forall>s \<in> set (st_sessions st). cs_client_session_id s = c \<longrightarrow> cs_server_session_id s = []) \<and>
     (case queued c st of (evs, cmps, arts, rs) \<Rightarrow>
        list_all (\<lambda>r. ox_server_session_id r = []) evs \<and> list_all (\<lambda>r. co_server_session_id r = []) cmps \<and>
        list_all (\<lambda>r. af_server_session_id r = []) arts \<and> list_all (\<lambda>r. rp_server_session_id r = []) rs)"
  by (simp add: unbound_def queued_def list_all_iff Ball_def imp_conjL)

lemma untouchedI:
  assumes "queued c st' = queued c st" "queue_keys st \<Longrightarrow> queue_keys st'"
    "\<And>s. s \<in> set (st_sessions st') \<Longrightarrow> cs_client_session_id s = c \<Longrightarrow> unbound c st \<Longrightarrow> cs_server_session_id s = []"
    "cs_client_session_id ` set (st_sessions st) \<subseteq> cs_client_session_id ` set (st_sessions st')"
  shows "untouched c st st'"
proof -
  have "unbound c st'" if "unbound c st"
    using that assms(3) unfolding unbound_queued [of c st'] assms(1) by (simp add: unbound_queued [of c st])
  with assms(1,2,4) show ?thesis by (simp add: untouched_def)
qed

lemma untouched_same_rows:
  assumes "st_sessions st' = st_sessions st" "st_outbox st' = st_outbox st" "st_completions st' = st_completions st"
    "st_artifacts st' = st_artifacts st" "st_responses st' = st_responses st"
  shows "untouched c st st'"
  using assms by (simp add: untouched_def queued_def queue_keys_def unbound_def)

section \<open>A pass leaves it alone\<close>

lemma resolve_unbound: "unbound c st \<Longrightarrow> resolve_server_id st c [] = Inr v \<Longrightarrow> v = []"
  by (auto simp: resolve_server_id_def Store_GetSession_def unbound_def split: option.splits dest!: find_Some_in)

lemma untouched_AckEvents: "c' \<noteq> c \<Longrightarrow> untouched c st (AckEvents now c' n st)"
  by (rule untouchedI)
    (auto simp: AckEvents_def keys_def [symmetric] keys_update queued_def queue_keys_def unbound_def in_update_where split: if_splits intro!: filter_update_other)

lemma untouched_MarkArtifactAcked:
  "\<forall>r \<in> set (st_artifacts st). af_client_session_id r = c \<longrightarrow> af_artifact_id r \<noteq> i \<Longrightarrow> untouched c st (MarkArtifactAcked i st)"
  by (rule untouchedI)
    (auto simp: MarkArtifactAcked_def queued_def queue_keys_def unbound_def unique_key_update intro!: filter_update_other)

lemma untouched_MarkResponseAcked:
  "\<forall>r \<in> set (st_responses st). rp_client_session_id r = c \<longrightarrow> rp_submission_id r \<noteq> i \<Longrightarrow> untouched c st (MarkResponseAcked now i res st)"
  by (rule untouchedI)
    (auto simp: MarkResponseAcked_def queued_def queue_keys_def unbound_def unique_key_update intro!: filter_update_other)

lemma untouched_MarkCompletionAcked:
  "\<forall>r \<in> set (st_completions st). co_client_session_id r = c \<longrightarrow> co_completion_id r \<noteq> i \<Longrightarrow> untouched c st (MarkCompletionAcked now i res st)"
  by (rule untouchedI)
    (auto simp: MarkCompletionAcked_def queued_def queue_keys_def unbound_def unique_key_update intro!: filter_update_other)

lemma saved_sessions:
  "s \<in> set (st_sessions (SaveSession now sess st)) \<Longrightarrow>
     s \<in> set (st_sessions st) \<or> cs_client_session_id s = cs_client_session_id sess \<and> cs_server_session_id s = cs_server_session_id sess"
  by (auto simp: SaveSession_def upsert_def Let_def in_update_where split: if_splits)

lemma saved_ids: "cs_client_session_id ` set (st_sessions (SaveSession now sess st)) =
    insert (cs_client_session_id sess) (cs_client_session_id ` set (st_sessions st))"
proof (cases "list_ex (\<lambda>r. cs_client_session_id r = cs_client_session_id sess) (st_sessions st)")
  case True
  then have "cs_client_session_id sess \<in> cs_client_session_id ` set (st_sessions st)" unfolding list_ex_iff by (metis imageI)
  with True show ?thesis by (simp add: SaveSession_def upsert_def Let_def image_update_where insert_absorb)
qed (simp add: SaveSession_def upsert_def Let_def)

lemma untouched_SaveSession:
  assumes "cs_client_session_id sess = c \<Longrightarrow> unbound c st \<Longrightarrow> cs_server_session_id sess = []"
  shows "untouched c st (SaveSession now sess st)"
proof (rule untouchedI)
  show "queued c (SaveSession now sess st) = queued c st" by (simp add: queued_def SaveSession_def Let_def)
  show "queue_keys (SaveSession now sess st)" if "queue_keys st" using that by (simp add: queue_keys_def SaveSession_def Let_def)
  show "cs_server_session_id s = []" if "s \<in> set (st_sessions (SaveSession now sess st))" "cs_client_session_id s = c" "unbound c st" for s
    using saved_sessions [OF that(1)] that(2,3) assms unfolding unbound_def by auto
qed (auto simp: saved_ids)

lemma untouched_set_session_state: "untouched c st (set_session_state now c' state st)"
proof (cases "Store_GetSession st c'")
  case (Inr sess)
  then have "sess \<in> set (st_sessions st)"
    by (auto simp: Store_GetSession_def split: option.splits dest: find_Some_in)
  with Inr show ?thesis by (auto simp: set_session_state_def unbound_def intro!: untouched_SaveSession)
qed (simp add: set_session_state_def untouched_refl)

lemma untouched_settle_completion:
  assumes "\<forall>r \<in> set (st_completions st). co_client_session_id r = c \<longrightarrow> co_completion_id r \<noteq> co_completion_id k"
  shows "untouched c st (settle_completion now k res st)"
  using untouched_MarkCompletionAcked [OF assms, of now res] untouched_set_session_state untouched_trans
  unfolding settle_completion_def Let_def by auto

lemma flush_batches_cases:
  assumes "flush_batches hx token now (b # bs) n st srv = (m, err, st', srv')"
  obtains (stop) "st' = st"
  | (skip) "flush_batches hx token now bs n st srv = (m, err, st', srv')"
  | (sent) v a srv1 where "resolve_server_id st (eb_client_id b) (eb_server_id b) = Inr v" "v \<noteq> []"
      "flush_batches hx token now bs (n + length (eb_events b)) (AckEvents now (eb_client_id b) a st) srv1 = (m, err, st', srv')"
  using assms by (auto split: sum.splits if_splits prod.splits)

lemma sent_elsewhere:
  assumes "unbound c st" "resolve_server_id st c' s = Inr v" "v \<noteq> []" "c' = c \<Longrightarrow> s = []"
  shows "c' \<noteq> c"
  using assms resolve_unbound by blast

lemma untouched_next: "unbound c st \<Longrightarrow> untouched c st st1 \<Longrightarrow> (unbound c st1 \<Longrightarrow> untouched c st1 st') \<Longrightarrow> untouched c st st'"
  using untouched_trans [of c st st1 st'] by (simp add: untouched_def)

lemma untouched_flush_batches:
  assumes "unbound c st" "\<forall>b \<in> set bs. eb_client_id b = c \<longrightarrow> eb_server_id b = []"
    "flush_batches hx token now bs n st srv = (m, err, st', srv')"
  shows "untouched c st st'"
  using assms
proof (induction bs arbitrary: n st srv)
  case (Cons b bs)
  from Cons.prems(3) show ?case
  proof (cases rule: flush_batches_cases)
    case (sent v a srv1)
    with Cons.prems have "eb_client_id b \<noteq> c" using sent_elsewhere [OF Cons.prems(1) sent(1,2)] by simp
    from untouched_next [OF Cons.prems(1) untouched_AckEvents [OF this, of st now a]] Cons.IH [OF _ _ sent(3)] Cons.prems(2)
    show ?thesis by simp
  qed (use Cons in \<open>simp_all add: untouched_refl\<close>)
qed (simp add: untouched_refl)

lemma untouched_flushEvents:
  assumes "unbound c st" "flushEvents hx token now st srv = (m, err, st', srv')"
  shows "untouched c st st'"
proof (rule untouched_flush_batches [OF assms(1) _ assms(2) [unfolded flushEvents_def]], intro ballI impI)
  fix b assume b: "b \<in> set (event_batches (ListPendingEvents st 500))" "eb_client_id b = c"
  show "eb_server_id b = []"
  proof (rule batch_server [OF b(1)], rule ballI)
    fix e assume "e \<in> set (eb_events b)"
    then obtain r where "r \<in> set (st_outbox st)" "ox_client_session_id r = c" "e = outbox_event r"
      using batch_rows [OF b(1)] b(2) by (metis zero_less_numeral)
    with assms(1) show "oq_server_session_id e = []" by (simp add: unbound_def)
  qed
qed

text \<open>The rows of a queue that a loop goes through do not share a key with the rows of the session.\<close>

definition apart :: "('r \<Rightarrow> string) \<Rightarrow> ('r \<Rightarrow> string) \<Rightarrow> ('r \<Rightarrow> string) \<Rightarrow> string \<Rightarrow> 'r list \<Rightarrow> 'r list \<Rightarrow> bool" where
  "apart key client server c rows xs \<longleftrightarrow> (\<forall>x \<in> set xs. (client x = c \<longrightarrow> server x = []) \<and>
     (client x \<noteq> c \<longrightarrow> (\<forall>r \<in> set (filter (\<lambda>r. client r = c) rows). key r \<noteq> key x)))"

lemma apart_pending:
  assumes "unique_key key rows" "\<forall>r \<in> set rows. client r = c \<longrightarrow> server r = []"
  shows "apart key client server c rows (sort_key t (filter p rows))"
  using assms unique_key_eq [OF assms(1)] unfolding apart_def by fastforce

lemma apart_Cons: "apart key client server c rows (x # xs) \<longleftrightarrow>
   (client x = c \<longrightarrow> server x = []) \<and> (client x \<noteq> c \<longrightarrow> (\<forall>r \<in> set rows. client r = c \<longrightarrow> key r \<noteq> key x)) \<and> apart key client server c rows xs"
  by (auto simp: apart_def)

lemma apart_cong: "filter (\<lambda>r. client r = c) rows' = filter (\<lambda>r. client r = c) rows \<Longrightarrow>
   apart key client server c rows' xs = apart key client server c rows xs"
  by (simp only: apart_def)

lemma apart_untouched:
  assumes "untouched c st st'"
  shows "apart key af_client_session_id server c (st_artifacts st') xs = apart key af_client_session_id server c (st_artifacts st) xs"
    "apart key' co_client_session_id server' c (st_completions st') ys = apart key' co_client_session_id server' c (st_completions st) ys"
    "apart key'' rp_client_session_id server'' c (st_responses st') zs = apart key'' rp_client_session_id server'' c (st_responses st) zs"
  using assms by (intro apart_cong, simp add: untouched_def queued_def)+

lemma flush_artifacts_cases:
  assumes "flush_artifacts hx token (a # xs) n st srv = (m, err, st', srv')"
  obtains (stop) "st' = st"
  | (skip) "flush_artifacts hx token xs n st srv = (m, err, st', srv')"
  | (sent) v srv1 where "resolve_server_id st (af_client_session_id a) (af_server_session_id a) = Inr v" "v \<noteq> []"
      "flush_artifacts hx token xs (Suc n) (MarkArtifactAcked (af_artifact_id a) st) srv1 = (m, err, st', srv')"
  using assms by (auto split: sum.splits if_splits prod.splits)

lemma untouched_flush_artifacts:
  assumes "unbound c st" "apart af_artifact_id af_client_session_id af_server_session_id c (st_artifacts st) xs"
    "flush_artifacts hx token xs n st srv = (m, err, st', srv')"
  shows "untouched c st st'"
  using assms
proof (induction xs arbitrary: n st srv)
  case (Cons a xs)
  note own = Cons.prems(2) [unfolded apart_Cons]
  from Cons.prems(3) show ?case
  proof (cases rule: flush_artifacts_cases)
    case (sent v srv1)
    with own have "af_client_session_id a \<noteq> c" using sent_elsewhere [OF Cons.prems(1) sent(1,2)] by simp
    with own have u: "untouched c st (MarkArtifactAcked (af_artifact_id a) st)" by (intro untouched_MarkArtifactAcked) simp
    from untouched_next [OF Cons.prems(1) u] Cons.IH [OF _ _ sent(3)] own show ?thesis by (simp add: apart_untouched [OF u])
  qed (use Cons own in \<open>simp_all add: untouched_refl\<close>)
qed (simp add: untouched_refl)

lemma flush_responses_cases:
  assumes "flush_responses hx token now (a # xs) n st srv = (m, err, st', srv')"
  obtains (stop) "st' = st"
  | (skip) "flush_responses hx token now xs n st srv = (m, err, st', srv')"
  | (sent) v res srv1 where "resolve_server_id st (rp_client_session_id a) (rp_server_session_id a) = Inr v" "v \<noteq> []"
      "flush_responses hx token now xs (Suc n) (MarkResponseAcked now (rp_submission_id a) res st) srv1 = (m, err, st', srv')"
  using assms by (auto split: sum.splits if_splits prod.splits)

lemma untouched_flush_responses:
  assumes "unbound c st" "apart rp_submission_id rp_client_session_id rp_server_session_id c (st_responses st) xs"
    "flush_responses hx token now xs n st srv = (m, err, st', srv')"
  shows "untouched c st st'"
  using assms
proof (induction xs arbitrary: n st srv)
  case (Cons a xs)
  note own = Cons.prems(2) [unfolded apart_Cons]
  from Cons.prems(3) show ?case
  proof (cases rule: flush_responses_cases)
    case (sent v res srv1)
    with own have "rp_client_session_id a \<noteq> c" using sent_elsewhere [OF Cons.prems(1) sent(1,2)] by simp
    with own have u: "untouched c st (MarkResponseAcked now (rp_submission_id a) res st)" by (intro untouched_MarkResponseAcked) simp
    from untouched_next [OF Cons.prems(1) u] Cons.IH [OF _ _ sent(3)] own show ?thesis by (simp add: apart_untouched [OF u])
  qed (use Cons own in \<open>simp_all add: untouched_refl\<close>)
qed (simp add: untouched_refl)

text \<open>A completion that was sent is settled_as by the answer, or as cancelled.\<close>

definition settled_as :: "time \<Rightarrow> CompletionIntent \<Rightarrow> Store \<Rightarrow> Store set" where
  "settled_as now k st = range (\<lambda>res. settle_completion now k res st) \<union>
     {set_session_state now (co_client_session_id k) ''cancelled_after_work''
       (MarkCompletionAcked now (co_completion_id k) (rejected_completion (co_request k)) st)}"

lemma settled_asI:
  "settle_completion now k res st \<in> settled_as now k st"
  "set_session_state now (co_client_session_id k) ''cancelled_after_work''
     (MarkCompletionAcked now (co_completion_id k) (rejected_completion (co_request k)) st) \<in> settled_as now k st"
  by (auto simp: settled_as_def)

lemma flush_completions_cases:
  assumes "flush_completions hx token now (a # xs) n st srv = (m, err, st', srv')"
  obtains (stop) "st' = st"
  | (skip) "flush_completions hx token now xs n st srv = (m, err, st', srv')"
  | (sent) v st1 srv1 where "resolve_server_id st (co_client_session_id a) (co_server_session_id a) = Inr v" "v \<noteq> []"
      "st1 \<in> settled_as now a st" "flush_completions hx token now xs (Suc n) st1 srv1 = (m, err, st', srv')"
proof -
  show thesis using assms
    by (auto split: sum.splits if_splits prod.splits intro: stop skip sent [OF _ _ settled_asI(1)] sent [OF _ _ settled_asI(2)])
qed

lemma untouched_settled_as:
  assumes "\<forall>r \<in> set (st_completions st). co_client_session_id r = c \<longrightarrow> co_completion_id r \<noteq> co_completion_id k" "st1 \<in> settled_as now k st"
  shows "untouched c st st1"
  using assms(2) untouched_settle_completion [OF assms(1)] untouched_trans [OF untouched_MarkCompletionAcked [OF assms(1)] untouched_set_session_state]
  unfolding settled_as_def by auto

lemma untouched_flush_completions:
  assumes "unbound c st" "apart co_completion_id co_client_session_id co_server_session_id c (st_completions st) xs"
    "flush_completions hx token now xs n st srv = (m, err, st', srv')"
  shows "untouched c st st'"
  using assms
proof (induction xs arbitrary: n st srv)
  case (Cons a xs)
  note own = Cons.prems(2) [unfolded apart_Cons]
  from Cons.prems(3) show ?case
  proof (cases rule: flush_completions_cases)
    case (sent v st1 srv1)
    with own have "co_client_session_id a \<noteq> c" using sent_elsewhere [OF Cons.prems(1) sent(1,2)] by simp
    with own have u: "untouched c st st1" by (intro untouched_settled_as [OF _ sent(3)]) simp
    from untouched_next [OF Cons.prems(1) u] Cons.IH [OF _ _ sent(4)] own show ?thesis by (simp add: apart_untouched [OF u])
  qed (use Cons own in \<open>simp_all add: untouched_refl\<close>)
qed (simp add: untouched_refl)

lemmas untouched_unbound = untouched_def [THEN iffD1, THEN conjunct2, THEN conjunct2, THEN conjunct1, rule_format]
  and untouched_keys = untouched_def [THEN iffD1, THEN conjunct2, THEN conjunct1, rule_format]

lemma untouched_flush_queues:
  assumes "unbound c st" "queue_keys st"
  shows "flushArtifacts hx token st srv = (m, err, st', srv') \<Longrightarrow> untouched c st st'"
    "flushCompletions hx token now st srv = (m, err, st', srv') \<Longrightarrow> untouched c st st'"
    "flushResponses hx token now st srv = (m, err, st', srv') \<Longrightarrow> untouched c st st'"
proof -
  have "apart af_artifact_id af_client_session_id af_server_session_id c (st_artifacts st) (ListPendingArtifacts st)"
    "apart co_completion_id co_client_session_id co_server_session_id c (st_completions st) (ListPendingCompletions st)"
    "apart rp_submission_id rp_client_session_id rp_server_session_id c (st_responses st) (ListPendingResponses st)"
    using assms unfolding ListPendingArtifacts_def ListPendingCompletions_def ListPendingResponses_def queue_keys_def unbound_def
    by (blast intro: apart_pending)+
  note loops = untouched_flush_artifacts [OF assms(1) this(1)] untouched_flush_completions [OF assms(1) this(2)]
    untouched_flush_responses [OF assms(1) this(3)]
  show "flushArtifacts hx token st srv = (m, err, st', srv') \<Longrightarrow> untouched c st st'"
    unfolding flushArtifacts_def by (rule loops(1))
  show "flushCompletions hx token now st srv = (m, err, st', srv') \<Longrightarrow> untouched c st st'"
    unfolding flushCompletions_def by (rule loops(2))
  show "flushResponses hx token now st srv = (m, err, st', srv') \<Longrightarrow> untouched c st st'"
    unfolding flushResponses_def by (rule loops(3))
qed

lemma untouched_flush_all:
  assumes "unbound c st" "queue_keys st" "flush_all hx now res l st srv = (r, st', srv')"
  shows "untouched c st st'"
proof -
  obtain n1 e1 st1 srv1 where f1: "flushEvents hx (lo_token l) now st srv = (n1, e1, st1, srv1)" by (rule prod_cases4)
  obtain n2 e2 st2 srv2 where f2: "flushArtifacts hx (lo_token l) st1 srv1 = (n2, e2, st2, srv2)" by (rule prod_cases4)
  obtain n3 e3 st3 srv3 where f3: "flushCompletions hx (lo_token l) now st2 srv2 = (n3, e3, st3, srv3)" by (rule prod_cases4)
  obtain n4 e4 st4 srv4 where f4: "flushResponses hx (lo_token l) now st3 srv3 = (n4, e4, st4, srv4)" by (rule prod_cases4)
  have u1: "untouched c st st1" by (rule untouched_flushEvents [OF assms(1) f1])
  note k1 = untouched_unbound [OF u1 assms(1)] untouched_keys [OF u1 assms(2)]
  have u2: "untouched c st1 st2" by (rule untouched_flush_queues(1) [OF k1 f2])
  note k2 = untouched_unbound [OF u2 k1(1)] untouched_keys [OF u2 k1(2)]
  have u3: "untouched c st2 st3" by (rule untouched_flush_queues(2) [OF k2 f3])
  note k3 = untouched_unbound [OF u3 k2(1)] untouched_keys [OF u3 k2(2)]
  have u4: "untouched c st3 st4" by (rule untouched_flush_queues(3) [OF k3 f4])
  have "st' \<in> {st1, st2, st3, st4}"
    using assms(3) by (auto simp: flush_all_def Let_def f1 f2 f3 f4 split: option.splits)
  then show ?thesis using u1 u2 u3 u4 untouched_trans by blast
qed

lemma pull_keeps_rows:
  assumes "pull_pages n hx token now after mode pulled final st srv = Some (r, st', srv')"
  shows "untouched c st st'"
  using assms
proof (induction n arbitrary: after mode pulled final st srv)
  case (Suc n)
  obtain p st1 srv1 where f: "fetch_page hx token after mode st srv = (p, st1, srv1)" by (rule prod_cases3)
  have "untouched c st st1"
    using f by (auto simp: fetch_page_def Let_def SetMeta_def ResetWorkSyncCursor_def BeginWorkPage_def untouched_refl
      split: prod.splits sum.splits if_splits intro!: untouched_same_rows)
  moreover have "untouched c st1 (ApplyWorkPage now items cur m st1)" for items cur m
    by (rule untouched_same_rows) (simp_all add: ApplyWorkPage_def Let_def SetMeta_def)
  ultimately have u: "untouched c st (ApplyWorkPage now items cur m st1)" for items cur m by (rule untouched_trans)
  show ?case
  proof (cases p)
    case (Inl e)
    with Suc.prems f \<open>untouched c st st1\<close> show ?thesis by simp
  next
    case (Inr q)
    obtain after1 mode1 work where q: "q = (after1, mode1, work)" by (rule prod_cases3)
    show ?thesis using Suc.prems
      by (auto simp: f Inr q Let_def u split: if_splits intro: untouched_trans [OF u Suc.IH])
  qed
qed simp

lemma untouched_SyncOnce:
  assumes "unbound c st" "queue_keys st" "SyncOnce n hx now l st srv = Some (r, st', srv')"
  shows "untouched c st st'"
proof -
  have pull: "untouched c st st1" if pw: "pullWork n hx token now st srv0 = Some (x, st1, srv1)" for token srv0 x st1 srv1
  proof -
    obtain after mode where s: "pull_start (GetWorkSyncState st) = (after, mode)" by (rule prod.exhaust)
    have b: "untouched c st (BeginWorkPage mode st)"
      by (rule untouched_same_rows) (simp_all add: BeginWorkPage_def Let_def SetMeta_def)
    obtain y st0 srv2 where p: "pull_pages n hx token now after mode 0 after (BeginWorkPage mode st) srv0 = Some (y, st0, srv2)"
      using pw by (cases "pull_pages n hx token now after mode 0 after (BeginWorkPage mode st) srv0") (auto simp: pullWork_def s)
    have u: "untouched c st st0" by (rule untouched_trans [OF b pull_keeps_rows [OF p]])
    have "untouched c st0 (CommitWorkSync now f m st0)" for f m
      by (rule untouched_same_rows) (simp_all add: CommitWorkSync_def Let_def SetMeta_def)
    with pw u show ?thesis by (auto simp: pullWork_def s p split: prod.splits sum.splits intro: untouched_trans)
  qed
  have flushed: "untouched c st st2" if "untouched c st st1" "flush_all hx now res k st1 srv1 = (x, st2, srv2)" for res k st1 srv1 x st2 srv2
    using untouched_trans [OF that(1) untouched_flush_all [OF untouched_unbound [OF that(1) assms(1)] untouched_keys [OF that(1) assms(2)] that(2)]] .
  show ?thesis using assms(3)
    by (auto simp: SyncOnce_def Let_def untouched_refl split: prod.splits sum.splits option.splits
      intro: pull flushed [OF pull])
qed

section \<open>Any number of passes\<close>

text \<open>
  What a workstation does to its store: synchronisation passes against any network and server, opening a session
  under a new identifier, and the engine's operations on its sessions, whose server session is that of the stored
  session; identifiers drawn for completions and responses are new.
\<close>

inductive station_step :: "Store \<Rightarrow> Store \<Rightarrow> bool" where
  pass: "SyncOnce n (hx :: lms_db transport) now l st srv = Some (r, st', srv') \<Longrightarrow> station_step st st'"
| opened: "cid \<notin> cs_client_session_id ` set (st_sessions st) \<Longrightarrow>
    station_step st (SaveSession now (fresh_session cid sid item ws) st)"
| enqueued: "EnqueueEvent now cid ev st = (Inr ev', st') \<Longrightarrow> station_step st st'"
| resumed: "Store_GetSession st cid = Inr row \<Longrightarrow> station_step st (resumed_row now row st)"
| paused: "Session_Pause now s st = (Inr (), st') \<Longrightarrow> station_step st st'"
| responded: "Store_GetSession st (es_client_session_id s) = Inr row \<Longrightarrow> es_server_session_id s = cs_server_session_id row \<Longrightarrow>
    i \<notin> rp_submission_id ` set (st_responses st) \<Longrightarrow> Session_SubmitResponse now i s task body st = (Inr (), st') \<Longrightarrow> station_step st st'"
| completed: "Store_GetSession st (es_client_session_id s) = Inr row \<Longrightarrow> es_server_session_id s = cs_server_session_id row \<Longrightarrow>
    i \<notin> co_completion_id ` set (st_completions st) \<Longrightarrow>
    Session_Complete now i e digest ready obs s st = (Inr (), s', st') \<Longrightarrow> station_step st st'"

text \<open>The session exists, has no server session, and nothing of its work is acknowledged.\<close>

definition waiting :: "string \<Rightarrow> Store \<Rightarrow> bool" where
  "waiting c st \<longleftrightarrow> c \<in> cs_client_session_id ` set (st_sessions st) \<and> unbound c st \<and> queue_keys st \<and>
     (case queued c st of (evs, cmps, arts, rs) \<Rightarrow>
        list_all (\<lambda>r. \<not> ox_acked r) evs \<and> list_all (\<lambda>r. \<not> co_acked r) cmps \<and>
        list_all (\<lambda>r. \<not> af_acked r) arts \<and> list_all (\<lambda>r. \<not> rp_acked r) rs)"

text \<open>Everything the session has queued is still there, unchanged.\<close>

definition still_queued :: "string \<Rightarrow> Store \<Rightarrow> Store \<Rightarrow> bool" where
  "still_queued c st st' \<longleftrightarrow> (case queued c st of (evs, cmps, arts, rs) \<Rightarrow> case queued c st' of (evs', cmps', arts', rs') \<Rightarrow>
     prefix evs evs' \<and> prefix cmps cmps' \<and> prefix arts arts' \<and> prefix rs rs')"

lemma still_queued_trans: "still_queued c st st' \<Longrightarrow> still_queued c st' st'' \<Longrightarrow> still_queued c st st''"
  unfolding still_queued_def by (auto split: prod.splits intro: prefix_order.trans)

lemma waiting_untouched:
  assumes "waiting c st" "untouched c st st'"
  shows "waiting c st' \<and> still_queued c st st'"
  using assms by (auto simp: waiting_def untouched_def still_queued_def)

lemma waiting_grows:
  assumes "waiting c st" "queued c st = (evs, cmps, arts, rs)" "queued c st' = (evs @ evs', cmps @ cmps', arts, rs @ rs')"
    "list_all (\<lambda>r. ox_server_session_id r = [] \<and> \<not> ox_acked r) evs'" "list_all (\<lambda>r. co_server_session_id r = [] \<and> \<not> co_acked r) cmps'"
    "list_all (\<lambda>r. rp_server_session_id r = [] \<and> \<not> rp_acked r) rs'" "queue_keys st'"
    "(\<lambda>s. (cs_client_session_id s, cs_server_session_id s)) ` set (st_sessions st') =
       (\<lambda>s. (cs_client_session_id s, cs_server_session_id s)) ` set (st_sessions st)"
  shows "waiting c st' \<and> still_queued c st st'"
proof -
  have "c \<in> cs_client_session_id ` set (st_sessions st')" using assms(1) arg_cong [OF assms(8), of "image fst"]
    by (simp add: waiting_def image_image)
  moreover have "cs_server_session_id s = []" if "s \<in> set (st_sessions st')" "cs_client_session_id s = c" for s
  proof -
    from that(1) assms(8) obtain t where "t \<in> set (st_sessions st)" "cs_client_session_id t = cs_client_session_id s"
      "cs_server_session_id t = cs_server_session_id s" by (metis (mono_tags, lifting) image_iff prod.inject)
    with assms(1) that(2) show ?thesis by (simp add: waiting_def unbound_def)
  qed
  ultimately have "waiting c st'"
    using assms(1,4-7) unfolding waiting_def unbound_queued assms(2,3) by (auto simp: list_all_iff)
  then show ?thesis by (simp add: still_queued_def assms(2,3))
qed

lemma got_session: "Store_GetSession st c = Inr row \<Longrightarrow> row \<in> set (st_sessions st) \<and> cs_client_session_id row = c"
  by (auto simp: Store_GetSession_def split: option.splits dest: find_Some_in)

lemma waiting_state:
  assumes "waiting c st" "Store_GetSession st cid = Inr row"
  shows "waiting c (SaveSession now (row\<lparr>cs_state := state\<rparr>) st) \<and> still_queued c st (SaveSession now (row\<lparr>cs_state := state\<rparr>) st)"
  using got_session [OF assms(2)] by (intro waiting_untouched [OF assms(1)] untouched_SaveSession) (auto simp: unbound_def)

lemma waiting_enqueue:
  assumes "waiting c st" "EnqueueEvent now cid ev st = (Inr ev', st')"
  shows "waiting c st' \<and> still_queued c st st'"
proof -
  obtain sess where s: "List.find (\<lambda>r. cs_client_session_id r = cid) (st_sessions st) = Some sess"
    using assms(2) by (cases "List.find (\<lambda>r. cs_client_session_id r = cid) (st_sessions st)") (auto simp: EnqueueEvent_def)
  let ?row = "new_outbox_row now (Suc (length (st_outbox st))) cid (cs_server_session_id sess) (complete_event now (cs_next_sequence sess) ev)"
  obtain n where st': "st' = st\<lparr>st_outbox := st_outbox st @ [?row], st_sessions := update_where (\<lambda>r. cs_client_session_id r = cid)
      (\<lambda>r. r\<lparr>cs_next_sequence := n, cs_updated_at := now\<rparr>) (st_sessions st)\<rparr>"
    using assms(2) s by (auto simp: EnqueueEvent_def Let_def split: if_splits)
  have own: "cid = c \<Longrightarrow> cs_server_session_id sess = []"
    using find_Some_in [OF s] assms(1) by (simp add: waiting_def unbound_def)
  obtain evs cmps arts rs where q: "queued c st = (evs, cmps, arts, rs)" by (rule prod_cases4)
  have "queued c st' = (evs @ (if cid = c then [?row] else []), cmps @ [], arts, rs @ [])"
    using q by (simp add: st' queued_def new_outbox_row_def)
  then show ?thesis
  proof (rule waiting_grows [OF assms(1) q])
    show "queue_keys st'" using assms(1) by (simp add: waiting_def queue_keys_def st')
    show "(\<lambda>s. (cs_client_session_id s, cs_server_session_id s)) ` set (st_sessions st') =
        (\<lambda>s. (cs_client_session_id s, cs_server_session_id s)) ` set (st_sessions st)"
      by (simp add: st' image_update_where)
  qed (use own in \<open>simp_all add: new_outbox_row_def\<close>)
qed

lemma upsert_new: "key row \<notin> key ` set rows \<Longrightarrow> upsert key row f rows = rows @ [row]"
  unfolding upsert_def list_ex_iff by (metis imageI)

lemma waiting_completion:
  assumes "waiting c st" "Store_GetSession st cid = Inr row" "cq_completion_id req \<notin> co_completion_id ` set (st_completions st)"
  shows "waiting c (SaveCompletionIntent now cid (cs_server_session_id row) req st) \<and>
    still_queued c st (SaveCompletionIntent now cid (cs_server_session_id row) req st)"
proof -
  have own: "cid = c \<Longrightarrow> cs_server_session_id row = []"
    using got_session [OF assms(2)] assms(1) by (simp add: waiting_def unbound_def)
  obtain evs cmps arts rs where q: "queued c st = (evs, cmps, arts, rs)" by (rule prod_cases4)
  let ?k = "\<lparr>co_completion_id = cq_completion_id req, co_client_session_id = cid, co_server_session_id = cs_server_session_id row,
    co_request = req, co_response = None, co_acked = False, co_created_at = now, co_updated_at = now\<rparr>"
  have new: "st_completions (SaveCompletionIntent now cid (cs_server_session_id row) req st) = st_completions st @ [?k]"
    using assms(3) by (simp add: SaveCompletionIntent_def upsert_new)
  have "queued c (SaveCompletionIntent now cid (cs_server_session_id row) req st) =
      (evs @ [], cmps @ (if cid = c then [?k] else []), arts, rs @ [])"
    using q by (simp add: queued_def new) (auto simp: SaveCompletionIntent_def)
  then show ?thesis
    by (rule waiting_grows [OF assms(1) q])
      (use own assms(1,3) new in \<open>auto simp: queue_keys_def waiting_def SaveCompletionIntent_def unique_key_def\<close>)
qed

lemma waiting_response:
  assumes "waiting c st" "Store_GetSession st cid = Inr row" "sb_submission_id req \<notin> rp_submission_id ` set (st_responses st)"
  shows "waiting c (SaveResponseIntent now cid (cs_server_session_id row) req st) \<and>
    still_queued c st (SaveResponseIntent now cid (cs_server_session_id row) req st)"
proof -
  have own: "cid = c \<Longrightarrow> cs_server_session_id row = []"
    using got_session [OF assms(2)] assms(1) by (simp add: waiting_def unbound_def)
  obtain evs cmps arts rs where q: "queued c st = (evs, cmps, arts, rs)" by (rule prod_cases4)
  let ?k = "\<lparr>rp_submission_id = sb_submission_id req, rp_client_session_id = cid, rp_server_session_id = cs_server_session_id row,
    rp_task_id = sb_task_id req, rp_request = req, rp_response = None, rp_acked = False, rp_created_at = now, rp_updated_at = now\<rparr>"
  have new: "st_responses (SaveResponseIntent now cid (cs_server_session_id row) req st) = st_responses st @ [?k]"
    using assms(3) by (simp add: SaveResponseIntent_def upsert_new)
  have "queued c (SaveResponseIntent now cid (cs_server_session_id row) req st) =
      (evs @ [], cmps @ [], arts, rs @ (if cid = c then [?k] else []))"
    using q by (simp add: queued_def new) (auto simp: SaveResponseIntent_def)
  then show ?thesis
    by (rule waiting_grows [OF assms(1) q])
      (use own assms(1,3) new in \<open>auto simp: queue_keys_def waiting_def SaveResponseIntent_def unique_key_def\<close>)
qed

lemma waiting_then: "waiting c st1 \<and> still_queued c st st1 \<Longrightarrow> (waiting c st1 \<Longrightarrow> waiting c st2 \<and> still_queued c st1 st2) \<Longrightarrow>
   waiting c st2 \<and> still_queued c st st2"
  using still_queued_trans by blast

lemma waiting_same:
  assumes "waiting c st" "st_sessions st' = st_sessions st" "st_outbox st' = st_outbox st" "st_completions st' = st_completions st"
    "st_artifacts st' = st_artifacts st" "st_responses st' = st_responses st"
  shows "waiting c st' \<and> still_queued c st st'"
  by (rule waiting_untouched [OF assms(1) untouched_same_rows [OF assms(2-6)]])

lemma waiting_Session_SubmitResponse:
  assumes "waiting c st" "Store_GetSession st (es_client_session_id s) = Inr row" "es_server_session_id s = cs_server_session_id row"
    "i \<notin> rp_submission_id ` set (st_responses st)" "Session_SubmitResponse now i s task body st = (Inr (), st')"
  shows "waiting c st' \<and> still_queued c st st'"
proof -
  let ?req = "\<lparr>sb_schema_version = ResponseSchemaVersion, sb_submission_id = i, sb_task_id = task, sb_body = trim_space body,
    sb_client_time = now, sb_request_digest = []\<rparr>"
  have st': "st' = SaveResponseDraft now (es_client_session_id s) task (trim_space body)
      (SaveResponseIntent now (es_client_session_id s) (cs_server_session_id row) ?req st)"
    using assms(3,5) by (auto simp: Session_SubmitResponse_def Let_def split: if_splits option.splits)
  have "sb_submission_id ?req \<notin> rp_submission_id ` set (st_responses st)" using assms(4) by simp
  from waiting_response [OF assms(1,2) this] show ?thesis
    unfolding st' by (rule waiting_then) (rule waiting_same, simp_all add: SaveResponseDraft_def)
qed

lemma waiting_Session_Complete:
  assumes "waiting c st" "Store_GetSession st (es_client_session_id s) = Inr row" "es_server_session_id s = cs_server_session_id row"
    "i \<notin> co_completion_id ` set (st_completions st)" "Session_Complete now i e digest ready obs s st = (Inr (), s', st')"
  shows "waiting c st' \<and> still_queued c st st'"
proof (cases "es_completed s")
  case True
  with assms(1,5) show ?thesis by (simp add: Session_Complete_def still_queued_def split: prod.splits)
next
  case False
  let ?cid = "es_client_session_id s"
  let ?st1 = "SaveCompletionIntent now ?cid (cs_server_session_id row) (completion_request now i digest obs s) st"
  let ?ev = "engine_event e EventSessionCompleted [(''completionId'', AnyString i)] now"
  obtain ev' st2 where e: "EnqueueEvent now ?cid ?ev ?st1 = (Inr ev', st2)"
      and st': "st' = DeleteRunnerState ?cid (set_session_state now ?cid ''completed'' st2)"
    using assms(3,5) False by (auto simp: Session_Complete_def Let_def split: if_splits prod.splits sum.splits)
  have "waiting c ?st1 \<and> still_queued c st ?st1"
    by (rule waiting_completion [OF assms(1,2)]) (use assms(4) in \<open>simp add: completion_request_def\<close>)
  then have "waiting c st2 \<and> still_queued c st st2" by (rule waiting_then) (rule waiting_enqueue [OF _ e])
  then have "waiting c (set_session_state now ?cid ''completed'' st2) \<and> still_queued c st (set_session_state now ?cid ''completed'' st2)"
    by (rule waiting_then) (rule waiting_untouched [OF _ untouched_set_session_state])
  then show ?thesis unfolding st' by (rule waiting_then) (rule waiting_same, simp_all add: DeleteRunnerState_def)
qed

lemma step_waiting: "station_step st st' \<Longrightarrow> waiting c st \<Longrightarrow> waiting c st' \<and> still_queued c st st'"
proof (induction rule: station_step.induct)
  case (pass n hx now l st srv r st' srv')
  then have "untouched c st st'" by (intro untouched_SyncOnce) (simp_all add: waiting_def)
  with pass.prems show ?case by (rule waiting_untouched)
next
  case (opened cid st now sid item ws)
  then have "cid \<noteq> c" by (auto simp: waiting_def)
  then show ?case by (intro waiting_untouched [OF opened.prems] untouched_SaveSession) (simp add: fresh_session_def)
next
  case (paused now s st st')
  then obtain row where "Store_GetSession st (es_client_session_id s) = Inr row" "st' = SaveSession now (row\<lparr>cs_state := ''paused''\<rparr>) st"
    by (auto simp: Session_Pause_def split: sum.splits)
  with waiting_state [OF paused.prems] show ?case by simp
next
  case (enqueued now cid ev st ev' st')
  then show ?case by (intro waiting_enqueue)
next
  case (resumed st cid row now)
  then show ?case unfolding resumed_row_def by (intro waiting_state)
next
  case (responded st s row i now task body st')
  from waiting_Session_SubmitResponse [OF responded.prems responded.hyps] show ?case .
next
  case (completed st s row i now e digest ready obs s' st')
  from waiting_Session_Complete [OF completed.prems completed.hyps] show ?case .
qed

text \<open>
  C37. A session that was opened without the server never reaches it: whatever the workstation does afterwards,
  however often it synchronises, with whatever network and server, and even when it resumes, pauses or completes
  the session, the session never gets a server session, everything it has queued stays queued, and nothing of it is
  ever acknowledged.
\<close>
theorem unbound_session_never_served:
  assumes "station_step\<^sup>*\<^sup>* st st'" "waiting c st"
  shows "waiting c st' \<and> still_queued c st st'"
  using assms
proof (induction rule: rtranclp_induct)
  case base
  then show ?case by (simp add: still_queued_def split: prod.splits)
next
  case (step y z)
  from step.IH [OF step.prems] show ?case by (rule waiting_then) (rule step_waiting [OF step.hyps(2)])
qed

text \<open>An activity opened offline, its first event, and a pass with a server that is reachable again.\<close>

definition ex_off1 :: Store where
  "ex_off1 = SaveSession 100 (fresh_session ''local-1'' [] ex_work_item ''/w'') migrate"

definition ex_off2 :: Store where
  "ex_off2 = snd (EnqueueEvent 110 ''local-1'' (engine_event ''a'' ''session_started'' [] 110) ex_off1)"

definition ex_idle :: "lms_db transport" where
  "ex_idle = ex_hx\<lparr>hx_work := (\<lambda>_ _ db. (Inr \<lparr>rs_code = 200, rs_body = ''{}'', rs_value = Some zero_work\<rparr>, db))\<rparr>"

definition ex_off3 :: Store where
  "ex_off3 = fst (snd (the (SyncOnce 1 ex_idle 120 (New ''tok'') ex_off2 ex_lms)))"

lemma ex_idle_pass: "\<exists>x. SyncOnce 1 ex_idle 120 (New ''tok'') st srv = Some x"
proof -
  have w: "Work ex_idle ''tok'' after DefaultWorkPageLimit srv =
      (Inr (zero_work\<lparr>wp_mode := (if after = [] then WorkModeSnapshot else WorkModeIncremental)\<rparr>), srv)" for after srv
    by (simp add: Work_def doJSON_def ex_idle_def read_response_def zero_work_def)
  have p: "\<exists>y st1. pull_pages 1 ex_idle ''tok'' 120 after mode 0 after st srv = Some (Inr y, st1, srv)" for after mode st srv
    by (simp add: fetch_page_def w Let_def page_has_more_def zero_work_def)
  have "\<exists>y st1. pullWork 1 ex_idle ''tok'' 120 st srv = Some (Inr y, st1, srv)" for st srv
    using p unfolding pullWork_def by (force split: prod.splits)
  then obtain y st1 where "pullWork 1 ex_idle ''tok'' 120 st (snd (ReportCapabilities ex_idle ''tok'' srv)) =
      Some (Inr y, st1, snd (ReportCapabilities ex_idle ''tok'' srv))" by blast
  then show ?thesis by (simp add: SyncOnce_def set_status_def ensureToken_def New_def Let_def del: split_paired_Ex)
qed

theorem unbound_session_never_served_witness:
  "waiting ''local-1'' ex_off3 \<and> still_queued ''local-1'' ex_off2 ex_off3 \<and> queued ''local-1'' ex_off2 \<noteq> ([], [], [], [])"
proof -
  obtain x where "SyncOnce 1 ex_idle 120 (New ''tok'') ex_off2 ex_lms = Some x" using ex_idle_pass by blast
  then have "SyncOnce 1 ex_idle 120 (New ''tok'') ex_off2 ex_lms = Some (fst x, ex_off3, snd (snd x))" by (simp add: ex_off3_def)
  then have p: "station_step ex_off2 ex_off3" by (rule station_step.pass)
  have "map cs_client_session_id (st_sessions ex_off2) = [''local-1'']" by code_simp
  then have "''local-1'' \<in> cs_client_session_id ` set (st_sessions ex_off2)" by (metis list.set_intros(1) list.set_map)
  moreover have "unbound ''local-1'' ex_off2" "queue_keys ex_off2" "case queued ''local-1'' ex_off2 of (evs, cmps, arts, rs) \<Rightarrow>
        list_all (\<lambda>r. \<not> ox_acked r) evs \<and> list_all (\<lambda>r. \<not> co_acked r) cmps \<and>
        list_all (\<lambda>r. \<not> af_acked r) arts \<and> list_all (\<lambda>r. \<not> rp_acked r) rs" by code_simp+
  ultimately have "waiting ''local-1'' ex_off2" unfolding waiting_def by blast
  with unbound_session_never_served [OF r_into_rtranclp [of station_step, OF p]]
  have "waiting ''local-1'' ex_off3 \<and> still_queued ''local-1'' ex_off2 ex_off3" by blast
  moreover have "queued ''local-1'' ex_off2 \<noteq> ([], [], [], [])" by code_simp
  ultimately show ?thesis by blast
qed

end
