(* ===== verification/Spec2Isabelle.thy ===== *)
theory Spec2Isabelle
  imports TV_System Typing Mastery_Growth Identity_Refresh_Props Identity_Codes_Props Studio_Props Tasks_Materialize_Props Tasks_Jobs_Props Client_Progress Client_Offline
begin

text \<open>
  \<^bold>\<open>Primer: a verification library for its Go services.\<close>

  Primer is a homeschooling system made of services with a database each: the learning server (LMS) keeps students, standards, sessions and
  mastery; the TV server rations entertainment, runs a programmed channel and reports watched lessons to the LMS; the student workstation runs
  activities; the identity service signs people in and issues tokens; Curriculum Studio authors curricula and tells other systems about it; the tasks service
  schedules tasks and runs an agent for parents.  The library models the operations of these services as functions on
  explicit tables and proves what the services promise.

  \<^bold>\<open>How the code is translated.\<close>  A struct is a record, a table is a list of rows in insertion order, and a database is a record of tables.  A handler or
  repository function is one function that takes the tables and returns an error or a result (\<open>error + 'a\<close>) together with the tables afterwards; every early
  return is a branch.  A statement that would violate a \<^verbatim>\<open>CHECK\<close>, a unique index or a foreign key of the migrations fails, and the transaction
  around it leaves the tables as they were.  Identifiers that the database or a generator produces, clocks, and what may go wrong outside (lost requests, lost
  replies, failing commits) are arguments.  Integers are \<open>int\<close> where the code keeps them far from the limits of their type; \<^verbatim>\<open>float64\<close> is modelled with its rounding;
  instants are microseconds, the precision of the database; strings are byte strings, with UTF-8 decoding where the code ranges over runes.
  White space is trimmed and letter case folded in ASCII only, where Go also knows other letters and spaces; the validators of the model accept a little more than those of the code.

  \<^bold>\<open>Shared theories.\<close>
  \<^item> \<^verbatim>\<open>Prelude\<close>: identifiers, instants, errors, the functions of Go's \<^verbatim>\<open>strings\<close> that are used, tables (\<open>update_where\<close>, \<open>unique_key\<close>, \<open>keys\<close>), the locale
    \<open>ledger\<close> for tables written by \<^verbatim>\<open>INSERT ... ON CONFLICT DO NOTHING\<close>, and the locale of systems whose steps keep an invariant.
  \<^item> \<^verbatim>\<open>Float64\<close>: round-to-nearest-even arithmetic with its laws.  \<^verbatim>\<open>Utf8\<close>: decoding and encoding of runes as Go does it, and that encoding
    is inverted.  \<^verbatim>\<open>Go_Time\<close>: calendar dates, zones and \<^verbatim>\<open>AddDate\<close>.  \<^verbatim>\<open>Single_Use\<close>: the contract of credentials that are used once
    (locales \<open>single_use\<close> and \<open>token_families\<close>).  \<^verbatim>\<open>Lease\<close>: the contract of work held by a lease (locale \<open>leases\<close>), interpreted on webhook deliveries, tenants and agent jobs.
    \<^verbatim>\<open>Go_Zone\<close>: zones whose clock changes by an hour now and then within a window of time; UTC and the transition table of New York from 2025 on are shown to be such zones.  \<^verbatim>\<open>Go_RFC3339\<close>: formatting and parsing of instants, and that parsing inverts formatting.  \<^verbatim>\<open>Tables\<close>: transactions whose commit may fail or lose its reply, and queues.

  \<^bold>\<open>The TV server\<close> (\<^verbatim>\<open>src/server/internal/tv\<close>).
  \<^item> \<^verbatim>\<open>TV_Model\<close>: \<^verbatim>\<open>domain/domain.go\<close> and the tables; completion of a play at 80 per cent in float64 agrees with exact arithmetic.
  \<^item> \<^verbatim>\<open>TV_Schedule\<close>: \<^verbatim>\<open>repo/schedule.go\<close>, \<^verbatim>\<open>api/schedule.go\<close>, \<^verbatim>\<open>api/schedule_admin.go\<close>: the grid, programmed grants, guarded writes,
    copying weeks.  Two entries never overlap; a programmed grant is issued exactly for what is on air.
  \<^item> \<^verbatim>\<open>TV_Playback\<close>: \<^verbatim>\<open>repo/queries.go\<close>, \<^verbatim>\<open>api/device.go\<close>, \<^verbatim>\<open>api/auth.go\<close>: pairing, catalog, grants, sessions, the watch-once ledger.  Grants are
    redeemed once, progress is never lost, a finished play is charged once.
  \<^item> \<^verbatim>\<open>TV_Rotation\<close>: \<^verbatim>\<open>repo/rotation.go\<close> and its handlers.  \<^verbatim>\<open>TV_Reporter\<close>: the hours reporter over an unreliable network, against the interface of an LMS.
  \<^item> \<^verbatim>\<open>TV_System\<close>: TV server and LMS log as one step relation, edits and synchronisation of the media library included; in every reachable state a viewing is credited at most once and a spent play
    is never offered again, and the channel is one stream as long as the runtime of no item on the grid changes (a change of runtime is not checked against the grid).  Deleting items, windows and devices and editing
    windows through generic administration are not steps.

  \<^bold>\<open>The learning server\<close> (\<^verbatim>\<open>src/server/internal\<close>).
  \<^item> \<^verbatim>\<open>Instruction\<close>: \<^verbatim>\<open>repo/instruction_logs.go\<close> and the ingest handler; ingest is idempotent.
  \<^item> \<^verbatim>\<open>LMS_Model\<close>: the rows of student work and the evidence policies.  \<^verbatim>\<open>Learning_Session\<close>: \<^verbatim>\<open>repo/learning_session.go\<close>: starting and resuming sessions,
    the event log and its contiguous acknowledgement.
  \<^item> \<^verbatim>\<open>Mastery\<close>, \<^verbatim>\<open>Mastery_Laws\<close>, \<^verbatim>\<open>Mastery_Props\<close>, \<^verbatim>\<open>Mastery_Growth\<close>: \<^verbatim>\<open>mastery/apply.go\<close>: completions, responses and attestations.  Every rung of the mastery ladder rests on
    the evidence its policy asks for, records never fall, a session is completed once.  The invariants are interpretations of one locale of evidence steps.

  \<^bold>\<open>The student workstation\<close> (\<^verbatim>\<open>src/server/internal/studentclient\<close>).
  \<^item> \<^verbatim>\<open>Contracts\<close>, \<^verbatim>\<open>Contracts_Path\<close>, \<^verbatim>\<open>Contracts_Validate\<close>: activity documents, confined paths and the whole validator.  The depth-first search for
    prerequisite cycles agrees with acyclicity of the relation; its fuel is the number of tasks plus one, one more than the deepest call.
  \<^item> \<^verbatim>\<open>Typing\<close>: \<^verbatim>\<open>typing/session.go\<close>: keystrokes, counters, float64 metrics, observations, and restarting from saved state.
  \<^item> \<^verbatim>\<open>Client_Cache\<close>: \<^verbatim>\<open>cache/cache.go\<close>: the local database of work, sessions, the event outbox and the queues of completions, artifacts and responses.
    \<^verbatim>\<open>Client_Sync\<close>: \<^verbatim>\<open>api/client.go\<close> and \<^verbatim>\<open>sync/sync.go\<close>: a synchronisation pass against an arbitrary transport, which is a record of functions on the server's state.
    \<^verbatim>\<open>Client_Engine\<close>: what \<^verbatim>\<open>engine/session.go\<close> writes to the database.
  \<^item> \<^verbatim>\<open>Student_Work\<close>: the server's pages of the work queue (\<^verbatim>\<open>repo/learning.go\<close>).  \<^verbatim>\<open>Client_Pull\<close>: the download composed with them: a snapshot of any number of pages makes the cache equal to
    the server's list, with every other open item cancelled; the loop has fuel, and one request per hundred items and one more are enough.  A resumed snapshot loses its mode.
  \<^item> \<^verbatim>\<open>Client_Batches\<close>, \<^verbatim>\<open>Outbox_Protocol\<close>, \<^verbatim>\<open>Client_Fleet\<close>, \<^verbatim>\<open>Client_Fleet_Props\<close>, \<^verbatim>\<open>Client_Progress\<close>: any number of workstations and the server as one step relation: sessions are opened, events queued,
    batches listed, sent late or twice or not at all, answers lost or late.  \<open>Outbox_Protocol\<close> is the abstract protocol (who placed which event where) with the locale \<open>event_server\<close> for
    what a server must guarantee; it is interpreted on the event log of \<^verbatim>\<open>Learning_Session\<close>.  The row of a local session is read in one step and written back, counter included, in a later one; \<open>ft_reset\<close> records the sessions whose
    counter was set back that way.  For every other session no acknowledged event is lost, numbering has no gaps, and one that has its server session to itself makes progress; for those, \<open>stale_write_loses_event\<close> shows
    how an event is lost.  Assumed of the steps: identifiers drawn by a workstation are new, and a session has fewer events than the number from which the server numbers its own.
  \<^item> \<^verbatim>\<open>Client_Offline\<close>: what becomes of a session opened without the server.

  \<^bold>\<open>The identity service\<close> (\<^verbatim>\<open>src/primer-identity/internal\<close>).
  \<^item> \<^verbatim>\<open>Identity_Model\<close>: \<^verbatim>\<open>domain/oauth_broker.go\<close> and \<^verbatim>\<open>domain/oauth_token.go\<close>: rows and validators.
  \<^item> \<^verbatim>\<open>Identity_Refresh\<close>, \<^verbatim>\<open>Identity_Refresh_Laws\<close>, \<^verbatim>\<open>Identity_Refresh_Machine\<close>, \<^verbatim>\<open>Identity_Refresh_Props\<close>: \<^verbatim>\<open>repo/refresh.go\<close>: refresh-token families refine an abstract
    machine of one current token and spent ones; a token is redeemed once, reuse closes the family for good.
  \<^item> \<^verbatim>\<open>Identity_Retry\<close>: \<^verbatim>\<open>WithSerializableRetry\<close>: at most eight attempts, at most one run of the body takes effect.  The loop recurses on the attempts left.
  \<^item> \<^verbatim>\<open>Identity_Codes\<close>, \<^verbatim>\<open>Identity_Codes_Props\<close>: \<^verbatim>\<open>repo/oauth_broker.go\<close> and \<^verbatim>\<open>repo/oauth_token.go\<close>: broker transactions, callbacks, codes, assertion replays and audits.
    Codes and assertions are used once, broker transactions are decided once.  A callback leaves nothing or what \<open>callback_effect\<close> says, row by row: session, grant, code and authorization.

  \<^bold>\<open>Curriculum Studio\<close> (\<^verbatim>\<open>src/curriculum-studio/internal\<close>).
  \<^item> \<^verbatim>\<open>Studio_Outbox\<close>: \<^verbatim>\<open>repo/events.go\<close>: events, webhook endpoints, deliveries and idempotency keys.  \<^verbatim>\<open>Studio_Worker\<close>: \<^verbatim>\<open>outbox\<close>: fan-out, delivery with retries, envelopes and signatures.
  \<^item> \<^verbatim>\<open>Studio_Laws\<close>, \<^verbatim>\<open>Studio_Props\<close>: a fan-out adds exactly the deliveries of its event, a leased delivery is its worker's, an outcome is final, and draining the outbox ends: its fuel is the
    number of attempts that are left, and one more.  A delivery whose worker dies in the last attempt is never settled.  The retention job, which deletes old rows, is not a step.

  \<^bold>\<open>The tasks service\<close> (\<^verbatim>\<open>src/primer-tasks/internal\<close>).
  \<^item> \<^verbatim>\<open>Tasks_Recurrence\<close>, \<^verbatim>\<open>Tasks_Recurrence_Props\<close>: \<^verbatim>\<open>schedule/rrule.go\<close>: parsing rules and listing occurrences.  The loop agrees with the set of instants a rule selects, over wall times that a zone
    repeats or skips, in every zone that changes by an hour, at least four days apart, during the 4000 days the loop searches; the float64 count of days is exact, and slips by a week in the hour after midnight once the clocks have gone forward.
  \<^item> \<^verbatim>\<open>Tasks_Materialize\<close>, \<^verbatim>\<open>Tasks_Materialize_Props\<close>: \<^verbatim>\<open>schedule/worker.go\<close>: storing occurrences, once each whatever other workers do, and all of them when a pass succeeds and nobody changes the schedule or
    takes its tenant's lease meanwhile.
  \<^item> \<^verbatim>\<open>Tasks_Agent\<close>: \<^verbatim>\<open>agent/model.go\<close> and \<^verbatim>\<open>agent/repository.go\<close>: conversations, runs, events and confirmations, and the writes of \<^verbatim>\<open>api\<close> to runs.  \<^verbatim>\<open>Tasks_Jobs\<close>, \<^verbatim>\<open>Tasks_Jobs_Props\<close>: \<^verbatim>\<open>jobs/worker.go\<close>: claims under a
    limit on tenants, leases, retries; runs that are over stay so (only the names of provider and model may still be written), a confirmation is used once and only for what was confirmed, and a failed attempt ends the run though the job is tried again.

  \<^bold>\<open>Parameters.\<close>  Code outside the repository is an argument wherever it is used: regular expressions and float parsing of validators and typing, identifier
  generators, the digest of device tokens, the S256 transform of PKCE, UUID parsing, the zone table of a location and the loading of one, the receiver of
  webhooks with its secrets and MAC, the network between workstation and server, the runner of an activity, the handler of agent jobs, and what other processes do between the statements of a worker.  Where a property needs something of such an
  argument, its hypothesis says so, and its witness instantiates the argument.

  \<^bold>\<open>Not modelled.\<close>  HTTP transport, JSON and SQL text are I/O around the functions modelled; so are terminals, sandboxes, provider clients and language
  models.  Generated clients and front ends in other languages carry no logic of the services.  Still to be modelled, in this order: token exchange and signing keys of the
  identity service; dialogue verification of the tasks service; the workflow of Curriculum Studio; overseer and
  response review of the LMS; the content manifest and reconciliation.
\<close>

end
